(* ===== verification/Go_Float.thy ===== *)
theory Go_Float
  imports Complex_Main "HOL-Library.Log_Nat"
begin

text \<open>
  Go's \<open>float64\<close>: IEEE 754 binary64 with round-to-nearest-even, the arithmetic that every
  price and amount of the program goes through.  A finite value is the rational number it
  denotes (all binary64 numbers are rationals), so that every operation is "compute exactly,
  then round once", which is how the standard defines it; negative zero, the two infinities
  and NaN are constructors of their own.  \<open>fround\<close> is executable: it finds the binade of its
  argument, rounds the scaled significand to the nearest integer (ties to even) and scales
  back, with gradual underflow below \<open>2 powi (-1022)\<close> and overflow to infinity from
  \<open>2 powi 1024\<close>.

  Each Go operation is rounded separately (the language allows an implementation to fuse
  \<open>x*y + z\<close>; the baseline amd64 compiler does not, and neither does this model).  The order
  relations are those of the class \<open>ord\<close> only: with NaN they are no preorder, and every
  comparison with NaN is false, so \<open>a \<le> b\<close> is not \<open>\<not> b < a\<close>.
\<close>

section \<open>Values\<close>

datatype f64 = NaN | Inf bool | NegZero | Fin rat

text \<open>\<open>Inf True\<close> is minus infinity; \<open>Fin 0\<close> is positive zero.\<close>

fun fval :: "f64 \<Rightarrow> rat" where
  "fval (Fin q) = q"
| "fval _ = 0"

fun signbit :: "f64 \<Rightarrow> bool" where
  "signbit (Fin q) = (q < 0)"
| "signbit NegZero = True"
| "signbit (Inf s) = s"
| "signbit NaN = False"

fun is_finite :: "f64 \<Rightarrow> bool" where
  "is_finite (Fin q) = True"
| "is_finite NegZero = True"
| "is_finite _ = False"

section \<open>Rounding\<close>

text \<open>\<open>floor_log2 q\<close> is the exponent of the binade of a positive rational.\<close>

definition floor_log2 :: "rat \<Rightarrow> int" where
  "floor_log2 q =
     (let (n, d) = quotient_of q; e = bitlen n - bitlen d
      in if 2 powi e \<le> q then e else e - 1)"

text \<open>\<open>ulp_exp q\<close>: the exponent of the unit in the last place at \<open>q\<close>.\<close>

definition ulp_exp :: "rat \<Rightarrow> int" where
  "ulp_exp q = max (-1074) (floor_log2 \<bar>q\<bar> - 52)"

definition round_half_even :: "rat \<Rightarrow> int" where
  "round_half_even r =
     (let n = \<lfloor>r\<rfloor>; d = r - of_int n
      in if d < 1/2 then n else if 1/2 < d then n + 1 else if even n then n else n + 1)"

definition round53 :: "rat \<Rightarrow> rat" where
  "round53 q =
     (if q = 0 then 0
      else of_int (round_half_even (q / 2 powi ulp_exp q)) * 2 powi ulp_exp q)"

definition overflow_bound :: rat where
  "overflow_bound = 2 ^ 1024"

text \<open>\<open>fround s q\<close> rounds \<open>q\<close>; \<open>s\<close> is the sign of an exact zero result.\<close>

definition fround :: "bool \<Rightarrow> rat \<Rightarrow> f64" where
  "fround s q =
     (if q = 0 then (if s then NegZero else Fin 0)
      else let r = round53 q
        in if overflow_bound \<le> \<bar>r\<bar> then Inf (q < 0)
           else if r = 0 then (if q < 0 then NegZero else Fin 0)
           else Fin r)"

section \<open>Arithmetic and comparison\<close>

fun fneg :: "f64 \<Rightarrow> f64" where
  "fneg NaN = NaN"
| "fneg (Inf s) = Inf (\<not> s)"
| "fneg NegZero = Fin 0"
| "fneg (Fin q) = (if q = 0 then NegZero else Fin (- q))"

definition fadd :: "f64 \<Rightarrow> f64 \<Rightarrow> f64" where
  "fadd x y =
     (case (x, y) of
        (NaN, _) \<Rightarrow> NaN
      | (_, NaN) \<Rightarrow> NaN
      | (Inf s, Inf t) \<Rightarrow> (if s = t then Inf s else NaN)
      | (Inf s, _) \<Rightarrow> Inf s
      | (_, Inf t) \<Rightarrow> Inf t
      | _ \<Rightarrow> fround (signbit x \<and> signbit y) (fval x + fval y))"

definition fmul :: "f64 \<Rightarrow> f64 \<Rightarrow> f64" where
  "fmul x y =
     (let s = (signbit x \<noteq> signbit y)
      in case (x, y) of
        (NaN, _) \<Rightarrow> NaN
      | (_, NaN) \<Rightarrow> NaN
      | (Inf _, Inf _) \<Rightarrow> Inf s
      | (Inf _, _) \<Rightarrow> (if fval y = 0 then NaN else Inf s)
      | (_, Inf _) \<Rightarrow> (if fval x = 0 then NaN else Inf s)
      | _ \<Rightarrow> fround s (fval x * fval y))"

definition fdiv :: "f64 \<Rightarrow> f64 \<Rightarrow> f64" where
  "fdiv x y =
     (let s = (signbit x \<noteq> signbit y)
      in case (x, y) of
        (NaN, _) \<Rightarrow> NaN
      | (_, NaN) \<Rightarrow> NaN
      | (Inf _, Inf _) \<Rightarrow> NaN
      | (Inf _, _) \<Rightarrow> Inf s
      | (_, Inf _) \<Rightarrow> fround s 0
      | _ \<Rightarrow> (if fval y = 0 then (if fval x = 0 then NaN else Inf s)
               else fround s (fval x / fval y)))"

definition flt :: "f64 \<Rightarrow> f64 \<Rightarrow> bool" where
  "flt x y =
     (case (x, y) of
        (NaN, _) \<Rightarrow> False
      | (_, NaN) \<Rightarrow> False
      | (Inf s, Inf t) \<Rightarrow> s \<and> \<not> t
      | (Inf s, _) \<Rightarrow> s
      | (_, Inf t) \<Rightarrow> \<not> t
      | _ \<Rightarrow> fval x < fval y)"

text \<open>Go's \<open>==\<close> on floats (never HOL's equality: \<open>-0 == 0\<close>, \<open>NaN != NaN\<close>).\<close>

definition feq :: "f64 \<Rightarrow> f64 \<Rightarrow> bool" where
  "feq x y =
     (case (x, y) of
        (NaN, _) \<Rightarrow> False
      | (_, NaN) \<Rightarrow> False
      | (Inf s, Inf t) \<Rightarrow> s = t
      | (Inf s, _) \<Rightarrow> False
      | (_, Inf t) \<Rightarrow> False
      | _ \<Rightarrow> fval x = fval y)"

instantiation f64 :: "{zero, one, plus, minus, uminus, times, inverse, ord}"
begin

definition zero_f64 :: f64 where "zero_f64 = Fin 0"
definition one_f64 :: f64 where "one_f64 = Fin 1"
definition plus_f64 :: "f64 \<Rightarrow> f64 \<Rightarrow> f64" where "plus_f64 = fadd"
definition uminus_f64 :: "f64 \<Rightarrow> f64" where "uminus_f64 = fneg"
definition minus_f64 :: "f64 \<Rightarrow> f64 \<Rightarrow> f64" where "minus_f64 x y = fadd x (fneg y)"
definition times_f64 :: "f64 \<Rightarrow> f64 \<Rightarrow> f64" where "times_f64 = fmul"
definition divide_f64 :: "f64 \<Rightarrow> f64 \<Rightarrow> f64" where "divide_f64 = fdiv"
definition inverse_f64 :: "f64 \<Rightarrow> f64" where "inverse_f64 = fdiv (Fin 1)"
definition less_f64 :: "f64 \<Rightarrow> f64 \<Rightarrow> bool" where "less_f64 = flt"
definition less_eq_f64 :: "f64 \<Rightarrow> f64 \<Rightarrow> bool" where "less_eq_f64 x y = (flt x y \<or> feq x y)"

instance ..

end

text \<open>Conversions \<open>float64(i)\<close> from an integer, and the untyped integer constants.\<close>

definition f64_of_int :: "int \<Rightarrow> f64" where
  "f64_of_int i = fround False (of_int i)"

definition two_f64 :: f64 where "two_f64 = Fin 2"
definition hundred_f64 :: f64 where "hundred_f64 = Fin 100"

lemmas f64_arith_defs =
  zero_f64_def one_f64_def plus_f64_def minus_f64_def uminus_f64_def times_f64_def
  divide_f64_def fadd_def fmul_def fdiv_def
lemmas f64_order_defs = less_f64_def less_eq_f64_def flt_def feq_def

section \<open>Order laws\<close>

text \<open>
  On the values that are not NaN the comparisons are those of a linear preorder whose
  equivalence is \<open>feq\<close> (the two zeros are equivalent).
\<close>

lemma not_nan_cases:
  "x \<noteq> NaN \<longleftrightarrow> (\<exists>s. x = Inf s) \<or> is_finite x"
  by (cases x) auto

lemma finite_not_nan [simp]: "is_finite x \<Longrightarrow> x \<noteq> NaN"
  by auto

lemma f64_less_NaN [simp]: "\<not> NaN < x" "\<not> x < NaN"
  and f64_le_NaN [simp]: "\<not> NaN \<le> x" "\<not> x \<le> NaN"
  and feq_NaN [simp]: "\<not> feq NaN x" "\<not> feq x NaN"
  by (cases x; simp add: f64_order_defs)+

lemma f64_less_irrefl [simp]: "\<not> (x :: f64) < x"
  by (cases x) (auto simp: f64_order_defs)

lemma feq_refl: "x \<noteq> NaN \<Longrightarrow> feq x x"
  by (cases x) (auto simp: f64_order_defs)

lemma feq_sym: "feq x y \<longleftrightarrow> feq y x"
  by (cases x; cases y) (auto simp: f64_order_defs)

lemma feq_trans: "feq x y \<Longrightarrow> feq y z \<Longrightarrow> feq x z"
  by (cases x; cases y; cases z) (auto simp: f64_order_defs)

lemma f64_less_trans: "(x :: f64) < y \<Longrightarrow> y < z \<Longrightarrow> x < z"
  by (cases x; cases y; cases z) (auto simp: f64_order_defs)

lemma f64_less_asym: "(x :: f64) < y \<Longrightarrow> \<not> y < x"
  by (cases x; cases y) (auto simp: f64_order_defs)

lemma f64_le_trans: "(x :: f64) \<le> y \<Longrightarrow> y \<le> z \<Longrightarrow> x \<le> z"
  by (cases x; cases y; cases z) (auto simp: f64_order_defs)

lemma f64_le_less_trans: "(x :: f64) \<le> y \<Longrightarrow> y < z \<Longrightarrow> x < z"
  by (cases x; cases y; cases z) (auto simp: f64_order_defs)

lemma f64_less_le_trans: "(x :: f64) < y \<Longrightarrow> y \<le> z \<Longrightarrow> x < z"
  by (cases x; cases y; cases z) (auto simp: f64_order_defs)

lemma f64_less_imp_le: "(x :: f64) < y \<Longrightarrow> x \<le> y"
  by (simp add: less_eq_f64_def less_f64_def)

lemma f64_le_iff: "(x :: f64) \<le> y \<longleftrightarrow> x < y \<or> feq x y"
  by (simp add: less_eq_f64_def less_f64_def)

lemma f64_le_refl: "x \<noteq> NaN \<Longrightarrow> (x :: f64) \<le> x"
  by (simp add: f64_le_iff feq_refl)

lemma f64_less_not_feq: "(x :: f64) < y \<Longrightarrow> \<not> feq x y"
  by (cases x; cases y) (auto simp: f64_order_defs)

lemma f64_linear: "x \<noteq> NaN \<Longrightarrow> y \<noteq> NaN \<Longrightarrow> (x :: f64) < y \<or> feq x y \<or> y < x"
  by (cases x; cases y) (auto simp: f64_order_defs)

lemma f64_not_le: "x \<noteq> NaN \<Longrightarrow> y \<noteq> NaN \<Longrightarrow> \<not> (x :: f64) \<le> y \<longleftrightarrow> y < x"
  by (cases x; cases y) (auto simp: f64_order_defs)

lemma f64_not_less: "x \<noteq> NaN \<Longrightarrow> y \<noteq> NaN \<Longrightarrow> \<not> (x :: f64) < y \<longleftrightarrow> y \<le> x"
  by (cases x; cases y) (auto simp: f64_order_defs)

lemma f64_le_antisym: "(x :: f64) \<le> y \<Longrightarrow> y \<le> x \<Longrightarrow> feq x y"
  by (cases x; cases y) (auto simp: f64_order_defs)

lemma feq_less_trans: "feq x y \<Longrightarrow> y < z \<Longrightarrow> (x :: f64) < z"
  and less_feq_trans: "(x :: f64) < y \<Longrightarrow> feq y z \<Longrightarrow> x < z"
  by (cases x; cases y; cases z; auto simp: f64_order_defs)+

lemma f64_less_notnan: "(x :: f64) < y \<Longrightarrow> x \<noteq> NaN" "(x :: f64) < y \<Longrightarrow> y \<noteq> NaN"
  and f64_le_notnan: "(x :: f64) \<le> y \<Longrightarrow> x \<noteq> NaN" "(x :: f64) \<le> y \<Longrightarrow> y \<noteq> NaN"
  by auto

lemma f64_less_finite: "is_finite x \<Longrightarrow> is_finite y \<Longrightarrow> x < y \<longleftrightarrow> fval x < fval y"
  and f64_le_finite: "is_finite x \<Longrightarrow> is_finite y \<Longrightarrow> x \<le> y \<longleftrightarrow> fval x \<le> fval y"
  and feq_finite: "is_finite x \<Longrightarrow> is_finite y \<Longrightarrow> feq x y \<longleftrightarrow> fval x = fval y"
  by (cases x; cases y; auto simp: f64_order_defs)+

lemma fval_zero [simp]: "fval 0 = 0" "fval 1 = 1" "fval two_f64 = 2" "fval hundred_f64 = 100"
  and finite_zero [simp]: "is_finite 0" "is_finite 1" "is_finite two_f64"
    "is_finite hundred_f64"
  by (simp_all add: zero_f64_def one_f64_def two_f64_def hundred_f64_def)

end
