(* ===== verification/Go_Rounding.thy ===== *)
theory Go_Rounding
  imports Go_Float
begin

text \<open>
  The laws of rounding that bounds and exactness proofs use: rounding is monotone and odd,
  keeps the sign, and is the identity on the binary64 numbers; hence subtraction keeps the
  order, and integer arithmetic below \<open>2 ^ 53\<close> is exact.
\<close>

section \<open>Binades\<close>

lemma floor_log2_bounds:
  assumes "0 < q"
  shows "2 powi floor_log2 q \<le> q" and "q < 2 powi (floor_log2 q + 1)"
proof -
  obtain n d where nd: "quotient_of q = (n, d)" by (cases "quotient_of q") auto
  have d: "0 < d" using nd by (rule quotient_of_denom_pos)
  have q: "q = of_int n / of_int d" using nd by (rule quotient_of_div)
  with assms d have n: "0 < n" by (simp add: zero_less_divide_iff)
  let ?a = "bitlen n" and ?b = "bitlen d" and ?e = "bitlen n - bitlen d"
  have bl: "1 \<le> ?a" "1 \<le> ?b"
    using n d by (simp_all add: bitlen_ge_iff_power)
  have pw: "(2 :: rat) powi k = of_int (2 ^ nat k)" if "0 \<le> k" for k
    using that by (simp add: power_int_def)
  have "2 ^ nat (?a - 1) \<le> n" "n < 2 ^ nat ?a" using bitlen_bounds [OF n] by auto
  then have n1: "2 powi (?a - 1) \<le> (of_int n :: rat)" and n2: "(of_int n :: rat) < 2 powi ?a"
    using bl by (simp_all only: pw of_int_le_iff of_int_less_iff)
  have "2 ^ nat (?b - 1) \<le> d" "d < 2 ^ nat ?b" using bitlen_bounds [OF d] by auto
  then have d1: "2 powi (?b - 1) \<le> (of_int d :: rat)" and d2: "(of_int d :: rat) < 2 powi ?b"
    using bl by (simp_all only: pw of_int_le_iff of_int_less_iff)
  have dpos: "(0 :: rat) < of_int d" using d by simp
  have up: "q < 2 powi (?e + 1)"
  proof -
    have "(of_int n :: rat) < 2 powi (?e + 1) * 2 powi (?b - 1)"
      using n2 by (simp flip: power_int_add)
    also have "\<dots> \<le> 2 powi (?e + 1) * of_int d" using d1 by simp
    finally show ?thesis using dpos by (simp add: q divide_less_eq)
  qed
  have low: "2 powi (?e - 1) \<le> q"
  proof -
    have "2 powi (?e - 1) * of_int d \<le> 2 powi (?e - 1) * (2 :: rat) powi ?b" using d2 by simp
    also have "\<dots> \<le> of_int n" using n1 by (simp flip: power_int_add)
    finally show ?thesis using dpos by (simp add: q le_divide_eq)
  qed
  show "2 powi floor_log2 q \<le> q" and "q < 2 powi (floor_log2 q + 1)"
    using up low by (auto simp: floor_log2_def nd Let_def)
qed

lemma powi_mono: "a \<le> b \<Longrightarrow> (2 :: rat) powi a \<le> 2 powi b"
  by (rule power_int_increasing) auto

lemma powi_less_iff: "(2 :: rat) powi a < 2 powi b \<longleftrightarrow> a < b"
  by (metis linorder_not_less one_less_numeral_iff powi_mono power_int_strict_increasing semiring_norm(76))

lemma floor_log2_mono:
  assumes "0 < p" and "p \<le> q"
  shows "floor_log2 p \<le> floor_log2 q"
proof -
  have "2 powi floor_log2 p \<le> p" using assms(1) by (rule floor_log2_bounds(1))
  also have "p < 2 powi (floor_log2 q + 1)"
    using assms floor_log2_bounds(2) [of q] by linarith
  finally have "floor_log2 p < floor_log2 q + 1" by (simp only: powi_less_iff)
  then show ?thesis by simp
qed

lemma floor_log2_less: "0 < q \<Longrightarrow> q < 2 powi k \<Longrightarrow> floor_log2 q < k"
  using floor_log2_bounds(1) [of q] by (metis order_le_less_trans powi_less_iff)

section \<open>Rounding to an integer\<close>

lemma round_half_even_of_int [simp]: "round_half_even (of_int n) = n"
  by (simp add: round_half_even_def)

lemma round_half_even_mono: "r \<le> s \<Longrightarrow> round_half_even r \<le> round_half_even s"
proof -
  assume rs: "r \<le> s"
  then have f: "\<lfloor>r\<rfloor> \<le> \<lfloor>s\<rfloor>" by (rule floor_mono)
  show ?thesis
  proof (cases "\<lfloor>r\<rfloor> = \<lfloor>s\<rfloor>")
    case True
    with rs show ?thesis by (auto simp: round_half_even_def Let_def)
  next
    case False
    with f have "\<lfloor>r\<rfloor> + 1 \<le> \<lfloor>s\<rfloor>" by simp
    then show ?thesis by (auto simp: round_half_even_def Let_def)
  qed
qed

lemma round_half_even_ge: "of_int n \<le> r \<Longrightarrow> n \<le> round_half_even r"
  using round_half_even_mono [of "of_int n" r] by simp

lemma round_half_even_le: "r \<le> of_int n \<Longrightarrow> round_half_even r \<le> n"
  using round_half_even_mono [of r "of_int n"] by simp

lemma round_half_even_minus: "round_half_even (- r) = - round_half_even r"
proof (cases "r = of_int \<lfloor>r\<rfloor>")
  case True
  then show ?thesis by (metis of_int_minus round_half_even_of_int)
next
  case False
  then have "\<lceil>r\<rceil> = \<lfloor>r\<rfloor> + 1" by (metis ceiling_altdef)
  then have fm: "\<lfloor>- r\<rfloor> = - \<lfloor>r\<rfloor> - 1" by (simp add: floor_minus)
  then have d: "- r - of_int \<lfloor>- r\<rfloor> = 1 - (r - of_int \<lfloor>r\<rfloor>)" by simp
  show ?thesis unfolding round_half_even_def Let_def d fm by auto
qed

section \<open>Rounding to 53 bits\<close>

lemma ulp_exp_minus [simp]: "ulp_exp (- q) = ulp_exp q"
  by (simp add: ulp_exp_def)

lemma round53_minus: "round53 (- q) = - round53 q"
proof -
  have "- q / 2 powi ulp_exp q = - (q / 2 powi ulp_exp q)" by simp
  then show ?thesis by (simp add: round53_def round_half_even_minus)
qed

lemma round53_zero [simp]: "round53 0 = 0"
  by (simp add: round53_def)

text \<open>A number is on the binary64 grid if it is an integer multiple of a power of two with
  a significand of at most 53 bits and an exponent not below that of the subnormals.\<close>

definition on_grid :: "rat \<Rightarrow> bool" where
  "on_grid q \<longleftrightarrow> (\<exists>m e. q = of_int m * 2 powi e \<and> \<bar>m\<bar> \<le> 2 ^ 53 \<and> - 1074 \<le> e)"

lemma ulp_exp_grid:
  assumes "q = of_int m * 2 powi e" and "\<bar>m\<bar> < 2 ^ 53" and "- 1074 \<le> e" and "q \<noteq> 0"
  shows "ulp_exp q \<le> e"
proof -
  have "\<bar>q\<bar> = of_int \<bar>m\<bar> * 2 powi e" using assms(1) by (simp add: abs_mult power_int_abs)
  also have "\<dots> < 2 ^ 53 * 2 powi e"
  proof -
    have "(of_int \<bar>m\<bar> :: rat) < 2 ^ 53"
      using assms(2) by (metis of_int_less_iff of_int_numeral of_int_power)
    then show ?thesis by simp
  qed
  also have "\<dots> = 2 powi (53 + e)"
    by (subst power_int_add) auto
  finally have "floor_log2 \<bar>q\<bar> < 53 + e"
    using assms(4) by (intro floor_log2_less) auto
  with assms(3) show ?thesis by (simp add: ulp_exp_def)
qed

lemma round53_grid: "on_grid q \<Longrightarrow> round53 q = q"
proof (cases "q = 0")
  case False
  assume "on_grid q"
  then obtain m e where q: "q = of_int m * 2 powi e" "\<bar>m\<bar> \<le> 2 ^ 53" "- 1074 \<le> e"
    by (auto simp: on_grid_def)
  obtain m' e' where q': "q = of_int m' * 2 powi e'" "\<bar>m'\<bar> < 2 ^ 53" "- 1074 \<le> e'"
  proof (cases "\<bar>m\<bar> = 2 ^ 53")
    case True
    then have m: "m = sgn m * 2 ^ 53" by (metis mult_sgn_abs)
    have "q = of_int (sgn m) * 2 powi (53 + e)"
      unfolding q(1) by (subst m) (simp add: power_int_add)
    moreover have "\<bar>sgn m\<bar> < 2 ^ 53" by (cases "m = 0") (auto simp: abs_sgn_eq)
    ultimately show ?thesis using q(3) by (intro that [of "sgn m" "53 + e"]) auto
  next
    case False
    with q show ?thesis by (intro that [of m e]) auto
  qed
  let ?k = "ulp_exp q"
  have k: "?k \<le> e'" using q' False by (intro ulp_exp_grid)
  have "q / 2 powi ?k = of_int m' * 2 powi (e' - ?k)"
    by (simp add: q'(1) power_int_diff)
  also have "\<dots> = of_int (m' * 2 ^ nat (e' - ?k))"
    using k by (simp add: power_int_def)
  finally have i: "q / 2 powi ?k = of_int (m' * 2 ^ nat (e' - ?k))" .
  have "round53 q = q / 2 powi ?k * 2 powi ?k"
    unfolding round53_def i round_half_even_of_int using False by simp
  also have "\<dots> = q" by simp
  finally show ?thesis .
qed simp

lemma powi_pos [simp]: "(0 :: rat) < 2 powi k"
  by (simp add: zero_less_power_int)

lemma powi_split:
  assumes "u \<le> k"
  shows "(2 :: rat) powi k = of_int (2 ^ nat (k - u)) * 2 powi u"
proof -
  have "(2 :: rat) powi k = 2 powi (k - u) * 2 powi u" by (simp flip: power_int_add)
  also have "2 powi (k - u) = (of_int (2 ^ nat (k - u)) :: rat)"
    using assms by (simp add: power_int_def)
  finally show ?thesis .
qed

lemma round53_pos_le_pow:
  assumes "0 < q" and "q \<le> 2 powi k" and "ulp_exp q \<le> k"
  shows "round53 q \<le> 2 powi k"
proof -
  let ?u = "ulp_exp q"
  note eq = powi_split [OF assms(3)]
  have "q / 2 powi ?u \<le> of_int (2 ^ nat (k - ?u))"
    using assms(2) eq by (simp add: divide_le_eq)
  then have "round_half_even (q / 2 powi ?u) \<le> 2 ^ nat (k - ?u)" by (rule round_half_even_le)
  then have "(of_int (round_half_even (q / 2 powi ?u)) :: rat) \<le> of_int (2 ^ nat (k - ?u))"
    by (simp only: of_int_le_iff)
  then show ?thesis using assms(1) eq
    by (metis mult_right_mono less_le not_less_iff_gr_or_eq powi_pos round53_def)
qed

lemma round53_pos_ge_pow:
  assumes "0 < q" and "2 powi k \<le> q" and "ulp_exp q \<le> k"
  shows "2 powi k \<le> round53 q"
proof -
  let ?u = "ulp_exp q"
  note eq = powi_split [OF assms(3)]
  have "of_int (2 ^ nat (k - ?u)) \<le> q / 2 powi ?u"
    using assms(2) eq by (simp add: le_divide_eq)
  then have "2 ^ nat (k - ?u) \<le> round_half_even (q / 2 powi ?u)" by (rule round_half_even_ge)
  then have "(of_int (2 ^ nat (k - ?u)) :: rat) \<le> of_int (round_half_even (q / 2 powi ?u))"
    by (simp only: of_int_le_iff)
  then show ?thesis using assms(1) eq
    by (metis mult_right_mono less_le not_less_iff_gr_or_eq powi_pos round53_def)
qed

lemma round53_mono_pos:
  assumes "0 < p" and "p \<le> q"
  shows "round53 p \<le> round53 q"
proof (cases "ulp_exp p = ulp_exp q")
  case True
  have "p / 2 powi ulp_exp p \<le> q / 2 powi ulp_exp p"
    using assms(2) by (simp add: divide_right_mono)
  then have "round_half_even (p / 2 powi ulp_exp p) \<le> round_half_even (q / 2 powi ulp_exp p)"
    by (rule round_half_even_mono)
  then show ?thesis using assms True by (simp add: round53_def)
next
  case False
  have "floor_log2 p \<le> floor_log2 q" using assms by (rule floor_log2_mono)
  with False assms have lt: "floor_log2 p < floor_log2 q" and u: "ulp_exp q = floor_log2 q - 52"
    and u': "ulp_exp p < ulp_exp q"
    by (auto simp: ulp_exp_def)
  let ?k = "floor_log2 q"
  have "p < 2 powi (floor_log2 p + 1)" using assms(1) by (rule floor_log2_bounds)
  also have "\<dots> \<le> 2 powi ?k" using lt by (intro powi_mono) simp
  finally have "round53 p \<le> 2 powi ?k"
    using assms(1) u u' by (intro round53_pos_le_pow) auto
  also have "\<dots> \<le> round53 q"
    using assms u floor_log2_bounds(1) [of q] by (intro round53_pos_ge_pow) auto
  finally show ?thesis .
qed

lemma round53_nonneg: "0 \<le> q \<Longrightarrow> 0 \<le> round53 q"
proof (cases "q = 0")
  case False
  assume "0 \<le> q"
  then have "0 \<le> round_half_even (q / 2 powi ulp_exp q)"
    by (intro round_half_even_ge) simp
  then show ?thesis by (simp add: round53_def)
qed simp

lemma round53_mono: "p \<le> q \<Longrightarrow> round53 p \<le> round53 q"
proof -
  assume pq: "p \<le> q"
  consider "0 < p" | "p \<le> 0" "0 \<le> q" | "q < 0" by linarith
  then show ?thesis
  proof cases
    case 1
    then show ?thesis using pq by (rule round53_mono_pos)
  next
    case 2
    have "0 \<le> round53 (- p)" "0 \<le> round53 q" using 2 by (simp_all add: round53_nonneg)
    then show ?thesis by (simp add: round53_minus)
  next
    case 3
    then have "round53 (- q) \<le> round53 (- p)" using pq by (intro round53_mono_pos) auto
    then show ?thesis by (simp add: round53_minus)
  qed
qed

section \<open>Rounding to a float64\<close>

text \<open>\<open>is_f64\<close> holds of the values that a binary64 can hold; every operation returns such
  a value (\<open>fround_is_f64\<close>), and rounding changes none of them.\<close>

definition representable :: "rat \<Rightarrow> bool" where
  "representable q \<longleftrightarrow> on_grid q \<and> \<bar>q\<bar> < overflow_bound"

fun is_f64 :: "f64 \<Rightarrow> bool" where
  "is_f64 (Fin q) = representable q"
| "is_f64 _ = True"

lemma fround_exact:
  "representable q \<Longrightarrow> q \<noteq> 0 \<Longrightarrow> fround s q = Fin q"
  by (simp add: fround_def Let_def representable_def round53_grid)

lemma fround_exact_pos: "representable q \<Longrightarrow> fround False q = Fin q"
  by (cases "q = 0") (simp_all add: fround_exact, simp add: fround_def)

lemma fval_fround_exact: "representable q \<Longrightarrow> fval (fround s q) = q"
  by (cases "q = 0") (simp_all add: fround_exact, simp add: fround_def)

lemma fround_finite_exact: "representable q \<Longrightarrow> is_finite (fround s q)"
  by (cases "q = 0") (simp_all add: fround_exact, simp add: fround_def)

lemma fround_not_nan [simp]: "fround s q \<noteq> NaN"
  by (simp add: fround_def Let_def)

lemma representable_int: "\<bar>n\<bar> \<le> 2 ^ 53 \<Longrightarrow> representable (of_int n)"
proof -
  assume n: "\<bar>n\<bar> \<le> 2 ^ 53"
  have "(of_int \<bar>n\<bar> :: rat) \<le> of_int (2 ^ 53)" using n by (simp only: of_int_le_iff)
  then have "\<bar>of_int n :: rat\<bar> \<le> 2 ^ 53" by simp
  also have "(2 :: rat) ^ 53 < overflow_bound"
    unfolding overflow_bound_def by (rule power_strict_increasing) auto
  finally have "\<bar>of_int n :: rat\<bar> < overflow_bound" .
  moreover have "on_grid (of_int n)"
    unfolding on_grid_def using n by (intro exI [of _ n] exI [of _ 0]) auto
  ultimately show ?thesis by (simp add: representable_def)
qed

lemma f64_of_int_exact: "\<bar>n\<bar> \<le> 2 ^ 53 \<Longrightarrow> f64_of_int n = Fin (of_int n)"
  by (simp add: f64_of_int_def fround_exact_pos representable_int)

text \<open>Monotonicity, in the order of the floats themselves.\<close>

lemma fround_mono: "p \<le> q \<Longrightarrow> fround s p \<le> fround t q"
proof -
  assume pq: "p \<le> q"
  then have r: "round53 p \<le> round53 q" by (rule round53_mono)
  have sp: "0 \<le> p \<Longrightarrow> 0 \<le> round53 p" "0 \<le> q \<Longrightarrow> 0 \<le> round53 q"
    by (simp_all add: round53_nonneg)
  have sn: "p \<le> 0 \<Longrightarrow> round53 p \<le> 0" "q \<le> 0 \<Longrightarrow> round53 q \<le> 0"
    using round53_mono [of p 0] round53_mono [of q 0] by simp_all
  show ?thesis
    unfolding fround_def Let_def
    using pq r sp sn by (auto simp: f64_order_defs)
qed

lemma fround_nonneg: "0 \<le> q \<Longrightarrow> 0 \<le> fround s q"
  using fround_mono [of 0 q False s] by (simp add: fround_def zero_f64_def)

lemma fround_nonpos: "q \<le> 0 \<Longrightarrow> fround s q \<le> 0"
  using fround_mono [of q 0 s False] by (simp add: fround_def zero_f64_def)

lemma fadd_finite:
  "is_finite x \<Longrightarrow> is_finite y \<Longrightarrow>
     x + y = fround (signbit x \<and> signbit y) (fval x + fval y)"
  by (cases x; cases y) (simp_all add: plus_f64_def fadd_def)

lemma fval_fneg [simp]: "fval (fneg x) = - fval x"
  by (cases x) auto

lemma is_finite_fneg [simp]: "is_finite (fneg x) = is_finite x"
  by (cases x) auto

lemma fsub_finite:
  "is_finite x \<Longrightarrow> is_finite y \<Longrightarrow> \<exists>s. x - y = fround s (fval x - fval y)"
  using fadd_finite [of x "fneg y"] by (auto simp: minus_f64_def plus_f64_def)

lemma fmul_finite:
  "is_finite x \<Longrightarrow> is_finite y \<Longrightarrow>
     x * y = fround (signbit x \<noteq> signbit y) (fval x * fval y)"
  by (cases x; cases y) (simp_all add: times_f64_def fmul_def Let_def)

lemma fdiv_finite:
  "is_finite x \<Longrightarrow> is_finite y \<Longrightarrow> fval y \<noteq> 0 \<Longrightarrow>
     x / y = fround (signbit x \<noteq> signbit y) (fval x / fval y)"
  by (cases x; cases y) (simp_all add: divide_f64_def fdiv_def Let_def)

lemma fsub_nonneg:
  assumes "is_finite x" and "is_finite y" and "y \<le> x"
  shows "0 \<le> x - y"
proof -
  obtain s where "x - y = fround s (fval x - fval y)" using fsub_finite assms by blast
  with assms show ?thesis by (simp add: f64_le_finite fround_nonneg)
qed

lemma fadd_exact:
  assumes "is_finite x" and "is_finite y" and "representable (fval x + fval y)"
  shows "is_finite (x + y)" and "fval (x + y) = fval x + fval y"
  using assms by (simp_all add: fadd_finite fround_finite_exact fval_fround_exact)

lemma fsub_exact:
  assumes "is_finite x" and "is_finite y" and "representable (fval x - fval y)"
  shows "is_finite (x - y)" and "fval (x - y) = fval x - fval y"
  using fsub_finite [OF assms(1,2)] assms(3)
  by (auto simp: fround_finite_exact fval_fround_exact)

lemma fmul_exact:
  assumes "is_finite x" and "is_finite y" and "representable (fval x * fval y)"
  shows "is_finite (x * y)" and "fval (x * y) = fval x * fval y"
  using assms by (simp_all add: fmul_finite fround_finite_exact fval_fround_exact)

section \<open>Whole numbers\<close>

text \<open>Up to \<open>2 ^ 53\<close> the whole numbers are computed exactly.\<close>

definition whole :: "nat \<Rightarrow> f64" where
  "whole n = Fin (of_nat n)"

lemma whole_sel [simp]:
  "fval (whole n) = of_nat n" "is_finite (whole n)" "\<not> signbit (whole n)" "whole n \<noteq> NaN"
  by (simp_all add: whole_def)

lemma whole_0: "(0 :: f64) = whole 0"
  by (simp add: whole_def zero_f64_def)

lemma whole_cmp [simp]:
  "whole m < whole n \<longleftrightarrow> m < n" "whole m \<le> whole n \<longleftrightarrow> m \<le> n" "feq (whole m) (whole n) \<longleftrightarrow> m = n"
  "whole m < 0 \<longleftrightarrow> False" "feq (whole m) 0 \<longleftrightarrow> m = 0" "whole m \<le> 0 \<longleftrightarrow> m = 0" "0 < whole m \<longleftrightarrow> 0 < m"
  by (simp_all add: f64_less_finite f64_le_finite feq_finite)

lemma representable_nat: "n \<le> 2 ^ 53 \<Longrightarrow> representable (of_nat n)"
  using representable_int [of "int n"] by simp

lemma fround_whole: "n \<le> 2 ^ 53 \<Longrightarrow> fround False (of_nat n) = whole n"
  by (simp add: whole_def fround_exact_pos representable_nat)

lemma whole_add: "m + n \<le> 2 ^ 53 \<Longrightarrow> whole m + whole n = whole (m + n)"
  using fround_whole [of "m + n"] by (simp add: fadd_finite)

lemma whole_mul: "m * n \<le> 2 ^ 53 \<Longrightarrow> whole m * whole n = whole (m * n)"
  using fround_whole [of "m * n"] by (simp add: fmul_finite)

lemma whole_sub:
  assumes "n \<le> m" and "m \<le> 2 ^ 53"
  shows "whole m - whole n = whole (m - n)"
proof -
  have "whole m - whole n = fround False (of_nat m - of_nat n)"
    using fadd_finite [of "whole m" "fneg (whole n)"] by (simp add: minus_f64_def plus_f64_def)
  also have "(of_nat m - of_nat n :: rat) = of_nat (m - n)" using assms(1) by (simp add: of_nat_diff)
  finally show ?thesis using assms(2) by (simp add: fround_whole)
qed

lemma whole_sub_neg:
  assumes "m < n" and "n \<le> 2 ^ 53"
  shows "whole m - whole n < 0"
proof -
  obtain s where s: "whole m - whole n = fround s (of_nat m - of_nat n)"
    using fsub_finite [of "whole m" "whole n"] by auto
  have "int n \<le> 2 ^ 53" using assms(2) by simp
  then have "representable (of_int (int m - int n))"
    using assms(1) by (intro representable_int) simp
  then have "fround s (of_nat m - of_nat n) = Fin (of_nat m - of_nat n)"
    using assms by (intro fround_exact) simp_all
  with s show ?thesis using assms(1) by (simp add: f64_less_finite)
qed

lemma whole_sub_less: "m \<le> 2 ^ 53 \<Longrightarrow> n \<le> 2 ^ 53 \<Longrightarrow> whole m - whole n < 0 \<longleftrightarrow> m < n"
  using whole_sub_neg [of m n] by (cases "m < n") (simp_all add: whole_sub)

lemma whole_div:
  assumes "0 < n" and "n dvd m" and "m \<le> 2 ^ 53"
  shows "whole m / whole n = whole (m div n)"
proof -
  have "(of_nat m / of_nat n :: rat) = of_nat (m div n)"
    using assms(1,2) by (auto elim!: dvdE)
  moreover have "m div n \<le> 2 ^ 53" using assms(3) div_le_dividend le_trans by blast
  ultimately show ?thesis using assms(1) fround_whole [of "m div n"] by (simp add: fdiv_finite)
qed

lemma hundred_whole: "hundred_f64 = whole 100"
  by (simp add: hundred_f64_def whole_def)

end
