(* ===== verification/Go_Prelude.thy ===== *)
theory Go_Prelude
  imports Main "HOL-Library.Word" "HOL-Library.AList"
begin

text \<open>
  What every component shares: the lemma collections of the development, Go's errors as
  values with \<open>errors.Is\<close>, time instants, ASCII strings, and generic lemmas on sorted lists
  and partial maps.

  An error is a \<^emph>\<open>sentinel\<close> (a package variable made by \<open>errors.New\<close>, identified by
  \<open>package.variable\<close>), the result of \<open>fmt.Errorf\<close> with the errors its \<open>%w\<close> verbs wrap, or one
  of the two wrappers of \<open>common.AppendError\<close>.  The text of a message is not modelled beyond
  its format: no code of the program branches on it.  A Go function that returns
  \<open>(T, error)\<close> returns \<open>go_error + T\<close>; one that changes its receiver and returns \<open>error\<close>
  returns the new receiver with a \<open>go_error option\<close>.

  A \<open>time.Time\<close> is the instant it denotes, in nanoseconds from Go's zero time; \<open>time.Now()\<close> is
  an argument of the operations that read the clock.  Strings are lists of bytes; case mapping
  is that of ASCII, so letters outside ASCII are left unchanged where Go would map them.
\<close>

named_theorems component_defs "definitions a component's proofs unfold"
named_theorems frame_simps "fields an operation leaves unchanged"
named_theorems inv_intros "invariant preservation rules"

section \<open>Errors\<close>

datatype go_error =
    Sentinel string
  | Errorf string "go_error list"
  | MultiError "go_error list"
  | FmtError "go_error list"

type_synonym 'a go_result = "go_error + 'a"

text \<open>The \<open>unwrappable\<close> interface: \<open>Unwrap() []error\<close>, which \<open>fmt.Errorf\<close> returns for two or
  more \<open>%w\<close> verbs only.\<close>

fun is_unwrappable :: "go_error \<Rightarrow> bool" where
  "is_unwrappable (Sentinel _) = False"
| "is_unwrappable (Errorf _ es) = (2 \<le> length es)"
| "is_unwrappable (MultiError _) = True"
| "is_unwrappable (FmtError _) = True"

section \<open>Time\<close>

type_synonym time = int

definition IsZero :: "time \<Rightarrow> bool" where
  "IsZero t \<longleftrightarrow> t = 0"

section \<open>Strings\<close>

text \<open>Upper and lower case of a letter differ in bit 5 of its code.\<close>

definition set_bit5 :: "bool \<Rightarrow> char \<Rightarrow> char" where
  "set_bit5 b c =
     Char (digit0 c) (digit1 c) (digit2 c) (digit3 c) (digit4 c) b (digit6 c) (digit7 c)"

definition is_lower_char :: "char \<Rightarrow> bool" where
  "is_lower_char c \<longleftrightarrow> 97 \<le> (of_char c :: nat) \<and> (of_char c :: nat) \<le> 122"

definition is_upper_char :: "char \<Rightarrow> bool" where
  "is_upper_char c \<longleftrightarrow> 65 \<le> (of_char c :: nat) \<and> (of_char c :: nat) \<le> 90"

definition to_upper_char :: "char \<Rightarrow> char" where
  "to_upper_char c = (if is_lower_char c then set_bit5 False c else c)"

definition to_lower_char :: "char \<Rightarrow> char" where
  "to_lower_char c = (if is_upper_char c then set_bit5 True c else c)"

definition ToUpper :: "string \<Rightarrow> string" where
  "ToUpper s = map to_upper_char s"

definition ToLower :: "string \<Rightarrow> string" where
  "ToLower s = map to_lower_char s"

definition EqualFold :: "string \<Rightarrow> string \<Rightarrow> bool" where
  "EqualFold s t \<longleftrightarrow> ToLower s = ToLower t"

lemma of_char_set_bit5:
  "is_lower_char c \<Longrightarrow> (of_char (set_bit5 False c) :: nat) = of_char c - 32"
  "is_upper_char c \<Longrightarrow> (of_char (set_bit5 True c) :: nat) = of_char c + 32"
  by (cases c; simp add: is_lower_char_def is_upper_char_def set_bit5_def of_char_Char
      split: if_splits; simp add: of_bool_def split: if_splits)+

lemma upper_lower_set_bit5:
  "is_lower_char c \<Longrightarrow> is_upper_char (set_bit5 False c)"
  "is_upper_char c \<Longrightarrow> is_lower_char (set_bit5 True c)"
  "is_lower_char c \<Longrightarrow> \<not> is_upper_char c"
  by (auto simp: of_char_set_bit5 is_lower_char_def is_upper_char_def
      dest: of_char_set_bit5(1) [unfolded is_lower_char_def, OF conjI]
        of_char_set_bit5(2) [unfolded is_upper_char_def, OF conjI])

lemma set_bit5_set_bit5 [simp]: "set_bit5 a (set_bit5 b c) = set_bit5 a c"
  by (simp add: set_bit5_def)

lemma to_upper_lower_char [simp]:
  "to_upper_char (to_lower_char c) = to_upper_char c"
  "to_lower_char (to_upper_char c) = to_lower_char c"
  "to_upper_char (to_upper_char c) = to_upper_char c"
  "to_lower_char (to_lower_char c) = to_lower_char c"
proof -
  have low: "set_bit5 True c = c" if "is_lower_char c" for c
    using that by (cases c)
      (simp add: is_lower_char_def set_bit5_def of_char_Char split: if_splits;
       simp add: of_bool_def split: if_splits)
  have upp: "set_bit5 False c = c" if "is_upper_char c" for c
    using that by (cases c)
      (simp add: is_upper_char_def set_bit5_def of_char_Char split: if_splits;
       simp add: of_bool_def split: if_splits)
  show "to_upper_char (to_lower_char c) = to_upper_char c"
    "to_lower_char (to_upper_char c) = to_lower_char c"
    "to_upper_char (to_upper_char c) = to_upper_char c"
    "to_lower_char (to_lower_char c) = to_lower_char c"
    using upper_lower_set_bit5 [of c] low [of c] upp [of c]
      upper_lower_set_bit5(3) [of "set_bit5 False c"]
      upper_lower_set_bit5(3) [of "set_bit5 True c"]
    by (auto simp: to_upper_char_def to_lower_char_def)
qed

lemmas case_eval =
  ToUpper_def ToLower_def to_upper_char_def to_lower_char_def set_bit5_def
  is_lower_char_def is_upper_char_def

lemma ToUpper_ToLower [simp]:
  "ToUpper (ToLower s) = ToUpper s" "ToLower (ToUpper s) = ToLower s"
  "ToUpper (ToUpper s) = ToUpper s" "ToLower (ToLower s) = ToLower s"
  by (simp_all add: ToUpper_def ToLower_def)

lemma ToUpper_eq_Nil [simp]: "ToUpper s = [] \<longleftrightarrow> s = []" "ToLower s = [] \<longleftrightarrow> s = []"
  by (simp_all add: ToUpper_def ToLower_def)

lemma ToLower_eq_iff_ToUpper_eq: "ToLower s = ToLower t \<longleftrightarrow> ToUpper s = ToUpper t"
  by (metis ToUpper_ToLower(1,2))

section \<open>Lists and maps\<close>

lemma sorted_wrt_filter_mono: "sorted_wrt P xs \<Longrightarrow> sorted_wrt P (filter Q xs)"
  by (rule sorted_wrt_filter)

lemma sorted_wrt_take_mono: "sorted_wrt P xs \<Longrightarrow> sorted_wrt P (take n xs)"
  by (rule sorted_wrt_take)

lemma sorted_wrt_last: "sorted_wrt P (xs @ [x]) \<Longrightarrow> y \<in> set xs \<Longrightarrow> P y x"
  by (simp add: sorted_wrt_append)

lemma update_append_new: "k \<notin> fst ` set m \<Longrightarrow> AList.update k v m = m @ [(k, v)]"
  by (induction m) auto

lemma map_update_same:
  "map_of m k = Some w \<Longrightarrow> f v = f w \<Longrightarrow> map (f \<circ> snd) (AList.update k v m) = map (f \<circ> snd) m"
  by (induction m) (auto split: if_splits)

lemma in_set_update_distinct:
  "distinct (map fst m) \<Longrightarrow>
    x \<in> set (AList.update k v m) \<longleftrightarrow> x = (k, v) \<or> (x \<in> set m \<and> fst x \<noteq> k)"
proof (induction m)
  case (Cons a m)
  then show ?case by (cases a, cases x) force
qed auto

lemma in_set_takeD': "x \<in> set (take n xs) \<Longrightarrow> x \<in> set xs"
  by (rule in_set_takeD)

end
