(* ===== verification/Common_Errors.thy ===== *)
theory Common_Errors
  imports Go_Prelude
begin

text \<open>
  The error collection of \<open>common/common.go\<close>: \<open>AppendError\<close>, the two wrapper types with their
  \<open>Unwrap\<close>, \<open>unwrapDeep\<close>, \<open>ExcludeError\<close> and \<open>StartEndTimeCheck\<close>.  The lemmas show that
  collecting errors loses none (\<open>errors.Is\<close> of the collection is the disjunction) although
  \<open>Unwrap\<close> flattens a bounded number of levels only, and that exclusion removes what it is
  asked to remove.

  \<open>Unwrap\<close> of a \<open>multiError\<close> calls \<open>unwrapDeep\<close> on its elements and \<open>unwrapDeep\<close> calls
  \<open>Unwrap\<close> twice, on values it has just unwrapped: the recursion is not structural.  Both count
  levels, so \<open>expand e k\<close> (\<open>k\<close> levels of unwrapping below \<open>e\<close>) is structural and gives both;
  \<open>Unwrap_MultiError\<close> and \<open>unwrapDeep_eq\<close> are the source's equations.
\<close>

section \<open>Unwrapping\<close>

primrec expand :: "go_error \<Rightarrow> nat \<Rightarrow> go_error list" where
  "expand (Sentinel n) k = [Sentinel n]"
| "expand (Errorf f es) k =
     (case k of 0 \<Rightarrow> [Errorf f es]
      | Suc j \<Rightarrow> if 2 \<le> length es then concat (map (\<lambda>x. x j) (map expand es))
                 else [Errorf f es])"
| "expand (MultiError es) k =
     (case k of 0 \<Rightarrow> [MultiError es]
      | Suc j \<Rightarrow> concat (map (\<lambda>x. x (Suc (Suc j))) (map expand es)))"
| "expand (FmtError es) k =
     (case k of 0 \<Rightarrow> [FmtError es] | Suc j \<Rightarrow> concat (map (\<lambda>x. x j) (map expand es)))"

text \<open>\<open>Unwrap() []error\<close>; only called on the unwrappable.\<close>

fun Unwrap :: "go_error \<Rightarrow> go_error list" where
  "Unwrap (MultiError es) = concat (map (\<lambda>e. expand e 2) es)"
| "Unwrap (FmtError es) = es"
| "Unwrap (Errorf f es) = es"
| "Unwrap (Sentinel n) = []"

definition unwrapDeep :: "go_error \<Rightarrow> go_error list" where
  "unwrapDeep err =
     concat (map (\<lambda>e. if is_unwrappable e then Unwrap e else [e]) (Unwrap err))"

lemma expand_0 [simp]: "expand e 0 = [e]"
  by (cases e) auto

lemma expand_not_unwrappable [simp]: "\<not> is_unwrappable e \<Longrightarrow> expand e k = [e]"
  by (cases e; cases k) auto

lemma concat_map_expand_add:
  assumes "\<And>e j k. e \<in> set es \<Longrightarrow> concat (map (\<lambda>x. expand x k) (expand e j)) = expand e (j + k)"
  shows "concat (map (\<lambda>x. expand x k) (concat (map (\<lambda>e. expand e j) es))) =
         concat (map (\<lambda>e. expand e (j + k)) es)"
  using assms by (induction es) auto

lemma expand_add: "concat (map (\<lambda>x. expand x k) (expand e j)) = expand e (j + k)"
proof (induction e arbitrary: j k)
  case (Sentinel n)
  then show ?case by simp
next
  case (Errorf f es)
  then show ?case
    using concat_map_expand_add [of es k "j - 1"]
    by (cases j) (auto simp: comp_def split: nat.splits)
next
  case (MultiError es)
  then show ?case
    using concat_map_expand_add [of es k "Suc j"]
    by (cases j) (auto simp: comp_def split: nat.splits)
next
  case (FmtError es)
  then show ?case
    using concat_map_expand_add [of es k "j - 1"]
    by (cases j) (auto simp: comp_def split: nat.splits)
qed

lemma expand_1: "is_unwrappable e \<Longrightarrow> expand e 1 = Unwrap e"
  by (cases e) (auto simp: comp_def numeral_2_eq_2)

lemma expand_1': "expand e 1 = (if is_unwrappable e then Unwrap e else [e])"
  by (simp add: expand_1 del: One_nat_def)

lemma unwrapDeep_expand: "is_unwrappable e \<Longrightarrow> unwrapDeep e = expand e 2"
  using expand_add [of 1 e 1]
  by (simp add: unwrapDeep_def expand_1 expand_1' numeral_2_eq_2 del: One_nat_def)

text \<open>The source's recursion.\<close>

lemma Unwrap_MultiError:
  "Unwrap (MultiError es) =
     concat (map (\<lambda>e. if is_unwrappable e then unwrapDeep e else [e]) es)"
proof -
  have "expand e 2 = (if is_unwrappable e then unwrapDeep e else [e])" for e
    by (simp add: unwrapDeep_expand)
  then show ?thesis by simp
qed

section \<open>errors.Is\<close>

text \<open>The target is always a sentinel.\<close>

primrec errors_is :: "go_error \<Rightarrow> go_error \<Rightarrow> bool" where
  "errors_is (Sentinel n) t = (t = Sentinel n)"
| "errors_is (Errorf f es) t = list_ex (\<lambda>x. x t) (map errors_is es)"
| "errors_is (MultiError es) t = list_ex (\<lambda>x. x t) (map errors_is es)"
| "errors_is (FmtError es) t = list_ex (\<lambda>x. x t) (map errors_is es)"

lemma errors_is_simps [simp]:
  "errors_is (Errorf f es) t \<longleftrightarrow> (\<exists>e \<in> set es. errors_is e t)"
  "errors_is (MultiError es) t \<longleftrightarrow> (\<exists>e \<in> set es. errors_is e t)"
  "errors_is (FmtError es) t \<longleftrightarrow> (\<exists>e \<in> set es. errors_is e t)"
  by (auto simp: list_ex_iff)

declare errors_is.simps(2-4) [simp del]

lemma errors_is_expand: "(\<exists>x \<in> set (expand e k). errors_is x t) \<longleftrightarrow> errors_is e t"
proof (induction e arbitrary: k)
  case (Sentinel n)
  then show ?case by simp
next
  case (Errorf f es)
  then show ?case by (cases k) (auto simp: comp_def)
next
  case (MultiError es)
  then show ?case by (cases k) (auto simp: comp_def)
next
  case (FmtError es)
  then show ?case by (cases k) (auto simp: comp_def)
qed

text \<open>The loop of \<open>errors.Is\<close> runs over \<open>Unwrap\<close>, not over the elements: it finds the same.\<close>

lemma errors_is_Unwrap:
  "is_unwrappable e \<Longrightarrow> errors_is e t \<longleftrightarrow> (\<exists>x \<in> set (Unwrap e). errors_is x t)"
  using errors_is_expand [of e 1 t] by (simp add: expand_1 del: One_nat_def)

lemma errors_is_unwrapDeep:
  "is_unwrappable e \<Longrightarrow> errors_is e t \<longleftrightarrow> (\<exists>x \<in> set (unwrapDeep e). errors_is x t)"
  using errors_is_expand [of e 2 t] by (simp add: unwrapDeep_expand)

section \<open>AppendError and ExcludeError\<close>

definition to_fmtError :: "go_error \<Rightarrow> go_error" where
  "to_fmtError e = (if is_unwrappable e then FmtError (Unwrap e) else e)"

definition AppendError :: "go_error option \<Rightarrow> go_error option \<Rightarrow> go_error option" where
  "AppendError original incoming =
     (case incoming of
        None \<Rightarrow> original
      | Some i \<Rightarrow>
          (case original of
             None \<Rightarrow> Some i
           | Some (MultiError es) \<Rightarrow> Some (MultiError (es @ [to_fmtError i]))
           | Some v \<Rightarrow> Some (MultiError ([to_fmtError v] @ [to_fmtError i]))))"

fun exclude_loop :: "go_error \<Rightarrow> go_error option \<Rightarrow> go_error list \<Rightarrow> go_error option" where
  "exclude_loop excl n [] = n"
| "exclude_loop excl n (e # es) =
     exclude_loop excl (if \<not> errors_is e excl then AppendError n (Some e) else n) es"

definition ExcludeError :: "go_error option \<Rightarrow> go_error \<Rightarrow> go_error option" where
  "ExcludeError err excl =
     (case err of
        None \<Rightarrow> None
      | Some u \<Rightarrow>
          if is_unwrappable u then exclude_loop excl None (unwrapDeep u)
          else if errors_is u excl then None else Some u)"

definition is_err :: "go_error option \<Rightarrow> go_error \<Rightarrow> bool" where
  "is_err r t = (case r of None \<Rightarrow> False | Some e \<Rightarrow> errors_is e t)"

lemma is_err_simps [simp]: "\<not> is_err None t" "is_err (Some e) t = errors_is e t"
  by (simp_all add: is_err_def)

lemma errors_is_to_fmtError [simp]: "errors_is (to_fmtError e) t = errors_is e t"
  by (simp add: to_fmtError_def errors_is_Unwrap)

lemma is_err_AppendError [simp]:
  "is_err (AppendError a b) t \<longleftrightarrow> is_err a t \<or> is_err b t"
  by (cases a; cases b) (auto simp: AppendError_def split: go_error.splits)

lemma AppendError_None [simp]:
  "AppendError a None = a" "AppendError None b = b"
  by (auto simp: AppendError_def split: option.splits)

lemma AppendError_eq_None [simp]: "AppendError a b = None \<longleftrightarrow> a = None \<and> b = None"
  by (auto simp: AppendError_def split: option.splits go_error.splits)

lemma exclude_loop_is:
  "is_err (exclude_loop excl n es) t \<longleftrightarrow>
     is_err n t \<or> (\<exists>e \<in> set es. \<not> errors_is e excl \<and> errors_is e t)"
  by (induction es arbitrary: n) auto

text \<open>\<open>ErrorCollector.Collect\<close> over the values received from the closed channel.\<close>

fun collect_loop :: "go_error option \<Rightarrow> go_error option list \<Rightarrow> go_error option" where
  "collect_loop errs [] = errs"
| "collect_loop errs (None # es) = collect_loop errs es"
| "collect_loop errs (Some e # es) = collect_loop (AppendError errs (Some e)) es"

definition ErrorCollector_Collect :: "go_error option list \<Rightarrow> go_error option" where
  "ErrorCollector_Collect es = collect_loop None es"

lemma collect_loop_is:
  "is_err (collect_loop errs es) t \<longleftrightarrow> is_err errs t \<or> list_ex (\<lambda>e. is_err e t) es"
  by (induction errs es rule: collect_loop.induct) auto

section \<open>StartEndTimeCheck\<close>

definition ErrDateUnset :: go_error where "ErrDateUnset = Sentinel ''common.ErrDateUnset''"
definition ErrStartAfterEnd :: go_error where
  "ErrStartAfterEnd = Sentinel ''common.ErrStartAfterEnd''"
definition ErrStartEqualsEnd :: go_error where
  "ErrStartEqualsEnd = Sentinel ''common.ErrStartEqualsEnd''"
definition ErrStartAfterTimeNow :: go_error where
  "ErrStartAfterTimeNow = Sentinel ''common.ErrStartAfterTimeNow''"

text \<open>\<open>time.Unix(0, 0)\<close>, in nanoseconds from the zero time.\<close>

definition zeroValueUnix :: time where
  "zeroValueUnix = 62135596800 * 1000000000"

definition StartEndTimeCheck :: "time \<Rightarrow> time \<Rightarrow> time \<Rightarrow> go_error option" where
  "StartEndTimeCheck now start end_time =
     (if IsZero start \<or> start = zeroValueUnix then Some (Errorf ''start %w'' [ErrDateUnset])
      else if IsZero end_time \<or> end_time = zeroValueUnix
        then Some (Errorf ''end %w'' [ErrDateUnset])
      else if end_time < start then Some ErrStartAfterEnd
      else if start = end_time then Some ErrStartEqualsEnd
      else if now < start then Some ErrStartAfterTimeNow
      else None)"

lemma StartEndTimeCheck_None:
  "StartEndTimeCheck now start end_time = None \<longleftrightarrow>
     start \<notin> {0, zeroValueUnix} \<and> end_time \<notin> {0, zeroValueUnix} \<and>
     start < end_time \<and> start \<le> now"
  by (auto simp: StartEndTimeCheck_def IsZero_def)

section \<open>Properties\<close>

text \<open>Also: collecting errors loses none and invents none: the collected error matches
  a sentinel under \<open>errors.Is\<close> exactly if one of the errors sent does, whatever wrappers
  (\<open>fmt.Errorf\<close> with several \<open>%w\<close>, nested collections) they carry.\<close>

theorem Collect_is:
  "is_err (ErrorCollector_Collect es) t = list_ex (\<lambda>e. is_err e t) es"
  by (simp add: ErrorCollector_Collect_def collect_loop_is)

text \<open>Also: \<open>ExcludeError\<close> leaves no error that matches the excluded one.  What an
  unwrappable error still matches is what some element of its two-level unwrapping, itself free
  of the excluded error, matches; any other error is kept whole or dropped whole.\<close>

theorem ExcludeError_is:
  "\<not> is_err (ExcludeError err excl) excl \<and>
   is_err (ExcludeError err excl) t =
     (case err of
        None \<Rightarrow> False
      | Some u \<Rightarrow>
          if is_unwrappable u
          then list_ex (\<lambda>e. \<not> errors_is e excl \<and> errors_is e t) (unwrapDeep u)
          else \<not> errors_is u excl \<and> errors_is u t)"
  by (auto simp: ExcludeError_def exclude_loop_is list_ex_iff split: option.splits)

end
