(* ===== verification/Asset.thy ===== *)
theory Asset
  imports Go_Prelude
begin

text \<open>
  Asset types (\<open>exchanges/asset/asset.go\<close>): the \<open>iota\<close> constants of \<open>Item\<close> (a \<open>uint32\<close>), the
  range tests that rely on their order, the names and the parser.  The lemmas show that the
  ranges partition the valid assets and that every valid asset's name parses back to it.
\<close>

section \<open>The constants\<close>

type_synonym asset_item = "32 word"

definition Empty :: asset_item where "Empty = 0"
definition Spot :: asset_item where "Spot = 1"
definition Margin :: asset_item where "Margin = 2"
definition CrossMargin :: asset_item where "CrossMargin = 3"
definition MarginFunding :: asset_item where "MarginFunding = 4"
definition Index :: asset_item where "Index = 5"
definition Binary :: asset_item where "Binary = 6"
definition Futures :: asset_item where "Futures = 7"
definition PerpetualContract :: asset_item where "PerpetualContract = 8"
definition PerpetualSwap :: asset_item where "PerpetualSwap = 9"
definition DeliveryFutures :: asset_item where "DeliveryFutures = 10"
definition UpsideProfitContract :: asset_item where "UpsideProfitContract = 11"
definition DownsideProfitContract :: asset_item where "DownsideProfitContract = 12"
definition CoinMarginedFutures :: asset_item where "CoinMarginedFutures = 13"
definition USDTMarginedFutures :: asset_item where "USDTMarginedFutures = 14"
definition USDCMarginedFutures :: asset_item where "USDCMarginedFutures = 15"
definition FutureCombo :: asset_item where "FutureCombo = 16"
definition LinearContract :: asset_item where "LinearContract = 17"
definition Options :: asset_item where "Options = 18"
definition OptionCombo :: asset_item where "OptionCombo = 19"
definition All :: asset_item where "All = 20"

lemmas asset_consts =
  Empty_def Spot_def Margin_def CrossMargin_def MarginFunding_def Index_def Binary_def
  Futures_def PerpetualContract_def PerpetualSwap_def DeliveryFutures_def
  UpsideProfitContract_def DownsideProfitContract_def CoinMarginedFutures_def
  USDTMarginedFutures_def USDCMarginedFutures_def FutureCombo_def LinearContract_def
  Options_def OptionCombo_def All_def

definition asset_ErrNotSupported :: go_error where
  "asset_ErrNotSupported = Sentinel ''asset.ErrNotSupported''"

text \<open>\<open>Supported()\<close>: the supported list, in the source's order.\<close>

definition supportedList :: "asset_item list" where
  "supportedList =
     [Spot, Margin, CrossMargin, MarginFunding, Index, Binary, PerpetualContract, PerpetualSwap,
      Futures, DeliveryFutures, UpsideProfitContract, DownsideProfitContract,
      CoinMarginedFutures, USDTMarginedFutures, USDCMarginedFutures, Options, LinearContract,
      OptionCombo, FutureCombo]"

section \<open>Names\<close>

definition asset_String :: "asset_item \<Rightarrow> string" where
  "asset_String a =
     (if a = Spot then ''spot''
      else if a = Margin then ''margin''
      else if a = CrossMargin then ''cross_margin''
      else if a = MarginFunding then ''marginfunding''
      else if a = Index then ''index''
      else if a = Binary then ''binary''
      else if a = PerpetualContract then ''perpetualcontract''
      else if a = PerpetualSwap then ''perpetualswap''
      else if a = Futures then ''futures''
      else if a = DeliveryFutures then ''delivery''
      else if a = UpsideProfitContract then ''upsideprofitcontract''
      else if a = DownsideProfitContract then ''downsideprofitcontract''
      else if a = CoinMarginedFutures then ''coinmarginedfutures''
      else if a = USDTMarginedFutures then ''usdtmarginedfutures''
      else if a = USDCMarginedFutures then ''usdcmarginedfutures''
      else if a = Options then ''options''
      else if a = OptionCombo then ''option_combo''
      else if a = FutureCombo then ''future_combo''
      else if a = LinearContract then ''linearcontract''
      else if a = All then ''all''
      else '''')"

definition asset_New :: "string \<Rightarrow> asset_item go_result" where
  "asset_New inp =
     (let s = ToLower inp
      in if s = ''spot'' then Inr Spot
         else if s = ''margin'' then Inr Margin
         else if s = ''marginfunding'' then Inr MarginFunding
         else if s = ''cross_margin'' then Inr CrossMargin
         else if s = ''delivery'' then Inr DeliveryFutures
         else if s = ''index'' then Inr Index
         else if s = ''binary'' then Inr Binary
         else if s = ''perpetualcontract'' then Inr PerpetualContract
         else if s = ''perpetualswap'' \<or> s = ''swap'' then Inr PerpetualSwap
         else if s = ''futures'' then Inr Futures
         else if s = ''upsideprofitcontract'' then Inr UpsideProfitContract
         else if s = ''downsideprofitcontract'' then Inr DownsideProfitContract
         else if s = ''coinmarginedfutures'' then Inr CoinMarginedFutures
         else if s = ''usdtmarginedfutures'' then Inr USDTMarginedFutures
         else if s = ''usdcmarginedfutures'' then Inr USDCMarginedFutures
         else if s = ''options'' \<or> s = ''option'' then Inr Options
         else if s = ''option_combo'' then Inr OptionCombo
         else if s = ''future_combo'' then Inr FutureCombo
         else if s = ''linearcontract'' then Inr LinearContract
         else if s = ''all'' then Inr All
         else Inl (Errorf ''%w '%v', only supports %s'' [asset_ErrNotSupported]))"

definition asset_Strings :: "asset_item list \<Rightarrow> string list" where
  "asset_Strings a = map asset_String a"

fun strings_Join :: "string list \<Rightarrow> string \<Rightarrow> string" where
  "strings_Join [] sep = []"
| "strings_Join [s] sep = s"
| "strings_Join (s # t # ss) sep = s @ sep @ strings_Join (t # ss) sep"

definition asset_JoinToString :: "asset_item list \<Rightarrow> string \<Rightarrow> string" where
  "asset_JoinToString a sep = strings_Join (asset_Strings a) sep"

section \<open>Ranges\<close>

definition asset_IsValid :: "asset_item \<Rightarrow> bool" where
  "asset_IsValid a \<longleftrightarrow> Empty < a \<and> a < All"

definition asset_IsFutures :: "asset_item \<Rightarrow> bool" where
  "asset_IsFutures a \<longleftrightarrow> Futures \<le> a \<and> a < Options"

definition asset_IsOptions :: "asset_item \<Rightarrow> bool" where
  "asset_IsOptions a \<longleftrightarrow> Options \<le> a \<and> a < All"

definition asset_Contains :: "asset_item list \<Rightarrow> asset_item \<Rightarrow> bool" where
  "asset_Contains a i \<longleftrightarrow> asset_IsValid i \<and> i \<in> set a"

definition asset_UseDefault :: asset_item where
  "asset_UseDefault = Spot"

text \<open>The string payload of \<open>UnmarshalJSON\<close>: an empty string leaves the receiver as it is.\<close>

definition asset_UnmarshalJSON :: "asset_item \<Rightarrow> string \<Rightarrow> asset_item \<times> go_error option" where
  "asset_UnmarshalJSON a s =
     (if s = [] then (a, None)
      else case asset_New s of Inl e \<Rightarrow> (a, Some e) | Inr ai \<Rightarrow> (ai, None))"

section \<open>Lemmas\<close>

lemma word32_range_cases:
  fixes a :: "32 word"
  assumes "0 < a" and "a < 20"
  shows "a \<in> set (map of_nat [1..<20])"
proof -
  have "unat a < 20" using assms(2) by (simp add: word_less_nat_alt)
  moreover have "0 < unat a" using assms(1) by (simp add: word_less_nat_alt)
  ultimately have "unat a \<in> {1..<20}" by simp
  then have "of_nat (unat a) \<in> (of_nat :: nat \<Rightarrow> 32 word) ` {1..<20}" by (rule imageI)
  then show ?thesis by simp
qed

lemma asset_IsValid_iff: "asset_IsValid a \<longleftrightarrow> a \<in> set supportedList"
proof
  assume "asset_IsValid a"
  then have "a \<in> set (map of_nat [1..<20])"
    by (intro word32_range_cases) (simp_all add: asset_IsValid_def Empty_def All_def)
  then show "a \<in> set supportedList"
    by (auto simp: supportedList_def asset_consts upt_rec)
next
  assume "a \<in> set supportedList"
  then show "asset_IsValid a"
    by (auto simp: supportedList_def asset_IsValid_def asset_consts)
qed

lemma asset_New_String_All: "asset_New (asset_String All) = Inr All"
  by (simp add: asset_String_def asset_New_def asset_consts case_eval)

lemma supportedList_roundtrip:
  "list_all (\<lambda>a. asset_New (asset_String a) = Inr a) supportedList"
  by (simp add: supportedList_def asset_String_def asset_New_def asset_consts case_eval)

lemma asset_String_ne: "list_all (\<lambda>a. asset_String a \<noteq> []) supportedList"
  by (simp add: supportedList_def asset_String_def asset_consts)

lemma asset_New_ToUpper [simp]: "asset_New (ToUpper s) = asset_New s"
  by (simp add: asset_New_def)

section \<open>Properties\<close>

text \<open>Also: for every asset type that \<open>IsValid\<close> accepts, \<open>New\<close> parses the name
  \<open>String\<close> gives, and its upper-case spelling, back to that asset type, and the name is not
  empty (an unnamed constant would print as the empty string and be lost in JSON).\<close>

theorem asset_roundtrip:
  assumes "asset_IsValid a"
  shows "asset_New (asset_String a) = Inr a \<and> asset_New (ToUpper (asset_String a)) = Inr a \<and>
    asset_String a \<noteq> []"
  using assms supportedList_roundtrip asset_String_ne
  by (auto simp: asset_IsValid_iff list_all_iff)

theorem asset_roundtrip_witness:
  "asset_New (asset_String PerpetualSwap) = Inr PerpetualSwap"
  using asset_roundtrip [of PerpetualSwap] by (simp add: asset_IsValid_def asset_consts)

text \<open>Also: the futures and the options ranges are disjoint and inside the valid
  assets; the valid assets in neither are exactly the six spot-like ones declared before the
  futures block.\<close>

theorem asset_partition:
  "\<not> (asset_IsFutures a \<and> asset_IsOptions a) \<and>
   (asset_IsValid a \<longleftrightarrow> asset_IsFutures a \<or> asset_IsOptions a \<or>
      a \<in> {Spot, Margin, CrossMargin, MarginFunding, Index, Binary})"
proof -
  have "asset_IsValid a \<longleftrightarrow> a \<in> {1, 2, 3, 4, 5, 6} \<or> Futures \<le> a \<and> a < Options \<or>
      Options \<le> a \<and> a < All"
  proof
    assume v: "asset_IsValid a"
    then have "a \<in> set (map of_nat [1..<20])"
      by (intro word32_range_cases) (simp_all add: asset_IsValid_def Empty_def All_def)
    then show "a \<in> {1, 2, 3, 4, 5, 6} \<or> Futures \<le> a \<and> a < Options \<or> Options \<le> a \<and> a < All"
      by (auto simp: asset_consts upt_rec)
  qed (auto simp: asset_IsValid_def asset_consts word_less_nat_alt word_le_nat_alt)
  then show ?thesis
    by (auto simp: asset_IsFutures_def asset_IsOptions_def asset_consts word_less_nat_alt
        word_le_nat_alt)
qed

end
