(* ===== verification/Currency.thy ===== *)
theory Currency
  imports Go_Prelude
begin

unbundle bit_operations_syntax

text \<open>
  Currency codes and their registry (\<open>currency/code.go\<close>, \<open>code_types.go\<close>).

  A \<open>Code\<close> holds a pointer to an \<open>Item\<close> that \<open>BaseCodes\<close> interns: codes are compared by
  pointer, and an item's role is filled in later through whatever code reaches it, so the items
  live in an explicit store.  \<open>cs_heap\<close> maps the allocated addresses to items, \<open>cs_next\<close> is the
  next address, and \<open>cs_items\<close> is \<open>BaseCodes.Items\<close>, from upper-case symbols to the addresses
  registered under them.  \<open>store_inv\<close> is what the operations maintain.
\<close>

section \<open>Items, roles, codes\<close>

type_synonym role = "8 word"

definition Unset :: role where "Unset = 0"
definition Fiat :: role where "Fiat = 1"
definition Cryptocurrency :: role where "Cryptocurrency = 2"
definition Token :: role where "Token = 4"
definition Contract :: role where "Contract = 8"
definition Stable :: role where "Stable = 16"

lemmas role_consts =
  Unset_def Fiat_def Cryptocurrency_def Token_def Contract_def Stable_def

record item =
  item_ID :: int
  FullName :: string
  Symbol :: string
  Lower :: string
  Role :: role
  AssocChain :: string

definition empty_item :: item where
  "empty_item = \<lparr>item_ID = 0, FullName = [], Symbol = [], Lower = [], Role = 0, AssocChain = []\<rparr>"

type_synonym item_ptr = nat

record code =
  Item :: "item_ptr option"
  upperCase :: bool

definition EMPTYCODE :: code where
  "EMPTYCODE = \<lparr>Item = None, upperCase = False\<rparr>"

record store =
  cs_heap :: "item_ptr \<Rightarrow> item option"
  cs_next :: nat
  cs_items :: "string \<Rightarrow> item_ptr list option"

definition empty_store :: store where
  "empty_store = \<lparr>cs_heap = (\<lambda>_. None), cs_next = 0, cs_items = (\<lambda>_. None)\<rparr>"

definition item_at :: "store \<Rightarrow> item_ptr \<Rightarrow> item" where
  "item_at s p = (case cs_heap s p of Some i \<Rightarrow> i | None \<Rightarrow> empty_item)"

definition set_item :: "store \<Rightarrow> item_ptr \<Rightarrow> item \<Rightarrow> store" where
  "set_item s p i = s\<lparr>cs_heap := (cs_heap s)(p := Some i)\<rparr>"

text \<open>\<open>b.Items[k] = append(b.Items[k], newItem)\<close> for a newly allocated item.\<close>

definition append_item :: "store \<Rightarrow> string \<Rightarrow> item \<Rightarrow> store" where
  "append_item s k i =
     s\<lparr>cs_heap := (cs_heap s)(cs_next s := Some i), cs_next := Suc (cs_next s),
       cs_items := (cs_items s)(k \<mapsto>
         (case cs_items s k of Some ps \<Rightarrow> ps | None \<Rightarrow> []) @ [cs_next s])\<rparr>"

definition errItemIsNil :: go_error where "errItemIsNil = Sentinel ''currency.errItemIsNil''"
definition errItemIsEmpty :: go_error where "errItemIsEmpty = Sentinel ''currency.errItemIsEmpty''"
definition errSymbolEmpty :: go_error where "errSymbolEmpty = Sentinel ''currency.errSymbolEmpty''"
definition errRoleUnset :: go_error where "errRoleUnset = Sentinel ''currency.errRoleUnset''"

definition role_String :: "role \<Rightarrow> string" where
  "role_String r =
     (if r = Fiat then ''fiatcurrency''
      else if r = Cryptocurrency then ''cryptocurrency''
      else if r = Token then ''token''
      else if r = Contract then ''contract''
      else if r = Stable then ''stablecurrency''
      else ''roleUnset'')"

text \<open>The string payload of \<open>Role.UnmarshalJSON\<close>.\<close>

definition role_UnmarshalJSON :: "role \<Rightarrow> string \<Rightarrow> role \<times> go_error option" where
  "role_UnmarshalJSON r incoming =
     (if incoming = ''roleUnset'' then (Unset, None)
      else if incoming = ''fiatcurrency'' then (Fiat, None)
      else if incoming = ''cryptocurrency'' then (Cryptocurrency, None)
      else if incoming = ''token'' then (Token, None)
      else if incoming = ''contract'' then (Contract, None)
      else if incoming = ''stablecurrency'' then (Stable, None)
      else (r, Some (Errorf ''unmarshal error role type %s unsupported for currency'' [])))"

section \<open>The registry of items\<close>

text \<open>The loop of \<open>Register\<close> over the items stored under the symbol.\<close>

fun register_loop :: "store \<Rightarrow> role \<Rightarrow> item_ptr list \<Rightarrow> (store \<times> item_ptr) option" where
  "register_loop s newRole [] = None"
| "register_loop s newRole (p # ps) =
     (if newRole \<noteq> Unset
      then (if Role (item_at s p) \<noteq> Unset \<and> Role (item_at s p) \<noteq> newRole
            then register_loop s newRole ps
            else Some (set_item s p (item_at s p\<lparr>Role := newRole\<rparr>), p))
      else Some (s, p))"

definition Register :: "store \<Rightarrow> string \<Rightarrow> role \<Rightarrow> store \<times> code" where
  "Register s c newRole =
     (if c = [] then (s, EMPTYCODE)
      else
        let isUpperCase = list_ex is_upper_char c;
            c = ToUpper c;
            stored = (case cs_items s c of Some ps \<Rightarrow> ps | None \<Rightarrow> [])
        in case register_loop s newRole stored of
             Some (s', p) \<Rightarrow> (s', \<lparr>Item = Some p, upperCase = isUpperCase\<rparr>)
           | None \<Rightarrow>
               (append_item s c (empty_item\<lparr>Symbol := c, Lower := ToLower c, Role := newRole\<rparr>),
                \<lparr>Item = Some (cs_next s), upperCase = isUpperCase\<rparr>))"

text \<open>\<open>NewCode\<close>, through \<open>Storage.ValidateCode\<close>.\<close>

definition NewCode :: "store \<Rightarrow> string \<Rightarrow> store \<times> code" where
  "NewCode s c = Register s c Unset"

fun update_loop :: "store \<Rightarrow> item \<Rightarrow> item_ptr list \<Rightarrow> store option" where
  "update_loop s update [] = None"
| "update_loop s update (p # ps) =
     (if Role (item_at s p) \<noteq> Unset \<and> Role (item_at s p) \<noteq> Role update
      then update_loop s update ps
      else
        let i0 = item_at s p\<lparr>Role := Role update\<rparr>;
            i1 = (if FullName update \<noteq> [] then i0\<lparr>FullName := FullName update\<rparr> else i0);
            i2 = (if AssocChain update \<noteq> [] then i1\<lparr>AssocChain := AssocChain update\<rparr> else i1);
            i3 = (if item_ID update \<noteq> 0 then i2\<lparr>item_ID := item_ID update\<rparr> else i2)
        in Some (set_item s p i3))"

definition UpdateCurrency :: "store \<Rightarrow> item option \<Rightarrow> store \<times> go_error option" where
  "UpdateCurrency s upd =
     (case upd of
        None \<Rightarrow> (s, Some errItemIsNil)
      | Some update \<Rightarrow>
          if Symbol update = [] then (s, Some errSymbolEmpty)
          else if Role update = Unset
            then (s, Some (Errorf ''cannot update currency %w for %s'' [errRoleUnset]))
          else
            let symb = ToUpper (Symbol update);
                update = update\<lparr>Symbol := symb, Lower := ToLower symb\<rparr>;
                stored = (case cs_items s symb of Some ps \<Rightarrow> ps | None \<Rightarrow> [])
            in case update_loop s update stored of
                 Some s' \<Rightarrow> (s', None)
               | None \<Rightarrow> (append_item s symb update, None))"

fun load_loop :: "store \<Rightarrow> role \<Rightarrow> item_ptr list \<Rightarrow> store option" where
  "load_loop s r [] = None"
| "load_loop s r (p # ps) =
     (if Role (item_at s p) = r then Some s
      else if Role (item_at s p) = Unset \<and> r \<noteq> Unset
        then Some (set_item s p (item_at s p\<lparr>Role := r\<rparr>))
      else load_loop s r ps)"

definition LoadItem :: "store \<Rightarrow> item option \<Rightarrow> store \<times> go_error option" where
  "LoadItem s itm =
     (case itm of
        None \<Rightarrow> (s, Some errItemIsNil)
      | Some i \<Rightarrow>
          if i = empty_item then (s, Some errItemIsEmpty)
          else
            let symb = ToUpper (Symbol i);
                i = i\<lparr>Symbol := symb, Lower := ToLower symb\<rparr>;
                stored = (case cs_items s symb of Some ps \<Rightarrow> ps | None \<Rightarrow> [])
            in case load_loop s (Role i) stored of
                 Some s' \<Rightarrow> (s', None)
               | None \<Rightarrow> (append_item s symb i, None))"

section \<open>Methods of Code\<close>

definition code_String :: "store \<Rightarrow> code \<Rightarrow> string" where
  "code_String s c =
     (case Item c of
        None \<Rightarrow> []
      | Some p \<Rightarrow> if upperCase c then Symbol (item_at s p) else Lower (item_at s p))"

definition code_Lower :: "code \<Rightarrow> code" where
  "code_Lower c = (if Item c = None then c else c\<lparr>upperCase := False\<rparr>)"

definition code_Upper :: "code \<Rightarrow> code" where
  "code_Upper c = (if Item c = None then c else c\<lparr>upperCase := True\<rparr>)"

definition code_IsEmpty :: "store \<Rightarrow> code \<Rightarrow> bool" where
  "code_IsEmpty s c =
     (case Item c of None \<Rightarrow> True | Some p \<Rightarrow> Symbol (item_at s p) = [])"

definition code_Equal :: "code \<Rightarrow> code \<Rightarrow> bool" where
  "code_Equal c check \<longleftrightarrow> Item c = Item check"

definition IsFiatCurrency :: "store \<Rightarrow> code \<Rightarrow> bool" where
  "IsFiatCurrency s c = (case Item c of None \<Rightarrow> False | Some p \<Rightarrow> Role (item_at s p) = Fiat)"

definition IsCryptocurrency :: "store \<Rightarrow> code \<Rightarrow> bool" where
  "IsCryptocurrency s c =
     (case Item c of
        None \<Rightarrow> False
      | Some p \<Rightarrow> Role (item_at s p) AND (Cryptocurrency OR Stable) = Role (item_at s p))"

definition IsStableCurrency :: "store \<Rightarrow> code \<Rightarrow> bool" where
  "IsStableCurrency s c = (case Item c of None \<Rightarrow> False | Some p \<Rightarrow> Role (item_at s p) = Stable)"

definition isCaseSensitive :: "store \<Rightarrow> code \<Rightarrow> bool" where
  "isCaseSensitive s c =
     (case Item c of None \<Rightarrow> False | Some p \<Rightarrow> Symbol (item_at s p) \<noteq> Lower (item_at s p))"

definition item_Currency :: "store \<Rightarrow> item_ptr option \<Rightarrow> store \<times> code" where
  "item_Currency s i =
     (case i of None \<Rightarrow> (s, EMPTYCODE) | Some p \<Rightarrow> NewCode s (Symbol (item_at s p)))"

text \<open>The string payloads of \<open>Code.UnmarshalJSON\<close> and \<open>Code.MarshalJSON\<close>.\<close>

definition code_UnmarshalJSON :: "store \<Rightarrow> string \<Rightarrow> store \<times> code" where
  "code_UnmarshalJSON s newcode = NewCode s newcode"

definition code_MarshalJSON :: "store \<Rightarrow> code \<Rightarrow> string" where
  "code_MarshalJSON s c = (if Item c = None then [] else code_String s c)"

section \<open>Invariant of the store\<close>

text \<open>
  Addresses are allocated below \<open>cs_next\<close>; a symbol's list is not empty and has no duplicates,
  its key is in upper case and its items carry the symbol and its lower-case form; the items of
  one symbol have different roles, and only the last may have no role yet.
\<close>

definition list_inv :: "store \<Rightarrow> string \<Rightarrow> item_ptr list \<Rightarrow> bool" where
  "list_inv s k ps \<longleftrightarrow>
     ps \<noteq> [] \<and> distinct ps \<and> ToUpper k = k \<and>
     (\<forall>p \<in> set ps. \<exists>i. cs_heap s p = Some i \<and> Symbol i = k \<and> Lower i = ToLower k) \<and>
     inj_on (\<lambda>p. Role (item_at s p)) (set ps) \<and>
     (\<forall>p \<in> set (butlast ps). Role (item_at s p) \<noteq> Unset)"

definition store_inv :: "store \<Rightarrow> bool" where
  "store_inv s \<longleftrightarrow>
     (\<forall>p. cs_heap s p \<noteq> None \<longrightarrow> p < cs_next s) \<and>
     (\<forall>k ps. cs_items s k = Some ps \<longrightarrow> list_inv s k ps)"

lemma store_inv_empty [simp]: "store_inv empty_store"
  by (simp add: store_inv_def empty_store_def)

lemma store_invD:
  assumes "store_inv s" and "cs_items s k = Some ps"
  shows "ps \<noteq> []" and "distinct ps" and "ToUpper k = k"
    and "\<And>p. p \<in> set ps \<Longrightarrow> cs_heap s p = Some (item_at s p)"
    and "\<And>p. p \<in> set ps \<Longrightarrow> Symbol (item_at s p) = k"
    and "\<And>p. p \<in> set ps \<Longrightarrow> Lower (item_at s p) = ToLower k"
    and "inj_on (\<lambda>p. Role (item_at s p)) (set ps)"
    and "\<And>p. p \<in> set (butlast ps) \<Longrightarrow> Role (item_at s p) \<noteq> Unset"
    and "\<And>p. p \<in> set ps \<Longrightarrow> p < cs_next s"
proof -
  have l: "list_inv s k ps" using assms by (simp add: store_inv_def)
  then show "ps \<noteq> []" "distinct ps" "ToUpper k = k"
    "inj_on (\<lambda>p. Role (item_at s p)) (set ps)"
    "\<And>p. p \<in> set (butlast ps) \<Longrightarrow> Role (item_at s p) \<noteq> Unset"
    by (simp_all add: list_inv_def)
  have h: "\<exists>i. cs_heap s p = Some i \<and> Symbol i = k \<and> Lower i = ToLower k" if "p \<in> set ps" for p
    using l that by (simp add: list_inv_def)
  show "cs_heap s p = Some (item_at s p)" "Symbol (item_at s p) = k"
    "Lower (item_at s p) = ToLower k" if "p \<in> set ps" for p
    using h [OF that] by (auto simp: item_at_def)
  show "p < cs_next s" if "p \<in> set ps" for p
    using h [OF that] assms(1) by (auto simp: store_inv_def)
qed

text \<open>An address belongs to one symbol only.\<close>

lemma store_inv_disjoint:
  assumes "store_inv s" "cs_items s k = Some ps" "cs_items s l = Some qs"
    and "p \<in> set ps" "p \<in> set qs"
  shows "k = l"
  using store_invD(5) [OF assms(1,2,4)] store_invD(5) [OF assms(1,3,5)] by simp

lemma item_at_set_item [simp]: "item_at (set_item s p i) q = (if q = p then i else item_at s q)"
  and cs_heap_set_item: "cs_heap (set_item s p i) = (cs_heap s)(p := Some i)"
  and cs_items_set_item [simp]: "cs_items (set_item s p i) = cs_items s"
  and cs_next_set_item [simp]: "cs_next (set_item s p i) = cs_next s"
  by (auto simp: set_item_def item_at_def)


lemma list_inv_other:
  assumes "list_inv s k ps" and "p \<notin> set ps"
  shows "list_inv (set_item s p i) k ps"
proof -
  have m: "inj_on (\<lambda>q. Role (item_at (set_item s p i) q)) (set ps)
      \<longleftrightarrow> inj_on (\<lambda>q. Role (item_at s q)) (set ps)"
    using assms(2) by (intro inj_on_cong) auto
  have b: "q \<noteq> p" if "q \<in> set (butlast ps)" for q
    using that assms(2) in_set_butlastD by fastforce
  show ?thesis
    using assms m b unfolding list_inv_def by (auto simp: cs_heap_set_item simp del: item_at_set_item) (auto)
qed

lemma set_role_inv:
  assumes inv: "store_inv s" and ps: "cs_items s k = Some ps" "p \<in> set ps"
    and i: "Symbol i = Symbol (item_at s p)" "Lower i = Lower (item_at s p)"
      "Role i \<noteq> Unset" "\<And>q. q \<in> set ps \<Longrightarrow> q \<noteq> p \<Longrightarrow> Role (item_at s q) \<noteq> Role i"
  shows "store_inv (set_item s p i)"
proof -
  note d = store_invD [OF inv ps(1)]
  have dist: "inj_on (\<lambda>q. Role (if q = p then i else item_at s q)) (set ps)"
    using d(7) i(4) by (force simp: inj_on_def)
  have own: "list_inv (set_item s p i) k ps"
    unfolding list_inv_def
    using d i dist by (auto simp: cs_heap_set_item)
  have "list_inv (set_item s p i) l qs" if "cs_items s l = Some qs" for l qs
  proof (cases "l = k")
    case True
    with that ps own show ?thesis by simp
  next
    case False
    then have "p \<notin> set qs" using store_inv_disjoint [OF inv that ps(1)] ps(2) by blast
    moreover have "list_inv s l qs" using inv that by (simp add: store_inv_def)
    ultimately show ?thesis by (intro list_inv_other)
  qed
  moreover have "p < cs_next s" by (rule d(9) [OF ps(2)])
  ultimately show ?thesis using inv by (auto simp: store_inv_def cs_heap_set_item)
qed

lemma append_item_inv:
  assumes inv: "store_inv s" and k: "ToUpper k = k" "Symbol i = k" "Lower i = ToLower k"
    and fresh: "\<And>ps q. cs_items s k = Some ps \<Longrightarrow> q \<in> set ps \<Longrightarrow>
       Role (item_at s q) \<noteq> Unset \<and> Role (item_at s q) \<noteq> Role i"
  shows "store_inv (append_item s k i)"
proof -
  let ?s = "append_item s k i" and ?n = "cs_next s"
  have none: "cs_heap s ?n = None" using inv by (force simp: store_inv_def)
  have at: "item_at ?s q = (if q = ?n then i else item_at s q)" for q
    by (simp add: append_item_def item_at_def)
  have notin: "?n \<notin> set qs" if "cs_items s l = Some qs" for l qs
    using store_invD(4) [OF inv that] none by (metis option.distinct(1))
  have other: "list_inv ?s l qs" if "cs_items s l = Some qs" for l qs
  proof -
    have "list_inv s l qs" using inv that by (simp add: store_inv_def)
    moreover have "inj_on (\<lambda>q. Role (item_at ?s q)) (set qs) =
        inj_on (\<lambda>q. Role (item_at s q)) (set qs)"
      using notin [OF that] by (intro inj_on_cong) (auto simp: at)
    moreover have "q \<noteq> ?n" if "q \<in> set (butlast qs)" for q
      using notin [OF \<open>cs_items s l = Some qs\<close>] in_set_butlastD [OF that] by auto
    ultimately show ?thesis
      using notin [OF that] unfolding list_inv_def
      by (auto simp: at) (auto simp: append_item_def)
  qed
  have own: "list_inv ?s k (qs @ [?n])"
    if "cs_items s k = Some qs \<or> cs_items s k = None \<and> qs = []" for qs
  proof -
    have props: "distinct qs" "inj_on (\<lambda>q. Role (item_at s q)) (set qs)" "?n \<notin> set qs"
      "\<And>q. q \<in> set qs \<Longrightarrow> Role (item_at s q) \<noteq> Unset \<and> Role (item_at s q) \<noteq> Role i"
      "\<And>q. q \<in> set qs \<Longrightarrow> \<exists>i. cs_heap s q = Some i \<and> Symbol i = k \<and> Lower i = ToLower k"
      using that fresh notin store_invD [OF inv, of k qs] by auto
    have "inj_on (\<lambda>q. Role (item_at ?s q)) (set (qs @ [?n]))"
      using props(2-4) by (force simp: at inj_on_def)
    then show ?thesis
      using props k unfolding list_inv_def
      by (auto simp: at) (auto simp: append_item_def)
  qed
  show ?thesis
    unfolding store_inv_def
  proof (intro conjI allI impI)
    fix p assume "cs_heap ?s p \<noteq> None"
    then show "p < cs_next ?s"
      using inv by (auto simp: append_item_def store_inv_def less_Suc_eq split: if_splits)
  next
    fix l qs assume "cs_items ?s l = Some qs"
    then show "list_inv ?s l qs"
      using own other by (auto simp: append_item_def split: if_splits option.splits)
  qed
qed

section \<open>The operations keep the invariant\<close>

text \<open>An adopting scan: the first item whose role is unset or the wanted one; the items before
  it have other roles.\<close>

lemma adopt_unique:
  assumes "store_inv s" "cs_items s k = Some (as @ p # bs)"
    and "\<forall>q \<in> set as. Role (item_at s q) \<noteq> Unset \<and> Role (item_at s q) \<noteq> r"
    and "Role (item_at s p) = Unset \<or> Role (item_at s p) = r"
    and "q \<in> set (as @ p # bs)" "q \<noteq> p"
  shows "Role (item_at s q) \<noteq> r"
proof (cases "Role (item_at s p) = r")
  case True
  then show ?thesis
    using store_invD(2,7) [OF assms(1,2)] assms(5,6)
    by (auto simp: inj_on_def)
next
  case False
  then have u: "Role (item_at s p) = Unset" using assms(4) by simp
  have "bs = []"
  proof (rule ccontr)
    assume "bs \<noteq> []"
    then have "p \<in> set (butlast (as @ p # bs))" by (simp add: butlast_append)
    with u show False using store_invD(8) [OF assms(1,2)] by blast
  qed
  with assms show ?thesis by auto
qed

lemma register_loop_None:
  "r \<noteq> Unset \<Longrightarrow> register_loop s r ps = None \<longleftrightarrow>
     (\<forall>q \<in> set ps. Role (item_at s q) \<noteq> Unset \<and> Role (item_at s q) \<noteq> r)"
  by (induction ps) auto

lemma register_loop_Some:
  assumes "r \<noteq> Unset" and "register_loop s r ps = Some (s', p)"
  obtains as bs where "ps = as @ p # bs"
    and "\<forall>q \<in> set as. Role (item_at s q) \<noteq> Unset \<and> Role (item_at s q) \<noteq> r"
    and "Role (item_at s p) = Unset \<or> Role (item_at s p) = r"
    and "s' = set_item s p (item_at s p\<lparr>Role := r\<rparr>)"
  using assms(2)
proof (induction ps arbitrary: thesis)
  case (Cons a ps)
  show ?case
  proof (cases "Role (item_at s a) \<noteq> Unset \<and> Role (item_at s a) \<noteq> r")
    case True
    with assms(1) Cons.prems(2) have "register_loop s r ps = Some (s', p)" by simp
    then show ?thesis
    proof (rule Cons.IH [rotated])
      fix as bs
      assume "ps = as @ p # bs"
        "\<forall>q \<in> set as. Role (item_at s q) \<noteq> Unset \<and> Role (item_at s q) \<noteq> r"
        "Role (item_at s p) = Unset \<or> Role (item_at s p) = r"
        "s' = set_item s p (item_at s p\<lparr>Role := r\<rparr>)"
      with True show ?thesis by (intro Cons.prems(1) [of "a # as" bs]) auto
    qed
  next
    case False
    with assms(1) Cons.prems(2) show ?thesis by (intro Cons.prems(1) [of "[]" ps]) auto
  qed
qed simp

lemma register_loop_Unset: "register_loop s Unset ps = (case ps of [] \<Rightarrow> None | p # _ \<Rightarrow> Some (s, p))"
  by (cases ps) auto

lemma Register_inv:
  assumes inv: "store_inv s"
  shows "store_inv (fst (Register s c r))"
proof (cases "c = []")
  case False
  let ?k = "ToUpper c"
  let ?ps = "case cs_items s ?k of Some ps \<Rightarrow> ps | None \<Rightarrow> []"
  show ?thesis
  proof (cases "register_loop s r ?ps")
    case None
    have "store_inv (append_item s ?k (empty_item\<lparr>Symbol := ?k, Lower := ToLower ?k, Role := r\<rparr>))"
    proof (rule append_item_inv [OF inv])
      fix ps q assume ps: "cs_items s ?k = Some ps" "q \<in> set ps"
      then have "register_loop s r ps = None" using None by simp
      moreover have "ps \<noteq> []" using ps by auto
      ultimately show "Role (item_at s q) \<noteq> Unset \<and> Role (item_at s q) \<noteq>
          Role (empty_item\<lparr>Symbol := ?k, Lower := ToLower ?k, Role := r\<rparr>)"
        using ps(2) register_loop_None [of r s ps]
        by (cases "r = Unset") (auto simp: register_loop_Unset split: list.splits)
    qed simp_all
    with False None show ?thesis by (simp add: Register_def Let_def)
  next
    case (Some sp)
    obtain s' p where sp: "sp = (s', p)" by (cases sp)
    obtain ps where ps: "cs_items s ?k = Some ps" "register_loop s r ps = Some (s', p)"
      using Some sp by (cases "cs_items s ?k") auto
    have "store_inv s'"
    proof (cases "r = Unset")
      case True
      then show ?thesis using ps inv by (auto simp: register_loop_Unset split: list.splits)
    next
      case False
      then obtain as bs where a: "ps = as @ p # bs"
        "\<forall>q \<in> set as. Role (item_at s q) \<noteq> Unset \<and> Role (item_at s q) \<noteq> r"
        "Role (item_at s p) = Unset \<or> Role (item_at s p) = r"
        "s' = set_item s p (item_at s p\<lparr>Role := r\<rparr>)"
        using register_loop_Some [OF False ps(2)] by metis
      show ?thesis
        unfolding a(4)
      proof (rule set_role_inv [OF inv ps(1)])
        fix q assume "q \<in> set ps" "q \<noteq> p"
        then show "Role (item_at s q) \<noteq> Role (item_at s p\<lparr>Role := r\<rparr>)"
          using adopt_unique [OF inv, of ?k as p bs r q] ps(1) a(1-3) by simp
      qed (use a(1) False in simp_all)
    qed
    with False Some sp show ?thesis by (simp add: Register_def Let_def)
  qed
qed (simp add: Register_def inv)


text \<open>The scans of \<open>UpdateCurrency\<close> and \<open>LoadItem\<close> stop at the item \<open>Register\<close>'s scan adopts.\<close>

lemma update_loop_register:
  "Role u \<noteq> Unset \<Longrightarrow>
   (update_loop s u ps = None \<longleftrightarrow> register_loop s (Role u) ps = None) \<and>
   (\<forall>s'. update_loop s u ps = Some s' \<longrightarrow>
      (\<exists>t p i. register_loop s (Role u) ps = Some (t, p) \<and> s' = set_item s p i \<and>
         Symbol i = Symbol (item_at s p) \<and> Lower i = Lower (item_at s p) \<and> Role i = Role u))"
  by (induction ps) (auto simp: Let_def)

lemma load_loop_register:
  "r \<noteq> Unset \<Longrightarrow>
   (load_loop s r ps = None \<longleftrightarrow> register_loop s r ps = None) \<and>
   (\<forall>s'. load_loop s r ps = Some s' \<longrightarrow>
      s' = s \<or> (\<exists>t p. register_loop s r ps = Some (t, p) \<and> s' = t))"
  by (induction ps) auto

lemma load_loop_Unset:
  "(load_loop s Unset ps = None \<longleftrightarrow> (\<forall>q \<in> set ps. Role (item_at s q) \<noteq> Unset)) \<and>
   (\<forall>s'. load_loop s Unset ps = Some s' \<longrightarrow> s' = s)"
  by (induction ps) auto

lemma adopt_inv:
  assumes inv: "store_inv s" and ps: "cs_items s k = Some ps"
    and r: "r \<noteq> Unset" "register_loop s r ps = Some (t, p)"
    and i: "Symbol i = Symbol (item_at s p)" "Lower i = Lower (item_at s p)" "Role i = r"
  shows "store_inv (set_item s p i)"
proof -
  obtain as bs where a: "ps = as @ p # bs"
    "\<forall>q \<in> set as. Role (item_at s q) \<noteq> Unset \<and> Role (item_at s q) \<noteq> r"
    "Role (item_at s p) = Unset \<or> Role (item_at s p) = r"
    using register_loop_Some [OF r] by metis
  show ?thesis
  proof (rule set_role_inv [OF inv ps])
    fix q assume "q \<in> set ps" "q \<noteq> p"
    then show "Role (item_at s q) \<noteq> Role i"
      using adopt_unique [OF inv, of k as p bs r q] ps a i(3) by simp
  qed (use a(1) r(1) i in simp_all)
qed

lemma UpdateCurrency_inv:
  assumes inv: "store_inv s"
  shows "store_inv (fst (UpdateCurrency s upd))"
proof (cases upd)
  case (Some u)
  let ?k = "ToUpper (Symbol u)" and ?u = "u\<lparr>Symbol := ToUpper (Symbol u), Lower := ToLower (ToUpper (Symbol u))\<rparr>"
  let ?ps = "case cs_items s ?k of Some ps \<Rightarrow> ps | None \<Rightarrow> []"
  show ?thesis
  proof (cases "Symbol u = [] \<or> Role u = Unset")
    case False
    then have r: "Role ?u \<noteq> Unset" by simp
    note reg = update_loop_register [OF r, of s ?ps]
    show ?thesis
    proof (cases "update_loop s ?u ?ps")
      case None
      then have "register_loop s (Role ?u) ?ps = None" using reg by simp
      then have "store_inv (append_item s ?k ?u)"
        using register_loop_None [OF r, of s ?ps]
        by (intro append_item_inv [OF inv]) auto
      with Some False None show ?thesis by (simp add: UpdateCurrency_def Let_def)
    next
      case (Some s')
      then obtain t p i where i: "register_loop s (Role ?u) ?ps = Some (t, p)" "s' = set_item s p i"
        "Symbol i = Symbol (item_at s p)" "Lower i = Lower (item_at s p)" "Role i = Role ?u"
        using reg by blast
      then obtain ps where "cs_items s ?k = Some ps" "?ps = ps" by (cases "cs_items s ?k") auto
      then have "store_inv s'" using adopt_inv [OF inv _ r _ i(3-5), of ?k ps t] i(1,2) by simp
      with \<open>upd = Some u\<close> False Some show ?thesis by (simp add: UpdateCurrency_def Let_def)
    qed
  qed (auto simp: UpdateCurrency_def Some inv)
qed (simp add: UpdateCurrency_def inv)

lemma LoadItem_inv:
  assumes inv: "store_inv s"
  shows "store_inv (fst (LoadItem s itm))"
proof (cases itm)
  case (Some u)
  let ?k = "ToUpper (Symbol u)" and ?u = "u\<lparr>Symbol := ToUpper (Symbol u), Lower := ToLower (ToUpper (Symbol u))\<rparr>"
  let ?ps = "case cs_items s ?k of Some ps \<Rightarrow> ps | None \<Rightarrow> []"
  show ?thesis
  proof (cases "u = empty_item")
    case False
    show ?thesis
    proof (cases "load_loop s (Role ?u) ?ps")
      case None
      have "\<forall>q \<in> set ?ps. Role (item_at s q) \<noteq> Unset \<and> Role (item_at s q) \<noteq> Role ?u"
        using None load_loop_Unset [of s ?ps] load_loop_register [of "Role ?u" s ?ps]
          register_loop_None [of "Role ?u" s ?ps]
        by (cases "Role ?u = Unset") auto
      then have "store_inv (append_item s ?k ?u)"
        by (intro append_item_inv [OF inv]) auto
      with Some False None show ?thesis by (simp add: LoadItem_def Let_def)
    next
      case (Some s')
      have "store_inv s'"
      proof (cases "s' = s")
        case False
        then have r: "Role ?u \<noteq> Unset" using Some load_loop_Unset by metis
        then obtain p where p: "register_loop s (Role ?u) ?ps = Some (s', p)"
          using load_loop_register [OF r, of s ?ps] Some False by blast
        then obtain ps where ps: "cs_items s ?k = Some ps" "?ps = ps"
          by (cases "cs_items s ?k") auto
        have "s' = set_item s p (item_at s p\<lparr>Role := Role ?u\<rparr>)"
          using register_loop_Some [OF r p] by metis
        then show ?thesis
          using adopt_inv [OF inv ps(1) r, of s' p "item_at s p\<lparr>Role := Role ?u\<rparr>"] p ps(2) by simp
      qed (simp add: inv)
      with \<open>itm = Some u\<close> False Some show ?thesis by (simp add: LoadItem_def Let_def)
    qed
  qed (simp add: LoadItem_def Some inv)
qed (simp add: LoadItem_def inv)

section \<open>Symbols are permanent\<close>

text \<open>No operation moves, drops or renames an item: a code keeps its text for ever.\<close>

definition store_ext :: "store \<Rightarrow> store \<Rightarrow> bool" where
  "store_ext s t \<longleftrightarrow>
     (\<forall>p i. cs_heap s p = Some i \<longrightarrow>
        (\<exists>j. cs_heap t p = Some j \<and> Symbol j = Symbol i \<and> Lower j = Lower i))"

lemma store_ext_refl [simp]: "store_ext s s"
  by (simp add: store_ext_def)

lemma store_ext_trans: "store_ext s t \<Longrightarrow> store_ext t u \<Longrightarrow> store_ext s u"
  unfolding store_ext_def by metis

lemma store_ext_append:
  "store_inv s \<Longrightarrow> store_ext s (append_item s k i)"
  by (auto simp: store_ext_def append_item_def store_inv_def)

lemma store_ext_set:
  "Symbol i = Symbol (item_at s p) \<Longrightarrow> Lower i = Lower (item_at s p) \<Longrightarrow>
   store_ext s (set_item s p i)"
  by (auto simp: store_ext_def cs_heap_set_item item_at_def)

lemma register_loop_ext: "register_loop s r ps = Some (s', p) \<Longrightarrow> store_ext s s'"
  by (induction ps) (auto split: if_splits intro: store_ext_set)

lemma update_loop_ext: "update_loop s u ps = Some s' \<Longrightarrow> store_ext s s'"
  by (induction ps) (auto simp: Let_def split: if_splits intro: store_ext_set)

lemma load_loop_ext: "load_loop s r ps = Some s' \<Longrightarrow> store_ext s s'"
  by (induction ps) (auto split: if_splits intro: store_ext_set)

lemma append_item_grows: "cs_items s k = Some ps \<Longrightarrow> \<exists>qs. cs_items (append_item s l i) k = Some (ps @ qs)"
  by (auto simp: append_item_def)

lemma loops_items:
  "register_loop s r ps = Some (s', p) \<Longrightarrow> cs_items s' = cs_items s"
  "update_loop s u ps = Some s' \<Longrightarrow> cs_items s' = cs_items s"
  "load_loop s r ps = Some s' \<Longrightarrow> cs_items s' = cs_items s"
  by (induction ps) (auto simp: Let_def split: if_splits)

text \<open>The contract of every operation on the registry, and what its callers get from it.\<close>

definition code_valid :: "store \<Rightarrow> code \<Rightarrow> bool" where
  "code_valid s c \<longleftrightarrow> (case Item c of None \<Rightarrow> True | Some p \<Rightarrow> cs_heap s p \<noteq> None)"

locale registry_op =
  fixes run :: "store \<Rightarrow> store"
  assumes run_inv: "store_inv s \<Longrightarrow> store_inv (run s)"
    and run_ext: "store_inv s \<Longrightarrow> store_ext s (run s)"
    and run_items: "cs_items s k = Some ps \<Longrightarrow> \<exists>qs. cs_items (run s) k = Some (ps @ qs)"
begin

lemma item_kept:
  assumes "store_inv s" and "cs_heap s p \<noteq> None"
  shows "Symbol (item_at (run s) p) = Symbol (item_at s p)"
    and "Lower (item_at (run s) p) = Lower (item_at s p)"
  using run_ext [OF assms(1)] assms(2) by (fastforce simp: store_ext_def item_at_def)+

lemma code_String_kept:
  "store_inv s \<Longrightarrow> code_valid s c \<Longrightarrow> code_String (run s) c = code_String s c"
  by (auto simp: code_String_def code_valid_def item_kept split: option.splits)

lemma code_valid_kept: "store_inv s \<Longrightarrow> code_valid s c \<Longrightarrow> code_valid (run s) c"
  using run_ext [of s] by (fastforce simp: code_valid_def store_ext_def split: option.splits)

lemma code_IsEmpty_kept:
  "store_inv s \<Longrightarrow> code_valid s c \<Longrightarrow> code_IsEmpty (run s) c = code_IsEmpty s c"
  by (auto simp: code_IsEmpty_def code_valid_def item_kept split: option.splits)

lemma isCaseSensitive_kept:
  "store_inv s \<Longrightarrow> code_valid s c \<Longrightarrow> isCaseSensitive (run s) c = isCaseSensitive s c"
  by (auto simp: isCaseSensitive_def code_valid_def item_kept split: option.splits)

end

interpretation reg: registry_op "\<lambda>s. fst (Register s c r)" for c r
proof
  fix s assume inv: "store_inv s"
  then show "store_inv (fst (Register s c r))" by (rule Register_inv)
  show "store_ext s (fst (Register s c r))"
    using inv by (auto simp: Register_def Let_def split: option.splits
        intro: store_ext_append register_loop_ext)
qed (auto simp: Register_def Let_def loops_items split: option.split dest: append_item_grows)

interpretation upd: registry_op "\<lambda>s. fst (UpdateCurrency s u)" for u
proof
  fix s assume inv: "store_inv s"
  then show "store_inv (fst (UpdateCurrency s u))" by (rule UpdateCurrency_inv)
  show "store_ext s (fst (UpdateCurrency s u))"
    using inv by (auto simp: UpdateCurrency_def Let_def split: option.splits
        intro: store_ext_append update_loop_ext)
qed (auto simp: UpdateCurrency_def Let_def loops_items split: option.split dest: append_item_grows)

interpretation ldi: registry_op "\<lambda>s. fst (LoadItem s i)" for i
proof
  fix s assume inv: "store_inv s"
  then show "store_inv (fst (LoadItem s i))" by (rule LoadItem_inv)
  show "store_ext s (fst (LoadItem s i))"
    using inv by (auto simp: LoadItem_def Let_def split: option.splits
        intro: store_ext_append load_loop_ext)
qed (auto simp: LoadItem_def Let_def loops_items split: option.split dest: append_item_grows)

text \<open>Any sequence of operations.\<close>

inductive registry_run :: "store \<Rightarrow> store \<Rightarrow> bool" where
  run_none: "registry_run s s"
| run_register: "registry_run s t \<Longrightarrow> registry_run s (fst (Register t c r))"
| run_update: "registry_run s t \<Longrightarrow> registry_run s (fst (UpdateCurrency t u))"
| run_load: "registry_run s t \<Longrightarrow> registry_run s (fst (LoadItem t i))"

lemma registry_run_keeps:
  assumes "registry_run s t" and "store_inv s"
  shows "store_inv t \<and> (code_valid s x \<longrightarrow> code_valid t x \<and> code_String t x = code_String s x) \<and>
    (cs_items s k = Some ps \<longrightarrow> (\<exists>qs. cs_items t k = Some (ps @ qs)))"
  using assms
proof (induction rule: registry_run.induct)
  case (run_register s t c r)
  then show ?case
    using reg.run_items [of t k _ c r]
    by (auto simp: reg.run_inv reg.code_valid_kept reg.code_String_kept)
next
  case (run_update s t u)
  then show ?case
    using upd.run_items [of t k _ u]
    by (auto simp: upd.run_inv upd.code_valid_kept upd.code_String_kept)
next
  case (run_load s t i)
  then show ?case
    using ldi.run_items [of t k _ i]
    by (auto simp: ldi.run_inv ldi.code_valid_kept ldi.code_String_kept)
qed simp

section \<open>Interning\<close>

lemma NewCode_spec:
  assumes inv: "store_inv s" and c: "c \<noteq> []"
  obtains ps where "cs_items (fst (NewCode s c)) (ToUpper c) = Some ps" "ps \<noteq> []"
    and "Item (snd (NewCode s c)) = Some (hd ps)"
    and "\<And>k. k \<noteq> ToUpper c \<Longrightarrow> cs_items (fst (NewCode s c)) k = cs_items s k"
    and "\<And>qs. cs_items s (ToUpper c) = Some qs \<Longrightarrow> ps = qs"
    and "upperCase (snd (NewCode s c)) = list_ex is_upper_char c"
proof (cases "cs_items s (ToUpper c)")
  case None
  then show ?thesis
    using c by (intro that [of "[cs_next s]"])
      (auto simp: NewCode_def Register_def Let_def append_item_def)
next
  case (Some qs)
  then obtain q qs' where "qs = q # qs'" using store_invD(1) [OF inv Some] by (cases qs) auto
  with Some c show ?thesis
    by (intro that [of qs]) (auto simp: NewCode_def Register_def Let_def)
qed

text \<open>What \<open>Register\<close> finds or makes.\<close>

lemma Register_picks [consumes 2]:
  assumes inv: "store_inv s" and c: "c \<noteq> []"
  obtains qs p where "cs_items s (ToUpper c) = Some qs" "p \<in> set qs"
      "Item (snd (Register s c r)) = Some p" "r = Unset \<Longrightarrow> p = hd qs"
      "r \<noteq> Unset \<Longrightarrow> Role (item_at s p) = Unset \<or> Role (item_at s p) = r"
      "\<And>q. r \<noteq> Unset \<Longrightarrow> q \<in> set qs \<Longrightarrow> q \<noteq> p \<Longrightarrow> Role (item_at s q) \<noteq> r"
      "cs_items (fst (Register s c r)) = cs_items s"
    | "Item (snd (Register s c r)) = Some (cs_next s)" "r = Unset \<Longrightarrow> cs_items s (ToUpper c) = None"
      "\<And>qs q. r \<noteq> Unset \<Longrightarrow> cs_items s (ToUpper c) = Some qs \<Longrightarrow> q \<in> set qs \<Longrightarrow>
         Role (item_at s q) \<noteq> Unset \<and> Role (item_at s q) \<noteq> r"
      "cs_items (fst (Register s c r)) (ToUpper c) =
         Some ((case cs_items s (ToUpper c) of Some ps \<Rightarrow> ps | None \<Rightarrow> []) @ [cs_next s])"
proof -
  let ?k = "ToUpper c"
  let ?ps = "case cs_items s ?k of Some ps \<Rightarrow> ps | None \<Rightarrow> []"
  show thesis
  proof (cases "register_loop s r ?ps")
    case None
    have "cs_items s ?k = None" if "r = Unset"
      using None that store_invD(1) [OF inv, of ?k] by (auto simp: register_loop_Unset split: list.splits option.splits)
    then show thesis
      using None c register_loop_None [of r s ?ps]
      by (intro that(2)) (auto simp: Register_def Let_def append_item_def)
  next
    case (Some sp)
    obtain s' p where sp: "sp = (s', p)" by (cases sp)
    obtain qs where qs: "cs_items s ?k = Some qs" "register_loop s r qs = Some (s', p)"
      using Some sp by (cases "cs_items s ?k") auto
    have R: "Item (snd (Register s c r)) = Some p" "fst (Register s c r) = s'"
      using c Some sp by (simp_all add: Register_def Let_def)
    show thesis
    proof (cases "r = Unset")
      case True
      then have "qs \<noteq> []" "p = hd qs" using qs(2) by (auto simp: register_loop_Unset split: list.splits)
      then show thesis using R qs loops_items(1) [OF qs(2)] True by (intro that(1) [of qs p]) auto
    next
      case False
      then obtain as bs where a: "qs = as @ p # bs"
        "\<forall>q \<in> set as. Role (item_at s q) \<noteq> Unset \<and> Role (item_at s q) \<noteq> r"
        "Role (item_at s p) = Unset \<or> Role (item_at s p) = r"
        using register_loop_Some [OF False qs(2)] by metis
      have un: "Role (item_at s q) \<noteq> r" if "q \<in> set qs" "q \<noteq> p" for q
        using adopt_unique [OF inv, of ?k as p bs r q] qs(1) a that by simp
      show thesis
        by (rule that(1) [OF qs(1) _ R(1) _ a(3) un]) (use R a(1) loops_items(1) [OF qs(2)] False in auto)
    qed
  qed
qed

lemma Register_lists:
  assumes inv: "store_inv s" and c: "c \<noteq> []"
  shows "\<exists>p ps. Item (snd (Register s c r)) = Some p \<and> upperCase (snd (Register s c r)) = list_ex is_upper_char c \<and>
    cs_items (fst (Register s c r)) (ToUpper c) = Some ps \<and> p \<in> set ps \<and> (r = Unset \<longrightarrow> p = hd ps)"
proof -
  have u: "upperCase (snd (Register s c r)) = list_ex is_upper_char c"
    using c by (auto simp: Register_def Let_def split: option.split)
  show ?thesis
    by (cases rule: Register_picks [OF inv c, of r]) (use u in auto)
qed

lemma NewCode_inv: "store_inv s \<Longrightarrow> store_inv (fst (NewCode s c))"
  unfolding NewCode_def by (rule Register_inv)

lemma NewCode_empty [simp]: "NewCode s [] = (s, EMPTYCODE)"
  by (simp add: NewCode_def Register_def)

lemma NewCode_String:
  assumes inv: "store_inv s" and c: "c \<noteq> []"
  shows "code_String (fst (NewCode s c)) (snd (NewCode s c)) =
           (if list_ex is_upper_char c then ToUpper c else ToLower c)"
proof -
  let ?t = "fst (NewCode s c)"
  obtain ps where ps: "cs_items ?t (ToUpper c) = Some ps" "ps \<noteq> []"
    "Item (snd (NewCode s c)) = Some (hd ps)"
    "upperCase (snd (NewCode s c)) = list_ex is_upper_char c"
    using NewCode_spec [OF inv c] by metis
  have "hd ps \<in> set ps" using ps(2) by simp
  then have "Symbol (item_at ?t (hd ps)) = ToUpper c" "Lower (item_at ?t (hd ps)) = ToLower c"
    using store_invD(5,6) [OF NewCode_inv [OF inv] ps(1)] by simp_all
  with ps(3,4) show ?thesis by (simp add: code_String_def)
qed

lemma NewCode_Equal:
  assumes inv: "store_inv s" and c: "c \<noteq> []" and d: "d \<noteq> []"
  shows "code_Equal (snd (NewCode s c)) (snd (NewCode (fst (NewCode s c)) d)) \<longleftrightarrow>
           ToUpper c = ToUpper d"
proof -
  let ?t = "fst (NewCode s c)"
  let ?u = "fst (NewCode ?t d)"
  have it: "store_inv ?t" and iu: "store_inv ?u" using inv by (simp_all add: NewCode_inv)
  obtain ps where ps: "cs_items ?t (ToUpper c) = Some ps" "ps \<noteq> []"
    "Item (snd (NewCode s c)) = Some (hd ps)"
    using NewCode_spec [OF inv c] by metis
  obtain qs where qs: "cs_items ?u (ToUpper d) = Some qs" "qs \<noteq> []"
    "Item (snd (NewCode ?t d)) = Some (hd qs)"
    "\<And>k. k \<noteq> ToUpper d \<Longrightarrow> cs_items ?u k = cs_items ?t k"
    "\<And>rs. cs_items ?t (ToUpper d) = Some rs \<Longrightarrow> qs = rs"
    using NewCode_spec [OF it d] by metis
  show ?thesis
  proof (cases "ToUpper c = ToUpper d")
    case True
    then show ?thesis using ps qs(3,5) by (simp add: code_Equal_def)
  next
    case False
    then have "cs_items ?u (ToUpper c) = Some ps" using qs(4) ps(1) by simp
    then have "hd ps \<noteq> hd qs"
      using store_inv_disjoint [OF iu _ qs(1), of "ToUpper c" ps "hd ps"] ps(2) qs(2) False
      by auto
    with False ps(3) qs(3) show ?thesis by (simp add: code_Equal_def)
  qed
qed

lemma NewCode_valid:
  assumes inv: "store_inv s"
  shows "code_valid (fst (NewCode s c)) (snd (NewCode s c))"
proof (cases "c = []")
  case False
  obtain ps where ps: "cs_items (fst (NewCode s c)) (ToUpper c) = Some ps" "ps \<noteq> []"
    "Item (snd (NewCode s c)) = Some (hd ps)"
    using NewCode_spec [OF inv False] by metis
  then show ?thesis
    using store_invD(4) [OF NewCode_inv [OF inv] ps(1), of "hd ps"] by (simp add: code_valid_def)
qed (simp add: code_valid_def EMPTYCODE_def)

lemma NewCode_not_empty:
  assumes inv: "store_inv s" and c: "c \<noteq> []"
  shows "\<not> code_IsEmpty (fst (NewCode s c)) (snd (NewCode s c))"
proof -
  obtain ps where ps: "cs_items (fst (NewCode s c)) (ToUpper c) = Some ps" "ps \<noteq> []"
    "Item (snd (NewCode s c)) = Some (hd ps)"
    using NewCode_spec [OF inv c] by metis
  then have "Symbol (item_at (fst (NewCode s c)) (hd ps)) = ToUpper c"
    using store_invD(5) [OF NewCode_inv [OF inv] ps(1), of "hd ps"] by simp
  with ps(3) c show ?thesis by (simp add: code_IsEmpty_def)
qed

lemmas NewCode_String_kept = reg.code_String_kept [where r = Unset, folded NewCode_def]

section \<open>Properties\<close>

text \<open>Also: every operation of the currency registry keeps its invariant: a
  symbol's items carry that symbol in upper case and its lower-case form, have pairwise different
  roles, and at most the last has no role; and no address is shared between symbols.\<close>

theorem registry_invariant:
  assumes "store_inv s"
  shows "store_inv (fst (Register s c r)) \<and> store_inv (fst (UpdateCurrency s u)) \<and>
    store_inv (fst (LoadItem s i))"
  using assms by (simp add: reg.run_inv upd.run_inv ldi.run_inv)

theorem registry_invariant_witness:
  "store_inv (fst (Register empty_store ''btc'' Cryptocurrency))"
  using registry_invariant [of empty_store "''btc''" Cryptocurrency] by simp

text \<open>C35: of two registrations of non-empty names with any roles, whatever the registry held and
  whatever was registered, updated and loaded in between, the codes are equal, as pointers, exactly if
  the names are equal up to case and the second finds the item of the first: without a role it finds the
  first item of the name, which is that of the first registration if that had no role either; with a
  role it finds the item that has the role by then, and one without a role if no item of the name has
  it; otherwise the role makes a new item of the same name.  So two codes of \<open>NewCode\<close> are equal exactly
  if their names are, up to case.  And the first code still prints as its name in upper case if the name
  had an upper-case letter, in lower case otherwise.\<close>

theorem interning:
  assumes "store_inv s" and "c \<noteq> []" and "d \<noteq> []" and "registry_run (fst (Register s c r)) t"
  shows "let x = snd (Register s c r); y = snd (Register t d q); p = the (Item x);
       named = the (cs_items t (ToUpper d))
    in (code_Equal x y \<longleftrightarrow> ToUpper c = ToUpper d \<and>
          (if q = Unset then r = Unset \<or> hd named = p
           else Role (item_at t p) = q \<or>
             Role (item_at t p) = Unset \<and> list_all (\<lambda>i. Role (item_at t i) \<noteq> q) named)) \<and>
       code_String t x = (if list_ex is_upper_char c then ToUpper c else ToLower c)"
proof -
  let ?s = "fst (Register s c r)" and ?x = "snd (Register s c r)" and ?y = "snd (Register t d q)"
  obtain p ps where x: "Item ?x = Some p" "upperCase ?x = list_ex is_upper_char c"
    and ps: "cs_items ?s (ToUpper c) = Some ps" "p \<in> set ps" "r = Unset \<Longrightarrow> p = hd ps"
    using Register_lists [OF assms(1,2)] by metis
  note k = registry_run_keeps [OF assms(4) Register_inv [OF assms(1)], of ?x "ToUpper c" ps]
  have it: "store_inv t" using k by simp
  note d = store_invD [OF Register_inv [OF assms(1)] ps(1)]
  have str: "code_String t ?x = (if list_ex is_upper_char c then ToUpper c else ToLower c)"
    using k d(4-6) [OF ps(2)] x by (simp add: code_valid_def code_String_def)
  obtain qs where "cs_items t (ToUpper c) = Some (ps @ qs)" using k ps(1) by blast
  then obtain ns where ns: "cs_items t (ToUpper c) = Some ns" "p \<in> set ns" "r = Unset \<Longrightarrow> p = hd ns"
    using ps(2,3) by (cases ps) auto
  have "code_Equal ?x ?y \<longleftrightarrow> ToUpper c = ToUpper d \<and>
      (if q = Unset then r = Unset \<or> hd (the (cs_items t (ToUpper d))) = p
       else Role (item_at t p) = q \<or> Role (item_at t p) = Unset \<and>
         list_all (\<lambda>i. Role (item_at t i) \<noteq> q) (the (cs_items t (ToUpper d))))"
  proof (cases rule: Register_picks [OF it assms(3), of q])
    case (1 qs p')
    show ?thesis
    proof (cases "ToUpper c = ToUpper d")
      case True
      then have "qs = ns" using 1(1) ns(1) by simp
      then show ?thesis
        using 1 True ns x store_invD(7) [OF it ns(1)]
        by (auto simp: code_Equal_def list_all_iff inj_on_def)
    next
      case False
      then have "p \<noteq> p'" using store_inv_disjoint [OF it ns(1) 1(1) ns(2)] 1(2) by blast
      then show ?thesis using False x(1) 1(3) by (simp add: code_Equal_def)
    qed
  next
    case 2
    then have "p \<noteq> cs_next t" using store_invD(9) [OF it ns(1,2)] by simp
    then show ?thesis using 2(1,2) 2(3) [of ns p] x(1) ns(1,2) by (auto simp: code_Equal_def)
  qed
  then show ?thesis using str x(1) by (simp add: Let_def)
qed

theorem interning_witness:
  "code_Equal (snd (NewCode empty_store ''BTC''))
     (snd (NewCode (fst (NewCode empty_store ''BTC'')) ''btc'')) \<and>
   \<not> code_Equal (snd (Register empty_store ''CATS'' Fiat))
     (snd (Register (fst (Register empty_store ''CATS'' Fiat)) ''CATS'' Stable))"
proof
  let ?t = "fst (Register empty_store ''CATS'' Fiat)"
  have role: "Role (item_at ?t (the (Item (snd (Register empty_store ''CATS'' Fiat))))) = Fiat" by code_simp
  show "code_Equal (snd (NewCode empty_store ''BTC'')) (snd (NewCode (fst (NewCode empty_store ''BTC'')) ''btc''))"
    using interning [OF store_inv_empty _ _ run_none, of "''BTC''" "''btc''" Unset Unset]
    by (simp add: NewCode_def Let_def case_eval)
  show "\<not> code_Equal (snd (Register empty_store ''CATS'' Fiat)) (snd (Register ?t ''CATS'' Stable))"
    using interning [OF store_inv_empty _ _ run_none, of "''CATS''" "''CATS''" Fiat Stable] role
    by (simp add: Let_def role_consts)
qed

text \<open>Also: no later registration, update or load changes what a valid code
  prints.\<close>

theorem symbols_permanent:
  assumes "store_inv s" and "code_valid s x"
  shows "code_String (fst (Register s c r)) x = code_String s x \<and>
    code_String (fst (UpdateCurrency s u)) x = code_String s x \<and>
    code_String (fst (LoadItem s i)) x = code_String s x"
  using assms
  by (simp add: reg.code_String_kept upd.code_String_kept ldi.code_String_kept)

theorem symbols_permanent_witness:
  "code_String (fst (Register (fst (NewCode empty_store ''eth'')) ''ETH'' Token))
     (snd (NewCode empty_store ''eth'')) = ''eth''"
  using symbols_permanent [of "fst (NewCode empty_store ''eth'')"
      "snd (NewCode empty_store ''eth'')" "''ETH''" Token]
    NewCode_inv [of empty_store "''eth''"] NewCode_valid [of empty_store "''eth''"]
    NewCode_String [of empty_store "''eth''"]
  by (simp add: case_eval)

end
