(* ===== verification/Currency_Pair.thy ===== *)
theory Currency_Pair
  imports Currency
begin

text \<open>
  Currency pairs: \<open>currency/pair.go\<close>, \<open>pair_types.go\<close>, \<open>pair_methods.go\<close> and \<open>PairFormat\<close> of
  \<open>manager_types.go\<close>.  The constructors intern their codes, so they thread the registry of
  \<open>Currency\<close>; the methods that print or test for emptiness read it; equality does not.  The
  lemmas show when splitting at a delimiter inverts printing, that reformatting touches the text
  only, and what an order derived from a pair buys, sells and hits.
\<close>

section \<open>Data\<close>

record pair =
  Delimiter :: string
  Base :: code
  Quote :: code

record pair_format =
  Uppercase :: bool
  fmt_Delimiter :: string
  Separator :: string

definition EMPTYPAIR :: pair where
  "EMPTYPAIR = \<lparr>Delimiter = [], Base = EMPTYCODE, Quote = EMPTYCODE\<rparr>"

definition EMPTYFORMAT :: pair_format where
  "EMPTYFORMAT = \<lparr>Uppercase = False, fmt_Delimiter = [], Separator = []\<rparr>"

record order_parameters =
  SellingCurrency :: code
  PurchasingCurrency :: code
  IsBuySide :: bool
  IsAskLiquidity :: bool
  op_Pair :: pair

definition ErrCurrencyCodeEmpty :: go_error where
  "ErrCurrencyCodeEmpty = Sentinel ''currency.ErrCurrencyCodeEmpty''"
definition ErrCurrencyPairEmpty :: go_error where
  "ErrCurrencyPairEmpty = Sentinel ''currency.ErrCurrencyPairEmpty''"
definition ErrCurrencyNotAssociatedWithPair :: go_error where
  "ErrCurrencyNotAssociatedWithPair = Sentinel ''currency.ErrCurrencyNotAssociatedWithPair''"
definition errCannotCreatePair :: go_error where
  "errCannotCreatePair = Sentinel ''currency.errCannotCreatePair''"
definition errDelimiterNotFound :: go_error where
  "errDelimiterNotFound = Sentinel ''currency.errDelimiterNotFound''"
definition errDelimiterCannotBeEmpty :: go_error where
  "errDelimiterCannotBeEmpty = Sentinel ''currency.errDelimiterCannotBeEmpty''"
definition errEmptyPairString :: go_error where
  "errEmptyPairString = Sentinel ''currency.errEmptyPairString''"
definition errPairFormattingInconsistent :: go_error where
  "errPairFormattingInconsistent = Sentinel ''currency.errPairFormattingInconsistent''"

section \<open>String search\<close>

text \<open>\<open>strings.Index\<close>: the position of the first occurrence, as an option.\<close>

fun is_prefix :: "string \<Rightarrow> string \<Rightarrow> bool" where
  "is_prefix [] t = True"
| "is_prefix (c # s) [] = False"
| "is_prefix (c # s) (d # t) = (c = d \<and> is_prefix s t)"

fun strings_Index :: "string \<Rightarrow> string \<Rightarrow> nat option" where
  "strings_Index [] d = (if d = [] then Some 0 else None)"
| "strings_Index (c # s) d =
     (if is_prefix d (c # s) then Some 0 else map_option Suc (strings_Index s d))"

definition strings_Contains :: "string \<Rightarrow> string \<Rightarrow> bool" where
  "strings_Contains s d = (strings_Index s d \<noteq> None)"

text \<open>\<open>unicode.IsPunct\<close> on the first byte of a character taken as a code point: in valid UTF-8
  that is an ASCII byte or a lead byte, and no lead byte is a punctuation code point.\<close>

definition IsPunct :: "char \<Rightarrow> bool" where
  "IsPunct c \<longleftrightarrow> (of_char c :: nat) \<in>
     {33, 34, 35, 37, 38, 39, 40, 41, 42, 44, 45, 46, 47, 58, 59, 63, 64, 91, 92, 93, 95, 123, 125}"

section \<open>Constructors\<close>

definition NewPair :: "code \<Rightarrow> code \<Rightarrow> pair" where
  "NewPair baseCurrency quoteCurrency =
     \<lparr>Delimiter = [], Base = baseCurrency, Quote = quoteCurrency\<rparr>"

definition NewPairWithDelimiter :: "store \<Rightarrow> string \<Rightarrow> string \<Rightarrow> string \<Rightarrow> store \<times> pair" where
  "NewPairWithDelimiter s base quote delimiter =
     (let (s1, b) = NewCode s base; (s2, q) = NewCode s1 quote
      in (s2, \<lparr>Delimiter = delimiter, Base = b, Quote = q\<rparr>))"

definition NewPairDelimiter :: "store \<Rightarrow> string \<Rightarrow> string \<Rightarrow> store \<times> pair go_result" where
  "NewPairDelimiter s currencyPair delimiter =
     (if currencyPair = [] then (s, Inl errEmptyPairString)
      else if delimiter = [] then (s, Inl errDelimiterCannotBeEmpty)
      else case strings_Index currencyPair delimiter of
             None \<Rightarrow> (s, Inl (Errorf ''supplied pair: [%s] %s %w'' [errDelimiterNotFound]))
           | Some index \<Rightarrow>
               (let (s1, b) = NewCode s (take index currencyPair);
                    (s2, q) = NewCode s1 (drop (index + 1) currencyPair)
                in (s2, Inr \<lparr>Delimiter = delimiter, Base = b, Quote = q\<rparr>)))"

definition NewPairFromStrings :: "store \<Rightarrow> string \<Rightarrow> string \<Rightarrow> store \<times> pair go_result" where
  "NewPairFromStrings s base quote =
     (if strings_Contains base '' ''
      then (s, Inl (Errorf ''cannot create pair, invalid base currency string [%s]'' []))
      else if strings_Contains quote '' ''
      then (s, Inl (Errorf ''cannot create pair, invalid quote currency string [%s]'' []))
      else
        let (s1, b) = NewCode s base; (s2, q) = NewCode s1 quote
        in (s2, Inr (NewPair b q)))"

fun punct_index :: "string \<Rightarrow> nat option" where
  "punct_index [] = None"
| "punct_index (c # s) = (if IsPunct c then Some 0 else map_option Suc (punct_index s))"

text \<open>The split at the first punctuation byte, shared by \<open>NewPairFromString\<close> and
  \<open>Pair.UnmarshalJSON\<close>.\<close>

definition split_pair :: "store \<Rightarrow> string \<Rightarrow> nat \<Rightarrow> store \<times> pair" where
  "split_pair s p x =
     (let (s1, b) = NewCode s (take x p); (s2, q) = NewCode s1 (drop (x + 1) p)
      in (s2, \<lparr>Delimiter = [p ! x], Base = b, Quote = q\<rparr>))"

definition NewPairFromString :: "store \<Rightarrow> string \<Rightarrow> store \<times> pair go_result" where
  "NewPairFromString s currencyPair =
     (if length currencyPair < 3
      then (s, Inl (Errorf ''%w from %s string too short to be a currency pair''
              [errCannotCreatePair]))
      else case punct_index currencyPair of
             Some x \<Rightarrow> (let (s', p) = split_pair s currencyPair x in (s', Inr p))
           | None \<Rightarrow> NewPairFromStrings s (take 3 currencyPair) (drop 3 currencyPair))"

text \<open>The string payload of \<open>Pair.UnmarshalJSON\<close>.\<close>

definition pair_UnmarshalJSON :: "store \<Rightarrow> pair \<Rightarrow> string \<Rightarrow> store \<times> pair \<times> go_error option" where
  "pair_UnmarshalJSON s p txt =
     (if txt = [] then (s, EMPTYPAIR, None)
      else case punct_index txt of
             Some x \<Rightarrow> (let (s', p') = split_pair s txt x in (s', p', None))
           | None \<Rightarrow> (s, p, Some (Errorf
                ''%w from %s cannot ensure pair is in correct format, please use exchange method MatchSymbolWithAvailablePairs''
                [errCannotCreatePair])))"

section \<open>Methods\<close>

definition pair_String :: "store \<Rightarrow> pair \<Rightarrow> string" where
  "pair_String s p = code_String s (Base p) @ Delimiter p @ code_String s (Quote p)"

definition pair_Lower :: "pair \<Rightarrow> pair" where
  "pair_Lower p = p\<lparr>Base := code_Lower (Base p), Quote := code_Lower (Quote p)\<rparr>"

definition pair_Upper :: "pair \<Rightarrow> pair" where
  "pair_Upper p = p\<lparr>Base := code_Upper (Base p), Quote := code_Upper (Quote p)\<rparr>"

definition pair_MarshalJSON :: "store \<Rightarrow> pair \<Rightarrow> string" where
  "pair_MarshalJSON s p = pair_String s p"

definition pair_Format :: "pair \<Rightarrow> pair_format \<Rightarrow> pair" where
  "pair_Format p pf =
     (let p = p\<lparr>Delimiter := fmt_Delimiter pf\<rparr>
      in if Uppercase pf then pair_Upper p else pair_Lower p)"

definition format_Format :: "store \<Rightarrow> pair_format \<Rightarrow> pair \<Rightarrow> string" where
  "format_Format s f p = pair_String s (pair_Format p f)"

definition format_clone :: "pair_format option \<Rightarrow> pair_format option" where
  "format_clone f = (case f of None \<Rightarrow> None | Some c \<Rightarrow> Some c)"

definition pair_Equal :: "pair \<Rightarrow> pair \<Rightarrow> bool" where
  "pair_Equal p cPair \<longleftrightarrow> code_Equal (Base p) (Base cPair) \<and> code_Equal (Quote p) (Quote cPair)"

definition EqualIncludeReciprocal :: "pair \<Rightarrow> pair \<Rightarrow> bool" where
  "EqualIncludeReciprocal p cPair \<longleftrightarrow>
     (code_Equal (Base p) (Base cPair) \<and> code_Equal (Quote p) (Quote cPair)) \<or>
     (code_Equal (Base p) (Quote cPair) \<and> code_Equal (Quote p) (Base cPair))"

definition IsCryptoPair :: "store \<Rightarrow> pair \<Rightarrow> bool" where
  "IsCryptoPair s p \<longleftrightarrow> IsCryptocurrency s (Base p) \<and> IsCryptocurrency s (Quote p)"

definition IsCryptoFiatPair :: "store \<Rightarrow> pair \<Rightarrow> bool" where
  "IsCryptoFiatPair s p \<longleftrightarrow>
     (IsCryptocurrency s (Base p) \<and> IsFiatCurrency s (Quote p)) \<or>
     (IsFiatCurrency s (Base p) \<and> IsCryptocurrency s (Quote p))"

definition IsFiatPair :: "store \<Rightarrow> pair \<Rightarrow> bool" where
  "IsFiatPair s p \<longleftrightarrow> IsFiatCurrency s (Base p) \<and> IsFiatCurrency s (Quote p)"

definition IsCryptoStablePair :: "store \<Rightarrow> pair \<Rightarrow> bool" where
  "IsCryptoStablePair s p \<longleftrightarrow>
     (IsCryptocurrency s (Base p) \<and> IsStableCurrency s (Quote p)) \<or>
     (IsStableCurrency s (Base p) \<and> IsCryptocurrency s (Quote p))"

definition IsStablePair :: "store \<Rightarrow> pair \<Rightarrow> bool" where
  "IsStablePair s p \<longleftrightarrow> IsStableCurrency s (Base p) \<and> IsStableCurrency s (Quote p)"

definition IsInvalid :: "pair \<Rightarrow> bool" where
  "IsInvalid p = code_Equal (Base p) (Quote p)"

definition Swap :: "pair \<Rightarrow> pair" where
  "Swap p = \<lparr>Delimiter = [], Base = Quote p, Quote = Base p\<rparr>"

definition pair_IsEmpty :: "store \<Rightarrow> pair \<Rightarrow> bool" where
  "pair_IsEmpty s p \<longleftrightarrow> code_IsEmpty s (Base p) \<and> code_IsEmpty s (Quote p)"

definition pair_Contains :: "pair \<Rightarrow> code \<Rightarrow> bool" where
  "pair_Contains p c \<longleftrightarrow> code_Equal (Base p) c \<or> code_Equal (Quote p) c"

definition pair_Len :: "store \<Rightarrow> pair \<Rightarrow> nat" where
  "pair_Len s p = length (code_String s (Base p)) + length (code_String s (Quote p))"

definition Other :: "pair \<Rightarrow> code \<Rightarrow> code go_result" where
  "Other p c =
     (if code_Equal (Base p) c then Inr (Quote p)
      else if code_Equal (Quote p) c then Inr (Base p)
      else Inl ErrCurrencyCodeEmpty)"

definition IsPopulated :: "store \<Rightarrow> pair \<Rightarrow> bool" where
  "IsPopulated s p \<longleftrightarrow> \<not> code_IsEmpty s (Base p) \<and> \<not> code_IsEmpty s (Quote p)"

definition getOrderParameters ::
    "store \<Rightarrow> pair \<Rightarrow> code \<Rightarrow> bool \<Rightarrow> bool \<Rightarrow> order_parameters go_result" where
  "getOrderParameters s p c selling market =
     (if \<not> IsPopulated s p then Inl ErrCurrencyPairEmpty
      else if code_IsEmpty s c then Inl ErrCurrencyCodeEmpty
      else if code_Equal (Base p) c then
        (if selling
         then Inr \<lparr>SellingCurrency = Base p, PurchasingCurrency = Quote p, IsBuySide = False,
                IsAskLiquidity = (\<not> market), op_Pair = p\<rparr>
         else Inr \<lparr>SellingCurrency = Quote p, PurchasingCurrency = Base p, IsBuySide = True,
                IsAskLiquidity = market, op_Pair = p\<rparr>)
      else if code_Equal (Quote p) c then
        (if selling
         then Inr \<lparr>SellingCurrency = Quote p, PurchasingCurrency = Base p, IsBuySide = True,
                IsAskLiquidity = market, op_Pair = p\<rparr>
         else Inr \<lparr>SellingCurrency = Base p, PurchasingCurrency = Quote p, IsBuySide = False,
                IsAskLiquidity = (\<not> market), op_Pair = p\<rparr>)
      else Inl (Errorf ''%w %v: %v'' [ErrCurrencyNotAssociatedWithPair]))"

definition MarketSellOrderParameters :: "store \<Rightarrow> pair \<Rightarrow> code \<Rightarrow> order_parameters go_result" where
  "MarketSellOrderParameters s p wantingToSell = getOrderParameters s p wantingToSell True True"

definition MarketBuyOrderParameters :: "store \<Rightarrow> pair \<Rightarrow> code \<Rightarrow> order_parameters go_result" where
  "MarketBuyOrderParameters s p wantingToBuy = getOrderParameters s p wantingToBuy False True"

definition LimitSellOrderParameters :: "store \<Rightarrow> pair \<Rightarrow> code \<Rightarrow> order_parameters go_result" where
  "LimitSellOrderParameters s p wantingToSell = getOrderParameters s p wantingToSell True False"

definition LimitBuyOrderParameters :: "store \<Rightarrow> pair \<Rightarrow> code \<Rightarrow> order_parameters go_result" where
  "LimitBuyOrderParameters s p wantingToBuy = getOrderParameters s p wantingToBuy False False"

definition IsAssociated :: "pair \<Rightarrow> pair \<Rightarrow> bool" where
  "IsAssociated p a \<longleftrightarrow>
     code_Equal (Base p) (Base a) \<or> code_Equal (Quote p) (Base a) \<or>
     code_Equal (Base p) (Quote a) \<or> code_Equal (Quote p) (Quote a)"

section \<open>Formats\<close>

definition pair_GetFormatting :: "store \<Rightarrow> pair \<Rightarrow> pair_format go_result" where
  "pair_GetFormatting s p =
     (if isCaseSensitive s (Base p) \<and> isCaseSensitive s (Quote p) \<and>
         upperCase (Base p) \<noteq> upperCase (Quote p)
      then Inl (Errorf ''%w casing mismatch'' [errPairFormattingInconsistent])
      else Inr \<lparr>Uppercase = (upperCase (Base p) \<or> upperCase (Quote p)),
             fmt_Delimiter = Delimiter p, Separator = []\<rparr>)"

definition hasFormatDifference :: "store \<Rightarrow> pair \<Rightarrow> pair_format \<Rightarrow> bool" where
  "hasFormatDifference s p pairFmt \<longleftrightarrow>
     Delimiter p \<noteq> fmt_Delimiter pairFmt \<or>
     (isCaseSensitive s (Base p) \<and> upperCase (Base p) \<noteq> Uppercase pairFmt) \<or>
     (isCaseSensitive s (Quote p) \<and> upperCase (Quote p) \<noteq> Uppercase pairFmt)"

fun NewPairFromFormattedPairs ::
    "store \<Rightarrow> string \<Rightarrow> pair list \<Rightarrow> pair_format \<Rightarrow> store \<times> pair go_result" where
  "NewPairFromFormattedPairs s currencyPair [] pairFmt = NewPairFromString s currencyPair"
| "NewPairFromFormattedPairs s currencyPair (p # ps) pairFmt =
     (if EqualFold (format_Format s pairFmt p) currencyPair then (s, Inr p)
      else NewPairFromFormattedPairs s currencyPair ps pairFmt)"

text \<open>The inner loop runs over the split positions \<open>j\<close> from 1 to at most 6.\<close>

definition match_split :: "store \<Rightarrow> string \<Rightarrow> pair \<Rightarrow> bool" where
  "match_split s currencyPair fPair \<longleftrightarrow>
     list_ex (\<lambda>j. code_String s (Base fPair) = take j currencyPair \<and>
                 code_String s (Quote fPair) = drop j currencyPair)
       [1..<Suc (min 6 (length currencyPair))]"

fun MatchPairsWithNoDelimiter ::
    "store \<Rightarrow> string \<Rightarrow> pair list \<Rightarrow> pair_format \<Rightarrow> pair go_result" where
  "MatchPairsWithNoDelimiter s currencyPair [] pairFmt =
     Inl (Errorf ''currency %v not found in supplied pairs'' [])"
| "MatchPairsWithNoDelimiter s currencyPair (p # ps) pairFmt =
     (let fPair = pair_Format p pairFmt
      in if match_split s currencyPair fPair then Inr fPair
         else MatchPairsWithNoDelimiter s currencyPair ps pairFmt)"

section \<open>Lemmas\<close>

lemma code_Equal_refl [simp]: "code_Equal c c"
  and code_Equal_sym: "code_Equal c d \<Longrightarrow> code_Equal d c"
  and code_Equal_trans: "code_Equal c d \<Longrightarrow> code_Equal d e \<Longrightarrow> code_Equal c e"
  by (auto simp: code_Equal_def)

lemma code_Equal_case [simp]:
  "code_Equal (code_Lower c) d = code_Equal c d" "code_Equal (code_Upper c) d = code_Equal c d"
  "code_Equal d (code_Lower c) = code_Equal d c" "code_Equal d (code_Upper c) = code_Equal d c"
  by (auto simp: code_Equal_def code_Lower_def code_Upper_def)

lemma Item_case [simp]: "Item (code_Lower c) = Item c" "Item (code_Upper c) = Item c"
  by (auto simp: code_Lower_def code_Upper_def)

lemma upperCase_case:
  "Item c \<noteq> None \<Longrightarrow> upperCase (code_Lower c) = False"
  "Item c \<noteq> None \<Longrightarrow> upperCase (code_Upper c) = True"
  by (auto simp: code_Lower_def code_Upper_def)

lemma isCaseSensitive_case [simp]:
  "isCaseSensitive s (code_Lower c) = isCaseSensitive s c"
  "isCaseSensitive s (code_Upper c) = isCaseSensitive s c"
  by (simp_all add: isCaseSensitive_def)

lemma isCaseSensitive_item: "isCaseSensitive s c \<Longrightarrow> Item c \<noteq> None"
  by (cases "Item c") (auto simp: isCaseSensitive_def)

lemma pair_Format_sel [simp]:
  "Delimiter (pair_Format p f) = fmt_Delimiter f"
  "Base (pair_Format p f) = (if Uppercase f then code_Upper (Base p) else code_Lower (Base p))"
  "Quote (pair_Format p f) = (if Uppercase f then code_Upper (Quote p) else code_Lower (Quote p))"
  by (auto simp: pair_Format_def pair_Upper_def pair_Lower_def Let_def)

lemma pair_Equal_Format [simp]:
  "pair_Equal (pair_Format p f) q = pair_Equal p q" "pair_Equal q (pair_Format p f) = pair_Equal q p"
  by (auto simp: pair_Equal_def)

lemma hasFormatDifference_Format: "\<not> hasFormatDifference s (pair_Format p f) f"
  by (auto simp: hasFormatDifference_def upperCase_case dest!: isCaseSensitive_item
      split: if_splits)

lemma pair_Format_twice: "pair_Format (pair_Format p f) g = pair_Format p g"
proof (rule pair.equality)
  show "Base (pair_Format (pair_Format p f) g) = Base (pair_Format p g)"
    and "Quote (pair_Format (pair_Format p f) g) = Quote (pair_Format p g)"
    by (auto simp: code_Upper_def code_Lower_def)
qed (simp_all add: pair_Format_def pair_Upper_def pair_Lower_def Let_def)

lemma pair_Format_no_difference:
  assumes "pair_GetFormatting s p = Inr f"
    and "isCaseSensitive s (Base p) = isCaseSensitive s (Quote p)"
  shows "\<not> hasFormatDifference s p f"
  using assms by (auto simp: pair_GetFormatting_def hasFormatDifference_def split: if_splits)

text \<open>If only one leg has letters, the flag of the other one counts as well: the format read off
  the pair is then not the pair's own.\<close>

lemma pair_GetFormatting_one_leg:
  assumes "isCaseSensitive s (Base p)" and "\<not> isCaseSensitive s (Quote p)"
    and "\<not> upperCase (Base p)" and "upperCase (Quote p)"
  shows "\<exists>f. pair_GetFormatting s p = Inr f \<and> hasFormatDifference s p f"
  using assms by (auto simp: pair_GetFormatting_def hasFormatDifference_def)

lemma strings_Index_single:
  "d \<notin> set b \<Longrightarrow> strings_Index (b @ d # q) [d] = Some (length b)"
  by (induction b) auto

lemma two_codes:
  assumes inv: "store_inv s" and b: "b \<noteq> []" and q: "q \<noteq> []"
  defines "s1 \<equiv> fst (NewCode s b)" and "c1 \<equiv> snd (NewCode s b)"
  defines "s2 \<equiv> fst (NewCode s1 q)" and "c2 \<equiv> snd (NewCode s1 q)"
  shows "code_String s2 c1 = (if list_ex is_upper_char b then ToUpper b else ToLower b)"
    and "code_String s2 c2 = (if list_ex is_upper_char q then ToUpper q else ToLower q)"
    and "store_inv s2"
proof -
  have i1: "store_inv s1" unfolding s1_def using inv by (rule NewCode_inv)
  then show "store_inv s2" unfolding s2_def by (rule NewCode_inv)
  show "code_String s2 c2 = (if list_ex is_upper_char q then ToUpper q else ToLower q)"
    unfolding s2_def c2_def using i1 q by (rule NewCode_String)
  have "code_valid s1 c1" unfolding s1_def c1_def using inv by (rule NewCode_valid)
  then have "code_String s2 c1 = code_String s1 c1"
    unfolding s2_def using i1 by (intro NewCode_String_kept)
  also have "\<dots> = (if list_ex is_upper_char b then ToUpper b else ToLower b)"
    unfolding s1_def c1_def using inv b by (rule NewCode_String)
  finally show "code_String s2 c1 = \<dots>" .
qed

definition print_case :: "string \<Rightarrow> string" where
  "print_case c = (if list_ex is_upper_char c then ToUpper c else ToLower c)"

lemma NewPairDelimiter_split:
  assumes inv: "store_inv s" and b: "b \<noteq> []" and q: "q \<noteq> []" and d: "d \<notin> set b"
  obtains s' p where "NewPairDelimiter s (b @ d # q) [d] = (s', Inr p)" "store_inv s'"
    and "pair_String s' p = print_case b @ [d] @ print_case q"
proof -
  let ?s1 = "fst (NewCode s b)" and ?c1 = "snd (NewCode s b)"
  let ?s2 = "fst (NewCode ?s1 q)" and ?c2 = "snd (NewCode ?s1 q)"
  have "NewPairDelimiter s (b @ d # q) [d] =
      (?s2, Inr \<lparr>Delimiter = [d], Base = ?c1, Quote = ?c2\<rparr>)"
    using strings_Index_single [OF d]
    by (simp add: NewPairDelimiter_def b case_prod_unfold Let_def)
  moreover have "pair_String ?s2 \<lparr>Delimiter = [d], Base = ?c1, Quote = ?c2\<rparr> =
      print_case b @ [d] @ print_case q"
    using two_codes [OF inv b q] by (simp add: pair_String_def print_case_def)
  ultimately show ?thesis using two_codes(3) [OF inv b q] that by blast
qed

text \<open>With a delimiter of more than one character the quote keeps the rest of the delimiter:
  \<open>NewPairDelimiter\<close> skips one byte, not \<open>len(delimiter)\<close>.\<close>

lemma NewPairDelimiter_long_delimiter:
  "\<exists>s' p. NewPairDelimiter empty_store ''BTC--USD'' ''--'' = (s', Inr p) \<and>
     code_String s' (Quote p) = ''-USD'' \<and> pair_String s' p = ''BTC---USD''"
proof -
  let ?s1 = "fst (NewCode empty_store ''BTC'')" and ?c1 = "snd (NewCode empty_store ''BTC'')"
  let ?s2 = "fst (NewCode ?s1 ''-USD'')" and ?c2 = "snd (NewCode ?s1 ''-USD'')"
  have "NewPairDelimiter empty_store ''BTC--USD'' ''--'' =
      (?s2, Inr \<lparr>Delimiter = ''--'', Base = ?c1, Quote = ?c2\<rparr>)"
    by (simp add: NewPairDelimiter_def case_prod_unfold Let_def)
  moreover have "code_String ?s2 ?c1 = ''BTC''" "code_String ?s2 ?c2 = ''-USD''"
    using two_codes(1,2) [of empty_store "''BTC''" "''-USD''"] by (simp_all add: case_eval)
  ultimately show ?thesis by (auto simp: pair_String_def)
qed

lemma getOrderParameters_cases:
  assumes "getOrderParameters s p c selling market = Inr q"
  shows "(selling \<longrightarrow> code_Equal (SellingCurrency q) c) \<and>
    (\<not> selling \<longrightarrow> code_Equal (PurchasingCurrency q) c) \<and>
    (SellingCurrency q, PurchasingCurrency q) =
      (if IsBuySide q then (Quote p, Base p) else (Base p, Quote p)) \<and>
    IsAskLiquidity q = (IsBuySide q = market) \<and> op_Pair q = p"
  using assms by (auto simp: getOrderParameters_def split: if_splits)

section \<open>Properties\<close>

text \<open>Also: a non-empty base and quote joined by a one-character delimiter that does
  not occur in the base are split where they were joined: the pair prints as the two names (each
  in upper case if it had an upper-case letter, else in lower case) around the delimiter.\<close>

theorem pair_roundtrip:
  assumes "store_inv s" and "b \<noteq> []" and "q \<noteq> []" and "d \<notin> set b"
  shows "\<exists>s' p. NewPairDelimiter s (b @ [d] @ q) [d] = (s', Inr p) \<and> store_inv s' \<and>
    pair_String s' p = print_case b @ [d] @ print_case q"
  using NewPairDelimiter_split [OF assms] by (metis append_Cons append_Nil)

theorem pair_roundtrip_witness:
  "\<exists>s' p. NewPairDelimiter empty_store ''BTC-USD'' ''-'' = (s', Inr p) \<and>
    pair_String s' p = ''BTC-USD''"
  using pair_roundtrip [of empty_store "''BTC''" "''USD''" "CHR ''-''"]
  by (auto simp: print_case_def case_eval)

text \<open>Also: an order derived from a pair sells the named currency when selling and
  buys it when buying; it is on the buy side exactly when it buys the base with the quote, and it
  takes ask liquidity exactly if it is a market buy or a limit sell.\<close>

theorem order_parameters:
  assumes "getOrderParameters s p c selling market = Inr q"
  shows "(if selling then code_Equal (SellingCurrency q) c else code_Equal (PurchasingCurrency q) c)
    \<and> (SellingCurrency q, PurchasingCurrency q) =
        (if IsBuySide q then (Quote p, Base p) else (Base p, Quote p))
    \<and> IsAskLiquidity q = (IsBuySide q = market) \<and> op_Pair q = p"
  using getOrderParameters_cases [OF assms] by auto

theorem order_parameters_witness:
  "IsBuySide \<lparr>SellingCurrency = \<lparr>Item = Some 1, upperCase = True\<rparr>,
      PurchasingCurrency = \<lparr>Item = Some 0, upperCase = True\<rparr>, IsBuySide = True,
      IsAskLiquidity = True,
      op_Pair = \<lparr>Delimiter = [], Base = \<lparr>Item = Some 0, upperCase = True\<rparr>,
        Quote = \<lparr>Item = Some 1, upperCase = True\<rparr>\<rparr>\<rparr>"
  using order_parameters
    [of "\<lparr>cs_heap = (\<lambda>_. Some (empty_item\<lparr>Symbol := ''X''\<rparr>)), cs_next = 2, cs_items = (\<lambda>_. None)\<rparr>"
      "\<lparr>Delimiter = [], Base = \<lparr>Item = Some 0, upperCase = True\<rparr>,
        Quote = \<lparr>Item = Some 1, upperCase = True\<rparr>\<rparr>"
      "\<lparr>Item = Some 0, upperCase = True\<rparr>" False True]
  by (simp add: getOrderParameters_def IsPopulated_def code_IsEmpty_def item_at_def code_Equal_def)

text \<open>Also: formatting a pair never changes which pair it is, leaves no format
  difference to the format applied, and applying a second format leaves the second one.\<close>

theorem format_stable:
  "pair_Equal (pair_Format p f) p \<and> \<not> hasFormatDifference s (pair_Format p f) f \<and>
   pair_Format (pair_Format p f) g = pair_Format p g"
  using hasFormatDifference_Format pair_Format_twice by (simp add: pair_Equal_def)

end
