(* ===== verification/Currency_Pairs.thy ===== *)
theory Currency_Pairs
  imports Currency_Pair Asset "HOL-Library.Multiset" "HOL-Library.AList"
begin

text \<open>
  Lists of pairs: \<open>currency/pairs.go\<close>, and \<open>currencies.go\<close>, the lists of codes it uses.  Nil and
  empty slices are both the empty list.  A set kept as a \<open>map[k]bool\<close> during a loop is the list of
  keys met so far; a map whose iteration order reaches the result (\<open>currencyConstructor\<close>) takes
  that order as an argument, because Go leaves it open.  The lemmas characterise \<open>ContainsAll\<close>
  (multiset inclusion), \<open>FindDifferences\<close>, \<open>Add\<close> and \<open>Remove\<close>, and \<open>ValidateAndConform\<close>.
\<close>

section \<open>Lists of codes\<close>

fun currencies_Contains :: "code list \<Rightarrow> code \<Rightarrow> bool" where
  "currencies_Contains [] check = False"
| "currencies_Contains (c # cs) check =
     (if code_Equal c check then True else currencies_Contains cs check)"

definition currencies_Add :: "code list \<Rightarrow> code \<Rightarrow> code list" where
  "currencies_Add c a = (if \<not> currencies_Contains c a then c @ [a] else c)"

definition currencies_Strings :: "store \<Rightarrow> code list \<Rightarrow> string list" where
  "currencies_Strings s c = map (code_String s) c"

definition currencies_Join :: "store \<Rightarrow> code list \<Rightarrow> string" where
  "currencies_Join s c = strings_Join (currencies_Strings s c) '',''"

definition currencies_Match :: "code list \<Rightarrow> code list \<Rightarrow> bool" where
  "currencies_Match c other =
     (if length c \<noteq> length other then False
      else list_all (\<lambda>x. list_ex (code_Equal x) other) c)"

definition currencies_HasData :: "code list \<Rightarrow> bool" where
  "currencies_HasData c \<longleftrightarrow> length c \<noteq> 0"

fun NewCurrenciesFromStringArray :: "store \<Rightarrow> string list \<Rightarrow> store \<times> code list" where
  "NewCurrenciesFromStringArray s [] = (s, [])"
| "NewCurrenciesFromStringArray s (c # cs) =
     (if c = [] then NewCurrenciesFromStringArray s cs
      else let (s1, a) = NewCode s c; (s2, l) = NewCurrenciesFromStringArray s1 cs
           in (s2, a # l))"

section \<open>strings.Split\<close>

lemma is_prefix_length: "is_prefix d t \<Longrightarrow> length d \<le> length t"
  by (induction d t rule: is_prefix.induct) auto

lemma strings_Index_bound: "strings_Index t d = Some i \<Longrightarrow> i + length d \<le> length t"
proof (induction t arbitrary: i)
  case (Cons c t)
  then show ?case using is_prefix_length [of d "c # t"] by (auto split: if_splits)
qed (auto split: if_splits)

function strings_Split :: "string \<Rightarrow> string \<Rightarrow> string list" where
  "strings_Split t d =
     (if d = [] then map (\<lambda>c. [c]) t
      else case strings_Index t d of
             None \<Rightarrow> [t]
           | Some i \<Rightarrow> take i t # strings_Split (drop (i + length d) t) d)"
  by pat_completeness auto
termination
proof (relation "measure (\<lambda>(t, d). length t)")
  fix t d :: string and i :: nat
  assume "d \<noteq> []" and "strings_Index t d = Some i"
  then show "((drop (i + length d) t, d), t, d) \<in> measure (\<lambda>(t, d). length t)"
    using strings_Index_bound [of t d i] by (auto simp flip: length_greater_0_conv)
qed simp

declare strings_Split.simps [simp del]

section \<open>Sentinels\<close>

definition ErrPairDuplication :: go_error where
  "ErrPairDuplication = Sentinel ''currency.ErrPairDuplication''"
definition ErrPairNotContainedInAvailablePairs :: go_error where
  "ErrPairNotContainedInAvailablePairs = Sentinel ''currency.ErrPairNotContainedInAvailablePairs''"
definition ErrPairNotFound :: go_error where
  "ErrPairNotFound = Sentinel ''currency.ErrPairNotFound''"
definition ErrCurrencyPairsEmpty :: go_error where
  "ErrCurrencyPairsEmpty = Sentinel ''currency.ErrCurrencyPairsEmpty''"
definition errNoDelimiter :: go_error where
  "errNoDelimiter = Sentinel ''currency.errNoDelimiter''"

section \<open>Parsing and printing\<close>

fun NewPairsFromStrings :: "store \<Rightarrow> string list \<Rightarrow> store \<times> pair list go_result" where
  "NewPairsFromStrings s [] = (s, Inr [])"
| "NewPairsFromStrings s (c # cs) =
     (case NewPairFromString s c of
        (s1, Inl err) \<Rightarrow> (s1, Inl err)
      | (s1, Inr p) \<Rightarrow>
          (case NewPairsFromStrings s1 cs of
             (s2, Inl err) \<Rightarrow> (s2, Inl err)
           | (s2, Inr ps) \<Rightarrow> (s2, Inr (p # ps))))"

definition NewPairsFromString :: "store \<Rightarrow> string \<Rightarrow> string \<Rightarrow> store \<times> pair list go_result" where
  "NewPairsFromString s prs delimiter =
     (if delimiter = [] then (s, Inl errNoDelimiter)
      else NewPairsFromStrings s (strings_Split prs delimiter))"

definition pairs_Strings :: "store \<Rightarrow> pair list \<Rightarrow> string list" where
  "pairs_Strings s p = map (pair_String s) p"

definition pairs_Join :: "store \<Rightarrow> pair list \<Rightarrow> string" where
  "pairs_Join s p = strings_Join (pairs_Strings s p) '',''"

text \<open>The string payload of \<open>Pairs.UnmarshalJSON\<close>; on an error the receiver becomes nil.\<close>

definition pairs_UnmarshalJSON ::
    "store \<Rightarrow> pair list \<Rightarrow> string \<Rightarrow> store \<times> pair list \<times> go_error option" where
  "pairs_UnmarshalJSON s p txt =
     (if txt = [] then (s, p, None)
      else case NewPairsFromString s txt '','' of
             (s', Inl err) \<Rightarrow> (s', [], Some err)
           | (s', Inr ps) \<Rightarrow> (s', ps, None))"

definition pairs_MarshalJSON :: "store \<Rightarrow> pair list \<Rightarrow> string" where
  "pairs_MarshalJSON s p = pairs_Join s p"

definition pairs_Format :: "pair list \<Rightarrow> pair_format \<Rightarrow> pair list" where
  "pairs_Format p pairFmt =
     map (\<lambda>x. x\<lparr>Base := (Base x)\<lparr>upperCase := Uppercase pairFmt\<rparr>,
                Quote := (Quote x)\<lparr>upperCase := Uppercase pairFmt\<rparr>,
                Delimiter := fmt_Delimiter pairFmt\<rparr>) p"

definition pairs_Upper :: "pair list \<Rightarrow> pair list" where
  "pairs_Upper p = map pair_Upper p"

definition pairs_Lower :: "pair list \<Rightarrow> pair list" where
  "pairs_Lower p = map pair_Lower p"

section \<open>Membership\<close>

definition pair_match :: "bool \<Rightarrow> pair \<Rightarrow> pair \<Rightarrow> bool" where
  "pair_match exact p q \<longleftrightarrow>
     (exact \<and> pair_Equal p q) \<or> (\<not> exact \<and> EqualIncludeReciprocal p q)"

fun pairs_Contains :: "pair list \<Rightarrow> pair \<Rightarrow> bool \<Rightarrow> bool" where
  "pairs_Contains [] check exact = False"
| "pairs_Contains (p # ps) check exact =
     (if pair_match exact p check then True else pairs_Contains ps check exact)"

text \<open>The inner loop: at the first match the last element takes its place and the list shrinks.\<close>

fun find_match :: "bool \<Rightarrow> pair \<Rightarrow> pair list \<Rightarrow> nat option" where
  "find_match exact c [] = None"
| "find_match exact c (p # ps) =
     (if pair_match exact c p then Some 0 else map_option Suc (find_match exact c ps))"

definition swap_remove :: "pair list \<Rightarrow> nat \<Rightarrow> pair list" where
  "swap_remove xs y =
     (let xs' = xs[y := xs ! (length xs - 1)] in take (length xs' - 1) xs')"

fun contains_all_loop :: "pair list \<Rightarrow> bool \<Rightarrow> pair list \<Rightarrow> pair list \<Rightarrow> go_error option" where
  "contains_all_loop p exact comparative [] = None"
| "contains_all_loop p exact comparative (c # cs) =
     (case find_match exact c comparative of
        Some y \<Rightarrow> contains_all_loop p exact (swap_remove comparative y) cs
      | None \<Rightarrow>
          (if pairs_Contains p c exact then Some (Errorf ''%s %w'' [ErrPairDuplication])
           else Some (Errorf ''%s %w'' [ErrPairNotContainedInAvailablePairs])))"

definition ContainsAll :: "pair list \<Rightarrow> pair list \<Rightarrow> bool \<Rightarrow> go_error option" where
  "ContainsAll p check exact =
     (if length check = 0 then Some ErrCurrencyPairsEmpty
      else contains_all_loop p exact p check)"

fun ContainsCurrency :: "pair list \<Rightarrow> code \<Rightarrow> bool" where
  "ContainsCurrency [] check = False"
| "ContainsCurrency (p # ps) check =
     (if pair_Contains p check then True else ContainsCurrency ps check)"

section \<open>Selections\<close>

definition RemovePairsByFilter :: "pair list \<Rightarrow> code \<Rightarrow> pair list" where
  "RemovePairsByFilter p c = filter (\<lambda>x. \<not> pair_Contains x c) p"

definition GetPairsByFilter :: "pair list \<Rightarrow> code \<Rightarrow> pair list" where
  "GetPairsByFilter p c = filter (\<lambda>x. pair_Contains x c) p"

definition GetPairsByCurrencies :: "pair list \<Rightarrow> code list \<Rightarrow> pair list" where
  "GetPairsByCurrencies p currencies =
     filter (\<lambda>x. currencies_Contains currencies (Base x) \<and>
                 currencies_Contains currencies (Quote x)) p"

definition pairs_Remove :: "pair list \<Rightarrow> pair list \<Rightarrow> pair list" where
  "pairs_Remove p rem = filter (\<lambda>pN. \<not> list_ex (\<lambda>pX. pair_Equal pX pN) rem) p"

fun pairs_Add :: "pair list \<Rightarrow> pair list \<Rightarrow> pair list" where
  "pairs_Add n [] = n"
| "pairs_Add n (a # as) = pairs_Add (if \<not> pairs_Contains n a True then n @ [a] else n) as"

fun GetMatch :: "pair list \<Rightarrow> pair \<Rightarrow> pair go_result" where
  "GetMatch [] pr = Inl ErrPairNotFound"
| "GetMatch (p # ps) pr = (if EqualIncludeReciprocal p pr then Inr p else GetMatch ps pr)"

text \<open>\<open>rand.Intn\<close> is the parameter \<open>intn\<close>.\<close>

definition GetRandomPair :: "(nat \<Rightarrow> nat) \<Rightarrow> pair list \<Rightarrow> pair go_result" where
  "GetRandomPair intn p =
     (if length p = 0 then Inl ErrCurrencyPairsEmpty else Inr (p ! intn (length p)))"

definition derive_match :: "store \<Rightarrow> pair \<Rightarrow> string \<Rightarrow> bool" where
  "derive_match s p symbol =
     (if pair_Len s p \<noteq> length symbol then False
      else let base = code_String s (code_Lower (Base p)); baseLength = length base;
               quote = code_String s (code_Lower (Quote p))
           in list_all (\<lambda>y. base ! y = symbol ! y) [0..<baseLength] \<and>
              list_all (\<lambda>y. quote ! y = symbol ! (baseLength + y)) [0..<length quote])"

fun derive_loop :: "store \<Rightarrow> pair list \<Rightarrow> string \<Rightarrow> pair go_result" where
  "derive_loop s [] symbol = Inl (Errorf ''%w for symbol string %s'' [ErrPairNotFound])"
| "derive_loop s (p # ps) symbol =
     (if derive_match s p symbol then Inr p else derive_loop s ps symbol)"

definition DeriveFrom :: "store \<Rightarrow> pair list \<Rightarrow> string \<Rightarrow> pair go_result" where
  "DeriveFrom s p symbol =
     (if length p = 0 then Inl ErrCurrencyPairsEmpty
      else if symbol = [] then Inl errSymbolEmpty
      else derive_loop s p (ToLower symbol))"

definition GetStablesMatch :: "store \<Rightarrow> pair list \<Rightarrow> code \<Rightarrow> pair list" where
  "GetStablesMatch s p c =
     filter (\<lambda>x. (IsStableCurrency s (Base x) \<and> code_Equal (Quote x) c) \<or>
                 (IsStableCurrency s (Quote x) \<and> code_Equal (Base x) c)) p"

definition GetPairsByQuote :: "store \<Rightarrow> pair list \<Rightarrow> code \<Rightarrow> pair list go_result" where
  "GetPairsByQuote s p quoteTerm =
     (if length p = 0 then Inl ErrCurrencyPairsEmpty
      else if code_IsEmpty s quoteTerm then Inl ErrCurrencyCodeEmpty
      else Inr (filter (\<lambda>x. code_Equal (Quote x) quoteTerm) p))"

definition GetPairsByBase :: "store \<Rightarrow> pair list \<Rightarrow> code \<Rightarrow> pair list go_result" where
  "GetPairsByBase s p baseTerm =
     (if length p = 0 then Inl ErrCurrencyPairsEmpty
      else if code_IsEmpty s baseTerm then Inl ErrCurrencyCodeEmpty
      else Inr (filter (\<lambda>x. code_Equal (Base x) baseTerm) p))"

section \<open>Currencies of a list\<close>

text \<open>A \<open>map[*Item]bool\<close> as an association list without repeated keys; \<open>order\<close> is the order
  in which \<open>range\<close> visits it.\<close>

type_synonym item_map = "(item_ptr option \<times> bool) list"

definition currencyConstructor :: "(item_map \<Rightarrow> item_map) \<Rightarrow> item_map \<Rightarrow> code list" where
  "currencyConstructor order m = map (\<lambda>(i, upper). \<lparr>Item = i, upperCase = upper\<rparr>) (order m)"

definition put_code :: "(code \<Rightarrow> bool) \<Rightarrow> code \<Rightarrow> item_map \<Rightarrow> item_map" where
  "put_code sel c m = (if sel c then AList.update (Item c) (upperCase c) m else m)"

definition collect_codes :: "(code \<Rightarrow> bool) \<Rightarrow> pair list \<Rightarrow> item_map" where
  "collect_codes sel p = foldl (\<lambda>m x. put_code sel (Quote x) (put_code sel (Base x) m)) [] p"

definition GetCrypto :: "(item_map \<Rightarrow> item_map) \<Rightarrow> store \<Rightarrow> pair list \<Rightarrow> code list" where
  "GetCrypto order s p = currencyConstructor order (collect_codes (IsCryptocurrency s) p)"

definition GetFiat :: "(item_map \<Rightarrow> item_map) \<Rightarrow> store \<Rightarrow> pair list \<Rightarrow> code list" where
  "GetFiat order s p = currencyConstructor order (collect_codes (IsFiatCurrency s) p)"

definition GetStables :: "(item_map \<Rightarrow> item_map) \<Rightarrow> store \<Rightarrow> pair list \<Rightarrow> code list" where
  "GetStables order s p = currencyConstructor order (collect_codes (IsStableCurrency s) p)"

definition pairs_GetCurrencies :: "(item_map \<Rightarrow> item_map) \<Rightarrow> pair list \<Rightarrow> code list" where
  "pairs_GetCurrencies order p = currencyConstructor order (collect_codes (\<lambda>_. True) p)"

section \<open>Differences and conformity\<close>

type_synonym pair_key = "item_ptr option \<times> item_ptr option"

definition pairKey :: "pair \<Rightarrow> pair_key" where
  "pairKey p = (Item (Base p), Item (Quote p))"

record pair_difference =
  diff_New :: "pair list"
  diff_Remove :: "pair list"
  FormatDifference :: bool

fun incoming_loop ::
    "store \<Rightarrow> pair list \<Rightarrow> pair_format \<Rightarrow> pair list \<Rightarrow> pair_key list \<Rightarrow> bool \<Rightarrow> pair list
      \<Rightarrow> (pair list \<times> bool) go_result" where
  "incoming_loop s p pairFmt newPairs check formatDiff [] = Inr (newPairs, formatDiff)"
| "incoming_loop s p pairFmt newPairs check formatDiff (x # xs) =
     (if pair_IsEmpty s x
      then Inl (Errorf ''contained in the incoming pairs a %w'' [ErrCurrencyPairEmpty])
      else
        let formatDiff = (if \<not> formatDiff then hasFormatDifference s x pairFmt else formatDiff);
            k = pairKey x
        in if List.member check k
           then Inl (Errorf ''contained in the incoming pairs %w'' [ErrPairDuplication])
           else incoming_loop s p pairFmt
                  (if \<not> pairs_Contains p x True then newPairs @ [x] else newPairs)
                  (k # check) formatDiff xs)"

fun removed_loop ::
    "store \<Rightarrow> pair list \<Rightarrow> pair_format \<Rightarrow> pair list \<Rightarrow> pair_key list \<Rightarrow> bool \<Rightarrow> pair list
      \<Rightarrow> (pair list \<times> bool) go_result" where
  "removed_loop s incoming pairFmt removedPairs check formatDiff [] =
     Inr (removedPairs, formatDiff)"
| "removed_loop s incoming pairFmt removedPairs check formatDiff (x # xs) =
     (if pair_IsEmpty s x
      then Inl (Errorf ''contained in the existing pairs a %w'' [ErrCurrencyPairEmpty])
      else
        let formatDiff = (if \<not> formatDiff then hasFormatDifference s x pairFmt else formatDiff);
            k = pairKey x
        in removed_loop s incoming pairFmt
             (if \<not> pairs_Contains incoming x True \<or> List.member check k
              then removedPairs @ [x] else removedPairs)
             (k # check) formatDiff xs)"

definition FindDifferences ::
    "store \<Rightarrow> pair list \<Rightarrow> pair list \<Rightarrow> pair_format \<Rightarrow> pair_difference go_result" where
  "FindDifferences s p incoming pairFmt =
     (case incoming_loop s p pairFmt [] [] False incoming of
        Inl err \<Rightarrow> Inl err
      | Inr (newPairs, formatDiff) \<Rightarrow>
          (case removed_loop s incoming pairFmt [] [] formatDiff p of
             Inl err \<Rightarrow> Inl err
           | Inr (removedPairs, formatDiff) \<Rightarrow>
               Inr \<lparr>diff_New = newPairs, diff_Remove = removedPairs,
                    FormatDifference = formatDiff\<rparr>))"

definition pairs_HasFormatDifference :: "store \<Rightarrow> pair list \<Rightarrow> pair_format \<Rightarrow> bool" where
  "pairs_HasFormatDifference s p pairFmt = list_ex (\<lambda>x. hasFormatDifference s x pairFmt) p"

fun conform_loop ::
    "store \<Rightarrow> pair_format \<Rightarrow> bool \<Rightarrow> string list \<Rightarrow> pair list \<Rightarrow> pair list \<Rightarrow> pair list go_result"
  where
  "conform_loop s pFmt bypass processed formatted [] = Inr formatted"
| "conform_loop s pFmt bypass processed formatted (x # xs) =
     (if pair_IsEmpty s x then Inl (Errorf ''cannot update pairs %w'' [ErrCurrencyPairEmpty])
      else
        let strippedPair = format_Format s EMPTYFORMAT x
        in if List.member processed strippedPair
           then Inl (Errorf ''cannot update pairs %w with [%s]'' [ErrPairDuplication])
           else conform_loop s pFmt bypass (strippedPair # processed)
                  (formatted @ [if \<not> bypass then pair_Format x pFmt else x]) xs)"

definition ValidateAndConform ::
    "store \<Rightarrow> pair list \<Rightarrow> pair_format \<Rightarrow> bool \<Rightarrow> pair list go_result" where
  "ValidateAndConform s p pFmt bypassFormatting = conform_loop s pFmt bypassFormatting [] [] p"

definition pairs_GetFormatting :: "store \<Rightarrow> pair list \<Rightarrow> pair_format go_result" where
  "pairs_GetFormatting s p =
     (if length p = 0 then Inl ErrCurrencyPairsEmpty
      else case pair_GetFormatting s (p ! 0) of
             Inl err \<Rightarrow> Inl err
           | Inr pFmt \<Rightarrow>
               if pairs_HasFormatDifference s p pFmt then Inl errPairFormattingInconsistent
               else Inr pFmt)"

definition pairs_Equal :: "pair list \<Rightarrow> pair list \<Rightarrow> bool" where
  "pairs_Equal p b =
     (if length p \<noteq> length b then False
      else if length p = 0 then True
      else let m = map pairKey p in list_all (\<lambda>x. List.member m (pairKey x)) b)"

section \<open>Lemmas\<close>

text \<open>The key under which a list is searched: the ordered pair of items, or the unordered one.\<close>

definition match_key :: "bool \<Rightarrow> pair \<Rightarrow> bool \<times> pair_key \<times> item_ptr option multiset" where
  "match_key exact p =
     (exact, if exact then pairKey p else (None, None),
      if exact then {#} else {#Item (Base p), Item (Quote p)#})"

lemma pair_match_iff: "pair_match exact p q \<longleftrightarrow> match_key exact p = match_key exact q"
  by (auto simp: pair_match_def match_key_def pairKey_def pair_Equal_def
      EqualIncludeReciprocal_def code_Equal_def add_eq_conv_ex)

lemma pair_Equal_iff: "pair_Equal p q \<longleftrightarrow> pairKey p = pairKey q"
  by (auto simp: pairKey_def pair_Equal_def code_Equal_def)

lemma match_key_exact: "match_key True p = match_key True q \<longleftrightarrow> pairKey p = pairKey q"
  by (simp add: match_key_def)

lemma pairs_Contains_iff:
  "pairs_Contains p c exact \<longleftrightarrow> match_key exact c \<in> match_key exact ` set p"
  by (induction p) (auto simp: pair_match_iff)

lemma pairs_Contains_exact: "pairs_Contains p c True \<longleftrightarrow> pairKey c \<in> pairKey ` set p"
  by (auto simp: pairs_Contains_iff image_iff match_key_exact)

lemma find_match_None:
  "find_match exact c ps = None \<longleftrightarrow> match_key exact c \<notin> match_key exact ` set ps"
  by (induction ps) (auto simp: pair_match_iff)

lemma find_match_Some:
  "find_match exact c ps = Some y \<Longrightarrow>
     y < length ps \<and> match_key exact (ps ! y) = match_key exact c"
  by (induction ps arbitrary: y) (auto simp: pair_match_iff split: if_splits)

lemma mset_swap_remove:
  assumes "y < length xs"
  shows "mset (swap_remove xs y) = mset xs - {#xs ! y#}"
proof -
  obtain zs z where xs: "xs = zs @ [z]" using assms by (cases xs rule: rev_cases) auto
  show ?thesis
  proof (cases "y = length zs")
    case True
    then show ?thesis by (simp add: xs swap_remove_def)
  next
    case False
    then have y: "y < length zs" using assms by (simp add: xs)
    then have "swap_remove xs y = zs[y := z]"
      by (simp add: xs swap_remove_def nth_append list_update_append)
    moreover have "xs ! y = zs ! y" using y by (simp add: xs nth_append)
    ultimately show ?thesis using y by (simp add: xs mset_update)
  qed
qed

lemma contains_all_loop_None:
  "contains_all_loop p exact cmp cs = None \<longleftrightarrow>
     image_mset (match_key exact) (mset cs) \<subseteq># image_mset (match_key exact) (mset cmp)"
proof (induction cs arbitrary: cmp)
  case Nil
  then show ?case by simp
next
  case (Cons c cs)
  show ?case
  proof (cases "find_match exact c cmp")
    case None
    then have "match_key exact c \<notin># image_mset (match_key exact) (mset cmp)"
      by (simp add: find_match_None)
    then show ?thesis using None by (auto dest: mset_subset_eqD)
  next
    case (Some y)
    then have y: "y < length cmp" "match_key exact (cmp ! y) = match_key exact c"
      by (auto dest: find_match_Some)
    then have "cmp ! y \<in># mset cmp" by simp
    then have "image_mset (match_key exact) (mset (swap_remove cmp y)) =
        image_mset (match_key exact) (mset cmp) - {#match_key exact c#}"
      using y by (simp add: mset_swap_remove image_mset_Diff)
    moreover have "match_key exact c \<in># image_mset (match_key exact) (mset cmp)"
      using y by (metis \<open>cmp ! y \<in># mset cmp\<close> image_eqI set_image_mset)
    ultimately show ?thesis using Some Cons.IH
      by (simp add: insert_subset_eq_iff)
  qed
qed

lemma ContainsAll_error:
  assumes "contains_all_loop p exact cmp cs = Some err"
  shows "(err = Errorf ''%s %w'' [ErrPairDuplication] \<and> (\<exists>c \<in> set cs. pairs_Contains p c exact)) \<or>
    (err = Errorf ''%s %w'' [ErrPairNotContainedInAvailablePairs] \<and>
     (\<exists>c \<in> set cs. \<not> pairs_Contains p c exact))"
  using assms by (induction cs arbitrary: cmp) (auto split: option.splits if_splits)

lemma incoming_loop_Inr:
  assumes "incoming_loop s p f new chk fd xs = Inr (new', fd')"
  shows "new' = new @ filter (\<lambda>x. pairKey x \<notin> pairKey ` set p) xs \<and>
    distinct (map pairKey xs) \<and> set (map pairKey xs) \<inter> set chk = {} \<and>
    (\<forall>x \<in> set xs. \<not> pair_IsEmpty s x) \<and>
    (fd' \<longleftrightarrow> fd \<or> pairs_HasFormatDifference s xs f)"
  using assms
proof (induction xs arbitrary: new chk fd)
  case (Cons x xs)
  from Cons.prems have ne: "\<not> pair_IsEmpty s x" and nk: "pairKey x \<notin> set chk"
    and run: "incoming_loop s p f (if \<not> pairs_Contains p x True then new @ [x] else new)
        (pairKey x # chk) (if \<not> fd then hasFormatDifference s x f else fd) xs = Inr (new', fd')"
    by (auto simp: Let_def split: if_splits)
  from Cons.IH [OF run] ne nk show ?case
    by (auto simp: pairs_Contains_exact pairs_HasFormatDifference_def split: if_splits)
qed (simp add: pairs_HasFormatDifference_def)

lemma removed_loop_Inr:
  assumes "removed_loop s inc f rem chk fd xs = Inr (rem', fd')"
  shows "\<exists>r. rem' = rem @ r \<and> set r \<subseteq> set xs \<and>
    image_mset pairKey (mset r) + mset_set (pairKey ` set xs \<inter> pairKey ` set inc - set chk) =
      image_mset pairKey (mset xs) \<and>
    (\<forall>x \<in> set xs. \<not> pair_IsEmpty s x) \<and>
    (fd' \<longleftrightarrow> fd \<or> pairs_HasFormatDifference s xs f)"
  using assms
proof (induction xs arbitrary: rem chk fd)
  case Nil
  then show ?case by (simp add: pairs_HasFormatDifference_def)
next
  case (Cons x xs)
  let ?del = "\<not> pairs_Contains inc x True \<or> List.member chk (pairKey x)"
  from Cons.prems have ne: "\<not> pair_IsEmpty s x"
    and run: "removed_loop s inc f (if ?del then rem @ [x] else rem) (pairKey x # chk)
        (if \<not> fd then hasFormatDifference s x f else fd) xs = Inr (rem', fd')"
    by (auto simp: Let_def split: if_splits)
  from Cons.IH [OF run] obtain r where r:
    "rem' = (if ?del then rem @ [x] else rem) @ r" "set r \<subseteq> set xs"
    "image_mset pairKey (mset r) +
      mset_set (pairKey ` set xs \<inter> pairKey ` set inc - set (pairKey x # chk)) =
      image_mset pairKey (mset xs)"
    "\<forall>x \<in> set xs. \<not> pair_IsEmpty s x"
    "fd' \<longleftrightarrow> (if \<not> fd then hasFormatDifference s x f else fd) \<or> pairs_HasFormatDifference s xs f"
    by blast
  have keys: "pairKey ` set (x # xs) \<inter> pairKey ` set inc - set chk =
      (if ?del then pairKey ` set xs \<inter> pairKey ` set inc - set (pairKey x # chk)
       else insert (pairKey x)
         (pairKey ` set xs \<inter> pairKey ` set inc - set (pairKey x # chk)))"
    by (auto simp: pairs_Contains_exact)
  have "mset_set (insert (pairKey x)
        (pairKey ` set xs \<inter> pairKey ` set inc - set (pairKey x # chk))) =
      add_mset (pairKey x)
        (mset_set (pairKey ` set xs \<inter> pairKey ` set inc - set (pairKey x # chk)))"
    by (subst mset_set.insert) auto
  then have "image_mset pairKey (mset (if ?del then x # r else r)) +
      mset_set (pairKey ` set (x # xs) \<inter> pairKey ` set inc - set chk) =
      image_mset pairKey (mset (x # xs))"
    unfolding keys using r(3) by simp
  moreover have "rem' = rem @ (if ?del then x # r else r)" using r(1) by simp
  moreover have "set (if ?del then x # r else r) \<subseteq> set (x # xs)" using r(2) by auto
  ultimately show ?case using r(4,5) ne
    by (intro exI [of _ "if ?del then x # r else r"])
      (auto simp: pairs_HasFormatDifference_def)
qed

lemma mset_keys_distinct:
  "distinct (map pairKey xs) \<Longrightarrow> image_mset pairKey (mset xs) = mset_set (pairKey ` set xs)"
  by (metis mset_set_set set_map mset_map)

lemma mset_set_split:
  "finite A \<Longrightarrow> mset_set (B \<inter> A) + mset_set (A - B) = mset_set A"
  by (metis Diff_disjoint Int_commute Int_Diff_Un finite_Diff finite_Int inf_commute
      Int_Diff_disjoint mset_set_Union)

lemma FindDifferences_Inr:
  assumes "FindDifferences s p incoming f = Inr d"
  shows "image_mset pairKey (mset (diff_Remove d)) \<subseteq># image_mset pairKey (mset p) \<and>
    image_mset pairKey (mset p) - image_mset pairKey (mset (diff_Remove d)) +
      image_mset pairKey (mset (diff_New d)) = image_mset pairKey (mset incoming) \<and>
    distinct (map pairKey incoming) \<and>
    (FormatDifference d \<longleftrightarrow>
       pairs_HasFormatDifference s incoming f \<or> pairs_HasFormatDifference s p f)"
proof -
  from assms obtain n fd r fd' where
    inl: "incoming_loop s p f [] [] False incoming = Inr (n, fd)"
    and rml: "removed_loop s incoming f [] [] fd p = Inr (r, fd')"
    and d: "d = \<lparr>diff_New = n, diff_Remove = r, FormatDifference = fd'\<rparr>"
    by (auto simp: FindDifferences_def split: sum.splits prod.splits)
  let ?P = "pairKey ` set p" and ?I = "pairKey ` set incoming"
  from incoming_loop_Inr [OF inl] have n: "n = filter (\<lambda>x. pairKey x \<notin> ?P) incoming"
    and di: "distinct (map pairKey incoming)"
    and fd: "fd \<longleftrightarrow> pairs_HasFormatDifference s incoming f" by auto
  from removed_loop_Inr [OF rml] have
    r: "image_mset pairKey (mset r) + mset_set (?P \<inter> ?I) = image_mset pairKey (mset p)"
    and fd': "fd' \<longleftrightarrow> fd \<or> pairs_HasFormatDifference s p f" by auto
  have "distinct (map pairKey n)" unfolding n using di by (rule distinct_map_filter)
  then have "image_mset pairKey (mset n) = mset_set (pairKey ` set n)"
    by (rule mset_keys_distinct)
  also have "pairKey ` set n = ?I - ?P" unfolding n by (force simp: image_iff)
  finally have nk: "image_mset pairKey (mset n) = mset_set (?I - ?P)" .
  have "image_mset pairKey (mset p) - image_mset pairKey (mset r) = mset_set (?P \<inter> ?I)"
    by (simp flip: r)
  then have "image_mset pairKey (mset p) - image_mset pairKey (mset r) +
      image_mset pairKey (mset n) = mset_set ?I"
    unfolding nk by (simp add: mset_set_split)
  moreover have "image_mset pairKey (mset r) \<subseteq># image_mset pairKey (mset p)"
    by (simp flip: r)
  ultimately show ?thesis using mset_keys_distinct [OF di] fd fd' di by (simp add: d)
qed

lemma incoming_loop_ok:
  assumes "distinct (map pairKey xs)" and "set (map pairKey xs) \<inter> set chk = {}"
    and "\<forall>x \<in> set xs. \<not> pair_IsEmpty s x"
  shows "\<exists>r. incoming_loop s p f new chk fd xs = Inr r"
  using assms by (induction xs arbitrary: new chk fd) (auto simp: Let_def)

lemma removed_loop_ok:
  assumes "\<forall>x \<in> set xs. \<not> pair_IsEmpty s x"
  shows "\<exists>r. removed_loop s inc f rem chk fd xs = Inr r"
  using assms by (induction xs arbitrary: rem chk fd) (auto simp: Let_def)

lemma FindDifferences_ok:
  "(\<exists>d. FindDifferences s p incoming f = Inr d) \<longleftrightarrow>
     distinct (map pairKey incoming) \<and> (\<forall>x \<in> set incoming \<union> set p. \<not> pair_IsEmpty s x)"
proof
  assume "\<exists>d. FindDifferences s p incoming f = Inr d"
  then show "distinct (map pairKey incoming) \<and> (\<forall>x \<in> set incoming \<union> set p. \<not> pair_IsEmpty s x)"
    by (auto simp: FindDifferences_def split: sum.splits prod.splits
        dest!: incoming_loop_Inr removed_loop_Inr)
next
  assume a: "distinct (map pairKey incoming) \<and> (\<forall>x \<in> set incoming \<union> set p. \<not> pair_IsEmpty s x)"
  then obtain n fd where "incoming_loop s p f [] [] False incoming = Inr (n, fd)"
    using incoming_loop_ok [of incoming "[]" s p f "[]" False] by auto
  moreover obtain r where "removed_loop s incoming f [] [] fd p = Inr r"
    using a removed_loop_ok [of p s incoming f "[]" "[]" fd] by auto
  ultimately show "\<exists>d. FindDifferences s p incoming f = Inr d"
    by (auto simp: FindDifferences_def split: prod.splits)
qed

lemma conform_loop_Inr:
  assumes "conform_loop s pf bypass seen done xs = Inr ys"
  shows "ys = done @ map (\<lambda>x. if bypass then x else pair_Format x pf) xs \<and>
    (\<forall>x \<in> set xs. \<not> pair_IsEmpty s x) \<and>
    distinct (map (format_Format s EMPTYFORMAT) xs)\<and>
    set (map (format_Format s EMPTYFORMAT) xs) \<inter> set seen = {}"
  using assms
proof (induction xs arbitrary: seen "done")
  case (Cons x xs)
  from Cons.prems have ne: "\<not> pair_IsEmpty s x" "format_Format s EMPTYFORMAT x \<notin> set seen"
    and run: "conform_loop s pf bypass (format_Format s EMPTYFORMAT x # seen)
        (done @ [if \<not> bypass then pair_Format x pf else x]) xs = Inr ys"
    by (auto simp: Let_def split: if_splits)
  from Cons.IH [OF run] ne show ?case by (auto split: if_splits)
qed simp

lemma pairs_Add_keys:
  "pairKey ` set (pairs_Add n as) = pairKey ` set n \<union> pairKey ` set as"
  "distinct (map pairKey n) \<Longrightarrow> distinct (map pairKey (pairs_Add n as))"
  by (induction n as rule: pairs_Add.induct) (auto simp: pairs_Contains_exact)

lemma list_ex_pair_Equal:
  "list_ex (\<lambda>pX. pair_Equal pX x) rem \<longleftrightarrow> pairKey x \<in> pairKey ` set rem"
  by (induction rem) (auto simp: pair_Equal_iff)

lemma pairs_Remove_keys:
  "pairKey ` set (pairs_Remove p rem) = pairKey ` set p - pairKey ` set rem"
  unfolding pairs_Remove_def list_ex_pair_Equal by (force simp: image_iff)

lemma pairs_Remove_mset:
  "mset (pairs_Remove p rem) = filter_mset (\<lambda>x. pairKey x \<notin> pairKey ` set rem) (mset p)"
  by (simp add: pairs_Remove_def list_ex_pair_Equal)

text \<open>Two lists of the same length that name the same pairs need not be equal the other way
  round when one repeats a pair.\<close>

lemma pairs_Equal_iff:
  "pairs_Equal p b \<longleftrightarrow> length p = length b \<and> pairKey ` set b \<subseteq> pairKey ` set p"
  by (auto simp: pairs_Equal_def list_all_iff)

lemma pairs_Equal_asymmetric:
  "pairs_Equal [NewPair \<lparr>Item = Some 0, upperCase = True\<rparr> \<lparr>Item = Some 1, upperCase = True\<rparr>,
      NewPair \<lparr>Item = Some 0, upperCase = True\<rparr> \<lparr>Item = Some 2, upperCase = True\<rparr>]
     [NewPair \<lparr>Item = Some 0, upperCase = True\<rparr> \<lparr>Item = Some 1, upperCase = True\<rparr>,
      NewPair \<lparr>Item = Some 0, upperCase = True\<rparr> \<lparr>Item = Some 1, upperCase = True\<rparr>] \<and>
   \<not> pairs_Equal [NewPair \<lparr>Item = Some 0, upperCase = True\<rparr> \<lparr>Item = Some 1, upperCase = True\<rparr>,
      NewPair \<lparr>Item = Some 0, upperCase = True\<rparr> \<lparr>Item = Some 1, upperCase = True\<rparr>]
     [NewPair \<lparr>Item = Some 0, upperCase = True\<rparr> \<lparr>Item = Some 1, upperCase = True\<rparr>,
      NewPair \<lparr>Item = Some 0, upperCase = True\<rparr> \<lparr>Item = Some 2, upperCase = True\<rparr>]"
  by (simp add: pairs_Equal_iff pairKey_def NewPair_def)

lemma pairs_Equal_mset:
  assumes "distinct (map pairKey p)" and "distinct (map pairKey b)"
  shows "pairs_Equal p b \<longleftrightarrow> image_mset pairKey (mset p) = image_mset pairKey (mset b)"
proof
  assume e: "pairs_Equal p b"
  have "card (pairKey ` set b) = card (pairKey ` set p)"
    using e assms distinct_card [of "map pairKey b"] distinct_card [of "map pairKey p"]
    by (simp add: pairs_Equal_iff)
  then have "pairKey ` set b = pairKey ` set p"
    using e by (intro card_subset_eq) (auto simp: pairs_Equal_iff)
  then show "image_mset pairKey (mset p) = image_mset pairKey (mset b)"
    using assms by (simp add: mset_keys_distinct)
next
  assume "image_mset pairKey (mset p) = image_mset pairKey (mset b)"
  then have "mset (map pairKey p) = mset (map pairKey b)" by simp
  then show "pairs_Equal p b"
    unfolding pairs_Equal_iff by (metis length_map list.set_map mset_eq_length mset_eq_setD order_refl)
qed

section \<open>Properties\<close>

text \<open>Also: \<open>ContainsAll\<close> succeeds exactly if pairs are checked and each is found as
  often as it is asked for, by the ordered or the unordered pair of currencies: the swap with the
  last element while searching loses no pair.  Otherwise the error is one of its three.\<close>

theorem contains_all:
  "(ContainsAll p check exact = None \<longleftrightarrow>
      check \<noteq> [] \<and>
      image_mset (match_key exact) (mset check) \<subseteq># image_mset (match_key exact) (mset p)) \<and>
   ContainsAll p check exact \<in>
     {None, Some ErrCurrencyPairsEmpty, Some (Errorf ''%s %w'' [ErrPairDuplication]),
      Some (Errorf ''%s %w'' [ErrPairNotContainedInAvailablePairs])}"
  using contains_all_loop_None ContainsAll_error [of p exact p check]
  by (auto simp: ContainsAll_def) (metis option.exhaust)

text \<open>Also: the differences found between an old and an incoming list are exactly
  what turns one into the other: taking the removed entries out of the old list and adding the
  new ones gives the incoming pairs, each once; and a format difference is reported exactly if
  one of the two lists has it.\<close>

theorem find_differences:
  assumes "FindDifferences s p incoming f = Inr d"
  shows "image_mset pairKey (mset (diff_Remove d)) \<subseteq># image_mset pairKey (mset p) \<and>
    image_mset pairKey (mset p) - image_mset pairKey (mset (diff_Remove d)) +
      image_mset pairKey (mset (diff_New d)) = image_mset pairKey (mset incoming) \<and>
    distinct (map pairKey incoming) \<and>
    (FormatDifference d \<longleftrightarrow>
       pairs_HasFormatDifference s incoming f \<or> pairs_HasFormatDifference s p f)"
  using FindDifferences_Inr [OF assms] .

theorem find_differences_witness:
  "\<exists>d p q s. FindDifferences s [p, p] [q] EMPTYFORMAT = Inr d \<and>
     image_mset pairKey (mset (diff_New d)) = {#pairKey q#} \<and> pairKey p \<noteq> pairKey q"
proof -
  define s where "s = \<lparr>cs_heap = (\<lambda>_. Some (empty_item\<lparr>Symbol := ''X''\<rparr>)), cs_next = 3,
      cs_items = (\<lambda>_. None)\<rparr>"
  define p where "p = NewPair \<lparr>Item = Some 0, upperCase = True\<rparr> \<lparr>Item = Some 1, upperCase = True\<rparr>"
  define q where "q = NewPair \<lparr>Item = Some 0, upperCase = True\<rparr> \<lparr>Item = Some 2, upperCase = True\<rparr>"
  have "FindDifferences s [p, p] [q] EMPTYFORMAT =
      Inr \<lparr>diff_New = [q], diff_Remove = [p, p], FormatDifference = True\<rparr>"
    by (simp add: s_def p_def q_def FindDifferences_def pair_IsEmpty_def code_IsEmpty_def
        item_at_def NewPair_def Let_def hasFormatDifference_def isCaseSensitive_def EMPTYFORMAT_def
        empty_item_def pairKey_def pair_match_def pair_Equal_def code_Equal_def)
  from find_differences [OF this] this show ?thesis
    by (intro exI [of _ "\<lparr>diff_New = [q], diff_Remove = [p, p], FormatDifference = True\<rparr>"]
        exI [of _ p] exI [of _ q] exI [of _ s])
      (simp add: p_def q_def pairKey_def NewPair_def)
qed

lemma stripped_key:
  "pairKey x = pairKey y \<Longrightarrow> format_Format s EMPTYFORMAT x = format_Format s EMPTYFORMAT y"
  by (auto simp: format_Format_def pairKey_def pair_String_def EMPTYFORMAT_def code_String_def
      code_Lower_def split: option.splits)

lemma pairKey_Format [simp]: "pairKey (pair_Format x f) = pairKey x"
  by (simp add: pairKey_def)

lemma pair_IsEmpty_Format [simp]: "pair_IsEmpty s (pair_Format x f) = pair_IsEmpty s x"
  by (simp add: pair_IsEmpty_def code_IsEmpty_def)

lemma ValidateAndConform_Inr:
  assumes "ValidateAndConform s p f bypass = Inr q"
  shows "q = map (\<lambda>x. if bypass then x else pair_Format x f) p"
    and "map pairKey q = map pairKey p" and "distinct (map pairKey q)"
    and "\<forall>x \<in> set q. \<not> pair_IsEmpty s x"
    and "\<not> bypass \<Longrightarrow> \<not> pairs_HasFormatDifference s q f"
proof -
  note * = conform_loop_Inr [OF assms [unfolded ValidateAndConform_def], simplified]
  then show q: "q = map (\<lambda>x. if bypass then x else pair_Format x f) p" by simp
  then show k: "map pairKey q = map pairKey p" by simp
  from * have inj: "inj_on (format_Format s EMPTYFORMAT) (set p)" and dp: "distinct p"
    by (simp_all add: distinct_map)
  have "inj_on pairKey (set p)"
    by (rule inj_onI) (rule inj_onD [OF inj stripped_key])
  then show "distinct (map pairKey q)"
    using dp by (simp add: k distinct_map)
  show "\<forall>x \<in> set q. \<not> pair_IsEmpty s x" using * q by auto
  show "\<not> pairs_HasFormatDifference s q f" if "\<not> bypass"
    using that hasFormatDifference_Format
    by (auto simp: q pairs_HasFormatDifference_def list_ex_iff)
qed

text \<open>Also: a list that \<open>ValidateAndConform\<close> accepts keeps its pairs and their
  order, has no duplicate and no empty pair, and has the format asked for unless formatting is
  bypassed; \<open>FindDifferences\<close> against any old list without empty pairs then succeeds.\<close>

theorem validate_and_conform:
  assumes "ValidateAndConform s p f bypass = Inr q" and "\<not> list_ex (pair_IsEmpty s) old"
  shows "map pairKey q = map pairKey p \<and> distinct (map pairKey q) \<and>
    (bypass \<or> \<not> pairs_HasFormatDifference s q f) \<and> (\<exists>d. FindDifferences s old q g = Inr d)"
  using ValidateAndConform_Inr [OF assms(1)] assms(2) FindDifferences_ok [of s old q g]
  by (auto simp: list_ex_iff)

theorem validate_and_conform_witness:
  "\<exists>s x q d. ValidateAndConform s [x] EMPTYFORMAT False = Inr q \<and>
     FindDifferences s [] q EMPTYFORMAT = Inr d \<and> pairKey x = (Some 0, Some 1)"
proof -
  let ?s = "\<lparr>cs_heap = (\<lambda>_. Some (empty_item\<lparr>Symbol := ''X''\<rparr>)), cs_next = 3,
      cs_items = (\<lambda>_. None)\<rparr>"
  let ?x = "NewPair \<lparr>Item = Some 0, upperCase = True\<rparr> \<lparr>Item = Some 1, upperCase = True\<rparr>"
  have "ValidateAndConform ?s [?x] EMPTYFORMAT False = Inr [pair_Format ?x EMPTYFORMAT]"
    by (simp add: ValidateAndConform_def pair_IsEmpty_def code_IsEmpty_def item_at_def NewPair_def)
  note v = this
  obtain d where "FindDifferences ?s [] [pair_Format ?x EMPTYFORMAT] EMPTYFORMAT = Inr d"
    using validate_and_conform [OF v, of "[]" EMPTYFORMAT] by auto
  with v show ?thesis
    by (intro exI [of _ ?s] exI [of _ ?x] exI [of _ "[pair_Format ?x EMPTYFORMAT]"] exI [of _ d]
        conjI) (simp_all add: pairKey_def NewPair_def)
qed

end
