(* ===== verification/Tranches.thy ===== *)
theory Tranches
  imports Go_Prelude Go_Float "HOL-Library.Multiset"
begin

text \<open>
  The price levels of one side of an order book: \<open>Tranche\<close> and \<open>Tranches\<close> of
  \<open>exchanges/orderbook/tranches.go\<close> with every operation that loads or changes a side.  A side is
  the list of its tranches; an operation that changes its receiver returns the new list, together
  with an error where it can fail, because a failing loop leaves the updates it has already made.
  The inner loops run over the slice by index and leave it at the first level that matches: here
  each is a structural recursion on the levels not passed yet.  The copy-and-shrink and
  append-and-shift steps are removal and insertion at that place.

  Bids and asks differ in the comparison only.  The locale \<open>price_order\<close> states what the loops
  need of it; its lemmas show, for both sides at once, that the operations keep the levels sorted
  and that, seen as a partial map from prices to levels, an update is a map update.
\<close>

section \<open>Data\<close>

record tranche =
  Amount :: f64
  StrAmount :: string
  Price :: f64
  StrPrice :: string
  ID :: int
  Period :: int
  LiquidationOrders :: int
  OrderCount :: int

type_synonym tranches = "tranche list"
type_synonym comparison = "f64 \<Rightarrow> f64 \<Rightarrow> bool"

definition errIDCannotBeMatched :: go_error where
  "errIDCannotBeMatched = Sentinel ''orderbook.errIDCannotBeMatched''"
definition errCollisionDetected :: go_error where
  "errCollisionDetected = Sentinel ''orderbook.errCollisionDetected''"
definition errAmountCannotBeLessOrEqualToZero :: go_error where
  "errAmountCannotBeLessOrEqualToZero = Sentinel ''orderbook.errAmountCannotBeLessOrEqualToZero''"
definition errNoLiquidity :: go_error where
  "errNoLiquidity = Sentinel ''orderbook.errNoLiquidity''"

section \<open>Operations\<close>

text \<open>\<open>load\<close>: the built-in \<open>copy\<close> overwrites a prefix of the destination.\<close>

definition copy_slice :: "'a list \<Rightarrow> 'a list \<Rightarrow> 'a list" where
  "copy_slice dst src =
     (let n = min (length dst) (length src) in take n src @ drop n dst)"

definition zero_tranche :: tranche where
  "zero_tranche = \<lparr>Amount = 0, StrAmount = [], Price = 0, StrPrice = [], ID = 0, Period = 0,
     LiquidationOrders = 0, OrderCount = 0\<rparr>"

definition load :: "tranches \<Rightarrow> tranches \<Rightarrow> tranches" where
  "load ts incoming =
     (if length incoming = 0 then take 0 ts
      else if length incoming \<le> length ts
        then take (length incoming) (copy_slice ts incoming)
      else copy_slice (replicate (length incoming) zero_tranche) incoming)"

text \<open>\<open>updateByID\<close>.\<close>

definition amend :: "tranche \<Rightarrow> tranche \<Rightarrow> tranche" where
  "amend t u =
     (let t = (if 0 < Price u then t\<lparr>Price := Price u, StrPrice := StrPrice u\<rparr> else t)
      in t\<lparr>Amount := Amount u, StrAmount := StrAmount u\<rparr>)"

fun amend_first :: "tranches \<Rightarrow> tranche \<Rightarrow> tranches option" where
  "amend_first [] u = None"
| "amend_first (t # ts) u =
     (if ID u \<noteq> ID t then map_option ((#) t) (amend_first ts u) else Some (amend t u # ts))"

fun updateByID :: "tranches \<Rightarrow> tranches \<Rightarrow> tranches \<times> go_error option" where
  "updateByID ts [] = (ts, None)"
| "updateByID ts (u # us) =
     (case amend_first ts u of
        None \<Rightarrow> (ts, Some (Errorf ''update error: %w ID: %d not found'' [errIDCannotBeMatched]))
      | Some ts' \<Rightarrow> updateByID ts' us)"

text \<open>\<open>deleteByID\<close>.\<close>

fun delete_first :: "tranches \<Rightarrow> int \<Rightarrow> tranches option" where
  "delete_first [] i = None"
| "delete_first (t # ts) i =
     (if i \<noteq> ID t then map_option ((#) t) (delete_first ts i) else Some ts)"

fun deleteByID :: "tranches \<Rightarrow> tranches \<Rightarrow> bool \<Rightarrow> tranches \<times> go_error option" where
  "deleteByID ts [] bypassErr = (ts, None)"
| "deleteByID ts (u # us) bypassErr =
     (case delete_first ts (ID u) of
        Some ts' \<Rightarrow> deleteByID ts' us bypassErr
      | None \<Rightarrow>
          (if \<not> bypassErr
           then (ts, Some (Errorf ''delete error: %w %d not found'' [errIDCannotBeMatched]))
           else deleteByID ts us bypassErr))"

text \<open>\<open>amount\<close>.\<close>

fun amount_loop :: "tranches \<Rightarrow> f64 \<Rightarrow> f64 \<Rightarrow> f64 \<times> f64" where
  "amount_loop [] liquidity value = (liquidity, value)"
| "amount_loop (t # ts) liquidity value =
     amount_loop ts (liquidity + Amount t) (value + Amount t * Price t)"

definition amount :: "tranches \<Rightarrow> f64 \<times> f64" where
  "amount ts = amount_loop ts 0 0"

text \<open>\<open>retrieve\<close>: a negative count would slice out of range (a panic, the outcome \<open>None\<close>).\<close>

definition retrieve :: "tranches \<Rightarrow> int \<Rightarrow> tranches option" where
  "retrieve ts cnt =
     (let cnt = (if cnt = 0 \<or> cnt \<ge> int (length ts) then int (length ts) else cnt)
      in if cnt < 0 then None else Some (take (nat cnt) ts))"

text \<open>\<open>updateInsertByPrice\<close>: one update, then all, then the cut to the depth kept, a length
  (\<open>MaxDepth\<close>; a negative one would panic and no exchange sets one).\<close>

fun price_step :: "comparison \<Rightarrow> tranches \<Rightarrow> tranche \<Rightarrow> tranches" where
  "price_step compare [] u = (if 0 < Amount u then [u] else [])"
| "price_step compare (t # ts) u =
     (if feq (Price t) (Price u)
      then (if Amount u \<le> 0 then ts
            else t\<lparr>Amount := Amount u, StrAmount := StrAmount u\<rparr> # ts)
      else if compare (Price t) (Price u)
      then (if 0 < Amount u then u # t # ts else t # ts)
      else t # price_step compare ts u)"

fun price_updates :: "comparison \<Rightarrow> tranches \<Rightarrow> tranches \<Rightarrow> tranches" where
  "price_updates compare ts [] = ts"
| "price_updates compare ts (u # us) = price_updates compare (price_step compare ts u) us"

definition updateInsertByPrice :: "tranches \<Rightarrow> tranches \<Rightarrow> nat \<Rightarrow> comparison \<Rightarrow> tranches" where
  "updateInsertByPrice ts updts maxChainLength compare =
     (let ts' = price_updates compare ts updts
      in if maxChainLength \<noteq> 0 \<and> length ts' > maxChainLength
         then take maxChainLength ts' else ts')"

text \<open>\<open>updateInsertByID\<close>: \<open>popped\<close> records that the level of the update's ID was taken out
  because its price changed.\<close>

fun id_step :: "comparison \<Rightarrow> bool \<Rightarrow> tranches \<Rightarrow> tranche \<Rightarrow> tranches" where
  "id_step compare popped [] u = [u]"
| "id_step compare popped (t # ts) u =
     (if ID t = ID u
      then (if \<not> feq (Price t) (Price u)
            then (if ts = [] then [u] else id_step compare True ts u)
            else t\<lparr>Amount := Amount u, StrAmount := StrAmount u\<rparr> # ts)
      else if compare (Price t) (Price u)
      then u # (if popped then t # ts
                else case delete_first (t # ts) (ID u) of None \<Rightarrow> t # ts | Some ts' \<Rightarrow> ts')
      else t # id_step compare popped ts u)"

fun updateInsertByID :: "tranches \<Rightarrow> tranches \<Rightarrow> comparison \<Rightarrow> tranches \<times> go_error option" where
  "updateInsertByID ts [] compare = (ts, None)"
| "updateInsertByID ts (u # us) compare =
     (if Amount u \<le> 0 then (ts, Some errAmountCannotBeLessOrEqualToZero)
      else updateInsertByID (id_step compare False ts u) us compare)"

text \<open>\<open>insertUpdates\<close>.\<close>

fun insert_step :: "comparison \<Rightarrow> tranches \<Rightarrow> tranche \<Rightarrow> tranches option" where
  "insert_step compare [] u = Some [u]"
| "insert_step compare (t # ts) u =
     (if feq (Price t) (Price u) then None
      else if compare (Price t) (Price u) then Some (u # t # ts)
      else map_option ((#) t) (insert_step compare ts u))"

fun insertUpdates :: "tranches \<Rightarrow> tranches \<Rightarrow> comparison \<Rightarrow> tranches \<times> go_error option" where
  "insertUpdates ts [] compare = (ts, None)"
| "insertUpdates ts (u # us) compare =
     (case insert_step compare ts u of
        None \<Rightarrow> (ts, Some (Errorf ''%w for price %f'' [errCollisionDetected]))
      | Some ts' \<Rightarrow> insertUpdates ts' us compare)"

definition getHeadPriceNoLock :: "tranches \<Rightarrow> f64 go_result" where
  "getHeadPriceNoLock ts = (if length ts = 0 then Inl errNoLiquidity else Inr (Price (ts ! 0)))"

definition getHeadVolumeNoLock :: "tranches \<Rightarrow> f64 go_result" where
  "getHeadVolumeNoLock ts = (if length ts = 0 then Inl errNoLiquidity else Inr (Amount (ts ! 0)))"

text \<open>The two sides.\<close>

definition bidCompare :: comparison where
  "bidCompare left right \<longleftrightarrow> left < right"

definition askCompare :: comparison where
  "askCompare left right \<longleftrightarrow> left > right"

definition bids_updateInsertByPrice :: "tranches \<Rightarrow> tranches \<Rightarrow> nat \<Rightarrow> tranches" where
  "bids_updateInsertByPrice bids updts maxChainLength =
     updateInsertByPrice bids updts maxChainLength bidCompare"

definition bids_updateInsertByID :: "tranches \<Rightarrow> tranches \<Rightarrow> tranches \<times> go_error option" where
  "bids_updateInsertByID bids updts = updateInsertByID bids updts bidCompare"

definition bids_insertUpdates :: "tranches \<Rightarrow> tranches \<Rightarrow> tranches \<times> go_error option" where
  "bids_insertUpdates bids updts = insertUpdates bids updts bidCompare"

definition asks_updateInsertByPrice :: "tranches \<Rightarrow> tranches \<Rightarrow> nat \<Rightarrow> tranches" where
  "asks_updateInsertByPrice asks updts maxChainLength =
     updateInsertByPrice asks updts maxChainLength askCompare"

definition asks_updateInsertByID :: "tranches \<Rightarrow> tranches \<Rightarrow> tranches \<times> go_error option" where
  "asks_updateInsertByID asks updts = updateInsertByID asks updts askCompare"

definition asks_insertUpdates :: "tranches \<Rightarrow> tranches \<Rightarrow> tranches \<times> go_error option" where
  "asks_insertUpdates asks updts = insertUpdates asks updts askCompare"

section \<open>Views of a side\<close>

text \<open>The level at a price, and the level of an ID: what a client of the book looks up.\<close>

definition level :: "tranches \<Rightarrow> f64 \<Rightarrow> tranche option" where
  "level ts p = find (\<lambda>t. feq (Price t) p) ts"

definition id_level :: "tranches \<Rightarrow> int \<Rightarrow> tranche option" where
  "id_level ts i = find (\<lambda>t. ID t = i) ts"

definition set_amount :: "tranche \<Rightarrow> tranche \<Rightarrow> tranche" where
  "set_amount u t = t\<lparr>Amount := Amount u, StrAmount := StrAmount u\<rparr>"

text \<open>What one update means: the level at its price is amended, deleted, inserted or left out.\<close>

definition apply_price :: "tranche \<Rightarrow> tranche option \<Rightarrow> tranche option" where
  "apply_price u old =
     (case old of
        Some t \<Rightarrow> if Amount u \<le> 0 then None else Some (set_amount u t)
      | None \<Rightarrow> if 0 < Amount u then Some u else None)"

definition level_update :: "tranche \<Rightarrow> (f64 \<Rightarrow> tranche option) \<Rightarrow> f64 \<Rightarrow> tranche option" where
  "level_update u m p = (if feq (Price u) p then apply_price u (m p) else m p)"

definition apply_id :: "tranche \<Rightarrow> tranche option \<Rightarrow> tranche option" where
  "apply_id u old =
     (case old of
        Some t \<Rightarrow> Some (if feq (Price t) (Price u) then set_amount u t else u)
      | None \<Rightarrow> Some u)"

definition priced :: "tranches \<Rightarrow> bool" where
  "priced ts = list_all (\<lambda>t. Price t \<noteq> NaN) ts"

lemma set_amount_sel [simp]:
  "Price (set_amount u t) = Price t" "ID (set_amount u t) = ID t"
  "Amount (set_amount u t) = Amount u"
  by (simp_all add: set_amount_def)

lemma level_simps [simp]:
  "level [] p = None"
  "level (t # ts) p = (if feq (Price t) p then Some t else level ts p)"
  by (simp_all add: level_def)

lemma id_level_simps [simp]:
  "id_level [] i = None"
  "id_level (t # ts) i = (if ID t = i then Some t else id_level ts i)"
  by (simp_all add: id_level_def)

lemma priced_simps [simp]:
  "priced []" "priced (t # ts) \<longleftrightarrow> Price t \<noteq> NaN \<and> priced ts"
  by (simp_all add: priced_def)

lemma priced_iff: "priced ts \<longleftrightarrow> (\<forall>t \<in> set ts. Price t \<noteq> NaN)"
  by (simp add: priced_def list_all_iff)

lemma level_in: "level ts p = Some t \<Longrightarrow> t \<in> set ts \<and> feq (Price t) p"
  by (induction ts) (auto split: if_splits)

lemma level_None: "level ts p = None \<longleftrightarrow> (\<forall>t \<in> set ts. \<not> feq (Price t) p)"
  by (induction ts) auto

lemma id_level_in: "id_level ts i = Some t \<Longrightarrow> t \<in> set ts \<and> ID t = i"
  by (induction ts) (auto split: if_splits)

lemma id_level_None: "id_level ts i = None \<longleftrightarrow> i \<notin> ID ` set ts"
  by (induction ts) auto

lemma id_level_append:
  "id_level (as @ bs) i = (case id_level as i of None \<Rightarrow> id_level bs i | Some t \<Rightarrow> Some t)"
  by (induction as) auto

section \<open>Loading, amending and deleting\<close>

lemma load_eq: "load ts incoming = incoming"
  by (auto simp: load_def copy_slice_def Let_def)

lemma amend_first_None: "amend_first ts u = None \<longleftrightarrow> ID u \<notin> ID ` set ts"
  by (induction ts) auto

lemma ID_amend [simp]: "ID (amend t u) = ID t"
  by (simp add: amend_def Let_def)

lemma amend_first_Some:
  assumes "amend_first ts u = Some ts'"
  shows "map ID ts' = map ID ts \<and>
    id_level ts' i = (if i = ID u then map_option (\<lambda>t. amend t u) (id_level ts i) else id_level ts i)"
  using assms by (induction ts arbitrary: ts') (auto split: if_splits)

lemma updateByID_ids: "updateByID ts us = (ts', e) \<Longrightarrow> map ID ts' = map ID ts"
  by (induction ts us rule: updateByID.induct)
    (auto split: option.splits dest: amend_first_Some)

lemma updateByID_None:
  "snd (updateByID ts us) = None \<longleftrightarrow> ID ` set us \<subseteq> ID ` set ts"
proof (induction ts us rule: updateByID.induct)
  case (1 ts)
  then show ?case by simp
next
  case (2 ts u us)
  show ?case
  proof (cases "amend_first ts u")
    case None
    then have "ID u \<notin> ID ` set ts" by (simp add: amend_first_None)
    with None show ?thesis by simp
  next
    case (Some ts')
    have "ID ` set ts' = ID ` set ts"
      using amend_first_Some [OF Some] by (metis list.set_map)
    moreover have "ID u \<in> ID ` set ts"
      using Some amend_first_None [of ts u] by auto
    ultimately show ?thesis using 2 Some by simp
  qed
qed

lemma updateByID_level:
  assumes "updateByID ts us = (ts', None)"
  shows "id_level ts' i =
    map_option (\<lambda>t. fold (\<lambda>u t. amend t u) (filter (\<lambda>u. ID u = i) us) t) (id_level ts i)"
  using assms
proof (induction ts us rule: updateByID.induct)
  case (2 ts u us)
  then obtain ts1 where ts1: "amend_first ts u = Some ts1" "updateByID ts1 us = (ts', None)"
    by (auto split: option.splits)
  with 2 amend_first_Some [OF ts1(1), of i] show ?case
    by (auto simp: option.map_comp comp_def)
qed (simp add: option.map_id0)

lemma delete_first_None: "delete_first ts i = None \<longleftrightarrow> i \<notin> ID ` set ts"
  by (induction ts) auto

lemma delete_first_Some:
  "delete_first ts i = Some ts' \<Longrightarrow>
     \<exists>as t bs. ts = as @ t # bs \<and> ts' = as @ bs \<and> ID t = i \<and> i \<notin> ID ` set as"
proof (induction ts arbitrary: ts')
  case (Cons a ts)
  show ?case
  proof (cases "ID a = i")
    case True
    with Cons.prems show ?thesis by (intro exI [of _ "[]"] exI [of _ a] exI [of _ ts]) simp
  next
    case False
    with Cons.prems obtain r where "delete_first ts i = Some r" "ts' = a # r" by auto
    with Cons.IH obtain as t bs where
      "ts = as @ t # bs" "r = as @ bs" "ID t = i" "i \<notin> ID ` set as" by blast
    with False \<open>ts' = a # r\<close> show ?thesis
      by (intro exI [of _ "a # as"] exI [of _ t] exI [of _ bs]) auto
  qed
qed simp

lemma delete_first_subseq:
  assumes "delete_first ts i = Some ts'"
  shows "set ts' \<subseteq> set ts" and "sorted_wrt P ts \<Longrightarrow> sorted_wrt P ts'"
    and "distinct (map ID ts) \<Longrightarrow> distinct (map ID ts') \<and> ID ` set ts' = ID ` set ts - {i}"
    and "j \<noteq> i \<Longrightarrow> id_level ts' j = id_level ts j"
proof -
  from delete_first_Some [OF assms] obtain as t bs where
    *: "ts = as @ t # bs" "ts' = as @ bs" "ID t = i" by blast
  then show "set ts' \<subseteq> set ts" and "sorted_wrt P ts \<Longrightarrow> sorted_wrt P ts'"
    by (auto simp: sorted_wrt_append)
  from * show "distinct (map ID ts) \<Longrightarrow> distinct (map ID ts') \<and> ID ` set ts' = ID ` set ts - {i}"
    by (simp add: image_Un Un_Diff)
  show "id_level ts' j = id_level ts j" if "j \<noteq> i"
    using that * by (simp add: id_level_append split: option.splits)
qed

lemma deleteByID_ids:
  assumes "deleteByID ts us bypass = (ts', e)" and "distinct (map ID ts)"
  shows "distinct (map ID ts') \<and> set ts' \<subseteq> set ts \<and>
    (e = None \<longrightarrow> ID ` set ts' = ID ` set ts - ID ` set us)"
  using assms
proof (induction ts us bypass rule: deleteByID.induct)
  case (2 ts u us bypass)
  show ?case
  proof (cases "delete_first ts (ID u)")
    case None
    with 2 show ?thesis by (auto simp: delete_first_None split: if_splits)
  next
    case (Some ts1)
    note sub = delete_first_subseq [OF Some]
    from 2 Some sub(3) have "distinct (map ID ts') \<and> set ts' \<subseteq> set ts1 \<and>
        (e = None \<longrightarrow> ID ` set ts' = ID ` set ts1 - ID ` set us)" by simp
    with sub(1) sub(3) [OF 2(4)] show ?thesis by auto
  qed
qed auto

section \<open>Sorted sides\<close>

text \<open>
  What the loops need of a comparison: a strict order on the prices that are not NaN whose
  incomparable prices are the equal ones.  \<open>compare l r\<close> says that \<open>l\<close> is the worse price.
\<close>

locale price_order =
  fixes compare :: comparison
  assumes compare_trans: "compare x y \<Longrightarrow> compare y z \<Longrightarrow> compare x z"
    and compare_asym: "compare x y \<Longrightarrow> \<not> compare y x"
    and compare_not_feq: "compare x y \<Longrightarrow> \<not> feq x y"
    and compare_linear: "x \<noteq> NaN \<Longrightarrow> y \<noteq> NaN \<Longrightarrow> compare x y \<or> feq x y \<or> compare y x"
    and feq_compare: "feq x y \<Longrightarrow> compare y z \<Longrightarrow> compare x z"
    and compare_feq: "compare x y \<Longrightarrow> feq y z \<Longrightarrow> compare x z"
begin

text \<open>Strictly sorted from the best price on, and sorted up to equal prices.\<close>

definition strict :: "tranches \<Rightarrow> bool" where
  "strict ts \<longleftrightarrow> priced ts \<and> sorted_wrt (\<lambda>a b. compare (Price b) (Price a)) ts"

definition ordered :: "tranches \<Rightarrow> bool" where
  "ordered ts \<longleftrightarrow> priced ts \<and> sorted_wrt (\<lambda>a b. \<not> compare (Price a) (Price b)) ts"

lemma strict_simps [simp]:
  "strict []"
  "strict (t # ts) \<longleftrightarrow>
     Price t \<noteq> NaN \<and> (\<forall>x \<in> set ts. compare (Price x) (Price t)) \<and> strict ts"
  by (auto simp: strict_def)

lemma ordered_simps [simp]:
  "ordered []"
  "ordered (t # ts) \<longleftrightarrow>
     Price t \<noteq> NaN \<and> (\<forall>x \<in> set ts. \<not> compare (Price t) (Price x)) \<and> ordered ts"
  by (auto simp: ordered_def)

lemma strict_ordered: "strict ts \<Longrightarrow> ordered ts"
  by (induction ts) (auto dest: compare_asym)

lemma strict_iff: "strict ts \<longleftrightarrow> ordered ts \<and> sorted_wrt (\<lambda>a b. \<not> feq (Price a) (Price b)) ts"
proof
  assume "strict ts"
  then show "ordered ts \<and> sorted_wrt (\<lambda>a b. \<not> feq (Price a) (Price b)) ts"
  proof (induction ts)
    case (Cons t ts)
    then have "\<forall>x \<in> set ts. \<not> feq (Price t) (Price x)"
      using compare_not_feq feq_sym by (metis strict_simps(2))
    with Cons strict_ordered [of "t # ts"] show ?case by simp
  qed simp
next
  assume "ordered ts \<and> sorted_wrt (\<lambda>a b. \<not> feq (Price a) (Price b)) ts"
  then show "strict ts"
  proof (induction ts)
    case (Cons t ts)
    then show ?case using compare_linear [of "Price t"] by (auto simp: ordered_def priced_iff)
  qed simp
qed

lemma strict_take: "strict ts \<Longrightarrow> strict (take n ts)"
  by (auto simp: strict_def priced_iff sorted_wrt_take dest: in_set_takeD)

lemma compare_notcompare: "compare y x \<Longrightarrow> \<not> compare y z \<Longrightarrow> z \<noteq> NaN \<Longrightarrow> x \<noteq> NaN \<Longrightarrow> y \<noteq> NaN
    \<Longrightarrow> compare z x"
  using compare_linear [of z x] compare_trans compare_feq feq_sym by blast

lemma level_worse:
  assumes "\<forall>x \<in> set ts. compare (Price x) p" and "feq p q"
  shows "level ts q = None"
  using assms compare_not_feq feq_sym feq_trans unfolding level_None by blast

lemma price_step_set:
  "t \<in> set (price_step compare ts u) \<Longrightarrow>
     t = u \<or> t \<in> set ts \<or> (\<exists>x \<in> set ts. t = set_amount u x)"
  by (induction ts) (auto simp: set_amount_def split: if_splits)

lemma price_step_worse:
  assumes "\<forall>x \<in> set ts. compare (Price x) p" and "compare (Price u) p"
    and "t \<in> set (price_step compare ts u)"
  shows "compare (Price t) p"
  using price_step_set [OF assms(3)] assms(1,2) by auto

lemma price_step_strict:
  assumes "strict ts" and "Price u \<noteq> NaN"
  shows "strict (price_step compare ts u)"
  using assms
proof (induction ts)
  case (Cons t ts)
  show ?case
  proof (cases "feq (Price t) (Price u) \<or> compare (Price t) (Price u)")
    case True
    with Cons.prems show ?thesis by (auto intro: compare_trans)
  next
    case False
    with Cons.prems have "compare (Price u) (Price t)"
      using compare_linear [of "Price u" "Price t"] by (auto simp: feq_sym)
    with False Cons show ?thesis by (auto intro: price_step_worse [of ts])
  qed
qed simp

lemma price_step_level:
  assumes "strict ts" and "Price u \<noteq> NaN"
  shows "level (price_step compare ts u) p = level_update u (level ts) p"
  using assms
proof (induction ts)
  case Nil
  then show ?case by (simp add: level_update_def apply_price_def)
next
  case (Cons t ts)
  consider (eq) "feq (Price t) (Price u)" | (worse) "\<not> feq (Price t) (Price u)" "compare (Price t) (Price u)"
    | (better) "\<not> feq (Price t) (Price u)" "\<not> compare (Price t) (Price u)" by blast
  then show ?case
  proof cases
    case eq
    then have "feq (Price t) p \<longleftrightarrow> feq (Price u) p" by (metis feq_sym feq_trans)
    moreover have "feq (Price u) p \<Longrightarrow> level ts p = None"
      using Cons.prems level_worse [of ts "Price t" p] calculation by auto
    ultimately show ?thesis using eq
      by (auto simp: level_update_def apply_price_def set_amount_def)
  next
    case worse
    have "\<forall>x \<in> set (t # ts). compare (Price x) (Price u)"
      using worse Cons.prems by (auto intro: compare_trans)
    then have "feq (Price u) p \<Longrightarrow> level (t # ts) p = None" by (rule level_worse)
    with worse show ?thesis by (auto simp: level_update_def apply_price_def)
  next
    case better
    then have "feq (Price t) p \<Longrightarrow> \<not> feq (Price u) p" by (metis feq_sym feq_trans)
    with better Cons show ?thesis by (auto simp: level_update_def)
  qed
qed

lemma price_updates_strict:
  "strict ts \<Longrightarrow> priced us \<Longrightarrow> strict (price_updates compare ts us)"
  by (induction us arbitrary: ts) (auto intro: price_step_strict)

lemma level_update_cong:
  "(\<And>p. m p = m' p) \<Longrightarrow> level_update u m p = level_update u m' p"
  by (simp add: level_update_def)

lemma price_updates_level:
  assumes "strict ts" and "priced us"
  shows "level (price_updates compare ts us) = fold level_update us (level ts)"
  using assms
proof (induction us arbitrary: ts)
  case (Cons u us)
  have "level (price_step compare ts u) = level_update u (level ts)"
    using Cons.prems price_step_level by auto
  with Cons show ?case by (simp add: price_step_strict)
qed simp

text \<open>A strictly sorted side is determined by its levels.\<close>

lemma level_head:
  "strict (t # ts) \<Longrightarrow> level (t # ts) (Price t) = Some t"
  by (simp add: feq_refl)

lemma strict_level_eq:
  assumes "strict as" and "strict bs" and "\<And>p. level as p = level bs p"
  shows "as = bs"
  using assms
proof (induction as arbitrary: bs)
  case Nil
  then show ?case
  proof (cases bs)
    case (Cons b bs')
    with Nil have "level bs (Price b) = Some b" using level_head by blast
    with Nil.prems(3) [of "Price b"] show ?thesis by simp
  qed simp
next
  case (Cons a as)
  then have "level bs (Price a) = Some a" using level_head by metis
  then have a_in: "a \<in> set bs" by (simp add: level_in)
  then obtain b bs' where bs: "bs = b # bs'" by (cases bs) auto
  with Cons.prems(2,3) have "level (a # as) (Price b) = Some b" using level_head by metis
  then have b_in: "b \<in> set (a # as)" by (simp only: level_in)
  have ab: "a = b"
  proof (rule ccontr)
    assume "a \<noteq> b"
    then have "a \<in> set bs'" "b \<in> set as" using a_in b_in bs by auto
    then have "compare (Price a) (Price b)" "compare (Price b) (Price a)"
      using Cons.prems bs by auto
    then show False using compare_asym by blast
  qed
  have "level as p = level bs' p" for p
  proof (cases "feq (Price a) p")
    case True
    then show ?thesis
      using Cons.prems(1,2) bs ab level_worse [of as "Price a" p] level_worse [of bs' "Price a" p]
      by auto
  next
    case False
    then show ?thesis using Cons.prems(3) [of p] bs ab by simp
  qed
  then show ?case using Cons bs ab by simp
qed

text \<open>\<open>updateInsertByID\<close>: on an ordered side with distinct IDs an update replaces what is stored
  under its ID and puts it where its price belongs.\<close>

lemma id_step_set:
  "set (id_step compare popped ts u) \<subseteq> insert u (set ts \<union> set_amount u ` set ts)"
proof (induction ts arbitrary: popped)
  case (Cons t ts)
  show ?case
  proof (cases "delete_first (t # ts) (ID u)")
    case None
    with Cons show ?thesis by (auto simp: set_amount_def simp del: delete_first.simps)
  next
    case (Some rs)
    with Cons delete_first_subseq(1) [OF Some] show ?thesis
      by (auto simp: set_amount_def simp del: delete_first.simps)
  qed
qed simp

lemma id_step_price:
  assumes "x \<in> set (id_step compare popped ts u)"
  obtains "Price x = Price u" | t where "t \<in> set ts" "Price x = Price t"
  using id_step_set [of popped ts u] assms by auto

lemma id_step_insert:
  assumes "ID t \<noteq> ID u" and "compare (Price t) (Price u)"
  obtains rs where "id_step compare popped (t # ts) u = u # rs"
    and "rs = t # ts \<and> (popped \<or> ID u \<notin> ID ` set (t # ts)) \<or>
         \<not> popped \<and> delete_first (t # ts) (ID u) = Some rs"
proof (cases "delete_first (t # ts) (ID u)")
  case None
  then have "ID u \<notin> ID ` set (t # ts)" by (simp only: delete_first_None not_False_eq_True)
  moreover have "id_step compare popped (t # ts) u = u # t # ts"
    using None assms by (simp del: delete_first.simps)
  ultimately show ?thesis using that by blast
next
  case (Some rs)
  then have "id_step compare popped (t # ts) u = u # (if popped then t # ts else rs)"
    using assms by (simp del: delete_first.simps)
  with Some that show ?thesis by (cases popped) auto
qed

lemma id_step_ordered:
  assumes "ordered ts" and "Price u \<noteq> NaN"
  shows "ordered (id_step compare popped ts u)"
  using assms
proof (induction ts arbitrary: popped)
  case (Cons t ts)
  consider (here) "ID t = ID u" "feq (Price t) (Price u)"
    | (pop) "ID t = ID u" "\<not> feq (Price t) (Price u)"
    | (ins) "ID t \<noteq> ID u" "compare (Price t) (Price u)"
    | (go) "ID t \<noteq> ID u" "\<not> compare (Price t) (Price u)" by blast
  then show ?case
  proof cases
    case ins
    then obtain rs where rs: "id_step compare popped (t # ts) u = u # rs"
      "rs = t # ts \<or> delete_first (t # ts) (ID u) = Some rs"
      by (metis id_step_insert)
    have worse: "\<not> compare (Price u) (Price x)" if "x \<in> set (t # ts)" for x
      using that ins Cons.prems compare_trans [of "Price t" "Price u" "Price x"] compare_asym
      by auto
    have "ordered rs \<and> set rs \<subseteq> set (t # ts)"
      using rs(2) delete_first_subseq(1,2) [of "t # ts" "ID u" rs] Cons.prems
      unfolding ordered_def priced_iff by blast
    with worse Cons.prems show ?thesis unfolding rs(1) by auto
  next
    case go
    have "\<not> compare (Price t) (Price x)" if "x \<in> set (id_step compare popped ts u)" for x
      using that go Cons.prems by (auto elim!: id_step_price)
    with go Cons show ?thesis by auto
  qed (use Cons in auto)
qed simp

lemma id_step_id:
  assumes "ordered ts" and "Price u \<noteq> NaN" and "distinct (map ID ts)"
    and "popped \<Longrightarrow> ID u \<notin> ID ` set ts"
  shows "distinct (map ID (id_step compare popped ts u)) \<and>
    ID ` set (id_step compare popped ts u) = insert (ID u) (ID ` set ts) \<and>
    id_level (id_step compare popped ts u) i =
      (if i = ID u then apply_id u (id_level ts i) else id_level ts i)"
  using assms
proof (induction ts arbitrary: popped)
  case Nil
  then show ?case by (simp add: apply_id_def)
next
  case (Cons t ts)
  consider (here) "ID t = ID u" "feq (Price t) (Price u)"
    | (pop) "ID t = ID u" "\<not> feq (Price t) (Price u)"
    | (ins) "ID t \<noteq> ID u" "compare (Price t) (Price u)"
    | (go) "ID t \<noteq> ID u" "\<not> compare (Price t) (Price u)" by blast
  then show ?case
  proof cases
    case here
    with Cons.prems show ?thesis by (auto simp: apply_id_def set_amount_def)
  next
    case pop
    with Cons.prems have notin: "ID u \<notin> ID ` set ts" by auto
    then have none: "id_level ts (ID u) = None" by (simp add: id_level_None)
    show ?thesis
    proof (cases "ts = []")
      case True
      with pop show ?thesis by (auto simp: apply_id_def)
    next
      case False
      with pop notin none Cons.prems Cons.IH [of True] show ?thesis
        by (simp add: apply_id_def)
    qed
  next
    case ins
    have no_feq: "\<not> feq (Price x) (Price u)" if "x \<in> set (t # ts)" for x
    proof
      assume "feq (Price x) (Price u)"
      then have "compare (Price t) (Price x)"
        using compare_feq [OF ins(2)] feq_sym by blast
      then show False using that compare_asym Cons.prems(1) by auto
    qed
    have ap: "apply_id u (id_level (t # ts) (ID u)) = Some u"
    proof (cases "id_level (t # ts) (ID u)")
      case None
      then show ?thesis by (simp only: apply_id_def option.case)
    next
      case (Some x)
      with no_feq id_level_in [OF Some] show ?thesis
        by (simp only: apply_id_def option.case if_False)
    qed
    obtain rs where rs: "id_step compare popped (t # ts) u = u # rs"
      "rs = t # ts \<and> (popped \<or> ID u \<notin> ID ` set (t # ts)) \<or>
       \<not> popped \<and> delete_first (t # ts) (ID u) = Some rs"
      by (rule id_step_insert [OF ins, of popped ts])
    have sub: "distinct (map ID rs) \<and> ID u \<notin> ID ` set rs \<and>
        insert (ID u) (ID ` set rs) = insert (ID u) (ID ` set (t # ts)) \<and>
        (i \<noteq> ID u \<longrightarrow> id_level rs i = id_level (t # ts) i)"
      using rs(2)
    proof
      assume "rs = t # ts \<and> (popped \<or> ID u \<notin> ID ` set (t # ts))"
      with Cons.prems(3,4) show ?thesis by blast
    next
      assume "\<not> popped \<and> delete_first (t # ts) (ID u) = Some rs"
      then have d: "delete_first (t # ts) (ID u) = Some rs" by simp
      have e: "distinct (map ID rs)" "ID ` set rs = ID ` set (t # ts) - {ID u}"
        using delete_first_subseq(3) [OF d Cons.prems(3)] by blast+
      show ?thesis using e(1) delete_first_subseq(4) [OF d, of i] unfolding e(2) by blast
    qed
    then show ?thesis using ap unfolding rs(1)
      by (simp del: id_level_simps(2) add: id_level_simps(2) [of u rs])
  next
    case go
    with Cons.prems Cons.IH [of popped] show ?thesis by auto
  qed
qed

lemma updateInsertByID_inv:
  assumes "updateInsertByID ts us compare = (ts', e)"
    and "ordered ts" and "priced us" and "distinct (map ID ts)"
  shows "ordered ts' \<and> distinct (map ID ts') \<and>
    (e = None \<longrightarrow>
       id_level ts' i = fold apply_id (filter (\<lambda>u. ID u = i) us) (id_level ts i) \<and>
       ID ` set ts' = ID ` set us \<union> ID ` set ts)"
  using assms
proof (induction us arbitrary: ts)
  case (Cons u us)
  show ?case
  proof (cases "Amount u \<le> 0")
    case False
    let ?ts = "id_step compare False ts u"
    have st: "ordered ?ts" "distinct (map ID ?ts)"
      "ID ` set ?ts = insert (ID u) (ID ` set ts)"
      "id_level ?ts i = (if i = ID u then apply_id u (id_level ts i) else id_level ts i)"
      using Cons.prems id_step_ordered [of ts u False] id_step_id [of ts u False i] by auto
    with False Cons.prems Cons.IH [of ?ts] show ?thesis by auto
  qed (use Cons.prems in auto)
qed simp

text \<open>\<open>insertUpdates\<close>.\<close>

lemma insert_step_None: "insert_step compare ts u = None \<Longrightarrow> \<exists>t \<in> set ts. feq (Price t) (Price u)"
  by (induction ts) (auto split: if_splits)

lemma insert_step_Some:
  assumes "insert_step compare ts u = Some ts'" and "strict ts" and "Price u \<noteq> NaN"
  shows "mset ts' = add_mset u (mset ts) \<and> strict ts' \<and> level ts (Price u) = None"
  using assms
proof (induction ts arbitrary: ts')
  case (Cons t ts)
  consider (eq) "feq (Price t) (Price u)"
    | (worse) "\<not> feq (Price t) (Price u)" "compare (Price t) (Price u)"
    | (better) "\<not> feq (Price t) (Price u)" "\<not> compare (Price t) (Price u)" by blast
  then show ?case
  proof cases
    case worse
    have "\<forall>x \<in> set (t # ts). compare (Price x) (Price u)"
      using worse Cons.prems by (auto intro: compare_trans)
    moreover from this have "level (t # ts) (Price u) = None"
      using level_worse [of "t # ts" "Price u" "Price u"] Cons.prems by (auto simp: feq_refl)
    ultimately show ?thesis using worse Cons.prems by auto
  next
    case better
    then obtain r where r: "insert_step compare ts u = Some r" "ts' = t # r"
      using Cons.prems by auto
    with Cons have "mset r = add_mset u (mset ts) \<and> strict r \<and> level ts (Price u) = None" by auto
    moreover from this have "set r = insert u (set ts)"
      by (metis set_mset_add_mset_insert set_mset_mset)
    moreover have "compare (Price u) (Price t)"
      using better Cons.prems compare_linear [of "Price u" "Price t"] by (auto simp: feq_sym)
    ultimately show ?thesis using better r Cons.prems by auto
  qed (use Cons.prems in auto)
qed simp

lemma insertUpdates_inv:
  assumes "insertUpdates ts us compare = (ts', e)" and "strict ts" and "priced us"
  shows "strict ts' \<and> (e = None \<longrightarrow> mset ts' = mset ts + mset us)"
  using assms
proof (induction us arbitrary: ts)
  case (Cons u us)
  then show ?case
    by (cases "insert_step compare ts u") (auto dest: insert_step_Some)
qed simp

end

interpretation bid: price_order bidCompare
proof unfold_locales
  fix x y z :: f64
  show "bidCompare x y \<Longrightarrow> bidCompare y z \<Longrightarrow> bidCompare x z"
    unfolding bidCompare_def by (rule f64_less_trans)
  show "bidCompare x y \<Longrightarrow> \<not> bidCompare y x"
    unfolding bidCompare_def by (rule f64_less_asym)
  show "bidCompare x y \<Longrightarrow> \<not> feq x y"
    unfolding bidCompare_def by (rule f64_less_not_feq)
  show "x \<noteq> NaN \<Longrightarrow> y \<noteq> NaN \<Longrightarrow> bidCompare x y \<or> feq x y \<or> bidCompare y x"
    unfolding bidCompare_def by (rule f64_linear)
  show "feq x y \<Longrightarrow> bidCompare y z \<Longrightarrow> bidCompare x z"
    unfolding bidCompare_def by (rule feq_less_trans)
  show "bidCompare x y \<Longrightarrow> feq y z \<Longrightarrow> bidCompare x z"
    unfolding bidCompare_def by (rule less_feq_trans)
qed

interpretation ask: price_order askCompare
proof unfold_locales
  fix x y z :: f64
  show "askCompare x y \<Longrightarrow> askCompare y z \<Longrightarrow> askCompare x z"
    unfolding askCompare_def by (rule f64_less_trans)
  show "askCompare x y \<Longrightarrow> \<not> askCompare y x"
    unfolding askCompare_def by (rule f64_less_asym)
  show "askCompare x y \<Longrightarrow> \<not> feq x y"
    unfolding askCompare_def by (metis f64_less_not_feq feq_sym)
  show "x \<noteq> NaN \<Longrightarrow> y \<noteq> NaN \<Longrightarrow> askCompare x y \<or> feq x y \<or> askCompare y x"
    unfolding askCompare_def by (metis f64_linear)
  show "feq x y \<Longrightarrow> askCompare y z \<Longrightarrow> askCompare x z"
    unfolding askCompare_def by (metis less_feq_trans feq_sym)
  show "askCompare x y \<Longrightarrow> feq y z \<Longrightarrow> askCompare x z"
    unfolding askCompare_def by (metis feq_less_trans feq_sym)
qed

section \<open>The two sides\<close>

text \<open>Strictly sorted: best price first, no price twice.  Ordered: best price first.\<close>

definition bids_sorted :: "tranches \<Rightarrow> bool" where
  "bids_sorted ts \<longleftrightarrow> priced ts \<and> sorted_wrt (\<lambda>a b. Price b < Price a) ts"

definition asks_sorted :: "tranches \<Rightarrow> bool" where
  "asks_sorted ts \<longleftrightarrow> priced ts \<and> sorted_wrt (\<lambda>a b. Price a < Price b) ts"

definition bids_ordered :: "tranches \<Rightarrow> bool" where
  "bids_ordered ts \<longleftrightarrow> priced ts \<and> sorted_wrt (\<lambda>a b. Price b \<le> Price a) ts"

definition asks_ordered :: "tranches \<Rightarrow> bool" where
  "asks_ordered ts \<longleftrightarrow> priced ts \<and> sorted_wrt (\<lambda>a b. Price a \<le> Price b) ts"

lemma bids_sorted_strict: "bids_sorted ts = bid.strict ts"
  by (simp add: bids_sorted_def bid.strict_def bidCompare_def)

lemma asks_sorted_strict: "asks_sorted ts = ask.strict ts"
  by (simp add: asks_sorted_def ask.strict_def askCompare_def)

lemma f64_le_not_less: "(x :: f64) \<le> y \<Longrightarrow> \<not> y < x"
  using f64_le_less_trans f64_less_irrefl by blast

lemma bids_ordered_iff: "bids_ordered ts = bid.ordered ts"
  unfolding bids_ordered_def bid.ordered_def
  by (induction ts) (auto simp: bidCompare_def priced_iff f64_not_less dest: f64_le_not_less)

lemma asks_ordered_iff: "asks_ordered ts = ask.ordered ts"
  unfolding asks_ordered_def ask.ordered_def
  by (induction ts) (auto simp: askCompare_def priced_iff f64_not_less dest: f64_le_not_less)

lemmas side_defs = bids_sorted_strict asks_sorted_strict bids_ordered_iff asks_ordered_iff
lemmas side_ops =
  bids_updateInsertByPrice_def asks_updateInsertByPrice_def bids_updateInsertByID_def
  asks_updateInsertByID_def bids_insertUpdates_def asks_insertUpdates_def

lemma sorted_ordered:
  "bids_sorted ts \<Longrightarrow> bids_ordered ts" "asks_sorted ts \<Longrightarrow> asks_ordered ts"
  by (simp_all add: side_defs bid.strict_ordered ask.strict_ordered)

lemma updateInsertByPrice_0: "updateInsertByPrice ts us 0 c = price_updates c ts us"
  by (simp add: updateInsertByPrice_def)

lemma updateInsertByPrice_take:
  "updateInsertByPrice ts us n c =
     (if n = 0 then price_updates c ts us else take n (price_updates c ts us))"
  by (simp add: updateInsertByPrice_def Let_def)

lemma bids_update_sorted:
  "bids_sorted ts \<Longrightarrow> priced us \<Longrightarrow> bids_sorted (bids_updateInsertByPrice ts us n)"
  by (simp add: side_defs side_ops updateInsertByPrice_take bid.price_updates_strict bid.strict_take)

lemma asks_update_sorted:
  "asks_sorted ts \<Longrightarrow> priced us \<Longrightarrow> asks_sorted (asks_updateInsertByPrice ts us n)"
  by (simp add: side_defs side_ops updateInsertByPrice_take ask.price_updates_strict ask.strict_take)

lemma level_update_commute:
  assumes "\<not> feq (Price u) (Price v) \<or> u = v"
  shows "level_update u \<circ> level_update v = level_update v \<circ> level_update u"
proof
  fix m
  show "(level_update u \<circ> level_update v) m = (level_update v \<circ> level_update u) m"
  proof
    fix p
    have "\<not> (feq (Price u) p \<and> feq (Price v) p) \<or> u = v"
      using assms feq_sym feq_trans by blast
    then show "(level_update u \<circ> level_update v) m p = (level_update v \<circ> level_update u) m p"
      by (auto simp: level_update_def)
  qed
qed

definition apart :: "tranches \<Rightarrow> bool" where
  "apart us \<longleftrightarrow> sorted_wrt (\<lambda>u v. \<not> feq (Price u) (Price v)) us"

lemma apart_neq:
  "apart us \<Longrightarrow> u \<in> set us \<Longrightarrow> v \<in> set us \<Longrightarrow> \<not> feq (Price u) (Price v) \<or> u = v"
  by (induction us) (auto simp: apart_def feq_sym)

lemma fold_level_update_permuted:
  assumes "apart us" and "mset us = mset vs"
  shows "fold level_update us = fold level_update vs"
  by (rule fold_multiset_equiv [OF level_update_commute [OF apart_neq [OF assms(1)]] assms(2)])

lemma priced_mset: "mset us = mset vs \<Longrightarrow> priced us = priced vs"
  by (metis priced_iff mset_eq_setD)

section \<open>Properties\<close>

text \<open>C1: on a side sorted from its best price on, without repeated prices,
  \<open>updateInsertByPrice\<close> keeps that order, and the levels it leaves are those of a map from
  prices to levels to which the updates are applied one by one: an update replaces the amount at
  its price, deletes the level there if its amount is not positive, and otherwise inserts
  itself; only the best \<open>maxChainLength\<close> levels are kept when that is not 0.\<close>

theorem price_updates_refine:
  assumes "bids_sorted bids" and "asks_sorted asks" and "priced us"
  shows "bids_sorted (bids_updateInsertByPrice bids us n) \<and>
    asks_sorted (asks_updateInsertByPrice asks us n) \<and>
    level (bids_updateInsertByPrice bids us 0) = fold level_update us (level bids) \<and>
    level (asks_updateInsertByPrice asks us 0) = fold level_update us (level asks) \<and>
    bids_updateInsertByPrice bids us (Suc k) = take (Suc k) (bids_updateInsertByPrice bids us 0) \<and>
    asks_updateInsertByPrice asks us (Suc k) = take (Suc k) (asks_updateInsertByPrice asks us 0)"
  using assms bids_update_sorted asks_update_sorted
  by (simp add: side_defs side_ops updateInsertByPrice_take bid.price_updates_level
      ask.price_updates_level)

definition tr :: "int \<Rightarrow> rat \<Rightarrow> rat \<Rightarrow> tranche" where
  "tr i p a = zero_tranche\<lparr>ID := i, Price := Fin p, Amount := Fin a\<rparr>"

lemma tr_sel [simp]: "Price (tr i p a) = Fin p" "Amount (tr i p a) = Fin a" "ID (tr i p a) = i"
  by (simp_all add: tr_def)

theorem price_updates_refine_witness:
  "level (bids_updateInsertByPrice [tr 1 10 1, tr 2 9 1] [tr 0 10 0, tr 3 (19/2) 5] 0) (Fin 10) = None
   \<and> asks_sorted (asks_updateInsertByPrice [tr 1 10 1] [tr 0 9 4] 1)"
proof -
  have s: "bids_sorted [tr 1 10 1, tr 2 9 1]" "asks_sorted [tr 1 10 1]"
    by (simp_all add: bids_sorted_def asks_sorted_def f64_less_finite)
  have e: "asks_sorted []" "bids_sorted []" by (simp_all add: bids_sorted_def asks_sorted_def)
  have p: "priced [tr 0 10 0, tr 3 (19/2) 5]" "priced [tr 0 9 4]" by simp_all
  from price_updates_refine [OF s(1) e(1) p(1)] have
    "level (bids_updateInsertByPrice [tr 1 10 1, tr 2 9 1] [tr 0 10 0, tr 3 (19/2) 5] 0) (Fin 10)
      = None"
    by (simp add: f64_le_finite feq_finite level_update_def apply_price_def)
  with price_updates_refine [OF e(2) s(2) p(2), of 1] show ?thesis by blast
qed

text \<open>Also: the updates of one message whose prices are pairwise different may be
  applied in any order: the side comes out the same, element by element.\<close>

theorem updates_order:
  assumes "bids_sorted bids" and "asks_sorted asks" and "priced us" and "apart us"
    and "mset us = mset vs"
  shows "bids_updateInsertByPrice bids us n = bids_updateInsertByPrice bids vs n \<and>
    asks_updateInsertByPrice asks us n = asks_updateInsertByPrice asks vs n"
proof
  note p = assms(3) priced_mset [OF assms(5)] fold_level_update_permuted [OF assms(4,5)]
  have "price_updates bidCompare bids us = price_updates bidCompare bids vs"
    using assms(1) p by (intro bid.strict_level_eq)
      (auto simp: side_defs bid.price_updates_strict bid.price_updates_level)
  then show "bids_updateInsertByPrice bids us n = bids_updateInsertByPrice bids vs n"
    by (simp add: side_ops updateInsertByPrice_take)
  have "price_updates askCompare asks us = price_updates askCompare asks vs"
    using assms(2) p by (intro ask.strict_level_eq)
      (auto simp: side_defs ask.price_updates_strict ask.price_updates_level)
  then show "asks_updateInsertByPrice asks us n = asks_updateInsertByPrice asks vs n"
    by (simp add: side_ops updateInsertByPrice_take)
qed

theorem updates_order_witness:
  "bids_updateInsertByPrice [tr 1 10 1] [tr 2 11 3, tr 3 9 2] 1 =
   bids_updateInsertByPrice [tr 1 10 1] [tr 3 9 2, tr 2 11 3] 1"
  using updates_order [of "[tr 1 10 1]" "[]" "[tr 2 11 3, tr 3 9 2]" "[tr 3 9 2, tr 2 11 3]" 1]
  by (simp add: bids_sorted_def asks_sorted_def apart_def feq_finite)

text \<open>C2: on a side ordered by price whose IDs are distinct, \<open>updateInsertByID\<close>
  keeps both, also when it stops at an update with an amount that is not positive; when it does
  not stop, what is stored under each ID is what the updates of that ID make of it one by one
  (an update at the stored price changes the amount, any other replaces the level), and no ID is
  lost.\<close>

theorem id_updates:
  assumes "bids_ordered bids" and "distinct (map ID bids)" and "asks_ordered asks"
    and "distinct (map ID asks)" and "priced us"
    and "bids_updateInsertByID bids us = (bids', e)" and "asks_updateInsertByID asks us = (asks', e')"
  shows "bids_ordered bids' \<and> distinct (map ID bids') \<and> asks_ordered asks' \<and>
    distinct (map ID asks') \<and>
    (e = None \<longrightarrow>
       id_level bids' i = fold apply_id (filter (\<lambda>u. ID u = i) us) (id_level bids i) \<and>
       ID ` set bids' = ID ` set us \<union> ID ` set bids) \<and>
    (e' = None \<longrightarrow>
       id_level asks' i = fold apply_id (filter (\<lambda>u. ID u = i) us) (id_level asks i) \<and>
       ID ` set asks' = ID ` set us \<union> ID ` set asks)"
  using assms bid.updateInsertByID_inv [of bids us bids' e i]
    ask.updateInsertByID_inv [of asks us asks' e' i]
  by (simp add: side_defs side_ops)

theorem id_updates_witness:
  "id_level (fst (bids_updateInsertByID [tr 1 10 1, tr 2 9 1] [tr 1 8 7, tr 2 9 4])) 1
    = Some (tr 1 8 7)"
proof -
  have run: "bids_updateInsertByID [tr 1 10 1, tr 2 9 1] [tr 1 8 7, tr 2 9 4] =
      ([set_amount (tr 2 9 4) (tr 2 9 1), tr 1 8 7], None)"
    "asks_updateInsertByID [] [tr 1 8 7, tr 2 9 4] = ([tr 1 8 7, tr 2 9 4], None)"
    by (simp_all add: side_ops set_amount_def f64_le_finite f64_less_finite feq_finite bidCompare_def
        askCompare_def)
  have s: "bids_ordered [tr 1 10 1, tr 2 9 1]" "distinct (map ID [tr 1 10 1, tr 2 9 1])"
    "asks_ordered []" "distinct (map ID [])" "priced [tr 1 8 7, tr 2 9 4]"
    by (simp_all add: bids_ordered_def asks_ordered_def f64_le_finite)
  from id_updates [OF s run, of 1]
  have "id_level [set_amount (tr 2 9 4) (tr 2 9 1), tr 1 8 7] 1 =
      fold apply_id [tr 1 8 7] (Some (tr 1 10 1))" by simp
  then show ?thesis by (simp add: run apply_id_def feq_finite)
qed

text \<open>Also: \<open>insertUpdates\<close> keeps a strictly sorted side strictly sorted even when
  it stops at a collision; when it does not, the side is the old one with all the updates added
  and nothing else changed.\<close>

theorem insert_updates:
  assumes "bids_sorted bids" and "asks_sorted asks" and "priced us"
    and "bids_insertUpdates bids us = (bids', e)" and "asks_insertUpdates asks us = (asks', e')"
  shows "bids_sorted bids' \<and> asks_sorted asks' \<and>
    (e = None \<longrightarrow> mset bids' = mset bids + mset us) \<and>
    (e' = None \<longrightarrow> mset asks' = mset asks + mset us)"
  using assms bid.insertUpdates_inv [of bids us bids' e] ask.insertUpdates_inv [of asks us asks' e']
  by (simp add: side_defs side_ops)

theorem insert_updates_witness:
  "mset (fst (bids_insertUpdates [tr 1 10 1] [tr 2 11 1])) = {#tr 1 10 1, tr 2 11 1#}"
proof -
  have run: "bids_insertUpdates [tr 1 10 1] [tr 2 11 1] = ([tr 2 11 1, tr 1 10 1], None)"
    "asks_insertUpdates [] [tr 2 11 1] = ([tr 2 11 1], None)"
    by (simp_all add: side_ops f64_less_finite feq_finite bidCompare_def)
  have s: "bids_sorted [tr 1 10 1]" "asks_sorted []" "priced [tr 2 11 1]"
    by (simp_all add: bids_sorted_def asks_sorted_def)
  from insert_updates [OF s run] run show ?thesis by simp
qed

text \<open>Also: \<open>updateByID\<close> never adds, drops or moves a level and fails exactly if an
  update has an unknown ID; when it succeeds each level has been amended by the updates of its ID
  in their order.  A successful \<open>deleteByID\<close> on distinct IDs leaves exactly the other IDs.\<close>

theorem amend_and_delete:
  assumes "updateByID ts us = (ts', e)" and "distinct (map ID ts)"
    and "deleteByID ts ds bypass = (rs, None)"
  shows "map ID ts' = map ID ts \<and>
    (e = None \<longleftrightarrow> ID ` set us \<subseteq> ID ` set ts) \<and>
    (e = None \<longrightarrow> id_level ts' i =
       map_option (fold (\<lambda>u t. amend t u) (filter (\<lambda>u. ID u = i) us)) (id_level ts i)) \<and>
    set rs \<subseteq> set ts \<and> ID ` set rs = ID ` set ts - ID ` set ds"
  using updateByID_ids [OF assms(1)] updateByID_None [of ts us] updateByID_level [of ts us ts' i]
    deleteByID_ids [OF assms(3,2)] assms(1)
  by auto

theorem amend_and_delete_witness:
  "ID ` set (fst (deleteByID [tr 1 10 1, tr 2 9 1] [tr 2 0 0] False)) = {1}"
proof -
  have run: "updateByID [tr 1 10 1, tr 2 9 1] [] = ([tr 1 10 1, tr 2 9 1], None)"
    "deleteByID [tr 1 10 1, tr 2 9 1] [tr 2 0 0] False = ([tr 1 10 1], None)" by simp_all
  from amend_and_delete [OF run(1) _ run(2)] run show ?thesis by simp
qed

end
