(* ===== verification/Movement.thy ===== *)
theory Movement
  imports Tranches Go_Rounding
begin

text \<open>
  What it costs to trade through a side of the book: the second half of
  \<open>exchanges/orderbook/tranches.go\<close>.  A loop that stops early at a level is a recursion on the
  levels ahead; the variables it updates are its arguments, in the source's names.  All
  arithmetic is that of \<open>Go_Float\<close>, with the roundings the program makes.  (The Go compiler may
  fuse a multiplication and an addition on some architectures; on amd64 it does not, and the model
  follows that.)

  The lemmas show which levels a movement consumes, that the amounts reported are the sums over
  them, that no slippage beyond the limit asked for is reported, and the signs of the results.
\<close>

section \<open>Data\<close>

record movement =
  NominalPercentage :: f64
  ImpactPercentage :: f64
  SlippageCost :: f64
  StartPrice :: f64
  EndPrice :: f64
  Sold :: f64
  Purchased :: f64
  AverageOrderCost :: f64
  FullBookSideConsumed :: bool

definition zero_movement :: movement where
  "zero_movement = \<lparr>NominalPercentage = 0, ImpactPercentage = 0, SlippageCost = 0, StartPrice = 0,
     EndPrice = 0, Sold = 0, Purchased = 0, AverageOrderCost = 0, FullBookSideConsumed = False\<rparr>"

definition FullLiquidityExhaustedPercentage :: f64 where
  "FullLiquidityExhaustedPercentage = - hundred_f64"

definition errInvalidNominalSlippage :: go_error where
  "errInvalidNominalSlippage = Sentinel ''orderbook.errInvalidNominalSlippage''"
definition errInvalidImpactSlippage :: go_error where
  "errInvalidImpactSlippage = Sentinel ''orderbook.errInvalidImpactSlippage''"
definition errInvalidSlippageCannotExceed100 :: go_error where
  "errInvalidSlippageCannotExceed100 = Sentinel ''orderbook.errInvalidSlippageCannotExceed100''"
definition errBaseAmountInvalid :: go_error where
  "errBaseAmountInvalid = Sentinel ''orderbook.errBaseAmountInvalid''"
definition errInvalidReferencePrice :: go_error where
  "errInvalidReferencePrice = Sentinel ''orderbook.errInvalidReferencePrice''"
definition errQuoteAmountInvalid :: go_error where
  "errQuoteAmountInvalid = Sentinel ''orderbook.errQuoteAmountInvalid''"
definition errInvalidCost :: go_error where
  "errInvalidCost = Sentinel ''orderbook.errInvalidCost''"
definition errInvalidAmount :: go_error where
  "errInvalidAmount = Sentinel ''orderbook.errInvalidAmount''"
definition errInvalidHeadPrice :: go_error where
  "errInvalidHeadPrice = Sentinel ''orderbook.errInvalidHeadPrice''"

text \<open>\<open>common/math\<close>.\<close>

definition PercentageChange :: "f64 \<Rightarrow> f64 \<Rightarrow> f64" where
  "PercentageChange x y = (y - x) / x * hundred_f64"

section \<open>Movement by amount\<close>

definition negate_if_negative :: "f64 \<Rightarrow> f64" where
  "negate_if_negative x = (if x < 0 then x * (- 1) else x)"

definition finalizeFields ::
    "movement \<Rightarrow> f64 \<Rightarrow> f64 \<Rightarrow> f64 \<Rightarrow> f64 \<Rightarrow> bool \<Rightarrow> movement go_result" where
  "finalizeFields m cost amnt headPrice leftover swap =
     (if cost \<le> 0 then Inl errInvalidCost
      else if amnt \<le> 0 then Inl errInvalidAmount
      else if headPrice \<le> 0 then Inl errInvalidHeadPrice
      else
        let m = m\<lparr>AverageOrderCost :=
                    (if \<not> feq (StartPrice m) (EndPrice m) then cost / amnt else StartPrice m)\<rparr>;
            m = m\<lparr>NominalPercentage := PercentageChange (StartPrice m) (AverageOrderCost m)\<rparr>;
            m = m\<lparr>NominalPercentage := negate_if_negative (NominalPercentage m)\<rparr>;
            m = (if \<not> FullBookSideConsumed m \<and> feq leftover 0
                 then m\<lparr>ImpactPercentage :=
                         negate_if_negative (PercentageChange (StartPrice m) (EndPrice m))\<rparr>
                 else m\<lparr>ImpactPercentage := FullLiquidityExhaustedPercentage,
                        FullBookSideConsumed := True\<rparr>);
            m = m\<lparr>SlippageCost := cost - (headPrice * amnt)\<rparr>;
            m = m\<lparr>SlippageCost := negate_if_negative (SlippageCost m)\<rparr>;
            m = (if swap then m\<lparr>Sold := Purchased m, Purchased := Sold m\<rparr> else m)
        in Inr m)"

text \<open>After the last level consumed in full: the next price, or the end of the book.\<close>

definition end_of_tranche :: "movement \<Rightarrow> tranches \<Rightarrow> movement" where
  "end_of_tranche m ts =
     (case ts of t # _ \<Rightarrow> m\<lparr>EndPrice := Price t\<rparr> | [] \<Rightarrow> m\<lparr>FullBookSideConsumed := True\<rparr>)"

fun quotation_loop :: "tranches \<Rightarrow> movement \<Rightarrow> f64 \<Rightarrow> movement \<times> f64" where
  "quotation_loop [] m quote = (m, quote)"
| "quotation_loop (t # ts) m quote =
     (let trancheValue = Amount t * Price t; leftover = quote - trancheValue
      in if leftover < 0
         then (m\<lparr>Purchased := Purchased m + quote,
                 Sold := Sold m + quote / trancheValue * Amount t,
                 EndPrice := Price t\<rparr>, 0)
         else
           let m = m\<lparr>Purchased := Purchased m + Price t * Amount t, Sold := Sold m + Amount t\<rparr>
           in if feq leftover 0 then (end_of_tranche m ts, leftover)
              else quotation_loop ts m leftover)"

definition getMovementByQuotation :: "tranches \<Rightarrow> f64 \<Rightarrow> f64 \<Rightarrow> bool \<Rightarrow> movement go_result" where
  "getMovementByQuotation ts quote refPrice swap =
     (if quote \<le> 0 then Inl errQuoteAmountInvalid
      else if refPrice \<le> 0 then Inl errInvalidReferencePrice
      else case getHeadPriceNoLock ts of
             Inl err \<Rightarrow> Inl err
           | Inr head \<Rightarrow>
               (let (m, quote) = quotation_loop ts (zero_movement\<lparr>StartPrice := refPrice\<rparr>) quote
                in finalizeFields m (Purchased m) (Sold m) head quote swap))"

fun base_loop :: "tranches \<Rightarrow> movement \<Rightarrow> f64 \<Rightarrow> movement \<times> f64" where
  "base_loop [] m base = (m, base)"
| "base_loop (t # ts) m base =
     (let leftover = base - Amount t
      in if leftover < 0
         then (m\<lparr>Purchased := Purchased m + Price t * base,
                 Sold := Sold m + base,
                 EndPrice := Price t\<rparr>, 0)
         else
           let m = m\<lparr>Purchased := Purchased m + Price t * Amount t, Sold := Sold m + Amount t\<rparr>
           in if feq leftover 0 then (end_of_tranche m ts, leftover)
              else base_loop ts m leftover)"

definition getMovementByBase :: "tranches \<Rightarrow> f64 \<Rightarrow> f64 \<Rightarrow> bool \<Rightarrow> movement go_result" where
  "getMovementByBase ts base refPrice swap =
     (if base \<le> 0 then Inl errBaseAmountInvalid
      else if refPrice \<le> 0 then Inl errInvalidReferencePrice
      else case getHeadPriceNoLock ts of
             Inl err \<Rightarrow> Inl err
           | Inr head \<Rightarrow>
               (let (m, base) = base_loop ts (zero_movement\<lparr>StartPrice := refPrice\<rparr>) base
                in finalizeFields m (Purchased m) (Sold m) head base swap))"

section \<open>Movement by slippage\<close>

text \<open>\<open>percent *= -1\<close> unless it is zero.\<close>

definition negate_nonzero :: "f64 \<Rightarrow> f64" where
  "negate_nonzero percent = (if \<not> feq percent 0 then percent * (- 1) else percent)"

fun hit_nominal_loop ::
    "f64 \<Rightarrow> f64 \<Rightarrow> tranches \<Rightarrow> movement \<Rightarrow> f64 \<Rightarrow> f64 \<Rightarrow> movement" where
  "hit_nominal_loop slippage refPrice [] nominal cumulativeValue cumulativeAmounts =
     nominal\<lparr>FullBookSideConsumed := True\<rparr>"
| "hit_nominal_loop slippage refPrice (t # ts) nominal cumulativeValue cumulativeAmounts =
     (let totalTrancheValue = Price t * Amount t;
          currentFullValue = totalTrancheValue + cumulativeValue;
          currentTotalAmounts = cumulativeAmounts + Amount t;
          nominal = nominal\<lparr>AverageOrderCost := currentFullValue / currentTotalAmounts\<rparr>;
          percent = negate_nonzero (PercentageChange refPrice (AverageOrderCost nominal))
      in if slippage < percent
         then
           let targetCost = (1 - slippage / hundred_f64) * refPrice
           in if feq targetCost refPrice
              then nominal\<lparr>AverageOrderCost := cumulativeValue / cumulativeAmounts\<rparr>
              else
                let comparative = targetCost * cumulativeAmounts;
                    comparativeDiff = comparative - cumulativeValue;
                    trancheTargetPriceDiff = Price t - targetCost;
                    trancheAmountExpectation = comparativeDiff / trancheTargetPriceDiff;
                    nominal = nominal\<lparr>NominalPercentage := slippage,
                      Sold := cumulativeAmounts + trancheAmountExpectation,
                      Purchased := Purchased nominal + trancheAmountExpectation * Price t\<rparr>
                in nominal\<lparr>AverageOrderCost := Purchased nominal / Sold nominal,
                      EndPrice := Price t\<rparr>
         else
           let nominal = nominal\<lparr>EndPrice := Price t, NominalPercentage := percent,
                 Sold := Sold nominal + Amount t, Purchased := Purchased nominal + totalTrancheValue\<rparr>
           in if feq slippage percent then nominal\<lparr>FullBookSideConsumed := (ts = [])\<rparr>
              else hit_nominal_loop slippage refPrice ts nominal currentFullValue
                     currentTotalAmounts)"

definition hitBidsByNominalSlippage :: "tranches \<Rightarrow> f64 \<Rightarrow> f64 \<Rightarrow> movement go_result" where
  "hitBidsByNominalSlippage bids slippage refPrice =
     (if slippage < 0 then Inl errInvalidNominalSlippage
      else if slippage > hundred_f64 then Inl errInvalidSlippageCannotExceed100
      else if refPrice \<le> 0 then Inl errInvalidReferencePrice
      else if length bids = 0 then Inl errNoLiquidity
      else Inr (hit_nominal_loop slippage refPrice bids
                  (zero_movement\<lparr>StartPrice := refPrice, EndPrice := refPrice\<rparr>) 0 0))"

fun hit_impact_loop :: "f64 \<Rightarrow> f64 \<Rightarrow> tranches \<Rightarrow> movement \<Rightarrow> movement" where
  "hit_impact_loop slippage refPrice [] impact =
     impact\<lparr>FullBookSideConsumed := True, ImpactPercentage := FullLiquidityExhaustedPercentage\<rparr>"
| "hit_impact_loop slippage refPrice (t # ts) impact =
     (let percent = negate_nonzero (PercentageChange refPrice (Price t));
          impact = impact\<lparr>EndPrice := Price t, ImpactPercentage := percent\<rparr>
      in if slippage \<le> percent then impact
         else
           let impact = impact\<lparr>Sold := Sold impact + Amount t,
                 Purchased := Purchased impact + Amount t * Price t\<rparr>;
               impact = impact\<lparr>AverageOrderCost := Purchased impact / Sold impact\<rparr>
           in hit_impact_loop slippage refPrice ts impact)"

definition hitBidsByImpactSlippage :: "tranches \<Rightarrow> f64 \<Rightarrow> f64 \<Rightarrow> movement go_result" where
  "hitBidsByImpactSlippage bids slippage refPrice =
     (if slippage \<le> 0 then Inl errInvalidImpactSlippage
      else if slippage > hundred_f64 then Inl errInvalidSlippageCannotExceed100
      else if refPrice \<le> 0 then Inl errInvalidReferencePrice
      else if length bids = 0 then Inl errNoLiquidity
      else Inr (hit_impact_loop slippage refPrice bids
                  (zero_movement\<lparr>StartPrice := refPrice, EndPrice := refPrice\<rparr>)))"

fun lift_nominal_loop :: "f64 \<Rightarrow> f64 \<Rightarrow> tranches \<Rightarrow> movement \<Rightarrow> f64 \<Rightarrow> movement" where
  "lift_nominal_loop slippage refPrice [] nominal cumulativeAmounts =
     nominal\<lparr>FullBookSideConsumed := True\<rparr>"
| "lift_nominal_loop slippage refPrice (t # ts) nominal cumulativeAmounts =
     (let totalTrancheValue = Price t * Amount t;
          currentValue = totalTrancheValue + Sold nominal;
          currentAmounts = cumulativeAmounts + Amount t;
          nominal = nominal\<lparr>AverageOrderCost := currentValue / currentAmounts\<rparr>;
          percent = PercentageChange refPrice (AverageOrderCost nominal)
      in if slippage < percent
         then
           let targetCost = (1 + slippage / hundred_f64) * refPrice
           in if feq targetCost refPrice
              then nominal\<lparr>AverageOrderCost := Sold nominal / Purchased nominal\<rparr>
              else
                let comparative = targetCost * cumulativeAmounts;
                    comparativeDiff = comparative - Sold nominal;
                    trancheTargetPriceDiff = Price t - targetCost;
                    trancheAmountExpectation = comparativeDiff / trancheTargetPriceDiff;
                    nominal = nominal\<lparr>NominalPercentage := slippage,
                      Sold := Sold nominal + trancheAmountExpectation * Price t,
                      Purchased := Purchased nominal + trancheAmountExpectation\<rparr>
                in nominal\<lparr>AverageOrderCost := Sold nominal / Purchased nominal,
                      EndPrice := Price t\<rparr>
         else
           let nominal = nominal\<lparr>EndPrice := Price t, Sold := currentValue,
                 Purchased := Purchased nominal + Amount t, NominalPercentage := percent\<rparr>
           in if feq slippage percent then nominal
              else lift_nominal_loop slippage refPrice ts nominal currentAmounts)"

definition liftAsksByNominalSlippage :: "tranches \<Rightarrow> f64 \<Rightarrow> f64 \<Rightarrow> movement go_result" where
  "liftAsksByNominalSlippage asks slippage refPrice =
     (if slippage < 0 then Inl errInvalidNominalSlippage
      else if refPrice \<le> 0 then Inl errInvalidReferencePrice
      else if length asks = 0 then Inl errNoLiquidity
      else Inr (lift_nominal_loop slippage refPrice asks
                  (zero_movement\<lparr>StartPrice := refPrice, EndPrice := refPrice\<rparr>) 0))"

fun lift_impact_loop :: "f64 \<Rightarrow> f64 \<Rightarrow> tranches \<Rightarrow> movement \<Rightarrow> movement" where
  "lift_impact_loop slippage refPrice [] impact =
     impact\<lparr>FullBookSideConsumed := True, ImpactPercentage := FullLiquidityExhaustedPercentage\<rparr>"
| "lift_impact_loop slippage refPrice (t # ts) impact =
     (let percent = PercentageChange refPrice (Price t);
          impact = impact\<lparr>ImpactPercentage := percent, EndPrice := Price t\<rparr>
      in if slippage \<le> percent then impact
         else
           let impact = impact\<lparr>Sold := Sold impact + Amount t * Price t,
                 Purchased := Purchased impact + Amount t\<rparr>;
               impact = impact\<lparr>AverageOrderCost := Sold impact / Purchased impact\<rparr>
           in lift_impact_loop slippage refPrice ts impact)"

definition liftAsksByImpactSlippage :: "tranches \<Rightarrow> f64 \<Rightarrow> f64 \<Rightarrow> movement go_result" where
  "liftAsksByImpactSlippage asks slippage refPrice =
     (if slippage \<le> 0 then Inl errInvalidImpactSlippage
      else if refPrice \<le> 0 then Inl errInvalidReferencePrice
      else if length asks = 0 then Inl errNoLiquidity
      else Inr (lift_impact_loop slippage refPrice asks
                  (zero_movement\<lparr>StartPrice := refPrice, EndPrice := refPrice\<rparr>)))"

section \<open>Signs and limits\<close>

lemma fneg_one: "(- 1 :: f64) = Fin (- 1)"
  by (simp add: uminus_f64_def one_f64_def)

lemma fmul_neg_one: "x \<noteq> NaN \<Longrightarrow> x < 0 \<Longrightarrow> \<not> x * (- 1) < 0"
proof (cases x)
  case (Inf s)
  then show "x < 0 \<Longrightarrow> \<not> x * (- 1) < 0"
    by (simp add: f64_order_defs f64_arith_defs Let_def)
next
  case (Fin q)
  show "x < 0 \<Longrightarrow> \<not> x * (- 1) < 0"
  proof -
    assume "x < 0"
    then have "q < 0" using Fin by (simp add: f64_less_finite)
    then have "x * (- 1) = fround False (- q)"
      using Fin fmul_finite [of x "Fin (- 1)"] by (simp add: fneg_one)
    moreover have "0 \<le> fround False (- q)" using \<open>q < 0\<close> by (intro fround_nonneg) simp
    ultimately show ?thesis using f64_le_not_less by simp
  qed
qed (simp_all add: f64_less_finite)

lemma negate_if_negative_nonneg: "\<not> negate_if_negative x < 0"
  using fmul_neg_one [of x] f64_less_notnan(1) [of x 0] by (auto simp: negate_if_negative_def)

lemma finalizeFields_Inr:
  assumes "finalizeFields m cost amnt head leftover swap = Inr m'"
  shows "\<not> NominalPercentage m' < 0 \<and> \<not> SlippageCost m' < 0 \<and>
    StartPrice m' = StartPrice m \<and> EndPrice m' = EndPrice m \<and>
    (Sold m', Purchased m') = (if swap then (Purchased m, Sold m) else (Sold m, Purchased m)) \<and>
    FullBookSideConsumed m' = (FullBookSideConsumed m \<or> \<not> feq leftover 0) \<and>
    (if FullBookSideConsumed m' then ImpactPercentage m' = FullLiquidityExhaustedPercentage
     else \<not> ImpactPercentage m' < 0)"
  using assms
  by (auto simp: finalizeFields_def Let_def negate_if_negative_nonneg split: if_splits)

text \<open>No nominal slippage beyond the limit.\<close>

lemma hit_nominal_limit:
  "\<not> slippage < NominalPercentage m \<Longrightarrow>
     \<not> slippage < NominalPercentage (hit_nominal_loop slippage refPrice ts m v a)"
  by (induction slippage refPrice ts m v a rule: hit_nominal_loop.induct) (auto simp: Let_def)

lemma lift_nominal_limit:
  "\<not> slippage < NominalPercentage m \<Longrightarrow>
     \<not> slippage < NominalPercentage (lift_nominal_loop slippage refPrice ts m a)"
  by (induction slippage refPrice ts m a rule: lift_nominal_loop.induct) (auto simp: Let_def)

text \<open>Impact: the levels whose price stays within the limit, and the amounts in front.\<close>

definition hit_impact :: "f64 \<Rightarrow> tranche \<Rightarrow> f64" where
  "hit_impact refPrice t = negate_nonzero (PercentageChange refPrice (Price t))"

definition lift_impact :: "f64 \<Rightarrow> tranche \<Rightarrow> f64" where
  "lift_impact refPrice t = PercentageChange refPrice (Price t)"

fun levels_within :: "(tranche \<Rightarrow> f64) \<Rightarrow> f64 \<Rightarrow> tranches \<Rightarrow> tranches" where
  "levels_within impact slippage [] = []"
| "levels_within impact slippage (t # ts) =
     (if slippage \<le> impact t then [] else t # levels_within impact slippage ts)"

lemma hit_impact_loop_sums:
  defines "totals m ts \<equiv> foldl (\<lambda>(s, p) t. (s + Amount t, p + Amount t * Price t))
      (Sold m, Purchased m) ts"
  shows "(Sold (hit_impact_loop slippage refPrice ts m),
          Purchased (hit_impact_loop slippage refPrice ts m)) =
    totals m (levels_within (hit_impact refPrice) slippage ts)"
  unfolding totals_def
  by (induction slippage refPrice ts m rule: hit_impact_loop.induct)
    (auto simp: Let_def hit_impact_def)

lemma hit_impact_loop_end:
  "let w = levels_within (hit_impact refPrice) slippage ts; m' = hit_impact_loop slippage refPrice ts m
   in case drop (length w) ts of
        [] \<Rightarrow> FullBookSideConsumed m' \<and> ImpactPercentage m' = FullLiquidityExhaustedPercentage
      | t # _ \<Rightarrow> FullBookSideConsumed m' = FullBookSideConsumed m \<and> EndPrice m' = Price t \<and>
          ImpactPercentage m' = hit_impact refPrice t \<and> slippage \<le> hit_impact refPrice t"
  by (induction slippage refPrice ts m rule: hit_impact_loop.induct)
    (auto simp: Let_def hit_impact_def split: list.splits)

lemma lift_impact_loop_sums:
  defines "totals m ts \<equiv> foldl (\<lambda>(s, p) t. (s + Amount t * Price t, p + Amount t))
      (Sold m, Purchased m) ts"
  shows "(Sold (lift_impact_loop slippage refPrice ts m),
          Purchased (lift_impact_loop slippage refPrice ts m)) =
    totals m (levels_within (lift_impact refPrice) slippage ts)"
  unfolding totals_def
  by (induction slippage refPrice ts m rule: lift_impact_loop.induct)
    (auto simp: Let_def lift_impact_def)

lemma lift_impact_loop_end:
  "let w = levels_within (lift_impact refPrice) slippage ts; m' = lift_impact_loop slippage refPrice ts m
   in case drop (length w) ts of
        [] \<Rightarrow> FullBookSideConsumed m' \<and> ImpactPercentage m' = FullLiquidityExhaustedPercentage
      | t # _ \<Rightarrow> FullBookSideConsumed m' = FullBookSideConsumed m \<and> EndPrice m' = Price t \<and>
          ImpactPercentage m' = lift_impact refPrice t \<and> slippage \<le> lift_impact refPrice t"
  by (induction slippage refPrice ts m rule: lift_impact_loop.induct)
    (auto simp: Let_def lift_impact_def split: list.splits)

section \<open>Whole-number books\<close>

text \<open>A book whose prices and amounts are whole numbers, as pairs of price and amount; the
  exact cost of \<open>b\<close> units, the value of the book, and the price the next unit is at.\<close>

type_synonym whole_book = "(nat \<times> nat) list"

definition whole_tranche :: "tranche \<Rightarrow> nat \<times> nat \<Rightarrow> bool" where
  "whole_tranche t pa \<longleftrightarrow> Price t = whole (fst pa) \<and> Amount t = whole (snd pa)"

fun cost_of :: "whole_book \<Rightarrow> nat \<Rightarrow> nat" where
  "cost_of [] b = 0"
| "cost_of ((p, a) # ps) b = (if b < a then p * b else p * a + cost_of ps (b - a))"

fun next_price :: "whole_book \<Rightarrow> nat \<Rightarrow> nat" where
  "next_price [] b = 0"
| "next_price ((p, a) # ps) b = (if b < a then p else next_price ps (b - a))"

definition depth_of :: "whole_book \<Rightarrow> nat" where
  "depth_of ps = sum_list (map snd ps)"

definition value_of :: "whole_book \<Rightarrow> nat" where
  "value_of ps = sum_list (map (\<lambda>(p, a). p * a) ps)"

lemma depth_value_simps [simp]:
  "depth_of [] = 0" "depth_of (pa # ps) = snd pa + depth_of ps"
  "value_of [] = 0" "value_of (pa # ps) = fst pa * snd pa + value_of ps"
  by (simp_all add: depth_of_def value_of_def case_prod_unfold)

lemma cost_of_le: "cost_of ps b \<le> value_of ps"
proof (induction ps b rule: cost_of.induct)
  case (2 p a ps b)
  have "b < a \<Longrightarrow> p * b \<le> p * a" by simp
  with 2 show ?case by (auto intro: le_trans trans_le_add1)
qed simp

lemma cost_of_0 [simp]: "cost_of ps 0 = 0"
  by (induction ps) auto

lemma cost_of_pos:
  "0 < b \<Longrightarrow> ps \<noteq> [] \<Longrightarrow> list_all (\<lambda>pa. 0 < fst pa \<and> 0 < snd pa) ps \<Longrightarrow> 0 < cost_of ps b"
  by (cases ps) auto

lemma cost_of_depth: "depth_of ps \<le> b \<Longrightarrow> cost_of ps b = value_of ps"
  by (induction ps b rule: cost_of.induct) auto

lemma base_loop_whole:
  assumes "list_all2 whole_tranche ts ps" and "list_all (\<lambda>pa. 0 < snd pa) ps"
    and "Sold m = whole s" and "Purchased m = whole q" and "\<not> FullBookSideConsumed m"
    and "0 < b" and "s + b \<le> 2 ^ 53" and "depth_of ps \<le> 2 ^ 53" and "q + value_of ps \<le> 2 ^ 53"
  shows "\<exists>m' l. base_loop ts m (whole b) = (m', l) \<and>
    Sold m' = whole (s + min b (depth_of ps)) \<and> Purchased m' = whole (q + cost_of ps b) \<and>
    StartPrice m' = StartPrice m \<and>
    (FullBookSideConsumed m' \<or> \<not> feq l 0 \<longleftrightarrow> depth_of ps \<le> b) \<and>
    (b < depth_of ps \<longrightarrow> EndPrice m' = whole (next_price ps b))"
  using assms
proof (induction ts arbitrary: ps m s q b)
  case Nil
  then show ?case by simp
next
  case (Cons t ts)
  then obtain p a ps' where ps: "ps = (p, a) # ps'" "list_all2 whole_tranche ts ps'"
    and t: "whole_tranche t (p, a)"
    by (cases ps) auto
  have pa: "Price t = whole p" "Amount t = whole a" "0 < a"
    using t Cons.prems(2) ps(1) by (simp_all add: whole_tranche_def)
  have ab: "a \<le> 2 ^ 53" "b \<le> 2 ^ 53" "q + p * a \<le> 2 ^ 53" using Cons.prems ps by auto
  show ?case
  proof (cases "b < a")
    case True
    then have "p * b \<le> p * a" by simp
    then have "q + p * b \<le> 2 ^ 53" using ab by linarith
    with True pa ab Cons.prems show ?thesis
      by (simp add: ps whole_sub_less whole_mul whole_add feq_refl)
  next
    case False
    let ?m = "m\<lparr>Purchased := Purchased m + Price t * Amount t, Sold := Sold m + Amount t\<rparr>"
    have m: "Sold ?m = whole (s + a)" "Purchased ?m = whole (q + p * a)"
      "\<not> FullBookSideConsumed ?m"
      using False pa ab Cons.prems by (simp_all add: whole_add whole_mul)
    have sub: "whole b - whole a = whole (b - a)" using False ab by (simp add: whole_sub)
    show ?thesis
    proof (cases "b = a")
      case True
      have "base_loop (t # ts) m (whole b) = (end_of_tranche ?m ts, whole 0)"
        using True pa sub by (simp add: Let_def)
      moreover have "ts = [] \<Longrightarrow> ps' = []" using ps(2) by simp
      moreover have "ts \<noteq> [] \<Longrightarrow> 0 < depth_of ps' \<and> Price (hd ts) = whole (next_price ps' 0)"
        using ps Cons.prems(2) by (cases ts; cases ps') (auto simp: whole_tranche_def)
      ultimately show ?thesis using True m ps(1)
        by (cases ts) (auto simp: end_of_tranche_def)
    next
      case neq: False
      have "base_loop (t # ts) m (whole b) = base_loop ts ?m (whole (b - a))"
        using neq False pa sub by (simp add: Let_def)
      moreover have "\<exists>m' l. base_loop ts ?m (whole (b - a)) = (m', l) \<and>
          Sold m' = whole (s + a + min (b - a) (depth_of ps')) \<and>
          Purchased m' = whole (q + p * a + cost_of ps' (b - a)) \<and>
          StartPrice m' = StartPrice ?m \<and>
          (FullBookSideConsumed m' \<or> \<not> feq l 0 \<longleftrightarrow> depth_of ps' \<le> b - a) \<and>
          (b - a < depth_of ps' \<longrightarrow> EndPrice m' = whole (next_price ps' (b - a)))"
        by (rule Cons.IH [OF ps(2) _ m]) (use neq False Cons.prems ps(1) in auto)
      moreover have "s + a + min (b - a) (depth_of ps') = s + min b (depth_of ps)"
        using False ps(1) by simp
      ultimately show ?thesis using False ps(1)
        by (auto simp: add.assoc simp del: base_loop.simps)
    qed
  qed
qed

lemma getMovementByBase_whole:
  assumes "list_all2 whole_tranche ts ps" and "ps \<noteq> []"
    and "list_all (\<lambda>pa. 0 < fst pa \<and> 0 < snd pa) ps"
    and "0 < b" and "0 < r" and "b \<le> 2 ^ 53" and "depth_of ps \<le> 2 ^ 53" and "value_of ps \<le> 2 ^ 53"
  shows "\<exists>m. getMovementByBase ts (whole b) (whole r) swap = Inr m \<and>
    (Sold m, Purchased m) =
      (if swap then (whole (cost_of ps b), whole (min b (depth_of ps)))
       else (whole (min b (depth_of ps)), whole (cost_of ps b))) \<and>
    FullBookSideConsumed m = (depth_of ps \<le> b) \<and>
    (b < depth_of ps \<longrightarrow> EndPrice m = whole (next_price ps b))"
proof -
  let ?m = "zero_movement\<lparr>StartPrice := whole r\<rparr>"
  obtain p a ps' where ps: "ps = (p, a) # ps'" using assms(2) by (cases ps) auto
  then obtain t ts' where ts: "ts = t # ts'" "Price t = whole p"
    using assms(1) by (cases ts) (auto simp: whole_tranche_def)
  have pos: "list_all (\<lambda>pa. 0 < snd pa) ps" using assms(3) by (simp add: list_all_iff)
  have "\<exists>m' l. base_loop ts ?m (whole b) = (m', l) \<and>
      Sold m' = whole (0 + min b (depth_of ps)) \<and> Purchased m' = whole (0 + cost_of ps b) \<and>
      StartPrice m' = StartPrice ?m \<and>
      (FullBookSideConsumed m' \<or> \<not> feq l 0 \<longleftrightarrow> depth_of ps \<le> b) \<and>
      (b < depth_of ps \<longrightarrow> EndPrice m' = whole (next_price ps b))"
    by (rule base_loop_whole [OF assms(1) pos]) (use assms in \<open>simp_all add: zero_movement_def whole_0\<close>)
  then obtain m l where loop: "base_loop ts ?m (whole b) = (m, l)"
    and m: "Sold m = whole (min b (depth_of ps))" "Purchased m = whole (cost_of ps b)"
      "FullBookSideConsumed m \<or> \<not> feq l 0 \<longleftrightarrow> depth_of ps \<le> b"
      "b < depth_of ps \<longrightarrow> EndPrice m = whole (next_price ps b)" by auto
  have "0 < cost_of ps b" by (rule cost_of_pos) (use assms in auto)
  moreover have "0 < min b (depth_of ps)" "0 < p" using assms(3,4) ps by auto
  ultimately obtain m' where fin: "finalizeFields m (Purchased m) (Sold m) (whole p) l swap = Inr m'"
    using m(1,2) by (auto simp: finalizeFields_def Let_def)
  then have "getMovementByBase ts (whole b) (whole r) swap = Inr m'"
    using loop assms(4,5) ts by (simp add: getMovementByBase_def getHeadPriceNoLock_def)
  with finalizeFields_Inr [OF fin] m show ?thesis by auto
qed

section \<open>Properties\<close>

text \<open>C33: on a book of whole prices and amounts whose value fits a float's
  mantissa, moving \<open>b\<close> units is computed exactly: the amount moved is \<open>b\<close>, or the whole depth if
  that is less, the money moved is the exact cost of these units level by level, the book is
  reported as consumed exactly if \<open>b\<close> reaches its depth, and otherwise the end price is the price
  the next unit is at.\<close>

theorem movement_whole:
  assumes "list_all2 whole_tranche ts ps" and "ps \<noteq> []"
    and "list_all (\<lambda>pa. 0 < fst pa \<and> 0 < snd pa) ps"
    and "0 < b" and "0 < r" and "b \<le> 2 ^ 53" and "depth_of ps \<le> 2 ^ 53" and "value_of ps \<le> 2 ^ 53"
  shows "\<exists>m. getMovementByBase ts (whole b) (whole r) swap = Inr m \<and>
    (Sold m, Purchased m) =
      (if swap then (whole (cost_of ps b), whole (min b (depth_of ps)))
       else (whole (min b (depth_of ps)), whole (cost_of ps b))) \<and>
    FullBookSideConsumed m = (depth_of ps \<le> b) \<and>
    (b < depth_of ps \<longrightarrow> EndPrice m = whole (next_price ps b))"
  by (rule getMovementByBase_whole [OF assms])

theorem movement_whole_witness:
  "\<exists>m. getMovementByBase [tr 1 100 1, tr 2 90 2, tr 3 80 5] (whole 2) (whole 100) False = Inr m \<and>
     Sold m = whole 2 \<and> Purchased m = whole 190 \<and> EndPrice m = whole 90"
proof -
  have "list_all2 whole_tranche [tr 1 100 1, tr 2 90 2, tr 3 80 5] [(100, 1), (90, 2), (80, 5)]"
    by (simp add: whole_tranche_def whole_def)
  from movement_whole [OF this, of 2 100 False] show ?thesis by (auto simp: min_def)
qed

text \<open>Also: a movement that is returned has no negative nominal slippage and no
  negative slippage cost, and its impact is \<open>-100\<close> exactly where it is flagged as having consumed
  the side, and not negative otherwise.\<close>

theorem movement_signs:
  assumes "getMovementByQuotation ts quote refPrice swap = Inr m \<or>
    getMovementByBase ts base refPrice swap = Inr m"
  shows "\<not> NominalPercentage m < 0 \<and> \<not> SlippageCost m < 0 \<and> StartPrice m = refPrice \<and>
    (if FullBookSideConsumed m then ImpactPercentage m = FullLiquidityExhaustedPercentage
     else \<not> ImpactPercentage m < 0)"
proof -
  have q: "StartPrice (fst (quotation_loop ts m0 q)) = StartPrice m0" for m0 q
    by (induction ts m0 q rule: quotation_loop.induct)
      (auto simp: Let_def end_of_tranche_def split: list.splits)
  have b: "StartPrice (fst (base_loop ts m0 q)) = StartPrice m0" for m0 q
    by (induction ts m0 q rule: base_loop.induct)
      (auto simp: Let_def end_of_tranche_def split: list.splits)
  obtain m0 cost amnt head leftover where
    "finalizeFields m0 cost amnt head leftover swap = Inr m" "StartPrice m0 = refPrice"
    using assms q [of "zero_movement\<lparr>StartPrice := refPrice\<rparr>" quote]
      b [of "zero_movement\<lparr>StartPrice := refPrice\<rparr>" base]
    by (auto simp: getMovementByQuotation_def getMovementByBase_def case_prod_unfold Let_def
        split: if_splits sum.splits)
  with finalizeFields_Inr show ?thesis by blast
qed

theorem movement_signs_witness:
  "\<exists>m. getMovementByBase [tr 1 100 1] (whole 1) (whole 100) True = Inr m \<and>
     \<not> SlippageCost m < 0 \<and> \<not> NominalPercentage m < 0"
proof -
  have "list_all2 whole_tranche [tr 1 100 1] [(100, 1)]" by (simp add: whole_tranche_def whole_def)
  from getMovementByBase_whole [OF this, of 1 100 True] obtain m where
    "getMovementByBase [tr 1 100 1] (whole 1) (whole 100) True = Inr m" by auto
  with movement_signs [of "[tr 1 100 1]" 0 "whole 100" True m "whole 1"] show ?thesis by blast
qed

text \<open>Also: neither hitting the bids nor lifting the asks by nominal slippage reports
  more than the slippage asked for; by impact slippage each consumes exactly the levels in front
  of the first one whose price is off by the limit or more, sums amount and money over these
  levels, and reports that level's price and impact, or the end of the book if there is none.\<close>

theorem slippage_limits:
  "(case hitBidsByNominalSlippage ts slippage ref of
      Inr m \<Rightarrow> \<not> slippage < NominalPercentage m | Inl _ \<Rightarrow> True) \<and>
   (case liftAsksByNominalSlippage ts slippage ref of
      Inr m \<Rightarrow> \<not> slippage < NominalPercentage m | Inl _ \<Rightarrow> True) \<and>
   (case hitBidsByImpactSlippage ts slippage ref of
      Inl _ \<Rightarrow> True
    | Inr m \<Rightarrow>
        let w = levels_within (hit_impact ref) slippage ts
        in (Sold m, Purchased m) =
             foldl (\<lambda>(s, p) t. (s + Amount t, p + Amount t * Price t)) (0, 0) w \<and>
           (case drop (length w) ts of
              [] \<Rightarrow> FullBookSideConsumed m
            | t # _ \<Rightarrow> \<not> FullBookSideConsumed m \<and> EndPrice m = Price t \<and>
                ImpactPercentage m = hit_impact ref t \<and> slippage \<le> hit_impact ref t)) \<and>
   (case liftAsksByImpactSlippage ts slippage ref of
      Inl _ \<Rightarrow> True
    | Inr m \<Rightarrow>
        let w = levels_within (lift_impact ref) slippage ts
        in (Sold m, Purchased m) =
             foldl (\<lambda>(s, p) t. (s + Amount t * Price t, p + Amount t)) (0, 0) w \<and>
           (case drop (length w) ts of
              [] \<Rightarrow> FullBookSideConsumed m
            | t # _ \<Rightarrow> \<not> FullBookSideConsumed m \<and> EndPrice m = Price t \<and>
                ImpactPercentage m = lift_impact ref t \<and> slippage \<le> lift_impact ref t))"
proof (intro conjI)
  let ?z = "zero_movement\<lparr>StartPrice := ref, EndPrice := ref\<rparr>"
  show "case hitBidsByNominalSlippage ts slippage ref of
      Inr m \<Rightarrow> \<not> slippage < NominalPercentage m | Inl _ \<Rightarrow> True"
    using hit_nominal_limit [of slippage ?z ref ts 0 0]
    by (auto simp: hitBidsByNominalSlippage_def zero_movement_def)
  show "case liftAsksByNominalSlippage ts slippage ref of
      Inr m \<Rightarrow> \<not> slippage < NominalPercentage m | Inl _ \<Rightarrow> True"
    using lift_nominal_limit [of slippage ?z ref ts 0]
    by (auto simp: liftAsksByNominalSlippage_def zero_movement_def)
qed (use hit_impact_loop_sums [of slippage ref ts "zero_movement\<lparr>StartPrice := ref, EndPrice := ref\<rparr>"]
      hit_impact_loop_end [of ref slippage ts "zero_movement\<lparr>StartPrice := ref, EndPrice := ref\<rparr>"]
      lift_impact_loop_sums [of slippage ref ts "zero_movement\<lparr>StartPrice := ref, EndPrice := ref\<rparr>"]
      lift_impact_loop_end [of ref slippage ts "zero_movement\<lparr>StartPrice := ref, EndPrice := ref\<rparr>"]
    in \<open>auto simp: hitBidsByImpactSlippage_def liftAsksByImpactSlippage_def zero_movement_def Let_def
          split: list.splits\<close>)

text \<open>When the limit is met exactly by the last level of the side, hitting the bids reports the
  side as consumed and lifting the asks does not.\<close>

lemma nominal_asymmetry:
  "(\<exists>m. hitBidsByNominalSlippage [tr 1 100 1] 0 (whole 100) = Inr m \<and> FullBookSideConsumed m) \<and>
   (\<exists>m. liftAsksByNominalSlippage [tr 1 100 1] 0 (whole 100) = Inr m \<and>
      \<not> FullBookSideConsumed m)"
proof -
  have t: "Price (tr 1 100 1) = whole 100" "Amount (tr 1 100 1) = whole 1"
    by (simp_all add: whole_def)
  show ?thesis
    by (simp add: hitBidsByNominalSlippage_def liftAsksByNominalSlippage_def t PercentageChange_def
        hundred_whole whole_0 whole_mul whole_add whole_sub whole_div zero_movement_def Let_def
        negate_nonzero_def del: tr_sel)
qed

end
