(* ===== verification/Depth.thy ===== *)
theory Depth
  imports Movement Common_Errors Currency_Pair Asset
begin

text \<open>
  One order book with its validity: \<open>exchanges/orderbook/depth.go\<close> and the types of
  \<open>orderbook_types.go\<close>.  A \<open>Depth\<close> is a record of the two sides, the options and the validation
  error; a method that changes it returns the new record, the ones that read the clock take
  \<open>now\<close>.  The mutex makes every method one step.  \<open>alerts\<close> counts the calls of \<open>Notice.Alert\<close>
  (the notice itself is modelled in \<open>Alert\<close>).  A pointer result that is nil exactly on an error is
  the \<open>Inr\<close> of a sum.

  The lemmas show that a book that failed an update is empty and untrusted until the next snapshot
  and that every reading method says so; that all the operations by price keep the two sides
  sorted; and what the spread, mid price and imbalance of a book are.
\<close>

section \<open>Data\<close>

type_synonym uuid = "128 word"

record book =
  bk_Bids :: tranches
  bk_Asks :: tranches
  bk_Exchange :: string
  bk_Pair :: pair
  bk_Asset :: asset_item
  bk_LastUpdated :: time
  bk_UpdatePushedAt :: time
  bk_InsertedAt :: time
  bk_LastUpdateID :: int
  bk_PriceDuplication :: bool
  bk_IsFundingRate :: bool
  bk_VerifyOrderbook :: bool
  bk_RestSnapshot :: bool
  bk_IDAlignment :: bool
  bk_MaxDepth :: nat
  bk_ChecksumStringRequired :: bool

record options =
  exchange :: string
  opt_pair :: pair
  opt_asset :: asset_item
  lastUpdated :: time
  updatePushedAt :: time
  insertedAt :: time
  lastUpdateID :: int
  priceDuplication :: bool
  isFundingRate :: bool
  verifyOrderbook :: bool
  restSnapshot :: bool
  idAligned :: bool
  checksumStringRequired :: bool
  maxDepth :: nat

definition zero_options :: options where
  "zero_options = \<lparr>exchange = [], opt_pair = EMPTYPAIR, opt_asset = Empty, lastUpdated = 0,
     updatePushedAt = 0, insertedAt = 0, lastUpdateID = 0, priceDuplication = False,
     isFundingRate = False, verifyOrderbook = False, restSnapshot = False, idAligned = False,
     checksumStringRequired = False, maxDepth = 0\<rparr>"

type_synonym update_action = "8 word"

definition Amend :: update_action where "Amend = 1"
definition Delete :: update_action where "Delete = 2"
definition Insert :: update_action where "Insert = 3"
definition UpdateInsert :: update_action where "UpdateInsert = 4"

record update =
  UpdateID :: int
  UpdateTime :: time
  UpdatePushedAt :: time
  upd_Asset :: asset_item
  Action :: update_action
  Bids :: tranches
  Asks :: tranches
  upd_Pair :: pair
  Checksum :: "32 word"

record depth =
  askTranches :: tranches
  bidTranches :: tranches
  alerts :: nat
  depth_ID :: uuid
  opts :: options
  validationError :: "go_error option"

definition ErrOrderbookInvalid :: go_error where
  "ErrOrderbookInvalid = Sentinel ''orderbook.ErrOrderbookInvalid''"
definition ErrInvalidAction :: go_error where
  "ErrInvalidAction = Sentinel ''orderbook.ErrInvalidAction''"
definition errLastUpdatedNotSet :: go_error where
  "errLastUpdatedNotSet = Sentinel ''orderbook.errLastUpdatedNotSet''"
definition errInvalidBookDepth :: go_error where
  "errInvalidBookDepth = Sentinel ''orderbook.errInvalidBookDepth''"

section \<open>Operations\<close>

definition NewDepth :: "uuid \<Rightarrow> depth" where
  "NewDepth i = \<lparr>askTranches = [], bidTranches = [], alerts = 0, depth_ID = i, opts = zero_options,
     validationError = None\<rparr>"

definition Alert :: "depth \<Rightarrow> depth" where
  "Alert d = d\<lparr>alerts := alerts d + 1\<rparr>"

definition LoadSnapshot ::
    "time \<Rightarrow> depth \<Rightarrow> tranches \<Rightarrow> tranches \<Rightarrow> int \<Rightarrow> time \<Rightarrow> time \<Rightarrow> bool \<Rightarrow> depth \<times> go_error option"
  where
  "LoadSnapshot now d bids asks updateID updated pushedAt updateByREST =
     (if IsZero updated then (d, Some (Errorf ''%s %s %s %w'' [errLastUpdatedNotSet]))
      else
        let d = d\<lparr>opts := (opts d)\<lparr>lastUpdateID := updateID, lastUpdated := updated,
                   updatePushedAt := pushedAt, insertedAt := now, restSnapshot := updateByREST\<rparr>\<rparr>;
            d = d\<lparr>bidTranches := load (bidTranches d) bids\<rparr>;
            d = d\<lparr>askTranches := load (askTranches d) asks\<rparr>;
            d = d\<lparr>validationError := None\<rparr>
        in (Alert d, None))"

definition invalidate :: "depth \<Rightarrow> go_error option \<Rightarrow> depth \<times> go_error option" where
  "invalidate d withReason =
     (let d = d\<lparr>opts := (opts d)\<lparr>lastUpdateID := 0, lastUpdated := 0\<rparr>\<rparr>;
          d = d\<lparr>bidTranches := load (bidTranches d) []\<rparr>;
          d = d\<lparr>askTranches := load (askTranches d) []\<rparr>;
          d = d\<lparr>validationError := Some (Errorf ''%s %s %s Reason: [%w]''
                  (case AppendError (Some ErrOrderbookInvalid) withReason of
                     Some e \<Rightarrow> [e] | None \<Rightarrow> []))\<rparr>;
          d = Alert d
      in (d, validationError d))"

definition Invalidate :: "depth \<Rightarrow> go_error option \<Rightarrow> depth \<times> go_error option" where
  "Invalidate d withReason = invalidate d withReason"

definition depth_IsValid :: "depth \<Rightarrow> bool" where
  "depth_IsValid d \<longleftrightarrow> validationError d = None"

definition updateAndAlert :: "time \<Rightarrow> depth \<Rightarrow> update \<Rightarrow> depth" where
  "updateAndAlert now d u =
     (let d = d\<lparr>opts := (opts d)\<lparr>lastUpdateID := UpdateID u, lastUpdated := UpdateTime u,
                updatePushedAt := UpdatePushedAt u, insertedAt := now\<rparr>\<rparr>
      in Alert d)"

definition UpdateBidAskByPrice :: "time \<Rightarrow> depth \<Rightarrow> update \<Rightarrow> depth \<times> go_error option" where
  "UpdateBidAskByPrice now d u =
     (if IsZero (UpdateTime u) then (d, Some (Errorf ''%s %s %s %w'' [errLastUpdatedNotSet]))
      else
        let d = (if length (Bids u) \<noteq> 0
                 then d\<lparr>bidTranches :=
                        bids_updateInsertByPrice (bidTranches d) (Bids u) (maxDepth (opts d))\<rparr>
                 else d);
            d = (if length (Asks u) \<noteq> 0
                 then d\<lparr>askTranches :=
                        asks_updateInsertByPrice (askTranches d) (Asks u) (maxDepth (opts d))\<rparr>
                 else d)
        in (updateAndAlert now d u, None))"

text \<open>The four updates by ID have one shape: check the time, run the bids, invalidate on an error,
  run the asks, invalidate on an error, record the update.  They differ in the operation run on
  each side.\<close>

type_synonym side_op = "tranches \<Rightarrow> tranches \<Rightarrow> tranches \<times> go_error option"

definition update_sides :: "side_op \<Rightarrow> side_op \<Rightarrow> time \<Rightarrow> depth \<Rightarrow> update \<Rightarrow> depth \<times> go_error option"
  where
  "update_sides bid_op ask_op now d u =
     (if IsZero (UpdateTime u) then (d, Some (Errorf ''%s %s %s %w'' [errLastUpdatedNotSet]))
      else
        let (bids, bid_err) =
              (if length (Bids u) \<noteq> 0 then bid_op (bidTranches d) (Bids u) else (bidTranches d, None));
            d = d\<lparr>bidTranches := bids\<rparr>
        in case bid_err of
             Some err \<Rightarrow> invalidate d (Some err)
           | None \<Rightarrow>
               let (asks, ask_err) =
                     (if length (Asks u) \<noteq> 0 then ask_op (askTranches d) (Asks u)
                      else (askTranches d, None));
                   d = d\<lparr>askTranches := asks\<rparr>
               in case ask_err of
                    Some err \<Rightarrow> invalidate d (Some err)
                  | None \<Rightarrow> (updateAndAlert now d u, None))"

definition UpdateBidAskByID :: "time \<Rightarrow> depth \<Rightarrow> update \<Rightarrow> depth \<times> go_error option" where
  "UpdateBidAskByID = update_sides updateByID updateByID"

definition DeleteBidAskByID :: "time \<Rightarrow> depth \<Rightarrow> update \<Rightarrow> bool \<Rightarrow> depth \<times> go_error option" where
  "DeleteBidAskByID now d u bypassErr =
     update_sides (\<lambda>ts us. deleteByID ts us bypassErr) (\<lambda>ts us. deleteByID ts us bypassErr) now d u"

definition InsertBidAskByID :: "time \<Rightarrow> depth \<Rightarrow> update \<Rightarrow> depth \<times> go_error option" where
  "InsertBidAskByID = update_sides bids_insertUpdates asks_insertUpdates"

definition UpdateInsertByID :: "time \<Rightarrow> depth \<Rightarrow> update \<Rightarrow> depth \<times> go_error option" where
  "UpdateInsertByID = update_sides bids_updateInsertByID asks_updateInsertByID"

definition AssignOptions :: "depth \<Rightarrow> book \<Rightarrow> depth" where
  "AssignOptions d b =
     d\<lparr>opts := zero_options\<lparr>exchange := bk_Exchange b, opt_pair := bk_Pair b,
         opt_asset := bk_Asset b, lastUpdated := bk_LastUpdated b,
         lastUpdateID := bk_LastUpdateID b, priceDuplication := bk_PriceDuplication b,
         isFundingRate := bk_IsFundingRate b, verifyOrderbook := bk_VerifyOrderbook b,
         restSnapshot := bk_RestSnapshot b, idAligned := bk_IDAlignment b,
         maxDepth := bk_MaxDepth b, checksumStringRequired := bk_ChecksumStringRequired b\<rparr>\<rparr>"

section \<open>Reading\<close>

text \<open>Every reading method starts by returning the validation error if there is one.\<close>

definition if_valid :: "depth \<Rightarrow> 'a go_result \<Rightarrow> 'a go_result" where
  "if_valid d r = (case validationError d of Some err \<Rightarrow> Inl err | None \<Rightarrow> r)"

definition bind_err :: "'a go_result \<Rightarrow> ('a \<Rightarrow> 'b go_result) \<Rightarrow> 'b go_result" where
  "bind_err r f = (case r of Inl err \<Rightarrow> Inl err | Inr x \<Rightarrow> f x)"

text \<open>\<open>retrieve(0)\<close> copies the whole side.\<close>

definition retrieve_all :: "tranches \<Rightarrow> tranches" where
  "retrieve_all ts = (case retrieve ts 0 of Some xs \<Rightarrow> xs | None \<Rightarrow> [])"

definition depth_Retrieve :: "depth \<Rightarrow> book go_result" where
  "depth_Retrieve d =
     if_valid d (Inr
       \<lparr>bk_Bids = retrieve_all (bidTranches d), bk_Asks = retrieve_all (askTranches d),
        bk_Exchange = exchange (opts d), bk_Pair = opt_pair (opts d), bk_Asset = opt_asset (opts d),
        bk_LastUpdated = lastUpdated (opts d), bk_UpdatePushedAt = updatePushedAt (opts d),
        bk_InsertedAt = insertedAt (opts d), bk_LastUpdateID = lastUpdateID (opts d),
        bk_PriceDuplication = priceDuplication (opts d),
        bk_IsFundingRate = isFundingRate (opts d), bk_VerifyOrderbook = verifyOrderbook (opts d),
        bk_RestSnapshot = False, bk_IDAlignment = False, bk_MaxDepth = maxDepth (opts d),
        bk_ChecksumStringRequired = checksumStringRequired (opts d)\<rparr>)"

definition GetName :: "depth \<Rightarrow> string" where
  "GetName d = exchange (opts d)"

definition IsRESTSnapshot :: "depth \<Rightarrow> bool go_result" where
  "IsRESTSnapshot d = if_valid d (Inr (restSnapshot (opts d)))"

definition LastUpdateID :: "depth \<Rightarrow> int go_result" where
  "LastUpdateID d = if_valid d (Inr (lastUpdateID (opts d)))"

definition depth_IsFundingRate :: "depth \<Rightarrow> bool" where
  "depth_IsFundingRate d = isFundingRate (opts d)"

definition depth_VerifyOrderbook :: "depth \<Rightarrow> bool" where
  "depth_VerifyOrderbook d = verifyOrderbook (opts d)"

definition GetAskLength :: "depth \<Rightarrow> nat go_result" where
  "GetAskLength d = if_valid d (Inr (length (askTranches d)))"

definition GetBidLength :: "depth \<Rightarrow> nat go_result" where
  "GetBidLength d = if_valid d (Inr (length (bidTranches d)))"

definition TotalBidAmounts :: "depth \<Rightarrow> (f64 \<times> f64) go_result" where
  "TotalBidAmounts d = if_valid d (Inr (amount (bidTranches d)))"

definition TotalAskAmounts :: "depth \<Rightarrow> (f64 \<times> f64) go_result" where
  "TotalAskAmounts d = if_valid d (Inr (amount (askTranches d)))"

definition getMidPriceNoLock :: "depth \<Rightarrow> f64 go_result" where
  "getMidPriceNoLock d =
     bind_err (getHeadPriceNoLock (bidTranches d)) (\<lambda>bidHead.
     bind_err (getHeadPriceNoLock (askTranches d)) (\<lambda>askHead.
       Inr ((bidHead + askHead) / two_f64)))"

definition GetMidPrice :: "depth \<Rightarrow> f64 go_result" where
  "GetMidPrice d = if_valid d (getMidPriceNoLock d)"

definition GetBestBid :: "depth \<Rightarrow> f64 go_result" where
  "GetBestBid d = if_valid d (getHeadPriceNoLock (bidTranches d))"

definition GetBestAsk :: "depth \<Rightarrow> f64 go_result" where
  "GetBestAsk d = if_valid d (getHeadPriceNoLock (askTranches d))"

definition GetSpreadAmount :: "depth \<Rightarrow> f64 go_result" where
  "GetSpreadAmount d = if_valid d (
     bind_err (getHeadPriceNoLock (askTranches d)) (\<lambda>askHead.
     bind_err (getHeadPriceNoLock (bidTranches d)) (\<lambda>bidHead.
       Inr (askHead - bidHead))))"

definition GetSpreadPercentage :: "depth \<Rightarrow> f64 go_result" where
  "GetSpreadPercentage d = if_valid d (
     bind_err (getHeadPriceNoLock (askTranches d)) (\<lambda>askHead.
     bind_err (getHeadPriceNoLock (bidTranches d)) (\<lambda>bidHead.
       Inr ((askHead - bidHead) / askHead * hundred_f64))))"

definition GetImbalance :: "depth \<Rightarrow> f64 go_result" where
  "GetImbalance d = if_valid d (
     bind_err (getHeadVolumeNoLock (askTranches d)) (\<lambda>askVolume.
     bind_err (getHeadVolumeNoLock (bidTranches d)) (\<lambda>bidVolume.
       Inr ((bidVolume - askVolume) / (bidVolume + askVolume)))))"

text \<open>A non-negative count never panics.\<close>

definition GetTranches :: "depth \<Rightarrow> int \<Rightarrow> (tranches \<times> tranches) go_result" where
  "GetTranches d cnt =
     (if cnt < 0 then Inl errInvalidBookDepth
      else if_valid d (case (retrieve (askTranches d) cnt, retrieve (bidTranches d) cnt) of
             (Some ask, Some bid) \<Rightarrow> Inr (ask, bid)
           | _ \<Rightarrow> Inl (Errorf ''slice bounds out of range'' [])))"

definition depth_GetPair :: "store \<Rightarrow> depth \<Rightarrow> pair go_result" where
  "depth_GetPair s d =
     (if pair_IsEmpty s (opt_pair (opts d)) then Inl ErrCurrencyPairEmpty
      else Inr (opt_pair (opts d)))"

section \<open>Trading through the book\<close>

text \<open>From a reference price, from the mid price and from the best price of the side.\<close>

definition HitTheBidsByNominalSlippage :: "depth \<Rightarrow> f64 \<Rightarrow> f64 \<Rightarrow> movement go_result" where
  "HitTheBidsByNominalSlippage d maxSlippage refPrice = if_valid d (hitBidsByNominalSlippage (bidTranches d) maxSlippage refPrice)"

definition HitTheBidsByNominalSlippageFromMid :: "depth \<Rightarrow> f64 \<Rightarrow> movement go_result" where
  "HitTheBidsByNominalSlippageFromMid d maxSlippage = if_valid d (
     bind_err (getMidPriceNoLock d) (\<lambda>mid. hitBidsByNominalSlippage (bidTranches d) maxSlippage mid))"

definition HitTheBidsByNominalSlippageFromBest :: "depth \<Rightarrow> f64 \<Rightarrow> movement go_result" where
  "HitTheBidsByNominalSlippageFromBest d maxSlippage = if_valid d (
     bind_err (getHeadPriceNoLock (bidTranches d)) (\<lambda>head. hitBidsByNominalSlippage (bidTranches d) maxSlippage head))"

definition HitTheBidsByImpactSlippage :: "depth \<Rightarrow> f64 \<Rightarrow> f64 \<Rightarrow> movement go_result" where
  "HitTheBidsByImpactSlippage d maxSlippage refPrice = if_valid d (hitBidsByImpactSlippage (bidTranches d) maxSlippage refPrice)"

definition HitTheBidsByImpactSlippageFromMid :: "depth \<Rightarrow> f64 \<Rightarrow> movement go_result" where
  "HitTheBidsByImpactSlippageFromMid d maxSlippage = if_valid d (
     bind_err (getMidPriceNoLock d) (\<lambda>mid. hitBidsByImpactSlippage (bidTranches d) maxSlippage mid))"

definition HitTheBidsByImpactSlippageFromBest :: "depth \<Rightarrow> f64 \<Rightarrow> movement go_result" where
  "HitTheBidsByImpactSlippageFromBest d maxSlippage = if_valid d (
     bind_err (getHeadPriceNoLock (bidTranches d)) (\<lambda>head. hitBidsByImpactSlippage (bidTranches d) maxSlippage head))"

definition LiftTheAsksByNominalSlippage :: "depth \<Rightarrow> f64 \<Rightarrow> f64 \<Rightarrow> movement go_result" where
  "LiftTheAsksByNominalSlippage d maxSlippage refPrice = if_valid d (liftAsksByNominalSlippage (askTranches d) maxSlippage refPrice)"

definition LiftTheAsksByNominalSlippageFromMid :: "depth \<Rightarrow> f64 \<Rightarrow> movement go_result" where
  "LiftTheAsksByNominalSlippageFromMid d maxSlippage = if_valid d (
     bind_err (getMidPriceNoLock d) (\<lambda>mid. liftAsksByNominalSlippage (askTranches d) maxSlippage mid))"

definition LiftTheAsksByNominalSlippageFromBest :: "depth \<Rightarrow> f64 \<Rightarrow> movement go_result" where
  "LiftTheAsksByNominalSlippageFromBest d maxSlippage = if_valid d (
     bind_err (getHeadPriceNoLock (askTranches d)) (\<lambda>head. liftAsksByNominalSlippage (askTranches d) maxSlippage head))"

definition LiftTheAsksByImpactSlippage :: "depth \<Rightarrow> f64 \<Rightarrow> f64 \<Rightarrow> movement go_result" where
  "LiftTheAsksByImpactSlippage d maxSlippage refPrice = if_valid d (liftAsksByImpactSlippage (askTranches d) maxSlippage refPrice)"

definition LiftTheAsksByImpactSlippageFromMid :: "depth \<Rightarrow> f64 \<Rightarrow> movement go_result" where
  "LiftTheAsksByImpactSlippageFromMid d maxSlippage = if_valid d (
     bind_err (getMidPriceNoLock d) (\<lambda>mid. liftAsksByImpactSlippage (askTranches d) maxSlippage mid))"

definition LiftTheAsksByImpactSlippageFromBest :: "depth \<Rightarrow> f64 \<Rightarrow> movement go_result" where
  "LiftTheAsksByImpactSlippageFromBest d maxSlippage = if_valid d (
     bind_err (getHeadPriceNoLock (askTranches d)) (\<lambda>head. liftAsksByImpactSlippage (askTranches d) maxSlippage head))"

definition HitTheBids :: "depth \<Rightarrow> f64 \<Rightarrow> f64 \<Rightarrow> bool \<Rightarrow> movement go_result" where
  "HitTheBids d amnt refPrice purchase = if_valid d (
       if purchase then getMovementByQuotation (bidTranches d) amnt refPrice False
       else getMovementByBase (bidTranches d) amnt refPrice False)"

definition HitTheBidsFromMid :: "depth \<Rightarrow> f64 \<Rightarrow> bool \<Rightarrow> movement go_result" where
  "HitTheBidsFromMid d amnt purchase = if_valid d (
     bind_err (getMidPriceNoLock d) (\<lambda>mid.
       if purchase then getMovementByQuotation (bidTranches d) amnt mid False
       else getMovementByBase (bidTranches d) amnt mid False))"

definition HitTheBidsFromBest :: "depth \<Rightarrow> f64 \<Rightarrow> bool \<Rightarrow> movement go_result" where
  "HitTheBidsFromBest d amnt purchase = if_valid d (
     bind_err (getHeadPriceNoLock (bidTranches d)) (\<lambda>head.
       if purchase then getMovementByQuotation (bidTranches d) amnt head False
       else getMovementByBase (bidTranches d) amnt head False))"

definition LiftTheAsks :: "depth \<Rightarrow> f64 \<Rightarrow> f64 \<Rightarrow> bool \<Rightarrow> movement go_result" where
  "LiftTheAsks d amnt refPrice purchase = if_valid d (
       if purchase then getMovementByBase (askTranches d) amnt refPrice True
       else getMovementByQuotation (askTranches d) amnt refPrice True)"

definition LiftTheAsksFromMid :: "depth \<Rightarrow> f64 \<Rightarrow> bool \<Rightarrow> movement go_result" where
  "LiftTheAsksFromMid d amnt purchase = if_valid d (
     bind_err (getMidPriceNoLock d) (\<lambda>mid.
       if purchase then getMovementByBase (askTranches d) amnt mid True
       else getMovementByQuotation (askTranches d) amnt mid True))"

definition LiftTheAsksFromBest :: "depth \<Rightarrow> f64 \<Rightarrow> bool \<Rightarrow> movement go_result" where
  "LiftTheAsksFromBest d amnt purchase = if_valid d (
     bind_err (getHeadPriceNoLock (askTranches d)) (\<lambda>head.
       if purchase then getMovementByBase (askTranches d) amnt head True
       else getMovementByQuotation (askTranches d) amnt head True))"

section \<open>Lemmas\<close>

lemma retrieve_all_eq [simp]: "retrieve_all ts = ts"
  by (simp add: retrieve_all_def retrieve_def Let_def)

lemma retrieve_pos: "0 \<le> n \<Longrightarrow> retrieve ts n = Some (if n = 0 then ts else take (nat n) ts)"
  by (auto simp: retrieve_def Let_def)

lemma GetTranches_eq:
  "0 \<le> n \<Longrightarrow> GetTranches d n =
     if_valid d (Inr (if n = 0 then (askTranches d, bidTranches d)
       else (take (nat n) (askTranches d), take (nat n) (bidTranches d))))"
  by (simp add: GetTranches_def retrieve_pos)

lemma if_valid_simps [simp]:
  "validationError d = Some e \<Longrightarrow> if_valid d r = Inl e"
  "validationError d = None \<Longrightarrow> if_valid d r = r"
  by (simp_all add: if_valid_def)

lemma Alert_sel [simp]:
  "askTranches (Alert d) = askTranches d" "bidTranches (Alert d) = bidTranches d"
  "opts (Alert d) = opts d" "validationError (Alert d) = validationError d"
  by (simp_all add: Alert_def)

lemma LoadSnapshot_sel:
  assumes "\<not> IsZero t"
  shows "snd (LoadSnapshot now d b a i t p rest) = None"
    and "bidTranches (fst (LoadSnapshot now d b a i t p rest)) = b"
    and "askTranches (fst (LoadSnapshot now d b a i t p rest)) = a"
    and "validationError (fst (LoadSnapshot now d b a i t p rest)) = None"
    and "opts (fst (LoadSnapshot now d b a i t p rest)) =
      (opts d)\<lparr>lastUpdateID := i, lastUpdated := t, updatePushedAt := p, insertedAt := now,
        restSnapshot := rest\<rparr>"
  using assms by (simp_all add: LoadSnapshot_def Let_def load_eq)

lemma LoadSnapshot_zero: "IsZero t \<Longrightarrow> fst (LoadSnapshot now d b a i t p rest) = d"
  by (simp add: LoadSnapshot_def)

lemma invalidate_sel:
  "snd (invalidate d r) = validationError (fst (invalidate d r))"
  "bidTranches (fst (invalidate d r)) = []" "askTranches (fst (invalidate d r)) = []"
  "validationError (fst (invalidate d r)) \<noteq> None"
  "is_err (snd (invalidate d r)) e \<longleftrightarrow> e = ErrOrderbookInvalid \<or> is_err r e"
  "lastUpdateID (opts (fst (invalidate d r))) = 0"
proof -
  obtain x where x: "AppendError (Some ErrOrderbookInvalid) r = Some x"
    by (cases "AppendError (Some ErrOrderbookInvalid) r") auto
  have "errors_is x e \<longleftrightarrow> is_err (AppendError (Some ErrOrderbookInvalid) r) e"
    by (simp only: x is_err_simps)
  then have "errors_is x e \<longleftrightarrow> e = ErrOrderbookInvalid \<or> is_err r e"
    by (auto simp: ErrOrderbookInvalid_def)
  then show "is_err (snd (invalidate d r)) e \<longleftrightarrow> e = ErrOrderbookInvalid \<or> is_err r e"
    by (simp add: invalidate_def Let_def x)
qed (simp_all add: invalidate_def Let_def load_eq)

lemma updateAndAlert_sel [simp]:
  "askTranches (updateAndAlert now d u) = askTranches d"
  "bidTranches (updateAndAlert now d u) = bidTranches d"
  "validationError (updateAndAlert now d u) = validationError d"
  "lastUpdateID (opts (updateAndAlert now d u)) = UpdateID u"
  "lastUpdated (opts (updateAndAlert now d u)) = UpdateTime u"
  by (simp_all add: updateAndAlert_def Let_def)

lemma UpdateBidAskByPrice_sel:
  assumes "\<not> IsZero (UpdateTime u)"
  shows "snd (UpdateBidAskByPrice now d u) = None"
    and "bidTranches (fst (UpdateBidAskByPrice now d u)) =
      (if Bids u = [] then bidTranches d
       else bids_updateInsertByPrice (bidTranches d) (Bids u) (maxDepth (opts d)))"
    and "askTranches (fst (UpdateBidAskByPrice now d u)) =
      (if Asks u = [] then askTranches d
       else asks_updateInsertByPrice (askTranches d) (Asks u) (maxDepth (opts d)))"
    and "validationError (fst (UpdateBidAskByPrice now d u)) = validationError d"
    and "lastUpdateID (opts (fst (UpdateBidAskByPrice now d u))) = UpdateID u"
  using assms by (simp_all add: UpdateBidAskByPrice_def Let_def)

lemma UpdateBidAskByPrice_zero:
  "IsZero (UpdateTime u) \<Longrightarrow> fst (UpdateBidAskByPrice now d u) = d"
  by (simp add: UpdateBidAskByPrice_def)

text \<open>The three outcomes of an update by ID.\<close>

lemma update_sides_cases:
  assumes "update_sides bop aop now d u = (d', e)"
  obtains (unset) "IsZero (UpdateTime u)" "d' = d" "is_err e errLastUpdatedNotSet"
  | (failed) err d0 where "\<not> IsZero (UpdateTime u)" "(d', e) = invalidate d0 (Some err)"
      "snd (bop (bidTranches d) (Bids u)) = Some err \<or> snd (aop (askTranches d) (Asks u)) = Some err"
  | (success) "\<not> IsZero (UpdateTime u)" "e = None"
      "bidTranches d' = (if Bids u = [] then bidTranches d else fst (bop (bidTranches d) (Bids u)))"
      "askTranches d' = (if Asks u = [] then askTranches d else fst (aop (askTranches d) (Asks u)))"
      "Bids u \<noteq> [] \<longrightarrow> snd (bop (bidTranches d) (Bids u)) = None"
      "Asks u \<noteq> [] \<longrightarrow> snd (aop (askTranches d) (Asks u)) = None"
      "validationError d' = validationError d" "lastUpdateID (opts d') = UpdateID u"
proof (cases "IsZero (UpdateTime u)")
  case True
  with assms unset show ?thesis by (auto simp: update_sides_def errLastUpdatedNotSet_def)
next
  case False
  obtain bids be where b: "(if length (Bids u) \<noteq> 0 then bop (bidTranches d) (Bids u)
      else (bidTranches d, None)) = (bids, be)" by fastforce
  obtain asks ae where a: "(if length (Asks u) \<noteq> 0 then aop (askTranches d) (Asks u)
      else (askTranches d, None)) = (asks, ae)" by fastforce
  show ?thesis
  proof (cases be)
    case (Some err)
    with b have "snd (bop (bidTranches d) (Bids u)) = Some err" by (auto split: if_splits)
    moreover have "(d', e) = invalidate (d\<lparr>bidTranches := bids\<rparr>) (Some err)"
      using Some assms False b by (simp add: update_sides_def)
    ultimately show ?thesis using False failed by blast
  next
    case be: None
    show ?thesis
    proof (cases ae)
      case (Some err)
      with a have "snd (aop (askTranches d) (Asks u)) = Some err" by (auto split: if_splits)
      moreover have "(d', e) =
          invalidate (d\<lparr>bidTranches := bids, askTranches := asks\<rparr>) (Some err)"
        using Some be assms False a b by (auto simp: update_sides_def Let_def split: if_splits)
      ultimately show ?thesis using False failed by blast
    next
      case None
      with be assms False a b have "e = None"
        "d' = updateAndAlert now (d\<lparr>bidTranches := bids, askTranches := asks\<rparr>) u"
        by (auto simp: update_sides_def Let_def split: if_splits)
      with None be a b False show ?thesis by (intro success) (auto split: if_splits)
    qed
  qed
qed

lemmas id_ops_def =
  UpdateBidAskByID_def DeleteBidAskByID_def InsertBidAskByID_def UpdateInsertByID_def

section \<open>Invariants of a book\<close>

text \<open>
  A property of each side that holds of the empty side is kept by a whole-book operation if the
  operation keeps it on each side: failing updates flush the book.
\<close>

locale side_invariant =
  fixes bid_inv ask_inv :: "tranches \<Rightarrow> bool"
  assumes bid_empty: "bid_inv []" and ask_empty: "ask_inv []"
begin

definition inv :: "depth \<Rightarrow> bool" where
  "inv d \<longleftrightarrow> bid_inv (bidTranches d) \<and> ask_inv (askTranches d)"

lemma inv_new: "inv (NewDepth i)"
  by (simp add: inv_def NewDepth_def bid_empty ask_empty)

lemma inv_snapshot:
  "inv d \<Longrightarrow> bid_inv b \<Longrightarrow> ask_inv a \<Longrightarrow> inv (fst (LoadSnapshot now d b a i t p rest))"
  by (cases "IsZero t") (simp_all add: inv_def LoadSnapshot_zero LoadSnapshot_sel)

lemma inv_invalidate: "inv (fst (invalidate d r))"
  by (simp add: inv_def invalidate_sel bid_empty ask_empty)

lemma inv_update_sides:
  assumes "inv d"
    and "\<And>ts. bid_inv ts \<Longrightarrow> bid_inv (fst (bop ts (Bids u)))"
    and "\<And>ts. ask_inv ts \<Longrightarrow> ask_inv (fst (aop ts (Asks u)))"
  shows "inv (fst (update_sides bop aop now d u))"
proof -
  obtain d' e where r: "update_sides bop aop now d u = (d', e)" by fastforce
  then show ?thesis
  proof (cases rule: update_sides_cases)
    case (failed err d0)
    then have "d' = fst (invalidate d0 (Some err))" by (metis fst_conv)
    with r show ?thesis by (simp add: inv_invalidate)
  qed (use r assms in \<open>auto simp: inv_def\<close>)
qed

lemma inv_by_price:
  assumes "inv d"
    and "\<And>ts. bid_inv ts \<Longrightarrow> bid_inv (bids_updateInsertByPrice ts (Bids u) (maxDepth (opts d)))"
    and "\<And>ts. ask_inv ts \<Longrightarrow> ask_inv (asks_updateInsertByPrice ts (Asks u) (maxDepth (opts d)))"
  shows "inv (fst (UpdateBidAskByPrice now d u))"
  using assms by (cases "IsZero (UpdateTime u)")
    (auto simp: inv_def UpdateBidAskByPrice_zero UpdateBidAskByPrice_sel)

end

interpretation price_book: side_invariant bids_sorted asks_sorted
  by unfold_locales (simp_all add: bids_sorted_def asks_sorted_def)

definition id_bids :: "tranches \<Rightarrow> bool" where
  "id_bids ts \<longleftrightarrow> bids_ordered ts \<and> distinct (map ID ts)"

definition id_asks :: "tranches \<Rightarrow> bool" where
  "id_asks ts \<longleftrightarrow> asks_ordered ts \<and> distinct (map ID ts)"

interpretation id_book: side_invariant id_bids id_asks
  by unfold_locales
    (simp_all add: id_bids_def id_asks_def bids_ordered_def asks_ordered_def)

lemma deleteByID_sorted:
  "priced ts \<Longrightarrow> priced (fst (deleteByID ts us b))"
  "sorted_wrt P ts \<Longrightarrow> sorted_wrt P (fst (deleteByID ts us b))"
  "distinct (map ID ts) \<Longrightarrow> distinct (map ID (fst (deleteByID ts us b)))"
proof (induction ts us b rule: deleteByID.induct)
  case (2 ts u us b)
  {
    case 1
    with 2 show ?case
      by (cases "delete_first ts (ID u)")
        (auto simp: priced_iff dest: delete_first_subseq(1))
  next
    case 2
    with "2.IH" show ?case
      by (cases "delete_first ts (ID u)") (auto dest: delete_first_subseq(2))
  next
    case 3
    with "2.IH" show ?case
      by (cases "delete_first ts (ID u)") (auto dest: delete_first_subseq(3))
  }
qed simp_all

text \<open>An amendment without a price leaves every price where it is.\<close>

definition amounts_only :: "tranches \<Rightarrow> bool" where
  "amounts_only us \<longleftrightarrow> list_all (\<lambda>u. \<not> 0 < Price u) us"

lemma updateByID_prices:
  "amounts_only us \<Longrightarrow> map Price (fst (updateByID ts us)) = map Price ts"
proof (induction ts us rule: updateByID.induct)
  case (2 ts u us)
  have "map Price ts' = map Price ts" if "amend_first ts u = Some ts'" for ts'
    using that "2.prems"
    by (induction ts arbitrary: ts') (auto simp: amounts_only_def amend_def split: if_splits)
  with 2 show ?case by (auto simp: amounts_only_def split: option.splits)
qed simp

lemma sides_by_map:
  "bids_sorted ts \<longleftrightarrow> NaN \<notin> set (map Price ts) \<and> sorted_wrt (\<lambda>a b. b < a) (map Price ts)"
  "asks_sorted ts \<longleftrightarrow> NaN \<notin> set (map Price ts) \<and> sorted_wrt (<) (map Price ts)"
  "bids_ordered ts \<longleftrightarrow> NaN \<notin> set (map Price ts) \<and> sorted_wrt (\<lambda>a b. b \<le> a) (map Price ts)"
  "asks_ordered ts \<longleftrightarrow> NaN \<notin> set (map Price ts) \<and> sorted_wrt (\<le>) (map Price ts)"
  by (auto simp: bids_sorted_def asks_sorted_def bids_ordered_def asks_ordered_def priced_iff
      sorted_wrt_map image_iff)

lemma amend_keeps:
  assumes "amounts_only us"
  shows "bids_sorted ts \<Longrightarrow> bids_sorted (fst (updateByID ts us))"
    and "asks_sorted ts \<Longrightarrow> asks_sorted (fst (updateByID ts us))"
    and "id_bids ts \<Longrightarrow> id_bids (fst (updateByID ts us))"
    and "id_asks ts \<Longrightarrow> id_asks (fst (updateByID ts us))"
proof -
  have "map ID (fst (updateByID ts us)) = map ID ts"
    using updateByID_ids [of ts us] by (metis prod.collapse)
  then show "bids_sorted ts \<Longrightarrow> bids_sorted (fst (updateByID ts us))"
    and "asks_sorted ts \<Longrightarrow> asks_sorted (fst (updateByID ts us))"
    and "id_bids ts \<Longrightarrow> id_bids (fst (updateByID ts us))"
    and "id_asks ts \<Longrightarrow> id_asks (fst (updateByID ts us))"
    by (simp_all only: id_bids_def id_asks_def sides_by_map updateByID_prices [OF assms] simp_thms)
qed

lemma delete_keeps:
  "bids_sorted ts \<Longrightarrow> bids_sorted (fst (deleteByID ts us b))"
  "asks_sorted ts \<Longrightarrow> asks_sorted (fst (deleteByID ts us b))"
  "id_bids ts \<Longrightarrow> id_bids (fst (deleteByID ts us b))"
  "id_asks ts \<Longrightarrow> id_asks (fst (deleteByID ts us b))"
  by (simp_all add: bids_sorted_def asks_sorted_def id_bids_def id_asks_def bids_ordered_def
      asks_ordered_def deleteByID_sorted)

lemma insert_keeps:
  assumes "priced us"
  shows "bids_sorted ts \<Longrightarrow> bids_sorted (fst (bids_insertUpdates ts us))"
    and "asks_sorted ts \<Longrightarrow> asks_sorted (fst (asks_insertUpdates ts us))"
  using assms bid.insertUpdates_inv [of ts us] ask.insertUpdates_inv [of ts us]
  by (metis side_defs(1) side_ops(5) prod.collapse, metis side_defs(2) side_ops(6) prod.collapse)

lemma upsert_keeps:
  assumes "priced us"
  shows "id_bids ts \<Longrightarrow> id_bids (fst (bids_updateInsertByID ts us))"
    and "id_asks ts \<Longrightarrow> id_asks (fst (asks_updateInsertByID ts us))"
  using assms bid.updateInsertByID_inv [of ts us] ask.updateInsertByID_inv [of ts us]
  by (metis id_bids_def side_defs(3) side_ops(3) prod.collapse,
      metis id_asks_def side_defs(4) side_ops(4) prod.collapse)

text \<open>A book fed by price: snapshots that are sorted, updates by price, insertions, amendments of
  amounts, deletions, invalidation at any time.  A book fed by ID takes updates by ID instead.\<close>

inductive price_fed :: "depth \<Rightarrow> bool" where
  p_new: "price_fed (NewDepth i)"
| p_snapshot: "price_fed d \<Longrightarrow> bids_sorted b \<Longrightarrow> asks_sorted a \<Longrightarrow>
    price_fed (fst (LoadSnapshot now d b a i t p rest))"
| p_update: "price_fed d \<Longrightarrow> priced (Bids u) \<Longrightarrow> priced (Asks u) \<Longrightarrow>
    price_fed (fst (UpdateBidAskByPrice now d u))"
| p_insert: "price_fed d \<Longrightarrow> priced (Bids u) \<Longrightarrow> priced (Asks u) \<Longrightarrow>
    price_fed (fst (InsertBidAskByID now d u))"
| p_amend: "price_fed d \<Longrightarrow> amounts_only (Bids u) \<Longrightarrow> amounts_only (Asks u) \<Longrightarrow>
    price_fed (fst (UpdateBidAskByID now d u))"
| p_delete: "price_fed d \<Longrightarrow> price_fed (fst (DeleteBidAskByID now d u bypass))"
| p_invalidate: "price_fed d \<Longrightarrow> price_fed (fst (Invalidate d r))"
| p_options: "price_fed d \<Longrightarrow> price_fed (AssignOptions d o')"

inductive id_fed :: "depth \<Rightarrow> bool" where
  i_new: "id_fed (NewDepth i)"
| i_snapshot: "id_fed d \<Longrightarrow> id_bids b \<Longrightarrow> id_asks a \<Longrightarrow>
    id_fed (fst (LoadSnapshot now d b a i t p rest))"
| i_update: "id_fed d \<Longrightarrow> priced (Bids u) \<Longrightarrow> priced (Asks u) \<Longrightarrow>
    id_fed (fst (UpdateInsertByID now d u))"
| i_amend: "id_fed d \<Longrightarrow> amounts_only (Bids u) \<Longrightarrow> amounts_only (Asks u) \<Longrightarrow>
    id_fed (fst (UpdateBidAskByID now d u))"
| i_delete: "id_fed d \<Longrightarrow> id_fed (fst (DeleteBidAskByID now d u bypass))"
| i_invalidate: "id_fed d \<Longrightarrow> id_fed (fst (Invalidate d r))"
| i_options: "id_fed d \<Longrightarrow> id_fed (AssignOptions d o')"

lemma price_fed_inv: "price_fed d \<Longrightarrow> price_book.inv d"
proof (induction rule: price_fed.induct)
  case (p_update d u now)
  then show ?case
    by (intro price_book.inv_by_price) (auto intro: bids_update_sorted asks_update_sorted)
qed (auto simp: id_ops_def Invalidate_def AssignOptions_def price_book.inv_def [of "_\<lparr>opts := _\<rparr>"]
    price_book.inv_def [of "AssignOptions _ _"]
    intro: price_book.inv_new price_book.inv_snapshot price_book.inv_invalidate
      price_book.inv_update_sides amend_keeps delete_keeps insert_keeps
    dest: price_book.inv_def [THEN iffD1])

lemma id_fed_inv: "id_fed d \<Longrightarrow> id_book.inv d"
  by (induction rule: id_fed.induct)
    (auto simp: id_ops_def Invalidate_def AssignOptions_def id_book.inv_def [of "_\<lparr>opts := _\<rparr>"]
      intro: id_book.inv_new id_book.inv_snapshot id_book.inv_invalidate
        id_book.inv_update_sides amend_keeps delete_keeps upsert_keeps
      dest: id_book.inv_def [THEN iffD1])

section \<open>Mid price and imbalance\<close>

lemma representable_double:
  assumes "representable q" and "2 * \<bar>q\<bar> < overflow_bound"
  shows "representable (2 * q)"
proof -
  obtain k e where k: "q = of_int k * 2 powi e" "\<bar>k\<bar> \<le> 2 ^ 53" "-1074 \<le> e"
    using assms(1) by (auto simp: representable_def on_grid_def)
  then have "2 * q = of_int k * 2 powi (e + 1)" by (simp add: power_int_add)
  with k have "on_grid (2 * q)"
    unfolding on_grid_def by (intro exI [of _ k] exI [of _ "e + 1"]) auto
  with assms(2) show ?thesis by (simp add: representable_def abs_mult)
qed

lemma finite_between: "is_finite x \<Longrightarrow> x \<le> y \<Longrightarrow> y \<le> z \<Longrightarrow> is_finite z \<Longrightarrow> is_finite y"
  by (cases x; cases y; cases z) (auto simp: f64_order_defs)

lemma mid_between:
  assumes "is_finite b" and "is_finite a" and "is_f64 b" and "is_f64 a" and "0 < b" and "b \<le> a"
    and "2 * fval a < overflow_bound"
  shows "b \<le> (b + a) / two_f64 \<and> (b + a) / two_f64 \<le> a"
proof -
  have v: "0 < fval b" "fval b \<le> fval a"
    using assms(1,2,5,6) by (simp_all add: f64_less_finite f64_le_finite)
  have bf: "b = Fin (fval b)" "a = Fin (fval a)" using assms(1,2) v by (cases b; cases a; simp)+
  then have r: "representable (fval b)" "representable (fval a)"
    using assms(3,4) by (metis is_f64.simps(1))+
  have r2: "representable (2 * fval b)" "representable (2 * fval a)"
    using r assms(7) v by (auto intro!: representable_double)
  have sg: "\<not> signbit b" "\<not> signbit a" using bf v by (metis signbit.simps(1) not_less less_le_trans le_less)+
  have sum: "b + a = fround False (fval b + fval a)" using assms(1,2) sg by (simp add: fadd_finite)
  have lo: "Fin (2 * fval b) \<le> b + a"
    using fround_mono [of "2 * fval b" "fval b + fval a" False False] r2 v
    by (simp add: sum fround_exact_pos)
  have hi: "b + a \<le> Fin (2 * fval a)"
    using fround_mono [of "fval b + fval a" "2 * fval a" False False] r2 v
    by (simp add: sum fround_exact_pos)
  have fin: "is_finite (b + a)" using finite_between [OF _ lo hi] by simp
  then have q: "2 * fval b \<le> fval (b + a)" "fval (b + a) \<le> 2 * fval a"
    using lo hi by (simp_all add: f64_le_finite)
  obtain s where m: "(b + a) / two_f64 = fround s (fval (b + a) / 2)"
    using fdiv_finite [OF fin, of two_f64] by auto
  have "fround False (fval b) \<le> fround s (fval (b + a) / 2)"
    and "fround s (fval (b + a) / 2) \<le> fround False (fval a)"
    using q by (simp_all add: fround_mono)
  then show ?thesis using r bf by (simp add: m fround_exact_pos)
qed

lemma fround_neg:
  assumes "fround False q = Fin y" and "y \<noteq> 0" and "q \<noteq> 0"
  shows "fround s (- q) = Fin (- y)"
proof -
  have "round53 q = y" "\<not> overflow_bound \<le> \<bar>y\<bar>"
    using assms by (auto simp: fround_def Let_def split: if_splits)
  with assms(2,3) show ?thesis by (simp add: fround_def Let_def round53_minus)
qed

lemma imbalance_bounds:
  assumes "is_finite b" and "is_finite a" and "is_f64 b" and "is_f64 a" and "0 < b" and "0 < a"
    and "is_finite (b + a)"
  shows "- 1 \<le> (b - a) / (b + a) \<and> (b - a) / (b + a) \<le> 1"
proof -
  have v: "0 < fval b" "0 < fval a"
    using assms(1,2,5,6) by (simp_all add: f64_less_finite)
  have bf: "b = Fin (fval b)" "a = Fin (fval a)" using assms(1,2) v by (cases b; cases a; simp)+
  have r: "representable (fval b)" using assms(3) bf by (metis is_f64.simps(1))
  have sg: "\<not> signbit b" "\<not> signbit a" using bf v by (metis signbit.simps(1) less_asym)+
  have sum: "b + a = fround False (fval b + fval a)" using assms(1,2) sg by (simp add: fadd_finite)
  obtain s where dif: "b - a = fround s (fval b - fval a)" using fsub_finite assms(1,2) by blast
  have up: "b - a \<le> b + a" unfolding sum dif using v by (intro fround_mono) simp

  have "b \<le> b + a"
    using fround_mono [of "fval b" "fval b + fval a" False False] v r bf
    by (simp add: sum fround_exact_pos)
  then have "0 < b + a" using assms(5) f64_less_le_trans by blast
  then have S: "0 < fval (b + a)" using assms(7) by (simp add: f64_less_finite)
  have pos_Fin: "x = Fin (fval x)" if "0 < fval x" for x using that by (cases x) auto
  then have S_eq: "fround False (fval b + fval a) = Fin (fval (b + a))"
    using S sum by metis
  have "fround s (- (fval b + fval a)) = Fin (- fval (b + a))"
    by (rule fround_neg [OF S_eq]) (use S v in auto)
  then have neg: "fround s (- fval b - fval a) = Fin (- fval (b + a))" by simp
  have lo: "Fin (- fval (b + a)) \<le> b - a"
  proof -
    have "- fval b - fval a \<le> fval b - fval a" using v(1) by linarith
    from fround_mono [OF this, of s s] show ?thesis by (simp only: neg dif)
  qed
  have hi: "b - a \<le> Fin (fval (b + a))" using up unfolding sum S_eq [unfolded sum, symmetric] .
  have fin: "is_finite (b - a)" using finite_between [OF _ lo hi] by simp
  then have q: "- fval (b + a) \<le> fval (b - a)" "fval (b - a) \<le> fval (b + a)"
    using lo hi by (simp_all add: f64_le_finite)
  obtain t where d: "(b - a) / (b + a) = fround t (fval (b - a) / fval (b + a))"
    using fdiv_finite [OF fin assms(7)] S by auto
  have "- 1 \<le> fval (b - a) / fval (b + a)" "fval (b - a) / fval (b + a) \<le> 1"
    using q S by (simp_all add: field_simps)
  then have "fround False (- 1) \<le> (b - a) / (b + a)" "(b - a) / (b + a) \<le> fround False 1"
    unfolding d by (simp_all add: fround_mono)
  moreover have "representable 1" "representable (- 1)"
    using representable_int [of 1] representable_int [of "- 1"] by simp_all
  ultimately show ?thesis
    using fround_exact [of 1] fround_exact [of "- 1"] fneg_one by (simp add: one_f64_def)
qed

section \<open>Failing updates\<close>

definition update_cause :: "go_error option \<Rightarrow> bool" where
  "update_cause x \<longleftrightarrow> is_err x errIDCannotBeMatched \<or> is_err x errCollisionDetected \<or>
     is_err x errAmountCannotBeLessOrEqualToZero"

lemma op_cause:
  "snd (updateByID ts us) \<noteq> None \<Longrightarrow> update_cause (snd (updateByID ts us))"
  "snd (deleteByID ts us b) \<noteq> None \<Longrightarrow> update_cause (snd (deleteByID ts us b))"
  "snd (bids_insertUpdates ts us) \<noteq> None \<Longrightarrow> update_cause (snd (bids_insertUpdates ts us))"
  "snd (asks_insertUpdates ts us) \<noteq> None \<Longrightarrow> update_cause (snd (asks_insertUpdates ts us))"
  "snd (bids_updateInsertByID ts us) \<noteq> None \<Longrightarrow> update_cause (snd (bids_updateInsertByID ts us))"
  "snd (asks_updateInsertByID ts us) \<noteq> None \<Longrightarrow> update_cause (snd (asks_updateInsertByID ts us))"
proof -
  have ins: "update_cause (snd (insertUpdates ts us c))" if "snd (insertUpdates ts us c) \<noteq> None" for c
    using that by (induction ts us c rule: insertUpdates.induct)
      (auto simp: update_cause_def errCollisionDetected_def split: option.splits)
  have ups: "update_cause (snd (updateInsertByID ts us c))"
    if "snd (updateInsertByID ts us c) \<noteq> None" for c
    using that by (induction ts us c rule: updateInsertByID.induct)
      (auto simp: update_cause_def errAmountCannotBeLessOrEqualToZero_def split: if_splits)
  show "snd (updateByID ts us) \<noteq> None \<Longrightarrow> update_cause (snd (updateByID ts us))"
    by (induction ts us rule: updateByID.induct)
      (auto simp: update_cause_def errIDCannotBeMatched_def split: option.splits)
  show "snd (deleteByID ts us b) \<noteq> None \<Longrightarrow> update_cause (snd (deleteByID ts us b))"
    by (induction ts us b rule: deleteByID.induct)
      (auto simp: update_cause_def errIDCannotBeMatched_def split: option.splits if_splits)
  show "snd (bids_insertUpdates ts us) \<noteq> None \<Longrightarrow> update_cause (snd (bids_insertUpdates ts us))"
    and "snd (asks_insertUpdates ts us) \<noteq> None \<Longrightarrow> update_cause (snd (asks_insertUpdates ts us))"
    and "snd (bids_updateInsertByID ts us) \<noteq> None \<Longrightarrow> update_cause (snd (bids_updateInsertByID ts us))"
    and "snd (asks_updateInsertByID ts us) \<noteq> None \<Longrightarrow> update_cause (snd (asks_updateInsertByID ts us))"
    using ins ups by (simp_all add: side_ops)
qed

lemma failed_sides:
  assumes "update_sides bop aop now d u = (d', Some e)" and "\<not> IsZero (UpdateTime u)"
    and "snd (bop (bidTranches d) (Bids u)) \<noteq> None \<Longrightarrow> update_cause (snd (bop (bidTranches d) (Bids u)))"
    and "snd (aop (askTranches d) (Asks u)) \<noteq> None \<Longrightarrow> update_cause (snd (aop (askTranches d) (Asks u)))"
  shows "bidTranches d' = [] \<and> askTranches d' = [] \<and> lastUpdateID (opts d') = 0 \<and>
    validationError d' = Some e \<and> errors_is e ErrOrderbookInvalid \<and> update_cause (Some e)"
  using assms(1)
proof (cases rule: update_sides_cases)
  case (failed err d0)
  then have "update_cause (Some err)" using assms(3,4) by auto
  moreover have "is_err (Some e) x \<longleftrightarrow> x = ErrOrderbookInvalid \<or> is_err (Some err) x" for x
    using failed(2) invalidate_sel(5) [of d0 "Some err" x] by (simp flip: failed(2))
  ultimately have "errors_is e ErrOrderbookInvalid" "update_cause (Some e)"
    by (auto simp: update_cause_def)
  with failed(2) invalidate_sel(1-3,6) [of d0 "Some err"] show ?thesis by (simp flip: failed(2))
qed (use assms(2) in auto)

lemma failed_ops:
  assumes "(d', Some e) = UpdateBidAskByID now d u \<or> (d', Some e) = DeleteBidAskByID now d u bypass \<or>
      (d', Some e) = InsertBidAskByID now d u \<or> (d', Some e) = UpdateInsertByID now d u"
    and "\<not> IsZero (UpdateTime u)"
  shows "bidTranches d' = [] \<and> askTranches d' = [] \<and> lastUpdateID (opts d') = 0 \<and>
    validationError d' = Some e \<and> errors_is e ErrOrderbookInvalid \<and> update_cause (Some e)"
  using assms(1)
proof (elim disjE)
  assume r: "(d', Some e) = UpdateBidAskByID now d u"
  show ?thesis
    by (rule failed_sides [OF r [unfolded id_ops_def, symmetric] assms(2)]) (erule op_cause)+
next
  assume r: "(d', Some e) = DeleteBidAskByID now d u bypass"
  show ?thesis
    by (rule failed_sides [OF r [unfolded id_ops_def, symmetric] assms(2)]) (erule op_cause)+
next
  assume r: "(d', Some e) = InsertBidAskByID now d u"
  show ?thesis
    by (rule failed_sides [OF r [unfolded id_ops_def, symmetric] assms(2)]) (erule op_cause)+
next
  assume r: "(d', Some e) = UpdateInsertByID now d u"
  show ?thesis
    by (rule failed_sides [OF r [unfolded id_ops_def, symmetric] assms(2)]) (erule op_cause)+
qed

lemma reads_fail:
  "validationError d = Some e \<Longrightarrow>
    depth_Retrieve d = Inl e \<and> GetMidPrice d = Inl e \<and> GetBestBid d = Inl e \<and>
    GetBestAsk d = Inl e \<and> GetSpreadAmount d = Inl e \<and> GetImbalance d = Inl e \<and>
    LastUpdateID d = Inl e \<and> TotalBidAmounts d = Inl e \<and> TotalAskAmounts d = Inl e \<and>
    HitTheBids d a r p = Inl e \<and> LiftTheAsks d a r p = Inl e"
  by (simp add: depth_Retrieve_def GetMidPrice_def GetBestBid_def GetBestAsk_def
      GetSpreadAmount_def GetImbalance_def LastUpdateID_def TotalBidAmounts_def
      TotalAskAmounts_def HitTheBids_def LiftTheAsks_def)

section \<open>Properties\<close>

text \<open>C5: whatever sequence of snapshots, updates and invalidations a book has
  seen, if it is fed by price (sorted snapshots, any updates by price, insertions, deletions,
  amendments of amounts) its bids strictly fall and its asks strictly rise; if it is fed by ID its
  sides are ordered by price and no ID is stored twice.\<close>

theorem books_stay_sorted:
  assumes "price_fed d" and "id_fed d'"
  shows "bids_sorted (bidTranches d) \<and> asks_sorted (askTranches d) \<and>
    bids_ordered (bidTranches d') \<and> distinct (map ID (bidTranches d')) \<and>
    asks_ordered (askTranches d') \<and> distinct (map ID (askTranches d'))"
  using price_fed_inv [OF assms(1)] id_fed_inv [OF assms(2)]
  by (simp add: price_book.inv_def id_book.inv_def id_bids_def id_asks_def)

definition an_update :: "tranches \<Rightarrow> tranches \<Rightarrow> update" where
  "an_update b a = \<lparr>UpdateID = 7, UpdateTime = 1, UpdatePushedAt = 1, upd_Asset = Spot,
     Action = Amend, Bids = b, Asks = a, upd_Pair = EMPTYPAIR, Checksum = 0\<rparr>"

theorem books_stay_sorted_witness:
  "bids_sorted (bidTranches (fst (UpdateBidAskByPrice 2 (fst (LoadSnapshot 1 (NewDepth 0)
      [tr 1 10 1, tr 2 9 1] [tr 3 11 1] 5 1 1 False)) (an_update [tr 4 (19/2) 2] []))))"
proof -
  let ?d = "fst (LoadSnapshot 1 (NewDepth 0) [tr 1 10 1, tr 2 9 1] [tr 3 11 1] 5 1 1 False)"
  have "price_fed ?d"
    by (intro p_snapshot p_new) (simp_all add: bids_sorted_def asks_sorted_def f64_less_finite)
  then have "price_fed (fst (UpdateBidAskByPrice 2 ?d (an_update [tr 4 (19/2) 2] [])))"
    by (rule p_update) (simp_all add: an_update_def)
  from books_stay_sorted [OF this i_new [of 0]] show ?thesis by simp
qed

text \<open>C6: an update by ID that fails for any reason but an unset time leaves nothing
  to trade on: both sides are empty, the update ID is reset, the error returned says that the book
  is compromised and carries the cause, and every reading method returns that error.\<close>

theorem failed_update:
  assumes "(d', Some e) \<in> {UpdateBidAskByID now d u, DeleteBidAskByID now d u bypass,
      InsertBidAskByID now d u, UpdateInsertByID now d u}"
    and "\<not> IsZero (UpdateTime u)"
  shows "bidTranches d' = [] \<and> askTranches d' = [] \<and> lastUpdateID (opts d') = 0 \<and>
    errors_is e ErrOrderbookInvalid \<and>
    (errors_is e errIDCannotBeMatched \<or> errors_is e errCollisionDetected \<or>
     errors_is e errAmountCannotBeLessOrEqualToZero) \<and>
    depth_Retrieve d' = Inl e \<and> GetMidPrice d' = Inl e \<and> GetBestBid d' = Inl e \<and>
    GetBestAsk d' = Inl e \<and> GetSpreadAmount d' = Inl e \<and> GetImbalance d' = Inl e \<and>
    LastUpdateID d' = Inl e \<and> TotalBidAmounts d' = Inl e \<and> TotalAskAmounts d' = Inl e \<and>
    HitTheBids d' a r p = Inl e \<and> LiftTheAsks d' a r p = Inl e"
proof -
  from assms(1) have "bidTranches d' = [] \<and> askTranches d' = [] \<and> lastUpdateID (opts d') = 0 \<and>
      validationError d' = Some e \<and> errors_is e ErrOrderbookInvalid \<and> update_cause (Some e)"
    using failed_ops [OF _ assms(2), of d' e] by blast
  with reads_fail [of d' e a r p] show ?thesis by (simp add: update_cause_def)
qed

theorem failed_update_witness:
  "\<exists>d' e. DeleteBidAskByID 1 (NewDepth 0) (an_update [tr 1 10 1] []) False = (d', Some e) \<and>
     depth_Retrieve d' = Inl e \<and> errors_is e ErrOrderbookInvalid"
proof -
  obtain d' e where run: "DeleteBidAskByID 1 (NewDepth 0) (an_update [tr 1 10 1] []) False = (d', Some e)"
    by (simp add: DeleteBidAskByID_def update_sides_def an_update_def NewDepth_def IsZero_def
        invalidate_def Let_def)
  with failed_update [of d' e 1 "NewDepth 0" "an_update [tr 1 10 1] []" False]
  show ?thesis by (auto simp: an_update_def IsZero_def)
qed

text \<open>C9: nothing but a snapshot makes a compromised book readable again:
  every other operation leaves it invalid, and the snapshot stores exactly the levels it was
  given, which \<open>Retrieve\<close> then returns.\<close>

theorem invalid_until_snapshot:
  assumes "\<not> depth_IsValid d" and "\<not> IsZero t"
  shows "\<not> depth_IsValid (fst (UpdateBidAskByPrice now d u)) \<and>
    \<not> depth_IsValid (fst (UpdateBidAskByID now d u)) \<and>
    \<not> depth_IsValid (fst (DeleteBidAskByID now d u bypass)) \<and>
    \<not> depth_IsValid (fst (InsertBidAskByID now d u)) \<and>
    \<not> depth_IsValid (fst (UpdateInsertByID now d u)) \<and>
    \<not> depth_IsValid (fst (Invalidate d r)) \<and> \<not> depth_IsValid (AssignOptions d o') \<and>
    (case depth_Retrieve (fst (LoadSnapshot now d b a i t p rest)) of
       Inl _ \<Rightarrow> False
     | Inr bk \<Rightarrow> bk_Bids bk = b \<and> bk_Asks bk = a \<and> bk_LastUpdateID bk = i \<and> bk_LastUpdated bk = t)"
proof -
  have sides: "\<not> depth_IsValid (fst (update_sides bop aop now d u))" for bop aop
  proof -
    obtain d' e where r: "update_sides bop aop now d u = (d', e)" by fastforce
    then show ?thesis
    proof (cases rule: update_sides_cases)
      case (failed err d0)
      then have "d' = fst (invalidate d0 (Some err))" by (metis fst_conv)
      with r show ?thesis using invalidate_sel(4) by (simp add: depth_IsValid_def)
    qed (use r assms in \<open>auto simp: depth_IsValid_def\<close>)
  qed
  show ?thesis
    using assms sides invalidate_sel(4)
    by (cases "IsZero (UpdateTime u)")
      (auto simp: id_ops_def depth_IsValid_def Invalidate_def AssignOptions_def depth_Retrieve_def
        UpdateBidAskByPrice_zero UpdateBidAskByPrice_sel LoadSnapshot_sel)
qed

theorem invalid_until_snapshot_witness:
  "\<not> depth_IsValid (fst (UpdateBidAskByPrice 3 (fst (Invalidate (NewDepth 0) None))
      (an_update [tr 1 10 1] [])))"
proof -
  have "\<not> depth_IsValid (fst (Invalidate (NewDepth 0) None))" "\<not> IsZero 1"
    by (simp_all add: Invalidate_def depth_IsValid_def invalidate_sel IsZero_def)
  from invalid_until_snapshot [OF this] show ?thesis by blast
qed

lemma head_best:
  "bids_ordered ts \<Longrightarrow> getHeadPriceNoLock ts = Inr p \<Longrightarrow> list_all (\<lambda>t. Price t \<le> p) ts"
  "asks_ordered ts \<Longrightarrow> getHeadPriceNoLock ts = Inr p \<Longrightarrow> list_all (\<lambda>t. p \<le> Price t) ts"
  by (cases ts; auto simp: getHeadPriceNoLock_def bids_ordered_def asks_ordered_def priced_def
      f64_le_refl list_all_iff)+

text \<open>Also: on ordered sides the best bid and ask are the extreme prices; if the book is
  not crossed and its prices are positive floats whose double does not overflow, the mid price
  lies between them, so rounding never pushes it out of the spread, and the spread is not
  negative.\<close>

theorem book_prices:
  assumes "bids_ordered (bidTranches d)" and "asks_ordered (askTranches d)"
    and "GetBestBid d = Inr b" and "GetBestAsk d = Inr a"
    and "is_finite b" and "is_finite a" and "is_f64 b" and "is_f64 a" and "0 < b" and "b \<le> a"
    and "2 * fval a < overflow_bound"
  shows "list_all (\<lambda>t. Price t \<le> b) (bidTranches d) \<and> list_all (\<lambda>t. a \<le> Price t) (askTranches d) \<and>
    (\<exists>m. GetMidPrice d = Inr m \<and> b \<le> m \<and> m \<le> a) \<and> (\<exists>s. GetSpreadAmount d = Inr s \<and> 0 \<le> s)"
proof -
  have v: "validationError d = None"
    using assms(3) by (cases "validationError d") (auto simp: GetBestBid_def)
  then have h: "getHeadPriceNoLock (bidTranches d) = Inr b" "getHeadPriceNoLock (askTranches d) = Inr a"
    using assms(3,4) by (simp_all add: GetBestBid_def GetBestAsk_def)
  then have "GetMidPrice d = Inr ((b + a) / two_f64)" "GetSpreadAmount d = Inr (a - b)"
    using v by (simp_all add: GetMidPrice_def getMidPriceNoLock_def bind_err_def GetSpreadAmount_def)
  with h assms head_best mid_between [OF assms(5-11)] fsub_nonneg [OF assms(6,5,10)]
  show ?thesis by blast
qed

theorem book_prices_witness:
  "\<exists>m. GetMidPrice (fst (LoadSnapshot 1 (NewDepth 0) [tr 1 10 1] [tr 3 11 1] 5 1 1 False)) = Inr m \<and>
     whole 10 \<le> m \<and> m \<le> whole 11"
proof -
  let ?d = "fst (LoadSnapshot 1 (NewDepth 0) [tr 1 10 1] [tr 3 11 1] 5 1 1 False)"
  have t: "\<not> IsZero 1" by (simp add: IsZero_def)
  have sides: "bids_ordered (bidTranches ?d)" "asks_ordered (askTranches ?d)"
    "GetBestBid ?d = Inr (whole 10)" "GetBestAsk ?d = Inr (whole 11)"
    by (simp_all add: LoadSnapshot_sel [OF t] bids_ordered_def asks_ordered_def GetBestBid_def
        GetBestAsk_def getHeadPriceNoLock_def whole_def)
  have o: "(22 :: rat) < overflow_bound"
  proof -
    have "(22 :: rat) \<le> 2 ^ 5" by simp
    also have "\<dots> < overflow_bound" unfolding overflow_bound_def by (rule power_strict_increasing) auto
    finally show ?thesis .
  qed
  have r: "is_f64 (whole 10)" "is_f64 (whole 11)"
    using representable_nat [of 10] representable_nat [of 11] by (simp_all add: whole_def)
  have h: "0 < whole 10" "whole 10 \<le> whole 11" "2 * fval (whole 11) < overflow_bound"
    using o by simp_all
  from book_prices [OF sides _ _ r h] show ?thesis by simp
qed

text \<open>Also: the imbalance of a book whose best volumes are positive floats, with a sum
  that does not overflow, lies between \<open>-1\<close> and \<open>1\<close> in spite of its three roundings.\<close>

theorem imbalance_range:
  assumes "GetImbalance d = Inr x" and "getHeadVolumeNoLock (bidTranches d) = Inr b"
    and "getHeadVolumeNoLock (askTranches d) = Inr a"
    and "is_finite b" and "is_finite a" and "is_f64 b" and "is_f64 a" and "0 < b" and "0 < a"
    and "is_finite (b + a)"
  shows "- 1 \<le> x \<and> x \<le> 1"
proof -
  have "validationError d = None"
    using assms(1) by (cases "validationError d") (auto simp: GetImbalance_def)
  then have "x = (b - a) / (b + a)"
    using assms(1-3) by (simp add: GetImbalance_def bind_err_def)
  then show ?thesis using imbalance_bounds [OF assms(4-10)] by simp
qed

theorem imbalance_range_witness:
  "\<exists>x. GetImbalance (fst (LoadSnapshot 1 (NewDepth 0) [tr 1 10 3] [tr 3 11 1] 5 1 1 False)) = Inr x \<and>
     x \<le> 1"
proof -
  let ?d = "fst (LoadSnapshot 1 (NewDepth 0) [tr 1 10 3] [tr 3 11 1] 5 1 1 False)"
  have t: "\<not> IsZero 1" by (simp add: IsZero_def)
  have h: "getHeadVolumeNoLock (bidTranches ?d) = Inr (whole 3)"
    "getHeadVolumeNoLock (askTranches ?d) = Inr (whole 1)"
    by (simp_all add: LoadSnapshot_sel [OF t] getHeadVolumeNoLock_def whole_def)
  have i: "GetImbalance ?d = Inr ((whole 3 - whole 1) / (whole 3 + whole 1))"
    by (simp add: GetImbalance_def LoadSnapshot_sel [OF t] h [simplified LoadSnapshot_sel [OF t]]
        bind_err_def)
  have r: "is_f64 (whole 3)" "is_f64 (whole 1)"
    using representable_nat [of 3] representable_nat [of 1] by (simp_all add: whole_def)
  have f: "is_finite (whole 3 + whole 1)" by (simp add: whole_add)
  from imbalance_range [OF i h _ _ r _ _ f] i show ?thesis by simp
qed

end
