(* ===== verification/Alert.thy ===== *)
theory Alert
  imports Go_Prelude
begin

text \<open>
  The notice of \<open>exchanges/alert/alert.go\<close>: any number of routines wait for a change of state and
  one routine, the actuator, wakes them.  The methods run concurrently, so the notice is a
  transition system whose steps are the atomic actions of the source: the two compare-and-swaps,
  taking and releasing the mutex, the send on the buffered channel, the receive in \<open>actuate\<close>,
  closing the alert channel, the end of \<open>wg.Wait()\<close>, and a \<open>hold\<close> routine leaving its select.

  The lemmas show what the code relies on without checking it: a send on \<open>toActuatorRoutine\<close>
  never blocks, the alert channel is never closed twice or while nil, the wait group counts the
  waiting routines, and an alert that found somebody waiting can always run to its end, with
  everybody released.
\<close>

section \<open>State\<close>

datatype sema = inactive | active | alerting

text \<open>Where the actuator stands: not spawned, at the receive, past it and in want of the mutex,
  past the close and waiting for the group.\<close>

datatype actuator = NotSpawned | Receiving | Woken | Waiting

datatype holder = Free | ByWaiter | ByActuator

record notice =
  sema :: sema
  toActuator :: nat
  senders :: nat
  actuator :: actuator
  mutex :: holder
  forAlert :: "bool option"
  wg :: nat
  holds :: nat
  released :: nat
  kicked :: nat

text \<open>\<open>forAlert\<close> is nil, or a channel and whether it is closed.  \<open>toActuator\<close> is the number of
  values in the channel of capacity \<open>dataToActuatorDefaultBuffer\<close>; \<open>senders\<close> counts the calls of
  \<open>Alert\<close> between their compare-and-swap and their send.\<close>

definition dataToActuatorDefaultBuffer :: nat where
  "dataToActuatorDefaultBuffer = 1"

definition new_notice :: notice where
  "new_notice = \<lparr>sema = inactive, toActuator = 0, senders = 0, actuator = NotSpawned, mutex = Free,
     forAlert = None, wg = 0, holds = 0, released = 0, kicked = 0\<rparr>"

section \<open>Steps\<close>

definition SetPreAllocationCommsBuffer :: "int \<Rightarrow> int \<Rightarrow> int \<times> go_error option" where
  "SetPreAllocationCommsBuffer preAlloc sz =
     (if sz \<le> 0
      then (preAlloc, Some (Errorf ''%w received %v'' [Sentinel ''alert.errInvalidBufferSize'']))
      else (sz, None))"

definition SetDefaultPreAllocationCommsBuffer :: int where
  "SetDefaultPreAllocationCommsBuffer = 5"

text \<open>\<open>Alert\<close>: return unless the swap from active to alerting succeeds, else spawn the actuator if
  there is none, then send.\<close>

definition alert_swap :: "notice \<Rightarrow> notice" where
  "alert_swap n =
     (if sema n \<noteq> active then n
      else n\<lparr>sema := alerting, senders := senders n + 1,
             actuator := (if actuator n = NotSpawned then Receiving else actuator n)\<rparr>)"

definition can_send :: "notice \<Rightarrow> bool" where
  "can_send n \<longleftrightarrow> toActuator n < dataToActuatorDefaultBuffer"

definition alert_send :: "notice \<Rightarrow> notice" where
  "alert_send n = n\<lparr>senders := senders n - 1, toActuator := toActuator n + 1\<rparr>"

text \<open>\<open>Wait\<close>: under the mutex, swap from inactive to active and take a fresh channel from the
  generator; then add to the group, start a \<open>hold\<close> routine and release the mutex.\<close>

definition wait_lock :: "notice \<Rightarrow> notice" where
  "wait_lock n =
     (let n = n\<lparr>mutex := ByWaiter\<rparr>
      in if sema n = inactive then n\<lparr>sema := active, forAlert := Some False\<rparr> else n)"

definition wait_unlock :: "notice \<Rightarrow> notice" where
  "wait_unlock n = n\<lparr>wg := wg n + 1, holds := holds n + 1, mutex := Free\<rparr>"

text \<open>\<open>hold\<close>: leave by the alert or by the kick.\<close>

definition hold_alerted :: "notice \<Rightarrow> notice" where
  "hold_alerted n = n\<lparr>holds := holds n - 1, wg := wg n - 1, released := released n + 1\<rparr>"

definition hold_kicked :: "notice \<Rightarrow> notice" where
  "hold_kicked n = n\<lparr>holds := holds n - 1, wg := wg n - 1, kicked := kicked n + 1\<rparr>"

text \<open>\<open>actuate\<close>.\<close>

definition actuate_receive :: "notice \<Rightarrow> notice" where
  "actuate_receive n = n\<lparr>toActuator := toActuator n - 1, actuator := Woken\<rparr>"

definition actuate_close :: "notice \<Rightarrow> notice" where
  "actuate_close n = n\<lparr>mutex := ByActuator, forAlert := map_option (\<lambda>_. True) (forAlert n),
     actuator := Waiting\<rparr>"

definition actuate_finish :: "notice \<Rightarrow> notice" where
  "actuate_finish n = n\<lparr>sema := inactive, mutex := Free, actuator := Receiving\<rparr>"

inductive step :: "notice \<Rightarrow> notice \<Rightarrow> bool" where
  s_alert: "step n (alert_swap n)"
| s_send: "0 < senders n \<Longrightarrow> can_send n \<Longrightarrow> step n (alert_send n)"
| s_wait: "mutex n = Free \<Longrightarrow> step n (wait_lock n)"
| s_unlock: "mutex n = ByWaiter \<Longrightarrow> step n (wait_unlock n)"
| s_alerted: "0 < holds n \<Longrightarrow> forAlert n = Some True \<Longrightarrow> step n (hold_alerted n)"
| s_kicked: "0 < holds n \<Longrightarrow> step n (hold_kicked n)"
| s_receive: "actuator n = Receiving \<Longrightarrow> 0 < toActuator n \<Longrightarrow> step n (actuate_receive n)"
| s_close: "actuator n = Woken \<Longrightarrow> mutex n = Free \<Longrightarrow> step n (actuate_close n)"
| s_finish: "actuator n = Waiting \<Longrightarrow> wg n = 0 \<Longrightarrow> step n (actuate_finish n)"

inductive reachable :: "notice \<Rightarrow> bool" where
  r_new: "reachable new_notice"
| r_step: "reachable n \<Longrightarrow> step n n' \<Longrightarrow> reachable n'"

lemmas step_defs =
  alert_swap_def alert_send_def can_send_def wait_lock_def wait_unlock_def hold_alerted_def
  hold_kicked_def actuate_receive_def actuate_close_def actuate_finish_def
  dataToActuatorDefaultBuffer_def

section \<open>Invariant\<close>

text \<open>An alert in progress is in exactly one place: about to be sent, in the channel, or with the
  actuator.  The alert channel is open while routines gather, and closed from the actuator's close
  until the next gathering.\<close>

definition in_progress :: "notice \<Rightarrow> nat" where
  "in_progress n = senders n + toActuator n + (if actuator n \<in> {Woken, Waiting} then 1 else 0)"

definition notice_inv :: "notice \<Rightarrow> bool" where
  "notice_inv n \<longleftrightarrow>
     in_progress n = (if sema n = alerting then 1 else 0) \<and>
     wg n = holds n \<and>
     (actuator n = Waiting \<longleftrightarrow> mutex n = ByActuator) \<and>
     (actuator n = NotSpawned \<longrightarrow> sema n \<noteq> alerting) \<and>
     (sema n = active \<longrightarrow> forAlert n = Some False) \<and>
     (sema n = alerting \<longrightarrow> forAlert n = Some (actuator n = Waiting)) \<and>
     (sema n = inactive \<longrightarrow> wg n = 0 \<and> mutex n \<noteq> ByWaiter)"

lemma notice_inv_new: "notice_inv new_notice"
  by (simp add: notice_inv_def new_notice_def in_progress_def)

lemma notice_inv_step: "step n n' \<Longrightarrow> notice_inv n \<Longrightarrow> notice_inv n'"
  by (induction rule: step.induct)
    (auto simp: notice_inv_def in_progress_def step_defs Let_def split: if_splits)

lemma reachable_inv: "reachable n \<Longrightarrow> notice_inv n"
  by (induction rule: reachable.induct) (auto intro: notice_inv_new notice_inv_step)

section \<open>Finishing an alert\<close>

text \<open>The number of own steps an alert in progress still has to make, with those of the routines
  it wakes: every one of them is enabled when its turn comes.\<close>

inductive steps :: "notice \<Rightarrow> notice \<Rightarrow> bool" where
  steps_refl: "steps n n"
| steps_step: "step n n' \<Longrightarrow> steps n' n'' \<Longrightarrow> steps n n''"

lemma steps_trans: "steps n n' \<Longrightarrow> steps n' n'' \<Longrightarrow> steps n n''"
  by (induction rule: steps.induct) (auto intro: steps.intros)

lemma steps_one: "step n n' \<Longrightarrow> steps n n'"
  by (auto intro: steps.intros)

lemma steps_inv: "steps n n' \<Longrightarrow> notice_inv n \<Longrightarrow> notice_inv n'"
  by (induction rule: steps.induct) (auto intro: notice_inv_step)

lemma finish_waiting:
  assumes "notice_inv n" and "actuator n = Waiting"
  shows "\<exists>n'. steps n n' \<and> sema n' = inactive \<and> released n' = released n + holds n \<and>
    holds n' = 0 \<and> kicked n' = kicked n"
  using assms
proof (induction "holds n" arbitrary: n)
  case 0
  then have "step n (actuate_finish n)" by (intro s_finish) (auto simp: notice_inv_def)
  with 0 show ?case
    by (intro exI [of _ "actuate_finish n"]) (auto simp: steps_one actuate_finish_def)
next
  case (Suc k)
  from Suc.prems have "sema n = alerting"
    by (auto simp: notice_inv_def in_progress_def split: if_splits)
  with Suc.prems have "forAlert n = Some True" by (simp add: notice_inv_def)
  with Suc.hyps(2) have s: "step n (hold_alerted n)" by (intro s_alerted) auto
  have "notice_inv (hold_alerted n)" using s Suc.prems notice_inv_step by blast
  moreover have "k = holds (hold_alerted n)" "actuator (hold_alerted n) = Waiting"
    using Suc by (simp_all add: hold_alerted_def)
  ultimately obtain n' where "steps (hold_alerted n) n'" "sema n' = inactive"
    "released n' = released (hold_alerted n) + holds (hold_alerted n)" "holds n' = 0"
    "kicked n' = kicked (hold_alerted n)" using Suc.hyps(1) by metis
  moreover have "released (hold_alerted n) + holds (hold_alerted n) = released n + holds n"
    "kicked (hold_alerted n) = kicked n"
    using Suc.hyps(2) by (simp_all add: hold_alerted_def)
  ultimately show ?case using s steps_step by metis
qed

lemma finish_woken:
  assumes "notice_inv n" and "actuator n = Woken"
  shows "\<exists>n'. steps n n' \<and> sema n' = inactive \<and> holds n' = 0 \<and> kicked n' = kicked n \<and>
    released n + holds n \<le> released n'"
proof -
  define m where "m = (if mutex n = ByWaiter then wait_unlock n else n)"
  have "steps n m" unfolding m_def by (auto intro: steps_one s_unlock steps_refl)
  then have "notice_inv m" using assms(1) steps_inv by blast
  have "mutex n \<noteq> ByActuator" using assms by (simp add: notice_inv_def)
  then have m: "mutex m = Free" "actuator m = Woken"
    using assms(2) by (cases "mutex n"; simp add: m_def wait_unlock_def)+
  then have c: "step m (actuate_close m)" by (intro s_close) auto
  moreover have "actuator (actuate_close m) = Waiting" by (simp add: actuate_close_def)
  ultimately obtain n' where "steps (actuate_close m) n'" "sema n' = inactive" "holds n' = 0"
    "released n' = released (actuate_close m) + holds (actuate_close m)"
    "kicked n' = kicked (actuate_close m)"
    using finish_waiting notice_inv_step \<open>notice_inv m\<close> by metis
  moreover have "released n + holds n \<le> released (actuate_close m) + holds (actuate_close m)"
    "kicked (actuate_close m) = kicked n"
    by (simp_all add: m_def actuate_close_def wait_unlock_def)
  ultimately show ?thesis using \<open>steps n m\<close> c steps_step steps_trans by metis
qed

lemma finish_alert:
  assumes "notice_inv n" and "sema n = alerting"
  shows "\<exists>n'. steps n n' \<and> sema n' = inactive \<and> holds n' = 0 \<and> kicked n' = kicked n \<and>
    released n + holds n \<le> released n'"
proof (cases "actuator n = Waiting \<or> actuator n = Woken")
  case True
  then show ?thesis using finish_waiting [OF assms(1)] finish_woken [OF assms(1)] by fastforce
next
  case False
  then have recv: "actuator n = Receiving" and one: "senders n + toActuator n = 1"
    using assms by (cases "actuator n"; auto simp: notice_inv_def in_progress_def)+
  define m where "m = (if 0 < senders n then alert_send n else n)"
  have "can_send n" if "0 < senders n" using that one by (simp add: step_defs)
  then have "steps n m" unfolding m_def by (auto intro: steps_one s_send steps_refl)
  then have "notice_inv m" using assms(1) steps_inv by blast
  have m: "actuator m = Receiving" "0 < toActuator m" "released m = released n" "holds m = holds n"
    "kicked m = kicked n"
    using recv one by (auto simp: m_def alert_send_def)
  then have r: "step m (actuate_receive m)" by (intro s_receive) auto
  then have "notice_inv (actuate_receive m)" using \<open>notice_inv m\<close> notice_inv_step by blast
  from finish_woken [OF this] obtain n' where "steps (actuate_receive m) n'" "sema n' = inactive"
    "holds n' = 0" "kicked n' = kicked m" "released m + holds m \<le> released n'"
    by (auto simp: actuate_receive_def)
  with m \<open>steps n m\<close> r show ?thesis by (metis steps_step steps_trans)
qed

section \<open>Properties\<close>

text \<open>Also: in every reachable state of a notice a call of \<open>Alert\<close> that is about to send
  finds room, so it never blocks the writer that raised it; the actuator only ever closes a channel
  that exists and is open (closing twice would panic); and the wait group it waits for counts
  exactly the routines that have not left their select.\<close>

theorem alert_safe:
  assumes "reachable n"
  shows "(senders n = 0 \<or> can_send n) \<and>
    (actuator n \<noteq> Woken \<or> forAlert n = Some False) \<and> wg n = holds n"
  using reachable_inv [OF assms]
  by (auto simp: notice_inv_def in_progress_def step_defs split: if_splits)

lemma reach_alert:
  "reachable (alert_swap (wait_unlock (wait_lock new_notice)))"
proof -
  have "reachable (wait_lock new_notice)"
    by (rule r_step [OF r_new]) (auto intro: s_wait simp: new_notice_def)
  then have "reachable (wait_unlock (wait_lock new_notice))"
    by (rule r_step) (auto intro: s_unlock simp: new_notice_def wait_lock_def)
  then show ?thesis by (rule r_step) (rule s_alert)
qed

theorem alert_safe_witness:
  "can_send (alert_swap (wait_unlock (wait_lock new_notice)))"
  using alert_safe [OF reach_alert] by (simp add: step_defs new_notice_def)

text \<open>C40: from every reachable state in which an alert is in progress the notice can
  run back to its neutral state with every waiting routine released by the alert: no step of the
  way is blocked for good, and \<open>Alert\<close> itself needs nobody to receive.\<close>

theorem alert_finishes:
  assumes "reachable n" and "sema n = alerting"
  shows "\<exists>n'. steps n n' \<and> sema n' = inactive \<and> holds n' = 0 \<and> kicked n' = kicked n \<and>
    released n + holds n \<le> released n'"
  using finish_alert [OF reachable_inv [OF assms(1)] assms(2)] .

theorem alert_finishes_witness:
  "\<exists>n'. steps (alert_swap (wait_unlock (wait_lock new_notice))) n' \<and> sema n' = inactive \<and>
     1 \<le> released n'"
  using alert_finishes [OF reach_alert] by (auto simp: step_defs new_notice_def)

end
