(* ===== verification/Go_Sort.thy ===== *)
theory Go_Sort
  imports Main "HOL-Library.Multiset"
begin

text \<open>
  \<open>sort.Slice\<close> of Go's library, with the two facts that every use of it relies on: it permutes
  the slice, and the result is sorted if the comparison is a weak order on its elements.
\<close>

section \<open>Sorting\<close>

text \<open>\<open>sort.Slice\<close> as the library runs it on short slices: each element moves left past the
  elements it is less than.  (On more than twelve elements the library may order elements neither
  of which is less than the other differently.)  The sorted part is kept reversed.\<close>

fun insert_left :: "('a \<Rightarrow> 'a \<Rightarrow> bool) \<Rightarrow> 'a \<Rightarrow> 'a list \<Rightarrow> 'a list" where
  "insert_left lt x [] = [x]"
| "insert_left lt x (y # ys) = (if lt x y then y # insert_left lt x ys else x # y # ys)"

definition slice_sort :: "('a \<Rightarrow> 'a \<Rightarrow> bool) \<Rightarrow> 'a list \<Rightarrow> 'a list" where
  "slice_sort lt xs = rev (fold (insert_left lt) xs [])"

lemma mset_insert_left [simp]: "mset (insert_left lt x ys) = add_mset x (mset ys)"
  by (induction ys) auto

lemma set_insert_left [simp]: "set (insert_left lt x ys) = insert x (set ys)"
  by (induction ys) auto

lemma mset_fold_insert_left: "mset (fold (insert_left lt) xs ys) = mset xs + mset ys"
  by (induction xs arbitrary: ys) auto

lemma mset_slice_sort [simp]: "mset (slice_sort lt xs) = mset xs"
  by (simp add: slice_sort_def mset_fold_insert_left)

lemma set_slice_sort [simp]: "set (slice_sort lt xs) = set xs"
  by (rule mset_eq_setD) simp

text \<open>On elements that \<open>lt\<close> orders weakly the result is sorted.\<close>

definition weak_order_on :: "'a set \<Rightarrow> ('a \<Rightarrow> 'a \<Rightarrow> bool) \<Rightarrow> bool" where
  "weak_order_on S lt \<longleftrightarrow>
     (\<forall>x \<in> S. \<forall>y \<in> S. lt x y \<longrightarrow> \<not> lt y x) \<and>
     (\<forall>x \<in> S. \<forall>y \<in> S. \<forall>z \<in> S. \<not> lt x y \<longrightarrow> \<not> lt y z \<longrightarrow> \<not> lt x z)"

lemma weak_order_on_key:
  fixes f :: "'a \<Rightarrow> 'k :: linorder"
  shows "weak_order_on S (\<lambda>a b. f a < f b)"
  by (auto simp: weak_order_on_def)

lemma insert_left_sorted:
  assumes "weak_order_on S lt" and "insert x (set ys) \<subseteq> S"
    and "sorted_wrt (\<lambda>b a. \<not> lt b a) ys"
  shows "sorted_wrt (\<lambda>b a. \<not> lt b a) (insert_left lt x ys)"
  using assms(2,3)
proof (induction ys)
  case (Cons y ys)
  have S: "x \<in> S" "y \<in> S" "\<And>a. a \<in> set ys \<Longrightarrow> a \<in> S" using Cons.prems(1) by auto
  have y: "\<And>a. a \<in> set ys \<Longrightarrow> \<not> lt y a" and ys: "sorted_wrt (\<lambda>b a. \<not> lt b a) ys"
    using Cons.prems(2) unfolding sorted_wrt.simps(2) by blast+
  show ?case
  proof (cases "lt x y")
    case True
    then have "\<not> lt y x" using assms(1) S(1,2) unfolding weak_order_on_def by blast
    moreover have "sorted_wrt (\<lambda>b a. \<not> lt b a) (insert_left lt x ys)"
      by (rule Cons.IH) (use S ys in auto)
    ultimately show ?thesis using True y by simp
  next
    case False
    have "\<not> lt x a" if "a \<in> set ys" for a
      using False y [OF that] S(3) [OF that] S(1,2) assms(1) unfolding weak_order_on_def by blast
    then show ?thesis using False Cons.prems(2) by simp
  qed
qed simp

lemma slice_sort_sorted:
  assumes "weak_order_on S lt" and "set xs \<subseteq> S"
  shows "sorted_wrt (\<lambda>a b. \<not> lt b a) (slice_sort lt xs)"
proof -
  have "sorted_wrt (\<lambda>b a. \<not> lt b a) (fold (insert_left lt) xs ys)"
    if "sorted_wrt (\<lambda>b a. \<not> lt b a) ys" "set xs \<union> set ys \<subseteq> S" for ys
    using that
  proof (induction xs arbitrary: ys)
    case (Cons x xs)
    have "sorted_wrt (\<lambda>b a. \<not> lt b a) (insert_left lt x ys)"
      using Cons.prems by (intro insert_left_sorted [OF assms(1)]) auto
    then show ?case using Cons.IH [of "insert_left lt x ys"] Cons.prems by simp
  qed simp
  from this [of "[]"] show ?thesis using assms(2) by (simp add: slice_sort_def sorted_wrt_rev)
qed

end
