(* ===== verification/Book.thy ===== *)
theory Book
  imports Depth Go_Sort
begin

text \<open>
  A plain order book, the \<open>Base\<close> of \<open>exchanges/orderbook/orderbook.go\<close>: the checks it has to
  pass before it is stored, the totals of its sides, and the operations that bring the sides of
  an incoming book into order.

  The lemmas show what a book that passed \<open>Verify\<close> is guaranteed to satisfy, which is what the
  operations of \<open>Depth\<close> assume of their sides, and that sorting and reversing establish it.
\<close>

section \<open>Verification\<close>

definition errExchangeNameUnset :: go_error where
  "errExchangeNameUnset = Sentinel ''orderbook.errExchangeNameUnset''"
definition errPairNotSet :: go_error where
  "errPairNotSet = Sentinel ''orderbook.errPairNotSet''"
definition errAssetTypeNotSet :: go_error where
  "errAssetTypeNotSet = Sentinel ''orderbook.errAssetTypeNotSet''"
definition errCannotFindOrderbook :: go_error where
  "errCannotFindOrderbook = Sentinel ''orderbook.errCannotFindOrderbook''"
definition errPriceNotSet :: go_error where
  "errPriceNotSet = Sentinel ''orderbook.errPriceNotSet''"
definition errAmountInvalid :: go_error where
  "errAmountInvalid = Sentinel ''orderbook.errAmountInvalid''"
definition errPriceOutOfOrder :: go_error where
  "errPriceOutOfOrder = Sentinel ''orderbook.errPriceOutOfOrder''"
definition errIDOutOfOrder :: go_error where
  "errIDOutOfOrder = Sentinel ''orderbook.errIDOutOfOrder''"
definition errDuplication :: go_error where
  "errDuplication = Sentinel ''orderbook.errDuplication''"
definition errIDDuplication :: go_error where
  "errIDDuplication = Sentinel ''orderbook.errIDDuplication''"
definition errPeriodUnset :: go_error where
  "errPeriodUnset = Sentinel ''orderbook.errPeriodUnset''"
definition errNotEnoughLiquidity :: go_error where
  "errNotEnoughLiquidity = Sentinel ''orderbook.errNotEnoughLiquidity''"
definition errChecksumStringNotSet :: go_error where
  "errChecksumStringNotSet = Sentinel ''orderbook.errChecksumStringNotSet''"

type_synonym checker = "tranche \<Rightarrow> tranche \<Rightarrow> go_error option"

definition asc :: checker where
  "asc current previous = (if Price current < Price previous then Some errPriceOutOfOrder else None)"

definition dsc :: checker where
  "dsc current previous = (if Price previous < Price current then Some errPriceOutOfOrder else None)"

text \<open>The loop of \<open>checkAlignment\<close>; \<open>prev\<close> is the level before, if the index is not 0.\<close>

fun alignment_loop ::
    "bool \<Rightarrow> bool \<Rightarrow> bool \<Rightarrow> bool \<Rightarrow> checker \<Rightarrow> string \<Rightarrow> tranche option \<Rightarrow> tranches \<Rightarrow> go_error option"
  where
  "alignment_loop fundingRate priceDup isIDAligned needsChecksum c exch prev [] = None"
| "alignment_loop fundingRate priceDup isIDAligned needsChecksum c exch prev (t # ts) =
     (if feq (Price t) 0 \<and> \<not> (exch = ''Bitfinex'' \<and> fundingRate) then Some errPriceNotSet
      else if Amount t \<le> 0 then Some errAmountInvalid
      else if fundingRate \<and> Period t = 0 then Some errPeriodUnset
      else if needsChecksum \<and> (StrAmount t = [] \<or> StrPrice t = []) then Some errChecksumStringNotSet
      else
        case (case prev of None \<Rightarrow> None | Some p \<Rightarrow>
                (case c t p of Some err \<Rightarrow> Some err | None \<Rightarrow>
                   if isIDAligned \<and> ID t < ID p then Some errIDOutOfOrder
                   else if \<not> priceDup \<and> feq (Price t) (Price p) then Some errDuplication
                   else if ID t \<noteq> 0 \<and> ID t = ID p then Some errIDDuplication
                   else None))
        of Some err \<Rightarrow> Some err
         | None \<Rightarrow> alignment_loop fundingRate priceDup isIDAligned needsChecksum c exch (Some t) ts)"

definition checkAlignment ::
    "tranches \<Rightarrow> bool \<Rightarrow> bool \<Rightarrow> bool \<Rightarrow> bool \<Rightarrow> checker \<Rightarrow> string \<Rightarrow> go_error option" where
  "checkAlignment depth fundingRate priceDup isIDAligned needsChecksum c exch =
     alignment_loop fundingRate priceDup isIDAligned needsChecksum c exch None depth"

text \<open>The warning about an empty side is only logged.\<close>

definition Verify :: "book \<Rightarrow> go_error option" where
  "Verify b =
     (if \<not> bk_VerifyOrderbook b then None
      else
        case checkAlignment (bk_Bids b) (bk_IsFundingRate b) (bk_PriceDuplication b)
               (bk_IDAlignment b) (bk_ChecksumStringRequired b) dsc (bk_Exchange b) of
          Some err \<Rightarrow> Some (Errorf ''bidLoadBookFailure'' [err])
        | None \<Rightarrow>
            (case checkAlignment (bk_Asks b) (bk_IsFundingRate b) (bk_PriceDuplication b)
                    (bk_IDAlignment b) (bk_ChecksumStringRequired b) asc (bk_Exchange b) of
               Some err \<Rightarrow> Some (Errorf ''askLoadBookFailure'' [err])
             | None \<Rightarrow> None))"

section \<open>Totals\<close>

fun total_loop :: "tranches \<Rightarrow> f64 \<Rightarrow> f64 \<Rightarrow> f64 \<times> f64" where
  "total_loop [] amountCollated value = (amountCollated, value)"
| "total_loop (t # ts) amountCollated value =
     total_loop ts (amountCollated + Amount t) (value + Amount t * Price t)"

definition TotalBidsAmount :: "book \<Rightarrow> f64 \<times> f64" where
  "TotalBidsAmount b = total_loop (bk_Bids b) 0 0"

definition TotalAsksAmount :: "book \<Rightarrow> f64 \<times> f64" where
  "TotalAsksAmount b = total_loop (bk_Asks b) 0 0"

section \<open>Ordering the sides\<close>

text \<open>\<open>Reverse\<close> swaps in place, from the middle outwards: \<open>reverse_loop (i + 1)\<close> is the loop at
  index \<open>i\<close>.\<close>

fun reverse_loop :: "nat \<Rightarrow> 'a list \<Rightarrow> 'a list" where
  "reverse_loop 0 ts = ts"
| "reverse_loop (Suc i) ts =
     (let target = length ts - 1 - i in reverse_loop i (ts[i := ts ! target, target := ts ! i]))"

definition Reverse :: "tranches \<Rightarrow> tranches" where
  "Reverse ts = reverse_loop (length ts div 2) ts"

definition SortAsks :: "tranches \<Rightarrow> tranches" where
  "SortAsks ts = slice_sort (\<lambda>a b. Price a < Price b) ts"

definition SortBids :: "tranches \<Rightarrow> tranches" where
  "SortBids ts = slice_sort (\<lambda>a b. Price b < Price a) ts"

section \<open>What a verified side satisfies\<close>

definition level_ok :: "bool \<Rightarrow> bool \<Rightarrow> string \<Rightarrow> tranche \<Rightarrow> bool" where
  "level_ok fundingRate needsChecksum exch t \<longleftrightarrow>
     (\<not> feq (Price t) 0 \<or> exch = ''Bitfinex'' \<and> fundingRate) \<and> \<not> Amount t \<le> 0 \<and>
     (fundingRate \<longrightarrow> Period t \<noteq> 0) \<and> (needsChecksum \<longrightarrow> StrAmount t \<noteq> [] \<and> StrPrice t \<noteq> [])"

definition step_ok :: "bool \<Rightarrow> bool \<Rightarrow> checker \<Rightarrow> tranche \<Rightarrow> tranche \<Rightarrow> bool" where
  "step_ok priceDup isIDAligned c p t \<longleftrightarrow>
     c t p = None \<and> (isIDAligned \<longrightarrow> ID p \<le> ID t) \<and>
     (priceDup \<or> \<not> feq (Price t) (Price p)) \<and> (ID t = 0 \<or> ID t \<noteq> ID p)"

lemma alignment_loop_None:
  "alignment_loop f d i s c exch prev ts = None \<longleftrightarrow>
     list_all (level_ok f s exch) ts \<and>
     successively (step_ok d i c) (case prev of None \<Rightarrow> ts | Some p \<Rightarrow> p # ts)"
proof (induction ts arbitrary: prev)
  case Nil
  then show ?case by (cases prev) auto
next
  case (Cons t ts)
  have "alignment_loop f d i s c exch prev (t # ts) = None \<longleftrightarrow>
      level_ok f s exch t \<and> (case prev of None \<Rightarrow> True | Some p \<Rightarrow> step_ok d i c p t) \<and>
      alignment_loop f d i s c exch (Some t) ts = None"
    by (auto simp: level_ok_def step_ok_def split: option.splits)
  then show ?case using Cons.IH [of "Some t"]
    by (cases prev) (auto simp: successively_Cons)
qed

lemma checkAlignment_None:
  "checkAlignment ts f d i s c exch = None \<longleftrightarrow>
     list_all (level_ok f s exch) ts \<and> successively (step_ok d i c) ts"
  by (simp add: checkAlignment_def alignment_loop_None)

lemma transp_f64: "transp ((\<le>) :: f64 \<Rightarrow> f64 \<Rightarrow> bool)" "transp ((<) :: f64 \<Rightarrow> f64 \<Rightarrow> bool)"
  using f64_le_trans f64_less_trans by (blast intro: transpI)+

text \<open>A relation between neighbours that compares a key transitively holds between all.\<close>

lemma successively_sorted:
  assumes "successively P ts" and "transp R" and "list_all (\<lambda>t. f t \<in> S) ts"
    and "\<And>p t. P p t \<Longrightarrow> f p \<in> S \<Longrightarrow> f t \<in> S \<Longrightarrow> R (f p) (f t)"
  shows "sorted_wrt (\<lambda>p t. R (f p) (f t)) ts"
proof -
  have "successively (\<lambda>p t. R (f p) (f t)) ts"
    using assms(1,3) by (rule_tac successively_mono [of P]) (auto simp: list_all_iff intro: assms(4))
  moreover have "transp (\<lambda>p t. R (f p) (f t))" using assms(2) by (auto simp: transp_def)
  ultimately show ?thesis by (simp add: successively_conv_sorted_wrt)
qed

lemma step_ok_asc:
  "step_ok d i asc p t \<Longrightarrow> Price p \<noteq> NaN \<Longrightarrow> Price t \<noteq> NaN \<Longrightarrow>
    Price p \<le> Price t \<and> (d \<or> Price p < Price t)"
  using f64_linear [of "Price p" "Price t"] feq_sym
  by (auto simp: step_ok_def asc_def f64_le_iff split: if_splits)

lemma step_ok_dsc:
  "step_ok d i dsc p t \<Longrightarrow> Price p \<noteq> NaN \<Longrightarrow> Price t \<noteq> NaN \<Longrightarrow>
    Price t \<le> Price p \<and> (d \<or> Price t < Price p)"
  using f64_linear [of "Price p" "Price t"] feq_sym
  by (auto simp: step_ok_def dsc_def f64_le_iff split: if_splits)

lemma priced_list_all: "priced ts \<Longrightarrow> list_all (\<lambda>t. Price t \<in> {p. p \<noteq> NaN}) ts"
  by (simp add: priced_iff list_all_iff)

lemma aligned_asks:
  assumes "checkAlignment ts f d i s asc exch = None" and "priced ts"
  shows "asks_ordered ts \<and> (d \<or> asks_sorted ts)"
proof -
  have ok: "successively (step_ok d i asc) ts" using assms(1) by (simp add: checkAlignment_None)
  have "sorted_wrt (\<lambda>p t. Price p \<le> Price t) ts"
    by (rule successively_sorted [OF ok transp_f64(1) priced_list_all [OF assms(2)]])
      (use step_ok_asc in auto)
  moreover have "sorted_wrt (\<lambda>p t. Price p < Price t) ts" if "\<not> d"
    by (rule successively_sorted [OF ok transp_f64(2) priced_list_all [OF assms(2)]])
      (use step_ok_asc that in blast)
  ultimately show ?thesis using assms(2) by (auto simp: asks_ordered_def asks_sorted_def)
qed

lemma aligned_bids:
  assumes "checkAlignment ts f d i s dsc exch = None" and "priced ts"
  shows "bids_ordered ts \<and> (d \<or> bids_sorted ts)"
proof -
  have ok: "successively (step_ok d i dsc) ts" using assms(1) by (simp add: checkAlignment_None)
  have t: "transp (\<lambda>a b. b \<le> (a :: f64))" "transp (\<lambda>a b. b < (a :: f64))"
    using f64_le_trans f64_less_trans by (blast intro: transpI)+
  have "sorted_wrt (\<lambda>p t. Price t \<le> Price p) ts"
    by (rule successively_sorted [OF ok t(1) priced_list_all [OF assms(2)]])
      (use step_ok_dsc in auto)
  moreover have "sorted_wrt (\<lambda>p t. Price t < Price p) ts" if "\<not> d"
    by (rule successively_sorted [OF ok t(2) priced_list_all [OF assms(2)]])
      (use step_ok_dsc that in blast)
  ultimately show ?thesis using assms(2) by (auto simp: bids_ordered_def bids_sorted_def)
qed

lemma aligned_ids:
  assumes "checkAlignment ts f d True s c exch = None"
  shows "sorted_wrt (\<lambda>p t. ID p \<le> ID t) ts"
  using assms by (intro successively_sorted [of "step_ok d True c" ts "(\<le>)" ID UNIV])
    (auto simp: checkAlignment_None step_ok_def transp_def list_all_iff)

section \<open>Reversing and sorting\<close>

lemma length_reverse_loop [simp]: "length (reverse_loop k ts) = length ts"
  by (induction k arbitrary: ts) (auto simp: Let_def)

text \<open>The outer \<open>k\<close> levels on either side change places.\<close>

lemma reverse_loop_sides:
  "length xs = k \<Longrightarrow> length zs = k \<Longrightarrow>
    reverse_loop k (xs @ ys @ zs) = rev zs @ ys @ rev xs"
proof (induction k arbitrary: xs ys zs)
  case (Suc k)
  obtain xs' x where xs: "xs = xs' @ [x]" "length xs' = k"
    using Suc.prems(1) by (cases xs rule: rev_cases) auto
  obtain z zs' where zs: "zs = z # zs'" "length zs' = k" using Suc.prems(2) by (cases zs) auto
  have "reverse_loop (Suc k) (xs @ ys @ zs) = reverse_loop k (xs' @ (z # ys @ [x]) @ zs')"
    by (simp add: xs zs Let_def nth_append list_update_append)
  also have "\<dots> = rev zs' @ (z # ys @ [x]) @ rev xs'" by (rule Suc.IH [OF xs(2) zs(2)])
  finally show ?case by (simp add: xs zs)
qed simp

lemma reverse_loop_rev: "reverse_loop (length ts div 2) ts = rev ts"
proof -
  define k where "k = length ts div 2"
  have len: "length ts = k + (length ts - 2 * k) + k" "length ts - 2 * k \<le> 1"
    by (simp_all add: k_def)
  define ys where "ys = take (length ts - 2 * k) (drop k ts)"
  have ts: "ts = take k ts @ ys @ drop (length ts - k) ts"
    using len(1) unfolding ys_def
    by (metis add.commute add_diff_cancel_left' append_assoc append_take_drop_id drop_drop)
  have "length ys \<le> 1" using len by (simp add: ys_def)
  then have "rev ys = ys" by (cases ys) auto
  moreover have "reverse_loop k (take k ts @ ys @ drop (length ts - k) ts) =
      rev (drop (length ts - k) ts) @ ys @ rev (take k ts)"
    by (rule reverse_loop_sides) (simp_all add: k_def)
  ultimately show ?thesis using ts k_def by (metis rev_append append_assoc)
qed

lemma weak_order_prices:
  "priced ts \<Longrightarrow> weak_order_on (set ts) (\<lambda>a b. Price a < Price b)"
  "priced ts \<Longrightarrow> weak_order_on (set ts) (\<lambda>a b. Price b < Price a)"
  unfolding weak_order_on_def priced_iff
  by (metis f64_less_asym f64_le_trans f64_not_less)+

lemma SortAsks_ordered: "priced ts \<Longrightarrow> asks_ordered (SortAsks ts)"
  using slice_sort_sorted [OF weak_order_prices(1), of ts ts]
  by (auto simp: SortAsks_def asks_ordered_def priced_iff f64_not_less
    elim!: sorted_wrt_mono_rel [rotated])

lemma SortBids_ordered: "priced ts \<Longrightarrow> bids_ordered (SortBids ts)"
  using slice_sort_sorted [OF weak_order_prices(2), of ts ts]
  by (auto simp: SortBids_def bids_ordered_def priced_iff f64_not_less
    elim!: sorted_wrt_mono_rel [rotated])

section \<open>Properties\<close>

text \<open>C19: a book whose \<open>VerifyOrderbook\<close> is set (without it \<open>Verify\<close> accepts every book), that
  passes \<open>Verify\<close> and has no NaN among its prices has on each side the best price first, and no price
  twice unless the exchange is marked as sending duplicates; with ID alignment the IDs ascend as well;
  and no level has an amount of zero or less.\<close>

theorem verified_book:
  assumes "Verify b = None" and "bk_VerifyOrderbook b" and "priced (bk_Bids b)"
    and "priced (bk_Asks b)"
  shows "bids_ordered (bk_Bids b) \<and> asks_ordered (bk_Asks b) \<and>
    (bk_PriceDuplication b \<or> bids_sorted (bk_Bids b) \<and> asks_sorted (bk_Asks b)) \<and>
    (\<not> bk_IDAlignment b \<or> sorted (map ID (bk_Bids b)) \<and> sorted (map ID (bk_Asks b))) \<and>
    list_all (\<lambda>t. \<not> Amount t \<le> 0) (bk_Bids b @ bk_Asks b)"
proof -
  let ?al = "\<lambda>ts. checkAlignment ts (bk_IsFundingRate b) (bk_PriceDuplication b)
    (bk_IDAlignment b) (bk_ChecksumStringRequired b)"
  have al: "?al (bk_Bids b) dsc (bk_Exchange b) = None" "?al (bk_Asks b) asc (bk_Exchange b) = None"
    using assms(1,2) by (auto simp: Verify_def split: option.splits)
  have "list_all (\<lambda>t. \<not> Amount t \<le> 0) (bk_Bids b @ bk_Asks b)"
    using al by (auto simp: checkAlignment_None level_ok_def list_all_iff)
  moreover have "\<not> bk_IDAlignment b \<or> sorted (map ID (bk_Bids b)) \<and> sorted (map ID (bk_Asks b))"
    using al aligned_ids by (cases "bk_IDAlignment b") (auto simp: sorted_map)
  ultimately show ?thesis using aligned_bids [OF al(1) assms(3)] aligned_asks [OF al(2) assms(4)]
    by blast
qed

definition sample_book :: book where
  "sample_book = \<lparr>bk_Bids = [tr 1 10 1, tr 2 9 2], bk_Asks = [tr 3 11 1, tr 4 12 5],
     bk_Exchange = ''Kraken'', bk_Pair = EMPTYPAIR, bk_Asset = Spot, bk_LastUpdated = 5,
     bk_UpdatePushedAt = 4, bk_InsertedAt = 0, bk_LastUpdateID = 7, bk_PriceDuplication = False,
     bk_IsFundingRate = False, bk_VerifyOrderbook = True, bk_RestSnapshot = False,
     bk_IDAlignment = True, bk_MaxDepth = 10, bk_ChecksumStringRequired = False\<rparr>"

lemma sample_verify: "Verify sample_book = None"
  by (simp add: Verify_def sample_book_def checkAlignment_def asc_def dsc_def f64_less_finite
    f64_le_finite feq_finite)

theorem verified_book_witness: "bids_sorted (bk_Bids sample_book) \<and> asks_sorted (bk_Asks sample_book)"
  using verified_book [OF sample_verify] by (simp add: sample_book_def)

text \<open>Also: \<open>Reverse\<close>, which swaps from the middle outwards, reverses; it turns
  a side of asks from best to worst into one of bids and back; \<open>SortAsks\<close> and \<open>SortBids\<close> permute
  their levels and put the best price first.\<close>

theorem side_order:
  "Reverse ts = rev ts \<and> (bids_sorted (Reverse ts) = asks_sorted ts) \<and>
   mset (SortAsks ts) = mset ts \<and> mset (SortBids ts) = mset ts \<and>
   (if priced ts then asks_ordered (SortAsks ts) \<and> bids_ordered (SortBids ts) else True)"
  using SortAsks_ordered [of ts] SortBids_ordered [of ts]
  by (auto simp: Reverse_def reverse_loop_rev bids_sorted_def asks_sorted_def sorted_wrt_rev
    priced_iff SortAsks_def SortBids_def)

end
