(* ===== verification/Calculator.thy ===== *)
theory Calculator
  imports Book
begin

text \<open>
  What an order would do to a book: \<open>exchanges/orderbook/calculator.go\<close>.  A status message is
  not modelled beyond the warning it ends in.

  The lemmas show which levels a price target consumes, that the simulated sale and the average
  price are exact on books of whole numbers, and that the simulated sale agrees with the movement
  that \<open>tranches.go\<close> computes for the same amount by its own loop.
\<close>

section \<open>Deployment of an amount\<close>

record deployment_action =
  ReferencePrice :: f64
  TranchePositionPrice :: f64
  BaseAmount :: f64
  QuoteAmount :: f64
  act_Tranches :: tranches
  FullLiquidityUsed :: bool

definition zero_action :: deployment_action where
  "zero_action = \<lparr>ReferencePrice = 0, TranchePositionPrice = 0, BaseAmount = 0, QuoteAmount = 0,
     act_Tranches = [], FullLiquidityUsed = False\<rparr>"

record whale_bomb_result =
  wb_Amount :: f64
  MinimumPrice :: f64
  MaximumPrice :: f64
  PercentageGainOrLoss :: f64
  Orders :: tranches
  Warning :: string

definition fullLiquidityUsageWarning :: string where
  "fullLiquidityUsageWarning = ''[WARNING]: Full liquidity exhausted.''"

definition errPriceTargetInvalid :: go_error where
  "errPriceTargetInvalid = Sentinel ''orderbook.errPriceTargetInvalid''"
definition errCannotShiftPrice :: go_error where
  "errCannotShiftPrice = Sentinel ''orderbook.errCannotShiftPrice''"

text \<open>The two loops of \<open>findAmount\<close> differ in the comparison that ends them; \<open>last\<close> is the price of
  the last level, which the code reads again after the loop.\<close>

fun find_loop :: "(f64 \<Rightarrow> bool) \<Rightarrow> tranches \<Rightarrow> f64 \<Rightarrow> deployment_action \<Rightarrow> deployment_action" where
  "find_loop reached [] last_price action =
     action\<lparr>TranchePositionPrice := last_price, FullLiquidityUsed := True\<rparr>"
| "find_loop reached (t # ts) last_price action =
     (if reached (Price t) then action\<lparr>TranchePositionPrice := Price t\<rparr>
      else find_loop reached ts last_price
        (action\<lparr>act_Tranches := act_Tranches action @ [t],
                QuoteAmount := QuoteAmount action + Price t * Amount t,
                BaseAmount := BaseAmount action + Amount t\<rparr>))"

definition findAmount :: "book \<Rightarrow> f64 \<Rightarrow> bool \<Rightarrow> deployment_action go_result" where
  "findAmount b priceTarget buying =
     (if buying then
        (case bk_Asks b of
           [] \<Rightarrow> Inl errNoLiquidity
         | t # ts \<Rightarrow>
             if priceTarget < Price t then Inl (Errorf ''%w to %f as below'' [errCannotShiftPrice])
             else Inr (find_loop (\<lambda>p. priceTarget \<le> p) (t # ts) (Price (last (t # ts)))
                         (zero_action\<lparr>ReferencePrice := Price t\<rparr>)))
      else
        (case bk_Bids b of
           [] \<Rightarrow> Inl errNoLiquidity
         | t # ts \<Rightarrow>
             if Price t < priceTarget then Inl (Errorf ''%w to %f as above'' [errCannotShiftPrice])
             else Inr (find_loop (\<lambda>p. p \<le> priceTarget) (t # ts) (Price (last (t # ts)))
                         (zero_action\<lparr>ReferencePrice := Price t\<rparr>))))"

text \<open>The levels of \<open>buy\<close> and of \<open>sell\<close>: the head of \<open>ts\<close> is the next level, if there is one.\<close>

definition next_position :: "tranches \<Rightarrow> deployment_action \<Rightarrow> deployment_action" where
  "next_position ts action =
     (case ts of t # _ \<Rightarrow> action\<lparr>TranchePositionPrice := Price t\<rparr>
      | [] \<Rightarrow> action\<lparr>FullLiquidityUsed := True\<rparr>)"

definition partial :: "tranche \<Rightarrow> f64 \<Rightarrow> tranche" where
  "partial t amnt = zero_tranche\<lparr>Price := Price t, Amount := amnt\<rparr>"

fun buy_loop :: "tranches \<Rightarrow> f64 \<Rightarrow> deployment_action \<Rightarrow> deployment_action" where
  "buy_loop [] quote action = action"
| "buy_loop (t # ts) quote action =
     (let action = action\<lparr>TranchePositionPrice := Price t\<rparr>;
          trancheValue = Price t * Amount t;
          action = action\<lparr>QuoteAmount := QuoteAmount action + trancheValue\<rparr>;
          remaining = quote - trancheValue
      in if remaining \<le> 0 then
           (let action = (if feq remaining 0 then next_position ts action else action);
                subAmount = quote / Price t
            in action\<lparr>act_Tranches := act_Tranches action @ [partial t subAmount],
                      BaseAmount := BaseAmount action + subAmount\<rparr>)
         else
           (let action = (if ts = [] then action\<lparr>FullLiquidityUsed := True\<rparr> else action)
            in buy_loop ts remaining
                 (action\<lparr>BaseAmount := BaseAmount action + Amount t,
                         act_Tranches := act_Tranches action @ [t]\<rparr>)))"

definition buy :: "book \<Rightarrow> f64 \<Rightarrow> deployment_action go_result" where
  "buy b quote =
     (if quote \<le> 0 then Inl errQuoteAmountInvalid
      else case bk_Asks b of
             [] \<Rightarrow> Inl errNoLiquidity
           | t # ts \<Rightarrow> Inr (buy_loop (t # ts) quote (zero_action\<lparr>ReferencePrice := Price t\<rparr>)))"

fun sell_loop :: "tranches \<Rightarrow> f64 \<Rightarrow> deployment_action \<Rightarrow> deployment_action" where
  "sell_loop [] base action = action"
| "sell_loop (t # ts) base action =
     (let action = action\<lparr>TranchePositionPrice := Price t\<rparr>;
          remaining = base - Amount t
      in if remaining \<le> 0 then
           (let action = (if feq remaining 0 then next_position ts action else action)
            in action\<lparr>act_Tranches := act_Tranches action @ [partial t base],
                      BaseAmount := BaseAmount action + base,
                      QuoteAmount := QuoteAmount action + base * Price t\<rparr>)
         else
           (let action = (if ts = [] then action\<lparr>FullLiquidityUsed := True\<rparr> else action)
            in sell_loop ts remaining
                 (action\<lparr>BaseAmount := BaseAmount action + Amount t,
                         QuoteAmount := QuoteAmount action + Amount t * Price t,
                         act_Tranches := act_Tranches action @ [t]\<rparr>)))"

definition sell :: "book \<Rightarrow> f64 \<Rightarrow> deployment_action go_result" where
  "sell b base =
     (if base \<le> 0 then Inl errBaseAmountInvalid
      else case bk_Bids b of
             [] \<Rightarrow> Inl errNoLiquidity
           | t # ts \<Rightarrow> Inr (sell_loop (t # ts) base (zero_action\<lparr>ReferencePrice := Price t\<rparr>)))"

section \<open>Whale bombs, simulated orders, average price\<close>

definition liquidity_warning :: "deployment_action \<Rightarrow> string" where
  "liquidity_warning action = (if FullLiquidityUsed action then fullLiquidityUsageWarning else [])"

definition WhaleBomb :: "book \<Rightarrow> f64 \<Rightarrow> bool \<Rightarrow> whale_bomb_result go_result" where
  "WhaleBomb b priceTarget buying =
     (if priceTarget < 0 then Inl errPriceTargetInvalid
      else case findAmount b priceTarget buying of
        Inl err \<Rightarrow> Inl err
      | Inr action \<Rightarrow>
          (let (minPrice, maxPrice, amnt) =
                 (if buying then (ReferencePrice action, TranchePositionPrice action, QuoteAmount action)
                  else (TranchePositionPrice action, ReferencePrice action, BaseAmount action))
           in Inr \<lparr>wb_Amount = amnt, MinimumPrice = minPrice, MaximumPrice = maxPrice,
                PercentageGainOrLoss =
                  PercentageChange (ReferencePrice action) (TranchePositionPrice action),
                Orders = act_Tranches action, Warning = liquidity_warning action\<rparr>))"

definition SimulateOrder :: "book \<Rightarrow> f64 \<Rightarrow> bool \<Rightarrow> whale_bomb_result go_result" where
  "SimulateOrder b amnt buying =
     (case (if buying then buy b amnt else sell b amnt) of
        Inl err \<Rightarrow> Inl err
      | Inr action \<Rightarrow>
          (let (boughtAmount, minimumPrice, maximumPrice) =
                 (if buying then
                    (BaseAmount action, ReferencePrice action, TranchePositionPrice action)
                  else (QuoteAmount action, TranchePositionPrice action, ReferencePrice action))
           in Inr \<lparr>wb_Amount = boughtAmount, MinimumPrice = minimumPrice,
                MaximumPrice = maximumPrice,
                PercentageGainOrLoss =
                  PercentageChange (ReferencePrice action) (TranchePositionPrice action),
                Orders = act_Tranches action, Warning = liquidity_warning action\<rparr>))"

fun nominal_loop :: "tranches \<Rightarrow> f64 \<Rightarrow> f64 \<Rightarrow> f64 \<times> f64" where
  "nominal_loop [] aggNominalAmount remainingAmount = (aggNominalAmount, remainingAmount)"
| "nominal_loop (t # ts) aggNominalAmount remainingAmount =
     (if remainingAmount \<le> Amount t then (aggNominalAmount + Price t * remainingAmount, 0)
      else nominal_loop ts (aggNominalAmount + Price t * Amount t) (remainingAmount - Amount t))"

definition FindNominalAmount :: "tranches \<Rightarrow> f64 \<Rightarrow> f64 \<times> f64" where
  "FindNominalAmount ts amnt = nominal_loop ts 0 amnt"

definition GetAveragePrice :: "book \<Rightarrow> bool \<Rightarrow> f64 \<Rightarrow> f64 go_result" where
  "GetAveragePrice b buying amnt =
     (if amnt \<le> 0 then Inl errAmountInvalid
      else
        let (aggNominalAmount, remainingAmount) =
              FindNominalAmount (if buying then bk_Asks b else bk_Bids b) amnt
        in if \<not> feq remainingAmount 0
           then Inl (Errorf ''%w for %v on exchange %v to support a buy amount of %v''
                       [errNotEnoughLiquidity])
           else Inr (aggNominalAmount / amnt))"

section \<open>Levels a target consumes\<close>

lemma find_loop_levels:
  "act_Tranches (find_loop reached ts l a) =
     act_Tranches a @ takeWhile (\<lambda>t. \<not> reached (Price t)) ts"
  "ReferencePrice (find_loop reached ts l a) = ReferencePrice a"
  "TranchePositionPrice (find_loop reached ts l a) =
     (case dropWhile (\<lambda>t. \<not> reached (Price t)) ts of t # _ \<Rightarrow> Price t | [] \<Rightarrow> l)"
  "FullLiquidityUsed (find_loop reached ts l a) \<longleftrightarrow>
     FullLiquidityUsed a \<or> list_all (\<lambda>t. \<not> reached (Price t)) ts"
  by (induction ts arbitrary: a) auto

section \<open>Exactness on whole numbers\<close>

lemma whole_sub_cmp:
  assumes "m \<le> 2 ^ 53" and "n \<le> 2 ^ 53"
  shows "whole m - whole n \<le> 0 \<longleftrightarrow> m \<le> n" and "feq (whole m - whole n) 0 \<longleftrightarrow> m = n"
proof -
  have "whole m - whole n < 0" if "m < n" using that assms by (simp add: whole_sub_less)
  moreover have "whole m - whole n = whole (m - n)" if "n \<le> m" using that assms by (simp add: whole_sub)
  ultimately show "whole m - whole n \<le> 0 \<longleftrightarrow> m \<le> n" and "feq (whole m - whole n) 0 \<longleftrightarrow> m = n"
    using f64_less_imp_le f64_less_not_feq by (cases "m < n"; fastforce)+
qed

lemma whole_Cons:
  "list_all2 whole_tranche (t # ts) ps \<longleftrightarrow>
     (\<exists>p n ps'. ps = (p, n) # ps' \<and> Price t = whole p \<and> Amount t = whole n \<and>
        list_all2 whole_tranche ts ps')"
  by (cases ps) (auto simp: whole_tranche_def)

lemma next_position_sel [simp]:
  "BaseAmount (next_position ts a) = BaseAmount a" "QuoteAmount (next_position ts a) = QuoteAmount a"
  "act_Tranches (next_position ts a) = act_Tranches a"
  "ReferencePrice (next_position ts a) = ReferencePrice a"
  "FullLiquidityUsed (next_position ts a) \<longleftrightarrow> FullLiquidityUsed a \<or> ts = []"
  by (simp_all add: next_position_def split: list.splits)

lemma part_value:
  fixes b :: nat
  assumes "b \<le> n" and "q + (p * n + v) \<le> m"
  shows "p * b \<le> m \<and> q + p * b \<le> m"
  using mult_le_mono2 [OF assms(1), of p] assms(2) by linarith

lemma sell_loop_whole:
  assumes "list_all2 whole_tranche ts ps" and "list_all (\<lambda>pa. 0 < snd pa) ps"
    and "BaseAmount a = whole s" and "QuoteAmount a = whole q" and "\<not> FullLiquidityUsed a"
    and "0 < b" and "ps \<noteq> []" and "s + b \<le> 2 ^ 53" and "depth_of ps \<le> 2 ^ 53"
    and "q + value_of ps \<le> 2 ^ 53"
  shows "BaseAmount (sell_loop ts (whole b) a) = whole (s + min b (depth_of ps)) \<and>
    QuoteAmount (sell_loop ts (whole b) a) = whole (q + cost_of ps b) \<and>
    FullLiquidityUsed (sell_loop ts (whole b) a) = (depth_of ps \<le> b)"
  using assms
proof (induction ts arbitrary: a s q b ps)
  case Nil
  then show ?case by simp
next
  case (Cons t ts)
  obtain p n ps' where ps: "ps = (p, n) # ps'" "list_all2 whole_tranche ts ps'"
    and t: "Price t = whole p" "Amount t = whole n"
    using Cons.prems(1) by (auto simp: whole_Cons)
  have n: "0 < n" "b \<le> 2 ^ 53" "n \<le> 2 ^ 53" using Cons.prems ps by auto
  show ?case
  proof (cases "b \<le> n")
    case True
    have "p * b \<le> 2 ^ 53 \<and> q + p * b \<le> 2 ^ 53"
      by (rule part_value [OF True, of q p "value_of ps'"]) (use Cons.prems(10) ps in simp)
    then have "b * p \<le> 2 ^ 53" "q + b * p \<le> 2 ^ 53" by (simp_all add: mult.commute)
    moreover have "ts = [] \<longleftrightarrow> ps' = []" using ps(2) by auto
    moreover have "ps' \<noteq> [] \<Longrightarrow> 0 < depth_of ps'" using Cons.prems(2) ps by (cases ps') auto
    ultimately show ?thesis using True n Cons.prems t ps(1)
      by (auto simp: Let_def whole_sub_cmp whole_add whole_mul ac_simps min_def)
  next
    case False
    let ?a = "a\<lparr>TranchePositionPrice := Price t, BaseAmount := BaseAmount a + Amount t,
      QuoteAmount := QuoteAmount a + Amount t * Price t, act_Tranches := act_Tranches a @ [t]\<rparr>"
    have "n * p \<le> 2 ^ 53" "q + n * p \<le> 2 ^ 53" using Cons.prems(10) ps by (auto simp: ac_simps)
    then have a: "BaseAmount ?a = whole (s + n)" "QuoteAmount ?a = whole (q + p * n)"
      "\<not> FullLiquidityUsed ?a"
      using False n Cons.prems t by (simp_all add: whole_add whole_mul ac_simps)
    have sub: "whole b - whole n = whole (b - n)" using False n by (simp add: whole_sub)
    show ?thesis
    proof (cases "ts = []")
      case True
      then have "ps' = []" using ps(2) by simp
      then show ?thesis using True False n Cons.prems t ps(1) a
        by (simp add: Let_def sub min_def ac_simps)
    next
      case tail: False
      then have "ps' \<noteq> []" using ps(2) by auto
      then have "BaseAmount (sell_loop ts (whole (b - n)) ?a) = whole (s + n + min (b - n) (depth_of ps')) \<and>
          QuoteAmount (sell_loop ts (whole (b - n)) ?a) = whole (q + p * n + cost_of ps' (b - n)) \<and>
          FullLiquidityUsed (sell_loop ts (whole (b - n)) ?a) = (depth_of ps' \<le> b - n)"
        by (intro Cons.IH [OF ps(2) _ a]) (use False Cons.prems ps(1) in auto)
      moreover have "sell_loop (t # ts) (whole b) a = sell_loop ts (whole (b - n)) ?a"
        using False tail n t sub by (simp add: Let_def whole_sub_cmp)
      moreover have "s + n + min (b - n) (depth_of ps') = s + min b (depth_of ps)"
        "depth_of ps' \<le> b - n \<longleftrightarrow> depth_of ps \<le> b" using False ps(1) by auto
      ultimately show ?thesis using False ps(1) by (simp add: add.assoc)
    qed
  qed
qed

lemma nominal_loop_whole:
  assumes "list_all2 whole_tranche ts ps" and "q + value_of ps \<le> 2 ^ 53" and "b \<le> 2 ^ 53"
  shows "nominal_loop ts (whole q) (whole b) = (whole (q + cost_of ps b), whole (b - depth_of ps))"
  using assms
proof (induction ts arbitrary: q b ps)
  case Nil
  then show ?case by simp
next
  case (Cons t ts)
  obtain p n ps' where ps: "ps = (p, n) # ps'" "list_all2 whole_tranche ts ps'"
    and t: "Price t = whole p" "Amount t = whole n"
    using Cons.prems(1) by (auto simp: whole_Cons)
  show ?case
  proof (cases "b \<le> n")
    case True
    have "p * b \<le> 2 ^ 53 \<and> q + p * b \<le> 2 ^ 53"
      by (rule part_value [OF True, of q p "value_of ps'"]) (use Cons.prems(2) ps in simp)
    then have "p * b \<le> 2 ^ 53" "q + p * b \<le> 2 ^ 53" by simp_all
    moreover have "cost_of ps b = p * b" using True by (cases "b = n") (auto simp: ps(1))
    ultimately show ?thesis using True t ps(1) by (simp add: whole_add whole_mul whole_0)
  next
    case False
    have "whole q + whole p * whole n = whole (q + p * n)"
      using Cons.prems(2) ps by (simp add: whole_add whole_mul)
    moreover have "whole b - whole n = whole (b - n)" using False Cons.prems(3) by (simp add: whole_sub)
    ultimately show ?thesis
      using False t ps Cons.prems Cons.IH [OF ps(2), of "q + p * n" "b - n"] by (simp add: ac_simps)
  qed
qed

section \<open>Properties\<close>

text \<open>Also: the levels \<open>findAmount\<close> reports for a price target are exactly those
  ahead of the first level that has reached the target; the position it ends in is that level's
  price, or the last price of the book if no level reaches the target, and only then is the
  liquidity reported as used up.\<close>

theorem target_levels:
  assumes "findAmount b target buying = Inr a"
  shows "let side = (if buying then bk_Asks b else bk_Bids b);
             ahead = (\<lambda>t. \<not> (if buying then target \<le> Price t else Price t \<le> target))
    in side \<noteq> [] \<and> act_Tranches a = takeWhile ahead side \<and> ReferencePrice a = Price (hd side) \<and>
       TranchePositionPrice a =
         (case dropWhile ahead side of t # _ \<Rightarrow> Price t | [] \<Rightarrow> Price (last side)) \<and>
       (FullLiquidityUsed a \<longleftrightarrow> list_all ahead side)"
proof -
  let ?side = "if buying then bk_Asks b else bk_Bids b"
  let ?reached = "\<lambda>p. if buying then target \<le> p else p \<le> target"
  obtain t ts where side: "?side = t # ts"
    and a: "a = find_loop ?reached (t # ts) (Price (last (t # ts)))
      (zero_action\<lparr>ReferencePrice := Price t\<rparr>)"
    using assms
    by (cases buying) (auto simp: findAmount_def simp del: find_loop.simps split: list.splits if_splits)
  show ?thesis unfolding a find_loop_levels Let_def side by (simp add: zero_action_def)
qed

theorem target_levels_witness:
  "\<exists>a. findAmount sample_book (Fin 12) True = Inr a \<and> act_Tranches a = [tr 3 11 1]"
proof -
  obtain a where a: "findAmount sample_book (Fin 12) True = Inr a"
    by (simp add: findAmount_def sample_book_def f64_less_finite)
  then show ?thesis using target_levels [OF a]
    by (auto simp: sample_book_def f64_le_finite Let_def)
qed

text \<open>C34: on bids of whole prices and amounts whose value fits a float's mantissa, a
  simulated sale of \<open>b\<close> units yields exactly their cost level by level, warns exactly if the sale
  reaches the depth of the book, and agrees with \<open>getMovementByBase\<close>, which walks the same levels
  by a loop of its own.\<close>

theorem simulated_sale:
  assumes "list_all2 whole_tranche (bk_Bids bk) ps" and "ps \<noteq> []"
    and "list_all (\<lambda>pa. 0 < fst pa \<and> 0 < snd pa) ps" and "0 < b" and "0 < r"
    and "b \<le> 2 ^ 53" and "depth_of ps \<le> 2 ^ 53" and "value_of ps \<le> 2 ^ 53"
  shows "\<exists>res m. SimulateOrder bk (whole b) False = Inr res \<and> wb_Amount res = whole (cost_of ps b) \<and>
    (Warning res \<noteq> [] \<longleftrightarrow> depth_of ps \<le> b) \<and>
    getMovementByBase (bk_Bids bk) (whole b) (whole r) False = Inr m \<and>
    wb_Amount res = Purchased m \<and> (Warning res \<noteq> [] \<longleftrightarrow> FullBookSideConsumed m)"
proof -
  obtain t ts where ts: "bk_Bids bk = t # ts" using assms(1,2) by (cases "bk_Bids bk") auto
  let ?a = "zero_action\<lparr>ReferencePrice := Price t\<rparr>"
  have pos: "list_all (\<lambda>pa. 0 < snd pa) ps" using assms(3) by (simp add: list_all_iff)
  have z: "BaseAmount ?a = whole 0" "QuoteAmount ?a = whole 0" "\<not> FullLiquidityUsed ?a"
    by (simp_all add: zero_action_def whole_0)
  have "sell bk (whole b) = Inr (sell_loop (bk_Bids bk) (whole b) ?a)"
    using assms(4) ts by (simp add: sell_def)
  moreover note sell_loop_whole [OF assms(1) pos z assms(4,2)]
  moreover obtain m where "getMovementByBase (bk_Bids bk) (whole b) (whole r) False = Inr m"
    "Purchased m = whole (cost_of ps b)" "FullBookSideConsumed m = (depth_of ps \<le> b)"
    using getMovementByBase_whole [OF assms, of False] by auto
  ultimately show ?thesis using assms(6-8)
    by (auto simp: SimulateOrder_def liquidity_warning_def fullLiquidityUsageWarning_def)
qed

definition whole_sample :: book where
  "whole_sample = sample_book\<lparr>bk_Bids := [tr 1 100 1, tr 2 90 2]\<rparr>"

lemma whole_sample_bids: "list_all2 whole_tranche (bk_Bids whole_sample) [(100, 1), (90, 2)]"
  by (simp add: whole_sample_def whole_tranche_def whole_def)

theorem simulated_sale_witness:
  "\<exists>res. SimulateOrder whole_sample (whole 2) False = Inr res \<and> wb_Amount res = whole 190"
  using simulated_sale [OF whole_sample_bids, of 2 100] by auto

text \<open>Also: on a side of whole prices and amounts whose value fits a float's mantissa,
  \<open>GetAveragePrice\<close> is the exact cost divided by the amount (rounded once), and fails exactly if
  the amount exceeds the depth.\<close>

theorem average_price:
  assumes "list_all2 whole_tranche (if buying then bk_Asks bk else bk_Bids bk) ps" and "0 < b"
    and "b \<le> 2 ^ 53" and "value_of ps \<le> 2 ^ 53"
  shows "if b \<le> depth_of ps then GetAveragePrice bk buying (whole b) = Inr (whole (cost_of ps b) / whole b)
    else is_err (case GetAveragePrice bk buying (whole b) of Inl e \<Rightarrow> Some e | Inr _ \<Rightarrow> None)
      errNotEnoughLiquidity"
proof -
  have "FindNominalAmount (if buying then bk_Asks bk else bk_Bids bk) (whole b) =
      (whole (cost_of ps b), whole (b - depth_of ps))"
    using nominal_loop_whole [OF assms(1), of 0 b] assms(3,4)
    by (simp add: FindNominalAmount_def whole_0)
  then show ?thesis using assms(2) by (simp add: GetAveragePrice_def errNotEnoughLiquidity_def)
qed

theorem average_price_witness:
  "GetAveragePrice whole_sample False (whole 3) = Inr (whole 280 / whole 3)"
  using average_price [of False whole_sample "[(100, 1), (90, 2)]" 3] whole_sample_bids by simp

text \<open>A purchase adds the whole value of the level it ends in to the quote amount, not the part
  that is spent: here 50 are spent and 1000 reported.\<close>

lemma buy_overstates_quote:
  "\<exists>a. buy (sample_book\<lparr>bk_Asks := [tr 1 100 10]\<rparr>) (whole 50) = Inr a \<and>
     QuoteAmount a = whole 1000"
proof -
  have t: "Price (tr 1 100 10) = whole 100" "Amount (tr 1 100 10) = whole 10"
    by (simp_all add: whole_def)
  have "whole 50 - whole 1000 \<le> 0" "\<not> feq (whole 50 - whole 1000) 0"
    by (simp_all add: whole_sub_cmp)
  then show ?thesis using t
    by (simp add: buy_def Let_def whole_mul zero_action_def whole_0 whole_add)
qed

end
