(* ===== verification/Dispatch.thy ===== *)
theory Dispatch
  imports Go_Prelude "HOL-Library.AList" "HOL-Library.Multiset"
begin

text \<open>
  The dispatcher of \<open>dispatch/dispatch.go\<close> and its multiplexer \<open>dispatch/mux.go\<close>: publishers queue
  jobs, workers relay each job to the channels subscribed to its ID, and channels are reused
  through a pool.

  A channel is a number in the order of creation, an ID a 128-bit word whose zero is \<open>uuid.Nil\<close>.
  The relayed values that no receiver has taken yet are the goroutines of \<open>relayer\<close>, blocked in
  their select: a list of channel, data, ID and the start of the dispatcher they belong to.  What
  the scheduler, the pool and the receivers decide is an argument of the operation or an event
  of the system: which pooled channel \<open>Get\<close> returns, which blocked send a receive meets.

  The lemmas show that no channel is closed twice or sent to after it was closed, that the
  queue is bounded and an overflow is reported, that a relay reaches exactly the channels of the
  job's ID, and what survives a stop.
\<close>

section \<open>State\<close>

type_synonym uuid = "128 word"
type_synonym 'd job = "'d \<times> uuid"
type_synonym 'd blocked = "nat \<times> 'd \<times> uuid \<times> nat"

record 'd dispatcher =
  routes :: "(uuid \<times> nat list) list"
  jobs :: "'d job list"
  capacity :: nat
  maxWorkers :: nat
  workers :: nat
  running :: bool
  stopping :: bool
  start_no :: nat
  outbound :: "nat list"
  channels :: nat
  blocked :: "'d blocked list"
  closed :: "nat list"
  subscriberCount :: "32 word"

text \<open>\<open>outbound\<close> is the pool; \<open>channels\<close> the number of channels made so far; \<open>closed\<close> the closed
  ones, in order.  The wait group is the live workers and the blocked sends.  \<open>stopping\<close>: inside
  \<open>stop\<close>, which holds the write lock.\<close>

definition ErrNotRunning :: go_error where
  "ErrNotRunning = Sentinel ''dispatch.ErrNotRunning''"
definition errDispatcherNotInitialized :: go_error where
  "errDispatcherNotInitialized = Sentinel ''dispatch.errDispatcherNotInitialized''"
definition errDispatcherAlreadyRunning :: go_error where
  "errDispatcherAlreadyRunning = Sentinel ''dispatch.errDispatcherAlreadyRunning''"
definition errDispatchShutdown :: go_error where
  "errDispatchShutdown = Sentinel ''dispatch.errDispatchShutdown''"
definition errDispatcherUUIDNotFoundInRouteList :: go_error where
  "errDispatcherUUIDNotFoundInRouteList =
     Sentinel ''dispatch.errDispatcherUUIDNotFoundInRouteList''"
definition errChannelNotFoundInUUIDRef :: go_error where
  "errChannelNotFoundInUUIDRef = Sentinel ''dispatch.errChannelNotFoundInUUIDRef''"
definition errUUIDCollision :: go_error where
  "errUUIDCollision = Sentinel ''dispatch.errUUIDCollision''"
definition errDispatcherJobsAtLimit :: go_error where
  "errDispatcherJobsAtLimit = Sentinel ''dispatch.errDispatcherJobsAtLimit''"
definition errChannelIsNil :: go_error where
  "errChannelIsNil = Sentinel ''dispatch.errChannelIsNil''"
definition errUUIDGeneratorFunctionIsNil :: go_error where
  "errUUIDGeneratorFunctionIsNil = Sentinel ''dispatch.errUUIDGeneratorFunctionIsNil''"
definition errMuxIsNil :: go_error where
  "errMuxIsNil = Sentinel ''dispatch.errMuxIsNil''"
definition errIDNotSet :: go_error where
  "errIDNotSet = Sentinel ''dispatch.errIDNotSet''"
definition errNoData :: go_error where
  "errNoData = Sentinel ''dispatch.errNoData''"
definition errNoIDs :: go_error where
  "errNoIDs = Sentinel ''dispatch.errNoIDs''"

definition DefaultJobsLimit :: nat where
  "DefaultJobsLimit = 100"

definition DefaultMaxWorkers :: nat where
  "DefaultMaxWorkers = 10"

section \<open>Operations\<close>

definition NewDispatcher :: "'d dispatcher" where
  "NewDispatcher = \<lparr>routes = [], jobs = [], capacity = 0, maxWorkers = 0, workers = 0,
     running = False, stopping = False, start_no = 0, outbound = [], channels = 0, blocked = [],
     closed = [], subscriberCount = 0\<rparr>"

text \<open>\<open>if d == nil\<close>: the receiver of every method may be a nil pointer.\<close>

definition not_nil :: "'s option \<Rightarrow> 'r \<Rightarrow> ('s \<Rightarrow> 's \<times> 'r) \<Rightarrow> 's option \<times> 'r" where
  "not_nil d r f = (case d of None \<Rightarrow> (None, r) | Some s \<Rightarrow> (let (s', x) = f s in (Some s', x)))"

definition start :: "'d dispatcher option \<Rightarrow> int \<Rightarrow> int \<Rightarrow> 'd dispatcher option \<times> go_error option"
where
  "start d wanted channelCapacity = not_nil d (Some errDispatcherNotInitialized) (\<lambda>d.
     if running d then (d, Some errDispatcherAlreadyRunning)
     else
       let ws = (if wanted < 1 then DefaultMaxWorkers else nat wanted);
           cap = (if channelCapacity < 1 then DefaultJobsLimit else nat channelCapacity)
       in (d\<lparr>running := True, jobs := [], capacity := cap, maxWorkers := ws,
             start_no := start_no d + 1, workers := workers d + ws\<rparr>, None))"

text \<open>\<open>stop\<close> up to its wait; its wait is either over, when the group is empty, or times out.\<close>

definition stop_begin :: "'d dispatcher option \<Rightarrow> 'd dispatcher option \<times> go_error option" where
  "stop_begin d = not_nil d (Some errDispatcherNotInitialized) (\<lambda>d.
     if \<not> running d then (d, Some ErrNotRunning)
     else (d\<lparr>running := False, stopping := True\<rparr>, None))"

definition wg_count :: "'d dispatcher \<Rightarrow> nat" where
  "wg_count d = workers d + length (blocked d)"

definition stop_end :: "'d dispatcher \<Rightarrow> 'd dispatcher \<times> go_error option" where
  "stop_end d =
     (d\<lparr>stopping := False, closed := closed d @ concat (map snd (routes d)),
        routes := map (\<lambda>(key, pipes). (key, [])) (routes d)\<rparr>, None)"

definition stop_timeout :: "'d dispatcher \<Rightarrow> 'd dispatcher \<times> go_error option" where
  "stop_timeout d = (d\<lparr>stopping := False\<rparr>, Some errDispatchShutdown)"

definition isRunning :: "'d dispatcher option \<Rightarrow> bool" where
  "isRunning d = (case d of None \<Rightarrow> False | Some d \<Rightarrow> running d)"

text \<open>One round of \<open>relayer\<close> with the job it received.\<close>

definition relay :: "'d job \<Rightarrow> 'd dispatcher \<Rightarrow> 'd dispatcher" where
  "relay j d = (case j of (data, ID) \<Rightarrow>
     if ID = 0 then d
     else case map_of (routes d) ID of
            None \<Rightarrow> d
          | Some pipes \<Rightarrow> d\<lparr>blocked := blocked d @ map (\<lambda>p. (p, data, ID, start_no d)) pipes\<rparr>)"

definition publish ::
  "'d dispatcher option \<Rightarrow> uuid \<Rightarrow> 'd option \<Rightarrow> 'd dispatcher option \<times> go_error option" where
  "publish d ID data = not_nil d (Some errDispatcherNotInitialized) (\<lambda>d.
     if ID = 0 then (d, Some errIDNotSet)
     else case data of None \<Rightarrow> (d, Some errNoData) | Some x \<Rightarrow>
       if \<not> running d then (d, None)
       else if length (jobs d) < capacity d then (d\<lparr>jobs := jobs d @ [(x, ID)]\<rparr>, None)
       else (d, Some (Errorf ''limitMessage'' [errDispatcherJobsAtLimit])))"

text \<open>\<open>outbound.Get\<close>: some pooled channel, or a new one.\<close>

definition pool_get :: "nat \<Rightarrow> 'd dispatcher \<Rightarrow> 'd dispatcher \<times> nat" where
  "pool_get pick d =
     (if pick < length (outbound d)
      then (d\<lparr>outbound := take pick (outbound d) @ drop (pick + 1) (outbound d)\<rparr>, outbound d ! pick)
      else (d\<lparr>channels := channels d + 1\<rparr>, channels d))"

definition subscribe ::
  "nat \<Rightarrow> 'd dispatcher option \<Rightarrow> uuid \<Rightarrow> 'd dispatcher option \<times> nat go_result" where
  "subscribe pick d ID = not_nil d (Inl errDispatcherNotInitialized) (\<lambda>d.
     if ID = 0 then (d, Inl errIDNotSet)
     else if \<not> running d then (d, Inl ErrNotRunning)
     else case map_of (routes d) ID of
       None \<Rightarrow> (d, Inl errDispatcherUUIDNotFoundInRouteList)
     | Some pipes \<Rightarrow>
         (let (d, ch) = pool_get pick d
          in (d\<lparr>routes := AList.update ID (pipes @ [ch]) (routes d),
               subscriberCount := subscriberCount d + 1\<rparr>, Inr ch)))"

primrec index_of :: "nat \<Rightarrow> nat list \<Rightarrow> nat option" where
  "index_of c [] = None"
| "index_of c (p # ps) = (if p = c then Some 0 else map_option Suc (index_of c ps))"

definition remove_pipe :: "nat \<Rightarrow> nat list \<Rightarrow> nat list" where
  "remove_pipe i pipes = take (length pipes - 1) (pipes[i := pipes ! (length pipes - 1)])"

text \<open>The non-blocking receive that drains the channel: it meets the blocked send at index \<open>meet\<close>
  if that send is on the channel, the closed channel, or nothing.  The result is Go's \<open>ok\<close>.\<close>

definition drain :: "nat \<Rightarrow> nat \<Rightarrow> 'd dispatcher \<Rightarrow> 'd dispatcher \<times> bool" where
  "drain meet usedChan d =
     (if meet < length (blocked d) \<and> fst (blocked d ! meet) = usedChan
      then (d\<lparr>blocked := take meet (blocked d) @ drop (meet + 1) (blocked d)\<rparr>, True)
      else (d, usedChan \<notin> set (closed d)))"

definition unsubscribe ::
  "nat \<Rightarrow> 'd dispatcher option \<Rightarrow> uuid \<Rightarrow> nat option \<Rightarrow> 'd dispatcher option \<times> go_error option" where
  "unsubscribe meet d ID used = not_nil d (Some errDispatcherNotInitialized) (\<lambda>d.
     if ID = 0 then (d, Some errIDNotSet)
     else case used of None \<Rightarrow> (d, Some errChannelIsNil) | Some usedChan \<Rightarrow>
       if \<not> running d then (d, None)
       else case map_of (routes d) ID of
         None \<Rightarrow> (d, Some errDispatcherUUIDNotFoundInRouteList)
       | Some pipes \<Rightarrow>
           (case index_of usedChan pipes of
              None \<Rightarrow> (d, Some errChannelNotFoundInUUIDRef)
            | Some i \<Rightarrow>
                (let d = d\<lparr>routes := AList.update ID (remove_pipe i pipes) (routes d),
                           subscriberCount := subscriberCount d - 1\<rparr>;
                     (d, ok) = drain meet usedChan d
                 in (if ok then d\<lparr>outbound := outbound d @ [usedChan]\<rparr> else d, None))))"

text \<open>\<open>genFn\<close> is nil, or what its call returns.\<close>

definition getNewID ::
  "uuid go_result option \<Rightarrow> 'd dispatcher option \<Rightarrow> 'd dispatcher option \<times> uuid go_result" where
  "getNewID genFn d = not_nil d (Inl errDispatcherNotInitialized) (\<lambda>d.
     case genFn of
       None \<Rightarrow> (d, Inl errUUIDGeneratorFunctionIsNil)
     | Some (Inl err) \<Rightarrow> (d, Inl err)
     | Some (Inr newID) \<Rightarrow>
         if map_of (routes d) newID \<noteq> None then (d, Inl errUUIDCollision)
         else (d\<lparr>routes := AList.update newID [] (routes d)\<rparr>, Inr newID))"

section \<open>Multiplexer\<close>

text \<open>A \<open>Mux\<close> holds the dispatcher; the global one stands in for nil.  A nil \<open>Mux\<close> is \<open>None\<close>.\<close>

type_synonym 'd mux = "'d dispatcher option"

definition GetNewMux :: "'d dispatcher \<Rightarrow> 'd dispatcher option \<Rightarrow> 'd mux" where
  "GetNewMux global d = Some (case d of None \<Rightarrow> global | Some d \<Rightarrow> d)"

definition mux_Subscribe :: "nat \<Rightarrow> 'd mux \<Rightarrow> uuid \<Rightarrow> 'd mux \<times> (nat \<times> uuid) go_result" where
  "mux_Subscribe pick m ID =
     (if m = None then (m, Inl errMuxIsNil)
      else if ID = 0 then (m, Inl errIDNotSet)
      else case subscribe pick m ID of
             (m', Inl err) \<Rightarrow> (m', Inl err)
           | (m', Inr ch) \<Rightarrow> (m', Inr (ch, ID)))"

definition mux_Unsubscribe ::
  "nat \<Rightarrow> 'd mux \<Rightarrow> uuid \<Rightarrow> nat option \<Rightarrow> 'd mux \<times> go_error option" where
  "mux_Unsubscribe meet m ID ch =
     (if m = None then (m, Some errMuxIsNil) else unsubscribe meet m ID ch)"

fun publish_all :: "'d mux \<Rightarrow> uuid list \<Rightarrow> 'd option \<Rightarrow> 'd mux \<times> go_error option" where
  "publish_all m [] data = (m, None)"
| "publish_all m (ID # ids) data =
     (case publish m ID data of
        (m', Some err) \<Rightarrow> (m', Some err)
      | (m', None) \<Rightarrow> publish_all m' ids data)"

definition mux_Publish :: "'d mux \<Rightarrow> 'd option \<Rightarrow> uuid list \<Rightarrow> 'd mux \<times> go_error option" where
  "mux_Publish m data ids =
     (case m of None \<Rightarrow> (m, Some errMuxIsNil) | Some d \<Rightarrow>
        if data = None then (m, Some errNoData)
        else if ids = [] then (m, Some errNoIDs)
        else if subscriberCount d = 0 then (m, None)
        else publish_all m ids data)"

definition mux_GetID :: "uuid go_result \<Rightarrow> 'd mux \<Rightarrow> 'd mux \<times> uuid go_result" where
  "mux_GetID newV4 m = (if m = None then (m, Inl errMuxIsNil) else getNewID (Some newV4) m)"

definition pipe_Release :: "nat \<Rightarrow> 'd mux \<Rightarrow> nat \<times> uuid \<Rightarrow> 'd mux \<times> go_error option" where
  "pipe_Release meet m p = mux_Unsubscribe meet m (snd p) (Some (fst p))"

definition pipe_Channel :: "nat \<times> uuid \<Rightarrow> nat" where
  "pipe_Channel p = fst p"

section \<open>The system\<close>

text \<open>What can happen to a dispatcher.  The calls take the read or write lock, which \<open>stop\<close> holds
  from \<open>StopBegin\<close> to its end.  A worker leaves once the shutdown channel of its start is closed;
  a blocked send is met by a receiver, or abandoned once the shutdown channel is closed.\<close>

datatype 'd event =
    Start int int | StopBegin | StopEnd | StopTimeout
  | Publish uuid "'d option" | Subscribe uuid nat | Unsubscribe uuid "nat option" nat
  | NewID "uuid go_result option"
  | Relay | WorkerExit | Deliver nat | Abandon nat

definition shut :: "'d dispatcher \<Rightarrow> nat \<Rightarrow> bool" where
  "shut d s \<longleftrightarrow> \<not> running d \<or> s < start_no d"

definition unblock :: "nat \<Rightarrow> 'd dispatcher \<Rightarrow> 'd dispatcher" where
  "unblock i d = d\<lparr>blocked := take i (blocked d) @ drop (i + 1) (blocked d)\<rparr>"

fun enabled :: "'d event \<Rightarrow> 'd dispatcher \<Rightarrow> bool" where
  "enabled StopEnd d = (stopping d \<and> wg_count d = 0)"
| "enabled StopTimeout d = stopping d"
| "enabled Relay d = (0 < workers d \<and> jobs d \<noteq> [])"
| "enabled WorkerExit d = (0 < workers d \<and> \<not> running d)"
| "enabled (Deliver i) d = (i < length (blocked d))"
| "enabled (Abandon i) d = (i < length (blocked d) \<and> shut d (snd (snd (snd (blocked d ! i)))))"
| "enabled (Start w c) d = (\<not> stopping d)"
| "enabled StopBegin d = (\<not> stopping d)"
| "enabled (Publish ID data) d = (\<not> stopping d)"
| "enabled (Subscribe ID pick) d = (\<not> stopping d)"
| "enabled (Unsubscribe ID ch meet) d = (\<not> stopping d)"
| "enabled (NewID g) d = (\<not> stopping d)"

fun effect :: "'d event \<Rightarrow> 'd dispatcher \<Rightarrow> 'd dispatcher" where
  "effect (Start w c) d = the (fst (start (Some d) w c))"
| "effect StopBegin d = the (fst (stop_begin (Some d)))"
| "effect StopEnd d = fst (stop_end d)"
| "effect StopTimeout d = fst (stop_timeout d)"
| "effect (Publish ID data) d = the (fst (publish (Some d) ID data))"
| "effect (Subscribe ID pick) d = the (fst (subscribe pick (Some d) ID))"
| "effect (Unsubscribe ID ch meet) d = the (fst (unsubscribe meet (Some d) ID ch))"
| "effect (NewID g) d = the (fst (getNewID g (Some d)))"
| "effect Relay d = relay (hd (jobs d)) (d\<lparr>jobs := tl (jobs d)\<rparr>)"
| "effect WorkerExit d = d\<lparr>workers := workers d - 1\<rparr>"
| "effect (Deliver i) d = unblock i d"
| "effect (Abandon i) d = unblock i d"

fun run :: "'d event list \<Rightarrow> 'd dispatcher \<Rightarrow> 'd dispatcher option" where
  "run [] d = Some d"
| "run (e # es) d = (if enabled e d then run es (effect e d) else None)"

text \<open>\<open>traced es d\<close>: the events \<open>es\<close>, oldest first, have brought a new dispatcher to \<open>d\<close>.\<close>

inductive traced :: "'d event list \<Rightarrow> 'd dispatcher \<Rightarrow> bool" where
  t_new: "traced [] NewDispatcher"
| t_event: "traced es d \<Longrightarrow> enabled e d \<Longrightarrow> traced (es @ [e]) (effect e d)"

lemma run_append: "run (es @ fs) d = (case run es d of None \<Rightarrow> None | Some d' \<Rightarrow> run fs d')"
  by (induction es arbitrary: d) auto

lemma run_traced: "run es NewDispatcher = Some d \<Longrightarrow> traced es d"
proof (induction es arbitrary: d rule: rev_induct)
  case Nil
  then show ?case by (simp add: t_new)
next
  case (snoc e es)
  then show ?case by (auto simp: run_append split: option.splits if_splits intro: t_event)
qed

lemmas op_defs =
  not_nil_def start_def stop_begin_def stop_end_def stop_timeout_def publish_def subscribe_def
  unsubscribe_def getNewID_def unblock_def pool_get_def drain_def

section \<open>Invariant\<close>

definition pipes_of :: "'d dispatcher \<Rightarrow> nat list" where
  "pipes_of d = concat (map snd (routes d))"

definition dispatch_inv :: "'d dispatcher \<Rightarrow> bool" where
  "dispatch_inv d \<longleftrightarrow>
     distinct (map fst (routes d)) \<and>
     distinct (pipes_of d @ outbound d @ closed d) \<and>
     (\<forall>c \<in> set (pipes_of d @ outbound d @ closed d). c < channels d) \<and>
     (\<forall>s \<in> set (blocked d). fst s < channels d \<and> fst s \<notin> set (closed d)) \<and>
     length (jobs d) \<le> capacity d \<and>
     (running d \<longrightarrow> 0 < capacity d \<and> 0 < maxWorkers d \<and> 0 < workers d) \<and>
     subscriberCount d = of_nat (length (pipes_of d) + length (closed d))"

lemma pipes_update:
  assumes "distinct (map fst rs)" and "map_of rs ID = Some ps"
  shows "mset (concat (map snd (AList.update ID ps' rs))) + mset ps =
    mset (concat (map snd rs)) + mset ps'"
  using assms by (induction rs) (auto simp: ac_simps split: if_splits)

lemma pipes_update_new:
  "map_of rs ID = None \<Longrightarrow> AList.update ID ps rs = rs @ [(ID, ps)]"
  by (induction rs) (auto split: if_splits)

lemma pipes_update_empty:
  "map_of rs ID = None \<Longrightarrow> concat (map snd (AList.update ID [] rs)) = concat (map snd rs)"
  by (simp add: pipes_update_new)

lemma routed: "map_of (routes d) ID = Some ps \<Longrightarrow> p \<in> set ps \<Longrightarrow> p \<in> set (pipes_of d)"
  unfolding pipes_of_def by (drule map_of_SomeD) force

lemma index_of_Some: "index_of c ps = Some i \<Longrightarrow> i < length ps \<and> ps ! i = c"
  by (induction ps arbitrary: i) (auto split: if_splits)

lemma index_of_None: "index_of c ps = None \<longleftrightarrow> c \<notin> set ps"
  by (induction ps) auto

text \<open>Swapping the last pipe in and cutting the list removes exactly that pipe.\<close>

lemma mset_remove_pipe:
  assumes "i < length ps"
  shows "add_mset (ps ! i) (mset (remove_pipe i ps)) = mset ps"
proof (cases ps rule: rev_cases)
  case Nil
  then show ?thesis using assms by simp
next
  case (snoc qs q)
  show ?thesis
  proof (cases "i = length qs")
    case True
    then show ?thesis by (simp add: snoc remove_pipe_def nth_append)
  next
    case False
    then have i: "i < length qs" using assms snoc by simp
    then have "remove_pipe i ps = qs[i := q]"
      by (simp add: snoc remove_pipe_def list_update_append)
    then show ?thesis using i nth_mem_mset [OF i]
      by (simp add: snoc mset_update nth_append insert_DiffM add_mset_commute)
  qed
qed

lemma set_cut: "set (take i xs @ drop (i + 1) xs) \<subseteq> set xs"
  using set_take_subset set_drop_subset by (fastforce dest: in_set_takeD in_set_dropD)

lemma mset_cut: "i < length xs \<Longrightarrow> add_mset (xs ! i) (mset (take i xs @ drop (i + 1) xs)) = mset xs"
  by (metis Suc_eq_plus1 id_take_nth_drop mset_append mset.simps(2) union_mset_add_mset_right)

text \<open>The operations only move channels between the routes, the pool and the closed ones.\<close>

lemma inv_moves:
  assumes "dispatch_inv d" and "distinct (map fst (routes d'))"
    and M: "mset (pipes_of d' @ outbound d' @ closed d') = mset (pipes_of d @ outbound d @ closed d)"
    and "channels d' = channels d" and "set (blocked d') \<subseteq> set (blocked d)"
    and "blocked d' = [] \<or> closed d' = closed d"
    and "length (jobs d') \<le> capacity d'"
    and "running d' \<longrightarrow> 0 < capacity d' \<and> 0 < maxWorkers d' \<and> 0 < workers d'"
    and "subscriberCount d' = of_nat (length (pipes_of d') + length (closed d'))"
  shows "dispatch_inv d'"
proof -
  have "set (pipes_of d' @ outbound d' @ closed d') = set (pipes_of d @ outbound d @ closed d)"
    using M by (rule mset_eq_setD)
  moreover have "distinct (pipes_of d' @ outbound d' @ closed d')"
    using assms(1) mset_eq_imp_distinct_iff [OF M] by (simp add: dispatch_inv_def)
  moreover have "\<forall>s \<in> set (blocked d'). fst s < channels d' \<and> fst s \<notin> set (closed d')"
  proof (intro ballI)
    fix s assume "s \<in> set (blocked d')"
    then have "s \<in> set (blocked d)" "closed d' = closed d" using assms(5,6) by auto
    then show "fst s < channels d' \<and> fst s \<notin> set (closed d')"
      using assms(1,4) unfolding dispatch_inv_def by metis
  qed
  ultimately show ?thesis using assms
    by (simp add: dispatch_inv_def del: set_append distinct_append)
qed

lemma inv_frame:
  assumes "dispatch_inv d" and "routes d' = routes d" and "outbound d' = outbound d"
    and "closed d' = closed d" and "channels d' = channels d"
    and "subscriberCount d' = subscriberCount d" and "set (blocked d') \<subseteq> set (blocked d)"
    and "length (jobs d') \<le> capacity d'"
    and "running d' \<longrightarrow> 0 < capacity d' \<and> 0 < maxWorkers d' \<and> 0 < workers d'"
  shows "dispatch_inv d'"
  by (rule inv_moves [OF assms(1)]) (use assms in \<open>auto simp: dispatch_inv_def pipes_of_def\<close>)

lemma inv_start: "dispatch_inv d \<Longrightarrow> dispatch_inv (effect (Start w c) d)"
  by (rule inv_frame [of d]) (auto simp: op_defs dispatch_inv_def Let_def DefaultJobsLimit_def
    DefaultMaxWorkers_def)

lemma inv_publish: "dispatch_inv d \<Longrightarrow> dispatch_inv (effect (Publish ID data) d)"
  by (rule inv_frame [of d]) (auto simp: op_defs dispatch_inv_def split: option.splits)

lemma inv_relay:
  assumes "dispatch_inv d"
  shows "dispatch_inv (effect Relay d)"
proof -
  obtain data ID where j: "hd (jobs d) = (data, ID)" by force
  have c: "p < channels d \<and> p \<notin> set (closed d)"
    if "map_of (routes d) ID = Some pipes" "p \<in> set pipes" for p pipes
  proof -
    have "p \<in> set (pipes_of d)" using that by (rule routed)
    then show ?thesis using assms by (auto simp: dispatch_inv_def)
  qed
  show ?thesis using assms c
    by (auto simp: dispatch_inv_def relay_def j pipes_of_def split: option.splits)
qed

lemma inv_stop_end:
  assumes "dispatch_inv d" and "enabled StopEnd d"
  shows "dispatch_inv (effect StopEnd d)"
proof -
  have none: "concat (map (snd \<circ> (\<lambda>(key, pipes). (key, []))) rs) = []" for rs :: "(uuid \<times> nat list) list"
    by (induction rs) auto
  have keys: "map (fst \<circ> (\<lambda>(key, pipes). (key, []))) rs = map fst rs" for rs :: "(uuid \<times> nat list) list"
    by (induction rs) auto
  show ?thesis
    by (rule inv_moves [OF assms(1)])
      (use assms in \<open>auto simp: op_defs dispatch_inv_def pipes_of_def none keys wg_count_def\<close>)
qed

lemma inv_getNewID:
  assumes "dispatch_inv d"
  shows "dispatch_inv (effect (NewID g) d)"
proof (cases "\<exists>newID. g = Some (Inr newID) \<and> map_of (routes d) newID = None")
  case True
  then obtain newID where g: "g = Some (Inr newID)" "map_of (routes d) newID = None" by auto
  then have "effect (NewID g) d = d\<lparr>routes := AList.update newID [] (routes d)\<rparr>"
    by (simp add: op_defs)
  then show ?thesis using assms pipes_update_empty [OF g(2)]
    by (intro inv_moves [OF assms]) (simp_all add: dispatch_inv_def pipes_of_def distinct_update)
next
  case False
  then have "effect (NewID g) d = d" by (auto simp: op_defs split: option.splits sum.splits)
  then show ?thesis using assms by simp
qed

text \<open>What a successful unsubscription does to the routes, before the drain.\<close>

lemma unroute:
  assumes "dispatch_inv d" and ps: "map_of (routes d) ID = Some ps" and i: "index_of c ps = Some i"
  shows "add_mset c (mset (concat (map snd (AList.update ID (remove_pipe i ps) (routes d))))) =
      mset (pipes_of d)"
    and "c \<in> set (pipes_of d)" and "c \<notin> set (closed d)" and "c \<notin> set (outbound d)"
    and "c < channels d"
    and "Suc (length (concat (map snd (AList.update ID (remove_pipe i ps) (routes d))))) =
      length (pipes_of d)"
proof -
  have keys: "distinct (map fst (routes d))" using assms by (simp add: dispatch_inv_def)
  have c: "i < length ps" "ps ! i = c" using index_of_Some [OF i] by auto
  then have "add_mset c (mset (remove_pipe i ps)) = mset ps" using mset_remove_pipe by metis
  then show m: "add_mset c (mset (concat (map snd (AList.update ID (remove_pipe i ps) (routes d)))))
      = mset (pipes_of d)"
    using pipes_update [OF keys ps, of "remove_pipe i ps"] unfolding pipes_of_def
    by (metis add.commute add_right_cancel union_mset_add_mset_right)
  show "c \<in> set (pipes_of d)" using routed [OF ps] c nth_mem by blast
  then show "c \<notin> set (closed d)" "c \<notin> set (outbound d)" "c < channels d"
    using assms(1) by (auto simp: dispatch_inv_def)
  show "Suc (length (concat (map snd (AList.update ID (remove_pipe i ps) (routes d))))) =
      length (pipes_of d)"
    using arg_cong [OF m, of size] by simp
qed

lemma unsubscribe_found:
  assumes "dispatch_inv d" and "ID \<noteq> 0" and "running d" and ps: "map_of (routes d) ID = Some ps"
    and i: "index_of c ps = Some i"
  shows "unsubscribe meet (Some d) ID (Some c) =
    (Some (d\<lparr>routes := AList.update ID (remove_pipe i ps) (routes d),
             subscriberCount := subscriberCount d - 1,
             blocked := (if meet < length (blocked d) \<and> fst (blocked d ! meet) = c
               then take meet (blocked d) @ drop (meet + 1) (blocked d) else blocked d),
             outbound := outbound d @ [c]\<rparr>), None)"
  using assms unroute(3) [OF assms(1) ps i] by (simp add: op_defs Let_def)

lemma inv_unsubscribe:
  assumes "dispatch_inv d"
  shows "dispatch_inv (effect (Unsubscribe ID ch meet) d)"
proof (cases "\<exists>c ps i. ID \<noteq> 0 \<and> running d \<and> ch = Some c \<and> map_of (routes d) ID = Some ps \<and>
    index_of c ps = Some i")
  case False
  then have "effect (Unsubscribe ID ch meet) d = d" by (auto simp: op_defs split: option.splits)
  then show ?thesis using assms by simp
next
  case True
  then obtain c ps i where a: "ID \<noteq> 0" "running d" "ch = Some c"
    and ps: "map_of (routes d) ID = Some ps" and i: "index_of c ps = Some i" by auto
  note u = unroute [OF assms ps i]
  have n: "subscriberCount d = of_nat (Suc (length (concat (map snd (AList.update ID
      (remove_pipe i ps) (routes d))))) + length (closed d))"
    unfolding u(6) using assms by (simp add: dispatch_inv_def)
  show ?thesis
  proof (rule inv_moves [OF assms], goal_cases)
    case 2
    then show ?case using u(1) unsubscribe_found [OF assms a(1,2) ps i] a
      by (simp add: pipes_of_def)
  next
    case 4
    have "set (if meet < length (blocked d) \<and> fst (blocked d ! meet) = c
        then take meet (blocked d) @ drop (meet + 1) (blocked d) else blocked d) \<subseteq> set (blocked d)"
      using set_cut [of meet "blocked d"] by (simp del: set_append)
    then show ?case using unsubscribe_found [OF assms a(1,2) ps i] a by (simp del: set_append)
  qed (use unsubscribe_found [OF assms a(1,2) ps i] assms a n in
    \<open>simp_all add: dispatch_inv_def distinct_update pipes_of_def\<close>)
qed

lemma inv_subscribe:
  assumes "dispatch_inv d"
  shows "dispatch_inv (effect (Subscribe ID pick) d)"
proof (cases "ID \<noteq> 0 \<and> running d \<and> map_of (routes d) ID \<noteq> None")
  case False
  then have "effect (Subscribe ID pick) d = d" by (auto simp: op_defs split: option.splits)
  then show ?thesis using assms by simp
next
  case True
  then obtain ps where ps: "map_of (routes d) ID = Some ps" by auto
  have keys: "distinct (map fst (routes d))" using assms by (simp add: dispatch_inv_def)
  have m: "mset (concat (map snd (AList.update ID (ps @ [c]) (routes d)))) =
      add_mset c (mset (pipes_of d))" for c
    using pipes_update [OF keys ps, of "ps @ [c]"] unfolding pipes_of_def by simp
  have l: "length (concat (map snd (AList.update ID (ps @ [c]) (routes d)))) =
      Suc (length (pipes_of d))" for c
    using arg_cong [OF m, of size] by simp
  show ?thesis
  proof (cases "pick < length (outbound d)")
    case pooled: True
    then show ?thesis using True ps l m mset_cut [OF pooled] assms
      by (intro inv_moves [OF assms]) (simp_all add: op_defs dispatch_inv_def pipes_of_def distinct_update)
  next
    case fresh: False
    have "set (concat (map snd (AList.update ID (ps @ [c]) (routes d)))) =
      insert c (set (pipes_of d))" for c
      using m [of c] by (metis set_mset_mset set_mset_add_mset_insert)
    moreover have "distinct (concat (map snd (AList.update ID (ps @ [channels d]) (routes d))))"
      using mset_eq_imp_distinct_iff [of "concat (map snd (AList.update ID (ps @ [channels d]) (routes d)))"
        "channels d # pipes_of d"] m assms by (auto simp: dispatch_inv_def)
    ultimately show ?thesis using True ps l fresh assms
      by (auto simp: op_defs dispatch_inv_def pipes_of_def distinct_update less_Suc_eq)
  qed
qed

lemma inv_unblock: "dispatch_inv d \<Longrightarrow> dispatch_inv (unblock i d)"
  by (rule inv_frame [of d])
    (use set_cut [of i "blocked d"] in \<open>auto simp: unblock_def dispatch_inv_def simp del: set_append\<close>)

lemma inv_effect:
  assumes "dispatch_inv d" and "enabled e d"
  shows "dispatch_inv (effect e d)"
proof (cases e)
  case StopBegin
  then show ?thesis using assms
    by (intro inv_frame [OF assms(1)]) (auto simp: op_defs dispatch_inv_def)
next
  case StopTimeout
  then show ?thesis using assms
    by (intro inv_frame [OF assms(1)]) (auto simp: op_defs dispatch_inv_def)
next
  case WorkerExit
  then show ?thesis using assms
    by (intro inv_frame [OF assms(1)]) (auto simp: op_defs dispatch_inv_def)
next
  case StopEnd
  then show ?thesis using assms inv_stop_end by blast
qed (use assms inv_start inv_publish inv_relay inv_getNewID inv_unsubscribe
  inv_subscribe inv_unblock in auto)

lemma dispatch_inv_new: "dispatch_inv NewDispatcher"
  by (simp add: dispatch_inv_def NewDispatcher_def pipes_of_def)

lemma traced_inv: "traced es d \<Longrightarrow> dispatch_inv d"
  by (induction rule: traced.induct) (auto intro: dispatch_inv_new inv_effect)

text \<open>Whatever is queued or being sent was handed to \<open>publish\<close> for a proper ID.\<close>

definition published :: "'d event list \<Rightarrow> 'd dispatcher \<Rightarrow> bool" where
  "published es d \<longleftrightarrow>
     (\<forall>j \<in> set (jobs d). snd j \<noteq> 0 \<and> Publish (snd j) (Some (fst j)) \<in> set es) \<and>
     (\<forall>s \<in> set (blocked d). Publish (fst (snd (snd s))) (Some (fst (snd s))) \<in> set es)"

lemma published_mono:
  assumes "published es d" and "set (jobs d') \<subseteq> set (jobs d)"
    and "set (blocked d') \<subseteq> set (blocked d)"
  shows "published (es @ [e]) d'"
  using assms by (auto simp: published_def)

lemma unsubscribe_frame:
  "jobs (effect (Unsubscribe ID ch meet) d) = jobs d"
  "set (blocked (effect (Unsubscribe ID ch meet) d)) \<subseteq> set (blocked d)"
  by (simp_all add: op_defs Let_def split: option.splits)
    (use set_cut [of meet "blocked d"] in simp)

lemma published_effect:
  assumes "published es d" and "enabled e d"
  shows "published (es @ [e]) (effect e d)"
proof (cases e)
  case Relay
  obtain data ID where j: "hd (jobs d) = (data, ID)" by force
  have "(data, ID) \<in> set (jobs d)" using Relay assms(2) j list.set_sel(1) by fastforce
  moreover have "set (tl (jobs d)) \<subseteq> set (jobs d)" by (cases "jobs d") auto
  ultimately show ?thesis using assms(1) Relay j
    by (fastforce simp: relay_def published_def split: option.splits)
next
  case (Unsubscribe ID ch meet)
  show ?thesis unfolding Unsubscribe
    by (rule published_mono [OF assms(1)]) (simp_all only: unsubscribe_frame order_refl)
next
  case (Publish ID data)
  then show ?thesis using assms(1) by (auto simp: op_defs published_def split: option.splits)
next
  case (Deliver i)
  then show ?thesis using set_cut [of i "blocked d"]
    by (intro published_mono [OF assms(1)]) (simp_all add: unblock_def del: set_append)
next
  case (Abandon i)
  then show ?thesis using set_cut [of i "blocked d"]
    by (intro published_mono [OF assms(1)]) (simp_all add: unblock_def del: set_append)
qed (rule published_mono [OF assms(1)];
  simp add: op_defs Let_def split: option.splits sum.splits)+

lemma traced_published: "traced es d \<Longrightarrow> published es d"
proof (induction rule: traced.induct)
  case t_new
  then show ?case by (simp add: NewDispatcher_def published_def)
qed (rule published_effect)

section \<open>Properties\<close>

definition subscribers :: "'d dispatcher \<Rightarrow> uuid \<Rightarrow> nat list" where
  "subscribers d ID = (case map_of (routes d) ID of None \<Rightarrow> [] | Some ps \<Rightarrow> ps)"

lemma subscribers_distinct:
  assumes "dispatch_inv d"
  shows "distinct (subscribers d ID)"
proof (cases "map_of (routes d) ID")
  case (Some ps)
  then have "ps \<in> set (map snd (routes d))" by (drule_tac map_of_SomeD) force
  then have "distinct ps" using assms by (auto simp: dispatch_inv_def pipes_of_def distinct_concat_iff)
  then show ?thesis by (simp add: subscribers_def Some)
qed (simp add: subscribers_def)

text \<open>A running dispatcher that knows the IDs 1 and 2, with one subscriber of 1 and two jobs for
  it, relayed.\<close>

definition demo :: "nat event list" where
  "demo = [Start 1 4, NewID (Some (Inr 1)), NewID (Some (Inr 2)), Subscribe 1 0,
     Publish 1 (Some 7), Publish 1 (Some 8), Relay]"

lemmas demo_eval =
  demo_def NewDispatcher_def op_defs relay_def remove_pipe_def shut_def wg_count_def Let_def

definition demo_state :: "nat dispatcher" where
  "demo_state = \<lparr>routes = [(1, [0]), (2, [])], jobs = [(8, 1)], capacity = 4, maxWorkers = 1,
     workers = 1, running = True, stopping = False, start_no = 1, outbound = [], channels = 1,
     blocked = [(0, 7, 1, 1)], closed = [], subscriberCount = 1\<rparr>"

lemma demo_traced: "traced demo demo_state"
  by (rule run_traced) (simp add: demo_eval demo_state_def)

text \<open>C20: in every reachable state of the dispatcher the channels that a stop
  would close are open and occur once, so no stop closes a channel twice; no relayed value waits on
  a closed channel, so no send panics; a channel has at most one subscriber and is not in the pool
  while it has; and the job queue keeps to its capacity.\<close>

theorem dispatch_channels:
  assumes "traced es d"
  shows "distinct (closed d @ pipes_of d) \<and> list_all (\<lambda>s. fst s \<notin> set (closed d)) (blocked d) \<and>
    distinct (pipes_of d @ outbound d) \<and> length (jobs d) \<le> capacity d"
  using traced_inv [OF assms] by (auto simp: dispatch_inv_def list_all_iff)

theorem dispatch_channels_witness: "distinct (closed demo_state @ pipes_of demo_state)"
  using dispatch_channels [OF demo_traced] by simp

text \<open>Also: on a running dispatcher \<open>publish\<close> of a value for a proper ID either queues
  the job behind the others, or returns an error that is \<open>errDispatcherJobsAtLimit\<close>, changes
  nothing and does so only when the queue holds as many jobs as its limit: nothing is lost
  silently and nothing queued is replaced.\<close>

theorem publish_outcome:
  assumes "traced es d" and "running d" and "ID \<noteq> 0"
  shows "case publish (Some d) ID (Some x) of
      (d', None) \<Rightarrow> d' = Some (d\<lparr>jobs := jobs d @ [(x, ID)]\<rparr>)
    | (d', Some err) \<Rightarrow> d' = Some d \<and> length (jobs d) = capacity d \<and>
        err = Errorf ''limitMessage'' [errDispatcherJobsAtLimit]"
  using traced_inv [OF assms(1)] assms(2,3) by (auto simp: op_defs dispatch_inv_def)

theorem publish_outcome_witness:
  "snd (publish (Some demo_state) 2 (Some 9)) = None"
  using publish_outcome [OF demo_traced, of 2 9] by (simp add: demo_state_def op_defs)

text \<open>C21: a worker that takes a job starts exactly one send of the job's data to each
  channel subscribed to the job's ID at that moment, keeps every send already waiting, and what it
  relays was published under that ID.\<close>

theorem relay_exact:
  assumes "traced es d" and "jobs d = (data, ID) # js"
  shows "blocked (effect Relay d) =
      blocked d @ map (\<lambda>c. (c, data, ID, start_no d)) (subscribers d ID) \<and>
    distinct (subscribers d ID) \<and> Publish ID (Some data) \<in> set es \<and> jobs (effect Relay d) = js"
  using traced_published [OF assms(1)] subscribers_distinct [OF traced_inv [OF assms(1)]] assms(2)
  by (auto simp: published_def relay_def subscribers_def split: option.splits)

theorem relay_exact_witness:
  "blocked (effect Relay demo_state) = [(0, 7, 1, 1), (0, 8, 1, 1)]"
  using relay_exact [OF demo_traced, of 8 1 "[]"] by (simp add: demo_state_def subscribers_def)

text \<open>Also: on a running dispatcher a subscription to a known ID succeeds with
  a channel that serves no other subscription, appended to those of the ID; releasing it succeeds,
  restores the subscribers of the ID and the subscriber count, and leaves the channel unsubscribed
  and in the pool, whatever send the drain met.\<close>

theorem subscription_roundtrip:
  assumes "traced es d" and "running d" and "ID \<noteq> 0" and "map_of (routes d) ID = Some ps"
    and "\<not> stopping d"
  shows "\<exists>c d1 d2. subscribe pick (Some d) ID = (Some d1, Inr c) \<and> c \<notin> set (pipes_of d) \<and>
    subscribers d1 ID = ps @ [c] \<and> unsubscribe meet (Some d1) ID (Some c) = (Some d2, None) \<and>
    subscribers d2 ID = ps \<and> subscriberCount d2 = subscriberCount d \<and>
    c \<notin> set (pipes_of d2) \<and> c \<in> set (outbound d2)"
proof -
  have "outbound d ! pick \<notin> set (pipes_of d)" if "pick < length (outbound d)"
    using nth_mem [OF that] traced_inv [OF assms(1)] by (auto simp: dispatch_inv_def)
  moreover have "channels d \<notin> set (pipes_of d)"
    using traced_inv [OF assms(1)] by (auto simp: dispatch_inv_def)
  ultimately obtain d1 c where s: "subscribe pick (Some d) ID = (Some d1, Inr c)"
    and c: "c \<notin> set (pipes_of d)" and r: "routes d1 = AList.update ID (ps @ [c]) (routes d)"
    and n: "subscriberCount d1 = subscriberCount d + 1" "running d1"
    using assms(2-4) by (cases "pick < length (outbound d)") (auto simp: op_defs)
  have "traced (es @ [Subscribe ID pick]) d1"
    using t_event [OF assms(1), of "Subscribe ID pick"] s assms(5) by simp
  then have inv: "dispatch_inv d1" by (rule traced_inv)
  have m: "map_of (routes d1) ID = Some (ps @ [c])" using r by (simp add: update_conv')
  have "c \<notin> set ps" using c routed [OF assms(4)] by blast
  then have i: "index_of c (ps @ [c]) = Some (length ps)" by (induction ps) auto
  have rem: "remove_pipe (length ps) (ps @ [c]) = ps" by (simp add: remove_pipe_def nth_append)
  note u = unsubscribe_found [OF inv assms(3) n(2) m i]
  have "distinct (pipes_of d1)" using inv by (simp add: dispatch_inv_def)
  then have "c \<notin> set (concat (map snd (AList.update ID ps (routes d1))))"
    using unroute(1) [OF inv m i] rem mset_eq_imp_distinct_iff
      [of "c # concat (map snd (AList.update ID ps (routes d1)))" "pipes_of d1"] by simp
  then show ?thesis using s c u rem m n
    by (intro exI conjI) (assumption | simp add: subscribers_def pipes_of_def update_conv')+
qed

theorem subscription_roundtrip_witness:
  "\<exists>c d1. subscribe 0 (Some demo_state) 2 = (Some d1, Inr c) \<and> subscribers d1 2 = [c]"
  using subscription_roundtrip [OF demo_traced, of 2 "[]" 0 0] by (auto simp: demo_state_def)

lemma traced_stopping: "traced es d \<Longrightarrow> stopping d \<longrightarrow> \<not> running d"
proof (induction rule: traced.induct)
  case t_new
  then show ?case by (simp add: NewDispatcher_def)
next
  case (t_event es d e)
  then show ?case
    by (cases e) (simp_all add: op_defs relay_def Let_def split: option.splits sum.splits prod.splits)
qed

text \<open>Also: a stop that finds its wait group at zero leaves no send waiting, has closed
  exactly the channels that were subscribed, and keeps every ID known with no subscriber; a
  subscriber that releases its channel afterwards gets no error and changes nothing.\<close>

theorem stop_outcome:
  assumes "traced es d" and "enabled StopEnd d"
  shows "blocked (effect StopEnd d) = [] \<and> pipes_of (effect StopEnd d) = [] \<and>
    closed (effect StopEnd d) = closed d @ pipes_of d \<and>
    map fst (routes (effect StopEnd d)) = map fst (routes d) \<and>
    (ID = 0 \<or>
     unsubscribe meet (Some (effect StopEnd d)) ID (Some c) = (Some (effect StopEnd d), None))"
proof -
  have none: "concat (map (snd \<circ> (\<lambda>(key, pipes). (key, []))) rs) = []" for rs :: "(uuid \<times> nat list) list"
    by (induction rs) auto
  have keys: "map (fst \<circ> (\<lambda>(key, pipes). (key, []))) rs = map fst rs" for rs :: "(uuid \<times> nat list) list"
    by (induction rs) auto
  show ?thesis using assms(2) traced_stopping [OF assms(1)]
    by (auto simp: op_defs pipes_of_def wg_count_def none keys)
qed

definition stopping_demo :: "nat event list" where
  "stopping_demo = demo @ [StopBegin, Abandon 0, WorkerExit]"

definition stopping_state :: "nat dispatcher" where
  "stopping_state = demo_state\<lparr>running := False, stopping := True, workers := 0, blocked := []\<rparr>"

lemma stopping_traced: "traced stopping_demo stopping_state"
  by (rule run_traced) (simp add: stopping_demo_def demo_eval demo_state_def stopping_state_def)

theorem stop_outcome_witness: "closed (effect StopEnd stopping_state) = [0]"
  using stop_outcome [OF stopping_traced]
  by (simp add: stopping_state_def demo_state_def wg_count_def pipes_of_def)

text \<open>The count of subscribers is not part of what a stop resets: it stays above zero for good, and
  \<open>Publish\<close> queues jobs nobody is subscribed to.\<close>

lemma stop_keeps_count:
  "pipes_of (effect StopEnd stopping_state) = [] \<and>
   subscriberCount (effect StopEnd stopping_state) = 1"
  by (simp add: stopping_state_def demo_state_def op_defs pipes_of_def)

text \<open>The drain of \<open>unsubscribe\<close> takes at most one value: with two sends of ID 1 waiting, the
  channel goes back to the pool with the second still on it, and the next subscriber of ID 2
  receives it.\<close>

lemma stale_delivery:
  "\<exists>es d. traced es (d :: nat dispatcher) \<and> subscribers d 1 = [] \<and> subscribers d 2 = [0] \<and>
     blocked d = [(0, 8, 1, 1)]"
proof -
  let ?es = "demo @ [Relay, Unsubscribe 1 (Some 0) 0, Subscribe 2 0]"
  let ?d = "demo_state\<lparr>routes := [(1, []), (2, [0])], jobs := [], blocked := [(0, 8, 1, 1)]\<rparr>"
  have "run ?es NewDispatcher = Some ?d" by (simp add: demo_eval demo_state_def)
  then show ?thesis
    by (intro exI [of _ ?es] exI [of _ ?d]) (simp add: run_traced subscribers_def)
qed

lemma publish_all_queues:
  assumes "running d" and "0 \<notin> set ids" and "length (jobs d) + length ids \<le> capacity d"
  shows "publish_all (Some d) ids (Some x) = (Some (d\<lparr>jobs := jobs d @ map (Pair x) ids\<rparr>), None)"
  using assms by (induction ids arbitrary: d) (auto simp: op_defs)

text \<open>Also: while anybody is subscribed to anything, \<open>Mux.Publish\<close> is not skipped:
  on a running dispatcher with room it queues the value once for each of the IDs, in order.  (The
  skip reads a 32-bit counter, which is the number of open and closed subscriptions, so fewer than
  \<open>2 ^ 32\<close> channels are asked for.)\<close>

theorem mux_publish_queues:
  assumes "traced es d" and "running d" and "pipes_of d \<noteq> []" and "channels d < 2 ^ 32"
    and "ids \<noteq> []" and "0 \<notin> set ids" and "length (jobs d) + length ids \<le> capacity d"
  shows "mux_Publish (Some d) (Some x) ids =
    (Some (d\<lparr>jobs := jobs d @ map (Pair x) ids\<rparr>), None)"
proof -
  have inv: "dispatch_inv d" using assms(1) by (rule traced_inv)
  have "distinct (pipes_of d @ closed d)" "set (pipes_of d @ closed d) \<subseteq> {..<channels d}"
    using inv by (auto simp: dispatch_inv_def)
  then have "length (pipes_of d @ closed d) \<le> channels d"
    using card_mono [of "{..<channels d}"] by (metis card_lessThan distinct_card finite_lessThan)
  then have n: "length (pipes_of d) + length (closed d) < 2 ^ 32" using assms(4) by simp
  then have "subscriberCount d \<noteq> 0"
    using inv assms(3) by (simp add: dispatch_inv_def word_of_nat_eq_0_iff del: of_nat_add)
      (auto dest: dvd_imp_le)
  then show ?thesis using publish_all_queues [OF assms(2,6,7)] assms(5)
    by (simp add: mux_Publish_def)
qed

theorem mux_publish_queues_witness:
  "fst (mux_Publish (Some demo_state) (Some 9) [2, 1]) =
    Some (demo_state\<lparr>jobs := [(8, 1), (9, 2), (9, 1)]\<rparr>)"
  using mux_publish_queues [OF demo_traced, of "[2, 1]" 9]
  by (simp add: demo_state_def pipes_of_def)

end
