(* ===== verification/Book_Service.thy ===== *)
theory Book_Service
  imports Calculator Currency_Pairs Dispatch
begin

text \<open>
  The store of all order books: \<open>Service\<close> of \<open>exchanges/orderbook/orderbook.go\<close>, which the
  exchanges fill by snapshots (\<open>Base.Process\<close>), which hands out pointers to its books
  (\<open>DeployDepth\<close>, \<open>GetDepth\<close>) and copies of them (\<open>Retrieve\<close>).

  A \<open>*Depth\<close> is an index into the list of all depths ever made; the websocket buffers hold the
  same indices, so what a stream writes is what the service reads.  The store of currencies is
  read only, to test pairs for emptiness.

  The lemmas show that every entry points to a depth of its own, that a processed book can be read
  back under its exchange, pair and asset until the next write, and that writing one book leaves
  every other one as it was.
\<close>

section \<open>State\<close>

type_synonym ob_key = "pair_key \<times> asset_item"

record exchange_books =
  ex_books :: "ob_key \<Rightarrow> nat option"
  ex_ID :: uuid

record service =
  sv_books :: "string \<Rightarrow> exchange_books option"
  sv_depths :: "depth list"
  sv_mux :: "nat mux"

definition book_key :: "pair \<Rightarrow> asset_item \<Rightarrow> ob_key" where
  "book_key p a = (pairKey p, a)"

definition depth_at :: "service \<Rightarrow> nat \<Rightarrow> depth" where
  "depth_at s a = sv_depths s ! a"

definition set_depth :: "nat \<Rightarrow> depth \<Rightarrow> service \<Rightarrow> service" where
  "set_depth a d s = s\<lparr>sv_depths := (sv_depths s)[a := d]\<rparr>"

section \<open>Operations\<close>

text \<open>The books of an exchange, made if there are none; \<open>newV4\<close> is what the generator of IDs
  returns.\<close>

definition exchange_of :: "uuid go_result \<Rightarrow> string \<Rightarrow> service \<Rightarrow> service \<times> exchange_books go_result" where
  "exchange_of newV4 name s =
     (case sv_books s name of
        Some m1 \<Rightarrow> (s, Inr m1)
      | None \<Rightarrow>
          (case mux_GetID newV4 (sv_mux s) of
             (m, Inl err) \<Rightarrow> (s\<lparr>sv_mux := m\<rparr>, Inl err)
           | (m, Inr i) \<Rightarrow>
               (let m1 = \<lparr>ex_books = (\<lambda>_. None), ex_ID = i\<rparr>
                in (s\<lparr>sv_mux := m, sv_books := (sv_books s)(name \<mapsto> m1)\<rparr>, Inr m1))))"

definition add_depth :: "string \<Rightarrow> exchange_books \<Rightarrow> ob_key \<Rightarrow> depth \<Rightarrow> service \<Rightarrow> service \<times> nat" where
  "add_depth name m1 k d s =
     (s\<lparr>sv_depths := sv_depths s @ [d],
        sv_books := (sv_books s)(name \<mapsto> m1\<lparr>ex_books := (ex_books m1)(k \<mapsto> length (sv_depths s))\<rparr>)\<rparr>,
      length (sv_depths s))"

text \<open>\<open>book, ok := m1.m[mapKey]\<close>, and a new depth under the key if there is none.\<close>

definition slot :: "string \<Rightarrow> exchange_books \<Rightarrow> ob_key \<Rightarrow> depth \<Rightarrow> service \<Rightarrow> service \<times> nat" where
  "slot name m1 k d s =
     (case ex_books m1 k of Some a \<Rightarrow> (s, a) | None \<Rightarrow> add_depth name m1 k d s)"

definition Service_Update ::
    "time \<Rightarrow> uuid go_result \<Rightarrow> service \<Rightarrow> book \<Rightarrow> service \<times> go_error option" where
  "Service_Update now newV4 s b =
     (let name = ToLower (bk_Exchange b);
          mapKey = book_key (bk_Pair b) (bk_Asset b)
      in case exchange_of newV4 name s of
           (s, Inl err) \<Rightarrow> (s, Some err)
         | (s, Inr m1) \<Rightarrow>
             (let (s, a) = slot name m1 mapKey (AssignOptions (NewDepth (ex_ID m1)) b) s;
                  (d, err) = LoadSnapshot now (depth_at s a) (bk_Bids b) (bk_Asks b)
                               (bk_LastUpdateID b) (bk_LastUpdated b) (bk_UpdatePushedAt b) True;
                  s = set_depth a d s
              in case err of
                   Some e \<Rightarrow> (s, Some e)
                 | None \<Rightarrow>
                     (let (m, e) = mux_Publish (sv_mux s) (Some a) [ex_ID m1]
                      in (s\<lparr>sv_mux := m\<rparr>, e))))"

definition DeployDepth ::
    "store \<Rightarrow> uuid go_result \<Rightarrow> service \<Rightarrow> string \<Rightarrow> pair \<Rightarrow> asset_item \<Rightarrow> service \<times> nat go_result" where
  "DeployDepth cs newV4 s exch p a =
     (if exch = [] then (s, Inl errExchangeNameUnset)
      else if pair_IsEmpty cs p then (s, Inl errPairNotSet)
      else if \<not> asset_IsValid a then (s, Inl errAssetTypeNotSet)
      else
        (case exchange_of newV4 (ToLower exch) s of
           (s, Inl err) \<Rightarrow> (s, Inl err)
         | (s, Inr m1) \<Rightarrow>
             (let d = NewDepth (ex_ID m1);
                  d = d\<lparr>opts := (opts d)\<lparr>exchange := exch, opt_pair := p, opt_asset := a\<rparr>\<rparr>;
                  (s, x) = slot (ToLower exch) m1 (book_key p a) d s
              in (s, Inr x))))"

definition GetDepth :: "service \<Rightarrow> string \<Rightarrow> pair \<Rightarrow> asset_item \<Rightarrow> nat go_result" where
  "GetDepth s exch p a =
     (case sv_books s (ToLower exch) of
        None \<Rightarrow> Inl (Errorf ''%w for %s exchange'' [errCannotFindOrderbook])
      | Some m1 \<Rightarrow>
          (case ex_books m1 (book_key p a) of
             None \<Rightarrow> Inl (Errorf ''%w associated with base currency %s'' [errCannotFindOrderbook])
           | Some x \<Rightarrow> Inr x))"

definition Service_Retrieve ::
    "store \<Rightarrow> service \<Rightarrow> string \<Rightarrow> pair \<Rightarrow> asset_item \<Rightarrow> book go_result" where
  "Service_Retrieve cs s exch p a =
     (if pair_IsEmpty cs p then Inl ErrCurrencyPairEmpty
      else if \<not> asset_IsValid a then Inl (Errorf ''%w %v'' [asset_ErrNotSupported])
      else
        (case sv_books s (ToLower exch) of
           None \<Rightarrow> Inl (Errorf ''%w for %s exchange'' [errCannotFindOrderbook])
         | Some m1 \<Rightarrow>
             (case ex_books m1 (book_key p a) of
                None \<Rightarrow> Inl (Errorf ''%w associated with base currency %s'' [errCannotFindOrderbook])
              | Some x \<Rightarrow> depth_Retrieve (depth_at s x))))"

definition SubscribeToExchangeOrderbooks ::
    "nat \<Rightarrow> service \<Rightarrow> string \<Rightarrow> service \<times> (nat \<times> uuid) go_result" where
  "SubscribeToExchangeOrderbooks pick s exch =
     (case sv_books s (ToLower exch) of
        None \<Rightarrow> (s, Inl (Errorf ''%w for %s exchange'' [errCannotFindOrderbook]))
      | Some m1 \<Rightarrow>
          (case mux_Subscribe pick (sv_mux s) (ex_ID m1) of (m, r) \<Rightarrow> (s\<lparr>sv_mux := m\<rparr>, r)))"

text \<open>\<open>Base.Process\<close>.\<close>

definition Process ::
    "store \<Rightarrow> time \<Rightarrow> uuid go_result \<Rightarrow> service \<Rightarrow> book \<Rightarrow> service \<times> go_error option" where
  "Process cs now newV4 s b =
     (if bk_Exchange b = [] then (s, Some errExchangeNameUnset)
      else if pair_IsEmpty cs (bk_Pair b) then (s, Some errPairNotSet)
      else if asset_String (bk_Asset b) = [] then (s, Some errAssetTypeNotSet)
      else
        let b = (if IsZero (bk_LastUpdated b) then b\<lparr>bk_LastUpdated := now\<rparr> else b)
        in case Verify b of
             Some err \<Rightarrow> (s, Some err)
           | None \<Rightarrow> Service_Update now newV4 s b)"

text \<open>\<open>Depth.Publish\<close>: an error is only logged.\<close>

definition Depth_Publish :: "service \<Rightarrow> nat \<Rightarrow> service" where
  "Depth_Publish s a =
     s\<lparr>sv_mux := fst (mux_Publish (sv_mux s) (Some a) [depth_ID (depth_at s a)])\<rparr>"

section \<open>Entries\<close>

definition entry :: "service \<Rightarrow> string \<Rightarrow> ob_key \<Rightarrow> nat option" where
  "entry s name k = (case sv_books s name of None \<Rightarrow> None | Some m1 \<Rightarrow> ex_books m1 k)"

text \<open>Every entry points to a depth, no two to the same one, and the depth carries the ID of its
  exchange.\<close>

definition service_inv :: "service \<Rightarrow> bool" where
  "service_inv s \<longleftrightarrow>
     (\<forall>n k a. entry s n k = Some a \<longrightarrow> a < length (sv_depths s) \<and>
        map_option ex_ID (sv_books s n) = Some (depth_ID (depth_at s a))) \<and>
     (\<forall>n k n' k' a. entry s n k = Some a \<longrightarrow> entry s n' k' = Some a \<longrightarrow> n = n' \<and> k = k')"

definition empty_service :: "nat mux \<Rightarrow> service" where
  "empty_service m = \<lparr>sv_books = (\<lambda>_. None), sv_depths = [], sv_mux = m\<rparr>"

lemma service_inv_empty: "service_inv (empty_service m)"
  by (simp add: service_inv_def empty_service_def entry_def)

lemma entry_mux [simp]: "entry (s\<lparr>sv_mux := m\<rparr>) = entry s"
  by (simp add: entry_def fun_eq_iff)

lemma entry_set_depth [simp]:
  "entry (set_depth a d s) = entry s" "sv_books (set_depth a d s) = sv_books s"
  "length (sv_depths (set_depth a d s)) = length (sv_depths s)" "sv_mux (set_depth a d s) = sv_mux s"
  by (simp_all add: entry_def set_depth_def fun_eq_iff)

lemma depth_at_mux [simp]: "depth_at (s\<lparr>sv_mux := m\<rparr>) = depth_at s"
  by (simp add: depth_at_def fun_eq_iff)

lemma depth_at_set_depth [simp]:
  "a < length (sv_depths s) \<Longrightarrow> depth_at (set_depth a d s) a = d"
  "a \<noteq> x \<Longrightarrow> depth_at (set_depth a d s) x = depth_at s x"
  by (simp_all add: depth_at_def set_depth_def)

lemma service_inv_mux [simp]: "service_inv (s\<lparr>sv_mux := m\<rparr>) = service_inv s"
  by (simp add: service_inv_def)

lemma service_inv_set_depth:
  assumes "service_inv s" and "depth_ID d = depth_ID (depth_at s a)"
  shows "service_inv (set_depth a d s)"
proof -
  have i: "depth_ID (depth_at (set_depth a d s) x) = depth_ID (depth_at s x)" for x
    using assms(2) by (cases "x = a"; cases "a < length (sv_depths s)")
      (auto simp: depth_at_def set_depth_def nth_list_update list_update_beyond)
  from assms(1) show ?thesis by (simp only: service_inv_def entry_set_depth i)
qed

text \<open>Finding the books of an exchange changes no entry and no depth.\<close>

lemma exchange_of_spec:
  assumes "exchange_of newV4 name s = (s', r)"
  shows "entry s' = entry s \<and> sv_depths s' = sv_depths s \<and>
    (\<forall>m1. r = Inr m1 \<longrightarrow> sv_books s' name = Some m1 \<and> ex_books m1 = entry s name) \<and>
    (\<forall>n. n \<noteq> name \<longrightarrow> sv_books s' n = sv_books s n) \<and>
    (sv_books s name \<noteq> None \<longrightarrow> sv_books s' name = sv_books s name)"
  using assms
  by (auto simp: exchange_of_def entry_def fun_eq_iff Let_def split: option.splits prod.splits sum.splits
    if_splits)

lemma exchange_of_inv:
  assumes "exchange_of newV4 name s = (s', r)" and "service_inv s"
  shows "service_inv s'"
proof -
  note e = exchange_of_spec [OF assms(1)]
  have "sv_books s' n = sv_books s n" if "entry s n k = Some a" for n k a
    using e that by (cases "n = name") (auto simp: entry_def split: option.splits)
  moreover have "depth_at s' = depth_at s" using e by (simp add: depth_at_def fun_eq_iff)
  ultimately show ?thesis using assms(2) e unfolding service_inv_def by metis
qed

lemma add_depth_spec:
  assumes "add_depth name m1 k d s = (s', a)" and "sv_books s name = Some m1"
  shows "a = length (sv_depths s) \<and> sv_depths s' = sv_depths s @ [d] \<and> sv_mux s' = sv_mux s \<and>
    entry s' n j = (if n = name \<and> j = k then Some a else entry s n j) \<and>
    map_option ex_ID (sv_books s' n) = map_option ex_ID (sv_books s n)"
  using assms by (auto simp: add_depth_def entry_def)

lemma add_depth_inv:
  assumes a: "add_depth name m1 k d s = (s', a)" "sv_books s name = Some m1"
    and "service_inv s" and "depth_ID d = ex_ID m1"
  shows "service_inv s'"
proof -
  note e = add_depth_spec [OF a]
  have len: "sv_depths s' = sv_depths s @ [d]" "a = length (sv_depths s)" using e by blast+
  have at: "depth_at s' x = depth_at s x" if "x < length (sv_depths s)" for x
    using that len by (simp add: depth_at_def nth_append)
  have at_a: "depth_at s' a = d" using len by (simp add: depth_at_def)
  have "x < length (sv_depths s') \<and> map_option ex_ID (sv_books s' n) = Some (depth_ID (depth_at s' x))"
    if x: "entry s' n j = Some x" for n j x
  proof (cases "n = name \<and> j = k")
    case True
    then have "x = a" using x e [of n j] by simp
    then show ?thesis using True len at_a e [of n j] a(2) assms(4) by simp
  next
    case False
    then have "entry s n j = Some x" using x e [of n j] by (simp split: if_splits)
    then have "x < length (sv_depths s)"
      "map_option ex_ID (sv_books s n) = Some (depth_ID (depth_at s x))"
      using assms(3) unfolding service_inv_def by blast+
    then show ?thesis using e [of n j] len(1) at by simp
  qed
  moreover have "n = n' \<and> j = j'" if "entry s' n j = Some x" "entry s' n' j' = Some x" for n n' j j' x
  proof -
    have lt: "y < a" if "entry s m i = Some y" for m i y
      using that assms(3) len(2) unfolding service_inv_def by blast
    show ?thesis
      using that e [of n j] e [of n' j'] lt [of n j x] lt [of n' j' x] assms(3)
      unfolding service_inv_def by (metis less_irrefl option.inject)
  qed
  ultimately show ?thesis unfolding service_inv_def by blast
qed

lemma slot_spec:
  assumes "slot name m1 k d s = (s', a)" and "sv_books s name = Some m1"
    and inv: "service_inv s" and "depth_ID d = ex_ID m1"
  shows "service_inv s'" and "entry s' name k = Some a" and "a < length (sv_depths s')"
    and "(n, j) \<noteq> (name, k) \<Longrightarrow> entry s' n j = entry s n j"
    and "x < length (sv_depths s) \<Longrightarrow> depth_at s' x = depth_at s x"
    and "depth_ID (depth_at s' a) = ex_ID m1"
    and "length (sv_depths s) \<le> length (sv_depths s')"
    and "depth_at s' a = (case entry s name k of None \<Rightarrow> d | Some y \<Rightarrow> depth_at s y)"
proof -
  have e: "ex_books m1 k = entry s name k" using assms(2) by (simp add: entry_def)
  have "service_inv s' \<and> entry s' name k = Some a \<and> a < length (sv_depths s') \<and>
      ((n, j) \<noteq> (name, k) \<longrightarrow> entry s' n j = entry s n j) \<and>
      (x < length (sv_depths s) \<longrightarrow> depth_at s' x = depth_at s x) \<and>
      depth_ID (depth_at s' a) = ex_ID m1 \<and> length (sv_depths s) \<le> length (sv_depths s') \<and>
      depth_at s' a = (case entry s name k of None \<Rightarrow> d | Some y \<Rightarrow> depth_at s y)"
  proof (cases "entry s name k")
    case (Some y)
    then have "s' = s" "a = y" using assms(1) e by (simp_all add: slot_def)
    moreover have "y < length (sv_depths s)"
      "map_option ex_ID (sv_books s name) = Some (depth_ID (depth_at s y))"
      using Some inv unfolding service_inv_def by blast+
    ultimately show ?thesis using Some inv assms(2) by simp
  next
    case None
    then have ad: "add_depth name m1 k d s = (s', a)" using assms(1) e by (simp add: slot_def)
    note sp = add_depth_spec [OF ad assms(2)]
    have len: "sv_depths s' = sv_depths s @ [d]" "a = length (sv_depths s)" using sp by blast+
    show ?thesis
      using add_depth_inv [OF ad assms(2) inv assms(4)] sp [of name k] sp [of n j] len None assms(4)
      by (auto simp: depth_at_def nth_append)
  qed
  then show "service_inv s'" "entry s' name k = Some a" "a < length (sv_depths s')"
    "(n, j) \<noteq> (name, k) \<Longrightarrow> entry s' n j = entry s n j"
    "x < length (sv_depths s) \<Longrightarrow> depth_at s' x = depth_at s x"
    "depth_ID (depth_at s' a) = ex_ID m1" "length (sv_depths s) \<le> length (sv_depths s')"
    "depth_at s' a = (case entry s name k of None \<Rightarrow> d | Some y \<Rightarrow> depth_at s y)"
    by blast+
qed

lemma slot_old:
  "slot name m1 k d s = (s', a) \<Longrightarrow> sv_books s name = Some m1 \<Longrightarrow> entry s name k = Some y \<Longrightarrow>
    s' = s \<and> a = y"
  by (simp add: slot_def entry_def)

lemma LoadSnapshot_ID [simp]: "depth_ID (fst (LoadSnapshot now d b a i t p rest)) = depth_ID d"
  by (simp add: LoadSnapshot_def Let_def Alert_def)

text \<open>What an operation on one entry leaves alone.\<close>

definition others_kept :: "string \<Rightarrow> ob_key \<Rightarrow> service \<Rightarrow> service \<Rightarrow> bool" where
  "others_kept name k s s' \<longleftrightarrow>
     (\<forall>n j. (n, j) \<noteq> (name, k) \<longrightarrow> entry s' n j = entry s n j \<and>
        (\<forall>a. entry s n j = Some a \<longrightarrow> depth_at s' a = depth_at s a))"

lemma others_kept_same:
  "entry s' = entry s \<Longrightarrow> sv_depths s' = sv_depths s \<Longrightarrow> others_kept name k s s'"
  by (simp add: others_kept_def depth_at_def)

lemma others_kept_mux [simp]: "others_kept name k s (s'\<lparr>sv_mux := m\<rparr>) = others_kept name k s s'"
  by (simp add: others_kept_def)

text \<open>Writing through the slot of an entry.\<close>

lemma slot_write:
  assumes x: "exchange_of newV4 name s = (s1, Inr m1)" and sl: "slot name m1 k d s1 = (s2, a)"
    and inv: "service_inv s" and "depth_ID d = ex_ID m1" and "depth_ID d' = depth_ID (depth_at s2 a)"
  shows "service_inv (set_depth a d' s2)" and "entry (set_depth a d' s2) name k = Some a"
    and "depth_at (set_depth a d' s2) a = d'" and "others_kept name k s (set_depth a d' s2)"
proof -
  have sp: "entry s1 = entry s" "sv_depths s1 = sv_depths s" "sv_books s1 name = Some m1"
    using exchange_of_spec [OF x] by auto
  have inv1: "service_inv s1" by (rule exchange_of_inv [OF x inv])
  note sl = slot_spec [OF sl sp(3) inv1 assms(4)]
  show "service_inv (set_depth a d' s2)" by (rule service_inv_set_depth [OF sl(1) assms(5)])
  show "entry (set_depth a d' s2) name k = Some a" using sl(2) by simp
  show "depth_at (set_depth a d' s2) a = d'" using sl(3) by simp
  show "others_kept name k s (set_depth a d' s2)" unfolding others_kept_def
  proof (intro allI impI conjI)
    fix n j assume ne: "(n, j) \<noteq> (name, k)"
    then show "entry (set_depth a d' s2) n j = entry s n j" using sl(4) sp(1) by simp
    fix y assume y: "entry s n j = Some y"
    then have "y < length (sv_depths s1)" using inv1 sp(1) unfolding service_inv_def by metis
    moreover have "y \<noteq> a"
      using ne sl(1,2) sl(4) [OF ne] y sp(1) unfolding service_inv_def by (metis prod.inject)
    moreover have "depth_at s1 y = depth_at s y" using sp(2) by (simp add: depth_at_def)
    ultimately show "depth_at (set_depth a d' s2) y = depth_at s y" using sl(5) by simp
  qed
qed

lemma Service_Update_spec:
  assumes u: "Service_Update now newV4 s b = (s', e)" and inv: "service_inv s"
  shows "service_inv s'"
    and "others_kept (ToLower (bk_Exchange b)) (book_key (bk_Pair b) (bk_Asset b)) s s'"
    and "e = None \<Longrightarrow> \<exists>a. entry s' (ToLower (bk_Exchange b)) (book_key (bk_Pair b) (bk_Asset b)) = Some a \<and>
      \<not> IsZero (bk_LastUpdated b) \<and>
      (\<exists>d. depth_at s' a = fst (LoadSnapshot now d (bk_Bids b) (bk_Asks b) (bk_LastUpdateID b)
        (bk_LastUpdated b) (bk_UpdatePushedAt b) True))"
proof -
  let ?n = "ToLower (bk_Exchange b)" and ?k = "book_key (bk_Pair b) (bk_Asset b)"
  obtain s1 r where x: "exchange_of newV4 ?n s = (s1, r)" by fastforce
  have "service_inv s' \<and> others_kept ?n ?k s s' \<and> (e = None \<longrightarrow> (\<exists>a. entry s' ?n ?k = Some a \<and>
      \<not> IsZero (bk_LastUpdated b) \<and>
      (\<exists>d. depth_at s' a = fst (LoadSnapshot now d (bk_Bids b) (bk_Asks b) (bk_LastUpdateID b)
        (bk_LastUpdated b) (bk_UpdatePushedAt b) True))))"
  proof (cases r)
    case (Inl err)
    then have "s' = s1" "e \<noteq> None" using u x by (auto simp: Service_Update_def Let_def)
    then show ?thesis using exchange_of_spec [OF x] exchange_of_inv [OF x inv] by (auto intro: others_kept_same)
  next
    case (Inr m1)
    let ?d0 = "AssignOptions (NewDepth (ex_ID m1)) b"
    obtain s2 a where sl: "slot ?n m1 ?k ?d0 s1 = (s2, a)" by fastforce
    let ?l = "LoadSnapshot now (depth_at s2 a) (bk_Bids b) (bk_Asks b) (bk_LastUpdateID b)
      (bk_LastUpdated b) (bk_UpdatePushedAt b) True"
    have d0: "depth_ID ?d0 = ex_ID m1" by (simp add: AssignOptions_def NewDepth_def)
    note w = slot_write [OF x [unfolded Inr] sl inv d0, of "fst ?l"]
    have s': "\<exists>m. s' = (set_depth a (fst ?l) s2)\<lparr>sv_mux := m\<rparr>" and z: "e = None \<Longrightarrow> snd ?l = None"
      using u x Inr sl
      by (auto simp: Service_Update_def Let_def set_depth_def split: prod.splits option.splits)
        (metis service.surjective service.update_convs(3))+
    have "e = None \<Longrightarrow> \<not> IsZero (bk_LastUpdated b)" using z by (auto simp: LoadSnapshot_def)
    moreover obtain m where "s' = (set_depth a (fst ?l) s2)\<lparr>sv_mux := m\<rparr>" using s' by blast
    ultimately show ?thesis using w by auto
  qed
  then show "service_inv s'" "others_kept ?n ?k s s'"
    "e = None \<Longrightarrow> \<exists>a. entry s' ?n ?k = Some a \<and> \<not> IsZero (bk_LastUpdated b) \<and>
      (\<exists>d. depth_at s' a = fst (LoadSnapshot now d (bk_Bids b) (bk_Asks b) (bk_LastUpdateID b)
        (bk_LastUpdated b) (bk_UpdatePushedAt b) True))"
    by blast+
qed

lemma DeployDepth_spec:
  assumes u: "DeployDepth cs newV4 s exch p a = (s', r)" and inv: "service_inv s"
  shows "service_inv s'" and "others_kept (ToLower exch) (book_key p a) s s'"
    and "r = Inr x \<Longrightarrow> entry s' (ToLower exch) (book_key p a) = Some x"
    and "r = Inr x \<Longrightarrow> entry s (ToLower exch) (book_key p a) = Some y \<Longrightarrow>
      x = y \<and> depth_at s' x = depth_at s x"
proof -
  let ?n = "ToLower exch" and ?k = "book_key p a"
  have "service_inv s' \<and> others_kept ?n ?k s s' \<and> (r = Inr x \<longrightarrow> entry s' ?n ?k = Some x \<and>
      (entry s ?n ?k = Some y \<longrightarrow> x = y \<and> depth_at s' x = depth_at s x))"
  proof (cases "exch = [] \<or> pair_IsEmpty cs p \<or> \<not> asset_IsValid a")
    case True
    then have "s' = s" "r \<noteq> Inr x" using u by (auto simp: DeployDepth_def split: if_splits)
    then show ?thesis using inv by (simp add: others_kept_same)
  next
    case False
    obtain s1 r1 where x: "exchange_of newV4 ?n s = (s1, r1)" by fastforce
    show ?thesis
    proof (cases r1)
      case (Inl err)
      then have "s' = s1" "r = Inl err" using u x False by (auto simp: DeployDepth_def)
      then show ?thesis using exchange_of_spec [OF x] exchange_of_inv [OF x inv]
        by (auto intro: others_kept_same)
    next
      case (Inr m1)
      let ?d0 = "(NewDepth (ex_ID m1))\<lparr>opts := (opts (NewDepth (ex_ID m1)))\<lparr>exchange := exch,
        opt_pair := p, opt_asset := a\<rparr>\<rparr>"
      obtain s2 z where sl: "slot ?n m1 ?k ?d0 s1 = (s2, z)" by fastforce
      then have s': "s' = s2" "r = Inr z" using u x Inr False by (auto simp: DeployDepth_def Let_def)
      have d0: "depth_ID ?d0 = ex_ID m1" by (simp add: NewDepth_def)
      have e1: "entry s1 = entry s" "sv_depths s1 = sv_depths s" "sv_books s1 ?n = Some m1"
        using exchange_of_spec [OF x] Inr by auto
      note sp = slot_spec [OF sl e1(3) exchange_of_inv [OF x inv] d0]
      note w = slot_write [OF x [unfolded Inr] sl inv d0 refl]
      have same: "set_depth z (depth_at s2 z) s2 = s2" by (simp add: set_depth_def depth_at_def)
      have "entry s ?n ?k = Some y \<Longrightarrow> z = y \<and> depth_at s2 z = depth_at s y"
        using slot_old [OF sl e1(3)] e1(1,2) by (simp add: depth_at_def)
      then show ?thesis using w s' unfolding same by auto
    qed
  qed
  then show "service_inv s'" "others_kept ?n ?k s s'" "r = Inr x \<Longrightarrow> entry s' ?n ?k = Some x"
    "r = Inr x \<Longrightarrow> entry s ?n ?k = Some y \<Longrightarrow> x = y \<and> depth_at s' x = depth_at s x"
    by blast+
qed

lemma Retrieve_entry:
  "Service_Retrieve cs s exch p a = Inr r \<longleftrightarrow>
     \<not> pair_IsEmpty cs p \<and> asset_IsValid a \<and>
     (\<exists>x. entry s (ToLower exch) (book_key p a) = Some x \<and> depth_Retrieve (depth_at s x) = Inr r)"
  by (auto simp: Service_Retrieve_def entry_def split: option.splits)

lemma pair_IsEmpty_key: "pairKey p = pairKey q \<Longrightarrow> pair_IsEmpty cs p = pair_IsEmpty cs q"
  by (simp add: pairKey_def pair_IsEmpty_def code_IsEmpty_def)

lemma Verify_time [simp]: "Verify (b\<lparr>bk_LastUpdated := t\<rparr>) = Verify b"
  "Verify (b\<lparr>bk_Pair := p\<rparr>) = Verify b"
  by (simp_all add: Verify_def cong: option.case_cong)

lemma Process_Update:
  assumes "Process cs now newV4 s b = (s', e)" and "s' \<noteq> s \<or> e = None"
  shows "bk_Exchange b \<noteq> [] \<and> \<not> pair_IsEmpty cs (bk_Pair b) \<and>
    (let b' = (if IsZero (bk_LastUpdated b) then b\<lparr>bk_LastUpdated := now\<rparr> else b)
     in Verify b' = None \<and> Service_Update now newV4 s b' = (s', e))"
  using assms by (auto simp: Process_def Let_def split: if_splits option.splits)

section \<open>Properties\<close>

text \<open>C13: a book that \<open>Process\<close> accepted passed \<open>Verify\<close> (with the current time
  as its time if it had none), and \<open>Retrieve\<close> then returns its levels, update ID and time, under
  any spelling of the exchange's name and any pair of the same currencies.\<close>

theorem process_retrieve:
  assumes "service_inv s" and "Process cs now newV4 s b = (s', None)"
    and "asset_IsValid (bk_Asset b)" and "ToLower exch = ToLower (bk_Exchange b)"
    and "pairKey p = pairKey (bk_Pair b)"
  shows "case Service_Retrieve cs s' exch p (bk_Asset b) of Inl _ \<Rightarrow> False | Inr r \<Rightarrow>
    Verify b = None \<and> bk_Bids r = bk_Bids b \<and> bk_Asks r = bk_Asks b \<and>
    bk_LastUpdateID r = bk_LastUpdateID b \<and> \<not> IsZero (bk_LastUpdated r) \<and>
    bk_LastUpdated r = (if IsZero (bk_LastUpdated b) then now else bk_LastUpdated b)"
proof -
  define b' where "b' = (if IsZero (bk_LastUpdated b) then b\<lparr>bk_LastUpdated := now\<rparr> else b)"
  have pr: "\<not> pair_IsEmpty cs (bk_Pair b)" "Verify b' = None"
    "Service_Update now newV4 s b' = (s', None)"
    using Process_Update [OF assms(2)] by (auto simp: Let_def b'_def)
  have b': "bk_Bids b' = bk_Bids b" "bk_Asks b' = bk_Asks b" "bk_LastUpdateID b' = bk_LastUpdateID b"
    "bk_Exchange b' = bk_Exchange b" "bk_Pair b' = bk_Pair b" "bk_Asset b' = bk_Asset b"
    by (simp_all add: b'_def)
  obtain a d where a: "entry s' (ToLower (bk_Exchange b)) (book_key (bk_Pair b) (bk_Asset b)) = Some a"
    and z: "\<not> IsZero (bk_LastUpdated b')"
    and d: "depth_at s' a = fst (LoadSnapshot now d (bk_Bids b) (bk_Asks b) (bk_LastUpdateID b)
      (bk_LastUpdated b') (bk_UpdatePushedAt b') True)"
    using Service_Update_spec(3) [OF pr(3) assms(1)] b' by metis
  have "Verify b = Verify b'" by (simp add: b'_def)
  moreover have "book_key p (bk_Asset b) = book_key (bk_Pair b) (bk_Asset b)"
    using assms(5) by (simp add: book_key_def)
  moreover obtain r where r: "depth_Retrieve (depth_at s' a) = Inr r" "bk_Bids r = bk_Bids b"
    "bk_Asks r = bk_Asks b" "bk_LastUpdateID r = bk_LastUpdateID b"
    "bk_LastUpdated r = bk_LastUpdated b'"
    unfolding d using LoadSnapshot_sel [OF z] by (simp add: depth_Retrieve_def retrieve_all_eq)
  ultimately have "Service_Retrieve cs s' exch p (bk_Asset b) = Inr r"
    using a pr(1) assms(3,4) pair_IsEmpty_key [OF assms(5), of cs] unfolding Retrieve_entry by auto
  then show ?thesis using z pr(2) r \<open>Verify b = Verify b'\<close> by (auto simp: b'_def)
qed

text \<open>C26: processing a book, whether it succeeds or fails, keeps every entry of the
  service pointing to a depth of its own, and what \<open>Retrieve\<close> returns for any other exchange, pair
  or asset does not change; nor does handing out a depth change what is stored.\<close>

theorem books_isolated:
  assumes "service_inv s"
  shows "service_inv (fst (Process cs now newV4 s b)) \<and>
    service_inv (fst (DeployDepth cs newV4 s exch p a)) \<and>
    ((ToLower exch, book_key p a) = (ToLower (bk_Exchange b), book_key (bk_Pair b) (bk_Asset b)) \<or>
     (Service_Retrieve cs (fst (Process cs now newV4 s b)) exch p a = Inr r \<longleftrightarrow>
       Service_Retrieve cs s exch p a = Inr r)) \<and>
    (Service_Retrieve cs s exch p a = Inr r \<longrightarrow>
       Service_Retrieve cs (fst (DeployDepth cs newV4 s exch' p' a')) exch p a = Inr r)"
proof -
  obtain s' e where pr: "Process cs now newV4 s b = (s', e)" by fastforce
  have p: "service_inv s' \<and> others_kept (ToLower (bk_Exchange b)) (book_key (bk_Pair b) (bk_Asset b)) s s'"
  proof (cases "s' = s")
    case True
    then show ?thesis using assms by (simp add: others_kept_same)
  next
    case False
    let ?b = "if IsZero (bk_LastUpdated b) then b\<lparr>bk_LastUpdated := now\<rparr> else b"
    have "Service_Update now newV4 s ?b = (s', e)"
      using Process_Update [OF pr] False by (simp add: Let_def)
    from Service_Update_spec(1,2) [OF this assms] show ?thesis by (auto split: if_splits)
  qed
  have kept: "Service_Retrieve cs s' exch p a = Inr r \<longleftrightarrow> Service_Retrieve cs s exch p a = Inr r"
    if "others_kept n k s s'" "(ToLower exch, book_key p a) \<noteq> (n, k)" for n k s' exch p a
    using that unfolding Retrieve_entry others_kept_def by metis
  obtain s2 r2 where d: "DeployDepth cs newV4 s exch' p' a' = (s2, r2)" by fastforce
  have "Service_Retrieve cs s2 exch p a = Inr r" if old: "Service_Retrieve cs s exch p a = Inr r"
  proof (cases "(ToLower exch, book_key p a) = (ToLower exch', book_key p' a')")
    case False
    then show ?thesis using kept [OF DeployDepth_spec(2) [OF d assms]] old by blast
  next
    case True
    then obtain y where y: "entry s (ToLower exch') (book_key p' a') = Some y"
      "depth_Retrieve (depth_at s y) = Inr r" using old unfolding Retrieve_entry by auto
    show ?thesis
    proof (cases r2)
      case (Inl err)
      then have "entry s2 = entry s \<and> depth_at s2 = depth_at s"
        using d y(1) by (auto simp: DeployDepth_def exchange_of_def entry_def Let_def
          split: if_splits option.splits sum.splits prod.splits)
      then show ?thesis using old unfolding Retrieve_entry by metis
    next
      case (Inr x)
      then have "entry s2 (ToLower exch') (book_key p' a') = Some x" "depth_at s2 x = depth_at s y"
        using DeployDepth_spec(3) [OF d assms] DeployDepth_spec(4) [OF d assms _ y(1)] by auto
      then show ?thesis using y(2) True old unfolding Retrieve_entry by auto
    qed
  qed
  moreover have "service_inv (fst (DeployDepth cs newV4 s exch p a))"
    by (cases "DeployDepth cs newV4 s exch p a") (simp add: DeployDepth_spec(1) [OF _ assms])
  moreover have "(ToLower exch, book_key p a) =
      (ToLower (bk_Exchange b), book_key (bk_Pair b) (bk_Asset b)) \<or>
      (Service_Retrieve cs s' exch p a = Inr r \<longleftrightarrow> Service_Retrieve cs s exch p a = Inr r)"
    using kept p by blast
  ultimately show ?thesis using p pr d by simp
qed

definition demo_store :: store where
  "demo_store = \<lparr>cs_heap = (\<lambda>_. Some (empty_item\<lparr>Symbol := ''X''\<rparr>)), cs_next = 2,
     cs_items = (\<lambda>_. None)\<rparr>"

definition demo_pair :: pair where
  "demo_pair = NewPair \<lparr>Item = Some 0, upperCase = True\<rparr> \<lparr>Item = Some 1, upperCase = True\<rparr>"

lemma demo_pair_filled: "\<not> pair_IsEmpty demo_store demo_pair"
  by (simp add: demo_store_def demo_pair_def pair_IsEmpty_def code_IsEmpty_def item_at_def NewPair_def)

definition demo_book :: book where
  "demo_book = sample_book\<lparr>bk_Pair := demo_pair\<rparr>"

definition demo_service :: service where
  "demo_service = empty_service (Some NewDispatcher)"

lemma demo_verify: "Verify demo_book = None"
  using sample_verify by (simp add: demo_book_def)

lemma demo_sel: "bk_Exchange demo_book = ''Kraken''" "bk_Pair demo_book = demo_pair"
  "bk_Asset demo_book = Spot" "bk_LastUpdated demo_book = 5" "bk_Bids demo_book = [tr 1 10 1, tr 2 9 2]"
  by (simp_all add: demo_book_def sample_book_def)

lemma demo_process:
  "\<exists>s'. Process demo_store 9 (Inr 1) demo_service demo_book = (s', None)"
proof -
  have m: "mux_GetID (Inr 1) (Some NewDispatcher) = (Some (NewDispatcher\<lparr>routes := [(1, [])]\<rparr>), Inr 1)"
    by (simp add: mux_GetID_def getNewID_def not_nil_def NewDispatcher_def)
  have p: "mux_Publish (Some (NewDispatcher\<lparr>routes := r\<rparr>)) (Some (a :: nat)) [1] =
      (Some (NewDispatcher\<lparr>routes := r\<rparr>), None)" for r a
    by (simp add: mux_Publish_def NewDispatcher_def)
  have a: "asset_String Spot \<noteq> []" using asset_String_ne by (simp add: supportedList_def)
  have "snd (Service_Update 9 (Inr 1) demo_service demo_book) = None"
    by (simp add: Service_Update_def exchange_of_def demo_service_def empty_service_def m p slot_def
      add_depth_def set_depth_def LoadSnapshot_def demo_sel IsZero_def Let_def split: prod.splits)
  then show ?thesis using demo_pair_filled a
    by (cases "Service_Update 9 (Inr 1) demo_service demo_book")
      (simp add: Process_def demo_sel demo_verify IsZero_def)
qed

theorem process_retrieve_witness:
  "\<exists>s' r. Service_Retrieve demo_store s' ''KRAKEN'' demo_pair Spot = Inr r \<and>
     bk_Bids r = [tr 1 10 1, tr 2 9 2]"
proof -
  obtain s' where s': "Process demo_store 9 (Inr 1) demo_service demo_book = (s', None)"
    using demo_process by blast
  have "service_inv demo_service" by (simp add: demo_service_def service_inv_empty)
  from process_retrieve [OF this s', of "''KRAKEN''" demo_pair] show ?thesis
    by (auto simp: demo_sel asset_IsValid_def asset_consts case_eval
      split: sum.splits)
qed

theorem books_isolated_witness:
  "service_inv (fst (Process demo_store 9 (Inr 1) demo_service demo_book))"
  using books_isolated [of demo_service] by (simp add: demo_service_def service_inv_empty)

end
