(* ===== verification/Stream_Buffer.thy ===== *)
theory Stream_Buffer
  imports Book_Service
begin

text \<open>
  The websocket feed of order books: \<open>exchanges/stream/buffer/buffer.go\<close>.  It keeps, per pair and
  asset, a holder with the pointer to the depth in the service, the updates not applied yet and
  the ID of the last one; it applies updates by price or by ID, at once or buffered, checks the
  result by checksum or by \<open>Verify\<close>, and gives the book up when the check fails.

  The checksum function of an exchange is an argument (its code is the connector's).  The data
  handler is the list of the depths sent to it; a send that finds the channel full would wait.
  Whether the ticker has fired is an argument.

  The lemmas show that no book a stream without a checksum function writes can be read unless it
  passes its check, which
  updates are skipped, what a successful update makes visible through the service, and that a
  buffer that \<open>LoadSnapshot\<close> made never drains.
\<close>

section \<open>State\<close>

definition errExchangeConfigNil :: go_error where
  "errExchangeConfigNil = Sentinel ''buffer.errExchangeConfigNil''"
definition errBufferConfigNil :: go_error where
  "errBufferConfigNil = Sentinel ''buffer.errBufferConfigNil''"
definition errUnsetDataHandler :: go_error where
  "errUnsetDataHandler = Sentinel ''buffer.errUnsetDataHandler''"
definition errIssueBufferEnabledButNoLimit :: go_error where
  "errIssueBufferEnabledButNoLimit = Sentinel ''buffer.errIssueBufferEnabledButNoLimit''"
definition errUpdateIsNil :: go_error where
  "errUpdateIsNil = Sentinel ''buffer.errUpdateIsNil''"
definition errUpdateNoTargets :: go_error where
  "errUpdateNoTargets = Sentinel ''buffer.errUpdateNoTargets''"
definition errDepthNotFound :: go_error where
  "errDepthNotFound = Sentinel ''buffer.errDepthNotFound''"
definition errInvalidAction :: go_error where
  "errInvalidAction = Sentinel ''buffer.errInvalidAction''"
definition errAmendFailure :: go_error where
  "errAmendFailure = Sentinel ''buffer.errAmendFailure''"
definition errDeleteFailure :: go_error where
  "errDeleteFailure = Sentinel ''buffer.errDeleteFailure''"
definition errInsertFailure :: go_error where
  "errInsertFailure = Sentinel ''buffer.errInsertFailure''"
definition errUpdateInsertFailure :: go_error where
  "errUpdateInsertFailure = Sentinel ''buffer.errUpdateInsertFailure''"
definition errRESTTimerLapse :: go_error where
  "errRESTTimerLapse = Sentinel ''buffer.errRESTTimerLapse''"
definition errOrderbookFlushed :: go_error where
  "errOrderbookFlushed = Sentinel ''buffer.errOrderbookFlushed''"

type_synonym checksum_fn = "book \<Rightarrow> 32 word \<Rightarrow> go_error option"

record buffer_config =
  cfg_SortBuffer :: bool
  cfg_SortBufferByUpdateIDs :: bool
  cfg_UpdateEntriesByID :: bool
  cfg_UpdateIDProgression :: bool
  cfg_Checksum :: "checksum_fn option"

text \<open>What \<open>Setup\<close> reads of the exchange's configuration.\<close>

record exchange_config =
  cfg_Name :: string
  cfg_Verbose :: bool
  cfg_WebsocketBufferEnabled :: bool
  cfg_WebsocketBufferLimit :: int
  cfg_PublishPeriod :: "int option"

record holder =
  h_ob :: nat
  h_buffer :: "update list"
  h_ticker :: bool
  h_updateID :: int

record ws_orderbook =
  ws_ob :: "ob_key \<Rightarrow> holder option"
  obBufferLimit :: int
  bufferEnabled :: bool
  sortBuffer :: bool
  sortBufferByUpdateIDs :: bool
  updateEntriesByID :: bool
  exchangeName :: string
  dataHandler :: "nat list"
  verbose :: bool
  updateIDProgression :: bool
  ws_checksum :: "checksum_fn option"
  publishPeriod :: int

definition DefaultOrderbookPublishPeriod :: int where
  "DefaultOrderbookPublishPeriod = 10 * 1000000000"

definition zero_update :: update where
  "zero_update = \<lparr>UpdateID = 0, UpdateTime = 0, UpdatePushedAt = 0, upd_Asset = Empty, Action = 0,
     Bids = [], Asks = [], upd_Pair = EMPTYPAIR, Checksum = 0\<rparr>"

definition packageError :: "go_error \<Rightarrow> go_error" where
  "packageError err = Errorf ''websocket orderbook buffer error: %w'' [err]"

section \<open>Operations\<close>

definition Setup ::
    "ws_orderbook \<Rightarrow> exchange_config option \<Rightarrow> buffer_config option \<Rightarrow> nat list option
      \<Rightarrow> ws_orderbook \<times> go_error option" where
  "Setup w exchangeConfig c handler =
     (case exchangeConfig of None \<Rightarrow> (w, Some (packageError errExchangeConfigNil)) | Some ec \<Rightarrow>
      case c of None \<Rightarrow> (w, Some (packageError errBufferConfigNil)) | Some c \<Rightarrow>
      case handler of None \<Rightarrow> (w, Some (packageError errUnsetDataHandler)) | Some handler \<Rightarrow>
      if cfg_WebsocketBufferEnabled ec \<and> cfg_WebsocketBufferLimit ec < 1
      then (w, Some (packageError errIssueBufferEnabledButNoLimit))
      else
        (w\<lparr>bufferEnabled := cfg_WebsocketBufferEnabled ec,
           obBufferLimit := cfg_WebsocketBufferLimit ec,
           sortBuffer := cfg_SortBuffer c, sortBufferByUpdateIDs := cfg_SortBufferByUpdateIDs c,
           updateEntriesByID := cfg_UpdateEntriesByID c, exchangeName := cfg_Name ec,
           dataHandler := handler, ws_ob := (\<lambda>_. None), verbose := cfg_Verbose ec,
           publishPeriod := (case cfg_PublishPeriod ec of
                               None \<Rightarrow> DefaultOrderbookPublishPeriod | Some p \<Rightarrow> p),
           updateIDProgression := cfg_UpdateIDProgression c, ws_checksum := cfg_Checksum c\<rparr>, None))"

definition validate :: "update option \<Rightarrow> go_error option" where
  "validate u =
     (case u of
        None \<Rightarrow> Some (packageError errUpdateIsNil)
      | Some u \<Rightarrow>
          if length (Bids u) = 0 \<and> length (Asks u) = 0 then Some (packageError errUpdateNoTargets)
          else None)"

text \<open>\<open>fmt.Errorf("%w %w", failure, err)\<close>.\<close>

definition wrap_failure :: "go_error \<Rightarrow> depth \<times> go_error option \<Rightarrow> depth \<times> go_error option" where
  "wrap_failure failure r = (fst r, map_option (\<lambda>err. Errorf ''%w %w'' [failure, err]) (snd r))"

definition updateByIDAndAction :: "time \<Rightarrow> depth \<Rightarrow> update \<Rightarrow> depth \<times> go_error option" where
  "updateByIDAndAction now d u =
     (if Action u = Amend then wrap_failure errAmendFailure (UpdateBidAskByID now d u)
      else if Action u = Delete then
        wrap_failure errDeleteFailure
          (DeleteBidAskByID now d u (GetName d = ''Bitfinex'' \<and> depth_IsFundingRate d))
      else if Action u = Insert then wrap_failure errInsertFailure (InsertBidAskByID now d u)
      else if Action u = UpdateInsert then
        wrap_failure errUpdateInsertFailure (UpdateInsertByID now d u)
      else (d, Some (Errorf ''%w [%d]'' [errInvalidAction])))"

type_synonym held = "holder \<times> depth"

definition processObUpdate ::
    "time \<Rightarrow> ws_orderbook \<Rightarrow> held \<Rightarrow> update \<Rightarrow> held \<times> go_error option" where
  "processObUpdate now w hh u =
     (let (h, d) = hh;
          (d, err) = (if updateEntriesByID w then updateByIDAndAction now d u
                      else UpdateBidAskByPrice now d u)
      in case err of
           Some e \<Rightarrow> ((h, d), Some e)
         | None \<Rightarrow>
             (case ws_checksum w of
                Some f \<Rightarrow>
                  (case depth_Retrieve d of
                     Inl e \<Rightarrow> ((h, d), Some e)
                   | Inr cmp \<Rightarrow>
                       (case f cmp (Checksum u) of
                          Some e \<Rightarrow> (let (d, e) = Invalidate d (Some e) in ((h, d), e))
                        | None \<Rightarrow> ((h\<lparr>h_updateID := UpdateID u\<rparr>, d), None)))
              | None \<Rightarrow>
                  (if depth_VerifyOrderbook d then
                     (case depth_Retrieve d of
                        Inl e \<Rightarrow> ((h, d), Some e)
                      | Inr cmp \<Rightarrow>
                          (case Verify cmp of
                             Some e \<Rightarrow> (let (d, e) = Invalidate d (Some e) in ((h, d), e))
                           | None \<Rightarrow> ((h, d), None)))
                   else ((h, d), None))))"

fun process_all :: "time \<Rightarrow> ws_orderbook \<Rightarrow> held \<Rightarrow> update list \<Rightarrow> held \<times> go_error option" where
  "process_all now w hh [] = (hh, None)"
| "process_all now w hh (u # us) =
     (case processObUpdate now w hh u of
        (hh, Some e) \<Rightarrow> (hh, Some e)
      | (hh, None) \<Rightarrow> process_all now w hh us)"

definition sort_updates :: "ws_orderbook \<Rightarrow> update list \<Rightarrow> update list" where
  "sort_updates w us =
     (if sortBuffer w then
        if sortBufferByUpdateIDs w then slice_sort (\<lambda>a b. UpdateID a < UpdateID b) us
        else slice_sort (\<lambda>a b. UpdateTime a < UpdateTime b) us
      else us)"

definition processBufferUpdate ::
    "time \<Rightarrow> ws_orderbook \<Rightarrow> held \<Rightarrow> update \<Rightarrow> held \<times> bool \<times> go_error option" where
  "processBufferUpdate now w hh u =
     (let (h, d) = hh;
          h = h\<lparr>h_buffer := h_buffer h @ [u]\<rparr>
      in if int (length (h_buffer h)) < obBufferLimit w then ((h, d), False, None)
         else
           let h = h\<lparr>h_buffer := sort_updates w (h_buffer h)\<rparr>
           in case process_all now w (h, d) (h_buffer h) of
                (hh, Some e) \<Rightarrow> (hh, False, Some e)
              | ((h, d), None) \<Rightarrow> ((h\<lparr>h_buffer := []\<rparr>, d), True, None))"

text \<open>What \<open>Update\<close> does with the holder and its depth, up to publishing.\<close>

definition apply_update ::
    "time \<Rightarrow> ws_orderbook \<Rightarrow> held \<Rightarrow> update \<Rightarrow> held \<times> bool \<times> go_error option" where
  "apply_update now w hh u =
     (let (h, d) = hh
      in if updateIDProgression w \<and> UpdateID u \<le> h_updateID h then ((h, d), False, None)
         else case IsRESTSnapshot d of
           Inl err \<Rightarrow> ((h, d), False, if errors_is err ErrOrderbookInvalid then None else Some err)
         | Inr isREST \<Rightarrow>
             if isREST then
               (let (d, e) = Invalidate d (Some errRESTTimerLapse) in ((h, d), False, e))
             else if bufferEnabled w then processBufferUpdate now w (h, d) u
             else (case processObUpdate now w (h, d) u of
                     (hh, Some e) \<Rightarrow> (hh, False, Some e)
                   | (hh, None) \<Rightarrow> (hh, True, None)))"

definition update_key :: "update \<Rightarrow> ob_key" where
  "update_key u = book_key (upd_Pair u) (upd_Asset u)"

definition ws_Update ::
    "time \<Rightarrow> bool \<Rightarrow> ws_orderbook \<Rightarrow> service \<Rightarrow> update option
      \<Rightarrow> (ws_orderbook \<times> service) \<times> go_error option" where
  "ws_Update now tick w s u =
     (case validate u of Some err \<Rightarrow> ((w, s), Some err) | None \<Rightarrow>
      case u of None \<Rightarrow> ((w, s), None) | Some u \<Rightarrow>
      case ws_ob w (update_key u) of
        None \<Rightarrow> ((w, s), Some (Errorf ''%w for Exchange %s'' [errDepthNotFound]))
      | Some h \<Rightarrow>
          (let ((h', d), go_on, err) = apply_update now w (h, depth_at s (h_ob h)) u;
               w = w\<lparr>ws_ob := (ws_ob w)(update_key u \<mapsto> h')\<rparr>;
               s = set_depth (h_ob h) d s
           in if err \<noteq> None \<or> \<not> go_on then ((w, s), err)
              else
                let s = Depth_Publish s (h_ob h)
                in if h_ticker h \<and> \<not> tick \<and> \<not> verbose w then ((w, s), None)
                   else ((w\<lparr>dataHandler := dataHandler w @ [h_ob h]\<rparr>, s), None)))"

definition ws_LoadSnapshot ::
    "store \<Rightarrow> time \<Rightarrow> uuid go_result \<Rightarrow> ws_orderbook \<Rightarrow> service \<Rightarrow> book
      \<Rightarrow> (ws_orderbook \<times> service) \<times> go_error option" where
  "ws_LoadSnapshot cs now newV4 w s b =
     (case Verify b of Some err \<Rightarrow> ((w, s), Some err) | None \<Rightarrow>
      let k = book_key (bk_Pair b) (bk_Asset b);
          (s, r) = (case ws_ob w k of
             Some h \<Rightarrow> (s, Inr h)
           | None \<Rightarrow>
               (case DeployDepth cs newV4 s (bk_Exchange b) (bk_Pair b) (bk_Asset b) of
                  (s, Inl err) \<Rightarrow> (s, Inl err)
                | (s, Inr x) \<Rightarrow>
                    (set_depth x (AssignOptions (depth_at s x) b) s,
                     Inr \<lparr>h_ob = x, h_buffer = replicate (nat (obBufferLimit w)) zero_update,
                          h_ticker = (publishPeriod w \<noteq> 0), h_updateID = 0\<rparr>)))
      in case r of
           Inl err \<Rightarrow> ((w, s), Some err)
         | Inr h \<Rightarrow>
             (let w = w\<lparr>ws_ob := (ws_ob w)(k \<mapsto> h\<lparr>h_updateID := bk_LastUpdateID b\<rparr>)\<rparr>;
                  (d, err) = LoadSnapshot now (depth_at s (h_ob h)) (bk_Bids b) (bk_Asks b)
                               (bk_LastUpdateID b) (bk_LastUpdated b) (bk_UpdatePushedAt b) False;
                  s = set_depth (h_ob h) d s
              in case err of
                   Some e \<Rightarrow> ((w, s), Some e)
                 | None \<Rightarrow>
                     ((w\<lparr>dataHandler := dataHandler w @ [h_ob h]\<rparr>, Depth_Publish s (h_ob h)), None)))"

definition GetOrderbook :: "ws_orderbook \<Rightarrow> service \<Rightarrow> pair \<Rightarrow> asset_item \<Rightarrow> book go_result" where
  "GetOrderbook w s p a =
     (case ws_ob w (book_key p a) of
        None \<Rightarrow> Inl (Errorf ''%s %s %s %w'' [errDepthNotFound])
      | Some h \<Rightarrow> depth_Retrieve (depth_at s (h_ob h)))"

definition FlushBuffer :: "ws_orderbook \<Rightarrow> ws_orderbook" where
  "FlushBuffer w = w\<lparr>ws_ob := (\<lambda>_. None)\<rparr>"

definition FlushOrderbook ::
    "ws_orderbook \<Rightarrow> service \<Rightarrow> pair \<Rightarrow> asset_item \<Rightarrow> service \<times> go_error option" where
  "FlushOrderbook w s p a =
     (case ws_ob w (book_key p a) of
        None \<Rightarrow> (s, Some (Errorf ''cannot flush orderbook %s %s %s %w'' [errDepthNotFound]))
      | Some h \<Rightarrow>
          (set_depth (h_ob h)
             (fst (Invalidate (depth_at s (h_ob h)) (Some errOrderbookFlushed))) s, None))"

section \<open>Books that can be read have passed their check\<close>

text \<open>A depth is sound if it is invalid and empty, or what \<open>Retrieve\<close> returns passes \<open>Verify\<close>
  (which accepts anything if the book is not to be verified).\<close>

definition sound :: "depth \<Rightarrow> bool" where
  "sound d =
     (case depth_Retrieve d of
        Inl _ \<Rightarrow> bidTranches d = [] \<and> askTranches d = []
      | Inr r \<Rightarrow> Verify r = None)"

lemma sound_invalidate: "sound (fst (invalidate d r))"
  using invalidate_sel(2-4) [of d r]
  by (cases "validationError (fst (invalidate d r))") (simp_all add: sound_def depth_Retrieve_def)

lemma sound_Invalidate: "sound (fst (Invalidate d r))"
  by (simp add: Invalidate_def sound_invalidate)

text \<open>A failing update by ID leaves an untouched or an invalidated book, so a sound one.\<close>

lemma update_sides_sound:
  assumes "update_sides f g now d u = (d', Some e)" and "sound d"
  shows "sound d'"
proof (cases rule: update_sides_cases [OF assms(1)])
  case 2
  then show ?thesis by (metis fst_conv sound_invalidate)
qed (use assms(2) in auto)

lemmas by_id_defs = UpdateBidAskByID_def DeleteBidAskByID_def InsertBidAskByID_def UpdateInsertByID_def

lemma by_id_update:
  "\<exists>f g. updateByIDAndAction now d u = (d, Some (Errorf ''%w [%d]'' [errInvalidAction])) \<or>
    fst (updateByIDAndAction now d u) = fst (update_sides f g now d u) \<and>
    (snd (updateByIDAndAction now d u) = None \<longleftrightarrow> snd (update_sides f g now d u) = None)"
  by (auto simp: updateByIDAndAction_def wrap_failure_def by_id_defs)

definition raw_update :: "time \<Rightarrow> ws_orderbook \<Rightarrow> depth \<Rightarrow> update \<Rightarrow> depth \<times> go_error option" where
  "raw_update now w d u =
     (if updateEntriesByID w then updateByIDAndAction now d u else UpdateBidAskByPrice now d u)"

lemma raw_update_cases:
  assumes "raw_update now w d u = (d', e)" and "sound d" and "validationError d = None"
  shows "(e \<noteq> None \<longrightarrow> sound d') \<and> (e = None \<longrightarrow> validationError d' = None)"
proof (cases "updateEntriesByID w")
  case True
  from by_id_update [of now d u] obtain f g where fg: "updateByIDAndAction now d u = (d, Some (Errorf ''%w [%d]'' [errInvalidAction])) \<or>
    fst (updateByIDAndAction now d u) = fst (update_sides f g now d u) \<and>
    (snd (updateByIDAndAction now d u) = None \<longleftrightarrow> snd (update_sides f g now d u) = None)"
    by (elim exE)
  obtain d1 e1 where s: "update_sides f g now d u = (d1, e1)" by fastforce
  have "(e1 \<noteq> None \<longrightarrow> sound d1) \<and> (e1 = None \<longrightarrow> validationError d1 = None)"
  proof (cases rule: update_sides_cases [OF s])
    case (2 err d0)
    then have "d1 = fst (invalidate d0 (Some err))" "e1 = snd (invalidate d0 (Some err))"
      by (metis fst_conv snd_conv)+
    then show ?thesis using invalidate_sel(1,4) [of d0 "Some err"] sound_invalidate by simp
  qed (use assms(2,3) in auto)
  then show ?thesis using fg s True assms by (auto simp: raw_update_def)
next
  case False
  then show ?thesis using assms UpdateBidAskByPrice_sel [of u now d] UpdateBidAskByPrice_zero [of u now d]
    by (cases "IsZero (UpdateTime u)") (auto simp: raw_update_def)
qed

lemma processObUpdate_sound:
  assumes "processObUpdate now w (h, d) u = ((h', d'), e)" and "sound d" and "validationError d = None"
    and "ws_checksum w = None"
  shows "sound d' \<and> (e = None \<longrightarrow> validationError d' = None)"
proof -
  obtain d1 e1 where r: "raw_update now w d u = (d1, e1)" by fastforce
  note c = raw_update_cases [OF r assms(2,3)]
  show ?thesis
  proof (cases e1)
    case (Some err)
    then show ?thesis using assms(1) r c by (auto simp: processObUpdate_def raw_update_def split: if_splits)
  next
    case None
    then have v: "validationError d1 = None" using c by simp
    then obtain k where k: "depth_Retrieve d1 = Inr k" "bk_VerifyOrderbook k = depth_VerifyOrderbook d1"
      by (simp add: depth_Retrieve_def depth_VerifyOrderbook_def)
    have p: "((h', d'), e) = (if depth_VerifyOrderbook d1 then
        (case Verify k of Some x \<Rightarrow> (let (d, e) = Invalidate d1 (Some x) in ((h, d), e))
         | None \<Rightarrow> ((h, d1), None)) else ((h, d1), None))"
      using assms(1,4) r None k(1)
      by (simp add: processObUpdate_def raw_update_def split: if_split_asm)
    have inv: "snd (Invalidate d1 x) \<noteq> None" "sound (fst (Invalidate d1 x))" for x
      using invalidate_sel(1,4) [of d1 x] sound_Invalidate by (simp_all add: Invalidate_def)
    show ?thesis
    proof (cases "Verify k")
      case None
      then have "sound d1" using k by (simp add: sound_def)
      then show ?thesis using p None v by (auto split: if_splits)
    next
      case (Some x)
      then have "bk_VerifyOrderbook k" by (auto simp: Verify_def split: if_splits)
      then show ?thesis using p Some k inv [of "Some x"] by (auto split: prod.splits)
    qed
  qed
qed

lemma process_all_sound:
  "process_all now w (h, d) us = ((h', d'), e) \<Longrightarrow> sound d \<Longrightarrow> validationError d = None \<Longrightarrow>
    ws_checksum w = None \<Longrightarrow> sound d' \<and> (e = None \<longrightarrow> validationError d' = None)"
proof (induction us arbitrary: h d)
  case (Cons u us)
  obtain h1 d1 e1 where p: "processObUpdate now w (h, d) u = ((h1, d1), e1)" by (metis surj_pair)
  note s = processObUpdate_sound [OF p Cons.prems(2-4)]
  show ?case using s Cons.IH [of h1 d1] Cons.prems p by (cases e1) auto
qed auto

lemma apply_update_sound:
  assumes "apply_update now w (h, d) u = ((h', d'), go_on, e)" and "sound d" and "ws_checksum w = None"
  shows "sound d'"
proof (cases "validationError d")
  case (Some err)
  then show ?thesis using assms(1,2) by (auto simp: apply_update_def IsRESTSnapshot_def split: if_splits)
next
  case None
  have "sound d'" if "process_all now w (h1, d) us = ((h', d'), e1)" for h1 us e1 h'
    using process_all_sound [OF that assms(2) None assms(3)] by simp
  moreover have "sound d'" if "processObUpdate now w (h1, d) u = ((h', d'), e1)" for h1 e1 h'
    using processObUpdate_sound [OF that assms(2) None assms(3)] by simp
  ultimately show ?thesis using assms(1,2) None sound_Invalidate [of d "Some errRESTTimerLapse"]
    by (auto simp: apply_update_def IsRESTSnapshot_def processBufferUpdate_def Let_def
      split: if_splits prod.splits option.splits)
qed

text \<open>A snapshot is verified under its own settings, but read under those of the depth, which are
  assigned from the snapshot only where the stream has no holder for its key.\<close>

definition snapshot_fits :: "ws_orderbook \<Rightarrow> service \<Rightarrow> book \<Rightarrow> bool" where
  "snapshot_fits w s b =
     (case ws_ob w (book_key (bk_Pair b) (bk_Asset b)) of
        None \<Rightarrow> \<not> IsZero (bk_LastUpdated b)
      | Some h \<Rightarrow>
          (let set = opts (depth_at s (h_ob h))
           in verifyOrderbook set = bk_VerifyOrderbook b \<and> exchange set = bk_Exchange b \<and>
              isFundingRate set = bk_IsFundingRate b \<and> priceDuplication set = bk_PriceDuplication b \<and>
              checksumStringRequired set = bk_ChecksumStringRequired b))"

lemma alignment_without_ids:
  "alignment_loop fr dup al chk c exch prev ts = None \<Longrightarrow> alignment_loop fr dup False chk c exch prev ts = None"
  by (induction ts arbitrary: prev) (auto split: if_splits option.splits)

lemma loaded_sound:
  assumes "Verify b = None" and "verifyOrderbook (opts d) = bk_VerifyOrderbook b"
    and "exchange (opts d) = bk_Exchange b" and "isFundingRate (opts d) = bk_IsFundingRate b"
    and "priceDuplication (opts d) = bk_PriceDuplication b"
    and "checksumStringRequired (opts d) = bk_ChecksumStringRequired b" and "\<not> IsZero t"
  shows "sound (fst (LoadSnapshot now d (bk_Bids b) (bk_Asks b) i t p False))"
  using assms(1-6) LoadSnapshot_sel [OF assms(7), of now d "bk_Bids b" "bk_Asks b" i p False]
    alignment_without_ids
  by (auto simp: sound_def depth_Retrieve_def Verify_def checkAlignment_def split: option.splits if_splits)

lemma all_sound_set:
  assumes "list_all sound (sv_depths s)" and "x < length (sv_depths s) \<Longrightarrow> sound d"
  shows "list_all sound (sv_depths (set_depth x d s))"
  using assms set_update_subset_insert [of "sv_depths s" x d]
  by (cases "x < length (sv_depths s)") (auto simp: set_depth_def list_all_iff list_update_beyond)

lemma all_sound_at: "list_all sound (sv_depths s) \<Longrightarrow> x < length (sv_depths s) \<Longrightarrow> sound (depth_at s x)"
  by (simp add: depth_at_def list_all_length)

lemma sound_new: "sound ((NewDepth i)\<lparr>opts := f\<rparr>)"
  by (simp add: sound_def depth_Retrieve_def NewDepth_def Verify_def checkAlignment_def)

lemma DeployDepth_sound:
  "DeployDepth cs newV4 s exch p a = (s', r) \<Longrightarrow> list_all sound (sv_depths s) \<Longrightarrow> list_all sound (sv_depths s')"
  by (auto simp: DeployDepth_def exchange_of_def slot_def add_depth_def Let_def sound_new
      split: if_splits option.splits prod.splits sum.splits)

lemma load_snapshot_sound:
  assumes "list_all sound (sv_depths s)" and "snapshot_fits w s b"
  shows "list_all sound (sv_depths (snd (fst (ws_LoadSnapshot cs now newV4 w s b))))"
proof (cases "Verify b")
  case v: None
  let ?k = "book_key (bk_Pair b) (bk_Asset b)"
  let ?load = "\<lambda>d. LoadSnapshot now d (bk_Bids b) (bk_Asks b) (bk_LastUpdateID b) (bk_LastUpdated b)
      (bk_UpdatePushedAt b) False"
  have pub: "sv_depths (Depth_Publish t x) = sv_depths t" for t x by (simp add: Depth_Publish_def)
  show ?thesis
  proof (cases "ws_ob w ?k")
    case (Some h)
    have "list_all sound (sv_depths (set_depth (h_ob h) (fst (?load (depth_at s (h_ob h)))) s))"
    proof (rule all_sound_set [OF assms(1)])
      assume "h_ob h < length (sv_depths s)"
      then show "sound (fst (?load (depth_at s (h_ob h))))"
        using assms(2) all_sound_at [OF assms(1)] loaded_sound [OF v]
        by (cases "IsZero (bk_LastUpdated b)")
          (auto simp: snapshot_fits_def Some Let_def LoadSnapshot_zero)
    qed
    then show ?thesis
      by (auto simp: ws_LoadSnapshot_def v Some Let_def pub split: prod.split option.split)
  next
    case None
    then have t: "\<not> IsZero (bk_LastUpdated b)" using assms(2) by (simp add: snapshot_fits_def)
    obtain s1 r where d: "DeployDepth cs newV4 s (bk_Exchange b) (bk_Pair b) (bk_Asset b) = (s1, r)" by fastforce
    note s1 = DeployDepth_sound [OF d assms(1)]
    show ?thesis
    proof (cases r)
      case (Inl e)
      then show ?thesis using s1 by (simp add: ws_LoadSnapshot_def v None d Let_def)
    next
      case (Inr x)
      let ?s2 = "set_depth x (AssignOptions (depth_at s1 x) b) s1"
      have "sv_depths (set_depth x y ?s2) = sv_depths (set_depth x y s1)" for y
        by (simp add: set_depth_def)
      moreover have "list_all sound (sv_depths (set_depth x (fst (?load (depth_at ?s2 x))) s1))"
      proof (rule all_sound_set [OF s1])
        assume "x < length (sv_depths s1)"
        then have "depth_at ?s2 x = AssignOptions (depth_at s1 x) b" by (simp add: depth_at_def set_depth_def)
        then show "sound (fst (?load (depth_at ?s2 x)))"
          using loaded_sound [OF v _ _ _ _ _ t] by (simp add: AssignOptions_def)
      qed
      ultimately show ?thesis
        by (auto simp: ws_LoadSnapshot_def v None d Inr Let_def pub split: prod.split option.split)
    qed
  qed
qed (use assms(1) in \<open>simp add: ws_LoadSnapshot_def\<close>)

section \<open>The buffer \<open>LoadSnapshot\<close> makes\<close>

text \<open>The source makes the buffer with a length, not a capacity, of the limit: it starts full of
  zero updates.  A zero update cannot be applied, whatever the book.\<close>

definition stuck :: "ws_orderbook \<Rightarrow> holder \<Rightarrow> bool" where
  "stuck w h \<longleftrightarrow> bufferEnabled w \<and> zero_update \<in> set (h_buffer h) \<and>
     obBufferLimit w \<le> int (length (h_buffer h))"

lemma process_zero: "snd (processObUpdate now w hh zero_update) \<noteq> None"
  by (cases hh) (simp add: processObUpdate_def zero_update_def updateByIDAndAction_def Amend_def
    Delete_def Insert_def UpdateInsert_def UpdateBidAskByPrice_def IsZero_def)

lemma processObUpdate_buffer [simp]:
  "h_buffer (fst (fst (processObUpdate now w (h, d) u))) = h_buffer h"
  by (auto simp: processObUpdate_def split: prod.splits option.splits sum.splits)

lemma process_all_zero:
  "zero_update \<in> set us \<Longrightarrow> snd (process_all now w hh us) \<noteq> None"
proof (induction us arbitrary: hh)
  case (Cons u us)
  then show ?case using process_zero [of now w hh]
    by (cases "processObUpdate now w hh u"; cases "snd (processObUpdate now w hh u)") auto
qed simp

lemma process_all_buffer:
  "h_buffer (fst (fst (process_all now w (h, d) us))) = h_buffer h"
proof (induction us arbitrary: h d)
  case (Cons u us)
  obtain h1 d1 e where p: "processObUpdate now w (h, d) u = ((h1, d1), e)" by (metis surj_pair)
  have "h_buffer h1 = h_buffer h" using processObUpdate_buffer [of now w h d u] p by simp
  then show ?case using p Cons.IH by (cases e) auto
qed simp

lemma sort_updates_set [simp]: "set (sort_updates w us) = set us"
  "length (sort_updates w us) = length us"
  by (auto simp: sort_updates_def intro: mset_eq_length)

lemma stuck_apply:
  assumes "apply_update now w (h, d) u = ((h', d'), go_on, e)" and "stuck w h"
  shows "stuck w h' \<and> \<not> go_on \<and>
    (e \<noteq> None \<or> updateIDProgression w \<and> UpdateID u \<le> h_updateID h \<or> validationError d \<noteq> None)"
proof -
  let ?us = "h_buffer h @ [u]"
  let ?h = "h\<lparr>h_buffer := sort_updates w ?us\<rparr>"
  have lim: "\<not> int (length ?us) < obBufferLimit w" using assms(2) by (simp add: stuck_def)
  obtain h1 d1 e1 where p: "process_all now w (?h, d) (sort_updates w ?us) = ((h1, d1), e1)"
    by (metis surj_pair)
  have "zero_update \<in> set (sort_updates w ?us)" using assms(2) by (simp add: stuck_def)
  then obtain err where e1: "e1 = Some err"
    using process_all_zero [of "sort_updates w ?us" now w "(?h, d)"] p by auto
  have h1: "h_buffer h1 = sort_updates w ?us" using process_all_buffer [of now w ?h d "sort_updates w ?us"] p by simp
  have buf: "processBufferUpdate now w (h, d) u = ((h1, d1), False, Some err)"
    using lim p e1 by (simp add: processBufferUpdate_def Let_def)
  have "stuck w h1" using assms(2) h1 by (simp add: stuck_def)
  then show ?thesis
    using assms buf invalidate_sel(1,4) [of d "Some errRESTTimerLapse"]
    by (auto simp: apply_update_def IsRESTSnapshot_def if_valid_def Invalidate_def stuck_def
      split: if_splits option.splits prod.splits)
qed

section \<open>Properties\<close>

text \<open>C10: for a stream without a checksum function: whatever update it delivers, by price or by ID,
  buffered or not, and whether it succeeds or fails, afterwards each depth of the service is either
  invalid and empty or passes \<open>Verify\<close> under its own settings when it is read (which is no check if it
  is not to be verified), provided that held before.  Flushing a book keeps this too, and so does a
  snapshot, rejected or loaded, that has the settings of the depth the stream holds for it or, where
  the stream holds none, an update time.\<close>

theorem stream_sound:
  assumes "list_all sound (sv_depths s)" and "ws_checksum w = None"
  shows "list_all sound (sv_depths (snd (fst (ws_Update now tick w s u)))) \<and>
    list_all sound (sv_depths (fst (FlushOrderbook w s p a))) \<and>
    (if snapshot_fits w s b
     then list_all sound (sv_depths (snd (fst (ws_LoadSnapshot cs now newV4 w s b)))) else True)"
proof -
  have app: "sound d'"
    if "apply_update now w (h, depth_at s (h_ob h)) v = ((h', d'), g, e)" "h_ob h < length (sv_depths s)"
    for h v h' d' g e
    using that apply_update_sound all_sound_at [OF assms(1)] assms(2) by blast
  have pub: "sv_depths (Depth_Publish t x) = sv_depths t" for t x by (simp add: Depth_Publish_def)
  have "list_all sound (sv_depths (snd (fst (ws_Update now tick w s u))))"
  proof (cases "\<exists>v h. u = Some v \<and> ws_ob w (update_key v) = Some h \<and> validate u = None")
    case False
    then show ?thesis using assms(1) by (auto simp: ws_Update_def split: option.splits)
  next
    case True
    then obtain v h where v: "u = Some v" "ws_ob w (update_key v) = Some h" "validate u = None" by auto
    obtain h' d' g e where a: "apply_update now w (h, depth_at s (h_ob h)) v = ((h', d'), g, e)"
      by (metis surj_pair)
    have "list_all sound (sv_depths (set_depth (h_ob h) d' s))"
      by (rule all_sound_set [OF assms(1)]) (rule app [OF a])
    then show ?thesis using v a by (simp add: ws_Update_def Let_def pub)
  qed
  moreover have "list_all sound (sv_depths (fst (FlushOrderbook w s p a)))"
    using assms(1) all_sound_set [OF assms(1)] sound_Invalidate
    by (auto simp: FlushOrderbook_def split: option.splits)
  ultimately show ?thesis using load_snapshot_sound [OF assms(1)] by simp
qed

text \<open>A stream of one book, by price and unbuffered, and an update of two bids.\<close>

definition demo_depth :: depth where
  "demo_depth = fst (LoadSnapshot 9 (AssignOptions (NewDepth 1) demo_book) (bk_Bids demo_book)
     (bk_Asks demo_book) 7 5 4 False)"

definition demo_ws :: ws_orderbook where
  "demo_ws = \<lparr>ws_ob = [book_key demo_pair Spot \<mapsto>
       \<lparr>h_ob = 0, h_buffer = [], h_ticker = True, h_updateID = 7\<rparr>],
     obBufferLimit = 0, bufferEnabled = False, sortBuffer = False,
     sortBufferByUpdateIDs = False, updateEntriesByID = False, exchangeName = ''Kraken'',
     dataHandler = [], verbose = False, updateIDProgression = True, ws_checksum = None,
     publishPeriod = 1\<rparr>"

definition demo_loaded :: service where
  "demo_loaded = demo_service\<lparr>sv_depths := [demo_depth],
     sv_books := [''kraken'' \<mapsto> \<lparr>ex_books = [book_key demo_pair Spot \<mapsto> 0], ex_ID = 1\<rparr>]\<rparr>"

definition demo_update :: "int \<Rightarrow> update" where
  "demo_update i = \<lparr>UpdateID = i, UpdateTime = 6, UpdatePushedAt = 6, upd_Asset = Spot, Action = 0,
     Bids = [tr 0 10 0, tr 5 8 1], Asks = [], upd_Pair = demo_pair, Checksum = 0\<rparr>"

lemma demo_depth_sel:
  "validationError demo_depth = None" "bidTranches demo_depth = [tr 1 10 1, tr 2 9 2]"
  "askTranches demo_depth = [tr 3 11 1, tr 4 12 5]" "restSnapshot (opts demo_depth) = False"
  "maxDepth (opts demo_depth) = 10" "verifyOrderbook (opts demo_depth) = True"
  "isFundingRate (opts demo_depth) = False" "priceDuplication (opts demo_depth) = False"
  "checksumStringRequired (opts demo_depth) = False" "exchange (opts demo_depth) = ''Kraken''"
  using LoadSnapshot_sel [of 5 9 "AssignOptions (NewDepth 1) demo_book"]
  by (simp_all add: demo_depth_def IsZero_def demo_book_def sample_book_def AssignOptions_def)

lemma demo_depth_sound: "sound demo_depth"
  by (simp add: sound_def depth_Retrieve_def demo_depth_sel Verify_def checkAlignment_def asc_def
    dsc_def f64_less_finite f64_le_finite feq_finite)

lemma demo_loaded_sound: "list_all sound (sv_depths demo_loaded)"
  by (simp add: demo_loaded_def demo_depth_sound)

theorem stream_sound_witness:
  "list_all sound (sv_depths (snd (fst (ws_Update 9 True demo_ws demo_loaded (Some (demo_update 8))))))"
  using stream_sound [OF demo_loaded_sound, of demo_ws] by (simp add: demo_ws_def)

text \<open>Also: an update for a known book is skipped without an error if its ID does not
  progress where that is required, or if the book is invalid; a book that was last written by a
  REST snapshot is not updated but invalidated, with both \<open>errRESTTimerLapse\<close> and
  \<open>ErrOrderbookInvalid\<close> in the error; in all three cases nothing is published or handed on.\<close>

theorem update_gate:
  assumes "validate (Some u) = None" and "ws_ob w (update_key u) = Some h"
    and "ws_Update now tick w s (Some u) = ((w', s'), e)"
    and "validationError d = None \<or> errors_is (the (validationError d)) ErrOrderbookInvalid"
    and "d = depth_at s (h_ob h)"
  shows "(updateIDProgression w \<and> UpdateID u \<le> h_updateID h \<or> validationError d \<noteq> None \<longrightarrow>
      e = None \<and> s' = s \<and> w' = w) \<and>
    (\<not> (updateIDProgression w \<and> UpdateID u \<le> h_updateID h) \<and> validationError d = None \<and>
      restSnapshot (opts d) \<longrightarrow>
      w' = w \<and> s' = set_depth (h_ob h) (fst (Invalidate d (Some errRESTTimerLapse))) s \<and>
      is_err e errRESTTimerLapse \<and> is_err e ErrOrderbookInvalid)"
proof -
  have w: "w\<lparr>ws_ob := (ws_ob w)(update_key u \<mapsto> h)\<rparr> = w"
    using assms(2) by (simp add: fun_upd_idem)
  have s: "set_depth (h_ob h) d s = s" by (simp add: assms(5) set_depth_def depth_at_def)
  have run: "w' = w\<lparr>ws_ob := (ws_ob w)(update_key u \<mapsto> h')\<rparr> \<and> s' = set_depth (h_ob h) d' s \<and> e = x"
    if "apply_update now w (h, d) u = ((h', d'), False, x)" for h' d' x
    using that assms(1-3,5) by (simp add: ws_Update_def Let_def)
  have skip: "apply_update now w (h, d) u = ((h, d), False, None)"
    if "updateIDProgression w \<and> UpdateID u \<le> h_updateID h \<or> validationError d \<noteq> None"
    using that assms(4) by (auto simp: apply_update_def IsRESTSnapshot_def if_valid_def split: option.splits)
  obtain d1 e1 where i: "Invalidate d (Some errRESTTimerLapse) = (d1, e1)" by fastforce
  then have err: "is_err e1 errRESTTimerLapse" "is_err e1 ErrOrderbookInvalid"
    using invalidate_sel(5) [of d "Some errRESTTimerLapse"]
    by (simp_all add: Invalidate_def errRESTTimerLapse_def)
  have rest: "apply_update now w (h, d) u = ((h, d1), False, e1)"
    if "\<not> (updateIDProgression w \<and> UpdateID u \<le> h_updateID h)" "validationError d = None"
      "restSnapshot (opts d)"
    using that i by (auto simp: apply_update_def IsRESTSnapshot_def)
  show ?thesis using run [OF skip] run [OF rest] w s i err by auto
qed

theorem update_gate_witness:
  "ws_Update 9 True demo_ws demo_loaded (Some (demo_update 7)) = ((demo_ws, demo_loaded), None)"
proof -
  have v: "validate (Some (demo_update 7)) = None" by (simp add: validate_def demo_update_def)
  have h: "ws_ob demo_ws (update_key (demo_update 7)) =
      Some \<lparr>h_ob = 0, h_buffer = [], h_ticker = True, h_updateID = 7\<rparr>"
    by (simp add: demo_ws_def update_key_def demo_update_def)
  have d: "demo_depth = depth_at demo_loaded
      (h_ob \<lparr>h_ob = 0, h_buffer = [], h_ticker = True, h_updateID = 7\<rparr>)"
    by (simp add: demo_loaded_def depth_at_def)
  show ?thesis
    using update_gate [OF v h surjective_pairing [THEN trans] _ d] demo_depth_sel(1)
    by (cases "ws_Update 9 True demo_ws demo_loaded (Some (demo_update 7))")
      (auto simp: demo_ws_def demo_update_def)
qed

text \<open>Also: an update by price that is neither skipped nor buffered and meets no error
  is visible at once through the service: \<open>Retrieve\<close> returns the sides with the update merged in
  and its ID and time, every other book of the service is unchanged, and the depth is handed to the
  data handler unless its ticker holds it back.\<close>

theorem stream_visible:
  assumes "service_inv s" and "entry s (ToLower exch) (book_key p a) = Some (h_ob h)"
    and "ws_ob w (update_key u) = Some h" and "ws_Update now tick w s (Some u) = ((w', s'), None)"
    and "\<not> (updateIDProgression w \<and> UpdateID u \<le> h_updateID h)" and "\<not> bufferEnabled w"
    and "\<not> updateEntriesByID w" and "ws_checksum w = None" and "validate (Some u) = None"
    and "d = depth_at s (h_ob h)" and "validationError d = None" and "\<not> restSnapshot (opts d)"
    and "\<not> pair_IsEmpty cs p" and "asset_IsValid a"
  shows "case Service_Retrieve cs s' exch p a of Inl _ \<Rightarrow> False | Inr r \<Rightarrow>
      bk_Bids r = (if Bids u = [] then bidTranches d
        else bids_updateInsertByPrice (bidTranches d) (Bids u) (maxDepth (opts d))) \<and>
      bk_Asks r = (if Asks u = [] then askTranches d
        else asks_updateInsertByPrice (askTranches d) (Asks u) (maxDepth (opts d))) \<and>
      bk_LastUpdateID r = UpdateID u \<and> bk_LastUpdated r = UpdateTime u \<and>
      others_kept (ToLower exch) (book_key p a) s s' \<and> service_inv s' \<and>
      dataHandler w' = dataHandler w @ (if h_ticker h \<and> \<not> tick \<and> \<not> verbose w then [] else [h_ob h])"
proof -
  obtain h1 d1 e1 where p: "processObUpdate now w (h, d) u = ((h1, d1), e1)" by (metis surj_pair)
  have ap: "apply_update now w (h, d) u =
      (case e1 of Some e \<Rightarrow> ((h1, d1), False, Some e) | None \<Rightarrow> ((h1, d1), True, None))"
    using p assms(5,6,11,12) by (cases e1) (auto simp: apply_update_def IsRESTSnapshot_def)
  have e1: "e1 = None"
    using assms(3,4,9,10) ap by (cases e1) (auto simp: ws_Update_def Let_def)
  have pub: "sv_depths (Depth_Publish t x) = sv_depths t" "sv_books (Depth_Publish t x) = sv_books t"
    for t x by (simp_all add: Depth_Publish_def)
  have s': "s' = Depth_Publish (set_depth (h_ob h) d1 s) (h_ob h)"
    and hand: "dataHandler w' = dataHandler w @ (if h_ticker h \<and> \<not> tick \<and> \<not> verbose w then [] else [h_ob h])"
    using assms(3,4,9,10) ap e1 by (auto simp: ws_Update_def Let_def split: if_splits)
  obtain d2 e2 where u: "UpdateBidAskByPrice now d u = (d2, e2)" by fastforce
  have e2: "e2 = None" using p u e1 assms(7) by (cases e2) (auto simp: processObUpdate_def)
  then have t: "\<not> IsZero (UpdateTime u)" using u by (auto simp: UpdateBidAskByPrice_def)
  note sel = UpdateBidAskByPrice_sel [OF t, of now d, unfolded u fst_conv]
  have inv: "snd (Invalidate d2 x) \<noteq> None" for x
    using invalidate_sel(1,4) [of d2 x] by (simp add: Invalidate_def)
  have d1: "d1 = d2"
  proof (rule ccontr)
    assume "d1 \<noteq> d2"
    then have "\<exists>x. e1 = snd (Invalidate d2 x)"
      using p u e2 assms(7,8) sel(4) assms(11)
      by (auto simp: processObUpdate_def depth_Retrieve_def split: if_splits option.splits prod.splits)
        (metis snd_conv)
    then show False using inv e1 by metis
  qed
  have rest: "depth_ID d1 = depth_ID d" "lastUpdated (opts d1) = UpdateTime u"
    using u t d1 by (auto simp: UpdateBidAskByPrice_def Let_def updateAndAlert_def Alert_def)
  obtain r where r: "depth_Retrieve d1 = Inr r" "bk_Bids r = bidTranches d1" "bk_Asks r = askTranches d1"
    "bk_LastUpdateID r = UpdateID u" "bk_LastUpdated r = UpdateTime u"
    using sel d1 assms(11) rest by (simp add: depth_Retrieve_def)
  let ?s = "set_depth (h_ob h) d1 s"
  have lt: "h_ob h < length (sv_depths s)" using assms(1,2) unfolding service_inv_def by blast
  have at: "depth_at s' (h_ob h) = d1" "entry s' = entry s"
    using s' lt by (simp_all add: Depth_Publish_def)
  have inv': "service_inv s'"
    using service_inv_set_depth [OF assms(1), of d1 "h_ob h"] rest(1) assms(10)
    by (simp add: s' Depth_Publish_def)
  have oth: "others_kept (ToLower exch) (book_key p a) s s'"
    unfolding others_kept_def
  proof (intro allI impI conjI)
    fix n j assume ne: "(n, j) \<noteq> (ToLower exch, book_key p a)"
    show "entry s' n j = entry s n j" using at by simp
    fix y assume "entry s n j = Some y"
    then have "y \<noteq> h_ob h" using ne assms(1,2) unfolding service_inv_def by blast
    then show "depth_at s' y = depth_at s y" by (simp add: s' Depth_Publish_def)
  qed
  have "Service_Retrieve cs s' exch p a = Inr r"
    using r(1) at assms(2,13,14) unfolding Retrieve_entry by auto
  then show ?thesis using r sel d1 inv' oth hand by simp
qed

lemma demo_update_bids:
  "bids_updateInsertByPrice [tr 1 10 1, tr 2 9 2] [tr 0 10 0, tr 5 8 1] 10 = [tr 2 9 2, tr 5 8 1]"
  by (simp add: bids_updateInsertByPrice_def updateInsertByPrice_def bidCompare_def f64_less_finite
    f64_le_finite feq_finite Let_def)

lemma demo_update_runs:
  "\<exists>w' s'. ws_Update 9 True demo_ws demo_loaded (Some (demo_update 8)) = ((w', s'), None)"
proof -
  let ?h = "\<lparr>h_ob = 0, h_buffer = [], h_ticker = True, h_updateID = 7\<rparr>"
  obtain d2 where u: "UpdateBidAskByPrice 9 demo_depth (demo_update 8) = (d2, None)"
    and d2: "bidTranches d2 = [tr 2 9 2, tr 5 8 1]" "askTranches d2 = [tr 3 11 1, tr 4 12 5]"
      "validationError d2 = None" "verifyOrderbook (opts d2) = True" "isFundingRate (opts d2) = False"
      "priceDuplication (opts d2) = False" "checksumStringRequired (opts d2) = False"
      "exchange (opts d2) = ''Kraken''"
    by (simp add: UpdateBidAskByPrice_def demo_update_def IsZero_def Let_def updateAndAlert_def
      Alert_def demo_depth_sel demo_update_bids)
  have "\<exists>r. depth_Retrieve d2 = Inr r \<and> Verify r = None"
    by (simp add: depth_Retrieve_def d2 Verify_def checkAlignment_def asc_def dsc_def
      f64_less_finite f64_le_finite feq_finite)
  then have "apply_update 9 demo_ws (?h, demo_depth) (demo_update 8) = ((?h, d2), True, None)"
    using u by (auto simp: apply_update_def IsRESTSnapshot_def demo_depth_sel demo_ws_def
      processObUpdate_def demo_update_def depth_VerifyOrderbook_def)
  then show ?thesis
    by (simp add: ws_Update_def validate_def demo_update_def demo_ws_def update_key_def
      demo_loaded_def depth_at_def Let_def)
qed

lemma demo_entry:
  "entry demo_loaded n k = Some a \<longleftrightarrow> n = ''kraken'' \<and> k = book_key demo_pair Spot \<and> a = 0"
  by (auto simp: entry_def demo_loaded_def)

lemma demo_loaded_inv: "service_inv demo_loaded"
  unfolding service_inv_def demo_entry
  by (simp add: demo_loaded_def depth_at_def demo_depth_def AssignOptions_def NewDepth_def)

theorem stream_visible_witness:
  "\<exists>w' s' r. ws_Update 9 True demo_ws demo_loaded (Some (demo_update 8)) = ((w', s'), None) \<and>
     Service_Retrieve demo_store s' ''Kraken'' demo_pair Spot = Inr r \<and> bk_LastUpdateID r = 8"
proof -
  obtain w' s' where u: "ws_Update 9 True demo_ws demo_loaded (Some (demo_update 8)) = ((w', s'), None)"
    using demo_update_runs by blast
  let ?h = "\<lparr>h_ob = 0, h_buffer = [], h_ticker = True, h_updateID = 7\<rparr>"
  have e: "entry demo_loaded (ToLower ''Kraken'') (book_key demo_pair Spot) = Some (h_ob ?h)"
    by (simp add: entry_def demo_loaded_def case_eval)
  have w: "ws_ob demo_ws (update_key (demo_update 8)) = Some ?h"
    by (simp add: demo_ws_def update_key_def demo_update_def)
  have d: "demo_depth = depth_at demo_loaded (h_ob ?h)" by (simp add: demo_loaded_def depth_at_def)
  have v: "validate (Some (demo_update 8)) = None" "asset_IsValid Spot"
    by (simp_all add: validate_def demo_update_def asset_IsValid_def asset_consts)
  show ?thesis
    using stream_visible [OF demo_loaded_inv e w u _ _ _ _ v(1) d _ _ demo_pair_filled v(2)] u
    by (auto simp: demo_ws_def demo_update_def demo_depth_sel split: sum.splits)
qed

text \<open>Also: a holder made by \<open>LoadSnapshot\<close> while buffering is enabled has a
  buffer that is already full, of zero updates; from then on every update that gets as far as the
  book ends in an error, is kept in the buffer, and is never published or handed on, and this
  repeats with every update after it.\<close>

theorem buffer_never_drains:
  assumes "ws_ob w (update_key u) = Some h" and "stuck w h" and "validate (Some u) = None"
    and "ws_Update now tick w s (Some u) = ((w', s'), e)"
  shows "(\<exists>h'. ws_ob w' (update_key u) = Some h' \<and> stuck w' h') \<and> dataHandler w' = dataHandler w \<and>
    sv_mux s' = sv_mux s \<and>
    (e \<noteq> None \<or> updateIDProgression w \<and> UpdateID u \<le> h_updateID h \<or>
     validationError (depth_at s (h_ob h)) \<noteq> None)"
proof -
  obtain h' d' g e' where a: "apply_update now w (h, depth_at s (h_ob h)) u = ((h', d'), g, e')"
    by (metis surj_pair)
  have "w' = w\<lparr>ws_ob := (ws_ob w)(update_key u \<mapsto> h')\<rparr> \<and> s' = set_depth (h_ob h) d' s \<and> e = e'"
    using assms(1,3,4) a stuck_apply [OF a assms(2)] by (simp add: ws_Update_def Let_def)
  then show ?thesis using stuck_apply [OF a assms(2)] by (auto simp: stuck_def)
qed

lemma fresh_holder_stuck:
  "bufferEnabled w \<Longrightarrow> 1 \<le> obBufferLimit w \<Longrightarrow>
    stuck w \<lparr>h_ob = x, h_buffer = replicate (nat (obBufferLimit w)) zero_update, h_ticker = t,
      h_updateID = i\<rparr>"
  by (simp add: stuck_def)

theorem buffer_never_drains_witness:
  "\<exists>w' s' e. ws_Update 9 True (demo_ws\<lparr>bufferEnabled := True, obBufferLimit := 1, ws_ob :=
       [book_key demo_pair Spot \<mapsto> \<lparr>h_ob = 0, h_buffer = [zero_update], h_ticker = True,
          h_updateID = 7\<rparr>]\<rparr>) demo_loaded (Some (demo_update 8)) = ((w', s'), Some e)"
proof -
  let ?h = "\<lparr>h_ob = 0, h_buffer = [zero_update], h_ticker = True, h_updateID = 7\<rparr>"
  let ?w = "demo_ws\<lparr>bufferEnabled := True, obBufferLimit := 1, ws_ob := [book_key demo_pair Spot \<mapsto> ?h]\<rparr>"
  obtain w' s' e where u: "ws_Update 9 True ?w demo_loaded (Some (demo_update 8)) = ((w', s'), e)"
    by (metis surj_pair)
  have "ws_ob ?w (update_key (demo_update 8)) = Some ?h" "stuck ?w ?h"
    "validate (Some (demo_update 8)) = None"
    by (simp_all add: update_key_def demo_update_def stuck_def validate_def)
  from buffer_never_drains [OF this u] show ?thesis using u
    by (auto simp: demo_update_def demo_loaded_def depth_at_def demo_depth_sel)
qed

text \<open>Without a checksum function the holder's ID is never advanced by an update, so requiring
  progression compares with the last snapshot only: the same update is accepted twice.\<close>

lemma progression_needs_checksum:
  "ws_checksum w = None \<Longrightarrow> h_updateID (fst (fst (processObUpdate now w (h, d) u))) = h_updateID h"
  by (auto simp: processObUpdate_def split: prod.splits option.splits sum.splits)

end
