(* ===== verification/Order_Types.thy ===== *)
theory Order_Types
  imports Asset
begin

text \<open>
  The enumerations of an order: \<open>Status\<close>, \<open>Type\<close> and \<open>Side\<close> (\<open>exchanges/order/order_types.go\<close>,
  \<open>uint32\<close> values with one bit each, zero being unknown), their names, parsers and the bit masks
  that classify them (\<open>exchanges/order/orders.go\<close>); \<open>PriceType\<close>; and the margin types of
  \<open>exchanges/margin\<close>.  The lemmas show which names parse back, that a parser accepts nothing but
  a known constant, and what the masks make of every status and side, unnamed bit patterns
  included.
\<close>

unbundle bit_operations_syntax

section \<open>The constants\<close>

type_synonym order_status = "32 word"
type_synonym order_type = "32 word"
type_synonym order_side = "32 word"
type_synonym price_type = "8 word"
type_synonym margin_type = "8 word"

definition UnknownStatus :: order_status where "UnknownStatus = 0"
definition AnyStatus :: order_status where "AnyStatus = 2"
definition New :: order_status where "New = 4"
definition Active :: order_status where "Active = 8"
definition PartiallyCancelled :: order_status where "PartiallyCancelled = 16"
definition PartiallyFilled :: order_status where "PartiallyFilled = 32"
definition PartiallyFilledCancelled :: order_status where "PartiallyFilledCancelled = 64"
definition Filled :: order_status where "Filled = 128"
definition Cancelled :: order_status where "Cancelled = 256"
definition PendingCancel :: order_status where "PendingCancel = 512"
definition InsufficientBalance :: order_status where "InsufficientBalance = 1024"
definition MarketUnavailable :: order_status where "MarketUnavailable = 2048"
definition Rejected :: order_status where "Rejected = 4096"
definition Expired :: order_status where "Expired = 8192"
definition Hidden :: order_status where "Hidden = 16384"
definition Open :: order_status where "Open = 32768"
definition AutoDeleverage :: order_status where "AutoDeleverage = 65536"
definition Closed :: order_status where "Closed = 131072"
definition Pending :: order_status where "Pending = 262144"
definition Cancelling :: order_status where "Cancelling = 524288"
definition Liquidated :: order_status where "Liquidated = 1048576"
definition STP :: order_status where "STP = 2097152"

lemmas order_status_consts =
    UnknownStatus_def AnyStatus_def New_def Active_def PartiallyCancelled_def
  PartiallyFilled_def PartiallyFilledCancelled_def Filled_def Cancelled_def PendingCancel_def
  InsufficientBalance_def MarketUnavailable_def Rejected_def Expired_def Hidden_def Open_def
  AutoDeleverage_def Closed_def Pending_def Cancelling_def Liquidated_def STP_def

definition UnknownType :: order_type where "UnknownType = 0"
definition Limit :: order_type where "Limit = 2"
definition Market :: order_type where "Market = 4"
definition PostOnly :: order_type where "PostOnly = 8"
definition ImmediateOrCancel :: order_type where "ImmediateOrCancel = 16"
definition Stop :: order_type where "Stop = 32"
definition StopLimit :: order_type where "StopLimit = 64"
definition StopMarket :: order_type where "StopMarket = 128"
definition TakeProfit :: order_type where "TakeProfit = 256"
definition TakeProfitMarket :: order_type where "TakeProfitMarket = 512"
definition TrailingStop :: order_type where "TrailingStop = 1024"
definition FillOrKill :: order_type where "FillOrKill = 2048"
definition IOS :: order_type where "IOS = 4096"
definition AnyType :: order_type where "AnyType = 8192"
definition Liquidation :: order_type where "Liquidation = 16384"
definition Trigger :: order_type where "Trigger = 32768"
definition OptimalLimitIOC :: order_type where "OptimalLimitIOC = 65536"
definition OCO :: order_type where "OCO = 131072"
definition ConditionalStop :: order_type where "ConditionalStop = 262144"

lemmas order_type_consts =
    UnknownType_def Limit_def Market_def PostOnly_def ImmediateOrCancel_def Stop_def
  StopLimit_def StopMarket_def TakeProfit_def TakeProfitMarket_def TrailingStop_def
  FillOrKill_def IOS_def AnyType_def Liquidation_def Trigger_def OptimalLimitIOC_def OCO_def
  ConditionalStop_def

definition UnknownSide :: order_side where "UnknownSide = 0"
definition Buy :: order_side where "Buy = 2"
definition Sell :: order_side where "Sell = 4"
definition Bid :: order_side where "Bid = 8"
definition Ask :: order_side where "Ask = 16"
definition AnySide :: order_side where "AnySide = 32"
definition Long :: order_side where "Long = 64"
definition Short :: order_side where "Short = 128"
definition ClosePosition :: order_side where "ClosePosition = 256"
definition DoNothing :: order_side where "DoNothing = 512"
definition TransferredFunds :: order_side where "TransferredFunds = 1024"
definition CouldNotBuy :: order_side where "CouldNotBuy = 2048"
definition CouldNotSell :: order_side where "CouldNotSell = 4096"
definition CouldNotShort :: order_side where "CouldNotShort = 8192"
definition CouldNotLong :: order_side where "CouldNotLong = 16384"
definition CouldNotCloseShort :: order_side where "CouldNotCloseShort = 32768"
definition CouldNotCloseLong :: order_side where "CouldNotCloseLong = 65536"
definition MissingData :: order_side where "MissingData = 131072"

lemmas order_side_consts =
    UnknownSide_def Buy_def Sell_def Bid_def Ask_def AnySide_def Long_def Short_def
  ClosePosition_def DoNothing_def TransferredFunds_def CouldNotBuy_def CouldNotSell_def
  CouldNotShort_def CouldNotLong_def CouldNotCloseShort_def CouldNotCloseLong_def
  MissingData_def

definition LastPrice :: price_type where "LastPrice = 0"
definition IndexPrice :: price_type where "IndexPrice = 2"
definition MarkPrice :: price_type where "MarkPrice = 4"
definition UnknownPriceType :: price_type where "UnknownPriceType = 8"

lemmas price_type_consts = LastPrice_def IndexPrice_def MarkPrice_def UnknownPriceType_def

definition margin_Unset :: margin_type where "margin_Unset = 0"
definition Isolated :: margin_type where "Isolated = 1"
definition Multi :: margin_type where "Multi = 2"
definition margin_Unknown :: margin_type where "margin_Unknown = 4"

lemmas margin_type_consts = margin_Unset_def Isolated_def Multi_def margin_Unknown_def

definition ErrSideIsInvalid :: go_error where
  "ErrSideIsInvalid = Sentinel ''order.ErrSideIsInvalid''"
definition errUnrecognisedOrderType :: go_error where
  "errUnrecognisedOrderType = Sentinel ''order.errUnrecognisedOrderType''"
definition errUnrecognisedOrderStatus :: go_error where
  "errUnrecognisedOrderStatus = Sentinel ''order.errUnrecognisedOrderStatus''"
definition ErrUnknownPriceType :: go_error where
  "ErrUnknownPriceType = Sentinel ''order.ErrUnknownPriceType''"
definition ErrInvalidMarginType :: go_error where
  "ErrInvalidMarginType = Sentinel ''margin.ErrInvalidMarginType''"

section \<open>Names\<close>

definition type_String :: "order_type \<Rightarrow> string" where
  "type_String x =
     (if x = AnyType then ''ANY''
      else if x = Limit then ''LIMIT''
      else if x = Market then ''MARKET''
      else if x = PostOnly then ''POST_ONLY''
      else if x = ImmediateOrCancel then ''IMMEDIATE_OR_CANCEL''
      else if x = Stop then ''STOP''
      else if x = ConditionalStop then ''CONDITIONAL''
      else if x = StopLimit then ''STOP LIMIT''
      else if x = StopMarket then ''STOP MARKET''
      else if x = TakeProfit then ''TAKE PROFIT''
      else if x = TakeProfitMarket then ''TAKE PROFIT MARKET''
      else if x = TrailingStop then ''TRAILING_STOP''
      else if x = FillOrKill then ''FOK''
      else if x = IOS then ''IOS''
      else if x = Liquidation then ''LIQUIDATION''
      else if x = Trigger then ''TRIGGER''
      else if x = OptimalLimitIOC then ''OPTIMAL_LIMIT_IOC''
      else if x = OCO then ''OCO''
      else ''UNKNOWN'')"

definition side_String :: "order_side \<Rightarrow> string" where
  "side_String x =
     (if x = Buy then ''BUY''
      else if x = Sell then ''SELL''
      else if x = Bid then ''BID''
      else if x = Ask then ''ASK''
      else if x = Long then ''LONG''
      else if x = Short then ''SHORT''
      else if x = AnySide then ''ANY''
      else if x = ClosePosition then ''CLOSE POSITION''
      else if x = DoNothing then ''DO NOTHING''
      else if x = TransferredFunds then ''TRANSFERRED FUNDS''
      else if x = CouldNotBuy then ''COULD NOT BUY''
      else if x = CouldNotSell then ''COULD NOT SELL''
      else if x = CouldNotShort then ''COULD NOT SHORT''
      else if x = CouldNotLong then ''COULD NOT LONG''
      else if x = CouldNotCloseShort then ''COULD NOT CLOSE SHORT''
      else if x = CouldNotCloseLong then ''COULD NOT CLOSE LONG''
      else if x = MissingData then ''MISSING DATA''
      else ''UNKNOWN'')"

definition status_String :: "order_status \<Rightarrow> string" where
  "status_String x =
     (if x = AnyStatus then ''ANY''
      else if x = New then ''NEW''
      else if x = Active then ''ACTIVE''
      else if x = PartiallyCancelled then ''PARTIALLY_CANCELLED''
      else if x = PartiallyFilled then ''PARTIALLY_FILLED''
      else if x = PartiallyFilledCancelled then ''PARTIALLY_FILLED_CANCELED''
      else if x = Filled then ''FILLED''
      else if x = Cancelled then ''CANCELLED''
      else if x = PendingCancel then ''PENDING_CANCEL''
      else if x = InsufficientBalance then ''INSUFFICIENT_BALANCE''
      else if x = MarketUnavailable then ''MARKET_UNAVAILABLE''
      else if x = Rejected then ''REJECTED''
      else if x = Expired then ''EXPIRED''
      else if x = Hidden then ''HIDDEN''
      else if x = Open then ''OPEN''
      else if x = AutoDeleverage then ''ADL''
      else if x = Closed then ''CLOSED''
      else if x = Pending then ''PENDING''
      else if x = Cancelling then ''CANCELLING''
      else if x = Liquidated then ''LIQUIDATED''
      else if x = STP then ''SELF_TRADE_PREVENTION''
      else ''UNKNOWN'')"

section \<open>Parsers\<close>

definition StringToOrderSide :: "string \<Rightarrow> order_side go_result" where
  "StringToOrderSide inp =
     (let s = ToUpper inp in
      if s = side_String Buy
        then Inr Buy
      else if s = side_String Sell
        then Inr Sell
      else if s = side_String Bid
        then Inr Bid
      else if s = side_String Ask
        then Inr Ask
      else if s = side_String Long
        then Inr Long
      else if s = side_String Short
        then Inr Short
      else if s = side_String AnySide
        then Inr AnySide
      else Inl (Errorf '''%s' %w'' [ErrSideIsInvalid]))"

definition StringToOrderType :: "string \<Rightarrow> order_type go_result" where
  "StringToOrderType inp =
     (let s = ToUpper inp in
      if s = type_String Limit \<or> s = ''EXCHANGE LIMIT''
        then Inr Limit
      else if s = type_String Market \<or> s = ''EXCHANGE MARKET''
        then Inr Market
      else if s = type_String ImmediateOrCancel \<or> s = ''IMMEDIATE OR CANCEL'' \<or> s =
           ''IOC'' \<or> s = ''EXCHANGE IOC''
        then Inr ImmediateOrCancel
      else if s = type_String Stop \<or> s = ''STOP LOSS'' \<or> s = ''STOP_LOSS'' \<or> s =
           ''EXCHANGE STOP''
        then Inr Stop
      else if s = type_String StopLimit \<or> s = ''EXCHANGE STOP LIMIT'' \<or> s = ''STOP_LIMIT''
        then Inr StopLimit
      else if s = type_String StopMarket \<or> s = ''STOP_MARKET''
        then Inr StopMarket
      else if s = type_String TrailingStop \<or> s = ''TRAILING STOP''
           \<or> s = ''EXCHANGE TRAILING STOP''
        then Inr TrailingStop
      else if s = type_String FillOrKill \<or> s = ''EXCHANGE FOK''
        then Inr FillOrKill
      else if s = type_String IOS
        then Inr IOS
      else if s = type_String PostOnly
        then Inr PostOnly
      else if s = type_String AnyType
        then Inr AnyType
      else if s = type_String Trigger
        then Inr Trigger
      else if s = type_String OptimalLimitIOC
        then Inr OptimalLimitIOC
      else if s = type_String OCO
        then Inr OCO
      else if s = type_String ConditionalStop
        then Inr ConditionalStop
      else Inl (Errorf '''%v' %w'' [errUnrecognisedOrderType]))"

definition StringToOrderStatus :: "string \<Rightarrow> order_status go_result" where
  "StringToOrderStatus inp =
     (let s = ToUpper inp in
      if s = status_String AnyStatus
        then Inr AnyStatus
      else if s = status_String New \<or> s = ''PLACED'' \<or> s = ''ACCEPTED''
        then Inr New
      else if s = status_String Active \<or> s = ''STATUS_ACTIVE'' \<or> s = ''LIVE''
        then Inr Active
      else if s = status_String PartiallyFilled \<or> s = ''PARTIALLY MATCHED'' \<or> s =
           ''PARTIALLY FILLED''
        then Inr PartiallyFilled
      else if s = status_String Filled \<or> s = ''FULLY MATCHED'' \<or> s = ''FULLY FILLED''
           \<or> s = ''ORDER_FULLY_TRANSACTED'' \<or> s = ''EFFECTIVE''
        then Inr Filled
      else if s = status_String PartiallyCancelled \<or> s = ''PARTIALLY CANCELLED'' \<or> s =
           ''ORDER_PARTIALLY_TRANSACTED''
        then Inr PartiallyCancelled
      else if s = status_String PartiallyFilledCancelled \<or> s = ''PARTIALLYFILLEDCANCELED''
        then Inr PartiallyFilledCancelled
      else if s = status_String Open
        then Inr Open
      else if s = status_String Closed \<or> s = ''POSITION_CLOSED''
        then Inr Closed
      else if s = status_String Cancelled \<or> s = ''CANCELED'' \<or> s = ''ORDER_CANCELLED''
        then Inr Cancelled
      else if s = status_String Pending
        then Inr Pending
      else if s = status_String PendingCancel \<or> s = ''PENDING CANCEL''
           \<or> s = ''PENDING CANCELLATION''
        then Inr PendingCancel
      else if s = status_String Rejected \<or> s = ''FAILED'' \<or> s = ''ORDER_FAILED''
        then Inr Rejected
      else if s = status_String Expired \<or> s = ''EXPIRED_IN_MATCH''
        then Inr Expired
      else if s = status_String Hidden
        then Inr Hidden
      else if s = status_String InsufficientBalance
        then Inr InsufficientBalance
      else if s = status_String MarketUnavailable
        then Inr MarketUnavailable
      else if s = status_String Cancelling
        then Inr Cancelling
      else if s = status_String Liquidated
        then Inr Liquidated
      else if s = status_String AutoDeleverage \<or> s = ''AUTO_DELEVERAGED''
        then Inr AutoDeleverage
      else if s = status_String STP \<or> s = ''STP''
        then Inr STP
      else Inl (Errorf '''%s' %w'' [errUnrecognisedOrderStatus]))"

definition price_String :: "price_type \<Rightarrow> string" where
  "price_String t =
     (if t = LastPrice then ''LastPrice''
      else if t = IndexPrice then ''IndexPrice''
      else if t = MarkPrice then ''MarkPrice''
      else [])"

definition StringToPriceType :: "string \<Rightarrow> price_type go_result" where
  "StringToPriceType inp =
     (let s = ToLower inp in
      if s = ''lastprice'' \<or> s = [] then Inr LastPrice
      else if s = ''indexprice'' then Inr IndexPrice
      else if s = ''markprice'' then Inr MarkPrice
      else Inl ErrUnknownPriceType)"

section \<open>JSON\<close>

text \<open>\<open>UnmarshalJSON\<close> on the raw bytes of one JSON value, as the decoder calls it: the value has
  to start with a quotation mark, and the parser gets what stands between the first and the last
  byte (on a single quotation mark, which no decoder passes, the slice bounds panic).  A parse
  error is returned, but the receiver is assigned all the same: it becomes \<open>UnknownSide\<close>.\<close>

definition quote_char :: char where
  "quote_char = CHR 0x22"

definition side_UnmarshalJSON :: "order_side \<Rightarrow> string \<Rightarrow> (order_side \<times> go_error option) option" where
  "side_UnmarshalJSON s data =
     (case data of
        [] \<Rightarrow> Some (s, Some (Sentinel ''json.UnmarshalTypeError''))
      | c # cs \<Rightarrow>
          if c \<noteq> quote_char then Some (s, Some (Sentinel ''json.UnmarshalTypeError''))
          else if cs = [] then None
          else (case StringToOrderSide (butlast cs) of
                  Inl e \<Rightarrow> Some (UnknownSide, Some e)
                | Inr s' \<Rightarrow> Some (s', None)))"

definition side_MarshalJSON :: "order_side \<Rightarrow> string" where
  "side_MarshalJSON s = [quote_char] @ side_String s @ [quote_char]"

section \<open>Masks\<close>

definition orderSubmissionValidSides :: order_side where
  "orderSubmissionValidSides = Buy OR Sell OR Bid OR Ask OR Long OR Short"

definition shortSide :: order_side where
  "shortSide = Short OR Sell OR Ask"

definition longSide :: order_side where
  "longSide = Long OR Buy OR Bid"

definition inactiveStatuses :: order_status where
  "inactiveStatuses =
     Filled OR Cancelled OR InsufficientBalance OR MarketUnavailable OR Rejected OR
     PartiallyCancelled OR PartiallyFilledCancelled OR Expired OR Closed OR AnyStatus OR
     Cancelling OR Liquidated"

definition activeStatuses :: order_status where
  "activeStatuses =
     Active OR Open OR PartiallyFilled OR New OR PendingCancel OR Hidden OR AutoDeleverage OR
     Pending"

definition notPlaced :: order_status where
  "notPlaced = InsufficientBalance OR MarketUnavailable OR Rejected"

definition IsValidOrderSubmissionSide :: "order_side \<Rightarrow> bool" where
  "IsValidOrderSubmissionSide s \<longleftrightarrow> s \<noteq> UnknownSide \<and> orderSubmissionValidSides AND s = s"

definition IsShort :: "order_side \<Rightarrow> bool" where
  "IsShort s \<longleftrightarrow> s \<noteq> UnknownSide \<and> shortSide AND s = s"

definition IsLong :: "order_side \<Rightarrow> bool" where
  "IsLong s \<longleftrightarrow> s \<noteq> UnknownSide \<and> longSide AND s = s"

text \<open>\<open>Status.IsInactive\<close>, and the status part of \<open>Detail.IsActive\<close>.\<close>

definition status_IsInactive :: "order_status \<Rightarrow> bool" where
  "status_IsInactive s \<longleftrightarrow> inactiveStatuses AND s = s"

definition status_active :: "order_status \<Rightarrow> bool" where
  "status_active s \<longleftrightarrow> s \<noteq> UnknownStatus \<and> activeStatuses AND s = s"

section \<open>Margin types\<close>

definition margin_supported :: margin_type where
  "margin_supported = Isolated OR Multi"

definition margin_Valid :: "margin_type \<Rightarrow> bool" where
  "margin_Valid t \<longleftrightarrow> t \<noteq> margin_Unset \<and> margin_supported AND t = t"

definition margin_String :: "margin_type \<Rightarrow> string" where
  "margin_String t =
     (if t = margin_Unset then ''unset''
      else if t = Isolated then ''isolated''
      else if t = Multi then ''multi''
      else if t = margin_Unknown then ''unknown''
      else [])"

definition margin_Upper :: "margin_type \<Rightarrow> string" where
  "margin_Upper t = ToUpper (margin_String t)"

definition IsValidString :: "string \<Rightarrow> bool" where
  "IsValidString m \<longleftrightarrow>
     ToLower m \<in> {''isolated'', ''multi'', ''unset'', ''crossed'', ''cross''}"

text \<open>On an error the type is \<open>margin_Unknown\<close>, so the result is a pair and not a sum.\<close>

definition StringToMarginType :: "string \<Rightarrow> margin_type \<times> go_error option" where
  "StringToMarginType m =
     (let s = ToLower m in
      if s = ''isolated'' then (Isolated, None)
      else if s = ''multi'' \<or> s = ''crossed'' \<or> s = ''cross'' then (Multi, None)
      else if s = [] then (margin_Unset, None)
      else (margin_Unknown, Some (Errorf ''%w %v'' [ErrInvalidMarginType])))"

text \<open>\<open>UnmarshalJSON\<close> of a JSON string.\<close>

definition margin_UnmarshalJSON :: "string \<Rightarrow> margin_type \<times> go_error option" where
  "margin_UnmarshalJSON m = StringToMarginType m"

section \<open>Lemmas\<close>

definition named_statuses :: "order_status list" where
  "named_statuses =
     [AnyStatus, New, Active, PartiallyCancelled, PartiallyFilled, PartiallyFilledCancelled,
      Filled, Cancelled, PendingCancel, InsufficientBalance, MarketUnavailable, Rejected, Expired,
      Hidden, Open, AutoDeleverage, Closed, Pending, Cancelling, Liquidated, STP]"

definition parsed_types :: "order_type list" where
  "parsed_types =
     [Limit, Market, PostOnly, ImmediateOrCancel, Stop, StopLimit, StopMarket, TrailingStop,
      FillOrKill, IOS, AnyType, Trigger, OptimalLimitIOC, OCO, ConditionalStop]"

definition parsed_sides :: "order_side list" where
  "parsed_sides = [Buy, Sell, Bid, Ask, Long, Short, AnySide]"

lemma parse_ToLower [simp]:
  "StringToOrderSide (ToLower t) = StringToOrderSide t"
  "StringToOrderType (ToLower t) = StringToOrderType t"
  "StringToOrderStatus (ToLower t) = StringToOrderStatus t"
  by (simp_all add: StringToOrderSide_def StringToOrderType_def StringToOrderStatus_def)

lemma statuses_parse: "list_all (\<lambda>s. StringToOrderStatus (status_String s) = Inr s) named_statuses"
  unfolding named_statuses_def
  by (simp add: StringToOrderStatus_def status_String_def order_status_consts case_eval)

lemma types_parse: "list_all (\<lambda>s. StringToOrderType (type_String s) = Inr s) parsed_types"
  unfolding parsed_types_def
  by (simp add: StringToOrderType_def type_String_def order_type_consts case_eval)

lemma sides_parse: "list_all (\<lambda>s. StringToOrderSide (side_String s) = Inr s) parsed_sides"
  unfolding parsed_sides_def
  by (simp add: StringToOrderSide_def side_String_def order_side_consts case_eval)

lemma parsed_status: "StringToOrderStatus t = Inr s \<Longrightarrow> s \<in> set named_statuses"
  unfolding StringToOrderStatus_def Let_def named_statuses_def by (simp split: if_split_asm)

lemma parsed_type: "StringToOrderType t = Inr s \<Longrightarrow> s \<in> set parsed_types"
  unfolding StringToOrderType_def Let_def parsed_types_def by (simp split: if_split_asm)

lemma parsed_side: "StringToOrderSide t = Inr s \<Longrightarrow> s \<in> set parsed_sides"
  unfolding StringToOrderSide_def Let_def parsed_sides_def by (simp split: if_split_asm)

text \<open>Besides the names the parsers take the aliases of the exchanges, with blanks or underscores.\<close>

lemma alias_parse:
  "list_all (\<lambda>t. StringToOrderType t = Inr TrailingStop) [''TRAILING STOP'', ''Exchange Trailing Stop'']"
  "list_all (\<lambda>t. StringToOrderType t = Inr Stop) [''STOP LOSS'', ''stop_loss'', ''EXCHANGE STOP'']"
  "list_all (\<lambda>t. StringToOrderStatus t = Inr PendingCancel) [''PENDING CANCEL'', ''Pending Cancellation'']"
  "list_all (\<lambda>t. StringToOrderStatus t = Inr PartiallyFilled) [''PARTIALLY MATCHED'', ''partially filled'']"
  by (simp_all add: StringToOrderType_def StringToOrderStatus_def type_String_def status_String_def
      order_type_consts order_status_consts case_eval)

text \<open>Three order types have a name that no parser input gives back.\<close>

lemma types_not_parsed:
  "list_all (\<lambda>s. isl (StringToOrderType (type_String s)))
     [TakeProfit, TakeProfitMarket, Liquidation]"
  by (simp add: StringToOrderType_def type_String_def order_type_consts case_eval)

lemma masks_disjoint:
  "activeStatuses AND inactiveStatuses = 0" "longSide AND shortSide = 0"
  "orderSubmissionValidSides = longSide OR shortSide"
  by (simp_all add: activeStatuses_def inactiveStatuses_def longSide_def shortSide_def
      orderSubmissionValidSides_def order_status_consts order_side_consts)

lemma in_disjoint_masks:
  fixes a b s :: "'w :: len word"
  assumes "a AND b = 0" and "a AND s = s" and "b AND s = s"
  shows "s = 0"
proof -
  have "s = a AND (b AND s)" using assms(2,3) by simp
  also have "\<dots> = (a AND b) AND s" by (simp add: ac_simps)
  finally show ?thesis using assms(1) by simp
qed

lemma in_or_mask:
  fixes a b s :: "'w :: len word"
  assumes "a AND s = s"
  shows "(a OR b) AND s = s"
proof -
  have "(a OR b) AND s = (a AND s) OR (b AND s)" by (simp add: bit.conj_disj_distrib2)
  also have "\<dots> = s OR (b AND s)" using assms by simp
  also have "\<dots> = s" by (rule bit_eqI) (auto simp: bit_simps)
  finally show ?thesis .
qed

text \<open>A set of sides is a valid submission side if it is not empty and has no bit but those of
  the six directions; so are mixtures such as \<open>Buy | Sell\<close>, which are neither long nor short.\<close>

lemma mixed_side_is_valid:
  "IsValidOrderSubmissionSide (Buy OR Sell) \<and> \<not> IsLong (Buy OR Sell) \<and> \<not> IsShort (Buy OR Sell)"
  by (simp add: IsValidOrderSubmissionSide_def IsLong_def IsShort_def orderSubmissionValidSides_def
      longSide_def shortSide_def order_side_consts)

lemma long_or_short_is_valid:
  "IsLong s \<Longrightarrow> IsValidOrderSubmissionSide s" "IsShort s \<Longrightarrow> IsValidOrderSubmissionSide s"
proof -
  show "IsLong s \<Longrightarrow> IsValidOrderSubmissionSide s"
    by (simp add: IsLong_def IsValidOrderSubmissionSide_def masks_disjoint(3) in_or_mask)
  show "IsShort s \<Longrightarrow> IsValidOrderSubmissionSide s"
    using in_or_mask [of shortSide s longSide]
    by (simp add: IsShort_def IsValidOrderSubmissionSide_def masks_disjoint(3) or.commute)
qed

lemma not_long_and_short: "\<not> (IsLong s \<and> IsShort s)"
  using in_disjoint_masks [OF masks_disjoint(2), of s]
  by (auto simp: IsLong_def IsShort_def UnknownSide_def)

lemma not_active_and_inactive: "\<not> (status_active s \<and> status_IsInactive s)"
  using in_disjoint_masks [OF masks_disjoint(1), of s]
  by (auto simp: status_active_def status_IsInactive_def UnknownStatus_def)

lemma statuses_classified:
  "list_all (\<lambda>s. status_active s \<noteq> status_IsInactive s) (removeAll STP named_statuses)"
  "\<not> status_active STP" "\<not> status_IsInactive STP" "status_IsInactive UnknownStatus"
  unfolding named_statuses_def
  by (simp_all add: status_active_def status_IsInactive_def activeStatuses_def inactiveStatuses_def
      order_status_consts)

lemma margin_roundtrip:
  "list_all (\<lambda>t. StringToMarginType (margin_Upper t) = (t, None)) [Isolated, Multi]"
  "margin_Valid t \<longleftrightarrow> t \<in> {Isolated, Multi, 3}"
proof -
  show "list_all (\<lambda>t. StringToMarginType (margin_Upper t) = (t, None)) [Isolated, Multi]"
    by (simp add: StringToMarginType_def margin_Upper_def margin_String_def margin_type_consts
        case_eval)
  have "margin_Valid t \<longleftrightarrow> t \<noteq> 0 \<and> 3 AND t = t"
    by (simp add: margin_Valid_def margin_supported_def margin_type_consts)
  also have "3 AND t = t \<longleftrightarrow> t \<in> {0, 1, 2, 3}"
  proof
    assume "3 AND t = t"
    then have "t \<le> 3" by (metis word_and_le2)
    then have "unat t < 4" by (simp add: word_le_nat_alt)
    then have "unat t \<in> {0, 1, 2, 3}" by auto
    then have "of_nat (unat t) \<in> (of_nat :: nat \<Rightarrow> 8 word) ` {0, 1, 2, 3}" by (rule imageI)
    then show "t \<in> {0, 1, 2, 3}" by simp
  qed auto
  finally show "margin_Valid t \<longleftrightarrow> t \<in> {Isolated, Multi, 3}"
    by (auto simp: margin_type_consts)
qed

section \<open>Properties\<close>

text \<open>Also: what the status parser accepts is a named status, never
  \<open>UnknownStatus\<close>, whatever the case of the input, and otherwise it reports
  \<open>errUnrecognisedOrderStatus\<close>; every one of the 21 named statuses is accepted by its own name, in
  upper and lower case, so a status survives being printed and parsed.\<close>

theorem status_parse:
  "(case StringToOrderStatus t of
      Inl e \<Rightarrow> e = Errorf '''%s' %w'' [errUnrecognisedOrderStatus]
    | Inr s \<Rightarrow> s \<in> set named_statuses \<and> s \<noteq> UnknownStatus \<and>
        StringToOrderStatus (ToLower t) = Inr s \<and> StringToOrderStatus (status_String s) = Inr s) \<and>
   list_all (\<lambda>s. StringToOrderStatus (status_String s) = Inr s \<and>
      StringToOrderStatus (ToLower (status_String s)) = Inr s) named_statuses"
proof -
  have all: "list_all (\<lambda>s. StringToOrderStatus (status_String s) = Inr s \<and>
      StringToOrderStatus (ToLower (status_String s)) = Inr s) named_statuses"
    using statuses_parse by simp
  have "UnknownStatus \<notin> set named_statuses"
    by (simp add: named_statuses_def order_status_consts)
  moreover have "e = Errorf '''%s' %w'' [errUnrecognisedOrderStatus]"
    if "StringToOrderStatus t = Inl e" for e
    using that unfolding StringToOrderStatus_def Let_def by (simp split: if_split_asm)
  ultimately show ?thesis
    using all parsed_status [of t] statuses_parse
    by (auto simp: list_all_iff split: sum.split)
qed

text \<open>Also: no status, a mixture of status bits included, is both active
  and inactive; every named status is one of the two, except \<open>STP\<close> (self-trade prevention), which
  the masks left out, and an unknown status counts as inactive.\<close>

theorem status_classes:
  "\<not> (status_active s \<and> status_IsInactive s) \<and>
   list_all (\<lambda>s. status_active s \<noteq> status_IsInactive s) (removeAll STP named_statuses) \<and>
   \<not> status_active STP \<and> \<not> status_IsInactive STP \<and> status_IsInactive UnknownStatus"
  using not_active_and_inactive statuses_classified by simp

text \<open>Also: a side is never long and short at once; being long or short makes
  it a valid submission side, and each of the six single directions is valid and exactly one of
  the two, while no backtester signal, \<open>ClosePosition\<close>, \<open>AnySide\<close> or unknown side is valid.\<close>

theorem side_classes:
  "\<not> (IsLong s \<and> IsShort s) \<and>
   (if IsLong s \<or> IsShort s then IsValidOrderSubmissionSide s else True) \<and>
   list_all (\<lambda>s. IsValidOrderSubmissionSide s \<and> IsLong s \<noteq> IsShort s)
     [Buy, Sell, Bid, Ask, Long, Short] \<and>
   list_all (\<lambda>s. \<not> IsValidOrderSubmissionSide s)
     [UnknownSide, AnySide, ClosePosition, DoNothing, TransferredFunds, CouldNotBuy,
      CouldNotSell, CouldNotShort, CouldNotLong, CouldNotCloseShort, CouldNotCloseLong,
      MissingData]"
  using not_long_and_short [of s] long_or_short_is_valid [of s]
  by (auto simp: IsValidOrderSubmissionSide_def IsLong_def IsShort_def
      orderSubmissionValidSides_def longSide_def shortSide_def order_side_consts)

end
