(* ===== verification/Order.thy ===== *)
theory Order
  imports Order_Types Currency_Pair Common_Errors Go_Float
begin

text \<open>
  Orders (\<open>exchanges/order/order_types.go\<close> and the first half of \<open>orders.go\<close>): the structs of an
  order's life (submission, exchange response, modification, managed detail, cancellation,
  filters), the validation of requests and the derivations that carry an order from one struct to
  the next.  A nil receiver is \<open>None\<close>.  Emptiness of a pair reads the currency registry, so
  what tests it takes the store of \<open>Currency\<close>.  An order's internal id is the 16 bytes of a UUID
  as one word, the nil id being zero; \<open>uuid.NewV4\<close> and \<open>NewV5\<close> are parameters.  A
  \<open>validate.Checker\<close> is the result its closure returns.  \<open>time.Now()\<close> is an argument.
\<close>

section \<open>Data\<close>

type_synonym uuid = "128 word"

definition uuid_IsNil :: "uuid \<Rightarrow> bool" where
  "uuid_IsNil u \<longleftrightarrow> u = 0"

record trade_history =
  th_Price :: f64
  th_Amount :: f64
  th_Fee :: f64
  th_Exchange :: string
  th_TID :: string
  th_Description :: string
  th_Type :: order_type
  th_Side :: order_side
  th_Timestamp :: time
  th_IsMaker :: bool
  th_FeeAsset :: string
  th_Total :: f64

record risk_management =
  rm_Enabled :: bool
  rm_TriggerPriceType :: price_type
  rm_Price :: f64
  rm_LimitPrice :: f64
  rm_OrderType :: order_type

record risk_management_modes =
  rmm_Mode :: string
  rmm_TakeProfit :: risk_management
  rmm_StopLoss :: risk_management
  rmm_StopEntry :: risk_management

record submit =
  s_Exchange :: string
  s_Type :: order_type
  s_Side :: order_side
  s_Pair :: pair
  s_AssetType :: asset_item
  s_ImmediateOrCancel :: bool
  s_FillOrKill :: bool
  s_PostOnly :: bool
  s_ReduceOnly :: bool
  s_Leverage :: f64
  s_Price :: f64
  s_Amount :: f64
  s_QuoteAmount :: f64
  s_TriggerPrice :: f64
  s_TriggerPriceType :: price_type
  s_ClientID :: string
  s_ClientOrderID :: string
  s_AutoBorrow :: bool
  s_MarginType :: margin_type
  s_RetrieveFees :: bool
  s_RetrieveFeeDelay :: int
  s_RiskManagementModes :: risk_management_modes
  s_Hidden :: bool
  s_Iceberg :: bool

record submit_response =
  sr_Exchange :: string
  sr_Type :: order_type
  sr_Side :: order_side
  sr_Pair :: pair
  sr_AssetType :: asset_item
  sr_ImmediateOrCancel :: bool
  sr_FillOrKill :: bool
  sr_PostOnly :: bool
  sr_ReduceOnly :: bool
  sr_Leverage :: f64
  sr_Price :: f64
  sr_AverageExecutedPrice :: f64
  sr_Amount :: f64
  sr_QuoteAmount :: f64
  sr_TriggerPrice :: f64
  sr_ClientID :: string
  sr_ClientOrderID :: string
  sr_LastUpdated :: time
  sr_Date :: time
  sr_Status :: order_status
  sr_OrderID :: string
  sr_Trades :: "trade_history list"
  sr_Fee :: f64
  sr_FeeAsset :: code
  sr_Cost :: f64
  sr_BorrowSize :: f64
  sr_LoanApplyID :: string
  sr_MarginType :: margin_type

record modify =
  m_Exchange :: string
  m_OrderID :: string
  m_OrigClOrdID :: string
  m_ClientOrderID :: string
  m_Type :: order_type
  m_Side :: order_side
  m_AssetType :: asset_item
  m_Pair :: pair
  m_ImmediateOrCancel :: bool
  m_PostOnly :: bool
  m_Price :: f64
  m_Amount :: f64
  m_TriggerPrice :: f64
  m_TriggerPriceType :: price_type
  m_RiskManagementModes :: risk_management_modes

record modify_response =
  mr_Exchange :: string
  mr_OrderID :: string
  mr_ClientOrderID :: string
  mr_Pair :: pair
  mr_Type :: order_type
  mr_Side :: order_side
  mr_Status :: order_status
  mr_AssetType :: asset_item
  mr_ImmediateOrCancel :: bool
  mr_PostOnly :: bool
  mr_Price :: f64
  mr_Amount :: f64
  mr_TriggerPrice :: f64
  mr_RemainingAmount :: f64
  mr_Date :: time
  mr_LastUpdated :: time

record detail =
  d_ImmediateOrCancel :: bool
  d_HiddenOrder :: bool
  d_FillOrKill :: bool
  d_PostOnly :: bool
  d_ReduceOnly :: bool
  d_Leverage :: f64
  d_Price :: f64
  d_Amount :: f64
  d_ContractAmount :: f64
  d_LimitPriceUpper :: f64
  d_LimitPriceLower :: f64
  d_TriggerPrice :: f64
  d_AverageExecutedPrice :: f64
  d_QuoteAmount :: f64
  d_ExecutedAmount :: f64
  d_RemainingAmount :: f64
  d_Cost :: f64
  d_CostAsset :: code
  d_Fee :: f64
  d_FeeAsset :: code
  d_Exchange :: string
  d_InternalOrderID :: uuid
  d_OrderID :: string
  d_ClientOrderID :: string
  d_AccountID :: string
  d_ClientID :: string
  d_WalletAddress :: string
  d_Type :: order_type
  d_Side :: order_side
  d_Status :: order_status
  d_AssetType :: asset_item
  d_Date :: time
  d_CloseTime :: time
  d_LastUpdated :: time
  d_Pair :: pair
  d_MarginType :: margin_type
  d_Trades :: "trade_history list"
  d_SettlementCurrency :: code

record order_filter =
  f_Exchange :: string
  f_InternalOrderID :: uuid
  f_OrderID :: string
  f_ClientOrderID :: string
  f_AccountID :: string
  f_ClientID :: string
  f_WalletAddress :: string
  f_Type :: order_type
  f_Side :: order_side
  f_Status :: order_status
  f_AssetType :: asset_item
  f_Pair :: pair

record cancel =
  c_Exchange :: string
  c_OrderID :: string
  c_ClientOrderID :: string
  c_AccountID :: string
  c_ClientID :: string
  c_WalletAddress :: string
  c_Type :: order_type
  c_Side :: order_side
  c_AssetType :: asset_item
  c_Pair :: pair
  c_MarginType :: margin_type

record multi_order_request =
  g_Pairs :: "pair list"
  g_AssetType :: asset_item
  g_Type :: order_type
  g_Side :: order_side
  g_StartTime :: time
  g_EndTime :: time
  g_FromOrderID :: string
  g_MarginType :: margin_type

text \<open>\<open>protocol.TradingRequirements\<close>.\<close>

record trading_requirements =
  SpotMarketOrderAmountPurchaseQuotationOnly :: bool
  SpotMarketOrderAmountSellBaseOnly :: bool
  ClientOrderIDRequired :: bool

section \<open>Errors\<close>

definition ErrSubmissionIsNil :: go_error where
  "ErrSubmissionIsNil = Sentinel ''order.ErrSubmissionIsNil''"
definition ErrCancelOrderIsNil :: go_error where
  "ErrCancelOrderIsNil = Sentinel ''order.ErrCancelOrderIsNil''"
definition ErrOrderDetailIsNil :: go_error where
  "ErrOrderDetailIsNil = Sentinel ''order.ErrOrderDetailIsNil''"
definition ErrGetOrdersRequestIsNil :: go_error where
  "ErrGetOrdersRequestIsNil = Sentinel ''order.ErrGetOrdersRequestIsNil''"
definition ErrModifyOrderIsNil :: go_error where
  "ErrModifyOrderIsNil = Sentinel ''order.ErrModifyOrderIsNil''"
definition ErrPairIsEmpty :: go_error where "ErrPairIsEmpty = Sentinel ''order.ErrPairIsEmpty''"
definition ErrAssetNotSet :: go_error where "ErrAssetNotSet = Sentinel ''order.ErrAssetNotSet''"
definition ErrTypeIsInvalid :: go_error where
  "ErrTypeIsInvalid = Sentinel ''order.ErrTypeIsInvalid''"
definition ErrAmountIsInvalid :: go_error where
  "ErrAmountIsInvalid = Sentinel ''order.ErrAmountIsInvalid''"
definition ErrPriceMustBeSetIfLimitOrder :: go_error where
  "ErrPriceMustBeSetIfLimitOrder = Sentinel ''order.ErrPriceMustBeSetIfLimitOrder''"
definition ErrOrderIDNotSet :: go_error where
  "ErrOrderIDNotSet = Sentinel ''order.ErrOrderIDNotSet''"
definition ErrAmountMustBeSet :: go_error where
  "ErrAmountMustBeSet = Sentinel ''order.ErrAmountMustBeSet''"
definition ErrClientOrderIDMustBeSet :: go_error where
  "ErrClientOrderIDMustBeSet = Sentinel ''order.ErrClientOrderIDMustBeSet''"
definition errTimeInForceConflict :: go_error where
  "errTimeInForceConflict = Sentinel ''order.errTimeInForceConflict''"
definition errExchangeNameUnset :: go_error where
  "errExchangeNameUnset = Sentinel ''order.errExchangeNameUnset''"
definition errOrderSubmitIsNil :: go_error where
  "errOrderSubmitIsNil = Sentinel ''order.errOrderSubmitIsNil''"
definition errOrderSubmitResponseIsNil :: go_error where
  "errOrderSubmitResponseIsNil = Sentinel ''order.errOrderSubmitResponseIsNil''"
definition errOrderDetailIsNil :: go_error where
  "errOrderDetailIsNil = Sentinel ''order.errOrderDetailIsNil''"
definition errAmountIsZero :: go_error where
  "errAmountIsZero = Sentinel ''order.errAmountIsZero''"

section \<open>Validation\<close>

text \<open>The loop over the options returns the first error; that of the other requests collects.\<close>

fun first_error :: "go_error option list \<Rightarrow> go_error option" where
  "first_error [] = None"
| "first_error (None # es) = first_error es"
| "first_error (Some e # es) = Some e"

fun append_errors :: "go_error option \<Rightarrow> go_error option list \<Rightarrow> go_error option" where
  "append_errors errs [] = errs"
| "append_errors errs (None # es) = append_errors errs es"
| "append_errors errs (Some e # es) = append_errors (AppendError errs (Some e)) es"

definition submit_Validate ::
    "store \<Rightarrow> submit option \<Rightarrow> trading_requirements \<Rightarrow> go_error option list \<Rightarrow> go_error option"
where
  "submit_Validate cs so requirements opt =
     (case so of
        None \<Rightarrow> Some ErrSubmissionIsNil
      | Some s \<Rightarrow>
          if s_Exchange s = [] then Some errExchangeNameUnset
          else if pair_IsEmpty cs (s_Pair s) then Some ErrPairIsEmpty
          else if s_AssetType s = Empty then Some ErrAssetNotSet
          else if \<not> asset_IsValid (s_AssetType s)
            then Some (Errorf '''%s' %w'' [asset_ErrNotSupported])
          else if \<not> IsValidOrderSubmissionSide (s_Side s)
            then Some (Errorf ''%w %v'' [ErrSideIsInvalid])
          else if s_Type s \<noteq> Market \<and> s_Type s \<noteq> Limit then Some ErrTypeIsInvalid
          else if s_ImmediateOrCancel s \<and> s_FillOrKill s then Some errTimeInForceConflict
          else if feq (s_Amount s) 0 \<and> feq (s_QuoteAmount s) 0
            then Some (Errorf ''submit validation error %w, amount and quote amount cannot be zero''
                         [ErrAmountIsInvalid])
          else if s_Amount s < 0
            then Some (Errorf ''submit validation error base %w, suppled: %v'' [ErrAmountIsInvalid])
          else if s_QuoteAmount s < 0
            then Some (Errorf ''submit validation error quote %w, suppled: %v'' [ErrAmountIsInvalid])
          else if s_Type s = Limit \<and> s_Price s \<le> 0 then Some ErrPriceMustBeSetIfLimitOrder
          else if ClientOrderIDRequired requirements \<and> s_ClientOrderID s = []
            then Some (Errorf ''submit validation error %w, client order ID must be set to satisfy submission requirements''
                         [ErrClientOrderIDMustBeSet])
          else if SpotMarketOrderAmountPurchaseQuotationOnly requirements \<and>
              feq (s_QuoteAmount s) 0 \<and> s_Type s = Market \<and> s_AssetType s = Spot \<and>
              IsLong (s_Side s)
            then Some (Errorf ''submit validation error %w, quote amount to be sold must be set to 'QuoteAmount' field to satisfy trading requirements''
                         [ErrAmountMustBeSet])
          else if SpotMarketOrderAmountSellBaseOnly requirements \<and>
              feq (s_Amount s) 0 \<and> s_Type s = Market \<and> s_AssetType s = Spot \<and>
              IsShort (s_Side s)
            then Some (Errorf ''submit validation error %w, base amount being sold must be set to 'Amount' field to satisfy trading requirements''
                         [ErrAmountMustBeSet])
          else first_error opt)"

definition GetTradeAmount :: "submit option \<Rightarrow> trading_requirements \<Rightarrow> f64" where
  "GetTradeAmount so tr =
     (case so of
        None \<Rightarrow> 0
      | Some s \<Rightarrow>
          if SpotMarketOrderAmountPurchaseQuotationOnly tr \<and> s_AssetType s = Spot \<and>
             s_Type s = Market \<and> IsLong (s_Side s)
            then s_QuoteAmount s
          else if SpotMarketOrderAmountSellBaseOnly tr \<and> s_AssetType s = Spot \<and>
             s_Type s = Market \<and> IsShort (s_Side s)
            then s_Amount s
          else s_Amount s)"

definition StandardCancel :: "cancel \<Rightarrow> go_error option" where
  "StandardCancel c =
     (if c_OrderID c = [] \<and> c_ClientOrderID c = []
      then Some (Sentinel ''order ID or client order ID not set'')
      else None)"

definition PairAssetRequired :: "store \<Rightarrow> cancel \<Rightarrow> go_error option" where
  "PairAssetRequired cs c =
     (if pair_IsEmpty cs (c_Pair c) then Some ErrPairIsEmpty
      else if c_AssetType c = Empty then Some ErrAssetNotSet
      else None)"

definition cancel_Validate :: "cancel option \<Rightarrow> go_error option list \<Rightarrow> go_error option" where
  "cancel_Validate co opt =
     (case co of
        None \<Rightarrow> Some ErrCancelOrderIsNil
      | Some c \<Rightarrow> append_errors None opt)"

definition request_Validate ::
    "multi_order_request option \<Rightarrow> go_error option list \<Rightarrow> go_error option" where
  "request_Validate go opt =
     (case go of
        None \<Rightarrow> Some ErrGetOrdersRequestIsNil
      | Some g \<Rightarrow>
          if \<not> asset_IsValid (g_AssetType g) then Some (Errorf ''%v %w'' [asset_ErrNotSupported])
          else if g_Side g = UnknownSide then Some ErrSideIsInvalid
          else if g_Type g = UnknownType then Some errUnrecognisedOrderType
          else append_errors None opt)"

definition modify_Validate ::
    "store \<Rightarrow> modify option \<Rightarrow> go_error option list \<Rightarrow> go_error option" where
  "modify_Validate cs mo opt =
     (case mo of
        None \<Rightarrow> Some ErrModifyOrderIsNil
      | Some m \<Rightarrow>
          if pair_IsEmpty cs (m_Pair m) then Some ErrPairIsEmpty
          else if m_AssetType m = Empty then Some ErrAssetNotSet
          else (case append_errors None opt of
                  Some errs \<Rightarrow> Some errs
                | None \<Rightarrow>
                    if m_ClientOrderID m = [] \<and> m_OrderID m = [] then Some ErrOrderIDNotSet
                    else if m_Price m \<le> 0 \<and> m_Amount m \<le> 0
                      then Some (Errorf ''price or amount must be set'' [])
                    else None))"

section \<open>From one struct to the next\<close>

definition DeriveSubmitResponse ::
    "time \<Rightarrow> submit option \<Rightarrow> string \<Rightarrow> submit_response go_result" where
  "DeriveSubmitResponse now so orderID =
     (case so of
        None \<Rightarrow> Inl errOrderSubmitIsNil
      | Some s \<Rightarrow>
          if orderID = [] then Inl ErrOrderIDNotSet
          else
            let status = (if s_Type s = Market then Filled else New)
            in Inr
              \<lparr>sr_Exchange = s_Exchange s, sr_Type = s_Type s, sr_Side = s_Side s,
               sr_Pair = s_Pair s, sr_AssetType = s_AssetType s,
               sr_ImmediateOrCancel = s_ImmediateOrCancel s, sr_FillOrKill = s_FillOrKill s,
               sr_PostOnly = s_PostOnly s, sr_ReduceOnly = s_ReduceOnly s,
               sr_Leverage = s_Leverage s, sr_Price = s_Price s, sr_AverageExecutedPrice = 0,
               sr_Amount = s_Amount s, sr_QuoteAmount = s_QuoteAmount s,
               sr_TriggerPrice = s_TriggerPrice s, sr_ClientID = s_ClientID s,
               sr_ClientOrderID = s_ClientOrderID s, sr_LastUpdated = now, sr_Date = now,
               sr_Status = status, sr_OrderID = orderID, sr_Trades = [], sr_Fee = 0,
               sr_FeeAsset = EMPTYCODE, sr_Cost = 0, sr_BorrowSize = 0, sr_LoanApplyID = [],
               sr_MarginType = s_MarginType s\<rparr>)"

definition AdjustBaseAmount ::
    "submit_response option \<Rightarrow> f64 \<Rightarrow> submit_response option \<times> go_error option" where
  "AdjustBaseAmount so a =
     (case so of
        None \<Rightarrow> (None, Some errOrderSubmitResponseIsNil)
      | Some s \<Rightarrow>
          if a \<le> 0 then (Some s, Some errAmountIsZero)
          else if feq (sr_Amount s) a then (Some s, None)
          else (Some (s\<lparr>sr_Amount := a\<rparr>), None))"

definition AdjustQuoteAmount ::
    "submit_response option \<Rightarrow> f64 \<Rightarrow> submit_response option \<times> go_error option" where
  "AdjustQuoteAmount so a =
     (case so of
        None \<Rightarrow> (None, Some errOrderSubmitResponseIsNil)
      | Some s \<Rightarrow>
          if a \<le> 0 then (Some s, Some errAmountIsZero)
          else if feq (sr_QuoteAmount s) a then (Some s, None)
          else (Some (s\<lparr>sr_QuoteAmount := a\<rparr>), None))"

definition DeriveDetail :: "submit_response option \<Rightarrow> uuid \<Rightarrow> detail go_result" where
  "DeriveDetail so internal =
     (case so of
        None \<Rightarrow> Inl errOrderSubmitResponseIsNil
      | Some s \<Rightarrow> Inr
          \<lparr>d_ImmediateOrCancel = sr_ImmediateOrCancel s, d_HiddenOrder = False,
           d_FillOrKill = sr_FillOrKill s, d_PostOnly = sr_PostOnly s,
           d_ReduceOnly = sr_ReduceOnly s, d_Leverage = sr_Leverage s, d_Price = sr_Price s,
           d_Amount = sr_Amount s, d_ContractAmount = 0, d_LimitPriceUpper = 0,
           d_LimitPriceLower = 0, d_TriggerPrice = sr_TriggerPrice s,
           d_AverageExecutedPrice = 0, d_QuoteAmount = sr_QuoteAmount s, d_ExecutedAmount = 0,
           d_RemainingAmount = 0, d_Cost = sr_Cost s, d_CostAsset = EMPTYCODE, d_Fee = sr_Fee s,
           d_FeeAsset = EMPTYCODE, d_Exchange = sr_Exchange s, d_InternalOrderID = internal,
           d_OrderID = sr_OrderID s, d_ClientOrderID = sr_ClientOrderID s, d_AccountID = [],
           d_ClientID = sr_ClientID s, d_WalletAddress = [], d_Type = sr_Type s,
           d_Side = sr_Side s, d_Status = sr_Status s, d_AssetType = sr_AssetType s,
           d_Date = sr_Date s, d_CloseTime = 0, d_LastUpdated = sr_LastUpdated s,
           d_Pair = sr_Pair s, d_MarginType = 0, d_Trades = sr_Trades s,
           d_SettlementCurrency = EMPTYCODE\<rparr>)"

definition zero_risk :: risk_management where
  "zero_risk =
     \<lparr>rm_Enabled = False, rm_TriggerPriceType = 0, rm_Price = 0, rm_LimitPrice = 0,
      rm_OrderType = 0\<rparr>"

definition zero_risk_modes :: risk_management_modes where
  "zero_risk_modes =
     \<lparr>rmm_Mode = [], rmm_TakeProfit = zero_risk, rmm_StopLoss = zero_risk,
      rmm_StopEntry = zero_risk\<rparr>"

definition DeriveModify :: "detail option \<Rightarrow> modify go_result" where
  "DeriveModify dopt =
     (case dopt of
        None \<Rightarrow> Inl errOrderDetailIsNil
      | Some d \<Rightarrow> Inr
          \<lparr>m_Exchange = d_Exchange d, m_OrderID = d_OrderID d, m_OrigClOrdID = [],
           m_ClientOrderID = d_ClientOrderID d, m_Type = d_Type d, m_Side = d_Side d,
           m_AssetType = d_AssetType d, m_Pair = d_Pair d, m_ImmediateOrCancel = False,
           m_PostOnly = False, m_Price = 0, m_Amount = 0, m_TriggerPrice = 0,
           m_TriggerPriceType = 0, m_RiskManagementModes = zero_risk_modes\<rparr>)"

definition DeriveModifyResponse :: "modify option \<Rightarrow> modify_response go_result" where
  "DeriveModifyResponse mo =
     (case mo of
        None \<Rightarrow> Inl errOrderDetailIsNil
      | Some m \<Rightarrow> Inr
          \<lparr>mr_Exchange = m_Exchange m, mr_OrderID = m_OrderID m,
           mr_ClientOrderID = m_ClientOrderID m, mr_Pair = m_Pair m, mr_Type = m_Type m,
           mr_Side = m_Side m, mr_Status = UnknownStatus, mr_AssetType = m_AssetType m,
           mr_ImmediateOrCancel = m_ImmediateOrCancel m, mr_PostOnly = m_PostOnly m,
           mr_Price = m_Price m, mr_Amount = m_Amount m, mr_TriggerPrice = m_TriggerPrice m,
           mr_RemainingAmount = 0, mr_Date = 0, mr_LastUpdated = 0\<rparr>)"

definition DeriveCancel :: "detail option \<Rightarrow> cancel go_result" where
  "DeriveCancel dopt =
     (case dopt of
        None \<Rightarrow> Inl errOrderDetailIsNil
      | Some d \<Rightarrow> Inr
          \<lparr>c_Exchange = d_Exchange d, c_OrderID = d_OrderID d,
           c_ClientOrderID = d_ClientOrderID d, c_AccountID = d_AccountID d,
           c_ClientID = d_ClientID d, c_WalletAddress = d_WalletAddress d, c_Type = d_Type d,
           c_Side = d_Side d, c_AssetType = d_AssetType d, c_Pair = d_Pair d,
           c_MarginType = 0\<rparr>)"

section \<open>Order status\<close>

definition IsActive :: "detail \<Rightarrow> bool" where
  "IsActive d \<longleftrightarrow>
     d_Status d \<noteq> UnknownStatus \<and> 0 < d_Amount d \<and> d_ExecutedAmount d < d_Amount d \<and>
     activeStatuses AND d_Status d = d_Status d"

definition IsInactive :: "detail \<Rightarrow> bool" where
  "IsInactive d \<longleftrightarrow>
     d_Amount d \<le> 0 \<or> d_Amount d \<le> d_ExecutedAmount d \<or> status_IsInactive (d_Status d)"

definition WasOrderPlaced :: "detail \<Rightarrow> bool" where
  "WasOrderPlaced d \<longleftrightarrow>
     (if d_Status d = UnknownStatus \<or> d_Status d = AnyStatus then False
      else notPlaced AND d_Status d \<noteq> d_Status d)"

text \<open>\<open>uuid.NewV4()\<close> may fail (no entropy), then the id is \<open>uuid.NewV5\<close> of the order id.\<close>

definition GenerateInternalOrderID ::
    "uuid go_result \<Rightarrow> (string \<Rightarrow> uuid) \<Rightarrow> detail \<Rightarrow> detail" where
  "GenerateInternalOrderID newV4 newV5 d =
     (if \<not> uuid_IsNil (d_InternalOrderID d) then d
      else d\<lparr>d_InternalOrderID :=
               (case newV4 of Inr u \<Rightarrow> u | Inl e \<Rightarrow> newV5 (d_OrderID d))\<rparr>)"

definition InferCostsAndTimes :: "store \<Rightarrow> detail \<Rightarrow> detail" where
  "InferCostsAndTimes cs d =
     (let d = (if code_IsEmpty cs (d_CostAsset d) then d\<lparr>d_CostAsset := Quote (d_Pair d)\<rparr> else d);
          d = (if IsZero (d_LastUpdated d)
               then (if IsZero (d_CloseTime d) then d\<lparr>d_LastUpdated := d_Date d\<rparr>
                     else d\<lparr>d_LastUpdated := d_CloseTime d\<rparr>)
               else d)
      in if d_ExecutedAmount d \<le> 0 then d
         else
           let d = (if feq (d_AverageExecutedPrice d) 0
                    then (if \<not> feq (d_Cost d) 0
                          then d\<lparr>d_AverageExecutedPrice := d_Cost d / d_ExecutedAmount d\<rparr>
                          else d\<lparr>d_AverageExecutedPrice := d_Price d\<rparr>)
                    else d)
           in if feq (d_Cost d) 0
              then d\<lparr>d_Cost := d_AverageExecutedPrice d * d_ExecutedAmount d\<rparr>
              else d)"

section \<open>Lemmas\<close>

named_theorems order_defs "definitions of the operations on orders"

lemma first_error_None: "first_error opt = None \<longleftrightarrow> set opt \<subseteq> {None}"
  by (induction opt rule: first_error.induct) auto

lemma append_errors_is:
  "is_err (append_errors errs opt) t \<longleftrightarrow> is_err errs t \<or> list_ex (\<lambda>e. is_err e t) opt"
  by (induction errs opt rule: append_errors.induct) auto

lemma append_errors_None [simp]:
  "append_errors errs opt = None \<longleftrightarrow> errs = None \<and> set opt \<subseteq> {None}"
  by (induction errs opt rule: append_errors.induct) auto

text \<open>What a submission that passes has been checked for; the amounts are only known not to be
  negative, and not both zero: a NaN passes every one of the comparisons.\<close>

lemma submit_ValidateD:
  assumes "submit_Validate cs (Some s) req opt = None"
  shows "s_Exchange s \<noteq> []" "\<not> pair_IsEmpty cs (s_Pair s)" "asset_IsValid (s_AssetType s)"
    "IsValidOrderSubmissionSide (s_Side s)" "s_Type s = Market \<or> s_Type s = Limit"
    "\<not> (s_ImmediateOrCancel s \<and> s_FillOrKill s)"
    "\<not> (feq (s_Amount s) 0 \<and> feq (s_QuoteAmount s) 0)" "\<not> s_Amount s < 0"
    "\<not> s_QuoteAmount s < 0" "s_Type s = Limit \<Longrightarrow> \<not> s_Price s \<le> 0"
    "ClientOrderIDRequired req \<Longrightarrow> s_ClientOrderID s \<noteq> []" "set opt \<subseteq> {None}"
    "SpotMarketOrderAmountPurchaseQuotationOnly req \<Longrightarrow> s_Type s = Market \<Longrightarrow>
       s_AssetType s = Spot \<Longrightarrow> IsLong (s_Side s) \<Longrightarrow> \<not> feq (s_QuoteAmount s) 0"
    "SpotMarketOrderAmountSellBaseOnly req \<Longrightarrow> s_Type s = Market \<Longrightarrow>
       s_AssetType s = Spot \<Longrightarrow> IsShort (s_Side s) \<Longrightarrow> \<not> feq (s_Amount s) 0"
  using assms
  by (simp_all add: submit_Validate_def first_error_None split: if_split_asm)

lemma zero_fcmp [simp]: "\<not> (0 :: f64) < 0" "(0 :: f64) \<le> 0" "feq 0 0"
  by (simp_all add: zero_f64_def f64_order_defs)

lemma f64_pos_cases: "x \<noteq> NaN \<Longrightarrow> \<not> x < 0 \<Longrightarrow> feq x 0 \<or> (0 :: f64) < x"
  using f64_linear [of x 0] by (auto simp: zero_f64_def)

lemma feq_zero_cmp: "feq x 0 \<Longrightarrow> x \<le> 0" "feq x 0 \<Longrightarrow> \<not> 0 < x"
  by (cases x; simp add: f64_order_defs zero_f64_def)+

lemma f64_less_not_le: "(x :: f64) < y \<Longrightarrow> \<not> y \<le> x"
  by (cases x; cases y) (auto simp: f64_order_defs)

lemma IsActive_status: "IsActive d \<Longrightarrow> status_active (d_Status d)"
  by (simp add: IsActive_def status_active_def)

lemma not_active_and_inactive_order: "\<not> (IsActive d \<and> IsInactive d)"
  using IsActive_status [of d] not_active_and_inactive [of "d_Status d"]
  by (auto simp: IsActive_def IsInactive_def dest: f64_less_not_le)

lemma new_and_filled:
  "status_active New" "status_IsInactive Filled" "New \<noteq> UnknownStatus" "Filled \<noteq> UnknownStatus"
  "\<not> status_active Filled" "notPlaced AND New \<noteq> New" "notPlaced AND Filled \<noteq> Filled"
  "New \<noteq> AnyStatus" "Filled \<noteq> AnyStatus"
  by (simp_all add: status_active_def status_IsInactive_def activeStatuses_def inactiveStatuses_def
      notPlaced_def order_status_consts)

text \<open>The margin type and the fee asset of a response are not carried into the detail, and the
  margin type of a detail is not carried into its cancellation.\<close>

lemma DeriveDetail_drops_margin:
  "DeriveDetail (Some r) u = Inr d \<Longrightarrow> d_MarginType d = margin_Unset \<and> d_FeeAsset d = EMPTYCODE"
  by (auto simp: DeriveDetail_def margin_Unset_def)

lemma DeriveCancel_drops_margin:
  "DeriveCancel (Some d) = Inr c \<Longrightarrow> c_MarginType c = margin_Unset"
  by (auto simp: DeriveCancel_def margin_Unset_def)

lemma adjusted_amount_positive:
  assumes "AdjustBaseAmount (Some r) a = (ro, None)"
  shows "\<exists>r'. ro = Some r' \<and> (a = sr_Amount r' \<or> feq (sr_Amount r') a) \<and>
    r' = r\<lparr>sr_Amount := sr_Amount r'\<rparr>"
  using assms by (auto simp: AdjustBaseAmount_def split: if_split_asm)

lemma InferCostsAndTimes_frame [simp]:
  "d_ExecutedAmount (InferCostsAndTimes cs d) = d_ExecutedAmount d"
  "d_Price (InferCostsAndTimes cs d) = d_Price d"
  "d_Status (InferCostsAndTimes cs d) = d_Status d"
  "d_Amount (InferCostsAndTimes cs d) = d_Amount d"
  "d_Pair (InferCostsAndTimes cs d) = d_Pair d"
  "d_Date (InferCostsAndTimes cs d) = d_Date d"
  "d_CloseTime (InferCostsAndTimes cs d) = d_CloseTime d"
  by (simp_all add: InferCostsAndTimes_def Let_def)

lemma InferCostsAndTimes_fields:
  "d_CostAsset (InferCostsAndTimes cs d) =
     (if code_IsEmpty cs (d_CostAsset d) then Quote (d_Pair d) else d_CostAsset d)"
  "d_LastUpdated (InferCostsAndTimes cs d) =
     (if IsZero (d_LastUpdated d)
      then (if IsZero (d_CloseTime d) then d_Date d else d_CloseTime d) else d_LastUpdated d)"
  "d_AverageExecutedPrice (InferCostsAndTimes cs d) =
     (if d_ExecutedAmount d \<le> 0 \<or> \<not> feq (d_AverageExecutedPrice d) 0
        then d_AverageExecutedPrice d
      else if feq (d_Cost d) 0 then d_Price d else d_Cost d / d_ExecutedAmount d)"
  "d_Cost (InferCostsAndTimes cs d) =
     (if d_ExecutedAmount d \<le> 0 \<or> \<not> feq (d_Cost d) 0 then d_Cost d
      else d_AverageExecutedPrice (InferCostsAndTimes cs d) * d_ExecutedAmount d)"
  by (simp_all add: InferCostsAndTimes_def Let_def)

lemma InferCostsAndTimes_shape:
  "InferCostsAndTimes cs d =
     d\<lparr>d_CostAsset := d_CostAsset (InferCostsAndTimes cs d),
       d_LastUpdated := d_LastUpdated (InferCostsAndTimes cs d),
       d_AverageExecutedPrice := d_AverageExecutedPrice (InferCostsAndTimes cs d),
       d_Cost := d_Cost (InferCostsAndTimes cs d)\<rparr>"
  by (simp add: InferCostsAndTimes_def Let_def)

lemma feq_zero_times: "is_finite y \<Longrightarrow> feq x 0 \<Longrightarrow> feq (x * y) (0 :: f64)"
  by (cases x; cases y) (auto simp: f64_arith_defs f64_order_defs fround_def)

section \<open>Properties\<close>

text \<open>C27: a submission that passes validation and gets an order id is
  carried to a managed detail with the same exchange, pair, asset, side, type, price and amounts,
  a placed status and the given internal id.  A market order is inactive from the start (it is
  taken for filled); a limit order is active exactly if it has a base amount: one with a quote
  amount only, which validation lets pass, is a new order that counts as inactive.\<close>

theorem valid_order_lifecycle:
  assumes "submit_Validate cs (Some s) req opt = None" and "s_Amount s \<noteq> NaN" and "oid \<noteq> []"
  shows "case DeriveSubmitResponse now (Some s) oid of Inl e \<Rightarrow> False
    | Inr r \<Rightarrow> (case DeriveDetail (Some r) u of Inl e \<Rightarrow> False
      | Inr d \<Rightarrow>
          d_Exchange d = s_Exchange s \<and> d_Pair d = s_Pair s \<and> d_AssetType d = s_AssetType s \<and>
          d_Side d = s_Side s \<and> d_Type d = s_Type s \<and> d_Price d = s_Price s \<and>
          d_Amount d = s_Amount s \<and> d_QuoteAmount d = s_QuoteAmount s \<and> d_OrderID d = oid \<and>
          d_ClientOrderID d = s_ClientOrderID s \<and> d_InternalOrderID d = u \<and>
          WasOrderPlaced d \<and> IsInactive d = (\<not> IsActive d) \<and>
          IsActive d = (s_Type s = Limit \<and> \<not> feq (s_Amount s) 0))"
proof -
  note v = submit_ValidateD [OF assms(1)]
  have types: "Market \<noteq> Limit" by (simp add: order_type_consts)
  have status: "\<not> status_IsInactive New" "activeStatuses AND New = New"
    "activeStatuses AND Filled \<noteq> Filled"
    using not_active_and_inactive [of New] new_and_filled by (auto simp: status_active_def)
  consider (market) "s_Type s = Market" | (quote) "s_Type s = Limit" "feq (s_Amount s) 0"
    | (base) "s_Type s = Limit" "0 < s_Amount s"
    using v(5) f64_pos_cases [OF assms(2) v(8)] by blast
  then show ?thesis
  proof cases
    case market
    then show ?thesis using types new_and_filled status assms(3)
      by (simp add: DeriveSubmitResponse_def DeriveDetail_def WasOrderPlaced_def IsActive_def
          IsInactive_def)
  next
    case quote
    then show ?thesis using types new_and_filled status assms(3) feq_zero_cmp [OF quote(2)]
      by (simp add: DeriveSubmitResponse_def DeriveDetail_def WasOrderPlaced_def IsActive_def
          IsInactive_def)
  next
    case base
    then have "\<not> feq (s_Amount s) 0" "\<not> s_Amount s \<le> 0"
      using feq_zero_cmp f64_less_not_le by blast+
    then show ?thesis using base types new_and_filled status assms(3)
      by (simp add: DeriveSubmitResponse_def DeriveDetail_def WasOrderPlaced_def IsActive_def
          IsInactive_def)
  qed
qed

definition demo_submit :: submit where
  "demo_submit =
     \<lparr>s_Exchange = ''binance'', s_Type = Limit, s_Side = Buy,
      s_Pair = \<lparr>Delimiter = [], Base = \<lparr>Item = Some 0, upperCase = True\<rparr>,
                Quote = \<lparr>Item = Some 1, upperCase = True\<rparr>\<rparr>,
      s_AssetType = Spot, s_ImmediateOrCancel = False, s_FillOrKill = False, s_PostOnly = False,
      s_ReduceOnly = False, s_Leverage = 0, s_Price = Fin 100, s_Amount = Fin 2,
      s_QuoteAmount = 0, s_TriggerPrice = 0, s_TriggerPriceType = LastPrice, s_ClientID = [],
      s_ClientOrderID = [], s_AutoBorrow = False, s_MarginType = 0, s_RetrieveFees = False,
      s_RetrieveFeeDelay = 0, s_RiskManagementModes = zero_risk_modes, s_Hidden = False,
      s_Iceberg = False\<rparr>"

definition no_requirements :: trading_requirements where
  "no_requirements =
     \<lparr>SpotMarketOrderAmountPurchaseQuotationOnly = False,
      SpotMarketOrderAmountSellBaseOnly = False, ClientOrderIDRequired = False\<rparr>"

definition demo_registry :: store where
  "demo_registry = fst (NewPairDelimiter empty_store ''BTC-USD'' ''-'')"

lemma demo_submit_valid:
  "submit_Validate demo_registry (Some demo_submit) no_requirements [None] = None"
  by code_simp

lemma demo_submit_fields: "s_Amount demo_submit = Fin 2" "s_Type demo_submit = Limit"
  by (simp_all add: demo_submit_def)

theorem valid_order_lifecycle_witness:
  "case DeriveSubmitResponse 5 (Some demo_submit) ''17'' of Inl e \<Rightarrow> False
   | Inr r \<Rightarrow> (case DeriveDetail (Some r) 9 of Inl e \<Rightarrow> False
      | Inr d \<Rightarrow> d_OrderID d = ''17'' \<and> d_Amount d = Fin 2 \<and> IsActive d)"
  using valid_order_lifecycle [OF demo_submit_valid, where oid = "''17''" and now = 5 and u = 9]
  by (auto simp: demo_submit_fields feq_def zero_f64_def split: sum.splits)

text \<open>Also: no order is both active and inactive, whatever its numbers and status bits;
  an order whose amounts are numbers and whose status is named is one of the two, except with the
  status \<open>STP\<close>.  An active order was placed.\<close>

theorem order_active:
  assumes "d_Amount d \<noteq> NaN" and "d_ExecutedAmount d \<noteq> NaN"
    and "d_Status d \<in> set (removeAll STP named_statuses)"
  shows "\<not> (IsActive d \<and> IsInactive d) \<and> (IsActive d \<or> IsInactive d) \<and>
    (if IsActive d then WasOrderPlaced d else True)"
proof -
  have one: "status_active (d_Status d) \<or> status_IsInactive (d_Status d)"
    using statuses_classified(1) assms(3) by (auto simp: list_all_iff)
  have "IsActive d \<or> IsInactive d"
    using one f64_not_le [OF assms(1,2)] f64_not_le [OF assms(1), of 0]
    by (auto simp: IsActive_def IsInactive_def status_active_def zero_f64_def)
  moreover have "WasOrderPlaced d" if a: "IsActive d"
  proof -
    have act: "d_Status d \<noteq> UnknownStatus" "activeStatuses AND d_Status d = d_Status d"
      using a by (simp_all add: IsActive_def)
    have "activeStatuses AND notPlaced = 0" "\<not> status_active AnyStatus"
      by (simp_all add: activeStatuses_def notPlaced_def status_active_def order_status_consts)
    then show ?thesis
      using act in_disjoint_masks [of activeStatuses notPlaced "d_Status d"]
      by (auto simp: WasOrderPlaced_def status_active_def UnknownStatus_def)
  qed
  ultimately show ?thesis using not_active_and_inactive_order [of d] by simp
qed

definition demo_detail :: detail where
  "demo_detail =
     (case DeriveSubmitResponse 5 (Some demo_submit) ''17'' of
        Inr r \<Rightarrow> (case DeriveDetail (Some r) 9 of Inr d \<Rightarrow> d | Inl _ \<Rightarrow> undefined)
      | Inl _ \<Rightarrow> undefined)"

lemma demo_detail_fields:
  "d_Amount demo_detail = Fin 2" "d_ExecutedAmount demo_detail = Fin 0"
  "d_Status demo_detail = New"
  by (simp_all add: demo_detail_def DeriveSubmitResponse_def DeriveDetail_def demo_submit_def
      zero_f64_def order_type_consts)

theorem order_active_witness: "IsActive demo_detail \<or> IsInactive demo_detail"
  using order_active [of demo_detail]
  by (simp add: demo_detail_fields named_statuses_def order_status_consts)

text \<open>Also: inferring costs and times replaces nothing that is set, and doing it
  twice changes nothing more: a set cost asset, update time, average price or cost is kept; an
  order with nothing executed keeps its price and cost; an executed one with an average price and
  no cost gets their product as the cost, and one with a cost and no average price the
  quotient.\<close>

theorem costs_inferred:
  assumes "is_finite (d_ExecutedAmount d)"
  shows "InferCostsAndTimes cs (InferCostsAndTimes cs d) = InferCostsAndTimes cs d \<and>
    d_CostAsset (InferCostsAndTimes cs d) =
      (if code_IsEmpty cs (d_CostAsset d) then Quote (d_Pair d) else d_CostAsset d) \<and>
    (if IsZero (d_LastUpdated d) then True
     else d_LastUpdated (InferCostsAndTimes cs d) = d_LastUpdated d) \<and>
    d_AverageExecutedPrice (InferCostsAndTimes cs d) =
      (if d_ExecutedAmount d \<le> 0 \<or> \<not> feq (d_AverageExecutedPrice d) 0
         then d_AverageExecutedPrice d
       else if feq (d_Cost d) 0 then d_Price d
       else d_Cost d / d_ExecutedAmount d) \<and>
    d_Cost (InferCostsAndTimes cs d) =
      (if d_ExecutedAmount d \<le> 0 \<or> \<not> feq (d_Cost d) 0 then d_Cost d
       else d_AverageExecutedPrice (InferCostsAndTimes cs d) * d_ExecutedAmount d)"
proof -
  let ?I = "InferCostsAndTimes cs"
  note F = InferCostsAndTimes_fields [where cs = cs]
  have "d_CostAsset (?I (?I d)) = d_CostAsset (?I d)"
    "d_LastUpdated (?I (?I d)) = d_LastUpdated (?I d)"
    by (simp_all add: F)
  moreover have avg: "d_AverageExecutedPrice (?I (?I d)) = d_AverageExecutedPrice (?I d)"
    using feq_zero_times [OF assms] by (auto simp: F)
  moreover have "d_Cost (?I (?I d)) = d_Cost (?I d)"
    using avg by (simp add: F(4) [of "?I d"]) (simp add: F(4) [of d])
  ultimately have "?I (?I d) = ?I d"
    using InferCostsAndTimes_shape [of cs "?I d"] by simp
  then show ?thesis using F(1-4) [of d] by simp
qed

theorem costs_inferred_witness:
  "InferCostsAndTimes demo_registry (InferCostsAndTimes demo_registry demo_detail) =
     InferCostsAndTimes demo_registry demo_detail"
  using costs_inferred [of demo_detail demo_registry] by (simp add: demo_detail_fields)

end
