(* ===== verification/Order_Detail.thy ===== *)
theory Order_Detail
  imports Order Go_Sort "HOL-Library.List_Lexorder" "HOL-Library.Char_ord"
begin

text \<open>
  A managed order (\<open>Detail\<close>, \<open>exchanges/order/orders.go\<close>): merging an update from the exchange or
  a modify response into it, matching it against a filter, copying, and the list operations that
  narrow and sort orders.  The update functions assign field by field and remember in \<open>updated\<close>
  whether anything was assigned; \<open>upd\<close> is one such guarded assignment.  The filters compact the
  slice in place with a write index, which is modelled on the list as the array; \<open>compact_filter\<close>
  shows that they compute \<open>filter\<close>.  The two details of an update are distinct objects.
\<close>

section \<open>Guarded assignments\<close>

definition upd :: "('a \<Rightarrow> bool) \<Rightarrow> ('a \<Rightarrow> 'a) \<Rightarrow> 'a \<times> bool \<Rightarrow> 'a \<times> bool" where
  "upd c f s = (if c (fst s) then (f (fst s), True) else s)"

section \<open>UpdateOrderFromDetail\<close>

definition merge_fields :: "store \<Rightarrow> detail \<Rightarrow> detail \<Rightarrow> detail \<times> bool" where
  "merge_fields cs m d0 =
     (let s = (d0, False);
          s = upd (\<lambda>d. d_ImmediateOrCancel d \<noteq> d_ImmediateOrCancel m)
                (\<lambda>d. d\<lparr>d_ImmediateOrCancel := d_ImmediateOrCancel m\<rparr>) s;
          s = upd (\<lambda>d. d_HiddenOrder d \<noteq> d_HiddenOrder m)
                (\<lambda>d. d\<lparr>d_HiddenOrder := d_HiddenOrder m\<rparr>) s;
          s = upd (\<lambda>d. d_FillOrKill d \<noteq> d_FillOrKill m)
                (\<lambda>d. d\<lparr>d_FillOrKill := d_FillOrKill m\<rparr>) s;
          s = upd (\<lambda>d. 0 < d_Price m \<and> \<not> feq (d_Price m) (d_Price d))
                (\<lambda>d. d\<lparr>d_Price := d_Price m\<rparr>) s;
          s = upd (\<lambda>d. 0 < d_Amount m \<and> \<not> feq (d_Amount m) (d_Amount d))
                (\<lambda>d. d\<lparr>d_Amount := d_Amount m\<rparr>) s;
          s = upd (\<lambda>d. 0 < d_LimitPriceUpper m \<and>
                     \<not> feq (d_LimitPriceUpper m) (d_LimitPriceUpper d))
                (\<lambda>d. d\<lparr>d_LimitPriceUpper := d_LimitPriceUpper m\<rparr>) s;
          s = upd (\<lambda>d. 0 < d_LimitPriceLower m \<and>
                     \<not> feq (d_LimitPriceLower m) (d_LimitPriceLower d))
                (\<lambda>d. d\<lparr>d_LimitPriceLower := d_LimitPriceLower m\<rparr>) s;
          s = upd (\<lambda>d. 0 < d_TriggerPrice m \<and>
                     \<not> feq (d_TriggerPrice m) (d_TriggerPrice d))
                (\<lambda>d. d\<lparr>d_TriggerPrice := d_TriggerPrice m\<rparr>) s;
          s = upd (\<lambda>d. 0 < d_QuoteAmount m \<and>
                     \<not> feq (d_QuoteAmount m) (d_QuoteAmount d))
                (\<lambda>d. d\<lparr>d_QuoteAmount := d_QuoteAmount m\<rparr>) s;
          s = upd (\<lambda>d. 0 < d_ExecutedAmount m \<and>
                     \<not> feq (d_ExecutedAmount m) (d_ExecutedAmount d))
                (\<lambda>d. d\<lparr>d_ExecutedAmount := d_ExecutedAmount m\<rparr>) s;
          s = upd (\<lambda>d. 0 < d_Fee m \<and> \<not> feq (d_Fee m) (d_Fee d))
                (\<lambda>d. d\<lparr>d_Fee := d_Fee m\<rparr>) s;
          s = upd (\<lambda>d. d_AccountID m \<noteq> [] \<and>
                     d_AccountID m \<noteq> d_AccountID d)
                (\<lambda>d. d\<lparr>d_AccountID := d_AccountID m\<rparr>) s;
          s = upd (\<lambda>d. d_PostOnly m \<noteq> d_PostOnly d)
                (\<lambda>d. d\<lparr>d_PostOnly := d_PostOnly m\<rparr>) s;
          s = upd (\<lambda>d. \<not> pair_IsEmpty cs (d_Pair m) \<and>
                     \<not> pair_Equal (d_Pair m) (d_Pair d))
                (\<lambda>d. d\<lparr>d_Pair := d_Pair m\<rparr>) s;
          s = upd (\<lambda>d. \<not> feq (d_Leverage m) 0 \<and>
                     \<not> feq (d_Leverage m) (d_Leverage d))
                (\<lambda>d. d\<lparr>d_Leverage := d_Leverage m\<rparr>) s;
          s = upd (\<lambda>d. d_ClientID m \<noteq> [] \<and> d_ClientID m \<noteq> d_ClientID d)
                (\<lambda>d. d\<lparr>d_ClientID := d_ClientID m\<rparr>) s;
          s = upd (\<lambda>d. d_ClientOrderID m \<noteq> [] \<and>
                     d_ClientOrderID m \<noteq> d_ClientOrderID d)
                (\<lambda>d. d\<lparr>d_ClientOrderID := d_ClientOrderID m\<rparr>) s;
          s = upd (\<lambda>d. d_WalletAddress m \<noteq> [] \<and>
                     d_WalletAddress m \<noteq> d_WalletAddress d)
                (\<lambda>d. d\<lparr>d_WalletAddress := d_WalletAddress m\<rparr>) s;
          s = upd (\<lambda>d. d_Type m \<noteq> UnknownType \<and> d_Type m \<noteq> d_Type d)
                (\<lambda>d. d\<lparr>d_Type := d_Type m\<rparr>) s;
          s = upd (\<lambda>d. d_Side m \<noteq> UnknownSide \<and> d_Side m \<noteq> d_Side d)
                (\<lambda>d. d\<lparr>d_Side := d_Side m\<rparr>) s;
          s = upd (\<lambda>d. d_Status m \<noteq> UnknownStatus \<and>
                     d_Status m \<noteq> d_Status d)
                (\<lambda>d. d\<lparr>d_Status := d_Status m\<rparr>) s;
          s = upd (\<lambda>d. d_AssetType m \<noteq> Empty \<and>
                     d_AssetType m \<noteq> d_AssetType d)
                (\<lambda>d. d\<lparr>d_AssetType := d_AssetType m\<rparr>) s
      in s)"

definition merge_trade :: "trade_history \<Rightarrow> trade_history \<Rightarrow> trade_history \<times> bool" where
  "merge_trade x y =
     (let s = (y, False);
          s = upd (\<lambda>y. \<not> feq (th_Fee y) (th_Fee x)) (\<lambda>y. y\<lparr>th_Fee := th_Fee x\<rparr>) s;
          s = upd (\<lambda>y. \<not> feq (th_Price x) 0 \<and> \<not> feq (th_Price y) (th_Price x))
                (\<lambda>y. y\<lparr>th_Price := th_Price x\<rparr>) s;
          s = upd (\<lambda>y. th_Side y \<noteq> th_Side x) (\<lambda>y. y\<lparr>th_Side := th_Side x\<rparr>) s;
          s = upd (\<lambda>y. th_Type y \<noteq> th_Type x) (\<lambda>y. y\<lparr>th_Type := th_Type x\<rparr>) s;
          s = upd (\<lambda>y. th_Description y \<noteq> th_Description x)
                (\<lambda>y. y\<lparr>th_Description := th_Description x\<rparr>) s;
          s = upd (\<lambda>y. \<not> feq (th_Amount x) 0 \<and> \<not> feq (th_Amount y) (th_Amount x))
                (\<lambda>y. y\<lparr>th_Amount := th_Amount x\<rparr>) s;
          s = upd (\<lambda>y. th_Timestamp y \<noteq> th_Timestamp x)
                (\<lambda>y. y\<lparr>th_Timestamp := th_Timestamp x\<rparr>) s;
          s = upd (\<lambda>y. th_IsMaker y \<noteq> th_IsMaker x) (\<lambda>y. y\<lparr>th_IsMaker := th_IsMaker x\<rparr>) s
      in s)"

text \<open>The inner loop visits every trade of \<open>d\<close> with the id of \<open>x\<close>; if there is none, \<open>x\<close> is
  appended, and later trades of \<open>m\<close> find it.\<close>

definition merge_into :: "trade_history \<Rightarrow> trade_history list \<times> bool \<Rightarrow> trade_history list \<times> bool"
where
  "merge_into x s =
     (let (ts, updated) = s;
          rs = map (\<lambda>y. if th_TID y \<noteq> th_TID x then (y, False) else merge_trade x y) ts;
          found = list_ex (\<lambda>y. th_TID y = th_TID x) ts
      in if found then (map fst rs, updated \<or> list_ex snd rs)
         else (map fst rs @ [x], True))"

fun remaining_after :: "f64 \<Rightarrow> trade_history list \<Rightarrow> f64" where
  "remaining_after r [] = r"
| "remaining_after r (x # xs) = remaining_after (r - th_Amount x) xs"

definition set_updated_time :: "time \<Rightarrow> time \<Rightarrow> detail \<times> bool \<Rightarrow> detail" where
  "set_updated_time now mt s =
     (if snd s
      then (if d_LastUpdated (fst s) = mt then (fst s)\<lparr>d_LastUpdated := now\<rparr>
            else (fst s)\<lparr>d_LastUpdated := mt\<rparr>)
      else fst s)"

definition fill_identity :: "detail \<Rightarrow> detail \<Rightarrow> detail" where
  "fill_identity m d =
     (let d = (if d_Exchange d = [] then d\<lparr>d_Exchange := d_Exchange m\<rparr> else d);
          d = (if d_OrderID d = [] then d\<lparr>d_OrderID := d_OrderID m\<rparr> else d)
      in if uuid_IsNil (d_InternalOrderID d) then d\<lparr>d_InternalOrderID := d_InternalOrderID m\<rparr>
         else d)"

text \<open>The result is the receiver, the argument (whose remaining amount is reduced by the amounts
  of its trades, in place) and the error.\<close>

definition UpdateOrderFromDetail ::
    "store \<Rightarrow> time \<Rightarrow> detail option \<Rightarrow> detail option \<Rightarrow>
     detail option \<times> detail option \<times> go_error option" where
  "UpdateOrderFromDetail cs now dopt mopt =
     (case dopt of
        None \<Rightarrow> (None, mopt, Some ErrOrderDetailIsNil)
      | Some d0 \<Rightarrow>
          (case mopt of
             None \<Rightarrow> (Some d0, None, Some (Errorf ''incoming %w'' [ErrOrderDetailIsNil]))
           | Some m0 \<Rightarrow>
               let (d, updated) = merge_fields cs m0 d0;
                   (ts, updated) = fold merge_into (d_Trades m0) (d_Trades d, updated);
                   m = m0\<lparr>d_RemainingAmount := remaining_after (d_RemainingAmount m0) (d_Trades m0)\<rparr>;
                   s = upd (\<lambda>d. 0 < d_RemainingAmount m \<and>
                              \<not> feq (d_RemainingAmount m) (d_RemainingAmount d))
                         (\<lambda>d. d\<lparr>d_RemainingAmount := d_RemainingAmount m\<rparr>)
                         (d\<lparr>d_Trades := ts\<rparr>, updated);
                   d = set_updated_time now (d_LastUpdated m) s
               in (Some (fill_identity m d), Some m, None)))"

section \<open>UpdateOrderFromModifyResponse\<close>

definition UpdateOrderFromModifyResponse ::
    "store \<Rightarrow> time \<Rightarrow> modify_response \<Rightarrow> detail \<Rightarrow> detail" where
  "UpdateOrderFromModifyResponse cs now m d0 =
     (let s = (d0, False);
          s = upd (\<lambda>d. mr_OrderID m \<noteq> [] \<and> d_OrderID d \<noteq> mr_OrderID m)
                (\<lambda>d. d\<lparr>d_OrderID := mr_OrderID m\<rparr>) s;
          s = upd (\<lambda>d. d_ImmediateOrCancel d \<noteq> mr_ImmediateOrCancel m)
                (\<lambda>d. d\<lparr>d_ImmediateOrCancel := mr_ImmediateOrCancel m\<rparr>) s;
          s = upd (\<lambda>d. 0 < mr_Price m \<and> \<not> feq (mr_Price m) (d_Price d))
                (\<lambda>d. d\<lparr>d_Price := mr_Price m\<rparr>) s;
          s = upd (\<lambda>d. 0 < mr_Amount m \<and> \<not> feq (mr_Amount m) (d_Amount d))
                (\<lambda>d. d\<lparr>d_Amount := mr_Amount m\<rparr>) s;
          s = upd (\<lambda>d. 0 < mr_TriggerPrice m \<and>
                     \<not> feq (mr_TriggerPrice m) (d_TriggerPrice d))
                (\<lambda>d. d\<lparr>d_TriggerPrice := mr_TriggerPrice m\<rparr>) s;
          s = upd (\<lambda>d. mr_PostOnly m \<noteq> d_PostOnly d)
                (\<lambda>d. d\<lparr>d_PostOnly := mr_PostOnly m\<rparr>) s;
          s = upd (\<lambda>d. \<not> pair_IsEmpty cs (mr_Pair m) \<and>
                     \<not> pair_Equal (mr_Pair m) (d_Pair d))
                (\<lambda>d. d\<lparr>d_Pair := mr_Pair m\<rparr>) s;
          s = upd (\<lambda>d. mr_Type m \<noteq> UnknownType \<and> mr_Type m \<noteq> d_Type d)
                (\<lambda>d. d\<lparr>d_Type := mr_Type m\<rparr>) s;
          s = upd (\<lambda>d. mr_Side m \<noteq> UnknownSide \<and> mr_Side m \<noteq> d_Side d)
                (\<lambda>d. d\<lparr>d_Side := mr_Side m\<rparr>) s;
          s = upd (\<lambda>d. mr_Status m \<noteq> UnknownStatus \<and>
                     mr_Status m \<noteq> d_Status d)
                (\<lambda>d. d\<lparr>d_Status := mr_Status m\<rparr>) s;
          s = upd (\<lambda>d. mr_AssetType m \<noteq> Empty \<and>
                     mr_AssetType m \<noteq> d_AssetType d)
                (\<lambda>d. d\<lparr>d_AssetType := mr_AssetType m\<rparr>) s;
          s = upd (\<lambda>d. 0 < mr_RemainingAmount m \<and>
                     \<not> feq (mr_RemainingAmount m) (d_RemainingAmount d))
                (\<lambda>d. d\<lparr>d_RemainingAmount := mr_RemainingAmount m\<rparr>) s
      in set_updated_time now (mr_LastUpdated m) s)"

section \<open>Matching and copying\<close>

definition MatchFilter :: "store \<Rightarrow> detail \<Rightarrow> order_filter \<Rightarrow> bool" where
  "MatchFilter cs d f =
     (if f_Exchange f \<noteq> [] \<and> \<not> EqualFold (d_Exchange d) (f_Exchange f) then False
      else if f_AssetType f \<noteq> Empty \<and> d_AssetType d \<noteq> f_AssetType f then False
      else if \<not> pair_IsEmpty cs (f_Pair f) \<and> \<not> pair_Equal (d_Pair d) (f_Pair f) then False
      else if f_OrderID f \<noteq> [] \<and> d_OrderID d \<noteq> f_OrderID f then False
      else if f_Type f \<noteq> UnknownType \<and> f_Type f \<noteq> AnyType \<and> d_Type d \<noteq> f_Type f then False
      else if f_Side f \<noteq> UnknownSide \<and> f_Side f \<noteq> AnySide \<and> d_Side d \<noteq> f_Side f then False
      else if f_Status f \<noteq> UnknownStatus \<and> f_Status f \<noteq> AnyStatus \<and> d_Status d \<noteq> f_Status f
        then False
      else if f_ClientOrderID f \<noteq> [] \<and> d_ClientOrderID d \<noteq> f_ClientOrderID f then False
      else if f_ClientID f \<noteq> [] \<and> d_ClientID d \<noteq> f_ClientID f then False
      else if \<not> uuid_IsNil (f_InternalOrderID f) \<and> d_InternalOrderID d \<noteq> f_InternalOrderID f
        then False
      else if f_AccountID f \<noteq> [] \<and> d_AccountID d \<noteq> f_AccountID f then False
      else if f_WalletAddress f \<noteq> [] \<and> d_WalletAddress d \<noteq> f_WalletAddress f then False
      else True)"

text \<open>Copies are values, so the fresh slice of trades needs no address.\<close>

definition detail_Copy :: "detail \<Rightarrow> detail" where
  "detail_Copy d = (if 0 < length (d_Trades d) then d\<lparr>d_Trades := d_Trades d\<rparr> else d)"

definition CopyPointerOrderSlice :: "detail list \<Rightarrow> detail list" where
  "CopyPointerOrderSlice old = map detail_Copy old"

section \<open>Filtering in place\<close>

text \<open>The loop of the four filters: \<open>i\<close> reads, \<open>target\<close> writes, and the slice is cut at
  \<open>target\<close>.\<close>

function compact :: "('a \<Rightarrow> bool) \<Rightarrow> nat \<Rightarrow> nat \<Rightarrow> 'a list \<Rightarrow> 'a list" where
  "compact keep i target xs =
     (if i < length xs
      then (if keep (xs ! i) then compact keep (i + 1) (target + 1) (xs[target := xs ! i])
            else compact keep (i + 1) target xs)
      else take target xs)"
  by pat_completeness auto
termination by (relation "measure (\<lambda>(keep, i, target, xs). length xs - i)") auto

declare compact.simps [simp del]

definition FilterOrdersBySide :: "detail list \<Rightarrow> order_side \<Rightarrow> detail list" where
  "FilterOrdersBySide orders side =
     (if AnySide = side \<or> length orders = 0 then orders
      else compact (\<lambda>x. d_Side x = UnknownSide \<or> d_Side x = side) 0 0 orders)"

definition FilterOrdersByType :: "detail list \<Rightarrow> order_type \<Rightarrow> detail list" where
  "FilterOrdersByType orders orderType =
     (if AnyType = orderType \<or> length orders = 0 then orders
      else compact (\<lambda>x. d_Type x = UnknownType \<or> d_Type x = orderType) 0 0 orders)"

text \<open>\<open>Time.Unix\<close>: whole seconds from 1970, rounded down.\<close>

definition time_Unix :: "time \<Rightarrow> int" where
  "time_Unix t = (t - zeroValueUnix) div 1000000000"

definition FilterOrdersByTimeRange ::
    "time \<Rightarrow> detail list \<Rightarrow> time \<Rightarrow> time \<Rightarrow> detail list \<times> go_error option" where
  "FilterOrdersByTimeRange now orders startTime endTime =
     (if length orders = 0 then (orders, None)
      else case StartEndTimeCheck now startTime endTime of
        Some err \<Rightarrow>
          if errors_is err ErrDateUnset then (orders, None)
          else (orders, Some (Errorf ''cannot filter orders by time range %w'' [err]))
      | None \<Rightarrow>
          (compact (\<lambda>x. (time_Unix startTime \<le> time_Unix (d_Date x) \<and>
                         time_Unix (d_Date x) \<le> time_Unix endTime) \<or> IsZero (d_Date x))
             0 0 orders, None))"

definition FilterOrdersByPairs :: "store \<Rightarrow> detail list \<Rightarrow> pair list \<Rightarrow> detail list" where
  "FilterOrdersByPairs cs orders pairs =
     (if length pairs = 0 \<or> (length pairs = 1 \<and> pair_IsEmpty cs (pairs ! 0)) \<or> length orders = 0
      then orders
      else compact (\<lambda>x. pair_IsEmpty cs (d_Pair x) \<or>
                        list_ex (\<lambda>y. EqualIncludeReciprocal (d_Pair x) y) pairs) 0 0 orders)"

text \<open>\<open>MultiOrderRequest.Filter\<close>: it works on a copy, and only logs an error of the time range.\<close>

definition request_Filter :: "store \<Rightarrow> time \<Rightarrow> multi_order_request \<Rightarrow> detail list \<Rightarrow> detail list"
where
  "request_Filter cs now g orders =
     (let filtered = orders;
          filtered = FilterOrdersByPairs cs filtered (g_Pairs g);
          filtered = FilterOrdersByType filtered (g_Type g);
          filtered = FilterOrdersBySide filtered (g_Side g);
          (filtered, err) = FilterOrdersByTimeRange now filtered (g_StartTime g) (g_EndTime g)
      in filtered)"

section \<open>Sorting\<close>

text \<open>\<open>sort.Reverse\<close> swaps the arguments of \<open>Less\<close>.  Strings are compared byte by byte.\<close>

definition go_sort :: "('a \<Rightarrow> 'a \<Rightarrow> bool) \<Rightarrow> bool \<Rightarrow> 'a list \<Rightarrow> 'a list" where
  "go_sort lt rvs xs = (if rvs then slice_sort (\<lambda>a b. lt b a) xs else slice_sort lt xs)"

definition ByPrice_Less :: "detail \<Rightarrow> detail \<Rightarrow> bool" where
  "ByPrice_Less a b \<longleftrightarrow> d_Price a < d_Price b"

definition ByOrderType_Less :: "detail \<Rightarrow> detail \<Rightarrow> bool" where
  "ByOrderType_Less a b \<longleftrightarrow> type_String (d_Type a) < type_String (d_Type b)"

definition ByCurrency_Less :: "store \<Rightarrow> detail \<Rightarrow> detail \<Rightarrow> bool" where
  "ByCurrency_Less cs a b \<longleftrightarrow> pair_String cs (d_Pair a) < pair_String cs (d_Pair b)"

definition ByDate_Less :: "detail \<Rightarrow> detail \<Rightarrow> bool" where
  "ByDate_Less a b \<longleftrightarrow> time_Unix (d_Date a) < time_Unix (d_Date b)"

definition ByOrderSide_Less :: "detail \<Rightarrow> detail \<Rightarrow> bool" where
  "ByOrderSide_Less a b \<longleftrightarrow> side_String (d_Side a) < side_String (d_Side b)"

definition SortOrdersByPrice :: "detail list \<Rightarrow> bool \<Rightarrow> detail list" where
  "SortOrdersByPrice orders rvs = go_sort ByPrice_Less rvs orders"

definition SortOrdersByType :: "detail list \<Rightarrow> bool \<Rightarrow> detail list" where
  "SortOrdersByType orders rvs = go_sort ByOrderType_Less rvs orders"

definition SortOrdersByCurrency :: "store \<Rightarrow> detail list \<Rightarrow> bool \<Rightarrow> detail list" where
  "SortOrdersByCurrency cs orders rvs = go_sort (ByCurrency_Less cs) rvs orders"

definition SortOrdersByDate :: "detail list \<Rightarrow> bool \<Rightarrow> detail list" where
  "SortOrdersByDate orders rvs = go_sort ByDate_Less rvs orders"

definition SortOrdersBySide :: "detail list \<Rightarrow> bool \<Rightarrow> detail list" where
  "SortOrdersBySide orders rvs = go_sort ByOrderSide_Less rvs orders"

section \<open>Lemmas on updates\<close>

lemma upd_Status [simp]:
  "(\<And>d. d_Status (f d) = d_Status d) \<Longrightarrow> d_Status (fst (upd c f s)) = d_Status (fst s)"
  by (simp add: upd_def)

lemma upd_Price [simp]:
  "(\<And>d. d_Price (f d) = d_Price d) \<Longrightarrow> d_Price (fst (upd c f s)) = d_Price (fst s)"
  by (simp add: upd_def)

lemma upd_Amount [simp]:
  "(\<And>d. d_Amount (f d) = d_Amount d) \<Longrightarrow> d_Amount (fst (upd c f s)) = d_Amount (fst s)"
  by (simp add: upd_def)

lemma upd_ExecutedAmount [simp]:
  "(\<And>d. d_ExecutedAmount (f d) = d_ExecutedAmount d) \<Longrightarrow> d_ExecutedAmount (fst (upd c f s)) = d_ExecutedAmount (fst s)"
  by (simp add: upd_def)

lemma upd_RemainingAmount [simp]:
  "(\<And>d. d_RemainingAmount (f d) = d_RemainingAmount d) \<Longrightarrow> d_RemainingAmount (fst (upd c f s)) = d_RemainingAmount (fst s)"
  by (simp add: upd_def)

lemma upd_OrderID [simp]:
  "(\<And>d. d_OrderID (f d) = d_OrderID d) \<Longrightarrow> d_OrderID (fst (upd c f s)) = d_OrderID (fst s)"
  by (simp add: upd_def)

lemma upd_Exchange [simp]:
  "(\<And>d. d_Exchange (f d) = d_Exchange d) \<Longrightarrow> d_Exchange (fst (upd c f s)) = d_Exchange (fst s)"
  by (simp add: upd_def)

lemma upd_InternalOrderID [simp]:
  "(\<And>d. d_InternalOrderID (f d) = d_InternalOrderID d) \<Longrightarrow> d_InternalOrderID (fst (upd c f s)) = d_InternalOrderID (fst s)"
  by (simp add: upd_def)

lemma upd_Trades [simp]:
  "(\<And>d. d_Trades (f d) = d_Trades d) \<Longrightarrow> d_Trades (fst (upd c f s)) = d_Trades (fst s)"
  by (simp add: upd_def)

lemma upd_LastUpdated [simp]:
  "(\<And>d. d_LastUpdated (f d) = d_LastUpdated d) \<Longrightarrow> d_LastUpdated (fst (upd c f s)) = d_LastUpdated (fst s)"
  by (simp add: upd_def)

lemma upd_Side [simp]:
  "(\<And>d. d_Side (f d) = d_Side d) \<Longrightarrow> d_Side (fst (upd c f s)) = d_Side (fst s)"
  by (simp add: upd_def)

lemma upd_Type [simp]:
  "(\<And>d. d_Type (f d) = d_Type d) \<Longrightarrow> d_Type (fst (upd c f s)) = d_Type (fst s)"
  by (simp add: upd_def)

lemma upd_hit: "fst (upd c f s) = (if c (fst s) then f (fst s) else fst s)"
  by (simp add: upd_def)

lemma snd_upd: "snd (upd c f s) \<longleftrightarrow> c (fst s) \<or> snd s"
  by (simp add: upd_def)

lemma merge_fields_simps [simp]:
  "d_OrderID (fst (merge_fields cs m d)) = d_OrderID d"
  "d_Exchange (fst (merge_fields cs m d)) = d_Exchange d"
  "d_InternalOrderID (fst (merge_fields cs m d)) = d_InternalOrderID d"
  "d_Trades (fst (merge_fields cs m d)) = d_Trades d"
  "d_LastUpdated (fst (merge_fields cs m d)) = d_LastUpdated d"
  "d_RemainingAmount (fst (merge_fields cs m d)) = d_RemainingAmount d"
  by (simp_all add: merge_fields_def Let_def)

lemma merge_fields_Status:
  "d_Status (fst (merge_fields cs m d)) =
     (if d_Status m \<noteq> UnknownStatus then d_Status m else d_Status d)"
  by (simp add: merge_fields_def Let_def upd_hit [of _ "\<lambda>d. d\<lparr>d_Status := x\<rparr>" for x])

lemma merge_fields_numbers:
  "d_Price (fst (merge_fields cs m d)) =
     (if 0 < d_Price m \<and> \<not> feq (d_Price m) (d_Price d) then d_Price m else d_Price d)"
  "d_Amount (fst (merge_fields cs m d)) =
     (if 0 < d_Amount m \<and> \<not> feq (d_Amount m) (d_Amount d) then d_Amount m else d_Amount d)"
  "d_ExecutedAmount (fst (merge_fields cs m d)) =
     (if 0 < d_ExecutedAmount m \<and> \<not> feq (d_ExecutedAmount m) (d_ExecutedAmount d)
      then d_ExecutedAmount m else d_ExecutedAmount d)"
  subgoal by (simp add: merge_fields_def Let_def upd_hit [of _ "\<lambda>d. d\<lparr>d_Price := x\<rparr>" for x])
  subgoal by (simp add: merge_fields_def Let_def upd_hit [of _ "\<lambda>d. d\<lparr>d_Amount := x\<rparr>" for x])
  subgoal by (simp add: merge_fields_def Let_def
        upd_hit [of _ "\<lambda>d. d\<lparr>d_ExecutedAmount := x\<rparr>" for x])
  done

lemma upd_TID: "(\<And>y. th_TID (f y) = th_TID y) \<Longrightarrow> th_TID (fst (upd c f s)) = th_TID (fst s)"
  by (simp add: upd_def)

lemma merge_trade_TID [simp]: "th_TID (fst (merge_trade x y)) = th_TID y"
  by (simp add: merge_trade_def Let_def upd_TID)

lemma upd_Fee:
  "(\<And>y. th_Fee (f y) = th_Fee y) \<Longrightarrow> th_Fee (fst (upd c f s)) = th_Fee (fst s)"
  "(\<And>y. th_Side (f y) = th_Side y) \<Longrightarrow> th_Side (fst (upd c f s)) = th_Side (fst s)"
  by (simp_all add: upd_def)

lemma map_TID_merge_into:
  "map th_TID (fst (merge_into x (ts, b))) =
     map th_TID ts @ (if th_TID x \<in> th_TID ` set ts then [] else [th_TID x])"
proof -
  have "map th_TID (map fst (map (\<lambda>y. if th_TID y \<noteq> th_TID x then (y, False) else merge_trade x y) ts))
      = map th_TID ts"
    by simp
  moreover have "list_ex (\<lambda>y. th_TID y = th_TID x) ts \<longleftrightarrow> th_TID x \<in> th_TID ` set ts"
    unfolding list_ex_iff image_iff by metis
  ultimately show ?thesis
    by (simp add: merge_into_def Let_def del: map_map)
qed

fun new_ids :: "string list \<Rightarrow> string list \<Rightarrow> string list" where
  "new_ids known [] = []"
| "new_ids known (x # xs) =
     (if x \<in> set known then new_ids known xs else x # new_ids (known @ [x]) xs)"

lemma fold_merge_into_TID:
  "map th_TID (fst (fold merge_into xs (ts, b))) =
     map th_TID ts @ new_ids (map th_TID ts) (map th_TID xs)"
proof (induction xs arbitrary: ts b)
  case (Cons x xs)
  obtain ts' b' where s: "merge_into x (ts, b) = (ts', b')" by fastforce
  have "map th_TID ts' = map th_TID ts @ (if th_TID x \<in> th_TID ` set ts then [] else [th_TID x])"
    using map_TID_merge_into [of x ts b] s by simp
  then show ?case using s Cons.IH [of ts' b'] by auto
qed simp

lemma new_ids_set: "set known \<union> set (new_ids known xs) = set known \<union> set xs"
  by (induction known xs rule: new_ids.induct) auto

lemma new_ids_distinct: "distinct (new_ids known xs) \<and> set known \<inter> set (new_ids known xs) = {}"
  by (induction known xs rule: new_ids.induct) auto

lemma UpdateOrderFromDetail_Some:
  "UpdateOrderFromDetail cs now (Some d) (Some m) =
     (let s0 = merge_fields cs m d;
          ts = fold merge_into (d_Trades m) (d_Trades d, snd s0);
          m' = m\<lparr>d_RemainingAmount := remaining_after (d_RemainingAmount m) (d_Trades m)\<rparr>;
          s = upd (\<lambda>d. 0 < d_RemainingAmount m' \<and>
                     \<not> feq (d_RemainingAmount m') (d_RemainingAmount d))
                (\<lambda>d. d\<lparr>d_RemainingAmount := d_RemainingAmount m'\<rparr>)
                ((fst s0)\<lparr>d_Trades := fst ts\<rparr>, snd ts)
      in (Some (fill_identity m' (set_updated_time now (d_LastUpdated m) s)), Some m', None))"
  by (simp add: UpdateOrderFromDetail_def Let_def case_prod_beta)

lemma finishing_simps [simp]:
  "d_Status (fill_identity m d) = d_Status d" "d_Price (fill_identity m d) = d_Price d"
  "d_Amount (fill_identity m d) = d_Amount d" "d_Trades (fill_identity m d) = d_Trades d"
  "d_ExecutedAmount (fill_identity m d) = d_ExecutedAmount d"
  "d_RemainingAmount (fill_identity m d) = d_RemainingAmount d"
  "d_LastUpdated (fill_identity m d) = d_LastUpdated d"
  "d_OrderID (fill_identity m d) = (if d_OrderID d = [] then d_OrderID m else d_OrderID d)"
  "d_Exchange (fill_identity m d) = (if d_Exchange d = [] then d_Exchange m else d_Exchange d)"
  "d_InternalOrderID (fill_identity m d) =
     (if uuid_IsNil (d_InternalOrderID d) then d_InternalOrderID m else d_InternalOrderID d)"
  by (simp_all add: fill_identity_def Let_def)

lemma updated_time_simps [simp]:
  "d_Status (set_updated_time now t s) = d_Status (fst s)"
  "d_Price (set_updated_time now t s) = d_Price (fst s)"
  "d_Amount (set_updated_time now t s) = d_Amount (fst s)"
  "d_Trades (set_updated_time now t s) = d_Trades (fst s)"
  "d_ExecutedAmount (set_updated_time now t s) = d_ExecutedAmount (fst s)"
  "d_RemainingAmount (set_updated_time now t s) = d_RemainingAmount (fst s)"
  "d_OrderID (set_updated_time now t s) = d_OrderID (fst s)"
  "d_Exchange (set_updated_time now t s) = d_Exchange (fst s)"
  "d_InternalOrderID (set_updated_time now t s) = d_InternalOrderID (fst s)"
  "d_LastUpdated (set_updated_time now t s) =
     (if snd s then (if d_LastUpdated (fst s) = t then now else t) else d_LastUpdated (fst s))"
  by (simp_all add: set_updated_time_def)

section \<open>Lemmas on filters and sorting\<close>

lemma compact_step:
  "compact keep i target xs =
     (if i < length xs
      then (if keep (xs ! i) then compact keep (Suc i) (Suc target) (xs[target := xs ! i])
            else compact keep (Suc i) target xs)
      else take target xs)"
  by (subst compact.simps) simp

lemma compact_drop:
  "target \<le> i \<Longrightarrow> compact keep i target xs = take target xs @ filter keep (drop i xs)"
proof (induction keep i target xs rule: compact.induct)
  case (1 keep i target xs)
  show ?case
  proof (cases "i < length xs")
    case True
    then have d: "drop i xs = xs ! i # drop (Suc i) xs" by (simp add: Cons_nth_drop_Suc)
    show ?thesis
    proof (cases "keep (xs ! i)")
      case k: True
      have "compact keep i target xs =
          take (Suc target) (xs[target := xs ! i]) @ filter keep (drop (Suc i) (xs[target := xs ! i]))"
        using 1 True k by (subst compact_step) simp
      also have "take (Suc target) (xs[target := xs ! i]) = take target xs @ [xs ! i]"
        using True 1(3) by (simp add: take_Suc_conv_app_nth)
      also have "drop (Suc i) (xs[target := xs ! i]) = drop (Suc i) xs"
        using 1(3) by simp
      finally show ?thesis using d k by simp
    next
      case False
      then show ?thesis using 1 True d by (subst compact_step) simp
    qed
  qed (subst compact_step, simp)
qed

lemma compact_filter: "compact keep 0 0 xs = filter keep xs"
  by (simp add: compact_drop)

lemma mset_go_sort [simp]: "mset (go_sort lt r xs) = mset xs"
  by (simp add: go_sort_def)

lemma weak_order_swap: "weak_order_on S lt \<Longrightarrow> weak_order_on S (\<lambda>a b. lt b a)"
  unfolding weak_order_on_def by blast

lemma go_sort_sorted:
  assumes "weak_order_on S lt" and "set xs \<subseteq> S"
  shows "sorted_wrt (\<lambda>a b. \<not> (if r then lt a b else lt b a)) (go_sort lt r xs)"
  using slice_sort_sorted [OF assms] slice_sort_sorted [OF weak_order_swap, OF assms]
  by (simp add: go_sort_def)

lemma weak_order_f64:
  "(\<And>x. x \<in> S \<Longrightarrow> g x \<noteq> NaN) \<Longrightarrow> weak_order_on S (\<lambda>a b. g a < (g b :: f64))"
  unfolding weak_order_on_def by (meson f64_less_asym f64_le_trans f64_not_less)

lemma weak_order_keys:
  "weak_order_on S ByOrderType_Less" "weak_order_on S (ByCurrency_Less cs)"
  "weak_order_on S ByDate_Less" "weak_order_on S ByOrderSide_Less"
  unfolding ByOrderType_Less_def [abs_def] ByCurrency_Less_def [abs_def] ByDate_Less_def [abs_def]
    ByOrderSide_Less_def [abs_def]
  by (rule weak_order_on_key)+

text \<open>The update reduces the remaining amount of the detail it is given by the amounts of its
  trades, each time it is applied, whether or not the order has those trades already.\<close>

lemma update_reduces_argument:
  "fst (snd (UpdateOrderFromDetail cs now (Some d) (Some m))) =
     Some (m\<lparr>d_RemainingAmount := remaining_after (d_RemainingAmount m) (d_Trades m)\<rparr>)"
  by (simp add: UpdateOrderFromDetail_Some Let_def)

text \<open>The filter of an order's own identifiers matches the order, and the empty filter every
  order.\<close>

definition empty_filter :: order_filter where
  "empty_filter =
     \<lparr>f_Exchange = [], f_InternalOrderID = 0, f_OrderID = [], f_ClientOrderID = [],
      f_AccountID = [], f_ClientID = [], f_WalletAddress = [], f_Type = UnknownType,
      f_Side = UnknownSide, f_Status = UnknownStatus, f_AssetType = Empty, f_Pair = EMPTYPAIR\<rparr>"

lemma pair_IsEmpty_EMPTYPAIR: "pair_IsEmpty cs EMPTYPAIR"
  by (simp add: pair_IsEmpty_def EMPTYPAIR_def EMPTYCODE_def code_IsEmpty_def)

section \<open>Properties\<close>

text \<open>Also: an order matches a filter exactly if every criterion that is set holds of
  it; the exchange name is compared without regard to case, \<open>Any\<close> values are no restriction.  The
  empty filter matches every order.\<close>

theorem filter_matches:
  "MatchFilter cs d empty_filter \<and>
   (MatchFilter cs d f \<longleftrightarrow>
      (f_Exchange f = [] \<or> EqualFold (d_Exchange d) (f_Exchange f)) \<and>
      f_AssetType f \<in> {Empty, d_AssetType d} \<and>
      (pair_IsEmpty cs (f_Pair f) \<or> pair_Equal (d_Pair d) (f_Pair f)) \<and>
      f_OrderID f \<in> {[], d_OrderID d} \<and>
      f_Type f \<in> {UnknownType, AnyType, d_Type d} \<and>
      f_Side f \<in> {UnknownSide, AnySide, d_Side d} \<and>
      f_Status f \<in> {UnknownStatus, AnyStatus, d_Status d} \<and>
      f_ClientOrderID f \<in> {[], d_ClientOrderID d} \<and> f_ClientID f \<in> {[], d_ClientID d} \<and>
      f_InternalOrderID f \<in> {0, d_InternalOrderID d} \<and> f_AccountID f \<in> {[], d_AccountID d} \<and>
      f_WalletAddress f \<in> {[], d_WalletAddress d})"
proof -
  have guard: "(if c then False else b) \<longleftrightarrow> \<not> c \<and> b" for c b by simp
  have "MatchFilter cs d empty_filter"
    by (simp add: MatchFilter_def uuid_IsNil_def empty_filter_def pair_IsEmpty_EMPTYPAIR)
  then show ?thesis
    unfolding MatchFilter_def guard uuid_IsNil_def
    by (simp only: simp_thms de_Morgan_conj not_not insert_iff empty_iff)
      (simp only: eq_commute [of "d_AssetType d"] eq_commute [of "d_OrderID d"]
        eq_commute [of "d_Type d"] eq_commute [of "d_Side d"] eq_commute [of "d_Status d"]
        eq_commute [of "d_ClientOrderID d"] eq_commute [of "d_ClientID d"]
        eq_commute [of "d_InternalOrderID d"] eq_commute [of "d_AccountID d"]
        eq_commute [of "d_WalletAddress d"])
qed

text \<open>Also: updating an order never changes its exchange, its order id or its internal
  id once set, takes over every status other than unknown (a closed order can be reopened by a
  late update), every price, amount and executed amount that is positive and different, and keeps
  the others; it stamps the order with the time of the update, or with the clock if that is the
  time it has already, exactly if it has a reason to.\<close>

theorem update_detail:
  "case UpdateOrderFromDetail cs now (Some d) (Some m) of (d_res, m_res, err) \<Rightarrow>
     err = None \<and>
     (case d_res of None \<Rightarrow> False | Some e \<Rightarrow>
        d_OrderID e = (if d_OrderID d = [] then d_OrderID m else d_OrderID d) \<and>
        d_Exchange e = (if d_Exchange d = [] then d_Exchange m else d_Exchange d) \<and>
        d_InternalOrderID e =
          (if uuid_IsNil (d_InternalOrderID d) then d_InternalOrderID m
           else d_InternalOrderID d) \<and>
        d_Status e = (if d_Status m \<noteq> UnknownStatus then d_Status m else d_Status d) \<and>
        d_Price e =
          (if 0 < d_Price m \<and> \<not> feq (d_Price m) (d_Price d) then d_Price m else d_Price d) \<and>
        d_Amount e =
          (if 0 < d_Amount m \<and> \<not> feq (d_Amount m) (d_Amount d) then d_Amount m
           else d_Amount d) \<and>
        d_ExecutedAmount e =
          (if 0 < d_ExecutedAmount m \<and> \<not> feq (d_ExecutedAmount m) (d_ExecutedAmount d)
           then d_ExecutedAmount m else d_ExecutedAmount d) \<and>
        d_LastUpdated e \<in> {d_LastUpdated d, d_LastUpdated m, now})"
proof -
  define s0 where "s0 = merge_fields cs m d"
  define ts where "ts = fold merge_into (d_Trades m) (d_Trades d, snd s0)"
  define m' where
    "m' = m\<lparr>d_RemainingAmount := remaining_after (d_RemainingAmount m) (d_Trades m)\<rparr>"
  define s where "s = upd (\<lambda>d. 0 < d_RemainingAmount m' \<and>
        \<not> feq (d_RemainingAmount m') (d_RemainingAmount d))
      (\<lambda>d. d\<lparr>d_RemainingAmount := d_RemainingAmount m'\<rparr>) ((fst s0)\<lparr>d_Trades := fst ts\<rparr>, snd ts)"
  have r: "UpdateOrderFromDetail cs now (Some d) (Some m) =
      (Some (fill_identity m' (set_updated_time now (d_LastUpdated m) s)), Some m', None)"
    unfolding UpdateOrderFromDetail_Some s0_def ts_def m'_def s_def Let_def ..
  have s: "d_OrderID (fst s) = d_OrderID (fst s0)" "d_Exchange (fst s) = d_Exchange (fst s0)"
    "d_InternalOrderID (fst s) = d_InternalOrderID (fst s0)"
    "d_Status (fst s) = d_Status (fst s0)" "d_Price (fst s) = d_Price (fst s0)"
    "d_Amount (fst s) = d_Amount (fst s0)" "d_ExecutedAmount (fst s) = d_ExecutedAmount (fst s0)"
    "d_LastUpdated (fst s) = d_LastUpdated (fst s0)"
    by (simp_all add: s_def)
  have m': "d_OrderID m' = d_OrderID m" "d_Exchange m' = d_Exchange m"
    "d_InternalOrderID m' = d_InternalOrderID m"
    by (simp_all add: m'_def)
  note f = s [unfolded s0_def merge_fields_simps merge_fields_Status merge_fields_numbers]
  have time: "(if snd s then (if d_LastUpdated d = d_LastUpdated m then now else d_LastUpdated m)
      else d_LastUpdated d) \<in> {d_LastUpdated d, d_LastUpdated m, now}"
    by simp
  show ?thesis
    unfolding r prod.case option.case finishing_simps updated_time_simps f m'
    using time by (intro conjI refl)
qed

text \<open>C14: updating an order loses none of its trades and adds every trade of the
  update that it does not have, once: its trades keep their order and ids, the new ids follow in
  the order of the update, the ids together are those of both, and no id occurs twice unless it
  did before.\<close>

theorem update_trades:
  "case UpdateOrderFromDetail cs now (Some d) (Some m) of (d_res, m_res, err) \<Rightarrow>
     (case d_res of None \<Rightarrow> False | Some e \<Rightarrow>
        map th_TID (d_Trades e) =
          map th_TID (d_Trades d) @ new_ids (map th_TID (d_Trades d)) (map th_TID (d_Trades m)) \<and>
        set (map th_TID (d_Trades e)) =
          set (map th_TID (d_Trades d)) \<union> set (map th_TID (d_Trades m)) \<and>
        distinct (map th_TID (d_Trades e)) = distinct (map th_TID (d_Trades d)))"
proof -
  let ?known = "map th_TID (d_Trades d)" and ?ids = "map th_TID (d_Trades m)"
  have ids: "map th_TID (fst (fold merge_into (d_Trades m) (d_Trades d, b))) =
      ?known @ new_ids ?known ?ids" for b
    by (rule fold_merge_into_TID)
  have trades: "\<exists>e. fst (UpdateOrderFromDetail cs now (Some d) (Some m)) = Some e \<and>
      map th_TID (d_Trades e) = ?known @ new_ids ?known ?ids"
    unfolding UpdateOrderFromDetail_Some Let_def using ids by simp
  then obtain e mo er where r: "UpdateOrderFromDetail cs now (Some d) (Some m) = (Some e, mo, er)"
    and e: "map th_TID (d_Trades e) = ?known @ new_ids ?known ?ids"
    by (metis prod.collapse)
  have "set (?known @ new_ids ?known ?ids) = set ?known \<union> set ?ids"
    using new_ids_set [of ?known ?ids] by (simp only: set_append)
  moreover have "distinct (?known @ new_ids ?known ?ids) = distinct ?known"
    using new_ids_distinct [of ?known ?ids] by (simp only: distinct_append simp_thms)
  ultimately show ?thesis
    unfolding r prod.case option.case e by blast
qed

text \<open>Also: filtering orders by a request, four in-place compactions one after the
  other, is one pass that keeps, in order, the orders whose pair matches in either direction or is
  not set, whose type and side are those asked for or unknown, and whose date, in whole seconds,
  lies in the time range or is not set.  A time range that is unset or rejected is no
  restriction.\<close>

theorem request_filter:
  "request_Filter cs now g orders =
     filter (\<lambda>x.
       (g_Pairs g = [] \<or> (length (g_Pairs g) = 1 \<and> pair_IsEmpty cs (g_Pairs g ! 0)) \<or>
        pair_IsEmpty cs (d_Pair x) \<or> list_ex (EqualIncludeReciprocal (d_Pair x)) (g_Pairs g)) \<and>
       (g_Type g = AnyType \<or> d_Type x \<in> {UnknownType, g_Type g}) \<and>
       (g_Side g = AnySide \<or> d_Side x \<in> {UnknownSide, g_Side g}) \<and>
       (case StartEndTimeCheck now (g_StartTime g) (g_EndTime g) of
          Some _ \<Rightarrow> True
        | None \<Rightarrow> IsZero (d_Date x) \<or>
            time_Unix (d_Date x) \<in> {time_Unix (g_StartTime g) .. time_Unix (g_EndTime g)})) orders"
proof -
  let ?p = "\<lambda>x. g_Pairs g = [] \<or> (length (g_Pairs g) = 1 \<and> pair_IsEmpty cs (g_Pairs g ! 0)) \<or>
      pair_IsEmpty cs (d_Pair x) \<or> list_ex (EqualIncludeReciprocal (d_Pair x)) (g_Pairs g)"
  let ?t = "\<lambda>x. g_Type g = AnyType \<or> d_Type x \<in> {UnknownType, g_Type g}"
  let ?s = "\<lambda>x. g_Side g = AnySide \<or> d_Side x \<in> {UnknownSide, g_Side g}"
  let ?d = "\<lambda>x. StartEndTimeCheck now (g_StartTime g) (g_EndTime g) \<noteq> None \<or> IsZero (d_Date x) \<or>
      time_Unix (d_Date x) \<in> {time_Unix (g_StartTime g) .. time_Unix (g_EndTime g)}"
  have p: "FilterOrdersByPairs cs xs (g_Pairs g) = filter ?p xs" for xs
    by (auto simp: FilterOrdersByPairs_def compact_filter intro!: filter_cong)
  have t: "FilterOrdersByType xs (g_Type g) = filter ?t xs" for xs
    by (auto simp: FilterOrdersByType_def compact_filter intro!: filter_cong)
  have s: "FilterOrdersBySide xs (g_Side g) = filter ?s xs" for xs
    by (auto simp: FilterOrdersBySide_def compact_filter intro!: filter_cong)
  have d: "fst (FilterOrdersByTimeRange now xs (g_StartTime g) (g_EndTime g)) = filter ?d xs" for xs
    by (auto simp: FilterOrdersByTimeRange_def compact_filter intro!: filter_cong
        split: option.split)
  have "request_Filter cs now g orders = filter ?d (filter ?s (filter ?t (filter ?p orders)))"
    unfolding request_Filter_def Let_def p t s by (simp add: case_prod_beta d)
  then show ?thesis
    by (cases "StartEndTimeCheck now (g_StartTime g) (g_EndTime g)") (simp_all add: conj_ac cong: filter_cong)
qed

text \<open>Also: each of the five sorts permutes the orders and leaves no order before one
  that should precede it: by price (for prices that are numbers), type name, pair name, second of
  the date, and side name, in ascending or in reversed order.\<close>

theorem orders_sorted:
  assumes "\<And>x. x \<in> set orders \<Longrightarrow> d_Price x \<noteq> NaN"
  shows "mset (SortOrdersByPrice orders r) = mset orders \<and>
    sorted_wrt (\<lambda>a b. \<not> (if r then d_Price a < d_Price b else d_Price b < d_Price a))
      (SortOrdersByPrice orders r) \<and>
    sorted_wrt (\<lambda>a b. if r then type_String (d_Type b) \<le> type_String (d_Type a)
                      else type_String (d_Type a) \<le> type_String (d_Type b))
      (SortOrdersByType orders r) \<and> mset (SortOrdersByType orders r) = mset orders \<and>
    sorted_wrt (\<lambda>a b. if r then time_Unix (d_Date b) \<le> time_Unix (d_Date a)
                      else time_Unix (d_Date a) \<le> time_Unix (d_Date b))
      (SortOrdersByDate orders r) \<and> mset (SortOrdersByDate orders r) = mset orders \<and>
    sorted_wrt (\<lambda>a b. if r then side_String (d_Side b) \<le> side_String (d_Side a)
                      else side_String (d_Side a) \<le> side_String (d_Side b))
      (SortOrdersBySide orders r) \<and> mset (SortOrdersBySide orders r) = mset orders \<and>
    sorted_wrt (\<lambda>a b. if r then pair_String cs (d_Pair b) \<le> pair_String cs (d_Pair a)
                      else pair_String cs (d_Pair a) \<le> pair_String cs (d_Pair b))
      (SortOrdersByCurrency cs orders r) \<and> mset (SortOrdersByCurrency cs orders r) = mset orders"
proof -
  have price: "weak_order_on (set orders) ByPrice_Less"
    unfolding ByPrice_Less_def [abs_def] by (rule weak_order_f64) (rule assms)
  note sorted = go_sort_sorted [OF price subset_refl, where r = r]
    go_sort_sorted [OF weak_order_keys(1) subset_refl, where xs = orders and r = r]
    go_sort_sorted [OF weak_order_keys(2) subset_refl, where xs = orders and r = r]
    go_sort_sorted [OF weak_order_keys(3) subset_refl, where xs = orders and r = r]
    go_sort_sorted [OF weak_order_keys(4) subset_refl, where xs = orders and r = r]
  show ?thesis
    using sorted
    by (cases r) (simp_all add: SortOrdersByPrice_def SortOrdersByType_def SortOrdersByDate_def
        SortOrdersBySide_def SortOrdersByCurrency_def ByPrice_Less_def ByOrderType_Less_def
        ByCurrency_Less_def ByDate_Less_def ByOrderSide_Less_def not_less)
qed

theorem orders_sorted_witness:
  "mset (SortOrdersByPrice [demo_detail, demo_detail\<lparr>d_Price := Fin 1\<rparr>] True) =
     mset [demo_detail, demo_detail\<lparr>d_Price := Fin 1\<rparr>]"
proof -
  have "d_Price demo_detail = Fin 100"
    by (simp add: demo_detail_def DeriveSubmitResponse_def DeriveDetail_def demo_submit_def
        zero_f64_def order_type_consts)
  then have "d_Price x \<noteq> NaN" if "x \<in> set [demo_detail, demo_detail\<lparr>d_Price := Fin 1\<rparr>]" for x
    using that by auto
  then show ?thesis by (rule orders_sorted [THEN conjunct1])
qed

end
