(* ===== verification/Order_Limits.thy ===== *)
theory Order_Limits
  imports Order
begin

text \<open>
  Exchange execution limits (\<open>exchanges/order/limits.go\<close>): the three-level map from asset, base and
  quote to the limits of a pair, loading and reading it, checking an order against a limit, and
  rounding an amount down to its step.  The nil map before the first load is \<open>None\<close>; currencies are
  keyed by the address of their registry item.  The decimal numbers are those of
  \<open>shopspring/decimal\<close>, a parameter \<open>decimal_ops\<close> of what computes with them; \<open>decimal_laws\<close>
  states its documented behaviour with respect to the rationals they denote.  (\<open>NewFromFloat\<close> panics
  on a NaN or an infinity, which no parameter value here shows.)
\<close>

section \<open>Data\<close>

record min_max_level =
  l_Pair :: pair
  l_Asset :: asset_item
  MinPrice :: f64
  MaxPrice :: f64
  PriceStepIncrementSize :: f64
  MultiplierUp :: f64
  MultiplierDown :: f64
  MultiplierDecimal :: f64
  AveragePriceMinutes :: "64 word"
  MinimumBaseAmount :: f64
  MaximumBaseAmount :: f64
  MinimumQuoteAmount :: f64
  MaximumQuoteAmount :: f64
  AmountStepIncrementSize :: f64
  QuoteStepIncrementSize :: f64
  MinNotional :: f64
  MaxIcebergParts :: "64 word"
  MarketMinQty :: f64
  MarketMaxQty :: f64
  MarketStepIncrementSize :: f64
  MaxTotalOrders :: "64 word"
  MaxAlgoOrders :: "64 word"

type_synonym quote_limits = "item_ptr option \<Rightarrow> min_max_level option"
type_synonym base_limits = "item_ptr option \<Rightarrow> quote_limits option"
type_synonym asset_limits = "asset_item \<Rightarrow> base_limits option"
type_synonym execution_limits = "asset_limits option"

record 'd decimal_ops =
  NewFromFloat :: "f64 \<Rightarrow> 'd"
  dec_Sub :: "'d \<Rightarrow> 'd \<Rightarrow> 'd"
  dec_Mod :: "'d \<Rightarrow> 'd \<Rightarrow> 'd"
  dec_IsZero :: "'d \<Rightarrow> bool"
  dec_Equal :: "'d \<Rightarrow> 'd \<Rightarrow> bool"
  dec_LessThan :: "'d \<Rightarrow> 'd \<Rightarrow> bool"
  dec_Zero :: 'd
  InexactFloat64 :: "'d \<Rightarrow> f64"

definition ErrExchangeLimitNotLoaded :: go_error where
  "ErrExchangeLimitNotLoaded = Sentinel ''order.ErrExchangeLimitNotLoaded''"
definition ErrPriceBelowMin :: go_error where
  "ErrPriceBelowMin = Sentinel ''order.ErrPriceBelowMin''"
definition ErrPriceExceedsMax :: go_error where
  "ErrPriceExceedsMax = Sentinel ''order.ErrPriceExceedsMax''"
definition ErrPriceExceedsStep :: go_error where
  "ErrPriceExceedsStep = Sentinel ''order.ErrPriceExceedsStep''"
definition ErrAmountBelowMin :: go_error where
  "ErrAmountBelowMin = Sentinel ''order.ErrAmountBelowMin''"
definition ErrAmountExceedsMax :: go_error where
  "ErrAmountExceedsMax = Sentinel ''order.ErrAmountExceedsMax''"
definition ErrAmountExceedsStep :: go_error where
  "ErrAmountExceedsStep = Sentinel ''order.ErrAmountExceedsStep''"
definition ErrNotionalValue :: go_error where
  "ErrNotionalValue = Sentinel ''order.ErrNotionalValue''"
definition ErrMarketAmountBelowMin :: go_error where
  "ErrMarketAmountBelowMin = Sentinel ''order.ErrMarketAmountBelowMin''"
definition ErrMarketAmountExceedsMax :: go_error where
  "ErrMarketAmountExceedsMax = Sentinel ''order.ErrMarketAmountExceedsMax''"
definition ErrMarketAmountExceedsStep :: go_error where
  "ErrMarketAmountExceedsStep = Sentinel ''order.ErrMarketAmountExceedsStep''"
definition ErrCannotValidateAsset :: go_error where
  "ErrCannotValidateAsset = Sentinel ''order.ErrCannotValidateAsset''"
definition ErrCannotValidateBaseCurrency :: go_error where
  "ErrCannotValidateBaseCurrency = Sentinel ''order.ErrCannotValidateBaseCurrency''"
definition ErrCannotValidateQuoteCurrency :: go_error where
  "ErrCannotValidateQuoteCurrency = Sentinel ''order.ErrCannotValidateQuoteCurrency''"
definition errExchangeLimitBase :: go_error where
  "errExchangeLimitBase = Sentinel ''order.errExchangeLimitBase''"
definition errExchangeLimitQuote :: go_error where
  "errExchangeLimitQuote = Sentinel ''order.errExchangeLimitQuote''"
definition errCannotLoadLimit :: go_error where
  "errCannotLoadLimit = Sentinel ''order.errCannotLoadLimit''"
definition errInvalidPriceLevels :: go_error where
  "errInvalidPriceLevels = Sentinel ''order.errInvalidPriceLevels''"
definition errInvalidAmountLevels :: go_error where
  "errInvalidAmountLevels = Sentinel ''order.errInvalidAmountLevels''"
definition errInvalidQuoteLevels :: go_error where
  "errInvalidQuoteLevels = Sentinel ''order.errInvalidQuoteLevels''"

section \<open>Loading and reading\<close>

text \<open>The three range checks of a level, in the order of the code.\<close>

definition level_error :: "min_max_level \<Rightarrow> go_error option" where
  "level_error l =
     (if 0 < MinPrice l \<and> 0 < MaxPrice l \<and> MaxPrice l < MinPrice l
        then Some (Errorf ''%w for %s %s supplied min: %f max: %f'' [errInvalidPriceLevels])
      else if 0 < MinimumBaseAmount l \<and> 0 < MaximumBaseAmount l \<and>
          MaximumBaseAmount l < MinimumBaseAmount l
        then Some (Errorf ''%w for %s %s supplied min: %f max: %f'' [errInvalidAmountLevels])
      else if 0 < MinimumQuoteAmount l \<and> 0 < MaximumQuoteAmount l \<and>
          MaximumQuoteAmount l < MinimumQuoteAmount l
        then Some (Errorf ''%w for %s %s supplied min: %f max: %f'' [errInvalidQuoteLevels])
      else None)"

text \<open>One turn of the loop.  The maps of the asset and of the base are made before the checks
  that may still fail.\<close>

definition load_level ::
    "store \<Rightarrow> asset_limits \<Rightarrow> min_max_level \<Rightarrow> asset_limits \<times> go_error option" where
  "load_level cs m l =
     (if \<not> asset_IsValid (l_Asset l)
      then (m, Some (Errorf ''cannot load levels for '%s': %w'' [asset_ErrNotSupported]))
      else
        let m1 = (case m (l_Asset l) of None \<Rightarrow> Map.empty | Some m1 \<Rightarrow> m1);
            m = m(l_Asset l \<mapsto> m1)
        in if pair_IsEmpty cs (l_Pair l) then (m, Some ErrCurrencyPairEmpty)
           else
             let m2 = (case m1 (Item (Base (l_Pair l))) of None \<Rightarrow> Map.empty | Some m2 \<Rightarrow> m2);
                 m1 = m1(Item (Base (l_Pair l)) \<mapsto> m2);
                 m = m(l_Asset l \<mapsto> m1)
             in (case level_error l of
                   Some err \<Rightarrow> (m, Some err)
                 | None \<Rightarrow>
                     (m(l_Asset l \<mapsto> m1(Item (Base (l_Pair l)) \<mapsto> m2(Item (Quote (l_Pair l)) \<mapsto> l))),
                      None)))"

fun load_levels ::
    "store \<Rightarrow> asset_limits \<Rightarrow> min_max_level list \<Rightarrow> asset_limits \<times> go_error option" where
  "load_levels cs m [] = (m, None)"
| "load_levels cs m (l # ls) =
     (case load_level cs m l of
        (m', Some err) \<Rightarrow> (m', Some err)
      | (m', None) \<Rightarrow> load_levels cs m' ls)"

definition LoadLimits ::
    "store \<Rightarrow> execution_limits \<Rightarrow> min_max_level list \<Rightarrow> execution_limits \<times> go_error option" where
  "LoadLimits cs e levels =
     (if length levels = 0 then (e, Some errCannotLoadLimit)
      else
        let m = (case e of None \<Rightarrow> Map.empty | Some m \<Rightarrow> m);
            (m, err) = load_levels cs m levels
        in (Some m, err))"

definition GetOrderExecutionLimits ::
    "execution_limits \<Rightarrow> asset_item \<Rightarrow> pair \<Rightarrow> min_max_level go_result" where
  "GetOrderExecutionLimits e a cp =
     (case e of
        None \<Rightarrow> Inl ErrExchangeLimitNotLoaded
      | Some m \<Rightarrow>
          (case m a of
             None \<Rightarrow> Inl (Errorf ''%w %v'' [ErrCannotValidateAsset])
           | Some m1 \<Rightarrow>
               (case m1 (Item (Base cp)) of
                  None \<Rightarrow> Inl (Errorf ''%w %v'' [errExchangeLimitBase])
                | Some m2 \<Rightarrow>
                    (case m2 (Item (Quote cp)) of
                       None \<Rightarrow> Inl (Errorf ''%w %v'' [errExchangeLimitQuote])
                     | Some limit \<Rightarrow> Inr limit))))"

section \<open>Checking\<close>

definition Conforms ::
    "'d decimal_ops \<Rightarrow> min_max_level option \<Rightarrow> f64 \<Rightarrow> f64 \<Rightarrow> order_type \<Rightarrow> go_error option" where
  "Conforms dec mo price amount orderType =
     (case mo of
        None \<Rightarrow> None
      | Some m \<Rightarrow>
          if \<not> feq (MinimumBaseAmount m) 0 \<and> amount < MinimumBaseAmount m
            then Some (Errorf ''%w min: %.8f supplied %.8f'' [ErrAmountBelowMin])
          else if \<not> feq (MaximumBaseAmount m) 0 \<and> MaximumBaseAmount m < amount
            then Some (Errorf ''%w min: %.8f supplied %.8f'' [ErrAmountExceedsMax])
          else if \<not> feq (AmountStepIncrementSize m) 0 \<and>
              \<not> dec_IsZero dec (dec_Mod dec (NewFromFloat dec amount)
                   (NewFromFloat dec (AmountStepIncrementSize m)))
            then Some (Errorf ''%w stepSize: %.8f supplied %.8f'' [ErrAmountExceedsStep])
          else if orderType \<noteq> Market then
            (if \<not> feq (MinPrice m) 0 \<and> price < MinPrice m
               then Some (Errorf ''%w min: %.8f supplied %.8f'' [ErrPriceBelowMin])
             else if \<not> feq (MaxPrice m) 0 \<and> MaxPrice m < price
               then Some (Errorf ''%w max: %.8f supplied %.8f'' [ErrPriceExceedsMax])
             else if \<not> feq (MinNotional m) 0 \<and> amount * price < MinNotional m
               then Some (Errorf ''%w minimum notional: %.8f value of order %.8f'' [ErrNotionalValue])
             else if \<not> feq (PriceStepIncrementSize m) 0 \<and>
                 \<not> dec_IsZero dec (dec_Mod dec
                      (dec_Sub dec (NewFromFloat dec price) (NewFromFloat dec (MinPrice m)))
                      (NewFromFloat dec (PriceStepIncrementSize m)))
               then Some (Errorf ''%w stepSize: %.8f supplied %.8f'' [ErrPriceExceedsStep])
             else None)
          else if \<not> feq (MarketMinQty m) 0 \<and> MinimumBaseAmount m < MarketMinQty m \<and>
              amount < MarketMinQty m
            then Some (Errorf ''%w min: %.8f supplied %.8f'' [ErrMarketAmountBelowMin])
          else if \<not> feq (MarketMaxQty m) 0 \<and> MarketMaxQty m < MaximumBaseAmount m \<and>
              MarketMaxQty m < amount
            then Some (Errorf ''%w max: %.8f supplied %.8f'' [ErrMarketAmountExceedsMax])
          else if \<not> feq (MarketStepIncrementSize m) 0 \<and>
              \<not> feq (AmountStepIncrementSize m) (MarketStepIncrementSize m) \<and>
              \<not> dec_IsZero dec (dec_Mod dec
                   (dec_Sub dec (NewFromFloat dec amount) (NewFromFloat dec (MarketMinQty m)))
                   (NewFromFloat dec (MarketStepIncrementSize m)))
            then Some (Errorf ''%w stepSize: %.8f supplied %.8f'' [ErrMarketAmountExceedsStep])
          else None)"

definition CheckOrderExecutionLimits ::
    "'d decimal_ops \<Rightarrow> execution_limits \<Rightarrow> asset_item \<Rightarrow> pair \<Rightarrow> f64 \<Rightarrow> f64 \<Rightarrow> order_type \<Rightarrow>
     go_error option" where
  "CheckOrderExecutionLimits dec e a cp price amount orderType =
     (case e of
        None \<Rightarrow> None
      | Some m \<Rightarrow>
          (case m a of
             None \<Rightarrow> Some ErrCannotValidateAsset
           | Some m1 \<Rightarrow>
               (case m1 (Item (Base cp)) of
                  None \<Rightarrow> Some ErrCannotValidateBaseCurrency
                | Some m2 \<Rightarrow>
                    (case m2 (Item (Quote cp)) of
                       None \<Rightarrow> Some ErrCannotValidateQuoteCurrency
                     | Some limit \<Rightarrow>
                         (case Conforms dec (Some limit) price amount orderType of
                            Some err \<Rightarrow> Some (Errorf ''%w for %s %s'' [err])
                          | None \<Rightarrow> None)))))"

section \<open>Rounding to the step\<close>

definition ConformToDecimalAmount ::
    "'d decimal_ops \<Rightarrow> min_max_level option \<Rightarrow> 'd \<Rightarrow> 'd" where
  "ConformToDecimalAmount dec mo amount =
     (case mo of
        None \<Rightarrow> amount
      | Some m \<Rightarrow>
          let dStep = NewFromFloat dec (AmountStepIncrementSize m)
          in if dec_IsZero dec dStep \<or> dec_Equal dec amount dStep then amount
             else if dec_LessThan dec amount dStep then dec_Zero dec
             else dec_Sub dec amount (dec_Mod dec amount dStep))"

definition ConformToAmount :: "'d decimal_ops \<Rightarrow> min_max_level option \<Rightarrow> f64 \<Rightarrow> f64" where
  "ConformToAmount dec mo amount =
     (case mo of
        None \<Rightarrow> amount
      | Some m \<Rightarrow>
          if feq (AmountStepIncrementSize m) 0 \<or> feq amount (AmountStepIncrementSize m) then amount
          else if amount < AmountStepIncrementSize m then 0
          else
            let dAmount = NewFromFloat dec amount;
                dStep = NewFromFloat dec (AmountStepIncrementSize m)
            in InexactFloat64 dec (dec_Sub dec dAmount (dec_Mod dec dAmount dStep)))"

section \<open>Lemmas on the map\<close>

definition limit_at :: "asset_limits \<Rightarrow> asset_item \<Rightarrow> pair \<Rightarrow> min_max_level option" where
  "limit_at m a cp =
     (case m a of None \<Rightarrow> None
      | Some m1 \<Rightarrow> (case m1 (Item (Base cp)) of None \<Rightarrow> None | Some m2 \<Rightarrow> m2 (Item (Quote cp))))"

definition limits_of :: "execution_limits \<Rightarrow> asset_limits" where
  "limits_of e = (case e of None \<Rightarrow> Map.empty | Some m \<Rightarrow> m)"

definition level_for :: "asset_item \<Rightarrow> pair \<Rightarrow> min_max_level \<Rightarrow> bool" where
  "level_for a cp l \<longleftrightarrow>
     l_Asset l = a \<and> Item (Base (l_Pair l)) = Item (Base cp) \<and>
     Item (Quote (l_Pair l)) = Item (Quote cp)"

lemma GetOrderExecutionLimits_Inr:
  "GetOrderExecutionLimits e a cp = Inr l \<longleftrightarrow> limit_at (limits_of e) a cp = Some l"
  by (simp add: GetOrderExecutionLimits_def limit_at_def limits_of_def split: option.split)

lemma limit_at_load_level:
  assumes "load_level cs m l = (m', err)"
  shows "limit_at m' a cp =
    (if err = None \<and> level_for a cp l then Some l else limit_at m a cp)"
proof -
  have split: "limit_at m' a cp = (if err = None \<and> l_Asset l = a \<and>
      Item (Base (l_Pair l)) = Item (Base cp) \<and> Item (Quote (l_Pair l)) = Item (Quote cp)
      then Some l else limit_at m a cp)"
    using assms
    by (cases "m (l_Asset l)")
      (auto simp: load_level_def Let_def limit_at_def split: if_split_asm option.split_asm)
  then show ?thesis by (simp add: level_for_def)
qed

lemma load_level_ok:
  "load_level cs m l = (m', None) \<Longrightarrow>
     asset_IsValid (l_Asset l) \<and> \<not> pair_IsEmpty cs (l_Pair l) \<and> level_error l = None"
  by (auto simp: load_level_def Let_def split: if_split_asm option.split_asm)

lemma limit_at_load_levels:
  "load_levels cs m ls = (m', None) \<Longrightarrow>
     limit_at m' a cp =
       (case find (level_for a cp) (rev ls) of Some l \<Rightarrow> Some l | None \<Rightarrow> limit_at m a cp)"
proof (induction ls arbitrary: m)
  case (Cons l ls)
  obtain m1 where s: "load_level cs m l = (m1, None)" and r: "load_levels cs m1 ls = (m', None)"
    using Cons.prems by (auto split: prod.split_asm option.split_asm)
  have find_snoc: "find P (xs @ [x]) =
      (case find P xs of Some y \<Rightarrow> Some y | None \<Rightarrow> if P x then Some x else None)" for P xs x
    by (induction xs) auto
  show ?case
    using Cons.IH [OF r] limit_at_load_level [OF s]
    by (auto simp: find_snoc split: option.split)
qed simp

text \<open>Every stored level stands under its own asset and currencies, and its ranges are not
  inverted.\<close>

definition limits_ok :: "asset_limits \<Rightarrow> bool" where
  "limits_ok m \<longleftrightarrow>
     (\<forall>a cp l. limit_at m a cp = Some l \<longrightarrow>
        level_for a cp l \<and> asset_IsValid a \<and> level_error l = None)"

lemma limits_ok_load_levels:
  "limits_ok m \<Longrightarrow> load_levels cs m ls = (m', err) \<Longrightarrow> limits_ok m'"
proof (induction ls arbitrary: m)
  case (Cons l ls)
  obtain m1 e1 where s: "load_level cs m l = (m1, e1)" by fastforce
  have ok: "limits_ok m1"
    using Cons.prems(1) load_level_ok [of cs m l m1] s
    unfolding limits_ok_def limit_at_load_level [OF s]
    by (auto simp: level_for_def split: if_split_asm)
  show ?case
  proof (cases e1)
    case None
    then show ?thesis using Cons.IH [OF ok] Cons.prems(2) s by simp
  next
    case (Some x)
    then show ?thesis using ok Cons.prems(2) s by simp
  qed
qed simp

section \<open>Decimal arithmetic\<close>

definition truncated :: "rat \<Rightarrow> int" where
  "truncated q = (if 0 \<le> q then \<lfloor>q\<rfloor> else \<lceil>q\<rceil>)"

definition decimal_laws :: "'d decimal_ops \<Rightarrow> ('d \<Rightarrow> rat) \<Rightarrow> bool" where
  "decimal_laws dec val \<longleftrightarrow>
     (\<forall>a b. val (dec_Sub dec a b) = val a - val b) \<and>
     (\<forall>a b. val b \<noteq> 0 \<longrightarrow>
        val (dec_Mod dec a b) = val a - val b * of_int (truncated (val a / val b))) \<and>
     (\<forall>a. dec_IsZero dec a = (val a = 0)) \<and>
     (\<forall>a b. dec_Equal dec a b = (val a = val b)) \<and>
     (\<forall>a b. dec_LessThan dec a b = (val a < val b)) \<and>
     val (dec_Zero dec) = 0"

definition rat_decimal :: "rat decimal_ops" where
  "rat_decimal =
     \<lparr>NewFromFloat = fval, dec_Sub = (-),
      dec_Mod = (\<lambda>a b. a - b * of_int (truncated (a / b))),
      dec_IsZero = (\<lambda>a. a = 0), dec_Equal = (=), dec_LessThan = (<), dec_Zero = 0,
      InexactFloat64 = fround False\<rparr>"

lemma rat_decimal_laws: "decimal_laws rat_decimal id"
  by (simp add: decimal_laws_def rat_decimal_def)

lemma floor_step:
  assumes "0 < (s :: rat)" and "0 \<le> a"
  shows "0 \<le> s * of_int \<lfloor>a / s\<rfloor>" "s * of_int \<lfloor>a / s\<rfloor> \<le> a" "a - s * of_int \<lfloor>a / s\<rfloor> < s"
    "truncated (a / s) = \<lfloor>a / s\<rfloor>" "truncated (of_int \<lfloor>a / s\<rfloor>) = \<lfloor>a / s\<rfloor>"
proof -
  have q: "of_int \<lfloor>a / s\<rfloor> \<le> a / s" "a / s < of_int \<lfloor>a / s\<rfloor> + 1" "0 \<le> a / s"
    using assms floor_correct [of "a / s"] by (auto simp: divide_nonneg_pos)
  show "0 \<le> s * of_int \<lfloor>a / s\<rfloor>" using q(3) assms(1) by simp
  show "s * of_int \<lfloor>a / s\<rfloor> \<le> a"
    using mult_left_mono [OF q(1), of s] assms(1) by simp
  have "s * (a / s) < s * (of_int \<lfloor>a / s\<rfloor> + 1)"
    using q(2) assms(1) by (rule mult_strict_left_mono)
  then show "a - s * of_int \<lfloor>a / s\<rfloor> < s" using assms(1) by (simp add: algebra_simps)
  show "truncated (a / s) = \<lfloor>a / s\<rfloor>" "truncated (of_int \<lfloor>a / s\<rfloor>) = \<lfloor>a / s\<rfloor>"
    using q(3) by (simp_all add: truncated_def)
qed

section \<open>Lemmas on the check\<close>

lemma pos_not_zero: "(0 :: f64) < x \<Longrightarrow> \<not> feq x 0"
  using f64_less_not_feq [of 0 x] feq_sym by blast

lemma Conforms_base:
  assumes "Conforms dec (Some l) price amount ot = None"
  shows "\<not> (\<not> feq (MinimumBaseAmount l) 0 \<and> amount < MinimumBaseAmount l)"
    "\<not> (\<not> feq (MaximumBaseAmount l) 0 \<and> MaximumBaseAmount l < amount)"
  using assms unfolding Conforms_def option.case by (auto split: if_split_asm)

lemma Conforms_limit:
  assumes "Conforms dec (Some l) price amount ot = None" and "ot \<noteq> Market"
  shows "\<not> (\<not> feq (MinPrice l) 0 \<and> price < MinPrice l)"
    "\<not> (\<not> feq (MaxPrice l) 0 \<and> MaxPrice l < price)"
    "\<not> (\<not> feq (MinNotional l) 0 \<and> amount * price < MinNotional l)"
  using assms unfolding Conforms_def option.case by (auto split: if_split_asm)

lemma Conforms_market:
  assumes "Conforms dec (Some l) price amount ot = None" and "ot = Market"
  shows "\<not> (\<not> feq (MarketMinQty l) 0 \<and> MinimumBaseAmount l < MarketMinQty l \<and>
      amount < MarketMinQty l)"
    "\<not> (\<not> feq (MarketMaxQty l) 0 \<and> MarketMaxQty l < MaximumBaseAmount l \<and>
      MarketMaxQty l < amount)"
  using assms unfolding Conforms_def option.case by (auto split: if_split_asm)

text \<open>A number fits a step that is set if it is a whole multiple of it, as decimals.\<close>

definition on_step :: "'d decimal_ops \<Rightarrow> ('d \<Rightarrow> rat) \<Rightarrow> f64 \<Rightarrow> 'd \<Rightarrow> bool" where
  "on_step dec val step x \<longleftrightarrow>
     feq step 0 \<or> val (NewFromFloat dec step) = 0 \<or>
     (\<exists>k::int. val x = val (NewFromFloat dec step) * of_int k)"

lemma on_step_Mod:
  assumes "decimal_laws dec val"
    and "\<not> (\<not> feq step 0 \<and> \<not> dec_IsZero dec (dec_Mod dec x (NewFromFloat dec step)))"
  shows "on_step dec val step x"
  using assms unfolding on_step_def decimal_laws_def by force

lemma Conforms_steps:
  assumes "Conforms dec (Some l) price amount ot = None" and "decimal_laws dec val"
  shows "on_step dec val (AmountStepIncrementSize l) (NewFromFloat dec amount)"
    and "ot \<noteq> Market \<Longrightarrow> on_step dec val (PriceStepIncrementSize l)
      (dec_Sub dec (NewFromFloat dec price) (NewFromFloat dec (MinPrice l)))"
    and "ot = Market \<Longrightarrow> \<not> feq (AmountStepIncrementSize l) (MarketStepIncrementSize l) \<Longrightarrow>
      on_step dec val (MarketStepIncrementSize l)
        (dec_Sub dec (NewFromFloat dec amount) (NewFromFloat dec (MarketMinQty l)))"
  using assms(1) unfolding Conforms_def option.case
  by (auto intro!: on_step_Mod [OF assms(2)] split: if_split_asm)

text \<open>Without a general maximum the market maximum is not looked at: no amount is above it.\<close>

lemma market_maximum_ignored:
  assumes "feq (MaximumBaseAmount l) 0" and "0 < MarketMaxQty l"
  shows "Conforms dec (Some l) price amount Market =
    Conforms dec (Some (l\<lparr>MarketMaxQty := 0\<rparr>)) price amount Market"
proof -
  have "\<not> MarketMaxQty l < MaximumBaseAmount l"
    using assms(1,2) f64_less_trans feq_zero_cmp(2) by blast
  then show ?thesis by (simp add: Conforms_def)
qed

section \<open>Properties\<close>

text \<open>Also: after a load that reports no error, reading the limits of an asset and a
  pair gives the last level of the load for that asset and those currencies, and if there was none
  what was loaded before; reading fails exactly if neither exists.\<close>

theorem loaded_limits:
  assumes "LoadLimits cs e levels = (e', None)"
  shows "(case find (level_for a cp) (rev levels) of
      Some l \<Rightarrow> GetOrderExecutionLimits e' a cp = Inr l
    | None \<Rightarrow> (case GetOrderExecutionLimits e a cp of
          Inr l \<Rightarrow> GetOrderExecutionLimits e' a cp = Inr l
        | Inl _ \<Rightarrow> isl (GetOrderExecutionLimits e' a cp)))"
proof -
  obtain m' where load: "load_levels cs (limits_of e) levels = (m', None)" and e': "e' = Some m'"
    using assms
    by (auto simp: LoadLimits_def Let_def limits_of_def split: if_split_asm prod.split_asm
        option.split_asm)
  have at: "limit_at (limits_of e') a cp =
      (case find (level_for a cp) (rev levels) of Some l \<Rightarrow> Some l
       | None \<Rightarrow> limit_at (limits_of e) a cp)"
    using limit_at_load_levels [OF load] e' by (simp add: limits_of_def)
  have get: "GetOrderExecutionLimits x a cp = Inr l \<longleftrightarrow> limit_at (limits_of x) a cp = Some l"
    for x l by (rule GetOrderExecutionLimits_Inr)
  have fail: "isl (GetOrderExecutionLimits e' a cp) \<longleftrightarrow> limit_at (limits_of e') a cp = None"
    using get [of e'] by (cases "GetOrderExecutionLimits e' a cp") auto
  show ?thesis
  proof (cases "find (level_for a cp) (rev levels)")
    case (Some l)
    then show ?thesis using at get by simp
  next
    case None
    then have same: "limit_at (limits_of e') a cp = limit_at (limits_of e) a cp"
      using at by simp
    show ?thesis
    proof (cases "GetOrderExecutionLimits e a cp")
      case (Inl err)
      then have "limit_at (limits_of e) a cp = None" using get [of e] by fastforce
      then show ?thesis using None Inl same fail by simp
    next
      case (Inr l)
      then have "GetOrderExecutionLimits e' a cp = Inr l"
        using same get [of e l] get [of e' l] by simp
      then show ?thesis using None Inr by simp
    qed
  qed
qed

text \<open>Also: whatever a load reports, and however far it came, every stored level
  stands under its own asset, base and quote, its asset is valid and none of its ranges is
  inverted.\<close>

theorem limits_invariant:
  assumes "limits_ok (limits_of e)"
  shows "limits_ok (limits_of (fst (LoadLimits cs e levels)))"
  using assms limits_ok_load_levels [OF assms]
  by (cases "load_levels cs (limits_of e) levels")
    (simp add: LoadLimits_def Let_def limits_of_def split: prod.split)

text \<open>C39: an order that passes the check against the limits loaded for its asset and pair has an
  amount not below the minimum base amount and not above the maximum, each if it is not zero, and a
  whole multiple of the amount step.  The amount of a market order is not below the market minimum,
  not above the market maximum if there is a general maximum as well (without one the market maximum
  is not looked at), and, if the market step is not the amount step, a whole multiple of the market
  step above the market minimum.  For any other order the price is not below the minimum price, not
  above the maximum and a whole multiple of the price step above the minimum price, and the notional
  value not below its minimum, each if it is not zero.  Multiples are those of the decimal numbers
  made from the floats.\<close>

theorem order_within_limits:
  assumes "GetOrderExecutionLimits e a cp = Inr l"
    and "CheckOrderExecutionLimits dec e a cp price amount ot = None"
    and "MinimumBaseAmount l \<noteq> NaN"
    and "decimal_laws dec val"
  shows "\<not> (\<not> feq (MinimumBaseAmount l) 0 \<and> amount < MinimumBaseAmount l) \<and>
    \<not> (\<not> feq (MaximumBaseAmount l) 0 \<and> MaximumBaseAmount l < amount) \<and>
    on_step dec val (AmountStepIncrementSize l) (NewFromFloat dec amount) \<and>
    (if ot = Market
     then \<not> (0 < MarketMinQty l \<and> amount < MarketMinQty l) \<and>
       \<not> (0 < MarketMaxQty l \<and> 0 < MaximumBaseAmount l \<and> MarketMaxQty l < amount) \<and>
       (if feq (AmountStepIncrementSize l) (MarketStepIncrementSize l) then True
        else on_step dec val (MarketStepIncrementSize l)
          (dec_Sub dec (NewFromFloat dec amount) (NewFromFloat dec (MarketMinQty l))))
     else \<not> (\<not> feq (MinPrice l) 0 \<and> price < MinPrice l) \<and>
       \<not> (\<not> feq (MaxPrice l) 0 \<and> MaxPrice l < price) \<and>
       \<not> (\<not> feq (MinNotional l) 0 \<and> amount * price < MinNotional l) \<and>
       on_step dec val (PriceStepIncrementSize l)
         (dec_Sub dec (NewFromFloat dec price) (NewFromFloat dec (MinPrice l))))"
proof -
  have c: "Conforms dec (Some l) price amount ot = None"
    using assms(1,2)
    by (simp add: GetOrderExecutionLimits_def CheckOrderExecutionLimits_def
        split: option.split_asm)
  note base = Conforms_base [OF c] and steps = Conforms_steps [OF c assms(4)]
  show ?thesis
  proof (cases "ot = Market")
    case True
    have "\<not> (0 < MarketMinQty l \<and> amount < MarketMinQty l)"
    proof
      assume a: "0 < MarketMinQty l \<and> amount < MarketMinQty l"
      then have "MarketMinQty l \<le> MinimumBaseAmount l"
        using Conforms_market(1) [OF c True] f64_not_less [OF assms(3)] pos_not_zero
          f64_less_notnan(2) by blast
      then have "0 < MinimumBaseAmount l" "amount < MinimumBaseAmount l"
        using a f64_less_le_trans by blast+
      then show False using base(1) pos_not_zero by blast
    qed
    moreover have "\<not> (0 < MarketMaxQty l \<and> 0 < MaximumBaseAmount l \<and> MarketMaxQty l < amount)"
    proof
      assume a: "0 < MarketMaxQty l \<and> 0 < MaximumBaseAmount l \<and> MarketMaxQty l < amount"
      then have "MaximumBaseAmount l \<le> MarketMaxQty l"
        using Conforms_market(2) [OF c True] f64_not_less [OF f64_less_notnan(2) f64_less_notnan(2)]
          pos_not_zero by metis
      then have "MaximumBaseAmount l < amount" using a f64_le_less_trans by blast
      then show False using base(2) a pos_not_zero by blast
    qed
    ultimately show ?thesis using base steps True by simp
  next
    case False
    then show ?thesis using base steps Conforms_limit [OF c False] by simp
  qed
qed

text \<open>Also: rounding an amount to its step gives a multiple of the step, so that the
  step check passes on it, which is not negative, not above the amount, and less than one step
  below it.\<close>

theorem conform_amount:
  assumes "decimal_laws dec val" and "0 < val (NewFromFloat dec (AmountStepIncrementSize l))"
    and "0 \<le> val amount"
  shows "let r = ConformToDecimalAmount dec (Some l) amount;
      step = NewFromFloat dec (AmountStepIncrementSize l)
    in dec_IsZero dec (dec_Mod dec r step) \<and> 0 \<le> val r \<and> val r \<le> val amount \<and>
       val amount - val r < val step"
proof -
  let ?step = "NewFromFloat dec (AmountStepIncrementSize l)"
  let ?r = "ConformToDecimalAmount dec (Some l) amount"
  note laws = assms(1) [unfolded decimal_laws_def]
  note f = floor_step [OF assms(2,3)]
  have zero_mod: "dec_IsZero dec (dec_Mod dec x ?step) \<longleftrightarrow>
      val x = val ?step * of_int (truncated (val x / val ?step))" for x
    using laws assms(2) by simp
  consider (eq) "val amount = val ?step" | (lt) "val amount < val ?step"
    | (gt) "val ?step < val amount" by linarith
  then have "\<exists>k::int. 0 \<le> k \<and> val ?r = val ?step * of_int k \<and> val ?r \<le> val amount \<and>
      val amount - val ?r < val ?step"
  proof cases
    case eq
    then have "?r = amount" using laws by (simp add: ConformToDecimalAmount_def)
    then show ?thesis using eq assms(2) by (intro exI [of _ 1]) simp
  next
    case lt
    then have "?r = dec_Zero dec" using laws assms(2)
      by (simp add: ConformToDecimalAmount_def)
    then show ?thesis using lt laws assms(3) by (intro exI [of _ 0]) simp
  next
    case gt
    then have "?r = dec_Sub dec amount (dec_Mod dec amount ?step)" using laws assms(2)
      by (simp add: ConformToDecimalAmount_def)
    then have "val ?r = val ?step * of_int \<lfloor>val amount / val ?step\<rfloor>"
      using laws assms(2) f(4) by simp
    moreover have "0 \<le> \<lfloor>val amount / val ?step\<rfloor>" using assms(2,3) by simp
    ultimately show ?thesis using f(2,3) by auto
  qed
  then obtain k :: int where k: "0 \<le> k" "val ?r = val ?step * of_int k"
    "val ?r \<le> val amount" "val amount - val ?r < val ?step" by blast
  have "truncated (val ?r / val ?step) = k" using k(1,2) assms(2) by (simp add: truncated_def)
  then show ?thesis using k assms(2) zero_mod [of ?r] by (simp add: Let_def)
qed

section \<open>Witnesses\<close>

definition demo_level :: min_max_level where
  "demo_level =
     \<lparr>l_Pair = s_Pair demo_submit, l_Asset = Spot, MinPrice = Fin 1, MaxPrice = Fin 500,
      PriceStepIncrementSize = 0, MultiplierUp = 0, MultiplierDown = 0, MultiplierDecimal = 0,
      AveragePriceMinutes = 0, MinimumBaseAmount = Fin 1, MaximumBaseAmount = Fin 10,
      MinimumQuoteAmount = 0, MaximumQuoteAmount = 0, AmountStepIncrementSize = Fin (1/2),
      QuoteStepIncrementSize = 0, MinNotional = Fin 10, MaxIcebergParts = 0, MarketMinQty = 0,
      MarketMaxQty = 0, MarketStepIncrementSize = 0, MaxTotalOrders = 0, MaxAlgoOrders = 0\<rparr>"

definition demo_limits :: execution_limits where
  "demo_limits = fst (LoadLimits demo_registry None [demo_level])"

lemma demo_load: "snd (LoadLimits demo_registry None [demo_level]) = None"
  by code_simp

lemma demo_limits_load: "LoadLimits demo_registry None [demo_level] = (demo_limits, None)"
  using demo_load by (simp add: demo_limits_def prod_eq_iff)

lemma demo_level_for: "level_for Spot (s_Pair demo_submit) demo_level"
  by (simp add: level_for_def demo_level_def)

theorem loaded_limits_witness:
  "GetOrderExecutionLimits demo_limits Spot (s_Pair demo_submit) = Inr demo_level"
  using loaded_limits [OF demo_limits_load, of Spot "s_Pair demo_submit"] demo_level_for by simp

theorem limits_invariant_witness: "limits_ok (limits_of demo_limits)"
proof -
  have "limits_ok (limits_of None)"
    by (simp add: limits_ok_def limits_of_def limit_at_def)
  then show ?thesis unfolding demo_limits_def by (rule limits_invariant)
qed

lemma demo_get: "GetOrderExecutionLimits demo_limits Spot (s_Pair demo_submit) = Inr demo_level"
  unfolding GetOrderExecutionLimits_Inr demo_limits_def
  using limit_at_load_levels [of demo_registry Map.empty "[demo_level]"] demo_load demo_level_for
  by (simp add: LoadLimits_def limits_of_def split: prod.splits option.splits)

lemma demo_check:
  "CheckOrderExecutionLimits rat_decimal demo_limits Spot (s_Pair demo_submit) (Fin 100) (Fin 2)
     Limit = None"
  by code_simp

theorem order_within_limits_witness:
  "\<not> Fin 2 < (Fin 1 :: f64) \<and> (\<exists>k::int. (2::rat) = 1/2 * of_int k)"
proof -
  have "MinimumBaseAmount demo_level \<noteq> NaN" by (simp add: demo_level_def)
  from order_within_limits [OF demo_get demo_check this rat_decimal_laws] show ?thesis
    by (simp add: demo_level_def order_type_consts f64_order_defs zero_f64_def on_step_def
        rat_decimal_def feq_def)
qed

theorem conform_amount_witness:
  "(let r = ConformToDecimalAmount rat_decimal (Some demo_level) (7/5)
    in r \<le> 7/5 \<and> 7/5 - r < (1/2 :: rat))"
  using conform_amount [OF rat_decimal_laws, of demo_level "7/5"]
  by (simp add: rat_decimal_def demo_level_def Let_def)

end
