(* ===== verification/Exchange_Manager.thy ===== *)
theory Exchange_Manager
  imports Common_Errors "HOL-Library.AList"
begin

text \<open>
  The exchange manager of the FIX engine (\<open>fixengine/exchange_manager.go\<close>): the loaded exchanges by
  the lower-case of their name.  The exchange type itself (\<open>exchange.IBotExchange\<close>) is a type
  parameter \<open>'e\<close> with its name as a function, and \<open>Shutdown()\<close> of an exchange is the result it
  returns.  A nil manager is \<open>None\<close>; its map is an association list in one of the orders Go may
  iterate it in.  The mutex makes each operation atomic, so it does not appear.
\<close>

section \<open>State\<close>

definition ErrNilSubsystem :: go_error where
  "ErrNilSubsystem = Sentinel ''main.ErrNilSubsystem''"
definition ErrExchangeNotFound :: go_error where
  "ErrExchangeNotFound = Sentinel ''main.ErrExchangeNotFound''"
definition ErrExchangeAlreadyLoaded :: go_error where
  "ErrExchangeAlreadyLoaded = Sentinel ''main.ErrExchangeAlreadyLoaded''"
definition ErrExchangeNameIsEmpty :: go_error where
  "ErrExchangeNameIsEmpty = Sentinel ''main.ErrExchangeNameIsEmpty''"
definition errExchangeIsNil :: go_error where
  "errExchangeIsNil = Sentinel ''main.errExchangeIsNil''"
definition errExchangeAlreadyLoaded :: go_error where
  "errExchangeAlreadyLoaded = Sentinel ''main.errExchangeAlreadyLoaded''"

record 'e exchange_manager =
  exchanges :: "(string \<times> 'e) list"

definition NewExchangeManager :: "'e exchange_manager" where
  "NewExchangeManager = \<lparr>exchanges = []\<rparr>"

section \<open>Operations\<close>

definition em_Add ::
    "('e \<Rightarrow> string) \<Rightarrow> 'e exchange_manager option \<Rightarrow> 'e option \<Rightarrow>
     'e exchange_manager option \<times> go_error option" where
  "em_Add GetName mo eo =
     (case mo of
        None \<Rightarrow> (None, Some (Errorf ''exchange manager: %w'' [ErrNilSubsystem]))
      | Some m \<Rightarrow>
          (case eo of
             None \<Rightarrow> (Some m, Some (Errorf ''exchange manager: %w'' [errExchangeIsNil]))
           | Some exch \<Rightarrow>
               (case map_of (exchanges m) (ToLower (GetName exch)) of
                  Some _ \<Rightarrow>
                    (Some m, Some (Errorf ''exchange manager: %s %w'' [errExchangeAlreadyLoaded]))
                | None \<Rightarrow>
                    (Some (m\<lparr>exchanges :=
                       AList.update (ToLower (GetName exch)) exch (exchanges m)\<rparr>), None))))"

definition em_GetExchanges :: "'e exchange_manager option \<Rightarrow> 'e list go_result" where
  "em_GetExchanges mo =
     (case mo of
        None \<Rightarrow> Inl (Errorf ''exchange manager: %w'' [ErrNilSubsystem])
      | Some m \<Rightarrow> Inr (map snd (exchanges m)))"

definition em_RemoveExchange ::
    "('e \<Rightarrow> go_error option) \<Rightarrow> 'e exchange_manager option \<Rightarrow> string \<Rightarrow>
     'e exchange_manager option \<times> go_error option" where
  "em_RemoveExchange shut mo exchangeName =
     (case mo of
        None \<Rightarrow> (None, Some (Errorf ''exchange manager: %w'' [ErrNilSubsystem]))
      | Some m \<Rightarrow>
          if exchangeName = []
          then (Some m, Some (Errorf ''exchange manager: %w'' [ErrExchangeNameIsEmpty]))
          else (case map_of (exchanges m) (ToLower exchangeName) of
                  None \<Rightarrow> (Some m, Some (Errorf ''exchange manager: %s %w'' [ErrExchangeNotFound]))
                | Some exch \<Rightarrow>
                    (case shut exch of
                       Some err \<Rightarrow> (Some m, Some (Errorf ''exchange manager: %w'' [err]))
                     | None \<Rightarrow>
                         (Some (m\<lparr>exchanges := AList.delete (ToLower exchangeName) (exchanges m)\<rparr>),
                          None))))"

definition GetExchangeByName :: "'e exchange_manager option \<Rightarrow> string \<Rightarrow> 'e go_result" where
  "GetExchangeByName mo exchangeName =
     (case mo of
        None \<Rightarrow> Inl (Errorf ''exchange manager: %w'' [ErrNilSubsystem])
      | Some m \<Rightarrow>
          if exchangeName = [] then Inl (Errorf ''exchange manager: %w'' [ErrExchangeNameIsEmpty])
          else (case map_of (exchanges m) (ToLower exchangeName) of
                  None \<Rightarrow> Inl (Errorf ''exchange manager: %s %w'' [ErrExchangeNotFound])
                | Some exch \<Rightarrow> Inr exch))"

text \<open>The names that \<open>NewExchangeByName\<close> knows, and the constructor \<open>new\<close> of their types.\<close>

definition known_exchanges :: "string list" where
  "known_exchanges =
     [''binanceus'', ''binance'', ''bitfinex'', ''bitflyer'', ''bithumb'', ''bitmex'',
      ''bitstamp'', ''btc markets'', ''btse'', ''bybit'', ''coinut'', ''exmo'', ''coinbasepro'',
      ''gateio'', ''gemini'', ''hitbtc'', ''huobi'', ''kraken'', ''lbank'', ''okx'',
      ''poloniex'', ''yobit'']"

text \<open>\<open>builder\<close> is the custom builder, if the manager has one.\<close>

definition NewExchangeByName ::
    "(string \<Rightarrow> 'e) \<Rightarrow> (string \<Rightarrow> 'e go_result) option \<Rightarrow> 'e exchange_manager option \<Rightarrow> string \<Rightarrow>
     'e go_result" where
  "NewExchangeByName new builder mo name =
     (let nameLower = ToLower name
      in case GetExchangeByName mo nameLower of
           Inl err \<Rightarrow>
             if \<not> errors_is err ErrExchangeNotFound
             then Inl (Errorf ''exchange manager: %s %w'' [err])
             else if nameLower \<in> set known_exchanges then Inr (new nameLower)
             else (case builder of
                     Some b \<Rightarrow> b nameLower
                   | None \<Rightarrow> Inl (Errorf ''exchange manager: %s, %w'' [ErrExchangeNotFound]))
         | Inr _ \<Rightarrow> Inl (Errorf ''exchange manager: %s %w'' [ErrExchangeAlreadyLoaded]))"

text \<open>\<open>Shutdown\<close> starts one goroutine per exchange; each unloads its exchange if it shuts down
  without error, and their order does not matter.  \<open>finished\<close> are the exchanges whose call has
  returned when the timer fires or the last one is done; the error is always nil.\<close>

definition em_Shutdown ::
    "('e \<Rightarrow> string) \<Rightarrow> ('e \<Rightarrow> go_error option) \<Rightarrow> 'e list \<Rightarrow> 'e exchange_manager option \<Rightarrow>
     'e exchange_manager option \<times> go_error option" where
  "em_Shutdown GetName shut finished mo =
     (case mo of
        None \<Rightarrow> (None, Some (Errorf ''exchange manager: %w'' [ErrNilSubsystem]))
      | Some m \<Rightarrow>
          (Some (m\<lparr>exchanges :=
             fold (\<lambda>exch es. if shut exch = None then AList.delete (ToLower (GetName exch)) es else es)
               finished (exchanges m)\<rparr>), None))"

section \<open>Lemmas\<close>

text \<open>The keys are the lower-case names of the exchanges they lead to, each once.\<close>

definition manager_inv :: "('e \<Rightarrow> string) \<Rightarrow> 'e exchange_manager \<Rightarrow> bool" where
  "manager_inv GetName m \<longleftrightarrow>
     distinct (map fst (exchanges m)) \<and>
     (\<forall>k e. map_of (exchanges m) k = Some e \<longrightarrow> k = ToLower (GetName e))"

lemma manager_inv_Add:
  assumes "manager_inv GetName m" and "em_Add GetName (Some m) eo = (Some m', err)"
  shows "manager_inv GetName m'"
  using assms
  by (cases eo; cases "map_of (exchanges m) (ToLower (GetName (the eo)))")
    (auto simp: em_Add_def manager_inv_def distinct_update update_conv' split: if_split_asm)

lemma manager_inv_delete:
  "manager_inv GetName m \<Longrightarrow> manager_inv GetName (m\<lparr>exchanges := AList.delete k (exchanges m)\<rparr>)"
  by (auto simp: manager_inv_def distinct_delete delete_conv' split: if_split_asm)

lemma manager_inv_Remove:
  assumes "manager_inv GetName m" and "em_RemoveExchange shut (Some m) name = (Some m', err)"
  shows "manager_inv GetName m'"
  using assms manager_inv_delete [OF assms(1)]
  by (auto simp: em_RemoveExchange_def split: if_split_asm option.split_asm)

lemma manager_inv_Shutdown:
  assumes "manager_inv GetName m" and "em_Shutdown GetName shut fin (Some m) = (Some m', err)"
  shows "manager_inv GetName m'"
proof -
  have "manager_inv GetName (m\<lparr>exchanges := fold (\<lambda>exch es. if shut exch = None
      then AList.delete (ToLower (GetName exch)) es else es) fin es\<rparr>)"
    if "manager_inv GetName (m\<lparr>exchanges := es\<rparr>)" for es
    using that
  proof (induction fin arbitrary: es)
    case (Cons f fin)
    then show ?case using manager_inv_delete [OF Cons.prems] by simp
  qed simp
  from this [of "exchanges m"] show ?thesis using assms by (simp add: em_Shutdown_def)
qed

section \<open>Properties\<close>

text \<open>Also: an exchange that was added is found under its name in any case until it is
  removed; adding it again fails and changes nothing; removing it (when it shuts down) makes it not
  found, and neither adding nor removing it changes what any other name finds.  The manager's keys
  stay the lower-case names of the exchanges they lead to.\<close>

theorem exchange_lookup:
  assumes "manager_inv GetName m" and "em_Add GetName (Some m) (Some e) = (mo, None)"
    and "GetName e \<noteq> []" and "shut e = None"
  shows "GetExchangeByName mo (ToUpper (GetName e)) = Inr e \<and>
    (if EqualFold n (GetName e) then True
     else GetExchangeByName mo n = GetExchangeByName (Some m) n) \<and>
    snd (em_Add GetName mo (Some e)) \<noteq> None \<and> fst (em_Add GetName mo (Some e)) = mo \<and>
    (case em_RemoveExchange shut mo (GetName e) of (mo', err) \<Rightarrow>
       err = None \<and> isl (GetExchangeByName mo' (GetName e)) \<and>
       (if EqualFold n (GetName e) then True
        else GetExchangeByName mo' n = GetExchangeByName (Some m) n)) \<and>
    (case mo of None \<Rightarrow> False | Some m' \<Rightarrow> manager_inv GetName m')"
proof -
  have new: "map_of (exchanges m) (ToLower (GetName e)) = None"
    and mo: "mo = Some (m\<lparr>exchanges := AList.update (ToLower (GetName e)) e (exchanges m)\<rparr>)"
    using assms(2) by (auto simp: em_Add_def split: option.split_asm)
  have inv: "case mo of None \<Rightarrow> False | Some m' \<Rightarrow> manager_inv GetName m'"
    using manager_inv_Add [OF assms(1)] assms(2) mo by fastforce
  have found: "GetExchangeByName mo x = (if x = [] then GetExchangeByName (Some m) x
      else if ToLower x = ToLower (GetName e) then Inr e else GetExchangeByName (Some m) x)" for x
    by (simp add: mo GetExchangeByName_def update_conv')
  have rem: "em_RemoveExchange shut mo (GetName e) =
      (Some (m\<lparr>exchanges := AList.delete (ToLower (GetName e))
         (AList.update (ToLower (GetName e)) e (exchanges m))\<rparr>), None)"
    using assms(3,4) by (simp add: em_RemoveExchange_def mo update_conv')
  show ?thesis
    using assms(3) new inv
    by (simp add: found rem EqualFold_def)
      (simp add: mo em_Add_def update_conv' GetExchangeByName_def delete_conv')
qed

definition demo_manager :: "string exchange_manager" where
  "demo_manager = \<lparr>exchanges = [(''kraken'', ''Kraken'')]\<rparr>"

theorem exchange_lookup_witness:
  "GetExchangeByName (fst (em_Add id (Some demo_manager) (Some ''Binance''))) ''BINANCE'' =
     Inr ''Binance''"
proof -
  let ?added = "fst (em_Add id (Some demo_manager) (Some ''Binance''))"
  have inv: "manager_inv id demo_manager"
    by (simp add: demo_manager_def manager_inv_def case_eval)
  have "snd (em_Add id (Some demo_manager) (Some ''Binance'')) = None" by code_simp
  then have add: "em_Add id (Some demo_manager) (Some ''Binance'') = (?added, None)"
    by (simp only: prod_eq_iff fst_conv snd_conv)
  have "ToUpper ''Binance'' = ''BINANCE''" by code_simp
  then show ?thesis
    using exchange_lookup [OF inv add, of "\<lambda>_. None" "[]"]
    by (simp only: id_apply list.simps not_False_eq_True simp_thms)
qed

text \<open>Also: a new exchange is made exactly for a known name, in any case, that is not
  loaded, or by the custom builder for a name that is not known; an empty name and a nil manager are
  refused.\<close>

theorem new_exchange:
  "NewExchangeByName new None mo name =
     (case mo of
        None \<Rightarrow> Inl (Errorf ''exchange manager: %s %w''
                   [Errorf ''exchange manager: %w'' [ErrNilSubsystem]])
      | Some m \<Rightarrow>
          if name = [] then Inl (Errorf ''exchange manager: %s %w''
                   [Errorf ''exchange manager: %w'' [ErrExchangeNameIsEmpty]])
          else if ToLower name \<in> dom (map_of (exchanges m))
            then Inl (Errorf ''exchange manager: %s %w'' [ErrExchangeAlreadyLoaded])
          else if ToLower name \<in> set known_exchanges then Inr (new (ToLower name))
          else Inl (Errorf ''exchange manager: %s, %w'' [ErrExchangeNotFound])) \<and>
   list_all (\<lambda>n. ToLower n = n) known_exchanges"
proof -
  have "list_all (\<lambda>n. ToLower n = n) known_exchanges"
    by (simp add: known_exchanges_def case_eval)
  moreover have "ErrNilSubsystem \<noteq> ErrExchangeNotFound" "ErrExchangeNameIsEmpty \<noteq> ErrExchangeNotFound"
    by (simp_all add: ErrNilSubsystem_def ErrExchangeNotFound_def ErrExchangeNameIsEmpty_def)
  ultimately show ?thesis
    by (auto simp: NewExchangeByName_def Let_def GetExchangeByName_def ErrNilSubsystem_def
        ErrExchangeNotFound_def ErrExchangeNameIsEmpty_def split: option.split)
qed

end
