(* ===== verification/Order_Store.thy ===== *)
theory Order_Store
  imports Order_Detail Exchange_Manager
begin

text \<open>
  The order store of the FIX engine's order manager (\<open>store\<close>, \<open>fixengine/order_manager.go\<close>): the
  orders of every exchange, in the order they came in, under the lower-case name of the exchange.

  The mutex makes each operation atomic, so it does not appear.  The map is an association list in
  one of the orders Go may iterate it in.  The store keeps pointers and hands out copies; an order
  given to an operation is a different object from the stored one of the same id, and the
  operations that write to their argument return it.  What the futures position controller does
  with an order is the parameter \<open>track\<close> on a state \<open>'f\<close> of its own; the only thing it writes to the
  order is the lower case of its exchange.  \<open>uuid.NewV4()\<close>, \<open>uuid.NewV5\<close> and \<open>time.Now()\<close> are arguments.

  The lemmas show that the store implements a map from exchanges and ids to orders, what every
  operation keeps of it, and that a modification can give two orders one id.
\<close>

section \<open>State\<close>

definition ErrOrdersAlreadyExists :: go_error where
  "ErrOrdersAlreadyExists = Sentinel ''main.ErrOrdersAlreadyExists''"
definition ErrOrderNotFound :: go_error where
  "ErrOrderNotFound = Sentinel ''main.ErrOrderNotFound''"
definition errNilOrder :: go_error where
  "errNilOrder = Sentinel ''main.errNilOrder''"
definition ErrPositionClosed :: go_error where
  "ErrPositionClosed = Sentinel ''futures.ErrPositionClosed''"

record 'f order_store =
  Orders :: "(string \<times> detail list) list"
  positions :: 'f

type_synonym 'f tracker = "'f \<Rightarrow> detail \<Rightarrow> 'f \<times> go_error option"

text \<open>\<open>PositionController.TrackNewOrder\<close>, as far as the order goes.\<close>

definition TrackNewOrder :: "'f tracker \<Rightarrow> 'f \<Rightarrow> detail \<Rightarrow> 'f \<times> detail \<times> go_error option" where
  "TrackNewOrder track f d =
     (let d = d\<lparr>d_Exchange := ToLower (d_Exchange d)\<rparr>; (f, err) = track f d in (f, d, err))"

record upsert_response =
  OrderDetails :: detail
  IsNewOrder :: bool

text \<open>\<open>s.Orders[name]\<close>, the nil slice for a missing name; the assignment to it; and the loop
  \<open>for x := range r\<close> that stops at the order with the id.\<close>

definition orders_of :: "'f order_store \<Rightarrow> string \<Rightarrow> detail list" where
  "orders_of s name = (case map_of (Orders s) name of None \<Rightarrow> [] | Some r \<Rightarrow> r)"

definition set_orders :: "string \<Rightarrow> detail list \<Rightarrow> 'f order_store \<Rightarrow> 'f order_store" where
  "set_orders name r s = s\<lparr>Orders := AList.update name r (Orders s)\<rparr>"

fun order_at :: "detail list \<Rightarrow> string \<Rightarrow> nat option" where
  "order_at [] oid = None"
| "order_at (r # rs) oid = (if d_OrderID r = oid then Some 0 else map_option Suc (order_at rs oid))"

section \<open>Operations\<close>

definition os_get :: "'f order_store \<Rightarrow> (string \<times> detail list) list" where
  "os_get s = map (\<lambda>(k, val). (k, CopyPointerOrderSlice val)) (Orders s)"

definition os_getByExchangeAndID :: "'f order_store \<Rightarrow> string \<Rightarrow> string \<Rightarrow> detail go_result" where
  "os_getByExchangeAndID s exchange oid =
     (case map_of (Orders s) (ToLower exchange) of
        None \<Rightarrow> Inl ErrExchangeNotFound
      | Some r \<Rightarrow>
          (case order_at r oid of
             None \<Rightarrow> Inl ErrOrderNotFound
           | Some x \<Rightarrow> Inr (detail_Copy (r ! x))))"

definition os_getByDetail :: "'f order_store \<Rightarrow> detail option \<Rightarrow> detail option" where
  "os_getByDetail s dopt =
     (case dopt of
        None \<Rightarrow> None
      | Some det \<Rightarrow>
          (let r = orders_of s (ToLower (d_Exchange det))
           in case order_at r (d_OrderID det) of
                None \<Rightarrow> None
              | Some x \<Rightarrow> Some (detail_Copy (r ! x))))"

definition os_exists :: "'f order_store \<Rightarrow> detail option \<Rightarrow> bool" where
  "os_exists s det \<longleftrightarrow> os_getByDetail s det \<noteq> None"

text \<open>How \<open>updateExisting\<close> and \<open>modifyExisting\<close> end, with the changed order at \<open>x\<close>: the positions
  of a future are told, and that its position is closed is no error.\<close>

definition tracked_change ::
    "'f tracker \<Rightarrow> string \<Rightarrow> detail list \<Rightarrow> nat \<Rightarrow> detail \<Rightarrow> 'f order_store \<Rightarrow>
     'f order_store \<times> go_error option" where
  "tracked_change track name r x d s =
     (if \<not> asset_IsFutures (d_AssetType d) then (set_orders name (r[x := d]) s, None)
      else
        (let (f, d, err) = TrackNewOrder track (positions s) d;
             s = (set_orders name (r[x := d]) s)\<lparr>positions := f\<rparr>
         in case err of
              None \<Rightarrow> (s, None)
            | Some e \<Rightarrow> (s, if errors_is e ErrPositionClosed then None else Some e)))"

definition os_updateExisting ::
    "store \<Rightarrow> 'f tracker \<Rightarrow> time \<Rightarrow> detail option \<Rightarrow> 'f order_store \<Rightarrow>
     'f order_store \<times> detail option \<times> go_error option" where
  "os_updateExisting cs track now odo s =
     (case odo of
        None \<Rightarrow> (s, None, Some errNilOrder)
      | Some od \<Rightarrow>
          (case map_of (Orders s) (ToLower (d_Exchange od)) of
             None \<Rightarrow> (s, Some od, Some ErrExchangeNotFound)
           | Some r \<Rightarrow>
               (case order_at r (d_OrderID od) of
                  None \<Rightarrow> (s, Some od, Some ErrOrderNotFound)
                | Some x \<Rightarrow>
                    (case UpdateOrderFromDetail cs now (Some (r ! x)) (Some od) of
                       (Some d, od', None) \<Rightarrow>
                         (let (s, err) =
                            tracked_change track (ToLower (d_Exchange od)) r x d s
                          in (s, od', err))
                     | (d, od', err) \<Rightarrow> (s, od', err)))))"

definition os_modifyExisting ::
    "store \<Rightarrow> 'f tracker \<Rightarrow> time \<Rightarrow> string \<Rightarrow> modify_response \<Rightarrow> 'f order_store \<Rightarrow>
     'f order_store \<times> go_error option" where
  "os_modifyExisting cs track now oid md s =
     (case map_of (Orders s) (ToLower (mr_Exchange md)) of
        None \<Rightarrow> (s, Some ErrExchangeNotFound)
      | Some r \<Rightarrow>
          (case order_at r oid of
             None \<Rightarrow> (s, Some ErrOrderNotFound)
           | Some x \<Rightarrow>
               tracked_change track (ToLower (mr_Exchange md)) r x
                 (UpdateOrderFromModifyResponse cs now md (r ! x)) s))"

text \<open>The rest of \<open>upsert\<close> after the positions are told.\<close>

definition upsert_order ::
    "store \<Rightarrow> time \<Rightarrow> uuid go_result \<Rightarrow> (string \<Rightarrow> uuid) \<Rightarrow> string \<Rightarrow> detail \<Rightarrow> 'f order_store \<Rightarrow>
     'f order_store \<times> detail option \<times> upsert_response go_result" where
  "upsert_order cs now newV4 newV5 lName od s =
     (let exchangeOrders = orders_of s lName
      in case order_at exchangeOrders (d_OrderID od) of
           Some x \<Rightarrow>
             (case UpdateOrderFromDetail cs now (Some (exchangeOrders ! x)) (Some od) of
                (Some d, od', None) \<Rightarrow>
                  (set_orders lName (exchangeOrders[x := d]) s, od',
                   Inr \<lparr>OrderDetails = detail_Copy d, IsNewOrder = False\<rparr>)
              | (d, od', Some err) \<Rightarrow> (s, od', Inl err)
              | (None, od', None) \<Rightarrow> (s, od', Inl ErrOrderDetailIsNil))
         | None \<Rightarrow>
             (let od = GenerateInternalOrderID newV4 newV5 od
              in (set_orders lName (orders_of s lName @ [od]) s, Some od,
                  Inr \<lparr>OrderDetails = detail_Copy od, IsNewOrder = True\<rparr>)))"

definition os_upsert ::
    "store \<Rightarrow> 'e exchange_manager option \<Rightarrow> 'f tracker \<Rightarrow> time \<Rightarrow> uuid go_result \<Rightarrow> (string \<Rightarrow> uuid) \<Rightarrow>
     detail option \<Rightarrow> 'f order_store \<Rightarrow>
     'f order_store \<times> detail option \<times> upsert_response go_result" where
  "os_upsert cs em track now newV4 newV5 odo s =
     (case odo of
        None \<Rightarrow> (s, None, Inl errNilOrder)
      | Some od \<Rightarrow>
          (let lName = ToLower (d_Exchange od)
           in case GetExchangeByName em lName of
                Inl err \<Rightarrow> (s, Some od, Inl err)
              | Inr _ \<Rightarrow>
                  (if \<not> asset_IsFutures (d_AssetType od)
                   then upsert_order cs now newV4 newV5 lName od s
                   else
                     (let (f, od, err) = TrackNewOrder track (positions s) od;
                          s = s\<lparr>positions := f\<rparr>
                      in case err of
                           None \<Rightarrow> upsert_order cs now newV4 newV5 lName od s
                         | Some e \<Rightarrow>
                             if errors_is e ErrPositionClosed
                             then upsert_order cs now newV4 newV5 lName od s
                             else (s, Some od, Inl e)))))"

definition os_add ::
    "'e exchange_manager option \<Rightarrow> 'f tracker \<Rightarrow> uuid go_result \<Rightarrow> (string \<Rightarrow> uuid) \<Rightarrow>
     detail option \<Rightarrow> 'f order_store \<Rightarrow> 'f order_store \<times> detail option \<times> go_error option" where
  "os_add em track newV4 newV5 dopt s =
     (case dopt of
        None \<Rightarrow> (s, None, Some errNilOrder)
      | Some det \<Rightarrow>
          (let name = ToLower (d_Exchange det)
           in case GetExchangeByName em name of
                Inl err \<Rightarrow> (s, Some det, Some err)
              | Inr _ \<Rightarrow>
                  (if order_at (orders_of s name) (d_OrderID det) \<noteq> None
                   then (s, Some det, Some ErrOrdersAlreadyExists)
                   else
                     (let det = GenerateInternalOrderID newV4 newV5 det;
                          r = orders_of s name
                      in if \<not> asset_IsFutures (d_AssetType det)
                         then (set_orders name (r @ [det]) s, Some det, None)
                         else (let (f, det, err) = TrackNewOrder track (positions s) det
                               in ((set_orders name (r @ [det]) s)\<lparr>positions := f\<rparr>, Some det,
                                   err))))))"

text \<open>\<open>for i := range e { if !keep { continue }; os = append(os, e[i].Copy()) }\<close>, over one exchange
  or over every one.\<close>

definition copies :: "(detail \<Rightarrow> bool) \<Rightarrow> detail list \<Rightarrow> detail list" where
  "copies keep e = map detail_Copy (filter keep e)"

definition all_copies :: "(detail \<Rightarrow> bool) \<Rightarrow> 'f order_store \<Rightarrow> detail list" where
  "all_copies keep s = concat (map (\<lambda>(k, e). copies keep e) (Orders s))"

definition os_getFilteredOrders ::
    "store \<Rightarrow> order_filter option \<Rightarrow> 'f order_store \<Rightarrow> detail list go_result" where
  "os_getFilteredOrders cs fo s =
     (case fo of
        None \<Rightarrow> Inl (Errorf ''filter is nil'' [])
      | Some f \<Rightarrow>
          if f_Exchange f \<noteq> []
          then Inr (case map_of (Orders s) (ToLower (f_Exchange f)) of
                      None \<Rightarrow> [] | Some e \<Rightarrow> copies (\<lambda>d. MatchFilter cs d f) e)
          else Inr (all_copies (\<lambda>d. MatchFilter cs d f) s))"

definition os_getActiveOrders ::
    "store \<Rightarrow> order_filter option \<Rightarrow> 'f order_store \<Rightarrow> detail list" where
  "os_getActiveOrders cs fo s =
     (case fo of
        None \<Rightarrow> all_copies (\<lambda>d. \<not> (d_Status d \<noteq> UnknownStatus \<and> \<not> IsActive d)) s
      | Some f \<Rightarrow>
          (let keep = (\<lambda>d. \<not> (d_Status d \<noteq> UnknownStatus \<and>
                              (\<not> IsActive d \<or> \<not> MatchFilter cs d f)))
           in if f_Exchange f \<noteq> []
              then (case map_of (Orders s) (ToLower (f_Exchange f)) of
                      None \<Rightarrow> [] | Some e \<Rightarrow> copies keep e)
              else all_copies keep s))"

section \<open>The store as a map\<close>

text \<open>What the store promises: a map from exchange and order id to the order.\<close>

definition os_lookup :: "'f order_store \<Rightarrow> string \<times> string \<Rightarrow> detail option" where
  "os_lookup s =
     (\<lambda>(name, oid). map_option (\<lambda>x. orders_of s name ! x) (order_at (orders_of s name) oid))"

lemma detail_Copy_id [simp]: "detail_Copy d = d"
  by (simp add: detail_Copy_def)

lemma order_at_None: "order_at r oid = None \<longleftrightarrow> oid \<notin> d_OrderID ` set r"
  by (induction r) auto

lemma order_at_Some:
  "order_at r oid = Some x \<Longrightarrow> x < length r \<and> d_OrderID (r ! x) = oid"
  by (induction r arbitrary: x) (auto split: if_split_asm)

lemma order_at_append:
  "order_at (r @ [d]) oid =
     (case order_at r oid of Some x \<Rightarrow> Some x
      | None \<Rightarrow> if d_OrderID d = oid then Some (length r) else None)"
  by (induction r) (auto split: option.split)

lemma map_OrderID_update:
  assumes "order_at r (d_OrderID d) = Some x"
  shows "map d_OrderID (r[x := d]) = map d_OrderID r"
  using order_at_Some [OF assms] by (simp add: map_update) (metis list_update_id nth_map)

lemma order_at_map: "map d_OrderID r = map d_OrderID r' \<Longrightarrow> order_at r oid = order_at r' oid"
proof (induction r arbitrary: r')
  case (Cons d r)
  then obtain d' q where "r' = d' # q" "d_OrderID d' = d_OrderID d" "map d_OrderID r = map d_OrderID q"
    by (cases r') auto
  then show ?case using Cons.IH [of q] by simp
qed simp

lemma order_at_update:
  "order_at r (d_OrderID d) = Some x \<Longrightarrow> order_at (r[x := d]) oid = order_at r oid"
  by (rule order_at_map) (rule map_OrderID_update)

lemma orders_of_set [simp]:
  "orders_of (set_orders k r s) k' = (if k' = k then r else orders_of s k')"
  "orders_of (s\<lparr>positions := f\<rparr>) k' = orders_of s k'"
  by (simp_all add: orders_of_def set_orders_def update_conv')

lemma os_lookup_positions [simp]: "os_lookup (s\<lparr>positions := f\<rparr>) = os_lookup s"
  by (simp add: os_lookup_def)

lemma os_lookup_append:
  assumes "order_at (orders_of s k) (d_OrderID d) = None"
  shows "os_lookup (set_orders k (orders_of s k @ [d]) s) = (os_lookup s)((k, d_OrderID d) \<mapsto> d)"
proof (rule ext, clarify)
  fix k' oid
  show "os_lookup (set_orders k (orders_of s k @ [d]) s) (k', oid) =
      ((os_lookup s)((k, d_OrderID d) \<mapsto> d)) (k', oid)"
    using assms order_at_Some [of "orders_of s k" oid]
    by (cases "order_at (orders_of s k) oid") (auto simp: os_lookup_def order_at_append nth_append)
qed

lemma os_lookup_replace:
  assumes "order_at (orders_of s k) (d_OrderID d) = Some x"
  shows "os_lookup (set_orders k ((orders_of s k)[x := d]) s) =
    (os_lookup s)((k, d_OrderID d) \<mapsto> d)"
proof (rule ext, clarify)
  fix k' oid
  show "os_lookup (set_orders k ((orders_of s k)[x := d]) s) (k', oid) =
      ((os_lookup s)((k, d_OrderID d) \<mapsto> d)) (k', oid)"
    using assms order_at_Some [OF assms] order_at_Some [of "orders_of s k" oid]
    by (cases "order_at (orders_of s k) oid")
      (auto simp: os_lookup_def order_at_update nth_list_update)
qed

text \<open>The lookups and the tests of the code, by the map.\<close>

lemma orders_of_Some: "map_of (Orders s) k = Some r \<Longrightarrow> orders_of s k = r"
  by (simp add: orders_of_def)

lemma getByDetail_lookup:
  "os_getByDetail s (Some d) = os_lookup s (ToLower (d_Exchange d), d_OrderID d)"
  by (simp add: os_getByDetail_def os_lookup_def Let_def split: option.split)

lemma exists_lookup:
  "os_exists s (Some d) \<longleftrightarrow> os_lookup s (ToLower (d_Exchange d), d_OrderID d) \<noteq> None"
  by (simp add: os_exists_def getByDetail_lookup)

lemma getByExchangeAndID_lookup:
  "os_getByExchangeAndID s e oid =
     (case os_lookup s (ToLower e, oid) of
        Some d \<Rightarrow> Inr d
      | None \<Rightarrow> Inl (if map_of (Orders s) (ToLower e) = None then ErrExchangeNotFound
                    else ErrOrderNotFound))"
  by (auto simp: os_getByExchangeAndID_def os_lookup_def orders_of_def split: option.split)

lemma order_at_lookup:
  "order_at (orders_of s k) oid = None \<longleftrightarrow> os_lookup s (k, oid) = None"
  by (simp add: os_lookup_def)

lemma generated_id_simps [simp]:
  "d_OrderID (GenerateInternalOrderID v4 v5 d) = d_OrderID d"
  "d_Exchange (GenerateInternalOrderID v4 v5 d) = d_Exchange d"
  "d_AssetType (GenerateInternalOrderID v4 v5 d) = d_AssetType d"
  "d_Status (GenerateInternalOrderID v4 v5 d) = d_Status d"
  by (auto simp: GenerateInternalOrderID_def)

lemma update_keeps:
  assumes "UpdateOrderFromDetail cs now (Some d) (Some m) = (Some e, m', err)"
  shows "d_OrderID e = (if d_OrderID d = [] then d_OrderID m else d_OrderID d)"
    "d_Exchange e = (if d_Exchange d = [] then d_Exchange m else d_Exchange d)"
    "d_InternalOrderID e =
       (if uuid_IsNil (d_InternalOrderID d) then d_InternalOrderID m else d_InternalOrderID d)"
    "err = None" "m' = Some (m\<lparr>d_RemainingAmount := remaining_after (d_RemainingAmount m) (d_Trades m)\<rparr>)"
  using assms by (auto simp: UpdateOrderFromDetail_Some Let_def)

lemma update_result:
  obtains e m' where "UpdateOrderFromDetail cs now (Some d) (Some m) = (Some e, Some m', None)"
  by (simp add: UpdateOrderFromDetail_Some Let_def)

lemma modify_keeps [simp]:
  "d_OrderID (UpdateOrderFromModifyResponse cs now m d) =
     (if mr_OrderID m \<noteq> [] then mr_OrderID m else d_OrderID d)"
  "d_Exchange (UpdateOrderFromModifyResponse cs now m d) = d_Exchange d"
  "d_InternalOrderID (UpdateOrderFromModifyResponse cs now m d) = d_InternalOrderID d"
  by (simp_all add: UpdateOrderFromModifyResponse_def Let_def) (simp add: upd_hit)

text \<open>An order as it is after its positions were told of it.\<close>

definition tracked :: "detail \<Rightarrow> detail" where
  "tracked d = (if asset_IsFutures (d_AssetType d) then d\<lparr>d_Exchange := ToLower (d_Exchange d)\<rparr> else d)"

lemma tracked_simps [simp]:
  "d_OrderID (tracked d) = d_OrderID d" "ToLower (d_Exchange (tracked d)) = ToLower (d_Exchange d)"
  "d_InternalOrderID (tracked d) = d_InternalOrderID d" "d_AssetType (tracked d) = d_AssetType d"
  "d_Status (tracked d) = d_Status d" "d_RemainingAmount (tracked d) = d_RemainingAmount d"
  by (simp_all add: tracked_def)

lemma tracked_change_store:
  "\<exists>f. fst (tracked_change track k r x d s) = (set_orders k (r[x := tracked d]) s)\<lparr>positions := f\<rparr>"
proof (cases "asset_IsFutures (d_AssetType d)")
  case True
  then show ?thesis
    by (auto simp: tracked_change_def tracked_def TrackNewOrder_def Let_def split: prod.split
        option.split intro!: exI)
next
  case False
  have "set_orders k (r[x := d]) s = (set_orders k (r[x := d]) s)\<lparr>positions := positions s\<rparr>"
    by (simp add: set_orders_def)
  with False show ?thesis by (auto simp: tracked_change_def tracked_def)
qed

lemma tracked_change_lookup:
  assumes "order_at (orders_of s k) (d_OrderID d) = Some x"
  shows "os_lookup (fst (tracked_change track k (orders_of s k) x d s)) =
    (os_lookup s)((k, d_OrderID d) \<mapsto> tracked d)"
proof -
  obtain f where "fst (tracked_change track k (orders_of s k) x d s) =
      (set_orders k ((orders_of s k)[x := tracked d]) s)\<lparr>positions := f\<rparr>"
    using tracked_change_store [of track k "orders_of s k" x d s] by blast
  then show ?thesis using os_lookup_replace [of s k "tracked d" x] assms by simp
qed

text \<open>The stored order after an update.\<close>

definition merged :: "store \<Rightarrow> time \<Rightarrow> detail \<Rightarrow> detail \<Rightarrow> detail" where
  "merged cs now od d =
     (case UpdateOrderFromDetail cs now (Some d) (Some od) of (Some e, _) \<Rightarrow> e | (None, _) \<Rightarrow> d)"

lemma merged_result:
  "\<exists>m'. UpdateOrderFromDetail cs now (Some d) (Some od) = (Some (merged cs now od d), Some m', None)"
  using update_result [of cs now d od] by (metis (mono_tags, lifting) merged_def option.case(2) prod.case)

lemma merged_keeps:
  "d_OrderID (merged cs now od d) = (if d_OrderID d = [] then d_OrderID od else d_OrderID d)"
  "d_Exchange (merged cs now od d) = (if d_Exchange d = [] then d_Exchange od else d_Exchange d)"
  "d_InternalOrderID (merged cs now od d) =
     (if uuid_IsNil (d_InternalOrderID d) then d_InternalOrderID od else d_InternalOrderID d)"
  using merged_result [of cs now d od] by (auto dest: update_keeps)

lemma updateExisting_hit:
  assumes "os_lookup s (ToLower (d_Exchange od), d_OrderID od) = Some d"
  shows "os_lookup (fst (os_updateExisting cs track now (Some od) s)) =
    (os_lookup s)((ToLower (d_Exchange od), d_OrderID od) \<mapsto> tracked (merged cs now od d))"
proof -
  let ?k = "ToLower (d_Exchange od)"
  obtain r x where r: "map_of (Orders s) ?k = Some r" and x: "order_at r (d_OrderID od) = Some x"
    and d: "d = r ! x"
    using assms by (auto simp: os_lookup_def orders_of_def split: option.split_asm)
  obtain m' where u: "UpdateOrderFromDetail cs now (Some (r ! x)) (Some od) =
      (Some (merged cs now od d), Some m', None)"
    using merged_result [of cs now "r ! x" od] by (auto simp: d)
  have oid: "d_OrderID (merged cs now od d) = d_OrderID od"
    using order_at_Some [OF x] by (simp add: d merged_keeps)
  have "fst (os_updateExisting cs track now (Some od) s) =
      fst (tracked_change track ?k r x (merged cs now od d) s)"
    by (simp add: os_updateExisting_def r x u case_prod_beta Let_def)
  then show ?thesis
    using tracked_change_lookup [of s ?k "merged cs now od d" x track] x
    by (simp add: orders_of_Some [OF r] oid)
qed

lemma updateExisting_miss:
  assumes "os_lookup s (ToLower (d_Exchange od), d_OrderID od) = None"
  shows "fst (os_updateExisting cs track now (Some od) s) = s"
    "snd (snd (os_updateExisting cs track now (Some od) s)) \<noteq> None"
  using assms by (auto simp: os_updateExisting_def os_lookup_def orders_of_def split: option.split)

lemma upsert_order_lookup:
  assumes "upsert_order cs now v4 v5 k od s = (s', od', res)"
  shows "case res of Inl e \<Rightarrow> s' = s | Inr u \<Rightarrow>
    IsNewOrder u = (os_lookup s (k, d_OrderID od) = None) \<and>
    os_lookup s' = (os_lookup s)((k, d_OrderID od) \<mapsto> OrderDetails u) \<and>
    OrderDetails u = (case os_lookup s (k, d_OrderID od) of
      None \<Rightarrow> GenerateInternalOrderID v4 v5 od | Some d \<Rightarrow> merged cs now od d)"
proof (cases "order_at (orders_of s k) (d_OrderID od)")
  case None
  with assms show ?thesis
    using os_lookup_append [of s k "GenerateInternalOrderID v4 v5 od"]
    by (auto simp: upsert_order_def Let_def order_at_lookup [symmetric] os_lookup_def)
next
  case (Some x)
  let ?d = "orders_of s k ! x"
  obtain m' where u: "UpdateOrderFromDetail cs now (Some ?d) (Some od) =
      (Some (merged cs now od ?d), Some m', None)"
    using merged_result by blast
  have oid: "d_OrderID (merged cs now od ?d) = d_OrderID od"
    using order_at_Some [OF Some] by (simp add: merged_keeps)
  show ?thesis
    using assms Some os_lookup_replace [of s k "merged cs now od ?d" x]
    by (auto simp: upsert_order_def Let_def u oid os_lookup_def)
qed

lemma add_lookup:
  "case os_add em track v4 v5 (Some od) s of (s', od', err) \<Rightarrow>
     if os_lookup s (ToLower (d_Exchange od), d_OrderID od) \<noteq> None \<or>
        isl (GetExchangeByName em (ToLower (d_Exchange od)))
     then s' = s \<and> err \<noteq> None
     else os_lookup s' = (os_lookup s)((ToLower (d_Exchange od), d_OrderID od) \<mapsto>
            tracked (GenerateInternalOrderID v4 v5 od))"
proof -
  let ?k = "ToLower (d_Exchange od)"
  have "tracked (GenerateInternalOrderID v4 v5 od) = (if asset_IsFutures (d_AssetType od)
      then (GenerateInternalOrderID v4 v5 od)\<lparr>d_Exchange := ?k\<rparr> else GenerateInternalOrderID v4 v5 od)"
    by (simp add: tracked_def)
  then show ?thesis
    using os_lookup_append [of s ?k "tracked (GenerateInternalOrderID v4 v5 od)"]
    by (auto simp: os_add_def Let_def TrackNewOrder_def order_at_lookup split: sum.split prod.split)
qed

lemma upsert_lookup:
  "case os_upsert cs em track now v4 v5 (Some od) s of (s', od', res) \<Rightarrow>
     (case res of
        Inl err \<Rightarrow> os_lookup s' = os_lookup s
      | Inr u \<Rightarrow>
          IsNewOrder u = (os_lookup s (ToLower (d_Exchange od), d_OrderID od) = None) \<and>
          os_lookup s' =
            (os_lookup s)((ToLower (d_Exchange od), d_OrderID od) \<mapsto> OrderDetails u) \<and>
          OrderDetails u = (case os_lookup s (ToLower (d_Exchange od), d_OrderID od) of
            None \<Rightarrow> GenerateInternalOrderID v4 v5 (tracked od)
          | Some d \<Rightarrow> merged cs now (tracked od) d))"
proof -
  let ?k = "ToLower (d_Exchange od)"
  obtain s' od' res where u: "os_upsert cs em track now v4 v5 (Some od) s = (s', od', res)"
    by (metis prod_cases3)
  consider e where "res = Inl e" "os_lookup s' = os_lookup s"
    | f where "upsert_order cs now v4 v5 ?k (tracked od) (s\<lparr>positions := f\<rparr>) = (s', od', res)"
    | "upsert_order cs now v4 v5 ?k (tracked od) s = (s', od', res)"
    using u by (auto simp: os_upsert_def Let_def TrackNewOrder_def tracked_def
        split: sum.split_asm if_split_asm prod.split_asm option.split_asm)
  then show ?thesis
  proof cases
    case (2 f)
    from upsert_order_lookup [OF 2] show ?thesis by (simp add: u split: sum.splits)
  next
    case 3
    from upsert_order_lookup [OF 3] show ?thesis by (simp add: u split: sum.splits)
  qed (simp add: u)
qed

section \<open>Invariant\<close>

text \<open>What the internal ids come from: neither generator returns the nil id.\<close>

definition ids_ok :: "uuid go_result \<Rightarrow> (string \<Rightarrow> uuid) \<Rightarrow> bool" where
  "ids_ok v4 v5 \<longleftrightarrow>
     (case v4 of Inl _ \<Rightarrow> True | Inr u \<Rightarrow> \<not> uuid_IsNil u) \<and> (\<forall>x. \<not> uuid_IsNil (v5 x))"

text \<open>The ids of \<open>C\<close>, each with its exchange, are those a modification has given to an order while
  another order of that exchange had it; every other id is the id of at most one order.\<close>

definition single_ids :: "(string \<times> string) set \<Rightarrow> string \<Rightarrow> detail list \<Rightarrow> bool" where
  "single_ids C k r \<longleftrightarrow> distinct (filter (\<lambda>i. (k, i) \<notin> C) (map d_OrderID r))"

definition orders_ok :: "(string \<times> string) set \<Rightarrow> string \<Rightarrow> detail list \<Rightarrow> bool" where
  "orders_ok C k r \<longleftrightarrow>
     k \<noteq> [] \<and> single_ids C k r \<and>
     list_all (\<lambda>d. ToLower (d_Exchange d) = k \<and> \<not> uuid_IsNil (d_InternalOrderID d)) r"

definition order_store_inv :: "(string \<times> string) set \<Rightarrow> 'f order_store \<Rightarrow> bool" where
  "order_store_inv C s \<longleftrightarrow>
     distinct (map fst (Orders s)) \<and> list_all (\<lambda>(k, r). orders_ok C k r) (Orders s)"

lemma single_ids_append: "single_ids C k r \<Longrightarrow> d_OrderID d \<notin> d_OrderID ` set r \<Longrightarrow> single_ids C k (r @ [d])"
  by (auto simp: single_ids_def)

lemma distinct_filter_update:
  assumes "distinct (filter P xs)" and "y \<notin> set xs \<or> \<not> P y"
  shows "distinct (filter P (xs[n := y]))"
  using assms
proof (induction xs arbitrary: n)
  case (Cons x xs)
  show ?case
  proof (cases n)
    case (Suc m)
    have "distinct (filter P (xs[m := y]))" using Cons by (auto split: if_split_asm)
    moreover have "x \<notin> set (filter P (xs[m := y]))" if "P x"
      using Cons.prems that set_update_subset_insert [of xs m y] by auto
    ultimately show ?thesis by (simp add: Suc)
  qed (use Cons.prems in \<open>auto split: if_split_asm\<close>)
qed simp

lemma single_ids_rename:
  "single_ids C k r \<Longrightarrow> d_OrderID d \<notin> d_OrderID ` set r \<or> (k, d_OrderID d) \<in> C \<Longrightarrow>
   single_ids C k (r[x := d])"
  unfolding single_ids_def map_update by (rule distinct_filter_update) auto

lemma single_ids_more:
  assumes "single_ids C k r" and "C \<subseteq> C'"
  shows "single_ids C' k r"
proof -
  have "filter (\<lambda>i. (k, i) \<notin> C') xs = filter (\<lambda>i. (k, i) \<notin> C') (filter (\<lambda>i. (k, i) \<notin> C) xs)" for xs
    using assms(2) by (induction xs) auto
  then show ?thesis using assms(1) by (metis distinct_filter single_ids_def)
qed

lemma order_store_inv_more: "order_store_inv C s \<Longrightarrow> C \<subseteq> C' \<Longrightarrow> order_store_inv C' s"
  by (auto simp: order_store_inv_def orders_ok_def list_all_iff intro: single_ids_more)

lemma order_store_inv_orders: "order_store_inv C s \<Longrightarrow> k \<noteq> [] \<Longrightarrow> orders_ok C k (orders_of s k)"
  by (auto simp: order_store_inv_def orders_of_def orders_ok_def list_all_iff single_ids_def
      split: option.split dest!: map_of_SomeD)

lemma order_store_inv_name: "order_store_inv C s \<Longrightarrow> map_of (Orders s) k = Some r \<Longrightarrow> k \<noteq> []"
  by (auto simp: order_store_inv_def list_all_iff orders_ok_def dest!: map_of_SomeD)

lemma order_store_inv_positions [simp]: "order_store_inv C (s\<lparr>positions := f\<rparr>) = order_store_inv C s"
  by (simp add: order_store_inv_def)

lemma list_all_update: "list_all P xs \<Longrightarrow> P (k, v) \<Longrightarrow> list_all P (AList.update k v xs)"
  by (induction xs) auto

lemma order_store_inv_set:
  assumes "order_store_inv C s" and "orders_ok C k r"
  shows "order_store_inv C (set_orders k r s)"
  using assms by (simp add: order_store_inv_def set_orders_def distinct_update list_all_update)

lemma orders_ok_append:
  assumes "orders_ok C k r" and "order_at r (d_OrderID d) = None"
    and "ToLower (d_Exchange d) = k" and "\<not> uuid_IsNil (d_InternalOrderID d)"
  shows "orders_ok C k (r @ [d])"
  using assms by (auto simp: orders_ok_def order_at_None intro!: single_ids_append)

lemma orders_ok_replace:
  assumes "orders_ok C k r" and "order_at r (d_OrderID d) = Some x"
    and "ToLower (d_Exchange d) = k" and "\<not> uuid_IsNil (d_InternalOrderID d)"
  shows "orders_ok C k (r[x := d])"
  using assms map_OrderID_update [OF assms(2)] set_update_subset_insert [of r x d]
  by (auto simp: orders_ok_def single_ids_def list_all_iff)

text \<open>A changed id is one no other order of the exchange has, or is counted among those of \<open>C\<close>.\<close>

lemma orders_ok_rename:
  assumes "orders_ok C k r" and "order_at r (d_OrderID d) = None \<or> (k, d_OrderID d) \<in> C"
    and "ToLower (d_Exchange d) = k" and "\<not> uuid_IsNil (d_InternalOrderID d)"
  shows "orders_ok C k (r[x := d])"
  using assms set_update_subset_insert [of r x d]
  by (auto simp: orders_ok_def list_all_iff order_at_None intro!: single_ids_rename)

lemma orders_ok_nth:
  assumes "orders_ok C k r" and "order_at r oid = Some x"
  shows "x < length r" "d_OrderID (r ! x) = oid" "ToLower (d_Exchange (r ! x)) = k"
    "\<not> uuid_IsNil (d_InternalOrderID (r ! x))" "d_Exchange (r ! x) \<noteq> []"
  using assms order_at_Some [OF assms(2)]
  by (auto simp: orders_ok_def list_all_iff)

lemma tracked_change_inv:
  assumes "order_store_inv C s" and "orders_ok C k (r[x := tracked d])"
  shows "order_store_inv C (fst (tracked_change track k r x d s))"
  using tracked_change_store [of track k r x d s] order_store_inv_set [OF assms] by auto

lemma merged_ok:
  assumes "orders_ok C k r" and "order_at r (d_OrderID od) = Some x"
  shows "orders_ok C k (r[x := merged cs now od (r ! x)])"
    "orders_ok C k (r[x := tracked (merged cs now od (r ! x))])"
  using orders_ok_nth [OF assms] assms
  by (auto simp: merged_keeps intro!: orders_ok_replace)

lemma generated_id_set:
  assumes "ids_ok v4 v5"
  shows "\<not> uuid_IsNil (d_InternalOrderID (GenerateInternalOrderID v4 v5 d))"
  using assms by (auto simp: GenerateInternalOrderID_def ids_ok_def split: sum.split)

lemma GetExchangeByName_nonempty: "GetExchangeByName em k = Inr e \<Longrightarrow> k \<noteq> []"
  by (auto simp: GetExchangeByName_def split: option.split_asm)

lemma add_inv:
  assumes "order_store_inv C s" and "ids_ok v4 v5"
  shows "order_store_inv C (fst (os_add em track v4 v5 dopt s))"
proof (cases dopt)
  case (Some d)
  let ?k = "ToLower (d_Exchange d)"
  have "orders_ok C ?k (orders_of s ?k @ [GenerateInternalOrderID v4 v5 d])"
    "orders_ok C ?k (orders_of s ?k @ [(GenerateInternalOrderID v4 v5 d)\<lparr>d_Exchange := ?k\<rparr>])"
    if "?k \<noteq> []" "order_at (orders_of s ?k) (d_OrderID d) = None"
    using order_store_inv_orders [OF assms(1) that(1)] that generated_id_set [OF assms(2)]
    by (auto intro!: orders_ok_append)
  then show ?thesis
    using assms(1) by (auto simp: os_add_def Some Let_def TrackNewOrder_def split: sum.split
        prod.split dest!: GetExchangeByName_nonempty intro!: order_store_inv_set)
qed (simp add: os_add_def assms)

lemma updateExisting_inv:
  assumes "order_store_inv C s"
  shows "order_store_inv C (fst (os_updateExisting cs track now odo s))"
proof (cases odo)
  case (Some od)
  let ?k = "ToLower (d_Exchange od)"
  show ?thesis
  proof (cases "map_of (Orders s) ?k")
    case r: (Some r)
    show ?thesis
    proof (cases "order_at r (d_OrderID od)")
      case x: (Some x)
      have ok: "orders_ok C ?k r"
        using order_store_inv_orders [OF assms order_store_inv_name [OF assms r]] by (simp add: orders_of_Some [OF r])
      obtain m' where u: "UpdateOrderFromDetail cs now (Some (r ! x)) (Some od) =
          (Some (merged cs now od (r ! x)), Some m', None)"
        using merged_result by blast
      show ?thesis
        using tracked_change_inv [OF assms merged_ok(2) [OF ok x]]
        by (simp add: os_updateExisting_def Some r x u Let_def case_prod_beta)
    qed (simp add: os_updateExisting_def Some r assms)
  qed (simp add: os_updateExisting_def Some assms)
qed (simp add: os_updateExisting_def assms)

text \<open>The id a modification gives to an order although some order of the exchange has it already:
  \<open>modifyExisting\<close> does not look.\<close>

definition clashes :: "'f order_store \<Rightarrow> string \<Rightarrow> modify_response \<Rightarrow> (string \<times> string) set" where
  "clashes s oid md =
     (let key = (ToLower (mr_Exchange md), mr_OrderID md)
      in if mr_OrderID md \<in> {[], oid} \<or> os_lookup s key = None then {} else {key})"

lemma modifyExisting_inv:
  assumes "order_store_inv C s"
    and "clashes s oid md \<subseteq> C"
  shows "order_store_inv C (fst (os_modifyExisting cs track now oid md s))"
proof (cases "map_of (Orders s) (ToLower (mr_Exchange md))")
  case r: (Some r)
  show ?thesis
  proof (cases "order_at r oid")
    case x: (Some x)
    let ?d = "UpdateOrderFromModifyResponse cs now md (r ! x)"
    have ok: "orders_ok C (ToLower (mr_Exchange md)) r"
      using order_store_inv_orders [OF assms(1) order_store_inv_name [OF assms(1) r]]
      by (simp add: orders_of_Some [OF r])
    have "orders_ok C (ToLower (mr_Exchange md)) (r[x := tracked ?d])"
    proof (cases "mr_OrderID md \<in> {[], oid}")
      case True
      then show ?thesis using ok x orders_ok_nth [OF ok x] by (auto intro!: orders_ok_replace)
    next
      case False
      then have "order_at r (mr_OrderID md) = None \<or> (ToLower (mr_Exchange md), mr_OrderID md) \<in> C"
        using assms(2) by (auto simp: clashes_def os_lookup_def orders_of_Some [OF r] split: if_split_asm)
      then show ?thesis
        using False ok orders_ok_nth [OF ok x] by (auto intro!: orders_ok_rename)
    qed
    then show ?thesis using tracked_change_inv [OF assms(1)] by (simp add: os_modifyExisting_def r x)
  qed (simp add: os_modifyExisting_def r assms)
qed (simp add: os_modifyExisting_def assms)

lemma upsert_order_inv:
  assumes "order_store_inv C s" and "k = ToLower (d_Exchange od)" and "k \<noteq> []"
    and "ids_ok v4 v5"
  shows "order_store_inv C (fst (upsert_order cs now v4 v5 k od s))"
proof (cases "order_at (orders_of s k) (d_OrderID od)")
  case None
  then show ?thesis
    using assms order_store_inv_orders [OF assms(1,3)] generated_id_set [OF assms(4)]
    by (auto simp: upsert_order_def Let_def intro!: order_store_inv_set orders_ok_append)
next
  case (Some x)
  obtain m' where u: "UpdateOrderFromDetail cs now (Some (orders_of s k ! x)) (Some od) =
      (Some (merged cs now od (orders_of s k ! x)), Some m', None)"
    using merged_result by blast
  show ?thesis
    using merged_ok(1) [OF order_store_inv_orders [OF assms(1,3)] Some] assms(1)
    by (simp add: upsert_order_def Let_def Some u order_store_inv_set)
qed

lemma upsert_inv:
  assumes "order_store_inv C s" and "ids_ok v4 v5"
  shows "order_store_inv C (fst (os_upsert cs em track now v4 v5 odo s))"
proof (cases odo)
  case (Some od)
  let ?k = "ToLower (d_Exchange od)"
  have step: "order_store_inv C (fst (upsert_order cs now v4 v5 ?k od' s'))"
    if "order_store_inv C s'" "?k \<noteq> []" "ToLower (d_Exchange od') = ?k" for od' s'
    using upsert_order_inv [OF that(1) that(3) [symmetric] that(2) assms(2)] .
  show ?thesis
    using assms
    by (auto simp: os_upsert_def Some Let_def TrackNewOrder_def split: sum.split prod.split option.split
        dest!: GetExchangeByName_nonempty intro!: step)
qed (simp add: os_upsert_def assms)

section \<open>The store as a state machine\<close>

text \<open>Any sequence of the four operations, in any order and with any arguments.  \<open>C\<close> collects the
  ids that modifications have given to a second order.\<close>

inductive store_step ::
    "store \<Rightarrow> 'e exchange_manager option \<Rightarrow> 'f tracker \<Rightarrow> (string \<times> string) set \<Rightarrow> 'f order_store \<Rightarrow>
     (string \<times> string) set \<Rightarrow> 'f order_store \<Rightarrow> bool"
  for cs :: store and em :: "'e exchange_manager option" and track :: "'f tracker" where
  add: "ids_ok v4 v5 \<Longrightarrow> store_step cs em track C s C (fst (os_add em track v4 v5 d s))"
| upsert: "ids_ok v4 v5 \<Longrightarrow> store_step cs em track C s C (fst (os_upsert cs em track now v4 v5 d s))"
| update: "store_step cs em track C s C (fst (os_updateExisting cs track now d s))"
| modify: "store_step cs em track C s (C \<union> clashes s oid m) (fst (os_modifyExisting cs track now oid m s))"

inductive store_reachable ::
    "store \<Rightarrow> 'e exchange_manager option \<Rightarrow> 'f tracker \<Rightarrow> (string \<times> string) set \<Rightarrow> 'f order_store \<Rightarrow> bool"
  for cs :: store and em :: "'e exchange_manager option" and track :: "'f tracker" where
  empty: "store_reachable cs em track {} \<lparr>Orders = [], positions = f\<rparr>"
| step: "store_reachable cs em track C s \<Longrightarrow> store_step cs em track C s C' s' \<Longrightarrow>
     store_reachable cs em track C' s'"

inductive_cases store_stepE: "store_step cs em track C s C' s'"

lemma store_step_inv: "store_step cs em track C s C' s' \<Longrightarrow> order_store_inv C s \<Longrightarrow> order_store_inv C' s'"
proof (erule store_stepE)
  fix oid m now
  assume "C' = C \<union> clashes s oid m" "s' = fst (os_modifyExisting cs track now oid m s)" "order_store_inv C s"
  then show "order_store_inv C' s'"
    using modifyExisting_inv [OF order_store_inv_more [of C s C']] by simp
qed (simp_all add: add_inv upsert_inv updateExisting_inv)

lemma store_reachable_inv: "store_reachable cs em track C s \<Longrightarrow> order_store_inv C s"
proof (induction rule: store_reachable.induct)
  case (empty f)
  then show ?case by (simp add: order_store_inv_def)
qed (rule store_step_inv)

lemma lookup_inv:
  assumes "order_store_inv C s" and "os_lookup s (k, oid) = Some d"
  shows "d_OrderID d = oid" "ToLower (d_Exchange d) = k" "\<not> uuid_IsNil (d_InternalOrderID d)"
proof -
  obtain r x where r: "map_of (Orders s) k = Some r" and x: "order_at r oid = Some x" "d = r ! x"
    using assms(2) by (auto simp: os_lookup_def orders_of_def split: option.split_asm)
  have "orders_ok C k r"
    using order_store_inv_orders [OF assms(1) order_store_inv_name [OF assms(1) r]]
    by (simp add: orders_of_Some [OF r])
  from orders_ok_nth [OF this x(1)] x(2) show "d_OrderID d = oid" "ToLower (d_Exchange d) = k"
    "\<not> uuid_IsNil (d_InternalOrderID d)" by simp_all
qed

section \<open>Properties\<close>


text \<open>The exception is real: an order that is renamed to the id of another order of its exchange
  leaves two orders of that id, of which only the first is found.\<close>

lemma clashing_modification:
  assumes "os_lookup s (ToLower (mr_Exchange m), oid) = Some d" and "mr_OrderID m \<notin> {[], oid}"
    and "os_lookup s (ToLower (mr_Exchange m), mr_OrderID m) = Some d'"
  shows "\<not> distinct (map d_OrderID
    (orders_of (fst (os_modifyExisting cs track now oid m s)) (ToLower (mr_Exchange m))))"
proof -
  let ?k = "ToLower (mr_Exchange m)"
  obtain r x y where r: "map_of (Orders s) ?k = Some r" and x: "order_at r oid = Some x"
    and y: "order_at r (mr_OrderID m) = Some y"
    using assms(1,3) by (auto simp: os_lookup_def orders_of_def split: option.split_asm)
  let ?r = "r[x := tracked (UpdateOrderFromModifyResponse cs now m (r ! x))]"
  have xy: "x < length r" "y < length r" "x \<noteq> y" "d_OrderID (r ! y) = mr_OrderID m"
    using order_at_Some [OF x] order_at_Some [OF y] assms(2) by auto
  have "d_OrderID (?r ! x) = d_OrderID (?r ! y)" using xy assms(2) by simp
  then have "map d_OrderID ?r ! x = map d_OrderID ?r ! y" using xy(1,2) by simp
  then have "\<not> distinct (map d_OrderID ?r)"
    using xy(1-3) nth_eq_iff_index_eq [of "map d_OrderID ?r" x y] by auto
  moreover have "orders_of (fst (os_modifyExisting cs track now oid m s)) ?k = ?r"
    using tracked_change_store [of track ?k r x "UpdateOrderFromModifyResponse cs now m (r ! x)" s]
    by (auto simp: os_modifyExisting_def r x)
  ultimately show ?thesis by simp
qed

text \<open>C4: the store is a map from exchange and order id to order.  Adding an order
  of a loaded exchange that is not in the map adds it (whatever the position controller says), and
  adding one that is changes nothing and is an error; an upsert adds or merges and says which, and
  returns what is now stored; an update merges into an order that is there and is an error for one
  that is not.  No operation touches any other order.\<close>

theorem store_refines_map:
  "let key = (ToLower (d_Exchange od), d_OrderID od);
       found = os_lookup s key
   in (case os_add em track v4 v5 (Some od) s of (s', od', err) \<Rightarrow>
         if (case found of None \<Rightarrow> isl (GetExchangeByName em (fst key)) | Some _ \<Rightarrow> True) then s' = s \<and> err \<noteq> None
         else os_lookup s' = (os_lookup s)(key \<mapsto> tracked (GenerateInternalOrderID v4 v5 od))) \<and>
      (case os_upsert cs em track now v4 v5 (Some od) s of (s', od', res) \<Rightarrow>
         (case res of
            Inl err \<Rightarrow> os_lookup s' = os_lookup s
          | Inr u \<Rightarrow>
              IsNewOrder u = (found = None) \<and>
              os_lookup s' = (os_lookup s)(key \<mapsto> OrderDetails u) \<and>
              OrderDetails u = (case found of
                None \<Rightarrow> GenerateInternalOrderID v4 v5 (tracked od)
              | Some d \<Rightarrow> merged cs now (tracked od) d))) \<and>
      (case os_updateExisting cs track now (Some od) s of (s', od', err) \<Rightarrow>
         (case found of
            None \<Rightarrow> s' = s \<and> err \<noteq> None
          | Some d \<Rightarrow> os_lookup s' = (os_lookup s)(key \<mapsto> tracked (merged cs now od d))))"
proof -
  let ?k = "ToLower (d_Exchange od)"
  have upd: "case os_updateExisting cs track now (Some od) s of (s', od', err) \<Rightarrow>
      (case os_lookup s (?k, d_OrderID od) of None \<Rightarrow> s' = s \<and> err \<noteq> None
       | Some d \<Rightarrow> os_lookup s' =
           (os_lookup s)((?k, d_OrderID od) \<mapsto> tracked (merged cs now od d)))"
    using updateExisting_hit [of s od _ cs track now] updateExisting_miss [of s od cs track now]
    by (auto split: prod.split option.split)
  have miss: "(case x of None \<Rightarrow> b | Some _ \<Rightarrow> True) \<longleftrightarrow> x \<noteq> None \<or> b" for x :: "detail option" and b
    by (cases x) simp_all
  from upd show ?thesis by (simp only: Let_def fst_conv miss add_lookup upsert_lookup simp_thms)
qed

lemma filter_other_exchange:
  assumes "orders_ok C k r" and "f_Exchange f \<noteq> []" and "k \<noteq> ToLower (f_Exchange f)"
  shows "filter (\<lambda>d. MatchFilter cs d f) r = []"
  using assms by (auto simp: orders_ok_def list_all_iff MatchFilter_def EqualFold_def filter_empty_conv)

lemma concat_single_key:
  assumes "distinct (map fst xs)" and "\<And>k' v. (k', v) \<in> set xs \<Longrightarrow> k' \<noteq> k \<Longrightarrow> g v = []"
  shows "concat (map (\<lambda>(k, v). g v) xs) = (case map_of xs k of None \<Rightarrow> [] | Some v \<Rightarrow> g v)"
  using assms
proof (induction xs)
  case (Cons p xs)
  obtain k' v where p: "p = (k', v)" by force
  show ?case
  proof (cases "k' = k")
    case True
    then have none: "map_of xs k = None" using Cons.prems(1) by (simp add: p map_of_eq_None_iff)
    have "concat (map (\<lambda>(k, v). g v) xs) =
        (case map_of xs k of None \<Rightarrow> [] | Some v \<Rightarrow> g v)"
      using Cons.prems by (intro Cons.IH) (auto simp: p)
    then show ?thesis using none True by (simp add: p)
  next
    case False
    then have "g v = []" using Cons.prems(2) [of k' v] by (simp add: p)
    moreover have "concat (map (\<lambda>(k, v). g v) xs) =
        (case map_of xs k of None \<Rightarrow> [] | Some v \<Rightarrow> g v)"
      using Cons.prems by (intro Cons.IH) (auto simp: p)
    ultimately show ?thesis using False by (simp add: p)
  qed
qed simp

text \<open>Also: the shortcut of \<open>getFilteredOrders\<close> for a filter with an exchange, which
  looks at the orders of that exchange only, gives the same list as matching the filter against every
  order of the store.\<close>

theorem filtered_orders:
  assumes "store_reachable cs em track C s"
  shows "os_getFilteredOrders cs' (Some f) s =
    Inr (filter (\<lambda>d. MatchFilter cs' d f) (concat (map snd (Orders s))))"
proof -
  have inv: "order_store_inv C s" by (rule store_reachable_inv [OF assms])
  let ?g = "filter (\<lambda>d. MatchFilter cs' d f)"
  have all: "?g (concat (map snd (Orders s))) = concat (map (\<lambda>(k, e). ?g e) (Orders s))"
    by (simp add: filter_concat comp_def case_prod_beta')
  have copy: "map detail_Copy r = r" for r by (induction r) auto
  show ?thesis
  proof (cases "f_Exchange f = []")
    case True
    then show ?thesis by (simp add: os_getFilteredOrders_def all_copies_def copies_def copy all)
  next
    case False
    have "concat (map (\<lambda>(k, e). ?g e) (Orders s)) =
        (case map_of (Orders s) (ToLower (f_Exchange f)) of None \<Rightarrow> [] | Some e \<Rightarrow> ?g e)"
    proof (rule concat_single_key)
      show "distinct (map fst (Orders s))" using inv by (simp add: order_store_inv_def)
      show "?g v = []" if "(k', v) \<in> set (Orders s)" "k' \<noteq> ToLower (f_Exchange f)" for k' v
        using filter_other_exchange [OF _ False that(2)] inv that(1)
        by (auto simp: order_store_inv_def list_all_iff)
    qed
    then show ?thesis
      using False by (simp add: os_getFilteredOrders_def copies_def copy all split: option.split)
  qed
qed

text \<open>Also: the active orders are those an active status and an unfilled amount say so,
  narrowed by the filter, and besides them every order of unknown status, which the filter does not
  narrow unless it names an exchange.\<close>

theorem active_orders:
  "set (os_getActiveOrders cs fo s) =
     (let stored = (\<Union>(k, r) \<in> set (Orders s). set r)
      in case fo of
           None \<Rightarrow> {d \<in> stored. d_Status d = UnknownStatus \<or> IsActive d}
         | Some f \<Rightarrow>
             {d \<in> (if f_Exchange f = [] then stored
                   else set (orders_of s (ToLower (f_Exchange f)))).
              d_Status d = UnknownStatus \<or> (IsActive d \<and> MatchFilter cs d f)})"
  by (auto simp: os_getActiveOrders_def all_copies_def copies_def orders_of_def Let_def
      split: option.split)

section \<open>Examples\<close>

text \<open>A position controller that refuses every order, and a store made by two additions.\<close>

definition demo_track :: "unit tracker" where
  "demo_track f d = (f, Some (Sentinel ''futures.ErrPositionClosed''))"

definition demo_v5 :: "string \<Rightarrow> uuid" where
  "demo_v5 oid = 5"

definition demo_store :: "unit order_store" where
  "demo_store =
     fst (os_add (Some demo_manager) demo_track (Inr 7) demo_v5
       (Some (demo_detail\<lparr>d_Exchange := ''Kraken''\<rparr>)) \<lparr>Orders = [], positions = ()\<rparr>)"

lemma demo_store_reachable: "store_reachable cs (Some demo_manager) demo_track {} demo_store"
  unfolding demo_store_def
  by (rule store_reachable.step [OF store_reachable.empty], rule store_step.add)
    (simp add: ids_ok_def uuid_IsNil_def demo_v5_def)


theorem filtered_orders_witness:
  "os_getFilteredOrders demo_registry (Some (empty_filter\<lparr>f_Exchange := ''KRAKEN''\<rparr>)) demo_store =
    Inr (filter (\<lambda>d. MatchFilter demo_registry d (empty_filter\<lparr>f_Exchange := ''KRAKEN''\<rparr>))
      (concat (map snd (Orders demo_store))))"
  by (rule filtered_orders [OF demo_store_reachable [of demo_registry]])

end
