(* ===== verification/Ticker.thy ===== *)
theory Ticker
  imports Currency_Pairs Asset Go_Float Dispatch "HOL-Library.AList"
begin

text \<open>
  The ticker store (\<open>exchanges/ticker/ticker.go\<close>, \<open>ticker_types.go\<close>) and its keys
  (\<open>common/key/key.go\<close>): the last price of every exchange, pair and asset, kept as a copy, with the
  channels of the dispatch multiplexer that its updates are published to.  The global service is the
  record \<open>ticker_service\<close>; its maps are association lists in an order Go may iterate them in; the
  mutex makes every function one step.  What is published is the price that was processed.

  The lemmas show that a processed ticker is what a later read returns, that no other ticker
  changes, that a ticker of a crossed market is never stored, and what the first and the later
  updates publish.
\<close>

section \<open>Data\<close>

record ticker_price =
  Last :: f64
  High :: f64
  tp_Low :: f64
  Bid :: f64
  BidSize :: f64
  Ask :: f64
  AskSize :: f64
  Volume :: f64
  QuoteVolume :: f64
  PriceATH :: f64
  tp_Open :: f64
  Close :: f64
  OpenInterest :: f64
  tp_MarkPrice :: f64
  tp_IndexPrice :: f64
  tp_Pair :: pair
  ExchangeName :: string
  tp_AssetType :: asset_item
  tp_LastUpdated :: time
  FlashReturnRate :: f64
  BidPeriod :: f64
  AskPeriod :: f64
  FlashReturnRateAmount :: f64

record ticker =
  tk_Price :: ticker_price
  tk_Main :: Dispatch.uuid
  tk_Assoc :: "Dispatch.uuid list"

record exchange_pair_asset =
  key_Exchange :: string
  key_Base :: "item_ptr option"
  key_Quote :: "item_ptr option"
  key_Asset :: asset_item

record ticker_service =
  Tickers :: "(exchange_pair_asset \<times> ticker) list"
  tk_Exchange :: "(string \<times> Dispatch.uuid) list"
  tk_mux :: "ticker_price mux"

definition ErrNoTickerFound :: go_error where
  "ErrNoTickerFound = Sentinel ''ticker.ErrNoTickerFound''"
definition ErrBidEqualsAsk :: go_error where
  "ErrBidEqualsAsk = Sentinel ''ticker.ErrBidEqualsAsk''"
definition ErrExchangeNameIsEmpty :: go_error where
  "ErrExchangeNameIsEmpty = Sentinel ''ticker.ErrExchangeNameIsEmpty''"
definition errInvalidTicker :: go_error where
  "errInvalidTicker = Sentinel ''ticker.errInvalidTicker''"
definition errTickerNotFound :: go_error where
  "errTickerNotFound = Sentinel ''ticker.errTickerNotFound''"
definition errBidGreaterThanAsk :: go_error where
  "errBidGreaterThanAsk = Sentinel ''ticker.errBidGreaterThanAsk''"
definition errExchangeNotFound :: go_error where
  "errExchangeNotFound = Sentinel ''ticker.errExchangeNotFound''"

section \<open>Keys\<close>

text \<open>A nil key matches nothing; a key is a value here.  \<open>Item.Currency\<close> makes the code of a
  registry item in upper case, \<open>EMPTYCODE\<close> for nil.\<close>

definition ticker_key :: "string \<Rightarrow> pair \<Rightarrow> asset_item \<Rightarrow> exchange_pair_asset" where
  "ticker_key exch p a =
     \<lparr>key_Exchange = exch, key_Base = Item (Base p), key_Quote = Item (Quote p), key_Asset = a\<rparr>"

definition MatchesExchangeAsset :: "exchange_pair_asset option \<Rightarrow> string \<Rightarrow> asset_item \<Rightarrow> bool" where
  "MatchesExchangeAsset ko exch i =
     (case ko of None \<Rightarrow> False
      | Some k \<Rightarrow> EqualFold (key_Exchange k) exch \<and> key_Asset k = i)"

definition MatchesPairAsset :: "exchange_pair_asset option \<Rightarrow> pair \<Rightarrow> asset_item \<Rightarrow> bool" where
  "MatchesPairAsset ko p i =
     (case ko of None \<Rightarrow> False
      | Some k \<Rightarrow> key_Base k = Item (Base p) \<and> key_Quote k = Item (Quote p) \<and> key_Asset k = i)"

definition MatchesExchange :: "exchange_pair_asset option \<Rightarrow> string \<Rightarrow> bool" where
  "MatchesExchange ko exch =
     (case ko of None \<Rightarrow> False | Some k \<Rightarrow> EqualFold (key_Exchange k) exch)"

section \<open>Reading\<close>

definition SubscribeTicker ::
    "nat \<Rightarrow> ticker_service \<Rightarrow> string \<Rightarrow> pair \<Rightarrow> asset_item \<Rightarrow>
     ticker_service \<times> (nat \<times> Dispatch.uuid) go_result" where
  "SubscribeTicker pick s exch p a =
     (case map_of (Tickers s) (ticker_key (ToLower exch) p a) of
        None \<Rightarrow> (s, Inl (Errorf ''ticker item not found for %s %s %s'' []))
      | Some tick \<Rightarrow>
          (case mux_Subscribe pick (tk_mux s) (tk_Main tick) of (m, r) \<Rightarrow> (s\<lparr>tk_mux := m\<rparr>, r)))"

definition SubscribeToExchangeTickers ::
    "nat \<Rightarrow> ticker_service \<Rightarrow> string \<Rightarrow> ticker_service \<times> (nat \<times> Dispatch.uuid) go_result" where
  "SubscribeToExchangeTickers pick s exch =
     (case map_of (tk_Exchange s) (ToLower exch) of
        None \<Rightarrow> (s, Inl (Errorf ''%s exchange tickers not found'' []))
      | Some i \<Rightarrow> (case mux_Subscribe pick (tk_mux s) i of (m, r) \<Rightarrow> (s\<lparr>tk_mux := m\<rparr>, r)))"

definition GetTicker ::
    "store \<Rightarrow> ticker_service \<Rightarrow> string \<Rightarrow> pair \<Rightarrow> asset_item \<Rightarrow> ticker_price go_result" where
  "GetTicker cs s exch p a =
     (if exch = [] then Inl ErrExchangeNameIsEmpty
      else if pair_IsEmpty cs p then Inl ErrCurrencyPairEmpty
      else if \<not> asset_IsValid a then Inl (Errorf ''%w %v'' [asset_ErrNotSupported])
      else (case map_of (Tickers s) (ticker_key (ToLower exch) p a) of
              None \<Rightarrow> Inl (Errorf ''%w %s %s %s'' [ErrNoTickerFound])
            | Some tick \<Rightarrow> Inr (tk_Price tick)))"

definition getExchangeTickers :: "ticker_service \<Rightarrow> string \<Rightarrow> ticker_price list go_result" where
  "getExchangeTickers s exch =
     (if exch = [] then Inl ErrExchangeNameIsEmpty
      else (case map_of (tk_Exchange s) (ToLower exch) of
              None \<Rightarrow> Inl (Errorf ''%w %v'' [errExchangeNotFound])
            | Some _ \<Rightarrow> Inr (map (tk_Price \<circ> snd)
                               (filter (\<lambda>(k, v). key_Exchange k = ToLower exch) (Tickers s)))))"

fun find_last :: "(exchange_pair_asset \<times> ticker) list \<Rightarrow> pair \<Rightarrow> asset_item \<Rightarrow> f64 go_result" where
  "find_last [] p a = Inl (Errorf ''%w %s %s'' [errTickerNotFound])"
| "find_last ((k, t) # ts) p a =
     (if \<not> MatchesPairAsset (Some k) p a then find_last ts p a
      else if feq (Last (tk_Price t)) 0 then Inl errInvalidTicker
      else Inr (Last (tk_Price t)))"

definition FindLast :: "ticker_service \<Rightarrow> pair \<Rightarrow> asset_item \<Rightarrow> f64 go_result" where
  "FindLast s p a = find_last (Tickers s) p a"

section \<open>Processing\<close>

definition getAssociations ::
    "Dispatch.uuid go_result \<Rightarrow> ticker_service \<Rightarrow> string \<Rightarrow>
     ticker_service \<times> Dispatch.uuid list go_result" where
  "getAssociations newV4 s exch =
     (if exch = [] then (s, Inl ErrExchangeNameIsEmpty)
      else (case map_of (tk_Exchange s) exch of
              Some i \<Rightarrow> (s, Inr [i])
            | None \<Rightarrow>
                (case mux_GetID newV4 (tk_mux s) of
                   (m, Inl err) \<Rightarrow> (s\<lparr>tk_mux := m\<rparr>, Inl err)
                 | (m, Inr i) \<Rightarrow>
                     (s\<lparr>tk_mux := m, tk_Exchange := AList.update exch i (tk_Exchange s)\<rparr>, Inr [i]))))"

text \<open>\<open>newV4\<close> and \<open>newV4'\<close> are what the generator of IDs returns to the two calls.  A ticker whose
  IDs cannot be made is not stored.\<close>

definition setItemID ::
    "Dispatch.uuid go_result \<Rightarrow> Dispatch.uuid go_result \<Rightarrow> ticker_service \<Rightarrow> ticker_price \<Rightarrow> string \<Rightarrow>
     ticker_service \<times> ticker go_result" where
  "setItemID newV4 newV4' s p exch =
     (case getAssociations newV4 s exch of
        (s, Inl err) \<Rightarrow> (s, Inl err)
      | (s, Inr ids) \<Rightarrow>
          (case mux_GetID newV4' (tk_mux s) of
             (m, Inl err) \<Rightarrow> (s\<lparr>tk_mux := m\<rparr>, Inl err)
           | (m, Inr singleID) \<Rightarrow>
               (s\<lparr>tk_mux := m\<rparr>, Inr \<lparr>tk_Price = p, tk_Main = singleID, tk_Assoc = ids\<rparr>)))"

definition ticker_update ::
    "Dispatch.uuid go_result \<Rightarrow> Dispatch.uuid go_result \<Rightarrow> ticker_service \<Rightarrow> ticker_price \<Rightarrow>
     ticker_service \<times> go_error option" where
  "ticker_update newV4 newV4' s p =
     (let name = ToLower (ExchangeName p);
          mapKey = ticker_key name (tp_Pair p) (tp_AssetType p)
      in case map_of (Tickers s) mapKey of
           None \<Rightarrow>
             (case setItemID newV4 newV4' s p name of
                (s, Inl err) \<Rightarrow> (s, Some err)
              | (s, Inr newTicker) \<Rightarrow>
                  (s\<lparr>Tickers := AList.update mapKey newTicker (Tickers s)\<rparr>, None))
         | Some t \<Rightarrow>
             (let s = s\<lparr>Tickers := AList.update mapKey (t\<lparr>tk_Price := p\<rparr>) (Tickers s)\<rparr>;
                  ids = tk_Assoc t @ [tk_Main t]
              in (case mux_Publish (tk_mux s) (Some p) ids of (m, e) \<Rightarrow> (s\<lparr>tk_mux := m\<rparr>, e))))"

text \<open>The result is the service and the caller's price, which gets a time if it has none.\<close>

definition ProcessTicker ::
    "store \<Rightarrow> time \<Rightarrow> Dispatch.uuid go_result \<Rightarrow> Dispatch.uuid go_result \<Rightarrow> ticker_service \<Rightarrow>
     ticker_price option \<Rightarrow> ticker_service \<times> ticker_price option \<times> go_error option" where
  "ProcessTicker cs now newV4 newV4' s po =
     (case po of
        None \<Rightarrow> (s, None, Some (Sentinel ''ticker price is nil''))
      | Some p \<Rightarrow>
          if ExchangeName p = [] then (s, Some p, Some ErrExchangeNameIsEmpty)
          else if pair_IsEmpty cs (tp_Pair p) then (s, Some p, Some (Errorf ''%s %s'' []))
          else if \<not> feq (Bid p) 0 \<and> \<not> feq (Ask p) 0 \<and>
              \<not> (ExchangeName p = ''Bitfinex'' \<and> tp_AssetType p = MarginFunding) \<and>
              feq (Bid p) (Ask p)
            then (s, Some p, Some (Errorf ''%s %s %w'' [ErrBidEqualsAsk]))
          else if \<not> feq (Bid p) 0 \<and> \<not> feq (Ask p) 0 \<and>
              \<not> (ExchangeName p = ''Bitfinex'' \<and> tp_AssetType p = MarginFunding) \<and>
              Ask p < Bid p
            then (s, Some p, Some (Errorf ''%s %s %w'' [errBidGreaterThanAsk]))
          else if tp_AssetType p = Empty then (s, Some p, Some (Errorf ''%s %s %s'' []))
          else
            let p = (if IsZero (tp_LastUpdated p) then p\<lparr>tp_LastUpdated := now\<rparr> else p);
                (s, err) = ticker_update newV4 newV4' s p
            in (s, Some p, err))"

section \<open>Lemmas\<close>

lemma getAssociations_Tickers:
  "getAssociations newV4 s exch = (s', r) \<Longrightarrow> Tickers s' = Tickers s"
  by (auto simp: getAssociations_def split: if_split_asm option.split_asm prod.split_asm sum.split_asm)

lemma setItemID_spec:
  "setItemID newV4 newV4' s p exch = (s', r) \<Longrightarrow> Tickers s' = Tickers s \<and>
     (case r of Inl _ \<Rightarrow> True | Inr t \<Rightarrow> tk_Price t = p)"
  by (auto simp: setItemID_def split: prod.split_asm sum.split_asm dest: getAssociations_Tickers)

text \<open>What an update leaves in the map: the price under its key, unless its IDs could not be made,
  and everything else as it was.\<close>

lemma ticker_update_spec:
  assumes "ticker_update newV4 newV4' s p = (s', err)"
  shows "map_option tk_Price (map_of (Tickers s') k) =
    (if k = ticker_key (ToLower (ExchangeName p)) (tp_Pair p) (tp_AssetType p) \<and>
        (err = None \<or> map_of (Tickers s) k \<noteq> None)
     then Some p else map_option tk_Price (map_of (Tickers s) k))"
proof (cases "map_of (Tickers s) (ticker_key (ToLower (ExchangeName p)) (tp_Pair p) (tp_AssetType p))")
  case None
  obtain s1 r where i: "setItemID newV4 newV4' s p (ToLower (ExchangeName p)) = (s1, r)" by fastforce
  show ?thesis
    using assms None i setItemID_spec [OF i]
    by (cases r) (auto simp: ticker_update_def Let_def update_conv')
next
  case (Some t)
  then show ?thesis
    using assms by (auto simp: ticker_update_def Let_def update_conv' split: prod.split_asm)
qed

lemma ProcessTicker_Some:
  assumes "ProcessTicker cs now newV4 newV4' s (Some p) = (s', po, None)"
  shows "\<exists>q. po = Some q \<and> q = (if IsZero (tp_LastUpdated p) then p\<lparr>tp_LastUpdated := now\<rparr> else p) \<and>
    ticker_update newV4 newV4' s q = (s', None) \<and> ExchangeName p \<noteq> [] \<and>
    \<not> pair_IsEmpty cs (tp_Pair p) \<and> tp_AssetType p \<noteq> Empty \<and>
    \<not> (\<not> feq (Bid p) 0 \<and> \<not> feq (Ask p) 0 \<and>
       \<not> (ExchangeName p = ''Bitfinex'' \<and> tp_AssetType p = MarginFunding) \<and> Ask p \<le> Bid p)"
  using assms feq_sym [of "Bid p" "Ask p"]
  by (auto simp: ProcessTicker_def Let_def f64_le_iff split: if_split_asm prod.split_asm)

text \<open>The first price of a ticker is stored but not published: a subscriber to all tickers of its
  exchange does not get it.\<close>

lemma first_ticker_not_published:
  assumes "map_of (Tickers s) (ticker_key (ToLower (ExchangeName p)) (tp_Pair p) (tp_AssetType p)) = None"
    and "map_of (tk_Exchange s) (ToLower (ExchangeName p)) = Some i" and "ExchangeName p \<noteq> []"
  shows "tk_mux (fst (ticker_update newV4 newV4' s p)) = fst (mux_GetID newV4' (tk_mux s))"
  using assms
  by (auto simp: ticker_update_def Let_def setItemID_def getAssociations_def
      split: prod.split sum.split)

section \<open>Properties\<close>

text \<open>Also: a ticker that was processed is what reading its exchange (in any case),
  pair and asset returns, stamped with the clock if it had no time; every other ticker reads as
  before.  Its market is not crossed, unless it is Bitfinex margin funding.\<close>

theorem ticker_read_back:
  assumes "ProcessTicker cs now newV4 newV4' s (Some p) = (s', po, None)"
    and "asset_IsValid (tp_AssetType p)"
  shows "GetTicker cs s' (ToUpper (ExchangeName p)) (tp_Pair p) (tp_AssetType p) =
      Inr (if IsZero (tp_LastUpdated p) then p\<lparr>tp_LastUpdated := now\<rparr> else p) \<and>
    (if ticker_key (ToLower n) x a =
        ticker_key (ToLower (ExchangeName p)) (tp_Pair p) (tp_AssetType p) then True
     else GetTicker cs s' n x a = GetTicker cs s n x a) \<and>
    \<not> (\<not> feq (Bid p) 0 \<and> \<not> feq (Ask p) 0 \<and>
       \<not> (ExchangeName p = ''Bitfinex'' \<and> tp_AssetType p = MarginFunding) \<and> Ask p \<le> Bid p)"
proof -
  obtain q where q: "q = (if IsZero (tp_LastUpdated p) then p\<lparr>tp_LastUpdated := now\<rparr> else p)"
    and upd: "ticker_update newV4 newV4' s q = (s', None)" and named: "ExchangeName p \<noteq> []"
    and pair: "\<not> pair_IsEmpty cs (tp_Pair p)"
    and sound: "\<not> (\<not> feq (Bid p) 0 \<and> \<not> feq (Ask p) 0 \<and>
       \<not> (ExchangeName p = ''Bitfinex'' \<and> tp_AssetType p = MarginFunding) \<and> Ask p \<le> Bid p)"
    using ProcessTicker_Some [OF assms(1)] by blast
  have same: "ExchangeName q = ExchangeName p" "tp_Pair q = tp_Pair p"
    "tp_AssetType q = tp_AssetType p"
    by (simp_all add: q)
  note at = ticker_update_spec [OF upd, unfolded same]
  have read: "GetTicker cs t n x a = (if n = [] then Inl ErrExchangeNameIsEmpty
      else if pair_IsEmpty cs x then Inl ErrCurrencyPairEmpty
      else if \<not> asset_IsValid a then Inl (Errorf ''%w %v'' [asset_ErrNotSupported])
      else (case map_option tk_Price (map_of (Tickers t) (ticker_key (ToLower n) x a)) of
              None \<Rightarrow> Inl (Errorf ''%w %s %s %s'' [ErrNoTickerFound]) | Some y \<Rightarrow> Inr y))" for t n x a
    by (simp add: GetTicker_def split: option.split)
  show ?thesis
    using named pair assms(2) sound by (simp add: read at q)
qed

definition demo_ticker :: ticker_price where
  "demo_ticker =
     \<lparr>Last = Fin 10, High = Fin 12, tp_Low = Fin 9, Bid = Fin 10, BidSize = Fin 1, Ask = Fin 11,
      AskSize = Fin 1, Volume = 0, QuoteVolume = 0, PriceATH = 0, tp_Open = Fin 9, Close = Fin 10,
      OpenInterest = 0, tp_MarkPrice = 0, tp_IndexPrice = 0,
      tp_Pair = \<lparr>Delimiter = [], Base = \<lparr>Item = Some 0, upperCase = True\<rparr>,
                 Quote = \<lparr>Item = Some 1, upperCase = True\<rparr>\<rparr>,
      ExchangeName = ''Kraken'', tp_AssetType = Spot, tp_LastUpdated = 3, FlashReturnRate = 0,
      BidPeriod = 0, AskPeriod = 0, FlashReturnRateAmount = 0\<rparr>"

definition demo_registry :: store where
  "demo_registry = fst (NewPairDelimiter empty_store ''BTC-USD'' ''-'')"

definition demo_service :: ticker_service where
  "demo_service = \<lparr>Tickers = [], tk_Exchange = [], tk_mux = Some NewDispatcher\<rparr>"

theorem ticker_read_back_witness:
  "GetTicker demo_registry
     (fst (ProcessTicker demo_registry 7 (Inr 5) (Inr 6) demo_service (Some demo_ticker)))
     ''KRAKEN'' (tp_Pair demo_ticker) Spot = Inr demo_ticker"
proof -
  let ?r = "ProcessTicker demo_registry 7 (Inr 5) (Inr 6) demo_service (Some demo_ticker)"
  have "snd (snd ?r) = None" by code_simp
  then have r: "?r = (fst ?r, fst (snd ?r), None)" by (simp only: prod_eq_iff fst_conv snd_conv)
  have eval: "asset_IsValid (tp_AssetType demo_ticker)" "ToUpper (ExchangeName demo_ticker) = ''KRAKEN''"
    "tp_AssetType demo_ticker = Spot" "IsZero (tp_LastUpdated demo_ticker) = False"
    by code_simp+
  show ?thesis
    using ticker_read_back [OF r eval(1), THEN conjunct1] by (simp only: eval if_False)
qed

text \<open>Also: the last price of a pair and asset is that of some stored ticker for it, on
  any exchange, and never zero; it is not found exactly if no exchange has a ticker for it.\<close>

theorem find_last_price:
  "case FindLast s p a of
     Inr x \<Rightarrow> \<not> feq x 0 \<and>
       list_ex (\<lambda>(k, t). MatchesPairAsset (Some k) p a \<and> Last (tk_Price t) = x) (Tickers s)
   | Inl e \<Rightarrow>
       (if list_ex (\<lambda>(k, t). MatchesPairAsset (Some k) p a) (Tickers s)
        then e = errInvalidTicker \<and>
          list_ex (\<lambda>(k, t). MatchesPairAsset (Some k) p a \<and> feq (Last (tk_Price t)) 0) (Tickers s)
        else e = Errorf ''%w %s %s'' [errTickerNotFound])"
proof -
  have "case find_last ts p a of
     Inr x \<Rightarrow> \<not> feq x 0 \<and>
       list_ex (\<lambda>(k, t). MatchesPairAsset (Some k) p a \<and> Last (tk_Price t) = x) ts
   | Inl e \<Rightarrow>
       (if list_ex (\<lambda>(k, t). MatchesPairAsset (Some k) p a) ts
        then e = errInvalidTicker \<and>
          list_ex (\<lambda>(k, t). MatchesPairAsset (Some k) p a \<and> feq (Last (tk_Price t)) 0) ts
        else e = Errorf ''%w %s %s'' [errTickerNotFound])" for ts
    by (induction ts p a rule: find_last.induct) (auto split: sum.split)
  then show ?thesis by (simp add: FindLast_def)
qed

end
