(* ===== verification/Fix_Gateway.thy ===== *)
theory Fix_Gateway
  imports Depth Ticker Exchange_Manager Order_Limits
begin

text \<open>
  The FIX gateway (\<open>fixengine/fixgateway.go\<close>): it turns FIX 4.2 messages of client sessions into
  calls of the exchanges, and order updates, tickers and order books of the exchanges into FIX
  messages to the sessions.

  QuickFIX is a library.  A message is the record of what its getters return, a value or the reject
  they give for a missing or malformed field; a session is its \<open>SessionID\<close>, as a string; sending is
  appending to \<open>ga_sent\<close> (an error of \<open>SendToTarget\<close> is only printed).  Where the code sets the same
  field twice, the record has the second value.  The maps of sessions are lists without repetition
  in one of the orders Go may iterate them in.

  Exchanges and the database are parameters (\<open>exchange_ops\<close>, \<open>order_db\<close>) that act on a world of
  their own type; decimals are the \<open>decimal_ops\<close> of \<open>Order_Limits\<close>; \<open>uuid.NewV4\<close> is an argument.  The
  dereference of a nil exchange and the index into an empty slice are the outcome \<open>Panicked\<close>.
\<close>

section \<open>Enumerations\<close>

text \<open>\<open>enum.OrdStatus\<close> and \<open>enum.ExecType\<close> are strings, and the code converts one to the other, so
  they are modelled by their FIX 4.2 values (\<open>fixengine/FIX42.xml\<close>).\<close>

datatype fix_side = Side_BUY | Side_SELL | Side_AS_DEFINED | Side_other string

datatype fix_ord_type =
  OrdType_LIMIT | OrdType_MARKET | OrdType_STOP | OrdType_STOP_LIMIT | OrdType_other string

datatype fix_security_type =
    SecurityType_FUTURE | SecurityType_FX_SPOT | SecurityType_NON_DELIVERABLE_FORWARD
  | SecurityType_FX_FORWARD | SecurityType_other string

datatype fix_exec_trans = ExecTransType_NEW | ExecTransType_CANCEL | ExecTransType_STATUS

datatype fix_md_entry_type =
    MDEntryType_BID | MDEntryType_OFFER | MDEntryType_TRADE | MDEntryType_OPENING_PRICE
  | MDEntryType_CLOSING_PRICE | MDEntryType_TRADING_SESSION_HIGH_PRICE
  | MDEntryType_TRADING_SESSION_LOW_PRICE

type_synonym fix_ord_status = string
type_synonym fix_exec_type = string

definition OrdStatus_NEW :: fix_ord_status where "OrdStatus_NEW = ''0''"
definition OrdStatus_PARTIALLY_FILLED :: fix_ord_status where "OrdStatus_PARTIALLY_FILLED = ''1''"
definition OrdStatus_FILLED :: fix_ord_status where "OrdStatus_FILLED = ''2''"
definition OrdStatus_CANCELED :: fix_ord_status where "OrdStatus_CANCELED = ''4''"
definition OrdStatus_REJECTED :: fix_ord_status where "OrdStatus_REJECTED = ''8''"
definition ExecType_PARTIAL_FILL :: fix_exec_type where "ExecType_PARTIAL_FILL = ''1''"
definition ExecType_FILL :: fix_exec_type where "ExecType_FILL = ''2''"
definition ExecType_CANCELED :: fix_exec_type where "ExecType_CANCELED = ''4''"
definition ExecType_REJECTED :: fix_exec_type where "ExecType_REJECTED = ''8''"

lemmas fix_status_consts =
  OrdStatus_NEW_def OrdStatus_PARTIALLY_FILLED_def OrdStatus_FILLED_def OrdStatus_CANCELED_def
  OrdStatus_REJECTED_def ExecType_PARTIAL_FILL_def ExecType_FILL_def ExecType_CANCELED_def
  ExecType_REJECTED_def

definition FromSide :: "fix_side \<Rightarrow> order_side" where
  "FromSide s = (case s of Side_BUY \<Rightarrow> Buy | Side_SELL \<Rightarrow> Sell | _ \<Rightarrow> UnknownSide)"

definition FromOrdType :: "fix_ord_type \<Rightarrow> order_type" where
  "FromOrdType t =
     (case t of OrdType_LIMIT \<Rightarrow> Limit | OrdType_MARKET \<Rightarrow> Market | OrdType_STOP \<Rightarrow> Stop
      | OrdType_STOP_LIMIT \<Rightarrow> StopLimit | _ \<Rightarrow> UnknownType)"

definition FromSecurityType :: "fix_security_type \<Rightarrow> asset_item" where
  "FromSecurityType t =
     (case t of SecurityType_FUTURE \<Rightarrow> USDTMarginedFutures | SecurityType_FX_SPOT \<Rightarrow> Spot
      | SecurityType_NON_DELIVERABLE_FORWARD \<Rightarrow> Margin | _ \<Rightarrow> Empty)"

definition ToOrdStatus :: "order_status \<Rightarrow> fix_ord_status" where
  "ToOrdStatus s =
     (if s = Active \<or> s = New then OrdStatus_NEW
      else if s = Filled then OrdStatus_FILLED
      else if s = PartiallyFilled then OrdStatus_PARTIALLY_FILLED
      else if s = PartiallyCancelled \<or> s = Cancelled then OrdStatus_CANCELED
      else OrdStatus_REJECTED)"

definition ToSecurityType :: "asset_item \<Rightarrow> fix_security_type" where
  "ToSecurityType a =
     (if a = Futures then SecurityType_FUTURE
      else if a = Margin then SecurityType_NON_DELIVERABLE_FORWARD
      else if a = Spot then SecurityType_FX_SPOT
      else if a = USDTMarginedFutures then SecurityType_FUTURE
      else SecurityType_FX_FORWARD)"

definition ToSide :: "order_side \<Rightarrow> fix_side" where
  "ToSide s = (if s = Buy then Side_BUY else if s = Sell then Side_SELL else Side_AS_DEFINED)"

section \<open>Messages\<close>

text \<open>\<open>quickfix.MessageRejectError\<close>: what a getter returns for a field, or the value reject for a tag
  (tags 41 \<open>OrigClOrdID\<close>, 55 \<open>Symbol\<close>, 207 \<open>SecurityExchange\<close>).\<close>

datatype fix_reject = FieldReject string | ValueIsIncorrect nat

record 'd new_order_single =
  no_ClOrdID :: "fix_reject + string"
  no_Symbol :: "fix_reject + string"
  no_Side :: "fix_reject + fix_side"
  no_OrdType :: "fix_reject + fix_ord_type"
  no_Price :: "fix_reject + 'd"
  no_OrderQty :: "fix_reject + 'd"
  no_SecurityExchange :: "fix_reject + string"
  no_SecurityType :: "fix_reject + fix_security_type"

record order_cancel_request =
  cr_OrderID :: "fix_reject + string"
  cr_Side :: "fix_reject + fix_side"
  cr_Symbol :: "fix_reject + string"
  cr_ClOrdID :: "fix_reject + string"
  cr_OrigClOrdID :: "fix_reject + string"
  cr_SecurityExchange :: "fix_reject + string"
  cr_SecurityType :: "fix_reject + fix_security_type"

record 'd order_cancel_replace =
  rr_OrderID :: "fix_reject + string"
  rr_Side :: "fix_reject + fix_side"
  rr_Symbol :: "fix_reject + string"
  rr_ClOrdID :: "fix_reject + string"
  rr_OrigClOrdID :: "fix_reject + string"
  rr_SecurityExchange :: "fix_reject + string"
  rr_SecurityType :: "fix_reject + fix_security_type"
  rr_Price :: "fix_reject + 'd"
  rr_OrderQty :: "fix_reject + 'd"
  rr_OrdType :: "fix_reject + fix_ord_type"

text \<open>An execution report; the optional fields are set by some of its senders.\<close>

record 'd exec_report =
  er_OrderID :: string
  er_ExecID :: string
  er_ExecTransType :: fix_exec_trans
  er_ExecType :: fix_exec_type
  er_OrdStatus :: fix_ord_status
  er_Symbol :: string
  er_Side :: fix_side
  er_LeavesQty :: 'd
  er_CumQty :: 'd
  er_AvgPx :: 'd
  er_Text :: "go_error option"
  er_Price :: "'d option"
  er_StopPx :: "'d option"
  er_OrderQty :: "'d option"
  er_ClOrdID :: "string option"
  er_OrigClOrdID :: "string option"
  er_SecurityExchange :: "string option"
  er_SecurityType :: "fix_security_type option"
  er_LastPx :: "'d option"
  er_LastShares :: "'d option"

record 'd md_entry =
  me_PositionNo :: "int option"
  me_Type :: fix_md_entry_type
  me_Px :: 'd
  me_Size :: "'d option"

record 'd md_snapshot =
  md_Symbol :: string
  md_SecurityExchange :: string
  md_SecurityType :: fix_security_type
  md_TotalVolumeTraded :: "'d option"
  md_Entries :: "'d md_entry list"

datatype 'd fix_message =
  ExecutionReport "'d exec_report" | MarketDataSnapshot "'d md_snapshot"

section \<open>State\<close>

record 'd application =
  execID :: "64 word"
  sessions :: "string list"
  marketdataSubscribers :: "string list"
  ga_sent :: "(string \<times> 'd fix_message) list"

definition pairFormater :: pair_format where
  "pairFormater = \<lparr>Uppercase = True, fmt_Delimiter = ''-'', Separator = []\<rparr>"

text \<open>\<open>execID\<close> starts with the seconds of the clock.\<close>

definition NewFixGateway :: "time \<Rightarrow> 'd application" where
  "NewFixGateway now =
     \<lparr>execID = word_of_int ((now - zeroValueUnix) div 1000000000), sessions = [],
      marketdataSubscribers = [], ga_sent = []\<rparr>"

definition OnLogon :: "string \<Rightarrow> 'd application \<Rightarrow> 'd application" where
  "OnLogon sid a = a\<lparr>sessions := List.insert sid (sessions a)\<rparr>"

definition OnLogout :: "string \<Rightarrow> 'd application \<Rightarrow> 'd application" where
  "OnLogout sid a =
     a\<lparr>marketdataSubscribers := remove1 sid (marketdataSubscribers a),
       sessions := remove1 sid (sessions a)\<rparr>"

definition IsConnected :: "'d application \<Rightarrow> string \<Rightarrow> bool" where
  "IsConnected a sid \<longleftrightarrow> sid \<in> set (sessions a)"

definition onMarketDataRequest :: "string \<Rightarrow> 'd application \<Rightarrow> 'd application" where
  "onMarketDataRequest sid a =
     a\<lparr>marketdataSubscribers := List.insert sid (marketdataSubscribers a)\<rparr>"

text \<open>Decimal digits of a number, as \<open>strconv.Itoa\<close> prints them.\<close>

fun nat_digits :: "nat \<Rightarrow> string" where
  "nat_digits n =
     (if n < 10 then [char_of (48 + n)] else nat_digits (n div 10) @ [char_of (48 + n mod 10)])"

declare nat_digits.simps [simp del]

definition strconv_Itoa :: "int \<Rightarrow> string" where
  "strconv_Itoa i = (if i < 0 then CHR ''-'' # nat_digits (nat (- i)) else nat_digits (nat i))"

definition genExecID :: "'d application \<Rightarrow> 'd application \<times> string" where
  "genExecID a = (a\<lparr>execID := execID a + 1\<rparr>, strconv_Itoa (sint (execID a + 1)))"

definition send_all :: "string list \<Rightarrow> 'd fix_message \<Rightarrow> 'd application \<Rightarrow> 'd application" where
  "send_all targets msg a = a\<lparr>ga_sent := ga_sent a @ map (\<lambda>sid. (sid, msg)) targets\<rparr>"

section \<open>Execution reports\<close>

definition SCALE_ZERO :: "'d decimal_ops \<Rightarrow> 'd" where
  "SCALE_ZERO dec = NewFromFloat dec 0"

text \<open>\<open>if msg.Type == order.Limit || msg.Type == order.Stop ... else if msg.Type ==
  order.StopLimit\<close>: which prices a report carries.\<close>

definition set_prices ::
    "'d decimal_ops \<Rightarrow> order_type \<Rightarrow> f64 \<Rightarrow> f64 \<Rightarrow> 'd exec_report \<Rightarrow> 'd exec_report" where
  "set_prices dec t price trigger r =
     (if t = Limit \<or> t = Stop then r\<lparr>er_Price := Some (NewFromFloat dec price)\<rparr>
      else if t = StopLimit
        then r\<lparr>er_Price := Some (NewFromFloat dec price), er_StopPx := Some (NewFromFloat dec trigger)\<rparr>
      else r)"

text \<open>The three kinds of request that can be rejected; an error's text is the error.\<close>

datatype rejected = RejectSubmit submit | RejectModify modify | RejectCancel cancel

definition reject_report ::
    "'d decimal_ops \<Rightarrow> store \<Rightarrow> string \<Rightarrow> string \<Rightarrow> rejected \<Rightarrow> 'd exec_report" where
  "reject_report dec cs uuid eid rej =
     (let new = (\<lambda>tr p sd.
            \<lparr>er_OrderID = uuid, er_ExecID = eid, er_ExecTransType = tr,
             er_ExecType = ExecType_REJECTED, er_OrdStatus = OrdStatus_REJECTED,
             er_Symbol = format_Format cs pairFormater p, er_Side = ToSide sd,
             er_LeavesQty = SCALE_ZERO dec, er_CumQty = SCALE_ZERO dec, er_AvgPx = SCALE_ZERO dec,
             er_Text = None, er_Price = None, er_StopPx = None, er_OrderQty = None,
             er_ClOrdID = None, er_OrigClOrdID = None, er_SecurityExchange = None,
             er_SecurityType = None, er_LastPx = None, er_LastShares = None\<rparr>)
      in case rej of
           RejectSubmit msg \<Rightarrow>
             (set_prices dec (s_Type msg) (s_Price msg) (s_TriggerPrice msg)
                (new ExecTransType_NEW (s_Pair msg) (s_Side msg)))
             \<lparr>er_OrderQty := Some (NewFromFloat dec (s_Amount msg)),
              er_ClOrdID := Some (s_ClientOrderID msg),
              er_SecurityExchange := Some (s_Exchange msg),
              er_SecurityType := Some (ToSecurityType (s_AssetType msg))\<rparr>
         | RejectModify msg \<Rightarrow>
             (set_prices dec (m_Type msg) (m_Price msg) (m_TriggerPrice msg)
                (new ExecTransType_NEW (m_Pair msg) (m_Side msg)))
             \<lparr>er_OrderQty := Some (NewFromFloat dec (m_Amount msg)),
              er_ClOrdID := Some (m_ClientOrderID msg),
              er_OrderID := m_OrderID msg,
              er_OrigClOrdID := Some (m_OrigClOrdID msg),
              er_SecurityExchange := Some (m_Exchange msg),
              er_SecurityType := Some (ToSecurityType (m_AssetType msg))\<rparr>
         | RejectCancel msg \<Rightarrow>
             (new ExecTransType_CANCEL (c_Pair msg) (c_Side msg))
             \<lparr>er_ClOrdID := Some (c_ClientID msg),
              er_OrderID := c_OrderID msg,
              er_OrigClOrdID := Some (c_ClientOrderID msg),
              er_SecurityExchange := Some (c_Exchange msg),
              er_SecurityType := Some (ToSecurityType (c_AssetType msg))\<rparr>)"

text \<open>\<open>uuid\<close> is what \<open>genUUID\<close> returns, the empty string on an error; the text of the report is that of the error.\<close>

definition RejectOrderRequest ::
    "'d decimal_ops \<Rightarrow> store \<Rightarrow> string \<Rightarrow> rejected \<Rightarrow> go_error \<Rightarrow> 'd application \<Rightarrow> 'd application"
where
  "RejectOrderRequest dec cs uuid msg text a =
     (let (a, eid) = genExecID a;
          execReport = (reject_report dec cs uuid eid msg)\<lparr>er_Text := Some text\<rparr>
      in send_all (sessions a) (ExecutionReport execReport) a)"

datatype 'e call_result = Returned "'e option" | Panicked

definition order_report ::
    "'d decimal_ops \<Rightarrow> store \<Rightarrow> string \<Rightarrow> detail \<Rightarrow> fix_ord_status \<Rightarrow> 'd exec_report" where
  "order_report dec cs eid msg status =
     (set_prices dec (d_Type msg) (d_Price msg) (d_TriggerPrice msg)
        \<lparr>er_OrderID = d_OrderID msg, er_ExecID = eid, er_ExecTransType = ExecTransType_STATUS,
         er_ExecType = status, er_OrdStatus = status,
         er_Symbol = format_Format cs pairFormater (d_Pair msg), er_Side = ToSide (d_Side msg),
         er_LeavesQty = NewFromFloat dec (d_RemainingAmount msg),
         er_CumQty = NewFromFloat dec (d_ExecutedAmount msg),
         er_AvgPx = NewFromFloat dec (d_AverageExecutedPrice msg),
         er_Text = None, er_Price = None, er_StopPx = None, er_OrderQty = None,
         er_ClOrdID = None, er_OrigClOrdID = None, er_SecurityExchange = None,
         er_SecurityType = None, er_LastPx = None, er_LastShares = None\<rparr>)
     \<lparr>er_OrderQty := Some (NewFromFloat dec (d_Amount msg)),
      er_ClOrdID := Some (d_ClientOrderID msg),
      er_SecurityExchange := Some (d_Exchange msg),
      er_SecurityType := Some (ToSecurityType (d_AssetType msg))\<rparr>"

text \<open>\<open>Application.UpdateOrder\<close>.  \<open>msg.Trades[len(msg.Trades)-1]\<close> panics if there is no trade.\<close>

definition app_UpdateOrder ::
    "'d decimal_ops \<Rightarrow> store \<Rightarrow> detail \<Rightarrow> fix_ord_status \<Rightarrow> 'd application \<Rightarrow>
     'd application \<times> 'e call_result" where
  "app_UpdateOrder dec cs msg status a =
     (let (a, eid) = genExecID a;
          execReport = order_report dec cs eid msg status;
          filled = (\<lambda>t. if d_Trades msg = [] then None
             else Some (execReport
               \<lparr>er_ExecType := t, er_LastPx := Some (NewFromFloat dec (d_AverageExecutedPrice msg)),
                er_LastShares := Some (NewFromFloat dec (th_Amount (last (d_Trades msg))))\<rparr>));
          result = (if status = OrdStatus_PARTIALLY_FILLED then filled ExecType_PARTIAL_FILL
             else if status = OrdStatus_FILLED then filled ExecType_FILL
             else if status = OrdStatus_CANCELED
               then Some (execReport
                 \<lparr>er_ExecType := ExecType_CANCELED,
                  er_LastPx := Some (NewFromFloat dec (d_Price msg)),
                  er_LastShares := Some (NewFromFloat dec (d_ExecutedAmount msg))\<rparr>)
             else Some execReport)
      in case result of
           None \<Rightarrow> (a, Panicked)
         | Some r \<Rightarrow> (send_all (sessions a) (ExecutionReport r) a, Returned None))"

definition acceptOrder ::
    "'d decimal_ops \<Rightarrow> store \<Rightarrow> detail \<Rightarrow> 'd application \<Rightarrow> 'd application \<times> 'e call_result" where
  "acceptOrder dec cs order a = app_UpdateOrder dec cs order OrdStatus_NEW a"

definition fillOrder ::
    "'d decimal_ops \<Rightarrow> store \<Rightarrow> detail \<Rightarrow> 'd application \<Rightarrow> 'd application \<times> 'e call_result" where
  "fillOrder dec cs order a =
     (let status = (if 0 < d_RemainingAmount order then OrdStatus_PARTIALLY_FILLED
                    else OrdStatus_FILLED)
      in app_UpdateOrder dec cs order status a)"

definition cancelOrder ::
    "'d decimal_ops \<Rightarrow> store \<Rightarrow> detail \<Rightarrow> 'd application \<Rightarrow> 'd application \<times> 'e call_result" where
  "cancelOrder dec cs order a = app_UpdateOrder dec cs order OrdStatus_CANCELED a"

section \<open>Market data\<close>

definition md_price :: "'d decimal_ops \<Rightarrow> fix_md_entry_type \<Rightarrow> f64 \<Rightarrow> 'd md_entry" where
  "md_price dec t x =
     \<lparr>me_PositionNo = None, me_Type = t, me_Px = NewFromFloat dec x, me_Size = None\<rparr>"

definition BroadcastMarketData ::
    "'d decimal_ops \<Rightarrow> store \<Rightarrow> ticker_price \<Rightarrow> 'd application \<Rightarrow> 'd application" where
  "BroadcastMarketData dec cs price a =
     (let msg =
        \<lparr>md_Symbol = format_Format cs pairFormater (tp_Pair price),
         md_SecurityExchange = ExchangeName price,
         md_SecurityType = ToSecurityType (tp_AssetType price),
         md_TotalVolumeTraded = Some (NewFromFloat dec (QuoteVolume price)),
         md_Entries =
           [md_price dec MDEntryType_TRADING_SESSION_HIGH_PRICE (High price),
            md_price dec MDEntryType_TRADING_SESSION_LOW_PRICE (tp_Low price),
            md_price dec MDEntryType_OPENING_PRICE (tp_Open price),
            md_price dec MDEntryType_CLOSING_PRICE (Close price),
            (md_price dec MDEntryType_TRADE (Last price))
              \<lparr>me_Size := Some (NewFromFloat dec (Volume price))\<rparr>]\<rparr>
      in send_all (marketdataSubscribers a) (MarketDataSnapshot msg) a)"

definition MAXDEPTH :: int where "MAXDEPTH = 28"

text \<open>The loop over one side adds the entry, then leaves if its index is above \<open>MAXDEPTH\<close>.\<close>

fun depth_entries ::
    "'d decimal_ops \<Rightarrow> fix_md_entry_type \<Rightarrow> int \<Rightarrow> tranche list \<Rightarrow> 'd md_entry list" where
  "depth_entries dec t i [] = []"
| "depth_entries dec t i (e # es) =
     \<lparr>me_PositionNo = Some (i + 1), me_Type = t, me_Px = NewFromFloat dec (Price e),
      me_Size = Some (NewFromFloat dec (Amount e))\<rparr> #
     (if MAXDEPTH < i then [] else depth_entries dec t (i + 1) es)"

definition BroadcastDepth ::
    "'d decimal_ops \<Rightarrow> store \<Rightarrow> depth \<Rightarrow> 'd application \<Rightarrow> 'd application" where
  "BroadcastDepth dec cs dm a =
     (case depth_Retrieve dm of
        Inl err \<Rightarrow> a
      | Inr depth \<Rightarrow>
          (let msg =
             \<lparr>md_Symbol = format_Format cs pairFormater (bk_Pair depth),
              md_SecurityExchange = bk_Exchange depth,
              md_SecurityType = ToSecurityType (bk_Asset depth), md_TotalVolumeTraded = None,
              md_Entries = depth_entries dec MDEntryType_BID 0 (bk_Bids depth) @
                           depth_entries dec MDEntryType_OFFER 0 (bk_Asks depth)\<rparr>
           in send_all (marketdataSubscribers a) (MarketDataSnapshot msg) a))"

section \<open>Requests\<close>

text \<open>The exchanges, as far as the gateway calls them, acting on a world \<open>'w\<close>; \<open>'e\<close> is the type of
  an exchange.\<close>

record ('e, 'w) exchange_ops =
  xo_CheckOrderExecutionLimits ::
    "'w \<Rightarrow> 'e \<Rightarrow> asset_item \<Rightarrow> pair \<Rightarrow> f64 \<Rightarrow> f64 \<Rightarrow> order_type \<Rightarrow> go_error option"
  xo_CanTradePair :: "'w \<Rightarrow> 'e \<Rightarrow> pair \<Rightarrow> asset_item \<Rightarrow> go_error option"
  xo_SubmitOrder :: "'w \<Rightarrow> 'e \<Rightarrow> submit \<Rightarrow> 'w \<times> submit_response go_result"
  xo_CancelOrder :: "'w \<Rightarrow> 'e \<Rightarrow> cancel \<Rightarrow> 'w \<times> go_error option"
  xo_ModifyOrder :: "'w \<Rightarrow> 'e \<Rightarrow> modify \<Rightarrow> 'w \<times> modify_response go_result"

text \<open>The tables of \<open>fixengine/models\<close> and the functions on them, which only call the database
  library; \<open>'b\<close> is a state of the database.\<close>

record db_trade =
  dt_TradeID :: string
  dt_OrderID :: string
  dt_Side :: string
  dt_Price :: f64
  dt_Quantity :: f64
  dt_Commision :: f64
  dt_CommisionAsset :: string
  dt_Timestamp :: time

record db_order =
  do_ClientOrderID :: string
  do_OrderID :: string
  do_SessionID :: string
  do_Exchange :: string
  do_Base :: string
  do_Quote :: string
  do_Delimiter :: string
  do_Side :: string
  do_AssetType :: string
  do_OrderType :: string
  do_Price :: f64
  do_Amount :: f64
  do_Status :: string
  do_Timestamp :: time
  do_Trades :: "db_trade list"

record 'b order_db =
  GetOrderByClOrdID :: "'b \<Rightarrow> string \<Rightarrow> db_order"
  GetOrderByOrderID :: "'b \<Rightarrow> string \<Rightarrow> db_order"
  CreateOrder :: "'b \<Rightarrow> db_order \<Rightarrow> 'b \<times> go_error option"
  db_UpdateOrder :: "'b \<Rightarrow> string \<Rightarrow> db_order \<Rightarrow> 'b \<times> go_error option"
  UpdateOrCreateTrade :: "'b \<Rightarrow> string \<Rightarrow> db_trade \<Rightarrow> 'b \<times> go_error option"

text \<open>What a request acts on: the currency registry, the exchanges' world, the database and the
  gateway.\<close>

record ('w, 'b, 'd) gateway_state =
  gs_currency :: store
  gs_world :: 'w
  gs_db :: 'b
  gs_app :: "'d application"

text \<open>\<open>x, err := msg.GetX(); if err != nil { return err }\<close>.\<close>

definition field ::
    "(fix_reject + 'x) \<Rightarrow> 's \<Rightarrow> ('x \<Rightarrow> 's \<times> fix_reject call_result) \<Rightarrow> 's \<times> fix_reject call_result"
where
  "field r s k = (case r of Inl e \<Rightarrow> (s, Returned (Some e)) | Inr x \<Rightarrow> k x)"

definition reject ::
    "'d decimal_ops \<Rightarrow> string \<Rightarrow> rejected \<Rightarrow> go_error \<Rightarrow> ('w, 'b, 'd) gateway_state \<Rightarrow>
     ('w, 'b, 'd) gateway_state" where
  "reject dec uuid msg text s =
     s\<lparr>gs_app := RejectOrderRequest dec (gs_currency s) uuid msg text (gs_app s)\<rparr>"

definition submission_of ::
    "'d decimal_ops \<Rightarrow> string \<Rightarrow> fix_side \<Rightarrow> fix_ord_type \<Rightarrow> 'd \<Rightarrow> 'd \<Rightarrow> string \<Rightarrow> fix_security_type \<Rightarrow>
     pair \<Rightarrow> submit" where
  "submission_of dec clOrdID sd ordType price orderQty exch securityType p =
     \<lparr>s_Exchange = exch, s_Type = FromOrdType ordType, s_Side = FromSide sd, s_Pair = p,
      s_AssetType = FromSecurityType securityType, s_ImmediateOrCancel = False,
      s_FillOrKill = False, s_PostOnly = False, s_ReduceOnly = False, s_Leverage = 0,
      s_Price = InexactFloat64 dec price, s_Amount = InexactFloat64 dec orderQty,
      s_QuoteAmount = 0, s_TriggerPrice = 0, s_TriggerPriceType = 0, s_ClientID = [],
      s_ClientOrderID = clOrdID, s_AutoBorrow = False, s_MarginType = 0, s_RetrieveFees = False,
      s_RetrieveFeeDelay = 0, s_RiskManagementModes = zero_risk_modes, s_Hidden = False,
      s_Iceberg = False\<rparr>"

text \<open>What happens to the submission, from \<open>GetExchangeByName\<close> on.  \<open>uuid i\<close> is the id of the
  \<open>i\<close>-th report.  After an unknown exchange is reported the code goes on to call the nil
  exchange.\<close>

definition place_order ::
    "'d decimal_ops \<Rightarrow> ('e, 'w) exchange_ops \<Rightarrow> 'e exchange_manager option \<Rightarrow> (nat \<Rightarrow> string) \<Rightarrow>
     submit \<Rightarrow> ('w, 'b, 'd) gateway_state \<Rightarrow> ('w, 'b, 'd) gateway_state \<times> fix_reject call_result"
where
  "place_order dec xo em uuid submission s =
     (case GetExchangeByName em (s_Exchange submission) of
        Inl e \<Rightarrow> (reject dec (uuid 0) (RejectSubmit submission) e s, Panicked)
      | Inr exch \<Rightarrow>
          (case xo_CheckOrderExecutionLimits xo (gs_world s) exch (s_AssetType submission)
                  (s_Pair submission) (s_Price submission) (s_Amount submission)
                  (s_Type submission) of
             Some e \<Rightarrow>
               (reject dec (uuid 0) (RejectSubmit submission)
                  (Errorf ''order manager: exchange %s unable to place order: %w'' [e]) s,
                Returned None)
           | None \<Rightarrow>
               (let s = (case xo_CanTradePair xo (gs_world s) exch (s_Pair submission)
                           (s_AssetType submission) of
                       Some e \<Rightarrow>
                         reject dec (uuid 0) (RejectSubmit submission)
                           (Errorf ''order manager: exchange %s cannot trade pair %s %s: %w'' [e]) s
                     | None \<Rightarrow> s)
                in case xo_SubmitOrder xo (gs_world s) exch submission of
                     (w, Inl e) \<Rightarrow>
                       (reject dec (uuid 1) (RejectSubmit submission) e (s\<lparr>gs_world := w\<rparr>),
                        Returned None)
                   | (w, Inr _) \<Rightarrow> (s\<lparr>gs_world := w\<rparr>, Returned None))))"

text \<open>A symbol that is no pair makes the handlers \<open>return err\<close>, which is nil there.\<close>

definition onNewOrderSingle ::
    "'d decimal_ops \<Rightarrow> ('e, 'w) exchange_ops \<Rightarrow> 'e exchange_manager option \<Rightarrow> (nat \<Rightarrow> string) \<Rightarrow>
     'd new_order_single \<Rightarrow> ('w, 'b, 'd) gateway_state \<Rightarrow>
     ('w, 'b, 'd) gateway_state \<times> fix_reject call_result" where
  "onNewOrderSingle dec xo em uuid msg s =
     field (no_ClOrdID msg) s (\<lambda>clOrdID.
     field (no_Symbol msg) s (\<lambda>symbol.
     field (no_Side msg) s (\<lambda>sd.
     field (no_OrdType msg) s (\<lambda>ordType.
     field (no_Price msg) s (\<lambda>price.
     field (no_OrderQty msg) s (\<lambda>orderQty.
     field (no_SecurityExchange msg) s (\<lambda>exch.
     field (no_SecurityType msg) s (\<lambda>securityType.
       (case NewPairFromString (gs_currency s) symbol of
          (c, Inl e) \<Rightarrow> (s\<lparr>gs_currency := c\<rparr>, Returned None)
        | (c, Inr p) \<Rightarrow>
            place_order dec xo em uuid
              (submission_of dec clOrdID sd ordType price orderQty exch securityType p)
              (s\<lparr>gs_currency := c\<rparr>))))))))))"

definition cancellation_of ::
    "string \<Rightarrow> string \<Rightarrow> fix_side \<Rightarrow> pair \<Rightarrow> fix_security_type \<Rightarrow> string \<Rightarrow> string \<Rightarrow> cancel" where
  "cancellation_of exch orderID sd p securityType orClOrdId clOrdID =
     \<lparr>c_Exchange = exch, c_OrderID = orderID, c_ClientOrderID = orClOrdId, c_AccountID = [],
      c_ClientID = clOrdID, c_WalletAddress = [], c_Type = 0, c_Side = FromSide sd,
      c_AssetType = FromSecurityType securityType, c_Pair = p, c_MarginType = 0\<rparr>"

text \<open>The handler also parses the order id of the message, and forgets it for a future, but it is
  the stored order's id that it sends.\<close>

definition onOrderCancelRequest ::
    "'d decimal_ops \<Rightarrow> ('e, 'w) exchange_ops \<Rightarrow> 'e exchange_manager option \<Rightarrow> 'b order_db \<Rightarrow>
     (nat \<Rightarrow> string) \<Rightarrow> order_cancel_request \<Rightarrow> ('w, 'b, 'd) gateway_state \<Rightarrow>
     ('w, 'b, 'd) gateway_state \<times> fix_reject call_result" where
  "onOrderCancelRequest dec xo em db uuid msg s =
     field (cr_OrderID msg) s (\<lambda>orderID.
     field (cr_Side msg) s (\<lambda>sd.
     field (cr_Symbol msg) s (\<lambda>symbol.
     field (cr_ClOrdID msg) s (\<lambda>clOrdID.
     field (cr_OrigClOrdID msg) s (\<lambda>orClOrdId.
       let orderDB = GetOrderByClOrdID db (gs_db s) orClOrdId
       in if do_OrderID orderDB = [] then (s, Returned (Some (ValueIsIncorrect 41)))
          else
            field (cr_SecurityExchange msg) s (\<lambda>exch.
            field (cr_SecurityType msg) s (\<lambda>securityType.
              (case NewPairFromString (gs_currency s) symbol of
                 (c, Inl e) \<Rightarrow> (s\<lparr>gs_currency := c\<rparr>, Returned None)
               | (c, Inr p) \<Rightarrow>
                   (let s = s\<lparr>gs_currency := c\<rparr>;
                        request = cancellation_of exch (do_OrderID orderDB) sd p securityType
                                    orClOrdId clOrdID
                    in case GetExchangeByName em exch of
                         Inl e \<Rightarrow> (s, Returned (Some (ValueIsIncorrect 207)))
                       | Inr x \<Rightarrow>
                           (let (w, err) = xo_CancelOrder xo (gs_world s) x request;
                                s = s\<lparr>gs_world := w\<rparr>;
                                s = (case err of
                                       Some e \<Rightarrow> reject dec (uuid 0) (RejectCancel request) e s
                                     | None \<Rightarrow> s);
                                (d, err) = db_UpdateOrder db (gs_db s) (do_ClientOrderID orderDB) orderDB
                            in (s\<lparr>gs_db := d\<rparr>, Returned None)))))))))))"

text \<open>\<open>strconv.ParseInt(s, 10, 64)\<close> without error: an optional sign, digits, and in range.\<close>

definition is_digit :: "char \<Rightarrow> bool" where
  "is_digit c \<longleftrightarrow> 48 \<le> (of_char c :: nat) \<and> (of_char c :: nat) \<le> 57"

definition digits_value :: "string \<Rightarrow> int" where
  "digits_value s = foldl (\<lambda>n c. n * 10 + (of_char c - 48)) 0 s"

definition ParseInt_ok :: "string \<Rightarrow> bool" where
  "ParseInt_ok s =
     (let negative = (s \<noteq> [] \<and> hd s = CHR ''-'');
          ds = (if s \<noteq> [] \<and> (hd s = CHR ''-'' \<or> hd s = CHR ''+'') then tl s else s)
      in ds \<noteq> [] \<and> list_all is_digit ds \<and>
         (if negative then digits_value ds \<le> 2 ^ 63 else digits_value ds < 2 ^ 63))"

definition modification_of ::
    "'d decimal_ops \<Rightarrow> string \<Rightarrow> string \<Rightarrow> fix_side \<Rightarrow> pair \<Rightarrow> fix_security_type \<Rightarrow> string \<Rightarrow> string \<Rightarrow>
     fix_ord_type \<Rightarrow> 'd \<Rightarrow> 'd \<Rightarrow> modify" where
  "modification_of dec exch orderID sd p securityType clOrdID orgClOrdID orderType price orderQty =
     \<lparr>m_Exchange = exch, m_OrderID = orderID, m_OrigClOrdID = orgClOrdID,
      m_ClientOrderID = clOrdID, m_Type = FromOrdType orderType, m_Side = FromSide sd,
      m_AssetType = FromSecurityType securityType, m_Pair = p, m_ImmediateOrCancel = False,
      m_PostOnly = False, m_Price = InexactFloat64 dec price,
      m_Amount = InexactFloat64 dec orderQty, m_TriggerPrice = 0, m_TriggerPriceType = 0,
      m_RiskManagementModes = zero_risk_modes\<rparr>"

definition onOrderCancelReplaceRequest ::
    "'d decimal_ops \<Rightarrow> ('e, 'w) exchange_ops \<Rightarrow> 'e exchange_manager option \<Rightarrow> 'b order_db \<Rightarrow>
     (nat \<Rightarrow> string) \<Rightarrow> 'd order_cancel_replace \<Rightarrow> ('w, 'b, 'd) gateway_state \<Rightarrow>
     ('w, 'b, 'd) gateway_state \<times> fix_reject call_result" where
  "onOrderCancelReplaceRequest dec xo em db uuid msg s =
     field (rr_OrderID msg) s (\<lambda>orderID.
     let orderID = (if ParseInt_ok orderID then orderID else []) in
     field (rr_Side msg) s (\<lambda>sd.
     field (rr_Symbol msg) s (\<lambda>symbol.
     field (rr_ClOrdID msg) s (\<lambda>clOrdID.
     field (rr_OrigClOrdID msg) s (\<lambda>orgClOrdID.
       let orderDB = GetOrderByClOrdID db (gs_db s) orgClOrdID
       in if do_OrderID orderDB = [] then (s, Returned (Some (ValueIsIncorrect 41)))
          else
            field (rr_SecurityExchange msg) s (\<lambda>exch.
            field (rr_SecurityType msg) s (\<lambda>securityType.
              (case NewPairFromString (gs_currency s) symbol of
                 (c, Inl e) \<Rightarrow> (s\<lparr>gs_currency := c\<rparr>, Returned (Some (ValueIsIncorrect 55)))
               | (c, Inr p) \<Rightarrow>
                   (let s = s\<lparr>gs_currency := c\<rparr> in
                    field (rr_Price msg) s (\<lambda>price.
                    field (rr_OrderQty msg) s (\<lambda>orderQty.
                    field (rr_OrdType msg) s (\<lambda>orderType.
                      let orderID = (if securityType = SecurityType_FUTURE then [] else orderID);
                          request = modification_of dec exch orderID sd p securityType clOrdID
                                      orgClOrdID orderType price orderQty
                      in case GetExchangeByName em exch of
                           Inl e \<Rightarrow> (s, Returned (Some (ValueIsIncorrect 207)))
                         | Inr x \<Rightarrow>
                             (case xo_ModifyOrder xo (gs_world s) x request of
                                (w, Inl e) \<Rightarrow>
                                  (reject dec (uuid 0) (RejectModify request) e (s\<lparr>gs_world := w\<rparr>),
                                   Returned None)
                              | (w, Inr _) \<Rightarrow> (s\<lparr>gs_world := w\<rparr>, Returned None))))))))))))))"

section \<open>Order updates from the exchanges\<close>

text \<open>\<open>data.(type)\<close>; the handler does nothing for the types it lists without a body.\<close>

datatype websocket_data =
    WsString string | WsError go_error | WsTicker ticker_price | WsDepth depth
  | WsDetail detail | WsClassificationError go_error | WsOther

text \<open>A trade without a side is that of the other side's order: it gets the opposite of the order's
  side.\<close>

definition trade_side :: "order_side \<Rightarrow> order_side \<Rightarrow> string" where
  "trade_side ts os =
     (if ts = UnknownSide
      then (if os = Buy then side_String Sell else if os = Sell then side_String Buy else [])
      else side_String ts)"

definition db_trade_of :: "detail \<Rightarrow> trade_history \<Rightarrow> db_trade" where
  "db_trade_of d t =
     \<lparr>dt_TradeID = th_TID t, dt_OrderID = d_OrderID d, dt_Side = trade_side (th_Side t) (d_Side d),
      dt_Price = th_Price t, dt_Quantity = th_Amount t, dt_Commision = th_Fee t,
      dt_CommisionAsset = th_FeeAsset t, dt_Timestamp = th_Timestamp t\<rparr>"

text \<open>The loop over the trades logs an error and goes on.\<close>

definition save_trades :: "'b order_db \<Rightarrow> detail \<Rightarrow> 'b \<Rightarrow> 'b" where
  "save_trades db d b =
     fold (\<lambda>t b. fst (UpdateOrCreateTrade db b (dt_TradeID (db_trade_of d t)) (db_trade_of d t)))
       (d_Trades d) b"

definition saved_order :: "store \<Rightarrow> detail \<Rightarrow> db_order" where
  "saved_order cs d =
     \<lparr>do_ClientOrderID = d_ClientOrderID d, do_OrderID = d_OrderID d, do_SessionID = [],
      do_Exchange = d_Exchange d, do_Base = code_String cs (Base (d_Pair d)),
      do_Quote = code_String cs (Quote (d_Pair d)), do_Delimiter = Delimiter (d_Pair d),
      do_Side = side_String (d_Side d), do_AssetType = asset_String (d_AssetType d),
      do_OrderType = type_String (d_Type d), do_Price = d_Price d, do_Amount = d_Amount d,
      do_Status = status_String (d_Status d), do_Timestamp = d_Date d, do_Trades = []\<rparr>"

text \<open>\<open>if err := model.UpdateOrder(...); err != nil { return err }\<close>, then the report.\<close>

definition update_and_report ::
    "'d decimal_ops \<Rightarrow> 'b order_db \<Rightarrow> store \<Rightarrow> detail \<Rightarrow> db_order \<Rightarrow> 'b \<Rightarrow> 'd application \<Rightarrow>
     'b \<times> 'd application \<times> go_error call_result" where
  "update_and_report dec db cs d existing b a =
     (case db_UpdateOrder db b (do_ClientOrderID existing) existing of
        (b, Some err) \<Rightarrow> (b, a, Returned (Some err))
      | (b, None) \<Rightarrow> (b, app_UpdateOrder dec cs d (ToOrdStatus (d_Status d)) a))"

definition handle_detail ::
    "'d decimal_ops \<Rightarrow> 'b order_db \<Rightarrow> store \<Rightarrow> detail \<Rightarrow> 'b \<Rightarrow> 'd application \<Rightarrow>
     'b \<times> 'd application \<times> go_error call_result" where
  "handle_detail dec db cs d b a =
     (if length (sessions a) = 0 then (b, a, Returned None)
      else
        let existing = GetOrderByOrderID db b (d_OrderID d)
        in if do_ClientOrderID existing = [] then
             (let b = save_trades db d b
              in case CreateOrder db b (saved_order cs d) of
                   (b, Some err) \<Rightarrow> (b, a, Returned (Some err))
                 | (b, None) \<Rightarrow> (b, app_UpdateOrder dec cs d (ToOrdStatus (d_Status d)) a))
           else if 0 < length (d_Trades d) then
             (let b = save_trades db d b;
                  existing = (if \<not> feq (d_Price d) (do_Price existing)
                              then existing\<lparr>do_Price := d_Price d\<rparr> else existing);
                  existing = (if \<not> feq (d_Amount d) (do_Amount existing)
                              then existing\<lparr>do_Amount := d_Amount d\<rparr> else existing)
              in if status_String (d_Status d) \<noteq> do_Status existing
                 then update_and_report dec db cs d
                        (existing\<lparr>do_Status := status_String (d_Status d)\<rparr>) b a
                 else (case db_UpdateOrder db b (do_ClientOrderID existing) existing of
                         (b, Some err) \<Rightarrow> (b, a, Returned (Some err))
                       | (b, None) \<Rightarrow>
                           (let updated = GetOrderByClOrdID db b (do_ClientOrderID existing)
                            in if length (do_Trades updated) \<noteq> length (do_Trades existing)
                               then (b, app_UpdateOrder dec cs d (ToOrdStatus (d_Status d)) a)
                               else (b, a, Returned None))))
           else if status_String (d_Status d) \<noteq> do_Status existing
             then update_and_report dec db cs d
                    (existing\<lparr>do_Status := status_String (d_Status d)\<rparr>) b a
           else if \<not> feq (d_Price d) (do_Price existing) \<or> \<not> feq (d_Amount d) (do_Amount existing)
             then update_and_report dec db cs d
                    (existing\<lparr>do_Price := d_Price d, do_Amount := d_Amount d\<rparr>) b a
           else (b, a, Returned None))"

definition app_WebsocketDataHandler ::
    "'d decimal_ops \<Rightarrow> 'b order_db \<Rightarrow> store \<Rightarrow> websocket_data \<Rightarrow> 'b \<Rightarrow> 'd application \<Rightarrow>
     'b \<times> 'd application \<times> go_error call_result" where
  "app_WebsocketDataHandler dec db cs data b a =
     (case data of
        WsError e \<Rightarrow> (b, a, Returned (Some (Errorf ''exchange %s websocket error - %s'' [])))
      | WsTicker p \<Rightarrow> (b, BroadcastMarketData dec cs p a, Returned None)
      | WsDepth d \<Rightarrow> (b, BroadcastDepth dec cs d a, Returned None)
      | WsDetail d \<Rightarrow> handle_detail dec db cs d b a
      | WsClassificationError e \<Rightarrow> (b, a, Returned (Some (Errorf ''%w %s'' [e])))
      | _ \<Rightarrow> (b, a, Returned None))"

text \<open>The inner loop of \<open>checkExistingTrade\<close> leaves \<open>result\<close> false after a trade that differs.\<close>

definition checkExistingTrade :: "db_order \<Rightarrow> detail \<Rightarrow> bool" where
  "checkExistingTrade order trade =
     list_ex (\<lambda>t. list_ex (\<lambda>x. dt_TradeID t = th_TID x) (d_Trades trade)) (do_Trades order)"

section \<open>Lemmas on sessions\<close>

datatype session_event = Logon string | Logout string | Request string

fun session_step :: "session_event \<Rightarrow> 'd application \<Rightarrow> 'd application" where
  "session_step (Logon x) a = OnLogon x a"
| "session_step (Logout x) a = OnLogout x a"
| "session_step (Request x) a = onMarketDataRequest x a"

text \<open>The last event that decides, newest event first.\<close>

fun logged_on :: "session_event list \<Rightarrow> string \<Rightarrow> bool" where
  "logged_on [] x = False"
| "logged_on (Logon y # es) x = (x = y \<or> logged_on es x)"
| "logged_on (Logout y # es) x = (x \<noteq> y \<and> logged_on es x)"
| "logged_on (Request y # es) x = logged_on es x"

fun subscribed :: "session_event list \<Rightarrow> string \<Rightarrow> bool" where
  "subscribed [] x = False"
| "subscribed (Logon y # es) x = subscribed es x"
| "subscribed (Logout y # es) x = (x \<noteq> y \<and> subscribed es x)"
| "subscribed (Request y # es) x = (x = y \<or> subscribed es x)"

definition session_inv :: "session_event list \<Rightarrow> 'd application \<Rightarrow> bool" where
  "session_inv es a \<longleftrightarrow>
     distinct (sessions a) \<and> distinct (marketdataSubscribers a) \<and>
     (\<forall>x. x \<in> set (sessions a) \<longleftrightarrow> logged_on es x) \<and>
     (\<forall>x. x \<in> set (marketdataSubscribers a) \<longleftrightarrow> subscribed es x)"

lemma session_inv_step: "session_inv es a \<Longrightarrow> session_inv (e # es) (session_step e a)"
  by (cases e) (simp_all add: session_inv_def OnLogon_def OnLogout_def onMarketDataRequest_def
      set_remove1_eq conj_commute)

lemma session_trace: "session_inv es (foldr session_step es (NewFixGateway now))"
proof (induction es)
  case Nil
  then show ?case by (simp add: session_inv_def NewFixGateway_def)
next
  case (Cons e es)
  then show ?case by (simp add: session_inv_step)
qed

section \<open>Lemmas on identifiers\<close>

definition digits_nat :: "string \<Rightarrow> nat" where
  "digits_nat s = foldl (\<lambda>n c. n * 10 + (of_char c - 48)) 0 s"

lemma nat_digits_value: "digits_nat (nat_digits n) = n"
proof (induction n rule: nat_digits.induct)
  case (1 n)
  have c: "of_char (char_of (48 + k) :: char) = 48 + k" if "k < 10" for k :: nat
    using that by simp
  show ?case
  proof (cases "n < 10")
    case True
    then show ?thesis using c [of n] by (subst nat_digits.simps) (simp add: digits_nat_def)
  next
    case False
    then have "digits_nat (nat_digits n) =
        digits_nat (nat_digits (n div 10)) * 10 + (of_char (char_of (48 + n mod 10) :: char) - 48)"
      by (subst nat_digits.simps) (simp add: digits_nat_def)
    also have "\<dots> = n" using 1 False c [of "n mod 10"] by simp
    finally show ?thesis .
  qed
qed

lemma nat_digits_inj: "nat_digits m = nat_digits n \<longleftrightarrow> m = n"
  by (metis nat_digits_value)

lemma nat_digits_no_sign: "nat_digits n \<noteq> CHR ''-'' # t"
proof -
  have "nat_digits n \<noteq> [] \<and> hd (nat_digits n) \<noteq> CHR ''-''"
  proof (induction n rule: nat_digits.induct)
    case (1 n)
    have "of_char (char_of (48 + n) :: char) = 48 + n" if "n < 10" using that by simp
    moreover have "of_char (CHR ''-'') = (45 :: nat)" by simp
    ultimately have "char_of (48 + n) \<noteq> CHR ''-''" if "n < 10" using that by force
    then show ?case using 1 by (subst (1 2) nat_digits.simps) (simp add: hd_append)
  qed
  then show ?thesis by auto
qed

lemma strconv_Itoa_inj: "strconv_Itoa i = strconv_Itoa j \<longleftrightarrow> i = j"
  using nat_digits_no_sign [of "nat i"] nat_digits_no_sign [of "nat j"]
  by (auto simp: strconv_Itoa_def nat_digits_inj split: if_splits) metis+

fun exec_ids :: "nat \<Rightarrow> 'd application \<Rightarrow> string list" where
  "exec_ids 0 a = []"
| "exec_ids (Suc n) a = (case genExecID a of (a', i) \<Rightarrow> i # exec_ids n a')"

lemma exec_ids_nth:
  "exec_ids n a = map (\<lambda>i. strconv_Itoa (sint (execID a + 1 + of_nat i))) [0..<n]"
proof (induction n arbitrary: a)
  case (Suc n)
  have "[0..<Suc n] = 0 # map Suc [0..<n]" 
    by (simp add: upt_conv_Cons map_Suc_upt del: upt_Suc)
  then show ?case using Suc [of "a\<lparr>execID := execID a + 1\<rparr>"]
    by (simp add: genExecID_def comp_def add_ac del: upt_Suc)
qed simp

section \<open>Lemmas on reports\<close>

text \<open>What was sent: the same reports, in order, to each session of the gateway.\<close>

definition reports_to :: "string list \<Rightarrow> 'd exec_report list \<Rightarrow> (string \<times> 'd fix_message) list" where
  "reports_to ss rs = concat (map (\<lambda>r. map (\<lambda>sid. (sid, ExecutionReport r)) ss) rs)"

lemma set_prices_frame [simp]:
  "er_OrdStatus (set_prices dec t p x r) = er_OrdStatus r"
  "er_ExecType (set_prices dec t p x r) = er_ExecType r"
  "er_ExecID (set_prices dec t p x r) = er_ExecID r"
  "er_LeavesQty (set_prices dec t p x r) = er_LeavesQty r"
  "er_CumQty (set_prices dec t p x r) = er_CumQty r"
  "er_Side (set_prices dec t p x r) = er_Side r"
  by (simp_all add: set_prices_def)

lemma reject_report_fields [simp]:
  "er_OrdStatus (reject_report dec cs u i x) = OrdStatus_REJECTED"
  "er_ExecType (reject_report dec cs u i x) = ExecType_REJECTED"
  "er_ExecID (reject_report dec cs u i x) = i"
  "er_CumQty (reject_report dec cs u i x) = NewFromFloat dec 0"
  "er_LeavesQty (reject_report dec cs u i x) = NewFromFloat dec 0"
  "er_ClOrdID (reject_report dec cs u i (RejectSubmit s)) = Some (s_ClientOrderID s)"
  by (cases x; simp add: reject_report_def SCALE_ZERO_def Let_def)+

lemma reject_sends:
  "\<exists>r. ga_sent (gs_app (reject dec u x e s)) = ga_sent (gs_app s) @ reports_to (sessions (gs_app s)) [r] \<and>
     er_OrdStatus r = OrdStatus_REJECTED \<and> er_CumQty r = NewFromFloat dec 0 \<and>
     er_Text r = Some e \<and> er_ClOrdID r = er_ClOrdID (reject_report dec (gs_currency s) u [] x)"
  "sessions (gs_app (reject dec u x e s)) = sessions (gs_app s)"
  "gs_world (reject dec u x e s) = gs_world s" "gs_db (reject dec u x e s) = gs_db s"
  "gs_currency (reject dec u x e s) = gs_currency s"
proof -
  have "er_ClOrdID (reject_report dec cs u i x) = er_ClOrdID (reject_report dec cs u [] x)" for cs i
    by (cases x) (simp_all add: reject_report_def Let_def)
  then show "\<exists>r. ga_sent (gs_app (reject dec u x e s)) =
       ga_sent (gs_app s) @ reports_to (sessions (gs_app s)) [r] \<and>
     er_OrdStatus r = OrdStatus_REJECTED \<and> er_CumQty r = NewFromFloat dec 0 \<and>
     er_Text r = Some e \<and> er_ClOrdID r = er_ClOrdID (reject_report dec (gs_currency s) u [] x)"
    by (intro exI [of _ "(reject_report dec (gs_currency s) u
          (strconv_Itoa (sint (execID (gs_app s) + 1))) x)\<lparr>er_Text := Some e\<rparr>"])
      (simp add: reject_def RejectOrderRequest_def genExecID_def send_all_def reports_to_def Let_def)
qed (simp_all add: reject_def RejectOrderRequest_def genExecID_def send_all_def Let_def)

lemma order_report_fields [simp]:
  "er_OrdStatus (order_report dec cs i d t) = t" "er_ExecType (order_report dec cs i d t) = t"
  "er_ClOrdID (order_report dec cs i d t) = Some (d_ClientOrderID d)"
  "er_CumQty (order_report dec cs i d t) = NewFromFloat dec (d_ExecutedAmount d)"
  "er_ExecID (order_report dec cs i d t) = i"
  by (simp_all add: order_report_def)

lemma order_report_OrderID [simp]: "er_OrderID (order_report dec cs i d t) = d_OrderID d"
  by (simp add: order_report_def set_prices_def)

text \<open>A side as the loop would send it without a limit.\<close>

fun numbered ::
    "'d decimal_ops \<Rightarrow> fix_md_entry_type \<Rightarrow> int \<Rightarrow> tranche list \<Rightarrow> 'd md_entry list" where
  "numbered dec t i [] = []"
| "numbered dec t i (e # es) =
     \<lparr>me_PositionNo = Some (i + 1), me_Type = t, me_Px = NewFromFloat dec (Price e),
      me_Size = Some (NewFromFloat dec (Amount e))\<rparr> # numbered dec t (i + 1) es"

lemma depth_entries_take:
  "0 \<le> i \<Longrightarrow> i \<le> 29 \<Longrightarrow> depth_entries dec t i es = numbered dec t i (take (nat (30 - i)) es)"
proof (induction es arbitrary: i)
  case (Cons e es)
  have n: "nat (30 - i) = Suc (nat (29 - i))" using Cons.prems by simp
  show ?case
  proof (cases "MAXDEPTH < i")
    case True
    then have "i = 29" using Cons.prems by (simp add: MAXDEPTH_def)
    then show ?thesis by (simp add: MAXDEPTH_def)
  next
    case False
    then show ?thesis using Cons.IH [of "i + 1"] Cons.prems n by (simp add: MAXDEPTH_def)
  qed
qed simp

lemma numbered_fields [simp]:
  "length (numbered dec t i es) = length es"
  "map me_Px (numbered dec t i es) = map (\<lambda>e. NewFromFloat dec (Price e)) es"
  "map me_Size (numbered dec t i es) = map (\<lambda>e. Some (NewFromFloat dec (Amount e))) es"
  "map me_Type (numbered dec t i es) = replicate (length es) t"
  by (induction es arbitrary: i) auto

section \<open>Properties\<close>

text \<open>Also: after any sequence of logons, logouts and market data requests a session
  is connected exactly if it logged on and has not logged out since, and gets market data exactly
  if it asked for it and has not logged out since; no session is listed twice.\<close>

theorem connected_sessions:
  "let a = foldr session_step es (NewFixGateway now) in
     IsConnected a x = logged_on es x \<and>
     (x \<in> set (marketdataSubscribers a)) = subscribed es x \<and>
     distinct (sessions a) \<and> distinct (marketdataSubscribers a)"
  by (simp add: session_trace [unfolded session_inv_def] IsConnected_def Let_def)

text \<open>Also: the identifiers of successive execution reports are pairwise distinct
  until the 64-bit counter has gone all the way round.\<close>

theorem exec_ids_distinct:
  assumes "n \<le> 2 ^ 64"
  shows "distinct (exec_ids n a) \<and> length (exec_ids n a) = n"
proof -
  have "i = j" if "i < n" "j < n"
      "sint (execID a + 1 + of_nat i) = sint (execID a + 1 + (of_nat j :: 64 word))" for i j
  proof -
    have "execID a + 1 + of_nat i = execID a + 1 + (of_nat j :: 64 word)"
      by (rule word_eq_iff_signed [THEN iffD2]) (rule that(3))
    then have "(of_nat i :: 64 word) = of_nat j" by simp
    then have "unat (of_nat i :: 64 word) = unat (of_nat j :: 64 word)" by simp
    moreover have "i < 2 ^ 64" "j < 2 ^ 64" using that(1,2) assms by simp_all
    ultimately show ?thesis by (simp add: unat_of_nat take_bit_nat_eq_self)
  qed
  then have "inj_on (\<lambda>i. strconv_Itoa (sint (execID a + 1 + of_nat i))) (set [0..<n])"
    by (intro inj_onI) (simp add: strconv_Itoa_inj)
  then show ?thesis by (simp add: exec_ids_nth distinct_map)
qed

theorem exec_ids_distinct_witness: "distinct (exec_ids 3 (NewFixGateway 0 :: rat application))"
  using exec_ids_distinct [of 3 "NewFixGateway 0 :: rat application"] by simp

text \<open>Also: sides and the tradable security types survive the way to FIX and back; an order
  that is no longer trading is never reported as new or partially filled, but five statuses of
  live orders (open, pending, pending cancel, hidden, auto-deleverage) are reported as
  rejected.\<close>

theorem fix_mapping:
  "list_all (\<lambda>s. FromSide (ToSide s) = s) [Buy, Sell] \<and>
   list_all (\<lambda>a. FromSecurityType (ToSecurityType a) = a) [Spot, Margin, USDTMarginedFutures] \<and>
   list_all (\<lambda>s. ToOrdStatus s = OrdStatus_NEW \<or> ToOrdStatus s = OrdStatus_PARTIALLY_FILLED \<or>
      ToOrdStatus s = OrdStatus_REJECTED) (filter status_active named_statuses) \<and>
   list_all (\<lambda>s. ToOrdStatus s = OrdStatus_FILLED \<or> ToOrdStatus s = OrdStatus_CANCELED \<or>
      ToOrdStatus s = OrdStatus_REJECTED) (filter status_IsInactive named_statuses) \<and>
   list_all (\<lambda>s. status_active s \<and> ToOrdStatus s = OrdStatus_REJECTED)
     [Open, PendingCancel, Hidden, AutoDeleverage, Pending]"
proof -
  have "list_all (\<lambda>s. FromSide (ToSide s) = s) [Buy, Sell]"
    by (simp add: FromSide_def ToSide_def order_side_consts)
  moreover have "list_all (\<lambda>a. FromSecurityType (ToSecurityType a) = a)
      [Spot, Margin, USDTMarginedFutures]"
    by (simp add: FromSecurityType_def ToSecurityType_def asset_consts)
  moreover have "list_all (\<lambda>s. if status_active s then ToOrdStatus s = OrdStatus_NEW \<or>
      ToOrdStatus s = OrdStatus_PARTIALLY_FILLED \<or> ToOrdStatus s = OrdStatus_REJECTED
      else True) named_statuses"
    unfolding named_statuses_def
    by (simp add: status_active_def activeStatuses_def ToOrdStatus_def order_status_consts)
  moreover have "list_all (\<lambda>s. if status_IsInactive s then ToOrdStatus s = OrdStatus_FILLED \<or>
      ToOrdStatus s = OrdStatus_CANCELED \<or> ToOrdStatus s = OrdStatus_REJECTED
      else True) named_statuses"
    unfolding named_statuses_def
    by (simp add: status_IsInactive_def inactiveStatuses_def ToOrdStatus_def order_status_consts)
  moreover have "list_all (\<lambda>s. status_active s \<and> ToOrdStatus s = OrdStatus_REJECTED)
      [Open, PendingCancel, Hidden, AutoDeleverage, Pending]"
    by (simp add: status_active_def activeStatuses_def ToOrdStatus_def order_status_consts)
  ultimately show ?thesis by (simp add: list_all_iff split: if_split_asm)
qed

text \<open>Also: every market data subscriber, once each and in one message, gets the best
  thirty levels of each side of a valid book, bids before offers, best first, as their prices and
  amounts are in the book; a book that is not valid is not sent.\<close>

theorem depth_broadcast:
  "case depth_Retrieve dm of
     Inl err \<Rightarrow> BroadcastDepth dec cs dm a = a
   | Inr b \<Rightarrow>
       (\<exists>msg. ga_sent (BroadcastDepth dec cs dm a) =
          ga_sent a @ map (\<lambda>sid. (sid, MarketDataSnapshot msg)) (marketdataSubscribers a) \<and>
        md_SecurityExchange msg = bk_Exchange b \<and>
        map me_Px (md_Entries msg) =
          map (\<lambda>e. NewFromFloat dec (Price e)) (take 30 (bk_Bids b) @ take 30 (bk_Asks b)) \<and>
        map me_Size (md_Entries msg) =
          map (\<lambda>e. Some (NewFromFloat dec (Amount e))) (take 30 (bk_Bids b) @ take 30 (bk_Asks b)) \<and>
        map me_Type (md_Entries msg) =
          replicate (min 30 (length (bk_Bids b))) MDEntryType_BID @
          replicate (min 30 (length (bk_Asks b))) MDEntryType_OFFER)"
  by (auto simp: BroadcastDepth_def Let_def send_all_def depth_entries_take min.commute split: sum.split)

text \<open>C8: what becomes of a well-formed submission to a loaded exchange.  If it breaks
  the exchange's limits, nothing reaches the exchange and every session gets one report.  Otherwise
  it is submitted, even if the exchange cannot trade the pair, and every session gets one report for
  the pair that cannot be traded and one for the submission that fails.  All these reports reject
  the client's order id, with nothing filled, and the database is untouched.\<close>

theorem order_placement:
  assumes "GetExchangeByName em (s_Exchange sub) = Inr x"
  shows "case place_order dec xo em uuid sub s of (s', res) \<Rightarrow>
    res = Returned None \<and> gs_db s' = gs_db s \<and> sessions (gs_app s') = sessions (gs_app s) \<and>
    (\<exists>rs. ga_sent (gs_app s') = ga_sent (gs_app s) @ reports_to (sessions (gs_app s)) rs \<and>
       list_all (\<lambda>r. er_OrdStatus r = OrdStatus_REJECTED \<and> er_CumQty r = NewFromFloat dec 0 \<and>
         er_ClOrdID r = Some (s_ClientOrderID sub)) rs \<and>
       (case xo_CheckOrderExecutionLimits xo (gs_world s) x (s_AssetType sub) (s_Pair sub)
               (s_Price sub) (s_Amount sub) (s_Type sub) of
          Some e \<Rightarrow> length rs = 1 \<and> gs_world s' = gs_world s
        | None \<Rightarrow>
            (case xo_SubmitOrder xo (gs_world s) x sub of (w, r) \<Rightarrow>
               gs_world s' = w \<and>
               length rs = (if xo_CanTradePair xo (gs_world s) x (s_Pair sub) (s_AssetType sub) = None
                            then 0 else 1) + (if isl r then 1 else 0))))"
proof -
  let ?ok = "\<lambda>r. er_OrdStatus r = OrdStatus_REJECTED \<and> er_CumQty r = NewFromFloat dec 0 \<and>
      er_ClOrdID r = Some (s_ClientOrderID sub)"
  have rej: "\<exists>r. ga_sent (gs_app (reject dec u (RejectSubmit sub) e t)) =
        ga_sent (gs_app t) @ reports_to (sessions (gs_app t)) [r] \<and> ?ok r" for u e t
    using reject_sends(1) [of dec u "RejectSubmit sub" e t] by auto
  have none: "reports_to ss [] = []" for ss by (simp add: reports_to_def)
  show ?thesis
  proof (cases "xo_CheckOrderExecutionLimits xo (gs_world s) x (s_AssetType sub) (s_Pair sub)
      (s_Price sub) (s_Amount sub) (s_Type sub)")
    case (Some e)
    then show ?thesis
      using rej [of "uuid 0" "Errorf ''order manager: exchange %s unable to place order: %w'' [e]" s]
      by (force simp: place_order_def assms reject_sends(2-4))
  next
    case None
    obtain s1 rs1 where s1: "s1 = (case xo_CanTradePair xo (gs_world s) x (s_Pair sub) (s_AssetType sub) of
          Some e \<Rightarrow> reject dec (uuid 0) (RejectSubmit sub)
            (Errorf ''order manager: exchange %s cannot trade pair %s %s: %w'' [e]) s
        | None \<Rightarrow> s)"
      and sent1: "ga_sent (gs_app s1) = ga_sent (gs_app s) @ reports_to (sessions (gs_app s)) rs1"
      and ok1: "list_all ?ok rs1"
      and len1: "length rs1 = (if xo_CanTradePair xo (gs_world s) x (s_Pair sub) (s_AssetType sub) = None
          then 0 else 1)"
    proof (cases "xo_CanTradePair xo (gs_world s) x (s_Pair sub) (s_AssetType sub)")
      case None
      then show ?thesis using that [of s "[]"] by (simp add: none)
    next
      case (Some e)
      let ?e = "Errorf ''order manager: exchange %s cannot trade pair %s %s: %w'' [e]"
      obtain r where "ga_sent (gs_app (reject dec (uuid 0) (RejectSubmit sub) ?e s)) =
          ga_sent (gs_app s) @ reports_to (sessions (gs_app s)) [r]" "?ok r"
        using rej by blast
      then show ?thesis using Some that [of "reject dec (uuid 0) (RejectSubmit sub) ?e s" "[r]"] by simp
    qed
    have frame: "gs_world s1 = gs_world s" "gs_db s1 = gs_db s"
      "sessions (gs_app s1) = sessions (gs_app s)"
      by (simp_all add: s1 reject_sends(2-4) split: option.split)
    obtain w res where sub: "xo_SubmitOrder xo (gs_world s) x sub = (w, res)" by fastforce
    have place: "place_order dec xo em uuid sub s = (case res of
        Inl e \<Rightarrow> (reject dec (uuid 1) (RejectSubmit sub) e (s1\<lparr>gs_world := w\<rparr>), Returned None)
      | Inr _ \<Rightarrow> (s1\<lparr>gs_world := w\<rparr>, Returned None))"
      using None sub frame(1) by (simp add: place_order_def assms s1 [symmetric] Let_def del: One_nat_def)
    show ?thesis
    proof (cases res)
      case (Inl e)
      obtain r where r: "ga_sent (gs_app (reject dec (uuid 1) (RejectSubmit sub) e (s1\<lparr>gs_world := w\<rparr>))) =
          ga_sent (gs_app s1) @ reports_to (sessions (gs_app s1)) [r]" "?ok r"
        using rej [of "uuid 1" e "s1\<lparr>gs_world := w\<rparr>"] by auto
      have "ga_sent (gs_app (reject dec (uuid 1) (RejectSubmit sub) e (s1\<lparr>gs_world := w\<rparr>))) =
          ga_sent (gs_app s) @ reports_to (sessions (gs_app s)) (rs1 @ [r])"
        unfolding r(1) sent1 frame(3) append_assoc by (simp add: reports_to_def)
      then show ?thesis
        using place Inl None sub frame ok1 len1 r(2)
        by (auto simp: reject_sends(2-4) intro!: exI [of _ "rs1 @ [r]"])
    next
      case (Inr y)
      then show ?thesis using place None sub frame ok1 len1 sent1 by auto
    qed
  qed
qed

text \<open>Also: an order update is reported to every session once, with the order's ids and
  executed quantity, and an execution type that agrees with the order status; except that the
  report of a filled or partially filled order without trades panics, and nothing is sent.\<close>

theorem update_reports:
  "case app_UpdateOrder dec cs d status a of (a', res) \<Rightarrow>
     (if d_Trades d = [] \<and> (status = OrdStatus_FILLED \<or> status = OrdStatus_PARTIALLY_FILLED)
      then res = Panicked \<and> ga_sent a' = ga_sent a
      else res = Returned None \<and>
        (\<exists>r. ga_sent a' = ga_sent a @ reports_to (sessions a) [r] \<and> er_OrdStatus r = status \<and>
           er_ExecType r = er_OrdStatus r \<and> er_OrderID r = d_OrderID d \<and>
           er_ClOrdID r = Some (d_ClientOrderID d) \<and>
           er_CumQty r = NewFromFloat dec (d_ExecutedAmount d)))"
  by (auto simp: app_UpdateOrder_def Let_def genExecID_def send_all_def reports_to_def
      fix_status_consts)

definition demo_exchange :: "(unit, nat) exchange_ops" where
  "demo_exchange =
     \<lparr>xo_CheckOrderExecutionLimits = (\<lambda>w e a p x y t. None), xo_CanTradePair = (\<lambda>w e p a. None),
      xo_SubmitOrder = (\<lambda>w e s. (w + 1, Inl ErrTypeIsInvalid)),
      xo_CancelOrder = (\<lambda>w e c. (w + 1, None)),
      xo_ModifyOrder = (\<lambda>w e m. (w, Inl ErrTypeIsInvalid))\<rparr>"

definition demo_manager :: "unit exchange_manager" where
  "demo_manager = \<lparr>exchanges = [(''binance'', ())]\<rparr>"

definition demo_app :: "rat application" where
  "demo_app = OnLogon ''FIX.4.2:A->B'' (NewFixGateway 0)"

definition demo_state :: "(nat, db_order list, rat) gateway_state" where
  "demo_state = \<lparr>gs_currency = demo_registry, gs_world = 0, gs_db = [], gs_app = demo_app\<rparr>"

theorem order_placement_witness:
  "gs_world (fst (place_order rat_decimal demo_exchange (Some demo_manager) (\<lambda>_. []) demo_submit
     demo_state)) = 1"
proof -
  have "GetExchangeByName (Some demo_manager) (s_Exchange demo_submit) = Inr ()"
    by code_simp
  from order_placement [OF this, where dec = rat_decimal and xo = demo_exchange
      and uuid = "\<lambda>_. []" and s = demo_state] show ?thesis
    by (auto simp: demo_exchange_def demo_state_def split: prod.splits)
qed

text \<open>Also: a well-formed cancel request for an order the database does not know is
  rejected and changes nothing.  Otherwise the only cancellation an exchange can get carries the
  stored order's id and both client ids; one that the exchange refuses is reported to every
  session, and one whose symbol is no pair is dropped without a word.\<close>

theorem cancel_request:
  "case onOrderCancelRequest dec xo em db uuid
      \<lparr>cr_OrderID = Inr oid, cr_Side = Inr sd, cr_Symbol = Inr symb, cr_ClOrdID = Inr clid,
       cr_OrigClOrdID = Inr orig, cr_SecurityExchange = Inr exch, cr_SecurityType = Inr st\<rparr> s of
     (s', res) \<Rightarrow>
       (let stored = GetOrderByClOrdID db (gs_db s) orig in
        if do_OrderID stored = [] then s' = s \<and> res = Returned (Some (ValueIsIncorrect 41))
        else (case NewPairFromString (gs_currency s) symb of
            (c, Inl e) \<Rightarrow> s' = s\<lparr>gs_currency := c\<rparr> \<and> res = Returned None
          | (c, Inr p) \<Rightarrow>
              (case GetExchangeByName em exch of
                 Inl e \<Rightarrow> s' = s\<lparr>gs_currency := c\<rparr> \<and> res = Returned (Some (ValueIsIncorrect 207))
               | Inr x \<Rightarrow>
                   (case xo_CancelOrder xo (gs_world s) x
                           (cancellation_of exch (do_OrderID stored) sd p st orig clid) of
                      (w, err) \<Rightarrow> res = Returned None \<and> gs_world s' = w \<and>
                        gs_db s' = fst (db_UpdateOrder db (gs_db s) (do_ClientOrderID stored) stored) \<and>
                        (case err of
                           None \<Rightarrow> gs_app s' = gs_app s
                         | Some e \<Rightarrow> (\<exists>r. ga_sent (gs_app s') = ga_sent (gs_app s) @
                               reports_to (sessions (gs_app s)) [r] \<and>
                             er_OrdStatus r = OrdStatus_REJECTED \<and> er_Text r = Some e))))))"
proof (cases "do_OrderID (GetOrderByClOrdID db (gs_db s) orig) = []")
  case True
  then show ?thesis by (simp add: onOrderCancelRequest_def field_def Let_def)
next
  case False
  obtain c r where p: "NewPairFromString (gs_currency s) symb = (c, r)" by fastforce
  show ?thesis
  proof (cases r)
    case (Inl e)
    then show ?thesis using False p by (simp add: onOrderCancelRequest_def field_def Let_def)
  next
    case (Inr pr)
    show ?thesis
    proof (cases "GetExchangeByName em exch")
      case (Inl e)
      then show ?thesis using False p Inr
        by (simp add: onOrderCancelRequest_def field_def Let_def)
    next
      case x: (Inr x)
      let ?req = "cancellation_of exch (do_OrderID (GetOrderByClOrdID db (gs_db s) orig)) sd pr st
          orig clid"
      obtain w err where w: "xo_CancelOrder xo (gs_world s) x ?req = (w, err)" by fastforce
      show ?thesis
      proof (cases err)
        case None
        then show ?thesis using False p Inr x w
          by (simp add: onOrderCancelRequest_def field_def Let_def case_prod_beta)
      next
        case (Some e)
        then show ?thesis
          using False p Inr x w reject_sends(1) [of dec "uuid 0" "RejectCancel ?req" e
              "s\<lparr>gs_currency := c, gs_world := w\<rparr>"]
          by (auto simp: onOrderCancelRequest_def field_def Let_def case_prod_beta reject_sends(2-4))
      qed
    qed
  qed
qed

text \<open>What is relied on of the database (an SQLite file behind gorm): an order with both ids that
  \<open>Create\<close> has stored without an error is the one the lookup by its order id then finds, and its
  columns hold what was stored.  Nothing is said of an order without an id, since
  \<open>Where(&Order{OrderID: orderID})\<close> drops the condition for the empty string and then finds the first
  order of the table, nor of a NaN, for which the column holds NULL.\<close>

definition returns_stored :: "'b order_db \<Rightarrow> bool" where
  "returns_stored db \<longleftrightarrow>
     (\<forall>b x b'. do_OrderID x \<noteq> [] \<and> do_ClientOrderID x \<noteq> [] \<and> CreateOrder db b x = (b', None) \<longrightarrow>
        (let y = GetOrderByOrderID db b' (do_OrderID x)
         in do_ClientOrderID y = do_ClientOrderID x \<and> do_Status y = do_Status x \<and>
            (do_Price x \<noteq> NaN \<longrightarrow> do_Price y = do_Price x) \<and>
            (do_Amount x \<noteq> NaN \<longrightarrow> do_Amount y = do_Amount x)))"

lemma update_order_sessions: "app_UpdateOrder dec cs d st a = (a', res) \<Longrightarrow> sessions a' = sessions a"
  by (auto simp: app_UpdateOrder_def Let_def genExecID_def send_all_def split: option.split_asm)

lemma stored_order:
  assumes "returns_stored db" and "CreateOrder db b (saved_order cs d) = (b', None)"
    and "d_OrderID d \<noteq> []" and "d_ClientOrderID d \<noteq> []"
  shows "let y = GetOrderByOrderID db b' (d_OrderID d)
    in do_ClientOrderID y = d_ClientOrderID d \<and> do_Status y = status_String (d_Status d) \<and>
       (d_Price d \<noteq> NaN \<longrightarrow> do_Price y = d_Price d) \<and> (d_Amount d \<noteq> NaN \<longrightarrow> do_Amount y = d_Amount d)"
proof -
  let ?x = "saved_order cs d"
  have f: "do_OrderID ?x = d_OrderID d" "do_ClientOrderID ?x = d_ClientOrderID d"
    "do_Status ?x = status_String (d_Status d)" "do_Price ?x = d_Price d" "do_Amount ?x = d_Amount d"
    by (simp_all add: saved_order_def)
  show ?thesis
    using assms(1) [unfolded returns_stored_def, rule_format, of ?x b b'] assms(2-4) by (simp add: f)
qed

text \<open>C28: an order update that created the order in the database (it has an order id and a
  client order id, and its price and amount are numbers) and is delivered again to a gateway with
  sessions: without trades it changes nothing and is not reported a second time; with trades they are
  saved again and the order is updated with what is stored, which is reported a second time if and only
  if the database then holds another number of trades of the order than before, and an error of the
  update is returned.  Assumed of the database is that it returns the order it has stored.\<close>

theorem redelivered_update:
  assumes "returns_stored db" and "handle_detail dec db cs d b a = (b', a', Returned None)"
    and "do_ClientOrderID (GetOrderByOrderID db b (d_OrderID d)) = []" and "sessions a \<noteq> []"
    and "d_OrderID d \<noteq> []" and "d_ClientOrderID d \<noteq> []"
    and "d_Price d \<noteq> NaN" and "d_Amount d \<noteq> NaN"
  shows "if d_Trades d = [] then handle_detail dec db cs d b' a' = (b', a', Returned None)
    else case db_UpdateOrder db (save_trades db d b') (d_ClientOrderID d)
                (GetOrderByOrderID db b' (d_OrderID d)) of
           (b2, Some err) \<Rightarrow> handle_detail dec db cs d b' a' = (b2, a', Returned (Some err))
         | (b2, None) \<Rightarrow>
             if length (do_Trades (GetOrderByClOrdID db b2 (d_ClientOrderID d))) =
                length (do_Trades (GetOrderByOrderID db b' (d_OrderID d)))
             then handle_detail dec db cs d b' a' = (b2, a', Returned None)
             else handle_detail dec db cs d b' a' =
               (b2, app_UpdateOrder dec cs d (ToOrdStatus (d_Status d)) a')"
proof -
  obtain b1 err where c: "CreateOrder db (save_trades db d b) (saved_order cs d) = (b1, err)" by fastforce
  have e: "err = None" and b1: "b' = b1" and
    a: "app_UpdateOrder dec cs d (ToOrdStatus (d_Status d)) a = (a', (Returned None :: go_error call_result))"
    using assms(2,3,4) c by (auto simp: handle_detail_def Let_def split: option.split_asm prod.split_asm)
  have "sessions a' \<noteq> []"
    using update_order_sessions [OF a] assms(4) by simp
  with stored_order [OF assms(1) c [unfolded e] assms(5,6)] show ?thesis
    using assms(6-8) b1
    by (auto simp: handle_detail_def Let_def feq_refl split: prod.split option.split)
qed

definition no_order :: db_order where
  "no_order =
     \<lparr>do_ClientOrderID = [], do_OrderID = [], do_SessionID = [], do_Exchange = [], do_Base = [],
      do_Quote = [], do_Delimiter = [], do_Side = [], do_AssetType = [], do_OrderType = [],
      do_Price = 0, do_Amount = 0, do_Status = [], do_Timestamp = 0, do_Trades = []\<rparr>"

definition list_db :: "db_order list order_db" where
  "list_db =
     \<lparr>GetOrderByClOrdID = (\<lambda>b c. case find (\<lambda>x. do_ClientOrderID x = c) b of Some x \<Rightarrow> x | None \<Rightarrow> no_order),
      GetOrderByOrderID = (\<lambda>b c. case find (\<lambda>x. do_OrderID x = c) b of Some x \<Rightarrow> x | None \<Rightarrow> no_order),
      CreateOrder = (\<lambda>b x. (x # b, None)), db_UpdateOrder = (\<lambda>b c x. (b, None)),
      UpdateOrCreateTrade = (\<lambda>b c x. (b, None))\<rparr>"

lemma list_db_returns: "returns_stored list_db"
  by (simp add: returns_stored_def list_db_def)

theorem redelivered_update_witness:
  "let d = demo_detail\<lparr>d_ClientOrderID := ''c1''\<rparr>;
       (b', a', r) = handle_detail rat_decimal list_db demo_registry d [] demo_app
   in handle_detail rat_decimal list_db demo_registry d b' a' = (b', a', Returned None)"
proof -
  let ?d = "demo_detail\<lparr>d_ClientOrderID := ''c1''\<rparr>"
  obtain b' a' r where h: "handle_detail rat_decimal list_db demo_registry ?d [] demo_app = (b', a', r)"
    by (metis prod_cases3)
  have price: "d_Price demo_detail = Fin 100" "d_Trades demo_detail = []" "d_OrderID demo_detail \<noteq> []"
    by (simp_all add: demo_detail_def DeriveSubmitResponse_def DeriveDetail_def demo_submit_def
        order_type_consts)
  have "r = Returned None"
  proof -
    have "ToOrdStatus New = OrdStatus_NEW" by (simp add: ToOrdStatus_def)
    then show ?thesis
      using h by (auto simp: handle_detail_def list_db_def no_order_def save_trades_def price
          demo_detail_fields app_UpdateOrder_def fix_status_consts genExecID_def Let_def
          split: if_split_asm)
  qed
  moreover have "sessions demo_app \<noteq> []"
    by (simp add: demo_app_def OnLogon_def NewFixGateway_def)
  ultimately show ?thesis
    using redelivered_update [OF list_db_returns, of rat_decimal demo_registry ?d "[]" demo_app b' a'] h
    by (simp add: price demo_detail_fields) (simp add: list_db_def no_order_def)
qed

end
