(* ===== verification/Order_Manager.thy ===== *)
theory Order_Manager
  imports Order_Store Fix_Gateway
begin

text \<open>
  The order manager of the FIX engine (\<open>fixengine/order_manager.go\<close>): validating, submitting,
  modifying and cancelling orders at the exchanges, keeping them in the order store, and the
  periodic pass that compares the exchanges' orders with the database and reports what changed to
  the FIX sessions.

  A nil manager is \<open>None\<close>.  Exchanges, the position controller, the database and the UUID generator
  are parameters, as in \<open>Fix_Gateway\<close> and \<open>Order_Store\<close>; a call of an exchange acts on the world
  \<open>om_world\<close>.  The parameters that do not change are one record, the environment.  What the
  communications manager is told are the events \<open>om_events\<close>; of an event's text the model keeps what
  it is about.  \<open>now\<close> is the clock, read once per call.  A nil dereference is the outcome \<open>Panicked\<close>.
\<close>

section \<open>State\<close>

definition ErrSubSystemAlreadyStarted :: go_error where
  "ErrSubSystemAlreadyStarted = Sentinel ''main.ErrSubSystemAlreadyStarted''"
definition ErrSubSystemNotStarted :: go_error where
  "ErrSubSystemNotStarted = Sentinel ''main.ErrSubSystemNotStarted''"
definition ErrCurrencyStateNotFound :: go_error where
  "ErrCurrencyStateNotFound = Sentinel ''currencystate.ErrCurrencyStateNotFound''"

record order_manager_config =
  EnforceLimitConfig :: bool
  AllowMarketOrders :: bool
  CancelOrdersOnShutdown :: bool
  LimitAmount :: f64
  AllowedPairs :: "pair list"
  AllowedExchanges :: "string list"
  OrderSubmissionRetries :: int

datatype manager_event =
    EvError go_error
  | EvCancelled string string
  | EvModifyFailed string string
  | EvModified bool string string
  | EvSubmitted detail
  | EvUpsertFailed detail go_error
  | EvNoText

record ('f, 'w) order_manager =
  om_started :: bool
  om_cfg :: order_manager_config
  om_store :: "'f order_store"
  om_activelyTrackFuturesPositions :: bool
  om_futuresPositionSeekDuration :: int
  om_respectOrderHistoryLimits :: bool
  om_world :: 'w
  om_events :: "manager_event list"

record order_submit_response =
  osr_Detail :: detail
  osr_InternalOrderID :: uuid

text \<open>The rest of the exchange interface that the manager calls.\<close>

record ('e, 'w) trading_ops = "('e, 'w) exchange_ops" +
  to_GetName :: "'e \<Rightarrow> string"
  to_GetTradingRequirements :: "'e \<Rightarrow> trading_requirements"
  to_GetAssetTypes :: "'w \<Rightarrow> 'e \<Rightarrow> bool \<Rightarrow> asset_item list"
  to_GetEnabledPairs :: "'w \<Rightarrow> 'e \<Rightarrow> asset_item \<Rightarrow> pair list go_result"
  to_IsRESTAuthenticationSupported :: "'w \<Rightarrow> 'e \<Rightarrow> bool"
  to_GetOrderHistory :: "'w \<Rightarrow> 'e \<Rightarrow> multi_order_request \<Rightarrow> 'w \<times> detail list go_result"
  to_GetOrderInfo :: "'w \<Rightarrow> 'e \<Rightarrow> string \<Rightarrow> pair \<Rightarrow> asset_item \<Rightarrow> 'w \<times> detail go_result"

record ('e, 'f, 'w) manager_env =
  en_currency :: store
  en_exchanges :: "'e exchange_manager option"
  en_ops :: "('e, 'w) trading_ops"
  en_track :: "'f tracker"
  en_v5 :: "string \<Rightarrow> uuid"

definition push :: "manager_event \<Rightarrow> ('f, 'w) order_manager \<Rightarrow> ('f, 'w) order_manager" where
  "push ev m = m\<lparr>om_events := om_events m @ [ev]\<rparr>"

section \<open>Starting and stopping\<close>

definition om_IsRunning :: "('f, 'w) order_manager option \<Rightarrow> bool" where
  "om_IsRunning mo \<longleftrightarrow> (case mo of None \<Rightarrow> False | Some m \<Rightarrow> om_started m)"

definition om_Start ::
    "('f, 'w) order_manager option \<Rightarrow> ('f, 'w) order_manager option \<times> go_error option" where
  "om_Start mo =
     (case mo of
        None \<Rightarrow> (None, Some (Errorf ''order manager %w'' [ErrNilSubsystem]))
      | Some m \<Rightarrow>
          if om_started m then (Some m, Some (Errorf ''order manager %w'' [ErrSubSystemAlreadyStarted]))
          else (Some (m\<lparr>om_started := True\<rparr>), None))"

text \<open>The check every operation starts with.\<close>

definition om_guard :: "('f, 'w) order_manager option \<Rightarrow> ('f, 'w) order_manager go_result" where
  "om_guard mo =
     (case mo of
        None \<Rightarrow> Inl (Errorf ''order manager %w'' [ErrNilSubsystem])
      | Some m \<Rightarrow>
          if \<not> om_started m then Inl (Errorf ''order manager %w'' [ErrSubSystemNotStarted])
          else Inr m)"

text \<open>\<open>Stop\<close> closes the shutdown channel, on which \<open>run\<close> calls \<open>gracefulShutdown\<close>, and clears the
  flag.\<close>

definition om_Stop ::
    "('f, 'w) order_manager option \<Rightarrow> ('f, 'w) order_manager option \<times> go_error option" where
  "om_Stop mo =
     (case om_guard mo of
        Inl e \<Rightarrow> (mo, Some e)
      | Inr m \<Rightarrow> (Some (m\<lparr>om_started := False\<rparr>), None))"

section \<open>Cancelling\<close>

text \<open>The deferred function pushes the error that is left in \<open>err\<close>; the asset check returns its
  error without setting it.\<close>

definition om_Cancel ::
    "('e, 'f, 'w) manager_env \<Rightarrow> time \<Rightarrow> cancel option \<Rightarrow> ('f, 'w) order_manager option \<Rightarrow>
     ('f, 'w) order_manager option \<times> go_error option" where
  "om_Cancel env now copt mo =
     (case om_guard mo of
        Inl e \<Rightarrow> (mo, Some e)
      | Inr m \<Rightarrow>
          (let fail = (\<lambda>m e. (Some (push (EvError e) m), Some e))
           in case copt of
                None \<Rightarrow> fail m (Errorf ''order cancel param is nil'' [])
              | Some c \<Rightarrow>
                  if c_Exchange c = [] then fail m (Errorf ''order exchange name is empty'' [])
                  else if c_OrderID c = [] then fail m (Errorf ''order id is empty'' [])
                  else
                    (case GetExchangeByName (en_exchanges env) (c_Exchange c) of
                       Inl e \<Rightarrow> fail m e
                     | Inr x \<Rightarrow>
                         if asset_String (c_AssetType c) \<noteq> [] \<and>
                            \<not> asset_Contains (to_GetAssetTypes (en_ops env) (om_world m) x False)
                                (c_AssetType c)
                         then (Some m, Some (Errorf ''%w %v'' [asset_ErrNotSupported]))
                         else
                           (case xo_CancelOrder (en_ops env) (om_world m) x c of
                              (w, Some e) \<Rightarrow>
                                fail (m\<lparr>om_world := w\<rparr>)
                                  (Errorf ''%v - Failed to cancel order: %w'' [e])
                            | (w, None) \<Rightarrow>
                                (case os_getByExchangeAndID (om_store m) (c_Exchange c) (c_OrderID c) of
                                   Inl e \<Rightarrow>
                                     fail (m\<lparr>om_world := w\<rparr>)
                                       (Errorf ''%v - Failed to retrieve order %v to update cancelled status: %w'' [e])
                                 | Inr od \<Rightarrow>
                                     (case os_updateExisting (en_currency env) (en_track env) now
                                             (Some (od\<lparr>d_Status := Cancelled\<rparr>)) (om_store m) of
                                        (s, od', Some e) \<Rightarrow>
                                          fail (m\<lparr>om_world := w, om_store := s\<rparr>)
                                            (Errorf ''%v - Failed to update existing order when cancelled: %w'' [e])
                                      | (s, od', None) \<Rightarrow>
                                          (Some (push (EvCancelled (d_Exchange od) (d_OrderID od))
                                             (m\<lparr>om_world := w, om_store := s\<rparr>)), None)))))))"

definition om_CancelAllOrders ::
    "('e, 'f, 'w) manager_env \<Rightarrow> time \<Rightarrow> 'e list \<Rightarrow> ('f, 'w) order_manager option \<Rightarrow>
     ('f, 'w) order_manager option" where
  "om_CancelAllOrders env now exchs mo =
     (case om_guard mo of
        Inl e \<Rightarrow> mo
      | Inr m \<Rightarrow>
          (let allOrders = os_get (om_store m)
           in if length allOrders = 0 then mo
              else fold (\<lambda>x mo.
                     (case map_of allOrders (ToLower (to_GetName (en_ops env) x)) of
                        None \<Rightarrow> mo
                      | Some orders \<Rightarrow>
                          fold (\<lambda>d mo.
                            (case DeriveCancel (Some d) of
                               Inl e \<Rightarrow> mo
                             | Inr cancel \<Rightarrow> fst (om_Cancel env now (Some cancel) mo))) orders mo))
                   exchs mo))"

definition om_gracefulShutdown ::
    "('e, 'f, 'w) manager_env \<Rightarrow> time \<Rightarrow> ('f, 'w) order_manager \<Rightarrow> ('f, 'w) order_manager option" where
  "om_gracefulShutdown env now m =
     (if \<not> CancelOrdersOnShutdown (om_cfg m) then Some m
      else (case em_GetExchanges (en_exchanges env) of
              Inl e \<Rightarrow> Some m
            | Inr exchs \<Rightarrow> om_CancelAllOrders env now exchs (Some m)))"

section \<open>Submitting\<close>

definition StringSliceCompareInsensitive :: "string list \<Rightarrow> string \<Rightarrow> bool" where
  "StringSliceCompareInsensitive haystack needle \<longleftrightarrow> list_ex (\<lambda>s. EqualFold s needle) haystack"

definition om_validate ::
    "('e, 'f, 'w) manager_env \<Rightarrow> order_manager_config \<Rightarrow> 'e \<Rightarrow> submit option \<Rightarrow> go_error option" where
  "om_validate env cfg x so =
     (case so of
        None \<Rightarrow> Some errNilOrder
      | Some s \<Rightarrow>
          if s_Exchange s = [] then Some Exchange_Manager.ErrExchangeNameIsEmpty
          else
            (case submit_Validate (en_currency env) (Some s)
                    (to_GetTradingRequirements (en_ops env) x) [] of
               Some e \<Rightarrow> Some (Errorf ''order manager: %w'' [e])
             | None \<Rightarrow>
                 if EnforceLimitConfig cfg then
                   (if \<not> AllowMarketOrders cfg \<and> s_Type s = Market
                    then Some (Errorf ''order market type is not allowed'' [])
                    else if 0 < LimitAmount cfg \<and> LimitAmount cfg < s_Amount s
                    then Some (Errorf ''order limit exceeds allowed limit'' [])
                    else if 0 < length (AllowedExchanges cfg) \<and>
                            \<not> StringSliceCompareInsensitive (AllowedExchanges cfg) (s_Exchange s)
                    then Some (Errorf ''order exchange not found in allowed list'' [])
                    else if 0 < length (AllowedPairs cfg) \<and>
                            \<not> pairs_Contains (AllowedPairs cfg) (s_Pair s) True
                    then Some (Errorf ''order pair not found in allowed list'' [])
                    else None)
                 else None))"

text \<open>The generators of \<open>processSubmittedOrder\<close>: \<open>v4 0\<close> for the order, \<open>v4 1\<close> for the store if the
  first one failed.  An order that is there already came from the websocket and is more recent; any
  other error of the store is logged only.\<close>

definition om_processSubmittedOrder ::
    "('e, 'f, 'w) manager_env \<Rightarrow> (nat \<Rightarrow> uuid go_result) \<Rightarrow> submit_response option \<Rightarrow>
     ('f, 'w) order_manager \<Rightarrow>
     ('f, 'w) order_manager \<times> order_submit_response option \<times> go_error call_result" where
  "om_processSubmittedOrder env v4 ro m =
     (case ro of
        None \<Rightarrow> (m, None, Returned (Some ErrOrderDetailIsNil))
      | Some r \<Rightarrow>
          (let uid = (case v4 0 of Inr u \<Rightarrow> u | Inl e \<Rightarrow> 0)
           in case DeriveDetail (Some r) uid of
                Inl e \<Rightarrow> (m, None, Returned (Some e))
              | Inr detail \<Rightarrow>
                  (let (s, stored, err) =
                     os_add (en_exchanges env) (en_track env) (v4 1) (en_v5 env)
                       (Some (detail_Copy detail)) (om_store m);
                       m = m\<lparr>om_store := s\<rparr>;
                       found = (case err of
                         None \<Rightarrow> Some detail
                       | Some e \<Rightarrow> if errors_is e ErrOrdersAlreadyExists
                                   then os_getByDetail s (Some detail) else Some detail)
                   in case found of
                        None \<Rightarrow> (m, None, Panicked)
                      | Some d \<Rightarrow>
                          (push (EvSubmitted d) m,
                           Some \<lparr>osr_Detail = d, osr_InternalOrderID = d_InternalOrderID d\<rparr>,
                           Returned None))))"

text \<open>The checks \<open>Submit\<close> and \<open>SubmitFakeOrder\<close> begin with.\<close>

definition om_accept ::
    "('e, 'f, 'w) manager_env \<Rightarrow> submit option \<Rightarrow> ('f, 'w) order_manager option \<Rightarrow>
     (('f, 'w) order_manager \<times> submit \<times> 'e) go_result" where
  "om_accept env so mo =
     (case om_guard mo of
        Inl e \<Rightarrow> Inl e
      | Inr m \<Rightarrow>
          (case so of
             None \<Rightarrow> Inl errNilOrder
           | Some s \<Rightarrow>
               (case GetExchangeByName (en_exchanges env) (s_Exchange s) of
                  Inl e \<Rightarrow> Inl e
                | Inr x \<Rightarrow>
                    (case om_validate env (om_cfg m) x (Some s) of
                       Some e \<Rightarrow> Inl e
                     | None \<Rightarrow> Inr (m, s, x)))))"

text \<open>The rest of \<open>Submit\<close> after the limits.\<close>

definition om_Submit_unlimited ::
    "('e, 'f, 'w) manager_env \<Rightarrow> (nat \<Rightarrow> uuid go_result) \<Rightarrow> submit \<Rightarrow> ('f, 'w) order_manager \<Rightarrow> 'e \<Rightarrow>
     ('f, 'w) order_manager option \<times> order_submit_response option \<times> go_error call_result" where
  "om_Submit_unlimited env v4 s m x =
     (let w = om_world m
      in case xo_CanTradePair (en_ops env) w x (s_Pair s) (s_AssetType s) of
           Some e \<Rightarrow>
             (Some m, None, Returned (Some
                (Errorf ''order manager: exchange %s cannot trade pair %s %s: %w'' [e])))
         | None \<Rightarrow>
             (case xo_SubmitOrder (en_ops env) w x s of
                (w, Inl e) \<Rightarrow> (Some (m\<lparr>om_world := w\<rparr>), None, Returned (Some e))
              | (w, Inr result) \<Rightarrow>
                  (let (m, resp, res) =
                     om_processSubmittedOrder env v4 (Some result) (m\<lparr>om_world := w\<rparr>)
                   in (Some m, resp, res))))"

definition om_Submit ::
    "('e, 'f, 'w) manager_env \<Rightarrow> (nat \<Rightarrow> uuid go_result) \<Rightarrow> submit option \<Rightarrow>
     ('f, 'w) order_manager option \<Rightarrow>
     ('f, 'w) order_manager option \<times> order_submit_response option \<times> go_error call_result" where
  "om_Submit env v4 so mo =
     (case om_accept env so mo of
        Inl e \<Rightarrow> (mo, None, Returned (Some e))
      | Inr (m, s, x) \<Rightarrow>
          (let w = om_world m;
               limits = xo_CheckOrderExecutionLimits (en_ops env) w x (s_AssetType s) (s_Pair s)
                          (s_Price s) (s_Amount s) (s_Type s);
               refused = (case limits of None \<Rightarrow> False | Some e \<Rightarrow> errors_is e ErrCurrencyStateNotFound)
           in if refused
              then (mo, None, Returned (Some (Errorf ''order manager: exchange %s unable to place order: %w''
                     (case limits of None \<Rightarrow> [] | Some e \<Rightarrow> [e]))))
              else om_Submit_unlimited env v4 s m x))"

definition om_SubmitFakeOrder ::
    "('e, 'f, 'w) manager_env \<Rightarrow> (nat \<Rightarrow> uuid go_result) \<Rightarrow> submit option \<Rightarrow> submit_response option \<Rightarrow>
     bool \<Rightarrow> ('f, 'w) order_manager option \<Rightarrow>
     ('f, 'w) order_manager option \<times> order_submit_response option \<times> go_error call_result" where
  "om_SubmitFakeOrder env v4 so resulting checkExchangeLimits mo =
     (case om_accept env so mo of
        Inl e \<Rightarrow> (mo, None, Returned (Some e))
      | Inr (m, s, x) \<Rightarrow>
          (case (if checkExchangeLimits
                 then xo_CheckOrderExecutionLimits (en_ops env) (om_world m) x (s_AssetType s)
                        (s_Pair s) (s_Price s) (s_Amount s) (s_Type s)
                 else None) of
             Some e \<Rightarrow>
               (mo, None, Returned (Some
                  (Errorf ''order manager: exchange %s unable to place order: %w'' [e])))
           | None \<Rightarrow>
               (let (m, resp, res) = om_processSubmittedOrder env v4 resulting m
                in (Some m, resp, res))))"

section \<open>Modifying and reading\<close>

definition om_Modify ::
    "('e, 'f, 'w) manager_env \<Rightarrow> time \<Rightarrow> modify option \<Rightarrow> ('f, 'w) order_manager option \<Rightarrow>
     ('f, 'w) order_manager option \<times> string option \<times> go_error call_result" where
  "om_Modify env now md0 mo =
     (case om_guard mo of
        Inl e \<Rightarrow> (mo, None, Returned (Some e))
      | Inr m \<Rightarrow>
          (case md0 of
             None \<Rightarrow> (mo, None, Panicked)
           | Some md \<Rightarrow>
               (case os_getByExchangeAndID (om_store m) (m_Exchange md) (m_OrderID md) of
                  Inl e \<Rightarrow> (mo, None, Returned (Some (Errorf ''order does not exist: %w'' [e])))
                | Inr det \<Rightarrow>
                    (let md = md\<lparr>m_Pair := d_Pair det, m_Side := d_Side det,
                                 m_PostOnly := d_PostOnly det,
                                 m_ImmediateOrCancel := d_ImmediateOrCancel det\<rparr>;
                         md = (if feq (m_Amount md) 0 then md\<lparr>m_Amount := d_Amount det\<rparr> else md);
                         md = (if feq (m_Price md) 0 then md\<lparr>m_Price := d_Price det\<rparr> else md)
                     in case GetExchangeByName (en_exchanges env) (m_Exchange md) of
                          Inl e \<Rightarrow> (mo, None, Returned (Some e))
                        | Inr x \<Rightarrow>
                            (case xo_ModifyOrder (en_ops env) (om_world m) x md of
                               (w, Inl e) \<Rightarrow>
                                 (Some (push (EvModifyFailed (m_Exchange md) (m_OrderID md))
                                    (m\<lparr>om_world := w\<rparr>)), None, Returned (Some e))
                             | (w, Inr res) \<Rightarrow>
                                 (let (s, err) = os_modifyExisting (en_currency env) (en_track env) now
                                        (m_OrderID md) res (om_store m)
                                  in (Some (push (EvModified (err = None) (m_Exchange md) (mr_OrderID res))
                                        (m\<lparr>om_world := w, om_store := s\<rparr>)),
                                      Some (mr_OrderID res), Returned err)))))))"

definition om_UpsertOrder ::
    "('e, 'f, 'w) manager_env \<Rightarrow> time \<Rightarrow> uuid go_result \<Rightarrow> detail option \<Rightarrow>
     ('f, 'w) order_manager option \<Rightarrow> ('f, 'w) order_manager option \<times> upsert_response go_result" where
  "om_UpsertOrder env now v4 odo mo =
     (case om_guard mo of
        Inl e \<Rightarrow> (mo, Inl e)
      | Inr m \<Rightarrow>
          (case odo of
             None \<Rightarrow> (mo, Inl errNilOrder)
           | Some od \<Rightarrow>
               (case os_upsert (en_currency env) (en_exchanges env) (en_track env) now v4 (en_v5 env)
                       (Some od) (om_store m) of
                  (s, od', Inl e) \<Rightarrow>
                    (Some (push (EvUpsertFailed (case od' of None \<Rightarrow> od | Some d \<Rightarrow> d) e)
                       (m\<lparr>om_store := s\<rparr>)), Inl e)
                | (s, od', Inr u) \<Rightarrow> (Some (push EvNoText (m\<lparr>om_store := s\<rparr>)), Inr u))))"

definition om_GetOrderInfo ::
    "('e, 'f, 'w) manager_env \<Rightarrow> time \<Rightarrow> uuid go_result \<Rightarrow> string \<Rightarrow> string \<Rightarrow> pair \<Rightarrow> asset_item \<Rightarrow>
     ('f, 'w) order_manager option \<Rightarrow> ('f, 'w) order_manager option \<times> detail go_result" where
  "om_GetOrderInfo env now v4 exchangeName orderID cp a mo =
     (case om_guard mo of
        Inl e \<Rightarrow> (mo, Inl e)
      | Inr m \<Rightarrow>
          if orderID = [] then (mo, Inl (Sentinel ''main.ErrOrderIDCannotBeEmpty''))
          else
            (case GetExchangeByName (en_exchanges env) exchangeName of
               Inl e \<Rightarrow> (mo, Inl e)
             | Inr x \<Rightarrow>
                 (case to_GetOrderInfo (en_ops env) (om_world m) x orderID cp a of
                    (w, Inl e) \<Rightarrow> (Some (m\<lparr>om_world := w\<rparr>), Inl e)
                  | (w, Inr result) \<Rightarrow>
                      (case os_upsert (en_currency env) (en_exchanges env) (en_track env) now v4
                              (en_v5 env) (Some result) (om_store m) of
                         (s, od', Inl e) \<Rightarrow> (Some (m\<lparr>om_world := w, om_store := s\<rparr>), Inl e)
                       | (s, od', Inr u) \<Rightarrow>
                           (Some (m\<lparr>om_world := w, om_store := s\<rparr>), Inr (OrderDetails u))))))"

text \<open>The result includes the order given, whose status becomes unknown if the exchange does not
  answer.\<close>

definition om_FetchAndUpdateExchangeOrder ::
    "('e, 'f, 'w) manager_env \<Rightarrow> time \<Rightarrow> uuid go_result \<Rightarrow> 'e \<Rightarrow> detail option \<Rightarrow> asset_item \<Rightarrow>
     ('f, 'w) order_manager \<Rightarrow> ('f, 'w) order_manager \<times> detail option \<times> go_error option" where
  "om_FetchAndUpdateExchangeOrder env now v4 x ordo assetType m =
     (case ordo of
        None \<Rightarrow> (m, None, Some (Errorf ''order manager: Order is nil'' []))
      | Some ord \<Rightarrow>
          (case to_GetOrderInfo (en_ops env) (om_world m) x (d_OrderID ord) (d_Pair ord) assetType of
             (w, Inl e) \<Rightarrow>
               (m\<lparr>om_world := w\<rparr>, Some (ord\<lparr>d_Status := UnknownStatus\<rparr>), Some e)
           | (w, Inr fetched) \<Rightarrow>
               (case om_UpsertOrder env now v4 (Some (fetched\<lparr>d_LastUpdated := now\<rparr>))
                       (Some (m\<lparr>om_world := w\<rparr>)) of
                  (mo, Inl e) \<Rightarrow> ((case mo of None \<Rightarrow> m | Some m \<Rightarrow> m), Some ord, Some e)
                | (mo, Inr u) \<Rightarrow> ((case mo of None \<Rightarrow> m | Some m \<Rightarrow> m), Some ord, None))))"

text \<open>\<open>time.Minute\<close> is in nanoseconds.\<close>

definition om_processMatchingOrders ::
    "('e, 'f, 'w) manager_env \<Rightarrow> time \<Rightarrow> (nat \<Rightarrow> uuid go_result) \<Rightarrow> 'e \<Rightarrow> detail list \<Rightarrow>
     ('f, 'w) order_manager \<Rightarrow> ('f, 'w) order_manager" where
  "om_processMatchingOrders env now v4 x orders m =
     fold (\<lambda>i m.
       if now - d_LastUpdated (orders ! i) < 60 * 10 ^ 9 then m
       else fst (om_FetchAndUpdateExchangeOrder env now (v4 i) x (Some (orders ! i))
              (d_AssetType (orders ! i)) m))
       [0..<length orders] m"

definition om_GetOrdersSnapshot ::
    "order_status \<Rightarrow> ('f, 'w) order_manager option \<Rightarrow> detail list" where
  "om_GetOrdersSnapshot s mo =
     (case om_guard mo of
        Inl e \<Rightarrow> []
      | Inr m \<Rightarrow>
          concat (map (\<lambda>(k, v). filter (\<lambda>d. \<not> (s \<noteq> d_Status d \<and> s \<noteq> AnyStatus \<and> s \<noteq> UnknownStatus)) v)
            (Orders (om_store m))))"

definition om_GetOrdersFiltered ::
    "store \<Rightarrow> order_filter option \<Rightarrow> ('f, 'w) order_manager option \<Rightarrow> detail list go_result" where
  "om_GetOrdersFiltered cs fo mo =
     (case om_guard mo of Inl e \<Rightarrow> Inl e | Inr m \<Rightarrow> os_getFilteredOrders cs fo (om_store m))"

definition om_GetOrdersActive ::
    "store \<Rightarrow> order_filter option \<Rightarrow> ('f, 'w) order_manager option \<Rightarrow> detail list go_result" where
  "om_GetOrdersActive cs fo mo =
     (case om_guard mo of Inl e \<Rightarrow> Inl e | Inr m \<Rightarrow> Inr (os_getActiveOrders cs fo (om_store m)))"

definition om_Exists :: "detail option \<Rightarrow> ('f, 'w) order_manager option \<Rightarrow> bool" where
  "om_Exists det mo \<longleftrightarrow> (case om_guard mo of Inl e \<Rightarrow> False | Inr m \<Rightarrow> os_exists (om_store m) det)"

definition om_Add ::
    "('e, 'f, 'w) manager_env \<Rightarrow> uuid go_result \<Rightarrow> detail option \<Rightarrow> ('f, 'w) order_manager option \<Rightarrow>
     ('f, 'w) order_manager option \<times> go_error option" where
  "om_Add env v4 det mo =
     (case om_guard mo of
        Inl e \<Rightarrow> (mo, Some e)
      | Inr m \<Rightarrow>
          (let (s, det, err) = os_add (en_exchanges env) (en_track env) v4 (en_v5 env) det (om_store m)
           in (Some (m\<lparr>om_store := s\<rparr>), err)))"

definition om_GetByExchangeAndID ::
    "string \<Rightarrow> string \<Rightarrow> ('f, 'w) order_manager option \<Rightarrow> detail go_result" where
  "om_GetByExchangeAndID exchangeName oid mo =
     (case om_guard mo of
        Inl e \<Rightarrow> Inl e | Inr m \<Rightarrow> os_getByExchangeAndID (om_store m) exchangeName oid)"

definition om_UpdateExistingOrder ::
    "('e, 'f, 'w) manager_env \<Rightarrow> time \<Rightarrow> detail option \<Rightarrow> ('f, 'w) order_manager option \<Rightarrow>
     ('f, 'w) order_manager option \<times> go_error option" where
  "om_UpdateExistingOrder env now od mo =
     (case om_guard mo of
        Inl e \<Rightarrow> (mo, Some e)
      | Inr m \<Rightarrow>
          (let (s, od, err) = os_updateExisting (en_currency env) (en_track env) now od (om_store m)
           in (Some (m\<lparr>om_store := s\<rparr>), err)))"

section \<open>The periodic pass over the exchanges' orders\<close>

text \<open>The manager keeps the side of a trade as it is.\<close>

definition manager_trade_of :: "detail \<Rightarrow> trade_history \<Rightarrow> db_trade" where
  "manager_trade_of d t = (db_trade_of d t)\<lparr>dt_Side := side_String (th_Side t)\<rparr>"

definition save_manager_trades :: "'b order_db \<Rightarrow> detail \<Rightarrow> 'b \<Rightarrow> 'b" where
  "save_manager_trades db d b =
     fold (\<lambda>t b. fst (UpdateOrCreateTrade db b (dt_TradeID (manager_trade_of d t)) (manager_trade_of d t)))
       (d_Trades d) b"

definition with_amounts :: "detail \<Rightarrow> db_order \<Rightarrow> db_order" where
  "with_amounts u existing =
     (let existing = (if \<not> feq (do_Price existing) (d_Price u)
                      then existing\<lparr>do_Price := d_Price u\<rparr> else existing)
      in if \<not> feq (do_Amount existing) (d_Amount u) then existing\<lparr>do_Amount := d_Amount u\<rparr>
         else existing)"

text \<open>The database, the gateway and whether the goroutine has panicked.\<close>

type_synonym ('b, 'd) pass = "'b \<times> 'd application \<times> bool"

definition om_report ::
    "'d decimal_ops \<Rightarrow> store \<Rightarrow> detail \<Rightarrow> 'b \<Rightarrow> 'd application \<Rightarrow> ('b, 'd) pass" where
  "om_report dec cs u b a =
     (case app_UpdateOrder dec cs u (ToOrdStatus (d_Status u)) a of
        (a, Panicked) \<Rightarrow> (b, a, True)
      | (a, Returned r) \<Rightarrow> (b, a, (case r of None \<Rightarrow> False | Some (e :: go_error) \<Rightarrow> False)))"

definition process_updated ::
    "'d decimal_ops \<Rightarrow> 'b order_db \<Rightarrow> store \<Rightarrow> detail \<Rightarrow> 'b \<Rightarrow> 'd application \<Rightarrow> ('b, 'd) pass" where
  "process_updated dec db cs u b a =
     (let existing = GetOrderByOrderID db b (d_OrderID u)
      in if do_ClientOrderID existing = [] then
           (let b = (if 0 < length (d_Trades u) then save_manager_trades db u b else b)
            in case CreateOrder db b (saved_order cs u) of
                 (b, Some err) \<Rightarrow> (b, a, False)
               | (b, None) \<Rightarrow> om_report dec cs u b a)
         else if length (do_Trades existing) \<noteq> length (d_Trades u) then
           (let b = save_manager_trades db u b;
                existing = with_amounts u existing
            in if status_String (d_Status u) \<noteq> do_Status existing
               then (let existing = existing\<lparr>do_Status := status_String (d_Status u)\<rparr>
                     in case db_UpdateOrder db b (do_ClientOrderID existing) existing of
                          (b, Some err) \<Rightarrow> (b, a, False)
                        | (b, None) \<Rightarrow> om_report dec cs u b a)
               else (fst (db_UpdateOrder db b (do_ClientOrderID existing) existing), a, False))
         else if status_String (d_Status u) \<noteq> do_Status existing then
           (let existing = with_amounts u (existing\<lparr>do_Status := status_String (d_Status u)\<rparr>)
            in case db_UpdateOrder db b (do_ClientOrderID existing) existing of
                 (b, Some err) \<Rightarrow> (b, a, False)
               | (b, None) \<Rightarrow> om_report dec cs u b a)
         else (b, a, False))"

text \<open>The orders of one exchange and asset; the loop ends when the goroutine panics.\<close>

fun process_history ::
    "('e, 'f, 'w) manager_env \<Rightarrow> 'd decimal_ops \<Rightarrow> 'b order_db \<Rightarrow> 'e \<Rightarrow> asset_item \<Rightarrow> detail list \<Rightarrow>
     'w \<times> ('b, 'd) pass \<Rightarrow> 'w \<times> ('b, 'd) pass" where
  "process_history env dec db x assetType [] s = s"
| "process_history env dec db x assetType (o1 # os) (w, b, a, crashed) =
     (if crashed then (w, b, a, crashed)
      else
        (case to_GetOrderInfo (en_ops env) w x (d_OrderID o1) (d_Pair o1) assetType of
           (w, Inl e) \<Rightarrow> process_history env dec db x assetType os (w, b, a, False)
         | (w, Inr u) \<Rightarrow>
             process_history env dec db x assetType os
               (w, process_updated dec db (en_currency env) u b a)))"

text \<open>Six days of history; \<open>24 * time.Hour\<close> in nanoseconds.\<close>

definition history_request :: "time \<Rightarrow> asset_item \<Rightarrow> pair list \<Rightarrow> multi_order_request" where
  "history_request now assetType pairs =
     \<lparr>g_Pairs = pairs, g_AssetType = assetType, g_Type = AnyType, g_Side = AnySide,
      g_StartTime = now - 6 * 24 * 3600 * 10 ^ 9, g_EndTime = now, g_FromOrderID = [],
      g_MarginType = 0\<rparr>"

definition process_asset ::
    "('e, 'f, 'w) manager_env \<Rightarrow> 'd decimal_ops \<Rightarrow> 'b order_db \<Rightarrow> time \<Rightarrow> 'e \<Rightarrow> asset_item \<Rightarrow>
     'w \<times> ('b, 'd) pass \<Rightarrow> 'w \<times> ('b, 'd) pass" where
  "process_asset env dec db now x assetType s =
     (case s of (w, b, a, crashed) \<Rightarrow>
        if crashed then s
        else
          (case to_GetEnabledPairs (en_ops env) w x assetType of
             Inl e \<Rightarrow> s
           | Inr pairs \<Rightarrow>
               if length pairs = 0 then s
               else
                 (case to_GetOrderHistory (en_ops env) w x (history_request now assetType pairs) of
                    (w, Inl e) \<Rightarrow> (w, b, a, False)
                  | (w, Inr exchangeOrders) \<Rightarrow>
                      process_history env dec db x assetType exchangeOrders (w, b, a, False))))"

definition process_exchange ::
    "('e, 'f, 'w) manager_env \<Rightarrow> 'd decimal_ops \<Rightarrow> 'b order_db \<Rightarrow> time \<Rightarrow> 'e \<Rightarrow>
     'w \<times> ('b, 'd) pass \<Rightarrow> 'w \<times> ('b, 'd) pass" where
  "process_exchange env dec db now x s =
     (case s of (w, b, a, crashed) \<Rightarrow>
        if crashed \<or> \<not> to_IsRESTAuthenticationSupported (en_ops env) w x then s
        else fold (process_asset env dec db now x) (to_GetAssetTypes (en_ops env) w x True) s)"

definition om_processOrders ::
    "('e, 'f, 'w) manager_env \<Rightarrow> 'd decimal_ops \<Rightarrow> 'b order_db \<Rightarrow> time \<Rightarrow>
     'w \<times> ('b, 'd) pass \<Rightarrow> 'w \<times> ('b, 'd) pass" where
  "om_processOrders env dec db now s =
     (case s of (w, b, a, crashed) \<Rightarrow>
        if length (sessions a) = 0 then s
        else
          (case em_GetExchanges (en_exchanges env) of
             Inl e \<Rightarrow> s
           | Inr exchs \<Rightarrow> fold (process_exchange env dec db now) exchs s))"

text \<open>The manager's gateway is a copy of the gateway's struct (\<open>SetupOrderManager(...,
  *fixengine.fixgateway, ...)\<close>): the maps of sessions are shared, the counter of the execution ids is
  not.  \<open>on_copy\<close> runs the manager's use of its copy, with the copy's own counter.\<close>

definition on_copy ::
    "('d application \<Rightarrow> 'd application \<times> 'r) \<Rightarrow> 64 word \<times> 'd application \<Rightarrow>
     (64 word \<times> 'd application) \<times> 'r" where
  "on_copy f s =
     (case s of (own, shared) \<Rightarrow>
        (case f (shared\<lparr>execID := own\<rparr>) of
           (a, r) \<Rightarrow> ((execID a, a\<lparr>execID := execID shared\<rparr>), r)))"

text \<open>\<open>config.OrderManager\<close>, what \<open>SetupOrderManager\<close> reads of it; a missing manager, wait group
  or configuration is refused.  The result is the new manager, the counter of its copy of the
  gateway and the configuration, whose seek duration it may change.\<close>

record manager_config =
  co_ActivelyTrackFuturesPositions :: bool
  co_FuturesTrackingSeekDuration :: int
  co_RespectOrderHistoryLimits :: "bool option"
  co_CancelOrdersOnShutdown :: bool

definition defaultOrderSeekTime :: int where
  "defaultOrderSeekTime = - (3600 * 10 ^ 9) * 24 * 365"

definition SetupOrderManager ::
    "'e exchange_manager option \<Rightarrow> bool \<Rightarrow> 'd application \<Rightarrow> bool \<Rightarrow> manager_config option \<Rightarrow> 'f \<Rightarrow> 'w \<Rightarrow>
     (('f, 'w) order_manager \<times> 64 word \<times> manager_config) go_result" where
  "SetupOrderManager em hasComms fixApplication hasWg cfgo newController w =
     (if em = None then Inl (Sentinel ''main.errNilExchangeManager'')
      else if \<not> hasComms then Inl (Sentinel ''main.errNilCommunicationsManager'')
      else if \<not> hasWg then Inl (Sentinel ''main.errNilWaitGroup'')
      else
        (case cfgo of
           None \<Rightarrow> Inl (Errorf ''%w OrderManager'' [Sentinel ''main.errNilConfig''])
         | Some cfg \<Rightarrow>
             (let om = \<lparr>om_started = False,
                 om_cfg = \<lparr>EnforceLimitConfig = False, AllowMarketOrders = False,
                   CancelOrdersOnShutdown = co_CancelOrdersOnShutdown cfg, LimitAmount = 0,
                   AllowedPairs = [], AllowedExchanges = [], OrderSubmissionRetries = 0\<rparr>,
                 om_store = \<lparr>Orders = [], positions = newController\<rparr>,
                 om_activelyTrackFuturesPositions = co_ActivelyTrackFuturesPositions cfg,
                 om_futuresPositionSeekDuration = 0,
                 om_respectOrderHistoryLimits =
                   (case co_RespectOrderHistoryLimits cfg of None \<Rightarrow> False | Some b \<Rightarrow> b),
                 om_world = w, om_events = []\<rparr>
              in if co_ActivelyTrackFuturesPositions cfg
                 then (let cfg = (if 0 < co_FuturesTrackingSeekDuration cfg
                         then cfg\<lparr>co_FuturesTrackingSeekDuration :=
                                - co_FuturesTrackingSeekDuration cfg\<rparr> else cfg);
                           cfg = (if co_FuturesTrackingSeekDuration cfg = 0
                         then cfg\<lparr>co_FuturesTrackingSeekDuration := defaultOrderSeekTime\<rparr> else cfg)
                       in Inr (om\<lparr>om_futuresPositionSeekDuration :=
                                  co_FuturesTrackingSeekDuration cfg\<rparr>, execID fixApplication, cfg))
                 else Inr (om, execID fixApplication, cfg))))"

section \<open>Futures positions\<close>

text \<open>The guards of the calls that go to the position controller; \<open>query\<close> is the call.\<close>

definition ErrNotFuturesAsset :: go_error where
  "ErrNotFuturesAsset = Sentinel ''futures.ErrNotFuturesAsset''"
definition errFuturesTrackingDisabled :: go_error where
  "errFuturesTrackingDisabled = Sentinel ''main.errFuturesTrackingDisabled''"

definition om_GetFuturesPositionsForExchange ::
    "('f \<Rightarrow> string \<Rightarrow> asset_item \<Rightarrow> pair \<Rightarrow> 'r go_result) \<Rightarrow> string \<Rightarrow> asset_item \<Rightarrow> pair \<Rightarrow>
     ('f, 'w) order_manager option \<Rightarrow> 'r go_result" where
  "om_GetFuturesPositionsForExchange query exch item p mo =
     (case om_guard mo of
        Inl e \<Rightarrow> Inl e
      | Inr m \<Rightarrow>
          if \<not> asset_IsFutures item then Inl (Errorf ''%v %w'' [ErrNotFuturesAsset])
          else query (positions (om_store m)) exch item p)"

definition om_GetOpenFuturesPosition ::
    "('f \<Rightarrow> string \<Rightarrow> asset_item \<Rightarrow> pair \<Rightarrow> 'r go_result) \<Rightarrow> string \<Rightarrow> asset_item \<Rightarrow> pair \<Rightarrow>
     ('f, 'w) order_manager option \<Rightarrow> 'r go_result" where
  "om_GetOpenFuturesPosition query exch item p mo =
     (case om_guard mo of
        Inl e \<Rightarrow> Inl e
      | Inr m \<Rightarrow>
          if \<not> asset_IsFutures item then Inl (Errorf ''%v %w'' [ErrNotFuturesAsset])
          else if \<not> om_activelyTrackFuturesPositions m then Inl errFuturesTrackingDisabled
          else query (positions (om_store m)) exch item p)"

definition om_GetAllOpenFuturesPositions ::
    "('f \<Rightarrow> 'r go_result) \<Rightarrow> ('f, 'w) order_manager option \<Rightarrow> 'r go_result" where
  "om_GetAllOpenFuturesPositions query mo =
     (case om_guard mo of
        Inl e \<Rightarrow> Inl e
      | Inr m \<Rightarrow>
          if \<not> om_activelyTrackFuturesPositions m then Inl errFuturesTrackingDisabled
          else query (positions (om_store m)))"

definition om_ClearFuturesTracking ::
    "('f \<Rightarrow> string \<Rightarrow> asset_item \<Rightarrow> pair \<Rightarrow> 'f \<times> go_error option) \<Rightarrow> string \<Rightarrow> asset_item \<Rightarrow> pair \<Rightarrow>
     ('f, 'w) order_manager option \<Rightarrow> ('f, 'w) order_manager option \<times> go_error option" where
  "om_ClearFuturesTracking clear exch item p mo =
     (case om_guard mo of
        Inl e \<Rightarrow> (mo, Some e)
      | Inr m \<Rightarrow>
          if \<not> asset_IsFutures item then (mo, Some (Errorf ''%v %w'' [ErrNotFuturesAsset]))
          else (let (f, err) = clear (positions (om_store m)) exch item p
                in (Some (m\<lparr>om_store := (om_store m)\<lparr>positions := f\<rparr>\<rparr>), err)))"

section \<open>Lemmas\<close>

lemma om_guard_Inr: "om_guard mo = Inr m \<longleftrightarrow> mo = Some m \<and> om_started m"
  by (auto simp: om_guard_def split: option.split)

lemma push_simps [simp]:
  "om_store (push e m) = om_store m" "om_started (push e m) = om_started m"
  "om_world (push e m) = om_world m" "om_events (push e m) = om_events m @ [e]"
  by (simp_all add: push_def)

lemma GetExchangeByName_error:
  "GetExchangeByName em k = Inl e \<Longrightarrow> \<not> errors_is e ErrOrdersAlreadyExists"
  by (auto simp: GetExchangeByName_def ErrOrdersAlreadyExists_def ErrNilSubsystem_def
      Exchange_Manager.ErrExchangeNameIsEmpty_def ErrExchangeNotFound_def split: option.split_asm if_split_asm)

text \<open>An addition that finds the order already there finds the order.\<close>

lemma add_exists:
  assumes "os_add em track v4 v5 (Some d) s = (s', d', Some e)" and "errors_is e ErrOrdersAlreadyExists"
  shows "os_getByDetail s' (Some d) \<noteq> None"
proof (cases "GetExchangeByName em (ToLower (d_Exchange d))")
  case (Inl e')
  then show ?thesis using assms GetExchangeByName_error by (auto simp: os_add_def)
next
  case (Inr x)
  then show ?thesis
    using add_lookup [of s d em v4 v5 track] assms(1)
    by (auto simp: getByDetail_lookup split: if_split_asm)
qed

lemma add_map_le:
  "os_lookup s \<subseteq>\<^sub>m os_lookup (fst (os_add em track v4 v5 (Some d) s))"
  using add_lookup [of s d em v4 v5 track]
  by (cases "os_add em track v4 v5 (Some d) s") (auto simp: map_le_def split: if_split_asm)

lemma add_stored:
  assumes "\<not> isl (GetExchangeByName em (ToLower (d_Exchange d)))"
  shows "os_lookup (fst (os_add em track v4 v5 (Some d) s)) (ToLower (d_Exchange d), d_OrderID d) \<noteq> None"
  using add_lookup [of s d em v4 v5 track] assms
  by (cases "os_add em track v4 v5 (Some d) s") (auto split: if_split_asm)

lemma DeriveDetail_ids:
  "DeriveDetail (Some r) uid = Inr d \<Longrightarrow> d_Exchange d = sr_Exchange r \<and> d_OrderID d = sr_OrderID r"
  by (auto simp: DeriveDetail_def)

lemma DeriveDetail_Inr: "\<exists>d. DeriveDetail (Some r) uid = Inr d"
  by (simp add: DeriveDetail_def)

lemma processSubmitted:
  assumes "om_processSubmittedOrder env v4 (Some r) m = (m', resp, res)"
  shows "res = Returned None" "om_world m' = om_world m" "resp \<noteq> None"
    "os_lookup (om_store m) \<subseteq>\<^sub>m os_lookup (om_store m')"
    "\<not> isl (GetExchangeByName (en_exchanges env) (ToLower (sr_Exchange r))) \<Longrightarrow>
       os_lookup (om_store m') (ToLower (sr_Exchange r), sr_OrderID r) \<noteq> None"
proof -
  obtain d where d: "DeriveDetail (Some r) (case v4 0 of Inr u \<Rightarrow> u | Inl e \<Rightarrow> 0) = Inr d"
    using DeriveDetail_Inr by blast
  note ids = DeriveDetail_ids [OF d]
  let ?add = "os_add (en_exchanges env) (en_track env) (v4 1) (en_v5 env) (Some d) (om_store m)"
  obtain s d' err where a: "?add = (s, d', err)" by (metis prod_cases3)
  have "err = Some e \<Longrightarrow> errors_is e ErrOrdersAlreadyExists \<Longrightarrow> os_getByDetail s (Some d) \<noteq> None" for e
    using add_exists a by blast
  then have "res = Returned None \<and> resp \<noteq> None \<and> om_world m' = om_world m \<and> om_store m' = s"
    using assms unfolding om_processSubmittedOrder_def
    by (auto simp: Let_def d a simp del: One_nat_def split: option.split_asm if_split_asm)
  then show "res = Returned None" "om_world m' = om_world m" "resp \<noteq> None"
    "os_lookup (om_store m) \<subseteq>\<^sub>m os_lookup (om_store m')"
    "\<not> isl (GetExchangeByName (en_exchanges env) (ToLower (sr_Exchange r))) \<Longrightarrow>
       os_lookup (om_store m') (ToLower (sr_Exchange r), sr_OrderID r) \<noteq> None"
    using add_map_le [of "om_store m" "en_exchanges env" "en_track env" "v4 1" "en_v5 env" d]
      add_stored [of "en_exchanges env" d "en_track env" "v4 1" "en_v5 env" "om_store m"] a ids
    by simp_all
qed

lemma merged_Status:
  "d_Status (merged cs now od d) = (if d_Status od \<noteq> UnknownStatus then d_Status od else d_Status d)"
  by (simp add: merged_def UpdateOrderFromDetail_Some Let_def merge_fields_Status upd_hit)

lemma merged_RemainingAmount:
  "d_RemainingAmount (merged cs now od d) =
     (let r = remaining_after (d_RemainingAmount od) (d_Trades od)
      in if 0 < r \<and> \<not> feq r (d_RemainingAmount d) then r else d_RemainingAmount d)"
  by (simp add: merged_def UpdateOrderFromDetail_Some Let_def upd_hit)

lemma om_accept_Inr:
  "om_accept env (Some s) (Some m) = Inr (m', s', x) \<longleftrightarrow>
     m' = m \<and> s' = s \<and> om_started m \<and>
     GetExchangeByName (en_exchanges env) (s_Exchange s) = Inr x \<and>
     om_validate env (om_cfg m) x (Some s) = None"
  by (auto simp: om_accept_def om_guard_def split: sum.splits option.splits)

lemma om_accept_InrE:
  assumes "om_accept env (Some s) (Some m) = Inr a"
  obtains x where "om_accept env (Some s) (Some m) = Inr (m, s, x)" "om_started m"
    "GetExchangeByName (en_exchanges env) (s_Exchange s) = Inr x"
    "om_validate env (om_cfg m) x (Some s) = None"
proof -
  obtain m' s' x where a: "a = (m', s', x)" by (metis prod_cases3)
  note acc = assms [unfolded a]
  have "m' = m \<and> s' = s \<and> om_started m \<and>
      GetExchangeByName (en_exchanges env) (s_Exchange s) = Inr x \<and>
      om_validate env (om_cfg m) x (Some s) = None"
    using om_accept_Inr [THEN iffD1, OF acc] .
  with acc that show thesis by simp
qed

lemma om_accept_Inl_Submit:
  "om_accept env so mo = Inl e \<Longrightarrow> om_Submit env v4 so mo = (mo, None, Returned (Some e))"
  by (simp add: om_Submit_def)

lemma om_Submit_accepted:
  assumes "om_accept env (Some s) (Some m) = Inr (m, s, x)"
  shows "om_Submit env v4 (Some s) (Some m) =
    (let w = om_world m;
         limits = xo_CheckOrderExecutionLimits (en_ops env) w x (s_AssetType s) (s_Pair s)
                    (s_Price s) (s_Amount s) (s_Type s)
     in case limits of
          Some e \<Rightarrow>
            (if errors_is e ErrCurrencyStateNotFound
             then (Some m, None, Returned (Some (Errorf ''order manager: exchange %s unable to place order: %w'' [e])))
             else om_Submit_unlimited env v4 s m x)
        | None \<Rightarrow> om_Submit_unlimited env v4 s m x)"
  unfolding om_Submit_def assms om_Submit_unlimited_def by (simp add: Let_def split: option.split)

definition no_limits :: "('e, 'f, 'w) manager_env \<Rightarrow> ('e, 'f, 'w) manager_env" where
  "no_limits env =
     env\<lparr>en_ops := (en_ops env)\<lparr>xo_CheckOrderExecutionLimits := \<lambda>w x a p price q t. None\<rparr>\<rparr>"

lemma no_limits_simps [simp]:
  "en_currency (no_limits env) = en_currency env" "en_exchanges (no_limits env) = en_exchanges env"
  "en_track (no_limits env) = en_track env" "en_v5 (no_limits env) = en_v5 env"
  "xo_CanTradePair (en_ops (no_limits env)) = xo_CanTradePair (en_ops env)"
  "xo_SubmitOrder (en_ops (no_limits env)) = xo_SubmitOrder (en_ops env)"
  "to_GetTradingRequirements (en_ops (no_limits env)) = to_GetTradingRequirements (en_ops env)"
  "xo_CheckOrderExecutionLimits (en_ops (no_limits env)) w x a p price q t = None"
  by (simp_all add: no_limits_def)

lemma no_limits_accept [simp]: "om_accept (no_limits env) so mo = om_accept env so mo"
  unfolding om_accept_def om_validate_def no_limits_simps by (rule refl)

lemma no_limits_process [simp]:
  "om_processSubmittedOrder (no_limits env) = om_processSubmittedOrder env"
  unfolding om_processSubmittedOrder_def no_limits_simps by (rule refl)

lemma no_limits_unlimited [simp]: "om_Submit_unlimited (no_limits env) = om_Submit_unlimited env"
  unfolding om_Submit_unlimited_def no_limits_simps no_limits_process by (rule refl)

text \<open>How a submission can end: with the limits' refusal, or as the rest of \<open>Submit\<close> ends.\<close>

lemma om_Submit_unlimited_cases:
  obtains e where "om_Submit_unlimited env v4 s m x = (Some m, None, Returned (Some e))"
      "xo_CanTradePair (en_ops env) (om_world m) x (s_Pair s) (s_AssetType s) \<noteq> None"
  | w e where "om_Submit_unlimited env v4 s m x = (Some (m\<lparr>om_world := w\<rparr>), None, Returned (Some e))"
      "xo_CanTradePair (en_ops env) (om_world m) x (s_Pair s) (s_AssetType s) = None"
      "xo_SubmitOrder (en_ops env) (om_world m) x s = (w, Inl e)"
  | w r m' resp res where "om_Submit_unlimited env v4 s m x = (Some m', resp, res)"
      "xo_CanTradePair (en_ops env) (om_world m) x (s_Pair s) (s_AssetType s) = None"
      "xo_SubmitOrder (en_ops env) (om_world m) x s = (w, Inr r)"
      "om_processSubmittedOrder env v4 (Some r) (m\<lparr>om_world := w\<rparr>) = (m', resp, res)"
proof (cases "xo_CanTradePair (en_ops env) (om_world m) x (s_Pair s) (s_AssetType s)")
  case (Some e)
  then show ?thesis using that(1) by (simp add: om_Submit_unlimited_def)
next
  case None
  obtain w sub where s: "xo_SubmitOrder (en_ops env) (om_world m) x s = (w, sub)" by force
  show ?thesis
  proof (cases sub)
    case (Inl e)
    then show ?thesis using that(2) None s by (simp add: om_Submit_unlimited_def)
  next
    case (Inr r)
    obtain m' resp res where
      "om_processSubmittedOrder env v4 (Some r) (m\<lparr>om_world := w\<rparr>) = (m', resp, res)"
      by (metis prod_cases3)
    then show ?thesis using that(3) None s Inr by (simp add: om_Submit_unlimited_def)
  qed
qed

section \<open>Properties\<close>

text \<open>C7: submitting an order never crashes and never changes an order the manager
  holds.  If it returns an order, the manager was running, the submission passed its validation, the
  exchange said the pair can be traded and accepted the order, and (if the exchange it names is
  loaded) the order is in the store; if it returns an error, it returns no order and the store is
  unchanged.\<close>

theorem submit_outcome:
  "case om_Submit env v4 (Some s) (Some m) of
     (None, resp, res) \<Rightarrow> False
   | (Some m', resp, res) \<Rightarrow>
       os_lookup (om_store m) \<subseteq>\<^sub>m os_lookup (om_store m') \<and>
       (case res of
          Panicked \<Rightarrow> False
        | Returned (Some e) \<Rightarrow> resp = None \<and> om_store m' = om_store m
        | Returned None \<Rightarrow>
            resp \<noteq> None \<and> om_started m \<and>
            (case GetExchangeByName (en_exchanges env) (s_Exchange s) of
               Inl e \<Rightarrow> False
             | Inr x \<Rightarrow>
                 om_validate env (om_cfg m) x (Some s) = None \<and>
                 xo_CanTradePair (en_ops env) (om_world m) x (s_Pair s) (s_AssetType s) = None \<and>
                 (case xo_SubmitOrder (en_ops env) (om_world m) x s of
                    (w, Inl e) \<Rightarrow> False
                  | (w, Inr r) \<Rightarrow>
                      om_world m' = w \<and>
                      (case GetExchangeByName (en_exchanges env) (ToLower (sr_Exchange r)) of
                         Inl e \<Rightarrow> True
                       | Inr x \<Rightarrow>
                           os_lookup (om_store m') (ToLower (sr_Exchange r), sr_OrderID r) \<noteq> None))))"
proof (cases "om_accept env (Some s) (Some m)")
  case (Inl e)
  then show ?thesis by (simp add: om_accept_Inl_Submit)
next
  case (Inr a)
  then obtain x where acc: "om_accept env (Some s) (Some m) = Inr (m, s, x)" "om_started m"
      "GetExchangeByName (en_exchanges env) (s_Exchange s) = Inr x"
      "om_validate env (om_cfg m) x (Some s) = None"
    by (rule om_accept_InrE)
  have "(\<exists>e. om_Submit env v4 (Some s) (Some m) = (Some m, None, Returned (Some e))) \<or>
      om_Submit env v4 (Some s) (Some m) = om_Submit_unlimited env v4 s m x"
    unfolding om_Submit_accepted [OF acc(1)] by (simp add: Let_def split: option.split)
  then consider e where "om_Submit env v4 (Some s) (Some m) = (Some m, None, Returned (Some e))"
    | "om_Submit env v4 (Some s) (Some m) = om_Submit_unlimited env v4 s m x"
    by blast
  then show ?thesis
  proof cases
    case 2
    show ?thesis
    proof (cases rule: om_Submit_unlimited_cases [of env v4 s m x])
      case (3 w r m' resp res)
      then show ?thesis
        using 2 acc(2-4) processSubmitted [OF 3(4)] by (auto split: sum.split)
    qed (simp_all add: 2)
  qed simp
qed

text \<open>Also: a submission that the exchange's execution limits refuse is sent to the
  exchange all the same, exactly as if there were no limits, unless the refusal is that the currency
  state is missing; the simulated submission, which checks the limits too, refuses it.\<close>

theorem limits_ignored:
  "case om_accept env (Some s) (Some m) of
     Inl e \<Rightarrow> om_Submit env v4 (Some s) (Some m) = (Some m, None, Returned (Some e))
   | Inr (m', s', x) \<Rightarrow>
       (case xo_CheckOrderExecutionLimits (en_ops env) (om_world m) x (s_AssetType s) (s_Pair s)
               (s_Price s) (s_Amount s) (s_Type s) of
          None \<Rightarrow> om_Submit env v4 (Some s) (Some m) = om_Submit (no_limits env) v4 (Some s) (Some m)
        | Some e \<Rightarrow>
            (case om_SubmitFakeOrder env v4 (Some s) resulting True (Some m) of
               (m', resp, res) \<Rightarrow> m' = Some m \<and> resp = None \<and> res \<noteq> Returned None) \<and>
            (if errors_is e ErrCurrencyStateNotFound
             then fst (om_Submit env v4 (Some s) (Some m)) = Some m
             else om_Submit env v4 (Some s) (Some m) =
                    om_Submit (no_limits env) v4 (Some s) (Some m)))"
proof (cases "om_accept env (Some s) (Some m)")
  case (Inl e)
  then show ?thesis by (simp add: om_accept_Inl_Submit)
next
  case (Inr a)
  then obtain x where acc: "om_accept env (Some s) (Some m) = Inr (m, s, x)"
    by (rule om_accept_InrE)
  then have acc': "om_accept (no_limits env) (Some s) (Some m) = Inr (m, s, x)" by simp
  have fake: "xo_CheckOrderExecutionLimits (en_ops env) (om_world m) x (s_AssetType s) (s_Pair s)
      (s_Price s) (s_Amount s) (s_Type s) = Some e \<Longrightarrow>
      \<exists>e. om_SubmitFakeOrder env v4 (Some s) resulting True (Some m) = (Some m, None, Returned (Some e))"
    for e
    by (simp add: om_SubmitFakeOrder_def acc)
  show ?thesis
    unfolding om_Submit_accepted [OF acc] om_Submit_accepted [OF acc']
    using fake by (auto simp: acc Let_def split: option.split)
qed

text \<open>How \<open>Cancel\<close> can end.\<close>

lemma om_Cancel_store:
  assumes "om_Cancel env now (Some c) (Some m) = (mo', err)"
  obtains m' where "err \<noteq> None" "mo' = Some m'" "om_store m' = om_store m"
  | m' x w od where "GetExchangeByName (en_exchanges env) (c_Exchange c) = Inr x"
      "xo_CancelOrder (en_ops env) (om_world m) x c = (w, None)"
      "os_getByExchangeAndID (om_store m) (c_Exchange c) (c_OrderID c) = Inr od"
      "om_store m' = fst (os_updateExisting (en_currency env) (en_track env) now
         (Some (od\<lparr>d_Status := Cancelled\<rparr>)) (om_store m))"
      "mo' = Some m'"
proof -
  have "(\<exists>m'. err \<noteq> None \<and> mo' = Some m' \<and> om_store m' = om_store m) \<or>
    (\<exists>m' x w od. GetExchangeByName (en_exchanges env) (c_Exchange c) = Inr x \<and>
      xo_CancelOrder (en_ops env) (om_world m) x c = (w, None) \<and>
      os_getByExchangeAndID (om_store m) (c_Exchange c) (c_OrderID c) = Inr od \<and>
      om_store m' = fst (os_updateExisting (en_currency env) (en_track env) now
         (Some (od\<lparr>d_Status := Cancelled\<rparr>)) (om_store m)) \<and> mo' = Some m')"
    using assms unfolding om_Cancel_def
    by (auto simp: om_guard_Inr Let_def
        split: sum.split_asm option.split_asm if_split_asm prod.split_asm)
  then show thesis using that by blast
qed

text \<open>C15: cancelling an order that is not in the store fails and leaves the store as it
  is, although the exchange may have cancelled it.  Cancelling a stored order either leaves the store
  as it is and fails, or sets that order's status to cancelled and touches no other order; it
  succeeds only if the exchange cancelled it.  But the order that is merged back carries its own
  trades, so the amounts of the trades it has had are subtracted from its remaining amount once
  more.\<close>

theorem cancel_effect:
  assumes "store_reachable cs em track C (om_store m)"
  shows "case om_Cancel env now (Some c) (Some m) of
     (None, err) \<Rightarrow> False
   | (Some m', err) \<Rightarrow>
       (let key = (ToLower (c_Exchange c), c_OrderID c)
        in case os_lookup (om_store m) key of
             None \<Rightarrow> err \<noteq> None \<and> om_store m' = om_store m
           | Some d \<Rightarrow>
               (let e = tracked (merged (en_currency env) now (d\<lparr>d_Status := Cancelled\<rparr>) d);
                    r = remaining_after (d_RemainingAmount d) (d_Trades d)
                in d_Status e = Cancelled \<and>
                   d_RemainingAmount e =
                     (if 0 < r \<and> \<not> feq r (d_RemainingAmount d) then r else d_RemainingAmount d) \<and>
                   (err \<noteq> None \<and> om_store m' = om_store m \<or>
                    os_lookup (om_store m') = (os_lookup (om_store m))(key \<mapsto> e) \<and>
                    (case GetExchangeByName (en_exchanges env) (c_Exchange c) of Inl _ \<Rightarrow> False
                     | Inr x \<Rightarrow> snd (xo_CancelOrder (en_ops env) (om_world m) x c) = None))))"
proof -
  obtain mo' err where c: "om_Cancel env now (Some c) (Some m) = (mo', err)" by force
  have status: "d_Status (tracked (merged cs' now (d\<lparr>d_Status := Cancelled\<rparr>) d)) = Cancelled" for cs' d
    by (simp add: merged_Status order_status_consts)
  have rem: "d_RemainingAmount (tracked (merged cs' now (d\<lparr>d_Status := Cancelled\<rparr>) d)) =
     (let r = remaining_after (d_RemainingAmount d) (d_Trades d)
      in if 0 < r \<and> \<not> feq r (d_RemainingAmount d) then r else d_RemainingAmount d)" for cs' d
    by (simp add: merged_RemainingAmount)
  from c show ?thesis
  proof (cases rule: om_Cancel_store)
    case (1 m')
    then show ?thesis using status rem by (auto simp: c Let_def split: option.split)
  next
    case (2 m' x w od)
    have od: "os_lookup (om_store m) (ToLower (c_Exchange c), c_OrderID c) = Some od"
      using 2(3) by (auto simp: getByExchangeAndID_lookup split: option.split_asm)
    note ids = lookup_inv [OF store_reachable_inv [OF assms] od]
    have "os_lookup (om_store m') = (os_lookup (om_store m))((ToLower (c_Exchange c), c_OrderID c) \<mapsto>
        tracked (merged (en_currency env) now (od\<lparr>d_Status := Cancelled\<rparr>) od))"
      using updateExisting_hit [of "om_store m" "od\<lparr>d_Status := Cancelled\<rparr>" od] od ids 2(4) by simp
    then show ?thesis using 2 od status rem by (auto simp: c Let_def)
  qed
qed

text \<open>\<open>Stop\<close> clears the flag that \<open>gracefulShutdown\<close> and \<open>Cancel\<close> read: a shutdown that gets to run
  after it cancels nothing, whatever the configuration says.\<close>

lemma shutdown_after_stop:
  assumes "om_Stop (Some m) = (Some m', None)"
  shows "om_gracefulShutdown env now m' = Some m'"
  using assms
  by (auto simp: om_Stop_def om_gracefulShutdown_def om_CancelAllOrders_def om_guard_def
      split: sum.split if_split_asm)

text \<open>A manager that was set up has no limits of its own: \<open>validate\<close> is the submission's own
  validation.\<close>

lemma setup_without_limits:
  assumes "SetupOrderManager em hasComms a hasWg (Some cfg) f w = Inr (m, own, cfg')"
    and "s_Exchange s \<noteq> []"
  shows "om_validate env (om_cfg m) x (Some s) = None \<longleftrightarrow>
    submit_Validate (en_currency env) (Some s) (to_GetTradingRequirements (en_ops env) x) [] = None"
proof -
  have "\<not> EnforceLimitConfig (om_cfg m)"
    using assms(1) by (auto simp: SetupOrderManager_def Let_def split: if_split_asm)
  then show ?thesis using assms(2) by (simp add: om_validate_def split: option.split)
qed

lemma gateway_ids: "execID (((fst \<circ> genExecID) ^^ i) a) = execID a + of_nat i"
  by (induction i) (simp_all add: genExecID_def)

lemma copy_ids: "fst (((fst \<circ> on_copy genExecID) ^^ i) (own, a)) = own + of_nat i"
proof (induction i)
  case (Suc i)
  have "fst (fst (on_copy genExecID s)) = fst s + 1" for s :: "64 word \<times> 'a application"
    by (simp add: on_copy_def genExecID_def case_prod_beta)
  with Suc show ?case by simp
qed simp

text \<open>Also: the gateway hands out execution ids from its counter, and the order manager
  from the counter of the copy it was set up with: the ids of the two are the same, one by one, so
  two reports to a session can have the same id.\<close>

theorem copied_exec_ids:
  "case SetupOrderManager em True a True (Some cfg) f w of
     Inl e \<Rightarrow> em = None
   | Inr (m, own, cfg') \<Rightarrow>
       snd (genExecID (((fst \<circ> genExecID) ^^ i) a)) =
       snd (on_copy genExecID (((fst \<circ> on_copy genExecID) ^^ i) (own, a')))"
proof -
  have "snd (genExecID (((fst \<circ> genExecID) ^^ i) a)) =
      snd (on_copy genExecID (((fst \<circ> on_copy genExecID) ^^ i) (execID a, a')))"
  proof -
    obtain own' b where s: "((fst \<circ> on_copy genExecID) ^^ i) (execID a, a') = (own', b)" by force
    then have "own' = execID a + of_nat i" using copy_ids [of i "execID a" a'] by simp
    then show ?thesis by (simp add: s on_copy_def genExecID_def gateway_ids)
  qed
  then show ?thesis by (simp add: SetupOrderManager_def Let_def)
qed

lemma app_UpdateOrder_cases:
  assumes "app_UpdateOrder dec cs u st a = (a', res)"
  shows "sessions a' = sessions a"
    "case res of
       Panicked \<Rightarrow> d_Trades u = [] \<and> st \<in> {OrdStatus_PARTIALLY_FILLED, OrdStatus_FILLED} \<and>
         ga_sent a' = ga_sent a
     | Returned _ \<Rightarrow> \<exists>r. er_OrderID r = d_OrderID u \<and> er_OrdStatus r = st \<and>
         ga_sent a' = ga_sent a @ map (\<lambda>sid. (sid, ExecutionReport r)) (sessions a)"
proof -
  obtain a1 eid where g: "genExecID a = (a1, eid)" by force
  have a1: "sessions a1 = sessions a" "ga_sent a1 = ga_sent a" using g by (auto simp: genExecID_def)
  define rep where "rep = order_report dec cs eid u st"
  define filled where "filled = (\<lambda>t. if d_Trades u = [] then None
    else Some (rep\<lparr>er_ExecType := t, er_LastPx := Some (NewFromFloat dec (d_AverageExecutedPrice u)),
      er_LastShares := Some (NewFromFloat dec (th_Amount (last (d_Trades u))))\<rparr>))"
  define result where "result = (if st = OrdStatus_PARTIALLY_FILLED then filled ExecType_PARTIAL_FILL
    else if st = OrdStatus_FILLED then filled ExecType_FILL
    else if st = OrdStatus_CANCELED
      then Some (rep\<lparr>er_ExecType := ExecType_CANCELED, er_LastPx := Some (NewFromFloat dec (d_Price u)),
        er_LastShares := Some (NewFromFloat dec (d_ExecutedAmount u))\<rparr>)
    else Some rep)"
  have upd: "app_UpdateOrder dec cs u st a = (case result of None \<Rightarrow> (a1, Panicked)
      | Some r \<Rightarrow> (send_all (sessions a1) (ExecutionReport r) a1, Returned None))"
    by (simp add: app_UpdateOrder_def g Let_def result_def filled_def rep_def)
  have "er_OrderID rep = d_OrderID u" "er_OrdStatus rep = st"
    by (simp_all add: rep_def order_report_def set_prices_def)
  then have some: "result = Some r \<Longrightarrow> er_OrderID r = d_OrderID u \<and> er_OrdStatus r = st" for r
    by (auto simp: result_def filled_def split: if_split_asm)
  have none: "result = None \<Longrightarrow>
      d_Trades u = [] \<and> st \<in> {OrdStatus_PARTIALLY_FILLED, OrdStatus_FILLED}"
    by (auto simp: result_def filled_def split: if_split_asm)
  show "sessions a' = sessions a"
    using assms a1 by (auto simp: upd send_all_def split: option.split_asm)
  show "case res of
       Panicked \<Rightarrow> d_Trades u = [] \<and> st \<in> {OrdStatus_PARTIALLY_FILLED, OrdStatus_FILLED} \<and>
         ga_sent a' = ga_sent a
     | Returned _ \<Rightarrow> \<exists>r. er_OrderID r = d_OrderID u \<and> er_OrdStatus r = st \<and>
         ga_sent a' = ga_sent a @ map (\<lambda>sid. (sid, ExecutionReport r)) (sessions a)"
  proof (cases result)
    case None
    then show ?thesis using assms a1 none by (simp add: upd)
  next
    case (Some r)
    then have "a' = send_all (sessions a1) (ExecutionReport r) a1" "res = Returned None"
      using assms by (simp_all add: upd)
    then show ?thesis using some [OF Some] a1 by (auto simp: send_all_def)
  qed
qed

lemma om_report_cases:
  assumes "om_report dec cs u b a = (b', a', crashed)"
  shows "sessions a' = sessions a"
    "if crashed then d_Trades u = [] \<and>
         ToOrdStatus (d_Status u) \<in> {OrdStatus_PARTIALLY_FILLED, OrdStatus_FILLED} \<and> ga_sent a' = ga_sent a
     else \<exists>r. er_OrderID r = d_OrderID u \<and> er_OrdStatus r = ToOrdStatus (d_Status u) \<and>
         ga_sent a' = ga_sent a @ map (\<lambda>sid. (sid, ExecutionReport r)) (sessions a)"
proof -
  obtain a1 res where u: "app_UpdateOrder dec cs u (ToOrdStatus (d_Status u)) a = (a1, res :: go_error call_result)"
    by force
  note cases = app_UpdateOrder_cases [OF u]
  have "a' = a1" "crashed = (res = Panicked)"
    using assms by (auto simp: om_report_def u split: call_result.split_asm option.split_asm)
  then show "sessions a' = sessions a"
    "if crashed then d_Trades u = [] \<and>
         ToOrdStatus (d_Status u) \<in> {OrdStatus_PARTIALLY_FILLED, OrdStatus_FILLED} \<and> ga_sent a' = ga_sent a
     else \<exists>r. er_OrderID r = d_OrderID u \<and> er_OrdStatus r = ToOrdStatus (d_Status u) \<and>
         ga_sent a' = ga_sent a @ map (\<lambda>sid. (sid, ExecutionReport r)) (sessions a)"
    using cases by (cases res; simp)+
qed

text \<open>Also: for each order it fetches, the periodic pass sends nothing, or one report with
  the order's id and status to every connected session; it crashes only on an order that is filled or
  partially filled and comes without trades.\<close>

theorem pass_reports:
  "case process_updated dec db cs u b a of (b', a', crashed) \<Rightarrow>
     sessions a' = sessions a \<and>
     (if crashed
      then d_Trades u = [] \<and>
        ToOrdStatus (d_Status u) \<in> {OrdStatus_PARTIALLY_FILLED, OrdStatus_FILLED} \<and>
        ga_sent a' = ga_sent a
      else ga_sent a' = ga_sent a \<or>
        (\<exists>r. er_OrderID r = d_OrderID u \<and> er_OrdStatus r = ToOrdStatus (d_Status u) \<and>
          ga_sent a' = ga_sent a @ map (\<lambda>sid. (sid, ExecutionReport r)) (sessions a)))"
proof -
  obtain b' a' crashed where p: "process_updated dec db cs u b a = (b', a', crashed)"
    by (metis prod_cases3)
  consider "a' = a" "\<not> crashed" | b1 where "om_report dec cs u b1 a = (b', a', crashed)"
    using p by (auto simp: process_updated_def Let_def split: if_split_asm prod.split_asm option.split_asm)
  then show ?thesis
  proof cases
    case (2 b1)
    then show ?thesis using om_report_cases [OF 2] by (auto simp: p split: if_splits)
  qed (simp add: p)
qed

text \<open>C22: an order the websocket handler has created in the database and reported to the sessions
  (the order has an order id and a client order id, and no order of its id was found before) is not
  reported again by the periodic pass, which changes nothing, when the exchange returns the order as the
  handler got it and the database finds as many trades with the order as it has; another status or
  another number of trades is what the pass acts on.  Assumed of the database is that it returns the
  order it has stored.\<close>

theorem created_once:
  assumes "returns_stored db" and "sessions a \<noteq> []"
    and "handle_detail dec db cs d b a = (b', a', Returned None)"
    and "do_ClientOrderID (GetOrderByOrderID db b (d_OrderID d)) = []"
    and "d_OrderID d \<noteq> []" and "d_ClientOrderID d \<noteq> []"
    and "length (do_Trades (GetOrderByOrderID db b' (d_OrderID d))) = length (d_Trades d)"
  shows "process_updated dec db cs d b' a' = (b', a', False)"
proof -
  obtain b1 err where c: "CreateOrder db (save_trades db d b) (saved_order cs d) = (b1, err)"
    by fastforce
  have e: "err = None" and b1: "b' = b1"
    using assms(2-4) c by (auto simp: handle_detail_def Let_def split: option.split_asm prod.split_asm)
  from stored_order [OF assms(1) c [unfolded e] assms(5,6)] show ?thesis
    using assms(6,7) b1 by (simp add: process_updated_def Let_def)
qed

section \<open>Examples\<close>

definition demo_ops :: "(string, unit) trading_ops" where
  "demo_ops =
     \<lparr>xo_CheckOrderExecutionLimits = (\<lambda>w x a p price q t. None), xo_CanTradePair = (\<lambda>w x p a. None),
      xo_SubmitOrder = (\<lambda>w x s. (w, Inl ErrOrderNotFound)), xo_CancelOrder = (\<lambda>w x c. (w, None)),
      xo_ModifyOrder = (\<lambda>w x d. (w, Inl ErrOrderNotFound)), to_GetName = id,
      to_GetTradingRequirements = (\<lambda>x. no_requirements), to_GetAssetTypes = (\<lambda>w x b. [Spot]),
      to_GetEnabledPairs = (\<lambda>w x a. Inr []), to_IsRESTAuthenticationSupported = (\<lambda>w x. True),
      to_GetOrderHistory = (\<lambda>w x r. (w, Inr [])),
      to_GetOrderInfo = (\<lambda>w x oid p a. (w, Inl ErrOrderNotFound))\<rparr>"

definition demo_env :: "(string, unit, unit) manager_env" where
  "demo_env =
     \<lparr>en_currency = demo_registry, en_exchanges = Some Exchange_Manager.demo_manager, en_ops = demo_ops,
      en_track = demo_track, en_v5 = demo_v5\<rparr>"

definition demo_order_manager :: "(unit, unit) order_manager" where
  "demo_order_manager =
     \<lparr>om_started = True,
      om_cfg = \<lparr>EnforceLimitConfig = False, AllowMarketOrders = False, CancelOrdersOnShutdown = True,
        LimitAmount = 0, AllowedPairs = [], AllowedExchanges = [], OrderSubmissionRetries = 0\<rparr>,
      om_store = demo_store, om_activelyTrackFuturesPositions = False,
      om_futuresPositionSeekDuration = 0, om_respectOrderHistoryLimits = False, om_world = (),
      om_events = []\<rparr>"

definition demo_cancel :: cancel where
  "demo_cancel =
     \<lparr>c_Exchange = ''Kraken'', c_OrderID = d_OrderID demo_detail, c_ClientOrderID = [],
      c_AccountID = [], c_ClientID = [], c_WalletAddress = [], c_Type = 0, c_Side = 0,
      c_AssetType = Empty, c_Pair = EMPTYPAIR, c_MarginType = 0\<rparr>"

lemma demo_order_manager_store: "om_store demo_order_manager = demo_store"
  by (simp add: demo_order_manager_def)

theorem cancel_effect_witness:
  "case om_Cancel demo_env 5 (Some demo_cancel) (Some demo_order_manager) of
     (None, err) \<Rightarrow> False
   | (Some m', err) \<Rightarrow>
       (case os_lookup demo_store (''kraken'', d_OrderID demo_detail) of
          None \<Rightarrow> err \<noteq> None
        | Some d \<Rightarrow>
            (err \<noteq> None \<and> om_store m' = demo_store \<or>
             d_Status (the (os_lookup (om_store m') (''kraken'', d_OrderID demo_detail))) = Cancelled))"
proof -
  have reach: "store_reachable demo_registry (Some Exchange_Manager.demo_manager) demo_track {} (om_store demo_order_manager)"
    by (simp add: demo_order_manager_store demo_store_reachable)
  have key: "ToLower (c_Exchange demo_cancel) = ''kraken''" "c_OrderID demo_cancel = d_OrderID demo_detail"
    by (simp_all add: demo_cancel_def case_eval)
  show ?thesis
    using cancel_effect [OF reach, where env = demo_env and now = 5 and c = demo_cancel]
    by (auto simp: key demo_order_manager_store Let_def split: prod.splits option.splits)
qed

theorem created_once_witness:
  "let d = demo_detail\<lparr>d_ClientOrderID := ''c1''\<rparr>;
       (b', a', r) = handle_detail rat_decimal list_db demo_registry d [] demo_app
   in process_updated rat_decimal list_db demo_registry d b' a' = (b', a', False)"
proof -
  let ?d = "demo_detail\<lparr>d_ClientOrderID := ''c1''\<rparr>"
  obtain b' a' r where h: "handle_detail rat_decimal list_db demo_registry ?d [] demo_app = (b', a', r)"
    by (metis prod_cases3)
  have price: "d_Price demo_detail = Fin 100" "d_Trades demo_detail = []"
    by (simp_all add: demo_detail_def DeriveSubmitResponse_def DeriveDetail_def demo_submit_def
        order_type_consts)
  have sess: "sessions demo_app \<noteq> []" by (simp add: demo_app_def OnLogon_def NewFixGateway_def)
  have new: "ToOrdStatus New = OrdStatus_NEW" by (simp add: ToOrdStatus_def)
  have r: "r = Returned None" and b': "b' = [saved_order demo_registry ?d]"
    using h sess new by (auto simp: handle_detail_def list_db_def no_order_def save_trades_def price
        demo_detail_fields app_UpdateOrder_def fix_status_consts genExecID_def Let_def
        split: if_split_asm)
  have "length (do_Trades (GetOrderByOrderID list_db b' (d_OrderID ?d))) = length (d_Trades ?d)"
    by (simp add: b' list_db_def saved_order_def price)
  moreover have "d_OrderID ?d \<noteq> []"
    by (simp add: demo_detail_def DeriveSubmitResponse_def DeriveDetail_def demo_submit_def)
  ultimately show ?thesis
    using created_once [OF list_db_returns sess h [unfolded r] _ _ _]
    by (simp add: h r) (simp add: list_db_def no_order_def)
qed

end
