(* ===== verification/Sync_Manager.thy ===== *)
theory Sync_Manager
  imports Order_Manager
begin

text \<open>
  The sync manager of the FIX engine (\<open>fixengine/sync_manager.go\<close>): for every enabled pair it keeps
  an agent that remembers when its ticker, order book and trades were last updated and over which
  protocol, asks the exchange over REST for what the websocket does not deliver in time, and knows
  when every item has arrived for the first time (the initial sync).

  The wait group \<open>initSyncWG\<close> is its counter, an integer: a negative counter is the panic of
  \<open>Done\<close>.  The exchanges are parameters: for \<open>Start\<close> the answers of their getters, for the workers the
  REST calls on a world.  The goroutine of \<open>Start\<close> that waits for the counter is the operation
  \<open>sync_complete\<close>; a worker's visit of one pair, its REST calls included, is the one step \<open>worker_visit\<close>.
  As a function \<open>sy_Start\<close> runs alone; in the state machine its actions are steps of their own.  Logging
  does not appear.

  The lemmas show that the wait group counts the items that were never updated and the unfinished runs
  of \<open>Start\<close>, when waiting for the initial sync is over, and which pairs the workers miss.
\<close>

section \<open>State\<close>

definition errNoSyncItemsEnabled :: go_error where
  "errNoSyncItemsEnabled = Sentinel ''main.errNoSyncItemsEnabled''"
definition errUnknownSyncItem :: go_error where
  "errUnknownSyncItem = Sentinel ''main.errUnknownSyncItem''"
definition errSyncPairNotFound :: go_error where
  "errSyncPairNotFound = Sentinel ''main.errSyncPairNotFound''"
definition errCouldNotSyncNewData :: go_error where
  "errCouldNotSyncNewData = Sentinel ''main.errCouldNotSyncNewData''"

text \<open>\<open>SyncItemTicker\<close>, \<open>SyncItemOrderbook\<close>, \<open>SyncItemTrade\<close>.\<close>

definition SyncItemTicker :: int where "SyncItemTicker = 0"
definition SyncItemOrderbook :: int where "SyncItemOrderbook = 1"
definition SyncItemTrade :: int where "SyncItemTrade = 2"

lemmas sync_items = SyncItemTicker_def SyncItemOrderbook_def SyncItemTrade_def

record sync_base =
  IsUsingWebsocket :: bool
  IsUsingREST :: bool
  IsProcessing :: bool
  sb_LastUpdated :: time
  HaveData :: bool
  NumErrors :: int

definition zero_base :: sync_base where
  "zero_base =
     \<lparr>IsUsingWebsocket = False, IsUsingREST = False, IsProcessing = False, sb_LastUpdated = 0,
      HaveData = False, NumErrors = 0\<rparr>"

record sync_agent =
  sa_Created :: time
  sa_Exchange :: string
  sa_AssetType :: asset_item
  sa_Pair :: pair
  sa_Ticker :: sync_base
  sa_Orderbook :: sync_base
  sa_Trade :: sync_base

record sync_config =
  SynchronizeTicker :: bool
  SynchronizeOrderbook :: bool
  SynchronizeTrades :: bool
  SynchronizeContinuously :: bool
  TimeoutREST :: int
  TimeoutWebsocket :: int
  NumWorkers :: int
  FiatDisplayCurrency :: code
  PairFormatDisplay :: "pair_format option"

record sync_manager =
  initSyncCompleted :: bool
  initSyncStarted :: bool
  sy_started :: bool
  sy_format :: "pair_format option"
  websocketRoutineManagerEnabled :: bool
  initSyncWG :: int
  inService :: int
  currencyPairs :: "sync_agent list"
  tickerBatchLastRequested :: "(string \<times> time) list"
  sy_config :: sync_config
  createdCounter :: int
  removedCounter :: int

text \<open>The item of an agent that a sync type names, and whether the configuration has it.\<close>

definition get_item :: "int \<Rightarrow> sync_agent \<Rightarrow> sync_base" where
  "get_item t c =
     (if t = SyncItemTicker then sa_Ticker c else if t = SyncItemOrderbook then sa_Orderbook c
      else sa_Trade c)"

definition set_item :: "int \<Rightarrow> (sync_base \<Rightarrow> sync_base) \<Rightarrow> sync_agent \<Rightarrow> sync_agent" where
  "set_item t f c =
     (if t = SyncItemTicker then c\<lparr>sa_Ticker := f (sa_Ticker c)\<rparr>
      else if t = SyncItemOrderbook then c\<lparr>sa_Orderbook := f (sa_Orderbook c)\<rparr>
      else if t = SyncItemTrade then c\<lparr>sa_Trade := f (sa_Trade c)\<rparr> else c)"

definition item_enabled :: "sync_config \<Rightarrow> int \<Rightarrow> bool" where
  "item_enabled cfg t \<longleftrightarrow>
     (t = SyncItemTicker \<and> SynchronizeTicker cfg) \<or>
     (t = SyncItemOrderbook \<and> SynchronizeOrderbook cfg) \<or>
     (t = SyncItemTrade \<and> SynchronizeTrades cfg)"

section \<open>Setup\<close>

definition setupSyncManager ::
    "store \<Rightarrow> sync_config option \<Rightarrow> bool \<Rightarrow> bool \<Rightarrow> bool \<Rightarrow> sync_manager go_result" where
  "setupSyncManager cs co hasExchangeManager hasRemoteConfig wsEnabled =
     (case co of
        None \<Rightarrow> Inl (Errorf ''%T %w'' [Sentinel ''common.ErrNilPointer''])
      | Some c \<Rightarrow>
          if \<not> SynchronizeOrderbook c \<and> \<not> SynchronizeTicker c \<and> \<not> SynchronizeTrades c
          then Inl errNoSyncItemsEnabled
          else if \<not> hasExchangeManager then Inl (Sentinel ''main.errNilExchangeManager'')
          else if \<not> hasRemoteConfig then Inl (Sentinel ''main.errNilConfig'')
          else
            (let c = (if NumWorkers c \<le> 0 then c\<lparr>NumWorkers := 15\<rparr> else c);
                 c = (if TimeoutREST c \<le> 0 then c\<lparr>TimeoutREST := 15 * 10 ^ 9\<rparr> else c);
                 c = (if TimeoutWebsocket c \<le> 0 then c\<lparr>TimeoutWebsocket := 60 * 10 ^ 9\<rparr> else c)
             in if code_IsEmpty cs (FiatDisplayCurrency c)
                then Inl (Errorf ''FiatDisplayCurrency %w'' [ErrCurrencyCodeEmpty])
                else if \<not> IsFiatCurrency cs (FiatDisplayCurrency c)
                then Inl (Errorf ''%s %w'' [Sentinel ''currency.ErrFiatDisplayCurrencyIsNotFiat''])
                else if PairFormatDisplay c = None
                then Inl (Errorf ''%T %w'' [Sentinel ''common.ErrNilPointer''])
                else Inr \<lparr>initSyncCompleted = False, initSyncStarted = False, sy_started = False,
                          sy_format = PairFormatDisplay c, websocketRoutineManagerEnabled = wsEnabled,
                          initSyncWG = 0, inService = 1, currencyPairs = [],
                          tickerBatchLastRequested = [], sy_config = c, createdCounter = 0,
                          removedCounter = 0\<rparr>))"

definition sy_IsRunning :: "sync_manager option \<Rightarrow> bool" where
  "sy_IsRunning mo \<longleftrightarrow> (case mo of None \<Rightarrow> False | Some m \<Rightarrow> sy_started m)"

section \<open>Agents\<close>

definition agent_is :: "string \<Rightarrow> pair \<Rightarrow> asset_item \<Rightarrow> sync_agent \<Rightarrow> bool" where
  "agent_is e p a c \<longleftrightarrow> sa_Exchange c = e \<and> pair_Equal (sa_Pair c) p \<and> sa_AssetType c = a"

text \<open>\<open>for x := range m.currencyPairs { if ... { change; return } }\<close>.\<close>

fun change_first :: "('a \<Rightarrow> bool) \<Rightarrow> ('a \<Rightarrow> 'a) \<Rightarrow> 'a list \<Rightarrow> 'a list" where
  "change_first P f [] = []"
| "change_first P f (x # xs) = (if P x then f x # xs else x # change_first P f xs)"

definition sy_get :: "sync_manager \<Rightarrow> string \<Rightarrow> pair \<Rightarrow> asset_item \<Rightarrow> sync_agent go_result" where
  "sy_get m e p a =
     (case find (agent_is e p a) (currencyPairs m) of
        Some c \<Rightarrow> Inr c
      | None \<Rightarrow> Inl (Errorf ''%v %v %v %w'' [errSyncPairNotFound]))"

definition sy_exists :: "sync_manager \<Rightarrow> string \<Rightarrow> pair \<Rightarrow> asset_item \<Rightarrow> bool" where
  "sy_exists m e p a \<longleftrightarrow> list_ex (agent_is e p a) (currencyPairs m)"

text \<open>One of the three blocks of \<open>add\<close>.\<close>

definition count_item :: "bool \<Rightarrow> sync_manager \<Rightarrow> sync_manager" where
  "count_item on m =
     (if on \<and> \<not> initSyncCompleted m
      then m\<lparr>initSyncWG := initSyncWG m + 1, createdCounter := createdCounter m + 1\<rparr> else m)"

definition sy_add :: "time \<Rightarrow> sync_agent \<Rightarrow> sync_manager \<Rightarrow> sync_manager" where
  "sy_add now c m =
     (let m = count_item (SynchronizeTicker (sy_config m)) m;
          m = count_item (SynchronizeOrderbook (sy_config m)) m;
          m = count_item (SynchronizeTrades (sy_config m)) m
      in m\<lparr>currencyPairs := currencyPairs m @ [c\<lparr>sa_Created := now\<rparr>]\<rparr>)"

text \<open>\<open>isProcessing\<close> looks on past an agent that matches only if the type is unknown.\<close>

definition sy_isProcessing :: "sync_manager \<Rightarrow> string \<Rightarrow> pair \<Rightarrow> asset_item \<Rightarrow> int \<Rightarrow> bool" where
  "sy_isProcessing m e p a t \<longleftrightarrow>
     (case find (agent_is e p a) (currencyPairs m) of
        None \<Rightarrow> False
      | Some c \<Rightarrow>
          t \<in> {SyncItemTicker, SyncItemOrderbook, SyncItemTrade} \<and> IsProcessing (get_item t c))"

definition sy_setProcessing ::
    "string \<Rightarrow> pair \<Rightarrow> asset_item \<Rightarrow> int \<Rightarrow> bool \<Rightarrow> sync_manager \<Rightarrow> sync_manager" where
  "sy_setProcessing e p a t processing m =
     m\<lparr>currencyPairs :=
         map (\<lambda>c. if agent_is e p a c then set_item t (\<lambda>b. b\<lparr>IsProcessing := processing\<rparr>) c else c)
           (currencyPairs m)\<rparr>"

section \<open>Update\<close>

definition arrived :: "time \<Rightarrow> go_error option \<Rightarrow> sync_base \<Rightarrow> sync_base" where
  "arrived now err b =
     (let b = b\<lparr>sb_LastUpdated := now\<rparr>;
          b = (if err \<noteq> None then b\<lparr>NumErrors := NumErrors b + 1\<rparr> else b)
      in b\<lparr>HaveData := True, IsProcessing := False\<rparr>)"

text \<open>The agent \<open>c\<close> is the first that matches.\<close>

definition item_arrived ::
    "time \<Rightarrow> string \<Rightarrow> pair \<Rightarrow> asset_item \<Rightarrow> int \<Rightarrow> go_error option \<Rightarrow> sync_agent \<Rightarrow> sync_manager \<Rightarrow>
     sync_manager" where
  "item_arrived now e p a t err c m =
     (let origHadData = HaveData (get_item t c);
          m = m\<lparr>currencyPairs := change_first (agent_is e p a) (set_item t (arrived now err))
                               (currencyPairs m)\<rparr>
      in if \<not> initSyncCompleted m \<and> \<not> origHadData
         then m\<lparr>removedCounter := removedCounter m + 1, initSyncWG := initSyncWG m - 1\<rparr>
         else m)"

definition sy_Update ::
    "time \<Rightarrow> string \<Rightarrow> pair \<Rightarrow> asset_item \<Rightarrow> int \<Rightarrow> go_error option \<Rightarrow> sync_manager option \<Rightarrow>
     sync_manager option \<times> go_error option" where
  "sy_Update now e p a t err mo =
     (case mo of
        None \<Rightarrow> (None, Some (Errorf ''exchange CurrencyPairSyncer %w'' [ErrNilSubsystem]))
      | Some m \<Rightarrow>
          if \<not> sy_started m
          then (mo, Some (Errorf ''exchange CurrencyPairSyncer %w'' [ErrSubSystemNotStarted]))
          else if \<not> initSyncStarted m then (mo, None)
          else if t \<notin> {SyncItemTicker, SyncItemOrderbook, SyncItemTrade}
          then (mo, Some (Errorf ''%v %w'' [errUnknownSyncItem]))
          else if \<not> item_enabled (sy_config m) t then (mo, None)
          else
            (case find (agent_is e p a) (currencyPairs m) of
               None \<Rightarrow> (mo, Some (Errorf ''%w for %s %s %s'' [errCouldNotSyncNewData]))
             | Some c \<Rightarrow>
                 (Some (item_arrived now e p a t err c m), None)))"

section \<open>Start and stop\<close>

text \<open>The answers of an exchange's getters; for an asset: whether it is enabled, whether the
  websocket supports it, and its enabled pairs.\<close>

record sync_exchange =
  se_Name :: string
  se_SupportsWebsocket :: bool
  se_SupportsREST :: bool
  se_IsWebsocketEnabled :: bool
  se_Assets :: "(asset_item \<times> bool \<times> bool \<times> pair list go_result) list"

definition base_for :: "bool \<Rightarrow> bool \<Rightarrow> bool \<Rightarrow> sync_base" where
  "base_for usingREST usingWebsocket wsAssetSupported =
     zero_base\<lparr>IsUsingREST := usingREST \<or> \<not> wsAssetSupported,
               IsUsingWebsocket := usingWebsocket \<and> wsAssetSupported\<rparr>"

definition new_agent :: "sync_config \<Rightarrow> string \<Rightarrow> asset_item \<Rightarrow> pair \<Rightarrow> sync_base \<Rightarrow> sync_agent" where
  "new_agent cfg e a p sBase =
     \<lparr>sa_Created = 0, sa_Exchange = e, sa_AssetType = a, sa_Pair = p,
      sa_Ticker = (if SynchronizeTicker cfg then sBase else zero_base),
      sa_Orderbook = (if SynchronizeOrderbook cfg then sBase else zero_base),
      sa_Trade = (if SynchronizeTrades cfg then sBase else zero_base)\<rparr>"

definition start_pair ::
    "time \<Rightarrow> string \<Rightarrow> asset_item \<Rightarrow> sync_base \<Rightarrow> pair \<Rightarrow> sync_manager \<Rightarrow> sync_manager" where
  "start_pair now e a sBase p m =
     (if sy_exists m e p a then m else sy_add now (new_agent (sy_config m) e a p sBase) m)"

definition start_asset ::
    "time \<Rightarrow> string \<Rightarrow> bool \<Rightarrow> bool \<Rightarrow> asset_item \<times> bool \<times> bool \<times> pair list go_result \<Rightarrow>
     sync_manager \<Rightarrow> sync_manager" where
  "start_asset now e usingREST usingWebsocket asset m =
     (case asset of (a, isOn, wsAssetSupported, pairs) \<Rightarrow>
        if \<not> isOn then m
        else
          (case pairs of
             Inl err \<Rightarrow> m
           | Inr ps \<Rightarrow>
               fold (start_pair now e a (base_for usingREST usingWebsocket wsAssetSupported)) ps m))"

definition start_exchange :: "time \<Rightarrow> sync_exchange \<Rightarrow> sync_manager \<Rightarrow> sync_manager" where
  "start_exchange now x m =
     (if \<not> se_SupportsREST x \<and> \<not> se_SupportsWebsocket x then m
      else
        (let usingWebsocket = (websocketRoutineManagerEnabled m \<and> se_SupportsWebsocket x \<and>
                               se_IsWebsocketEnabled x);
             usingREST = (\<not> usingWebsocket \<and> se_SupportsREST x)
         in fold (start_asset now (se_Name x) usingREST usingWebsocket) (se_Assets x) m))"

text \<open>Both early returns leave the counter raised: the last \<open>Done\<close> is not reached.\<close>

definition sy_Start ::
    "time \<Rightarrow> sync_exchange list go_result \<Rightarrow> sync_manager option \<Rightarrow>
     sync_manager option \<times> go_error option" where
  "sy_Start now exchs mo =
     (case mo of
        None \<Rightarrow> (None, Some (Errorf ''exchange CurrencyPairSyncer %w'' [ErrNilSubsystem]))
      | Some m \<Rightarrow>
          if sy_started m then (mo, Some ErrSubSystemAlreadyStarted)
          else
            (let m = m\<lparr>sy_started := True, initSyncWG := initSyncWG m + 1,
                       inService := inService m - 1\<rparr>
             in case exchs of
                  Inl err \<Rightarrow> (Some m, Some err)
                | Inr xs \<Rightarrow>
                    (let m = fold (start_exchange now) xs m;
                         m = m\<lparr>initSyncStarted := True\<rparr>
                     in if initSyncCompleted m \<and> \<not> SynchronizeContinuously (sy_config m)
                        then (Some m, None)
                        else (Some (m\<lparr>initSyncWG := initSyncWG m - 1\<rparr>), None))))"

definition sy_Stop :: "sync_manager option \<Rightarrow> sync_manager option \<times> go_error option" where
  "sy_Stop mo =
     (case mo of
        None \<Rightarrow> (None, Some (Errorf ''exchange CurrencyPairSyncer %w'' [ErrNilSubsystem]))
      | Some m \<Rightarrow>
          if \<not> sy_started m
          then (mo, Some (Errorf ''exchange CurrencyPairSyncer %w'' [ErrSubSystemNotStarted]))
          else (Some (m\<lparr>sy_started := False, inService := inService m + 1\<rparr>), None))"

text \<open>What the goroutine of \<open>Start\<close> does once the counter is zero.\<close>

definition sync_complete :: "sync_manager \<Rightarrow> sync_manager" where
  "sync_complete m =
     (if initSyncCompleted m then m
      else
        (let m = m\<lparr>initSyncCompleted := True\<rparr>
         in if SynchronizeContinuously (sy_config m) then m
            else (case sy_Stop (Some m) of (Some m', e) \<Rightarrow> m' | (None, e) \<Rightarrow> m)))"

text \<open>\<open>WaitForInitialSync\<close> in a state in which it need not wait: \<open>None\<close> while it blocks.\<close>

definition WaitForInitialSync :: "sync_manager option \<Rightarrow> go_error option option" where
  "WaitForInitialSync mo =
     (case mo of
        None \<Rightarrow> Some (Some (Errorf ''sync manager %w'' [ErrNilSubsystem]))
      | Some m \<Rightarrow>
          if inService m \<noteq> 0 then None
          else if \<not> sy_started m then Some (Some (Errorf ''sync manager %w'' [ErrSubSystemNotStarted]))
          else if initSyncWG m \<noteq> 0 then None
          else Some None)"

section \<open>The workers\<close>

text \<open>The REST calls of one exchange.\<close>

record 'w sync_ops =
  so_UpdateOrderbook :: "'w \<Rightarrow> pair \<Rightarrow> asset_item \<Rightarrow> 'w \<times> go_error option"
  so_UpdateTicker :: "'w \<Rightarrow> pair \<Rightarrow> asset_item \<Rightarrow> 'w \<times> go_error option"
  so_UpdateTickers :: "'w \<Rightarrow> asset_item \<Rightarrow> 'w \<times> go_error option"
  so_FetchTicker :: "'w \<Rightarrow> pair \<Rightarrow> asset_item \<Rightarrow> 'w \<times> go_error option"

definition sync_due :: "sync_config \<Rightarrow> time \<Rightarrow> sync_base \<Rightarrow> bool" where
  "sync_due cfg now b \<longleftrightarrow>
     IsZero (sb_LastUpdated b) \<or>
     (TimeoutREST cfg < now - sb_LastUpdated b \<and> IsUsingREST b) \<or>
     (TimeoutWebsocket cfg < now - sb_LastUpdated b \<and> IsUsingWebsocket b)"

text \<open>An item that waits for the websocket: \<open>None\<close> is \<open>continue\<close>, while the agent is young; then the
  item changes to REST, if the exchange has it.\<close>

definition change_protocol ::
    "time \<Rightarrow> bool \<Rightarrow> string \<Rightarrow> pair \<Rightarrow> asset_item \<Rightarrow> int \<Rightarrow> sync_agent \<Rightarrow> sync_manager \<Rightarrow>
     sync_manager option" where
  "change_protocol now supportsREST e p a t c m =
     (if IsUsingWebsocket (get_item t c) then
        (if now - sa_Created c < TimeoutWebsocket (sy_config m) then None
         else if supportsREST then
           (let m = sy_setProcessing e p a t True m;
                m = m\<lparr>currencyPairs := change_first (agent_is e p a)
                        (set_item t (\<lambda>b. b\<lparr>IsUsingWebsocket := False, IsUsingREST := True\<rparr>))
                        (currencyPairs m)\<rparr>
            in Some (sy_setProcessing e p a t False m))
         else Some m)
      else Some m)"

definition visit_orderbook ::
    "'w sync_ops \<Rightarrow> time \<Rightarrow> bool \<Rightarrow> string \<Rightarrow> sync_agent \<Rightarrow> 'w \<times> sync_manager \<Rightarrow>
     ('w \<times> sync_manager) option" where
  "visit_orderbook ops now supportsREST e c s =
     (case s of (w, m) \<Rightarrow>
        let p = sa_Pair c; a = sa_AssetType c
        in if sy_isProcessing m e p a SyncItemOrderbook then Some s
           else if \<not> sync_due (sy_config m) now (sa_Orderbook c) then Some s
           else
             (case change_protocol now supportsREST e p a SyncItemOrderbook c m of
                None \<Rightarrow> None
              | Some m \<Rightarrow>
                  (let m = sy_setProcessing e p a SyncItemOrderbook True m;
                       (w, err) = so_UpdateOrderbook ops w p a
                   in case sy_Update now e p a SyncItemOrderbook err (Some m) of
                        (None, _) \<Rightarrow> Some (w, m)
                      | (Some m, _) \<Rightarrow> Some (w, m))))"

text \<open>The ticker over REST: for an exchange that gives all tickers at once they are fetched if the
  last time is too long ago, and the one wanted is read from the cache.\<close>

definition fetch_ticker ::
    "'w sync_ops \<Rightarrow> time \<Rightarrow> bool \<Rightarrow> string \<Rightarrow> pair \<Rightarrow> asset_item \<Rightarrow> 'w \<times> sync_manager \<Rightarrow>
     'w \<times> sync_manager \<times> go_error option" where
  "fetch_ticker ops now batching e p a s =
     (case s of (w, m) \<Rightarrow>
        if \<not> batching then (let (w, err) = so_UpdateTicker ops w p a in (w, m, err))
        else
          (let last = (case map_of (tickerBatchLastRequested m) e of None \<Rightarrow> 0 | Some t \<Rightarrow> t);
               m = (if map_of (tickerBatchLastRequested m) e = None
                    then m\<lparr>tickerBatchLastRequested := AList.update e 0 (tickerBatchLastRequested m)\<rparr>
                    else m)
           in if IsZero last \<or> TimeoutREST (sy_config m) < now - last
              then (case so_UpdateTickers ops w a of
                      (w, Some err) \<Rightarrow>
                        (w, m\<lparr>tickerBatchLastRequested :=
                               AList.update e now (tickerBatchLastRequested m)\<rparr>, Some err)
                    | (w, None) \<Rightarrow>
                        (let (w, err) = so_FetchTicker ops w p a
                         in (w, m\<lparr>tickerBatchLastRequested :=
                               AList.update e now (tickerBatchLastRequested m)\<rparr>, err)))
              else (let (w, err) = so_FetchTicker ops w p a in (w, m, err))))"

definition visit_ticker ::
    "'w sync_ops \<Rightarrow> time \<Rightarrow> bool \<Rightarrow> bool \<Rightarrow> string \<Rightarrow> sync_agent \<Rightarrow> 'w \<times> sync_manager \<Rightarrow>
     ('w \<times> sync_manager) option" where
  "visit_ticker ops now supportsREST batching e c s =
     (case s of (w, m) \<Rightarrow>
        let p = sa_Pair c; a = sa_AssetType c
        in if sy_isProcessing m e p a SyncItemTicker then Some s
           else if \<not> sync_due (sy_config m) now (sa_Ticker c) then Some s
           else
             (case change_protocol now supportsREST e p a SyncItemTicker c m of
                None \<Rightarrow> None
              | Some m \<Rightarrow>
                  if (case find (agent_is e p a) (currencyPairs m) of
                        None \<Rightarrow> False | Some c \<Rightarrow> IsUsingREST (sa_Ticker c))
                  then
                    (let m = sy_setProcessing e p a SyncItemTicker True m;
                         (w, m, err) = fetch_ticker ops now batching e p a (w, m)
                     in case sy_Update now e p a SyncItemTicker err (Some m) of
                          (None, _) \<Rightarrow> Some (w, m)
                        | (Some m, _) \<Rightarrow> Some (w, m))
                  else Some (w, m)))"

definition visit_trades :: "time \<Rightarrow> string \<Rightarrow> sync_agent \<Rightarrow> 'w \<times> sync_manager \<Rightarrow> 'w \<times> sync_manager" where
  "visit_trades now e c s =
     (case s of (w, m) \<Rightarrow>
        let p = sa_Pair c; a = sa_AssetType c
        in if sy_isProcessing m e p a SyncItemTrade then s
           else if IsZero (sb_LastUpdated (sa_Trade c)) \<or>
                   TimeoutREST (sy_config m) < now - sb_LastUpdated (sa_Trade c)
           then (case sy_Update now e p a SyncItemTrade None
                        (Some (sy_setProcessing e p a SyncItemTrade True m)) of
                   (None, _) \<Rightarrow> (w, m)
                 | (Some m, _) \<Rightarrow> (w, m))
           else s)"

text \<open>\<open>c\<close> is a pointer to the agent, so each part reads it as the last part left it.  The comparison
  of the error of \<open>get\<close> is by \<open>==\<close>; the agent that is added then is not the one in the list, and its
  visit ends here in the model (\<open>get_never_bare\<close>: it does not happen).  The tickers and the trades are
  inside the block of the order books.\<close>

definition worker_visit ::
    "'w sync_ops \<Rightarrow> time \<Rightarrow> bool \<Rightarrow> bool \<Rightarrow> bool \<Rightarrow> bool \<Rightarrow> bool \<Rightarrow> string \<Rightarrow> pair \<Rightarrow> asset_item \<Rightarrow>
     'w \<times> sync_manager \<Rightarrow> 'w \<times> sync_manager" where
  "worker_visit ops now supportsREST batching usingREST usingWebsocket wsAssetSupported e p a s =
     (case s of (w, m) \<Rightarrow>
        (case sy_get m e p a of
           Inl err \<Rightarrow>
             if err = errSyncPairNotFound
             then (w, sy_add now (new_agent (sy_config m) e a p
                        (base_for usingREST usingWebsocket wsAssetSupported)) m)
             else s
         | Inr c \<Rightarrow>
             if \<not> SynchronizeOrderbook (sy_config m) then s
             else
               (case visit_orderbook ops now supportsREST e c s of
                  None \<Rightarrow> s
                | Some (w, m) \<Rightarrow>
                    (let c = (case sy_get m e p a of Inl err \<Rightarrow> c | Inr c \<Rightarrow> c);
                         r = (if SynchronizeTicker (sy_config m)
                              then visit_ticker ops now supportsREST batching e c (w, m)
                              else Some (w, m))
                     in case r of
                          None \<Rightarrow> (w, m)
                        | Some (w, m) \<Rightarrow>
                            if SynchronizeTrades (sy_config m)
                            then visit_trades now e
                                   (case sy_get m e p a of Inl err \<Rightarrow> c | Inr c \<Rightarrow> c) (w, m)
                            else (w, m)))))"

section \<open>Lemmas\<close>

definition sync_types :: "int list" where
  "sync_types = [SyncItemTicker, SyncItemOrderbook, SyncItemTrade]"

text \<open>How many items of an agent are waited for, and of all agents.\<close>

definition missing :: "sync_config \<Rightarrow> sync_agent \<Rightarrow> int" where
  "missing cfg c =
     int (length (filter (\<lambda>t. item_enabled cfg t \<and> \<not> HaveData (get_item t c)) sync_types))"

definition outstanding :: "sync_manager \<Rightarrow> int" where
  "outstanding m = sum_list (map (missing (sy_config m)) (currencyPairs m))"

lemma missing_nonneg: "0 \<le> missing cfg c"
  by (simp add: missing_def)

lemma outstanding_nonneg: "0 \<le> outstanding m"
  unfolding outstanding_def by (rule sum_list_nonneg) (auto simp: missing_nonneg)

lemma get_set_item:
  "t \<in> set sync_types \<Longrightarrow> get_item t' (set_item t f c) =
     (if t' = t \<or> (t' \<notin> set sync_types \<and> t = SyncItemTrade) then f (get_item t c) else get_item t' c)"
  by (auto simp: get_item_def set_item_def sync_types_def sync_items)

lemma set_item_simps [simp]:
  "sa_Created (set_item t f c) = sa_Created c" "sa_Exchange (set_item t f c) = sa_Exchange c"
  "sa_AssetType (set_item t f c) = sa_AssetType c" "sa_Pair (set_item t f c) = sa_Pair c"
  "agent_is e p a (set_item t f c) = agent_is e p a c"
  by (simp_all add: set_item_def agent_is_def)

text \<open>A change that leaves what has data alone leaves the number of missing items alone.\<close>

lemma missing_set_item:
  assumes "\<And>b. HaveData (f b) = HaveData b"
  shows "missing cfg (set_item t f c) = missing cfg c"
proof -
  have "HaveData (get_item t' (set_item t f c)) = HaveData (get_item t' c)" for t'
    using assms by (simp add: get_item_def set_item_def)
  then show ?thesis by (simp add: missing_def)
qed

lemma missing_arrived:
  assumes "item_enabled cfg t"
  shows "missing cfg (set_item t (arrived now err) c) =
    missing cfg c - (if HaveData (get_item t c) then 0 else 1)"
  using assms
  by (auto simp: missing_def sync_types_def get_item_def set_item_def item_enabled_def arrived_def
      Let_def sync_items)

lemma map_change_first:
  "(\<And>x. P x \<Longrightarrow> g (f x) = g x) \<Longrightarrow> map g (change_first P f xs) = map g xs"
  by (induction xs) auto

lemma sum_change_first:
  fixes g :: "'a \<Rightarrow> int"
  assumes "find P xs = Some x"
  shows "sum_list (map g (change_first P f xs)) = sum_list (map g xs) - g x + g (f x)"
  using assms by (induction xs) (auto split: if_split_asm)

lemma set_change_first: "\<forall>x. P x \<longrightarrow> Q (f x) \<Longrightarrow> list_all Q xs \<Longrightarrow> list_all Q (change_first P f xs)"
  by (induction xs) auto

section \<open>Invariant\<close>

definition agent_key :: "sync_agent \<Rightarrow> string \<times> pair \<times> asset_item" where
  "agent_key c = (sa_Exchange c, sa_Pair c, sa_AssetType c)"

definition same_key :: "string \<times> pair \<times> asset_item \<Rightarrow> string \<times> pair \<times> asset_item \<Rightarrow> bool" where
  "same_key k l \<longleftrightarrow>
     (case k of (e, p, a) \<Rightarrow> case l of (e', p', a') \<Rightarrow> e = e' \<and> pair_Equal p p' \<and> a = a')"

text \<open>\<open>k\<close> is what \<open>Start\<close> has raised the counter by and not lowered it again: 1 while it runs, and 1
  more for every run that has returned early.\<close>

definition sync_inv :: "nat \<Rightarrow> sync_manager \<Rightarrow> bool" where
  "sync_inv k m \<longleftrightarrow>
     inService m = (if sy_started m then 0 else 1) \<and> int k \<le> initSyncWG m \<and>
     (if initSyncCompleted m then True else initSyncWG m = outstanding m + int k) \<and>
     sorted_wrt (\<lambda>k l. \<not> same_key k l) (map agent_key (currencyPairs m))"

text \<open>All the invariant reads.\<close>

definition sync_view ::
    "sync_manager \<Rightarrow> int list \<times> (string \<times> pair \<times> asset_item) list \<times> int \<times> int \<times> bool \<times> bool" where
  "sync_view m =
     (map (missing (sy_config m)) (currencyPairs m), map agent_key (currencyPairs m), initSyncWG m,
      inService m, sy_started m, initSyncCompleted m)"

lemma sync_inv_view: "sync_view m' = sync_view m \<Longrightarrow> sync_inv k m' = sync_inv k m"
  by (auto simp: sync_view_def sync_inv_def outstanding_def)

lemma agent_key_set_item [simp]: "agent_key (set_item t f c) = agent_key c"
  by (simp add: agent_key_def)

lemma setProcessing_simps [simp]:
  "sync_view (sy_setProcessing e p a t b m) = sync_view m"
  "sy_config (sy_setProcessing e p a t b m) = sy_config m"
  by (auto simp: sync_view_def sy_setProcessing_def missing_set_item comp_def)

lemma change_protocol_view:
  assumes "change_protocol now rest e p a t c m = Some m'"
  shows "sync_view m' = sync_view m" "sy_config m' = sy_config m"
proof -
  let ?f = "set_item t (\<lambda>b. b\<lparr>IsUsingWebsocket := False, IsUsingREST := True\<rparr>)"
  have "missing cfg (?f c) = missing cfg c" for cfg c by (rule missing_set_item) simp
  then have "sync_view (m\<lparr>currencyPairs := change_first (agent_is e p a) ?f (currencyPairs m)\<rparr>) = sync_view m" for m
    by (simp add: sync_view_def map_change_first)
  then show "sync_view m' = sync_view m" "sy_config m' = sy_config m"
    using assms by (auto simp: change_protocol_def Let_def split: if_split_asm)
qed

lemma fetch_ticker_view:
  assumes "fetch_ticker ops now b e p a (w, m) = (w', m', err)"
  shows "sync_view m' = sync_view m" "sy_config m' = sy_config m"
  using assms
  by (auto simp: fetch_ticker_def sync_view_def Let_def split: if_split_asm prod.split_asm option.split_asm)

lemma Update_cases:
  assumes "sy_Update now e p a t err (Some m) = (mo', r)"
  obtains "mo' = Some m"
  | c where "item_enabled (sy_config m) t" "find (agent_is e p a) (currencyPairs m) = Some c"
      "mo' = Some (item_arrived now e p a t err c m)"
  using assms unfolding sy_Update_def by (auto split: if_split_asm option.split_asm)

lemma item_arrived_simps [simp]:
  "sy_config (item_arrived now e p a t err c m) = sy_config m"
  "initSyncCompleted (item_arrived now e p a t err c m) = initSyncCompleted m"
  "inService (item_arrived now e p a t err c m) = inService m"
  "sy_started (item_arrived now e p a t err c m) = sy_started m"
  "currencyPairs (item_arrived now e p a t err c m) =
     change_first (agent_is e p a) (set_item t (arrived now err)) (currencyPairs m)"
  "initSyncWG (item_arrived now e p a t err c m) =
     initSyncWG m - (if \<not> initSyncCompleted m \<and> \<not> HaveData (get_item t c) then 1 else 0)"
  by (simp_all add: item_arrived_def Let_def)

lemma item_arrived_inv:
  assumes "sync_inv k m" and "item_enabled (sy_config m) t"
    and "find (agent_is e p a) (currencyPairs m) = Some c"
  shows "sync_inv k (item_arrived now e p a t err c m)"
proof -
  let ?f = "set_item t (arrived now err)" and ?P = "agent_is e p a"
  have "sum_list (map (missing (sy_config m)) (change_first ?P ?f (currencyPairs m))) =
      outstanding m - (if HaveData (get_item t c) then 0 else 1)"
    using sum_change_first [OF assms(3), of "missing (sy_config m)" ?f] missing_arrived [OF assms(2)]
    by (simp add: outstanding_def)
  then have out: "outstanding (item_arrived now e p a t err c m) =
      outstanding m - (if HaveData (get_item t c) then 0 else 1)"
    by (simp add: outstanding_def)
  have keys: "map agent_key (change_first ?P ?f (currencyPairs m)) = map agent_key (currencyPairs m)"
    by (rule map_change_first) simp
  show ?thesis
    using assms(1) out outstanding_nonneg [of "item_arrived now e p a t err c m"]
    by (auto simp: sync_inv_def keys)
qed

lemma Update_inv:
  assumes "sync_inv k m" and "sy_Update now e p a t err (Some m) = (Some m', r)"
  shows "sync_inv k m'" "sy_config m' = sy_config m"
  using assms(2) by (cases rule: Update_cases; use assms(1) item_arrived_inv in simp)+

lemma count_item_simps [simp]:
  "sy_config (count_item b m) = sy_config m" "currencyPairs (count_item b m) = currencyPairs m"
  "initSyncCompleted (count_item b m) = initSyncCompleted m"
  "inService (count_item b m) = inService m" "sy_started (count_item b m) = sy_started m"
  "initSyncWG (count_item b m) =
     initSyncWG m + (if b \<and> \<not> initSyncCompleted m then 1 else 0)"
  "websocketRoutineManagerEnabled (count_item b m) = websocketRoutineManagerEnabled m"
  by (simp_all add: count_item_def)

lemma missing_new:
  "missing cfg (c\<lparr>sa_Created := now\<rparr>) = missing cfg c"
  "missing cfg (new_agent cfg e a p (base_for r w s)) =
     (if SynchronizeTicker cfg then 1 else 0) + (if SynchronizeOrderbook cfg then 1 else 0) +
     (if SynchronizeTrades cfg then 1 else 0)"
  by (simp_all add: missing_def get_item_def sync_types_def item_enabled_def sync_items new_agent_def
      base_for_def zero_base_def)

lemma exists_same_key:
  "sy_exists m e p a \<longleftrightarrow> (\<exists>k \<in> set (map agent_key (currencyPairs m)). same_key k (e, p, a))"
  by (auto simp: sy_exists_def list_ex_iff agent_is_def agent_key_def same_key_def)

lemma start_pair_inv:
  assumes "sync_inv k m"
  shows "sync_inv k (start_pair now e a (base_for r w b) p m)"
proof (cases "sy_exists m e p a")
  case False
  have "sa_Exchange (new_agent cfg e a p sb) = e" "sa_Pair (new_agent cfg e a p sb) = p"
    "sa_AssetType (new_agent cfg e a p sb) = a" for cfg sb
    by (simp_all add: new_agent_def)
  then show ?thesis
    using assms False
    by (auto simp: start_pair_def sync_inv_def sy_add_def Let_def outstanding_def missing_new
        sorted_wrt_append exists_same_key agent_key_def)
qed (use assms in \<open>simp add: start_pair_def\<close>)

lemma Stop_inv: "sync_inv k m \<Longrightarrow> sy_Stop (Some m) = (Some m', r) \<Longrightarrow> sync_inv k m'"
  by (auto simp: sy_Stop_def sync_inv_def outstanding_def split: if_split_asm)

lemma complete_inv:
  assumes "sync_inv k m"
  shows "sync_inv k (sync_complete m)"
  using assms by (auto simp: sync_complete_def Let_def sy_Stop_def sync_inv_def outstanding_def)

text \<open>Each part of a visit ends with an \<open>Update\<close> of a manager that looks the same.\<close>

lemma Update_view_inv:
  assumes "sync_inv k m" and "sync_view m1 = sync_view m"
    and "sy_Update now e p a t err (Some m1) = (Some m', r)"
  shows "sync_inv k m'"
  using Update_inv(1) [OF _ assms(3)] sync_inv_view [OF assms(2)] assms(1) by simp

lemma Update_never_None: "sy_Update now e p a t err (Some m) \<noteq> (None, r)"
  by (auto simp: sy_Update_def split: option.split)

lemma visit_orderbook_inv:
  assumes "sync_inv k m" and "visit_orderbook ops now rest e c (w, m) = Some (w', m')"
  shows "sync_inv k m'"
proof -
  let ?p = "sa_Pair c" and ?a = "sa_AssetType c"
  show ?thesis
  proof (cases "sy_isProcessing m e ?p ?a SyncItemOrderbook \<or> \<not> sync_due (sy_config m) now (sa_Orderbook c)")
    case True
    then show ?thesis using assms by (auto simp: visit_orderbook_def Let_def split: if_split_asm)
  next
    case due: False
    then obtain m1 where m1: "change_protocol now rest e ?p ?a SyncItemOrderbook c m = Some m1"
      using assms(2) by (auto simp: visit_orderbook_def Let_def split: option.split_asm)
    let ?m2 = "sy_setProcessing e ?p ?a SyncItemOrderbook True m1"
    have v: "sync_view ?m2 = sync_view m" using change_protocol_view(1) [OF m1] by simp
    obtain w2 err where o: "so_UpdateOrderbook ops w ?p ?a = (w2, err)" by force
    obtain mo r where u: "sy_Update now e ?p ?a SyncItemOrderbook err (Some ?m2) = (mo, r)" by force
    have "mo = Some m'"
      using assms(2) due m1 o u Update_never_None [of now e ?p ?a SyncItemOrderbook err ?m2 r]
      by (auto simp: visit_orderbook_def Let_def split: option.split_asm)
    then show ?thesis using Update_view_inv [OF assms(1) v] u by simp
  qed
qed

lemma visit_ticker_inv:
  assumes "sync_inv k m" and "visit_ticker ops now rest batching e c (w, m) = Some (w', m')"
  shows "sync_inv k m'"
proof -
  let ?p = "sa_Pair c" and ?a = "sa_AssetType c"
  show ?thesis
  proof (cases "sy_isProcessing m e ?p ?a SyncItemTicker \<or> \<not> sync_due (sy_config m) now (sa_Ticker c)")
    case True
    then show ?thesis using assms by (auto simp: visit_ticker_def Let_def split: if_split_asm)
  next
    case due: False
    then obtain m1 where m1: "change_protocol now rest e ?p ?a SyncItemTicker c m = Some m1"
      using assms(2) by (auto simp: visit_ticker_def Let_def split: option.split_asm)
    note v = change_protocol_view(1) [OF m1]
    let ?m2 = "sy_setProcessing e ?p ?a SyncItemTicker True m1"
    obtain w2 m3 err where f: "fetch_ticker ops now batching e ?p ?a (w, ?m2) = (w2, m3, err)"
      by (metis prod_cases3)
    have v3: "sync_view m3 = sync_view m" using fetch_ticker_view(1) [OF f] v by simp
    obtain mo r where u: "sy_Update now e ?p ?a SyncItemTicker err (Some m3) = (mo, r)" by force
    have "m' = m1 \<or> mo = Some m'"
      using assms(2) due m1 f u Update_never_None [of now e ?p ?a SyncItemTicker err m3 r]
      by (auto simp: visit_ticker_def Let_def split: if_split_asm option.split_asm)
    then show ?thesis
      using Update_view_inv [OF assms(1) v3] u sync_inv_view [OF v] assms(1) by auto
  qed
qed

lemma visit_trades_inv:
  assumes "sync_inv k m" and "visit_trades now e c (w, m) = (w', m')"
  shows "sync_inv k m'"
proof -
  let ?p = "sa_Pair c" and ?a = "sa_AssetType c"
  let ?m1 = "sy_setProcessing e ?p ?a SyncItemTrade True m"
  obtain mo r where u: "sy_Update now e ?p ?a SyncItemTrade None (Some ?m1) = (mo, r)" by force
  have "m' = m \<or> mo = Some m'"
    using assms(2) u Update_never_None [of now e ?p ?a SyncItemTrade None ?m1 r]
    by (auto simp: visit_trades_def Let_def split: if_split_asm option.split_asm)
  then show ?thesis using Update_view_inv [OF assms(1), of ?m1] u assms(1) by auto
qed

lemma get_never_bare: "sy_get m e p a = Inl err \<Longrightarrow> err \<noteq> errSyncPairNotFound"
  by (auto simp: sy_get_def errSyncPairNotFound_def split: option.split_asm)

lemma worker_visit_inv:
  assumes "sync_inv k m" and "worker_visit ops now rest batching ur uw ws e p a (w, m) = (w', m')"
  shows "sync_inv k m'"
proof (cases "sy_get m e p a")
  case (Inl err)
  then show ?thesis using assms get_never_bare by (auto simp: worker_visit_def)
next
  case c: (Inr c)
  show ?thesis
  proof (cases "SynchronizeOrderbook (sy_config m) \<and> visit_orderbook ops now rest e c (w, m) \<noteq> None")
    case False
    then show ?thesis
      using assms c by (auto simp: worker_visit_def split: if_split_asm option.split_asm)
  next
    case True
    then obtain w1 m1 where o: "visit_orderbook ops now rest e c (w, m) = Some (w1, m1)" by auto
    have i1: "sync_inv k m1" by (rule visit_orderbook_inv [OF assms(1) o])
    define c1 where "c1 = (case sy_get m1 e p a of Inl err \<Rightarrow> c | Inr c \<Rightarrow> c)"
    define r where "r = (if SynchronizeTicker (sy_config m1)
      then visit_ticker ops now rest batching e c1 (w1, m1) else Some (w1, m1))"
    have v: "worker_visit ops now rest batching ur uw ws e p a (w, m) =
        (case r of None \<Rightarrow> (w1, m1) | Some (w, m) \<Rightarrow> if SynchronizeTrades (sy_config m)
           then visit_trades now e (case sy_get m e p a of Inl err \<Rightarrow> c1 | Inr c \<Rightarrow> c) (w, m) else (w, m))"
      unfolding worker_visit_def r_def c1_def using True by (simp only: c o Let_def
          sum.case option.case prod.case if_True if_False not_not simp_thms)
    show ?thesis
    proof (cases r)
      case None
      then show ?thesis using assms(2) v i1 by simp
    next
      case (Some s)
      obtain w2 m2 where s: "s = (w2, m2)" by force
      have i2: "sync_inv k m2"
        using Some i1 visit_ticker_inv [OF i1] by (auto simp: r_def s split: if_split_asm)
      then show ?thesis
        using assms(2) v visit_trades_inv [OF i2] by (auto simp: Some s split: if_split_asm)
    qed
  qed
qed

section \<open>The sync manager as a state machine\<close>

text \<open>\<open>Start\<close> is its atomic actions, between which anything else may happen: it begins (the flag, the
  counter and \<open>inService\<close>), looks for and adds one pair after the other, sets \<open>initSyncStarted\<close>, and takes
  back what it has raised the counter by, unless it returns before: when \<open>GetExchanges\<close> fails, and when
  the sync is complete and not continuous.\<close>

definition start_begin :: "sync_manager \<Rightarrow> sync_manager" where
  "start_begin m =
     m\<lparr>sy_started := True, initSyncWG := initSyncWG m + 1, inService := inService m - 1\<rparr>"

text \<open>Everything that changes a manager, in any order.  \<open>k\<close> is as in the invariant, and \<open>w\<close> says that
  the goroutine of some \<open>Start\<close> has found the counter at zero: it declares the sync complete at any later
  time.\<close>

inductive sync_reachable :: "nat \<Rightarrow> bool \<Rightarrow> sync_manager \<Rightarrow> bool" where
  fresh: "setupSyncManager cs co True True ws = Inr m \<Longrightarrow> sync_reachable 0 False m"
| start_begin: "sync_reachable k w m \<Longrightarrow> \<not> sy_started m \<Longrightarrow> sync_reachable (Suc k) w (start_begin m)"
| start_pair: "sync_reachable k w m \<Longrightarrow> 0 < k \<Longrightarrow>
     sync_reachable k w (start_pair now e a (base_for usingREST usingWebsocket wsSupported) p m)"
| start_flag: "sync_reachable k w m \<Longrightarrow> 0 < k \<Longrightarrow> sync_reachable k w (m\<lparr>initSyncStarted := True\<rparr>)"
| start_done: "sync_reachable (Suc k) w m \<Longrightarrow>
     \<not> (initSyncCompleted m \<and> \<not> SynchronizeContinuously (sy_config m)) \<Longrightarrow>
     sync_reachable k w (m\<lparr>initSyncWG := initSyncWG m - 1\<rparr>)"
| stop: "sync_reachable k w m \<Longrightarrow> sy_Stop (Some m) = (Some m', r) \<Longrightarrow> sync_reachable k w m'"
| update: "sync_reachable k w m \<Longrightarrow> sy_Update now e p a t err (Some m) = (Some m', r) \<Longrightarrow>
     sync_reachable k w m'"
| wake: "sync_reachable k w m \<Longrightarrow> initSyncWG m = 0 \<Longrightarrow> sync_reachable k True m"
| complete: "sync_reachable k True m \<Longrightarrow> sync_reachable k True (sync_complete m)"
| visit: "sync_reachable k w m \<Longrightarrow>
     worker_visit (ops :: unit sync_ops) now rest batching ur uw was e p a (u, m) = (u', m') \<Longrightarrow>
     sync_reachable k w m'"

lemma setup_inv: "setupSyncManager cs co x y ws = Inr m \<Longrightarrow> sync_inv 0 m"
  by (auto simp: setupSyncManager_def sync_inv_def outstanding_def Let_def
      split: option.split_asm if_split_asm)

lemma start_action_inv:
  "sync_inv k m \<Longrightarrow> \<not> sy_started m \<Longrightarrow> sync_inv (Suc k) (start_begin m)"
  "sync_inv k m \<Longrightarrow> sync_inv k (m\<lparr>initSyncStarted := True\<rparr>)"
  "sync_inv (Suc k) m \<Longrightarrow> sync_inv k (m\<lparr>initSyncWG := initSyncWG m - 1\<rparr>)"
  by (auto simp: start_begin_def sync_inv_def outstanding_def split: if_splits)

lemma sync_reachable_inv: "sync_reachable k w m \<Longrightarrow> sync_inv k m"
proof (induction rule: sync_reachable.induct)
  case (visit k w m ops now rest batching ur uw was e p a u u' m')
  then show ?case by (blast intro: worker_visit_inv)
qed (auto intro: setup_inv start_action_inv Stop_inv Update_inv complete_inv start_pair_inv)

text \<open>A whole \<open>Start\<close> is a run of its actions.\<close>

lemma fold_preserves: "(\<And>x m. P m \<Longrightarrow> P (g x m)) \<Longrightarrow> P m \<Longrightarrow> P (fold g xs m)"
  by (induction xs arbitrary: m) auto

lemma start_exchange_reachable:
  assumes "sync_reachable k w m" and "0 < k"
  shows "sync_reachable k w (start_exchange now x m)"
proof -
  have "sync_reachable k w (start_asset now e r ws y n)" if "sync_reachable k w n" for e r ws y n
    using that assms(2)
    by (auto simp: start_asset_def split: prod.split sum.split
        intro!: fold_preserves [where P = "sync_reachable k w"] sync_reachable.start_pair)
  then show ?thesis
    using assms(1)
    by (auto simp: start_exchange_def Let_def intro!: fold_preserves [where P = "sync_reachable k w"])
qed

lemma Start_reachable:
  assumes "sync_reachable k w m" and "sy_Start now exchs (Some m) = (Some m', r)"
  shows "sync_reachable k w m' \<or> sync_reachable (Suc k) w m'"
proof (cases "sy_started m")
  case True
  then show ?thesis using assms by (simp add: sy_Start_def)
next
  case False
  note b = sync_reachable.start_begin [OF assms(1) False]
  have f: "sync_reachable (Suc k) w (fold (start_exchange now) xs (start_begin m)\<lparr>initSyncStarted := True\<rparr>)"
    for xs
    using b by (intro sync_reachable.start_flag fold_preserves [where P = "sync_reachable (Suc k) w"]
        start_exchange_reachable) simp_all
  show ?thesis
    using assms(2) False b f sync_reachable.start_done [OF f]
    by (auto simp: sy_Start_def start_begin_def [symmetric] Let_def split: sum.split_asm if_split_asm)
qed

section \<open>Properties\<close>

text \<open>Also: whatever the order of starting, stopping, updating and visiting, the wait
  group of the initial sync never goes negative (which would panic), until the sync is complete it is
  the number of items that were not updated yet and of runs of \<open>Start\<close> that are not over or returned
  early, and no exchange, pair and asset has two agents.\<close>

theorem sync_counter:
  assumes "sync_reachable k w m"
  shows "0 \<le> initSyncWG m \<and>
    (initSyncCompleted m \<or> initSyncWG m = int k +
       (\<Sum>c\<leftarrow>currencyPairs m. int (length (filter
          (\<lambda>t. item_enabled (sy_config m) t \<and> \<not> HaveData (get_item t c)) sync_types)))) \<and>
    (case find (agent_is e p a) (currencyPairs m) of
       None \<Rightarrow> True
     | Some c \<Rightarrow> length (filter (\<lambda>d. agent_key d = agent_key c) (currencyPairs m)) = 1)"
proof -
  have inv: "sync_inv k m" by (rule sync_reachable_inv [OF assms])
  have "length (filter (\<lambda>d. agent_key d = agent_key c) cs) = 1"
    if "sorted_wrt (\<lambda>k l. \<not> same_key k l) (map agent_key cs)" "c \<in> set cs" for c cs
    using that
  proof (induction cs)
    case (Cons d cs)
    have refl: "same_key k k" for k by (cases k) (simp add: same_key_def pair_Equal_iff)
    have "d' \<in> set cs \<Longrightarrow> agent_key d' \<noteq> agent_key d" for d'
      using Cons.prems(1) refl [of "agent_key d"] by auto
    then have none: "filter (\<lambda>x. agent_key x = agent_key d) cs = []"
      by (auto simp: filter_empty_conv)
    show ?case
    proof (cases "agent_key d = agent_key c")
      case True
      then show ?thesis using none by simp
    next
      case False
      then show ?thesis using Cons by auto
    qed
  qed simp
  moreover have "find P cs = Some c \<Longrightarrow> c \<in> set cs" for P and c :: sync_agent and cs
    by (auto simp: find_Some_iff)
  ultimately have one: "case find (agent_is e p a) (currencyPairs m) of None \<Rightarrow> True
      | Some c \<Rightarrow> length (filter (\<lambda>d. agent_key d = agent_key c) (currencyPairs m)) = 1"
    using inv by (auto simp: sync_inv_def split: option.split)
  have "outstanding m = (\<Sum>c\<leftarrow>currencyPairs m. int (length (filter
      (\<lambda>t. item_enabled (sy_config m) t \<and> \<not> HaveData (get_item t c)) sync_types)))"
    by (simp add: outstanding_def missing_def [abs_def])
  with one inv show ?thesis by (simp add: sync_inv_def split: if_split_asm)
qed

text \<open>C29: until the sync has been declared complete, waiting for the initial sync is over exactly
  when the manager runs, no run of \<open>Start\<close> is under way or has returned early, and every enabled item of
  every agent has been updated at least once, be it with data or with the error of a failed fetch (both
  set \<open>HaveData\<close>).  Nothing is claimed once it has been declared complete: a manager that is started
  again then may block for ever (\<open>restart_blocks\<close>).\<close>

theorem initial_sync:
  assumes "sync_reachable k w m" and "\<not> initSyncCompleted m"
  shows "WaitForInitialSync (Some m) =
    (if sy_started m \<and> k = 0 \<and>
        list_all (\<lambda>c. list_all (\<lambda>t. \<not> item_enabled (sy_config m) t \<or> HaveData (get_item t c)) sync_types)
          (currencyPairs m)
     then Some None else None)"
proof -
  have inv: "sync_inv k m" by (rule sync_reachable_inv [OF assms(1)])
  have zero: "missing (sy_config m) c = 0 \<longleftrightarrow>
      list_all (\<lambda>t. \<not> item_enabled (sy_config m) t \<or> HaveData (get_item t c)) sync_types" for c
    by (auto simp: missing_def list_all_iff filter_empty_conv)
  have "sum_list (map (missing (sy_config m)) cs) = 0 \<longleftrightarrow> list_all (\<lambda>c. missing (sy_config m) c = 0) cs" for cs
  proof (induction cs)
    case (Cons c cs)
    have "0 \<le> sum_list (map (missing (sy_config m)) cs)"
      by (rule sum_list_nonneg) (auto simp: missing_nonneg)
    then show ?case using Cons.IH missing_nonneg [of "sy_config m" c] by auto
  qed simp
  then have "outstanding m = 0 \<longleftrightarrow> list_all (\<lambda>c. list_all
      (\<lambda>t. \<not> item_enabled (sy_config m) t \<or> HaveData (get_item t c)) sync_types) (currencyPairs m)"
    by (simp add: outstanding_def zero)
  moreover have "initSyncWG m = 0 \<longleftrightarrow> outstanding m = 0 \<and> k = 0"
    using inv assms(2) outstanding_nonneg [of m] by (auto simp: sync_inv_def)
  ultimately show ?thesis
    using inv assms(2) by (auto simp: WaitForInitialSync_def sync_inv_def)
qed

text \<open>An update with an error counts as data.\<close>

lemma failed_update_counts: "HaveData (arrived now (Some err) b) \<and> NumErrors (arrived now (Some err) b) = NumErrors b + 1"
  by (simp add: arrived_def Let_def)

text \<open>Also: a worker never starts to sync a pair that \<open>Start\<close> did not find (it compares the
  wrapped error of \<open>get\<close> with \<open>==\<close>), and without order book synchronisation it syncs neither tickers
  nor trades.\<close>

theorem workers_blind:
  "(sy_exists m e p a \<and> SynchronizeOrderbook (sy_config m)) \<or>
   worker_visit ops now rest batching ur uw was e p a (w, m) = (w, m)"
proof (cases "sy_get m e p a")
  case (Inl err)
  then show ?thesis using get_never_bare [OF Inl] by (simp add: worker_visit_def)
next
  case (Inr c)
  then have "find (agent_is e p a) (currencyPairs m) = Some c"
    by (simp add: sy_get_def split: option.split_asm)
  then have "sy_exists m e p a" by (auto simp: sy_exists_def list_ex_iff find_Some_iff)
  then show ?thesis using Inr by (simp add: worker_visit_def)
qed

text \<open>A manager that has synced once and stopped by itself blocks everyone who waits for it after it
  is started again: the counter is raised and never lowered.\<close>

lemma restart_blocks:
  assumes "sync_inv k m" and "initSyncCompleted m" and "\<not> SynchronizeContinuously (sy_config m)"
    and "\<not> sy_started m" and "sy_Start now (Inr []) (Some m) = (Some m', r)"
  shows "WaitForInitialSync (Some m') = None" "r = None" "sy_started m'"
  using assms by (auto simp: sy_Start_def Let_def WaitForInitialSync_def sync_inv_def)

section \<open>Examples\<close>

definition demo_usd :: "store \<times> code" where
  "demo_usd = Register empty_store ''USD'' Fiat"

definition demo_sync_config :: sync_config where
  "demo_sync_config =
     \<lparr>SynchronizeTicker = False, SynchronizeOrderbook = True, SynchronizeTrades = False,
      SynchronizeContinuously = True, TimeoutREST = 0, TimeoutWebsocket = 0, NumWorkers = 0,
      FiatDisplayCurrency = snd demo_usd, PairFormatDisplay = Some pairFormater\<rparr>"

definition demo_fresh_sync :: sync_manager where
  "demo_fresh_sync =
     \<lparr>initSyncCompleted = False, initSyncStarted = False, sy_started = False,
      sy_format = Some pairFormater, websocketRoutineManagerEnabled = True, initSyncWG = 0,
      inService = 1, currencyPairs = [], tickerBatchLastRequested = [],
      sy_config = demo_sync_config\<lparr>NumWorkers := 15, TimeoutREST := 15 * 10 ^ 9,
        TimeoutWebsocket := 60 * 10 ^ 9\<rparr>,
      createdCounter = 0, removedCounter = 0\<rparr>"

definition demo_sync_exchange :: sync_exchange where
  "demo_sync_exchange =
     \<lparr>se_Name = ''Kraken'', se_SupportsWebsocket = True, se_SupportsREST = True,
      se_IsWebsocketEnabled = True, se_Assets = [(Spot, True, True, Inr [EMPTYPAIR])]\<rparr>"

definition demo_started_sync :: "sync_manager option" where
  "demo_started_sync = fst (sy_Start 5 (Inr [demo_sync_exchange]) (Some demo_fresh_sync))"

definition demo_synced :: "sync_manager option" where
  "demo_synced =
     fst (sy_Update 7 ''Kraken'' EMPTYPAIR Spot SyncItemOrderbook None demo_started_sync)"

lemma demo_fresh_reachable: "sync_reachable 0 False demo_fresh_sync"
proof (rule sync_reachable.fresh)
  show "setupSyncManager (fst demo_usd) (Some demo_sync_config) True True True = Inr demo_fresh_sync"
    by code_simp
qed

lemma demo_started_reachable:
  assumes "demo_started_sync = Some m"
  shows "sync_reachable 0 False m"
proof -
  have "case demo_started_sync of None \<Rightarrow> False | Some m \<Rightarrow> initSyncWG m = 1 \<and> \<not> initSyncCompleted m \<and> outstanding m = 1"
    by code_simp
  then have c: "initSyncWG m = 1" "\<not> initSyncCompleted m" "outstanding m = 1" unfolding assms by simp_all
  obtain r where "sy_Start 5 (Inr [demo_sync_exchange]) (Some demo_fresh_sync) = (Some m, r)"
    using assms by (metis demo_started_sync_def prod.collapse)
  from Start_reachable [OF demo_fresh_reachable this] show ?thesis
    using sync_reachable_inv [of "Suc 0" False m] c by (auto simp: sync_inv_def)
qed

lemma demo_synced_reachable: "demo_synced = Some m \<Longrightarrow> sync_reachable 0 False m"
proof -
  assume s: "demo_synced = Some m"
  obtain m0 where m0: "demo_started_sync = Some m0"
    using s by (cases demo_started_sync) (auto simp: demo_synced_def sy_Update_def)
  show ?thesis
    using s unfolding demo_synced_def m0
    by (intro sync_reachable.update [OF demo_started_reachable [OF m0], where r = "snd _"])
      (simp add: prod_eq_iff)
qed

theorem sync_counter_witness:
  "case demo_started_sync of None \<Rightarrow> False
   | Some m \<Rightarrow> 0 \<le> initSyncWG m \<and> initSyncWG m = 1 \<and> length (currencyPairs m) = 1"
proof -
  have d: "case demo_started_sync of None \<Rightarrow> False
     | Some m \<Rightarrow> initSyncWG m = 1 \<and> length (currencyPairs m) = 1"
    by code_simp
  then obtain m where m: "demo_started_sync = Some m" by (cases demo_started_sync) simp_all
  from sync_counter [OF demo_started_reachable [OF m]] d show ?thesis by (simp add: m)
qed

theorem initial_sync_witness:
  "case demo_synced of None \<Rightarrow> False | Some m \<Rightarrow> WaitForInitialSync (Some m) = Some None"
proof -
  have c: "case demo_synced of None \<Rightarrow> False | Some m \<Rightarrow> \<not> initSyncCompleted m"
    by code_simp
  have d: "case demo_synced of None \<Rightarrow> False | Some m \<Rightarrow> sy_started m \<and>
      list_all (\<lambda>c. list_all (\<lambda>t. \<not> item_enabled (sy_config m) t \<or> HaveData (get_item t c)) sync_types)
        (currencyPairs m)"
    by code_simp
  obtain m where m: "demo_synced = Some m" using c by (cases demo_synced) simp_all
  from initial_sync [OF demo_synced_reachable [OF m]] c d show ?thesis by (simp add: m)
qed

end
