(* ===== verification/Websocket_Routine.thy ===== *)
theory Websocket_Routine
  imports Sync_Manager Go_Rounding
begin

text \<open>
  The websocket routine manager of the FIX engine (\<open>fixengine/websocketroutine_manager.go\<close>): the list
  of handlers that get what the exchanges' websockets deliver, and the default handler, which passes
  tickers and order books on to the sync manager and the ticker store, and orders to the order
  manager.

  A handler is a value of a type \<open>'h\<close> and what it does a parameter.  The default handler keeps the
  pointer of an order it adds: the second half of its order branch then works on the stored order
  itself, which \<open>alias\<close> says.  Log output does not appear.
\<close>

section \<open>Handlers\<close>

definition errNilWebsocketDataHandlerFunction :: go_error where
  "errNilWebsocketDataHandlerFunction = Sentinel ''main.errNilWebsocketDataHandlerFunction''"
definition errNilWebsocket :: go_error where
  "errNilWebsocket = Sentinel ''main.errNilWebsocket''"
definition errRoutineManagerNotStarted :: go_error where
  "errRoutineManagerNotStarted = Sentinel ''main.errRoutineManagerNotStarted''"

record 'h routine_manager =
  wr_started :: bool
  wr_currencyConfig :: "pair_format option option"
  wr_dataHandlers :: "'h list"

definition setupWebsocketRoutineManager ::
    "bool \<Rightarrow> bool \<Rightarrow> pair_format option option \<Rightarrow> 'h routine_manager go_result" where
  "setupWebsocketRoutineManager hasExchangeManager hasSyncer cfg =
     (if \<not> hasExchangeManager then Inl (Sentinel ''main.errNilExchangeManager'')
      else if \<not> hasSyncer then Inl (Sentinel ''main.errNilCurrencyPairSyncer'')
      else
        (case cfg of
           None \<Rightarrow> Inl (Sentinel ''main.errNilCurrencyConfig'')
         | Some None \<Rightarrow> Inl (Sentinel ''main.errNilCurrencyPairFormat'')
         | Some (Some f) \<Rightarrow>
             Inr \<lparr>wr_started = False, wr_currencyConfig = cfg, wr_dataHandlers = []\<rparr>))"

definition wr_IsRunning :: "'h routine_manager option \<Rightarrow> bool" where
  "wr_IsRunning mo \<longleftrightarrow> (case mo of None \<Rightarrow> False | Some m \<Rightarrow> wr_started m)"

definition wr_Start :: "'h routine_manager option \<Rightarrow> 'h routine_manager option \<times> go_error option" where
  "wr_Start mo =
     (case mo of
        None \<Rightarrow> (None, Some (Errorf ''websocket routine manager %w'' [ErrNilSubsystem]))
      | Some m \<Rightarrow>
          (case wr_currencyConfig m of
             None \<Rightarrow> (mo, Some (Sentinel ''main.errNilCurrencyConfig''))
           | Some None \<Rightarrow> (mo, Some (Sentinel ''main.errNilCurrencyPairFormat''))
           | Some (Some f) \<Rightarrow>
               if wr_started m then (mo, Some ErrSubSystemAlreadyStarted)
               else (Some (m\<lparr>wr_started := True\<rparr>), None)))"

definition wr_Stop :: "'h routine_manager option \<Rightarrow> 'h routine_manager option \<times> go_error option" where
  "wr_Stop mo =
     (case mo of
        None \<Rightarrow> (None, Some (Errorf ''websocket routine manager %w'' [ErrNilSubsystem]))
      | Some m \<Rightarrow>
          if \<not> wr_started m
          then (mo, Some (Errorf ''websocket routine manager %w'' [ErrSubSystemNotStarted]))
          else (Some (m\<lparr>wr_started := False\<rparr>), None))"

definition wr_FormatCurrency :: "store \<Rightarrow> 'h routine_manager option \<Rightarrow> pair \<Rightarrow> pair" where
  "wr_FormatCurrency cs mo p =
     (case mo of
        None \<Rightarrow> p
      | Some m \<Rightarrow>
          if \<not> wr_started m then p
          else (case wr_currencyConfig m of
                  Some (Some f) \<Rightarrow> pair_Format p f
                | _ \<Rightarrow> p))"

definition setWebsocketDataHandler ::
    "'h option \<Rightarrow> 'h routine_manager option \<Rightarrow> 'h routine_manager option \<times> go_error option" where
  "setWebsocketDataHandler fn mo =
     (case mo of
        None \<Rightarrow> (None, Some (Errorf ''%T %w'' [ErrNilSubsystem]))
      | Some m \<Rightarrow>
          (case fn of
             None \<Rightarrow> (mo, Some errNilWebsocketDataHandlerFunction)
           | Some h \<Rightarrow> (Some (m\<lparr>wr_dataHandlers := [h]\<rparr>), None)))"

definition registerWebsocketDataHandler ::
    "'h option \<Rightarrow> bool \<Rightarrow> 'h routine_manager option \<Rightarrow>
     'h routine_manager option \<times> go_error option" where
  "registerWebsocketDataHandler fn interceptorOnly mo =
     (case mo of
        None \<Rightarrow> (None, Some (Errorf ''%T %w'' [ErrNilSubsystem]))
      | Some m \<Rightarrow>
          (case fn of
             None \<Rightarrow> (mo, Some errNilWebsocketDataHandlerFunction)
           | Some h \<Rightarrow>
               if interceptorOnly then setWebsocketDataHandler fn mo
               else (Some (m\<lparr>wr_dataHandlers := [h] @ wr_dataHandlers m\<rparr>), None)))"

text \<open>What the receiver of a websocket does with one message: every handler gets it, and an error is
  logged.  \<open>websocketDataReceiver\<close> itself starts the goroutine.\<close>

definition websocketDataReceiver :: "bool \<Rightarrow> 'h routine_manager option \<Rightarrow> go_error option" where
  "websocketDataReceiver hasWebsocket mo =
     (case mo of
        None \<Rightarrow> Some (Errorf ''websocket routine manager %w'' [ErrNilSubsystem])
      | Some m \<Rightarrow>
          if \<not> hasWebsocket then Some errNilWebsocket
          else if \<not> wr_started m then Some errRoutineManagerNotStarted
          else None)"

definition deliver :: "('h \<Rightarrow> 's \<Rightarrow> 's \<times> go_error option) \<Rightarrow> 'h list \<Rightarrow> 's \<Rightarrow> 's" where
  "deliver act hs s = fold (\<lambda>h s. fst (act h s)) hs s"

section \<open>The default handler\<close>

text \<open>What the handler reaches: the sync manager, the ticker store and the order manager.\<close>

record ('f, 'w) handler_state =
  hs_syncer :: sync_manager
  hs_tickers :: ticker_service
  hs_orders :: "('f, 'w) order_manager option"

text \<open>The order \<open>d\<close> of a message, whose pointer is in the store if \<open>alias\<close>: a change of it is a change
  of the stored order.\<close>

definition write_back :: "bool \<Rightarrow> detail \<Rightarrow> ('f, 'w) order_manager option \<Rightarrow> ('f, 'w) order_manager option" where
  "write_back alias d mo =
     (case mo of
        None \<Rightarrow> None
      | Some m \<Rightarrow>
          if \<not> alias then mo
          else
            (let name = ToLower (d_Exchange d); r = orders_of (om_store m) name
             in case order_at r (d_OrderID d) of
                  None \<Rightarrow> mo
                | Some x \<Rightarrow> Some (m\<lparr>om_store := set_orders name (r[x := d]) (om_store m)\<rparr>)))"

text \<open>One half of the branch: add the order, or merge it into a copy of the stored one and the copy
  into the stored one.\<close>

definition order_half ::
    "('e, 'f, 'w) manager_env \<Rightarrow> time \<Rightarrow> uuid go_result \<Rightarrow>
     ('f, 'w) order_manager option \<times> detail \<times> bool \<Rightarrow>
     (('f, 'w) order_manager option \<times> detail \<times> bool) \<times> go_error option" where
  "order_half env now v4 s =
     (case s of (mo, d, alias) \<Rightarrow>
        if \<not> om_Exists (Some d) mo then
          (case om_guard mo of
             Inl e \<Rightarrow> (s, Some e)
           | Inr m \<Rightarrow>
               (case os_add (en_exchanges env) (en_track env) v4 (en_v5 env) (Some d) (om_store m) of
                  (st, d', err) \<Rightarrow>
                    ((Some (m\<lparr>om_store := st\<rparr>), (case d' of None \<Rightarrow> d | Some d \<Rightarrow> d),
                      os_exists st d'), err)))
        else
          (case om_GetByExchangeAndID (d_Exchange d) (d_OrderID d) mo of
             Inl e \<Rightarrow> (s, Some e)
           | Inr od \<Rightarrow>
               (case UpdateOrderFromDetail (en_currency env) now (Some od) (Some d) of
                  (Some od, Some d, None) \<Rightarrow>
                    (case om_UpdateExistingOrder env now (Some od) (write_back alias d mo) of
                       (mo, err) \<Rightarrow>
                         ((mo, (if alias then (case mo of
                                    None \<Rightarrow> d
                                  | Some m \<Rightarrow> (case os_getByDetail (om_store m) (Some d) of
                                      None \<Rightarrow> d | Some d \<Rightarrow> d)) else d), alias), err))
                | (_, _, err) \<Rightarrow> (s, err))))"

text \<open>The branch has the block twice.\<close>

definition order_branch ::
    "('e, 'f, 'w) manager_env \<Rightarrow> time \<Rightarrow> uuid go_result \<Rightarrow> detail \<Rightarrow>
     ('f, 'w) order_manager option \<Rightarrow> ('f, 'w) order_manager option \<times> go_error option" where
  "order_branch env now v4 d mo =
     (case mo of
        None \<Rightarrow> (None, None)
      | Some m \<Rightarrow>
          (case order_half env now v4 (Some m, d, False) of
             ((mo, _, _), Some e) \<Rightarrow> (mo, Some e)
           | (s, None) \<Rightarrow>
               (case order_half env now v4 s of ((mo, _, _), err) \<Rightarrow> (mo, err))))"

definition ticker_branch ::
    "store \<Rightarrow> time \<Rightarrow> Dispatch.uuid go_result \<Rightarrow> Dispatch.uuid go_result \<Rightarrow> string \<Rightarrow> ticker_price \<Rightarrow>
     sync_manager \<Rightarrow> ticker_service \<Rightarrow> sync_manager \<times> ticker_service \<times> go_error option" where
  "ticker_branch cs now u1 u2 exchName d sy ts =
     (case (if sy_started sy
            then sy_Update now exchName (tp_Pair d) (tp_AssetType d) SyncItemTicker None (Some sy)
            else (Some sy, None)) of
        (syo, Some e) \<Rightarrow> ((case syo of None \<Rightarrow> sy | Some s \<Rightarrow> s), ts, Some e)
      | (syo, None) \<Rightarrow>
          (case ProcessTicker cs now u1 u2 ts (Some d) of
             (ts, _, err) \<Rightarrow> ((case syo of None \<Rightarrow> sy | Some s \<Rightarrow> s), ts, err)))"

definition depth_branch ::
    "time \<Rightarrow> string \<Rightarrow> depth \<Rightarrow> sync_manager \<Rightarrow> sync_manager \<times> go_error option" where
  "depth_branch now exchName d sy =
     (case depth_Retrieve d of
        Inl e \<Rightarrow> (sy, Some e)
      | Inr b \<Rightarrow>
          if \<not> sy_started sy then (sy, None)
          else
            (case sy_Update now exchName (bk_Pair b) (bk_Asset b) SyncItemOrderbook None (Some sy) of
               (syo, err) \<Rightarrow> ((case syo of None \<Rightarrow> sy | Some s \<Rightarrow> s), err)))"

definition default_handler ::
    "('e, 'f, 'w) manager_env \<Rightarrow> time \<Rightarrow> uuid go_result \<Rightarrow> Dispatch.uuid go_result \<Rightarrow>
     Dispatch.uuid go_result \<Rightarrow> string \<Rightarrow> websocket_data \<Rightarrow> ('f, 'w) handler_state \<Rightarrow>
     ('f, 'w) handler_state \<times> go_error option" where
  "default_handler env now v4 u1 u2 exchName data s =
     (case data of
        WsError e \<Rightarrow> (s, Some (Errorf ''exchange %s websocket error - %s'' []))
      | WsTicker d \<Rightarrow>
          (case ticker_branch (en_currency env) now u1 u2 exchName d (hs_syncer s) (hs_tickers s) of
             (sy, ts, err) \<Rightarrow> (s\<lparr>hs_syncer := sy, hs_tickers := ts\<rparr>, err))
      | WsDepth d \<Rightarrow>
          (case depth_branch now exchName d (hs_syncer s) of (sy, err) \<Rightarrow> (s\<lparr>hs_syncer := sy\<rparr>, err))
      | WsDetail d \<Rightarrow>
          (case order_branch env now v4 d (hs_orders s) of (mo, err) \<Rightarrow> (s\<lparr>hs_orders := mo\<rparr>, err))
      | WsClassificationError e \<Rightarrow> (s, Some (Errorf ''%w %s'' [e]))
      | _ \<Rightarrow> (s, None))"

section \<open>Lemmas\<close>

lemma feq_self: "\<not> feq x x \<longleftrightarrow> x = NaN"
  by (cases "x = NaN") (simp_all add: feq_refl)

lemma pair_Equal_refl: "pair_Equal p p"
  by (simp add: pair_Equal_iff)


lemma f64_positive_NaN: "\<not> ((0 :: f64) < x \<and> x = NaN)"
  by auto

lemma upd_miss: "\<not> c (fst s) \<Longrightarrow> upd c f s = s"
  by (simp add: upd_def)

lemma merge_fields_self: "d_Leverage d \<noteq> NaN \<Longrightarrow> merge_fields cs d d = (d, False)"
  unfolding merge_fields_def Let_def
  by (simp only: upd_miss feq_self pair_Equal_refl f64_positive_NaN fst_conv simp_thms)

lemma fill_identity_self: "fill_identity d d = d"
  by (simp add: fill_identity_def)

lemma no_trades: "d_Trades d = [] \<Longrightarrow> d\<lparr>d_Trades := []\<rparr> = (d :: detail)"
  by (cases d) simp

lemma update_self:
  assumes "d_Leverage d \<noteq> NaN" and "d_Trades d = []"
  shows "UpdateOrderFromDetail cs now (Some d) (Some d) = (Some d, Some d, None)"
  using assms
  by (simp add: UpdateOrderFromDetail_Some merge_fields_self upd_def feq_self Let_def no_trades
      set_updated_time_def fill_identity_self f64_positive_NaN)

lemma upd_AssetType [simp]:
  "(\<And>d. d_AssetType (f d) = d_AssetType d) \<Longrightarrow> d_AssetType (fst (upd c f s)) = d_AssetType (fst s)"
  by (simp add: upd_def)

lemma merge_fields_AssetType:
  "d_AssetType (fst (merge_fields cs m d)) =
     (if d_AssetType m \<noteq> Empty then d_AssetType m else d_AssetType d)"
  by (simp add: merge_fields_def Let_def upd_hit [of _ "\<lambda>d. d\<lparr>d_AssetType := x\<rparr>" for x])

lemma finishing_AssetType [simp]:
  "d_AssetType (fill_identity m d) = d_AssetType d"
  "d_AssetType (set_updated_time now t s) = d_AssetType (fst s)"
  by (simp_all add: fill_identity_def set_updated_time_def Let_def)

lemma merged_AssetType:
  "d_AssetType (merged cs now od d) =
     (if d_AssetType od \<noteq> Empty then d_AssetType od else d_AssetType d)"
  unfolding merged_def UpdateOrderFromDetail_Some
  by (simp only: Let_def prod.case option.case) (simp add: merge_fields_AssetType)

text \<open>An update of a stored order that is no future.\<close>

lemma spot_update:
  assumes "os_lookup s (ToLower (d_Exchange od), d_OrderID od) = Some d"
    and "\<not> asset_IsFutures (d_AssetType (merged cs now od d))"
  shows "\<exists>s' od'. os_updateExisting cs track now (Some od) s = (s', od', None) \<and>
    os_lookup s' = (os_lookup s)((ToLower (d_Exchange od), d_OrderID od) \<mapsto> merged cs now od d)"
proof -
  obtain r x where "map_of (Orders s) (ToLower (d_Exchange od)) = Some r"
    and "order_at r (d_OrderID od) = Some x" and r: "r ! x = d"
    using assms(1) by (auto simp: os_lookup_def orders_of_def split: option.split_asm)
  moreover obtain m' where "UpdateOrderFromDetail cs now (Some (r ! x)) (Some od) =
      (Some (merged cs now od d), Some m', None)"
    unfolding r using merged_result by blast
  ultimately obtain s' where s': "os_updateExisting cs track now (Some od) s = (s', Some m', None)"
    using assms(2) by (simp add: os_updateExisting_def tracked_change_def)
  with updateExisting_hit [OF assms(1), of cs track now] assms(2) show ?thesis
    by (auto simp: tracked_def)
qed

lemma write_back_stored:
  assumes "os_lookup (om_store m) (ToLower (d_Exchange d), d_OrderID d) \<noteq> None"
  shows "\<exists>s. write_back True d (Some m) = Some (m\<lparr>om_store := s\<rparr>) \<and>
    os_lookup s = (os_lookup (om_store m))((ToLower (d_Exchange d), d_OrderID d) \<mapsto> d)"
proof -
  obtain x where x: "order_at (orders_of (om_store m) (ToLower (d_Exchange d))) (d_OrderID d) = Some x"
    using assms by (auto simp: os_lookup_def)
  show ?thesis
    using os_lookup_replace [OF x]
    by (intro exI [of _ "set_orders (ToLower (d_Exchange d))
        ((orders_of (om_store m) (ToLower (d_Exchange d)))[x := d]) (om_store m)"])
      (simp add: write_back_def Let_def x)
qed

text \<open>The order after the second half: the message is the stored order, and its copy is merged into
  it.\<close>

definition merged_again :: "store \<Rightarrow> time \<Rightarrow> detail \<Rightarrow> detail" where
  "merged_again cs now d =
     merged cs now (merged cs now d d)
       (d\<lparr>d_RemainingAmount := remaining_after (d_RemainingAmount d) (d_Trades d)\<rparr>)"

lemma merged_again_keeps:
  "d_OrderID (merged_again cs now d) = d_OrderID d"
  "d_Exchange (merged_again cs now d) = d_Exchange d"
  "d_AssetType (merged_again cs now d) = d_AssetType d"
  by (simp_all add: merged_again_def merged_keeps merged_AssetType)

lemma merged_again_self:
  assumes "d_Leverage d \<noteq> NaN" and "d_Trades d = []"
  shows "merged_again cs now d = d"
proof -
  have "merged cs now d d = d" by (simp add: merged_def update_self [OF assms])
  moreover have "d\<lparr>d_RemainingAmount := d_RemainingAmount d\<rparr> = d" by simp
  ultimately show ?thesis using assms(2) by (simp add: merged_again_def)
qed

lemma half_known:
  assumes "om_started m"
    and "os_lookup (om_store m) (ToLower (d_Exchange d), d_OrderID d) = Some d"
    and "\<not> asset_IsFutures (d_AssetType d)"
  shows "\<exists>s'. (case order_half env now v4 (Some m, d, True) of
      ((mo, _), err) \<Rightarrow> mo = Some (m\<lparr>om_store := s'\<rparr>) \<and> err = None) \<and>
    os_lookup s' = (os_lookup (om_store m))
      ((ToLower (d_Exchange d), d_OrderID d) \<mapsto> merged_again (en_currency env) now d)"
proof -
  let ?k = "(ToLower (d_Exchange d), d_OrderID d)"
  let ?od = "merged (en_currency env) now d d"
  define d' where "d' = d\<lparr>d_RemainingAmount := remaining_after (d_RemainingAmount d) (d_Trades d)\<rparr>"
  have u: "UpdateOrderFromDetail (en_currency env) now (Some d) (Some d) = (Some ?od, Some d', None)"
    using merged_result [of "en_currency env" now d d] update_keeps(5) [of _ now d d]
    unfolding d'_def by (metis option.inject)
  obtain s where s: "write_back True d' (Some m) = Some (m\<lparr>om_store := s\<rparr>)"
      and ls: "os_lookup s = (os_lookup (om_store m))(?k \<mapsto> d')"
    using write_back_stored [of m d'] assms(2) by (auto simp: d'_def)
  have k: "d_OrderID ?od = d_OrderID d" "d_Exchange ?od = d_Exchange d" by (simp_all add: merged_keeps)
  have f: "\<not> asset_IsFutures (d_AssetType (merged_again (en_currency env) now d))"
    by (simp add: merged_again_keeps assms(3))
  obtain s' od' where s': "os_updateExisting (en_currency env) (en_track env) now (Some ?od) s =
      (s', od', None)"
    and ls': "os_lookup s' = (os_lookup s)(?k \<mapsto> merged_again (en_currency env) now d)"
    using spot_update [of s ?od d' "en_currency env" now "en_track env"] f ls
    by (auto simp: k merged_again_def d'_def)
  have "om_Exists (Some d) (Some m)"
    using assms by (simp add: om_Exists_def om_guard_def exists_lookup)
  moreover have "om_GetByExchangeAndID (d_Exchange d) (d_OrderID d) (Some m) = Inr d"
    using assms by (simp add: om_GetByExchangeAndID_def om_guard_def getByExchangeAndID_lookup)
  ultimately show ?thesis
    using assms(1) s s' ls ls'
    by (intro exI [of _ s'])
      (simp add: order_half_def u om_UpdateExistingOrder_def om_guard_def)
qed

lemma generated_fields [simp]:
  "d_Leverage (GenerateInternalOrderID v4 v5 d) = d_Leverage d"
  "d_Trades (GenerateInternalOrderID v4 v5 d) = d_Trades d"
  by (auto simp: GenerateInternalOrderID_def)

lemma half_new:
  fixes env :: "('e, 'f, 'w) manager_env"
  assumes "om_started m" and "\<not> isl (GetExchangeByName (en_exchanges env) (ToLower (d_Exchange d)))"
    and "os_lookup (om_store m) (ToLower (d_Exchange d), d_OrderID d) = None"
    and "\<not> asset_IsFutures (d_AssetType d)"
    and g_def: "g = GenerateInternalOrderID v4 (en_v5 env) d"
  shows "\<exists>s'. order_half env now v4 (Some m, d, False) = ((Some (m\<lparr>om_store := s'\<rparr>), g, True), None) \<and>
    os_lookup s' = (os_lookup (om_store m))((ToLower (d_Exchange d), d_OrderID d) \<mapsto> g)"
proof -
  let ?k = "ToLower (d_Exchange d)"
  obtain x where x: "GetExchangeByName (en_exchanges env) ?k = Inr x"
    using assms(2) by (cases "GetExchangeByName (en_exchanges env) ?k") auto
  have f: "\<not> asset_IsFutures (d_AssetType g)" by (simp add: g_def assms(4))
  define s' where "s' = set_orders ?k (orders_of (om_store m) ?k @ [g]) (om_store m)"
  have add: "os_add (en_exchanges env) (en_track env) v4 (en_v5 env) (Some d) (om_store m) =
      (s', Some g, None)"
    using assms(3,4) f by (simp add: os_add_def x order_at_lookup g_def [symmetric] s'_def Let_def)
  have l: "os_lookup s' = (os_lookup (om_store m))((?k, d_OrderID d) \<mapsto> g)"
    using os_lookup_append [of "om_store m" ?k g] assms(3)
    by (simp add: s'_def g_def order_at_lookup)
  have "\<not> om_Exists (Some d) (Some m)"
    using assms(1,3) by (simp add: om_Exists_def om_guard_def exists_lookup)
  moreover have "os_exists s' (Some g)" by (simp add: exists_lookup l g_def)
  ultimately show ?thesis
    using assms(1) add l by (intro exI [of _ s']) (simp add: order_half_def om_guard_def)
qed

section \<open>Properties\<close>

text \<open>What a sequence of registrations leaves: the handlers registered since the last interceptor,
  the newest first, and the interceptor last.\<close>

fun handlers_after :: "('h \<times> bool) list \<Rightarrow> 'h list \<Rightarrow> 'h list" where
  "handlers_after [] hs = hs"
| "handlers_after ((h, interceptor) # rs) hs =
     handlers_after rs (if interceptor then [h] else h # hs)"

text \<open>Also: handlers registered with the websocket routine are asked newest first: after
  any sequence of registrations they are the ones since the last interceptor in reverse order and
  then the interceptor, or all of them and then the old ones if there was none.\<close>

theorem stream_handlers:
  "case fold (\<lambda>(h, i) mo. fst (registerWebsocketDataHandler (Some h) i mo)) rs (Some m) of
     None \<Rightarrow> False
   | Some m' \<Rightarrow>
       m' = m\<lparr>wr_dataHandlers := wr_dataHandlers m'\<rparr> \<and>
       (let since = takeWhile (\<lambda>(h, i). \<not> i) (rev rs)
        in wr_dataHandlers m' =
             map fst since @
             (case drop (length since) (rev rs) of
                [] \<Rightarrow> wr_dataHandlers m
              | (h, _) # _ \<Rightarrow> [h]))"
proof (induction rs rule: rev_induct)
  case Nil
  show ?case by simp
next
  case (snoc r rs)
  obtain h i where r: "r = (h, i)" by fastforce
  from snoc show ?case
    by (auto simp: r registerWebsocketDataHandler_def setWebsocketDataHandler_def Let_def
        split: option.splits)
qed

text \<open>Trades that are merged into themselves stay.\<close>

lemma merge_trade_self: "fst (merge_trade x x) = x"
proof -
  have step: "fst s = x \<Longrightarrow> f x = x \<Longrightarrow> fst (upd c f s) = x" for c f s
    by (simp add: upd_def)
  show ?thesis
    unfolding merge_trade_def Let_def
    by (rule step | simp only: fst_conv | (cases x, simp))+
qed

lemma merge_into_self:
  assumes "x \<in> set ts" and "distinct (map th_TID ts)"
  shows "fst (merge_into x (ts, u)) = ts"
proof -
  let ?f = "\<lambda>y. if th_TID y \<noteq> th_TID x then (y, False) else merge_trade x y"
  have "inj_on th_TID (set ts)" using assms(2) by (simp add: distinct_map)
  then have "(fst \<circ> ?f) y = y" if "y \<in> set ts" for y
    using inj_onD [of th_TID "set ts" y x] that assms(1) merge_trade_self [of x]
    by (cases "th_TID y = th_TID x") simp_all
  then have "map (fst \<circ> ?f) ts = ts" by (intro map_idI) blast
  moreover have "list_ex (\<lambda>y. th_TID y = th_TID x) ts"
    using assms(1) by (auto simp: list_ex_iff)
  ultimately show ?thesis by (simp add: merge_into_def Let_def)
qed

lemma fold_merge_into_self:
  "set xs \<subseteq> set ts \<Longrightarrow> distinct (map th_TID ts) \<Longrightarrow> fst (fold merge_into xs (ts, u)) = ts"
proof (induction xs arbitrary: u)
  case (Cons x xs)
  then obtain u' where "merge_into x (ts, u) = (ts, u')"
    using merge_into_self [of x ts u] by (cases "merge_into x (ts, u)") simp
  with Cons show ?case by simp
qed simp

lemma merged_Trades_fold:
  "d_Trades (merged cs now od d) =
     fst (fold merge_into (d_Trades od) (d_Trades d, snd (merge_fields cs od d)))"
  unfolding merged_def UpdateOrderFromDetail_Some Let_def prod.case option.case
  by (simp only: finishing_simps updated_time_simps) (simp add: upd_def)

lemma merged_Trades:
  assumes "d_Trades od = d_Trades d" and "distinct (map th_TID (d_Trades d))"
  shows "d_Trades (merged cs now od d) = d_Trades d"
  by (simp add: merged_Trades_fold assms fold_merge_into_self)

lemma merged_again_Trades:
  assumes "distinct (map th_TID (d_Trades d))"
  shows "d_Trades (merged_again cs now d) = d_Trades d"
    "d_RemainingAmount (merged_again cs now d) =
       (let ts = d_Trades d;
            r1 = remaining_after (d_RemainingAmount d) ts;
            r2 = (if 0 < r1 \<and> \<not> feq r1 (d_RemainingAmount d) then r1 else d_RemainingAmount d);
            r3 = remaining_after r2 ts
        in if 0 < r3 \<and> \<not> feq r3 r1 then r3 else r1)"
  using assms by (simp_all add: merged_again_def merged_Trades merged_RemainingAmount Let_def)

lemma generated_RemainingAmount [simp]:
  "d_RemainingAmount (GenerateInternalOrderID v4 v5 d) = d_RemainingAmount d"
  by (auto simp: GenerateInternalOrderID_def)

text \<open>What the handler leaves of an order that is new to the store.\<close>

lemma streamed_order:
  fixes env :: "('e, 'f, 'w) manager_env"
  assumes "hs_orders s = Some m" and "om_started m"
    and "\<not> isl (GetExchangeByName (en_exchanges env) (ToLower (d_Exchange d)))"
    and "os_lookup (om_store m) (ToLower (d_Exchange d), d_OrderID d) = None"
    and "\<not> asset_IsFutures (d_AssetType d)"
  shows "case default_handler env now v4 u1 u2 name (WsDetail d) s of
     (s', err) \<Rightarrow>
       err = None \<and> hs_syncer s' = hs_syncer s \<and> hs_tickers s' = hs_tickers s \<and>
       (case hs_orders s' of
          None \<Rightarrow> False
        | Some m' \<Rightarrow> os_lookup (om_store m') = (os_lookup (om_store m))
            ((ToLower (d_Exchange d), d_OrderID d) \<mapsto>
               merged_again (en_currency env) now (GenerateInternalOrderID v4 (en_v5 env) d)))"
proof -
  let ?g = "GenerateInternalOrderID v4 (en_v5 env) d"
  obtain t where t: "order_half env now v4 (Some m, d, False) =
      ((Some (m\<lparr>om_store := t\<rparr>), ?g, True), None)"
    and l: "os_lookup t = (os_lookup (om_store m))((ToLower (d_Exchange d), d_OrderID d) \<mapsto> ?g)"
    using half_new [OF assms(2-5) refl] by blast
  obtain t' d' a where t': "order_half env now v4 (Some (m\<lparr>om_store := t\<rparr>), ?g, True) =
      ((Some (m\<lparr>om_store := t'\<rparr>), d', a), None)"
    and l': "os_lookup t' = (os_lookup t)((ToLower (d_Exchange d), d_OrderID d) \<mapsto>
      merged_again (en_currency env) now ?g)"
    using half_known [of "m\<lparr>om_store := t\<rparr>" ?g env now v4] assms(2,5) l
    by (cases "order_half env now v4 (Some (m\<lparr>om_store := t\<rparr>), ?g, True)") auto
  have "order_branch env now v4 d (Some m) = (Some (m\<lparr>om_store := t'\<rparr>), None)"
    by (simp add: order_branch_def t t')
  then show ?thesis
    using assms(1) l l' by (simp add: default_handler_def)
qed

text \<open>Also: an order that a websocket delivers for the first time, without trades, is
  stored as it is with its internal order id: the second copy of the branch in the default handler,
  which merges the order into itself, changes nothing.\<close>

theorem streamed_new_order:
  fixes env :: "('e, 'f, 'w) manager_env"
  assumes "hs_orders s = Some m" and "om_started m"
    and "\<not> isl (GetExchangeByName (en_exchanges env) (ToLower (d_Exchange d)))"
    and "os_lookup (om_store m) (ToLower (d_Exchange d), d_OrderID d) = None"
    and "\<not> asset_IsFutures (d_AssetType d)" and "d_Leverage d \<noteq> NaN" and "d_Trades d = []"
  shows "case default_handler env now v4 u1 u2 name (WsDetail d) s of
     (s', err) \<Rightarrow>
       err = None \<and> hs_syncer s' = hs_syncer s \<and> hs_tickers s' = hs_tickers s \<and>
       (case hs_orders s' of
          None \<Rightarrow> False
        | Some m' \<Rightarrow> os_lookup (om_store m') = (os_lookup (om_store m))
            ((ToLower (d_Exchange d), d_OrderID d) \<mapsto> GenerateInternalOrderID v4 (en_v5 env) d))"
  using streamed_order [OF assms(1-5), of now v4 u1 u2 name] assms(6,7)
  by (auto simp: merged_again_self split: prod.splits option.splits)

text \<open>Also: a new order with trades, which have different ids, is stored with its trades,
  but their amounts are subtracted from its remaining amount twice: the second copy of the branch
  subtracts them from the message, which by then is the stored order, and again from the copy of it
  that is merged into it.\<close>

theorem streamed_trades:
  fixes env :: "('e, 'f, 'w) manager_env"
  assumes "hs_orders s = Some m" and "om_started m"
    and "\<not> isl (GetExchangeByName (en_exchanges env) (ToLower (d_Exchange d)))"
    and "os_lookup (om_store m) (ToLower (d_Exchange d), d_OrderID d) = None"
    and "\<not> asset_IsFutures (d_AssetType d)" and "distinct (map th_TID (d_Trades d))"
  shows "case hs_orders (fst (default_handler env now v4 u1 u2 name (WsDetail d) s)) of
     None \<Rightarrow> False
   | Some m' \<Rightarrow>
       (case os_lookup (om_store m') (ToLower (d_Exchange d), d_OrderID d) of
          None \<Rightarrow> False
        | Some e \<Rightarrow>
            d_Trades e = d_Trades d \<and>
            d_RemainingAmount e =
              (let r1 = remaining_after (d_RemainingAmount d) (d_Trades d);
                   r2 = (if 0 < r1 \<and> \<not> feq r1 (d_RemainingAmount d) then r1 else d_RemainingAmount d);
                   r3 = remaining_after r2 (d_Trades d)
               in if 0 < r3 \<and> \<not> feq r3 r1 then r3 else r1))"
  using streamed_order [OF assms(1-5), of now v4 u1 u2 name] assms(6)
  by (auto simp: merged_again_Trades Let_def split: prod.splits option.splits)

definition streamed_detail :: detail where
  "streamed_detail = demo_detail\<lparr>d_Exchange := ''Kraken'', d_OrderID := ''t1'', d_RemainingAmount := Fin 7\<rparr>"

definition streamed_trade :: trade_history where
  "streamed_trade =
     \<lparr>th_Price = Fin 1, th_Amount = Fin 3, th_Fee = Fin 0, th_Exchange = [], th_TID = ''x'',
      th_Description = [], th_Type = 0, th_Side = 0, th_Timestamp = 0, th_IsMaker = False,
      th_FeeAsset = [], th_Total = Fin 0\<rparr>"

definition demo_handler_state :: "(unit, unit) handler_state" where
  "demo_handler_state =
     \<lparr>hs_syncer = demo_fresh_sync, hs_tickers = demo_service, hs_orders = Some demo_order_manager\<rparr>"

lemma demo_handler:
  "hs_orders demo_handler_state = Some demo_order_manager" "om_started demo_order_manager"
  "en_v5 demo_env = demo_v5"
  by (simp_all add: demo_handler_state_def demo_order_manager_def demo_env_def)

lemma streamed_detail_simps:
  "\<not> isl (GetExchangeByName (en_exchanges demo_env) (ToLower (d_Exchange streamed_detail)))"
  "os_lookup (om_store demo_order_manager) (ToLower (d_Exchange streamed_detail), d_OrderID streamed_detail) = None"
  "\<not> asset_IsFutures (d_AssetType streamed_detail)" "d_Leverage streamed_detail \<noteq> NaN"
  "d_Trades streamed_detail = []" "ToLower (d_Exchange streamed_detail) = ''kraken''"
  "d_OrderID streamed_detail = ''t1''" "d_RemainingAmount streamed_detail = Fin 7"
  by code_simp+

lemma int_difference:
  assumes "0 \<le> a" and "\<bar>a - b\<bar> \<le> 2 ^ 53" and "0 < b"
  shows "Fin (of_int a) - Fin (of_int b) = Fin (of_int (a - b))"
  using assms fround_exact_pos [OF representable_int [OF assms(2)]]
  by (simp add: minus_f64_def fadd_def not_less)

theorem streamed_new_order_witness:
  "case default_handler demo_env 5 (Inr 9) (Inr 1) (Inr 2) ''Kraken'' (WsDetail streamed_detail)
       demo_handler_state of
     (s', err) \<Rightarrow>
       err = None \<and>
       (case hs_orders s' of
          None \<Rightarrow> False
        | Some m' \<Rightarrow> os_lookup (om_store m') = (os_lookup demo_store)
            ((''kraken'', ''t1'') \<mapsto> GenerateInternalOrderID (Inr 9) demo_v5 streamed_detail))"
  using streamed_new_order [OF demo_handler(1,2) streamed_detail_simps(1-5),
      of "Inr 9" 5 "Inr 1" "Inr 2" "''Kraken''"]
  unfolding streamed_detail_simps demo_order_manager_store demo_handler
  by (auto split: prod.split_asm option.split_asm)

theorem streamed_trades_witness:
  "case hs_orders (fst (default_handler demo_env 5 (Inr 9) (Inr 1) (Inr 2) ''Kraken''
       (WsDetail (streamed_detail\<lparr>d_Trades := [streamed_trade]\<rparr>)) demo_handler_state)) of
     None \<Rightarrow> False
   | Some m' \<Rightarrow>
       map_option d_RemainingAmount (os_lookup (om_store m') (''kraken'', ''t1'')) = Some (Fin 1)"
proof -
  let ?d = "streamed_detail\<lparr>d_Trades := [streamed_trade]\<rparr>"
  have 1: "\<not> isl (GetExchangeByName (en_exchanges demo_env) (ToLower (d_Exchange ?d)))"
    and 2: "os_lookup (om_store demo_order_manager) (ToLower (d_Exchange ?d), d_OrderID ?d) = None"
    and 3: "\<not> asset_IsFutures (d_AssetType ?d)"
    using streamed_detail_simps by simp_all
  have r: "remaining_after (Fin 7) [streamed_trade] = Fin 4" "remaining_after (Fin 4) [streamed_trade] = Fin 1"
    "(0 :: f64) < Fin 4 \<and> \<not> feq (Fin 4) (Fin 7)" "(0 :: f64) < Fin 1 \<and> \<not> feq (Fin 1) (Fin 4)"
    using int_difference [of 7 3] int_difference [of 4 3]
    by (simp_all add: streamed_trade_def zero_f64_def less_f64_def flt_def feq_def)
  show ?thesis
    using streamed_trades [OF demo_handler(1,2) 1 2 3, of 5 "Inr 9" "Inr 1" "Inr 2" "''Kraken''"] r
    by (auto simp: streamed_detail_simps Let_def split: option.split_asm)
qed

end
