(* ===== verification/Pairs_Manager.thy ===== *)
theory Pairs_Manager
  imports Currency_Pairs "HOL-Library.AList"
begin

text \<open>
  The pairs of an exchange by asset type (\<open>currency/manager.go\<close>, \<open>manager_types.go\<close>): the stores of
  enabled and available pairs, their formats, and the index that finds an available pair by its symbol.

  A map of stores is an association list, in whose order a loop over it runs: Go runs in any order, so
  the operations that loop take the list in the order of the run as an argument \<open>order\<close>.  A store may be
  a nil pointer, which configuration files can give; \<open>None\<close> as a result is the panic on it.  The index
  holds pointers into the slice of available pairs: an entry is the position in the slice of its asset
  type with the pair that is there.

  The lemmas show when the index finds what is available, and what enabling and disabling do.
\<close>

section \<open>Types\<close>

record pair_store =
  ps_AssetEnabled :: "bool option"
  ps_Enabled :: "pair list"
  ps_Available :: "pair list"
  ps_RequestFormat :: "pair_format option"
  ps_ConfigFormat :: "pair_format option"

type_synonym full_store = "(asset_item \<times> pair_store option) list"
type_synonym pm_key = "string \<times> asset_item"
type_synonym matcher = "pm_key \<rightharpoonup> nat \<times> pair"

record pairs_manager =
  pm_BypassConfigFormatUpgrades :: bool
  pm_RequestFormat :: "pair_format option"
  pm_ConfigFormat :: "pair_format option"
  pm_UseGlobalFormat :: bool
  pm_LastUpdated :: int
  pm_Pairs :: "full_store option"
  pm_matcher :: "matcher option"

definition empty_store_of_pairs :: pair_store where
  "empty_store_of_pairs =
     \<lparr>ps_AssetEnabled = None, ps_Enabled = [], ps_Available = [], ps_RequestFormat = None,
      ps_ConfigFormat = None\<rparr>"

definition new_manager :: pairs_manager where
  "new_manager =
     \<lparr>pm_BypassConfigFormatUpgrades = False, pm_RequestFormat = None, pm_ConfigFormat = None,
      pm_UseGlobalFormat = False, pm_LastUpdated = 0, pm_Pairs = None, pm_matcher = None\<rparr>"

definition ErrAssetAlreadyEnabled :: go_error where
  "ErrAssetAlreadyEnabled = Sentinel ''currency.ErrAssetAlreadyEnabled''"
definition ErrAssetIsNil :: go_error where
  "ErrAssetIsNil = Sentinel ''currency.ErrAssetIsNil''"
definition ErrAssetNotFound :: go_error where
  "ErrAssetNotFound = Sentinel ''currency.ErrAssetNotFound''"
definition ErrPairAlreadyEnabled :: go_error where
  "ErrPairAlreadyEnabled = Sentinel ''currency.ErrPairAlreadyEnabled''"
definition ErrPairFormatIsNil :: go_error where
  "ErrPairFormatIsNil = Sentinel ''currency.ErrPairFormatIsNil''"
definition ErrPairManagerNotInitialised :: go_error where
  "ErrPairManagerNotInitialised = Sentinel ''currency.ErrPairManagerNotInitialised''"
definition ErrSymbolStringEmpty :: go_error where
  "ErrSymbolStringEmpty = Sentinel ''currency.ErrSymbolStringEmpty''"
definition errPairStoreIsNil :: go_error where
  "errPairStoreIsNil = Sentinel ''currency.errPairStoreIsNil''"
definition errPairMatcherIsNil :: go_error where
  "errPairMatcherIsNil = Sentinel ''currency.errPairMatcherIsNil''"
definition errPairConfigFormatNil :: go_error where
  "errPairConfigFormatNil = Sentinel ''currency.errPairConfigFormatNil''"
definition asset_ErrNotEnabled :: go_error where
  "asset_ErrNotEnabled = Sentinel ''asset.ErrNotEnabled''"

section \<open>Access\<close>

text \<open>A nil map reads like an empty one.\<close>

definition stores :: "pairs_manager \<Rightarrow> full_store" where
  "stores m = (case pm_Pairs m of None \<Rightarrow> [] | Some fs \<Rightarrow> fs)"

definition getPairStoreRequiresLock :: "pairs_manager \<Rightarrow> asset_item \<Rightarrow> pair_store go_result" where
  "getPairStoreRequiresLock m a =
     (case pm_Pairs m of
        None \<Rightarrow> Inl (Errorf ''%w when requesting %v pairs'' [ErrPairManagerNotInitialised])
      | Some fs \<Rightarrow>
          (case map_of fs a of
             None \<Rightarrow> Inl (Errorf ''%w %w %v'' [ErrAssetNotFound, asset_ErrNotSupported])
           | Some None \<Rightarrow> Inl (Errorf ''currency store is nil'' [])
           | Some (Some ps) \<Rightarrow> Inr ps))"

text \<open>A write through the pointer to the store of an asset type.\<close>

definition put_store :: "asset_item \<Rightarrow> pair_store \<Rightarrow> pairs_manager \<Rightarrow> pairs_manager" where
  "put_store a ps m = m\<lparr>pm_Pairs := Some (AList.update a (Some ps) (stores m))\<rparr>"

definition store_clone :: "pair_store option \<Rightarrow> pair_store option" where
  "store_clone pso =
     (case pso of
        None \<Rightarrow> None
      | Some ps \<Rightarrow>
          Some \<lparr>ps_AssetEnabled = ps_AssetEnabled ps, ps_Enabled = ps_Enabled ps,
                ps_Available = ps_Available ps, ps_RequestFormat = format_clone (ps_RequestFormat ps),
                ps_ConfigFormat = format_clone (ps_ConfigFormat ps)\<rparr>)"

definition full_store_clone :: "full_store \<Rightarrow> full_store" where
  "full_store_clone fs = map (\<lambda>(a, ps). (a, store_clone ps)) fs"

section \<open>The index\<close>

definition symbol_key :: "store \<Rightarrow> pair \<Rightarrow> string" where
  "symbol_key cs p = code_String cs (code_Lower (Base p)) @ code_String cs (code_Lower (Quote p))"

fun index_pairs :: "store \<Rightarrow> asset_item \<Rightarrow> nat \<Rightarrow> pair list \<Rightarrow> matcher \<Rightarrow> matcher" where
  "index_pairs cs a i [] mt = mt"
| "index_pairs cs a i (p # ps) mt = index_pairs cs a (Suc i) ps (mt((symbol_key cs p, a) \<mapsto> (i, p)))"

fun reindex_loop :: "store \<Rightarrow> full_store \<Rightarrow> matcher \<Rightarrow> matcher option" where
  "reindex_loop cs [] mt = Some mt"
| "reindex_loop cs ((a, None) # fs) mt = None"
| "reindex_loop cs ((a, Some ps) # fs) mt = reindex_loop cs fs (index_pairs cs a 0 (ps_Available ps) mt)"

definition reindex :: "store \<Rightarrow> pairs_manager \<Rightarrow> pairs_manager option" where
  "reindex cs m =
     (case reindex_loop cs (stores m) Map.empty of
        None \<Rightarrow> None
      | Some mt \<Rightarrow> Some (m\<lparr>pm_matcher := Some mt\<rparr>))"

definition Match :: "pairs_manager \<Rightarrow> string \<Rightarrow> asset_item \<Rightarrow> pair go_result" where
  "Match m symbol a =
     (if symbol = [] then Inl ErrSymbolStringEmpty
      else
        (case pm_matcher m of
           None \<Rightarrow> Inl errPairMatcherIsNil
         | Some mt \<Rightarrow>
             (case mt (ToLower symbol, a) of
                None \<Rightarrow> Inl (Errorf ''%w for %v %v'' [ErrPairNotFound])
              | Some (_, p) \<Rightarrow> Inr p)))"

section \<open>Reads\<close>

definition pm_GetAssetTypes :: "full_store \<Rightarrow> bool \<Rightarrow> asset_item list option" where
  "pm_GetAssetTypes order en =
     (if en \<and> list_ex (\<lambda>(a, ps). ps = None) order then None
      else Some (map fst (filter (\<lambda>(a, ps). \<not> (en \<and> ps_AssetEnabled (the ps) \<noteq> Some True)) order)))"

definition pm_Get :: "pairs_manager \<Rightarrow> asset_item \<Rightarrow> pair_store option go_result" where
  "pm_Get m a =
     (if \<not> asset_IsValid a then Inl (Errorf ''%s %w'' [asset_ErrNotSupported])
      else
        (case map_of (stores m) a of
           None \<Rightarrow> Inl (Errorf ''cannot get pair store, %v %w'' [asset_ErrNotSupported])
         | Some c \<Rightarrow> Inr (store_clone c)))"

text \<open>The enabled pairs come with an error when they are not all available.\<close>

definition GetPairs :: "pairs_manager \<Rightarrow> asset_item \<Rightarrow> bool \<Rightarrow> (pair list \<times> go_error option) option" where
  "GetPairs m a en =
     (if \<not> asset_IsValid a then Some ([], Some (Errorf ''%s %w'' [asset_ErrNotSupported]))
      else
        (case map_of (stores m) a of
           None \<Rightarrow> Some ([], None)
         | Some None \<Rightarrow> None
         | Some (Some ps) \<Rightarrow>
             if \<not> en then Some (ps_Available ps, None)
             else if length (ps_Enabled ps) = 0 then Some ([], None)
             else
               (let err = ContainsAll (ps_Available ps) (ps_Enabled ps) True
                in Some (ps_Enabled ps, map_option (\<lambda>e. Errorf ''%w of asset type %s'' [e]) err))))"

definition GetFormat :: "pairs_manager \<Rightarrow> asset_item \<Rightarrow> bool \<Rightarrow> pair_format go_result" where
  "GetFormat m a req =
     (case (if pm_UseGlobalFormat m
            then Inr (if req then pm_RequestFormat m else pm_ConfigFormat m)
            else map_sum id (\<lambda>ps. if req then ps_RequestFormat ps else ps_ConfigFormat ps)
                   (getPairStoreRequiresLock m a)) of
        Inl err \<Rightarrow> Inl err
      | Inr None \<Rightarrow> Inl ErrPairFormatIsNil
      | Inr (Some f) \<Rightarrow> Inr f)"

text \<open>\<open>IsPairAvailable\<close> and \<open>IsPairEnabled\<close> differ in the list they look in.\<close>

definition pair_listed :: "(pair_store \<Rightarrow> pair list) \<Rightarrow> store \<Rightarrow> pairs_manager \<Rightarrow> pair \<Rightarrow> asset_item \<Rightarrow> bool go_result" where
  "pair_listed f cs m p a =
     (if \<not> asset_IsValid a then Inl (Errorf ''%s %w'' [asset_ErrNotSupported])
      else if pair_IsEmpty cs p then Inl ErrCurrencyPairEmpty
      else
        (case getPairStoreRequiresLock m a of
           Inl err \<Rightarrow> Inl err
         | Inr ps \<Rightarrow>
             (case ps_AssetEnabled ps of
                None \<Rightarrow> Inl (Errorf ''%s %w'' [ErrAssetIsNil])
              | Some e \<Rightarrow> Inr (e \<and> pairs_Contains (f ps) p True))))"

definition IsPairAvailable :: "store \<Rightarrow> pairs_manager \<Rightarrow> pair \<Rightarrow> asset_item \<Rightarrow> bool go_result" where
  "IsPairAvailable = pair_listed ps_Available"

definition IsPairEnabled :: "store \<Rightarrow> pairs_manager \<Rightarrow> pair \<Rightarrow> asset_item \<Rightarrow> bool go_result" where
  "IsPairEnabled = pair_listed ps_Enabled"

definition IsAssetEnabled :: "pairs_manager \<Rightarrow> asset_item \<Rightarrow> go_error option" where
  "IsAssetEnabled m a =
     (if \<not> asset_IsValid a then Some (Errorf ''%s %w'' [asset_ErrNotSupported])
      else
        (case getPairStoreRequiresLock m a of
           Inl err \<Rightarrow> Some err
         | Inr ps \<Rightarrow>
             (case ps_AssetEnabled ps of
                None \<Rightarrow> Some (Errorf ''%s %w'' [ErrAssetIsNil])
              | Some False \<Rightarrow> Some (Errorf ''%s %w'' [asset_ErrNotEnabled])
              | Some True \<Rightarrow> None)))"

definition IsAssetSupported :: "pairs_manager \<Rightarrow> asset_item \<Rightarrow> bool" where
  "IsAssetSupported m a \<longleftrightarrow> map_of (stores m) a \<noteq> None"

section \<open>Changes\<close>

text \<open>An operation returns the manager and its error; \<open>None\<close> is a panic.\<close>

definition pm_Store ::
    "store \<Rightarrow> asset_item \<Rightarrow> pair_store option \<Rightarrow> pairs_manager \<Rightarrow> (pairs_manager \<times> go_error option) option" where
  "pm_Store cs a pso m =
     (if \<not> asset_IsValid a then Some (m, Some (Errorf ''%s %w'' [asset_ErrNotSupported]))
      else
        (case store_clone pso of
           None \<Rightarrow> Some (m, Some errPairStoreIsNil)
         | Some ps \<Rightarrow> map_option (\<lambda>m. (m, None)) (reindex cs (put_store a ps m))))"

definition pm_Delete :: "store \<Rightarrow> asset_item \<Rightarrow> pairs_manager \<Rightarrow> pairs_manager option" where
  "pm_Delete cs a m =
     (case map_of (stores m) a of
        None \<Rightarrow> Some m
      | Some None \<Rightarrow> None
      | Some (Some ps) \<Rightarrow>
          Some (m\<lparr>pm_matcher :=
                    map_option (\<lambda>mt. fold (\<lambda>p mt. mt((symbol_key cs p, a) := None)) (ps_Available ps) mt)
                      (pm_matcher m),
                  pm_Pairs := Some (AList.delete a (stores m))\<rparr>))"

text \<open>The store of an asset type, made if there is none; \<open>None\<close> is a nil store.\<close>

definition store_or_new :: "pairs_manager \<Rightarrow> asset_item \<Rightarrow> pair_store option" where
  "store_or_new m a =
     (case map_of (stores m) a of None \<Rightarrow> Some empty_store_of_pairs | Some pso \<Rightarrow> pso)"

definition StoreFormat ::
    "asset_item \<Rightarrow> pair_format option \<Rightarrow> bool \<Rightarrow> pairs_manager \<Rightarrow> (pairs_manager \<times> go_error option) option" where
  "StoreFormat a pFmt config m =
     (if \<not> asset_IsValid a then Some (m, Some (Errorf ''%s %w'' [asset_ErrNotSupported]))
      else if pFmt = None then Some (m, Some ErrPairFormatIsNil)
      else
        (case store_or_new m a of
           None \<Rightarrow> None
         | Some ps \<Rightarrow>
             Some (put_store a
               (if config then ps\<lparr>ps_ConfigFormat := format_clone pFmt\<rparr>
                else ps\<lparr>ps_RequestFormat := format_clone pFmt\<rparr>) m, None)))"

definition StorePairs ::
    "store \<Rightarrow> asset_item \<Rightarrow> pair list \<Rightarrow> bool \<Rightarrow> pairs_manager \<Rightarrow> (pairs_manager \<times> go_error option) option" where
  "StorePairs cs a pairs en m =
     (if \<not> asset_IsValid a then Some (m, Some (Errorf ''%s %w'' [asset_ErrNotSupported]))
      else
        (case store_or_new m a of
           None \<Rightarrow> None
         | Some ps \<Rightarrow>
             if en then Some (put_store a (ps\<lparr>ps_Enabled := pairs\<rparr>) m, None)
             else map_option (\<lambda>m. (m, None)) (reindex cs (put_store a (ps\<lparr>ps_Available := pairs\<rparr>) m))))"

text \<open>Both loops of \<open>EnsureOnePairEnabled\<close> skip the asset types that are not enabled or have no
  available pair; the second takes the first that is left.\<close>

definition usable_store :: "pair_store \<Rightarrow> bool" where
  "usable_store ps \<longleftrightarrow> ps_AssetEnabled ps = Some True \<and> length (ps_Available ps) \<noteq> 0"

definition ps_EnsureOnePairEnabled ::
    "(nat \<Rightarrow> nat) \<Rightarrow> full_store \<Rightarrow> full_store \<Rightarrow> pairs_manager option \<Rightarrow>
     (pairs_manager option \<times> pair \<times> asset_item \<times> go_error option) option" where
  "ps_EnsureOnePairEnabled intn order1 order2 mo =
     (case mo of
        None \<Rightarrow> Some (None, EMPTYPAIR, Empty, Some (Sentinel ''common.ErrNilPointer''))
      | Some m \<Rightarrow>
          (case find (\<lambda>(a, ps). ps = None \<or> (usable_store (the ps) \<and> ps_Enabled (the ps) \<noteq> [])) order1 of
             Some (_, None) \<Rightarrow> None
           | Some (_, Some _) \<Rightarrow> Some (mo, EMPTYPAIR, Empty, None)
           | None \<Rightarrow>
               (case find (\<lambda>(a, ps). usable_store (the ps)) order2 of
                  Some (a, Some ps) \<Rightarrow>
                    (case GetRandomPair intn (ps_Available ps) of
                       Inl err \<Rightarrow> Some (mo, EMPTYPAIR, Empty, Some err)
                     | Inr rp \<Rightarrow>
                         Some (Some (put_store a (ps\<lparr>ps_Enabled := pairs_Add (ps_Enabled ps) [rp]\<rparr>) m), rp, a, None))
                | _ \<Rightarrow> Some (mo, EMPTYPAIR, Empty, Some ErrCurrencyPairsEmpty))))"

definition DisablePair :: "store \<Rightarrow> asset_item \<Rightarrow> pair \<Rightarrow> pairs_manager \<Rightarrow> pairs_manager \<times> go_error option" where
  "DisablePair cs a p m =
     (if \<not> asset_IsValid a then (m, Some (Errorf ''%s %w'' [asset_ErrNotSupported]))
      else if pair_IsEmpty cs p then (m, Some ErrCurrencyPairEmpty)
      else
        (case getPairStoreRequiresLock m a of
           Inl err \<Rightarrow> (m, Some err)
         | Inr ps \<Rightarrow>
             (let enabledLen = length (ps_Enabled ps);
                  ps = ps\<lparr>ps_Enabled := pairs_Remove (ps_Enabled ps) [p]\<rparr>
              in (put_store a ps m,
                  if enabledLen = length (ps_Enabled ps) then Some (Errorf ''%w %s'' [ErrPairNotFound])
                  else None))))"

definition EnablePair :: "store \<Rightarrow> asset_item \<Rightarrow> pair \<Rightarrow> pairs_manager \<Rightarrow> pairs_manager \<times> go_error option" where
  "EnablePair cs a p m =
     (if \<not> asset_IsValid a then (m, Some (Errorf ''%s %w'' [asset_ErrNotSupported]))
      else if pair_IsEmpty cs p then (m, Some ErrCurrencyPairEmpty)
      else
        (case getPairStoreRequiresLock m a of
           Inl err \<Rightarrow> (m, Some err)
         | Inr ps \<Rightarrow>
             if pairs_Contains (ps_Enabled ps) p True
             then (m, Some (Errorf ''%s %w'' [ErrPairAlreadyEnabled]))
             else if \<not> pairs_Contains (ps_Available ps) p True
             then (m, Some (Errorf ''%s %w in the list of available pairs'' [ErrPairNotFound]))
             else (put_store a (ps\<lparr>ps_Enabled := pairs_Add (ps_Enabled ps) [p]\<rparr>) m, None)))"

definition SetAssetEnabled :: "asset_item \<Rightarrow> bool \<Rightarrow> pairs_manager \<Rightarrow> pairs_manager \<times> go_error option" where
  "SetAssetEnabled a en m =
     (if \<not> asset_IsValid a then (m, Some (Errorf ''%s %w'' [asset_ErrNotSupported]))
      else
        (case getPairStoreRequiresLock m a of
           Inl err \<Rightarrow> (m, Some err)
         | Inr ps \<Rightarrow>
             (case ps_AssetEnabled ps of
                None \<Rightarrow> (put_store a (ps\<lparr>ps_AssetEnabled := Some en\<rparr>) m, None)
              | Some e \<Rightarrow>
                  if \<not> e \<and> \<not> en then (m, Some (Errorf ''asset already disabled'' []))
                  else if e \<and> en then (m, Some ErrAssetAlreadyEnabled)
                  else (put_store a (ps\<lparr>ps_AssetEnabled := Some en\<rparr>) m, None))))"

definition pm_Load :: "store \<Rightarrow> pairs_manager \<Rightarrow> pairs_manager \<Rightarrow> pairs_manager option" where
  "pm_Load cs seed m =
     reindex cs
       (m\<lparr>pm_BypassConfigFormatUpgrades := pm_BypassConfigFormatUpgrades seed,
          pm_UseGlobalFormat := pm_UseGlobalFormat seed, pm_LastUpdated := pm_LastUpdated seed,
          pm_Pairs := Some (full_store_clone (stores seed)),
          pm_RequestFormat := format_clone (pm_RequestFormat seed),
          pm_ConfigFormat := format_clone (pm_ConfigFormat seed)\<rparr>)"

section \<open>Delimiters and JSON\<close>

fun set_delimiters :: "string \<Rightarrow> store \<Rightarrow> pair list \<Rightarrow> store \<times> pair list \<times> go_error option" where
  "set_delimiters d cs [] = (cs, [], None)"
| "set_delimiters d cs (p # ps) =
     (if d = [] \<or> Delimiter p = d
      then (case set_delimiters d cs ps of (cs, ps, err) \<Rightarrow> (cs, p # ps, err))
      else
        (case NewPairDelimiter cs (pair_String cs p) d of
           (cs, Inl err) \<Rightarrow> (cs, p # ps, Some (Errorf ''%s.%s.%s: %w'' [err]))
         | (cs, Inr nP) \<Rightarrow> (case set_delimiters d cs ps of (cs, ps, err) \<Rightarrow> (cs, nP # ps, err))))"

text \<open>The entries of the index that point into the slice that is written.\<close>

definition refresh :: "asset_item \<Rightarrow> pair list \<Rightarrow> matcher \<Rightarrow> matcher" where
  "refresh a ps mt =
     (\<lambda>(s, b). case mt (s, b) of
        Some (i, p) \<Rightarrow> if b = a \<and> i < length ps then Some (i, ps ! i) else Some (i, p)
      | None \<Rightarrow> None)"

fun delimiters_loop ::
    "full_store \<Rightarrow> store \<Rightarrow> pairs_manager \<Rightarrow> (store \<times> pairs_manager \<times> go_error option) option" where
  "delimiters_loop [] cs m = Some (cs, m, None)"
| "delimiters_loop ((a, None) # order) cs m = None"
| "delimiters_loop ((a, Some s) # order) cs m =
     (case (case ps_ConfigFormat s of None \<Rightarrow> pm_ConfigFormat m | Some f \<Rightarrow> Some f) of
        None \<Rightarrow> Some (cs, m, Some errPairConfigFormatNil)
      | Some cf \<Rightarrow>
          (case set_delimiters (fmt_Delimiter cf) cs (ps_Enabled s) of
             (cs, en, Some err) \<Rightarrow> Some (cs, put_store a (s\<lparr>ps_Enabled := en\<rparr>) m, Some err)
           | (cs, en, None) \<Rightarrow>
               (case set_delimiters (fmt_Delimiter cf) cs (ps_Available s) of
                  (cs, av, err) \<Rightarrow>
                    (let m = put_store a (s\<lparr>ps_Enabled := en, ps_Available := av\<rparr>) m;
                         m = m\<lparr>pm_matcher := map_option (refresh a av) (pm_matcher m)\<rparr>
                     in if err \<noteq> None then Some (cs, m, err) else delimiters_loop order cs m))))"

definition SetDelimitersFromConfig ::
    "full_store \<Rightarrow> store \<Rightarrow> pairs_manager \<Rightarrow> (store \<times> pairs_manager \<times> go_error option) option" where
  "SetDelimitersFromConfig order cs m = delimiters_loop order cs m"

text \<open>The names of asset types as keys; the rest of the coding is the library's.\<close>

fun unmarshal_loop :: "(string \<times> pair_store option) list \<Rightarrow> full_store \<Rightarrow> full_store \<times> go_error option" where
  "unmarshal_loop [] fs = (fs, None)"
| "unmarshal_loop ((key, val) # temp) fs =
     (case asset_New key of
        Inl err \<Rightarrow> (fs, Some err)
      | Inr ai \<Rightarrow> unmarshal_loop temp (AList.update ai val fs))"

definition full_store_UnmarshalJSON :: "(string \<times> pair_store option) list \<Rightarrow> full_store \<times> go_error option" where
  "full_store_UnmarshalJSON temp = unmarshal_loop temp []"

definition full_store_MarshalJSON :: "full_store \<Rightarrow> (string \<times> pair_store option) list" where
  "full_store_MarshalJSON fs = fold (\<lambda>(a, val). AList.update (asset_String a) val) fs []"

section \<open>Reachable managers\<close>

text \<open>The available pairs of an asset type.\<close>

definition available :: "pairs_manager \<Rightarrow> asset_item \<Rightarrow> pair list" where
  "available m a = (case map_of (stores m) a of Some (Some ps) \<Rightarrow> ps_Available ps | _ \<Rightarrow> [])"

text \<open>The operations, and what is done to a manager besides.  Its fields but the index are exported,
  and \<open>StoreAssetPairFormat\<close>, \<open>SetGlobalPairsManager\<close> and the JSON decoder write them without building
  the index (\<open>pm_direct\<close>; a decoded manager is a new one that is written to); \<open>SetDelimitersFromConfig\<close>
  writes pairs in place, and registers currencies; so do others (\<open>pm_registry\<close>, which may be any change
  of the registry: one by its own operations changes the text of no code, \<open>symbols_permanent\<close> of
  \<open>Currency\<close>).  \<open>D\<close> is the set of the asset types whose available pairs have been written in these ways,
  or have changed their text, since the index was built last.\<close>

inductive pm_step ::
    "store \<Rightarrow> asset_item set \<Rightarrow> pairs_manager \<Rightarrow> store \<Rightarrow> asset_item set \<Rightarrow> pairs_manager \<Rightarrow> bool" where
  pm_store: "pm_Store cs a ps m = Some (m', err) \<Longrightarrow> pm_step cs D m cs (if err = None then {} else D) m'"
| pm_delete: "pm_Delete cs a m = Some m' \<Longrightarrow> pm_step cs D m cs D m'"
| pm_format: "StoreFormat a f config m = Some (m', err) \<Longrightarrow> pm_step cs D m cs D m'"
| pm_pairs: "StorePairs cs a ps en m = Some (m', err) \<Longrightarrow>
    pm_step cs D m cs (if err = None \<and> \<not> en then {} else D) m'"
| pm_ensure: "ps_EnsureOnePairEnabled intn order1 order2 (Some m) = Some (Some m', p, a, err) \<Longrightarrow>
    set order2 \<subseteq> set (stores m) \<Longrightarrow> pm_step cs D m cs D m'"
| pm_disable: "DisablePair cs a p m = (m', err) \<Longrightarrow> pm_step cs D m cs D m'"
| pm_enable: "EnablePair cs a p m = (m', err) \<Longrightarrow> pm_step cs D m cs D m'"
| pm_asset: "SetAssetEnabled a en m = (m', err) \<Longrightarrow> pm_step cs D m cs D m'"
| pm_load: "pm_Load cs seed m = Some m' \<Longrightarrow> distinct (map fst (stores seed)) \<Longrightarrow> pm_step cs D m cs {} m'"
| pm_direct: "pm_matcher m' = pm_matcher m \<Longrightarrow> distinct (map fst (stores m')) \<Longrightarrow>
    pm_step cs D m cs (D \<union> {a. available m' a \<noteq> available m a}) m'"
| pm_delimiters: "SetDelimitersFromConfig order cs m = Some (cs', m', err) \<Longrightarrow> pm_step cs D m cs' UNIV m'"
| pm_registry: "pm_step cs D m
    cs' (D \<union> {a. list_ex (\<lambda>p. symbol_key cs' p \<noteq> symbol_key cs p) (available m a)}) m"

inductive pm_reachable :: "store \<Rightarrow> asset_item set \<Rightarrow> pairs_manager \<Rightarrow> bool" where
  pm_init: "pm_reachable cs {} new_manager"
| pm_next: "pm_reachable cs D m \<Longrightarrow> pm_step cs D m cs' D' m' \<Longrightarrow> pm_reachable cs' D' m'"

text \<open>What the index should be: of the available pairs with a symbol the last.\<close>

fun last_index :: "store \<Rightarrow> string \<Rightarrow> pair list \<Rightarrow> (nat \<times> pair) option" where
  "last_index cs s [] = None"
| "last_index cs s (p # ps) =
     (case last_index cs s ps of
        Some (i, q) \<Rightarrow> Some (Suc i, q)
      | None \<Rightarrow> if symbol_key cs p = s then Some (0, p) else None)"

definition indexed_at :: "store \<Rightarrow> pairs_manager \<Rightarrow> asset_item \<Rightarrow> bool" where
  "indexed_at cs m a \<longleftrightarrow>
     (case pm_matcher m of
        None \<Rightarrow> available m a = []
      | Some mt \<Rightarrow> (\<forall>s. mt (s, a) = last_index cs s (available m a)))"

definition indexed :: "store \<Rightarrow> asset_item set \<Rightarrow> pairs_manager \<Rightarrow> bool" where
  "indexed cs D m \<longleftrightarrow> distinct (map fst (stores m)) \<and> (\<forall>a. a \<notin> D \<longrightarrow> indexed_at cs m a)"

lemma last_index_registry:
  "\<not> list_ex (\<lambda>p. symbol_key cs' p \<noteq> symbol_key cs p) ps \<Longrightarrow> last_index cs' s ps = last_index cs s ps"
  by (induction ps) auto

lemma last_index_None: "last_index cs s ps = None \<longleftrightarrow> \<not> list_ex (\<lambda>p. symbol_key cs p = s) ps"
  by (induction ps) (auto split: option.split)

lemma last_index_Some:
  "last_index cs s ps = Some (i, p) \<Longrightarrow> i < length ps \<and> ps ! i = p \<and> symbol_key cs p = s"
  by (induction ps arbitrary: i) (auto split: option.splits if_splits)

lemma index_pairs:
  "index_pairs cs a k ps mt (s, b) =
     (if b = a
      then (case last_index cs s ps of Some (i, p) \<Rightarrow> Some (k + i, p) | None \<Rightarrow> mt (s, b))
      else mt (s, b))"
  by (induction ps arbitrary: k mt) (auto split: option.split)

lemma reindex_loop:
  "distinct (map fst fs) \<Longrightarrow> reindex_loop cs fs mt = Some mt' \<Longrightarrow>
     None \<notin> snd ` set fs \<and>
     (\<forall>s a. mt' (s, a) =
       (case map_of fs a of
          Some (Some ps) \<Rightarrow> (case last_index cs s (ps_Available ps) of Some ip \<Rightarrow> Some ip | None \<Rightarrow> mt (s, a))
        | _ \<Rightarrow> mt (s, a)))"
proof (induction fs arbitrary: mt)
  case (Cons x fs)
  obtain a ps where x: "x = (a, Some ps)" using Cons.prems(2) by (cases x; cases "snd x") auto
  have r: "reindex_loop cs fs (index_pairs cs a 0 (ps_Available ps) mt) = Some mt'"
    using Cons.prems(2) by (simp add: x)
  have "a \<notin> fst ` set fs" using Cons.prems(1) by (simp add: x)
  then have "map_of fs a = None" by (simp add: map_of_eq_None_iff)
  then show ?case
    using Cons.IH [OF _ r] Cons.prems(1) by (auto simp: x index_pairs split: option.splits)
qed simp

lemma reindex_indexed:
  assumes "reindex cs m = Some m'" and "distinct (map fst (stores m))"
  shows "indexed cs D m'"
proof -
  obtain mt where mt: "reindex_loop cs (stores m) Map.empty = Some mt" "m' = m\<lparr>pm_matcher := Some mt\<rparr>"
    using assms(1) by (auto simp: reindex_def split: option.splits)
  have "stores m' = stores m" by (simp add: mt(2) stores_def)
  then show ?thesis
    using reindex_loop [OF assms(2) mt(1)] assms(2)
    by (auto simp: indexed_def indexed_at_def mt(2) available_def split: option.splits)
qed

lemma indexed_same:
  "indexed cs D m \<Longrightarrow> pm_matcher m' = pm_matcher m \<Longrightarrow> distinct (map fst (stores m')) \<Longrightarrow>
     (\<And>a. a \<notin> D' \<Longrightarrow> a \<notin> D \<and> available m' a = available m a) \<Longrightarrow> indexed cs D' m'"
  unfolding indexed_def indexed_at_def by (cases "pm_matcher m") force+

lemma stores_put [simp]: "stores (put_store a ps m) = AList.update a (Some ps) (stores m)"
  by (simp add: put_store_def stores_def)

lemma matcher_put [simp]: "pm_matcher (put_store a ps m) = pm_matcher m"
  by (simp add: put_store_def)

lemma distinct_put: "distinct (map fst (stores m)) \<Longrightarrow> distinct (map fst (stores (put_store a ps m)))"
  by (simp add: distinct_update)

lemma available_put: "available (put_store a ps m) b = (if b = a then ps_Available ps else available m b)"
  by (simp add: available_def update_conv')

lemma put_indexed:
  assumes "indexed cs D m" and "ps_Available ps = available m a"
  shows "indexed cs D (put_store a ps m)"
proof (rule indexed_same [OF assms(1)])
  show "distinct (map fst (stores (put_store a ps m)))"
    using assms(1) by (intro distinct_put) (simp add: indexed_def)
qed (use assms(2) in \<open>simp_all add: available_put\<close>)

lemma got_store: "getPairStoreRequiresLock m a = Inr ps \<longleftrightarrow> map_of (stores m) a = Some (Some ps)"
  by (auto simp: getPairStoreRequiresLock_def stores_def split: option.splits)

lemma got_available: "getPairStoreRequiresLock m a = Inr ps \<Longrightarrow> ps_Available ps = available m a"
  by (simp add: got_store available_def)

lemma store_or_new_available:
  "store_or_new m a = Some ps \<Longrightarrow> ps_Available ps = available m a"
  by (auto simp: store_or_new_def available_def empty_store_of_pairs_def split: option.splits)

lemma fold_remove_keys:
  "fold (\<lambda>p mt. mt((k p, a) := None)) ps mt (s, b) = (if b = a \<and> s \<in> k ` set ps then None else mt (s, b))"
  by (induction ps arbitrary: mt) auto

lemma delete_indexed:
  assumes "indexed cs D m" and "pm_Delete cs a m = Some m'"
  shows "indexed cs D m'"
proof (cases "map_of (stores m) a")
  case None
  then show ?thesis using assms by (simp add: pm_Delete_def)
next
  case (Some pso)
  then obtain ps where ps: "pso = Some ps" using assms by (cases pso) (simp_all add: pm_Delete_def)
  have st: "stores m' = AList.delete a (stores m)"
  proof -
    have "m' = m\<lparr>pm_matcher := map_option (\<lambda>mt. fold (\<lambda>p mt. mt((symbol_key cs p, a) := None))
        (ps_Available ps) mt) (pm_matcher m), pm_Pairs := Some (AList.delete a (stores m))\<rparr>"
      using assms(2) by (simp add: pm_Delete_def Some ps)
    then show ?thesis by (simp add: stores_def)
  qed
  have av: "available m' b = (if b = a then [] else available m b)" for b
    by (simp add: available_def st delete_conv')
  have mt: "pm_matcher m' = map_option (\<lambda>mt. fold (\<lambda>p mt. mt((symbol_key cs p, a) := None)) (ps_Available ps) mt)
      (pm_matcher m)" using assms(2) by (auto simp: pm_Delete_def Some ps)
  have "last_index cs s (ps_Available ps) = None" if "s \<notin> symbol_key cs ` set (ps_Available ps)" for s
    using that by (auto simp: last_index_None list_ex_iff)
  moreover have "ps_Available ps = available m a" by (simp add: available_def Some ps)
  moreover have "indexed_at cs m b" if "b \<notin> D" for b using assms(1) that by (simp add: indexed_def)
  ultimately have "indexed_at cs m' b" if "b \<notin> D" for b
    using that unfolding indexed_at_def
    by (cases "b = a"; cases "pm_matcher m") (auto simp: mt av fold_remove_keys)
  then show ?thesis using assms(1) by (simp add: indexed_def st distinct_delete)
qed

lemma load_indexed:
  assumes "pm_Load cs seed m = Some m'" and "distinct (map fst (stores seed))"
  shows "indexed cs D m'"
proof -
  have "map fst (full_store_clone fs) = map fst fs" for fs
    by (induction fs) (auto simp: full_store_clone_def)
  then show ?thesis
    using assms unfolding pm_Load_def
    by (intro reindex_indexed [OF assms(1) [unfolded pm_Load_def]]) (simp add: stores_def)
qed

lemma delimiters_distinct:
  "delimiters_loop order cs m = Some (cs', m', err) \<Longrightarrow> distinct (map fst (stores m)) \<Longrightarrow>
     distinct (map fst (stores m'))"
proof (induction order cs m arbitrary: cs' m' err rule: delimiters_loop.induct)
  case (3 a s order cs m)
  have st: "stores (n\<lparr>pm_matcher := x\<rparr>) = stores n" for n x by (simp add: stores_def)
  show ?case
    using 3 by (auto simp: Let_def st distinct_update split: option.splits prod.splits if_splits)
qed auto

lemma step_indexed: "pm_step cs D m cs' D' m' \<Longrightarrow> indexed cs D m \<Longrightarrow> indexed cs' D' m'"
proof (induction rule: pm_step.induct)
  case (pm_store cs a ps m m' err D)
  have "indexed cs {} m''" if "reindex cs (put_store a ps' m) = Some m''" for ps' m''
    using pm_store by (intro reindex_indexed [OF that] distinct_put) (simp add: indexed_def)
  then show ?case using pm_store by (auto simp: pm_Store_def split: if_splits option.splits)
next
  case (pm_format a f config m m' err cs D)
  then show ?case
    by (auto simp: StoreFormat_def intro!: put_indexed dest: store_or_new_available split: if_splits option.splits)
next
  case (pm_pairs cs a ps en m m' err D)
  have "indexed cs {} m''" if "reindex cs (put_store a ps' m) = Some m''" for ps' m''
    using pm_pairs by (intro reindex_indexed [OF that] distinct_put) (simp add: indexed_def)
  then show ?case
    using pm_pairs
    by (auto simp: StorePairs_def intro!: put_indexed dest: store_or_new_available split: if_splits option.splits)
next
  case (pm_ensure intn order1 order2 m m' p a err cs D)
  have "ps_Available ps = available m b" if "(b, Some ps) \<in> set order2" for b ps
    using that pm_ensure by (auto simp: available_def indexed_def map_of_is_SomeI)
  moreover have "(b, Some ps) \<in> set order2" if "find P order2 = Some (b, Some ps)" for P b ps
    using that nth_mem by (fastforce simp: find_Some_iff)
  ultimately show ?case
    using pm_ensure
    by (auto simp: ps_EnsureOnePairEnabled_def intro!: put_indexed split: option.splits sum.splits prod.splits)
next
  case (pm_disable cs a p m m' err D)
  then show ?case
    by (auto simp: DisablePair_def Let_def intro!: put_indexed dest: got_available split: if_splits sum.splits)
next
  case (pm_enable cs a p m m' err D)
  then show ?case
    by (auto simp: EnablePair_def intro!: put_indexed dest: got_available split: if_splits sum.splits)
next
  case (pm_asset a en m m' err cs D)
  then show ?case
    by (auto simp: SetAssetEnabled_def intro!: put_indexed dest: got_available
        split: if_splits sum.splits option.splits)
next
  case (pm_direct m' m cs D)
  show ?case by (rule indexed_same [OF pm_direct(3) pm_direct(1,2)]) simp
next
  case (pm_delimiters order cs m cs' m' err D)
  then show ?case
    using delimiters_distinct by (simp add: SetDelimitersFromConfig_def indexed_def)
next
  case (pm_registry cs D m cs')
  then show ?case
    by (cases "pm_matcher m") (fastforce simp: indexed_def indexed_at_def last_index_registry)+
qed (auto intro: delete_indexed load_indexed)

lemma reachable_indexed: "pm_reachable cs D m \<Longrightarrow> indexed cs D m"
proof (induction rule: pm_reachable.induct)
  case (pm_init cs)
  then show ?case by (simp add: indexed_def indexed_at_def new_manager_def stores_def available_def)
qed (rule step_indexed)

section \<open>Lemmas on the changes\<close>

lemma update_update: "AList.update k v (AList.update k w xs) = AList.update k v xs"
  by (induction xs) auto

lemma update_same: "map_of xs k = Some v \<Longrightarrow> AList.update k v xs = xs"
  by (induction xs) (auto split: if_splits)

lemma put_put: "put_store a ps (put_store a ps' m) = put_store a ps m"
  by (simp add: put_store_def stores_def update_update)

lemma put_same: "getPairStoreRequiresLock m a = Inr ps \<Longrightarrow> put_store a ps m = m"
  by (cases m) (auto simp: put_store_def stores_def update_same getPairStoreRequiresLock_def split: option.splits)

lemma got_put: "getPairStoreRequiresLock (put_store a ps m) a = Inr ps"
  by (simp add: got_store update_conv')

lemma remove_added:
  assumes "\<not> pairs_Contains en p True"
  shows "pairs_Remove (pairs_Add en [p]) [p] = en"
proof -
  have "\<not> pair_Equal p q" if "q \<in> set en" for q
    using assms that by (auto simp: pairs_Contains_exact pair_Equal_iff)
  then have "pairs_Remove en [p] = en" by (simp add: pairs_Remove_def filter_id_conv)
  then show ?thesis using assms by (simp add: pairs_Remove_def pair_Equal_iff)
qed

lemma update_fresh: "k \<notin> fst ` set xs \<Longrightarrow> AList.update k v xs = xs @ [(k, v)]"
  by (induction xs) auto

lemma unmarshal_valid:
  "list_all (\<lambda>(a, _). asset_New (asset_String a) = Inr a) fs \<Longrightarrow> distinct (map fst gs @ map fst fs) \<Longrightarrow>
     unmarshal_loop (map (\<lambda>(a, v). (asset_String a, v)) fs) gs = (gs @ fs, None)"
  by (induction fs arbitrary: gs) (auto simp: update_fresh)

lemma marshal_names:
  "distinct (map fst gs @ map (\<lambda>(a, _). asset_String a) fs) \<Longrightarrow>
     fold (\<lambda>(a, val). AList.update (asset_String a) val) fs gs = gs @ map (\<lambda>(a, v). (asset_String a, v)) fs"
  by (induction fs arbitrary: gs) (auto simp: update_fresh)

lemma set_delimiters_ok:
  "set_delimiters d cs ps = (cs', ps', None) \<Longrightarrow> d \<noteq> [] \<Longrightarrow>
     length ps' = length ps \<and> list_all (\<lambda>p. Delimiter p = d) ps'"
  by (induction d cs ps arbitrary: cs' ps' rule: set_delimiters.induct)
    (auto simp: NewPairDelimiter_def Let_def split: if_splits prod.splits sum.splits option.splits)

section \<open>Properties\<close>

text \<open>C16: a manager that was built by its operations, by writes to its stores from outside, by the
  JSON decoder and by \<open>SetDelimitersFromConfig\<close>, in any order, while currencies are registered: for an
  asset type whose available pairs were not written in one of the last three ways, and whose currencies
  did not change their text, since the index was built (which \<open>Store\<close>, \<open>Load\<close> and \<open>StorePairs\<close> of available
  pairs do), the index finds an available pair for a symbol that is not empty, with that symbol, if and
  only if there is one.\<close>

theorem match_finds:
  assumes "pm_reachable cs D m" and "symbol \<noteq> []" and "a \<notin> D"
  shows "case Match m symbol a of
     Inl e \<Rightarrow> \<not> list_ex (\<lambda>p. symbol_key cs p = ToLower symbol) (available m a)
   | Inr p \<Rightarrow> p \<in> set (available m a) \<and> symbol_key cs p = ToLower symbol"
proof (cases "pm_matcher m")
  case None
  then show ?thesis
    using reachable_indexed [OF assms(1)] assms(2,3) by (simp add: indexed_def indexed_at_def Match_def)
next
  case (Some mt)
  then have "mt (ToLower symbol, a) = last_index cs (ToLower symbol) (available m a)"
    using reachable_indexed [OF assms(1)] assms(3) by (simp add: indexed_def indexed_at_def)
  then show ?thesis
    using assms(2) last_index_None last_index_Some nth_mem
    by (fastforce simp: Match_def Some split: option.split)
qed

text \<open>The asset types of \<open>D\<close> are exceptions indeed: a decoded manager finds no pair at all until its
  index is built.\<close>

lemma decoded_unindexed:
  "symbol \<noteq> [] \<Longrightarrow> Match (new_manager\<lparr>pm_Pairs := Some fs\<rparr>) symbol a = Inl errPairMatcherIsNil"
  by (simp add: Match_def new_manager_def)

text \<open>C36: a pair that was enabled is available and reported as enabled, and to disable it
  again restores the manager.\<close>

theorem enable_disable:
  assumes "EnablePair cs a p m = (m', None)"
  shows "p \<in> set (ps_Enabled (projr (getPairStoreRequiresLock m' a))) \<and>
    pairs_Contains (available m a) p True \<and> available m' = available m \<and>
    DisablePair cs a p m' = (m, None)"
proof -
  obtain ps where ps: "getPairStoreRequiresLock m a = Inr ps" "\<not> pairs_Contains (ps_Enabled ps) p True"
    "pairs_Contains (ps_Available ps) p True"
    and m': "m' = put_store a (ps\<lparr>ps_Enabled := pairs_Add (ps_Enabled ps) [p]\<rparr>) m"
    and ok: "asset_IsValid a" "\<not> pair_IsEmpty cs p"
    using assms by (auto simp: EnablePair_def split: if_splits sum.splits)
  have "available m' = available m"
    using got_available [OF ps(1)] by (simp add: m' available_put fun_eq_iff)
  moreover have "DisablePair cs a p m' = (m, None)"
    using ok ps(2) remove_added [OF ps(2)] put_same [OF ps(1)]
    by (simp add: DisablePair_def m' got_put put_put Let_def)
  ultimately show ?thesis
    using ps got_available [OF ps(1)] by (simp add: m' got_put)
qed

text \<open>Also: an exchange with an enabled pair of an enabled asset type is left as it is; if there
  is none, an available pair of some enabled asset type becomes the only enabled one of its type; without
  any such asset type the error says that there is no pair.\<close>

theorem ensure_one:
  assumes "None \<notin> snd ` set (stores m)" and "distinct (map fst (stores m))"
    and "set order1 = set (stores m)" and "set order2 = set (stores m)" and "\<forall>n > 0. intn n < n"
  shows "case ps_EnsureOnePairEnabled intn order1 order2 (Some m) of
     Some (Some m', p, a, err) \<Rightarrow>
       if list_ex (\<lambda>(_, ps). usable_store (the ps) \<and> ps_Enabled (the ps) \<noteq> []) (stores m)
       then m' = m \<and> err = None
       else if list_ex (\<lambda>(_, ps). usable_store (the ps)) (stores m)
       then err = None \<and> p \<in> set (available m a) \<and>
         (case map_of (stores m) a of
            Some (Some ps) \<Rightarrow> usable_store ps \<and> m' = put_store a (ps\<lparr>ps_Enabled := [p]\<rparr>) m
          | _ \<Rightarrow> False)
       else m' = m \<and> err = Some ErrCurrencyPairsEmpty
   | _ \<Rightarrow> False"
proof (cases "list_ex (\<lambda>(_, ps). usable_store (the ps) \<and> ps_Enabled (the ps) \<noteq> []) (stores m)")
  case True
  let ?P = "\<lambda>(a, ps). ps = None \<or> (usable_store (the ps) \<and> ps_Enabled (the ps) \<noteq> [])"
  have "find ?P order1 \<noteq> None" using True assms(3) by (auto simp: find_None_iff list_ex_iff)
  then obtain a ps where f: "find ?P order1 = Some (a, ps)" by auto
  then have "(a, ps) \<in> set (stores m)" using assms(3) nth_mem by (fastforce simp: find_Some_iff)
  then obtain ps' where "ps = Some ps'" using assms(1) by (cases ps) force+
  then show ?thesis using True f by (simp add: ps_EnsureOnePairEnabled_def)
next
  case False
  let ?P = "\<lambda>(a, ps). ps = None \<or> (usable_store (the ps) \<and> ps_Enabled (the ps) \<noteq> [])"
  let ?Q = "\<lambda>(a :: asset_item, ps). usable_store (the ps)"
  have f1: "find ?P order1 = None" using False assms(1,3) by (force simp: find_None_iff list_ex_iff)
  show ?thesis
  proof (cases "find ?Q order2")
    case None
    then have "\<not> list_ex ?Q (stores m)" using assms(4) by (auto simp: find_None_iff list_ex_iff)
    then show ?thesis using False None by (simp add: ps_EnsureOnePairEnabled_def f1)
  next
    case (Some x)
    obtain a pso where x: "x = (a, pso)" by (cases x)
    have q: "(a, pso) \<in> set (stores m)" "usable_store (the pso)"
      using Some assms(4) nth_mem by (fastforce simp: x find_Some_iff)+
    then obtain ps where ps: "pso = Some ps" using assms(1) by (cases pso) force+
    have mo: "map_of (stores m) a = Some (Some ps)" using q(1) assms(2) by (simp add: ps)
    have e: "ps_Enabled ps = []" "ps_Available ps \<noteq> []"
      using False q by (auto simp: list_ex_iff ps usable_store_def)
    then have "intn (length (ps_Available ps)) < length (ps_Available ps)" using assms(5) by simp
    moreover have "list_ex ?Q (stores m)" using q by (auto simp: list_ex_iff)
    ultimately show ?thesis
      using False Some e q(2)
      by (simp add: ps_EnsureOnePairEnabled_def f1 x ps GetRandomPair_def mo available_def)
  qed
qed

text \<open>Also: the stores of valid asset types survive their coding under the names of the asset
  types.\<close>

theorem stores_json:
  assumes "list_all (\<lambda>(a, _). asset_IsValid a) fs" and "distinct (map fst fs)"
  shows "full_store_UnmarshalJSON (full_store_MarshalJSON fs) = (fs, None)"
proof -
  have names: "list_all (\<lambda>(a, _). asset_New (asset_String a) = Inr a) fs"
    using assms(1) supportedList_roundtrip by (auto simp: list_all_iff asset_IsValid_iff)
  then have reads: "\<forall>a \<in> set (map fst fs). asset_New (asset_String a) = Inr a" by (auto simp: list_all_iff)
  have "inj_on asset_String (set (map fst fs))"
  proof (rule inj_onI)
    fix a b assume ab: "a \<in> set (map fst fs)" "b \<in> set (map fst fs)" and e: "asset_String a = asset_String b"
    have "Inr a = asset_New (asset_String a)" by (rule bspec [OF reads ab(1), symmetric])
    also have "\<dots> = asset_New (asset_String b)" unfolding e ..
    also have "\<dots> = Inr b" by (rule bspec [OF reads ab(2)])
    finally show "a = b" by (simp only: sum.inject)
  qed
  then have "distinct (map asset_String (map fst fs))" using assms(2) by (simp only: distinct_map)
  then have "distinct (map (\<lambda>(a, _). asset_String a) fs)" by (simp add: comp_def case_prod_unfold)
  then show ?thesis
    using assms(2) names
    by (simp add: full_store_UnmarshalJSON_def full_store_MarshalJSON_def marshal_names unmarshal_valid)
qed

section \<open>Instances\<close>

definition two_codes :: store where
  "two_codes =
     \<lparr>cs_heap = (\<lambda>i. Some (if i = 0 then empty_item\<lparr>Symbol := ''BTC'', Lower := ''btc''\<rparr>
                          else empty_item\<lparr>Symbol := ''USD'', Lower := ''usd''\<rparr>)),
      cs_next = 2, cs_items = (\<lambda>_. None)\<rparr>"

definition btc_usd :: pair where
  "btc_usd = NewPair \<lparr>Item = Some 0, upperCase = True\<rparr> \<lparr>Item = Some 1, upperCase = True\<rparr>"

definition spot_store :: "pair list \<Rightarrow> pair_store" where
  "spot_store en = empty_store_of_pairs\<lparr>ps_AssetEnabled := Some True, ps_Enabled := en, ps_Available := [btc_usd]\<rparr>"

definition spot_manager :: "pair list \<Rightarrow> pairs_manager" where
  "spot_manager en = new_manager\<lparr>pm_Pairs := Some [(Spot, Some (spot_store en))],
     pm_matcher := Some [(''btcusd'', Spot) \<mapsto> (0, btc_usd)]\<rparr>"

lemma spot_valid: "asset_IsValid Spot"
  by code_simp

lemma btc_usd_key: "symbol_key two_codes btc_usd = ''btcusd''"
  by (simp add: symbol_key_def two_codes_def btc_usd_def NewPair_def code_Lower_def code_String_def item_at_def)

lemma btc_usd_filled: "\<not> pair_IsEmpty two_codes btc_usd"
  by (simp add: two_codes_def btc_usd_def pair_IsEmpty_def code_IsEmpty_def item_at_def NewPair_def)

lemma spot_reachable: "pm_reachable two_codes {} (spot_manager en)"
proof -
  have "pm_Store two_codes Spot (Some (spot_store en)) new_manager = Some (spot_manager en, None)"
    using btc_usd_key
    by (simp add: pm_Store_def spot_valid store_clone_def spot_store_def empty_store_of_pairs_def
        format_clone_def reindex_def put_store_def stores_def new_manager_def spot_manager_def)
  from pm_next [OF pm_init pm_store [OF this]] show ?thesis by simp
qed

theorem match_finds_witness: "Match (spot_manager []) ''BTCUSD'' Spot = Inr btc_usd"
proof -
  have l: "ToLower ''BTCUSD'' = ''btcusd''" by code_simp
  have "available (spot_manager []) Spot = [btc_usd]"
    by (simp add: available_def spot_manager_def stores_def spot_store_def)
  then show ?thesis
    using match_finds [OF spot_reachable, of "''BTCUSD''" Spot "[]"] btc_usd_key
    by (auto simp: l split: sum.splits)
qed

theorem enable_disable_witness:
  "\<exists>m'. EnablePair two_codes Spot btc_usd (spot_manager []) = (m', None) \<and>
     DisablePair two_codes Spot btc_usd m' = (spot_manager [], None)"
proof -
  have "\<exists>m'. EnablePair two_codes Spot btc_usd (spot_manager []) = (m', None)"
    using btc_usd_filled
    by (simp add: EnablePair_def spot_valid getPairStoreRequiresLock_def spot_manager_def spot_store_def
        empty_store_of_pairs_def pair_match_def pair_Equal_def code_Equal_def)
  then obtain m' where "EnablePair two_codes Spot btc_usd (spot_manager []) = (m', None)" by blast
  with enable_disable [OF this] show ?thesis by blast
qed

theorem ensure_one_witness:
  "\<exists>m'. ps_EnsureOnePairEnabled (\<lambda>_. 0) (stores (spot_manager [])) (stores (spot_manager []))
      (Some (spot_manager [])) = Some (Some m', btc_usd, Spot, None)"
proof -
  let ?m = "spot_manager []"
  have s: "stores ?m = [(Spot, Some (spot_store []))]" by (simp add: spot_manager_def stores_def)
  have u: "usable_store (spot_store [])" "ps_Enabled (spot_store []) = []" "available ?m Spot = [btc_usd]"
    by (simp_all add: usable_store_def spot_store_def empty_store_of_pairs_def available_def s)
  have h: "None \<notin> snd ` set (stores ?m)" "distinct (map fst (stores ?m))" "\<forall>n > 0 :: nat. (0 :: nat) < n"
    by (simp_all add: s)
  have l: "list_ex (\<lambda>(_, ps). usable_store (the ps)) (stores ?m)"
    "\<not> list_ex (\<lambda>(_, ps). usable_store (the ps) \<and> ps_Enabled (the ps) \<noteq> []) (stores ?m)"
    by (simp_all add: s u)
  note e = ensure_one [OF h(1,2) refl refl h(3)]
  obtain m' p a err where r: "ps_EnsureOnePairEnabled (\<lambda>_. 0) (stores ?m) (stores ?m) (Some ?m) =
      Some (Some m', p, a, err)"
    using e by (cases "ps_EnsureOnePairEnabled (\<lambda>_. 0) (stores ?m) (stores ?m) (Some ?m)")
      (auto split: option.splits)
  then have p: "err = None" "p \<in> set (available ?m a)" using e l by simp_all
  moreover from p(2) have "a = Spot" by (auto simp: available_def s split: if_splits)
  ultimately show ?thesis using r u(3) by simp
qed

theorem stores_json_witness:
  "full_store_UnmarshalJSON (full_store_MarshalJSON [(Spot, Some (spot_store [])), (Futures, None)]) =
     ([(Spot, Some (spot_store [])), (Futures, None)], None)"
proof -
  have "asset_IsValid Futures" by code_simp
  then show ?thesis
    using spot_valid by (intro stores_json) (simp_all, simp add: Spot_def Futures_def)
qed

end
