(* ===== verification/Kline.thy ===== *)
theory Kline
  imports Order_Detail "HOL-Library.Signed_Division"
begin

text \<open>
  Candles (\<open>exchanges/kline/kline.go\<close>, \<open>kline_types.go\<close>): candles from trades, padding, the filters
  and the conversion to a longer interval.

  An interval is its length in nanoseconds.  The difference of two times saturates at the bounds of
  \<open>int64\<close>, \<open>UnixNano\<close> wraps.  Slices are lists; where the code indexes a slice that may be empty the
  result is \<open>None\<close>, the panic.  Candles that are filtered in place keep the slice of the caller; the
  functions return the new contents.
\<close>

section \<open>Times and intervals\<close>

type_synonym interval = int

definition max_duration :: int where "max_duration = 2 ^ 63 - 1"

definition time_Sub :: "time \<Rightarrow> time \<Rightarrow> int" where
  "time_Sub t u = max (- (2 ^ 63)) (min max_duration (t - u))"

definition time_Truncate :: "time \<Rightarrow> int \<Rightarrow> time" where
  "time_Truncate t d = (if d \<le> 0 then t else t - t mod d)"

definition time_Round :: "time \<Rightarrow> int \<Rightarrow> time" where
  "time_Round t d =
     (if d \<le> 0 then t
      else let r = t mod d in if r + r < d then t - r else t + (d - r))"

definition UnixNano :: "time \<Rightarrow> 64 word" where
  "UnixNano t = word_of_int (t - zeroValueUnix)"

definition FifteenSecond :: interval where "FifteenSecond = 15 * 10 ^ 9"
definition OneMin :: interval where "OneMin = 60 * 10 ^ 9"
definition OneHour :: interval where "OneHour = 3600 * 10 ^ 9"
definition OneDay :: interval where "OneDay = 24 * OneHour"
definition OneYear :: interval where "OneYear = 365 * OneDay"

definition durationToWord :: "interval \<Rightarrow> string" where
  "durationToWord i =
     (if i = - 1 then ''raw''
      else if i = 10 ^ 8 then ''hundredmillisec''
      else if i = 10 * 10 ^ 8 then ''thousandmillisec''
      else if i = 10 * 10 ^ 9 then ''tensec''
      else if i = FifteenSecond then ''fifteensecond''
      else if i = OneMin then ''onemin''
      else if i = 3 * OneMin then ''threemin''
      else if i = 5 * OneMin then ''fivemin''
      else if i = 10 * OneMin then ''tenmin''
      else if i = 15 * OneMin then ''fifteenmin''
      else if i = 30 * OneMin then ''thirtymin''
      else if i = OneHour then ''onehour''
      else if i = 2 * OneHour then ''twohour''
      else if i = 4 * OneHour then ''fourhour''
      else if i = 6 * OneHour then ''sixhour''
      else if i = 8 * OneHour then ''eighthour''
      else if i = 12 * OneHour then ''twelvehour''
      else if i = OneDay then ''oneday''
      else if i = 3 * OneDay then ''threeday''
      else if i = 5 * OneDay then ''fiveday''
      else if i = 15 * OneDay then ''fifteenday''
      else if i = 7 * OneDay then ''oneweek''
      else if i = 2 * (7 * OneDay) then ''twoweek''
      else if i = 30 * OneDay then ''onemonth''
      else if i = 90 * OneDay then ''threemonth''
      else if i = 2 * (90 * OneDay) then ''sixmonth''
      else if i = OneYear then ''oneyear''
      else ''notfound'')"

definition TotalCandlesPerInterval :: "time \<Rightarrow> time \<Rightarrow> interval \<Rightarrow> int" where
  "TotalCandlesPerInterval start end_time i =
     (if i \<le> 0 then 0 else time_Sub end_time start sdiv i)"

definition IntervalsPerYear :: "interval \<Rightarrow> f64" where
  "IntervalsPerYear i = (if i = 0 then 0 else f64_of_int OneYear / f64_of_int i)"

section \<open>Candles\<close>

record candle =
  cn_Time :: time
  cn_Open :: f64
  cn_High :: f64
  cn_Low :: f64
  cn_Close :: f64
  cn_Volume :: f64
  cn_ValidationIssues :: string

definition zero_candle :: candle where
  "zero_candle =
     \<lparr>cn_Time = 0, cn_Open = 0, cn_High = 0, cn_Low = 0, cn_Close = 0, cn_Volume = 0,
      cn_ValidationIssues = []\<rparr>"

record kline_item =
  ki_Exchange :: string
  ki_Pair :: pair
  ki_UnderlyingPair :: pair
  ki_Asset :: asset_item
  ki_Interval :: interval
  ki_Candles :: "candle list"
  ki_SourceJobID :: uuid
  ki_ValidationJobID :: uuid

definition new_item :: "string \<Rightarrow> pair \<Rightarrow> asset_item \<Rightarrow> interval \<Rightarrow> candle list \<Rightarrow> kline_item" where
  "new_item exch p a i cs =
     \<lparr>ki_Exchange = exch, ki_Pair = p, ki_UnderlyingPair = EMPTYPAIR, ki_Asset = a, ki_Interval = i,
      ki_Candles = cs, ki_SourceJobID = 0, ki_ValidationJobID = 0\<rparr>"

definition ErrInvalidInterval :: go_error where
  "ErrInvalidInterval = Sentinel ''kline.ErrInvalidInterval''"
definition errInsufficientTradeData :: go_error where
  "errInsufficientTradeData = Sentinel ''kline.errInsufficientTradeData''"
definition errNilKline :: go_error where
  "errNilKline = Sentinel ''kline.errNilKline''"
definition errCannotEstablishTimeWindow :: go_error where
  "errCannotEstablishTimeWindow = Sentinel ''kline.errCannotEstablishTimeWindow''"
definition errCandleOpenTimeIsNotUTCAligned :: go_error where
  "errCandleOpenTimeIsNotUTCAligned = Sentinel ''kline.errCandleOpenTimeIsNotUTCAligned''"
definition ErrCanOnlyUpscaleCandles :: go_error where
  "ErrCanOnlyUpscaleCandles = Sentinel ''kline.ErrCanOnlyUpscaleCandles''"
definition ErrWholeNumberScaling :: go_error where
  "ErrWholeNumberScaling = Sentinel ''kline.ErrWholeNumberScaling''"
definition errCandleDataNotPadded :: go_error where
  "errCandleDataNotPadded = Sentinel ''kline.errCandleDataNotPadded''"
definition ErrInsufficientCandleData :: go_error where
  "ErrInsufficientCandleData = Sentinel ''kline.ErrInsufficientCandleData''"
definition ErrNotFoundAtTime :: go_error where
  "ErrNotFoundAtTime = Sentinel ''kline.ErrNotFoundAtTime''"
definition ErrItemNotEqual :: go_error where
  "ErrItemNotEqual = Sentinel ''kline.ErrItemNotEqual''"
definition ErrItemUnderlyingNotEqual :: go_error where
  "ErrItemUnderlyingNotEqual = Sentinel ''kline.ErrItemUnderlyingNotEqual''"

section \<open>Candles from trades\<close>

fun bad_trade :: "trade_history list \<Rightarrow> go_error option" where
  "bad_trade [] = None"
| "bad_trade (t # ts) =
     (if IsZero (th_Timestamp t) \<or> time_Unix (th_Timestamp t) = 0
      then Some (Errorf ''timestamp not set for element %d'' [])
      else if th_Amount t \<le> 0 then Some (Errorf ''amount not set for element %d'' [])
      else if feq (th_Price t) 0 then Some (Errorf ''price not set for element %d'' [])
      else bad_trade ts)"

text \<open>\<open>validateData\<close> sorts the slice of its caller, which it returns here.\<close>

definition validateData :: "trade_history list \<Rightarrow> trade_history list go_result" where
  "validateData trades =
     (if length trades < 2 then Inl errInsufficientTradeData
      else (case bad_trade trades of
              Some e \<Rightarrow> Inl e
            | None \<Rightarrow> Inr (slice_sort (\<lambda>a b. th_Timestamp a < th_Timestamp b) trades)))"

definition trade_candle :: "trade_history \<Rightarrow> candle \<Rightarrow> candle" where
  "trade_candle t c =
     (let c = (if feq (cn_Open c) 0 then c\<lparr>cn_Open := th_Price t\<rparr> else c);
          c = (if cn_High c < th_Price t then c\<lparr>cn_High := th_Price t\<rparr> else c);
          c = (if feq (cn_Low c) 0 \<or> th_Price t < cn_Low c then c\<lparr>cn_Low := th_Price t\<rparr> else c)
      in c\<lparr>cn_Close := th_Price t, cn_Volume := cn_Volume c + th_Amount t\<rparr>)"

text \<open>The inner loop, from the trade at \<open>offset\<close> on: the trades are those from \<open>y\<close> on.\<close>

fun window_loop ::
    "interval \<Rightarrow> time \<Rightarrow> nat \<Rightarrow> nat \<Rightarrow> trade_history list \<Rightarrow> candle \<Rightarrow> nat \<times> candle" where
  "window_loop i start offset y [] c = (offset, c)"
| "window_loop i start offset y (t # ts) c =
     (if i \<le> sint (UnixNano (th_Timestamp t) - UnixNano start) then (y, c)
      else window_loop i start offset (y + 1) ts (trade_candle t c))"

fun candle_loop ::
    "interval \<Rightarrow> trade_history list \<Rightarrow> nat \<Rightarrow> time \<Rightarrow> nat \<Rightarrow> candle list" where
  "candle_loop i trades offset start 0 = []"
| "candle_loop i trades offset start (Suc n) =
     (let (offset, c) =
        window_loop i start offset offset (drop offset trades) (zero_candle\<lparr>cn_Time := start\<rparr>)
      in c # candle_loop i trades offset (start + i) n)"

definition CreateKline ::
    "trade_history list \<Rightarrow> interval \<Rightarrow> pair \<Rightarrow> asset_item \<Rightarrow> string \<Rightarrow> kline_item go_result" where
  "CreateKline trades i p a exch =
     (if i < FifteenSecond then Inl (Errorf ''%w: [%s]'' [ErrInvalidInterval])
      else
        (case validateData trades of
           Inl e \<Rightarrow> Inl e
         | Inr trades \<Rightarrow>
             (let start = time_Truncate (th_Timestamp (hd trades)) i;
                  end_time = time_Truncate (th_Timestamp (last trades)) i + i;
                  n = time_Sub end_time start sdiv i
              in Inr (new_item exch p a i (candle_loop i trades 0 start (nat n))))))"

section \<open>Padding\<close>

fun pad_loop :: "interval \<Rightarrow> time \<Rightarrow> nat \<Rightarrow> candle list \<Rightarrow> candle list go_result" where
  "pad_loop i start 0 cs = Inr []"
| "pad_loop i start (Suc n) cs =
     (case cs of
        [] \<Rightarrow> map_sum id ((#) (zero_candle\<lparr>cn_Time := start\<rparr>)) (pad_loop i (start + i) n cs)
      | c # cs' \<Rightarrow>
          if cn_Time c \<noteq> start
          then (if cn_Time c < start
                then Inl (Errorf ''%w '%s' should be '%s' at '%s' interval''
                       [errCandleOpenTimeIsNotUTCAligned])
                else map_sum id ((#) (zero_candle\<lparr>cn_Time := start\<rparr>)) (pad_loop i (start + i) n cs))
          else map_sum id ((#) c) (pad_loop i (start + i) n cs'))"

definition empty_candle :: "candle \<Rightarrow> bool" where
  "empty_candle c \<longleftrightarrow>
     feq (cn_Volume c) 0 \<and> feq (cn_Open c) 0 \<and> feq (cn_High c) 0 \<and> feq (cn_Low c) 0 \<and>
     feq (cn_Close c) 0"

definition addPadding ::
    "kline_item option \<Rightarrow> time \<Rightarrow> time \<Rightarrow> bool \<Rightarrow> kline_item go_result option" where
  "addPadding ko start exclusiveEnd purgeOnPartial =
     (case ko of
        None \<Rightarrow> Some (Inl errNilKline)
      | Some k \<Rightarrow>
          if ki_Interval k \<le> 0 then Some (Inl ErrInvalidInterval)
          else
            (let window = time_Sub exclusiveEnd start
             in if window \<le> 0 then Some (Inl errCannotEstablishTimeWindow)
                else
                  (case pad_loop (ki_Interval k) start (nat (window sdiv ki_Interval k)) (ki_Candles k) of
                     Inl e \<Rightarrow> Some (Inl e)
                   | Inr padded \<Rightarrow>
                       if \<not> purgeOnPartial then Some (Inr (k\<lparr>ki_Candles := padded\<rparr>))
                       else if padded = [] then None
                       else Some (Inr (k\<lparr>ki_Candles :=
                              (if empty_candle (last padded) then butlast padded else padded)\<rparr>)))))"

section \<open>Filters and order\<close>

text \<open>The loops read at the position of the \<open>range\<close> and write behind it.  The lookup table of
  \<open>RemoveDuplicates\<close> has whole seconds for keys.\<close>

function dedup_loop :: "int list \<Rightarrow> nat \<Rightarrow> nat \<Rightarrow> candle list \<Rightarrow> candle list" where
  "dedup_loop seen i target cs =
     (if i < length cs
      then (let key = time_Unix (cn_Time (cs ! i))
            in if key \<in> set seen then dedup_loop seen (i + 1) target cs
               else dedup_loop (key # seen) (i + 1) (target + 1) (cs[target := cs ! i]))
      else take target cs)"
  by pat_completeness auto
termination by (relation "measure (\<lambda>(seen, i, target, cs). length cs - i)") auto

declare dedup_loop.simps [simp del]

definition RemoveDuplicates :: "kline_item \<Rightarrow> kline_item" where
  "RemoveDuplicates k = k\<lparr>ki_Candles := dedup_loop [] 0 0 (ki_Candles k)\<rparr>"

definition RemoveOutsideRange :: "time \<Rightarrow> time \<Rightarrow> kline_item \<Rightarrow> kline_item" where
  "RemoveOutsideRange start end_time k =
     k\<lparr>ki_Candles :=
         compact (\<lambda>c. cn_Time c = start \<or> (start < cn_Time c \<and> cn_Time c < end_time)) 0 0 (ki_Candles k)\<rparr>"

definition SortCandlesByTimestamp :: "bool \<Rightarrow> kline_item \<Rightarrow> kline_item" where
  "SortCandlesByTimestamp desc k =
     k\<lparr>ki_Candles :=
         (if desc then slice_sort (\<lambda>a b. cn_Time b < cn_Time a) (ki_Candles k)
          else slice_sort (\<lambda>a b. cn_Time a < cn_Time b) (ki_Candles k))\<rparr>"

section \<open>Conversion\<close>

definition has_values :: "candle \<Rightarrow> bool" where
  "has_values c \<longleftrightarrow>
     \<not> feq (cn_Open c) 0 \<and> \<not> feq (cn_High c) 0 \<and> \<not> feq (cn_Low c) 0 \<and> \<not> feq (cn_Close c) 0 \<and>
     \<not> feq (cn_Volume c) 0"

definition join_candle :: "candle \<Rightarrow> candle \<Rightarrow> candle" where
  "join_candle x c =
     (let c = (if IsZero (cn_Time c) then c\<lparr>cn_Time := cn_Time x\<rparr> else c);
          c = (if feq (cn_Open c) 0 then c\<lparr>cn_Open := cn_Open x\<rparr> else c);
          c = (if cn_High c < cn_High x then c\<lparr>cn_High := cn_High x\<rparr> else c);
          c = (if feq (cn_Low c) 0 \<or> cn_Low x < cn_Low c then c\<lparr>cn_Low := cn_Low x\<rparr> else c)
      in c\<lparr>cn_Volume := cn_Volume c + cn_Volume x, cn_Close := cn_Close x\<rparr>)"

text \<open>The loop over the old candles, of which those from \<open>x\<close> on are left.\<close>

fun convert_loop :: "nat \<Rightarrow> nat \<Rightarrow> nat \<Rightarrow> candle list \<Rightarrow> candle list \<Rightarrow> candle list" where
  "convert_loop per x target [] new = new"
| "convert_loop per x target (c # cs) new =
     (let new = (if has_values c then new[target := join_candle c (new ! target)] else new)
      in if (x + 1) mod per = 0
         then (if length (c # cs) - 1 < per then new
               else convert_loop per (x + 1) (target + 1) cs new)
         else convert_loop per (x + 1) target cs new)"

definition ConvertToNewInterval :: "kline_item option \<Rightarrow> interval \<Rightarrow> kline_item go_result option" where
  "ConvertToNewInterval ko newInterval =
     (case ko of
        None \<Rightarrow> Some (Inl errNilKline)
      | Some k \<Rightarrow>
          if ki_Interval k \<le> 0 then Some (Inl (Errorf ''%w for old candle'' [ErrInvalidInterval]))
          else if newInterval \<le> 0 then Some (Inl (Errorf ''%w for new candle'' [ErrInvalidInterval]))
          else if newInterval \<le> ki_Interval k
            then Some (Inl (Errorf ''%w %s is less than or equal to %s'' [ErrCanOnlyUpscaleCandles]))
          else if newInterval mod ki_Interval k \<noteq> 0
            then Some (Inl (Errorf ''%s %w %s'' [ErrWholeNumberScaling]))
          else if ki_Candles k = [] then None
          else
            (let cs = ki_Candles k;
                 start = cn_Time (hd cs);
                 end_time = cn_Time (last cs) + ki_Interval k;
                 window = time_Sub end_time start
             in if window sdiv ki_Interval k \<noteq> int (length cs)
                then Some (Inl (Errorf ''%w expected candles %d but have only %d when converting''
                       [errCandleDataNotPadded]))
                else
                  (let per = nat (newInterval sdiv ki_Interval k);
                       new = replicate (length cs div per) zero_candle
                   in if new = []
                      then Some (Inl (Errorf ''%w to %v no candle data'' [ErrInsufficientCandleData]))
                      else Some (Inr (new_item (ki_Exchange k) (ki_Pair k) (ki_Asset k) newInterval
                             (convert_loop per 0 0 cs new))))))"

definition GetClosePriceAtTime :: "time \<Rightarrow> kline_item \<Rightarrow> f64 \<times> go_error option" where
  "GetClosePriceAtTime t k =
     (case find (\<lambda>c. cn_Time c = t) (ki_Candles k) of
        Some c \<Rightarrow> (cn_Close c, None)
      | None \<Rightarrow> (- 1, Some (Errorf ''%w at %v'' [ErrNotFoundAtTime])))"

definition EqualSource :: "store \<Rightarrow> kline_item option \<Rightarrow> kline_item option \<Rightarrow> go_error option" where
  "EqualSource cs ko io =
     (case (ko, io) of
        (Some k, Some i) \<Rightarrow>
          if ki_Exchange k \<noteq> ki_Exchange i \<or> ki_Asset k \<noteq> ki_Asset i \<or> \<not> pair_Equal (ki_Pair k) (ki_Pair i)
          then Some (Errorf ''%v %v %v %w %v %v %v'' [ErrItemNotEqual])
          else if \<not> pair_IsEmpty cs (ki_UnderlyingPair k) \<and> \<not> pair_IsEmpty cs (ki_UnderlyingPair i) \<and>
                  \<not> pair_Equal (ki_UnderlyingPair k) (ki_UnderlyingPair i)
          then Some (Errorf ''%w %v %v'' [ErrItemUnderlyingNotEqual])
          else None
      | _ \<Rightarrow> Some (Sentinel ''common.ErrNilPointer''))"

section \<open>Lemmas on candles from trades\<close>

text \<open>The candle of the trades of a window.\<close>

definition candle_of :: "time \<Rightarrow> trade_history list \<Rightarrow> candle" where
  "candle_of start ts = fold trade_candle ts (zero_candle\<lparr>cn_Time := start\<rparr>)"

definition in_window :: "time \<Rightarrow> interval \<Rightarrow> trade_history \<Rightarrow> bool" where
  "in_window start i t \<longleftrightarrow> start \<le> th_Timestamp t \<and> th_Timestamp t < start + i"

abbreviation trades_sorted :: "trade_history list \<Rightarrow> bool" where
  "trades_sorted \<equiv> sorted_wrt (\<lambda>a b. th_Timestamp a \<le> th_Timestamp b)"

lemma UnixNano_diff:
  assumes "\<bar>t - u\<bar> < 2 ^ 63"
  shows "sint (UnixNano t - UnixNano u) = t - u"
proof -
  have w: "UnixNano t - UnixNano u = word_of_int (t - u)"
    unfolding UnixNano_def of_int_diff [symmetric] by simp
  have "signed_take_bit (64 - 1) (t - u) = t - u"
    using assms by (intro signed_take_bit_int_eq_self) (simp_all add: abs_less_iff)
  then show ?thesis unfolding w by (simp add: sint_sbintrunc' del: of_int_diff)
qed

text \<open>The inner loop takes the trades of the window and stops at the first one behind it.\<close>

lemma window_loop:
  assumes "list_all (\<lambda>t. \<bar>th_Timestamp t - start\<bar> < 2 ^ 63) ts"
  shows "window_loop i start offset y ts c =
    (let mine = takeWhile (\<lambda>t. th_Timestamp t < start + i) ts
     in (if length mine < length ts then y + length mine else offset, fold trade_candle mine c))"
  using assms by (induction ts arbitrary: y c) (auto simp: UnixNano_diff Let_def)


text \<open>The outer loop, on the trades that are left.\<close>

fun window_candles :: "interval \<Rightarrow> trade_history list \<Rightarrow> time \<Rightarrow> nat \<Rightarrow> candle list" where
  "window_candles i ts start 0 = []"
| "window_candles i ts start (Suc n) =
     candle_of start (takeWhile (\<lambda>t. th_Timestamp t < start + i) ts) #
     window_candles i (dropWhile (\<lambda>t. th_Timestamp t < start + i) ts) (start + i) n"

lemma takeWhile_sorted:
  fixes f :: "'a \<Rightarrow> int"
  assumes "sorted_wrt (\<lambda>a b. f a \<le> f b) xs"
  shows "takeWhile (\<lambda>x. f x < m) xs = filter (\<lambda>x. f x < m) xs"
    and "dropWhile (\<lambda>x. f x < m) xs = filter (\<lambda>x. m \<le> f x) xs"
proof -
  have "takeWhile (\<lambda>x. f x < m) xs = filter (\<lambda>x. f x < m) xs \<and>
      dropWhile (\<lambda>x. f x < m) xs = filter (\<lambda>x. m \<le> f x) xs"
    using assms
  proof (induction xs)
    case (Cons a xs)
    show ?case
    proof (cases "f a < m")
      case False
      then have "\<forall>y \<in> set (a # xs). m \<le> f y" using Cons.prems by auto
      then have "filter (\<lambda>x. f x < m) (a # xs) = []" "filter (\<lambda>x. m \<le> f x) (a # xs) = a # xs"
        by (auto simp: filter_empty_conv filter_id_conv)
      with False show ?thesis by (simp only: takeWhile.simps dropWhile.simps if_False simp_thms)
    qed (use Cons in simp)
  qed simp
  then show "takeWhile (\<lambda>x. f x < m) xs = filter (\<lambda>x. f x < m) xs"
    and "dropWhile (\<lambda>x. f x < m) xs = filter (\<lambda>x. m \<le> f x) xs" by blast+
qed

lemma candle_loop:
  assumes "trades_sorted ts" and "ts = drop offset trades" and "0 < i"
    and "list_all (\<lambda>t. start \<le> th_Timestamp t \<and> th_Timestamp t - start < 2 ^ 63) ts"
    and "ts \<noteq> []" and "start + int (n - 1) * i \<le> th_Timestamp (last ts)"
  shows "candle_loop i trades offset start n = window_candles i ts start n"
  using assms
proof (induction n arbitrary: ts offset start)
  case (Suc n)
  let ?mine = "takeWhile (\<lambda>t. th_Timestamp t < start + i) ts"
  let ?rest = "dropWhile (\<lambda>t. th_Timestamp t < start + i) ts"
  have w: "window_loop i start offset offset ts (zero_candle\<lparr>cn_Time := start\<rparr>) =
      (if length ?mine < length ts then offset + length ?mine else offset, candle_of start ?mine)"
    using Suc.prems(4) by (subst window_loop) (auto simp: list_all_iff candle_of_def Let_def)
  show ?case
  proof (cases n)
    case 0
    with w Suc.prems(2) show ?thesis by simp
  next
    case (Suc m)
    have late: "start + i \<le> th_Timestamp (last ts)"
    proof -
      have "0 \<le> int m * i" using \<open>0 < i\<close> by simp
      then show ?thesis using Suc.prems(6) Suc by (simp add: algebra_simps)
    qed
    then have rest: "?rest \<noteq> []" using \<open>ts \<noteq> []\<close> by (auto simp: dropWhile_eq_Nil_conv not_less)
    have split: "ts = ?mine @ ?rest" by simp
    then have len: "length ?mine < length ts" using rest by (metis length_append length_greater_0_conv less_add_same_cancel1)
    have "?rest = drop (length ?mine) ts" by (simp add: dropWhile_eq_drop)
    then have d: "?rest = drop (offset + length ?mine) trades"
      using Suc.prems(2) by (simp add: add.commute)
    have "candle_loop i trades (offset + length ?mine) (start + i) n = window_candles i ?rest (start + i) n"
    proof (rule Suc.IH [OF _ d \<open>0 < i\<close> _ rest])
      show "trades_sorted ?rest" using Suc.prems(1) by (metis split sorted_wrt_append)
      show "list_all (\<lambda>t. start + i \<le> th_Timestamp t \<and> th_Timestamp t - (start + i) < 2 ^ 63) ?rest"
        using Suc.prems(4) \<open>0 < i\<close> takeWhile_sorted(2) [OF Suc.prems(1), of "start + i"]
        by (auto simp: list_all_iff)
      have "last ?rest = last ts" using rest split by (metis last_appendR)
      then show "start + i + int (n - 1) * i \<le> th_Timestamp (last ?rest)"
        using Suc.prems(6) Suc by (simp add: algebra_simps)
    qed
    then show ?thesis using w len Suc.prems(2) by simp
  qed
qed simp

lemma window_candles:
  assumes "trades_sorted ts" and "list_all (\<lambda>t. start \<le> th_Timestamp t) ts" and "0 < i"
  shows "window_candles i ts start n =
    map (\<lambda>j. candle_of (start + int j * i) (filter (in_window (start + int j * i) i) ts)) [0..<n]"
  using assms
proof (induction n arbitrary: ts start)
  case (Suc n)
  let ?rest = "dropWhile (\<lambda>t. th_Timestamp t < start + i) ts"
  note tw = takeWhile_sorted [OF Suc.prems(1), of "start + i"]
  have m: "takeWhile (\<lambda>t. th_Timestamp t < start + i) ts = filter (in_window start i) ts"
    using Suc.prems(2) unfolding tw(1)
    by (intro filter_cong) (auto simp: list_all_iff in_window_def)
  have r: "filter (in_window (start + i + int j * i) i) ?rest =
      filter (in_window (start + i + int j * i) i) ts" for j
  proof -
    have "start + i \<le> start + i + int j * i" using \<open>0 < i\<close> by simp
    then have "start + i \<le> th_Timestamp t" if "start + i + int j * i \<le> th_Timestamp t" for t
      using that by (rule order_trans)
    then show ?thesis
      unfolding tw(2) filter_filter in_window_def by (intro filter_cong refl) blast
  qed
  have "trades_sorted ?rest" "list_all (\<lambda>t. start + i \<le> th_Timestamp t) ?rest"
    using Suc.prems(1) unfolding tw(2) by (auto simp: sorted_wrt_filter list_all_iff)
  then have "window_candles i ?rest (start + i) n =
      map (\<lambda>j. candle_of (start + i + int j * i) (filter (in_window (start + i + int j * i) i) ts)) [0..<n]"
    using Suc.IH \<open>0 < i\<close> r by simp
  moreover have "start + int (Suc j) * i = start + i + int j * i" for j
    by (simp add: algebra_simps)
  ultimately show ?case
    by (simp only: window_candles.simps m)
      (simp add: upt_conv_Cons map_Suc_upt [symmetric] add.assoc del: upt_Suc map_Suc_upt of_nat_Suc)
qed simp

text \<open>A trade's window: the times of a candle start at multiples of the interval.\<close>

lemma Truncate_bounds:
  "0 < d \<Longrightarrow> time_Truncate t d \<le> t \<and> t < time_Truncate t d + d"
  by (simp add: time_Truncate_def)

lemma Truncate_dvd: "0 < d \<Longrightarrow> d dvd time_Truncate t d"
  by (simp add: time_Truncate_def)

lemma Truncate_mono: "t \<le> u \<Longrightarrow> 0 < d \<Longrightarrow> time_Truncate t d \<le> time_Truncate u d"
  using zdiv_mono1 [of t u d] by (simp add: time_Truncate_def minus_mod_eq_mult_div mult_left_mono)

lemma sorted_trades: "trades_sorted (slice_sort (\<lambda>a b. th_Timestamp a < th_Timestamp b) ts)"
  using slice_sort_sorted [OF weak_order_on_key [of UNIV th_Timestamp], of ts]
  by (simp add: not_less)

lemma sdiv_pos: "0 \<le> a \<Longrightarrow> 0 < b \<Longrightarrow> a sdiv b = a div (b :: int)"
  by (cases "a = 0") (simp_all add: signed_divide_int_def)

lemma sorted_last: "trades_sorted ts \<Longrightarrow> t \<in> set ts \<Longrightarrow> th_Timestamp t \<le> th_Timestamp (last ts)"
  by (induction ts) (auto split: if_splits)

lemma sorted_hd: "trades_sorted ts \<Longrightarrow> t \<in> set ts \<Longrightarrow> th_Timestamp (hd ts) \<le> th_Timestamp t"
  by (cases ts) auto

text \<open>Windows one after another take every element once.\<close>

lemma windows_partition:
  "mset (concat (map (\<lambda>j. filter (in_window (start + int j * i) i) ts) [0..<n])) =
     filter_mset (\<lambda>t. start \<le> th_Timestamp t \<and> th_Timestamp t < start + int n * i) (mset ts)"
  if "0 < i"
proof (induction n)
  case (Suc n)
  have "0 \<le> int n * i" using that by simp
  then have b: "start \<le> start + int n * i" by simp
  have p: "filter_mset P (mset ts) + filter_mset Q (mset ts) = filter_mset R (mset ts)"
    if "\<And>t. R t \<longleftrightarrow> P t \<or> Q t" "\<And>t. \<not> (P t \<and> Q t)" for P Q R :: "trade_history \<Rightarrow> bool"
    using that by (induction ts) auto
  have s: "start + int (Suc n) * i = start + int n * i + i" by (simp add: algebra_simps)
  show ?case
    using Suc unfolding s
    by (simp, intro p) (use \<open>0 < i\<close> in \<open>auto simp: in_window_def intro: order_trans [OF b]\<close>)
qed simp

lemma CreateKline_candles:
  assumes "CreateKline trades i p a exch = Inr k"
    and "\<forall>t \<in> set trades. \<forall>u \<in> set trades. th_Timestamp t - th_Timestamp u + 2 * i < 2 ^ 63"
  obtains ts start n where "validateData trades = Inr ts"
    and "start = time_Truncate (th_Timestamp (hd ts)) i"
    and "n = nat ((time_Truncate (th_Timestamp (last ts)) i - start) div i) + 1" and "0 < i"
    and "k = new_item exch p a i (map (\<lambda>j. candle_of (start + int j * i)
           (filter (in_window (start + int j * i) i) ts)) [0..<n])"
    and "trades_sorted ts" and "mset ts = mset trades"
    and "list_all (\<lambda>t. start \<le> th_Timestamp t \<and> th_Timestamp t < start + int n * i) ts"
proof -
  obtain ts where ts: "validateData trades = Inr ts" and i: "15 * 10 ^ 9 \<le> i"
    using assms(1) by (auto simp: CreateKline_def FifteenSecond_def split: sum.splits if_splits)
  have i0: "0 < i" using i by simp
  have m: "mset ts = mset trades" and sorted: "trades_sorted ts" and ne: "ts \<noteq> []"
    using ts sorted_trades [of trades] mset_slice_sort [of "\<lambda>a b. th_Timestamp a < th_Timestamp b" trades]
    by (auto simp: validateData_def split: if_splits option.splits dest!: arg_cong [where f = mset])
  let ?first = "th_Timestamp (hd ts)" and ?last = "th_Timestamp (last ts)"
  let ?start = "time_Truncate ?first i" and ?stop = "time_Truncate ?last i"
  have sets: "set ts = set trades" using m by (metis set_mset_mset)
  have fl: "?first \<le> ?last" using sorted_hd [OF sorted, of "last ts"] ne by simp
  have se: "?start \<le> ?stop" using Truncate_mono [OF fl i0] .
  have bound: "?last - ?first + 2 * i < 2 ^ 63"
    using assms(2) ne sets by (metis last_in_set list.set_sel(1))
  note T = Truncate_bounds [OF i0, of ?first] Truncate_bounds [OF i0, of ?last]
  define n where "n = nat ((?stop - ?start) div i) + 1"
  have dv: "i dvd ?stop - ?start" using Truncate_dvd [OF i0] by (intro dvd_diff)
  then have ni: "int n * i = ?stop - ?start + i"
    using se i0 by (auto simp: n_def algebra_simps pos_imp_zdiv_nonneg_iff)
  have sub: "time_Sub (?stop + i) ?start = ?stop - ?start + i"
    using bound se i0 T by (simp add: time_Sub_def max_duration_def)
  have nn: "nat (time_Sub (?stop + i) ?start sdiv i) = n"
    unfolding sub using se i0 dv
    by (simp add: sdiv_pos n_def Suc_nat_eq_nat_zadd1 pos_imp_zdiv_nonneg_iff add.commute)
  have inside: "list_all (\<lambda>t. ?start \<le> th_Timestamp t \<and> th_Timestamp t < ?start + int n * i) ts"
    using sorted_hd [OF sorted] sorted_last [OF sorted] T unfolding ni list_all_iff by fastforce
  have "candle_loop i ts 0 ?start n = window_candles i ts ?start n"
  proof (rule candle_loop [OF sorted _ i0 _ ne])
    show "list_all (\<lambda>t. ?start \<le> th_Timestamp t \<and> th_Timestamp t - ?start < 2 ^ 63) ts"
      using sorted_hd [OF sorted] sorted_last [OF sorted] T bound i0 unfolding list_all_iff by fastforce
    have "int (n - 1) * i = ?stop - ?start" using ni by (simp add: n_def algebra_simps)
    then show "?start + int (n - 1) * i \<le> ?last" using T by simp
  qed simp
  also have "\<dots> = map (\<lambda>j. candle_of (?start + int j * i) (filter (in_window (?start + int j * i) i) ts)) [0..<n]"
    using inside by (intro window_candles [OF sorted _ i0]) (auto simp: list_all_iff)
  finally have "k = new_item exch p a i
      (map (\<lambda>j. candle_of (?start + int j * i) (filter (in_window (?start + int j * i) i) ts)) [0..<n])"
    using assms(1) i ts nn by (simp add: CreateKline_def FifteenSecond_def Let_def)
  from that [OF ts refl n_def i0 this sorted m inside] show thesis .
qed

text \<open>What a candle holds of the candles it joins.  A trade is a candle of its own.\<close>

definition candle_fits :: "candle \<Rightarrow> candle list \<Rightarrow> bool" where
  "candle_fits c xs \<longleftrightarrow>
     cn_Open c = cn_Open (hd xs) \<and> cn_Close c = cn_Close (last xs) \<and>
     cn_Low c \<in> cn_Low ` set xs \<and> cn_High c \<in> cn_High ` set xs \<and>
     list_all (\<lambda>x. cn_Low c \<le> cn_Low x \<and> cn_High x \<le> cn_High c) xs \<and>
     cn_Volume c = fold (\<lambda>x v. v + cn_Volume x) xs 0"

definition positive_candle :: "candle \<Rightarrow> bool" where
  "positive_candle x \<longleftrightarrow> 0 < cn_Open x \<and> 0 < cn_High x \<and> 0 < cn_Low x"

definition joined :: "time \<Rightarrow> candle list \<Rightarrow> candle" where
  "joined start xs = fold join_candle xs (zero_candle\<lparr>cn_Time := start\<rparr>)"

lemma positive_price: "0 < (x :: f64) \<Longrightarrow> \<not> feq x 0 \<and> x \<noteq> NaN"
  using f64_less_not_feq feq_sym by auto

lemma feq_zero [simp]: "feq 0 0"
  by (simp add: zero_f64_def feq_def)

lemma joined_snoc: "joined start (xs @ [x]) = join_candle x (joined start xs)"
  by (simp add: joined_def)

lemma joined_one:
  assumes "positive_candle x"
  shows "candle_fits (joined start [x]) [x]"
proof -
  have "candle_fits (join_candle x c) [x]"
    if "cn_Open c = 0 \<and> cn_High c = 0 \<and> cn_Low c = 0 \<and> cn_Volume c = 0" for c
    using assms that positive_price
    by (simp add: candle_fits_def positive_candle_def join_candle_def Let_def f64_le_refl)
  then show ?thesis by (simp add: joined_def zero_candle_def)
qed

lemma join_candle_fits:
  assumes c: "candle_fits c xs" and "xs \<noteq> []" and pos: "list_all positive_candle (xs @ [x])"
  shows "candle_fits (join_candle x c) (xs @ [x])"
proof -
  have o: "\<not> feq (cn_Open c) 0" and l: "\<not> feq (cn_Low c) 0" "cn_Low c \<noteq> NaN" and h: "cn_High c \<noteq> NaN"
    and p: "cn_Low x \<noteq> NaN" "cn_High x \<noteq> NaN"
    using c pos positive_price \<open>xs \<noteq> []\<close> by (auto simp: candle_fits_def positive_candle_def list_all_iff)
  let ?low = "if cn_Low x < cn_Low c then cn_Low x else cn_Low c"
  let ?high = "if cn_High c < cn_High x then cn_High x else cn_High c"
  let ?time = "if IsZero (cn_Time c) then cn_Time x else cn_Time c"
  have nt: "join_candle x c = c\<lparr>cn_Time := ?time, cn_High := ?high, cn_Low := ?low,
      cn_Close := cn_Close x, cn_Volume := cn_Volume c + cn_Volume x\<rparr>"
    using o l by (simp add: join_candle_def Let_def)
  have "?low \<le> cn_Low u \<and> cn_High u \<le> ?high" if "u \<in> set (xs @ [x])" for u
  proof (cases "u \<in> set xs")
    case True
    then have b: "cn_Low c \<le> cn_Low u" "cn_High u \<le> cn_High c"
      using c by (auto simp: candle_fits_def list_all_iff)
    have "cn_Low x < cn_Low c \<Longrightarrow> cn_Low x \<le> cn_Low u"
      using f64_less_le_trans [OF _ b(1)] by (simp add: f64_less_imp_le)
    moreover have "cn_High c < cn_High x \<Longrightarrow> cn_High u \<le> cn_High x"
      using f64_le_less_trans [OF b(2)] by (simp add: f64_less_imp_le)
    ultimately show ?thesis using b by simp
  next
    case False
    then have "u = x" using that by simp
    then show ?thesis using p l h by (simp add: f64_le_refl f64_not_less)
  qed
  then show ?thesis
    using c \<open>xs \<noteq> []\<close> unfolding nt by (auto simp: candle_fits_def list_all_iff)
qed

lemma joined_fits:
  "xs \<noteq> [] \<Longrightarrow> list_all positive_candle xs \<Longrightarrow> candle_fits (joined start xs) xs"
proof (induction xs rule: rev_induct)
  case (snoc x xs)
  show ?case
  proof (cases "xs = []")
    case True
    with snoc.prems show ?thesis by (simp add: joined_one)
  next
    case False
    then show ?thesis
      unfolding joined_snoc using snoc by (intro join_candle_fits) auto
  qed
qed simp

definition tick :: "time \<Rightarrow> trade_history \<Rightarrow> candle" where
  "tick start t =
     \<lparr>cn_Time = start, cn_Open = th_Price t, cn_High = th_Price t, cn_Low = th_Price t,
      cn_Close = th_Price t, cn_Volume = th_Amount t, cn_ValidationIssues = []\<rparr>"

lemma candle_of_joined: "candle_of start ts = joined start (map (tick start) ts)"
proof -
  have "trade_candle t c = join_candle (tick start t) c \<and> cn_Time (trade_candle t c) = start"
    if "cn_Time c = start" for t c
    using that by (simp add: trade_candle_def join_candle_def tick_def Let_def)
  note step = this
  have "cn_Time c = start \<Longrightarrow> fold trade_candle ts c = fold join_candle (map (tick start) ts) c" for c
  proof (induction ts arbitrary: c)
    case (Cons t ts)
    note t = step [OF Cons.prems, of t]
    show ?case using Cons.IH [OF conjunct2 [OF t]] conjunct1 [OF t] by simp
  qed simp
  then show ?thesis by (simp add: candle_of_def joined_def)
qed

lemma candle_of_Time [simp]: "cn_Time (candle_of start ts) = start"
proof -
  have "cn_Time (trade_candle t c) = cn_Time c" for t c
    by (simp add: trade_candle_def Let_def)
  then have "cn_Time (fold trade_candle ts c) = cn_Time c" for c
    by (induction ts arbitrary: c) auto
  then show ?thesis by (simp add: candle_of_def)
qed

lemma candle_of_fits:
  "ts \<noteq> [] \<Longrightarrow> list_all (\<lambda>t. 0 < th_Price t) ts \<Longrightarrow>
     candle_fits (candle_of start ts) (map (tick start) ts)"
  unfolding candle_of_joined
  by (rule joined_fits) (auto simp: list_all_iff positive_candle_def tick_def)

section \<open>Lemmas on padding, filters and conversion\<close>

text \<open>The candle of a list at a time, or an empty one.\<close>

definition candle_at :: "candle list \<Rightarrow> time \<Rightarrow> candle" where
  "candle_at cs t =
     (case find (\<lambda>c. cn_Time c = t) cs of Some c \<Rightarrow> c | None \<Rightarrow> zero_candle\<lparr>cn_Time := t\<rparr>)"

abbreviation candles_sorted :: "candle list \<Rightarrow> bool" where
  "candles_sorted \<equiv> sorted_wrt (\<lambda>a b. cn_Time a < cn_Time b)"

lemma candle_at_Time [simp]: "cn_Time (candle_at cs t) = t"
  by (auto simp: candle_at_def find_Some_iff split: option.split)

lemma candle_at_Cons: "candle_at (c # cs) t = (if cn_Time c = t then c else candle_at cs t)"
  by (simp add: candle_at_def)

lemma candle_at_early: "\<forall>c \<in> set cs. t < cn_Time c \<Longrightarrow> candle_at cs t = zero_candle\<lparr>cn_Time := t\<rparr>"
  by (induction cs) (auto simp: candle_at_Cons, simp add: candle_at_def)

text \<open>A candle off the grid is an error, unless it lies in the last slot.\<close>

definition misaligned :: "interval \<Rightarrow> time \<Rightarrow> nat \<Rightarrow> candle list \<Rightarrow> bool" where
  "misaligned i start n cs \<longleftrightarrow>
     list_ex (\<lambda>c. \<not> i dvd cn_Time c - start \<and> cn_Time c < start + (int n - 1) * i) cs"

lemma misaligned_step: "misaligned i (start + i) n cs = misaligned i start (Suc n) cs"
proof -
  have eq: "i dvd cn_Time c - (start + i) \<longleftrightarrow> i dvd cn_Time c - start" for c
    using dvd_add_right_iff [of i i "cn_Time c - (start + i)"] by simp
  have "start + i + (int n - 1) * i = start + (int (Suc n) - 1) * i" by (simp add: algebra_simps)
  then show ?thesis by (simp only: misaligned_def eq)
qed

lemma grid_shift:
  "map (\<lambda>j. f (start + int j * i)) [0..<Suc n] =
     f start # map (\<lambda>j. f (start + i + int j * i)) [0..<n]"
  by (simp add: upt_conv_Cons map_Suc_upt [symmetric] algebra_simps del: upt_Suc map_Suc_upt)

lemma pad_loop:
  assumes "candles_sorted cs" and "0 < i" and "\<forall>c \<in> set cs. start - i < cn_Time c"
  shows "pad_loop i start n cs =
    (if misaligned i start n cs
     then Inl (Errorf ''%w '%s' should be '%s' at '%s' interval'' [errCandleOpenTimeIsNotUTCAligned])
     else Inr (map (\<lambda>j. candle_at cs (start + int j * i)) [0..<n]))"
  using assms
proof (induction n arbitrary: cs start)
  case 0
  then show ?case by (fastforce simp: misaligned_def list_ex_iff)
next
  case (Suc n)
  show ?case
  proof (cases cs)
    case Nil
    then show ?thesis
      using Suc.IH [of "[]" "start + i"] \<open>0 < i\<close>
      by (simp add: grid_shift [of "\<lambda>t. zero_candle\<lparr>cn_Time := t\<rparr>"] misaligned_def candle_at_def
          del: upt_Suc)
  next
    case (Cons c cs')
    have nn: "0 \<le> int n * i" using \<open>0 < i\<close> by simp
    consider "cn_Time c < start" | "cn_Time c = start" | "start < cn_Time c" by linarith
    then show ?thesis
    proof cases
      case 1
      have "\<not> i dvd cn_Time c - start"
        using 1 Suc.prems(2,3) Cons zdvd_not_zless [of "start - cn_Time c" i]
        by (simp add: dvd_diff_commute)
      then have "misaligned i start (Suc n) cs"
        using 1 nn Cons by (simp add: misaligned_def)
      then show ?thesis using 1 Cons by simp
    next
      case 2
      have "pad_loop i (start + i) n cs' =
          (if misaligned i (start + i) n cs'
           then Inl (Errorf ''%w '%s' should be '%s' at '%s' interval'' [errCandleOpenTimeIsNotUTCAligned])
           else Inr (map (\<lambda>j. candle_at cs' (start + i + int j * i)) [0..<n]))"
        using Suc.prems Cons 2 by (intro Suc.IH) auto
      moreover have "misaligned i start (Suc n) cs = misaligned i start (Suc n) cs'"
        using 2 Cons by (simp add: misaligned_def)
      moreover have "candle_at cs (start + i + int j * i) = candle_at cs' (start + i + int j * i)" for j
      proof -
        have "0 \<le> int j * i" using \<open>0 < i\<close> by simp
        then have "start \<noteq> start + i + int j * i" using \<open>0 < i\<close> by linarith
        then show ?thesis using 2 Cons by (simp add: candle_at_Cons)
      qed
      moreover have "candle_at cs start = c" using 2 Cons by (simp add: candle_at_Cons)
      moreover have "pad_loop i start (Suc n) cs = map_sum id ((#) c) (pad_loop i (start + i) n cs')"
        using 2 Cons by simp
      ultimately show ?thesis
        by (simp add: grid_shift misaligned_step del: upt_Suc pad_loop.simps)
    next
      case 3
      have early: "\<forall>d \<in> set cs. start < cn_Time d" using 3 Suc.prems(1) Cons by auto
      then have "pad_loop i (start + i) n cs =
          (if misaligned i (start + i) n cs
           then Inl (Errorf ''%w '%s' should be '%s' at '%s' interval'' [errCandleOpenTimeIsNotUTCAligned])
           else Inr (map (\<lambda>j. candle_at cs (start + i + int j * i)) [0..<n]))"
        using Suc.prems by (intro Suc.IH) auto
      then show ?thesis
        using 3 Cons candle_at_early [OF early]
        by (simp add: grid_shift misaligned_step del: upt_Suc)
    qed
  qed
qed

text \<open>The first candle of every second.\<close>

fun firsts :: "int list \<Rightarrow> candle list \<Rightarrow> candle list" where
  "firsts seen [] = []"
| "firsts seen (c # cs) =
     (let key = time_Unix (cn_Time c)
      in if key \<in> set seen then firsts seen cs else c # firsts (key # seen) cs)"

lemma dedup_drop: "target \<le> i \<Longrightarrow> dedup_loop seen i target cs = take target cs @ firsts seen (drop i cs)"
proof (induction seen i target cs rule: dedup_loop.induct)
  case (1 seen i target cs)
  show ?case
  proof (cases "i < length cs")
    case True
    then have d: "drop i cs = cs ! i # drop (Suc i) cs" by (simp add: Cons_nth_drop_Suc)
    show ?thesis
      using 1 True d
      by (subst dedup_loop.simps) (auto simp: Let_def take_Suc_conv_app_nth)
  next
    case False
    then show ?thesis by (subst dedup_loop.simps) simp
  qed
qed

lemma firsts_props:
  "distinct (map (time_Unix \<circ> cn_Time) (firsts seen cs)) \<and>
   set (firsts seen cs) \<subseteq> set cs \<and>
   (time_Unix \<circ> cn_Time) ` set (firsts seen cs) = (time_Unix \<circ> cn_Time) ` set cs - set seen"
  by (induction seen cs rule: firsts.induct) (auto simp: Let_def)

text \<open>The candle of a group of candles: those with values are joined.\<close>

definition group_candle :: "candle list \<Rightarrow> candle" where
  "group_candle g = joined 0 (filter has_values g)"

definition group_at :: "nat \<Rightarrow> candle list \<Rightarrow> nat \<Rightarrow> candle list" where
  "group_at per cs j = take per (drop (j * per) cs)"

abbreviation add_value :: "candle \<Rightarrow> candle \<Rightarrow> candle" where
  "add_value \<equiv> \<lambda>c g. if has_values c then join_candle c g else g"

lemma group_candle_fold: "group_candle g = fold add_value g zero_candle"
proof -
  have "zero_candle\<lparr>cn_Time := 0\<rparr> = zero_candle" by (simp add: zero_candle_def)
  moreover have "fold join_candle (filter has_values g) c = fold add_value g c" for c
    by (induction g arbitrary: c) auto
  ultimately show ?thesis by (simp add: group_candle_def joined_def)
qed

lemma convert_group:
  assumes "g \<noteq> []" and "length g \<le> per" and "(x + length g) mod per = 0" and "target < length new"
  shows "convert_loop per x target (g @ rest) new =
    (let new = new[target := fold add_value g (new ! target)]
     in if length rest < per then new
        else convert_loop per (x + length g) (target + 1) rest new)"
  using assms
proof (induction g arbitrary: x new)
  case (Cons c g)
  let ?new = "if has_values c then new[target := join_candle c (new ! target)] else new"
  have v: "?new ! target = add_value c (new ! target)" "length ?new = length new"
    using Cons.prems(4) by auto
  have u: "?new[target := y] = new[target := y]" for y by simp
  show ?case
  proof (cases "g = []")
    case True
    then show ?thesis using Cons.prems(3,4) by (simp add: Let_def)
  next
    case False
    have "(x + 1) mod per \<noteq> 0"
    proof
      assume a: "(x + 1) mod per = 0"
      have "(x + 1 + length g) mod per = 0" using Cons.prems(3) by simp
      then have "length g mod per = 0" using a by (metis mod_add_left_eq add_0)
      moreover have "length g < per" "0 < length g" using False Cons.prems(2) by auto
      ultimately show False by simp
    qed
    then have "convert_loop per x target ((c # g) @ rest) new =
        convert_loop per (x + 1) target (g @ rest) ?new"
      by (simp add: Let_def)
    also have "\<dots> = (let new = ?new[target := fold add_value g (?new ! target)]
     in if length rest < per then new
        else convert_loop per (x + 1 + length g) (target + 1) rest new)"
      using False Cons.prems v(2) by (intro Cons.IH) auto
    finally show ?thesis unfolding v u by (simp add: Let_def)
  qed
qed simp

lemma convert_step:
  assumes "0 < per" and "per \<le> length cs" and "x mod per = 0" and "target = length pre"
  shows "convert_loop per x target cs (pre @ zero_candle # zs) =
    (if length (drop per cs) < per then pre @ group_candle (take per cs) # zs
     else convert_loop per (x + per) (target + 1) (drop per cs) (pre @ group_candle (take per cs) # zs))"
proof -
  have len: "length (take per cs) = per" "take per cs \<noteq> []" using assms(1,2) by auto
  have "convert_loop per x target (take per cs @ drop per cs) (pre @ zero_candle # zs) =
      (let new = (pre @ zero_candle # zs)[target := fold add_value (take per cs)
                   ((pre @ zero_candle # zs) ! target)]
       in if length (drop per cs) < per then new
          else convert_loop per (x + length (take per cs)) (target + 1) (drop per cs) new)"
    using assms len by (intro convert_group) auto
  then show ?thesis using len assms(4) by (simp add: group_candle_fold Let_def del: length_drop)
qed

lemma convert_loop:
  assumes "0 < per" and "length cs div per = Suc m" and "x mod per = 0"
    and "target = length pre"
  shows "convert_loop per x target cs (pre @ replicate (Suc m) zero_candle) =
    pre @ map (\<lambda>j. group_candle (group_at per cs j)) [0..<Suc m]"
  using assms
proof (induction m arbitrary: cs x target pre)
  case (0 cs x target pre)
  then have "per \<le> length cs" by (metis div_less not_less old.nat.distinct(2))
  moreover have "length (drop per cs) < per"
    using 0 by (metis One_nat_def add.commute div_eq_dividend_iff length_drop less_diff_conv2 
        dividend_less_times_div mult_1_right calculation)
  ultimately show ?case
    using convert_step [of per cs x target pre "[]"] 0 by (simp add: group_at_def)
next
  case (Suc m cs x target pre)
  then have per: "per \<le> length cs" by (metis div_less not_less old.nat.distinct(2))
  have d: "length (drop per cs) div per = Suc m"
    using Suc.prems(1,2) per by (simp add: le_div_geq)
  then have rest: "\<not> length (drop per cs) < per" by auto
  have shift: "group_at per (drop per cs) j = group_at per cs (Suc j)" for j
    by (simp add: group_at_def add.commute)
  have "convert_loop per x target cs (pre @ replicate (Suc (Suc m)) zero_candle) =
      convert_loop per (x + per) (target + 1) (drop per cs)
        ((pre @ [group_candle (take per cs)]) @ replicate (Suc m) zero_candle)"
    using convert_step [of per cs x target pre "replicate (Suc m) zero_candle"] per rest Suc.prems by simp
  also have "\<dots> = (pre @ [group_candle (take per cs)]) @
      map (\<lambda>j. group_candle (group_at per (drop per cs) j)) [0..<Suc m]"
    using Suc.prems d by (intro Suc.IH) auto
  also have "\<dots> = pre @ map (\<lambda>j. group_candle (group_at per cs j)) [0..<Suc (Suc m)]"
    unfolding shift
    by (simp add: upt_conv_Cons map_Suc_upt [symmetric] group_at_def del: upt_Suc map_Suc_upt)
  finally show ?case .
qed

lemma ConvertToNewInterval_candles:
  assumes "ConvertToNewInterval (Some k) i = Some (Inr k')"
  obtains per where "i = int per * ki_Interval k" and "2 \<le> per" and "per \<le> length (ki_Candles k)"
    and "k' = new_item (ki_Exchange k) (ki_Pair k) (ki_Asset k) i
      (map (\<lambda>j. group_candle (group_at per (ki_Candles k) j)) [0..<length (ki_Candles k) div per])"
proof -
  let ?cs = "ki_Candles k"
  define per where "per = nat (i sdiv ki_Interval k)"
  have c: "0 < ki_Interval k" "ki_Interval k < i" "i mod ki_Interval k = 0" "length ?cs div per \<noteq> 0"
    and k': "k' = new_item (ki_Exchange k) (ki_Pair k) (ki_Asset k) i
      (convert_loop per 0 0 ?cs (replicate (length ?cs div per) zero_candle))"
    using assms
    by (auto simp: ConvertToNewInterval_def Let_def per_def split: if_splits)
  have d: "i = int per * ki_Interval k"
    using c by (auto simp: per_def sdiv_pos pos_imp_zdiv_nonneg_iff)
  have "per \<noteq> 0" "per \<noteq> 1" using d c(1,2) by auto
  then have p2: "2 \<le> per" by simp
  obtain m where m: "length ?cs div per = Suc m" using c(4) not0_implies_Suc by blast
  have "convert_loop per 0 0 ?cs ([] @ replicate (Suc m) zero_candle) =
      [] @ map (\<lambda>j. group_candle (group_at per ?cs j)) [0..<Suc m]"
    using p2 m by (intro convert_loop) auto
  then have "k' = new_item (ki_Exchange k) (ki_Pair k) (ki_Asset k) i
      (map (\<lambda>j. group_candle (group_at per ?cs j)) [0..<length ?cs div per])"
    unfolding k' m by simp
  moreover have "per \<le> length ?cs" using m by (metis div_less not_less old.nat.distinct(2))
  ultimately show thesis using that d p2 by blast
qed

section \<open>Properties\<close>

text \<open>C25: candles of trades partition them: the candles start at consecutive multiples of
  the interval, candle \<open>j\<close> is made of the trades of its window in order of time, and the windows
  together hold every trade once.\<close>

theorem kline_trades:
  assumes "CreateKline trades i p a exch = Inr k"
    and "\<forall>t \<in> set trades. \<forall>u \<in> set trades. th_Timestamp t - th_Timestamp u + 2 * i < 2 ^ 63"
  shows "case validateData trades of
     Inl e \<Rightarrow> False
   | Inr ts \<Rightarrow>
       \<exists>start n. i dvd start \<and>
         ki_Candles k =
           map (\<lambda>j. candle_of (start + int j * i) (filter (in_window (start + int j * i) i) ts)) [0..<n] \<and>
         mset (concat (map (\<lambda>j. filter (in_window (start + int j * i) i) ts) [0..<n])) = mset trades"
proof (rule CreateKline_candles [OF assms])
  fix ts start n
  assume a: "validateData trades = Inr ts" "start = time_Truncate (th_Timestamp (hd ts)) i" "0 < i"
    "k = new_item exch p a i (map (\<lambda>j. candle_of (start + int j * i)
       (filter (in_window (start + int j * i) i) ts)) [0..<n])" "mset ts = mset trades"
    "list_all (\<lambda>t. start \<le> th_Timestamp t \<and> th_Timestamp t < start + int n * i) ts"
  have "filter_mset (\<lambda>t. start \<le> th_Timestamp t \<and> th_Timestamp t < start + int n * i) (mset ts) = mset ts"
    using a(6) by (simp add: filter_mset_eq_conv list_all_iff)
  then have "mset (concat (map (\<lambda>j. filter (in_window (start + int j * i) i) ts) [0..<n])) = mset trades"
    unfolding windows_partition [OF a(3)] using a(5) by simp
  then show ?thesis
    using a Truncate_dvd [OF a(3), of "th_Timestamp (hd ts)"]
    by (auto simp: new_item_def intro!: exI [of _ start] exI [of _ n])
qed

text \<open>Also: a candle of trades with positive prices opens with the first and closes with
  the last of its trades; its low and its high are prices of its trades, between which all of
  them lie, and its volume is the sum of their amounts, added in order.\<close>

theorem candle_prices:
  assumes "ts \<noteq> []" and "list_all (\<lambda>t. 0 < th_Price t) ts"
  shows "let c = candle_of start ts
   in cn_Time c = start \<and> cn_Open c = th_Price (hd ts) \<and> cn_Close c = th_Price (last ts) \<and>
      cn_Low c \<in> th_Price ` set ts \<and> cn_High c \<in> th_Price ` set ts \<and>
      list_all (\<lambda>t. cn_Low c \<le> th_Price t \<and> th_Price t \<le> cn_High c) ts \<and>
      cn_Volume c = fold (\<lambda>t v. v + th_Amount t) ts 0"
proof -
  have "fold (\<lambda>x v. v + cn_Volume x) (map (tick start) ts) w = fold (\<lambda>t v. v + th_Amount t) ts w" for w
    by (induction ts arbitrary: w) (auto simp: tick_def)
  then show ?thesis
    using candle_of_fits [OF assms, of start] assms(1)
    by (auto simp: candle_fits_def Let_def hd_map last_map list_all_iff image_image tick_def)
qed

text \<open>Also: padding puts exactly one candle in every slot of the window, the given one or an
  empty one, and refuses candles off the grid: but not one that lies off the grid in the last slot,
  which is dropped.\<close>

theorem padding:
  assumes "candles_sorted (ki_Candles k)" and "\<forall>c \<in> set (ki_Candles k). start \<le> cn_Time c"
    and "0 < ki_Interval k" and "start < end_time" and "end_time - start < 2 ^ 63"
  shows "let n = nat ((end_time - start) div ki_Interval k)
   in case addPadding (Some k) start end_time False of
     None \<Rightarrow> False
   | Some (Inl e) \<Rightarrow> misaligned (ki_Interval k) start n (ki_Candles k)
   | Some (Inr k') \<Rightarrow>
       \<not> misaligned (ki_Interval k) start n (ki_Candles k) \<and>
       k' = k\<lparr>ki_Candles :=
         map (\<lambda>j. candle_at (ki_Candles k) (start + int j * ki_Interval k)) [0..<n]\<rparr>"
proof -
  let ?n = "nat ((end_time - start) div ki_Interval k)"
  have w: "time_Sub end_time start = end_time - start"
    using assms(4,5) by (simp add: time_Sub_def max_duration_def)
  have "\<forall>c \<in> set (ki_Candles k). start - ki_Interval k < cn_Time c" using assms(2,3) by auto
  note p = pad_loop [OF assms(1,3) this, of ?n]
  show ?thesis
    using assms(3,4) by (simp add: addPadding_def w p Let_def sdiv_pos)
qed

text \<open>Also: removing duplicates keeps the first candle of every second, in the given order:
  of candles at intervals below a second all but one in each second are lost.\<close>

theorem dedup_seconds:
  "let cs = ki_Candles (RemoveDuplicates k)
   in cs = firsts [] (ki_Candles k) \<and>
      distinct (map (time_Unix \<circ> cn_Time) cs) \<and> set cs \<subseteq> set (ki_Candles k) \<and>
      (time_Unix \<circ> cn_Time) ` set cs = (time_Unix \<circ> cn_Time) ` set (ki_Candles k)"
  using firsts_props [of "[]" "ki_Candles k"] by (simp add: RemoveDuplicates_def dedup_drop Let_def)

text \<open>C24: a conversion to a longer interval joins every group of consecutive candles that
  makes up the new interval and leaves out an incomplete last one.  A new candle opens and closes
  with the first and the last candle of its group that has values, its low and high are theirs and
  its volume is the sum of theirs.\<close>

theorem conversion:
  assumes "ConvertToNewInterval (Some k) i = Some (Inr k')"
    and "list_all (\<lambda>c. has_values c \<longrightarrow> positive_candle c) (ki_Candles k)"
  shows "\<exists>per. i = int per * ki_Interval k \<and> 2 \<le> per \<and> ki_Interval k' = i \<and>
    length (ki_Candles k') = length (ki_Candles k) div per \<and>
    list_all (\<lambda>j.
        let c = ki_Candles k' ! j; g = filter has_values (group_at per (ki_Candles k) j)
        in if g = [] then c = zero_candle else candle_fits c g)
      [0..<length (ki_Candles k) div per]"
proof (rule ConvertToNewInterval_candles [OF assms(1)])
  fix per
  assume per: "i = int per * ki_Interval k" "2 \<le> per"
    and k': "k' = new_item (ki_Exchange k) (ki_Pair k) (ki_Asset k) i
      (map (\<lambda>j. group_candle (group_at per (ki_Candles k) j)) [0..<length (ki_Candles k) div per])"
  have "candle_fits (group_candle (group_at per (ki_Candles k) j))
      (filter has_values (group_at per (ki_Candles k) j))"
    if "filter has_values (group_at per (ki_Candles k) j) \<noteq> []" for j
    unfolding group_candle_def using that assms(2)
    by (intro joined_fits) (auto simp: list_all_iff group_at_def dest!: in_set_takeD in_set_dropD)
  moreover have "joined 0 [] = zero_candle" by (simp add: joined_def zero_candle_def)
  ultimately show ?thesis
    using per unfolding k'
    by (intro exI [of _ per]) (auto simp: new_item_def list_all_iff Let_def group_candle_def)
qed

text \<open>Also: a converted candle has the time of the first candle of its group that has
  values, not the time the group starts at, and no time at all if none has.\<close>

theorem converted_times:
  assumes "ConvertToNewInterval (Some k) i = Some (Inr k')"
    and "list_all (\<lambda>c. cn_Time c \<noteq> 0) (ki_Candles k)"
  shows "\<exists>per. i = int per * ki_Interval k \<and>
    map cn_Time (ki_Candles k') =
      map (\<lambda>j. case filter has_values (group_at per (ki_Candles k) j) of
                 [] \<Rightarrow> 0 | c # _ \<Rightarrow> cn_Time c)
        [0..<length (ki_Candles k) div per]"
proof (rule ConvertToNewInterval_candles [OF assms(1)])
  fix per
  assume per: "i = int per * ki_Interval k"
    and k': "k' = new_item (ki_Exchange k) (ki_Pair k) (ki_Asset k) i
      (map (\<lambda>j. group_candle (group_at per (ki_Candles k) j)) [0..<length (ki_Candles k) div per])"
  have keep: "cn_Time c \<noteq> 0 \<Longrightarrow> cn_Time (fold join_candle xs c) = cn_Time c" for xs c
    by (induction xs arbitrary: c) (auto simp: join_candle_def Let_def IsZero_def)
  have first: "cn_Time (joined 0 xs) = (case xs of [] \<Rightarrow> 0 | c # _ \<Rightarrow> cn_Time c)"
    if "\<forall>c \<in> set xs. cn_Time c \<noteq> 0" for xs
  proof (cases xs)
    case (Cons c ys)
    have "cn_Time (join_candle c (zero_candle\<lparr>cn_Time := 0\<rparr>)) = cn_Time c"
      by (simp add: join_candle_def Let_def IsZero_def)
    then show ?thesis using that keep [of "join_candle c (zero_candle\<lparr>cn_Time := 0\<rparr>)" ys]
      by (simp add: joined_def Cons)
  qed (simp add: joined_def)
  have "cn_Time (group_candle (group_at per (ki_Candles k) j)) =
      (case filter has_values (group_at per (ki_Candles k) j) of [] \<Rightarrow> 0 | c # _ \<Rightarrow> cn_Time c)" for j
    unfolding group_candle_def using assms(2)
    by (intro first) (auto simp: list_all_iff group_at_def dest!: in_set_takeD in_set_dropD)
  then show ?thesis
    using per unfolding k' by (intro exI [of _ per]) (simp add: new_item_def)
qed

section \<open>Instances\<close>

definition demo_trade :: "time \<Rightarrow> rat \<Rightarrow> trade_history" where
  "demo_trade t p =
     \<lparr>th_Price = Fin p, th_Amount = Fin 1, th_Fee = Fin 0, th_Exchange = [], th_TID = [],
      th_Description = [], th_Type = 0, th_Side = 0, th_Timestamp = t, th_IsMaker = False,
      th_FeeAsset = [], th_Total = Fin 0\<rparr>"

definition demo_trades :: "trade_history list" where
  "demo_trades = [demo_trade (6000 * 10 ^ 9) 10, demo_trade (6130 * 10 ^ 9) 12]"

definition demo_candle :: "time \<Rightarrow> candle" where
  "demo_candle t =
     \<lparr>cn_Time = t, cn_Open = Fin 2, cn_High = Fin 3, cn_Low = Fin 1, cn_Close = Fin 2, cn_Volume = Fin 1,
      cn_ValidationIssues = []\<rparr>"

definition demo_item :: kline_item where
  "demo_item =
     new_item ''Kraken'' EMPTYPAIR Spot OneHour
       [zero_candle\<lparr>cn_Time := 2 * OneHour\<rparr>, demo_candle (3 * OneHour)]"

lemma demo_trades_accepted: "\<exists>k. CreateKline demo_trades OneMin EMPTYPAIR Spot ''Kraken'' = Inr k"
  by (simp add: CreateKline_def validateData_def demo_trades_def demo_trade_def FifteenSecond_def
      OneMin_def IsZero_def time_Unix_def zeroValueUnix_def f64_order_defs zero_f64_def Let_def)

theorem kline_trades_witness:
  "\<exists>k. CreateKline demo_trades OneMin EMPTYPAIR Spot ''Kraken'' = Inr k \<and>
     (case validateData demo_trades of
        Inl e \<Rightarrow> False
      | Inr ts \<Rightarrow> \<exists>start n. OneMin dvd start \<and>
          mset (concat (map (\<lambda>j. filter (in_window (start + int j * OneMin) OneMin) ts) [0..<n])) =
            mset demo_trades)"
proof -
  obtain k where k: "CreateKline demo_trades OneMin EMPTYPAIR Spot ''Kraken'' = Inr k"
    using demo_trades_accepted by blast
  have "\<forall>t \<in> set demo_trades. \<forall>u \<in> set demo_trades. th_Timestamp t - th_Timestamp u + 2 * OneMin < 2 ^ 63"
    by (simp add: demo_trades_def demo_trade_def OneMin_def)
  from kline_trades [OF k this] k show ?thesis by (auto split: sum.splits)
qed

theorem candle_prices_witness:
  "cn_Open (candle_of 0 demo_trades) = Fin 10 \<and> cn_Close (candle_of 0 demo_trades) = Fin 12"
proof -
  have "demo_trades \<noteq> []" and "list_all (\<lambda>t. 0 < th_Price t) demo_trades"
    by (simp_all add: demo_trades_def demo_trade_def f64_order_defs zero_f64_def)
  from candle_prices [OF this, of 0] show ?thesis
    by (simp add: demo_trades_def demo_trade_def Let_def)
qed

theorem padding_witness:
  "case addPadding (Some demo_item) OneHour (6 * OneHour) False of
     Some (Inr k') \<Rightarrow> map cn_Time (ki_Candles k') = map (\<lambda>j. OneHour + int j * OneHour) [0..<5]
   | _ \<Rightarrow> False"
proof -
  have 1: "candles_sorted (ki_Candles demo_item)" "\<forall>c \<in> set (ki_Candles demo_item). OneHour \<le> cn_Time c"
    "0 < ki_Interval demo_item" "OneHour < 6 * OneHour" "6 * OneHour - OneHour < 2 ^ 63"
    by (simp_all add: demo_item_def new_item_def demo_candle_def OneHour_def)
  have 2: "\<not> misaligned (ki_Interval demo_item) OneHour n (ki_Candles demo_item)" for n
    by (simp add: misaligned_def demo_item_def new_item_def demo_candle_def OneHour_def)
  have 3: "nat ((6 * OneHour - OneHour) div ki_Interval demo_item) = 5" "ki_Interval demo_item = OneHour"
    by (simp_all add: demo_item_def new_item_def OneHour_def)
  have "OneHour \<noteq> 0" by (simp add: OneHour_def)
  then show ?thesis
    using padding [OF 1] 2 unfolding 3 by (auto simp: Let_def o_def split: option.splits sum.splits)
qed

lemma demo_item_converts: "\<exists>k'. ConvertToNewInterval (Some demo_item) (2 * OneHour) = Some (Inr k')"
  by (simp add: ConvertToNewInterval_def demo_item_def new_item_def demo_candle_def OneHour_def
      time_Sub_def max_duration_def sdiv_pos Let_def)

theorem conversion_witness:
  "\<exists>k'. ConvertToNewInterval (Some demo_item) (2 * OneHour) = Some (Inr k') \<and>
     length (ki_Candles k') = 1"
proof -
  obtain k' where k': "ConvertToNewInterval (Some demo_item) (2 * OneHour) = Some (Inr k')"
    using demo_item_converts by blast
  have "list_all (\<lambda>c. has_values c \<longrightarrow> positive_candle c) (ki_Candles demo_item)"
    by (simp add: demo_item_def new_item_def demo_candle_def has_values_def positive_candle_def
        zero_candle_def f64_order_defs zero_f64_def)
  from conversion [OF k' this] obtain per where "2 * OneHour = int per * ki_Interval demo_item"
    and l: "length (ki_Candles k') = length (ki_Candles demo_item) div per" by blast
  then have "per = 2" by (simp add: demo_item_def new_item_def OneHour_def)
  with l k' show ?thesis by (simp add: demo_item_def new_item_def)
qed

theorem converted_times_witness:
  "\<exists>k'. ConvertToNewInterval (Some demo_item) (2 * OneHour) = Some (Inr k') \<and>
     map cn_Time (ki_Candles k') = [3 * OneHour]"
proof -
  obtain k' where k': "ConvertToNewInterval (Some demo_item) (2 * OneHour) = Some (Inr k')"
    using demo_item_converts by blast
  have "list_all (\<lambda>c. cn_Time c \<noteq> 0) (ki_Candles demo_item)"
    by (simp add: demo_item_def new_item_def demo_candle_def OneHour_def)
  from converted_times [OF k' this] obtain per where p: "2 * OneHour = int per * ki_Interval demo_item"
    and t: "map cn_Time (ki_Candles k') =
      map (\<lambda>j. case filter has_values (group_at per (ki_Candles demo_item) j) of
                 [] \<Rightarrow> 0 | c # _ \<Rightarrow> cn_Time c) [0..<length (ki_Candles demo_item) div per]" by blast
  then have "per = 2" by (simp add: demo_item_def new_item_def OneHour_def)
  with t k' show ?thesis
    by (simp add: demo_item_def new_item_def group_at_def has_values_def demo_candle_def zero_candle_def
        f64_order_defs zero_f64_def)
qed

end
