(* ===== verification/Kline_Ranges.thy ===== *)
theory Kline_Ranges
  imports Kline Go_Rounding
begin

text \<open>
  Date ranges of candles and the intervals of an exchange (\<open>exchanges/kline/kline.go\<close>): how a request
  is cut into ranges that an exchange answers at once, which of their intervals have data, and from
  which supported interval a required one is made.

  The lemmas show that the ranges cut the period into as many intervals as it has, none longer than the
  limit, and which intervals have data.
\<close>

section \<open>Ranges\<close>

record interval_time =
  it_Time :: time
  it_Ticks :: int

record interval_data =
  id_Start :: interval_time
  id_End :: interval_time
  id_HasData :: bool

record interval_range =
  ir_Start :: interval_time
  ir_End :: interval_time
  ir_Intervals :: "interval_data list"

record interval_range_holder =
  ih_Start :: interval_time
  ih_End :: interval_time
  ih_Ranges :: "interval_range list"
  ih_Limit :: int

definition CreateIntervalTime :: "time \<Rightarrow> interval_time" where
  "CreateIntervalTime tt = \<lparr>it_Time = tt, it_Ticks = time_Unix tt\<rparr>"

definition interval_time_Equal :: "interval_time \<Rightarrow> time \<Rightarrow> bool" where
  "interval_time_Equal i tt \<longleftrightarrow> time_Unix tt = it_Ticks i"

text \<open>\<open>int64(f)\<close> of a finite float.\<close>

fun int64_of_f64 :: "f64 \<Rightarrow> int" where
  "int64_of_f64 (Fin q) = (if 0 \<le> q then \<lfloor>q\<rfloor> else \<lceil>q\<rceil>)"
| "int64_of_f64 _ = 0"

text \<open>The number of requests and the limit of each, by the cases of the \<open>switch\<close>.\<close>

definition split_requests :: "int \<Rightarrow> 32 word \<Rightarrow> f64 \<times> 32 word" where
  "split_requests n limit =
     (let requests = f64_of_int n / f64_of_int (uint limit)
      in if requests \<le> 1 then (1, limit)
         else if limit = 0 then (1, word_of_int n)
         else if 0 < requests - f64_of_int (int64_of_f64 requests) then (requests + 1, limit)
         else (requests, limit))"

text \<open>The intervals of one range, and the time after the last.\<close>

fun interval_slots :: "interval \<Rightarrow> time \<Rightarrow> nat \<Rightarrow> interval_data list" where
  "interval_slots i start 0 = []"
| "interval_slots i start (Suc n) =
     \<lparr>id_Start = CreateIntervalTime start, id_End = CreateIntervalTime (start + i), id_HasData = False\<rparr> #
     interval_slots i (start + i) n"

text \<open>The loop over the requests; \<open>make\<close> panics on a negative length.\<close>

fun request_loop :: "interval \<Rightarrow> int \<Rightarrow> int \<Rightarrow> time \<Rightarrow> nat \<Rightarrow> (interval_range list \<times> time) option" where
  "request_loop i limit n start 0 = Some ([], start)"
| "request_loop i limit n start (Suc k) =
     (let n = n - limit; len = (if n < 0 then n + limit else limit)
      in if len < 0 then None
         else
           (let next = start + len * i
            in case request_loop i limit n next k of
                 None \<Rightarrow> None
               | Some (rs, end_time) \<Rightarrow>
                   Some (\<lparr>ir_Start = CreateIntervalTime start, ir_End = CreateIntervalTime next,
                          ir_Intervals = interval_slots i start (nat len)\<rparr> # rs, end_time)))"

definition CalculateCandleDateRanges ::
    "time \<Rightarrow> time \<Rightarrow> time \<Rightarrow> interval \<Rightarrow> 32 word \<Rightarrow> interval_range_holder go_result option" where
  "CalculateCandleDateRanges now start end_time i limit =
     (case StartEndTimeCheck now start end_time of
        err \<Rightarrow>
          if (case err of None \<Rightarrow> False | Some e \<Rightarrow> \<not> errors_is e ErrStartAfterTimeNow)
          then Some (Inl (the err))
          else if i \<le> 0 then Some (Inl ErrInvalidInterval)
          else
            (let start = time_Round start i; end_time = time_Round end_time i;
                 n = time_Sub end_time start sdiv i;
                 (requests, limit) = split_requests n limit
             in case request_loop i (uint limit) n start (nat (int64_of_f64 requests)) of
                  None \<Rightarrow> None
                | Some (rs, requestStart) \<Rightarrow>
                    Some (Inr \<lparr>ih_Start = CreateIntervalTime start, ih_End = CreateIntervalTime requestStart,
                               ih_Ranges = rs, ih_Limit = uint limit\<rparr>)))"

section \<open>Data in the ranges\<close>

text \<open>The loop over the intervals returns from the function at the first that holds the time; the
  loop over the ranges goes on after one that does.\<close>

fun find_interval :: "int \<Rightarrow> interval_data list \<Rightarrow> bool option" where
  "find_interval tu [] = None"
| "find_interval tu (d # ds) =
     (if it_Ticks (id_Start d) \<le> tu \<and> tu < it_Ticks (id_End d) then Some (id_HasData d)
      else find_interval tu ds)"

fun find_range :: "int \<Rightarrow> interval_range list \<Rightarrow> bool" where
  "find_range tu [] = False"
| "find_range tu (r # rs) =
     (if tu < it_Ticks (ir_Start r) \<or> it_Ticks (ir_End r) \<le> tu then find_range tu rs
      else (case find_interval tu (ir_Intervals r) of
              Some b \<Rightarrow> b
            | None \<Rightarrow> find_range tu rs))"

definition HasDataAtDate :: "interval_range_holder \<Rightarrow> time \<Rightarrow> bool" where
  "HasDataAtDate h t =
     (let tu = time_Unix t
      in if tu < it_Ticks (ih_Start h) \<or> it_Ticks (ih_End h) < tu then False
         else find_range tu (ih_Ranges h))"

definition candle_missing :: "candle \<Rightarrow> bool" where
  "candle_missing c \<longleftrightarrow>
     cn_Low c \<le> 0 \<and> cn_High c \<le> 0 \<and> cn_Close c \<le> 0 \<and> cn_Open c \<le> 0 \<and> cn_Volume c \<le> 0"

definition errInvalidPeriod :: go_error where
  "errInvalidPeriod = Sentinel ''kline.errInvalidPeriod''"

text \<open>The loops over ranges and intervals with the candles that are left; a result \<open>Inl\<close> is a return
  from the function, with the intervals set so far.\<close>

fun set_intervals ::
    "interval_data list \<Rightarrow> candle list \<Rightarrow> interval_data list \<times> (go_error option + candle list)" where
  "set_intervals [] cs = ([], Inr cs)"
| "set_intervals (d # ds) cs =
     (case cs of
        [] \<Rightarrow> (d # ds, Inl None)
      | c # cs \<Rightarrow>
          if it_Time (id_Start d) \<noteq> cn_Time c
          then (d # ds, Inl (Some (Errorf ''%w %v expected %v'' [errInvalidPeriod])))
          else (case set_intervals ds cs of
                  (ds, r) \<Rightarrow> (d\<lparr>id_HasData := \<not> candle_missing c\<rparr> # ds, r)))"

fun set_ranges ::
    "interval_range list \<Rightarrow> candle list \<Rightarrow> interval_range list \<times> go_error option" where
  "set_ranges [] cs = ([], None)"
| "set_ranges (r # rs) cs =
     (case set_intervals (ir_Intervals r) cs of
        (ds, Inl err) \<Rightarrow> (r\<lparr>ir_Intervals := ds\<rparr> # rs, err)
      | (ds, Inr cs) \<Rightarrow>
          (case set_ranges rs cs of (rs, err) \<Rightarrow> (r\<lparr>ir_Intervals := ds\<rparr> # rs, err)))"

definition SetHasDataFromCandles ::
    "candle list \<Rightarrow> interval_range_holder \<Rightarrow> interval_range_holder \<times> go_error option" where
  "SetHasDataFromCandles incoming h =
     (case set_ranges (ih_Ranges h) incoming of (rs, err) \<Rightarrow> (h\<lparr>ih_Ranges := rs\<rparr>, err))"

text \<open>The summary, as the stretches its lines tell of: whether there is data, from when, until when.\<close>

record summary_state =
  su_Start :: time
  su_End :: time
  su_prevStart :: time
  su_prevEnd :: time
  su_HasData :: bool
  su_Texts :: "(bool \<times> time \<times> time) list"

definition summary_step :: "bool \<Rightarrow> interval_data \<Rightarrow> summary_state \<Rightarrow> summary_state" where
  "summary_step includeHasData d s =
     (let s = (if id_HasData d
               then (if \<not> su_HasData s \<and> \<not> IsZero (su_End s)
                     then s\<lparr>su_Texts := su_Texts s @ [(False, su_Start s, su_End s)],
                            su_prevStart := su_Start s, su_prevEnd := su_End s,
                            su_Start := it_Time (id_Start d)\<rparr>
                     else s)\<lparr>su_HasData := True\<rparr>
               else (if su_HasData s \<and> \<not> IsZero (su_End s)
                     then s\<lparr>su_Texts := (if includeHasData then su_Texts s @ [(True, su_Start s, su_End s)]
                                        else su_Texts s),
                            su_prevStart := su_Start s, su_prevEnd := su_End s,
                            su_Start := it_Time (id_Start d)\<rparr>
                     else s)\<lparr>su_HasData := False\<rparr>)
      in s\<lparr>su_End := it_Time (id_End d)\<rparr>)"

definition DataSummary :: "bool \<Rightarrow> interval_range_holder \<Rightarrow> (bool \<times> time \<times> time) list" where
  "DataSummary includeHasData h =
     (let s = fold (\<lambda>r. fold (summary_step includeHasData) (ir_Intervals r)) (ih_Ranges h)
                \<lparr>su_Start = it_Time (ih_Start h), su_End = 0, su_prevStart = 0, su_prevEnd = 0,
                 su_HasData = False, su_Texts = []\<rparr>
      in if su_Start s \<noteq> su_prevStart s \<or> su_End s \<noteq> su_prevEnd s
         then (if (su_HasData s \<and> includeHasData) \<or> \<not> su_HasData s
               then su_Texts s @ [(su_HasData s, su_Start s, su_End s)] else su_Texts s)
         else su_Texts s)"

section \<open>The intervals of an exchange\<close>

record interval_capacity =
  ic_Interval :: interval
  ic_Capacity :: int

record exchange_intervals =
  ei_supported :: "interval \<rightharpoonup> int"
  ei_aligned :: "interval_capacity list"

record exchange_capabilities_enabled =
  ec_Intervals :: exchange_intervals
  ec_GlobalResultLimit :: "32 word"

definition ErrCannotConstructInterval :: go_error where
  "ErrCannotConstructInterval = Sentinel ''kline.ErrCannotConstructInterval''"
definition errExchangeCapabilitiesEnabledIsNil :: go_error where
  "errExchangeCapabilitiesEnabledIsNil = Sentinel ''kline.errExchangeCapabilitiesEnabledIsNil''"
definition errIntervalNotSupported :: go_error where
  "errIntervalNotSupported = Sentinel ''kline.errIntervalNotSupported''"
definition errCannotFetchIntervalLimit :: go_error where
  "errCannotFetchIntervalLimit = Sentinel ''kline.errCannotFetchIntervalLimit''"

definition DeployExchangeIntervals :: "interval_capacity list \<Rightarrow> exchange_intervals" where
  "DeployExchangeIntervals enabled =
     (let aligned = slice_sort (\<lambda>a b. ic_Interval a < ic_Interval b) enabled
      in \<lparr>ei_supported = fold (\<lambda>x m. m(ic_Interval x \<mapsto> ic_Capacity x)) aligned Map.empty,
          ei_aligned = aligned\<rparr>)"

definition ExchangeSupported :: "exchange_intervals \<Rightarrow> interval \<Rightarrow> bool" where
  "ExchangeSupported e i \<longleftrightarrow> ei_supported e i \<noteq> None"

text \<open>The loop goes from the end; the remainder by an interval of zero panics.\<close>

fun construct_loop :: "interval \<Rightarrow> interval_capacity list \<Rightarrow> interval go_result option" where
  "construct_loop required [] = Some (Inl ErrCannotConstructInterval)"
| "construct_loop required (x # xs) =
     (if ic_Interval x < required
      then (if ic_Interval x = 0 then None
            else if required smod ic_Interval x = 0 then Some (Inr (ic_Interval x))
            else construct_loop required xs)
      else construct_loop required xs)"

definition Construct :: "exchange_intervals \<Rightarrow> interval \<Rightarrow> interval go_result option" where
  "Construct e required =
     (if required \<le> 0 then Some (Inl ErrInvalidInterval)
      else if ei_supported e required \<noteq> None then Some (Inr required)
      else construct_loop required (rev (ei_aligned e)))"

definition GetIntervalResultLimit ::
    "exchange_capabilities_enabled option \<Rightarrow> interval \<Rightarrow> int go_result" where
  "GetIntervalResultLimit eo i =
     (case eo of
        None \<Rightarrow> Inl errExchangeCapabilitiesEnabledIsNil
      | Some e \<Rightarrow>
          (case ei_supported (ec_Intervals e) i of
             None \<Rightarrow> Inl (Errorf ''[%s] %w'' [errIntervalNotSupported])
           | Some val \<Rightarrow>
               if 0 < val then Inr val
               else if ec_GlobalResultLimit e = 0
               then Inl (Errorf ''%w there is no global result limit set'' [errCannotFetchIntervalLimit])
               else Inr (uint (ec_GlobalResultLimit e))))"

section \<open>Lemmas on the number of requests\<close>

text \<open>Dyadic fractions of small numerators are floats.\<close>

lemma representable_dyadic:
  assumes "\<bar>m\<bar> \<le> 2 ^ 53" and "j \<le> 1074"
  shows "representable (of_int m / 2 ^ j)"
proof -
  have e: "(of_int m / 2 ^ j :: rat) = of_int m * 2 powi (- int j)" for m :: int
    by (simp add: power_int_minus field_simps)
  have "on_grid (of_int m / 2 ^ j :: rat)"
    unfolding on_grid_def e using assms by (intro exI [of _ m] exI [of _ "- int j"]) simp
  moreover have "\<bar>of_int m / 2 ^ j :: rat\<bar> \<le> \<bar>of_int m\<bar>"
    by (simp add: abs_divide divide_le_eq mult_le_cancel_left1)
  moreover have "\<bar>of_int m :: rat\<bar> < overflow_bound"
    using representable_int [OF assms(1)] by (simp add: representable_def)
  ultimately show ?thesis by (simp add: representable_def)
qed

lemma fround_between:
  assumes "representable a" and "representable b" and "0 < a" and "a \<le> q" and "q \<le> b"
  obtains f where "fround s q = Fin f" and "a \<le> f" and "f \<le> b"
proof -
  have lo: "Fin a \<le> fround s q" and hi: "fround s q \<le> Fin b"
    using fround_mono [OF assms(4), of False s] fround_mono [OF assms(5), of s False] assms(1,2)
    by (simp_all add: fround_exact_pos)
  have "\<exists>f. fround s q = Fin f \<and> a \<le> f \<and> f \<le> b"
    using lo hi assms(3) by (cases "fround s q") (auto simp: less_eq_f64_def flt_def feq_def)
  with that show thesis by blast
qed

text \<open>The power of two above the limit.\<close>

lemma power_above:
  assumes "0 < l" and "l < 2 ^ 32"
  obtains j where "j \<le> 32" and "(l :: int) \<le> 2 ^ j" and "2 ^ j < 2 * l"
proof -
  define j where "j = (LEAST j. l \<le> (2 :: int) ^ j)"
  have ex: "l \<le> 2 ^ 32" using assms(2) by simp
  have le: "l \<le> 2 ^ j" unfolding j_def by (rule LeastI [of "\<lambda>j. l \<le> 2 ^ j", OF ex])
  have "j \<le> 32" unfolding j_def by (rule Least_le [of "\<lambda>j. l \<le> 2 ^ j", OF ex])
  moreover have "2 ^ j < 2 * l"
  proof (cases j)
    case 0
    then show ?thesis using assms(1) by simp
  next
    case (Suc j')
    then have "\<not> l \<le> 2 ^ j'"
      using not_less_Least [of j' "\<lambda>j. l \<le> 2 ^ j"] by (simp add: j_def [symmetric])
    then show ?thesis using Suc by simp
  qed
  ultimately show thesis using that le by blast
qed

lemma fraction_bounds:
  fixes n l :: int
  assumes "0 < l" and "l \<le> 2 ^ j" and "0 < n mod l"
  shows "(of_int (n div l) :: rat) + 1 / 2 ^ j \<le> of_int n / of_int l"
    and "(of_int n :: rat) / of_int l \<le> of_int (n div l) + 1 - 1 / 2 ^ j"
proof -
  let ?k = "n div l" and ?r = "n mod l"
  have q: "(of_int n :: rat) / of_int l = of_int ?k + of_int ?r / of_int l"
    using assms(1) by (simp add: field_simps flip: of_int_mult of_int_add)
  have "(of_int l :: rat) \<le> of_int (2 ^ j)" using assms(2) by (simp only: of_int_le_iff)
  then have p: "1 / 2 ^ j \<le> (1 / of_int l :: rat)"
    using assms(1) by (intro divide_left_mono) simp_all
  have r: "1 \<le> ?r" "?r \<le> l - 1" using assms(1,3) pos_mod_bound [of l n] by linarith+
  have "(1 / of_int l :: rat) \<le> of_int ?r / of_int l"
    using r(1) assms(1) by (intro divide_right_mono) auto
  then show "(of_int ?k :: rat) + 1 / 2 ^ j \<le> of_int n / of_int l" using p q by linarith
  have "(of_int ?r :: rat) \<le> of_int (l - 1)" using r(2) by (simp only: of_int_le_iff)
  then have "(of_int ?r :: rat) / of_int l \<le> of_int (l - 1) / of_int l"
    using assms(1) by (intro divide_right_mono) auto
  also have "\<dots> = 1 - 1 / of_int l" using assms(1) by (simp add: field_simps)
  finally show "(of_int n :: rat) / of_int l \<le> of_int ?k + 1 - 1 / 2 ^ j" using p q by linarith
qed

text \<open>The requests are the quotient rounded up.\<close>

definition ceil_div :: "int \<Rightarrow> int \<Rightarrow> int" where
  "ceil_div n l = (if n \<le> l then 1 else if n mod l = 0 then n div l else n div l + 1)"

lemma split_requests:
  assumes "0 \<le> n" and "n < 2 ^ 51" and "limit \<noteq> 0"
  shows "int64_of_f64 (fst (split_requests n limit)) = ceil_div n (uint limit) \<and>
    snd (split_requests n limit) = limit"
proof -
  define l where "l = uint limit"
  let ?q = "(of_int n :: rat) / of_int l"
  have "l \<noteq> 0" using assms(3) by (simp add: l_def uint_0_iff)
  then have l0: "0 < l" using uint_ge_0 [of limit] unfolding l_def by linarith
  have l32: "l < 2 ^ 32" using uint_lt2p [of limit] by (simp add: l_def)
  have "f64_of_int n = Fin (of_int n)" "f64_of_int l = Fin (of_int l)"
  proof -
    have "\<bar>n\<bar> \<le> 2 ^ 53" "\<bar>l\<bar> \<le> 2 ^ 53" using assms(1,2) l0 l32 by simp_all
    then show "f64_of_int n = Fin (of_int n)" "f64_of_int l = Fin (of_int l)"
      by (simp_all only: f64_of_int_exact)
  qed
  moreover have "\<not> (of_int n :: rat) < 0" "\<not> (of_int l :: rat) < 0" "(of_int l :: rat) \<noteq> 0"
    using assms(1) l0 by (simp_all only: of_int_less_0_iff of_int_eq_0_iff)
  ultimately have div: "f64_of_int n / f64_of_int l = fround False ?q"
    by (simp only: divide_f64_def fdiv_def Let_def prod.case f64.case signbit.simps fval.simps
        if_False simp_thms)
  have one: "(Fin 1 :: f64) = 1" by (simp add: one_f64_def)
  consider "n \<le> l" | "l < n" "n mod l = 0" | "l < n" "0 < n mod l"
    using pos_mod_sign [OF l0, of n] by linarith
  then show ?thesis
  proof cases
    case 1
    then have "?q \<le> 1" using l0 by (simp add: divide_le_eq)
    then have "fround False ?q \<le> Fin 1"
      using fround_mono [of ?q 1 False False] representable_int [of 1] by (simp add: fround_exact_pos)
    then have "f64_of_int n / f64_of_int l \<le> 1" by (simp add: div one)
    then have "split_requests n limit = (1, limit)" by (simp add: split_requests_def l_def [symmetric])
    then show ?thesis using 1 by (simp add: ceil_div_def l_def [symmetric] one_f64_def)
  next
    case 2
    let ?k = "n div l"
    have k: "n = ?k * l" using 2 by (simp add: minus_mod_eq_div_mult [symmetric])
    then have q: "?q = of_int ?k" using l0 by (metis nonzero_mult_div_cancel_right of_int_eq_0_iff of_int_mult less_irrefl)
    have k1: "1 < ?k" using 2 l0 k by (metis less_irrefl mult_1 mult_less_cancel_right_pos)
    have "?k * 1 \<le> ?k * l" using k1 l0 by (intro mult_left_mono) auto
    then have "?k \<le> n" using k by simp
    then have kb: "\<bar>?k\<bar> \<le> 2 ^ 53" using k1 assms(2) by simp
    have r: "f64_of_int n / f64_of_int l = Fin (of_int ?k)"
      unfolding div q by (rule fround_exact_pos [OF representable_int [OF kb]])
    have "\<not> Fin (of_int ?k) \<le> 1" using k1 by (simp add: one_f64_def less_eq_f64_def flt_def feq_def)
    moreover have "\<not> 0 < Fin (of_int ?k) - f64_of_int (int64_of_f64 (Fin (of_int ?k)))"
      using k1 kb by (simp add: f64_of_int_exact minus_f64_def fadd_def fround_def zero_f64_def f64_order_defs)
    ultimately have "split_requests n limit = (Fin (of_int ?k), limit)"
      unfolding split_requests_def l_def [symmetric] r Let_def using assms(3) by simp
    then show ?thesis using 2 k1 by (simp add: ceil_div_def l_def [symmetric])
  next
    case 3
    let ?k = "n div l"
    obtain j where j: "j \<le> 32" "l \<le> 2 ^ j" "2 ^ j < 2 * l"
      using power_above [OF l0 l32] by blast
    have k1: "1 \<le> ?k" using 3 l0 by (simp add: pos_imp_zdiv_pos_iff int_one_le_iff_zero_less)
    have "(?k + 2) * 2 ^ j \<le> (?k + 2) * (2 * l)" using k1 j(3) by (intro mult_left_mono) auto
    also have "\<dots> = 2 * (?k * l) + 4 * l" by (simp add: algebra_simps)
    also have "?k * l \<le> n" using pos_mod_sign [OF l0, of n] by (simp add: minus_mod_eq_div_mult [symmetric])
    finally have big: "(?k + 2) * 2 ^ j \<le> 2 ^ 53 - 1" using assms(2) l32 by simp
    have pw: "(1 :: int) \<le> 2 ^ j" by simp
    have rep: "representable (of_int m + of_int d / 2 ^ j)"
      if "0 \<le> m" "m \<le> ?k + 1" "d = 1 \<or> d = 2 ^ j - 1" for m d :: int
    proof -
      have "(of_int m + of_int d / 2 ^ j :: rat) = of_int (m * 2 ^ j + d) / 2 ^ j"
        by (simp add: field_simps)
      moreover have "m * 2 ^ j \<le> (?k + 1) * 2 ^ j" using that(2) by (intro mult_right_mono) auto
      then have m: "m * 2 ^ j \<le> (?k + 2) * 2 ^ j - 2 ^ j" by (simp add: algebra_simps)
      have d: "0 \<le> d" "d \<le> 2 ^ j" using that(3) pw by auto
      have "0 \<le> m * 2 ^ j" using that(1) by simp
      then have "\<bar>m * 2 ^ j + d\<bar> \<le> 2 ^ 53" using m d big by linarith
      ultimately show ?thesis using representable_dyadic [of "m * 2 ^ j + d" j] j(1) by simp
    qed
    have up: "(of_int (2 ^ j - 1) / 2 ^ j :: rat) = 1 - 1 / 2 ^ j" by (simp add: field_simps)
    note fb = fraction_bounds [OF l0 j(2) 3(2)]
    have small: "(0 :: rat) < 1 / 2 ^ j" by simp
    have kpos: "(1 :: rat) \<le> of_int ?k" using k1 by simp
    have lo: "representable (of_int m + 1 / 2 ^ j)" and hi: "representable (of_int m + (1 - 1 / 2 ^ j))"
      if "0 \<le> m" "m \<le> ?k + 1" for m
      using rep [OF that, of 1] rep [OF that, of "2 ^ j - 1"] unfolding up by simp_all
    have kk: "0 \<le> ?k" "?k \<le> ?k + 1" "0 \<le> ?k + 1" using k1 by simp_all
    have q: "of_int ?k + 1 / 2 ^ j \<le> ?q" "?q \<le> of_int ?k + (1 - 1 / 2 ^ j)"
      using fb by linarith+
    have pos: "0 < of_int ?k + (1 :: rat) / 2 ^ j" using small kpos by linarith
    obtain f where f: "fround False ?q = Fin f" "of_int ?k + 1 / 2 ^ j \<le> f" "f \<le> of_int ?k + (1 - 1 / 2 ^ j)"
      by (rule fround_between [OF lo [OF kk(1,2)] hi [OF kk(1,2)] pos q])
    have fl: "\<lfloor>f\<rfloor> = ?k" using f(2,3) small by (intro floor_unique) linarith+
    have "(?k + 2) * 1 \<le> (?k + 2) * 2 ^ j" using k1 pw by (intro mult_left_mono) auto
    from order_trans [OF this big] have kb: "\<bar>?k\<bar> \<le> 2 ^ 53" using k1 by simp
    have f1: "1 < f" using f(2) small kpos by linarith
    then have gt: "\<not> Fin f \<le> 1" by (simp add: one_f64_def less_eq_f64_def flt_def feq_def)
    have "Fin f - Fin (of_int ?k) = fround False (f - of_int ?k)"
      using f1 k1 by (simp add: minus_f64_def fadd_def)
    moreover obtain g where "fround False (f - of_int ?k) = Fin g" "1 / 2 ^ j \<le> g"
    proof (rule fround_between [of "1 / 2 ^ j" "1 - 1 / 2 ^ j" "f - of_int ?k" False])
      show "representable (1 / 2 ^ j)" "representable (1 - 1 / 2 ^ j)"
        using lo [of 0] hi [of 0] k1 by simp_all
    qed (use f(2,3) in simp_all)
    ultimately have frac: "0 < Fin f - Fin (of_int ?k)"
      using less_le_trans [OF small] by (simp add: zero_f64_def less_f64_def flt_def)
    have "Fin f + 1 = fround False (f + 1)"
      using f1 by (simp add: plus_f64_def fadd_def one_f64_def)
    moreover obtain h where h: "fround False (f + 1) = Fin h"
        "of_int ?k + 1 + 1 / 2 ^ j \<le> h" "h \<le> of_int ?k + 1 + (1 - 1 / 2 ^ j)"
    proof (rule fround_between [OF lo [OF kk(3) order_refl] hi [OF kk(3) order_refl], of "f + 1" False])
    qed (use f(2,3) pos in simp_all)
    ultimately have sum: "Fin f + 1 = Fin h" by simp
    have hl: "\<lfloor>h\<rfloor> = ?k + 1" using h(2,3) small
      by (intro floor_unique; unfold of_int_add of_int_1; linarith)
    have fpos: "0 \<le> f" "0 \<le> h" using f(2) h(2) kpos small by linarith+
    have "split_requests n limit = (Fin h, limit)"
      unfolding split_requests_def l_def [symmetric] div f(1) Let_def using assms(3) gt frac fpos(1) fl kb
      by (simp add: f64_of_int_exact sum)
    then show ?thesis using 3 hl fpos by (simp add: ceil_div_def l_def [symmetric])
  qed
qed

section \<open>Lemmas on the ranges\<close>

lemma interval_slots_append:
  "interval_slots i start (a + b) =
     interval_slots i start a @ interval_slots i (start + int a * i) b"
  by (induction a arbitrary: start) (simp_all add: algebra_simps)

lemma interval_slots_map:
  "interval_slots i start n =
     map (\<lambda>j. \<lparr>id_Start = CreateIntervalTime (start + int j * i),
               id_End = CreateIntervalTime (start + int j * i + i), id_HasData = False\<rparr>) [0..<n]"
  by (induction n arbitrary: start)
    (simp_all add: upt_conv_Cons map_Suc_upt [symmetric] algebra_simps del: upt_Suc map_Suc_upt)

lemma length_slots [simp]: "length (interval_slots i start n) = n"
  by (simp add: interval_slots_map)

lemma ceil_div_step:
  assumes "0 < l" and "l < n"
  shows "ceil_div n l = ceil_div (n - l) l + 1" and "1 \<le> ceil_div (n - l) l"
proof -
  define m where "m = n - l"
  have n: "n = m + l" and m0: "0 < m" using assms(2) by (simp_all add: m_def)
  have d: "n div l = m div l + 1" "n mod l = m mod l" unfolding n using assms(1) by simp_all
  have "ceil_div n l = ceil_div m l + 1 \<and> 1 \<le> ceil_div m l"
  proof (cases "m < l")
    case True
    then have "m div l = 0" "m mod l = m" using m0 by simp_all
    then show ?thesis using True m0 d n by (simp add: ceil_div_def)
  next
    case False
    then have "1 \<le> m div l"
      using assms(1) by (simp add: int_one_le_iff_zero_less pos_imp_zdiv_pos_iff)
    then show ?thesis using False assms(1) m0 d n by (auto simp: ceil_div_def)
  qed
  then show "ceil_div n l = ceil_div (n - l) l + 1" and "1 \<le> ceil_div (n - l) l"
    by (simp_all add: m_def)
qed

text \<open>The ranges of \<open>n\<close> intervals from \<open>start\<close> on.\<close>

definition tiles :: "interval \<Rightarrow> int \<Rightarrow> time \<Rightarrow> nat \<Rightarrow> interval_range list \<Rightarrow> bool" where
  "tiles i limit start n rs \<longleftrightarrow>
     concat (map ir_Intervals rs) = interval_slots i start n \<and>
     list_all (\<lambda>r. int (length (ir_Intervals r)) = limit) (butlast rs) \<and>
     list_all (\<lambda>r. int (length (ir_Intervals r)) \<le> limit \<and>
       (\<exists>s. ir_Start r = CreateIntervalTime s \<and>
          ir_End r = CreateIntervalTime (s + int (length (ir_Intervals r)) * i) \<and>
          ir_Intervals r = interval_slots i s (length (ir_Intervals r)))) rs"

lemma request_loop:
  assumes "0 < limit" and "0 \<le> n"
  shows "\<exists>rs. request_loop i limit n start (nat (ceil_div n limit)) = Some (rs, start + n * i) \<and>
    length rs = nat (ceil_div n limit) \<and> tiles i limit start (nat n) rs"
  using assms
proof (induction "nat n" arbitrary: n start rule: less_induct)
  case less
  show ?case
  proof (cases "n \<le> limit")
    case True
    then have "(if n - limit < 0 then n - limit + limit else limit) = n" by auto
    then show ?thesis
      using True less.prems
      by (auto simp: ceil_div_def tiles_def Let_def numeral_1_eq_Suc_0 intro: exI [of _ start])
  next
    case False
    let ?k = "ceil_div (n - limit) limit"
    let ?r = "\<lparr>ir_Start = CreateIntervalTime start, ir_End = CreateIntervalTime (start + limit * i),
      ir_Intervals = interval_slots i start (nat limit)\<rparr>"
    obtain rs where rs: "request_loop i limit (n - limit) (start + limit * i) (nat ?k) =
        Some (rs, start + limit * i + (n - limit) * i)" "length rs = nat ?k"
        "tiles i limit (start + limit * i) (nat (n - limit)) rs"
      using less.hyps [of "n - limit" "start + limit * i"] less.prems False by auto
    have k: "nat (ceil_div n limit) = Suc (nat ?k)" and k1: "1 \<le> ?k"
      using ceil_div_step [of limit n] less.prems(1) False by auto
    have ne: "rs \<noteq> []" using rs(2) k1 by auto
    have nn: "nat n = nat limit + nat (n - limit)" using False less.prems by auto
    have slots: "interval_slots i start (nat n) =
        interval_slots i start (nat limit) @ interval_slots i (start + limit * i) (nat (n - limit))"
      unfolding nn interval_slots_append using less.prems(1) by simp
    have "request_loop i limit n start (Suc (nat ?k)) = Some (?r # rs, start + n * i)"
      using False less.prems(1) rs(1) by (simp add: Let_def algebra_simps)
    moreover have "tiles i limit start (nat n) (?r # rs)"
      using rs(3) ne less.prems(1) unfolding tiles_def slots by auto
    ultimately show ?thesis using k rs(2) by auto
  qed
qed

lemma Round_dvd: "0 < d \<Longrightarrow> d dvd time_Round t d"
proof -
  assume d: "0 < d"
  have "t - t mod d = d * (t div d)" by (simp add: minus_mod_eq_mult_div)
  then have "time_Round t d = d * (t div d) \<or> time_Round t d = d * (t div d) + d"
    using d by (simp add: time_Round_def Let_def)
  then show ?thesis by auto
qed

lemma Round_mono:
  assumes "t \<le> u" and "0 < d"
  shows "time_Round t d \<le> time_Round u d"
proof (cases "t div d = u div d")
  case True
  have "t mod d \<le> u mod d"
    using assms True by (metis add_le_cancel_left mult_div_mod_eq)
  moreover have "t - t mod d = u - u mod d" using True by (simp add: minus_mod_eq_mult_div)
  ultimately show ?thesis using assms by (auto simp: time_Round_def Let_def)
next
  case False
  then have "t div d + 1 \<le> u div d" using zdiv_mono1 [OF assms] by linarith
  then have "d * (t div d) + d \<le> d * (u div d)"
    using assms(2) by (metis add.commute distrib_left mult.right_neutral mult_left_mono order_less_imp_le)
  then have "t - t mod d + d \<le> u - u mod d" by (simp add: minus_mod_eq_mult_div)
  then show ?thesis using assms(2) by (auto simp: time_Round_def Let_def)
qed

definition ranges_ok :: "time \<Rightarrow> time \<Rightarrow> interval \<Rightarrow> 32 word \<Rightarrow> bool" where
  "ranges_ok start end_time i limit \<longleftrightarrow>
     start \<notin> {0, zeroValueUnix} \<and> end_time \<notin> {0, zeroValueUnix} \<and> start < end_time \<and> 0 < i \<and>
     limit \<noteq> 0 \<and> time_Round end_time i - time_Round start i < 2 ^ 63 \<and>
     (time_Round end_time i - time_Round start i) div i < 2 ^ 51"

lemma ranges_result:
  assumes "ranges_ok start end_time i limit"
  defines "s \<equiv> time_Round start i"
  defines "n \<equiv> (time_Round end_time i - s) div i"
  obtains rs where
    "CalculateCandleDateRanges now start end_time i limit = Some (Inr
       \<lparr>ih_Start = CreateIntervalTime s, ih_End = CreateIntervalTime (s + n * i), ih_Ranges = rs,
        ih_Limit = uint limit\<rparr>)"
    and "length rs = nat (ceil_div n (uint limit))" and "tiles i (uint limit) s (nat n) rs"
    and "0 \<le> n" and "s + n * i = time_Round end_time i"
proof -
  note ok = assms(1) [unfolded ranges_ok_def]
  have le: "s \<le> time_Round end_time i" unfolding s_def using ok by (intro Round_mono) auto
  then have n0: "0 \<le> n" using ok by (simp add: n_def pos_imp_zdiv_nonneg_iff)
  have chk: "\<not> (case StartEndTimeCheck now start end_time of
      None \<Rightarrow> False | Some e \<Rightarrow> \<not> errors_is e ErrStartAfterTimeNow)"
    using ok by (auto simp: StartEndTimeCheck_def IsZero_def ErrStartAfterTimeNow_def)
  have sub: "time_Sub (time_Round end_time i) s sdiv i = n"
    using ok le by (simp add: time_Sub_def max_duration_def n_def s_def sdiv_pos)
  have lim: "0 < uint limit"
    using ok uint_ge_0 [of limit] uint_0_iff [of limit] by linarith
  have sr: "int64_of_f64 (fst (split_requests n limit)) = ceil_div n (uint limit)"
    "snd (split_requests n limit) = limit"
    using split_requests [of n limit] n0 ok by (simp_all add: n_def s_def)
  obtain rs where rs: "request_loop i (uint limit) n s (nat (ceil_div n (uint limit))) = Some (rs, s + n * i)"
      "length rs = nat (ceil_div n (uint limit))" "tiles i (uint limit) s (nat n) rs"
    using request_loop [OF lim n0] by blast
  have "i dvd time_Round end_time i - s" unfolding s_def using ok by (intro dvd_diff Round_dvd) auto
  then have "s + n * i = time_Round end_time i" by (simp add: n_def)
  moreover have "CalculateCandleDateRanges now start end_time i limit = Some (Inr
       \<lparr>ih_Start = CreateIntervalTime s, ih_End = CreateIntervalTime (s + n * i), ih_Ranges = rs,
        ih_Limit = uint limit\<rparr>)"
    unfolding CalculateCandleDateRanges_def using chk ok
    by (simp add: Let_def s_def [symmetric] sub case_prod_beta sr rs(1))
  ultimately show thesis using that rs n0 by blast
qed

text \<open>Setting the data of all intervals.\<close>

fun with_data :: "interval_data list \<Rightarrow> candle list \<Rightarrow> interval_data list" where
  "with_data (d # ds) (c # cs) = d\<lparr>id_HasData := \<not> candle_missing c\<rparr> # with_data ds cs"
| "with_data _ _ = []"

lemma with_data_Nil [simp]: "with_data ds [] = []"
  by (cases ds) simp_all

lemma with_data_append:
  "with_data (ds @ es) cs = with_data ds cs @ with_data es (drop (length ds) cs)"
  by (induction ds cs rule: with_data.induct) auto

lemma with_data_fields:
  "length ds \<le> length cs \<Longrightarrow> map id_Start (with_data ds cs) = map id_Start ds"
  "length ds \<le> length cs \<Longrightarrow> map id_End (with_data ds cs) = map id_End ds"
  "length ds \<le> length cs \<Longrightarrow> length (with_data ds cs) = length ds"
  by (induction ds cs rule: with_data.induct) auto

lemma with_data_nth:
  "j < length ds \<Longrightarrow> length ds \<le> length cs \<Longrightarrow>
     with_data ds cs ! j = (ds ! j)\<lparr>id_HasData := \<not> candle_missing (cs ! j)\<rparr>"
  by (induction ds cs arbitrary: j rule: with_data.induct) (auto simp: nth_Cons split: nat.split)

definition slot_times :: "interval_data list \<Rightarrow> time list" where
  "slot_times ds = map (\<lambda>d. it_Time (id_Start d)) ds"

lemma set_intervals:
  "map cn_Time (take (length ds) cs) = slot_times ds \<Longrightarrow>
     set_intervals ds cs = (with_data ds cs, Inr (drop (length ds) cs))"
proof (induction ds arbitrary: cs)
  case (Cons d ds)
  then obtain c cs' where cs: "cs = c # cs'" by (cases cs) (auto simp: slot_times_def)
  then show ?case using Cons by (simp add: slot_times_def)
qed simp

lemma set_ranges:
  "map cn_Time cs = slot_times (concat (map ir_Intervals rs)) \<Longrightarrow>
     case set_ranges rs cs of (rs', err) \<Rightarrow>
       err = None \<and> concat (map ir_Intervals rs') = with_data (concat (map ir_Intervals rs)) cs \<and>
       map ir_Start rs' = map ir_Start rs \<and> map ir_End rs' = map ir_End rs \<and>
       map (length \<circ> ir_Intervals) rs' = map (length \<circ> ir_Intervals) rs \<and>
       map (map id_Start \<circ> ir_Intervals) rs' = map (map id_Start \<circ> ir_Intervals) rs \<and>
       map (map id_End \<circ> ir_Intervals) rs' = map (map id_End \<circ> ir_Intervals) rs"
proof (induction rs arbitrary: cs)
  case (Cons r rs)
  let ?ds = "ir_Intervals r"
  have t: "map cn_Time (take (length ?ds) cs) = slot_times ?ds"
    "map cn_Time (drop (length ?ds) cs) = slot_times (concat (map ir_Intervals rs))"
    using Cons.prems by (simp_all add: slot_times_def take_map [symmetric] drop_map [symmetric])
  have len: "length ?ds \<le> length cs"
    using arg_cong [OF Cons.prems, of length] by (simp add: slot_times_def)
  show ?case
    using Cons.IH [OF t(2)] with_data_fields [OF len]
    by (auto simp: set_intervals [OF t(1)] with_data_append split: prod.splits)
qed simp

text \<open>Ticks of whole seconds compare like the times.\<close>

lemma unix_le:
  assumes "10 ^ 9 dvd m"
  shows "time_Unix m \<le> time_Unix t \<longleftrightarrow> m \<le> t"
proof -
  obtain k where k: "m - zeroValueUnix = 10 ^ 9 * k"
    using dvd_diff [OF assms, of zeroValueUnix] by (auto simp: zeroValueUnix_def)
  have "k \<le> (t - zeroValueUnix) div 10 ^ 9 \<longleftrightarrow> 10 ^ 9 * k \<le> t - zeroValueUnix"
  proof
    assume "k \<le> (t - zeroValueUnix) div 10 ^ 9"
    then have "10 ^ 9 * k \<le> 10 ^ 9 * ((t - zeroValueUnix) div 10 ^ 9)" by simp
    also have "\<dots> \<le> t - zeroValueUnix"
      using pos_mod_sign [of "10 ^ 9" "t - zeroValueUnix"] by (simp add: minus_mod_eq_mult_div [symmetric])
    finally show "10 ^ 9 * k \<le> t - zeroValueUnix" .
  next
    assume "10 ^ 9 * k \<le> t - zeroValueUnix"
    from zdiv_mono1 [OF this, of "10 ^ 9"] show "k \<le> (t - zeroValueUnix) div 10 ^ 9" by simp
  qed
  then have "k \<le> (t - zeroValueUnix) div 10 ^ 9 \<longleftrightarrow> m \<le> t" using k by linarith
  moreover have "time_Unix m = k" unfolding time_Unix_def k by simp
  ultimately show ?thesis by (simp add: time_Unix_def)
qed

lemma unix_less: "10 ^ 9 dvd m \<Longrightarrow> time_Unix t < time_Unix m \<longleftrightarrow> t < m"
  using unix_le [of m t] by linarith

fun slots_from :: "interval \<Rightarrow> time \<Rightarrow> interval_data list \<Rightarrow> bool" where
  "slots_from i s [] = True"
| "slots_from i s (d # ds) \<longleftrightarrow>
     id_Start d = CreateIntervalTime s \<and> id_End d = CreateIntervalTime (s + i) \<and> slots_from i (s + i) ds"

lemma interval_slots_from: "slots_from i s (interval_slots i s n)"
  by (induction n arbitrary: s) auto

lemma with_data_from: "slots_from i s ds \<Longrightarrow> slots_from i s (with_data ds cs)"
  by (induction ds cs arbitrary: s rule: with_data.induct) auto

lemma find_slot:
  assumes "slots_from i s ds" and "0 < i" and "10 ^ 9 dvd i" and "10 ^ 9 dvd s" and "s \<le> t"
  shows "find_interval (time_Unix t) ds =
    (if t < s + int (length ds) * i then Some (id_HasData (ds ! nat ((t - s) div i))) else None)"
  using assms
proof (induction ds arbitrary: s)
  case (Cons d ds)
  have si: "10 ^ 9 dvd s + i" using Cons.prems(3,4) by (rule dvd_add [rotated])
  show ?case
  proof (cases "t < s + i")
    case True
    then have "(t - s) div i = 0" using Cons.prems(5) by simp
    moreover have "t < s + int (length (d # ds)) * i"
    proof -
      have "0 \<le> int (length ds) * i" using Cons.prems(2) by simp
      then show ?thesis using True by (simp add: algebra_simps)
    qed
    ultimately show ?thesis
      using True Cons.prems unix_le [of s t] unix_less [OF si, of t]
      by (simp add: CreateIntervalTime_def)
  next
    case False
    then have "(t - s) div i = (t - (s + i)) div i + 1" "0 \<le> (t - (s + i)) div i"
      using Cons.prems(2) div_add_self2 [of i "t - (s + i)"] by (simp_all add: pos_imp_zdiv_nonneg_iff)
    then have n: "nat ((t - s) div i) = Suc (nat ((t - (s + i)) div i))" by (simp add: nat_add_distrib)
    have "find_interval (time_Unix t) (d # ds) = find_interval (time_Unix t) ds"
      using False Cons.prems(1) unix_less [OF si, of t] by (simp add: CreateIntervalTime_def)
    also have "\<dots> = (if t < s + i + int (length ds) * i
        then Some (id_HasData (ds ! nat ((t - (s + i)) div i))) else None)"
      using Cons.prems si False by (intro Cons.IH) auto
    finally show ?thesis unfolding n by (simp add: algebra_simps)
  qed
qed (simp add: not_less)

text \<open>The intervals of a range lie in it, so the ranges may be passed over.\<close>

definition within_range :: "interval_time \<times> interval_time \<times> interval_time list \<times> interval_time list \<Rightarrow> bool" where
  "within_range = (\<lambda>(a, b, xs, ys).
     list_all (\<lambda>x. it_Ticks a \<le> it_Ticks x) xs \<and> list_all (\<lambda>y. it_Ticks y \<le> it_Ticks b) ys)"

definition ranges_within :: "interval_range list \<Rightarrow> bool" where
  "ranges_within rs \<longleftrightarrow> list_all within_range
     (zip (map ir_Start rs) (zip (map ir_End rs)
        (zip (map (map id_Start \<circ> ir_Intervals) rs) (map (map id_End \<circ> ir_Intervals) rs))))"

lemma ranges_within_iff:
  "ranges_within rs \<longleftrightarrow>
     list_all (\<lambda>r. list_all (\<lambda>d. it_Ticks (ir_Start r) \<le> it_Ticks (id_Start d) \<and>
       it_Ticks (id_End d) \<le> it_Ticks (ir_End r)) (ir_Intervals r)) rs"
  unfolding ranges_within_def
  by (induction rs) (auto simp: within_range_def list_all_iff)

lemma find_interval_append:
  "find_interval tu (ds @ es) = (case find_interval tu ds of None \<Rightarrow> find_interval tu es | Some b \<Rightarrow> Some b)"
  by (induction ds) auto

lemma find_range:
  "ranges_within rs \<Longrightarrow>
     find_range tu rs = (find_interval tu (concat (map ir_Intervals rs)) = Some True)"
  unfolding ranges_within_iff
proof (induction rs)
  case (Cons r rs)
  have "find_interval tu ds = None"
    if "tu < it_Ticks (ir_Start r) \<or> it_Ticks (ir_End r) \<le> tu"
      and "list_all (\<lambda>d. it_Ticks (ir_Start r) \<le> it_Ticks (id_Start d) \<and>
             it_Ticks (id_End d) \<le> it_Ticks (ir_End r)) ds" for ds
    using that(2,1) by (induction ds) auto
  then show ?case
    using Cons by (auto simp: find_interval_append split: option.split)
qed simp

lemma tiles_within:
  assumes "tiles i limit s n rs" and "0 \<le> i"
  shows "ranges_within rs"
proof -
  have m: "time_Unix t \<le> time_Unix u" if "t \<le> u" for t u
    using that by (simp add: time_Unix_def zdiv_mono1)
  have "it_Ticks (CreateIntervalTime s) \<le> it_Ticks (id_Start d) \<and>
      it_Ticks (id_End d) \<le> it_Ticks (CreateIntervalTime (s + int n * i))"
    if d: "d \<in> set (interval_slots i s n)" for s n d
  proof -
    obtain j where j: "j < n" "d = \<lparr>id_Start = CreateIntervalTime (s + int j * i),
        id_End = CreateIntervalTime (s + int j * i + i), id_HasData = False\<rparr>"
      using d by (auto simp: interval_slots_map)
    have "(int j + 1) * i \<le> int n * i" using j(1) assms(2) by (intro mult_right_mono) auto
    then show ?thesis
      using j assms(2) by (auto simp: CreateIntervalTime_def algebra_simps intro!: m)
  qed
  then show ?thesis
    using assms(1) unfolding ranges_within_iff tiles_def list_all_iff by metis
qed

text \<open>The stretches of intervals with the same flag.\<close>

fun stretches :: "bool \<times> time \<times> time \<Rightarrow> interval_data list \<Rightarrow> (bool \<times> time \<times> time) list" where
  "stretches (b, s, e) [] = [(b, s, e)]"
| "stretches (b, s, e) (d # ds) =
     (if id_HasData d = b then stretches (b, s, it_Time (id_End d)) ds
      else (b, s, e) # stretches (id_HasData d, it_Time (id_Start d), it_Time (id_End d)) ds)"

definition summary_end :: "bool \<Rightarrow> summary_state \<Rightarrow> (bool \<times> time \<times> time) list" where
  "summary_end incl s =
     (if su_Start s \<noteq> su_prevStart s \<or> su_End s \<noteq> su_prevEnd s
      then (if (su_HasData s \<and> incl) \<or> \<not> su_HasData s
            then su_Texts s @ [(su_HasData s, su_Start s, su_End s)] else su_Texts s)
      else su_Texts s)"

lemma summary_fold:
  assumes "0 < su_End s" and "su_prevEnd s < su_End s"
    and "sorted_wrt (<) (su_End s # map (\<lambda>d. it_Time (id_End d)) ds)"
  shows "summary_end incl (fold (summary_step incl) ds s) =
    su_Texts s @ filter (\<lambda>(b, _). b \<longrightarrow> incl) (stretches (su_HasData s, su_Start s, su_End s) ds)"
  using assms
proof (induction ds arbitrary: s)
  case Nil
  then show ?case by (auto simp: summary_end_def)
next
  case (Cons d ds)
  let ?s = "summary_step incl d s"
  have e: "su_End ?s = it_Time (id_End d)" "su_HasData ?s = id_HasData d"
    by (simp_all add: summary_step_def Let_def)
  have t: "su_Start ?s = (if id_HasData d = su_HasData s then su_Start s else it_Time (id_Start d))"
    "su_Texts ?s = su_Texts s @ (if id_HasData d = su_HasData s then []
       else filter (\<lambda>(b, _). b \<longrightarrow> incl) [(su_HasData s, su_Start s, su_End s)])"
    using Cons.prems(1) by (auto simp: summary_step_def Let_def IsZero_def)
  have p: "su_prevEnd ?s < su_End ?s" "0 < su_End ?s"
    using Cons.prems by (auto simp: summary_step_def Let_def)
  have "summary_end incl (fold (summary_step incl) ds ?s) =
      su_Texts ?s @ filter (\<lambda>(b, _). b \<longrightarrow> incl) (stretches (su_HasData ?s, su_Start ?s, su_End ?s) ds)"
    using Cons.prems(3) p by (intro Cons.IH) (simp_all add: e)
  then show ?case by (simp add: e t)
qed

lemma int_div_less:
  assumes "a < n * i" and "0 < i"
  shows "a div i < (n :: int)"
proof (rule ccontr)
  assume "\<not> a div i < n"
  then have "n * i \<le> a div i * i" using assms(2) by (intro mult_right_mono) auto
  also have "\<dots> \<le> a"
    using pos_mod_sign [OF assms(2), of a] by (simp add: minus_mod_eq_div_mult [symmetric])
  finally show False using assms(1) by simp
qed

lemma DataSummary_flat:
  "DataSummary incl h = summary_end incl (fold (summary_step incl) (concat (map ir_Intervals (ih_Ranges h)))
     \<lparr>su_Start = it_Time (ih_Start h), su_End = 0, su_prevStart = 0, su_prevEnd = 0,
      su_HasData = False, su_Texts = []\<rparr>)"
proof -
  have eq: "fold (\<lambda>r. fold (summary_step incl) (ir_Intervals r)) rs s =
      fold (summary_step incl) (concat (map ir_Intervals rs)) s" for rs s
    by (induction rs arbitrary: s) auto
  show ?thesis unfolding DataSummary_def summary_end_def eq Let_def by (rule refl)
qed

lemma construct_loop:
  assumes "list_all (\<lambda>x. 0 < ic_Interval x) xs" and "0 < required"
  shows "construct_loop required xs =
    Some (case find (\<lambda>x. ic_Interval x < required \<and> ic_Interval x dvd required) xs of
            None \<Rightarrow> Inl ErrCannotConstructInterval | Some x \<Rightarrow> Inr (ic_Interval x))"
  using assms
proof (induction xs)
  case (Cons x xs)
  have "required smod ic_Interval x = required mod ic_Interval x"
    using Cons.prems by (simp add: signed_modulo_int_def)
  then show ?case using Cons by (auto simp: dvd_eq_mod_eq_0)
qed simp

section \<open>Properties\<close>

text \<open>C17: a request for candles is cut without gap or overlap: the intervals of the ranges
  one after another are exactly those from the rounded start to the rounded end, every range but the
  last is as long as the limit allows, and there are as few ranges as possible, although their number
  comes from a floating point division.\<close>

theorem candle_ranges:
  assumes "ranges_ok start end_time i limit"
  shows "let s = time_Round start i; n = (time_Round end_time i - s) div i
   in case CalculateCandleDateRanges now start end_time i limit of
     Some (Inr h) \<Rightarrow>
       length (ih_Ranges h) = nat (ceil_div n (uint limit)) \<and>
       concat (map ir_Intervals (ih_Ranges h)) = interval_slots i s (nat n) \<and>
       list_all (\<lambda>r. int (length (ir_Intervals r)) = uint limit) (butlast (ih_Ranges h)) \<and>
       list_all (\<lambda>r. int (length (ir_Intervals r)) \<le> uint limit) (ih_Ranges h) \<and>
       it_Time (ih_Start h) = s \<and> it_Time (ih_End h) = time_Round end_time i
   | _ \<Rightarrow> False"
  by (rule ranges_result [OF assms, of now])
    (auto simp: Let_def tiles_def list_all_iff CreateIntervalTime_def)

text \<open>Also: once the candles of all its intervals are set, a date range of intervals of whole
  seconds tells of every time whether the candle of its interval has a value, and says no outside.\<close>

theorem data_at_date:
  assumes "ranges_ok start end_time i limit" and "10 ^ 9 dvd i"
    and "CalculateCandleDateRanges now start end_time i limit = Some (Inr h)"
    and "map cn_Time cs = slot_times (concat (map ir_Intervals (ih_Ranges h)))"
  shows "let s = time_Round start i
   in case SetHasDataFromCandles cs h of
     (h', err) \<Rightarrow>
       err = None \<and>
       HasDataAtDate h' t =
         (s \<le> t \<and> t < time_Round end_time i \<and> \<not> candle_missing (cs ! nat ((t - s) div i)))"
proof (rule ranges_result [OF assms(1), of now])
  let ?s = "time_Round start i" and ?e = "time_Round end_time i"
  let ?n = "(?e - ?s) div i"
  fix rs
  assume r: "CalculateCandleDateRanges now start end_time i limit = Some (Inr
       \<lparr>ih_Start = CreateIntervalTime ?s, ih_End = CreateIntervalTime (?s + ?n * i), ih_Ranges = rs,
        ih_Limit = uint limit\<rparr>)"
    and tiles: "tiles i (uint limit) ?s (nat ?n) rs" and n0: "0 \<le> ?n" and e: "?s + ?n * i = ?e"
  have i0: "0 < i" using assms(1) by (simp add: ranges_ok_def)
  have h: "ih_Ranges h = rs" "ih_Start h = CreateIntervalTime ?s" "ih_End h = CreateIntervalTime ?e"
    using r assms(3) e by simp_all
  have slots: "concat (map ir_Intervals rs) = interval_slots i ?s (nat ?n)"
    using tiles by (simp add: tiles_def)
  have sd: "10 ^ 9 dvd ?s" "10 ^ 9 dvd ?e"
    using dvd_trans [OF assms(2)] Round_dvd [OF i0] by blast+
  obtain rs' where rs': "set_ranges rs cs = (rs', None)"
      "concat (map ir_Intervals rs') = with_data (interval_slots i ?s (nat ?n)) cs" "ranges_within rs'"
    using set_ranges [of cs rs] assms(4) tiles_within [OF tiles] i0
    by (cases "set_ranges rs cs") (auto simp: h slots ranges_within_def)
  have len: "length cs = nat ?n"
    using arg_cong [OF assms(4), of length] by (simp add: h slots slot_times_def)
  have frng: "find_range (time_Unix t) rs' \<longleftrightarrow> ?s \<le> t \<and> t < ?e \<and> \<not> candle_missing (cs ! nat ((t - ?s) div i))"
    if "?s \<le> t"
  proof -
    have "(t - ?s) div i < ?n" if "t < ?e"
    proof -
      have "t - ?s < ?n * i" using that e by linarith
      then show ?thesis using i0 int_div_less by blast
    qed
    then have j: "nat ((t - ?s) div i) < nat ?n" if "t < ?e"
    proof -
      have "0 \<le> (t - ?s) div i" using \<open>?s \<le> t\<close> i0 by (simp add: pos_imp_zdiv_nonneg_iff)
      with \<open>t < ?e \<Longrightarrow> (t - ?s) div i < ?n\<close> [OF that] show ?thesis by linarith
    qed
    have "int (length (with_data (interval_slots i ?s (nat ?n)) cs)) * i = ?n * i"
      using n0 len by (simp add: with_data_fields)
    then show ?thesis
      using find_slot [OF with_data_from [OF interval_slots_from] i0 assms(2) sd(1) that, of "nat ?n" cs]
        j with_data_nth [of "nat ((t - ?s) div i)" "interval_slots i ?s (nat ?n)" cs] len e that
      unfolding find_range [OF rs'(3)] rs'(2) by auto
  qed
  have "find_range (time_Unix t) rs' \<longrightarrow> t < ?e" if "?s \<le> t" using frng [OF that] by blast
  then show ?thesis
    using frng unix_le [OF sd(1), of t] unix_le [OF sd(2), of t]
    by (auto simp: SetHasDataFromCandles_def h rs' HasDataAtDate_def Let_def CreateIntervalTime_def not_less)
qed

lemma ends_increasing:
  assumes "slots_from i s ds" and "0 < i"
  shows "sorted_wrt (<) (s # map (\<lambda>d. it_Time (id_End d)) ds)"
  using assms
proof (induction ds arbitrary: s)
  case (Cons d ds)
  then have "sorted_wrt (<) ((s + i) # map (\<lambda>d. it_Time (id_End d)) ds)"
    and "it_Time (id_End d) = s + i" by (auto simp: CreateIntervalTime_def)
  then show ?case using Cons.prems(2) by auto
qed simp

text \<open>Also: the summary of a date range tells of the longest stretches of intervals with
  and without data, in order, and of those without only, unless told to include the others.\<close>

theorem summary_stretches:
  assumes "slots_from i (it_Time (ih_Start h)) (concat (map ir_Intervals (ih_Ranges h)))"
    and "0 < i" and "0 < it_Time (ih_Start h)"
  shows "case concat (map ir_Intervals (ih_Ranges h)) of
     [] \<Rightarrow> True
   | d # ds \<Rightarrow> DataSummary incl h =
       filter (\<lambda>(b, _). b \<longrightarrow> incl) (stretches (id_HasData d, it_Time (id_Start d), it_Time (id_End d)) ds)"
proof (cases "concat (map ir_Intervals (ih_Ranges h))")
  case (Cons d ds)
  let ?init = "\<lparr>su_Start = it_Time (ih_Start h), su_End = 0, su_prevStart = 0, su_prevEnd = 0,
      su_HasData = False, su_Texts = []\<rparr>"
  let ?s = "summary_step incl d ?init"
  have f: "su_Start ?s = it_Time (ih_Start h)" "su_End ?s = it_Time (id_End d)" "su_prevEnd ?s = 0"
    "su_HasData ?s = id_HasData d" "su_Texts ?s = []"
    by (simp_all add: summary_step_def Let_def IsZero_def)
  have d: "it_Time (id_Start d) = it_Time (ih_Start h)" "0 < it_Time (id_End d)"
    using assms Cons by (auto simp: CreateIntervalTime_def)
  have "sorted_wrt (<) (it_Time (ih_Start h) # map (\<lambda>d. it_Time (id_End d)) (d # ds))"
    using ends_increasing [OF assms(1,2)] Cons by simp
  then have inc: "sorted_wrt (<) (su_End ?s # map (\<lambda>d. it_Time (id_End d)) ds)" by (simp add: f)
  show ?thesis
    using summary_fold [OF _ _ inc, of incl] d by (simp add: DataSummary_flat Cons f)
qed (simp only: list.case)

text \<open>Also: the interval that a required one is made from is supported, divides it and is
  the longest such one below it, unless the required interval is itself supported; if there is none,
  it is an error.\<close>

theorem construct_interval:
  assumes "list_all (\<lambda>x. 0 < ic_Interval x) enabled" and "0 < required"
  shows "case Construct (DeployExchangeIntervals enabled) required of
     None \<Rightarrow> False
   | Some (Inl e) \<Rightarrow>
       e = ErrCannotConstructInterval \<and>
       \<not> list_ex (\<lambda>x. ic_Interval x dvd required) enabled
   | Some (Inr i) \<Rightarrow>
       i \<in> ic_Interval ` set enabled \<and> i dvd required \<and>
       list_all (\<lambda>x. \<not> (ic_Interval x dvd required \<and> i < ic_Interval x)) enabled"
proof -
  let ?sorted = "slice_sort (\<lambda>a b. ic_Interval a < ic_Interval b) enabled"
  have sorted: "sorted_wrt (\<lambda>a b. ic_Interval b \<le> ic_Interval a) (rev ?sorted)"
    using slice_sort_sorted [OF weak_order_on_key [of UNIV ic_Interval], of enabled]
    by (simp add: not_less sorted_wrt_rev)
  have dom: "dom (fold (\<lambda>x m. m(ic_Interval x \<mapsto> ic_Capacity x)) xs m) = ic_Interval ` set xs \<union> dom m" for xs m
    by (induction xs arbitrary: m) auto
  have supp: "ei_supported (DeployExchangeIntervals enabled) required \<noteq> None \<longleftrightarrow>
      required \<in> ic_Interval ` set enabled"
    using dom [of ?sorted Map.empty] by (auto simp: DeployExchangeIntervals_def Let_def domIff)
  have le: "ic_Interval x dvd required \<Longrightarrow> ic_Interval x \<le> required" for x
    using assms(2) zdvd_imp_le by blast
  show ?thesis
  proof (cases "required \<in> ic_Interval ` set enabled")
    case True
    then show ?thesis
      using supp assms(2) le by (auto simp: Construct_def list_all_iff not_less)
  next
    case False
    have loop: "Construct (DeployExchangeIntervals enabled) required =
      Some (case find (\<lambda>x. ic_Interval x < required \<and> ic_Interval x dvd required) (rev ?sorted) of
            None \<Rightarrow> Inl ErrCannotConstructInterval | Some x \<Rightarrow> Inr (ic_Interval x))"
      using False supp assms construct_loop [of "rev ?sorted" required]
      by (simp add: Construct_def DeployExchangeIntervals_def Let_def list_all_iff)
    have below: "ic_Interval x < required" if "x \<in> set enabled" "ic_Interval x dvd required" for x
      using le [OF that(2)] False that(1) by (metis imageI order_le_imp_less_or_eq)
    show ?thesis
    proof (cases "find (\<lambda>x. ic_Interval x < required \<and> ic_Interval x dvd required) (rev ?sorted)")
      case None
      then have "\<not> list_ex (\<lambda>x. ic_Interval x dvd required) enabled"
        using below by (auto simp: find_None_iff list_ex_iff)
      then show ?thesis using loop None by simp
    next
      case (Some x)
      then obtain k where k: "k < length (rev ?sorted)" "rev ?sorted ! k = x" "ic_Interval x dvd required"
        and before: "\<forall>j < k. \<not> (ic_Interval (rev ?sorted ! j) < required \<and> ic_Interval (rev ?sorted ! j) dvd required)"
        by (auto simp: find_Some_iff)
      have "x \<in> set (rev ?sorted)" using k(1,2) nth_mem by blast
      moreover have "\<not> (ic_Interval y dvd required \<and> ic_Interval x < ic_Interval y)" if y: "y \<in> set enabled" for y
      proof
        assume a: "ic_Interval y dvd required \<and> ic_Interval x < ic_Interval y"
        obtain j where j: "j < length (rev ?sorted)" "rev ?sorted ! j = y"
          using y by (metis in_set_conv_nth set_rev set_slice_sort)
        have "\<not> j < k" using before j(2) a below [OF y] by blast
        moreover have "\<not> k < j"
          using sorted_wrt_nth_less [OF sorted, of k j] j k(2) a by auto
        moreover have "j \<noteq> k" using j(2) k(2) a by auto
        ultimately show False by simp
      qed
      ultimately show ?thesis using loop Some k(3) by (auto simp: list_all_iff)
    qed
  qed
qed

section \<open>Instances\<close>

definition demo_range_start :: time where "demo_range_start = 5 * OneHour"
definition demo_range_end :: time where "demo_range_end = 10 * OneHour"

lemma demo_ranges_ok: "ranges_ok demo_range_start demo_range_end OneHour 2"
  by (simp add: ranges_ok_def demo_range_start_def demo_range_end_def OneHour_def zeroValueUnix_def
      time_Round_def)

lemma demo_rounded:
  "time_Round demo_range_start OneHour = 5 * OneHour" "time_Round demo_range_end OneHour = 10 * OneHour"
  by (simp_all add: demo_range_start_def demo_range_end_def OneHour_def time_Round_def)

theorem candle_ranges_witness:
  "case CalculateCandleDateRanges demo_range_end demo_range_start demo_range_end OneHour 2 of
     Some (Inr h) \<Rightarrow> length (ih_Ranges h) = 3
   | _ \<Rightarrow> False"
proof -
  have "ceil_div ((10 * OneHour - 5 * OneHour) div OneHour) (uint (2 :: 32 word)) = 3"
    by (simp add: OneHour_def ceil_div_def)
  then show ?thesis
    using candle_ranges [OF demo_ranges_ok, of demo_range_end] unfolding demo_rounded
    by (auto simp: Let_def split: option.splits sum.splits)
qed

definition demo_set_candles :: "candle list" where
  "demo_set_candles =
     map (\<lambda>j. if j = 2 then zero_candle\<lparr>cn_Time := 5 * OneHour + int j * OneHour\<rparr>
              else demo_candle (5 * OneHour + int j * OneHour)) [0..<5]"

theorem data_at_date_witness:
  "\<exists>h. CalculateCandleDateRanges demo_range_end demo_range_start demo_range_end OneHour 2 = Some (Inr h) \<and>
     HasDataAtDate (fst (SetHasDataFromCandles demo_set_candles h)) (6 * OneHour) \<and>
     \<not> HasDataAtDate (fst (SetHasDataFromCandles demo_set_candles h)) (7 * OneHour)"
proof -
  obtain h where h: "CalculateCandleDateRanges demo_range_end demo_range_start demo_range_end OneHour 2 =
      Some (Inr h)"
    and slots: "concat (map ir_Intervals (ih_Ranges h)) =
      interval_slots OneHour (5 * OneHour) (nat ((10 * OneHour - 5 * OneHour) div OneHour))"
    using candle_ranges [OF demo_ranges_ok, of demo_range_end] unfolding demo_rounded
    by (auto simp: Let_def split: option.splits sum.splits)
  have n: "nat ((10 * OneHour - 5 * OneHour) div OneHour) = 5" by (simp add: OneHour_def)
  have m: "map cn_Time demo_set_candles = slot_times (concat (map ir_Intervals (ih_Ranges h)))"
    unfolding slots n
    by (simp add: demo_set_candles_def slot_times_def interval_slots_map demo_candle_def
        CreateIntervalTime_def upt_rec)
  have d: "(10 :: int) ^ 9 dvd OneHour" by (simp add: OneHour_def)
  have at: "HasDataAtDate (fst (SetHasDataFromCandles demo_set_candles h)) t =
      (5 * OneHour \<le> t \<and> t < 10 * OneHour \<and>
       \<not> candle_missing (demo_set_candles ! nat ((t - 5 * OneHour) div OneHour)))" for t
    using data_at_date [OF demo_ranges_ok d h m, of t] unfolding demo_rounded
    by (auto simp: Let_def split: prod.splits)
  have i: "nat ((6 * OneHour - 5 * OneHour) div OneHour) = 1"
    "nat ((7 * OneHour - 5 * OneHour) div OneHour) = 2" by (simp_all add: OneHour_def)
  have c: "\<not> candle_missing (demo_set_candles ! 1)" "candle_missing (demo_set_candles ! 2)"
    by (simp_all add: demo_set_candles_def demo_candle_def zero_candle_def candle_missing_def
        f64_order_defs zero_f64_def)
  have "HasDataAtDate (fst (SetHasDataFromCandles demo_set_candles h)) (6 * OneHour)"
    "\<not> HasDataAtDate (fst (SetHasDataFromCandles demo_set_candles h)) (7 * OneHour)"
    using c unfolding at i by (simp_all add: OneHour_def)
  then show ?thesis using h by blast
qed

theorem summary_stretches_witness:
  "let h = \<lparr>ih_Start = CreateIntervalTime OneHour, ih_End = CreateIntervalTime (3 * OneHour),
            ih_Ranges = [\<lparr>ir_Start = CreateIntervalTime OneHour, ir_End = CreateIntervalTime (3 * OneHour),
              ir_Intervals = interval_slots OneHour OneHour 2\<rparr>], ih_Limit = 2\<rparr>
   in DataSummary False h = [(False, OneHour, 3 * OneHour)]"
proof -
  let ?h = "\<lparr>ih_Start = CreateIntervalTime OneHour, ih_End = CreateIntervalTime (3 * OneHour),
            ih_Ranges = [\<lparr>ir_Start = CreateIntervalTime OneHour, ir_End = CreateIntervalTime (3 * OneHour),
              ir_Intervals = interval_slots OneHour OneHour 2\<rparr>], ih_Limit = 2\<rparr>"
  have c: "concat (map ir_Intervals (ih_Ranges ?h)) = interval_slots OneHour OneHour 2" by simp
  have 1: "slots_from OneHour (it_Time (ih_Start ?h)) (concat (map ir_Intervals (ih_Ranges ?h)))"
    unfolding c by (simp add: interval_slots_from CreateIntervalTime_def)
  have 2: "0 < OneHour" "0 < it_Time (ih_Start ?h)" by (simp_all add: OneHour_def CreateIntervalTime_def)
  show ?thesis
    using summary_stretches [OF 1 2, of False] unfolding c
    by (simp add: numeral_2_eq_2 CreateIntervalTime_def)
qed

theorem construct_interval_witness:
  "Construct (DeployExchangeIntervals [\<lparr>ic_Interval = OneMin, ic_Capacity = 0\<rparr>]) OneHour = Some (Inr OneMin)"
proof -
  let ?e = "[\<lparr>ic_Interval = OneMin, ic_Capacity = 0\<rparr>]"
  have 1: "list_all (\<lambda>x. 0 < ic_Interval x) ?e" "0 < OneHour" by (simp_all add: OneMin_def OneHour_def)
  have d: "OneMin dvd OneHour" by (simp add: OneMin_def OneHour_def)
  show ?thesis
    using construct_interval [OF 1] d by (auto split: option.splits sum.splits)
qed

end
