(* ===== verification/Kline_Request.thy ===== *)
theory Kline_Request
  imports Kline_Ranges
begin

text \<open>
  Requests of candles (\<open>exchanges/kline/request.go\<close>): the alignment of the period of a request, the
  processing of its response, and the same over several requests.

  \<open>clock k\<close> is what the \<open>k\<close>-th call of \<open>time.Now\<close> returns.  The response is filtered in place, in the
  slice of the caller, which is not modelled; \<open>None\<close> is a panic.
\<close>

section \<open>Requests\<close>

record request =
  rq_Exchange :: string
  rq_Pair :: pair
  rq_RequestFormatted :: pair
  rq_Asset :: asset_item
  rq_ExchangeInterval :: interval
  rq_ClientRequired :: interval
  rq_Start :: time
  rq_End :: time
  rq_PartialCandle :: bool
  rq_IsExtended :: bool
  rq_ProcessedCandles :: "candle list"
  rq_RequestLimit :: int

record extended_request =
  er_Request :: "request option"
  er_RangeHolder :: "interval_range_holder option"

definition ErrUnsetName :: go_error where
  "ErrUnsetName = Sentinel ''kline.ErrUnsetName''"
definition ErrNoTimeSeriesDataToConvert :: go_error where
  "ErrNoTimeSeriesDataToConvert = Sentinel ''kline.ErrNoTimeSeriesDataToConvert''"
definition errNilRequest :: go_error where
  "errNilRequest = Sentinel ''kline.errNilRequest''"
definition errInvalidSpecificEndpointLimit :: go_error where
  "errInvalidSpecificEndpointLimit = Sentinel ''kline.errInvalidSpecificEndpointLimit''"

definition PartialCandle :: string where "PartialCandle = ''Partial Candle''"

definition CreateKlineRequest ::
    "store \<Rightarrow> (nat \<Rightarrow> time) \<Rightarrow> string \<Rightarrow> pair \<Rightarrow> pair \<Rightarrow> asset_item \<Rightarrow> interval \<Rightarrow> interval \<Rightarrow> time \<Rightarrow> time \<Rightarrow>
     int \<Rightarrow> request go_result" where
  "CreateKlineRequest cs clock name p formatted a clientRequired exchangeInterval start end_time limit =
     (if name = [] then Inl ErrUnsetName
      else if pair_IsEmpty cs p then Inl ErrCurrencyPairEmpty
      else if pair_IsEmpty cs formatted then Inl ErrCurrencyPairEmpty
      else if \<not> asset_IsValid a then Inl asset_ErrNotSupported
      else if clientRequired = 0 then Inl (Errorf ''client required %w'' [ErrInvalidInterval])
      else if exchangeInterval = 0 then Inl (Errorf ''exchange interval %w'' [ErrInvalidInterval])
      else
        (case StartEndTimeCheck (clock 0) start end_time of
           Some err \<Rightarrow> Inl err
         | None \<Rightarrow>
             if limit \<le> 0 then Inl errInvalidSpecificEndpointLimit
             else
               (let start = time_Truncate start clientRequired;
                    end_time = (if clock 1 < end_time then clock 2 else end_time);
                    endTrunc = time_Truncate end_time clientRequired;
                    end_time = (if endTrunc \<noteq> end_time then endTrunc + clientRequired else end_time)
                in Inr \<lparr>rq_Exchange = name, rq_Pair = p, rq_RequestFormatted = formatted, rq_Asset = a,
                     rq_ExchangeInterval = exchangeInterval, rq_ClientRequired = clientRequired,
                     rq_Start = start, rq_End = end_time, rq_PartialCandle = clock 3 < end_time,
                     rq_IsExtended = False, rq_ProcessedCandles = [], rq_RequestLimit = limit\<rparr>)))"

definition GetRanges :: "time \<Rightarrow> request option \<Rightarrow> 32 word \<Rightarrow> interval_range_holder go_result option" where
  "GetRanges now ro limit =
     (case ro of
        None \<Rightarrow> Some (Inl errNilRequest)
      | Some r \<Rightarrow> CalculateCandleDateRanges now (rq_Start r) (rq_End r) (rq_ExchangeInterval r) limit)"

text \<open>The mark on the most recent candle; the last element of no candles is a panic.\<close>

definition mark_recent :: "time \<Rightarrow> request \<Rightarrow> kline_item \<Rightarrow> kline_item option" where
  "mark_recent now r k =
     (if ki_Candles k = [] then None
      else
        (let c = last (ki_Candles k)
         in Some (if now < cn_Time c + rq_ClientRequired r
                  then k\<lparr>ki_Candles := butlast (ki_Candles k) @ [c\<lparr>cn_ValidationIssues := PartialCandle\<rparr>]\<rparr>
                  else k)))"

text \<open>The item is nil when the conversion fails: to mark its candle then panics as well.\<close>

definition ProcessResponse ::
    "time \<Rightarrow> request option \<Rightarrow> candle list \<Rightarrow> (request option \<times> kline_item go_result) option" where
  "ProcessResponse now ro timeSeries =
     (case ro of
        None \<Rightarrow> Some (None, Inl errNilRequest)
      | Some r \<Rightarrow>
          if timeSeries = [] then Some (Some r, Inl ErrNoTimeSeriesDataToConvert)
          else
            (let holder = new_item (rq_Exchange r) (rq_Pair r) (rq_Asset r) (rq_ExchangeInterval r) timeSeries;
                 holder = RemoveDuplicates holder;
                 holder = RemoveOutsideRange (rq_Start r) (rq_End r) holder;
                 holder = SortCandlesByTimestamp False holder
             in case addPadding (Some holder) (rq_Start r) (rq_End r) (rq_PartialCandle r) of
                  None \<Rightarrow> None
                | Some (Inl err) \<Rightarrow> Some (Some r, Inl err)
                | Some (Inr holder) \<Rightarrow>
                    (let r = (if rq_IsExtended r then r\<lparr>rq_ProcessedCandles := ki_Candles holder\<rparr> else r)
                     in case (if rq_ClientRequired r \<noteq> rq_ExchangeInterval r
                              then ConvertToNewInterval (Some holder) (rq_ClientRequired r)
                              else Some (Inr holder)) of
                          None \<Rightarrow> None
                        | Some (Inl err) \<Rightarrow>
                            if rq_PartialCandle r then None else Some (Some r, Inl err)
                        | Some (Inr holder) \<Rightarrow>
                            if rq_PartialCandle r
                            then (case mark_recent now r holder of
                                    None \<Rightarrow> None
                                  | Some holder \<Rightarrow> Some (Some r, Inr holder))
                            else Some (Some r, Inr holder))))"

definition request_Size :: "request option \<Rightarrow> int" where
  "request_Size ro =
     (case ro of
        None \<Rightarrow> 0
      | Some r \<Rightarrow> TotalCandlesPerInterval (rq_Start r) (rq_End r) (rq_ExchangeInterval r))"

text \<open>The summary is logged when it is not empty; without a range holder the method panics.\<close>

definition extended_ProcessResponse ::
    "time \<Rightarrow> extended_request option \<Rightarrow> candle list \<Rightarrow> (extended_request option \<times> kline_item go_result) option" where
  "extended_ProcessResponse now eo timeSeries =
     (case eo of
        None \<Rightarrow> Some (None, Inl errNilRequest)
      | Some e \<Rightarrow>
          if timeSeries = [] then Some (Some e, Inl ErrNoTimeSeriesDataToConvert)
          else
            (case ProcessResponse now (er_Request e) timeSeries of
               None \<Rightarrow> None
             | Some (ro, Inl err) \<Rightarrow> Some (Some (e\<lparr>er_Request := ro\<rparr>), Inl err)
             | Some (None, Inr holder) \<Rightarrow> None
             | Some (Some r, Inr holder) \<Rightarrow>
                 (case er_RangeHolder e of
                    None \<Rightarrow> None
                  | Some h \<Rightarrow>
                      (case SetHasDataFromCandles (rq_ProcessedCandles r) h of
                         (h, err) \<Rightarrow>
                           Some (Some (e\<lparr>er_Request := Some r, er_RangeHolder := Some h\<rparr>),
                             case err of None \<Rightarrow> Inr holder | Some err \<Rightarrow> Inl err)))))"

definition extended_Size :: "extended_request option \<Rightarrow> int" where
  "extended_Size eo =
     (case eo of
        None \<Rightarrow> 0
      | Some e \<Rightarrow>
          (case er_RangeHolder e of
             None \<Rightarrow> 0
           | Some h \<Rightarrow> sint (word_of_int (ih_Limit h * int (length (ih_Ranges h))) :: 64 word)))"

section \<open>The filters\<close>

text \<open>The candles of a request, as the filters leave them: in order of time, in the period, the
  first of every second.\<close>

definition usable :: "request \<Rightarrow> candle list \<Rightarrow> candle list" where
  "usable r ts =
     slice_sort (\<lambda>a b. cn_Time a < cn_Time b)
       (filter (\<lambda>c. cn_Time c = rq_Start r \<or> (rq_Start r < cn_Time c \<and> cn_Time c < rq_End r)) (firsts [] ts))"

abbreviation whole_seconds :: "candle list \<Rightarrow> bool" where
  "whole_seconds \<equiv> list_all (\<lambda>c. 10 ^ 9 dvd cn_Time c)"

lemma time_Unix_inject:
  assumes "10 ^ 9 dvd t" and "10 ^ 9 dvd u"
  shows "time_Unix t = time_Unix u \<longleftrightarrow> t = u"
proof -
  have d: "10 ^ 9 dvd t - zeroValueUnix" "10 ^ 9 dvd u - zeroValueUnix"
    using assms by (auto simp: zeroValueUnix_def intro!: dvd_diff)
  have "time_Unix t = (t - zeroValueUnix) div 10 ^ 9" for t by (simp add: time_Unix_def)
  then have "time_Unix t = time_Unix u \<longleftrightarrow> t - zeroValueUnix = u - zeroValueUnix"
    using dvd_div_eq_iff [OF d] by simp
  then show ?thesis by linarith
qed

lemma find_firsts:
  assumes "whole_seconds ts" and "10 ^ 9 dvd t" and "time_Unix t \<notin> set seen"
  shows "find (\<lambda>c. cn_Time c = t) (firsts seen ts) = find (\<lambda>c. cn_Time c = t) ts"
  using assms
proof (induction seen ts rule: firsts.induct)
  case (2 seen c cs)
  then show ?case using time_Unix_inject [of "cn_Time c" t] by (auto simp: Let_def)
qed simp

lemma firsts_distinct_times: "distinct (map cn_Time (firsts [] ts))"
  using firsts_props [of "[]" ts] by (simp add: distinct_map comp_def inj_on_def)

lemma candle_at_distinct:
  assumes "distinct (map cn_Time xs)" and "mset ys = mset xs"
  shows "candle_at ys t = candle_at xs t"
proof -
  have d: "distinct (map cn_Time ys)"
    using assms by (metis mset_eq_imp_distinct_iff mset_map)
  have s: "set ys = set xs" using assms(2) by (rule mset_eq_setD)
  have uniq: "find (\<lambda>c. cn_Time c = t) zs = Some c \<longleftrightarrow> c \<in> set zs \<and> cn_Time c = t"
    if "distinct (map cn_Time zs)" for zs :: "candle list" and c
    using that by (induction zs) auto
  have "find (\<lambda>c. cn_Time c = t) ys = find (\<lambda>c. cn_Time c = t) xs"
    using uniq [OF d] uniq [OF assms(1)] s by (metis not_Some_eq)
  then show ?thesis by (simp add: candle_at_def)
qed

lemma find_filter:
  "find P (filter Q xs) = find P xs" if "\<forall>x \<in> set xs. P x \<longrightarrow> Q x"
  using that by (induction xs) auto

lemma usable_props:
  shows "candles_sorted (usable r ts)"
    and "set (usable r ts) = {c \<in> set (firsts [] ts). rq_Start r \<le> cn_Time c \<and>
           (cn_Time c = rq_Start r \<or> cn_Time c < rq_End r)}"
proof -
  let ?f = "filter (\<lambda>c. cn_Time c = rq_Start r \<or> (rq_Start r < cn_Time c \<and> cn_Time c < rq_End r)) (firsts [] ts)"
  have d: "distinct (map cn_Time ?f)" by (rule distinct_map_filter [OF firsts_distinct_times])
  have "sorted_wrt (\<lambda>a b. \<not> cn_Time b < cn_Time a) (usable r ts)"
    unfolding usable_def by (rule slice_sort_sorted [OF weak_order_on_key, of _ UNIV]) simp
  moreover have "distinct (map cn_Time (usable r ts))"
  proof -
    have "mset (map cn_Time (usable r ts)) = mset (map cn_Time ?f)" by (simp add: usable_def)
    from mset_eq_imp_distinct_iff [OF this] d show ?thesis by blast
  qed
  ultimately have "sorted_wrt (<) (map cn_Time (usable r ts))"
    unfolding strict_sorted_iff sorted_map by (simp add: not_less)
  then show "candles_sorted (usable r ts)" by (simp add: sorted_wrt_map)
  show "set (usable r ts) = {c \<in> set (firsts [] ts). rq_Start r \<le> cn_Time c \<and>
           (cn_Time c = rq_Start r \<or> cn_Time c < rq_End r)}"
    unfolding usable_def by auto
qed

lemma candle_at_usable:
  assumes "whole_seconds ts" and "10 ^ 9 dvd t" and "rq_Start r \<le> t" and "t < rq_End r"
  shows "candle_at (usable r ts) t = candle_at ts t"
proof -
  let ?Q = "\<lambda>c. cn_Time c = rq_Start r \<or> (rq_Start r < cn_Time c \<and> cn_Time c < rq_End r)"
  have "candle_at (usable r ts) t = candle_at (filter ?Q (firsts [] ts)) t"
    unfolding usable_def by (rule candle_at_distinct [OF distinct_map_filter [OF firsts_distinct_times]]) simp
  also have "\<dots> = candle_at (firsts [] ts) t"
    unfolding candle_at_def using assms(3,4) by (subst find_filter) auto
  also have "\<dots> = candle_at ts t"
    unfolding candle_at_def using find_firsts [OF assms(1,2), of "[]"] by simp
  finally show ?thesis .
qed

section \<open>The response\<close>

text \<open>A request as \<open>CreateKlineRequest\<close> leaves it: aligned to the required interval, which is a
  multiple of the one that is asked of the exchange, of whole seconds.\<close>

definition request_ok :: "request \<Rightarrow> bool" where
  "request_ok r \<longleftrightarrow>
     0 < rq_ExchangeInterval r \<and> 10 ^ 9 dvd rq_ExchangeInterval r \<and>
     0 < rq_ClientRequired r \<and> rq_ExchangeInterval r dvd rq_ClientRequired r \<and>
     rq_ClientRequired r dvd rq_Start r \<and> rq_ClientRequired r dvd rq_End r \<and>
     rq_Start r < rq_End r \<and> rq_End r - rq_Start r < 2 ^ 63"

definition slot_count :: "request \<Rightarrow> nat" where
  "slot_count r = nat ((rq_End r - rq_Start r) div rq_ExchangeInterval r)"

definition per_candle :: "request \<Rightarrow> nat" where
  "per_candle r = nat (rq_ClientRequired r div rq_ExchangeInterval r)"

text \<open>The candles in the slots of the period, with an empty one at the end left out if the last
  is expected to be partial.\<close>

definition slot_candles :: "request \<Rightarrow> candle list \<Rightarrow> candle list" where
  "slot_candles r ts =
     (let cs = map (\<lambda>j. candle_at ts (rq_Start r + int j * rq_ExchangeInterval r)) [0..<slot_count r]
      in if rq_PartialCandle r \<and> empty_candle (last cs) then butlast cs else cs)"

definition converted :: "request \<Rightarrow> candle list \<Rightarrow> candle list" where
  "converted r cs =
     (let per = per_candle r
      in if per = 1 then cs else map (\<lambda>j. group_candle (group_at per cs j)) [0..<length cs div per])"

definition off_grid :: "request \<Rightarrow> candle list \<Rightarrow> bool" where
  "off_grid r ts \<longleftrightarrow>
     list_ex (\<lambda>c. rq_Start r \<le> cn_Time c \<and> cn_Time c < rq_End r - rq_ExchangeInterval r \<and>
                \<not> rq_ExchangeInterval r dvd cn_Time c) ts"

lemma request_counts:
  assumes "request_ok r"
  shows "rq_End r = rq_Start r + int (slot_count r) * rq_ExchangeInterval r"
    and "rq_ClientRequired r = int (per_candle r) * rq_ExchangeInterval r"
    and "0 < per_candle r" and "per_candle r dvd slot_count r" and "0 < slot_count r"
proof -
  let ?i = "rq_ExchangeInterval r"
  note ok = assms [unfolded request_ok_def]
  obtain p where p: "rq_ClientRequired r = ?i * p" using ok by (auto simp: dvd_def)
  obtain s e where se: "rq_Start r = rq_ClientRequired r * s" "rq_End r = rq_ClientRequired r * e"
    using ok by (auto simp: dvd_def)
  have "0 < ?i * p" "0 < ?i" unfolding p [symmetric] using ok by simp_all
  then have p0: "0 < p" by (rule zero_less_mult_pos)
  have "rq_ClientRequired r * s < rq_ClientRequired r * e" using ok se by simp
  then have es: "s < e" using ok by simp
  have d: "rq_End r - rq_Start r = ?i * (p * (e - s))" using se p by (simp add: algebra_simps)
  have pc: "per_candle r = nat p" and sc: "slot_count r = nat (p * (e - s))"
    using ok p d by (simp_all add: per_candle_def slot_count_def)
  show "rq_End r = rq_Start r + int (slot_count r) * ?i"
    using d p0 es by (simp add: sc algebra_simps)
  show "rq_ClientRequired r = int (per_candle r) * ?i" using p p0 by (simp add: pc)
  show "0 < per_candle r" using p0 by (simp add: pc)
  show "per_candle r dvd slot_count r" unfolding pc sc
    using p0 es by (simp add: nat_mult_distrib)
  show "0 < slot_count r" using p0 es by (simp add: sc)
qed

lemma usable_misaligned:
  assumes "request_ok r" and "whole_seconds ts"
  shows "misaligned (rq_ExchangeInterval r) (rq_Start r) (slot_count r) (usable r ts) = off_grid r ts"
proof -
  let ?i = "rq_ExchangeInterval r"
  note ok = assms(1) [unfolded request_ok_def]
  have e: "rq_Start r + (int (slot_count r) - 1) * ?i = rq_End r - ?i"
    using request_counts(1) [OF assms(1)] by (simp add: algebra_simps)
  have "?i dvd rq_Start r" using ok dvd_trans by blast
  then have d: "?i dvd t - rq_Start r \<longleftrightarrow> ?i dvd t" for t by (metis dvd_diff_commute dvd_diff_right_iff)
  have same: "\<exists>c' \<in> set (firsts [] ts). cn_Time c' = cn_Time c" if "c \<in> set ts" for c
  proof -
    have "(time_Unix \<circ> cn_Time) c \<in> (time_Unix \<circ> cn_Time) ` set (firsts [] ts)"
      using firsts_props [of "[]" ts] that by auto
    then obtain c' where c': "c' \<in> set (firsts [] ts)" "time_Unix (cn_Time c') = time_Unix (cn_Time c)" by auto
    moreover have "c' \<in> set ts" using c'(1) firsts_props [of "[]" ts] by blast
    ultimately show ?thesis using assms(2) that time_Unix_inject by (auto simp: list_all_iff)
  qed
  have sub: "set (firsts [] ts) \<subseteq> set ts" using firsts_props [of "[]" ts] by blast
  show ?thesis
  proof
    assume "misaligned ?i (rq_Start r) (slot_count r) (usable r ts)"
    then obtain c where "c \<in> set (usable r ts)" "\<not> ?i dvd cn_Time c" "cn_Time c < rq_End r - ?i"
      unfolding misaligned_def e d by (auto simp: list_ex_iff)
    then show "off_grid r ts"
      unfolding off_grid_def list_ex_iff using sub by (auto simp: usable_props(2))
  next
    assume "off_grid r ts"
    then obtain c where c: "c \<in> set ts" "rq_Start r \<le> cn_Time c" "cn_Time c < rq_End r - ?i" "\<not> ?i dvd cn_Time c"
      unfolding off_grid_def by (auto simp: list_ex_iff)
    then obtain c' where "c' \<in> set (firsts [] ts)" "cn_Time c' = cn_Time c" using same by blast
    then show "misaligned ?i (rq_Start r) (slot_count r) (usable r ts)"
      unfolding misaligned_def e d list_ex_iff usable_props(2)
      using c ok by (intro bexI [of _ c']) auto
  qed
qed

lemma slots_usable:
  assumes "request_ok r" and "whole_seconds ts"
  shows "map (\<lambda>j. candle_at (usable r ts) (rq_Start r + int j * rq_ExchangeInterval r)) [0..<slot_count r] =
    map (\<lambda>j. candle_at ts (rq_Start r + int j * rq_ExchangeInterval r)) [0..<slot_count r]"
proof (rule map_cong [OF refl])
  let ?i = "rq_ExchangeInterval r"
  note ok = assms(1) [unfolded request_ok_def]
  fix j assume "j \<in> set [0..<slot_count r]"
  then have "int j * ?i < int (slot_count r) * ?i" using ok by simp
  then have "rq_Start r + int j * ?i < rq_End r" using request_counts(1) [OF assms(1)] by linarith
  moreover have "10 ^ 9 dvd rq_Start r" using ok by (meson dvd_trans)
  then have "10 ^ 9 dvd rq_Start r + int j * ?i" using ok by (intro dvd_add dvd_mult) auto
  moreover have "rq_Start r \<le> rq_Start r + int j * ?i" using ok by simp
  ultimately show "candle_at (usable r ts) (rq_Start r + int j * ?i) = candle_at ts (rq_Start r + int j * ?i)"
    using candle_at_usable [OF assms(2)] by blast
qed

lemma filtered_item:
  "SortCandlesByTimestamp False (RemoveOutsideRange (rq_Start r) (rq_End r) (RemoveDuplicates
     (new_item e p a i ts))) = new_item e p a i (usable r ts)"
  by (simp add: SortCandlesByTimestamp_def RemoveOutsideRange_def RemoveDuplicates_def new_item_def
      compact_filter dedup_drop usable_def)

lemma padded_response:
  assumes "request_ok r" and "whole_seconds ts" and "i = rq_ExchangeInterval r"
  shows "addPadding (Some (new_item e p a i (usable r ts))) (rq_Start r) (rq_End r) (rq_PartialCandle r) =
    Some (if off_grid r ts
          then Inl (Errorf ''%w '%s' should be '%s' at '%s' interval'' [errCandleOpenTimeIsNotUTCAligned])
          else Inr (new_item e p a i (slot_candles r ts)))"
proof -
  note ok = assms(1) [unfolded request_ok_def]
  have w: "time_Sub (rq_End r) (rq_Start r) = rq_End r - rq_Start r"
    using ok by (simp add: time_Sub_def max_duration_def)
  have n: "nat ((rq_End r - rq_Start r) sdiv i) = slot_count r"
    using ok assms(3) by (simp add: slot_count_def sdiv_pos)
  have early: "\<forall>c \<in> set (usable r ts). rq_Start r - i < cn_Time c"
    using ok assms(3) by (auto simp: usable_props(2))
  have pos: "0 < i" using ok assms(3) by simp
  note pad = pad_loop [OF usable_props(1) pos early, of "slot_count r",
      unfolded assms(3) usable_misaligned [OF assms(1,2)] slots_usable [OF assms(1,2)]]
  show ?thesis
    using ok assms(3) pad request_counts(5) [OF assms(1)]
    by (simp add: addPadding_def w n [unfolded assms(3)] Let_def new_item_def slot_candles_def)
qed

text \<open>A conversion of consecutive candles joins groups, or fails when there is no whole group.\<close>

lemma convert_consecutive:
  assumes "ki_Candles k = map f [0..<n]" and "\<And>j. cn_Time (f j) = start + int j * ki_Interval k"
    and "0 < n" and "0 < ki_Interval k" and "2 \<le> per" and "int n * ki_Interval k < 2 ^ 63"
  shows "ConvertToNewInterval (Some k) (int per * ki_Interval k) = Some
    (if n < per then Inl (Errorf ''%w to %v no candle data'' [ErrInsufficientCandleData])
     else Inr (new_item (ki_Exchange k) (ki_Pair k) (ki_Asset k) (int per * ki_Interval k)
       (map (\<lambda>j. group_candle (group_at per (ki_Candles k) j)) [0..<n div per])))"
proof -
  let ?cs = "ki_Candles k" and ?i = "ki_Interval k"
  have len: "length ?cs = n" "?cs \<noteq> []" using assms(1,3) by auto
  have ends: "cn_Time (hd ?cs) = start" "cn_Time (last ?cs) = start + (int n - 1) * ?i"
    using assms(1,2,3) by (simp_all add: hd_map last_map of_nat_diff)
  have "0 \<le> int n * ?i" using assms(4) by simp
  then have w: "time_Sub (cn_Time (last ?cs) + ?i) (cn_Time (hd ?cs)) = int n * ?i"
    using assms(6) unfolding ends by (simp add: time_Sub_def max_duration_def algebra_simps)
  have q: "int n * ?i sdiv ?i = int n" "int per * ?i sdiv ?i = int per" using assms(4) by (simp_all add: sdiv_pos)
  have lt: "\<not> int per * ?i \<le> ?i" "0 < int per * ?i" using assms(4,5) by simp_all
  have "convert_loop per 0 0 ?cs (replicate (n div per) zero_candle) =
      map (\<lambda>j. group_candle (group_at per ?cs j)) [0..<n div per]" if "\<not> n < per"
  proof -
    have "length ?cs div per \<noteq> 0" using that assms(5) by (simp add: len(1) div_eq_0_iff)
    then obtain m where m: "length ?cs div per = Suc m" using not0_implies_Suc by blast
    show ?thesis using convert_loop [of per ?cs m 0 0 "[]"] m assms(5) len(1) by simp
  qed
  moreover have "n div per = 0 \<longleftrightarrow> n < per" using assms(5) by (simp add: div_eq_0_iff)
  ultimately show ?thesis
    using assms(4,5) lt len by (simp add: ConvertToNewInterval_def w q Let_def mult_le_0_iff)
qed

definition errCandlesOffGrid :: go_error where
  "errCandlesOffGrid =
     Errorf ''%w '%s' should be '%s' at '%s' interval'' [errCandleOpenTimeIsNotUTCAligned]"

text \<open>What is returned for a response: \<open>None\<close> when there is no candle to be marked as partial.\<close>

definition response_item :: "time \<Rightarrow> request \<Rightarrow> candle list \<Rightarrow> kline_item option" where
  "response_item now r ts =
     (let k = new_item (rq_Exchange r) (rq_Pair r) (rq_Asset r) (rq_ClientRequired r)
                (converted r (slot_candles r ts))
      in if rq_PartialCandle r then mark_recent now r k else Some k)"

lemma slot_candles_map:
  assumes "request_ok r"
  obtains n where
    "slot_candles r ts = map (\<lambda>j. candle_at ts (rq_Start r + int j * rq_ExchangeInterval r)) [0..<n]"
    and "n \<le> slot_count r" and "\<not> rq_PartialCandle r \<Longrightarrow> n = slot_count r" and "slot_count r - 1 \<le> n"
proof -
  obtain m where m: "slot_count r = Suc m" using request_counts(5) [OF assms] not0_implies_Suc by blast
  show thesis
  proof (cases "rq_PartialCandle r \<and> empty_candle (candle_at ts (rq_Start r + int m * rq_ExchangeInterval r))")
    case True
    then show thesis using that [of m] by (simp add: slot_candles_def m Let_def)
  next
    case False
    then show thesis using that [of "slot_count r"] by (auto simp: slot_candles_def m Let_def)
  qed
qed

lemma ProcessResponse_eq:
  assumes "request_ok r" and "whole_seconds ts" and "ts \<noteq> []"
  shows "ProcessResponse now (Some r) ts =
    (if off_grid r ts then Some (Some r, Inl errCandlesOffGrid)
     else map_option
       (\<lambda>k. (Some (if rq_IsExtended r then r\<lparr>rq_ProcessedCandles := slot_candles r ts\<rparr> else r), Inr k))
       (response_item now r ts))"
proof -
  let ?i = "rq_ExchangeInterval r" and ?per = "per_candle r"
  let ?k = "new_item (rq_Exchange r) (rq_Pair r) (rq_Asset r) ?i (slot_candles r ts)"
  note ok = assms(1) [unfolded request_ok_def]
  obtain n where n: "slot_candles r ts = map (\<lambda>j. candle_at ts (rq_Start r + int j * ?i)) [0..<n]"
    "n \<le> slot_count r" "\<not> rq_PartialCandle r \<Longrightarrow> n = slot_count r" "slot_count r - 1 \<le> n"
    using slot_candles_map [OF assms(1)] by blast
  have per: "rq_ClientRequired r = int ?per * ?i" "0 < ?per" "?per dvd slot_count r" "0 < slot_count r"
    using request_counts [OF assms(1)] by simp_all
  have same: "rq_ClientRequired r = ?i \<longleftrightarrow> ?per = 1" using per(1) ok by auto
  have "int n * ?i \<le> int (slot_count r) * ?i" using n(2) ok by simp
  then have small: "int n * ?i < 2 ^ 63" using request_counts(1) [OF assms(1)] ok by linarith
  have conv: "(if rq_ClientRequired r \<noteq> ?i then ConvertToNewInterval (Some ?k) (rq_ClientRequired r)
        else Some (Inr ?k)) =
      Some (if rq_ClientRequired r \<noteq> ?i \<and> n < ?per
            then Inl (Errorf ''%w to %v no candle data'' [ErrInsufficientCandleData])
            else Inr (new_item (rq_Exchange r) (rq_Pair r) (rq_Asset r) (rq_ClientRequired r)
              (converted r (slot_candles r ts))))"
  proof (cases "?per = 1")
    case True
    then show ?thesis using same by (simp add: converted_def Let_def)
  next
    case False
    then have p2: "2 \<le> ?per" using per(2) by simp
    then have n0: "0 < n" using per(3,4) n(4) dvd_imp_le [of ?per "slot_count r"] by linarith
    have fields: "ki_Candles ?k = map (\<lambda>j. candle_at ts (rq_Start r + int j * ?i)) [0..<n]" "ki_Interval ?k = ?i"
      "ki_Exchange ?k = rq_Exchange r" "ki_Pair ?k = rq_Pair r" "ki_Asset ?k = rq_Asset r"
      by (simp_all add: new_item_def n(1))
    have "ConvertToNewInterval (Some ?k) (int ?per * ki_Interval ?k) = Some
      (if n < ?per then Inl (Errorf ''%w to %v no candle data'' [ErrInsufficientCandleData])
       else Inr (new_item (ki_Exchange ?k) (ki_Pair ?k) (ki_Asset ?k) (int ?per * ki_Interval ?k)
         (map (\<lambda>j. group_candle (group_at ?per (ki_Candles ?k) j)) [0..<n div ?per])))"
      using n0 p2 ok small by (intro convert_consecutive [OF fields(1)]) (simp_all add: fields(2))
    then show ?thesis
      using False same n(1) by (simp add: fields(2-) per(1) [symmetric] converted_def Let_def new_item_def)
  qed
  have panic: "mark_recent now r (new_item e p a i (converted r (slot_candles r ts))) = None"
    if "n < ?per" for e p a i
    using that n(1) by (cases "?per = 1") (auto simp: mark_recent_def new_item_def converted_def Let_def)
  have full: "\<not> n < ?per" if "\<not> rq_PartialCandle r"
    using n(3) [OF that] per(3,4) dvd_imp_le [of ?per "slot_count r"] by linarith
  define r' where "r' = (if rq_IsExtended r then r\<lparr>rq_ProcessedCandles := slot_candles r ts\<rparr> else r)"
  have r': "rq_ClientRequired r' = rq_ClientRequired r" "rq_ExchangeInterval r' = rq_ExchangeInterval r"
    "rq_PartialCandle r' = rq_PartialCandle r" "mark_recent now r' k = mark_recent now r k" for k
    by (simp_all add: r'_def mark_recent_def)
  have cs: "ki_Candles ?k = slot_candles r ts" by (simp add: new_item_def)
  have "ProcessResponse now (Some r) ts =
    (if off_grid r ts then Some (Some r, Inl errCandlesOffGrid)
     else case (if rq_ClientRequired r \<noteq> ?i then ConvertToNewInterval (Some ?k) (rq_ClientRequired r)
                else Some (Inr ?k)) of
            None \<Rightarrow> None
          | Some (Inl err) \<Rightarrow> if rq_PartialCandle r then None else Some (Some r', Inl err)
          | Some (Inr holder) \<Rightarrow>
              if rq_PartialCandle r
              then (case mark_recent now r holder of
                      None \<Rightarrow> None | Some holder \<Rightarrow> Some (Some r', Inr holder))
              else Some (Some r', Inr holder))"
    unfolding ProcessResponse_def option.case if_not_P [OF assms(3)] Let_def filtered_item
      padded_response [OF assms(1,2) refl] errCandlesOffGrid_def [symmetric]
    by (cases "off_grid r ts") (simp_all only: if_True if_False sum.case option.case cs r'_def [symmetric] r')
  also have "\<dots> = (if off_grid r ts then Some (Some r, Inl errCandlesOffGrid)
     else map_option (\<lambda>k. (Some r', Inr k)) (response_item now r ts))"
    unfolding conv using panic full same
    by (auto simp: response_item_def Let_def split: option.split)
  finally show ?thesis unfolding r'_def .
qed

section \<open>Data of several responses\<close>

lemma set_intervals_short:
  "map cn_Time cs = slot_times (take k ds) \<Longrightarrow> k < length ds \<Longrightarrow> snd (set_intervals ds cs) = Inl None"
proof (induction ds arbitrary: cs k)
  case (Cons d ds)
  show ?case
  proof (cases k)
    case 0
    then show ?thesis using Cons.prems by (simp add: slot_times_def)
  next
    case (Suc k')
    then obtain c cs' where cs: "cs = c # cs'" using Cons.prems by (cases cs) (auto simp: slot_times_def)
    have "snd (set_intervals ds cs') = Inl None"
      using Cons.prems by (intro Cons.IH [of cs' k']) (simp_all add: slot_times_def Suc cs)
    then show ?thesis
      using Cons.prems(1) by (cases "set_intervals ds cs'") (simp add: cs Suc slot_times_def)
  qed
qed simp

lemma set_ranges_short:
  "map cn_Time cs = slot_times (take k (concat (map ir_Intervals rs))) \<Longrightarrow> snd (set_ranges rs cs) = None"
proof (induction rs arbitrary: cs k)
  case (Cons r rs)
  let ?ds = "ir_Intervals r"
  show ?case
  proof (cases "k < length ?ds")
    case True
    then have "snd (set_intervals ?ds cs) = Inl None"
      using Cons.prems by (intro set_intervals_short [of cs k]) simp_all
    then show ?thesis by (cases "set_intervals ?ds cs") simp
  next
    case False
    then have t: "map cn_Time (take (length ?ds) cs) = slot_times ?ds"
      "map cn_Time (drop (length ?ds) cs) =
         slot_times (take (k - length ?ds) (concat (map ir_Intervals rs)))"
      using Cons.prems by (simp_all add: slot_times_def take_map [symmetric] drop_map [symmetric])
    show ?thesis
      using Cons.IH [OF t(2)] by (cases "set_ranges rs (drop (length ?ds) cs)") (simp add: set_intervals [OF t(1)])
  qed
qed simp

lemma time_Round_dvd: "0 < d \<Longrightarrow> d dvd t \<Longrightarrow> time_Round t d = t"
  by (auto simp: time_Round_def Let_def)

lemma CreateKlineRequest_window:
  assumes "CreateKlineRequest cs clock name p f a required i start end_time limit = Inr r"
    and "0 < required" and "mono clock"
  shows "required dvd rq_Start r" and "required dvd rq_End r"
    and "rq_Start r \<le> start" and "start < rq_Start r + required"
    and "rq_Start r \<le> rq_End r" and "min end_time (clock 2) \<le> rq_End r"
    and "rq_End r < end_time + required \<or> end_time < clock 2" and "rq_End r < clock 2 + required"
    and "rq_PartialCandle r \<longrightarrow> clock 3 < rq_End r" and "start < clock 0 \<Longrightarrow> rq_Start r < rq_End r"
    and "rq_ExchangeInterval r = i" and "rq_ClientRequired r = required"
proof -
  define e where "e = (if clock 1 < end_time then clock 2 else end_time)"
  have chk: "StartEndTimeCheck (clock 0) start end_time = None"
    and r: "rq_Start r = time_Truncate start required"
      "rq_ExchangeInterval r = i" "rq_ClientRequired r = required"
    "rq_End r = (if time_Truncate e required \<noteq> e then time_Truncate e required + required else e)"
      "rq_PartialCandle r \<longleftrightarrow> clock 3 < rq_End r"
    using assms(1) by (auto simp: CreateKlineRequest_def Let_def e_def split: if_splits option.splits)
  have se: "start < end_time" "start \<le> clock 0"
    using chk by (auto simp: StartEndTimeCheck_def split: if_splits)
  have c: "clock 0 \<le> clock 2" "clock 1 \<le> clock 2" using assms(3) by (simp_all add: mono_def)
  have lt: "start < e" if "start < clock 0"
    using that se c by (auto simp: e_def)
  have e': "start \<le> e" "min end_time (clock 2) \<le> e" "e \<le> clock 2" "e \<le> end_time \<or> end_time < clock 2"
    using se c by (auto simp: e_def)
  have up: "e \<le> rq_End r" "rq_End r < e + required" "required dvd rq_End r"
    using Truncate_bounds [OF assms(2), of e] Truncate_dvd [OF assms(2), of e] r(4)
    by (auto split: if_splits simp: dvd_add)
  note start = Truncate_bounds [OF assms(2), of start] Truncate_dvd [OF assms(2), of start]
  show "required dvd rq_Start r" "required dvd rq_End r" using start up r(1) by auto
  show "rq_Start r \<le> start" "start < rq_Start r + required" using start r(1) by auto
  show "rq_Start r \<le> rq_End r" "min end_time (clock 2) \<le> rq_End r" using e' up start r(1) by linarith+
  show "rq_End r < end_time + required \<or> end_time < clock 2" "rq_End r < clock 2 + required"
    using e' up by linarith+
  show "rq_Start r < rq_End r" if "start < clock 0" using lt [OF that] up start r(1) by linarith
  show "rq_PartialCandle r \<longrightarrow> clock 3 < rq_End r" "rq_ExchangeInterval r = i" "rq_ClientRequired r = required"
    using r by simp_all
qed

section \<open>Properties\<close>

text \<open>Also: a request covers whole candles of the required interval, at least the period
  asked for up to the present, and starts no earlier than the candle in which the period starts;
  it ends in no candle after the present one.\<close>

theorem request_window:
  assumes "CreateKlineRequest cs clock name p f a required i start end_time limit = Inr r"
    and "0 < required" and "mono clock"
  shows "required dvd rq_Start r \<and> required dvd rq_End r \<and>
    rq_Start r \<le> start \<and> start < rq_Start r + required \<and>
    rq_Start r \<le> rq_End r \<and> min end_time (clock 2) \<le> rq_End r \<and>
    (rq_End r < end_time + required \<or> end_time < clock 2) \<and> rq_End r < clock 2 + required \<and>
    (rq_PartialCandle r \<longrightarrow> clock 3 < rq_End r)"
  using CreateKlineRequest_window [OF assms] by blast

text \<open>C12: a response of at least one candle, with times on whole seconds, to a request for complete
  candles (one that is not for a partial candle): processing it does not crash, and it is an error if
  and only if a candle of the period before its last slot is off the grid of the exchange's interval.
  Otherwise the result holds for every slot of the period the first given candle of exactly that time or
  an empty one, whatever the order of the response and its duplicates, joined to candles of the required
  interval that cover the whole period; so a candle outside the period is dropped, and so is one off the
  grid in the last slot, without an error.\<close>

theorem process_response:
  assumes "request_ok r" and "whole_seconds ts" and "ts \<noteq> []" and "\<not> rq_PartialCandle r"
  shows "let slots = map (\<lambda>j. candle_at ts (rq_Start r + int j * rq_ExchangeInterval r)) [0..<slot_count r]
   in case ProcessResponse now (Some r) ts of
     None \<Rightarrow> False
   | Some (_, Inl e) \<Rightarrow> off_grid r ts \<and> e = errCandlesOffGrid
   | Some (_, Inr k) \<Rightarrow>
       \<not> off_grid r ts \<and> ki_Interval k = rq_ClientRequired r \<and>
       int (length (ki_Candles k)) * rq_ClientRequired r = rq_End r - rq_Start r \<and>
       ki_Candles k =
         (if rq_ClientRequired r = rq_ExchangeInterval r then slots
          else map (\<lambda>m. group_candle (group_at (per_candle r) slots m)) [0..<slot_count r div per_candle r])"
proof -
  note c = request_counts [OF assms(1)]
  have pos: "0 < rq_ExchangeInterval r" using assms(1) by (simp add: request_ok_def)
  have same: "rq_ClientRequired r = rq_ExchangeInterval r \<longleftrightarrow> per_candle r = 1" using c(2) pos by auto
  have "slot_count r = slot_count r div per_candle r * per_candle r" using c(4) by simp
  then have "int (slot_count r) = int (slot_count r div per_candle r) * int (per_candle r)"
    by (metis of_nat_mult)
  then have len: "int (slot_count r div per_candle r) * rq_ClientRequired r = rq_End r - rq_Start r"
    using c(1,2) by simp
  have s: "slot_candles r ts =
      map (\<lambda>j. candle_at ts (rq_Start r + int j * rq_ExchangeInterval r)) [0..<slot_count r]"
    using assms(4) by (simp add: slot_candles_def)
  show ?thesis
    unfolding ProcessResponse_eq [OF assms(1-3)] Let_def s [symmetric]
    using assms(4) len same by (auto simp: response_item_def new_item_def converted_def Let_def s)
qed


text \<open>Also: to record the data of a response in the ranges of its request never turns a
  response that was processed into an error.\<close>

theorem extended_response:
  assumes "request_ok r" and "whole_seconds ts" and "ts \<noteq> []" and "rq_IsExtended r"
    and "ranges_ok (rq_Start r) (rq_End r) (rq_ExchangeInterval r) limit"
    and "GetRanges clock (Some r) limit = Some (Inr h)"
  shows "map_option snd (extended_ProcessResponse now (Some \<lparr>er_Request = Some r, er_RangeHolder = Some h\<rparr>) ts) =
    map_option snd (ProcessResponse now (Some r) ts)"
proof -
  let ?i = "rq_ExchangeInterval r"
  note ok = assms(1) [unfolded request_ok_def]
  have "?i dvd rq_Start r" "?i dvd rq_End r" using ok dvd_trans by blast+
  then have round: "time_Round (rq_Start r) ?i = rq_Start r" "time_Round (rq_End r) ?i = rq_End r"
    using ok by (simp_all add: time_Round_dvd)
  obtain rs where rs: "ih_Ranges h = rs"
      "concat (map ir_Intervals rs) = interval_slots ?i (rq_Start r) (slot_count r)"
    using ranges_result [OF assms(5), of clock thesis] assms(6)
    by (auto simp: GetRanges_def round tiles_def slot_count_def)
  obtain n where n: "slot_candles r ts = map (\<lambda>j. candle_at ts (rq_Start r + int j * ?i)) [0..<n]"
    "n \<le> slot_count r" using slot_candles_map [OF assms(1)] by blast
  have "map cn_Time (slot_candles r ts) = slot_times (take n (concat (map ir_Intervals rs)))"
    using n by (simp add: rs(2) interval_slots_map slot_times_def take_map CreateIntervalTime_def)
  then have none: "snd (SetHasDataFromCandles (slot_candles r ts) h) = None"
    using set_ranges_short by (simp add: SetHasDataFromCandles_def rs(1) split: prod.split)
      (metis snd_conv)
  show ?thesis
    using none assms(3,4)
    by (cases "response_item now r ts"; cases "SetHasDataFromCandles (slot_candles r ts) h")
      (simp_all add: extended_ProcessResponse_def ProcessResponse_eq [OF assms(1-3)])
qed

section \<open>Instances\<close>

definition demo_base :: time where "demo_base = 24 * OneHour"

definition demo_request :: "bool \<Rightarrow> request" where
  "demo_request partial =
     \<lparr>rq_Exchange = ''Kraken'', rq_Pair = EMPTYPAIR, rq_RequestFormatted = EMPTYPAIR, rq_Asset = Spot,
      rq_ExchangeInterval = OneHour, rq_ClientRequired = 2 * OneHour, rq_Start = demo_base,
      rq_End = demo_base + 2 * OneHour, rq_PartialCandle = partial, rq_IsExtended = True,
      rq_ProcessedCandles = [], rq_RequestLimit = 5\<rparr>"

lemma demo_request_ok: "request_ok (demo_request b)"
  by (simp add: request_ok_def demo_request_def demo_base_def OneHour_def)

lemma demo_counts: "slot_count (demo_request b) = 2" "per_candle (demo_request b) = 2"
  by (simp_all add: slot_count_def per_candle_def demo_request_def demo_base_def OneHour_def)

abbreviation demo_response :: "candle list" where
  "demo_response \<equiv> [demo_candle (demo_base + OneHour), demo_candle demo_base, demo_candle demo_base]"

lemma demo_response_whole: "whole_seconds demo_response" "whole_seconds [demo_candle demo_base]"
  by (simp_all add: demo_candle_def demo_base_def OneHour_def)

lemma demo_on_grid: "\<not> off_grid (demo_request b) demo_response" "\<not> off_grid (demo_request b) [demo_candle demo_base]"
  by (simp_all add: off_grid_def demo_request_def demo_candle_def demo_base_def OneHour_def)

definition quoted_store :: store where
  "quoted_store = \<lparr>cs_heap = (\<lambda>_. Some (empty_item\<lparr>Symbol := ''X''\<rparr>)), cs_next = 2,
     cs_items = (\<lambda>_. None)\<rparr>"

definition quoted_pair :: pair where
  "quoted_pair = NewPair \<lparr>Item = Some 0, upperCase = True\<rparr> \<lparr>Item = Some 1, upperCase = True\<rparr>"

lemma quoted_pair_filled: "\<not> pair_IsEmpty quoted_store quoted_pair"
  by (simp add: quoted_store_def quoted_pair_def pair_IsEmpty_def code_IsEmpty_def item_at_def NewPair_def)

theorem request_window_witness:
  "\<exists>r. CreateKlineRequest quoted_store (\<lambda>_. 30 * OneHour) ''Kraken'' quoted_pair quoted_pair Spot (4 * OneHour)
       OneHour (5 * OneHour) (40 * OneHour) 5 = Inr r \<and>
     rq_Start r \<le> 5 * OneHour \<and> 30 * OneHour \<le> rq_End r \<and> 4 * OneHour dvd rq_End r"
proof -
  have spot: "asset_IsValid Spot" by code_simp
  have "StartEndTimeCheck (30 * OneHour) (5 * OneHour) (40 * OneHour) = None"
    by (simp add: StartEndTimeCheck_def IsZero_def zeroValueUnix_def OneHour_def)
  then obtain r where r: "CreateKlineRequest quoted_store (\<lambda>_. 30 * OneHour) ''Kraken'' quoted_pair quoted_pair Spot
      (4 * OneHour) OneHour (5 * OneHour) (40 * OneHour) 5 = Inr r"
    using quoted_pair_filled spot by (simp add: CreateKlineRequest_def Let_def OneHour_def)
  have "mono (\<lambda>_ :: nat. 30 * OneHour)" by (simp add: mono_def)
  from request_window [OF r _ this] show ?thesis using r by (auto simp: OneHour_def)
qed

theorem process_response_witness:
  "case ProcessResponse demo_base (Some (demo_request False)) demo_response of
     Some (_, Inr k) \<Rightarrow> length (ki_Candles k) = 1
   | _ \<Rightarrow> False"
proof -
  have p: "\<not> rq_PartialCandle (demo_request False)" by (simp add: demo_request_def)
  show ?thesis
    using process_response [OF demo_request_ok demo_response_whole(1) _ p, of demo_base] demo_on_grid(1)
    by (auto simp: Let_def demo_counts demo_request_def OneHour_def split: option.splits sum.splits prod.splits)
qed


theorem extended_response_witness:
  "\<exists>h. GetRanges demo_base (Some (demo_request False)) 5 = Some (Inr h) \<and>
     map_option snd (extended_ProcessResponse demo_base
       (Some \<lparr>er_Request = Some (demo_request False), er_RangeHolder = Some h\<rparr>) demo_response) =
     map_option snd (ProcessResponse demo_base (Some (demo_request False)) demo_response)"
proof -
  let ?r = "demo_request False"
  have ok: "ranges_ok (rq_Start ?r) (rq_End ?r) (rq_ExchangeInterval ?r) 5"
    by (simp add: ranges_ok_def demo_request_def demo_base_def OneHour_def zeroValueUnix_def time_Round_def)
  obtain h where h: "GetRanges demo_base (Some ?r) 5 = Some (Inr h)"
    using ranges_result [OF ok, of demo_base thesis] by (simp add: GetRanges_def)
  have "rq_IsExtended ?r" by (simp add: demo_request_def)
  from extended_response [OF demo_request_ok demo_response_whole(1) _ this ok h, of demo_base]
  show ?thesis using h by auto
qed

end
