(* ===== verification/Exchange_Base.thy ===== *)
theory Exchange_Base
  imports Pairs_Manager Kline_Request
begin

text \<open>
  The base of the exchange connectors (\<open>exchanges/exchange.go\<close>): its pairs with those of its
  configuration, their formats, the update of the pairs from an exchange, and the requests of candles.

  The fields that other parts of the connectors use are left out of the record, and so is what is
  logged.  \<open>None\<close> is a panic: a nil store of pairs or a nil configuration.  An argument \<open>order\<close> is the
  order in which a loop runs over the map of stores.
\<close>

section \<open>The base\<close>

record base =
  b_Name :: string
  b_Enabled :: bool
  b_CurrencyPairs :: pairs_manager
  b_ConfigPairs :: "pairs_manager option"
  b_Bypass :: bool
  b_Kline :: exchange_capabilities_enabled
  b_unsupported :: "(asset_item \<rightharpoonup> bool) option"

definition ErrSymbolCannotBeMatched :: go_error where
  "ErrSymbolCannotBeMatched = Sentinel ''exchange.ErrSymbolCannotBeMatched''"
definition errConfigPairFormatRequiresDelimiter :: go_error where
  "errConfigPairFormatRequiresDelimiter = Sentinel ''exchange.errConfigPairFormatRequiresDelimiter''"
definition ErrCurrencyNotSupported :: go_error where
  "ErrCurrencyNotSupported = Sentinel ''currency.ErrCurrencyNotSupported''"
definition ErrRequestExceedsExchangeLimits :: go_error where
  "ErrRequestExceedsExchangeLimits = Sentinel ''kline.ErrRequestExceedsExchangeLimits''"

section \<open>Reading the pairs\<close>

definition base_GetAssetTypes :: "full_store \<Rightarrow> bool \<Rightarrow> asset_item list option" where
  "base_GetAssetTypes order en = pm_GetAssetTypes order en"

definition GetPairFormat :: "base \<Rightarrow> asset_item \<Rightarrow> bool \<Rightarrow> pair_format go_result" where
  "GetPairFormat b a r = GetFormat (b_CurrencyPairs b) a r"

definition GetEnabledPairs :: "base \<Rightarrow> asset_item \<Rightarrow> pair list go_result option" where
  "GetEnabledPairs b a =
     (case IsAssetEnabled (b_CurrencyPairs b) a of
        Some err \<Rightarrow> Some (Inl err)
      | None \<Rightarrow>
          (case GetPairFormat b a False of
             Inl err \<Rightarrow> Some (Inl err)
           | Inr fmt \<Rightarrow>
               (case GetPairs (b_CurrencyPairs b) a True of
                  None \<Rightarrow> None
                | Some (_, Some err) \<Rightarrow> Some (Inl err)
                | Some (ps, None) \<Rightarrow> Some (Inr (pairs_Format ps fmt)))))"

definition GetAvailablePairs :: "base \<Rightarrow> asset_item \<Rightarrow> pair list go_result option" where
  "GetAvailablePairs b a =
     (case GetPairFormat b a False of
        Inl err \<Rightarrow> Some (Inl err)
      | Inr fmt \<Rightarrow>
          (case GetPairs (b_CurrencyPairs b) a False of
             None \<Rightarrow> None
           | Some (_, Some err) \<Rightarrow> Some (Inl err)
           | Some (ps, None) \<Rightarrow> Some (Inr (pairs_Format ps fmt))))"

definition SupportsPair :: "base \<Rightarrow> pair \<Rightarrow> bool \<Rightarrow> asset_item \<Rightarrow> go_error option option" where
  "SupportsPair b p en a =
     (case (if en then GetEnabledPairs b a else GetAvailablePairs b a) of
        None \<Rightarrow> None
      | Some (Inl err) \<Rightarrow> Some (Some err)
      | Some (Inr ps) \<Rightarrow>
          Some (if pairs_Contains ps p False then None else Some (Errorf ''%w %v'' [ErrCurrencyNotSupported])))"

fun pair_asset_loop :: "base \<Rightarrow> pair \<Rightarrow> asset_item list \<Rightarrow> asset_item go_result option" where
  "pair_asset_loop b c [] = Some (Inl (Errorf ''asset type not associated with currency pair'' []))"
| "pair_asset_loop b c (a # as) =
     (case GetAvailablePairs b a of
        None \<Rightarrow> None
      | Some (Inl err) \<Rightarrow> Some (Inl err)
      | Some (Inr avail) \<Rightarrow>
          if pairs_Contains avail c True then Some (Inr a) else pair_asset_loop b c as)"

definition GetPairAssetType :: "full_store \<Rightarrow> base \<Rightarrow> pair \<Rightarrow> asset_item go_result option" where
  "GetPairAssetType order b c =
     (case base_GetAssetTypes order False of None \<Rightarrow> None | Some as \<Rightarrow> pair_asset_loop b c as)"

fun symbol_asset_loop :: "store \<Rightarrow> base \<Rightarrow> string \<Rightarrow> asset_item list \<Rightarrow> (pair \<times> asset_item) go_result option" where
  "symbol_asset_loop cs b s [] = Some (Inl ErrSymbolCannotBeMatched)"
| "symbol_asset_loop cs b s (a # as) =
     (case GetPairFormat b a True of
        Inl err \<Rightarrow> Some (Inl err)
      | Inr pFmt \<Rightarrow>
          (case GetEnabledPairs b a of
             None \<Rightarrow> None
           | Some (Inl err) \<Rightarrow> Some (Inl err)
           | Some (Inr en) \<Rightarrow>
               (case find (\<lambda>p. format_Format cs pFmt p = s) en of
                  Some p \<Rightarrow> Some (Inr (p, a))
                | None \<Rightarrow> symbol_asset_loop cs b s as)))"

definition GetPairAndAssetTypeRequestFormatted ::
    "full_store \<Rightarrow> store \<Rightarrow> base \<Rightarrow> string \<Rightarrow> (pair \<times> asset_item) go_result option" where
  "GetPairAndAssetTypeRequestFormatted order cs b symbol =
     (if symbol = [] then Some (Inl ErrCurrencyPairEmpty)
      else (case base_GetAssetTypes order True of None \<Rightarrow> None | Some as \<Rightarrow> symbol_asset_loop cs b symbol as))"

text \<open>With an error the pair is empty; the asset type is that of the error.\<close>

fun request_pair_loop :: "store \<Rightarrow> base \<Rightarrow> string \<Rightarrow> asset_item list \<Rightarrow> (pair \<times> asset_item \<times> go_error option) option" where
  "request_pair_loop cs b p [] = Some (EMPTYPAIR, Empty, Some (Errorf ''%s %w'' [ErrPairNotFound]))"
| "request_pair_loop cs b p (a # as) =
     (case GetPairFormat b a True of
        Inl err \<Rightarrow> Some (EMPTYPAIR, a, Some err)
      | Inr fmt \<Rightarrow>
          (case GetPairs (b_CurrencyPairs b) a True of
             None \<Rightarrow> None
           | Some (_, Some err) \<Rightarrow> Some (EMPTYPAIR, a, Some err)
           | Some (ps, None) \<Rightarrow>
               (case find (\<lambda>q. EqualFold (pair_String cs (pair_Format q fmt)) p) ps of
                  Some q \<Rightarrow> Some (pair_Format q fmt, a, None)
                | None \<Rightarrow> request_pair_loop cs b p as)))"

definition GetRequestFormattedPairAndAssetType ::
    "full_store \<Rightarrow> store \<Rightarrow> base \<Rightarrow> string \<Rightarrow> (pair \<times> asset_item \<times> go_error option) option" where
  "GetRequestFormattedPairAndAssetType order cs b p =
     (case base_GetAssetTypes order True of None \<Rightarrow> None | Some as \<Rightarrow> request_pair_loop cs b p as)"

definition FormatExchangeCurrency :: "store \<Rightarrow> base \<Rightarrow> pair \<Rightarrow> asset_item \<Rightarrow> pair go_result" where
  "FormatExchangeCurrency cs b p a =
     (if pair_IsEmpty cs p then Inl ErrCurrencyPairEmpty
      else map_sum id (\<lambda>f. pair_Format p f) (GetPairFormat b a True))"

fun format_loop :: "store \<Rightarrow> base \<Rightarrow> asset_item \<Rightarrow> string \<Rightarrow> pair list \<Rightarrow> string go_result" where
  "format_loop cs b a sep [] = Inr []"
| "format_loop cs b a sep (p # ps) =
     (case FormatExchangeCurrency cs b p a of
        Inl err \<Rightarrow> Inl err
      | Inr f \<Rightarrow>
          map_sum id (\<lambda>s. pair_String cs f @ (if ps = [] then [] else sep) @ s) (format_loop cs b a sep ps))"

definition FormatExchangeCurrencies :: "store \<Rightarrow> base \<Rightarrow> pair list \<Rightarrow> asset_item \<Rightarrow> string go_result" where
  "FormatExchangeCurrencies cs b ps a =
     (case GetPairFormat b a True of
        Inl err \<Rightarrow> Inl err
      | Inr pairFmt \<Rightarrow>
          (case format_loop cs b a (Separator pairFmt) ps of
             Inl err \<Rightarrow> Inl err
           | Inr s \<Rightarrow> if s = [] then Inl (Errorf ''returned empty string'' []) else Inr s))"

definition FormatSymbol :: "store \<Rightarrow> base \<Rightarrow> pair \<Rightarrow> asset_item \<Rightarrow> string \<times> go_error option" where
  "FormatSymbol cs b p a =
     (case GetPairFormat b a True of
        Inl err \<Rightarrow> (pair_String cs p, Some err)
      | Inr f \<Rightarrow> (format_Format cs f p, None))"

definition SupportsAsset :: "base \<Rightarrow> asset_item \<Rightarrow> bool" where
  "SupportsAsset b a = IsAssetSupported (b_CurrencyPairs b) a"

definition MatchSymbolWithAvailablePairs :: "base \<Rightarrow> string \<Rightarrow> asset_item \<Rightarrow> bool \<Rightarrow> pair go_result" where
  "MatchSymbolWithAvailablePairs b symbol a hasDelimiter =
     (let symbol = (if hasDelimiter
                    then (case punct_index symbol of
                            Some x \<Rightarrow> take x symbol @ drop (x + 1) symbol
                          | None \<Rightarrow> symbol)
                    else symbol)
      in Match (b_CurrencyPairs b) symbol a)"

definition base_IsPairEnabled :: "store \<Rightarrow> base \<Rightarrow> pair \<Rightarrow> asset_item \<Rightarrow> bool go_result" where
  "base_IsPairEnabled cs b p a = IsPairEnabled cs (b_CurrencyPairs b) p a"

definition MatchSymbolCheckEnabled ::
    "store \<Rightarrow> base \<Rightarrow> string \<Rightarrow> asset_item \<Rightarrow> bool \<Rightarrow> pair \<times> bool \<times> go_error option" where
  "MatchSymbolCheckEnabled cs b symbol a hasDelimiter =
     (case MatchSymbolWithAvailablePairs b symbol a hasDelimiter of
        Inl err \<Rightarrow> (EMPTYPAIR, False, Some err)
      | Inr p \<Rightarrow>
          (case base_IsPairEnabled cs b p a of
             Inl err \<Rightarrow> (p, False, Some err)
           | Inr e \<Rightarrow> (p, e, None)))"

section \<open>Changing the pairs\<close>

text \<open>\<open>StorePairs\<close> on the pairs of the configuration and on those of the base; \<open>both\<close> says that the
  configuration comes first.\<close>

definition config_StorePairs ::
    "store \<Rightarrow> asset_item \<Rightarrow> pair list \<Rightarrow> bool \<Rightarrow> base \<Rightarrow> (base \<times> go_error option) option" where
  "config_StorePairs cs a ps en b =
     (case b_ConfigPairs b of
        None \<Rightarrow> None
      | Some m \<Rightarrow> map_option (\<lambda>(m, err). (b\<lparr>b_ConfigPairs := Some m\<rparr>, err)) (StorePairs cs a ps en m))"

definition base_StorePairs ::
    "store \<Rightarrow> asset_item \<Rightarrow> pair list \<Rightarrow> bool \<Rightarrow> base \<Rightarrow> (base \<times> go_error option) option" where
  "base_StorePairs cs a ps en b =
     map_option (\<lambda>(m, err). (b\<lparr>b_CurrencyPairs := m\<rparr>, err)) (StorePairs cs a ps en (b_CurrencyPairs b))"

text \<open>The second operation runs if the first returned no error.\<close>

definition and_then ::
    "(base \<times> go_error option) option \<Rightarrow> (base \<Rightarrow> (base \<times> go_error option) option) \<Rightarrow> (base \<times> go_error option) option" where
  "and_then r f =
     (case r of
        None \<Rightarrow> None
      | Some (b, Some err) \<Rightarrow> Some (b, Some err)
      | Some (b, None) \<Rightarrow> f b)"

definition SetPairs ::
    "store \<Rightarrow> pair list \<Rightarrow> asset_item \<Rightarrow> bool \<Rightarrow> base \<Rightarrow> (base \<times> go_error option) option" where
  "SetPairs cs ps a en b =
     (if length ps = 0 then Some (b, Some (Errorf ''%s SetPairs error - pairs is empty'' []))
      else
        (case GetPairFormat b a False of
           Inl err \<Rightarrow> Some (b, Some err)
         | Inr pairFmt \<Rightarrow>
             (let cPairs = map (\<lambda>p. pair_Format p pairFmt) ps
              in and_then (base_StorePairs cs a cPairs en b) (config_StorePairs cs a cPairs en))))"

definition base_EnsureOnePairEnabled ::
    "(nat \<Rightarrow> nat) \<Rightarrow> full_store \<Rightarrow> full_store \<Rightarrow> base \<Rightarrow> (base \<times> go_error option) option" where
  "base_EnsureOnePairEnabled intn order1 order2 b =
     (case ps_EnsureOnePairEnabled intn order1 order2 (Some (b_CurrencyPairs b)) of
        Some (Some m, _, _, err) \<Rightarrow> Some (b\<lparr>b_CurrencyPairs := m\<rparr>, err)
      | _ \<Rightarrow> None)"

text \<open>The loop over the enabled pairs of \<open>UpdatePairs\<close>, that keeps what is still available, in the new
  format, and what can be derived from an available pair; \<open>check\<close> holds the names seen.\<close>

fun keep_enabled ::
    "store \<Rightarrow> pair_format \<Rightarrow> pair list \<Rightarrow> string list \<Rightarrow> pair list \<Rightarrow> pair list \<Rightarrow> pair list" where
  "keep_enabled cs pFmt incoming check rem [] = []"
| "keep_enabled cs pFmt incoming check rem (x # xs) =
     (let pairNoFmt = format_Format cs EMPTYFORMAT x
      in if List.member check pairNoFmt
         then keep_enabled cs pFmt incoming check (pairs_Add rem [x]) xs
         else if \<not> pairs_Contains rem x True
         then pair_Format x pFmt # keep_enabled cs pFmt incoming (pairNoFmt # check) rem xs
         else
           (case DeriveFrom cs incoming pairNoFmt of
              Inl err \<Rightarrow> keep_enabled cs pFmt incoming (pairNoFmt # check) rem xs
            | Inr m \<Rightarrow>
                pair_Format m pFmt #
                keep_enabled cs pFmt incoming (pairNoFmt # check) (pairs_Remove rem [x]) xs))"

text \<open>The second part of \<open>UpdatePairs\<close>: the enabled pairs follow the available ones.\<close>

definition adjust_enabled ::
    "store \<Rightarrow> (nat \<Rightarrow> nat) \<Rightarrow> pair_format \<Rightarrow> pair list \<Rightarrow> asset_item \<Rightarrow> base \<Rightarrow> (base \<times> go_error option) option" where
  "adjust_enabled cs intn pFmt incoming a b =
     (case GetPairs (b_CurrencyPairs b) a True of
        None \<Rightarrow> None
      | Some (enabledPairs, err) \<Rightarrow>
          if (case err of
                None \<Rightarrow> False
              | Some e \<Rightarrow> \<not> errors_is e ErrPairNotContainedInAvailablePairs \<and> \<not> errors_is e ErrPairDuplication)
          then Some (b, err)
          else if err = None \<and> \<not> pairs_HasFormatDifference cs enabledPairs pFmt then Some (b, None)
          else
            (case FindDifferences cs enabledPairs incoming pFmt of
               Inl err \<Rightarrow> Some (b, Some err)
             | Inr diff \<Rightarrow>
                 (let en = keep_enabled cs pFmt incoming [] (diff_Remove diff) enabledPairs
                  in case (if en = [] \<and> incoming \<noteq> [] then map_sum id (\<lambda>p. [p]) (GetRandomPair intn incoming)
                           else Inr en) of
                       Inl err \<Rightarrow> Some (b, Some err)
                     | Inr en \<Rightarrow>
                         and_then (config_StorePairs cs a en True b) (base_StorePairs cs a en True))))"

definition UpdatePairs ::
    "store \<Rightarrow> (nat \<Rightarrow> nat) \<Rightarrow> pair list \<Rightarrow> asset_item \<Rightarrow> bool \<Rightarrow> bool \<Rightarrow> base \<Rightarrow> (base \<times> go_error option) option" where
  "UpdatePairs cs intn incoming a en force b =
     (case GetPairFormat b a False of
        Inl err \<Rightarrow> Some (b, Some err)
      | Inr pFmt \<Rightarrow>
          (case ValidateAndConform cs incoming pFmt (b_Bypass b) of
             Inl err \<Rightarrow> Some (b, Some err)
           | Inr incoming \<Rightarrow>
               (case GetPairs (b_CurrencyPairs b) a en of
                  None \<Rightarrow> None
                | Some (_, Some err) \<Rightarrow> Some (b, Some err)
                | Some (oldPairs, None) \<Rightarrow>
                    (case FindDifferences cs oldPairs incoming pFmt of
                       Inl err \<Rightarrow> Some (b, Some err)
                     | Inr diff \<Rightarrow>
                         and_then
                           (if force \<or> length (diff_New diff) \<noteq> 0 \<or> length (diff_Remove diff) \<noteq> 0 \<or>
                               FormatDifference diff
                            then and_then (config_StorePairs cs a incoming en b) (base_StorePairs cs a incoming en)
                            else Some (b, None))
                           (\<lambda>b. if en then Some (b, None) else adjust_enabled cs intn pFmt incoming a b)))))"

section \<open>Setting up\<close>

definition StoreAssetPairFormat :: "asset_item \<Rightarrow> pair_store \<Rightarrow> base \<Rightarrow> base \<times> go_error option" where
  "StoreAssetPairFormat a f b =
     (if asset_String a = [] then (b, Some (Errorf ''%s cannot add to pairs manager, no asset provided'' []))
      else
        (let f = (if ps_AssetEnabled f = None then f\<lparr>ps_AssetEnabled := Some True\<rparr> else f)
         in if ps_RequestFormat f = None
            then (b, Some (Errorf ''%s cannot add to pairs manager, request pair format not provided'' []))
            else (case ps_ConfigFormat f of
                    None \<Rightarrow> (b, Some (Errorf ''%s cannot add to pairs manager, config pair format not provided'' []))
                  | Some cf \<Rightarrow>
                      if fmt_Delimiter cf = []
                      then (b, Some (Errorf ''exchange %s cannot set asset %s pair format %w''
                             [errConfigPairFormatRequiresDelimiter]))
                      else (b\<lparr>b_CurrencyPairs := put_store a f (b_CurrencyPairs b)\<rparr>, None))))"

fun global_loop :: "pair_format \<Rightarrow> pair_format \<Rightarrow> asset_item list \<Rightarrow> pairs_manager \<Rightarrow> pairs_manager \<times> go_error option" where
  "global_loop req conf [] m = (m, None)"
| "global_loop req conf (a # as) m =
     (if asset_String a = []
      then (m\<lparr>pm_Pairs := None\<rparr>, Some (Errorf ''%s cannot set pairs manager, asset is empty string'' []))
      else global_loop req conf as
             (put_store a (empty_store_of_pairs\<lparr>ps_AssetEnabled := Some True, ps_ConfigFormat := Some conf,
                ps_RequestFormat := Some req\<rparr>) m))"

definition SetGlobalPairsManager ::
    "pair_format option \<Rightarrow> pair_format option \<Rightarrow> asset_item list \<Rightarrow> base \<Rightarrow> base \<times> go_error option" where
  "SetGlobalPairsManager reqo confo assets b =
     (case reqo of
        None \<Rightarrow> (b, Some (Errorf ''%s cannot set pairs manager, request pair format not provided'' []))
      | Some req \<Rightarrow>
          (case confo of
             None \<Rightarrow> (b, Some (Errorf ''%s cannot set pairs manager, config pair format not provided'' []))
           | Some conf \<Rightarrow>
               if length assets = 0 then (b, Some (Errorf ''%s cannot set pairs manager, no assets provided'' []))
               else if fmt_Delimiter conf = []
               then (b, Some (Errorf ''exchange %s cannot set global pairs manager %w for assets %s''
                      [errConfigPairFormatRequiresDelimiter]))
               else
                 (let m = (b_CurrencyPairs b)\<lparr>pm_UseGlobalFormat := True, pm_RequestFormat := Some req,
                            pm_ConfigFormat := Some conf\<rparr>
                  in if pm_Pairs m \<noteq> None
                     then (b\<lparr>b_CurrencyPairs := m\<rparr>,
                           Some (Errorf ''%s cannot set pairs manager, pairs already set'' []))
                     else (case global_loop req conf assets (m\<lparr>pm_Pairs := Some []\<rparr>) of
                             (m, err) \<Rightarrow> (b\<lparr>b_CurrencyPairs := m\<rparr>, err)))))"

fun format_sync_loop ::
    "store \<Rightarrow> pairs_manager \<Rightarrow> asset_item list \<Rightarrow> pairs_manager \<Rightarrow> (pairs_manager \<times> go_error option) option" where
  "format_sync_loop cs src [] cfg = Some (cfg, None)"
| "format_sync_loop cs src (a # as) cfg =
     (case pm_Get cfg a of
        Inr _ \<Rightarrow> format_sync_loop cs src as cfg
      | Inl _ \<Rightarrow>
          (case pm_Get src a of
             Inl err \<Rightarrow> Some (cfg, Some err)
           | Inr ps \<Rightarrow>
               (case pm_Store cs a ps cfg of
                  None \<Rightarrow> None
                | Some (cfg, Some err) \<Rightarrow> Some (cfg, Some err)
                | Some (cfg, None) \<Rightarrow> format_sync_loop cs src as cfg)))"

definition SetCurrencyPairFormat :: "full_store \<Rightarrow> store \<Rightarrow> base \<Rightarrow> (base \<times> go_error option) option" where
  "SetCurrencyPairFormat order cs b =
     (let m = b_CurrencyPairs b;
          cfg = (case b_ConfigPairs b of None \<Rightarrow> new_manager | Some cfg \<Rightarrow> cfg)\<lparr>pm_UseGlobalFormat := pm_UseGlobalFormat m\<rparr>
      in if pm_UseGlobalFormat cfg
         then Some (b\<lparr>b_ConfigPairs := Some (cfg\<lparr>pm_RequestFormat := pm_RequestFormat m,
                        pm_ConfigFormat := pm_ConfigFormat m\<rparr>)\<rparr>, None)
         else
           (case base_GetAssetTypes order False of
              None \<Rightarrow> None
            | Some as \<Rightarrow>
                map_option (\<lambda>(cfg, err). (b\<lparr>b_ConfigPairs := Some cfg\<rparr>, err))
                  (format_sync_loop cs m as (cfg\<lparr>pm_ConfigFormat := None, pm_RequestFormat := None\<rparr>))))"

text \<open>An asset type of the configuration in \<open>SetConfigPairs\<close>: the error of an asset type that is enabled
  already is no error.\<close>

definition config_formats :: "asset_item \<Rightarrow> pair_store \<Rightarrow> base \<Rightarrow> (base \<times> go_error option) option" where
  "config_formats a ps b =
     (let put = (\<lambda>f c b. case b_ConfigPairs b of
                   None \<Rightarrow> None
                 | Some cfg \<Rightarrow> map_option (\<lambda>(cfg, err). (b\<lparr>b_ConfigPairs := Some cfg\<rparr>, err)) (StoreFormat a f c cfg))
      in and_then (if ps_ConfigFormat ps \<noteq> None then put (ps_ConfigFormat ps) True b else Some (b, None))
           (\<lambda>b. if ps_RequestFormat ps \<noteq> None then put (ps_RequestFormat ps) False b else Some (b, None)))"

definition config_asset :: "store \<Rightarrow> pairs_manager \<Rightarrow> asset_item \<Rightarrow> base \<Rightarrow> (base \<times> go_error option) option" where
  "config_asset cs cfg a b =
     (case SetAssetEnabled a (IsAssetEnabled cfg a = None) (b_CurrencyPairs b) of
        (m, err) \<Rightarrow>
          (let b = b\<lparr>b_CurrencyPairs := m\<rparr>
           in if (case err of None \<Rightarrow> False | Some e \<Rightarrow> \<not> errors_is e ErrAssetAlreadyEnabled) then Some (b, err)
              else
                (case pm_Get cfg a of
                   Inl err \<Rightarrow> Some (b, Some err)
                 | Inr cfgPS \<Rightarrow>
                     (let store_both = (\<lambda>b. case cfgPS of
                            None \<Rightarrow> None
                          | Some ps \<Rightarrow>
                              and_then (base_StorePairs cs a (ps_Available ps) False b)
                                (base_StorePairs cs a (ps_Enabled ps) True))
                      in if pm_UseGlobalFormat cfg then store_both b
                         else
                           (case pm_Get m a of
                              Inl err \<Rightarrow> Some (b, Some err)
                            | Inr None \<Rightarrow> None
                            | Inr (Some exchPS) \<Rightarrow> and_then (config_formats a exchPS b) store_both)))))"

fun config_loop :: "store \<Rightarrow> asset_item list \<Rightarrow> asset_item list \<Rightarrow> base \<Rightarrow> (base \<times> go_error option) option" where
  "config_loop cs exchangeAssets [] b = Some (b, None)"
| "config_loop cs exchangeAssets (a # as) b =
     (if \<not> asset_Contains exchangeAssets a then config_loop cs exchangeAssets as b
      else
        (case b_ConfigPairs b of
           None \<Rightarrow> None
         | Some cfg \<Rightarrow> and_then (config_asset cs cfg a b) (config_loop cs exchangeAssets as)))"

definition SetConfigPairs :: "full_store \<Rightarrow> full_store \<Rightarrow> store \<Rightarrow> base \<Rightarrow> (base \<times> go_error option) option" where
  "SetConfigPairs order1 order2 cs b =
     (case b_ConfigPairs b of
        None \<Rightarrow> None
      | Some _ \<Rightarrow>
          (case (pm_GetAssetTypes order1 False, pm_GetAssetTypes order2 False) of
             (Some as, Some exchangeAssets) \<Rightarrow> config_loop cs exchangeAssets as b
           | _ \<Rightarrow> None))"

definition DisableAssetWebsocketSupport :: "asset_item \<Rightarrow> base \<Rightarrow> base \<times> go_error option" where
  "DisableAssetWebsocketSupport a b =
     (if \<not> SupportsAsset b a then (b, Some (Errorf ''%s %w'' [asset_ErrNotSupported]))
      else (b\<lparr>b_unsupported :=
                Some ((case b_unsupported b of None \<Rightarrow> Map.empty | Some m \<Rightarrow> m)(a \<mapsto> True))\<rparr>, None))"

definition IsAssetWebsocketSupported :: "base \<Rightarrow> asset_item \<Rightarrow> bool" where
  "IsAssetWebsocketSupported b a \<longleftrightarrow>
     (case b_unsupported b of None \<Rightarrow> True | Some m \<Rightarrow> m a \<noteq> Some True)"

section \<open>Requests of candles\<close>

definition klineIntervalEnabled :: "base \<Rightarrow> interval \<Rightarrow> bool" where
  "klineIntervalEnabled b i = ExchangeSupported (ec_Intervals (b_Kline b)) i"

text \<open>The store of an enabled asset type is there; a disabled one is not looked at.\<close>

definition ValidateKline :: "base \<Rightarrow> pair \<Rightarrow> asset_item \<Rightarrow> interval \<Rightarrow> go_error option" where
  "ValidateKline b p a i =
     (let err = (if IsAssetEnabled (b_CurrencyPairs b) a \<noteq> None
                 then AppendError None (Some (Errorf ''%w %v'' [asset_ErrNotEnabled]))
                 else (case map_of (stores (b_CurrencyPairs b)) a of
                         Some (Some ps) \<Rightarrow>
                           if \<not> pairs_Contains (ps_Enabled ps) p True
                           then AppendError None (Some (Errorf ''%w in enabled pairs %v'' [ErrPairNotFound]))
                           else None
                       | _ \<Rightarrow> None))
      in if \<not> klineIntervalEnabled b i then AppendError err (Some (Errorf ''%w %v'' [ErrInvalidInterval])) else err)"

text \<open>What both requests begin with: the request and its limit.\<close>

definition kline_request ::
    "store \<Rightarrow> (nat \<Rightarrow> time) \<Rightarrow> base \<Rightarrow> pair \<Rightarrow> asset_item \<Rightarrow> interval \<Rightarrow> time \<Rightarrow> time \<Rightarrow> (request \<times> int) go_result option" where
  "kline_request cs clock b p a i start end_time =
     (if pair_IsEmpty cs p then Some (Inl ErrCurrencyPairEmpty)
      else if \<not> asset_IsValid a then Some (Inl asset_ErrNotSupported)
      else
        (case Construct (ec_Intervals (b_Kline b)) i of
           None \<Rightarrow> None
         | Some (Inl err) \<Rightarrow> Some (Inl err)
         | Some (Inr ei) \<Rightarrow>
             (case ValidateKline b p a ei of
                Some err \<Rightarrow> Some (Inl err)
              | None \<Rightarrow>
                  (case FormatExchangeCurrency cs b p a of
                     Inl err \<Rightarrow> Some (Inl err)
                   | Inr formatted \<Rightarrow>
                       (case GetIntervalResultLimit (Some (b_Kline b)) ei of
                          Inl err \<Rightarrow> Some (Inl err)
                        | Inr limit \<Rightarrow>
                            Some (map_sum id (\<lambda>r. (r, limit))
                              (CreateKlineRequest cs clock (b_Name b) p formatted a i ei start end_time limit)))))))"

definition GetKlineRequest ::
    "store \<Rightarrow> (nat \<Rightarrow> time) \<Rightarrow> base \<Rightarrow> pair \<Rightarrow> asset_item \<Rightarrow> interval \<Rightarrow> time \<Rightarrow> time \<Rightarrow> bool \<Rightarrow> request go_result option" where
  "GetKlineRequest cs clock b p a i start end_time fixedAPICandleLength =
     (case kline_request cs clock b p a i start end_time of
        None \<Rightarrow> None
      | Some (Inl err) \<Rightarrow> Some (Inl err)
      | Some (Inr (req, limit)) \<Rightarrow>
          Some
            (if fixedAPICandleLength
             then (if limit < TotalCandlesPerInterval (rq_Start req) (clock 4) (rq_ExchangeInterval req)
                   then Inl (Errorf ''%w %v, exceeding the limit of %v %v candles up to %v. Please reduce timeframe or use GetHistoricCandlesExtended''
                          [ErrRequestExceedsExchangeLimits])
                   else Inr req)
             else if limit < TotalCandlesPerInterval (rq_Start req) (rq_End req) (rq_ExchangeInterval req)
             then Inl (Errorf ''candle count exceeded: %d. The endpoint has a set candle limit return of %d candles. Candle data will be incomplete: %w''
                    [ErrRequestExceedsExchangeLimits])
             else Inr req))"

definition GetKlineExtendedRequest ::
    "store \<Rightarrow> (nat \<Rightarrow> time) \<Rightarrow> base \<Rightarrow> pair \<Rightarrow> asset_item \<Rightarrow> interval \<Rightarrow> time \<Rightarrow> time \<Rightarrow> extended_request go_result option" where
  "GetKlineExtendedRequest cs clock b p a i start end_time =
     (case kline_request cs clock b p a i start end_time of
        None \<Rightarrow> None
      | Some (Inl err) \<Rightarrow> Some (Inl err)
      | Some (Inr (r, limit)) \<Rightarrow>
          (let r = r\<lparr>rq_IsExtended := True\<rparr>
           in case GetRanges (clock 4) (Some r) (word_of_int limit) of
                None \<Rightarrow> None
              | Some (Inl err) \<Rightarrow> Some (Inl err)
              | Some (Inr dates) \<Rightarrow>
                  Some (Inr \<lparr>er_Request = Some r, er_RangeHolder = Some dates\<rparr>)))"

section \<open>Lemmas on updates\<close>

definition enabled_pairs :: "pairs_manager \<Rightarrow> asset_item \<Rightarrow> pair list" where
  "enabled_pairs m a = (case map_of (stores m) a of Some (Some ps) \<Rightarrow> ps_Enabled ps | _ \<Rightarrow> [])"

lemma DeriveFrom_in: "DeriveFrom cs ps s = Inr p \<Longrightarrow> p \<in> set ps"
proof -
  have "derive_loop cs ps s = Inr p \<Longrightarrow> p \<in> set ps" for s
    by (induction cs ps s rule: derive_loop.induct) (auto split: if_splits)
  then show "DeriveFrom cs ps s = Inr p \<Longrightarrow> p \<in> set ps" by (auto simp: DeriveFrom_def split: if_splits)
qed

lemma keep_enabled_subset:
  assumes "\<forall>x \<in> set xs. format_Format cs EMPTYFORMAT x \<notin> set check \<longrightarrow>
      pairKey x \<notin> pairKey ` set incoming \<longrightarrow> pairKey x \<in> pairKey ` set rem"
  shows "pairKey ` set (keep_enabled cs f incoming check rem xs) \<subseteq> pairKey ` set incoming"
  using assms
proof (induction cs f incoming check rem xs rule: keep_enabled.induct)
  case (2 cs f incoming check rem x xs)
  let ?s = "format_Format cs EMPTYFORMAT x"
  consider (dup) "?s \<in> set check" | (kept) "?s \<notin> set check" "\<not> pairs_Contains rem x True"
    | (gone) e where "?s \<notin> set check" "pairs_Contains rem x True" "DeriveFrom cs incoming ?s = Inl e"
    | (derived) m where "?s \<notin> set check" "pairs_Contains rem x True" "DeriveFrom cs incoming ?s = Inr m"
    by (cases "DeriveFrom cs incoming ?s") blast+
  then show ?case
  proof cases
    case dup
    then have "pairKey ` set (keep_enabled cs f incoming check (pairs_Add rem [x]) xs) \<subseteq> pairKey ` set incoming"
      using 2(5) by (intro 2(1)) (auto simp: Let_def)
    then show ?thesis using dup by (simp add: Let_def)
  next
    case kept
    have "pairKey x \<in> pairKey ` set incoming"
      using kept 2(5) by (auto simp: pairs_Contains_exact)
    moreover have "pairKey ` set (keep_enabled cs f incoming (?s # check) rem xs) \<subseteq> pairKey ` set incoming"
      using kept 2(5) by (intro 2(2)) auto
    ultimately show ?thesis using kept by (simp add: Let_def)
  next
    case (gone e)
    have "pairKey ` set (keep_enabled cs f incoming (?s # check) rem xs) \<subseteq> pairKey ` set incoming"
      using gone 2(5) by (intro 2(3)) auto
    then show ?thesis using gone by (simp add: Let_def)
  next
    case (derived m)
    have other: "pairKey y \<noteq> pairKey x" if "format_Format cs EMPTYFORMAT y \<noteq> ?s" for y
      using that stripped_key by blast
    have "pairKey ` set (keep_enabled cs f incoming (?s # check) (pairs_Remove rem [x]) xs) \<subseteq>
        pairKey ` set incoming"
    proof (intro 2(4))
      show "\<forall>y \<in> set xs. format_Format cs EMPTYFORMAT y \<notin> set (?s # check) \<longrightarrow>
          pairKey y \<notin> pairKey ` set incoming \<longrightarrow> pairKey y \<in> pairKey ` set (pairs_Remove rem [x])"
      proof (intro ballI impI)
        fix y assume y: "y \<in> set xs" "format_Format cs EMPTYFORMAT y \<notin> set (?s # check)"
          "pairKey y \<notin> pairKey ` set incoming"
        then have "pairKey y \<in> pairKey ` set rem" using 2(5) by simp
        then obtain z where "z \<in> set rem" "pairKey z = pairKey y" by auto
        moreover have "pairKey y \<noteq> pairKey x" using other y(2) by simp
        ultimately show "pairKey y \<in> pairKey ` set (pairs_Remove rem [x])"
          by (intro image_eqI [of _ _ z]) (auto simp: pairs_Remove_def pair_Equal_iff)
      qed
    qed (use derived in auto)
    then show ?thesis using derived DeriveFrom_in by (auto simp: Let_def)
  qed
qed simp

lemma removed_covers:
  assumes "FindDifferences cs old incoming f = Inr d" and "x \<in> set old"
    and "pairKey x \<notin> pairKey ` set incoming"
  shows "pairKey x \<in> pairKey ` set (diff_Remove d)"
proof (rule ccontr)
  assume a: "pairKey x \<notin> pairKey ` set (diff_Remove d)"
  let ?k = "\<lambda>ps. image_mset pairKey (mset ps)"
  have "?k old - ?k (diff_Remove d) + ?k (diff_New d) = ?k incoming"
    using FindDifferences_Inr [OF assms(1)] by blast
  then have "Multiset.count (?k old) (pairKey x) - Multiset.count (?k (diff_Remove d)) (pairKey x) +
      Multiset.count (?k (diff_New d)) (pairKey x) = Multiset.count (?k incoming) (pairKey x)"
    by (metis count_diff count_union)
  moreover have "Multiset.count (?k (diff_Remove d)) (pairKey x) = 0" "Multiset.count (?k incoming) (pairKey x) = 0"
    using a assms(3) by (simp_all add: count_eq_zero_iff)
  moreover have "0 < Multiset.count (?k old) (pairKey x)" using assms(2) by auto
  ultimately show False by simp
qed

lemma StorePairs_None:
  assumes "StorePairs cs a ps en m = Some (m', None)"
  shows "available m' a = (if en then available m a else ps)"
    and "enabled_pairs m' a = (if en then ps else enabled_pairs m a)"
proof -
  obtain s where s: "store_or_new m a = Some s"
    and m': "if en then m' = put_store a (s\<lparr>ps_Enabled := ps\<rparr>) m
      else reindex cs (put_store a (s\<lparr>ps_Available := ps\<rparr>) m) = Some m'"
    using assms by (auto simp: StorePairs_def split: if_splits option.splits)
  have st: "stores m' = AList.update a (Some (if en then s\<lparr>ps_Enabled := ps\<rparr> else s\<lparr>ps_Available := ps\<rparr>)) (stores m)"
  proof (cases en)
    case False
    then have "stores m' = stores (put_store a (s\<lparr>ps_Available := ps\<rparr>) m)"
      using m' by (auto simp: reindex_def stores_def split: option.splits)
    then show ?thesis using False by simp
  qed (use m' in simp)
  have sv: "ps_Available s = available m a" "ps_Enabled s = enabled_pairs m a"
    using s by (auto simp: store_or_new_def available_def enabled_pairs_def empty_store_of_pairs_def
        split: option.splits)
  show "available m' a = (if en then available m a else ps)"
    "enabled_pairs m' a = (if en then ps else enabled_pairs m a)"
    using sv by (auto simp: available_def enabled_pairs_def st update_conv')
qed

lemma base_StorePairs_None:
  assumes "base_StorePairs cs a ps en b = Some (b', None)"
  shows "available (b_CurrencyPairs b') a = (if en then available (b_CurrencyPairs b) a else ps)"
    and "enabled_pairs (b_CurrencyPairs b') a = (if en then ps else enabled_pairs (b_CurrencyPairs b) a)"
  using assms StorePairs_None [of cs a ps en "b_CurrencyPairs b"]
  by (auto simp: base_StorePairs_def)

lemma config_StorePairs_None:
  "config_StorePairs cs a ps en b = Some (b', err) \<Longrightarrow> b_CurrencyPairs b' = b_CurrencyPairs b"
  by (auto simp: config_StorePairs_def split: option.splits)

lemma and_then_None:
  "and_then r f = Some (b', None) \<longleftrightarrow> (\<exists>b. r = Some (b, None) \<and> f b = Some (b', None))"
  by (auto simp: and_then_def split: option.splits)

lemma store_both:
  assumes "and_then (config_StorePairs cs a ps en b) (base_StorePairs cs a ps en) = Some (b', None)"
  shows "available (b_CurrencyPairs b') a = (if en then available (b_CurrencyPairs b) a else ps)"
    and "enabled_pairs (b_CurrencyPairs b') a = (if en then ps else enabled_pairs (b_CurrencyPairs b) a)"
  using assms base_StorePairs_None [of cs a ps en _ b'] config_StorePairs_None
  by (auto simp: and_then_None split: if_splits)

lemma GetPairs_lists:
  assumes "GetPairs m a en = Some (ps, err)" and "asset_IsValid a"
  shows "ps = (if en then enabled_pairs m a else available m a)"
  using assms by (auto simp: GetPairs_def enabled_pairs_def available_def Let_def split: option.splits if_splits)

lemma GetPairs_contained:
  assumes "GetPairs m a True = Some (ps, None)"
  shows "pairKey ` set ps \<subseteq> pairKey ` set (available m a)"
proof (cases "ps = []")
  case False
  then have "ContainsAll (available m a) ps True = None"
    using assms by (auto simp: GetPairs_def available_def Let_def split: option.splits if_splits)
  then have "image_mset (match_key True) (mset ps) \<subseteq># image_mset (match_key True) (mset (available m a))"
    using contains_all_loop_None by (simp add: ContainsAll_def split: if_splits)
  then have "set_mset (image_mset (match_key True) (mset ps)) \<subseteq>
      set_mset (image_mset (match_key True) (mset (available m a)))"
    by (rule set_mset_mono)
  then show ?thesis by (fastforce simp: match_key_exact)
qed simp

lemma GetPairs_valid: "GetPairs m a en = Some (ps, None) \<Longrightarrow> asset_IsValid a"
  by (auto simp: GetPairs_def split: if_splits)

lemma adjust_enabled_subset:
  assumes "adjust_enabled cs intn f incoming a b = Some (b', None)" and "asset_IsValid a"
    and "\<forall>n > 0. intn n < n"
    and "pairKey ` set (available (b_CurrencyPairs b) a) = pairKey ` set incoming"
  shows "available (b_CurrencyPairs b') a = available (b_CurrencyPairs b) a \<and>
    pairKey ` set (enabled_pairs (b_CurrencyPairs b') a) \<subseteq> pairKey ` set incoming"
proof -
  obtain ps err where g: "GetPairs (b_CurrencyPairs b) a True = Some (ps, err)"
    using assms(1) by (auto simp: adjust_enabled_def split: option.splits)
  have ps: "ps = enabled_pairs (b_CurrencyPairs b) a" using GetPairs_lists [OF g assms(2)] by simp
  show ?thesis
  proof (cases "err = None \<and> \<not> pairs_HasFormatDifference cs ps f")
    case True
    then have "b' = b" using assms(1) by (simp add: adjust_enabled_def g)
    then show ?thesis using GetPairs_contained [of "b_CurrencyPairs b" a ps] g True ps assms(4) by simp
  next
    case False
    then obtain diff en en' where d: "FindDifferences cs ps incoming f = Inr diff"
      and en: "en = keep_enabled cs f incoming [] (diff_Remove diff) ps"
      and en': "(if en = [] \<and> incoming \<noteq> [] then map_sum id (\<lambda>p. [p]) (GetRandomPair intn incoming)
                 else Inr en) = Inr en'"
      and st: "and_then (config_StorePairs cs a en' True b) (base_StorePairs cs a en' True) = Some (b', None)"
      using assms(1) by (auto simp: adjust_enabled_def g Let_def split: if_splits sum.splits option.splits)
    have "pairKey ` set en \<subseteq> pairKey ` set incoming"
      unfolding en using removed_covers [OF d] by (intro keep_enabled_subset) simp
    moreover have "set en' \<subseteq> set incoming" if "en = []"
      using that en' assms(3) by (auto simp: GetRandomPair_def split: if_splits)
    ultimately have "pairKey ` set en' \<subseteq> pairKey ` set incoming"
      using en' by (cases "en = []") auto
    then show ?thesis using store_both [OF st] by simp
  qed
qed

lemma UpdatePairs_steps:
  assumes "UpdatePairs cs intn incoming a False force b = Some (b', None)"
  obtains f q b1 where "GetPairFormat b a False = Inr f" and "ValidateAndConform cs incoming f (b_Bypass b) = Inr q"
    and "asset_IsValid a" and "adjust_enabled cs intn f q a b1 = Some (b', None)"
    and "image_mset pairKey (mset (available (b_CurrencyPairs b1) a)) = image_mset pairKey (mset q)"
    and "enabled_pairs (b_CurrencyPairs b1) a = enabled_pairs (b_CurrencyPairs b) a"
proof -
  obtain f q old diff where f: "GetPairFormat b a False = Inr f"
    and q: "ValidateAndConform cs incoming f (b_Bypass b) = Inr q"
    and old: "GetPairs (b_CurrencyPairs b) a False = Some (old, None)"
    and diff: "FindDifferences cs old q f = Inr diff"
    using assms by (auto simp: UpdatePairs_def split: sum.splits option.splits)
  let ?C = "force \<or> length (diff_New diff) \<noteq> 0 \<or> length (diff_Remove diff) \<noteq> 0 \<or> FormatDifference diff"
  obtain b1 where b1: "(if ?C then and_then (config_StorePairs cs a q False b) (base_StorePairs cs a q False)
      else Some (b, None)) = Some (b1, None)" and adj: "adjust_enabled cs intn f q a b1 = Some (b', None)"
    using assms by (auto simp: UpdatePairs_def f q old diff and_then_None)
  have v: "asset_IsValid a" using GetPairs_valid [OF old] .
  have "image_mset pairKey (mset (available (b_CurrencyPairs b1) a)) = image_mset pairKey (mset q) \<and>
      enabled_pairs (b_CurrencyPairs b1) a = enabled_pairs (b_CurrencyPairs b) a"
  proof (cases ?C)
    case True
    then have "and_then (config_StorePairs cs a q False b) (base_StorePairs cs a q False) = Some (b1, None)"
      using b1 by simp
    from store_both [OF this] show ?thesis by simp
  next
    case False
    then have "b1 = b" using b1 by simp
    moreover have "old = available (b_CurrencyPairs b) a" using GetPairs_lists [OF old v] by simp
    ultimately show ?thesis using FindDifferences_Inr [OF diff] False by simp
  qed
  with that f q v adj show thesis by blast
qed

lemma Construct_divides:
  assumes "Construct e required = Some (Inr i)" and "\<forall>x n. ei_supported e x = Some n \<longrightarrow> 0 < x"
    and "list_all (\<lambda>c. ei_supported e (ic_Interval c) \<noteq> None) (ei_aligned e)"
  shows "i dvd required \<and> 0 < required \<and> ei_supported e i \<noteq> None"
proof -
  have loop: "construct_loop required xs = Some (Inr i) \<Longrightarrow> 0 < required \<Longrightarrow>
      list_all (\<lambda>c. ei_supported e (ic_Interval c) \<noteq> None) xs \<Longrightarrow>
      i dvd required \<and> ei_supported e i \<noteq> None" for xs
  proof (induction required xs rule: construct_loop.induct)
    case (2 required x xs)
    then have "0 < ic_Interval x" using assms(2) by fastforce
    then have "required smod ic_Interval x = required mod ic_Interval x"
      using 2(4) by (simp add: signed_modulo_int_def sdiv_pos minus_div_mult_eq_mod [symmetric])
    then show ?case using 2 by (auto split: if_splits)
  qed simp
  show ?thesis using assms(1,3) loop [of "rev (ei_aligned e)"] by (auto simp: Construct_def split: if_splits)
qed

lemma ValidateKline_None:
  assumes "ValidateKline b p a i = None"
  shows "IsAssetEnabled (b_CurrencyPairs b) a = None" and "ExchangeSupported (ec_Intervals (b_Kline b)) i"
    and "pairs_Contains (enabled_pairs (b_CurrencyPairs b) a) p True"
proof -
  have app: "AppendError err (Some e) \<noteq> None" for err e
    by (auto simp: AppendError_def split: option.split go_error.split)
  show e: "IsAssetEnabled (b_CurrencyPairs b) a = None"
    and "ExchangeSupported (ec_Intervals (b_Kline b)) i"
    using assms app by (auto simp: ValidateKline_def Let_def klineIntervalEnabled_def split: if_splits)
  obtain ps where "map_of (stores (b_CurrencyPairs b)) a = Some (Some ps)"
    using e got_store by (auto simp: IsAssetEnabled_def split: if_splits sum.splits)
  then show "pairs_Contains (enabled_pairs (b_CurrencyPairs b) a) p True"
    using assms app by (auto simp: ValidateKline_def Let_def enabled_pairs_def e split: if_splits)
qed

section \<open>Properties\<close>

text \<open>C11: after an update of the available pairs of an asset type, these are the incoming ones,
  and every enabled pair is available.\<close>

theorem update_pairs:
  assumes "UpdatePairs cs intn incoming a False force b = Some (b', None)" and "\<forall>n > 0. intn n < n"
  shows "image_mset pairKey (mset (available (b_CurrencyPairs b') a)) = image_mset pairKey (mset incoming) \<and>
    pairKey ` set (enabled_pairs (b_CurrencyPairs b') a) \<subseteq> pairKey ` set (available (b_CurrencyPairs b') a)"
proof (rule UpdatePairs_steps [OF assms(1)])
  fix f q b1
  assume q: "ValidateAndConform cs incoming f (b_Bypass b) = Inr q" and v: "asset_IsValid a"
    and adj: "adjust_enabled cs intn f q a b1 = Some (b', None)"
    and av: "image_mset pairKey (mset (available (b_CurrencyPairs b1) a)) = image_mset pairKey (mset q)"
  have k: "image_mset pairKey (mset q) = image_mset pairKey (mset incoming)"
    using ValidateAndConform_Inr(2) [OF q] by (metis mset_map)
  have "pairKey ` set (available (b_CurrencyPairs b1) a) = pairKey ` set q"
    using arg_cong [OF av, of set_mset] by simp
  from adjust_enabled_subset [OF adj v assms(2) this] this av k show ?thesis by simp
qed

text \<open>Also: the update populates the enabled pairs of an asset type only when some of them were
  lost: when none was enabled, none is afterwards.\<close>

theorem none_enabled:
  assumes "UpdatePairs cs intn incoming a False force b = Some (b', None)"
    and "enabled_pairs (b_CurrencyPairs b) a = []"
  shows "enabled_pairs (b_CurrencyPairs b') a = []"
proof (rule UpdatePairs_steps [OF assms(1)])
  fix f q b1
  assume v: "asset_IsValid a" and adj: "adjust_enabled cs intn f q a b1 = Some (b', None)"
    and e: "enabled_pairs (b_CurrencyPairs b1) a = enabled_pairs (b_CurrencyPairs b) a"
  have e: "enabled_pairs (b_CurrencyPairs b1) a = []" using e assms(2) by simp
  have "GetPairs (b_CurrencyPairs b1) a True \<noteq> None"
  proof
    assume "GetPairs (b_CurrencyPairs b1) a True = None"
    then show False using adj by (simp add: adjust_enabled_def)
  qed
  then have "GetPairs (b_CurrencyPairs b1) a True = Some ([], None)"
    using v e by (auto simp: GetPairs_def enabled_pairs_def split: option.splits)
  then have "b' = b1" using adj by (simp add: adjust_enabled_def pairs_HasFormatDifference_def)
  then show ?thesis using e by simp
qed

lemma candles_between:
  assumes "0 < i" and "0 \<le> e - s" and "e - s < 2 ^ 63"
  shows "TotalCandlesPerInterval s e i = (e - s) div i"
  using assms by (simp add: TotalCandlesPerInterval_def time_Sub_def max_duration_def sdiv_pos)

text \<open>C18: a request that the base makes for candles from before the present, by an exchange whose
  intervals are positive and deployed as \<open>DeployExchangeIntervals\<close> does, and for a period within the range
  of a duration, is for an enabled pair of an enabled asset type and of an interval that the exchange
  supports and that divides the required one, to which the start and the end are aligned; if the interval
  is a multiple of a second, which the processing of candles relies on, the request is as it needs it.
  It asks for no more candles than the exchange returns at once; with \<open>fixedAPICandleLength\<close> that many
  are enough from the start to the present, and the request goes beyond by no more than one candle of the
  required interval.\<close>

theorem candle_request:
  assumes "GetKlineRequest cs clock b p a i start end_time fixedLength = Some (Inr r)"
    and "\<forall>x n. ei_supported (ec_Intervals (b_Kline b)) x = Some n \<longrightarrow> 0 < x"
    and "list_all (\<lambda>c. ei_supported (ec_Intervals (b_Kline b)) (ic_Interval c) \<noteq> None)
           (ei_aligned (ec_Intervals (b_Kline b)))"
    and "mono clock" and "start < clock 0" and "clock 4 - start + 2 * i < 2 ^ 63"
  shows "rq_ClientRequired r = i \<and> 0 < rq_ExchangeInterval r \<and> rq_ExchangeInterval r dvd i \<and>
    i dvd rq_Start r \<and> i dvd rq_End r \<and> rq_Start r < rq_End r \<and>
    (if 10 ^ 9 dvd rq_ExchangeInterval r then request_ok r else True) \<and>
    pairs_Contains (enabled_pairs (b_CurrencyPairs b) a) p True \<and>
    IsAssetEnabled (b_CurrencyPairs b) a = None \<and>
    ExchangeSupported (ec_Intervals (b_Kline b)) (rq_ExchangeInterval r) \<and>
    (case GetIntervalResultLimit (Some (b_Kline b)) (rq_ExchangeInterval r) of
       Inl e \<Rightarrow> False
     | Inr limit \<Rightarrow>
         if fixedLength
         then (clock 4 - rq_Start r) div rq_ExchangeInterval r \<le> limit \<and>
           int (slot_count r) \<le> limit + int (per_candle r)
         else int (slot_count r) \<le> limit)"
proof -
  let ?e = "ec_Intervals (b_Kline b)"
  obtain limit where k: "kline_request cs clock b p a i start end_time = Some (Inr (r, limit))"
    and lim: "TotalCandlesPerInterval (rq_Start r) (if fixedLength then clock 4 else rq_End r)
      (rq_ExchangeInterval r) \<le> limit"
    using assms(1) by (auto simp: GetKlineRequest_def split: option.splits sum.splits prod.splits if_splits)
  obtain ei f where con: "Construct ?e i = Some (Inr ei)" and val: "ValidateKline b p a ei = None"
    and gl: "GetIntervalResultLimit (Some (b_Kline b)) ei = Inr limit"
    and req: "CreateKlineRequest cs clock (b_Name b) p f a i ei start end_time limit = Inr r"
  proof -
    have ms: "map_sum id (\<lambda>r. (r, l)) x = Inr (r, limit) \<longleftrightarrow> x = Inr r \<and> l = limit"
      for l :: int and x :: "request go_result" by (cases x) auto
    show thesis using k that by (auto simp: kline_request_def ms split: if_splits option.splits sum.splits)
  qed
  have c: "ei dvd i" "0 < i" "ei_supported ?e ei \<noteq> None"
    using Construct_divides [OF con assms(2,3)] by blast+
  then have ei: "0 < ei" using assms(2) by blast
  note w = CreateKlineRequest_window [OF req c(2) assms(4)]
  have cl: "clock 0 \<le> clock 4" "clock 2 \<le> clock 4" using assms(4) by (simp_all add: mono_def)
  have short: "rq_Start r < rq_End r" "rq_End r - rq_Start r < 2 ^ 63" "0 \<le> clock 4 - rq_Start r"
    "clock 4 - rq_Start r < 2 ^ 63" "rq_End r - rq_Start r < clock 4 - rq_Start r + i"
    using w(3,4,8,10) cl assms(5,6) c(2) by linarith+
  have ok: "request_ok r" if "10 ^ 9 dvd ei" using c ei w short that by (simp add: request_ok_def)
  have slots: "int (slot_count r) = (rq_End r - rq_Start r) div ei"
    using short(1) ei w(11) by (simp add: slot_count_def pos_imp_zdiv_nonneg_iff)
  have "int (slot_count r) \<le> limit + int (per_candle r)" if "(clock 4 - rq_Start r) div ei \<le> limit"
  proof -
    have per: "i = int (per_candle r) * ei" using c ei w(11,12) by (simp add: per_candle_def pos_imp_zdiv_nonneg_iff)
    let ?x = "clock 4 - rq_Start r"
    have "?x < (?x div ei + 1) * ei"
      using pos_mod_bound [OF ei, of ?x] div_mult_mod_eq [of ?x ei] unfolding distrib_right mult_1 by linarith
    also have "\<dots> \<le> (limit + 1) * ei" using that ei by (intro mult_right_mono) simp_all
    finally have "rq_End r - rq_Start r < (limit + 1 + int (per_candle r)) * ei"
      using short(5) per by (simp add: algebra_simps)
    moreover have "(rq_End r - rq_Start r) div ei * ei \<le> rq_End r - rq_Start r"
      using pos_mod_sign [OF ei, of "rq_End r - rq_Start r"] div_mult_mod_eq [of "rq_End r - rq_Start r" ei] by linarith
    ultimately have "(rq_End r - rq_Start r) div ei * ei < (limit + 1 + int (per_candle r)) * ei" by linarith
    then have "(rq_End r - rq_Start r) div ei < limit + 1 + int (per_candle r)"
      using ei by (simp only: mult_less_cancel_right_pos)
    then show ?thesis by (simp add: slots)
  qed
  moreover have "if fixedLength then (clock 4 - rq_Start r) div ei \<le> limit else int (slot_count r) \<le> limit"
    using lim ei short slots w(11) candles_between [of ei "clock 4" "rq_Start r"]
      candles_between [of ei "rq_End r" "rq_Start r"] by (auto split: if_splits)
  ultimately show ?thesis
    using c(1) ei w(1,2,11,12) short(1) ok ValidateKline_None [OF val] gl by auto
qed

section \<open>Instances\<close>

definition usd_btc :: pair where
  "usd_btc = NewPair \<lparr>Item = Some 1, upperCase = True\<rparr> \<lparr>Item = Some 0, upperCase = True\<rparr>"

definition spot_base :: "pair list \<Rightarrow> base" where
  "spot_base en =
     \<lparr>b_Name = ''Kraken'', b_Enabled = True,
      b_CurrencyPairs = (spot_manager en)\<lparr>pm_UseGlobalFormat := True, pm_ConfigFormat := Some EMPTYFORMAT,
        pm_RequestFormat := Some EMPTYFORMAT\<rparr>,
      b_ConfigPairs = Some new_manager, b_Bypass = False,
      b_Kline = \<lparr>ec_Intervals = DeployExchangeIntervals [\<lparr>ic_Interval = OneHour, ic_Capacity = 0\<rparr>],
        ec_GlobalResultLimit = 100\<rparr>,
      b_unsupported = None\<rparr>"

definition updated :: "(base \<times> go_error option) option \<Rightarrow> bool" where
  "updated r = (case r of Some (_, None) \<Rightarrow> True | _ \<Rightarrow> False)"

lemma updated_iff: "updated r \<longleftrightarrow> (\<exists>b. r = Some (b, None))"
  by (auto simp: updated_def split: option.splits)

lemma spot_updates:
  "updated (UpdatePairs two_codes (\<lambda>_. 0) [usd_btc] Spot False False (spot_base [btc_usd]))"
  "updated (UpdatePairs two_codes (\<lambda>_. 0) [usd_btc] Spot False False (spot_base []))"
  by code_simp+

theorem update_pairs_witness:
  "\<exists>b'. UpdatePairs two_codes (\<lambda>_. 0) [usd_btc] Spot False False (spot_base [btc_usd]) = Some (b', None) \<and>
     pairKey ` set (enabled_pairs (b_CurrencyPairs b') Spot) \<subseteq> {pairKey usd_btc}"
proof -
  obtain b' where b': "UpdatePairs two_codes (\<lambda>_. 0) [usd_btc] Spot False False (spot_base [btc_usd]) = Some (b', None)"
    using spot_updates(1) updated_iff by blast
  have u: "image_mset pairKey (mset (available (b_CurrencyPairs b') Spot)) = image_mset pairKey (mset [usd_btc])"
    "pairKey ` set (enabled_pairs (b_CurrencyPairs b') Spot) \<subseteq> pairKey ` set (available (b_CurrencyPairs b') Spot)"
    using update_pairs [OF b'] by simp_all
  have "pairKey ` set (available (b_CurrencyPairs b') Spot) = {pairKey usd_btc}"
    using arg_cong [OF u(1), of set_mset] by simp
  then show ?thesis using b' u(2) by auto
qed

theorem none_enabled_witness:
  "\<exists>b'. UpdatePairs two_codes (\<lambda>_. 0) [usd_btc] Spot False False (spot_base []) = Some (b', None) \<and>
     enabled_pairs (b_CurrencyPairs b') Spot = []"
proof -
  obtain b' where b': "UpdatePairs two_codes (\<lambda>_. 0) [usd_btc] Spot False False (spot_base []) = Some (b', None)"
    using spot_updates(2) updated_iff by blast
  have "enabled_pairs (b_CurrencyPairs (spot_base [])) Spot = []" by code_simp
  from none_enabled [OF b' this] b' show ?thesis by blast
qed

theorem candle_request_witness:
  "\<exists>r. GetKlineRequest two_codes (\<lambda>_. 30 * OneHour) (spot_base [btc_usd]) btc_usd Spot (2 * OneHour)
       (5 * OneHour) (20 * OneHour) False = Some (Inr r) \<and>
     request_ok r \<and> slot_count r \<le> 100"
proof -
  let ?b = "spot_base [btc_usd]" and ?e = "ec_Intervals (b_Kline (spot_base [btc_usd]))"
  have a: "case GetKlineRequest two_codes (\<lambda>_. 30 * OneHour) ?b btc_usd Spot (2 * OneHour) (5 * OneHour) (20 * OneHour)
      False of Some (Inr _) \<Rightarrow> True | _ \<Rightarrow> False" by code_simp
  obtain r where r: "GetKlineRequest two_codes (\<lambda>_. 30 * OneHour) ?b btc_usd Spot (2 * OneHour) (5 * OneHour)
      (20 * OneHour) False = Some (Inr r)"
    using a by (auto split: option.splits sum.splits)
  have e: "ei_supported ?e = [OneHour \<mapsto> 0]" "ei_aligned ?e = [\<lparr>ic_Interval = OneHour, ic_Capacity = 0\<rparr>]"
    by (simp_all add: spot_base_def DeployExchangeIntervals_def slice_sort_def)
  have h: "\<forall>x n. ei_supported ?e x = Some n \<longrightarrow> 0 < x" by (simp add: e OneHour_def)
  have m: "mono (\<lambda>_ :: nat. 30 * OneHour)" by (simp add: mono_def)
  have l: "GetIntervalResultLimit (Some (b_Kline ?b)) OneHour = Inr 100"
    using e(1) by (simp add: GetIntervalResultLimit_def spot_base_def)
  show ?thesis
    using candle_request [OF r h _ m] r l by (auto simp: e OneHour_def ExchangeSupported_def split: if_splits)
qed

end
