(* ===== verification/Exchange_Endpoints.thy ===== *)
theory Exchange_Endpoints
  imports Exchange_Base Fix_Gateway
begin

text \<open>
  The endpoints of an exchange and its withdrawal permissions (\<open>exchanges/exchange.go\<close>): the keys of
  URLs and their names, the map of running URLs, and the bit set of the ways to withdraw.

  \<open>url.ParseRequestURI\<close> is the parameter \<open>parses\<close>: whether it accepts a string.
\<close>

section \<open>Keys\<close>

type_synonym url_key = "16 word"

definition Invalid :: url_key where "Invalid = 0"
definition RestSpot :: url_key where "RestSpot = 1"
definition RestSpotSupplementary :: url_key where "RestSpotSupplementary = 2"
definition RestUSDTMargined :: url_key where "RestUSDTMargined = 3"
definition RestCoinMargined :: url_key where "RestCoinMargined = 4"
definition RestFutures :: url_key where "RestFutures = 5"
definition RestFuturesSupplementary :: url_key where "RestFuturesSupplementary = 6"
definition RestUSDCMargined :: url_key where "RestUSDCMargined = 7"
definition RestSwap :: url_key where "RestSwap = 8"
definition RestSandbox :: url_key where "RestSandbox = 9"
definition WebsocketSpot :: url_key where "WebsocketSpot = 10"
definition WebsocketSpotSupplementary :: url_key where "WebsocketSpotSupplementary = 11"
definition ChainAnalysis :: url_key where "ChainAnalysis = 12"
definition EdgeCase1 :: url_key where "EdgeCase1 = 13"
definition EdgeCase2 :: url_key where "EdgeCase2 = 14"
definition EdgeCase3 :: url_key where "EdgeCase3 = 15"

lemmas url_keys = Invalid_def RestSpot_def RestSpotSupplementary_def RestUSDTMargined_def RestCoinMargined_def RestFutures_def RestFuturesSupplementary_def RestUSDCMargined_def RestSwap_def RestSandbox_def WebsocketSpot_def WebsocketSpotSupplementary_def ChainAnalysis_def EdgeCase1_def EdgeCase2_def EdgeCase3_def

definition keyURLs :: "url_key list" where
  "keyURLs = [RestSpot, RestSpotSupplementary, RestUSDTMargined, RestCoinMargined, RestFutures, RestFuturesSupplementary, RestUSDCMargined, RestSwap, RestSandbox, WebsocketSpot, WebsocketSpotSupplementary, ChainAnalysis, EdgeCase1, EdgeCase2, EdgeCase3]"

definition URL_String :: "url_key \<Rightarrow> string" where
  "URL_String u =
     (if u = RestSpot then ''RestSpotURL''
      else if u = RestSpotSupplementary then ''RestSpotSupplementaryURL''
      else if u = RestUSDTMargined then ''RestUSDTMarginedFuturesURL''
      else if u = RestCoinMargined then ''RestCoinMarginedFuturesURL''
      else if u = RestFutures then ''RestFuturesURL''
      else if u = RestFuturesSupplementary then ''RestFuturesSupplementaryURL''
      else if u = RestUSDCMargined then ''RestUSDCMarginedFuturesURL''
      else if u = RestSandbox then ''RestSandboxURL''
      else if u = RestSwap then ''RestSwapURL''
      else if u = WebsocketSpot then ''WebsocketSpotURL''
      else if u = WebsocketSpotSupplementary then ''WebsocketSpotSupplementaryURL''
      else if u = ChainAnalysis then ''ChainAnalysisURL''
      else if u = EdgeCase1 then ''EdgeCase1URL''
      else if u = EdgeCase2 then ''EdgeCase2URL''
      else if u = EdgeCase3 then ''EdgeCase3URL''
      else '''')"

definition errEndpointStringNotFound :: go_error where
  "errEndpointStringNotFound = Sentinel ''exchange.errEndpointStringNotFound''"

definition getURLTypeFromString :: "string \<Rightarrow> url_key go_result" where
  "getURLTypeFromString ep =
     (if ep = ''RestSpotURL'' then Inr RestSpot
      else if ep = ''RestSpotSupplementaryURL'' then Inr RestSpotSupplementary
      else if ep = ''RestUSDTMarginedFuturesURL'' then Inr RestUSDTMargined
      else if ep = ''RestCoinMarginedFuturesURL'' then Inr RestCoinMargined
      else if ep = ''RestFuturesURL'' then Inr RestFutures
      else if ep = ''RestFuturesSupplementaryURL'' then Inr RestFuturesSupplementary
      else if ep = ''RestUSDCMarginedFuturesURL'' then Inr RestUSDCMargined
      else if ep = ''RestSandboxURL'' then Inr RestSandbox
      else if ep = ''RestSwapURL'' then Inr RestSwap
      else if ep = ''WebsocketSpotURL'' then Inr WebsocketSpot
      else if ep = ''WebsocketSpotSupplementaryURL'' then Inr WebsocketSpotSupplementary
      else if ep = ''ChainAnalysisURL'' then Inr ChainAnalysis
      else if ep = ''EdgeCase1URL'' then Inr EdgeCase1
      else if ep = ''EdgeCase2URL'' then Inr EdgeCase2
      else if ep = ''EdgeCase3URL'' then Inr EdgeCase3
      else Inl (Errorf ''%w %s'' [errEndpointStringNotFound]))"

section \<open>Running URLs\<close>

record endpoints =
  ep_Exchange :: string
  ep_defaults :: "string \<rightharpoonup> string"

definition NewEndpoints :: "base \<Rightarrow> endpoints" where
  "NewEndpoints b = \<lparr>ep_Exchange = b_Name b, ep_defaults = Map.empty\<rparr>"

fun valid_key_loop :: "string \<Rightarrow> url_key list \<Rightarrow> go_error option" where
  "valid_key_loop keyVal [] = Some (Errorf ''keyVal invalid'' [])"
| "valid_key_loop keyVal (x # xs) = (if URL_String x = keyVal then None else valid_key_loop keyVal xs)"

definition validateKey :: "string \<Rightarrow> go_error option" where
  "validateKey keyVal = valid_key_loop keyVal keyURLs"

text \<open>A string that is no URI is reported in the log only.\<close>

definition SetRunning :: "(string \<Rightarrow> bool) \<Rightarrow> string \<Rightarrow> string \<Rightarrow> endpoints \<Rightarrow> endpoints \<times> go_error option" where
  "SetRunning parses key val e =
     (case validateKey key of
        Some err \<Rightarrow> (e, Some err)
      | None \<Rightarrow> if \<not> parses val then (e, None) else (e\<lparr>ep_defaults := (ep_defaults e)(key \<mapsto> val)\<rparr>, None))"

text \<open>The map is given as the list of its entries, in the order of the run.\<close>

fun SetDefaultEndpoints ::
    "(string \<Rightarrow> bool) \<Rightarrow> (url_key \<times> string) list \<Rightarrow> endpoints \<Rightarrow> endpoints \<times> go_error option" where
  "SetDefaultEndpoints parses [] e = (e, None)"
| "SetDefaultEndpoints parses ((k, v) # m) e =
     (case SetRunning parses (URL_String k) v e of
        (e, Some err) \<Rightarrow> (e, Some err)
      | (e, None) \<Rightarrow> SetDefaultEndpoints parses m e)"

definition GetURL :: "endpoints \<Rightarrow> url_key \<Rightarrow> string go_result" where
  "GetURL e key =
     (case ep_defaults e (URL_String key) of
        None \<Rightarrow> Inl (Errorf ''no endpoint path found for the given key: %v'' [])
      | Some val \<Rightarrow> Inr val)"

definition GetURLMap :: "endpoints \<Rightarrow> string \<rightharpoonup> string" where
  "GetURLMap e = ep_defaults e"

section \<open>Withdrawal permissions\<close>

unbundle bit_operations_syntax

definition SupportsWithdrawPermissions :: "32 word \<Rightarrow> 32 word \<Rightarrow> bool" where
  "SupportsWithdrawPermissions exchangePermissions permissions \<longleftrightarrow>
     permissions AND exchangePermissions = permissions"

definition withdraw_texts :: "string list" where
  "withdraw_texts =
     [''AUTO WITHDRAW CRYPTO'',
      ''AUTO WITHDRAW CRYPTO WITH API PERMISSION'',
      ''AUTO WITHDRAW CRYPTO WITH SETUP'',
      ''WITHDRAW CRYPTO WITH 2FA'',
      ''WITHDRAW CRYPTO WITH SMS'',
      ''WITHDRAW CRYPTO WITH EMAIL'',
      ''WITHDRAW CRYPTO WITH WEBSITE APPROVAL'',
      ''WITHDRAW CRYPTO WITH API PERMISSION'',
      ''AUTO WITHDRAW FIAT'',
      ''AUTO WITHDRAW FIAT WITH API PERMISSION'',
      ''AUTO WITHDRAW FIAT WITH SETUP'',
      ''WITHDRAW FIAT WITH 2FA'',
      ''WITHDRAW FIAT WITH SMS'',
      ''WITHDRAW FIAT WITH EMAIL'',
      ''WITHDRAW FIAT WITH WEBSITE APPROVAL'',
      ''WITHDRAW FIAT WITH API PERMISSION'',
      ''WITHDRAW CRYPTO VIA WEBSITE ONLY'',
      ''WITHDRAW FIAT VIA WEBSITE ONLY'',
      ''NO FIAT WITHDRAWAL'']"

definition withdraw_text :: "nat \<Rightarrow> string" where
  "withdraw_text i =
     (if i < length withdraw_texts then withdraw_texts ! i
      else ''UNKNOWN[1<<'' @ strconv_Itoa (int i) @ '']'')"

definition FormatWithdrawPermissions :: "32 word \<Rightarrow> string" where
  "FormatWithdrawPermissions exchangePermissions =
     (let services = map withdraw_text (filter (\<lambda>i. exchangePermissions AND push_bit i 1 \<noteq> 0) [0..<32])
      in if 0 < length services then strings_Join services '' & '' else ''NONE, WEBSITE ONLY'')"

section \<open>Lemmas\<close>

lemma URL_String_names: "list_all (\<lambda>u. getURLTypeFromString (URL_String u) = Inr u) keyURLs"
  by code_simp

lemma valid_key_loop: "valid_key_loop s us = None \<longleftrightarrow> s \<in> URL_String ` set us"
  by (induction us) auto

lemma validateKey: "validateKey s = None \<longleftrightarrow> s \<in> URL_String ` set keyURLs"
  by (simp add: validateKey_def valid_key_loop)

lemma URL_String_inj: "inj_on URL_String (set keyURLs)"
proof (rule inj_onI)
  fix u v assume "u \<in> set keyURLs" "v \<in> set keyURLs" and e: "URL_String u = URL_String v"
  then have "getURLTypeFromString (URL_String u) = Inr u" "getURLTypeFromString (URL_String v) = Inr v"
    using URL_String_names unfolding list_all_iff by blast+
  then show "u = v" using e by (metis sum.inject(2))
qed

lemma SetDefaultEndpoints_defaults:
  "set (map fst m) \<subseteq> set keyURLs \<Longrightarrow> distinct (map fst m) \<Longrightarrow>
     \<exists>e'. SetDefaultEndpoints parses m e = (e', None) \<and>
       (\<forall>u \<in> set keyURLs. ep_defaults e' (URL_String u) =
          (case map_of m u of
             Some v \<Rightarrow> if parses v then Some v else ep_defaults e (URL_String u)
           | None \<Rightarrow> ep_defaults e (URL_String u)))"
proof (induction m arbitrary: e)
  case (Cons kv m)
  obtain k v where kv: "kv = (k, v)" by (cases kv)
  let ?e = "if parses v then e\<lparr>ep_defaults := (ep_defaults e)(URL_String k \<mapsto> v)\<rparr> else e"
  have k: "k \<in> set keyURLs" using Cons.prems(1) by (simp add: kv)
  then have "validateKey (URL_String k) = None" by (simp add: validateKey)
  then have s: "SetRunning parses (URL_String k) v e = (?e, None)" by (simp add: SetRunning_def)
  obtain e' where e': "SetDefaultEndpoints parses m ?e = (e', None)"
    "\<forall>u \<in> set keyURLs. ep_defaults e' (URL_String u) =
          (case map_of m u of
             Some v \<Rightarrow> if parses v then Some v else ep_defaults ?e (URL_String u)
           | None \<Rightarrow> ep_defaults ?e (URL_String u))"
    using Cons.IH [of ?e] Cons.prems by auto
  have same: "URL_String u = URL_String k \<longleftrightarrow> u = k" if "u \<in> set keyURLs" for u
    using URL_String_inj k that by (auto dest: inj_onD)
  have "map_of m k = None" using Cons.prems(2) by (simp add: kv map_of_eq_None_iff)
  then show ?case
    using e' same by (intro exI [of _ e']) (auto simp: kv s split: option.splits)
qed simp

section \<open>Properties\<close>

text \<open>Also: every key of the list has a name of its own, which is read back to it; only these
  names can be set.\<close>

theorem url_names:
  "distinct (map URL_String keyURLs) \<and>
   list_all (\<lambda>u. getURLTypeFromString (URL_String u) = Inr u \<and> validateKey (URL_String u) = None) keyURLs \<and>
   (case validateKey s of
      None \<Rightarrow> (case getURLTypeFromString s of Inl e \<Rightarrow> False | Inr u \<Rightarrow> URL_String u = s)
    | Some _ \<Rightarrow> s \<notin> set (map URL_String keyURLs))"
proof -
  have "distinct keyURLs" by code_simp
  then have "distinct (map URL_String keyURLs)" using URL_String_inj by (simp add: distinct_map)
  moreover have "list_all (\<lambda>u. validateKey (URL_String u) = None) keyURLs"
    by (simp add: validateKey list_all_iff)
  ultimately show ?thesis
    using URL_String_names validateKey [of s] by (auto simp: list_all_iff split: option.split)
qed

text \<open>Also: after the default endpoints are set, the URL of a key is the one given for it, if it is a
  URI.\<close>

theorem default_urls:
  assumes "set (map fst m) \<subseteq> set keyURLs" and "distinct (map fst m)" and "u \<in> set keyURLs"
  shows "case SetDefaultEndpoints parses m (NewEndpoints b) of
     (e, err) \<Rightarrow>
       err = None \<and>
       (case GetURL e u of
          Inr v \<Rightarrow> map_of m u = Some v \<and> parses v
        | Inl _ \<Rightarrow> (case map_of m u of None \<Rightarrow> True | Some v \<Rightarrow> \<not> parses v))"
  using SetDefaultEndpoints_defaults [OF assms(1,2), of parses "NewEndpoints b"] assms(3)
  by (auto simp: GetURL_def NewEndpoints_def split: option.splits if_splits)

text \<open>Also: permissions are supported when each of their bits is one of the exchange.\<close>

theorem permissions:
  "SupportsWithdrawPermissions ex p \<longleftrightarrow> {i. bit p i} \<subseteq> {i. bit ex i}"
proof -
  have "bit p i \<Longrightarrow> i < 32" for i using bit_imp_le_length [of p i] by simp
  then show ?thesis by (auto simp: SupportsWithdrawPermissions_def bit_eq_iff bit_and_iff)
qed

section \<open>Instances\<close>

theorem default_urls_witness:
  "case SetDefaultEndpoints (\<lambda>v. v \<noteq> []) [(RestSpot, ''https://a''), (WebsocketSpot, [])] (NewEndpoints (spot_base [])) of
     (e, err) \<Rightarrow> GetURL e RestSpot = Inr ''https://a''"
proof -
  have "RestSpot \<in> set keyURLs" "WebsocketSpot \<in> set keyURLs" "RestSpot \<noteq> WebsocketSpot"
    by (simp_all add: keyURLs_def url_keys)
  then show ?thesis
    using default_urls [of "[(RestSpot, ''https://a''), (WebsocketSpot, [])]" RestSpot "\<lambda>v. v \<noteq> []" "spot_base []"]
    by (auto split: sum.splits)
qed

end
