(* ===== verification/Credentials.thy ===== *)
theory Credentials
  imports Currency_Pairs Asset
begin

text \<open>
  The API credentials of an account (\<open>exchanges/account/credentials.go\<close>): the metadata they travel
  in over gRPC, the context that carries them to a request, and their comparison.

  A context is the list of the values attached to it, the newest first, as \<open>context.WithValue\<close> builds
  it; the metadata is a partial map (\<open>None\<close> for nil) from flags to their values.  A credentials
  pointer is an option where the code tests it for nil, and the record it points to elsewhere; the
  lock of the context store makes \<open>Load\<close> and \<open>Get\<close> one step each.

  The lemmas show what of the credentials survives the way through the metadata, when the way is
  barred, and that \<open>Equal\<close> is an equivalence.
\<close>

section \<open>Data\<close>

record credentials =
  cr_Key :: string
  cr_Secret :: string
  cr_ClientID :: string
  cr_PEMKey :: string
  cr_SubAccount :: string
  cr_OneTimePassword :: string
  SecretBase64Decoded :: bool

definition zero_credentials :: credentials where
  "zero_credentials = \<lparr>cr_Key = [], cr_Secret = [], cr_ClientID = [], cr_PEMKey = [],
     cr_SubAccount = [], cr_OneTimePassword = [], SecretBase64Decoded = False\<rparr>"

definition ContextCredentialsFlag :: string where
  "ContextCredentialsFlag = ''apicredentials''"
definition ContextSubAccountFlag :: string where
  "ContextSubAccountFlag = ''subaccountoverride''"
definition apiKeyDisplaySize :: nat where
  "apiKeyDisplaySize = 16"

definition name_Key :: string where "name_Key = ''key''"
definition name_Secret :: string where "name_Secret = ''secret''"
definition SubAccountSTR :: string where "SubAccountSTR = ''subaccount''"
definition name_ClientID :: string where "name_ClientID = ''clientid''"
definition name_OneTimePassword :: string where "name_OneTimePassword = ''otp''"
definition name_PEMKey :: string where "name_PEMKey = ''pemkey''"

definition errMetaDataIsNil :: go_error where
  "errMetaDataIsNil = Sentinel ''account.errMetaDataIsNil''"
definition errInvalidCredentialMetaDataLength :: go_error where
  "errInvalidCredentialMetaDataLength = Sentinel ''account.errInvalidCredentialMetaDataLength''"
definition errMissingInfo :: go_error where
  "errMissingInfo = Sentinel ''account.errMissingInfo''"

section \<open>Metadata and comparison\<close>

definition meta_item :: "string \<Rightarrow> string \<Rightarrow> string list" where
  "meta_item name v = (if v \<noteq> [] then [name @ '':'' @ v] else [])"

definition meta_items :: "credentials \<Rightarrow> string list" where
  "meta_items c =
     meta_item name_Key (cr_Key c) @ meta_item name_Secret (cr_Secret c) @
     meta_item SubAccountSTR (cr_SubAccount c) @ meta_item name_ClientID (cr_ClientID c) @
     meta_item name_PEMKey (cr_PEMKey c) @ meta_item name_OneTimePassword (cr_OneTimePassword c)"

definition GetMetaData :: "credentials \<Rightarrow> string \<times> string" where
  "GetMetaData c = (ContextCredentialsFlag, strings_Join (meta_items c) '','')"

definition credentials_String :: "credentials \<Rightarrow> string" where
  "credentials_String c =
     (let obfuscated = cr_Key c;
          obfuscated = (if length obfuscated > apiKeyDisplaySize
                        then take apiKeyDisplaySize obfuscated else obfuscated)
      in ''Key:['' @ obfuscated @ ''...] SubAccount:['' @ cr_SubAccount c @ ''] ClientID:['' @
         cr_ClientID c @ '']'')"

definition credentials_IsEmpty :: "credentials option \<Rightarrow> bool" where
  "credentials_IsEmpty co =
     (case co of None \<Rightarrow> True
      | Some c \<Rightarrow> cr_ClientID c = [] \<and> cr_Key c = [] \<and> cr_OneTimePassword c = [] \<and>
          cr_PEMKey c = [] \<and> cr_Secret c = [] \<and> cr_SubAccount c = [])"

definition credentials_Equal :: "credentials option \<Rightarrow> credentials option \<Rightarrow> bool" where
  "credentials_Equal co oo =
     (case (co, oo) of
        (Some c, Some other) \<Rightarrow>
          cr_Key c = cr_Key other \<and> cr_ClientID c = cr_ClientID other \<and>
          (cr_SubAccount c = cr_SubAccount other \<or>
           cr_SubAccount c = [] \<and> cr_SubAccount other = ''main'' \<or>
           cr_SubAccount c = ''main'' \<and> cr_SubAccount other = [])
      | _ \<Rightarrow> False)"

section \<open>Contexts\<close>

text \<open>\<open>ContextCredentialsStore\<close> holds a pointer to a copy of its own; \<open>Get\<close> before a \<open>Load\<close> is a
  nil dereference, \<open>None\<close>.\<close>

record context_store =
  cs_creds :: "credentials option"

definition store_Load :: "credentials \<Rightarrow> context_store \<Rightarrow> context_store" where
  "store_Load creds c = c\<lparr>cs_creds := Some creds\<rparr>"

definition store_Get :: "context_store \<Rightarrow> credentials option" where
  "store_Get c = cs_creds c"

definition getInternal :: "credentials option \<Rightarrow> string \<times> context_store option" where
  "getInternal co =
     (if credentials_IsEmpty co then ([], None)
      else case co of
             None \<Rightarrow> ([], None)
           | Some c \<Rightarrow> (ContextCredentialsFlag, Some (store_Load c \<lparr>cs_creds = None\<rparr>)))"

datatype context_value = StoreValue "context_store option" | StringValue string

type_synonym go_context = "(string \<times> context_value) list"

definition WithValue :: "go_context \<Rightarrow> string \<Rightarrow> context_value \<Rightarrow> go_context" where
  "WithValue ctx k v = (k, v) # ctx"

definition DeployCredentialsToContext :: "go_context \<Rightarrow> credentials option \<Rightarrow> go_context" where
  "DeployCredentialsToContext ctx creds =
     (case getInternal creds of (flag, store) \<Rightarrow> WithValue ctx flag (StoreValue store))"

definition DeploySubAccountOverrideToContext :: "go_context \<Rightarrow> string \<Rightarrow> go_context" where
  "DeploySubAccountOverrideToContext ctx subAccount =
     WithValue ctx ContextSubAccountFlag (StringValue subAccount)"

section \<open>Parsing\<close>

definition set_credential ::
    "string \<Rightarrow> string \<Rightarrow> credentials \<times> string \<Rightarrow> credentials \<times> string" where
  "set_credential k v cs =
     (case cs of (c, subAccountHere) \<Rightarrow>
        if k = name_Key then (c\<lparr>cr_Key := v\<rparr>, subAccountHere)
        else if k = name_Secret then (c\<lparr>cr_Secret := v\<rparr>, subAccountHere)
        else if k = SubAccountSTR then (c, v)
        else if k = name_ClientID then (c\<lparr>cr_ClientID := v\<rparr>, subAccountHere)
        else if k = name_PEMKey then (c\<lparr>cr_PEMKey := v\<rparr>, subAccountHere)
        else if k = name_OneTimePassword then (c\<lparr>cr_OneTimePassword := v\<rparr>, subAccountHere)
        else (c, subAccountHere))"

fun parse_items :: "string list \<Rightarrow> credentials \<times> string \<Rightarrow> (credentials \<times> string) go_result" where
  "parse_items [] cs = Inr cs"
| "parse_items (x # xs) cs =
     (case strings_Split x '':'' of
        [k, v] \<Rightarrow> parse_items xs (set_credential k v cs)
      | _ \<Rightarrow> Inl (Errorf ''%w received %v fields, expected 2 contains: %s'' [errMissingInfo]))"

definition ParseCredentialsMetadata ::
    "go_context \<Rightarrow> (string \<rightharpoonup> string list) option \<Rightarrow> go_context \<times> go_error option" where
  "ParseCredentialsMetadata ctx mdo =
     (case mdo of
        None \<Rightarrow> (ctx, Some errMetaDataIsNil)
      | Some md \<Rightarrow>
          (case md ContextCredentialsFlag of
             None \<Rightarrow> (ctx, None)
           | Some credMD \<Rightarrow>
               if credMD = [] then (ctx, None)
               else if length credMD \<noteq> 1 then (ctx, Some errInvalidCredentialMetaDataLength)
               else
                 (case parse_items (strings_Split (credMD ! 0) '','') (zero_credentials, []) of
                    Inl err \<Rightarrow> (ctx, Some err)
                  | Inr (ctxCreds, subAccountHere) \<Rightarrow>
                      if credentials_IsEmpty (Some ctxCreds) \<and> subAccountHere \<noteq> []
                      then (DeploySubAccountOverrideToContext ctx subAccountHere, None)
                      else (DeployCredentialsToContext ctx
                              (Some (ctxCreds\<lparr>cr_SubAccount := subAccountHere\<rparr>)), None))))"

section \<open>Lemmas\<close>

lemma strings_Index_char:
  "strings_Index t [d] = (if d \<in> set t then Some (length (takeWhile (\<lambda>c. c \<noteq> d) t)) else None)"
  by (induction t) auto

lemma strings_Split_char:
  "d \<notin> set t \<Longrightarrow> strings_Split t [d] = [t]"
  "d \<notin> set t \<Longrightarrow> strings_Split (t @ d # u) [d] = t # strings_Split u [d]"
proof -
  assume d: "d \<notin> set t"
  then show "strings_Split t [d] = [t]"
    by (subst strings_Split.simps) (simp add: strings_Index_char)
  have tw: "takeWhile (\<lambda>c. c \<noteq> d) (t @ d # u) = t"
    using d by (auto simp: takeWhile_append)
  show "strings_Split (t @ d # u) [d] = t # strings_Split u [d]"
    by (subst strings_Split.simps) (simp add: strings_Index_char tw)
qed

lemma strings_Split_length:
  "length (strings_Split t [d]) = Suc (length (filter (\<lambda>c. c = d) t))"
proof (induction t rule: measure_induct_rule [of length])
  case (less t)
  show ?case
  proof (cases "d \<in> set t")
    case True
    then obtain u v where t: "t = u @ d # v" "d \<notin> set u" by (meson split_list_first)
    have "filter (\<lambda>c. c = d) u = []" using t(2) by (auto simp: filter_empty_conv)
    then show ?thesis using less.IH [of v] t by (simp add: strings_Split_char(2))
  next
    case False
    then have "filter (\<lambda>c. c = d) t = []" by (auto simp: filter_empty_conv)
    then show ?thesis using False by (simp add: strings_Split_char(1))
  qed
qed

text \<open>Joining and splitting by a byte that no part contains.\<close>

lemma strings_Split_Join:
  "\<forall>x\<in>set xs. d \<notin> set x \<Longrightarrow> strings_Split (strings_Join xs [d]) [d] = (if xs = [] then [[]] else xs)"
  by (induction xs "[d]" rule: strings_Join.induct) (simp_all add: strings_Split_char)

lemma parse_items_append:
  "parse_items (xs @ ys) cs =
     (case parse_items xs cs of Inl err \<Rightarrow> Inl err | Inr cs \<Rightarrow> parse_items ys cs)"
  by (induction xs cs rule: parse_items.induct) (auto split: list.split)

text \<open>A field without separators survives; an empty one leaves what was there.\<close>

lemma parse_meta_item:
  assumes "CHR '':'' \<notin> set name" and "CHR '':'' \<notin> set v"
  shows "parse_items (meta_item name v) cs = Inr (if v = [] then cs else set_credential name v cs)"
proof -
  have "strings_Split (name @ CHR '':'' # v) '':'' = [name, v]"
    using assms by (simp add: strings_Split_char)
  then show ?thesis by (simp add: meta_item_def)
qed

definition plain :: "string \<Rightarrow> bool" where
  "plain v \<longleftrightarrow> CHR '':'' \<notin> set v \<and> CHR '','' \<notin> set v"

definition plain_credentials :: "credentials \<Rightarrow> bool" where
  "plain_credentials c \<longleftrightarrow> plain (cr_Key c) \<and> plain (cr_Secret c) \<and> plain (cr_ClientID c) \<and>
     plain (cr_PEMKey c) \<and> plain (cr_SubAccount c) \<and> plain (cr_OneTimePassword c)"

lemmas credential_names =
  name_Key_def name_Secret_def SubAccountSTR_def name_ClientID_def name_OneTimePassword_def
  name_PEMKey_def

lemma meta_items_plain: "plain_credentials c \<Longrightarrow> \<forall>x\<in>set (meta_items c). CHR '','' \<notin> set x"
  by (auto simp: meta_items_def meta_item_def plain_credentials_def plain_def credential_names
      split: if_split_asm)

lemma meta_items_empty: "meta_items c = [] \<longleftrightarrow> credentials_IsEmpty (Some c)"
  by (auto simp: meta_items_def meta_item_def credentials_IsEmpty_def split: if_split_asm)

lemma parse_meta_items:
  assumes "plain_credentials c"
  shows "parse_items (meta_items c) (zero_credentials, []) =
    Inr (c\<lparr>cr_SubAccount := [], SecretBase64Decoded := False\<rparr>, cr_SubAccount c)"
proof -
  have names: "CHR '':'' \<notin> set name_Key" "CHR '':'' \<notin> set name_Secret" "CHR '':'' \<notin> set SubAccountSTR"
    "CHR '':'' \<notin> set name_ClientID" "CHR '':'' \<notin> set name_OneTimePassword"
    "CHR '':'' \<notin> set name_PEMKey"
    by (simp_all add: credential_names)
  have vals: "CHR '':'' \<notin> set (cr_Key c)" "CHR '':'' \<notin> set (cr_Secret c)"
    "CHR '':'' \<notin> set (cr_SubAccount c)" "CHR '':'' \<notin> set (cr_ClientID c)"
    "CHR '':'' \<notin> set (cr_PEMKey c)" "CHR '':'' \<notin> set (cr_OneTimePassword c)"
    using assms by (simp_all add: plain_credentials_def plain_def)
  show ?thesis
    using vals by (cases c) (auto simp: meta_items_def parse_items_append parse_meta_item names
        set_credential_def credential_names zero_credentials_def)
qed

text \<open>An item is read when it has exactly one colon.\<close>

lemma parse_items_Inl:
  "isl (parse_items xs cs) \<longleftrightarrow> list_ex (\<lambda>x. length (filter (\<lambda>c. c = CHR '':'') x) \<noteq> 1) xs"
proof (induction xs cs rule: parse_items.induct)
  case (2 x xs cs)
  have n: "length (strings_Split x '':'') = Suc (length (filter (\<lambda>c. c = CHR '':'') x))"
    by (rule strings_Split_length)
  show ?case
  proof (cases "\<exists>k v. strings_Split x '':'' = [k, v]")
    case True
    then show ?thesis using 2 n by auto
  next
    case False
    then have "length (filter (\<lambda>c. c = CHR '':'') x) \<noteq> 1"
      using n by (auto simp: length_Suc_conv)
    then show ?thesis using False by (auto split: list.split)
  qed
qed simp

lemma meta_item_colons:
  assumes "CHR '':'' \<notin> set name"
  shows "list_ex (\<lambda>x. length (filter (\<lambda>c. c = CHR '':'') x) \<noteq> 1) (meta_item name v) \<longleftrightarrow>
    CHR '':'' \<in> set v"
proof -
  have "filter (\<lambda>c. c = CHR '':'') name = []" using assms by (auto simp: filter_empty_conv)
  moreover have "filter (\<lambda>c. c = CHR '':'') v = [] \<longleftrightarrow> CHR '':'' \<notin> set v"
    by (auto simp: filter_empty_conv)
  ultimately show ?thesis by (auto simp: meta_item_def)
qed

section \<open>Properties\<close>

text \<open>Also: credentials whose fields have no colon and no comma come back from their metadata:
  they are what a context store holds, as given but for the note that the secret was decoded; if
  only the sub account is given it is deployed as an override; empty credentials are an error.\<close>

theorem metadata_roundtrip:
  assumes "plain_credentials c" and "md (fst (GetMetaData c)) = Some [snd (GetMetaData c)]"
  shows "ParseCredentialsMetadata ctx (Some md) =
    (if credentials_IsEmpty (Some c)
     then (ctx, Some (Errorf ''%w received %v fields, expected 2 contains: %s'' [errMissingInfo]))
     else if credentials_IsEmpty (Some (c\<lparr>cr_SubAccount := []\<rparr>))
     then ((ContextSubAccountFlag, StringValue (cr_SubAccount c)) # ctx, None)
     else ((ContextCredentialsFlag,
            StoreValue (Some \<lparr>cs_creds = Some (c\<lparr>SecretBase64Decoded := False\<rparr>)\<rparr>)) # ctx, None))"
proof -
  have split: "strings_Split (strings_Join (meta_items c) '','') '','' =
      (if credentials_IsEmpty (Some c) then [[]] else meta_items c)"
    using strings_Split_Join [OF meta_items_plain [OF assms(1)]] by (simp add: meta_items_empty)
  have none: "strings_Split [] '':'' = [[]]" by (simp add: strings_Split_char)
  show ?thesis
    using assms(2) split none
    by (auto simp: ParseCredentialsMetadata_def GetMetaData_def parse_meta_items [OF assms(1)]
        DeploySubAccountOverrideToContext_def DeployCredentialsToContext_def WithValue_def
        getInternal_def store_Load_def credentials_IsEmpty_def)
qed

definition demo_credentials :: credentials where
  "demo_credentials = \<lparr>cr_Key = ''k1'', cr_Secret = ''s1'', cr_ClientID = [], cr_PEMKey = [],
     cr_SubAccount = ''Sub'', cr_OneTimePassword = ''42'', SecretBase64Decoded = True\<rparr>"

theorem metadata_roundtrip_witness:
  "ParseCredentialsMetadata [] (Some (Map.empty(ContextCredentialsFlag \<mapsto>
       [''key:k1,secret:s1,subaccount:Sub,otp:42'']))) =
     ([(ContextCredentialsFlag,
        StoreValue (Some \<lparr>cs_creds = Some (demo_credentials\<lparr>SecretBase64Decoded := False\<rparr>)\<rparr>))], None)"
proof -
  have meta: "GetMetaData demo_credentials =
      (ContextCredentialsFlag, ''key:k1,secret:s1,subaccount:Sub,otp:42'')"
    by code_simp
  have "plain_credentials demo_credentials" by code_simp
  moreover have "\<not> credentials_IsEmpty (Some demo_credentials)"
    "\<not> credentials_IsEmpty (Some (demo_credentials\<lparr>cr_SubAccount := []\<rparr>))"
    by code_simp+
  ultimately show ?thesis
    using metadata_roundtrip [of demo_credentials "Map.empty(ContextCredentialsFlag \<mapsto>
       [''key:k1,secret:s1,subaccount:Sub,otp:42''])" "[]"]
    by (simp add: meta)
qed

text \<open>Also: the metadata is not escaped: credentials without commas, not all empty, are refused when
  they are read back exactly when one of the fields contains a colon; the context is then as before.\<close>

theorem colon_barred:
  assumes "list_all (\<lambda>v. CHR '','' \<notin> set v) [cr_Key c, cr_Secret c, cr_SubAccount c, cr_ClientID c,
      cr_PEMKey c, cr_OneTimePassword c]"
    and "\<not> credentials_IsEmpty (Some c)"
    and "md ContextCredentialsFlag = Some [snd (GetMetaData c)]"
  shows "ParseCredentialsMetadata ctx (Some md) =
      (ctx, Some (Errorf ''%w received %v fields, expected 2 contains: %s'' [errMissingInfo])) \<longleftrightarrow>
    list_ex (\<lambda>v. CHR '':'' \<in> set v) [cr_Key c, cr_Secret c, cr_SubAccount c, cr_ClientID c,
      cr_PEMKey c, cr_OneTimePassword c]"
proof -
  have "\<forall>x\<in>set (meta_items c). CHR '','' \<notin> set x"
    using assms(1) by (auto simp: meta_items_def meta_item_def credential_names split: if_split_asm)
  from strings_Split_Join [OF this] have split:
    "strings_Split (strings_Join (meta_items c) '','') '','' = meta_items c"
    using assms(2) by (simp add: meta_items_empty)
  have colons: "isl (parse_items (meta_items c) cs) \<longleftrightarrow>
      list_ex (\<lambda>v. CHR '':'' \<in> set v) [cr_Key c, cr_Secret c, cr_SubAccount c, cr_ClientID c,
        cr_PEMKey c, cr_OneTimePassword c]" for cs
    unfolding parse_items_Inl
    by (simp add: meta_items_def meta_item_colons [simplified] list_ex_append credential_names)
  have err: "parse_items xs cs = Inl e \<Longrightarrow>
      e = Errorf ''%w received %v fields, expected 2 contains: %s'' [errMissingInfo]" for xs cs e
    by (induction xs cs rule: parse_items.induct) (auto split: list.split_asm)
  show ?thesis
    unfolding colons [of "(zero_credentials, [])", symmetric]
    using assms(3)
    by (auto simp: ParseCredentialsMetadata_def GetMetaData_def split dest: err split: sum.split if_split)
qed

theorem colon_barred_witness:
  "ParseCredentialsMetadata [] (Some (Map.empty(ContextCredentialsFlag \<mapsto>
       [''key:k1,secret:s:1,subaccount:Sub,otp:42'']))) =
     ([], Some (Errorf ''%w received %v fields, expected 2 contains: %s'' [errMissingInfo]))"
proof -
  let ?c = "demo_credentials\<lparr>cr_Secret := ''s:1''\<rparr>"
  have "list_all (\<lambda>v. CHR '','' \<notin> set v) [cr_Key ?c, cr_Secret ?c, cr_SubAccount ?c, cr_ClientID ?c,
      cr_PEMKey ?c, cr_OneTimePassword ?c]" by code_simp
  moreover have "\<not> credentials_IsEmpty (Some ?c)" by code_simp
  moreover have "snd (GetMetaData ?c) = ''key:k1,secret:s:1,subaccount:Sub,otp:42''" by code_simp
  moreover have "list_ex (\<lambda>v. CHR '':'' \<in> set v) [cr_Key ?c, cr_Secret ?c, cr_SubAccount ?c,
      cr_ClientID ?c, cr_PEMKey ?c, cr_OneTimePassword ?c]" by code_simp
  ultimately show ?thesis
    using colon_barred [of ?c "Map.empty(ContextCredentialsFlag \<mapsto>
       [''key:k1,secret:s:1,subaccount:Sub,otp:42''])" "[]"] by simp
qed

text \<open>Also: \<open>Equal\<close> compares the key, the client and the sub account, of which the
  empty one and \<open>main\<close> are the same; nil equals nothing, itself included.  So it is an equivalence on credentials.\<close>

theorem same_credentials:
  "credentials_Equal a b =
    (case (a, b) of
       (Some c, Some d) \<Rightarrow>
         (cr_Key c, cr_ClientID c, if cr_SubAccount c = ''main'' then [] else cr_SubAccount c) =
         (cr_Key d, cr_ClientID d, if cr_SubAccount d = ''main'' then [] else cr_SubAccount d)
     | _ \<Rightarrow> False)"
  by (auto simp: credentials_Equal_def split: option.split)

end
