(* ===== verification/Account.thy ===== *)
theory Account
  imports Credentials Common_Errors Go_Float Dispatch "HOL-Library.AList"
begin

text \<open>
  The holdings of the accounts of every exchange (\<open>exchanges/account/account.go\<close>,
  \<open>account_types.go\<close>): balances by credentials, sub account, currency and asset, with the channel of
  the dispatch multiplexer that updates are published to.  The global service is the record
  \<open>account_service\<close>; its maps are association lists in an order Go may iterate them in; its mutex makes
  every function one step.

  A \<open>*ProtectedBalance\<close> is shared between the service and the callers of \<open>GetBalance\<close>; it is the
  value it has when it is read, and \<open>pb_alerts\<close> counts the calls of its \<open>Notice.Alert\<close> (the notice
  itself, on which \<open>Wait\<close> waits, is modelled in \<open>Alert\<close>).  No nil balance is ever stored.  What is
  published is the caller's holdings, which \<open>Update\<close> completes with the credentials.

  The lemmas show which balances an update writes, that every other balance stays, that the errors of
  some accounts do not keep the others from being loaded, and what is read back.
\<close>

section \<open>Data\<close>

record balance =
  bal_Currency :: code
  bal_Total :: f64
  bal_Hold :: f64
  bal_Free :: f64
  bal_AvailableWithoutBorrow :: f64
  bal_Borrowed :: f64

record sub_account =
  sa_Credentials :: credentials
  sa_ID :: string
  sa_AssetType :: asset_item
  sa_Currencies :: "balance list"

record holdings =
  h_Exchange :: string
  h_Accounts :: "sub_account list"

record protected_balance =
  pb_total :: f64
  pb_hold :: f64
  pb_free :: f64
  pb_availableWithoutBorrow :: f64
  pb_borrowed :: f64
  pb_alerts :: nat

record sub_account_key =
  sk_SubAccount :: string
  sk_Currency :: "item_ptr option"
  sk_Asset :: asset_item

type_synonym balances = "(sub_account_key \<times> protected_balance) list"

record accounts =
  acc_ID :: Dispatch.uuid
  SubAccounts :: "(credentials \<times> balances) list"

record account_service =
  exchangeAccounts :: "(string \<times> accounts) list"
  as_mux :: "holdings mux"

definition zero_holdings :: holdings where
  "zero_holdings = \<lparr>h_Exchange = [], h_Accounts = []\<rparr>"

definition zero_protected :: protected_balance where
  "zero_protected = \<lparr>pb_total = 0, pb_hold = 0, pb_free = 0, pb_availableWithoutBorrow = 0,
     pb_borrowed = 0, pb_alerts = 0\<rparr>"

definition errHoldingsIsNil :: go_error where
  "errHoldingsIsNil = Sentinel ''account.errHoldingsIsNil''"
definition errExchangeNameUnset :: go_error where
  "errExchangeNameUnset = Sentinel ''account.errExchangeNameUnset''"
definition errExchangeHoldingsNotFound :: go_error where
  "errExchangeHoldingsNotFound = Sentinel ''account.errExchangeHoldingsNotFound''"
definition errAssetHoldingsNotFound :: go_error where
  "errAssetHoldingsNotFound = Sentinel ''account.errAssetHoldingsNotFound''"
definition errExchangeAccountsNotFound :: go_error where
  "errExchangeAccountsNotFound = Sentinel ''account.errExchangeAccountsNotFound''"
definition errNoExchangeSubAccountBalances :: go_error where
  "errNoExchangeSubAccountBalances = Sentinel ''account.errNoExchangeSubAccountBalances''"
definition errBalanceIsNil :: go_error where
  "errBalanceIsNil = Sentinel ''account.errBalanceIsNil''"
definition errNoCredentialBalances :: go_error where
  "errNoCredentialBalances = Sentinel ''account.errNoCredentialBalances''"
definition errCredentialsAreNil :: go_error where
  "errCredentialsAreNil = Sentinel ''account.errCredentialsAreNil''"
definition errAccountBalancesIsNil :: go_error where
  "errAccountBalancesIsNil = Sentinel ''account.errAccountBalancesIsNil''"

section \<open>Balances\<close>

definition CollectBalances ::
    "(string \<times> balance list) list option \<Rightarrow> asset_item \<Rightarrow> sub_account list go_result" where
  "CollectBalances accountBalances assetType =
     (case accountBalances of
        None \<Rightarrow> Inl errAccountBalancesIsNil
      | Some m \<Rightarrow>
          if \<not> asset_IsValid assetType then Inl (Errorf ''%s, %w'' [asset_ErrNotSupported])
          else Inr (map (\<lambda>(accountID, balances).
                 \<lparr>sa_Credentials = zero_credentials, sa_ID = accountID, sa_AssetType = assetType,
                  sa_Currencies = balances\<rparr>) m))"

definition load :: "protected_balance \<Rightarrow> balance \<Rightarrow> protected_balance" where
  "load b change =
     (if feq (pb_total b) (bal_Total change) \<and> feq (pb_hold b) (bal_Hold change) \<and>
         feq (pb_free b) (bal_Free change) \<and>
         feq (pb_availableWithoutBorrow b) (bal_AvailableWithoutBorrow change) \<and>
         feq (pb_borrowed b) (bal_Borrowed change)
      then b
      else \<lparr>pb_total = bal_Total change, pb_hold = bal_Hold change, pb_free = bal_Free change,
            pb_availableWithoutBorrow = bal_AvailableWithoutBorrow change,
            pb_borrowed = bal_Borrowed change, pb_alerts = pb_alerts b + 1\<rparr>)"

definition GetFree :: "protected_balance option \<Rightarrow> f64" where
  "GetFree bo = (case bo of None \<Rightarrow> 0 | Some b \<Rightarrow> pb_free b)"

text \<open>\<open>Wait\<close> waits on the notice until a change or until this time is over.\<close>

definition Wait_time :: "protected_balance option \<Rightarrow> int \<Rightarrow> int go_result" where
  "Wait_time bo maxWait =
     (case bo of None \<Rightarrow> Inl errBalanceIsNil
      | Some b \<Rightarrow> Inr (if maxWait \<le> 0 then 60000000000 else maxWait))"

definition SubscribeToExchangeAccount ::
    "nat \<Rightarrow> account_service \<Rightarrow> string \<Rightarrow> account_service \<times> (nat \<times> Dispatch.uuid) go_result" where
  "SubscribeToExchangeAccount pick s exch =
     (case map_of (exchangeAccounts s) (ToLower exch) of
        None \<Rightarrow> (s, Inl (Errorf ''cannot subscribe %s %w'' [errExchangeAccountsNotFound]))
      | Some a \<Rightarrow> (case mux_Subscribe pick (as_mux s) (acc_ID a) of (m, r) \<Rightarrow> (s\<lparr>as_mux := m\<rparr>, r)))"

section \<open>Updating\<close>

definition balance_key :: "string \<Rightarrow> asset_item \<Rightarrow> code \<Rightarrow> sub_account_key" where
  "balance_key subAccount a c = \<lparr>sk_SubAccount = subAccount, sk_Currency = Item c, sk_Asset = a\<rparr>"

definition load_currency :: "string \<Rightarrow> asset_item \<Rightarrow> balance \<Rightarrow> balances \<Rightarrow> balances" where
  "load_currency subAccount a b subAccounts =
     (let k = balance_key subAccount a (bal_Currency b);
          bal = (case map_of subAccounts k of None \<Rightarrow> zero_protected | Some bal \<Rightarrow> bal)
      in AList.update k (load bal b) subAccounts)"

text \<open>The loop over the accounts: the accounts with their credentials, the balances, the errors.\<close>

fun update_loop ::
    "credentials \<Rightarrow> sub_account list \<Rightarrow> (credentials \<times> balances) list \<Rightarrow> go_error option \<Rightarrow>
     sub_account list \<times> (credentials \<times> balances) list \<times> go_error option" where
  "update_loop creds [] subs errs = ([], subs, errs)"
| "update_loop creds (a # as) subs errs =
     (if \<not> asset_IsValid (sa_AssetType a)
      then (let errs = AppendError errs (Some (Errorf
                  ''cannot load sub account holdings for %s [%s] %w'' [asset_ErrNotSupported]));
                (as', subs, errs) = update_loop creds as subs errs
            in (a # as', subs, errs))
      else (let cpy = (if cr_SubAccount creds = [] then creds\<lparr>cr_SubAccount := sa_ID a\<rparr> else creds);
                subAccounts = (case map_of subs creds of None \<Rightarrow> [] | Some m \<Rightarrow> m);
                subAccounts = fold (load_currency (sa_ID a) (sa_AssetType a)) (sa_Currencies a)
                                subAccounts;
                (as', subs, errs) = update_loop creds as (AList.update creds subAccounts subs) errs
            in (a\<lparr>sa_Credentials := cpy\<rparr> # as', subs, errs)))"

text \<open>The result is the service, the caller's holdings and the error; \<open>newV4\<close> is what the generator
  of IDs returns.\<close>

definition service_Update ::
    "Dispatch.uuid go_result \<Rightarrow> account_service \<Rightarrow> holdings option \<Rightarrow> credentials option \<Rightarrow>
     account_service \<times> holdings option \<times> go_error option" where
  "service_Update newV4 s ho co =
     (case ho of
        None \<Rightarrow> (s, ho, Some (Errorf ''cannot update holdings: %w'' [errHoldingsIsNil]))
      | Some incoming \<Rightarrow>
          if h_Exchange incoming = []
          then (s, ho, Some (Errorf ''cannot update holdings: %w'' [errExchangeNameUnset]))
          else if credentials_IsEmpty co
          then (s, ho, Some (Errorf ''cannot update holdings: %w'' [errCredentialsAreNil]))
          else
            let creds = the co; exch = ToLower (h_Exchange incoming);
                got = (case map_of (exchangeAccounts s) exch of
                         Some accounts \<Rightarrow> (as_mux s, Inr accounts)
                       | None \<Rightarrow>
                           (case mux_GetID newV4 (as_mux s) of
                              (m, Inl err) \<Rightarrow> (m, Inl err)
                            | (m, Inr i) \<Rightarrow> (m, Inr \<lparr>acc_ID = i, SubAccounts = []\<rparr>)))
            in (case got of
                  (m, Inl err) \<Rightarrow> (s\<lparr>as_mux := m\<rparr>, ho, Some err)
                | (m, Inr accounts) \<Rightarrow>
                    (let (as', subs, errs) =
                           update_loop creds (h_Accounts incoming) (SubAccounts accounts) None;
                         incoming = incoming\<lparr>h_Accounts := as'\<rparr>;
                         (m, err) = mux_Publish m (Some incoming) [acc_ID accounts]
                     in (\<lparr>exchangeAccounts = AList.update exch (accounts\<lparr>SubAccounts := subs\<rparr>)
                             (exchangeAccounts s), as_mux = m\<rparr>, Some incoming,
                         (case err of Some e \<Rightarrow> Some e | None \<Rightarrow> errs)))))"

definition account_Process ::
    "Dispatch.uuid go_result \<Rightarrow> account_service \<Rightarrow> holdings option \<Rightarrow> credentials option \<Rightarrow>
     account_service \<times> holdings option \<times> go_error option" where
  "account_Process newV4 s h c = service_Update newV4 s h c"

section \<open>Reading\<close>

text \<open>The loop of \<open>GetHoldings\<close>; \<open>Item.Currency\<close> goes through the currency registry.\<close>

fun holdings_loop ::
    "asset_item \<Rightarrow> balances \<Rightarrow> store \<Rightarrow> balance list \<Rightarrow> credentials \<Rightarrow>
     store \<times> balance list \<times> credentials" where
  "holdings_loop assetType [] cs acc cpy = (cs, acc, cpy)"
| "holdings_loop assetType ((mapKey, b) # ms) cs acc cpy =
     (if sk_Asset mapKey \<noteq> assetType then holdings_loop assetType ms cs acc cpy
      else let (cs, c) = item_Currency cs (sk_Currency mapKey);
               bal = \<lparr>bal_Currency = code_Upper c, bal_Total = pb_total b, bal_Hold = pb_hold b,
                      bal_Free = pb_free b,
                      bal_AvailableWithoutBorrow = pb_availableWithoutBorrow b,
                      bal_Borrowed = pb_borrowed b\<rparr>;
               cpy = (if cr_SubAccount cpy = [] \<and> sk_SubAccount mapKey \<noteq> []
                      then cpy\<lparr>cr_SubAccount := sk_SubAccount mapKey\<rparr> else cpy)
           in holdings_loop assetType ms cs (acc @ [bal]) cpy)"

definition GetHoldings ::
    "store \<Rightarrow> account_service \<Rightarrow> string \<Rightarrow> credentials option \<Rightarrow> asset_item \<Rightarrow>
     store \<times> holdings go_result" where
  "GetHoldings cs s exch co assetType =
     (if exch = [] then (cs, Inl errExchangeNameUnset)
      else if credentials_IsEmpty co then (cs, Inl (Errorf ''%s %s %w'' [errCredentialsAreNil]))
      else if \<not> asset_IsValid assetType
      then (cs, Inl (Errorf ''%s %s %w'' [asset_ErrNotSupported]))
      else
        let exch = ToLower exch; creds = the co
        in (case map_of (exchangeAccounts s) exch of
              None \<Rightarrow> (cs, Inl (Errorf ''%s %s %w'' [errExchangeHoldingsNotFound]))
            | Some accounts \<Rightarrow>
                (case map_of (SubAccounts accounts) creds of
                   None \<Rightarrow> (cs, Inl (Errorf ''%s %s %s %w'' [errNoCredentialBalances]))
                 | Some subAccountHoldings \<Rightarrow>
                     (case holdings_loop assetType subAccountHoldings cs [] creds of
                        (cs, currencyBalances, cpy) \<Rightarrow>
                          if currencyBalances = []
                          then (cs, Inl (Errorf ''%s %s %w'' [errAssetHoldingsNotFound]))
                          else (cs, Inr \<lparr>h_Exchange = exch, h_Accounts =
                             [\<lparr>sa_Credentials = cpy, sa_ID = cr_SubAccount cpy,
                               sa_AssetType = assetType, sa_Currencies = currencyBalances\<rparr>]\<rparr>)))))"

definition GetBalance ::
    "store \<Rightarrow> account_service \<Rightarrow> string \<Rightarrow> string \<Rightarrow> credentials option \<Rightarrow> asset_item \<Rightarrow> code \<Rightarrow>
     protected_balance go_result" where
  "GetBalance cs s exch subAccount co ai c =
     (if exch = [] then Inl (Errorf ''cannot get balance: %w'' [errExchangeNameUnset])
      else if \<not> asset_IsValid ai
      then Inl (Errorf ''cannot get balance: %s %w'' [asset_ErrNotSupported])
      else if credentials_IsEmpty co
      then Inl (Errorf ''cannot get balance: %w'' [errCredentialsAreNil])
      else if code_IsEmpty cs c
      then Inl (Errorf ''cannot get balance: %w'' [ErrCurrencyCodeEmpty])
      else
        (case map_of (exchangeAccounts s) (ToLower exch) of
           None \<Rightarrow> Inl (Errorf ''%s %w'' [errExchangeHoldingsNotFound])
         | Some accounts \<Rightarrow>
             (case map_of (SubAccounts accounts) (the co) of
                None \<Rightarrow> Inl (Errorf ''%s %s %w'' [errNoCredentialBalances])
              | Some subAccounts \<Rightarrow>
                  (case map_of subAccounts (balance_key subAccount ai c) of
                     None \<Rightarrow> Inl (Errorf ''%s %s %s %s %w'' [errNoExchangeSubAccountBalances])
                   | Some bal \<Rightarrow> Inr bal))))"

section \<open>Lemmas\<close>

lemma fold_load_currency:
  "map_of (fold (load_currency i a) bs m) k =
    (let l = filter (\<lambda>b. balance_key i a (bal_Currency b) = k) bs
     in if l = [] then map_of m k
        else Some (fold (\<lambda>b p. load p b) l
               (case map_of m k of None \<Rightarrow> zero_protected | Some p \<Rightarrow> p)))"
  by (induction bs arbitrary: m) (auto simp: Let_def load_currency_def update_conv')

text \<open>The entries of the holdings that are about a key, in the order they are loaded, and the
  balances of credentials.\<close>

definition entries :: "sub_account list \<Rightarrow> sub_account_key \<Rightarrow> balance list" where
  "entries as k =
     concat (map (\<lambda>a. filter (\<lambda>b. balance_key (sa_ID a) (sa_AssetType a) (bal_Currency b) = k)
                   (sa_Currencies a))
       (filter (\<lambda>a. asset_IsValid (sa_AssetType a)) as))"

definition balance_in :: "(credentials \<times> balances) list \<Rightarrow> credentials \<Rightarrow> sub_account_key \<Rightarrow>
    protected_balance option" where
  "balance_in subs c k = Option.bind (map_of subs c) (\<lambda>m. map_of m k)"

definition balance_at ::
    "account_service \<Rightarrow> string \<Rightarrow> credentials \<Rightarrow> sub_account_key \<Rightarrow> protected_balance option" where
  "balance_at s exch c k =
     Option.bind (map_of (exchangeAccounts s) exch) (\<lambda>a. balance_in (SubAccounts a) c k)"

definition loaded :: "balance list \<Rightarrow> protected_balance option \<Rightarrow> protected_balance option" where
  "loaded bs po =
     (if bs = [] then po
      else Some (fold (\<lambda>b p. load p b) bs (case po of None \<Rightarrow> zero_protected | Some p \<Rightarrow> p)))"

lemma loaded_append: "loaded (bs @ cs) po = loaded cs (loaded bs po)"
  by (simp add: loaded_def)

lemma update_loop_balances:
  assumes "update_loop creds as subs errs = (as', subs', errs')"
  shows "balance_in subs' c k =
    (if c = creds then loaded (entries as k) (balance_in subs c k) else balance_in subs c k)"
  using assms
proof (induction creds as subs errs arbitrary: as' rule: update_loop.induct)
  case (1 creds subs errs)
  then show ?case by (simp add: entries_def loaded_def)
next
  case (2 creds a as subs errs)
  show ?case
  proof (cases "asset_IsValid (sa_AssetType a)")
    case False
    then show ?thesis using 2 by (auto simp: entries_def Let_def split: prod.split_asm)
  next
    case True
    let ?m = "fold (load_currency (sa_ID a) (sa_AssetType a)) (sa_Currencies a)
      (case map_of subs creds of None \<Rightarrow> [] | Some m \<Rightarrow> m)"
    have rec: "\<exists>as''. update_loop creds as (AList.update creds ?m subs) errs = (as'', subs', errs')"
      using 2(3) True by (auto simp: Let_def split: prod.split_asm)
    have "balance_in subs' c k = (if c = creds
        then loaded (entries as k) (balance_in (AList.update creds ?m subs) c k)
        else balance_in (AList.update creds ?m subs) c k)"
      using 2(2) [OF _ refl refl refl] True rec by auto
    moreover have "balance_in (AList.update creds ?m subs) creds k =
        loaded (filter (\<lambda>b. balance_key (sa_ID a) (sa_AssetType a) (bal_Currency b) = k)
          (sa_Currencies a)) (balance_in subs creds k)"
      by (simp add: balance_in_def update_conv' fold_load_currency Let_def loaded_def split: option.split)
    moreover have "balance_in (AList.update creds ?m subs) c k = balance_in subs c k" if "c \<noteq> creds"
      using that by (simp add: balance_in_def update_conv')
    ultimately show ?thesis using True by (simp add: entries_def loaded_append)
  qed
qed

text \<open>The accounts are given their credentials; there is no error exactly when every asset type is valid.\<close>

definition sub_credentials :: "credentials \<Rightarrow> sub_account \<Rightarrow> credentials" where
  "sub_credentials creds a =
     (if cr_SubAccount creds = [] then creds\<lparr>cr_SubAccount := sa_ID a\<rparr> else creds)"

lemma update_loop_accounts:
  "update_loop creds as subs errs = (as', subs', errs') \<Longrightarrow>
    as' = map (\<lambda>a. if asset_IsValid (sa_AssetType a)
                   then a\<lparr>sa_Credentials := sub_credentials creds a\<rparr> else a) as \<and>
    (errs' = None \<longleftrightarrow> errs = None \<and> list_all (\<lambda>a. asset_IsValid (sa_AssetType a)) as)"
proof (induction creds as subs errs arbitrary: as' rule: update_loop.induct)
  case (2 creds a as subs errs)
  show ?case
  proof (cases "asset_IsValid (sa_AssetType a)")
    case True
    then show ?thesis using 2(2) [OF _ refl refl refl] 2(3)
      by (auto simp: Let_def sub_credentials_def split: prod.split_asm)
  next
    case False
    then show ?thesis using 2(1) [OF _ refl] 2(3)
      by (auto simp: Let_def AppendError_def split: prod.split_asm option.split_asm go_error.split_asm)
  qed
qed simp

text \<open>What an update that is not refused does.\<close>

lemma service_Update_accepted:
  assumes "h_Exchange h \<noteq> []" and "\<not> credentials_IsEmpty (Some c)"
    and "map_of (exchangeAccounts s) (ToLower (h_Exchange h)) = None \<Longrightarrow>
      mux_GetID newV4 (as_mux s) = (m, Inr i)"
    and "service_Update newV4 s (Some h) (Some c) = (s', ho, err)"
  obtains accounts as' subs errs m' perr where
    "case map_of (exchangeAccounts s) (ToLower (h_Exchange h)) of
       None \<Rightarrow> accounts = \<lparr>acc_ID = i, SubAccounts = []\<rparr> | Some a \<Rightarrow> accounts = a"
    and "update_loop c (h_Accounts h) (SubAccounts accounts) None = (as', subs, errs)"
    and "s' = \<lparr>exchangeAccounts = AList.update (ToLower (h_Exchange h)) (accounts\<lparr>SubAccounts := subs\<rparr>)
        (exchangeAccounts s), as_mux = m'\<rparr>"
    and "ho = Some (h\<lparr>h_Accounts := as'\<rparr>)"
    and "err = (case perr of Some e \<Rightarrow> Some e | None \<Rightarrow> errs)"
    and "mux_Publish (if map_of (exchangeAccounts s) (ToLower (h_Exchange h)) = None then m else as_mux s)
        ho [acc_ID accounts] = (m', perr)"
proof -
  define accounts where "accounts = (case map_of (exchangeAccounts s) (ToLower (h_Exchange h)) of
      None \<Rightarrow> \<lparr>acc_ID = i, SubAccounts = []\<rparr> | Some a \<Rightarrow> a)"
  define m0 where "m0 = (if map_of (exchangeAccounts s) (ToLower (h_Exchange h)) = None then m else as_mux s)"
  obtain as' subs errs where u:
    "update_loop c (h_Accounts h) (SubAccounts accounts) None = (as', subs, errs)" by (metis prod_cases3)
  obtain m' perr where p: "mux_Publish m0 (Some (h\<lparr>h_Accounts := as'\<rparr>)) [acc_ID accounts] = (m', perr)"
    by fastforce
  have "(case map_of (exchangeAccounts s) (ToLower (h_Exchange h)) of
          Some accounts \<Rightarrow> (as_mux s, Inr accounts)
        | None \<Rightarrow> (case mux_GetID newV4 (as_mux s) of
             (m, Inl err) \<Rightarrow> (m, Inl err)
           | (m, Inr i) \<Rightarrow> (m, Inr \<lparr>acc_ID = i, SubAccounts = []\<rparr>))) = (m0, Inr accounts)"
    using assms(3) by (auto simp: accounts_def m0_def split: option.split)
  then have "service_Update newV4 s (Some h) (Some c) =
      (\<lparr>exchangeAccounts = AList.update (ToLower (h_Exchange h)) (accounts\<lparr>SubAccounts := subs\<rparr>)
         (exchangeAccounts s), as_mux = m'\<rparr>, Some (h\<lparr>h_Accounts := as'\<rparr>),
       (case perr of Some e \<Rightarrow> Some e | None \<Rightarrow> errs))"
    using assms(1,2) by (simp add: service_Update_def Let_def u p)
  then show thesis
    using that [of accounts as' subs errs m' perr] assms(4) u p
    by (auto simp: accounts_def m0_def split: option.split)
qed

text \<open>The other ways out leave the accounts alone.\<close>

lemma service_Update_refused:
  assumes "service_Update newV4 s ho co = (s', ho', err)"
    and "case ho of None \<Rightarrow> True
       | Some h \<Rightarrow> h_Exchange h = [] \<or> credentials_IsEmpty co \<or>
           map_of (exchangeAccounts s) (ToLower (h_Exchange h)) = None \<and>
           isl (snd (mux_GetID newV4 (as_mux s)))"
  shows "exchangeAccounts s' = exchangeAccounts s \<and> ho' = ho \<and> err \<noteq> None"
  using assms
  by (auto simp: service_Update_def Let_def split: option.split_asm if_split_asm prod.split_asm sum.split_asm)


lemma update_loop_keys:
  "update_loop creds as subs errs = (as', subs', errs') \<Longrightarrow> d \<noteq> creds \<Longrightarrow>
    map_of subs' d = map_of subs d"
proof (induction creds as subs errs arbitrary: as' rule: update_loop.induct)
  case (2 creds a as subs errs)
  then show ?case
    by (cases "asset_IsValid (sa_AssetType a)")
      (auto simp: Let_def update_conv' split: prod.split_asm)
qed simp

section \<open>Properties\<close>

text \<open>C30: an update that is not refused loads, for the given exchange (in any case)
  and credentials, the valid entries of the holdings that are about a key, one after the other, into
  the balance of that key, a zero one if there was none, and leaves every other balance of the
  service alone.  Accounts of an invalid asset type do not keep the others from being loaded, but
  there is no success with one; the caller's accounts get the credentials.\<close>

theorem account_balances:
  assumes "h_Exchange h \<noteq> []" and "\<not> credentials_IsEmpty (Some c)"
    and "map_of (exchangeAccounts s) (ToLower (h_Exchange h)) = None \<Longrightarrow>
      mux_GetID newV4 (as_mux s) = (m, Inr i)"
    and "service_Update newV4 s (Some h) (Some c) = (s', ho, err)"
  shows "balance_at s' exch d k =
      (if exch = ToLower (h_Exchange h) \<and> d = c
       then loaded (entries (h_Accounts h) k) (balance_at s exch d k) else balance_at s exch d k) \<and>
    ho = Some (h\<lparr>h_Accounts :=
      map (\<lambda>a. if asset_IsValid (sa_AssetType a) then a\<lparr>sa_Credentials := sub_credentials c a\<rparr> else a)
        (h_Accounts h)\<rparr>) \<and>
    (if err = None then list_all (\<lambda>a. asset_IsValid (sa_AssetType a)) (h_Accounts h) else True)"
proof -
  obtain accounts as' subs errs m' perr where acc:
    "case map_of (exchangeAccounts s) (ToLower (h_Exchange h)) of
       None \<Rightarrow> accounts = \<lparr>acc_ID = i, SubAccounts = []\<rparr> | Some a \<Rightarrow> accounts = a"
    and u: "update_loop c (h_Accounts h) (SubAccounts accounts) None = (as', subs, errs)"
    and s': "s' = \<lparr>exchangeAccounts = AList.update (ToLower (h_Exchange h)) (accounts\<lparr>SubAccounts := subs\<rparr>)
        (exchangeAccounts s), as_mux = m'\<rparr>"
    and ho: "ho = Some (h\<lparr>h_Accounts := as'\<rparr>)"
    and err: "err = (case perr of Some e \<Rightarrow> Some e | None \<Rightarrow> errs)"
    using service_Update_accepted [OF assms] by metis
  have before: "balance_in (SubAccounts accounts) d k = balance_at s (ToLower (h_Exchange h)) d k"
    using acc by (auto simp: balance_at_def balance_in_def split: option.splits)
  have "balance_at s' exch d k =
      (if exch = ToLower (h_Exchange h) then balance_in subs d k else balance_at s exch d k)"
    by (simp add: s' balance_at_def update_conv')
  then show ?thesis
    using update_loop_balances [OF u, of d k] before update_loop_accounts [OF u] ho err
    by (auto split: option.split_asm)
qed

definition demo_balance :: "f64 \<Rightarrow> balance" where
  "demo_balance f = \<lparr>bal_Currency = \<lparr>Item = Some 0, upperCase = True\<rparr>, bal_Total = Fin 10, bal_Hold = 0,
     bal_Free = f, bal_AvailableWithoutBorrow = 0, bal_Borrowed = 0\<rparr>"

definition demo_holdings :: holdings where
  "demo_holdings = \<lparr>h_Exchange = ''Kraken'', h_Accounts =
     [\<lparr>sa_Credentials = zero_credentials, sa_ID = ''Sub'', sa_AssetType = Spot,
       sa_Currencies = [demo_balance (Fin 3), demo_balance (Fin 4)]\<rparr>,
      \<lparr>sa_Credentials = zero_credentials, sa_ID = ''Sub'', sa_AssetType = Empty,
       sa_Currencies = [demo_balance (Fin 5)]\<rparr>]\<rparr>"

definition demo_accounts :: account_service where
  "demo_accounts = \<lparr>exchangeAccounts = [], as_mux = Some NewDispatcher\<rparr>"

theorem account_balances_witness:
  "map_option pb_free (balance_at (fst (service_Update (Inr 5) demo_accounts (Some demo_holdings)
      (Some demo_credentials))) ''kraken'' demo_credentials
     \<lparr>sk_SubAccount = ''Sub'', sk_Currency = Some 0, sk_Asset = Spot\<rparr>) = Some (Fin 4)"
proof -
  let ?r = "service_Update (Inr 5) demo_accounts (Some demo_holdings) (Some demo_credentials)"
  let ?k = "\<lparr>sk_SubAccount = ''Sub'', sk_Currency = Some 0, sk_Asset = Spot\<rparr>"
  have r: "?r = (fst ?r, fst (snd ?r), snd (snd ?r))" by simp
  have hyps: "h_Exchange demo_holdings \<noteq> []" "\<not> credentials_IsEmpty (Some demo_credentials)"
    "mux_GetID (Inr 5) (as_mux demo_accounts) =
      (fst (mux_GetID (Inr 5) (as_mux demo_accounts)), Inr 5)"
    "ToLower (h_Exchange demo_holdings) = ''kraken''"
    by code_simp+
  have eval: "map_option pb_free (loaded (entries (h_Accounts demo_holdings) ?k)
      (balance_at demo_accounts ''kraken'' demo_credentials ?k)) = Some (Fin 4)"
    by code_simp
  show ?thesis
    using account_balances [OF hyps(1,2) _ r, of _ 5 "''kraken''" demo_credentials ?k] hyps(3,4) eval
    by simp
qed

text \<open>Also: loading a balance makes its amounts those of the change, up to the sign of zero, and alerts once
  if one of them differs (NaN differs from everything) and never otherwise.\<close>

theorem balance_alerts:
  "let p = load b change;
       old = [pb_total b, pb_hold b, pb_free b, pb_availableWithoutBorrow b, pb_borrowed b];
       new = [bal_Total change, bal_Hold change, bal_Free change, bal_AvailableWithoutBorrow change,
              bal_Borrowed change]
   in list_all2 (\<lambda>x y. x = y \<or> feq x y)
        [pb_total p, pb_hold p, pb_free p, pb_availableWithoutBorrow p, pb_borrowed p] new \<and>
      pb_alerts p = pb_alerts b + (if list_all2 feq old new then 0 else 1)"
  by (auto simp: load_def Let_def)

text \<open>Also: the holdings are kept under all fields of the credentials, the one-time password
  included, although \<open>Equal\<close> leaves it out: holdings that arrive for a new exchange are not
  found with credentials that differ in the one-time password only, which are \<open>Equal\<close>.\<close>

theorem otp_hides_holdings:
  assumes "h_Exchange h \<noteq> []" and "\<not> credentials_IsEmpty (Some c)" and "cr_Key c \<noteq> []"
    and "map_of (exchangeAccounts s) (ToLower (h_Exchange h)) = None"
    and "mux_GetID newV4 (as_mux s) = (m, Inr i)"
    and "service_Update newV4 s (Some h) (Some c) = (s', ho, err)"
    and "p \<noteq> cr_OneTimePassword c" and "asset_IsValid a"
  shows "credentials_Equal (Some c) (Some (c\<lparr>cr_OneTimePassword := p\<rparr>)) \<and>
    GetHoldings cs s' (h_Exchange h) (Some (c\<lparr>cr_OneTimePassword := p\<rparr>)) a =
      (cs, Inl (Errorf ''%s %s %s %w'' [errNoCredentialBalances]))"
proof -
  let ?d = "c\<lparr>cr_OneTimePassword := p\<rparr>"
  obtain accounts as' subs errs m' where acc: "accounts = \<lparr>acc_ID = i, SubAccounts = []\<rparr>"
    and u: "update_loop c (h_Accounts h) (SubAccounts accounts) None = (as', subs, errs)"
    and s': "s' = \<lparr>exchangeAccounts = AList.update (ToLower (h_Exchange h)) (accounts\<lparr>SubAccounts := subs\<rparr>)
        (exchangeAccounts s), as_mux = m'\<rparr>"
    using service_Update_accepted [OF assms(1,2,5,6)] assms(4) by (metis option.simps(4))
  have "?d \<noteq> c" using assms(7) by (metis credentials.select_convs(6) credentials.surjective credentials.update_convs(6))
  with update_loop_keys [OF u, of ?d] acc have "map_of subs ?d = None" by simp
  moreover have "\<not> credentials_IsEmpty (Some ?d)" using assms(3) by (simp add: credentials_IsEmpty_def)
  ultimately show ?thesis
    using assms(1,8) s' by (simp add: GetHoldings_def Let_def update_conv' credentials_Equal_def)
qed

theorem otp_hides_holdings_witness:
  "GetHoldings empty_store (fst (service_Update (Inr 5) demo_accounts (Some demo_holdings)
      (Some demo_credentials))) ''Kraken'' (Some (demo_credentials\<lparr>cr_OneTimePassword := ''43''\<rparr>)) Spot =
    (empty_store, Inl (Errorf ''%s %s %s %w'' [errNoCredentialBalances]))"
proof -
  let ?r = "service_Update (Inr 5) demo_accounts (Some demo_holdings) (Some demo_credentials)"
  have r: "?r = (fst ?r, fst (snd ?r), snd (snd ?r))" by simp
  have hyps: "h_Exchange demo_holdings \<noteq> []" "\<not> credentials_IsEmpty (Some demo_credentials)"
    "cr_Key demo_credentials \<noteq> []"
    "map_of (exchangeAccounts demo_accounts) (ToLower (h_Exchange demo_holdings)) = None"
    "mux_GetID (Inr 5) (as_mux demo_accounts) =
      (fst (mux_GetID (Inr 5) (as_mux demo_accounts)), Inr 5)"
    "''43'' \<noteq> cr_OneTimePassword demo_credentials" "asset_IsValid Spot"
    "h_Exchange demo_holdings = ''Kraken''"
    by code_simp+
  show ?thesis
    using otp_hides_holdings [OF hyps(1-5) r hyps(6,7), of empty_store] hyps(8) by simp
qed

text \<open>Also: the holdings read back are the balances of the credentials and asset, of all sub
  accounts together, in the order of the map; they are given as those of the sub account of the
  credentials or, without one, of the first balance that has one.\<close>

theorem holdings_merged:
  "case GetHoldings cs s exch (Some c) a of
     (cs', Inl e) \<Rightarrow> True
   | (cs', Inr h) \<Rightarrow>
       (case Option.bind (map_of (exchangeAccounts s) (ToLower exch)) (\<lambda>x. map_of (SubAccounts x) c) of
          None \<Rightarrow> False
        | Some m \<Rightarrow>
            let found = filter (\<lambda>(k, b). sk_Asset k = a) m;
                ids = (if cr_SubAccount c \<noteq> [] then [cr_SubAccount c]
                       else filter (\<lambda>i. i \<noteq> []) (map (sk_SubAccount \<circ> fst) found))
            in found \<noteq> [] \<and> length (h_Accounts h) = 1 \<and>
               map bal_Free (sa_Currencies (h_Accounts h ! 0)) = map (pb_free \<circ> snd) found \<and>
               map bal_Total (sa_Currencies (h_Accounts h ! 0)) = map (pb_total \<circ> snd) found \<and>
               sa_ID (h_Accounts h ! 0) = (case ids of [] \<Rightarrow> [] | i # _ \<Rightarrow> i))"
proof -
  have loop: "case holdings_loop a m cs acc cpy of
      (cs', bs, cpy') \<Rightarrow>
        map bal_Free bs = map bal_Free acc @ map (pb_free \<circ> snd) (filter (\<lambda>(k, b). sk_Asset k = a) m) \<and>
        map bal_Total bs = map bal_Total acc @ map (pb_total \<circ> snd) (filter (\<lambda>(k, b). sk_Asset k = a) m) \<and>
        cr_SubAccount cpy' = (if cr_SubAccount cpy \<noteq> [] then cr_SubAccount cpy
          else (case filter (\<lambda>i. i \<noteq> []) (map (sk_SubAccount \<circ> fst) (filter (\<lambda>(k, b). sk_Asset k = a) m)) of
                  [] \<Rightarrow> [] | i # _ \<Rightarrow> i))" for m cs acc cpy
    by (induction a m cs acc cpy rule: holdings_loop.induct)
      (auto simp: Let_def comp_def split: prod.splits)
  show ?thesis
  proof (cases "\<exists>accounts m. map_of (exchangeAccounts s) (ToLower exch) = Some accounts \<and>
      map_of (SubAccounts accounts) c = Some m")
    case True
    then obtain accounts m where m: "map_of (exchangeAccounts s) (ToLower exch) = Some accounts"
      "map_of (SubAccounts accounts) c = Some m" by blast
    obtain cs' bs cpy' where l: "holdings_loop a m cs [] c = (cs', bs, cpy')" by (metis prod_cases3)
    have facts: "map bal_Free bs = map (pb_free \<circ> snd) (filter (\<lambda>(k, b). sk_Asset k = a) m)"
      "map bal_Total bs = map (pb_total \<circ> snd) (filter (\<lambda>(k, b). sk_Asset k = a) m)"
      "cr_SubAccount cpy' = (if cr_SubAccount c \<noteq> [] then cr_SubAccount c
          else (case filter (\<lambda>i. i \<noteq> []) (map (sk_SubAccount \<circ> fst) (filter (\<lambda>(k, b). sk_Asset k = a) m)) of
                  [] \<Rightarrow> [] | i # _ \<Rightarrow> i))"
      using loop [where m = m and cs = cs and acc = "[]" and cpy = c] by (simp_all add: l)
    have "bs = [] \<longleftrightarrow> filter (\<lambda>(k, b). sk_Asset k = a) m = []"
      using facts by (metis map_is_Nil_conv)
    then show ?thesis
      using facts by (simp add: GetHoldings_def Let_def m l)
  next
    case False
    then show ?thesis
      by (auto simp: GetHoldings_def Let_def split: option.split)
  qed
qed

end
