(* ===== verification/Subscription.thy ===== *)
theory Subscription
  imports Currency_Pairs Asset Common_Errors "HOL-Library.AList"
begin

text \<open>
  The subscriptions of a websocket connection (\<open>exchanges/subscription\<close>: \<open>subscription.go\<close>,
  \<open>keys.go\<close>, \<open>store.go\<close>).

  Subscriptions are shared by pointers and are their own keys, so they live on a heap: a pointer is an
  index into \<open>sub_objects\<close>.  A key is a plain comparable value (\<open>OtherKey\<close>, identified by a number),
  or one of the three matchable keys, held by value or by a pointer with an address; Go compares
  the former by the subscription pointer in it, the latter by the address.  The store's map is an
  association list in an order Go may iterate it in.  Locks make every function one step; \<open>None\<close> as
  the result of an operation is a panic (a matchable key without a subscription is matched
  against one with it).  Parameters of type \<open>any\<close> are numbers.

  The lemmas show that a store keeps every subscription under its own key as long as the keys do not
  change, what is found, added and removed, and how a
  store differs from a list.
\<close>

section \<open>Subscriptions and keys\<close>

type_synonym sub_ptr = nat

datatype key_kind = ExactKey | IgnoringPairsKey | IgnoringAssetKey

datatype sub_key =
    OtherKey nat
  | ValueKey key_kind "sub_ptr option"
  | PointerKey nat key_kind "sub_ptr option"

type_synonym sub_state = "8 word"

definition InactiveState :: sub_state where "InactiveState = 0"
definition SubscribingState :: sub_state where "SubscribingState = 1"
definition SubscribedState :: sub_state where "SubscribedState = 2"
definition ResubscribingState :: sub_state where "ResubscribingState = 3"
definition UnsubscribingState :: sub_state where "UnsubscribingState = 4"
definition UnsubscribedState :: sub_state where "UnsubscribedState = 5"

record subscription =
  sub_Enabled :: bool
  sub_Key :: "sub_key option"
  sub_Channel :: string
  sub_Pairs :: "pair list"
  sub_Asset :: asset_item
  sub_Params :: "(string \<times> nat) list option"
  sub_Interval :: int
  sub_Levels :: int
  sub_Authenticated :: bool
  QualifiedChannel :: string
  sub_state :: sub_state

record sub_heap =
  sub_objects :: "subscription list"
  key_addresses :: nat

definition ErrNilPointer :: go_error where "ErrNilPointer = Sentinel ''common.ErrNilPointer''"
definition ErrNotFound :: go_error where "ErrNotFound = Sentinel ''subscription.ErrNotFound''"
definition ErrInStateAlready :: go_error where
  "ErrInStateAlready = Sentinel ''subscription.ErrInStateAlready''"
definition ErrInvalidState :: go_error where
  "ErrInvalidState = Sentinel ''subscription.ErrInvalidState''"
definition ErrDuplicate :: go_error where "ErrDuplicate = Sentinel ''subscription.ErrDuplicate''"

definition obj :: "sub_heap \<Rightarrow> sub_ptr \<Rightarrow> subscription" where
  "obj h p = sub_objects h ! p"

definition set_obj :: "sub_ptr \<Rightarrow> subscription \<Rightarrow> sub_heap \<Rightarrow> sub_heap" where
  "set_obj p s h = h\<lparr>sub_objects := (sub_objects h)[p := s]\<rparr>"

definition new_obj :: "subscription \<Rightarrow> sub_heap \<Rightarrow> sub_heap \<times> sub_ptr" where
  "new_obj s h = (h\<lparr>sub_objects := sub_objects h @ [s]\<rparr>, length (sub_objects h))"

text \<open>The \<open>MatchableKey\<close> interface: its kind and \<open>GetSubscription\<close>.\<close>

fun matchable :: "sub_key \<Rightarrow> (key_kind \<times> sub_ptr option) option" where
  "matchable (OtherKey i) = None"
| "matchable (ValueKey kind s) = Some (kind, s)"
| "matchable (PointerKey a kind s) = Some (kind, s)"

definition same_subscription :: "key_kind \<Rightarrow> subscription \<Rightarrow> subscription \<Rightarrow> bool" where
  "same_subscription kind k eachSub =
     (case kind of
        ExactKey \<Rightarrow>
          sub_Channel eachSub = sub_Channel k \<and> sub_Asset eachSub = sub_Asset k \<and>
          pairs_Equal (sub_Pairs eachSub) (sub_Pairs k) \<and>
          sub_Levels eachSub = sub_Levels k \<and> sub_Interval eachSub = sub_Interval k
      | IgnoringPairsKey \<Rightarrow>
          sub_Channel eachSub = sub_Channel k \<and> sub_Asset eachSub = sub_Asset k \<and>
          sub_Levels eachSub = sub_Levels k \<and> sub_Interval eachSub = sub_Interval k
      | IgnoringAssetKey \<Rightarrow>
          sub_Channel eachSub = sub_Channel k \<and> pairs_Equal (sub_Pairs eachSub) (sub_Pairs k) \<and>
          sub_Levels eachSub = sub_Levels k \<and> sub_Interval eachSub = sub_Interval k)"

definition key_Match ::
    "sub_heap \<Rightarrow> key_kind \<times> sub_ptr option \<Rightarrow> (key_kind \<times> sub_ptr option) option \<Rightarrow> bool option"
where
  "key_Match h k eachKey =
     (case eachKey of
        None \<Rightarrow> Some False
      | Some e \<Rightarrow>
          (case snd e of
             None \<Rightarrow> Some False
           | Some eachSub \<Rightarrow>
               (case snd k of
                  None \<Rightarrow> None
                | Some ks \<Rightarrow> Some (same_subscription (fst k) (obj h ks) (obj h eachSub)))))"

definition pairs_Strings :: "store \<Rightarrow> pair list \<Rightarrow> string list" where
  "pairs_Strings cs p = map (pair_String cs) p"

definition pairs_Join :: "store \<Rightarrow> pair list \<Rightarrow> string" where
  "pairs_Join cs p = strings_Join (pairs_Strings cs p) '',''"

definition key_String :: "store \<Rightarrow> sub_heap \<Rightarrow> key_kind \<times> sub_ptr option \<Rightarrow> string" where
  "key_String cs h k =
     (case k of
        (ExactKey, None) \<Rightarrow> ''Uninitialised ExactKey''
      | (IgnoringPairsKey, None) \<Rightarrow> ''Uninitialised IgnoringPairsKey''
      | (IgnoringAssetKey, None) \<Rightarrow> ''Uninitialised IgnoringAssetKey''
      | (ExactKey, Some p) \<Rightarrow>
          (let s = obj h p;
               ps = pairs_Format (sub_Pairs s)
                      \<lparr>Uppercase = True, fmt_Delimiter = ''/'', Separator = []\<rparr>
           in sub_Channel s @ '' '' @ asset_String (sub_Asset s) @ '' '' @
              pairs_Join cs ps)
      | (IgnoringPairsKey, Some p) \<Rightarrow>
          sub_Channel (obj h p) @ '' '' @ asset_String (sub_Asset (obj h p))
      | (IgnoringAssetKey, Some p) \<Rightarrow>
          sub_Channel (obj h p) @ '' ['' @ strings_Join (pairs_Strings cs (sub_Pairs (obj h p))) '' '' @
          '']'')"

definition EnsureKeyed :: "sub_heap \<Rightarrow> sub_ptr \<Rightarrow> sub_heap \<times> sub_key" where
  "EnsureKeyed h p =
     (case sub_Key (obj h p) of
        Some k \<Rightarrow> (h, k)
      | None \<Rightarrow>
          (let k = PointerKey (key_addresses h) ExactKey (Some p)
           in (set_obj p ((obj h p)\<lparr>sub_Key := Some k\<rparr>) (h\<lparr>key_addresses := key_addresses h + 1\<rparr>), k)))"

text \<open>\<open>print\<close> is what \<open>%v\<close> prints for a plain key.\<close>

definition sub_String :: "(nat \<Rightarrow> string) \<Rightarrow> store \<Rightarrow> sub_heap \<Rightarrow> sub_ptr \<Rightarrow> sub_heap \<times> string" where
  "sub_String print cs h p =
     (case EnsureKeyed h p of
        (h, OtherKey i) \<Rightarrow> (h, print i @ '': '' @ key_String cs h (ExactKey, Some p))
      | (h, ValueKey kind s) \<Rightarrow> (h, key_String cs h (kind, s))
      | (h, PointerKey a kind s) \<Rightarrow> (h, key_String cs h (kind, s)))"

definition State :: "sub_heap \<Rightarrow> sub_ptr \<Rightarrow> sub_state" where
  "State h p = sub_state (obj h p)"

definition SetState :: "sub_heap \<Rightarrow> sub_ptr \<Rightarrow> sub_state \<Rightarrow> sub_heap \<times> go_error option" where
  "SetState h p st =
     (if st = sub_state (obj h p) then (h, Some ErrInStateAlready)
      else if st > UnsubscribedState then (h, Some ErrInvalidState)
      else (set_obj p ((obj h p)\<lparr>sub_state := st\<rparr>) h, None))"

definition SetKey :: "sub_heap \<Rightarrow> sub_ptr \<Rightarrow> sub_key option \<Rightarrow> sub_heap" where
  "SetKey h p k = set_obj p ((obj h p)\<lparr>sub_Key := k\<rparr>) h"

definition Clone :: "sub_heap \<Rightarrow> sub_ptr \<Rightarrow> sub_heap \<times> sub_ptr" where
  "Clone h p =
     (let s = obj h p
      in new_obj \<lparr>sub_Enabled = sub_Enabled s, sub_Key = None, sub_Channel = sub_Channel s,
           sub_Pairs = sub_Pairs s, sub_Asset = sub_Asset s, sub_Params = sub_Params s,
           sub_Interval = sub_Interval s, sub_Levels = sub_Levels s,
           sub_Authenticated = sub_Authenticated s, QualifiedChannel = QualifiedChannel s,
           sub_state = sub_state s\<rparr> h)"

definition SetPairs :: "sub_heap \<Rightarrow> sub_ptr \<Rightarrow> pair list \<Rightarrow> sub_heap" where
  "SetPairs h p pairs = set_obj p ((obj h p)\<lparr>sub_Pairs := pairs\<rparr>) h"

definition AddPairs :: "sub_heap \<Rightarrow> sub_ptr \<Rightarrow> pair list \<Rightarrow> sub_heap" where
  "AddPairs h p pairs =
     (if pairs = [] then h
      else set_obj p ((obj h p)\<lparr>sub_Pairs := pairs_Add (sub_Pairs (obj h p)) pairs\<rparr>) h)"

section \<open>The store\<close>

text \<open>A \<open>*Store\<close> is nil (\<open>None\<close>) or has a map, which is nil (\<open>Some None\<close>) or not.\<close>

type_synonym sub_map = "(sub_key \<times> sub_ptr) list"

definition NewStore :: "sub_map option" where
  "NewStore = Some []"

fun store_match :: "sub_heap \<Rightarrow> key_kind \<times> sub_ptr option \<Rightarrow> sub_map \<Rightarrow> sub_ptr option option" where
  "store_match h key [] = Some None"
| "store_match h key ((eachKey, sub) # m) =
     (case matchable eachKey of
        None \<Rightarrow> store_match h key m
      | Some e \<Rightarrow>
          (case key_Match h key (Some e) of
             None \<Rightarrow> None
           | Some True \<Rightarrow> Some (Some sub)
           | Some False \<Rightarrow> store_match h key m))"

text \<open>What \<open>get\<close> is called with: a subscription by value, a pointer to one, or a key.\<close>

datatype get_key = SubscriptionValue subscription | SubscriptionPointer sub_ptr | PlainKey sub_key

definition resolve_key :: "sub_heap \<Rightarrow> get_key \<Rightarrow> sub_heap \<times> sub_key" where
  "resolve_key h key =
     (case key of
        SubscriptionValue v \<Rightarrow> (case new_obj v h of (h, p) \<Rightarrow> EnsureKeyed h p)
      | SubscriptionPointer p \<Rightarrow> EnsureKeyed h p
      | PlainKey k \<Rightarrow> (h, k))"

definition store_get :: "sub_heap \<Rightarrow> sub_map \<Rightarrow> get_key \<Rightarrow> (sub_heap \<times> sub_ptr option) option" where
  "store_get h m key =
     (case resolve_key h key of
        (h, k) \<Rightarrow>
          (case matchable k of
             Some v \<Rightarrow> map_option (Pair h) (store_match h v m)
           | None \<Rightarrow> Some (h, map_of m k)))"

definition store_add ::
    "sub_heap \<Rightarrow> sub_map \<Rightarrow> sub_ptr \<Rightarrow> (sub_heap \<times> sub_map \<times> go_error option) option" where
  "store_add h m sub =
     (case EnsureKeyed h sub of
        (h, key) \<Rightarrow>
          (case store_get h m (PlainKey key) of
             None \<Rightarrow> None
           | Some (h, Some found) \<Rightarrow> Some (h, m, Some (Errorf ''%w: %s'' [ErrDuplicate]))
           | Some (h, None) \<Rightarrow> Some (h, AList.update key sub m, None)))"

definition unsafeAdd :: "sub_heap \<Rightarrow> sub_map \<Rightarrow> sub_ptr \<Rightarrow> sub_heap \<times> sub_map" where
  "unsafeAdd h m sub = (case EnsureKeyed h sub of (h, key) \<Rightarrow> (h, AList.update key sub m))"

definition store_Add ::
    "sub_heap \<Rightarrow> sub_map option option \<Rightarrow> sub_ptr option \<Rightarrow>
     (sub_heap \<times> sub_map option option \<times> go_error option) option" where
  "store_Add h so subo =
     (case so of
        None \<Rightarrow> Some (h, so, Some (Errorf ''%w: Add called on nil Store'' [ErrNilPointer]))
      | Some None \<Rightarrow>
          Some (h, so, Some (Errorf ''%w: Add called on an uninitialised Store'' [ErrNilPointer]))
      | Some (Some m) \<Rightarrow>
          (case subo of
             None \<Rightarrow> Some (h, so, Some (Errorf ''%w: Subscription param'' [ErrNilPointer]))
           | Some sub \<Rightarrow>
               map_option (\<lambda>(h, m, err). (h, Some (Some m), err)) (store_add h m sub)))"

fun add_list ::
    "sub_heap \<Rightarrow> sub_map \<Rightarrow> sub_ptr option list \<Rightarrow> (sub_heap \<times> sub_map go_result) option" where
  "add_list h m [] = Some (h, Inr m)"
| "add_list h m (None # l) =
     Some (h, Inl (Errorf ''%w: List parameter contains an nil element'' [ErrNilPointer]))"
| "add_list h m (Some sub # l) =
     (case store_add h m sub of
        None \<Rightarrow> None
      | Some (h, m, Some err) \<Rightarrow> Some (h, Inl err)
      | Some (h, m, None) \<Rightarrow> add_list h m l)"

definition NewStoreFromList ::
    "sub_heap \<Rightarrow> sub_ptr option list \<Rightarrow> (sub_heap \<times> sub_map go_result) option" where
  "NewStoreFromList h l = add_list h [] l"

definition store_Get ::
    "sub_heap \<Rightarrow> sub_map option option \<Rightarrow> get_key option \<Rightarrow> (sub_heap \<times> sub_ptr option) option" where
  "store_Get h so key =
     (case (so, key) of
        (Some (Some m), Some k) \<Rightarrow> store_get h m k
      | _ \<Rightarrow> Some (h, None))"

text \<open>\<open>delete(s.m, found.Key)\<close>: no entry is kept under the nil key.\<close>

definition delete_key :: "sub_key option \<Rightarrow> sub_map \<Rightarrow> sub_map" where
  "delete_key ko m = (case ko of None \<Rightarrow> m | Some k \<Rightarrow> AList.delete k m)"

definition store_Remove ::
    "sub_heap \<Rightarrow> sub_map option option \<Rightarrow> get_key option \<Rightarrow>
     (sub_heap \<times> sub_map option option \<times> go_error option) option" where
  "store_Remove h so key =
     (case so of
        None \<Rightarrow> Some (h, so, Some (Errorf ''%w: Remove called on nil Store'' [ErrNilPointer]))
      | Some None \<Rightarrow>
          Some (h, so, Some (Errorf ''%w: Remove called on an Uninitialised Store'' [ErrNilPointer]))
      | Some (Some m) \<Rightarrow>
          (case key of
             None \<Rightarrow> Some (h, so, Some (Errorf ''%w: key param'' [ErrNilPointer]))
           | Some k \<Rightarrow>
               (case store_get h m k of
                  None \<Rightarrow> None
                | Some (h, Some found) \<Rightarrow>
                    Some (h, Some (Some (delete_key (sub_Key (obj h found)) m)), None)
                | Some (h, None) \<Rightarrow> Some (h, so, Some ErrNotFound))))"

definition store_List :: "sub_map option option \<Rightarrow> sub_ptr list" where
  "store_List so = (case so of Some (Some m) \<Rightarrow> map snd m | _ \<Rightarrow> [])"

definition store_Clear :: "sub_map option option \<Rightarrow> sub_map option option" where
  "store_Clear so = (case so of None \<Rightarrow> None | Some _ \<Rightarrow> Some (Some []))"

definition store_Len :: "sub_map option option \<Rightarrow> nat" where
  "store_Len so = (case so of Some (Some m) \<Rightarrow> length m | _ \<Rightarrow> 0)"

fun diff_loop ::
    "sub_map \<Rightarrow> sub_ptr list \<Rightarrow> sub_heap \<Rightarrow> sub_map \<Rightarrow> sub_ptr list \<Rightarrow>
     (sub_heap \<times> sub_map \<times> sub_ptr list) option" where
  "diff_loop m [] h removedMap added = Some (h, removedMap, added)"
| "diff_loop m (sub # l) h removedMap added =
     (case store_get h m (SubscriptionPointer sub) of
        None \<Rightarrow> None
      | Some (h, Some found) \<Rightarrow>
          diff_loop m l h (delete_key (sub_Key (obj h found)) removedMap) added
      | Some (h, None) \<Rightarrow> diff_loop m l h removedMap (added @ [sub]))"

definition store_Diff ::
    "sub_heap \<Rightarrow> sub_map option option \<Rightarrow> sub_ptr list \<Rightarrow>
     (sub_heap \<times> sub_ptr list \<times> sub_ptr list) option" where
  "store_Diff h so compare =
     (case so of
        Some (Some m) \<Rightarrow>
          map_option (\<lambda>(h, removedMap, added). (h, added, map snd removedMap))
            (diff_loop m compare h m [])
      | _ \<Rightarrow> Some (h, [], []))"

section \<open>Lemmas\<close>

text \<open>Everything of a subscription but its key; matching looks at nothing else.\<close>

definition sub_body :: "subscription \<Rightarrow> subscription" where
  "sub_body s = s\<lparr>sub_Key := None\<rparr>"

lemma sub_body_sel:
  assumes "sub_body s = sub_body t"
  shows "sub_Channel s = sub_Channel t" "sub_Pairs s = sub_Pairs t" "sub_Asset s = sub_Asset t"
    "sub_Interval s = sub_Interval t" "sub_Levels s = sub_Levels t"
  using assms by (cases s, cases t, simp add: sub_body_def)+

lemma same_subscription_body:
  "sub_body k = sub_body k' \<Longrightarrow> sub_body e = sub_body e' \<Longrightarrow>
    same_subscription kind k e = same_subscription kind k' e'"
  by (simp add: same_subscription_def sub_body_sel [of k k'] sub_body_sel [of e e'] split: key_kind.split)

lemma same_subscription_refl: "same_subscription kind s s"
  by (cases kind) (simp_all add: same_subscription_def pairs_Equal_iff)

lemma store_match_body:
  assumes "\<And>q. sub_body (obj h' q) = sub_body (obj h q)"
  shows "store_match h' v m = store_match h v m"
proof -
  have "key_Match h' k e = key_Match h k e" for k e
    unfolding key_Match_def using same_subscription_body [OF assms assms]
    by (auto split: option.split)
  then show ?thesis by (induction h v m rule: store_match.induct) (auto split: option.split bool.split)
qed

text \<open>The effect of the operations on the objects.\<close>

lemma obj_set_obj: "obj (set_obj p s h) q = (if q = p \<and> p < length (sub_objects h) then s else obj h q)"
  by (cases "p < length (sub_objects h)") (auto simp: obj_def set_obj_def nth_list_update list_update_beyond)

lemma length_set_obj [simp]: "length (sub_objects (set_obj p s h)) = length (sub_objects h)"
  by (simp add: set_obj_def)

lemma obj_addresses [simp]: "obj (h\<lparr>key_addresses := n\<rparr>) q = obj h q"
  by (simp add: obj_def)

lemma obj_new_obj:
  "new_obj s h = (h', p) \<Longrightarrow> p = length (sub_objects h) \<and> length (sub_objects h') = Suc p \<and>
    obj h' p = s \<and> (q < length (sub_objects h) \<longrightarrow> obj h' q = obj h q)"
  by (auto simp: new_obj_def obj_def nth_append)

lemma EnsureKeyed_frame:
  assumes "EnsureKeyed h p = (h', k)"
  shows "length (sub_objects h') = length (sub_objects h)"
    and "sub_body (obj h' q) = sub_body (obj h q)"
    and "sub_Key (obj h q) = Some k' \<Longrightarrow> obj h' q = obj h q"
    and "p < length (sub_objects h) \<Longrightarrow> sub_Key (obj h' p) = Some k"
    and "q \<noteq> p \<Longrightarrow> obj h' q = obj h q"
  using assms
  by (auto simp: EnsureKeyed_def Let_def obj_set_obj sub_body_def split: option.split_asm if_split_asm)

text \<open>What \<open>get\<close> finds for a pointer, without the key it may set.\<close>

definition sub_lookup :: "sub_heap \<Rightarrow> sub_map \<Rightarrow> sub_ptr \<Rightarrow> sub_ptr option option" where
  "sub_lookup h m p =
     (case sub_Key (obj h p) of
        None \<Rightarrow> store_match h (ExactKey, Some p) m
      | Some k \<Rightarrow> (case matchable k of Some v \<Rightarrow> store_match h v m | None \<Rightarrow> Some (map_of m k)))"

lemma store_get_pointer:
  "store_get h m (SubscriptionPointer p) = map_option (Pair (fst (EnsureKeyed h p))) (sub_lookup h m p)"
proof -
  obtain h' k where e: "EnsureKeyed h p = (h', k)" by fastforce
  show ?thesis
    using e store_match_body [OF EnsureKeyed_frame(2) [OF e]]
    by (cases "sub_Key (obj h p)")
      (auto simp: store_get_def resolve_key_def sub_lookup_def EnsureKeyed_def Let_def split: option.split)
qed

lemma sub_lookup_EnsureKeyed:
  assumes "EnsureKeyed h q = (h', k)"
  shows "sub_lookup h' m p = sub_lookup h m p"
proof (cases "p = q \<and> sub_Key (obj h q) = None \<and> q < length (sub_objects h)")
  case True
  then show ?thesis
    using assms store_match_body [OF EnsureKeyed_frame(2) [OF assms]]
    by (auto simp: sub_lookup_def EnsureKeyed_def Let_def obj_set_obj)
next
  case False
  then have "sub_Key (obj h' p) = sub_Key (obj h p)"
    using assms EnsureKeyed_frame(5) [OF assms, of p]
    by (cases "p = q") (auto simp: EnsureKeyed_def Let_def obj_set_obj split: option.split_asm)
  then show ?thesis
    using store_match_body [OF EnsureKeyed_frame(2) [OF assms]] by (simp add: sub_lookup_def split: option.split)
qed

text \<open>A store in which every subscription is kept under its own key.\<close>

definition sub_store_ok :: "sub_heap \<Rightarrow> sub_map \<Rightarrow> bool" where
  "sub_store_ok h m \<longleftrightarrow> distinct (map fst m) \<and>
     list_all (\<lambda>(k, p). p < length (sub_objects h) \<and> sub_Key (obj h p) = Some k) m"

lemma sub_store_ok_keep:
  assumes "sub_store_ok h m" and "length (sub_objects h) \<le> length (sub_objects h')"
    and "\<And>q k. q < length (sub_objects h) \<Longrightarrow> sub_Key (obj h q) = Some k \<Longrightarrow> sub_Key (obj h' q) = Some k"
  shows "sub_store_ok h' m"
  using assms by (fastforce simp: sub_store_ok_def list_all_iff)

lemma sub_store_ok_delete:
  assumes "sub_store_ok h m" and "map_of m k = Some p"
  shows "AList.delete k m = filter (\<lambda>(k, q). q \<noteq> p) m"
proof -
  have in_m: "(k, p) \<in> set m" using assms(2) by (rule map_of_SomeD)
  have keyed: "sub_Key (obj h q) = Some k'" if "(k', q) \<in> set m" for k' q
    using assms(1) that by (auto simp: sub_store_ok_def list_all_iff)
  have "(k' \<noteq> k) = (q \<noteq> p)" if "(k', q) \<in> set m" for k' q
    using that in_m keyed [OF that] keyed [OF in_m] assms(1)
    by (auto simp: sub_store_ok_def dest: eq_key_imp_eq_value)
  then show ?thesis unfolding AList.delete_eq by (intro filter_cong) auto
qed

lemma store_match_in: "store_match h v m = Some (Some p) \<Longrightarrow> p \<in> snd ` set m"
  by (induction h v m rule: store_match.induct) (auto split: option.split_asm bool.split_asm)

lemma store_get_frame:
  assumes "store_get h m key = Some (h', r)"
  shows "length (sub_objects h) \<le> length (sub_objects h')"
    and "q < length (sub_objects h) \<Longrightarrow> sub_Key (obj h q) = Some k \<Longrightarrow> sub_Key (obj h' q) = Some k"
    and "r = Some p \<Longrightarrow> p \<in> snd ` set m"
proof -
  obtain k1 where k1: "resolve_key h key = (h', k1)"
    using assms by (auto simp: store_get_def split: prod.split_asm option.split_asm)
  have res: "length (sub_objects h) \<le> length (sub_objects h') \<and>
    (q < length (sub_objects h) \<longrightarrow> sub_Key (obj h q) = Some k \<longrightarrow> sub_Key (obj h' q) = Some k)"
  proof (cases key)
    case (SubscriptionValue v)
    obtain h1 p1 where n: "new_obj v h = (h1, p1)" by fastforce
    then have e: "EnsureKeyed h1 p1 = (h', k1)" using k1 SubscriptionValue by (simp add: resolve_key_def)
    show ?thesis
      using obj_new_obj [OF n, of q] EnsureKeyed_frame(1,5) [OF e] by fastforce
  next
    case (SubscriptionPointer p1)
    then have e: "EnsureKeyed h p1 = (h', k1)" using k1 by (simp add: resolve_key_def)
    show ?thesis using EnsureKeyed_frame(1,3) [OF e] by (metis order_refl)
  qed (use k1 in \<open>simp add: resolve_key_def\<close>)
  then show "length (sub_objects h) \<le> length (sub_objects h')"
    and "q < length (sub_objects h) \<Longrightarrow> sub_Key (obj h q) = Some k \<Longrightarrow> sub_Key (obj h' q) = Some k"
    by auto
  show "r = Some p \<Longrightarrow> p \<in> snd ` set m"
    using assms k1 store_match_in
    by (force simp: store_get_def split: option.split_asm dest: map_of_SomeD)
qed

lemma delete_key_filter: "delete_key k (filter P m) = filter P (delete_key k m)"
  by (auto simp: delete_key_def AList.delete_eq intro: filter_cong split: option.split)

text \<open>Removing what was found deletes its entry and no other.\<close>

lemma found_delete:
  assumes ok: "sub_store_ok h m" and get: "store_get h m key = Some (h', Some found)"
  shows "delete_key (sub_Key (obj h' found)) m = filter (\<lambda>(k, q). q \<noteq> found) m"
proof -
  obtain k where k: "(k, found) \<in> set m" using store_get_frame(3) [OF get refl] by auto
  then have "found < length (sub_objects h)" "sub_Key (obj h found) = Some k"
    and "map_of m k = Some found"
    using ok by (auto simp: sub_store_ok_def list_all_iff)
  then show ?thesis
    using store_get_frame(2) [OF get] sub_store_ok_delete [OF ok] by (simp add: delete_key_def)
qed

lemma store_add_ok:
  assumes ok: "sub_store_ok h m" and sub: "sub < length (sub_objects h)"
  shows "case store_add h m sub of
      None \<Rightarrow> True
    | Some (h', m', err) \<Rightarrow> sub_store_ok h' m' \<and> (if err = None then sub \<in> snd ` set m' else m' = m)"
proof -
  obtain h' k where e: "EnsureKeyed h sub = (h', k)" by fastforce
  have ok': "sub_store_ok h' m"
    using EnsureKeyed_frame(1,3) [OF e] by (intro sub_store_ok_keep [OF ok]) auto
  have len: "sub < length (sub_objects h')" using EnsureKeyed_frame(1) [OF e] sub by simp
  have "sub_store_ok h' (AList.update k sub m)"
    unfolding sub_store_ok_def list_all_iff
  proof (intro conjI ballI)
    show d: "distinct (map fst (AList.update k sub m))"
      using ok' by (simp add: sub_store_ok_def distinct_update)
    fix x assume "x \<in> set (AList.update k sub m)"
    then have "map_of (AList.update k sub m) (fst x) = Some (snd x)" using d by simp
    then have "x = (k, sub) \<or> x \<in> set m"
      by (auto simp: update_conv' prod_eq_iff split: if_split_asm dest: map_of_SomeD)
    then show "case x of (k, p) \<Rightarrow> p < length (sub_objects h') \<and> sub_Key (obj h' p) = Some k"
      using ok' len EnsureKeyed_frame(4) [OF e sub] by (auto simp: sub_store_ok_def list_all_iff)
  qed
  moreover have "sub \<in> snd ` set (AList.update k sub m)"
    by (rule image_eqI [of _ _ "(k, sub)"]) (auto intro: map_of_SomeD simp: update_conv')
  moreover have "\<exists>r. store_get h' m (PlainKey k) = None \<or> store_get h' m (PlainKey k) = Some (h', r)"
    by (auto simp: store_get_def resolve_key_def split: option.split)
  ultimately show ?thesis
    using ok' by (auto simp: store_add_def e split: option.split)
qed

lemma store_Remove_ok:
  assumes ok: "sub_store_ok h m"
  shows "case store_Remove h (Some (Some m)) (Some key) of
    Some (h', Some (Some m'), err) \<Rightarrow> sub_store_ok h' m' | _ \<Rightarrow> True"
proof (cases "store_get h m key")
  case (Some a)
  obtain h' r where a: "a = (h', r)" by fastforce
  have keep: "sub_store_ok h' m"
    using store_get_frame(1,2) [of h m key h' r] Some a by (intro sub_store_ok_keep [OF ok]) auto
  have "sub_store_ok h' (filter P m)" for P
    using keep by (auto simp: sub_store_ok_def list_all_iff distinct_map_filter)
  then show ?thesis
    using keep Some a found_delete [OF ok] by (cases r) (simp_all add: store_Remove_def)
qed (simp add: store_Remove_def)

lemma diff_loop_spec:
  assumes "sub_store_ok h m"
  shows "case diff_loop m l h (filter P m) added of
      None \<Rightarrow> list_ex (\<lambda>p. sub_lookup h m p = None) l
    | Some (h', rem, added') \<Rightarrow>
        added' = added @ filter (\<lambda>p. sub_lookup h m p = Some None) l \<and>
        rem = filter (\<lambda>x. P x \<and> \<not> list_ex (\<lambda>p. sub_lookup h m p = Some (Some (snd x))) l) m"
  using assms
proof (induction l arbitrary: h P added)
  case (Cons p l)
  obtain h1 k where e: "EnsureKeyed h p = (h1, k)" by fastforce
  have get: "store_get h m (SubscriptionPointer p) = map_option (Pair h1) (sub_lookup h m p)"
    by (simp add: store_get_pointer e)
  have ok: "sub_store_ok h1 m"
    using EnsureKeyed_frame(1,3) [OF e] by (intro sub_store_ok_keep [OF Cons.prems]) auto
  have look: "sub_lookup h1 m q = sub_lookup h m q" for q by (rule sub_lookup_EnsureKeyed [OF e])
  consider "sub_lookup h m p = None" | "sub_lookup h m p = Some None"
    | q where "sub_lookup h m p = Some (Some q)" by (cases "sub_lookup h m p") auto
  then show ?case
  proof cases
    case 2
    then show ?thesis
      using Cons.IH [OF ok, where P = P and added = "added @ [p]", unfolded look] by (auto simp: get split: option.splits)
  next
    case (3 q)
    then have "store_get h m (SubscriptionPointer p) = Some (h1, Some q)" by (simp add: get)
    from found_delete [OF Cons.prems this]
    have "delete_key (sub_Key (obj h1 q)) (filter P m) = filter (\<lambda>x. P x \<and> snd x \<noteq> q) m"
      using delete_key_filter [of "sub_Key (obj h1 q)" P m] by (auto simp: split_beta intro: filter_cong)
    then show ?thesis
      using Cons.IH [OF ok, where P = "\<lambda>x. P x \<and> snd x \<noteq> q" and added = added, unfolded look] 3
      by (auto simp: get split: option.splits intro!: filter_cong)
  qed (simp add: get)
qed simp

text \<open>The store of subscriptions of \<open>h0\<close> that had no keys.\<close>

definition unkeyed_store :: "sub_heap \<Rightarrow> sub_heap \<Rightarrow> sub_map \<Rightarrow> bool" where
  "unkeyed_store h0 h m \<longleftrightarrow> sub_store_ok h m \<and>
     length (sub_objects h) = length (sub_objects h0) \<and>
     (\<forall>p. sub_body (obj h p) = sub_body (obj h0 p)) \<and>
     (\<forall>p. p \<notin> snd ` set m \<longrightarrow> obj h p = obj h0 p) \<and>
     list_all (\<lambda>(k, p). matchable k = Some (ExactKey, Some p)) m \<and>
     sorted_wrt (\<lambda>q p. \<not> same_subscription ExactKey (obj h0 p) (obj h0 q)) (map snd m)"

lemma store_match_exact:
  assumes "list_all (\<lambda>(k, p). matchable k = Some (ExactKey, Some p)) m"
  shows "store_match h (ExactKey, Some p) m =
    Some (find (\<lambda>q. same_subscription ExactKey (obj h p) (obj h q)) (map snd m))"
  using assms by (induction m) (auto simp: key_Match_def split: bool.split)

lemma store_add_unkeyed:
  assumes inv: "unkeyed_store h0 h m" and p: "p < length (sub_objects h0)"
    and key: "sub_Key (obj h0 p) = None" and new: "p \<notin> snd ` set m"
  shows "\<exists>h1 k. store_add h m p =
    (case find (\<lambda>q. same_subscription ExactKey (obj h0 p) (obj h0 q)) (map snd m) of
       Some q \<Rightarrow> Some (h1, m, Some (Errorf ''%w: %s'' [ErrDuplicate]))
     | None \<Rightarrow> Some (h1, m @ [(k, p)], None)) \<and>
    matchable k = Some (ExactKey, Some p) \<and>
    length (sub_objects h1) = length (sub_objects h0) \<and>
    (\<forall>q. sub_body (obj h1 q) = sub_body (obj h0 q)) \<and>
    (\<forall>q. q \<notin> snd ` set m \<and> q \<noteq> p \<longrightarrow> obj h1 q = obj h0 q)"
proof -
  have body: "\<And>q. sub_body (obj h q) = sub_body (obj h0 q)"
    and keep: "\<And>q. q \<notin> snd ` set m \<Longrightarrow> obj h q = obj h0 q"
    and ms: "list_all (\<lambda>(k, p). matchable k = Some (ExactKey, Some p)) m"
    and len: "length (sub_objects h) = length (sub_objects h0)"
    using inv by (auto simp: unkeyed_store_def)
  obtain h1 k where e: "EnsureKeyed h p = (h1, k)" by fastforce
  have k: "matchable k = Some (ExactKey, Some p)"
    using e key keep [OF new] by (auto simp: EnsureKeyed_def Let_def)
  have "k \<notin> fst ` set m" using ms k new by (force simp: list_all_iff)
  note append = update_append_new [OF this, of p]
  have body1: "sub_body (obj h1 q) = sub_body (obj h0 q)" for q
    using EnsureKeyed_frame(2) [OF e] body by simp
  have "store_match h1 (ExactKey, Some p) m =
      Some (find (\<lambda>q. same_subscription ExactKey (obj h0 p) (obj h0 q)) (map snd m))"
    unfolding store_match_exact [OF ms] same_subscription_body [OF body1 body1] by (rule refl)
  then have "store_add h m p =
      (case find (\<lambda>q. same_subscription ExactKey (obj h0 p) (obj h0 q)) (map snd m) of
         Some q \<Rightarrow> Some (h1, m, Some (Errorf ''%w: %s'' [ErrDuplicate]))
       | None \<Rightarrow> Some (h1, m @ [(k, p)], None))"
    by (simp add: store_add_def e store_get_def resolve_key_def k append split: option.split)
  then show ?thesis
    using k body1 EnsureKeyed_frame(1,5) [OF e] len keep by (intro exI [of _ h1] exI [of _ k]) auto
qed

lemma add_list_spec:
  assumes "unkeyed_store h0 h m" and "distinct l" and "set l \<inter> snd ` set m = {}"
    and "list_all (\<lambda>p. p < length (sub_objects h0) \<and> sub_Key (obj h0 p) = None) l"
  shows "case add_list h m (map Some l) of
      None \<Rightarrow> False
    | Some (h', Inl err) \<Rightarrow> err = Errorf ''%w: %s'' [ErrDuplicate] \<and>
        \<not> sorted_wrt (\<lambda>q p. \<not> same_subscription ExactKey (obj h0 p) (obj h0 q)) (map snd m @ l)
    | Some (h', Inr m') \<Rightarrow> map snd m' = map snd m @ l \<and> unkeyed_store h0 h' m'"
  using assms
proof (induction l arbitrary: h m)
  case (Cons p l)
  have p: "p < length (sub_objects h0)" "sub_Key (obj h0 p) = None" "p \<notin> snd ` set m"
    using Cons.prems(3,4) by auto
  obtain h1 k where add: "store_add h m p =
      (case find (\<lambda>q. same_subscription ExactKey (obj h0 p) (obj h0 q)) (map snd m) of
         Some q \<Rightarrow> Some (h1, m, Some (Errorf ''%w: %s'' [ErrDuplicate]))
       | None \<Rightarrow> Some (h1, m @ [(k, p)], None))"
    and k: "matchable k = Some (ExactKey, Some p)"
    and h1: "length (sub_objects h1) = length (sub_objects h0)"
      "\<forall>q. sub_body (obj h1 q) = sub_body (obj h0 q)"
      "\<forall>q. q \<notin> snd ` set m \<and> q \<noteq> p \<longrightarrow> obj h1 q = obj h0 q"
    using store_add_unkeyed [OF Cons.prems(1) p] by blast
  show ?case
  proof (cases "find (\<lambda>q. same_subscription ExactKey (obj h0 p) (obj h0 q)) (map snd m)")
    case None
    have old: "sub_store_ok h m"
      "list_all (\<lambda>(k, p). matchable k = Some (ExactKey, Some p)) m"
      "sorted_wrt (\<lambda>q p. \<not> same_subscription ExactKey (obj h0 p) (obj h0 q)) (map snd m)"
      "length (sub_objects h) = length (sub_objects h0)"
      using Cons.prems(1) by (simp_all add: unkeyed_store_def)
    have "sub_store_ok h1 (m @ [(k, p)])"
      using store_add_ok [OF old(1), of p] p(1) old(4) by (simp add: add None)
    then have "unkeyed_store h0 h1 (m @ [(k, p)])"
      using h1 k old None by (auto simp: unkeyed_store_def sorted_wrt_append find_None_iff)
    moreover have "set l \<inter> snd ` set (m @ [(k, p)]) = {}" using Cons.prems(2,3) by auto
    moreover have app: "map snd (m @ [(k, p)]) @ l = map snd m @ p # l" by simp
    ultimately show ?thesis
      using Cons.IH [of h1 "m @ [(k, p)]", unfolded app] Cons.prems(2,4) by (simp add: add None)
  next
    case (Some q)
    then have "q \<in> snd ` set m" "same_subscription ExactKey (obj h0 p) (obj h0 q)"
      by (auto simp: find_Some_iff intro!: imageI)
    then show ?thesis by (auto simp: add Some sorted_wrt_append)
  qed
qed simp

section \<open>Properties\<close>

text \<open>Also: a store keeps every subscription under the subscription's own key: adding and
  removing through any kind of key, and every change of a subscription but of its key, preserve this.\<close>

theorem stores_keep_keys:
  assumes "sub_store_ok h m" and "sub < length (sub_objects h)"
  shows "(case store_add h m sub of
       None \<Rightarrow> True
     | Some (h', m', err) \<Rightarrow> sub_store_ok h' m' \<and> (if err = None then sub \<in> snd ` set m' else m' = m)) \<and>
    (case store_Remove h (Some (Some m)) (Some key) of
       Some (h', Some (Some m'), err) \<Rightarrow> sub_store_ok h' m' | _ \<Rightarrow> True) \<and>
    sub_store_ok (fst (SetState h sub st)) m \<and>
    sub_store_ok (AddPairs h sub ps) m \<and> sub_store_ok (SetPairs h sub ps) m \<and>
    sub_store_ok (fst (Clone h sub)) m"
proof (intro conjI)
  show "sub_store_ok (fst (SetState h sub st)) m" "sub_store_ok (AddPairs h sub ps) m"
    "sub_store_ok (SetPairs h sub ps) m"
    using assms(1) by (auto intro!: sub_store_ok_keep [OF assms(1)]
        simp: SetState_def AddPairs_def SetPairs_def obj_set_obj)
  show "sub_store_ok (fst (Clone h sub)) m"
    by (rule sub_store_ok_keep [OF assms(1)])
      (simp_all add: Clone_def new_obj_def Let_def obj_def nth_append)
qed (use store_add_ok [OF assms] store_Remove_ok [OF assms(1)] in \<open>simp_all\<close>)

definition demo_sub :: "string \<Rightarrow> pair list \<Rightarrow> subscription" where
  "demo_sub ch ps = \<lparr>sub_Enabled = True, sub_Key = None, sub_Channel = ch, sub_Pairs = ps,
     sub_Asset = Spot, sub_Params = None, sub_Interval = 0, sub_Levels = 0,
     sub_Authenticated = False, QualifiedChannel = ''q'', sub_state = 0\<rparr>"

definition demo_pair :: "nat \<Rightarrow> nat \<Rightarrow> pair" where
  "demo_pair i j = NewPair \<lparr>Item = Some i, upperCase = True\<rparr> \<lparr>Item = Some j, upperCase = True\<rparr>"

text \<open>Two tickers and an order book, the first with a key of its own.\<close>

definition demo_heap :: sub_heap where
  "demo_heap = \<lparr>sub_objects =
     [(demo_sub ''ticker'' [demo_pair 0 1])\<lparr>sub_Key := Some (OtherKey 7)\<rparr>,
      demo_sub ''ticker'' [demo_pair 0 2], demo_sub ''orderbook'' [demo_pair 0 1]],
     key_addresses = 0\<rparr>"

theorem stores_keep_keys_witness:
  "case store_add demo_heap [(OtherKey 7, 0)] 1 of None \<Rightarrow> False
   | Some (h', m', err) \<Rightarrow>
       sub_store_ok h' m' \<and> m' = [(OtherKey 7, 0), (PointerKey 0 ExactKey (Some 1), 1)]"
proof -
  have "sub_store_ok demo_heap [(OtherKey 7, 0)]" "1 < length (sub_objects demo_heap)" by code_simp+
  note ok = stores_keep_keys [OF this, THEN conjunct1]
  have "map_option (\<lambda>(h', m', err). m') (store_add demo_heap [(OtherKey 7, 0)] 1) =
      Some [(OtherKey 7, 0), (PointerKey 0 ExactKey (Some 1), 1)]" by code_simp
  then show ?thesis using ok by (auto split: option.split_asm)
qed

text \<open>Also: in such a store, removing a key deletes exactly the subscription that the key finds,
  or reports that there is none.\<close>

theorem removed_subscription:
  assumes "sub_store_ok h m"
  shows "case store_get h m key of
      None \<Rightarrow> store_Remove h (Some (Some m)) (Some key) = None
    | Some (h', None) \<Rightarrow>
        store_Remove h (Some (Some m)) (Some key) = Some (h', Some (Some m), Some ErrNotFound)
    | Some (h', Some p) \<Rightarrow>
        p \<in> snd ` set m \<and>
        store_Remove h (Some (Some m)) (Some key) =
          Some (h', Some (Some (filter (\<lambda>(k, q). q \<noteq> p) m)), None)"
  using found_delete [OF assms] store_get_frame(3)
  by (auto simp: store_Remove_def split: option.split)

theorem removed_subscription_witness:
  "store_Remove demo_heap (Some (Some [(OtherKey 7, 0)])) (Some (SubscriptionPointer 0)) =
     Some (demo_heap, Some (Some []), None)"
proof -
  have ok: "sub_store_ok demo_heap [(OtherKey 7, 0)]" by code_simp
  have "store_get demo_heap [(OtherKey 7, 0)] (SubscriptionPointer 0) = Some (demo_heap, Some 0)"
    by code_simp
  then show ?thesis using removed_subscription [OF ok, of "SubscriptionPointer 0"] by simp
qed

text \<open>Also: when a stored subscription is given another key with \<open>SetKey\<close>, to remove the key it is
  stored under reports success and removes nothing.\<close>

theorem stale_key:
  assumes "sub_store_ok h m" and "(OtherKey i, p) \<in> set m" and "k \<notin> fst ` set m"
  shows "store_Remove (SetKey h p (Some k)) (Some (Some m)) (Some (PlainKey (OtherKey i))) =
    Some (SetKey h p (Some k), Some (Some m), None)"
proof -
  have "p < length (sub_objects h)" "map_of m (OtherKey i) = Some p"
    using assms(1,2) by (auto simp: sub_store_ok_def list_all_iff)
  moreover have "AList.delete k m = m"
    using assms(3) by (force simp: AList.delete_eq filter_id_conv)
  ultimately show ?thesis
    by (simp add: store_Remove_def store_get_def resolve_key_def SetKey_def obj_set_obj delete_key_def)
qed

theorem stale_key_witness:
  "store_Remove (SetKey demo_heap 0 (Some (OtherKey 8))) (Some (Some [(OtherKey 7, 0)]))
     (Some (PlainKey (OtherKey 7))) =
   Some (SetKey demo_heap 0 (Some (OtherKey 8)), Some (Some [(OtherKey 7, 0)]), None)"
  by (rule stale_key) code_simp+

text \<open>Also: the difference of a store and a list: added are the subscriptions of the list that the
  store does not find, removed those of the store that no subscription of the list finds; every
  search is as in the store before.\<close>

theorem store_difference:
  assumes "sub_store_ok h m"
  shows "case store_Diff h (Some (Some m)) l of
      None \<Rightarrow> list_ex (\<lambda>p. store_get h m (SubscriptionPointer p) = None) l
    | Some (h', added, removed) \<Rightarrow>
        added = filter (\<lambda>p. map_option snd (store_get h m (SubscriptionPointer p)) = Some None) l \<and>
        removed = filter (\<lambda>q. \<not> list_ex (\<lambda>p. map_option snd (store_get h m (SubscriptionPointer p)) =
            Some (Some q)) l) (map snd m)"
proof -
  have look: "map_option snd (store_get h m (SubscriptionPointer p)) = sub_lookup h m p"
    "store_get h m (SubscriptionPointer p) = None \<longleftrightarrow> sub_lookup h m p = None" for p
    by (simp_all add: store_get_pointer option.map_comp comp_def option.map_ident)
  have "filter (\<lambda>x. True) m = m" by simp
  from diff_loop_spec [OF assms, where l = l and P = "\<lambda>x. True" and added = "[]", unfolded this] show ?thesis
    unfolding look
    by (auto simp: store_Diff_def filter_map comp_def split_beta split: option.split_asm)
qed

theorem store_difference_witness:
  "map_option snd (store_Diff demo_heap (Some (Some [(OtherKey 7, 0)])) [1, 0]) = Some ([1], [])"
proof -
  have ok: "sub_store_ok demo_heap [(OtherKey 7, 0)]" by code_simp
  have look: "map_option snd (store_get demo_heap [(OtherKey 7, 0)] (SubscriptionPointer 1)) = Some None"
    "map_option snd (store_get demo_heap [(OtherKey 7, 0)] (SubscriptionPointer 0)) = Some (Some 0)"
    by code_simp+
  show ?thesis
    using store_difference [OF ok, of "[1, 0]"] look by (auto split: option.split_asm)
qed

text \<open>C31: a store made from a list of subscriptions without keys holds exactly the list, in which no
  subscription matches an earlier one, or there is a duplicate and the error says so.\<close>

theorem no_duplicates:
  assumes "distinct l" and "list_all (\<lambda>p. p < length (sub_objects h) \<and> sub_Key (obj h p) = None) l"
  shows "case NewStoreFromList h (map Some l) of
      None \<Rightarrow> False
    | Some (h', Inl err) \<Rightarrow> err = Errorf ''%w: %s'' [ErrDuplicate] \<and>
        \<not> sorted_wrt (\<lambda>q p. \<not> same_subscription ExactKey (obj h p) (obj h q)) l
    | Some (h', Inr m) \<Rightarrow> map snd m = l \<and> sub_store_ok h' m \<and>
        sorted_wrt (\<lambda>q p. \<not> same_subscription ExactKey (obj h p) (obj h q)) l"
proof -
  have "unkeyed_store h h []" by (simp add: unkeyed_store_def sub_store_ok_def)
  from add_list_spec [OF this, of l] assms show ?thesis
    by (auto simp: NewStoreFromList_def unkeyed_store_def split: option.splits sum.splits)
qed

theorem no_duplicates_witness:
  "case NewStoreFromList demo_heap (map Some [1, 2]) of Some (h', Inr m) \<Rightarrow> map snd m = [1, 2] | _ \<Rightarrow> False"
proof -
  have hyps: "distinct [1, 2::nat]"
    "list_all (\<lambda>p. p < length (sub_objects demo_heap) \<and> sub_Key (obj demo_heap p) = None) [1, 2]"
    "sorted_wrt (\<lambda>q p. \<not> same_subscription ExactKey (obj demo_heap p) (obj demo_heap q)) [1, 2]"
    by code_simp+
  show ?thesis
    using no_duplicates [OF hyps(1,2)] hyps(3) by (auto split: option.splits sum.splits)
qed

end
