(* ===== verification/Subscription_Lists.thy ===== *)
theory Subscription_Lists
  imports Subscription Go_Sort "HOL-Library.List_Lexorder" "HOL-Library.Char_ord"
begin

text \<open>
  The operations on lists of subscriptions (\<open>exchanges/subscription/list.go\<close>): grouping, cloning,
  changing the states, selecting, and the enabled pairs of the assets they are about.  An exchange is
  the record of what the code asks of it.  \<open>GroupPairs\<close> collects its result in a store, from whose
  map it comes in some order: here the one in which the groups were met.

  The lemmas show that grouping by channel, asset, levels and interval keeps, for every group, exactly
  the pairs of its subscriptions and the other settings of its first, and leaves the originals alone,
  and what a failed change of states leaves.
\<close>

section \<open>Lists\<close>

text \<open>A list holds no nil pointer here; \<open>slices.Sort\<close> orders strings by their bytes.\<close>

fun list_Strings_loop ::
    "(nat \<Rightarrow> string) \<Rightarrow> store \<Rightarrow> sub_heap \<Rightarrow> sub_ptr list \<Rightarrow> sub_heap \<times> string list" where
  "list_Strings_loop print cs h [] = (h, [])"
| "list_Strings_loop print cs h (p # l) =
     (case sub_String print cs h p of
        (h, s) \<Rightarrow> (case list_Strings_loop print cs h l of (h, ss) \<Rightarrow> (h, s # ss)))"

definition list_Strings ::
    "(nat \<Rightarrow> string) \<Rightarrow> store \<Rightarrow> sub_heap \<Rightarrow> sub_ptr list \<Rightarrow> sub_heap \<times> string list" where
  "list_Strings print cs h l =
     (case list_Strings_loop print cs h l of (h, ss) \<Rightarrow> (h, sort ss))"

fun group_pairs_loop ::
    "sub_heap \<Rightarrow> sub_map \<Rightarrow> sub_ptr list \<Rightarrow> (sub_heap \<times> sub_map) option" where
  "group_pairs_loop h m [] = Some (h, m)"
| "group_pairs_loop h m (sub # l) =
     (case store_match h (IgnoringPairsKey, Some sub) m of
        None \<Rightarrow> None
      | Some None \<Rightarrow>
          (case Clone h sub of
             (h, c) \<Rightarrow> (case unsafeAdd h m c of (h, m) \<Rightarrow> group_pairs_loop h m l))
      | Some (Some found) \<Rightarrow>
          group_pairs_loop (AddPairs h found (sub_Pairs (obj h sub))) m l)"

definition GroupPairs :: "sub_heap \<Rightarrow> sub_ptr list \<Rightarrow> (sub_heap \<times> sub_ptr list) option" where
  "GroupPairs h l =
     map_option (\<lambda>(h, m). (h, store_List (Some (Some m)))) (group_pairs_loop h [] l)"

fun add_to_group ::
    "sub_heap \<Rightarrow> sub_ptr \<Rightarrow> sub_ptr list list \<Rightarrow> sub_ptr list list option" where
  "add_to_group h a [] = None"
| "add_to_group h a (b # n) =
     (if pairs_Equal (sub_Pairs (obj h a)) (sub_Pairs (obj h (b ! 0))) then Some ((b @ [a]) # n)
      else map_option (Cons b) (add_to_group h a n))"

fun group_by_loop :: "sub_heap \<Rightarrow> sub_ptr list \<Rightarrow> sub_ptr list list \<Rightarrow> sub_ptr list list" where
  "group_by_loop h [] n = n"
| "group_by_loop h (a # l) n =
     (case add_to_group h a n of
        Some n \<Rightarrow> group_by_loop h l n
      | None \<Rightarrow> group_by_loop h l (n @ [[a]]))"

definition GroupByPairs :: "sub_heap \<Rightarrow> sub_ptr list \<Rightarrow> sub_ptr list list" where
  "GroupByPairs h l = group_by_loop h l []"

fun list_Clone :: "sub_heap \<Rightarrow> sub_ptr list \<Rightarrow> sub_heap \<times> sub_ptr list" where
  "list_Clone h [] = (h, [])"
| "list_Clone h (s # l) =
     (case Clone h s of (h, c) \<Rightarrow> (case list_Clone h l of (h, n) \<Rightarrow> (h, c # n)))"

definition QualifiedChannels :: "sub_heap \<Rightarrow> sub_ptr list \<Rightarrow> string list" where
  "QualifiedChannels h l = sort (map (\<lambda>p. QualifiedChannel (obj h p)) l)"

fun set_states_loop ::
    "sub_heap \<Rightarrow> sub_ptr list \<Rightarrow> sub_state \<Rightarrow> go_error option \<Rightarrow> sub_heap \<times> go_error option" where
  "set_states_loop h [] st err = (h, err)"
| "set_states_loop h (sub # l) st err =
     (case SetState h sub st of (h, e) \<Rightarrow> set_states_loop h l st (AppendError err e))"

definition SetStates :: "sub_heap \<Rightarrow> sub_ptr list \<Rightarrow> sub_state \<Rightarrow> sub_heap \<times> go_error option" where
  "SetStates h l st = set_states_loop h l st None"

definition list_Enabled :: "sub_heap \<Rightarrow> sub_ptr list \<Rightarrow> sub_ptr list" where
  "list_Enabled h l = filter (\<lambda>s. sub_Enabled (obj h s)) l"

definition list_Private :: "sub_heap \<Rightarrow> sub_ptr list \<Rightarrow> sub_ptr list" where
  "list_Private h l = filter (\<lambda>s. sub_Authenticated (obj h s)) l"

definition list_Public :: "sub_heap \<Rightarrow> sub_ptr list \<Rightarrow> sub_ptr list" where
  "list_Public h l = filter (\<lambda>s. \<not> sub_Authenticated (obj h s)) l"

section \<open>The pairs of the assets\<close>

text \<open>What the lists ask of an exchange, and \<open>common.SortStrings\<close> on pairs.\<close>

record sub_exchange =
  ix_AssetTypes :: "asset_item list"
  ix_EnabledPairs :: "asset_item \<Rightarrow> pair list go_result"
  ix_PairFormat :: "asset_item \<Rightarrow> pair_format go_result"
  ix_WebsocketSupported :: "asset_item \<Rightarrow> bool"

type_synonym asset_pairs = "(asset_item \<times> pair list) list"

definition SortStrings :: "store \<Rightarrow> pair list \<Rightarrow> pair list" where
  "SortStrings cs x = slice_sort (\<lambda>a b. pair_String cs a < pair_String cs b) x"

definition fillAssetPairs ::
    "store \<Rightarrow> asset_pairs \<Rightarrow> asset_item \<Rightarrow> sub_exchange \<Rightarrow> asset_pairs \<times> go_error option" where
  "fillAssetPairs cs ap a e =
     (case ix_EnabledPairs e a of
        Inl err \<Rightarrow> (ap, Some err)
      | Inr p \<Rightarrow>
          (case ix_PairFormat e a of
             Inl err \<Rightarrow> (ap, Some err)
           | Inr f \<Rightarrow> (AList.update a (SortStrings cs (pairs_Format p f)) ap, None)))"

fun fill_all ::
    "store \<Rightarrow> asset_pairs \<Rightarrow> asset_item list \<Rightarrow> sub_exchange \<Rightarrow> asset_pairs go_result" where
  "fill_all cs ap [] e = Inr ap"
| "fill_all cs ap (a # as) e =
     (case fillAssetPairs cs ap a e of
        (ap, Some err) \<Rightarrow> Inl err
      | (ap, None) \<Rightarrow> fill_all cs ap as e)"

fun asset_pairs_loop ::
    "store \<Rightarrow> sub_heap \<Rightarrow> asset_item list \<Rightarrow> sub_exchange \<Rightarrow> sub_ptr list \<Rightarrow> asset_pairs \<Rightarrow>
     asset_pairs go_result" where
  "asset_pairs_loop cs h at e [] ap = Inr ap"
| "asset_pairs_loop cs h at e (s # l) ap =
     (case (if sub_Asset (obj h s) = Empty then Inr ap
            else if sub_Asset (obj h s) = All then fill_all cs ap at e
            else if List.member at (sub_Asset (obj h s)) then fill_all cs ap [sub_Asset (obj h s)] e
            else Inr ap) of
        Inl err \<Rightarrow> Inl err
      | Inr ap \<Rightarrow> asset_pairs_loop cs h at e l ap)"

definition assetPairs ::
    "store \<Rightarrow> sub_heap \<Rightarrow> sub_ptr list \<Rightarrow> sub_exchange \<Rightarrow> asset_pairs go_result" where
  "assetPairs cs h l e =
     asset_pairs_loop cs h (filter (ix_WebsocketSupported e) (ix_AssetTypes e)) e l []"

section \<open>Lemmas\<close>

text \<open>What two subscriptions of a group have in common.\<close>

definition group_of :: "sub_heap \<Rightarrow> sub_ptr \<Rightarrow> string \<times> asset_item \<times> int \<times> int" where
  "group_of h p = (sub_Channel (obj h p), sub_Asset (obj h p), sub_Levels (obj h p), sub_Interval (obj h p))"

definition pair_keys :: "sub_heap \<Rightarrow> sub_ptr \<Rightarrow> pair_key set" where
  "pair_keys h p = pairKey ` set (sub_Pairs (obj h p))"

lemma store_match_group:
  assumes "list_all (\<lambda>(k, c). \<exists>kind. matchable k = Some (kind, Some c)) m"
  shows "store_match h (IgnoringPairsKey, Some sub) m =
    Some (find (\<lambda>c. group_of h c = group_of h sub) (map snd m))"
  using assms
  by (induction m) (auto simp: key_Match_def same_subscription_def group_of_def split: bool.split)

text \<open>What a subscription has besides its pairs and its key, and the subscription of a list that comes
  first in a group.\<close>

definition settings :: "sub_heap \<Rightarrow> sub_ptr \<Rightarrow> subscription" where
  "settings h p = (sub_body (obj h p))\<lparr>sub_Pairs := []\<rparr>"

definition first_of :: "sub_heap \<Rightarrow> sub_ptr list \<Rightarrow> string \<times> asset_item \<times> int \<times> int \<Rightarrow> sub_ptr option" where
  "first_of h l g = find (\<lambda>p. group_of h p = g) l"

lemma first_of_append:
  "first_of h (l @ [p]) g =
     (case first_of h l g of Some q \<Rightarrow> Some q | None \<Rightarrow> if group_of h p = g then Some p else None)"
  unfolding first_of_def by (induction l) auto

text \<open>The store of the groups met so far: the clones behind the originals, each under a key of its own
  address, one for each group, with the pairs of the group and the settings of its first subscription.\<close>

definition groups_inv :: "sub_heap \<Rightarrow> sub_ptr list \<Rightarrow> sub_heap \<Rightarrow> sub_map \<Rightarrow> bool" where
  "groups_inv h0 l h m \<longleftrightarrow>
     take (length (sub_objects h0)) (sub_objects h) = sub_objects h0 \<and>
     list_all (\<lambda>(k, c). length (sub_objects h0) \<le> c \<and> c < length (sub_objects h) \<and>
       (\<exists>a. k = PointerKey a ExactKey (Some c) \<and> a < key_addresses h)) m \<and>
     distinct (map (group_of h) (map snd m)) \<and>
     group_of h ` snd ` set m = group_of h0 ` set l \<and>
     (\<forall>c\<in>snd ` set m. pair_keys h c = (\<Union>p\<in>{p\<in>set l. group_of h0 p = group_of h c}. pair_keys h0 p)) \<and>
     (\<forall>c\<in>snd ` set m. map_option (settings h0) (first_of h0 l (group_of h c)) = Some (settings h c))"

lemma obj_take:
  "take (length (sub_objects h0)) (sub_objects h) = sub_objects h0 \<Longrightarrow>
    p < length (sub_objects h0) \<Longrightarrow> obj h p = obj h0 p"
  by (metis nth_take obj_def)

lemma AddPairs_frame:
  "length (sub_objects (AddPairs h c ps)) = length (sub_objects h)"
  "key_addresses (AddPairs h c ps) = key_addresses h"
  "group_of (AddPairs h c ps) q = group_of h q"
  "c < length (sub_objects h) \<Longrightarrow>
    pair_keys (AddPairs h c ps) q = pair_keys h q \<union> (if q = c then pairKey ` set ps else {})"
  "settings (AddPairs h c ps) q = settings h q"
  by (auto simp: AddPairs_def set_obj_def [of c _ h, THEN arg_cong, of key_addresses] group_of_def
      settings_def sub_body_def obj_set_obj pair_keys_def pairs_Add_keys)

lemma clone_unsafeAdd:
  assumes "Clone h p = (h1, c)" and "unsafeAdd h1 m c = (h2, m2)"
  shows "c = length (sub_objects h)"
    and "length (sub_objects h2) = Suc c" and "key_addresses h2 = Suc (key_addresses h)"
    and "q < c \<Longrightarrow> obj h2 q = obj h q" and "sub_body (obj h2 c) = sub_body (obj h p)"
    and "m2 = AList.update (PointerKey (key_addresses h) ExactKey (Some c)) c m"
  using assms
  by (auto simp: Clone_def new_obj_def Let_def unsafeAdd_def EnsureKeyed_def obj_def nth_append
      set_obj_def sub_body_def)

lemma groups_inv_found:
  assumes inv: "groups_inv h0 l h m" and p: "p < length (sub_objects h0)"
    and c: "c \<in> snd ` set m" and same: "group_of h c = group_of h p"
  shows "groups_inv h0 (l @ [p]) (AddPairs h c (sub_Pairs (obj h p))) m"
proof -
  let ?h = "AddPairs h c (sub_Pairs (obj h p))"
  have pre: "take (length (sub_objects h0)) (sub_objects h) = sub_objects h0"
    and range: "length (sub_objects h0) \<le> c" "c < length (sub_objects h)"
    using inv c by (auto simp: groups_inv_def list_all_iff)
  have objs: "obj h p = obj h0 p" using obj_take [OF pre p] .
  then have gp: "group_of h p = group_of h0 p" and kp: "pairKey ` set (sub_Pairs (obj h p)) = pair_keys h0 p"
    by (simp_all add: group_of_def pair_keys_def)
  have "take (length (sub_objects h0)) (sub_objects ?h) = sub_objects h0"
    using pre range by (simp add: AddPairs_def set_obj_def)
  moreover have "group_of ?h = group_of h" by (rule ext) (rule AddPairs_frame(3))
  moreover have "pair_keys ?h d = (\<Union>q\<in>{q\<in>set (l @ [p]). group_of h0 q = group_of h d}. pair_keys h0 q)"
    if "d \<in> snd ` set m" for d
  proof -
    have dc: "d = c" if "group_of h d = group_of h c"
      using that \<open>d \<in> snd ` set m\<close> c inv by (auto simp: groups_inv_def distinct_map inj_on_def)
    have d: "pair_keys h d = (\<Union>q\<in>{q\<in>set l. group_of h0 q = group_of h d}. pair_keys h0 q)"
      using inv that unfolding groups_inv_def by blast
    show ?thesis
    proof (cases "group_of h d = group_of h c")
      case True
      then have "{q\<in>set (l @ [p]). group_of h0 q = group_of h d} =
          insert p {q\<in>set l. group_of h0 q = group_of h d}" using same gp by auto
      then show ?thesis using d AddPairs_frame(4) [OF range(2), of _ d] dc [OF True] kp by auto
    next
      case False
      then have "{q\<in>set (l @ [p]). group_of h0 q = group_of h d} =
          {q\<in>set l. group_of h0 q = group_of h d}" using same gp by auto
      then show ?thesis using d AddPairs_frame(4) [OF range(2), of _ d] False by auto
    qed
  qed
  moreover have gin: "group_of h0 p \<in> group_of h ` snd ` set m" using c same gp by (metis imageI)
  moreover have "group_of h ` snd ` set m = group_of h0 ` set (l @ [p])"
    using inv gin by (simp add: groups_inv_def insert_absorb)
  moreover have "list_all (\<lambda>(k, c). length (sub_objects h0) \<le> c \<and> c < length (sub_objects ?h) \<and>
       (\<exists>a. k = PointerKey a ExactKey (Some c) \<and> a < key_addresses ?h)) m"
    "distinct (map (group_of h) (map snd m))"
    using inv by (simp_all only: groups_inv_def AddPairs_frame)
  moreover have "map_option (settings h0) (first_of h0 (l @ [p]) (group_of h d)) = Some (settings ?h d)"
    if "d \<in> snd ` set m" for d
  proof -
    have "map_option (settings h0) (first_of h0 l (group_of h d)) = Some (settings h d)"
      using inv that unfolding groups_inv_def by blast
    then show ?thesis by (auto simp: first_of_append AddPairs_frame)
  qed
  ultimately show ?thesis unfolding groups_inv_def by simp
qed

lemma groups_inv_new:
  assumes inv: "groups_inv h0 l h m" and p: "p < length (sub_objects h0)"
    and no: "group_of h p \<notin> group_of h ` snd ` set m"
    and cl: "Clone h p = (h1, c)" and add: "unsafeAdd h1 m c = (h2, m2)"
  shows "groups_inv h0 (l @ [p]) h2 m2"
proof -
  note step = clone_unsafeAdd [OF cl add]
  have pre: "take (length (sub_objects h0)) (sub_objects h) = sub_objects h0"
    and old: "list_all (\<lambda>(k, d). length (sub_objects h0) \<le> d \<and> d < length (sub_objects h) \<and>
       (\<exists>a. k = PointerKey a ExactKey (Some d) \<and> a < key_addresses h)) m"
    using inv by (auto simp: groups_inv_def)
  have len: "length (sub_objects h0) \<le> length (sub_objects h)" using arg_cong [OF pre, of length] by simp
  have "PointerKey (key_addresses h) ExactKey (Some c) \<notin> fst ` set m"
    using old by (force simp: list_all_iff)
  then have m2: "m2 = m @ [(PointerKey (key_addresses h) ExactKey (Some c), c)]"
    by (simp add: step(6) update_append_new)
  have same: "obj h2 d = obj h d" if "d < length (sub_objects h)" for d
    using that step(1,4) by simp
  have body: "sub_body (obj h2 c) = sub_body (obj h0 p)"
    using step(5) obj_take [OF pre p] by simp
  have new: "group_of h2 c = group_of h0 p" "pair_keys h2 c = pair_keys h0 p"
    by (simp_all add: group_of_def pair_keys_def sub_body_sel [OF body])
  have gm: "group_of h2 d = group_of h d" "pair_keys h2 d = pair_keys h d" if "d \<in> snd ` set m" for d
    using that old same by (auto simp: group_of_def pair_keys_def list_all_iff)
  have gp: "group_of h0 p = group_of h p" using obj_take [OF pre p] by (simp add: group_of_def)
  have groups: "group_of h ` snd ` set m = group_of h0 ` set l" using inv by (simp add: groups_inv_def)
  have "take (length (sub_objects h0)) (sub_objects h2) = sub_objects h0"
  proof (rule nth_equalityI)
    show "length (take (length (sub_objects h0)) (sub_objects h2)) = length (sub_objects h0)"
      using step(1,2) len by simp
    fix q assume "q < length (take (length (sub_objects h0)) (sub_objects h2))"
    then show "take (length (sub_objects h0)) (sub_objects h2) ! q = sub_objects h0 ! q"
      using same [of q] obj_take [OF pre, of q] len by (simp add: obj_def)
  qed
  moreover have mm: "map (group_of h2) (map snd m) = map (group_of h) (map snd m)" using gm by auto
  then have "distinct (map (group_of h2) (map snd m2))"
  proof -
    have "map (group_of h2) (map snd m2) = map (group_of h) (map snd m) @ [group_of h p]"
      using mm new(1) gp by (simp add: m2)
    moreover have "distinct (map (group_of h) (map snd m))" using inv unfolding groups_inv_def by blast
    moreover have "group_of h p \<notin> set (map (group_of h) (map snd m))" using no by (simp add: image_image)
    ultimately show ?thesis by simp
  qed
  moreover have "list_all (\<lambda>(k, c). length (sub_objects h0) \<le> c \<and> c < length (sub_objects h2) \<and>
       (\<exists>a. k = PointerKey a ExactKey (Some c) \<and> a < key_addresses h2)) m2"
    using old len step(1-3) unfolding m2 list_all_iff by fastforce
  moreover have "group_of h2 ` snd ` set m2 = group_of h0 ` set (l @ [p])"
    using groups gm(1) new(1) unfolding m2 by (simp add: image_image cong: image_cong_simp)
  moreover have "pair_keys h2 d = (\<Union>q\<in>{q\<in>set (l @ [p]). group_of h0 q = group_of h2 d}. pair_keys h0 q)"
    if "d \<in> snd ` set m2" for d
  proof (cases "d \<in> snd ` set m")
    case True
    then have "group_of h0 p \<noteq> group_of h d" using no gp by auto
    then have "{q\<in>set (l @ [p]). group_of h0 q = group_of h2 d} = {q\<in>set l. group_of h0 q = group_of h d}"
      using gm(1) [OF True] by auto
    moreover have "pair_keys h d = (\<Union>q\<in>{q\<in>set l. group_of h0 q = group_of h d}. pair_keys h0 q)"
      using inv True unfolding groups_inv_def by blast
    ultimately show ?thesis using gm [OF True] by simp
  next
    case False
    then have d: "d = c" using that by (auto simp: m2)
    have "group_of h0 q \<noteq> group_of h0 p" if "q \<in> set l" for q
      using no groups gp that by (metis imageI)
    then have "{q\<in>set (l @ [p]). group_of h0 q = group_of h2 d} = {p}" using d new(1) by auto
    then show ?thesis using d new(2) by simp
  qed
  moreover have "map_option (settings h0) (first_of h0 (l @ [p]) (group_of h2 d)) = Some (settings h2 d)"
    if "d \<in> snd ` set m2" for d
  proof (cases "d \<in> snd ` set m")
    case True
    have "map_option (settings h0) (first_of h0 l (group_of h d)) = Some (settings h d)"
      using inv True unfolding groups_inv_def by blast
    moreover have "settings h2 d = settings h d"
      using True old same by (auto simp: settings_def list_all_iff)
    ultimately show ?thesis using gm(1) [OF True] by (auto simp: first_of_append)
  next
    case False
    then have d: "d = c" using that by (auto simp: m2)
    have "first_of h0 l (group_of h0 p) = None"
      using no groups gp by (force simp: first_of_def find_None_iff)
    then show ?thesis using d new(1) body by (simp add: first_of_append settings_def)
  qed
  ultimately show ?thesis unfolding groups_inv_def by blast
qed

lemma group_pairs_loop_inv:
  assumes "groups_inv h0 l h m" and "list_all (\<lambda>p. p < length (sub_objects h0)) l'"
  shows "\<exists>h' m'. group_pairs_loop h m l' = Some (h', m') \<and> groups_inv h0 (l @ l') h' m'"
  using assms
proof (induction l' arbitrary: l h m)
  case Nil
  then show ?case by simp
next
  case (Cons p l')
  have p: "p < length (sub_objects h0)" and rest: "list_all (\<lambda>p. p < length (sub_objects h0)) l'"
    using Cons.prems(2) by simp_all
  have keys: "list_all (\<lambda>(k, c). \<exists>kind. matchable k = Some (kind, Some c)) m"
    using Cons.prems(1) by (fastforce simp: groups_inv_def list_all_iff)
  note found = store_match_group [OF keys, of h p]
  show ?case
  proof (cases "find (\<lambda>c. group_of h c = group_of h p) (map snd m)")
    case None
    obtain h1 c where c: "Clone h p = (h1, c)" by fastforce
    obtain h2 m2 where a: "unsafeAdd h1 m c = (h2, m2)" by fastforce
    have "group_of h p \<notin> group_of h ` snd ` set m" using None by (force simp: find_None_iff)
    from Cons.IH [OF groups_inv_new [OF Cons.prems(1) p this c a] rest] show ?thesis
      using None found c a by simp
  next
    case (Some c)
    then have "c \<in> snd ` set m" "group_of h c = group_of h p" by (auto simp: find_Some_iff intro!: imageI)
    from Cons.IH [OF groups_inv_found [OF Cons.prems(1) p this] rest] show ?thesis
      using Some found by simp
  qed
qed

section \<open>Properties\<close>

text \<open>C38: \<open>GroupPairs\<close> does not panic, leaves the original subscriptions as they are and returns
  exactly one subscription for every group of the list, a group being the subscriptions of the same
  channel, asset, levels and interval, whatever else they differ in; its pairs are, as pairs of
  currencies, those of all subscriptions of the group, and everything else of it but the key, such as
  whether it is enabled and authenticated and its parameters, is that of the first of the group.\<close>

theorem grouped_pairs:
  assumes "list_all (\<lambda>p. p < length (sub_objects h)) l"
  shows "case GroupPairs h l of
      None \<Rightarrow> False
    | Some (h', n) \<Rightarrow>
        take (length (sub_objects h)) (sub_objects h') = sub_objects h \<and>
        distinct (map (group_of h') n) \<and> group_of h' ` set n = group_of h ` set l \<and>
        list_all (\<lambda>c. pair_keys h' c = \<Union> (pair_keys h ` {p \<in> set l. group_of h p = group_of h' c})) n \<and>
        list_all (\<lambda>c. map_option (settings h) (first_of h l (group_of h' c)) = Some (settings h' c)) n"
proof -
  have "groups_inv h [] h []" by (simp add: groups_inv_def)
  from group_pairs_loop_inv [OF this assms] obtain h' m' where
    loop: "group_pairs_loop h [] l = Some (h', m')" and inv: "groups_inv h l h' m'" by auto
  have "set (map snd m') = snd ` set m'" by simp
  then show ?thesis
    using inv unfolding groups_inv_def by (simp add: GroupPairs_def loop store_List_def list_all_iff)
qed

theorem grouped_pairs_witness:
  "case GroupPairs demo_heap [0, 1, 2] of None \<Rightarrow> False
   | Some (h', n) \<Rightarrow> n = [3, 4] \<and> distinct (map (group_of h') n) \<and>
       sub_Pairs (obj h' 3) = [demo_pair 0 1, demo_pair 0 2]"
proof -
  have "list_all (\<lambda>p. p < length (sub_objects demo_heap)) [0, 1, 2]" by code_simp
  note ok = grouped_pairs [OF this]
  have "map_option (\<lambda>(h', n). (n, sub_Pairs (obj h' 3))) (GroupPairs demo_heap [0, 1, 2]) =
      Some ([3, 4], [demo_pair 0 1, demo_pair 0 2])" by code_simp
  then show ?thesis using ok by (auto split: option.split_asm)
qed

text \<open>Also: \<open>SetStates\<close> gives a valid state to every subscription of the list that has
  another one, and to no other, whether or not it reports an error: nothing is reverted.  It reports
  one when a subscription was in the state already.\<close>

theorem states_not_reverted:
  assumes "distinct l" and "list_all (\<lambda>p. p < length (sub_objects h)) l" and "st \<le> UnsubscribedState"
  shows "case SetStates h l st of (h', err) \<Rightarrow>
      obj h' p = (if p \<in> set l then (obj h p)\<lparr>sub_state := st\<rparr> else obj h p) \<and>
      (err = None \<longleftrightarrow> list_all (\<lambda>p. sub_state (obj h p) \<noteq> st) l)"
proof -
  have st: "\<not> UnsubscribedState < st" using assms(3) by simp
  have loop: "case set_states_loop h l st e of (h', err) \<Rightarrow>
      obj h' p = (if p \<in> set l then (obj h p)\<lparr>sub_state := st\<rparr> else obj h p) \<and>
      (err = None \<longleftrightarrow> e = None \<and> list_all (\<lambda>p. sub_state (obj h p) \<noteq> st) l)" for e
    using assms(1,2)
  proof (induction l arbitrary: h e)
    case (Cons q l)
    have one: "obj (fst (SetState h q st)) r = (if r = q then (obj h q)\<lparr>sub_state := st\<rparr> else obj h r)"
      "length (sub_objects (fst (SetState h q st))) = length (sub_objects h)"
      "(snd (SetState h q st) = None) = (sub_state (obj h q) \<noteq> st)" for r
      using Cons.prems(2) st by (auto simp: SetState_def obj_set_obj)
    have app: "AppendError e x = None \<longleftrightarrow> e = None \<and> x = None" for x
      by (auto simp: AppendError_def split: option.split go_error.split)
    have frame: "list_all (\<lambda>p. sub_state (obj (fst (SetState h q st)) p) \<noteq> st) l =
        list_all (\<lambda>p. sub_state (obj h p) \<noteq> st) l"
      using Cons.prems(1) by (auto simp: one list_all_iff)
    have "list_all (\<lambda>p. p < length (sub_objects (fst (SetState h q st)))) l"
      using Cons.prems(2) by (simp add: one)
    from Cons.IH [OF _ this, of "AppendError e (snd (SetState h q st))"] Cons.prems(1)
    show ?case
      using one(1) [of p] one(3) by (simp add: split_beta app frame) (auto simp: one)
  qed simp
  show ?thesis using loop [of None] by (simp add: SetStates_def)
qed

theorem states_not_reverted_witness:
  "case SetStates (fst (SetState demo_heap 1 2)) [0, 1] 2 of (h', err) \<Rightarrow>
     sub_state (obj h' 0) = 2 \<and> err \<noteq> None"
proof -
  let ?h = "fst (SetState demo_heap 1 2)"
  have hyps: "distinct [0, 1::nat]" "list_all (\<lambda>p. p < length (sub_objects ?h)) [0, 1]"
    "(2 :: sub_state) \<le> UnsubscribedState" "\<not> list_all (\<lambda>p. sub_state (obj ?h p) \<noteq> 2) [0, 1]"
    by code_simp+
  show ?thesis
    using states_not_reverted [OF hyps(1-3), of 0] hyps(4) by (auto split: prod.splits)
qed

end
