(* ===== verification/Stream_Match.thy ===== *)
theory Stream_Match
  imports Go_Prelude "HOL-Library.AList"
begin

text \<open>
  The matching of websocket requests and responses (\<open>exchanges/stream/stream_match.go\<close> and
  \<open>SendMessageReturnResponses...\<close> of \<open>websocket_connection.go\<close>): a request registers its signature
  with a buffered channel for the responses it expects, the reader of the connection hands every
  incoming message with that signature over, and the request waits for them, for its timer, or for
  the end of its context.

  Requests and the reader run concurrently, so the system is a transition system; the mutex makes
  every method of \<open>Match\<close> one step.  A signature is a number (any comparable value), a channel an index
  into the channels made so far.  A send that finds the buffer full would block the reader with
  the lock held, and a send on a closed channel or a second close panics: these are outcomes of a
  step.  A receive from a closed and empty channel yields nil, \<open>None\<close>.  What is left out of a request
  is the encoding and the sending of its payload, of which only the outcome matters.

  The lemmas show that no step ever blocks or panics, that a request whose signature is not used
  again gets the messages for it in order, and what goes wrong otherwise.
\<close>

section \<open>Channels and signatures\<close>

record 'a channel =
  ch_capacity :: nat
  ch_buffer :: "'a list"
  ch_closed :: bool

record incoming =
  in_expected :: int
  in_c :: nat

record 'a matcher =
  match_m :: "(nat \<times> incoming) list"
  match_channels :: "'a channel list"

definition ErrSignatureNotMatched :: go_error where
  "ErrSignatureNotMatched = Sentinel ''stream.ErrSignatureNotMatched''"
definition errSignatureCollision :: go_error where
  "errSignatureCollision = Sentinel ''stream.errSignatureCollision''"
definition errInvalidBufferSize :: go_error where
  "errInvalidBufferSize = Sentinel ''stream.errInvalidBufferSize''"
definition ErrSignatureTimeout :: go_error where
  "ErrSignatureTimeout = Sentinel ''stream.ErrSignatureTimeout''"

definition NewMatch :: "'a matcher" where
  "NewMatch = \<lparr>match_m = [], match_channels = []\<rparr>"

text \<open>The outcome of a step: it is done, it would block, or it panics.\<close>

datatype 'r outcome = Finished 'r | Blocks | Crashes

definition chan_send :: "nat \<Rightarrow> 'a \<Rightarrow> 'a matcher \<Rightarrow> 'a matcher outcome" where
  "chan_send c d m =
     (let ch = match_channels m ! c
      in if ch_closed ch then Crashes
         else if ch_capacity ch \<le> length (ch_buffer ch) then Blocks
         else Finished (m\<lparr>match_channels :=
                (match_channels m)[c := ch\<lparr>ch_buffer := ch_buffer ch @ [d]\<rparr>]\<rparr>))"

definition chan_close :: "nat \<Rightarrow> 'a matcher \<Rightarrow> 'a matcher outcome" where
  "chan_close c m =
     (if ch_closed (match_channels m ! c) then Crashes
      else Finished (m\<lparr>match_channels :=
             (match_channels m)[c := (match_channels m ! c)\<lparr>ch_closed := True\<rparr>]\<rparr>))"

definition IncomingWithData :: "nat \<Rightarrow> 'a \<Rightarrow> 'a matcher \<Rightarrow> ('a matcher \<times> bool) outcome" where
  "IncomingWithData signature data m =
     (case map_of (match_m m) signature of
        None \<Rightarrow> Finished (m, False)
      | Some ch \<Rightarrow>
          (case chan_send (in_c ch) data m of
             Finished m \<Rightarrow>
               (let ch = ch\<lparr>in_expected := in_expected ch - 1\<rparr>;
                    m = m\<lparr>match_m := AList.update signature ch (match_m m)\<rparr>
                in if in_expected ch = 0
                   then (case chan_close (in_c ch) m of
                           Finished m \<Rightarrow>
                             Finished (m\<lparr>match_m := AList.delete signature (match_m m)\<rparr>, True)
                         | Blocks \<Rightarrow> Blocks | Crashes \<Rightarrow> Crashes)
                   else Finished (m, True))
           | Blocks \<Rightarrow> Blocks | Crashes \<Rightarrow> Crashes))"

definition RequireMatchWithData ::
    "nat \<Rightarrow> 'a \<Rightarrow> 'a matcher \<Rightarrow> ('a matcher \<times> go_error option) outcome" where
  "RequireMatchWithData signature data m =
     (case IncomingWithData signature data m of
        Finished (m, True) \<Rightarrow> Finished (m, None)
      | Finished (m, False) \<Rightarrow>
          Finished (m, Some (Errorf '''%v' %w with data %v'' [ErrSignatureNotMatched]))
      | Blocks \<Rightarrow> Blocks | Crashes \<Rightarrow> Crashes)"

definition match_Set :: "nat \<Rightarrow> int \<Rightarrow> 'a matcher \<Rightarrow> 'a matcher \<times> nat go_result" where
  "match_Set signature bufSize m =
     (if bufSize \<le> 0 then (m, Inl errInvalidBufferSize)
      else if map_of (match_m m) signature \<noteq> None then (m, Inl errSignatureCollision)
      else let c = length (match_channels m)
           in (\<lparr>match_m = AList.update signature \<lparr>in_expected = bufSize, in_c = c\<rparr> (match_m m),
                match_channels = match_channels m @
                  [\<lparr>ch_capacity = nat bufSize, ch_buffer = [], ch_closed = False\<rparr>]\<rparr>, Inr c))"

definition RemoveSignature :: "nat \<Rightarrow> 'a matcher \<Rightarrow> 'a matcher outcome" where
  "RemoveSignature signature m =
     (case map_of (match_m m) signature of
        None \<Rightarrow> Finished m
      | Some ch \<Rightarrow>
          (case chan_close (in_c ch) m of
             Finished m \<Rightarrow> Finished (m\<lparr>match_m := AList.delete signature (match_m m)\<rparr>)
           | Blocks \<Rightarrow> Blocks | Crashes \<Rightarrow> Crashes))"

section \<open>Requests\<close>

text \<open>A request that waits: what it was made with, what it has received, and its result once it has
  one.  Every request has an inspector of its own, which is nil or says of a message whether it is the
  last.\<close>

record 'a request =
  rq_signature :: nat
  rq_channel :: nat
  rq_expected :: nat
  rq_inspector :: "('a option \<Rightarrow> bool) option"
  rq_responses :: "'a option list"
  rq_result :: "'a option list go_result option"

datatype wait_event = Response | Timeout | ContextDone go_error

definition finish :: "'a option list go_result \<Rightarrow> 'a request \<Rightarrow> 'a request" where
  "finish r w = w\<lparr>rq_result := Some r\<rparr>"

text \<open>\<open>SendMessageReturnResponsesWithInspector\<close> up to the wait: register, then send.  \<open>sending\<close> is the
  outcome of the send.\<close>

definition SendMessage ::
    "nat \<Rightarrow> int \<Rightarrow> ('a option \<Rightarrow> bool) option \<Rightarrow> go_error option \<Rightarrow> 'a matcher \<Rightarrow>
     'a matcher \<times> 'a request go_result" where
  "SendMessage signature expected messageInspector sending m =
     (case match_Set signature expected m of
        (m, Inl err) \<Rightarrow> (m, Inl err)
      | (m, Inr ch) \<Rightarrow>
          (case sending of
             Some err \<Rightarrow> (m, Inl err)
           | None \<Rightarrow> (m, Inr \<lparr>rq_signature = signature, rq_channel = ch,
                rq_expected = nat expected, rq_inspector = messageInspector, rq_responses = [],
                rq_result = None\<rparr>)))"

text \<open>One round of the loop of \<open>waitForResponses\<close>; \<open>None\<close> if its event cannot happen.\<close>

definition wait_step ::
    "('a option \<Rightarrow> bool) option \<Rightarrow> wait_event \<Rightarrow> 'a request \<Rightarrow> 'a matcher \<Rightarrow>
     ('a matcher \<times> 'a request) outcome option" where
  "wait_step messageInspector ev w m =
     (if rq_result w \<noteq> None then None
      else
        (case ev of
           Response \<Rightarrow>
             (let ch = match_channels m ! rq_channel w
              in if ch_buffer ch = [] \<and> \<not> ch_closed ch then None
                 else
                   let resp = (case ch_buffer ch of [] \<Rightarrow> None | d # _ \<Rightarrow> Some d);
                       m = m\<lparr>match_channels := (match_channels m)
                             [rq_channel w := ch\<lparr>ch_buffer := tl (ch_buffer ch)\<rparr>]\<rparr>;
                       w = w\<lparr>rq_responses := rq_responses w @ [resp]\<rparr>
                   in if (case messageInspector of None \<Rightarrow> False | Some IsFinal \<Rightarrow> IsFinal resp)
                      then Some (case RemoveSignature (rq_signature w) m of
                             Finished m \<Rightarrow> Finished (m, finish (Inr (rq_responses w)) w)
                           | Blocks \<Rightarrow> Blocks | Crashes \<Rightarrow> Crashes)
                      else if length (rq_responses w) = rq_expected w
                      then Some (Finished (m, finish (Inr (rq_responses w)) w))
                      else Some (Finished (m, w)))
         | Timeout \<Rightarrow>
             Some (case RemoveSignature (rq_signature w) m of
                     Finished m \<Rightarrow>
                       Finished (m, finish (Inl (Errorf ''%s %w %v'' [ErrSignatureTimeout])) w)
                   | Blocks \<Rightarrow> Blocks | Crashes \<Rightarrow> Crashes)
         | ContextDone err \<Rightarrow>
             Some (case RemoveSignature (rq_signature w) m of
                     Finished m \<Rightarrow> Finished (m, finish (Inl err) w)
                   | Blocks \<Rightarrow> Blocks | Crashes \<Rightarrow> Crashes)))"

section \<open>The system\<close>

text \<open>The matcher of a connection with the requests that wait on it.\<close>

record 'a system =
  sy_match :: "'a matcher"
  sy_requests :: "'a request list"

datatype 'a event =
    Request nat int "('a option \<Rightarrow> bool) option" "go_error option"
  | Arrive nat 'a
  | Wait nat wait_event

definition system_step ::
    "'a event \<Rightarrow> 'a system \<Rightarrow> 'a system outcome option" where
  "system_step e s =
     (case e of
        Request sig n messageInspector sending \<Rightarrow>
          Some (Finished (case SendMessage sig n messageInspector sending (sy_match s) of
                  (m, Inl err) \<Rightarrow> s\<lparr>sy_match := m\<rparr>
                | (m, Inr w) \<Rightarrow> s\<lparr>sy_match := m, sy_requests := sy_requests s @ [w]\<rparr>))
      | Arrive sig d \<Rightarrow>
          Some (case IncomingWithData sig d (sy_match s) of
                  Finished (m, found) \<Rightarrow> Finished (s\<lparr>sy_match := m\<rparr>)
                | Blocks \<Rightarrow> Blocks | Crashes \<Rightarrow> Crashes)
      | Wait i ev \<Rightarrow>
          if i < length (sy_requests s)
          then (case wait_step (rq_inspector (sy_requests s ! i)) ev (sy_requests s ! i) (sy_match s) of
                  None \<Rightarrow> None
                | Some (Finished (m, w)) \<Rightarrow>
                    Some (Finished \<lparr>sy_match = m, sy_requests = (sy_requests s)[i := w]\<rparr>)
                | Some Blocks \<Rightarrow> Some Blocks
                | Some Crashes \<Rightarrow> Some Crashes)
          else None)"

definition system_start :: "'a system" where
  "system_start = \<lparr>sy_match = NewMatch, sy_requests = []\<rparr>"

inductive reaches :: "'a event list \<Rightarrow> 'a system \<Rightarrow> bool" where
  reaches_start: "reaches [] system_start"
| reaches_step: "reaches es s \<Longrightarrow> system_step e s = Some (Finished s') \<Longrightarrow>
    reaches (es @ [e]) s'"

section \<open>Safety\<close>

text \<open>An entry has an open channel of its own with room for everything it still expects.\<close>

definition entry_ok :: "'a channel list \<Rightarrow> nat \<times> incoming \<Rightarrow> bool" where
  "entry_ok chs x \<longleftrightarrow> in_c (snd x) < length chs \<and> \<not> ch_closed (chs ! in_c (snd x)) \<and>
     1 \<le> in_expected (snd x) \<and>
     in_expected (snd x) + int (length (ch_buffer (chs ! in_c (snd x)))) \<le>
       int (ch_capacity (chs ! in_c (snd x)))"

definition match_inv :: "'a matcher \<Rightarrow> bool" where
  "match_inv m \<longleftrightarrow> distinct (map fst (match_m m)) \<and> distinct (map (in_c \<circ> snd) (match_m m)) \<and>
     list_all (entry_ok (match_channels m)) (match_m m)"

lemma entry_ok_other:
  "entry_ok chs x \<Longrightarrow> in_c (snd x) \<noteq> c \<Longrightarrow> entry_ok (chs[c := ch]) x"
  by (simp add: entry_ok_def)

lemma match_inv_other:
  assumes "match_inv m" and "(sig, i) \<in> set (match_m m)" and "(sig', i') \<in> set (match_m m)"
    and "sig' \<noteq> sig"
  shows "in_c i' \<noteq> in_c i"
proof
  assume "in_c i' = in_c i"
  moreover have "inj_on (in_c \<circ> snd) (set (match_m m))"
    using assms(1) by (simp add: match_inv_def distinct_map)
  ultimately have "(sig', i') = (sig, i)"
    using assms(2,3) inj_onD [of "in_c \<circ> snd" "set (match_m m)" "(sig', i')" "(sig, i)"] by simp
  then show False using assms(4) by simp
qed

lemma RemoveSignature_eq:
  assumes inv: "match_inv m"
  shows "RemoveSignature sig m =
    (case map_of (match_m m) sig of
       None \<Rightarrow> Finished m
     | Some i \<Rightarrow> Finished \<lparr>match_m = AList.delete sig (match_m m),
         match_channels = (match_channels m)[in_c i := (match_channels m ! in_c i)\<lparr>ch_closed := True\<rparr>]\<rparr>)"
proof (cases "map_of (match_m m) sig")
  case (Some i)
  then have "entry_ok (match_channels m) (sig, i)"
    using inv by (auto simp: match_inv_def list_all_iff dest: map_of_SomeD)
  then show ?thesis using Some by (simp add: RemoveSignature_def chan_close_def entry_ok_def)
qed (simp add: RemoveSignature_def)

text \<open>Deleting an entry, whatever becomes of its channel.\<close>

lemma match_inv_delete:
  assumes inv: "match_inv m" and i: "map_of (match_m m) sig = Some i"
  shows "match_inv \<lparr>match_m = AList.delete sig (match_m m), match_channels = (match_channels m)[in_c i := ch]\<rparr>"
proof -
  have "(sig, i) \<in> set (match_m m)" using i by (rule map_of_SomeD)
  from match_inv_other [OF inv this] have
    "in_c (snd x) \<noteq> in_c i" if "x \<in> set (match_m m)" "fst x \<noteq> sig" for x
    using that by (metis prod.collapse)
  then have "entry_ok ((match_channels m)[in_c i := ch]) x"
    if "x \<in> set (AList.delete sig (match_m m))" for x
    using that inv by (intro entry_ok_other) (auto simp: AList.delete_eq match_inv_def list_all_iff)
  then show ?thesis
    using inv by (auto simp: match_inv_def list_all_iff AList.delete_eq distinct_map_filter)
qed

lemma RemoveSignature_inv:
  assumes inv: "match_inv m"
  shows "\<exists>m'. RemoveSignature sig m = Finished m' \<and> match_inv m' \<and>
    length (match_channels m') = length (match_channels m)"
  using match_inv_delete [OF inv, of sig] inv
  by (auto simp: RemoveSignature_eq [OF inv] split: option.split)

lemma IncomingWithData_eq:
  assumes inv: "match_inv m"
  shows "IncomingWithData sig d m =
    (case map_of (match_m m) sig of
       None \<Rightarrow> Finished (m, False)
     | Some i \<Rightarrow>
         (let ch = (match_channels m ! in_c i)\<lparr>ch_buffer := ch_buffer (match_channels m ! in_c i) @ [d]\<rparr>
          in Finished
            (if in_expected i = 1
             then \<lparr>match_m = AList.delete sig (match_m m),
                   match_channels = (match_channels m)[in_c i := ch\<lparr>ch_closed := True\<rparr>]\<rparr>
             else \<lparr>match_m = AList.update sig (i\<lparr>in_expected := in_expected i - 1\<rparr>) (match_m m),
                   match_channels = (match_channels m)[in_c i := ch]\<rparr>, True)))"
proof (cases "map_of (match_m m) sig")
  case (Some i)
  then have "entry_ok (match_channels m) (sig, i)"
    using inv by (auto simp: match_inv_def list_all_iff dest: map_of_SomeD)
  then show ?thesis
    using Some by (simp add: IncomingWithData_def chan_send_def chan_close_def entry_ok_def Let_def
        delete_update_same)
qed (simp add: IncomingWithData_def)

lemma IncomingWithData_inv:
  assumes inv: "match_inv m"
  shows "\<exists>m' found. IncomingWithData sig d m = Finished (m', found) \<and> match_inv m' \<and>
    length (match_channels m') = length (match_channels m)"
proof (cases "map_of (match_m m) sig")
  case None
  then have "IncomingWithData sig d m = Finished (m, False)" by (simp add: IncomingWithData_eq [OF inv])
  then show ?thesis using inv by blast
next
  case (Some i)
  then have e: "entry_ok (match_channels m) (sig, i)" and mem: "(sig, i) \<in> set (match_m m)"
    using inv by (auto simp: match_inv_def list_all_iff dest: map_of_SomeD)
  let ?ch = "(match_channels m ! in_c i)\<lparr>ch_buffer := ch_buffer (match_channels m ! in_c i) @ [d]\<rparr>"
  let ?i = "i\<lparr>in_expected := in_expected i - 1\<rparr>"
  let ?m = "\<lparr>match_m = AList.update sig ?i (match_m m), match_channels = (match_channels m)[in_c i := ?ch]\<rparr>"
  have "match_inv ?m" if "in_expected i \<noteq> 1"
    unfolding match_inv_def list_all_iff
  proof (intro conjI ballI)
    show "distinct (map fst (match_m ?m))" using inv by (simp add: match_inv_def distinct_update)
    show "distinct (map (in_c \<circ> snd) (match_m ?m))"
      using inv map_update_same [OF Some, of in_c ?i] by (simp add: match_inv_def)
    fix x assume "x \<in> set (match_m ?m)"
    then consider "x = (sig, ?i)" | "x \<in> set (match_m m)" "fst x \<noteq> sig"
      using inv by (auto simp: match_inv_def in_set_update_distinct)
    then show "entry_ok (match_channels ?m) x"
    proof cases
      case 1
      then show ?thesis using e that by (simp add: entry_ok_def)
    next
      case 2
      then have "in_c (snd x) \<noteq> in_c i" using match_inv_other [OF inv mem] by (metis prod.collapse)
      then show ?thesis using 2 inv by (auto intro!: entry_ok_other simp: match_inv_def list_all_iff)
    qed
  qed
  then show ?thesis
    using Some match_inv_delete [OF inv Some]
    by (simp add: IncomingWithData_eq [OF inv] Let_def ex_bool_eq)
qed

lemma match_Set_inv:
  assumes inv: "match_inv m" and set: "match_Set sig n m = (m', r)"
  shows "match_inv m' \<and> length (match_channels m) \<le> length (match_channels m') \<and>
    (case r of Inl e \<Rightarrow> m' = m | Inr c \<Rightarrow> c < length (match_channels m'))"
proof (cases "0 < n \<and> map_of (match_m m) sig = None")
  case True
  then have "sig \<notin> fst ` set (match_m m)" by (simp add: map_of_eq_None_iff)
  moreover have "in_c (snd x) < length (match_channels m)" if "x \<in> set (match_m m)" for x
    using inv that by (auto simp: match_inv_def list_all_iff entry_ok_def)
  ultimately show ?thesis
    using True inv set
    by (fastforce simp: match_Set_def Let_def match_inv_def update_append_new list_all_iff entry_ok_def
        nth_append)
next
  case False
  then show ?thesis using inv set by (auto simp: match_Set_def split: if_split_asm)
qed

text \<open>Taking a message out of a buffer makes room.\<close>

lemma match_inv_take:
  assumes "match_inv m"
  shows "match_inv (m\<lparr>match_channels := (match_channels m)
    [c := (match_channels m ! c)\<lparr>ch_buffer := tl (ch_buffer (match_channels m ! c))\<rparr>]\<rparr>)"
proof -
  have "entry_ok ((match_channels m)
      [c := (match_channels m ! c)\<lparr>ch_buffer := tl (ch_buffer (match_channels m ! c))\<rparr>]) x"
    if "entry_ok (match_channels m) x" for x
    using that by (cases "in_c (snd x) = c") (auto simp: entry_ok_def)
  then show ?thesis using assms by (auto simp: match_inv_def list_all_iff)
qed

definition system_inv :: "'a system \<Rightarrow> bool" where
  "system_inv s \<longleftrightarrow> match_inv (sy_match s) \<and>
     list_all (\<lambda>w. rq_channel w < length (match_channels (sy_match s))) (sy_requests s)"

text \<open>A round of a waiting request, with the matcher in order.\<close>

lemma wait_step_inv:
  assumes inv: "match_inv m"
  shows "case wait_step final ev w m of
      None \<Rightarrow> True
    | Some (Finished (m', w')) \<Rightarrow> match_inv m' \<and> rq_channel w' = rq_channel w \<and>
        length (match_channels m') = length (match_channels m)
    | Some Blocks \<Rightarrow> False
    | Some Crashes \<Rightarrow> False"
proof -
  let ?m = "m\<lparr>match_channels := (match_channels m)[rq_channel w := (match_channels m ! rq_channel w)
    \<lparr>ch_buffer := tl (ch_buffer (match_channels m ! rq_channel w))\<rparr>]\<rparr>"
  have take: "match_inv ?m" by (rule match_inv_take [OF inv])
  obtain m1 where r1: "RemoveSignature (rq_signature w) m = Finished m1" "match_inv m1"
      "length (match_channels m1) = length (match_channels m)"
    using RemoveSignature_inv [OF inv] by blast
  obtain m2 where r2: "RemoveSignature (rq_signature w) ?m = Finished m2" "match_inv m2"
      "length (match_channels m2) = length (match_channels m)"
    using RemoveSignature_inv [OF take, of "rq_signature w"] by auto
  show ?thesis
    using inv take r1 r2 by (cases ev) (simp_all add: wait_step_def Let_def finish_def)
qed

lemma system_step_inv:
  assumes "system_inv s"
  shows "case system_step e s of
      None \<Rightarrow> True | Some (Finished s') \<Rightarrow> system_inv s' | Some Blocks \<Rightarrow> False | Some Crashes \<Rightarrow> False"
proof (cases e)
  case (Request sig n insp sending)
  obtain m' r where set: "match_Set sig n (sy_match s) = (m', r)" by fastforce
  show ?thesis
    using match_Set_inv [OF _ set] assms
    by (cases r) (auto simp: Request system_step_def SendMessage_def set system_inv_def list_all_iff
        split: option.split)
next
  case (Arrive sig d)
  then show ?thesis
    using IncomingWithData_inv [of "sy_match s" sig d] assms
    by (auto simp: system_step_def system_inv_def)
next
  case (Wait i ev)
  have "match_inv (sy_match s)" using assms by (simp add: system_inv_def)
  from wait_step_inv [OF this, where final = "rq_inspector (sy_requests s ! i)" and ev = ev
      and w = "sy_requests s ! i"] show ?thesis
    using assms
    by (auto simp: Wait system_step_def system_inv_def list_all_length nth_list_update
        split: option.split outcome.split)
qed

lemma reaches_inv: "reaches es s \<Longrightarrow> system_inv s"
proof (induction rule: reaches.induct)
  case reaches_start
  show ?case by (simp add: system_start_def NewMatch_def system_inv_def match_inv_def)
next
  case (reaches_step es s e s')
  then show ?case using system_step_inv [of s e] by simp
qed

section \<open>Requests with signatures of their own\<close>

text \<open>The signatures that were requested, and the messages that arrived for one since.\<close>

fun signature_of :: "'a event \<Rightarrow> nat option" where
  "signature_of (Request sig n insp sending) = Some sig"
| "signature_of _ = None"

definition requested :: "'a event list \<Rightarrow> nat list" where
  "requested es = List.map_filter signature_of es"

fun message_for :: "nat \<Rightarrow> 'a event \<Rightarrow> 'a option" where
  "message_for sig (Arrive sig' d) = (if sig' = sig then Some d else None)"
| "message_for sig _ = None"

definition arrivals :: "nat \<Rightarrow> 'a event list \<Rightarrow> 'a list" where
  "arrivals sig es =
     List.map_filter (message_for sig) (tl (dropWhile (\<lambda>e. signature_of e \<noteq> Some sig) es))"

lemma requested_snoc:
  "requested (es @ [e]) = requested es @ (case signature_of e of None \<Rightarrow> [] | Some g \<Rightarrow> [g])"
  by (simp add: requested_def map_filter_def split: option.split)

lemma set_requested: "g \<in> set (requested es) \<longleftrightarrow> (\<exists>e\<in>set es. signature_of e = Some g)"
  by (force simp: requested_def map_filter_def)

lemma arrivals_snoc:
  "arrivals g (es @ [e]) =
    (if g \<in> set (requested es) then arrivals g es @ (case message_for g e of None \<Rightarrow> [] | Some d \<Rightarrow> [d])
     else [])"
proof (cases "g \<in> set (requested es)")
  case True
  then have "dropWhile (\<lambda>e. signature_of e \<noteq> Some g) es \<noteq> []" by (auto simp: set_requested)
  then show ?thesis using True
    by (simp add: arrivals_def dropWhile_append map_filter_def set_requested split: option.split) fastforce
next
  case False
  then show ?thesis
    by (auto simp: arrivals_def dropWhile_append set_requested map_filter_def)
qed

lemma map_Some_prefix: "r @ x = map Some ys \<Longrightarrow> r = map Some (take (length r) ys)"
  by (metis append_eq_conv_conj take_map)

text \<open>What a request knows of the messages \<open>a\<close> that arrived for it.\<close>

definition request_ok ::
    "'a list \<Rightarrow> 'a matcher \<Rightarrow> 'a request \<Rightarrow> bool" where
  "request_ok a m w \<longleftrightarrow>
     rq_channel w < length (match_channels m) \<and>
     (case rq_result w of
        None \<Rightarrow>
          length (rq_responses w) < rq_expected w \<and>
          rq_responses w @ map Some (ch_buffer (match_channels m ! rq_channel w)) =
            map Some (take (rq_expected w) a) \<and>
          (case map_of (match_m m) (rq_signature w) of
             None \<Rightarrow> rq_expected w \<le> length a \<and> ch_closed (match_channels m ! rq_channel w)
           | Some i \<Rightarrow> in_c i = rq_channel w \<and>
               in_expected i = int (rq_expected w) - int (length a))
      | Some (Inl err) \<Rightarrow> True
      | Some (Inr r) \<Rightarrow>
          r \<noteq> [] \<and> length r \<le> rq_expected w \<and> length r \<le> length a \<and>
          r = map Some (take (length r) a) \<and>
          (length r = rq_expected w \<or>
           (case rq_inspector w of None \<Rightarrow> False | Some IsFinal \<Rightarrow> IsFinal (last r))))"

lemma request_ok_frame:
  assumes "request_ok a m w"
    and "map_of (match_m m') (rq_signature w) = map_of (match_m m) (rq_signature w)"
    and "match_channels m' ! rq_channel w = match_channels m ! rq_channel w"
    and "length (match_channels m) \<le> length (match_channels m')"
  shows "request_ok a m' w"
  using assms(1) order_less_le_trans [OF _ assms(4)] unfolding request_ok_def assms(2,3) by blast

text \<open>The system while no signature is used twice: requests and entries do not share channels.\<close>

definition unique_inv :: "'a event list \<Rightarrow> 'a system \<Rightarrow> bool" where
  "unique_inv es s \<longleftrightarrow> system_inv s \<and>
     fst ` set (match_m (sy_match s)) \<subseteq> set (requested es) \<and>
     distinct (map rq_signature (sy_requests s)) \<and> distinct (map rq_channel (sy_requests s)) \<and>
     (\<forall>w\<in>set (sy_requests s). rq_signature w \<in> set (requested es) \<and>
        request_ok (arrivals (rq_signature w) es) (sy_match s) w) \<and>
     (\<forall>w\<in>set (sy_requests s). \<forall>(g, i)\<in>set (match_m (sy_match s)).
        g \<noteq> rq_signature w \<longrightarrow> in_c i \<noteq> rq_channel w)"

lemma unique_inv_apart:
  "unique_inv es s \<Longrightarrow> w \<in> set (sy_requests s) \<Longrightarrow> (g, i) \<in> set (match_m (sy_match s)) \<Longrightarrow>
    g \<noteq> rq_signature w \<Longrightarrow> in_c i \<noteq> rq_channel w"
  unfolding unique_inv_def by blast

lemma unique_inv_keys:
  "unique_inv es s \<Longrightarrow> fst ` set (match_m (sy_match s)) \<subseteq> set (requested es)"
  by (simp add: unique_inv_def)

lemmas unique_inv_channels = unique_inv_apart [OF _ _ map_of_SomeD]

text \<open>An arriving message.\<close>

lemma unique_inv_Arrive:
  assumes inv: "unique_inv es s"
    and st: "IncomingWithData g d (sy_match s) = Finished (m', found)"
  shows "unique_inv (es @ [Arrive g d]) (s\<lparr>sy_match := m'\<rparr>)"
proof -
  let ?m = "sy_match s"
  have mi: "match_inv ?m" using inv by (simp add: unique_inv_def system_inv_def)
  have len: "length (match_channels m') = length (match_channels ?m)" and mi': "match_inv m'"
    using IncomingWithData_inv [OF mi, of g d] st by auto
  have req: "requested (es @ [Arrive g d]) = requested es" by (simp add: requested_snoc)
  have m': "m' = (case map_of (match_m ?m) g of
       None \<Rightarrow> ?m
     | Some i \<Rightarrow>
         (let ch = (match_channels ?m ! in_c i)\<lparr>ch_buffer := ch_buffer (match_channels ?m ! in_c i) @ [d]\<rparr>
          in if in_expected i = 1
             then \<lparr>match_m = AList.delete g (match_m ?m),
                   match_channels = (match_channels ?m)[in_c i := ch\<lparr>ch_closed := True\<rparr>]\<rparr>
             else \<lparr>match_m = AList.update g (i\<lparr>in_expected := in_expected i - 1\<rparr>) (match_m ?m),
                   match_channels = (match_channels ?m)[in_c i := ch]\<rparr>))"
    using st by (simp add: IncomingWithData_eq [OF mi] Let_def split: option.split_asm)
  have keys: "fst ` set (match_m m') \<subseteq> fst ` set (match_m ?m)"
    and chans: "\<And>h j. (h, j) \<in> set (match_m m') \<Longrightarrow> \<exists>k. (h, k) \<in> set (match_m ?m) \<and> in_c j = in_c k"
  proof -
    have dist: "distinct (map fst (match_m ?m))" using mi by (simp add: match_inv_def)
    show "\<exists>k. (h, k) \<in> set (match_m ?m) \<and> in_c j = in_c k" if "(h, j) \<in> set (match_m m')" for h j
      using that unfolding m'
      by (auto simp: Let_def AList.delete_eq in_set_update_distinct [OF dist]
          split: option.split_asm if_split_asm dest: map_of_SomeD)
    then show "fst ` set (match_m m') \<subseteq> fst ` set (match_m ?m)" by force
  qed
  have ok: "request_ok (arrivals (rq_signature w) (es @ [Arrive g d])) m' w"
    if w: "w \<in> set (sy_requests s)" for w
  proof -
    have old: "request_ok (arrivals (rq_signature w) es) ?m w"
      and rq: "rq_signature w \<in> set (requested es)"
      using inv w by (auto simp: unique_inv_def)
    show ?thesis
    proof (cases "rq_signature w = g")
      case False
      have "map_of (match_m m') (rq_signature w) = map_of (match_m ?m) (rq_signature w)"
        using False unfolding m'
        by (auto simp: Let_def update_conv' delete_conv' split: option.split)
      moreover have "match_channels m' ! rq_channel w = match_channels ?m ! rq_channel w"
        using unique_inv_channels [OF inv w, of g] False unfolding m'
        by (auto simp: Let_def split: option.split)
      ultimately show ?thesis
        using request_ok_frame [OF old] False rq len by (simp add: arrivals_snoc)
    next
      case True
      then have arr: "arrivals (rq_signature w) (es @ [Arrive g d]) = arrivals (rq_signature w) es @ [d]"
        using rq by (simp add: arrivals_snoc)
      show ?thesis
      proof (cases "map_of (match_m ?m) g")
        case None
        then show ?thesis
          using old True unfolding arr m'
          by (auto simp: request_ok_def split: option.split_asm sum.split_asm)
      next
        case (Some i)
        have e: "entry_ok (match_channels ?m) (g, i)"
          using mi map_of_SomeD [OF Some] by (auto simp: match_inv_def list_all_iff)
        show ?thesis
          using old True Some e unfolding arr m'
          by (auto simp: request_ok_def Let_def entry_ok_def update_conv' delete_conv'
              split: option.split_asm sum.split_asm option.split sum.split)
      qed
    qed
  qed
  have apart: "in_c j \<noteq> rq_channel w"
    if ws: "w \<in> set (sy_requests s)" and hj: "(h, j) \<in> set (match_m m')" and ne: "h \<noteq> rq_signature w"
    for w h j
  proof -
    obtain k where "(h, k) \<in> set (match_m ?m)" "in_c j = in_c k" using chans [OF hj] by blast
    then show ?thesis using unique_inv_apart [OF inv ws _ ne] by simp
  qed
  have "system_inv (s\<lparr>sy_match := m'\<rparr>)"
    using mi' len inv unfolding unique_inv_def by (simp add: system_inv_def)
  moreover have "fst ` set (match_m m') \<subseteq> set (requested es)"
    by (rule subset_trans [OF keys unique_inv_keys [OF inv]])
  moreover have "distinct (map rq_signature (sy_requests s))" "distinct (map rq_channel (sy_requests s))"
    "\<forall>w\<in>set (sy_requests s). rq_signature w \<in> set (requested es)"
    using inv by (simp_all add: unique_inv_def)
  moreover have "\<forall>w\<in>set (sy_requests s). \<forall>(h, j)\<in>set (match_m m').
      h \<noteq> rq_signature w \<longrightarrow> in_c j \<noteq> rq_channel w" using apart by blast
  ultimately show ?thesis
    using ok unfolding unique_inv_def req by simp
qed

text \<open>A round of a request changes its own entry and channel only.\<close>

lemma unique_inv_own:
  assumes inv: "unique_inv es s" and i: "i < length (sy_requests s)"
    and w: "w = sy_requests s ! i"
    and same: "rq_signature w' = rq_signature w" "rq_channel w' = rq_channel w"
    and mi: "match_inv m'" and len: "length (match_channels m') = length (match_channels (sy_match s))"
    and sub: "set (match_m m') \<subseteq> set (match_m (sy_match s))"
    and others: "\<And>h. h \<noteq> rq_signature w \<Longrightarrow> map_of (match_m m') h = map_of (match_m (sy_match s)) h"
    and chans: "\<And>c. c \<noteq> rq_channel w \<Longrightarrow> match_channels m' ! c = match_channels (sy_match s) ! c"
    and ok: "request_ok (arrivals (rq_signature w) es) m' w'"
  shows "unique_inv (es @ [Wait i ev]) \<lparr>sy_match = m', sy_requests = (sy_requests s)[i := w']\<rparr>"
proof -
  let ?rs = "sy_requests s"
  have wi: "w \<in> set ?rs" using i w by simp
  have req: "requested (es @ [Wait i ev]) = requested es" by (simp add: requested_snoc)
  have sigs: "map rq_signature (?rs[i := w']) = map rq_signature ?rs"
    "map rq_channel (?rs[i := w']) = map rq_channel ?rs"
    using same i w by (simp_all add: map_update list_update_same_conv)
  have dist: "distinct (map rq_signature ?rs)" "distinct (map rq_channel ?rs)"
    using inv by (simp_all add: unique_inv_def)
  have arr: "arrivals (rq_signature v) (es @ [Wait i ev]) = arrivals (rq_signature v) es"
    if "v \<in> set ?rs" for v
    using inv that unfolding unique_inv_def by (auto simp: arrivals_snoc)
  have apart: "in_c j \<noteq> rq_channel v"
    if v: "v \<in> set ?rs" and hj: "(h, j) \<in> set (match_m m')" and ne: "h \<noteq> rq_signature v" for v h j
    using inv v subsetD [OF sub hj] ne unfolding unique_inv_def by blast
  have each: "rq_signature v \<in> set (requested es) \<and>
      request_ok (arrivals (rq_signature v) (es @ [Wait i ev])) m' v \<and>
      (\<forall>(h, j)\<in>set (match_m m'). h \<noteq> rq_signature v \<longrightarrow> in_c j \<noteq> rq_channel v)"
    if v: "v \<in> set (?rs[i := w'])" for v
  proof -
    obtain k where k: "k < length ?rs" "v = ?rs[i := w'] ! k" using v by (auto simp: in_set_conv_nth)
    show ?thesis
    proof (cases "k = i")
      case True
      then have "v = w'" using k by simp
      then show ?thesis using inv wi ok arr [OF wi] apart [OF wi] same unfolding unique_inv_def by auto
    next
      case False
      then have kv: "v = ?rs ! k" using k by simp
      then have vs: "v \<in> set ?rs" using k(1) by simp
      have ne: "rq_signature v \<noteq> rq_signature w" "rq_channel v \<noteq> rq_channel w"
        using dist False k(1) i kv w by (auto simp: distinct_conv_nth)
      have "request_ok (arrivals (rq_signature v) es) (sy_match s) v"
        and rq: "rq_signature v \<in> set (requested es)"
        using inv vs by (auto simp: unique_inv_def)
      then show ?thesis
        using request_ok_frame [where m' = m' and m = "sy_match s"] others [OF ne(1)] chans [OF ne(2)] len
          arr [OF vs] apart [OF vs] by auto
    qed
  qed
  have "system_inv \<lparr>sy_match = m', sy_requests = ?rs[i := w']\<rparr>"
    using each mi by (auto simp: system_inv_def list_all_iff request_ok_def)
  moreover have "fst ` set (match_m m') \<subseteq> set (requested es)"
    by (rule subset_trans [OF image_mono [OF sub] unique_inv_keys [OF inv]])
  ultimately show ?thesis
    using each dist unfolding unique_inv_def req sigs by (simp add: sigs)
qed

lemma unique_inv_Wait:
  assumes inv: "unique_inv es s" and i: "i < length (sy_requests s)"
    and st: "wait_step (rq_inspector (sy_requests s ! i)) ev (sy_requests s ! i) (sy_match s) = Some (Finished (m', w'))"
  shows "unique_inv (es @ [Wait i ev]) \<lparr>sy_match = m', sy_requests = (sy_requests s)[i := w']\<rparr>"
proof -
  define w where "w = sy_requests s ! i"
  let ?m = "sy_match s" and ?c = "rq_channel w" and ?a = "arrivals (rq_signature w) es"
  have ws: "w \<in> set (sy_requests s)" using i by (simp add: w_def)
  have mi: "match_inv ?m" using inv by (simp add: unique_inv_def system_inv_def)
  have none: "rq_result w = None" using st by (auto simp: wait_step_def w_def split: if_split_asm)
  have ok: "request_ok ?a ?m w" using inv ws by (auto simp: unique_inv_def)
  have own: "in_c j = ?c" if "map_of (match_m ?m) (rq_signature w) = Some j" for j
    using ok none that by (simp add: request_ok_def)
  have c: "?c < length (match_channels ?m)" using ok by (simp add: request_ok_def)
  let ?ch = "match_channels ?m ! ?c"
  let ?t = "?m\<lparr>match_channels := (match_channels ?m)[?c := ?ch\<lparr>ch_buffer := tl (ch_buffer ?ch)\<rparr>]\<rparr>"
  have ti: "match_inv ?t" by (rule match_inv_take [OF mi])
  have removed: "match_inv n' \<and> length (match_channels n') = length (match_channels ?m) \<and>
      set (match_m n') \<subseteq> set (match_m ?m) \<and>
      (\<forall>h. h \<noteq> rq_signature w \<longrightarrow> map_of (match_m n') h = map_of (match_m ?m) h) \<and>
      (\<forall>c. c \<noteq> ?c \<longrightarrow> match_channels n' ! c = match_channels ?m ! c)"
    if r: "RemoveSignature (rq_signature w) n = Finished n'" and n: "n = ?m \<or> n = ?t" for n n'
  proof -
    have ni: "match_inv n" "match_m n = match_m ?m" "length (match_channels n) = length (match_channels ?m)"
      "\<forall>c. c \<noteq> ?c \<longrightarrow> match_channels n ! c = match_channels ?m ! c"
      using n mi ti by auto
    have "set (AList.delete (rq_signature w) (match_m ?m)) \<subseteq> set (match_m ?m)"
      by (auto simp: AList.delete_eq)
    then show ?thesis
      using r RemoveSignature_inv [OF ni(1), of "rq_signature w"] ni own
      by (auto simp: RemoveSignature_eq [OF ni(1)] delete_conv' split: option.split_asm)
  qed
  note own_step = unique_inv_own [OF inv i w_def]
  have gone: "unique_inv (es @ [Wait i ev])
      \<lparr>sy_match = n', sy_requests = (sy_requests s)[i := v]\<rparr>"
    if r: "RemoveSignature (rq_signature w) n = Finished n'" and n: "n = ?m \<or> n = ?t"
      and v: "rq_signature v = rq_signature w" "rq_channel v = ?c"
      and res: "\<And>m. length (match_channels m) = length (match_channels ?m) \<Longrightarrow> request_ok ?a m v"
    for n n' v
    using removed [OF r n] by (intro own_step) (use v res in auto)
  show ?thesis
  proof (cases ev)
    case Response
    have ready: "ch_buffer ?ch \<noteq> [] \<or> ch_closed ?ch"
      using st none by (auto simp: wait_step_def Response w_def Let_def split: if_split_asm)
    have "ch_buffer ?ch \<noteq> []"
    proof
      assume empty: "ch_buffer ?ch = []"
      have "map_of (match_m ?m) (rq_signature w) = None"
      proof (cases "map_of (match_m ?m) (rq_signature w)")
        case (Some j)
        then have "entry_ok (match_channels ?m) (rq_signature w, j)"
          using mi map_of_SomeD [OF Some] by (auto simp: match_inv_def list_all_iff)
        then show ?thesis using own [OF Some] ready empty by (simp add: entry_ok_def)
      qed
      then have "rq_responses w = map Some (take (rq_expected w) ?a)" "rq_expected w \<le> length ?a"
        using ok none empty by (simp_all add: request_ok_def)
      then have "length (rq_responses w) = rq_expected w" by simp
      then show False using ok none by (simp add: request_ok_def)
    qed
    then obtain d bs where buf: "ch_buffer ?ch = d # bs" by (cases "ch_buffer ?ch") auto
    have split: "rq_responses w @ Some d # map Some bs = map Some (take (rq_expected w) ?a)"
      using ok none buf by (simp add: request_ok_def)
    define r where "r = rq_responses w @ [Some d]"
    have lenr: "length r \<le> rq_expected w" "length r \<le> length ?a"
      using arg_cong [OF split, of length] by (simp_all add: r_def)
    have "r @ map Some bs = map Some (take (rq_expected w) ?a)" using split by (simp add: r_def)
    from map_Some_prefix [OF this] lenr have pre: "r = map Some (take (length r) ?a)"
      by (simp add: min_absorb1)
    have lst: "last r = Some d" by (simp add: r_def)
    have ok_r: "r \<noteq> [] \<and> length r \<le> rq_expected w \<and> length r \<le> length ?a \<and>
        r = map Some (take (length r) ?a) \<and> (length r = rq_expected w \<or>
          (case rq_inspector w of None \<Rightarrow> False | Some IsFinal \<Rightarrow> IsFinal (last r)))"
      if "(case rq_inspector w of None \<Rightarrow> False | Some IsFinal \<Rightarrow> IsFinal (Some d)) \<or> length r = rq_expected w"
    proof (intro conjI)
      show "r \<noteq> []" by (simp add: r_def)
      show "length r = rq_expected w \<or> (case rq_inspector w of None \<Rightarrow> False | Some IsFinal \<Rightarrow> IsFinal (last r))"
        using that by (cases "rq_inspector w") (auto simp: lst)
    qed (rule lenr pre)+
    show ?thesis
    proof (cases "case rq_inspector w of None \<Rightarrow> False | Some IsFinal \<Rightarrow> IsFinal (Some d)")
      case True
      obtain n' where n': "RemoveSignature (rq_signature w) ?t = Finished n'"
        using RemoveSignature_inv [OF ti] by blast
      have "m' = n'" "w' = w\<lparr>rq_responses := r, rq_result := Some (Inr r)\<rparr>"
        using st none True buf n' by (simp_all add: wait_step_def Response Let_def w_def [symmetric] finish_def r_def)
      moreover have "request_ok ?a m (w\<lparr>rq_responses := r, rq_result := Some (Inr r)\<rparr>)"
        if "length (match_channels m) = length (match_channels ?m)" for m
        using that c ok_r True by (simp add: request_ok_def)
      ultimately show ?thesis using gone [OF n'] by simp
    next
      case False
      have w': "m' = ?t" "w' = (if length r = rq_expected w
          then w\<lparr>rq_responses := r, rq_result := Some (Inr r)\<rparr> else w\<lparr>rq_responses := r\<rparr>)"
        using st none False buf
        by (auto simp: wait_step_def Response Let_def w_def [symmetric] finish_def r_def split: if_split_asm)
      have "request_ok ?a ?t w'"
      proof (cases "length r = rq_expected w")
        case True
        moreover have "0 < length r" by (simp add: r_def)
        ultimately show ?thesis using c ok_r lenr by (auto simp: w' request_ok_def)
      next
        case False
        then have "length r < rq_expected w" using lenr by simp
        moreover have "r @ map Some bs = map Some (take (rq_expected w) ?a)" using split by (simp add: r_def)
        ultimately show ?thesis
          using ok none False c unfolding w' request_ok_def
          by (cases "map_of (match_m ?m) (rq_signature w)") (simp_all add: buf)
      qed
      then show ?thesis
        by (intro own_step) (auto simp: w' ti)
    qed
  next
    case Timeout
    obtain n' where n': "RemoveSignature (rq_signature w) ?m = Finished n'"
      using RemoveSignature_inv [OF mi] by blast
    show ?thesis
      using gone [OF n', of w'] st none c
      by (auto simp: wait_step_def Timeout w_def [symmetric] n' finish_def request_ok_def)
  next
    case (ContextDone err)
    obtain n' where n': "RemoveSignature (rq_signature w) ?m = Finished n'"
      using RemoveSignature_inv [OF mi] by blast
    show ?thesis
      using gone [OF n', of w'] st none c
      by (auto simp: wait_step_def ContextDone w_def [symmetric] n' finish_def request_ok_def)
  qed
qed

lemma arrivals_Request:
  assumes "g \<notin> set (requested es)"
  shows "arrivals h (es @ [Request g n insp sending]) = arrivals h es"
proof -
  have "h \<notin> set (requested es) \<Longrightarrow> arrivals h es = []"
    by (auto simp: arrivals_def set_requested map_filter_def dropWhile_eq_Nil_conv [THEN iffD2])
  then show ?thesis by (auto simp: arrivals_snoc)
qed

lemma unique_inv_Request:
  assumes inv: "unique_inv es s" and fresh: "g \<notin> set (requested es)"
    and st: "system_step (Request g n insp sending) s = Some (Finished s')"
  shows "unique_inv (es @ [Request g n insp sending]) s'"
proof -
  let ?m = "sy_match s" and ?rs = "sy_requests s"
  have req: "requested (es @ [Request g n insp sending]) = requested es @ [g]" by (simp add: requested_snoc)
  note arr = arrivals_Request [OF fresh]
  have si: "system_inv s'" using system_step_inv [of s "Request g n insp sending"] inv st
    by (simp add: unique_inv_def)
  have new: "g \<notin> fst ` set (match_m ?m)" using unique_inv_keys [OF inv] fresh by auto
  then have none: "map_of (match_m ?m) g = None" by (simp add: map_of_eq_None_iff)
  have old: "rq_signature w \<in> set (requested es)"
    "request_ok (arrivals (rq_signature w) es) ?m w" "rq_signature w \<noteq> g"
    if "w \<in> set ?rs" for w
    using inv that fresh by (auto simp: unique_inv_def)
  have dist: "distinct (map rq_signature ?rs)" "distinct (map rq_channel ?rs)"
    using inv by (simp_all add: unique_inv_def)
  have below: "rq_channel w < length (match_channels ?m)" if "w \<in> set ?rs" for w
    using old(2) [OF that] by (simp add: request_ok_def)
  show ?thesis
  proof (cases "n \<le> 0")
    case True
    then have "s' = s" using st by (simp add: system_step_def SendMessage_def match_Set_def)
    then show ?thesis
      using si unique_inv_keys [OF inv] dist old arr unique_inv_apart [OF inv]
      unfolding unique_inv_def req by auto
  next
    case False
    define m' where "m' = \<lparr>match_m = match_m ?m @ [(g, \<lparr>in_expected = n, in_c = length (match_channels ?m)\<rparr>)],
      match_channels = match_channels ?m @
        [\<lparr>ch_capacity = nat n, ch_buffer = [], ch_closed = False\<rparr>]\<rparr>"
    define w' where "w' = \<lparr>rq_signature = g, rq_channel = length (match_channels ?m),
      rq_expected = nat n, rq_inspector = insp, rq_responses = ([] :: 'a option list), rq_result = None\<rparr>"
    have s': "s' = (case sending of Some err \<Rightarrow> s\<lparr>sy_match := m'\<rparr>
        | None \<Rightarrow> s\<lparr>sy_match := m', sy_requests := ?rs @ [w']\<rparr>)"
      using st False none new
      by (auto simp: system_step_def SendMessage_def match_Set_def Let_def update_append_new m'_def w'_def
          split: option.split)
    have keep: "request_ok (arrivals (rq_signature w) es) m' w" if "w \<in> set ?rs" for w
      using old(2,3) [OF that] below [OF that]
      by (intro request_ok_frame [OF old(2) [OF that]])
        (auto simp: m'_def map_of_append nth_append map_add_def split: option.split)
    have apart: "in_c j \<noteq> rq_channel w"
      if "w \<in> set ?rs" "(h, j) \<in> set (match_m m')" "h \<noteq> rq_signature w" for w h j
      using that below unique_inv_apart [OF inv] by (fastforce simp: m'_def)
    have keys: "fst ` set (match_m m') \<subseteq> set (requested es @ [g])"
      using unique_inv_keys [OF inv] by (auto simp: m'_def)
    have "arrivals g es = []"
      using fresh by (auto simp: arrivals_def set_requested map_filter_def dropWhile_eq_Nil_conv [THEN iffD2])
    then have ok': "request_ok (arrivals g es) m' w'"
      using False none by (simp add: request_ok_def m'_def w'_def map_of_append map_add_def)
    have apart': "in_c j \<noteq> rq_channel w'" if "(h, j) \<in> set (match_m m')" "h \<noteq> g" for h j
      using that inv by (fastforce simp: m'_def w'_def unique_inv_def system_inv_def match_inv_def
          list_all_iff entry_ok_def)
    have w'sel: "rq_signature w' = g" "rq_channel w' = length (match_channels ?m)" by (simp_all add: w'_def)
    have sets: "g \<notin> rq_signature ` set ?rs" "length (match_channels ?m) \<notin> rq_channel ` set ?rs"
      using old(3) less_irrefl below by (blast, metis imageE less_irrefl)
    show ?thesis
    proof (cases sending)
      case None
      then show ?thesis
        using si keys dist old keep apart ok' apart' sets unfolding unique_inv_def req arr s'
        by (auto simp: w'sel)
    next
      case (Some err)
      then show ?thesis
        using si keys dist old keep apart unfolding unique_inv_def req arr s' by auto
    qed
  qed
qed

lemma reaches_unique:
  "reaches es s \<Longrightarrow> distinct (requested es) \<Longrightarrow> unique_inv es s"
proof (induction rule: reaches.induct)
  case reaches_start
  show ?case by (simp add: system_start_def NewMatch_def unique_inv_def system_inv_def match_inv_def)
next
  case (reaches_step es s e s')
  have inv: "unique_inv es s"
    using reaches_step.IH reaches_step.prems by (simp add: requested_snoc)
  show ?case
  proof (cases e)
    case (Request g n insp sending)
    then show ?thesis
      using unique_inv_Request [OF inv, of g n insp sending s'] reaches_step.hyps(2) reaches_step.prems
      by (simp add: requested_snoc)
  next
    case (Arrive g d)
    then show ?thesis
      using unique_inv_Arrive [OF inv, of g d] reaches_step.hyps(2)
      by (auto simp: system_step_def split: outcome.split_asm)
  next
    case (Wait i ev)
    then show ?thesis
      using unique_inv_Wait [OF inv, of i ev] reaches_step.hyps(2)
      by (auto simp: system_step_def split: if_split_asm option.split_asm outcome.split_asm)
  qed
qed

section \<open>Properties\<close>

text \<open>Executing a list of events.\<close>

fun system_run ::
    "'a event list \<Rightarrow> 'a system \<Rightarrow> 'a system option" where
  "system_run [] s = Some s"
| "system_run (e # es) s =
     (case system_step e s of Some (Finished s') \<Rightarrow> system_run es s' | _ \<Rightarrow> None)"

lemma reaches_run: "reaches es s \<Longrightarrow> system_run es' s = Some s' \<Longrightarrow> reaches (es @ es') s'"
proof (induction es' arbitrary: es s)
  case (Cons e es')
  then obtain t where "system_step e s = Some (Finished t)" "system_run es' t = Some s'"
    by (auto split: option.split_asm outcome.split_asm)
  with Cons.IH [OF reaches_step [OF Cons.prems(1)]] show ?case by simp
qed simp

lemmas run_reaches = reaches_run [OF reaches_start, unfolded append_Nil]

text \<open>C37: whatever requests are made, time out or are cancelled, with whatever signatures, no
  message that arrives blocks the reader, which holds the lock, and nothing sends on a closed channel
  or closes one twice; every registered signature still has room for all the messages it expects.\<close>

theorem reader_never_blocks:
  assumes "reaches es s"
  shows "(case system_step e s of
       None \<Rightarrow> True | Some (Finished s') \<Rightarrow> True | Some Blocks \<Rightarrow> False | Some Crashes \<Rightarrow> False) \<and>
    list_all (\<lambda>(g, i). (let ch = match_channels (sy_match s) ! in_c i
        in \<not> ch_closed ch \<and> 0 < in_expected i \<and>
           in_expected i + int (length (ch_buffer ch)) \<le> int (ch_capacity ch))) (match_m (sy_match s))"
proof -
  have inv: "system_inv s" by (rule reaches_inv [OF assms])
  have "case system_step e s of
      None \<Rightarrow> True | Some (Finished s') \<Rightarrow> True | Some Blocks \<Rightarrow> False | Some Crashes \<Rightarrow> False"
    using system_step_inv [OF inv, of e] by (auto split: option.split outcome.split)
  then show ?thesis
    using inv by (auto simp: system_inv_def match_inv_def list_all_iff entry_ok_def Let_def)
qed

definition demo_events :: "nat event list" where
  "demo_events = [Request 7 2 None None, Arrive 7 10, Arrive 8 11, Wait 0 Response, Arrive 7 12]"

theorem reader_never_blocks_witness:
  "case system_run demo_events system_start of
     None \<Rightarrow> False | Some s \<Rightarrow> system_step (Arrive 7 13) s \<noteq> Some Blocks"
proof -
  obtain s where s: "system_run demo_events (system_start :: nat system) = Some s"
  proof -
    have "system_run demo_events (system_start :: nat system) \<noteq> None" by code_simp
    then show thesis using that by auto
  qed
  show ?thesis
    using reader_never_blocks [OF run_reaches [OF s], of "Arrive 7 13"] s by (auto split: option.split_asm)
qed

text \<open>C32: while no signature is requested twice, a request that returns responses returns the
  first messages that arrived for its signature since it was made, in order and none of them nil: as many
  as it expected, or up to one that its own inspector takes for the last.\<close>

theorem own_responses:
  assumes "reaches es s" and "distinct (requested es)" and "w \<in> set (sy_requests s)"
    and "rq_result w = Some (Inr r)"
  shows "r = map Some (take (length r) (arrivals (rq_signature w) es)) \<and>
    length r \<le> length (arrivals (rq_signature w) es) \<and> 0 < length r \<and> length r \<le> rq_expected w \<and>
    (length r = rq_expected w \<or> (case rq_inspector w of None \<Rightarrow> False | Some IsFinal \<Rightarrow> IsFinal (last r)))"
proof -
  have "request_ok (arrivals (rq_signature w) es) (sy_match s) w"
    using reaches_unique [OF assms(1,2)] assms(3) by (simp add: unique_inv_def)
  then show ?thesis using assms(4) by (simp add: request_ok_def)
qed

theorem own_responses_witness:
  "case system_run (demo_events @ [Wait 0 Response]) system_start of
     None \<Rightarrow> False | Some s \<Rightarrow> rq_result (sy_requests s ! 0) = Some (Inr [Some 10, Some (12 :: nat)])"
proof -
  let ?es = "demo_events @ [Wait 0 Response]"
  obtain s where s: "system_run ?es (system_start :: nat system) = Some s"
    and eval: "map rq_signature (sy_requests s) = [7]" "map rq_expected (sy_requests s) = [2]"
      "map (\<lambda>w. case rq_result w of Some (Inr r) \<Rightarrow> length r | _ \<Rightarrow> 0) (sy_requests s) = [2]"
  proof -
    have "case system_run ?es (system_start :: nat system) of None \<Rightarrow> False
        | Some s \<Rightarrow> map rq_signature (sy_requests s) = [7] \<and> map rq_expected (sy_requests s) = [2] \<and>
            map (\<lambda>w. case rq_result w of Some (Inr r) \<Rightarrow> length r | _ \<Rightarrow> 0) (sy_requests s) = [2]"
      by code_simp
    then show thesis using that by (auto split: option.split_asm)
  qed
  have "distinct (requested ?es)" by code_simp
  moreover have arr: "arrivals 7 ?es = [10, 12]" by code_simp
  moreover obtain w where w: "sy_requests s = [w]" using eval(1) by auto
  moreover obtain r where r: "rq_result w = Some (Inr r)" "length r = 2"
    using eval(3) w by (auto split: option.split_asm sum.split_asm)
  ultimately have "r = map Some (take (length r) (arrivals (rq_signature w) ?es))"
    using own_responses [OF run_reaches [OF s], of w r] by simp
  then show ?thesis using s r w arr eval(1) by simp
qed

text \<open>Also: a request whose payload cannot be sent returns the error of the send and leaves
  its signature registered: no later request can use it.\<close>

theorem failed_send_leaks:
  assumes "0 < n" and "map_of (match_m m) sig = None"
  shows "case SendMessage sig n insp (Some err) m of
    (m', r) \<Rightarrow> r = Inl err \<and> snd (SendMessage sig k insp' sending m') =
      (if k \<le> 0 then Inl errInvalidBufferSize else Inl errSignatureCollision)"
  using assms
  by (simp add: SendMessage_def match_Set_def Let_def update_conv' split: option.split)

theorem failed_send_leaks_witness:
  "snd (SendMessage 7 1 None None (fst (SendMessage 7 1 None (Some (Sentinel ''closed'')) (NewMatch :: nat matcher)))) =
    Inl errSignatureCollision"
  using failed_send_leaks [where n = 1 and m = "NewMatch :: nat matcher" and sig = 7 and insp = None and
      err = "Sentinel ''closed''" and k = 1 and insp' = None and sending = None]
  by (simp add: NewMatch_def split_beta)

text \<open>Also: when a signature is used again, the timer of a request all of whose responses have
  come can close the channel of the next request, which then returns nil as its response and no
  error.\<close>

theorem reused_signature:
  "case system_run [Request 7 1 None None, Arrive 7 10, Request 7 1 None None, Wait 0 Timeout, Wait 1 Response]
      system_start of
     None \<Rightarrow> False
   | Some s \<Rightarrow>
       rq_result (sy_requests s ! 0) = Some (Inl (Errorf ''%s %w %v'' [ErrSignatureTimeout])) \<and>
       rq_result (sy_requests s ! 1) = Some (Inr [None :: nat option])"
  by code_simp

end
