(* ===== verification/Spec2Isabelle.thy ===== *)
theory Spec2Isabelle
  imports Go_Rounding Common_Errors Asset Currency_Pairs Depth Alert Stream_Buffer Order_Detail Order_Limits Websocket_Routine Exchange_Endpoints Account Subscription_Lists Stream_Match
begin

text \<open>
  A model of the order routing core of \<open>cryptorouter\<close>: a FIX 4.2 gateway and an order manager that
  route the orders of FIX clients to crypto exchanges, on top of a library of exchange connectors that
  keeps order books, tickers, candles, balances and subscriptions.  All paths are below \<open>src/\<close>.

  \<^bold>\<open>The program and its parts.\<close>  A client's FIX message reaches the gateway (\<open>fixengine/fixgateway.go\<close>,
  theory \<open>Fix_Gateway\<close>), which validates it, submits the order to an exchange found by name in the
  exchange manager (\<open>exchange_manager.go\<close>, \<open>Exchange_Manager\<close>) and answers with execution reports.  What
  an exchange's websocket delivers passes the routine manager (\<open>websocketroutine_manager.go\<close>,
  \<open>Websocket_Routine\<close>) to the sync manager (\<open>sync_manager.go\<close>, \<open>Sync_Manager\<close>), which knows which data
  has arrived, to the ticker store, and, if it is an order, to the gateway and the order manager
  (\<open>order_manager.go\<close>; \<open>Order_Store\<close> is its store of orders, \<open>Order_Manager\<close> the rest), which keeps the
  orders, merges updates into them and in a periodic pass reports what changed.  Below lie the library
  packages, each a group of theories:

  \<^item> Go and \<open>common\<close>.  \<open>Go_Prelude\<close>: errors as values with \<open>errors.Is\<close>, time, strings, list lemmas.
    \<open>Go_Float\<close>, \<open>Go_Rounding\<close>: \<open>float64\<close> as rationals, rounded once for each operation, with signed
    zero, infinities and NaN, and the laws of rounding.  \<open>Go_Sort\<close>: \<open>sort.Slice\<close>.
    \<open>Common_Errors\<close>: \<open>common/common.go\<close>, the collection of errors.
  \<^item> \<open>currency\<close>.  \<open>Currency\<close>: the registry that interns codes, with pointers into an explicit store.
    \<open>Currency_Pair\<close>, \<open>Currency_Pairs\<close>: pairs, lists of pairs and of codes.  \<open>Pairs_Manager\<close>: the
    pairs of an exchange by asset type with the index by symbol.  \<open>Asset\<close>: \<open>exchanges/asset\<close>.
  \<^item> \<open>exchanges/orderbook\<close> and \<open>exchanges/stream\<close>.  \<open>Tranches\<close>, \<open>Movement\<close>: \<open>tranches.go\<close>, the levels
    of a side and what trading through them costs.  \<open>Depth\<close>: \<open>depth.go\<close>, a book with its validity.
    \<open>Book\<close>, \<open>Book_Service\<close>: \<open>orderbook.go\<close>, the checks of a book and the store of all books.
    \<open>Calculator\<close>: \<open>calculator.go\<close>.  \<open>Stream_Buffer\<close>: \<open>stream/buffer/buffer.go\<close>, the books fed by a
    websocket.  \<open>Stream_Match\<close>: \<open>stream/stream_match.go\<close>, requests and their responses.
    \<open>Alert\<close>: \<open>exchanges/alert/alert.go\<close>.  \<open>Dispatch\<close>: \<open>dispatch/dispatch.go\<close> and \<open>mux.go\<close>.
  \<^item> \<open>exchanges/order\<close>.  \<open>Order_Types\<close>: the enumerations and their masks and parsers.  \<open>Order\<close>,
    \<open>Order_Detail\<close>: \<open>orders.go\<close>, requests, their validation, and the managed order.  \<open>Order_Limits\<close>:
    \<open>limits.go\<close>.
  \<^item> \<open>exchanges/kline\<close>.  \<open>Kline\<close>, \<open>Kline_Ranges\<close>, \<open>Kline_Request\<close>: candles, ranges, requests.
  \<^item> The rest of \<open>exchanges\<close>.  \<open>Ticker\<close>: \<open>ticker/ticker.go\<close>.  \<open>Credentials\<close>, \<open>Account\<close>:
    \<open>account\<close>.  \<open>Subscription\<close>, \<open>Subscription_Lists\<close>: \<open>subscription\<close>.  \<open>Exchange_Base\<close>,
    \<open>Exchange_Endpoints\<close>: the common part of the connectors, \<open>exchange.go\<close>.

  \<^bold>\<open>How the code is modelled.\<close>  A struct is a record, a type with \<open>iota\<close> constants a word or a
  datatype, and an operation keeps its Go name (with a prefix such as \<open>om_\<close>, \<open>os_\<close>, \<open>sy_\<close>, \<open>ws_\<close> or
  \<open>pair_\<close> for the methods of one type where the bare name would clash).  A method that changes its
  receiver returns the new receiver; \<open>(T, error)\<close> is \<open>go_error + T\<close>; a panic is \<open>None\<close> or an outcome of
  its own.  Pointers are options, and where aliasing matters indices into an explicit heap: the items of
  the registry, the depths of the book service, subscriptions.  A map is a partial function, or an
  association list where the order of its iteration shows: Go leaves that order open, and the
  operations take it as an argument or the claim holds for every such list.  Loops are structural
  recursions on the part not passed yet.  A method that holds a mutex throughout is one step; where the
  code does not, the actions of the routines are the steps of a transition system (\<open>Alert\<close>,
  \<open>Dispatch\<close>, \<open>Stream_Match\<close>, and \<open>Start\<close> in \<open>Sync_Manager\<close>).  The clock, random numbers, UUIDs and
  what a scheduler decides are arguments.  Code that is not in the repository is a parameter: QuickFIX
  (messages are what their getters return, sending is appending to a log), the decimal library
  (\<open>decimal_ops\<close>, \<open>decimal_laws\<close>), the database (\<open>order_db\<close>; \<open>returns_stored\<close>, the one law a claim
  assumes, is for orders with ids and numbers), and the exchanges behind their interface.

  \<^bold>\<open>Bounds and fuel.\<close>  No definition uses fuel.  Recursions that are not structural have a measure
  or count levels (the unwrapping of errors in \<open>Common_Errors\<close>, with the source's equations proved).
  Machine integers are words where they can wrap, and durations saturate as \<open>time.Sub\<close> does;
  other \<open>int\<close> counters are unbounded, which the claims that depend on it say.  Floats are exact
  rationals rounded once an operation; claims of exactness are for whole numbers below \<open>2 ^ 53\<close>.
  \<open>sort.Slice\<close> is the insertion sort that the library runs on at most twelve elements; what is proved
  of it are the facts any stable or unstable sort of weakly ordered keys has, except where a theory
  says otherwise.

  \<^bold>\<open>What the lemmas show.\<close>  The claims C1 to C40 stand before their theorems, in the order of
  importance; texts that begin with ``Also'' precede further results.
  \<^item> Order books: updates by price and by id refine updates of a map (C1, C2); sides stay sorted and a
    failed update leaves an empty book that no reader trusts until a snapshot (C5, C6, C9); a verified
    book is in order (C19); the store keeps books apart and returns what it was given (C13, C26); a
    stream leaves a book either invalid or passing its check (C10); movements and simulated trades are
    exact on whole numbers (C33, C34).
  \<^item> Orders: the store is a map from ids to orders (C3, C4); submission, placement and cancellation
    have exactly the outcomes stated (C7, C8, C15); updates of an order keep its trades (C14) and a
    valid submission gives valid orders (C27); an update delivered twice and the periodic pass do not
    report twice, under the conditions stated (C22, C28); the limits that the check enforces (C39).
  \<^item> Candles: the cut of a period (C17), the request (C18), its response (C12, C23), conversion (C24),
    and candles from trades (C25).
  \<^item> Pairs and currencies: interning (C35), the index by symbol (C16), enabling (C36), updates (C11).
  \<^item> Concurrency: no send on a closed channel and exact relaying in the dispatcher (C20, C21), requests
    get their own responses and never block the reader (C32, C37), alerts finish (C40), the initial
    sync ends when every item was updated (C29).
  \<^item> Accounts and subscriptions: balances (C30), no duplicates (C31), grouping (C38).

  Laws that several operations share are locales, interpreted on the model's operations:
  \<open>price_order\<close> (\<open>Tranches\<close>, for bids and asks), \<open>side_invariant\<close> (\<open>Depth\<close>, for books by price and by
  id) and \<open>registry_op\<close> (\<open>Currency\<close>, for the operations on the registry).  Invariants of state machines
  (\<open>store_reachable\<close>, \<open>pm_reachable\<close>, \<open>sync_reachable\<close>, \<open>reaches\<close> and those of \<open>Alert\<close> and
  \<open>Dispatch\<close>) are proved by rule induction over all steps in any order.  Some carry what is needed to
  say how far a property holds: the ids that modifications gave to a second order, the asset types
  whose pairs were written behind the index, the runs of \<open>Start\<close> that are not over.

  \<^bold>\<open>Where the code does not do what it says.\<close>  Several theorems state behaviour that is a defect: limits
  of a submission are checked and ignored (\<open>limits_ignored\<close>), a modification can give two orders one id
  (\<open>clashing_modification\<close>), the initial sync counts failed fetches and blocks after a restart
  (\<open>failed_update_counts\<close>, \<open>restart_blocks\<close>), the market maximum is not looked at without a general one
  (\<open>market_maximum_ignored\<close>), grouping loses the settings of all but the first subscription (C38),
  a reused signature can close the channel of the next request (\<open>reused_signature\<close>), and others.

  \<^bold>\<open>What is not modelled.\<close>  The connectors of single exchanges, HTTP and websocket connections, the
  database, configuration files, communications and the RPC layer: their behaviour is that of the
  services and libraries they call.  The upstream \<open>engine\<close>, of whose managers those in \<open>fixengine\<close> are
  the ones the program runs; the backtester, scripts and command line tools, which are other programs.
  Of modelled files: texts that are only logged, \<open>processFuturesPositions\<close> of the order manager, which
  nothing calls, the setup of an exchange from its configuration, and the templates of subscriptions.
  Still to be done are positions of futures (\<open>exchanges/futures\<close>), trades (\<open>exchanges/trade\<close>), currency
  conversion and the managers of the engine that run on timers.
\<close>

end
